(* ===== verification/Task_State.thy ===== *)
theory Task_State
  imports Prelude
begin

text \<open>
  \<open>turul-a2a-types\<close>: the task states, their protobuf enum (numbers and names of
  \<open>a2a.proto\<close>), the transition table of \<open>state_machine.rs\<close>, the error type of \<open>error.rs\<close>, and
  the path relation of the lifecycle with what can be reached from where.
\<close>

section \<open>States and errors\<close>

datatype task_state =
    Submitted | Working | Completed | Failed | Canceled | InputRequired | Rejected | AuthRequired

datatype pb_task_state =
    PbUnspecified | PbSubmitted | PbWorking | PbCompleted | PbFailed | PbCanceled
  | PbInputRequired | PbRejected | PbAuthRequired

datatype a2a_type_error =
    TE_InvalidTransition task_state task_state
  | TE_TerminalState task_state
  | TE_InvalidState
  | TE_MissingField string
  | TE_Deserialization string

instantiation task_state :: enum
begin

definition enum_task_state :: "task_state list" where
  "enum_task_state =
     [Submitted, Working, Completed, Failed, Canceled, InputRequired, Rejected, AuthRequired]"

definition enum_all_task_state :: "(task_state \<Rightarrow> bool) \<Rightarrow> bool" where
  "enum_all_task_state P \<longleftrightarrow> list_all P enum_class.enum"

definition enum_ex_task_state :: "(task_state \<Rightarrow> bool) \<Rightarrow> bool" where
  "enum_ex_task_state P \<longleftrightarrow> list_ex P enum_class.enum"

instance
proof
  have univ: "x \<in> set (enum_class.enum :: task_state list)" for x
    by (cases x) (simp_all add: enum_task_state_def)
  then show "(UNIV :: task_state set) = set enum_class.enum" by blast
  show "distinct (enum_class.enum :: task_state list)" by (simp add: enum_task_state_def)
  show "enum_class.enum_all P \<longleftrightarrow> Ball UNIV P" for P :: "task_state \<Rightarrow> bool"
    using univ by (auto simp: enum_all_task_state_def list_all_iff)
  show "enum_class.enum_ex P \<longleftrightarrow> Bex UNIV P" for P :: "task_state \<Rightarrow> bool"
    using univ by (auto simp: enum_ex_task_state_def list_ex_iff)
qed

end

section \<open>The protobuf enum\<close>

text \<open>
  The enum \<open>TaskState\<close> of \<open>a2a.proto\<close>: the value of each name, read back from an \<open>i32\<close>
  field (an unknown number is no value), and the names used on the JSON wire.
\<close>

fun pb_i32 :: "pb_task_state \<Rightarrow> int" where
  "pb_i32 PbUnspecified = 0"
| "pb_i32 PbSubmitted = 1"
| "pb_i32 PbWorking = 2"
| "pb_i32 PbCompleted = 3"
| "pb_i32 PbFailed = 4"
| "pb_i32 PbCanceled = 5"
| "pb_i32 PbInputRequired = 6"
| "pb_i32 PbRejected = 7"
| "pb_i32 PbAuthRequired = 8"

definition pb_all :: "pb_task_state list" where
  "pb_all = [PbUnspecified, PbSubmitted, PbWorking, PbCompleted, PbFailed, PbCanceled,
     PbInputRequired, PbRejected, PbAuthRequired]"

definition pb_of_i32 :: "int \<Rightarrow> pb_task_state option" where
  "pb_of_i32 n = find (\<lambda>s. pb_i32 s = n) pb_all"

fun pb_as_str_name :: "pb_task_state \<Rightarrow> string" where
  "pb_as_str_name PbUnspecified = ''TASK_STATE_UNSPECIFIED''"
| "pb_as_str_name PbSubmitted = ''TASK_STATE_SUBMITTED''"
| "pb_as_str_name PbWorking = ''TASK_STATE_WORKING''"
| "pb_as_str_name PbCompleted = ''TASK_STATE_COMPLETED''"
| "pb_as_str_name PbFailed = ''TASK_STATE_FAILED''"
| "pb_as_str_name PbCanceled = ''TASK_STATE_CANCELED''"
| "pb_as_str_name PbInputRequired = ''TASK_STATE_INPUT_REQUIRED''"
| "pb_as_str_name PbRejected = ''TASK_STATE_REJECTED''"
| "pb_as_str_name PbAuthRequired = ''TASK_STATE_AUTH_REQUIRED''"

definition pb_from_str_name :: "string \<Rightarrow> pb_task_state option" where
  "pb_from_str_name name = find (\<lambda>s. pb_as_str_name s = name) pb_all"

section \<open>Conversions (\<open>task.rs\<close>)\<close>

fun state_try_from_pb :: "pb_task_state \<Rightarrow> a2a_type_error + task_state" where
  "state_try_from_pb PbSubmitted = Inr Submitted"
| "state_try_from_pb PbWorking = Inr Working"
| "state_try_from_pb PbCompleted = Inr Completed"
| "state_try_from_pb PbFailed = Inr Failed"
| "state_try_from_pb PbCanceled = Inr Canceled"
| "state_try_from_pb PbInputRequired = Inr InputRequired"
| "state_try_from_pb PbRejected = Inr Rejected"
| "state_try_from_pb PbAuthRequired = Inr AuthRequired"
| "state_try_from_pb PbUnspecified = Inl TE_InvalidState"

fun pb_from_state :: "task_state \<Rightarrow> pb_task_state" where
  "pb_from_state Submitted = PbSubmitted"
| "pb_from_state Working = PbWorking"
| "pb_from_state Completed = PbCompleted"
| "pb_from_state Failed = PbFailed"
| "pb_from_state Canceled = PbCanceled"
| "pb_from_state InputRequired = PbInputRequired"
| "pb_from_state Rejected = PbRejected"
| "pb_from_state AuthRequired = PbAuthRequired"

definition state_try_from_i32 :: "int \<Rightarrow> a2a_type_error + task_state" where
  "state_try_from_i32 n = (case pb_of_i32 n of None \<Rightarrow> Inl TE_InvalidState
     | Some p \<Rightarrow> state_try_from_pb p)"

definition wire_name :: "task_state \<Rightarrow> string" where
  "wire_name s = pb_as_str_name (pb_from_state s)"

definition from_wire_name :: "string \<Rightarrow> task_state option" where
  "from_wire_name name = Option.bind (pb_from_str_name name)
     (\<lambda>p. case state_try_from_pb p of Inl _ \<Rightarrow> None | Inr s \<Rightarrow> Some s)"

lemma state_pb_roundtrip [simp, wire_simps]: "state_try_from_pb (pb_from_state s) = Inr s"
  by (cases s) simp_all

lemma pb_of_i32_roundtrip [simp, wire_simps]: "pb_of_i32 (pb_i32 p) = Some p"
  by (cases p) (simp_all add: pb_of_i32_def pb_all_def)

lemma state_i32_roundtrip [simp, wire_simps]:
  "state_try_from_i32 (pb_i32 (pb_from_state s)) = Inr s"
  by (simp add: state_try_from_i32_def)

lemma pb_from_str_name_roundtrip [simp, wire_simps]: "pb_from_str_name (pb_as_str_name p) = Some p"
  by (cases p) (simp_all add: pb_from_str_name_def pb_all_def)

lemma pb_from_str_name_SomeD: "pb_from_str_name name = Some p \<Longrightarrow> pb_as_str_name p = name"
  by (auto simp: pb_from_str_name_def find_Some_iff)

lemma state_try_from_pb_Inr: "state_try_from_pb p = Inr s \<longleftrightarrow> p = pb_from_state s"
  by (cases p; cases s) auto

section \<open>The transition table (\<open>state_machine.rs\<close>)\<close>

fun validate_transition :: "task_state \<Rightarrow> task_state \<Rightarrow> a2a_type_error + unit" where
  "validate_transition Submitted to =
     (case to of Working \<Rightarrow> Inr () | Rejected \<Rightarrow> Inr () | Failed \<Rightarrow> Inr () | Canceled \<Rightarrow> Inr ()
      | _ \<Rightarrow> Inl (TE_InvalidTransition Submitted to))"
| "validate_transition Working to =
     (case to of Completed \<Rightarrow> Inr () | Failed \<Rightarrow> Inr () | Canceled \<Rightarrow> Inr () | Rejected \<Rightarrow> Inr ()
      | InputRequired \<Rightarrow> Inr () | AuthRequired \<Rightarrow> Inr ()
      | _ \<Rightarrow> Inl (TE_InvalidTransition Working to))"
| "validate_transition InputRequired to =
     (case to of Working \<Rightarrow> Inr () | Completed \<Rightarrow> Inr () | Failed \<Rightarrow> Inr () | Canceled \<Rightarrow> Inr ()
      | Rejected \<Rightarrow> Inr ()
      | _ \<Rightarrow> Inl (TE_InvalidTransition InputRequired to))"
| "validate_transition AuthRequired to =
     (case to of Working \<Rightarrow> Inr () | Failed \<Rightarrow> Inr () | Canceled \<Rightarrow> Inr () | Rejected \<Rightarrow> Inr ()
      | _ \<Rightarrow> Inl (TE_InvalidTransition AuthRequired to))"
| "validate_transition from to = Inl (TE_TerminalState from)"

definition TERMINAL_STATES :: "task_state list" where
  "TERMINAL_STATES = [Completed, Failed, Canceled, Rejected]"

definition EXECUTOR_HELD_STATES :: "task_state list" where
  "EXECUTOR_HELD_STATES = [Submitted, Working]"

definition CLIENT_HELD_STATES :: "task_state list" where
  "CLIENT_HELD_STATES = [InputRequired, AuthRequired]"

definition is_terminal :: "task_state \<Rightarrow> bool" where
  "is_terminal s \<longleftrightarrow> s \<in> set TERMINAL_STATES"

definition can_transition_to :: "task_state \<Rightarrow> task_state \<Rightarrow> bool" where
  "can_transition_to s next \<longleftrightarrow> (case validate_transition s next of Inr _ \<Rightarrow> True | Inl _ \<Rightarrow> False)"

lemma is_terminal_simps [simp]:
  "is_terminal Completed" "is_terminal Failed" "is_terminal Canceled" "is_terminal Rejected"
  "\<not> is_terminal Submitted" "\<not> is_terminal Working" "\<not> is_terminal InputRequired"
  "\<not> is_terminal AuthRequired"
  by (simp_all add: is_terminal_def TERMINAL_STATES_def)

lemma validate_terminal: "is_terminal s \<Longrightarrow> validate_transition s t = Inl (TE_TerminalState s)"
  by (cases s) simp_all

lemma validate_nonterminal:
  "\<not> is_terminal s \<Longrightarrow> validate_transition s t = Inr () \<or>
     validate_transition s t = Inl (TE_InvalidTransition s t)"
  by (cases s; cases t) simp_all

lemma validate_ok_nonterminal: "validate_transition s t = Inr () \<Longrightarrow> \<not> is_terminal s"
  using validate_terminal [of s t] by auto

lemma validate_error:
  "validate_transition s t = Inl e \<Longrightarrow>
     (is_terminal s \<and> e = TE_TerminalState s) \<or> (\<not> is_terminal s \<and> e = TE_InvalidTransition s t)"
  using validate_terminal [of s t] validate_nonterminal [of s t] by auto

text \<open>The three groups of states are a partition.\<close>

lemma state_groups:
  "\<forall>s. is_terminal s \<noteq> (s \<in> set EXECUTOR_HELD_STATES \<or> s \<in> set CLIENT_HELD_STATES)"
  by code_simp

lemma client_held_not_terminal: "s \<in> set CLIENT_HELD_STATES \<Longrightarrow> \<not> is_terminal s"
  using state_groups by blast

lemma executor_held_not_terminal: "s \<in> set EXECUTOR_HELD_STATES \<Longrightarrow> \<not> is_terminal s"
  using state_groups by blast

section \<open>Lifecycles: paths of accepted transitions\<close>

inductive lifecycle :: "task_state \<Rightarrow> task_state list \<Rightarrow> task_state \<Rightarrow> bool" where
  stay: "lifecycle s [] s"
| move: "validate_transition s t = Inr () \<Longrightarrow> lifecycle t ts u \<Longrightarrow> lifecycle s (t # ts) u"

inductive_cases lifecycle_NilE: "lifecycle s [] u"
inductive_cases lifecycle_ConsE: "lifecycle s (t # ts) u"
inductive_simps lifecycle_simps: "lifecycle s [] u" "lifecycle s (t # ts) u"

lemma lifecycle_from_terminal: "lifecycle s ts u \<Longrightarrow> is_terminal s \<Longrightarrow> ts = [] \<and> u = s"
  by (erule lifecycle.cases) (auto dest: validate_ok_nonterminal)

lemma lifecycle_append:
  "lifecycle s (xs @ ys) u \<longleftrightarrow> (\<exists>m. lifecycle s xs m \<and> lifecycle m ys u)"
  by (induction xs arbitrary: s) (auto simp: lifecycle_simps)

text \<open>The states visited on the way are not terminal, only the last may be.\<close>

lemma lifecycle_visits: "lifecycle s (ts @ [u]) v \<Longrightarrow> t \<in> set ts \<Longrightarrow> \<not> is_terminal t"
proof (induction ts arbitrary: s)
  case (Cons t' ts)
  then show ?case
    by (auto simp: lifecycle_simps)
      (metis append_is_Nil_conv lifecycle_from_terminal not_Cons_self2)
qed simp

text \<open>Every state can be reached, and a life passes through no terminal state.\<close>

lemma task_lifecycle:
  "(is_terminal s \<longrightarrow> validate_transition s t = Inl (TE_TerminalState s)) \<and>
   (\<not> is_terminal s \<longrightarrow> validate_transition s t \<in> {Inr (), Inl (TE_InvalidTransition s t)}) \<and>
   (\<exists>path. lifecycle Submitted path t) \<and>
   (lifecycle s (ts @ [u]) v \<longrightarrow> (\<forall>x \<in> set ts. \<not> is_terminal x))"
proof -
  have "lifecycle Submitted [] Submitted" "lifecycle Submitted [Working] Working"
    "lifecycle Submitted [Working, Completed] Completed" "lifecycle Submitted [Working, Failed] Failed"
    "lifecycle Submitted [Working, Canceled] Canceled" "lifecycle Submitted [Working, InputRequired] InputRequired"
    "lifecycle Submitted [Working, AuthRequired] AuthRequired" "lifecycle Submitted [Rejected] Rejected"
    by (simp_all add: lifecycle_simps)
  then have "\<exists>path. lifecycle Submitted path t" by (cases t) blast+
  then show ?thesis
    using validate_terminal validate_nonterminal lifecycle_visits [of s ts u v] by auto
qed

end
