(* ===== verification/Task_Model.thy ===== *)
theory Task_Model
  imports Task_State
begin

text \<open>
  The protobuf messages the code stores and moves (\<open>a2a.proto\<close>) and their wrappers in
  \<open>turul-a2a-types\<close>: \<open>TaskStatus\<close>, \<open>Task\<close>, \<open>Artifact\<close>, \<open>Part\<close> and \<open>Message\<close>. A wrapper is
  its \<open>inner\<close> proto record; \<open>TryFrom\<close> is the validation. Free-form JSON (\<open>Struct\<close>,
  \<open>Value\<close>) is kept as its text, which this code never looks into.
\<close>

section \<open>Messages of the protocol\<close>

record timestamp =
  ts_seconds :: int
  ts_nanos :: int

datatype part_content = PText string | PRaw "nat list" | PUrl string | PData string

record pb_part =
  part_content :: "part_content option"
  part_metadata :: "string option"
  part_filename :: string
  part_media_type :: string

datatype pb_role = PbRoleUnspecified | PbRoleUser | PbRoleAgent

datatype role = User | Agent

fun pb_role_i32 :: "pb_role \<Rightarrow> int" where
  "pb_role_i32 PbRoleUnspecified = 0"
| "pb_role_i32 PbRoleUser = 1"
| "pb_role_i32 PbRoleAgent = 2"

fun pb_from_role :: "role \<Rightarrow> pb_role" where
  "pb_from_role User = PbRoleUser"
| "pb_from_role Agent = PbRoleAgent"

fun role_try_from_pb :: "pb_role \<Rightarrow> a2a_type_error + role" where
  "role_try_from_pb PbRoleUser = Inr User"
| "role_try_from_pb PbRoleAgent = Inr Agent"
| "role_try_from_pb PbRoleUnspecified = Inl TE_InvalidState"

record pb_message =
  msg_message_id :: string
  msg_context_id :: string
  msg_task_id :: string
  msg_role :: int
  msg_parts :: "pb_part list"
  msg_metadata :: "string option"
  msg_extensions :: "string list"
  msg_reference_task_ids :: "string list"

record pb_artifact =
  art_artifact_id :: string
  art_name :: string
  art_description :: string
  art_parts :: "pb_part list"
  art_metadata :: "string option"
  art_extensions :: "string list"

record pb_task_status =
  st_state :: int
  st_message :: "pb_message option"
  st_timestamp :: "timestamp option"

record pb_task =
  tk_id :: string
  tk_context_id :: string
  tk_status :: "pb_task_status option"
  tk_artifacts :: "pb_artifact list"
  tk_history :: "pb_message list"
  tk_metadata :: "string option"

section \<open>Parts, messages, artifacts\<close>

definition part_text :: "string \<Rightarrow> pb_part" where
  "part_text t = \<lparr>part_content = Some (PText t), part_metadata = None, part_filename = '''',
     part_media_type = ''text/plain''\<rparr>"

definition part_as_text :: "pb_part \<Rightarrow> string option" where
  "part_as_text p = (case part_content p of Some (PText t) \<Rightarrow> Some t | _ \<Rightarrow> None)"

definition message_new :: "string \<Rightarrow> role \<Rightarrow> pb_part list \<Rightarrow> pb_message" where
  "message_new i r parts = \<lparr>msg_message_id = i, msg_context_id = '''', msg_task_id = '''',
     msg_role = pb_role_i32 (pb_from_role r), msg_parts = parts, msg_metadata = None,
     msg_extensions = [], msg_reference_task_ids = []\<rparr>"

definition message_text_parts :: "pb_message \<Rightarrow> string list" where
  "message_text_parts m = List.map_filter part_as_text (msg_parts m)"

definition artifact_new :: "string \<Rightarrow> pb_part list \<Rightarrow> pb_artifact" where
  "artifact_new i parts = \<lparr>art_artifact_id = i, art_name = '''', art_description = '''',
     art_parts = parts, art_metadata = None, art_extensions = []\<rparr>"

definition artifact_with_name :: "string \<Rightarrow> pb_artifact \<Rightarrow> pb_artifact" where
  "artifact_with_name n a = a\<lparr>art_name := n\<rparr>"

section \<open>\<open>TaskStatus\<close>\<close>

definition task_status_new :: "task_state \<Rightarrow> pb_task_status" where
  "task_status_new s = \<lparr>st_state = pb_i32 (pb_from_state s), st_message = None, st_timestamp = None\<rparr>"

definition status_with_message :: "pb_message \<Rightarrow> pb_task_status \<Rightarrow> pb_task_status" where
  "status_with_message m st = st\<lparr>st_message := Some m\<rparr>"

definition status_state :: "pb_task_status \<Rightarrow> a2a_type_error + task_state" where
  "status_state st = (case pb_of_i32 (st_state st) of None \<Rightarrow> Inl TE_InvalidState
     | Some p \<Rightarrow> state_try_from_pb p)"

definition task_status_try_from :: "pb_task_status \<Rightarrow> a2a_type_error + pb_task_status" where
  "task_status_try_from st = (case pb_of_i32 (st_state st) of
       None \<Rightarrow> Inl TE_InvalidState
     | Some p \<Rightarrow> if p = PbUnspecified then Inl TE_InvalidState else Inr st)"

section \<open>\<open>Task\<close>\<close>

definition task_new :: "string \<Rightarrow> pb_task_status \<Rightarrow> pb_task" where
  "task_new i st = \<lparr>tk_id = i, tk_context_id = '''', tk_status = Some st, tk_artifacts = [],
     tk_history = [], tk_metadata = None\<rparr>"

definition task_with_context_id :: "string \<Rightarrow> pb_task \<Rightarrow> pb_task" where
  "task_with_context_id c t = t\<lparr>tk_context_id := c\<rparr>"

text \<open>\<open>Task::status\<close>: a stored status that does not validate reads as none.\<close>

definition task_status :: "pb_task \<Rightarrow> pb_task_status option" where
  "task_status t = Option.bind (tk_status t)
     (\<lambda>st. case task_status_try_from st of Inl _ \<Rightarrow> None | Inr st' \<Rightarrow> Some st')"

text \<open>\<open>task.status().and_then(|s| s.state().ok())\<close>, the idiom of every caller.\<close>

definition task_state_of :: "pb_task \<Rightarrow> task_state option" where
  "task_state_of t = Option.bind (task_status t)
     (\<lambda>st. case status_state st of Inl _ \<Rightarrow> None | Inr s \<Rightarrow> Some s)"

definition task_append_message :: "pb_message \<Rightarrow> pb_task \<Rightarrow> pb_task" where
  "task_append_message m t = t\<lparr>tk_history := tk_history t @ [m]\<rparr>"

definition task_append_artifact :: "pb_artifact \<Rightarrow> pb_task \<Rightarrow> pb_task" where
  "task_append_artifact a t = t\<lparr>tk_artifacts := tk_artifacts t @ [a]\<rparr>"

text \<open>\<open>iter_mut().find(..)\<close> then \<open>parts.extend(..)\<close>: the first artifact of that id grows.\<close>

fun extend_first_parts :: "string \<Rightarrow> pb_part list \<Rightarrow> pb_artifact list \<Rightarrow> pb_artifact list option" where
  "extend_first_parts i ps [] = None"
| "extend_first_parts i ps (a # as) =
     (if art_artifact_id a = i then Some (a\<lparr>art_parts := art_parts a @ ps\<rparr> # as)
      else map_option ((#) a) (extend_first_parts i ps as))"

definition merge_artifact :: "pb_artifact \<Rightarrow> bool \<Rightarrow> bool \<Rightarrow> pb_task \<Rightarrow> pb_task" where
  "merge_artifact a app last_chunk t =
     (if app then
        (case extend_first_parts (art_artifact_id a) (art_parts a) (tk_artifacts t) of
           Some as \<Rightarrow> t\<lparr>tk_artifacts := as\<rparr>
         | None \<Rightarrow> task_append_artifact a t)
      else task_append_artifact a t)"

definition set_status :: "pb_task_status \<Rightarrow> pb_task \<Rightarrow> pb_task" where
  "set_status st t = t\<lparr>tk_status := Some st\<rparr>"

definition task_complete :: "pb_task \<Rightarrow> pb_task" where
  "task_complete t = set_status (task_status_new Completed) t"

text \<open>\<open>Task::fail\<close>; the fresh message id is the argument \<open>uuid\<close>.\<close>

definition task_fail :: "string \<Rightarrow> string \<Rightarrow> pb_task \<Rightarrow> pb_task" where
  "task_fail uuid text t =
     (let msg = message_new uuid Agent [part_text text]
      in set_status (status_with_message msg (task_status_new Failed)) t)"

definition push_text_artifact :: "string \<Rightarrow> string \<Rightarrow> string \<Rightarrow> pb_task \<Rightarrow> pb_task" where
  "push_text_artifact i n text t =
     task_append_artifact (artifact_with_name n (artifact_new i [part_text text])) t"

definition task_try_from :: "pb_task \<Rightarrow> a2a_type_error + pb_task" where
  "task_try_from t = (if tk_id t = [] then Inl (TE_MissingField ''id'')
     else case tk_status t of
         None \<Rightarrow> Inl (TE_MissingField ''status'')
       | Some st \<Rightarrow> (case pb_of_i32 (st_state st) of
             None \<Rightarrow> Inl TE_InvalidState
           | Some p \<Rightarrow> if p = PbUnspecified then Inl TE_InvalidState else Inr t))"

section \<open>Facts\<close>

lemma status_state_new [simp]: "status_state (task_status_new s) = Inr s"
  by (simp add: status_state_def task_status_new_def)

lemma status_state_with_message [simp]:
  "status_state (status_with_message m st) = status_state st"
  by (simp add: status_state_def status_with_message_def)

lemma status_state_timestamp [simp]:
  "status_state (st\<lparr>st_timestamp := x\<rparr>) = status_state st"
  by (simp add: status_state_def)

lemma status_state_Inl: "status_state st = Inl e \<Longrightarrow> e = TE_InvalidState"
proof -
  have "state_try_from_pb p = Inl e \<Longrightarrow> e = TE_InvalidState" for p
    by (cases p) auto
  then show "status_state st = Inl e \<Longrightarrow> e = TE_InvalidState"
    by (auto simp: status_state_def split: option.splits)
qed

lemma task_status_try_from_eq:
  "task_status_try_from st = (case status_state st of Inl _ \<Rightarrow> Inl TE_InvalidState | Inr _ \<Rightarrow> Inr st)"
proof (cases "pb_of_i32 (st_state st)")
  case (Some p)
  then show ?thesis
    by (cases p) (auto simp: task_status_try_from_def status_state_def)
qed (simp add: task_status_try_from_def status_state_def)

lemma task_status_eq:
  "task_status t = (case tk_status t of None \<Rightarrow> None
     | Some st \<Rightarrow> (case status_state st of Inl _ \<Rightarrow> None | Inr _ \<Rightarrow> Some st))"
  by (cases "tk_status t") (auto simp: task_status_def task_status_try_from_eq split: sum.splits)

lemma task_state_of_eq:
  "task_state_of t = (case tk_status t of None \<Rightarrow> None
     | Some st \<Rightarrow> (case status_state st of Inl _ \<Rightarrow> None | Inr s \<Rightarrow> Some s))"
  by (cases "tk_status t") (auto simp: task_state_of_def task_status_eq split: sum.splits)

lemma task_state_of_iff:
  "task_state_of t = Some s \<longleftrightarrow> (\<exists>st. tk_status t = Some st \<and> status_state st = Inr s)"
  by (auto simp: task_state_of_eq split: sum.splits option.splits)

lemma task_status_Some:
  "task_status t = Some st \<longleftrightarrow> tk_status t = Some st \<and> (\<exists>s. status_state st = Inr s)"
  by (auto simp: task_status_eq split: sum.splits option.splits)

lemma task_status_None_iff: "task_status t = None \<longleftrightarrow> task_state_of t = None"
  by (auto simp: task_state_of_eq task_status_eq split: sum.splits option.splits)

lemma task_try_from_eq:
  "task_try_from t = (if tk_id t = [] then Inl (TE_MissingField ''id'')
     else case tk_status t of None \<Rightarrow> Inl (TE_MissingField ''status'')
     | Some st \<Rightarrow> (case status_state st of Inl _ \<Rightarrow> Inl TE_InvalidState | Inr _ \<Rightarrow> Inr t))"
proof (cases "tk_status t")
  case (Some st)
  then show ?thesis
    using task_status_try_from_eq [of st]
    by (auto simp: task_try_from_def task_status_try_from_def split: option.splits sum.splits)
qed (simp add: task_try_from_def)

lemma task_try_from_iff:
  "task_try_from t = Inr t' \<longleftrightarrow> t' = t \<and> tk_id t \<noteq> [] \<and> (\<exists>s. task_state_of t = Some s)"
  by (auto simp: task_try_from_eq task_state_of_eq split: option.splits sum.splits)

lemma task_state_of_set_status:
  "task_state_of (t\<lparr>tk_status := Some st\<rparr>) = (case status_state st of Inl _ \<Rightarrow> None | Inr s \<Rightarrow> Some s)"
  by (simp add: task_state_of_eq)

lemma task_append_message_simps [simp]:
  "tk_id (task_append_message m t) = tk_id t"
  "task_state_of (task_append_message m t) = task_state_of t"
  by (simp_all add: task_append_message_def task_state_of_def task_status_def)

lemma task_append_artifact_simps [simp]:
  "tk_id (task_append_artifact a t) = tk_id t"
  "tk_status (task_append_artifact a t) = tk_status t"
  "task_state_of (task_append_artifact a t) = task_state_of t"
  by (simp_all add: task_append_artifact_def task_state_of_def task_status_def)

lemma task_state_of_artifacts [simp]:
  "task_state_of (t\<lparr>tk_artifacts := x\<rparr>) = task_state_of t"
  by (simp add: task_state_of_def task_status_def)

lemma task_state_of_history [simp]:
  "task_state_of (t\<lparr>tk_history := x\<rparr>) = task_state_of t"
  by (simp add: task_state_of_def task_status_def)

lemma merge_artifact_simps [simp]:
  "tk_id (merge_artifact a ap lc t) = tk_id t"
  "tk_status (merge_artifact a ap lc t) = tk_status t"
  "task_state_of (merge_artifact a ap lc t) = task_state_of t"
  by (auto simp: merge_artifact_def split: option.splits)

lemma extend_first_parts_None:
  "extend_first_parts i ps as = None \<longleftrightarrow> i \<notin> art_artifact_id ` set as"
  by (induction as) auto

lemma extend_first_parts_ids:
  "extend_first_parts i ps as = Some bs \<Longrightarrow>
     map art_artifact_id bs = map art_artifact_id as"
  by (induction as arbitrary: bs) (auto split: if_splits)

text \<open>What is stored, read as one list of parts, grows by exactly the parts that came in.\<close>

definition all_parts :: "string \<Rightarrow> pb_artifact list \<Rightarrow> pb_part list" where
  "all_parts i as = concat (map art_parts (filter (\<lambda>a. art_artifact_id a = i) as))"

lemma extend_first_parts_all_parts:
  assumes "extend_first_parts i ps as = Some bs"
  shows "mset (all_parts j bs) = mset (all_parts j as) + (if j = i then mset ps else {#})"
  using assms
  by (induction as arbitrary: bs) (auto simp: all_parts_def split: if_splits)

lemma merge_artifact_parts:
  "mset (all_parts j (tk_artifacts (merge_artifact a app lc t))) =
     mset (all_parts j (tk_artifacts t)) +
       (if j = art_artifact_id a then mset (art_parts a) else {#})"
proof (cases "app \<and> extend_first_parts (art_artifact_id a) (art_parts a) (tk_artifacts t) \<noteq> None")
  case True
  then obtain as
    where "app" "extend_first_parts (art_artifact_id a) (art_parts a) (tk_artifacts t) = Some as"
    by auto
  then show ?thesis
    by (simp add: merge_artifact_def extend_first_parts_all_parts)
next
  case False
  then have "tk_artifacts (merge_artifact a app lc t) = tk_artifacts t @ [a]"
    by (auto simp: merge_artifact_def task_append_artifact_def)
  then show ?thesis by (auto simp: all_parts_def)
qed

text \<open>Chunks appended to an artifact that is there never add an entry, and keep the order.\<close>

lemma merge_artifact_append_ids:
  "map art_artifact_id (tk_artifacts (merge_artifact a True lc t)) =
     (if art_artifact_id a \<in> art_artifact_id ` set (tk_artifacts t)
      then map art_artifact_id (tk_artifacts t)
      else map art_artifact_id (tk_artifacts t) @ [art_artifact_id a])"
proof (cases "extend_first_parts (art_artifact_id a) (art_parts a) (tk_artifacts t)")
  case None
  then have "art_artifact_id a \<notin> art_artifact_id ` set (tk_artifacts t)"
    by (simp add: extend_first_parts_None)
  with None show ?thesis
    by (simp add: merge_artifact_def task_append_artifact_def)
next
  case (Some as)
  then have "art_artifact_id a \<in> art_artifact_id ` set (tk_artifacts t)"
    using extend_first_parts_None [of "art_artifact_id a" "art_parts a" "tk_artifacts t"] by auto
  with Some show ?thesis
    by (simp add: merge_artifact_def extend_first_parts_ids)
qed

end
