(* ===== verification/Stream_Event.thy ===== *)
theory Stream_Event
  imports Task_Model
begin

text \<open>
  \<open>streaming/mod.rs\<close>: the persisted stream events and the wake-up broker. The payload's
  \<open>status\<close> and \<open>artifact\<close> are JSON values that the code only ever makes with
  \<open>serde_json::to_value\<close> of a \<open>TaskStatus\<close> or \<open>Artifact\<close>; the model keeps the record the
  JSON stands for (the JSON codec is generated, not in the repository).
\<close>

record status_update_payload =
  su_task_id :: string
  su_context_id :: string
  su_status :: pb_task_status

record artifact_update_payload =
  au_task_id :: string
  au_context_id :: string
  au_artifact :: pb_artifact
  au_append :: bool
  au_last_chunk :: bool

datatype stream_event =
    StatusUpdate status_update_payload
  | ArtifactUpdate artifact_update_payload

fun event_task_state :: "stream_event \<Rightarrow> task_state option" where
  "event_task_state (StatusUpdate su) =
     (case task_status_try_from (su_status su) of
        Inl _ \<Rightarrow> None
      | Inr st \<Rightarrow> (case status_state st of Inl _ \<Rightarrow> None | Inr s \<Rightarrow> Some s))"
| "event_task_state (ArtifactUpdate au) = None"

definition event_is_terminal :: "stream_event \<Rightarrow> bool" where
  "event_is_terminal e \<longleftrightarrow> (case event_task_state e of None \<Rightarrow> False | Some s \<Rightarrow> is_terminal s)"

definition is_status_update :: "stream_event \<Rightarrow> bool" where
  "is_status_update e \<longleftrightarrow> (case e of StatusUpdate _ \<Rightarrow> True | ArtifactUpdate _ \<Rightarrow> False)"

lemma event_task_state_status [simp]:
  "event_task_state (StatusUpdate su) =
     (case status_state (su_status su) of Inl _ \<Rightarrow> None | Inr s \<Rightarrow> Some s)"
  by (auto simp: task_status_try_from_eq split: sum.splits)

declare event_task_state.simps(1) [simp del]

lemma event_is_terminal_status_update: "event_is_terminal e \<Longrightarrow> is_status_update e"
  by (cases e) (auto simp: event_is_terminal_def is_status_update_def)

section \<open>The broker\<close>

text \<open>
  One broadcast channel per task. A channel is known by the number it got when it was
  created; the broker's log records the wake-up signals in the order they were sent, each
  with the channel it went to. Tokio's channel itself (capacity, lagging receivers) is not
  modelled: a signal carries no data, the subscriber re-reads the store.
\<close>

record broker =
  br_channels :: "(string, nat) hashmap"
  br_next :: nat
  br_signals :: "nat list"

definition broker_new :: broker where
  "broker_new = \<lparr>br_channels = [], br_next = 0, br_signals = []\<rparr>"

definition get_or_create_sender :: "string \<Rightarrow> broker \<Rightarrow> nat \<times> broker" where
  "get_or_create_sender task_id b = (case hm_get (br_channels b) task_id of
       Some c \<Rightarrow> (c, b)
     | None \<Rightarrow> (br_next b, b\<lparr>br_channels := hm_insert task_id (br_next b) (br_channels b),
         br_next := Suc (br_next b)\<rparr>))"

definition broker_subscribe :: "string \<Rightarrow> broker \<Rightarrow> nat \<times> broker" where
  "broker_subscribe task_id b = get_or_create_sender task_id b"

definition broker_notify :: "string \<Rightarrow> broker \<Rightarrow> broker" where
  "broker_notify task_id b =
     (let (c, b') = get_or_create_sender task_id b in b'\<lparr>br_signals := br_signals b' @ [c]\<rparr>)"

definition broker_remove :: "string \<Rightarrow> broker \<Rightarrow> broker" where
  "broker_remove task_id b = b\<lparr>br_channels := hm_remove task_id (br_channels b)\<rparr>"

definition has_channel :: "string \<Rightarrow> broker \<Rightarrow> bool" where
  "has_channel task_id b \<longleftrightarrow> hm_get (br_channels b) task_id \<noteq> None"

text \<open>Channel numbers in use are below the next one, and no two tasks share one.\<close>

definition broker_ok :: "broker \<Rightarrow> bool" where
  "broker_ok b \<longleftrightarrow> hm_wf (br_channels b) \<and>
     (\<forall>t c. hm_get (br_channels b) t = Some c \<longrightarrow> c < br_next b) \<and>
     (\<forall>t t' c. hm_get (br_channels b) t = Some c \<longrightarrow> hm_get (br_channels b) t' = Some c \<longrightarrow> t = t')"

lemma broker_ok_new: "broker_ok broker_new"
  by (simp add: broker_ok_def broker_new_def)

lemma get_or_create_sender_ok:
  assumes "broker_ok b"
  shows "broker_ok (snd (get_or_create_sender t b))"
proof (cases "hm_get (br_channels b) t")
  case None
  with assms show ?thesis
    by (auto simp: get_or_create_sender_def broker_ok_def hm_simps split: if_splits
        dest: less_imp_neq less_SucI)
qed (simp add: get_or_create_sender_def assms)

lemma broker_notify_ok: "broker_ok b \<Longrightarrow> broker_ok (broker_notify t b)"
  using get_or_create_sender_ok [of b t]
  by (auto simp: broker_notify_def broker_ok_def split: prod.splits)

lemma broker_remove_ok: "broker_ok b \<Longrightarrow> broker_ok (broker_remove t b)"
  by (auto simp: broker_remove_def broker_ok_def hm_simps split: if_splits)

lemma sender_registered:
  "get_or_create_sender t b = (c, b') \<Longrightarrow> hm_get (br_channels b') t = Some c"
  by (auto simp: get_or_create_sender_def split: option.splits)

lemma sender_keeps:
  "get_or_create_sender t b = (c, b') \<Longrightarrow> hm_get (br_channels b) u = Some d \<Longrightarrow>
     hm_get (br_channels b') u = Some d"
  by (auto simp: get_or_create_sender_def hm_simps split: option.splits)

text \<open>A wake-up reaches the task's subscribers, and nobody else's.\<close>

lemma notify_isolated:
  assumes "broker_ok b" and "broker_subscribe t b = (c, b')" and "t' \<noteq> t"
  shows "br_signals (broker_notify t b') = br_signals b' @ [c]"
    and "\<exists>d. d \<noteq> c \<and> br_signals (broker_notify t' b') = br_signals b' @ [d]"
proof -
  have ok: "broker_ok b'" and reg: "hm_get (br_channels b') t = Some c"
    using assms get_or_create_sender_ok [of b t] sender_registered [of t b c b']
    by (auto simp: broker_subscribe_def)
  show "br_signals (broker_notify t b') = br_signals b' @ [c]"
    using reg by (simp add: broker_notify_def get_or_create_sender_def)
  obtain d b'' where s: "get_or_create_sender t' b' = (d, b'')"
    by (cases "get_or_create_sender t' b'")
  have "br_signals b'' = br_signals b'"
    using s by (auto simp: get_or_create_sender_def split: option.splits)
  moreover have "d \<noteq> c"
    using s sender_registered [OF s] sender_keeps [OF s reg] get_or_create_sender_ok [OF ok, of t']
      assms(3) by (auto simp: broker_ok_def)
  ultimately show "\<exists>d. d \<noteq> c \<and> br_signals (broker_notify t' b') = br_signals b' @ [d]"
    using s by (auto simp: broker_notify_def)
qed

end
