(* ===== verification/Storage_Types.thy ===== *)
theory Storage_Types
  imports Stream_Event
begin

text \<open>
  The values every storage backend shares: the error type (\<open>storage/error.rs\<close>), listing
  filters and page sizes (\<open>filter.rs\<close>), the retention window (\<open>retention.rs\<close>), the history
  trim (\<open>mod.rs\<close>), and the status times that order a listing (\<open>status_time.rs\<close>).

  Clock readings are arguments: an instant is the number of nanoseconds since the Unix epoch,
  and an operation reads one instant. The calendar formatting of \<open>chrono\<close> is a parameter,
  the record \<open>chrono\<close>; \<open>chrono_ok\<close> states what the code relies on.
\<close>

section \<open>Errors\<close>

datatype storage_error =
    SE_TaskNotFound string
  | SE_InvalidTransition string task_state task_state
  | SE_TerminalState string task_state
  | SE_TerminalStateAlreadySet string string
  | SE_OwnerMismatch string
  | SE_TenantMismatch string
  | SE_ConcurrentModification string
  | SE_PushConfigNotFound string
  | SE_ClaimAlreadyHeld string string nat string
  | SE_StaleDeliveryClaim string string nat string
  | SE_CreateConfigCasTimeout string string
  | SE_InvalidListRequest string
  | SE_DatabaseError string
  | SE_SerializationError string
  | SE_TypeError a2a_type_error
  | SE_Generic string

section \<open>Filters and page sizes\<close>

definition DEFAULT_PAGE_SIZE :: int where "DEFAULT_PAGE_SIZE = 50"
definition MAX_PAGE_SIZE :: int where "MAX_PAGE_SIZE = 100"

definition push_config_page_size :: "int option \<Rightarrow> int" where
  "push_config_page_size requested = (case requested of
       Some n \<Rightarrow> if n > 0 then min n MAX_PAGE_SIZE else DEFAULT_PAGE_SIZE
     | None \<Rightarrow> DEFAULT_PAGE_SIZE)"

record task_filter =
  tf_tenant :: "string option"
  tf_owner :: "string option"
  tf_context_id :: "string option"
  tf_status :: "task_state option"
  tf_page_size :: "int option"
  tf_page_token :: "string option"
  tf_history_length :: "int option"
  tf_status_timestamp_after :: "int option"
  tf_include_artifacts :: "bool option"

definition resolved_page_size :: "task_filter \<Rightarrow> storage_error + int" where
  "resolved_page_size f = (case tf_page_size f of
       None \<Rightarrow> Inr DEFAULT_PAGE_SIZE
     | Some n \<Rightarrow> if 1 \<le> n \<and> n \<le> MAX_PAGE_SIZE then Inr n
         else Inl (SE_InvalidListRequest
           (''pageSize must be between 1 and '' @ show_int MAX_PAGE_SIZE @ '' inclusive, got '' @
            show_int n)))"

record task_list_page =
  tlp_tasks :: "pb_task list"
  tlp_next_page_token :: string
  tlp_page_size :: int
  tlp_total_size :: int

lemma push_config_page_size_bounds:
  "1 \<le> push_config_page_size r \<and> push_config_page_size r \<le> MAX_PAGE_SIZE"
  by (auto simp: push_config_page_size_def DEFAULT_PAGE_SIZE_def MAX_PAGE_SIZE_def
      split: option.splits)

lemma resolved_page_size_bounds:
  "resolved_page_size f = Inr n \<Longrightarrow> 1 \<le> n \<and> n \<le> 100"
  by (auto simp: resolved_page_size_def DEFAULT_PAGE_SIZE_def MAX_PAGE_SIZE_def
      split: option.splits if_splits)

section \<open>Retention\<close>

definition DEFAULT_CLEANUP_BATCH_SIZE :: nat where "DEFAULT_CLEANUP_BATCH_SIZE = 1000"

record retention_config =
  rc_task_ttl_seconds :: nat
  rc_event_ttl_seconds :: nat
  rc_cleanup_batch_size :: nat

definition retention_disabled :: retention_config where
  "retention_disabled = \<lparr>rc_task_ttl_seconds = 0, rc_event_ttl_seconds = 0,
     rc_cleanup_batch_size = DEFAULT_CLEANUP_BATCH_SIZE\<rparr>"

definition retention_new :: "nat \<Rightarrow> nat \<Rightarrow> retention_config" where
  "retention_new task_ttl event_ttl = \<lparr>rc_task_ttl_seconds = task_ttl,
     rc_event_ttl_seconds = event_ttl, rc_cleanup_batch_size = DEFAULT_CLEANUP_BATCH_SIZE\<rparr>"

definition retention_with_batch_size :: "nat \<Rightarrow> retention_config \<Rightarrow> retention_config" where
  "retention_with_batch_size n r = r\<lparr>rc_cleanup_batch_size := n\<rparr>"

definition retention_batch :: "retention_config \<Rightarrow> nat" where
  "retention_batch r = max (rc_cleanup_batch_size r) 1"

lemma retention_batch_pos [simp]: "0 < retention_batch r"
  by (simp add: retention_batch_def)

section \<open>History and artifact trimming\<close>

text \<open>
  \<open>trim_history\<close>: \<open>usize::try_from\<close> fails on a negative length, which keeps everything;
  \<open>drain(..excess)\<close> drops the oldest messages.
\<close>

definition trim_history :: "pb_task \<Rightarrow> int option \<Rightarrow> pb_task" where
  "trim_history t history_length = (case history_length of
       None \<Rightarrow> t
     | Some n \<Rightarrow> if n < 0 then t
         else (let excess = length (tk_history t) - nat n
               in t\<lparr>tk_history := drop excess (tk_history t)\<rparr>))"

definition strip_artifacts :: "pb_task \<Rightarrow> bool \<Rightarrow> pb_task" where
  "strip_artifacts t include = (if include then t
     else case task_try_from (t\<lparr>tk_artifacts := []\<rparr>) of Inr t' \<Rightarrow> t' | Inl _ \<Rightarrow> t)"

lemma trim_history_frame [simp]:
  "tk_id (trim_history t n) = tk_id t" "tk_status (trim_history t n) = tk_status t"
  "task_state_of (trim_history t n) = task_state_of t"
  "tk_artifacts (trim_history t n) = tk_artifacts t"
  by (auto simp: trim_history_def Let_def split: option.splits)

lemma trim_history_suffix:
  "\<exists>dropped. tk_history t = dropped @ tk_history (trim_history t n)"
  by (auto simp: trim_history_def Let_def split: option.splits)
    (metis append_take_drop_id)

lemma trim_history_length:
  "0 \<le> n \<Longrightarrow> length (tk_history (trim_history t (Some n))) = min (nat n) (length (tk_history t))"
  by (auto simp: trim_history_def Let_def)

section \<open>Status times\<close>

type_synonym instant = nat

definition nanos_per_sec :: nat where "nanos_per_sec = 10 ^ 9"

text \<open>\<open>Utc::now().trunc_subsecs(6)\<close> as a protobuf timestamp.\<close>

definition now_timestamp :: "instant \<Rightarrow> timestamp" where
  "now_timestamp now = \<lparr>ts_seconds = int (now div nanos_per_sec),
     ts_nanos = int ((now mod nanos_per_sec) div 1000 * 1000)\<rparr>"

definition stamp_event :: "timestamp \<Rightarrow> stream_event \<Rightarrow> stream_event" where
  "stamp_event ts e = (case e of
       StatusUpdate su \<Rightarrow> (case st_timestamp (su_status su) of
           None \<Rightarrow> StatusUpdate (su\<lparr>su_status := (su_status su)\<lparr>st_timestamp := Some ts\<rparr>\<rparr>)
         | Some _ \<Rightarrow> StatusUpdate su)
     | ArtifactUpdate au \<Rightarrow> ArtifactUpdate au)"

definition stamp_status :: "instant \<Rightarrow> pb_task \<Rightarrow> stream_event list \<Rightarrow> pb_task \<times> stream_event list" where
  "stamp_status now t events = (case tk_status t of
       None \<Rightarrow> (t, events)
     | Some st \<Rightarrow>
         (let ts = (case st_timestamp st of Some ts \<Rightarrow> ts | None \<Rightarrow> now_timestamp now)
          in (t\<lparr>tk_status := Some (st\<lparr>st_timestamp := Some ts\<rparr>)\<rparr>, map (stamp_event ts) events)))"

text \<open>
  What the code uses of \<open>chrono\<close>: whether an instant (microseconds since the epoch) is one it
  represents, and \<open>format\<close>/\<open>parse_from_str\<close> with the fixed-width sort-key format (which has
  microsecond precision).
\<close>

record chrono =
  chr_in_range :: "int \<Rightarrow> bool"
  chr_min :: int
  chr_format :: "int \<Rightarrow> string"
  chr_parse :: "string \<Rightarrow> int option"

text \<open>
  The format has a fixed width, and so the order of time, for the years 0 to 9999; outside them
  \<open>%Y\<close> writes a sign and as many digits as it takes.
\<close>

definition four_digit_year :: "int \<Rightarrow> bool" where
  "four_digit_year a \<longleftrightarrow> - 62167219200 * 10 ^ 6 \<le> a \<and> a < 253402300800 * 10 ^ 6"

definition chrono_ok :: "chrono \<Rightarrow> bool" where
  "chrono_ok c \<longleftrightarrow>
     (\<forall>a b. chr_in_range c a \<longrightarrow> chr_in_range c b \<longrightarrow> four_digit_year a \<longrightarrow> four_digit_year b \<longrightarrow>
        (chr_format c a < chr_format c b \<longleftrightarrow> a < b)) \<and>
     (\<forall>a. chr_in_range c a \<longrightarrow> chr_format c a \<noteq> [] \<and> CHR ''|'' \<notin> set (chr_format c a) \<and>
        chr_parse c (chr_format c a) = Some a)"

text \<open>\<open>DateTime::try_from(Timestamp)\<close> of the proto crate, in microseconds.\<close>

definition datetime_try_from :: "chrono \<Rightarrow> timestamp \<Rightarrow> int option" where
  "datetime_try_from c ts = (if 0 \<le> ts_nanos ts \<and> ts_nanos ts < 1000000000
     then (let at = ts_seconds ts * 1000000 + ts_nanos ts div 1000
           in if chr_in_range c at then Some at else None)
     else None)"

definition key_of :: "chrono \<Rightarrow> int \<Rightarrow> string" where
  "key_of c at = chr_format c at"

definition key_of_micros :: "chrono \<Rightarrow> int \<Rightarrow> string" where
  "key_of_micros c micros = key_of c (if chr_in_range c micros then micros else chr_min c)"

definition task_sort_key :: "chrono \<Rightarrow> pb_task \<Rightarrow> string" where
  "task_sort_key c t = (case Option.bind (tk_status t) st_timestamp of
       None \<Rightarrow> ''''
     | Some ts \<Rightarrow> (case datetime_try_from c ts of None \<Rightarrow> '''' | Some at \<Rightarrow> key_of c at))"

text \<open>The time behind the key.\<close>

definition status_micros :: "chrono \<Rightarrow> pb_task \<Rightarrow> int option" where
  "status_micros c t = Option.bind (Option.bind (tk_status t) st_timestamp) (datetime_try_from c)"

lemma task_sort_key_micros: "status_micros c t = Some x \<Longrightarrow> task_sort_key c t = key_of c x \<and> chr_in_range c x"
  by (auto simp: status_micros_def task_sort_key_def datetime_try_from_def Let_def bind_eq_Some_conv split: if_splits)

lemma key_order:
  assumes "chrono_ok c" and "chr_in_range c a" and "chr_in_range c b" and "four_digit_year a" and "four_digit_year b"
  shows "key_of c a \<le> key_of c b \<longleftrightarrow> a \<le> b"
  using assms unfolding chrono_ok_def key_of_def by (metis linorder_not_le)

definition admits_status_time :: "chrono \<Rightarrow> task_filter \<Rightarrow> pb_task \<Rightarrow> bool" where
  "admits_status_time c f t = (case tf_status_timestamp_after f of
       None \<Rightarrow> True
     | Some after \<Rightarrow> key_of c after \<le> task_sort_key c t)"

section \<open>Page cursors\<close>

definition encode_cursor :: "string \<Rightarrow> string \<Rightarrow> string" where
  "encode_cursor key task_id = key @ ''|'' @ task_id"

text \<open>\<open>str::split_once('|')\<close>: at the first bar.\<close>

fun split_once :: "char \<Rightarrow> string \<Rightarrow> (string \<times> string) option" where
  "split_once d [] = None"
| "split_once d (c # cs) =
     (if c = d then Some ([], cs) else map_option (\<lambda>(a, b). (c # a, b)) (split_once d cs))"

definition is_sort_key :: "chrono \<Rightarrow> string \<Rightarrow> bool" where
  "is_sort_key c key = (case chr_parse c key of None \<Rightarrow> False | Some at \<Rightarrow> key_of c at = key)"

definition decode_cursor :: "chrono \<Rightarrow> string \<Rightarrow> storage_error + (string \<times> string)" where
  "decode_cursor c token =
     (case split_once (CHR ''|'') token of
        Some (key, task_id) \<Rightarrow>
          (if task_id \<noteq> [] \<and> (key = [] \<or> is_sort_key c key) then Inr (key, task_id)
           else Inl (SE_InvalidListRequest (''invalid pageToken: '' @ token)))
      | None \<Rightarrow> Inl (SE_InvalidListRequest (''invalid pageToken: '' @ token)))"

lemma split_once_append:
  "d \<notin> set xs \<Longrightarrow> split_once d (xs @ d # ys) = Some (xs, ys)"
  by (induction xs) auto

lemma split_once_SomeD:
  "split_once d s = Some (a, b) \<Longrightarrow> s = a @ d # b \<and> d \<notin> set a"
  by (induction s arbitrary: a b) (auto split: if_splits)

lemma task_sort_key_cases:
  assumes "chrono_ok c"
  shows "task_sort_key c t = [] \<or>
    (is_sort_key c (task_sort_key c t) \<and> CHR ''|'' \<notin> set (task_sort_key c t))"
  using assms
  by (auto simp: task_sort_key_def datetime_try_from_def Let_def key_of_def is_sort_key_def
      chrono_ok_def split: option.splits if_splits)

lemma cursor_roundtrip:
  assumes "chrono_ok c" and "tk_id t \<noteq> []"
  shows "decode_cursor c (encode_cursor (task_sort_key c t) (tk_id t)) =
    Inr (task_sort_key c t, tk_id t)"
proof -
  have "CHR ''|'' \<notin> set (task_sort_key c t)"
    using task_sort_key_cases [OF assms(1), of t] by auto
  then show ?thesis
    using assms(2) task_sort_key_cases [OF assms(1), of t]
    by (auto simp: decode_cursor_def encode_cursor_def split_once_append)
qed

text \<open>A cursor that decodes is one this code could have made.\<close>

lemma decode_cursor_inverse:
  "decode_cursor c token = Inr (key, i) \<Longrightarrow> token = encode_cursor key i"
  by (auto simp: decode_cursor_def encode_cursor_def split: option.splits if_splits
      dest: split_once_SomeD)

section \<open>Stamping\<close>

lemma stamp_status_frame [simp]:
  "tk_id (fst (stamp_status now t evs)) = tk_id t"
  "task_state_of (fst (stamp_status now t evs)) = task_state_of t"
  "length (snd (stamp_status now t evs)) = length evs"
  "tk_artifacts (fst (stamp_status now t evs)) = tk_artifacts t"
  "tk_history (fst (stamp_status now t evs)) = tk_history t"
  by (auto simp: stamp_status_def Let_def task_state_of_eq split: option.splits)

lemma event_task_state_stamp [simp]: "event_task_state (stamp_event ts e) = event_task_state e"
  by (auto simp: stamp_event_def split: stream_event.splits option.splits)

lemma stamp_status_event_states:
  "map event_task_state (snd (stamp_status now t evs)) = map event_task_state evs"
  by (auto simp: stamp_status_def Let_def split: option.splits)

text \<open>Stamping sets a time once: a second stamp changes nothing.\<close>

lemma stamp_status_idem:
  "stamp_status now t evs = (t', evs') \<Longrightarrow> stamp_status now' t' evs' = (t', evs')"
  by (auto simp: stamp_status_def Let_def stamp_event_def comp_def split: option.splits
      stream_event.splits)

end
