(* ===== verification/Store_State.thy ===== *)
theory Store_State
  imports Storage_Types
begin

text \<open>
  The state of \<open>InMemoryA2aStorage\<close> (\<open>storage/in_memory.rs\<close>): six tables under their locks,
  the push-dispatch switch and the retention window, with the row types (the claim and outcome
  types are those of \<open>push/claim.rs\<close>). An operation runs under the write locks it takes, so it
  is a function from the state to its result and the state it leaves. The \<open>u64\<close> counters are
  natural numbers: the model has no wrap-around at \<open>2^64\<close>.
\<close>

section \<open>Push delivery types (\<open>push/claim.rs\<close>)\<close>

datatype claim_status = Pending | Attempting | Succeeded | GaveUp | Abandoned

datatype delivery_error_class =
    NetworkError | Timeout | HttpError4xx nat | HttpError5xx nat | HttpError429
  | SSRFBlocked | ErrPayloadTooLarge | ErrTlsRejected

datatype gave_up_reason =
    MaxAttemptsExhausted | NonRetryableHttpStatus | SsrfBlocked | PayloadTooLarge | TlsRejected

datatype abandoned_reason = ConfigDeleted | TaskDeleted | NonHttpsUrlInProduction

datatype delivery_outcome =
    OutSucceeded nat
  | OutRetry instant "nat option" delivery_error_class
  | OutGaveUp gave_up_reason delivery_error_class "nat option" instant
  | OutAbandoned abandoned_reason

record delivery_claim =
  dc_claimant :: string
  dc_owner :: string
  dc_generation :: nat
  dc_claimed_at :: instant
  dc_delivery_attempt_count :: nat
  dc_status :: claim_status

record failed_delivery =
  fd_task_id :: string
  fd_config_id :: string
  fd_event_sequence :: nat
  fd_first_attempted_at :: instant
  fd_last_attempted_at :: instant
  fd_gave_up_at :: instant
  fd_delivery_attempt_count :: nat
  fd_last_http_status :: "nat option"
  fd_last_error_class :: delivery_error_class

record reclaimable_claim =
  rec_tenant :: string
  rec_owner :: string
  rec_task_id :: string
  rec_event_sequence :: nat
  rec_config_id :: string

record pending_dispatch =
  pd_tenant :: string
  pd_owner :: string
  pd_task_id :: string
  pd_event_sequence :: nat
  pd_recorded_at :: instant

definition claim_terminal :: "claim_status \<Rightarrow> bool" where
  "claim_terminal s \<longleftrightarrow> s = Succeeded \<or> s = GaveUp \<or> s = Abandoned"

section \<open>Push configs (\<open>a2a.proto\<close>)\<close>

record auth_info =
  ai_scheme :: string
  ai_credentials :: string

record push_config =
  pc_tenant :: string
  pc_id :: string
  pc_task_id :: string
  pc_url :: string
  pc_token :: string
  pc_authentication :: "auth_info option"

record push_config_page =
  pcp_configs :: "push_config list"
  pcp_next_page_token :: string

section \<open>Rows\<close>

record stored_task =
  s_tenant :: string
  s_owner :: string
  s_task :: pb_task
  s_updated_at :: string
  s_cancel_requested :: bool
  s_lease_expires_at :: "int option"
  s_latest_event_sequence :: nat

record stored_delivery_claim =
  cl_claimant :: string
  cl_owner :: string
  cl_generation :: nat
  cl_claimed_at :: instant
  cl_expires_at :: instant
  cl_delivery_attempt_count :: nat
  cl_status :: claim_status
  cl_first_attempted_at :: "instant option"
  cl_last_attempted_at :: "instant option"
  cl_last_http_status :: "nat option"
  cl_last_error_class :: "delivery_error_class option"
  cl_gave_up_at :: "instant option"
  cl_gave_up_reason :: "gave_up_reason option"
  cl_abandoned_reason :: "abandoned_reason option"

definition as_claim :: "stored_delivery_claim \<Rightarrow> delivery_claim" where
  "as_claim r = \<lparr>dc_claimant = cl_claimant r, dc_owner = cl_owner r,
     dc_generation = cl_generation r, dc_claimed_at = cl_claimed_at r,
     dc_delivery_attempt_count = cl_delivery_attempt_count r, dc_status = cl_status r\<rparr>"

record stored_pending_dispatch =
  spd_owner :: string
  spd_recorded_at :: instant

record stored_push_config =
  spc_config :: push_config
  spc_registered_after_event_sequence :: nat

type_synonym task_key = "string \<times> string"
type_synonym event_key = "string \<times> string"
type_synonym push_config_key = "string \<times> string \<times> string"
type_synonym push_delivery_key = "string \<times> string \<times> nat \<times> string"
type_synonym pending_dispatch_key = "string \<times> string \<times> nat"
type_synonym event_log = "(nat \<times> stream_event \<times> instant) list"

record store =
  tasks :: "(task_key, stored_task) hashmap"
  push_configs :: "(push_config_key, stored_push_config) hashmap"
  events :: "(event_key, event_log) hashmap"
  event_counters :: "(event_key, nat) hashmap"
  push_delivery_claims :: "(push_delivery_key, stored_delivery_claim) hashmap"
  pending_dispatches :: "(pending_dispatch_key, stored_pending_dispatch) hashmap"
  push_dispatch_enabled :: bool
  retention :: retention_config

type_synonym 'a store_result = "(storage_error + 'a) \<times> store"

definition store_new :: store where
  "store_new = \<lparr>tasks = [], push_configs = [], events = [], event_counters = [],
     push_delivery_claims = [], pending_dispatches = [], push_dispatch_enabled = False,
     retention = retention_disabled\<rparr>"

definition with_retention :: "retention_config \<Rightarrow> store \<Rightarrow> store" where
  "with_retention r s = s\<lparr>retention := r\<rparr>"

definition with_push_dispatch_enabled :: "bool \<Rightarrow> store \<Rightarrow> store" where
  "with_push_dispatch_enabled b s = s\<lparr>push_dispatch_enabled := b\<rparr>"

section \<open>The \<open>updated_at\<close> text\<close>

definition now_iso :: "instant \<Rightarrow> string" where
  "now_iso now = pad_zero 10 (show_nat (now div nanos_per_sec)) @ ''.'' @
     pad_zero 3 (show_nat ((now mod nanos_per_sec) div 10 ^ 6))"

definition epoch_secs :: "string \<Rightarrow> nat option" where
  "epoch_secs ts = parse_u64 (takeWhile (\<lambda>c. c \<noteq> CHR ''.'') ts)"

lemma parse_u64_pad:
  assumes "n < 2 ^ 64"
  shows "parse_u64 (pad_zero w (show_nat n)) = Some n"
proof -
  have plus: "digit_char d \<noteq> CHR ''+''" if "d < 10" for d
    using of_char_digit_char [OF that] by auto
  obtain c cs where c: "pad_zero w (show_nat n) = c # cs"
    by (cases "pad_zero w (show_nat n)") (auto simp: pad_zero_def)
  then have "c \<noteq> CHR ''+''"
    using pad_show_digits [of c w n] plus by auto
  then show ?thesis
    using c digits_val_pad [of w n] assms by (simp add: parse_u64_def Let_def)
qed

lemma epoch_secs_now_iso:
  assumes "now div nanos_per_sec < 2 ^ 64"
  shows "epoch_secs (now_iso now) = Some (now div nanos_per_sec)"
proof -
  have "digit_char d \<noteq> CHR ''.''" if "d < 10" for d
    using of_char_digit_char [OF that] by auto
  then have "takeWhile (\<lambda>c. c \<noteq> CHR ''.'') (now_iso now) = pad_zero 10 (show_nat (now div nanos_per_sec))"
    unfolding now_iso_def
    by (subst takeWhile_append2) (auto dest!: pad_show_digits)
  then show ?thesis
    using assms by (simp add: epoch_secs_def parse_u64_pad)
qed

section \<open>Looking rows up\<close>

definition get_stored :: "store \<Rightarrow> string \<Rightarrow> string \<Rightarrow> stored_task option" where
  "get_stored s tenant task_id = hm_get (tasks s) (tenant, task_id)"

definition put_stored :: "string \<Rightarrow> string \<Rightarrow> stored_task \<Rightarrow> store \<Rightarrow> store" where
  "put_stored tenant task_id row s = s\<lparr>tasks := hm_insert (tenant, task_id) row (tasks s)\<rparr>"

definition counter_of :: "store \<Rightarrow> string \<Rightarrow> string \<Rightarrow> nat" where
  "counter_of s tenant task_id =
     (case hm_get (event_counters s) (tenant, task_id) of Some c \<Rightarrow> c | None \<Rightarrow> 0)"

definition log_of :: "store \<Rightarrow> string \<Rightarrow> string \<Rightarrow> event_log" where
  "log_of s tenant task_id =
     (case hm_get (events s) (tenant, task_id) of Some l \<Rightarrow> l | None \<Rightarrow> [])"

definition state_of :: "store \<Rightarrow> string \<Rightarrow> string \<Rightarrow> task_state option" where
  "state_of s tenant task_id =
     Option.bind (get_stored s tenant task_id) (\<lambda>r. task_state_of (s_task r))"

lemma get_put_stored:
  "get_stored (put_stored tn i row s) tn' i' =
     (if tn' = tn \<and> i' = i then Some row else get_stored s tn' i')"
  by (auto simp: get_stored_def put_stored_def hm_simps)

lemma put_stored_frame [simp]:
  "push_configs (put_stored tn i row s) = push_configs s"
  "events (put_stored tn i row s) = events s"
  "event_counters (put_stored tn i row s) = event_counters s"
  "push_delivery_claims (put_stored tn i row s) = push_delivery_claims s"
  "pending_dispatches (put_stored tn i row s) = pending_dispatches s"
  "push_dispatch_enabled (put_stored tn i row s) = push_dispatch_enabled s"
  "retention (put_stored tn i row s) = retention s"
  "counter_of (put_stored tn i row s) = counter_of s"
  "log_of (put_stored tn i row s) = log_of s"
  by (simp_all add: put_stored_def counter_of_def log_of_def fun_eq_iff)

end
