(* ===== verification/Store_Tasks.thy ===== *)
theory Store_Tasks
  imports Store_State
begin

text \<open>
  \<open>A2aTaskStorage\<close> and \<open>A2aCancellationSupervisor\<close> of the in-memory store: task CRUD, the
  checked status update, message and artifact appends, the cancel marker, executor leases and
  the idle listing.
\<close>

section \<open>\<open>A2aTaskStorage\<close>\<close>

definition fresh_row :: "instant \<Rightarrow> string \<Rightarrow> string \<Rightarrow> pb_task \<Rightarrow> nat \<Rightarrow> stored_task" where
  "fresh_row now tenant owner t latest = \<lparr>s_tenant = tenant, s_owner = owner, s_task = t,
     s_updated_at = now_iso now, s_cancel_requested = False, s_lease_expires_at = None,
     s_latest_event_sequence = latest\<rparr>"

definition create_task :: "instant \<Rightarrow> string \<Rightarrow> string \<Rightarrow> pb_task \<Rightarrow> store \<Rightarrow> pb_task store_result" where
  "create_task now tenant owner t s =
     (let t' = fst (stamp_status now t [])
      in (Inr t', put_stored tenant (tk_id t') (fresh_row now tenant owner t' 0) s))"

definition get_task ::
  "string \<Rightarrow> string \<Rightarrow> string \<Rightarrow> int option \<Rightarrow> store \<Rightarrow> storage_error + pb_task option" where
  "get_task tenant task_id owner history_length s = (case get_stored s tenant task_id of
       Some r \<Rightarrow> if s_owner r = owner then Inr (Some (trim_history (s_task r) history_length))
         else Inr None
     | None \<Rightarrow> Inr None)"

definition replace_row :: "instant \<Rightarrow> string \<Rightarrow> string \<Rightarrow> pb_task \<Rightarrow> nat \<Rightarrow> stored_task \<Rightarrow> stored_task" where
  "replace_row now tenant owner t latest old = \<lparr>s_tenant = tenant, s_owner = owner, s_task = t,
     s_updated_at = now_iso now, s_cancel_requested = s_cancel_requested old,
     s_lease_expires_at = s_lease_expires_at old, s_latest_event_sequence = latest\<rparr>"

definition update_task :: "instant \<Rightarrow> string \<Rightarrow> string \<Rightarrow> pb_task \<Rightarrow> store \<Rightarrow> unit store_result" where
  "update_task now tenant owner t s =
     (let t' = fst (stamp_status now t [])
      in case get_stored s tenant (tk_id t') of
           Some r \<Rightarrow>
             if s_owner r = owner
             then (Inr (), put_stored tenant (tk_id t')
                    (replace_row now tenant owner t' (s_latest_event_sequence r) r) s)
             else (Inl (SE_OwnerMismatch (tk_id t')), s)
         | None \<Rightarrow> (Inl (SE_TaskNotFound (tk_id t')), s))"

definition delete_task :: "string \<Rightarrow> string \<Rightarrow> string \<Rightarrow> store \<Rightarrow> bool store_result" where
  "delete_task tenant task_id owner s = (case get_stored s tenant task_id of
       Some r \<Rightarrow> if s_owner r = owner
         then (Inr True, s\<lparr>tasks := hm_remove (tenant, task_id) (tasks s)\<rparr>)
         else (Inr False, s)
     | None \<Rightarrow> (Inr False, s))"

text \<open>
  The read of the current state and the transition check, shared by the two status updates;
  \<open>on_terminal\<close> is the error each of them reports for a terminal task.
\<close>

definition check_transition ::
  "(task_state \<Rightarrow> storage_error) \<Rightarrow> string \<Rightarrow> pb_task \<Rightarrow> pb_task_status \<Rightarrow> storage_error + unit" where
  "check_transition on_terminal task_id t new_status = (case task_status t of
       None \<Rightarrow> Inl (SE_TaskNotFound task_id)
     | Some st \<Rightarrow> (case status_state st of
           Inl e \<Rightarrow> Inl (SE_TypeError e)
         | Inr current \<Rightarrow> (case status_state new_status of
               Inl e \<Rightarrow> Inl (SE_TypeError e)
             | Inr new \<Rightarrow> (case validate_transition current new of
                   Inr _ \<Rightarrow> Inr ()
                 | Inl (TE_InvalidTransition c r) \<Rightarrow> Inl (SE_InvalidTransition task_id c r)
                 | Inl (TE_TerminalState st') \<Rightarrow> Inl (on_terminal st')
                 | Inl e \<Rightarrow> Inl (SE_TypeError e)))))"

definition update_task_status ::
  "instant \<Rightarrow> string \<Rightarrow> string \<Rightarrow> string \<Rightarrow> pb_task_status \<Rightarrow> store \<Rightarrow> pb_task store_result" where
  "update_task_status now tenant task_id owner new_status s =
     (case get_stored s tenant task_id of
        None \<Rightarrow> (Inl (SE_TaskNotFound task_id), s)
      | Some r \<Rightarrow>
          if s_owner r \<noteq> owner then (Inl (SE_OwnerMismatch task_id), s)
          else (case check_transition (SE_TerminalState task_id) task_id (s_task r) new_status of
              Inl e \<Rightarrow> (Inl e, s)
            | Inr _ \<Rightarrow> (case task_try_from ((s_task r)\<lparr>tk_status := Some new_status\<rparr>) of
                Inl e \<Rightarrow> (Inl (SE_TypeError e), s)
              | Inr t \<Rightarrow>
                  (let t' = fst (stamp_status now t [])
                   in (Inr t', put_stored tenant task_id
                        (replace_row now tenant owner t' (s_latest_event_sequence r) r) s)))))"

definition append_message ::
  "string \<Rightarrow> string \<Rightarrow> string \<Rightarrow> pb_message \<Rightarrow> store \<Rightarrow> unit store_result" where
  "append_message tenant task_id owner m s = (case get_stored s tenant task_id of
       None \<Rightarrow> (Inl (SE_TaskNotFound task_id), s)
     | Some r \<Rightarrow>
         if s_owner r \<noteq> owner then (Inl (SE_OwnerMismatch task_id), s)
         else (Inr (), put_stored tenant task_id
                (r\<lparr>s_task := task_append_message m (s_task r)\<rparr>) s))"

definition append_artifact ::
  "instant \<Rightarrow> string \<Rightarrow> string \<Rightarrow> string \<Rightarrow> pb_artifact \<Rightarrow> bool \<Rightarrow> bool \<Rightarrow> store \<Rightarrow> unit store_result"
where
  "append_artifact now tenant task_id owner a app last_chunk s =
     (case get_stored s tenant task_id of
        None \<Rightarrow> (Inl (SE_TaskNotFound task_id), s)
      | Some r \<Rightarrow>
          if s_owner r \<noteq> owner then (Inl (SE_OwnerMismatch task_id), s)
          else (case (if app then extend_first_parts (art_artifact_id a) (art_parts a)
                        (tk_artifacts (s_task r)) else None) of
              Some as \<Rightarrow> (Inr (), put_stored tenant task_id
                (r\<lparr>s_task := (s_task r)\<lparr>tk_artifacts := as\<rparr>, s_updated_at := now_iso now\<rparr>) s)
            | None \<Rightarrow> (Inr (), put_stored tenant task_id
                (r\<lparr>s_task := task_append_artifact a (s_task r), s_updated_at := now_iso now\<rparr>) s)))"

definition task_count :: "store \<Rightarrow> storage_error + nat" where
  "task_count s = Inr (length (tasks s))"

definition set_cancel_requested ::
  "string \<Rightarrow> string \<Rightarrow> string \<Rightarrow> store \<Rightarrow> unit store_result" where
  "set_cancel_requested tenant task_id owner s = (case get_stored s tenant task_id of
       None \<Rightarrow> (Inl (SE_TaskNotFound task_id), s)
     | Some r \<Rightarrow>
         if s_owner r \<noteq> owner then (Inl (SE_TaskNotFound task_id), s)
         else (case task_state_of (s_task r) of
             None \<Rightarrow> (Inl (SE_TaskNotFound task_id), s)
           | Some st \<Rightarrow>
               if is_terminal st then (Inl (SE_TerminalState task_id st), s)
               else (Inr (), put_stored tenant task_id (r\<lparr>s_cancel_requested := True\<rparr>) s)))"

section \<open>\<open>A2aCancellationSupervisor\<close>\<close>

definition row_terminal :: "stored_task \<Rightarrow> bool" where
  "row_terminal r \<longleftrightarrow> (case task_state_of (s_task r) of None \<Rightarrow> False | Some st \<Rightarrow> is_terminal st)"

definition supervisor_get_cancel_requested ::
  "string \<Rightarrow> string \<Rightarrow> store \<Rightarrow> storage_error + bool" where
  "supervisor_get_cancel_requested tenant task_id s = (case get_stored s tenant task_id of
       None \<Rightarrow> Inr False
     | Some r \<Rightarrow> Inr (s_cancel_requested r \<and> \<not> row_terminal r))"

definition supervisor_list_cancel_requested ::
  "string \<Rightarrow> string list \<Rightarrow> store \<Rightarrow> storage_error + string list" where
  "supervisor_list_cancel_requested tenant task_ids s =
     Inr (filter (\<lambda>i. case get_stored s tenant i of None \<Rightarrow> False
        | Some r \<Rightarrow> s_cancel_requested r \<and> \<not> row_terminal r) task_ids)"

definition set_lease :: "string \<Rightarrow> int option \<Rightarrow> string \<Rightarrow> store \<Rightarrow> store" where
  "set_lease tenant expires i s = (case get_stored s tenant i of
       None \<Rightarrow> s
     | Some r \<Rightarrow> put_stored tenant i (r\<lparr>s_lease_expires_at := expires\<rparr>) s)"

definition supervisor_renew_executor_leases ::
  "string \<Rightarrow> string list \<Rightarrow> int option \<Rightarrow> store \<Rightarrow> unit store_result" where
  "supervisor_renew_executor_leases tenant task_ids expires s =
     (Inr (), fold (set_lease tenant expires) task_ids s)"

record supervised_task =
  sv_tenant :: string
  sv_task_id :: string
  sv_owner :: string
  sv_context_id :: string

definition supervised_of :: "stored_task \<Rightarrow> supervised_task" where
  "supervised_of r = \<lparr>sv_tenant = s_tenant r, sv_task_id = tk_id (s_task r),
     sv_owner = s_owner r, sv_context_id = tk_context_id (s_task r)\<rparr>"

definition lease_expired :: "int \<Rightarrow> stored_task \<Rightarrow> bool" where
  "lease_expired now_micros r \<longleftrightarrow>
     (case s_lease_expires_at r of None \<Rightarrow> False | Some l \<Rightarrow> l < now_micros) \<and>
     (case task_state_of (s_task r) of None \<Rightarrow> False | Some st \<Rightarrow> st \<in> set EXECUTOR_HELD_STATES)"

definition supervisor_list_expired_executor_leases ::
  "int \<Rightarrow> store \<Rightarrow> storage_error + supervised_task list" where
  "supervisor_list_expired_executor_leases now_micros s =
     Inr (map supervised_of (filter (lease_expired now_micros) (hm_values (tasks s))))"

definition idle_client_held :: "chrono \<Rightarrow> int \<Rightarrow> stored_task \<Rightarrow> bool" where
  "idle_client_held c before_micros r \<longleftrightarrow>
     (case task_state_of (s_task r) of None \<Rightarrow> False | Some st \<Rightarrow> st \<in> set CLIENT_HELD_STATES) \<and>
     task_sort_key c (s_task r) < key_of_micros c before_micros"

definition supervisor_list_idle_client_held_tasks ::
  "chrono \<Rightarrow> int \<Rightarrow> nat \<Rightarrow> store \<Rightarrow> storage_error + supervised_task list" where
  "supervisor_list_idle_client_held_tasks c before_micros limit s =
     Inr (map supervised_of (take limit (filter (idle_client_held c before_micros) (hm_values (tasks s)))))"

section \<open>The result of the checked status update, branch by branch\<close>

lemma check_transition_ok:
  "check_transition f i t st = Inr () \<longleftrightarrow>
     (\<exists>c n. task_state_of t = Some c \<and> status_state st = Inr n \<and> validate_transition c n = Inr ())"
  by (auto simp: check_transition_def task_status_eq task_state_of_eq
      split: option.splits sum.splits a2a_type_error.splits)

lemma check_transition_terminal:
  assumes "task_state_of t = Some c" and "is_terminal c" and "status_state st = Inr n"
  shows "check_transition f i t st = Inl (f c)"
  using assms
  by (auto simp: check_transition_def task_status_eq task_state_of_eq validate_terminal
      split: option.splits sum.splits)

lemma check_transition_invalid:
  assumes "task_state_of t = Some c" and "\<not> is_terminal c" and "status_state st = Inr n"
    and "\<not> can_transition_to c n"
  shows "check_transition f i t st = Inl (SE_InvalidTransition i c n)"
  using assms validate_nonterminal [of c n]
  by (auto simp: check_transition_def task_status_eq task_state_of_eq can_transition_to_def
      split: option.splits sum.splits)

lemma check_transition_error_cases:
  assumes "check_transition f i t st = Inl e"
  shows "e = SE_TaskNotFound i \<or> e = SE_TypeError TE_InvalidState \<or>
    (\<exists>c n. e = SE_InvalidTransition i c n) \<or>
    (\<exists>c. e = f c \<and> is_terminal c \<and> task_state_of t = Some c)"
proof (cases "task_state_of t")
  case None
  with assms show ?thesis
    by (simp add: check_transition_def task_status_None_iff [symmetric])
next
  case (Some c)
  then obtain st' where st': "tk_status t = Some st'" "status_state st' = Inr c"
    by (auto simp: task_state_of_iff)
  show ?thesis
  proof (cases "status_state st")
    case (Inl e')
    with assms st' status_state_Inl [OF Inl] show ?thesis
      by (simp add: check_transition_def task_status_eq)
  next
    case (Inr n)
    show ?thesis
    proof (cases "is_terminal c")
      case True
      with assms st' Inr Some show ?thesis
        by (auto simp: check_transition_def task_status_eq validate_terminal)
    next
      case False
      with assms st' Inr validate_nonterminal [OF False, of n] show ?thesis
        by (auto simp: check_transition_def task_status_eq)
    qed
  qed
qed

section \<open>Frames\<close>

lemma set_lease_frame:
  "get_stored (set_lease tn e i s) tn' i' =
     (if tn' = tn \<and> i' = i then map_option (\<lambda>r. r\<lparr>s_lease_expires_at := e\<rparr>) (get_stored s tn i)
      else get_stored s tn' i')"
  by (auto simp: set_lease_def get_put_stored split: option.splits)

lemma renew_leases_get:
  "get_stored (fold (set_lease tn e) ids s) tn' i' =
     (if tn' = tn \<and> i' \<in> set ids
      then map_option (\<lambda>r. r\<lparr>s_lease_expires_at := e\<rparr>) (get_stored s tn' i')
      else get_stored s tn' i')"
proof (induction ids arbitrary: s)
  case (Cons i ids)
  then show ?case
    by (auto simp: set_lease_frame option.map_comp comp_def)
qed simp

end
