(* ===== verification/Store_Atomic.thy ===== *)
theory Store_Atomic
  imports Store_Tasks
begin

text \<open>
  \<open>A2aEventStore\<close> (append, replay) and \<open>A2aAtomicStore\<close> of the in-memory store: the commits
  that write a task row, its events, the sequence counter, the causal floor and the
  pending-dispatch markers under one set of locks.
\<close>

section \<open>The event log\<close>

definition append_event ::
  "instant \<Rightarrow> string \<Rightarrow> string \<Rightarrow> stream_event \<Rightarrow> store \<Rightarrow> nat store_result" where
  "append_event now tenant task_id event s =
     (let seq = counter_of s tenant task_id + 1
      in (Inr seq, s\<lparr>event_counters := hm_insert (tenant, task_id) seq (event_counters s),
            events := hm_insert (tenant, task_id) (log_of s tenant task_id @ [(seq, event, now)])
              (events s)\<rparr>))"

definition get_events_after ::
  "string \<Rightarrow> string \<Rightarrow> nat \<Rightarrow> store \<Rightarrow> storage_error + (nat \<times> stream_event) list" where
  "get_events_after tenant task_id after s =
     (case hm_get (events s) (tenant, task_id) of
        Some evts \<Rightarrow> Inr (map (\<lambda>(seq, e, _). (seq, e)) (filter (\<lambda>(seq, _, _). seq > after) evts))
      | None \<Rightarrow> Inr [])"

definition latest_sequence :: "string \<Rightarrow> string \<Rightarrow> store \<Rightarrow> storage_error + nat" where
  "latest_sequence tenant task_id s = Inr (counter_of s tenant task_id)"

text \<open>
  The loop \<open>for event in events\<close> of the atomic commits: each event takes the next sequence
  number. It returns the numbers, the rows to append and the counter it ends on.
\<close>

fun assign_sequences ::
  "instant \<Rightarrow> nat \<Rightarrow> stream_event list \<Rightarrow> nat list \<times> event_log \<times> nat" where
  "assign_sequences now c [] = ([], [], c)"
| "assign_sequences now c (e # es) =
     (let (seqs, rows, c') = assign_sequences now (c + 1) es
      in ((c + 1) # seqs, (c + 1, e, now) # rows, c'))"

definition commit_events ::
  "instant \<Rightarrow> string \<Rightarrow> string \<Rightarrow> stream_event list \<Rightarrow> store \<Rightarrow> nat list \<times> store" where
  "commit_events now tenant task_id evs s =
     (let (seqs, rows, c') = assign_sequences now (counter_of s tenant task_id) evs
      in (seqs, s\<lparr>event_counters := hm_insert (tenant, task_id) c' (event_counters s),
            events := hm_insert (tenant, task_id) (log_of s tenant task_id @ rows) (events s)\<rparr>))"

text \<open>\<open>sequences.iter().max().map(|m| m.max(prev)).unwrap_or(prev)\<close>.\<close>

definition extend_latest :: "nat \<Rightarrow> nat list \<Rightarrow> nat" where
  "extend_latest prev seqs = fold max seqs prev"

definition task_has_configs :: "store \<Rightarrow> string \<Rightarrow> string \<Rightarrow> bool" where
  "task_has_configs s tenant task_id \<longleftrightarrow>
     list_ex (\<lambda>((t, tid, _), _). t = tenant \<and> tid = task_id) (push_configs s)"

fun write_markers ::
  "instant \<Rightarrow> string \<Rightarrow> string \<Rightarrow> string \<Rightarrow> event_log \<Rightarrow>
     (pending_dispatch_key, stored_pending_dispatch) hashmap \<Rightarrow>
     (pending_dispatch_key, stored_pending_dispatch) hashmap" where
  "write_markers now tenant task_id owner [] m = m"
| "write_markers now tenant task_id owner ((seq, e, _) # rows) m =
     write_markers now tenant task_id owner rows
       (if event_is_terminal e \<and> is_status_update e
        then hm_insert (tenant, task_id, seq) \<lparr>spd_owner = owner, spd_recorded_at = now\<rparr> m
        else m)"

section \<open>\<open>A2aAtomicStore\<close>\<close>

definition create_task_with_events ::
  "instant \<Rightarrow> string \<Rightarrow> string \<Rightarrow> pb_task \<Rightarrow> stream_event list \<Rightarrow> store \<Rightarrow>
     (pb_task \<times> nat list) store_result" where
  "create_task_with_events now tenant owner t evs s =
     (let (t', evs') = stamp_status now t evs;
          (seqs, s') = commit_events now tenant (tk_id t') evs' s
      in (Inr (t', seqs), put_stored tenant (tk_id t')
            (fresh_row now tenant owner t' (extend_latest 0 seqs)) s'))"

definition update_task_status_with_events ::
  "instant \<Rightarrow> string \<Rightarrow> string \<Rightarrow> string \<Rightarrow> pb_task_status \<Rightarrow> stream_event list \<Rightarrow> store \<Rightarrow>
     (pb_task \<times> nat list) store_result" where
  "update_task_status_with_events now tenant task_id owner new_status evs s =
     (case get_stored s tenant task_id of
        None \<Rightarrow> (Inl (SE_TaskNotFound task_id), s)
      | Some r \<Rightarrow>
          if s_owner r \<noteq> owner then (Inl (SE_OwnerMismatch task_id), s)
          else (case check_transition (\<lambda>st. SE_TerminalStateAlreadySet task_id (wire_name st))
                    task_id (s_task r) new_status of
              Inl e \<Rightarrow> (Inl e, s)
            | Inr _ \<Rightarrow> (case task_try_from ((s_task r)\<lparr>tk_status := Some new_status\<rparr>) of
                Inl e \<Rightarrow> (Inl (SE_TypeError e), s)
              | Inr t \<Rightarrow>
                  (let (t', evs') = stamp_status now t evs;
                       rows = fst (snd (assign_sequences now (counter_of s tenant task_id) evs'));
                       (seqs, s1) = commit_events now tenant task_id evs' s;
                       s2 = (if push_dispatch_enabled s \<and> task_has_configs s tenant task_id
                             then s1\<lparr>pending_dispatches :=
                               write_markers now tenant task_id owner rows (pending_dispatches s1)\<rparr>
                             else s1)
                   in (Inr (t', seqs), put_stored tenant task_id
                        (replace_row now tenant owner t'
                          (extend_latest (s_latest_event_sequence r) seqs) r) s2)))))"

definition update_task_with_events ::
  "instant \<Rightarrow> string \<Rightarrow> string \<Rightarrow> pb_task \<Rightarrow> stream_event list \<Rightarrow> store \<Rightarrow> nat list store_result"
where
  "update_task_with_events now tenant owner t evs s =
     (let (t', evs') = stamp_status now t evs; task_id = tk_id t'
      in case get_stored s tenant task_id of
           None \<Rightarrow> (Inl (SE_TaskNotFound task_id), s)
         | Some r \<Rightarrow>
             if s_owner r \<noteq> owner then (Inl (SE_OwnerMismatch task_id), s)
             else (case task_state_of (s_task r) of
                 Some st \<Rightarrow>
                   if is_terminal st
                   then (Inl (SE_TerminalStateAlreadySet task_id (wire_name st)), s)
                   else (let (seqs, s') = commit_events now tenant task_id evs' s
                         in (Inr seqs, put_stored tenant task_id (replace_row now tenant owner t'
                              (extend_latest (s_latest_event_sequence r) seqs) r) s'))
               | None \<Rightarrow> (let (seqs, s') = commit_events now tenant task_id evs' s
                         in (Inr seqs, put_stored tenant task_id (replace_row now tenant owner t'
                              (extend_latest (s_latest_event_sequence r) seqs) r) s'))))"

section \<open>Sequence numbers\<close>

definition seq_range :: "nat \<Rightarrow> nat \<Rightarrow> nat list" where
  "seq_range c n = [Suc c..<Suc (c + n)]"

lemma seq_range_simps [simp]:
  "seq_range c 0 = []"
  "seq_range c (Suc n) = Suc c # seq_range (Suc c) n"
  by (simp_all add: seq_range_def upt_rec [of "Suc c"] del: upt_Suc)

lemma set_seq_range [simp]: "set (seq_range c n) = {c<..c + n}"
  by (auto simp: seq_range_def)

lemma length_seq_range [simp]: "length (seq_range c n) = n"
  by (simp add: seq_range_def)

lemma sorted_seq_range: "sorted_wrt (<) (seq_range c n)"
  by (simp add: seq_range_def del: upt_Suc)

lemma seq_range_Nil_iff [simp]: "seq_range c n = [] \<longleftrightarrow> n = 0"
  by (cases n) auto

definition new_rows :: "instant \<Rightarrow> nat \<Rightarrow> stream_event list \<Rightarrow> event_log" where
  "new_rows now c evs = zip (seq_range c (length evs)) (map (\<lambda>e. (e, now)) evs)"

lemma assign_sequences_spec:
  "assign_sequences now c es = (seq_range c (length es), new_rows now c es, c + length es)"
  by (induction es arbitrary: c) (simp_all add: new_rows_def)

lemma commit_events_spec:
  "fst (commit_events now tn i evs s) = seq_range (counter_of s tn i) (length evs)"
  "snd (commit_events now tn i evs s) =
     s\<lparr>event_counters := hm_insert (tn, i) (counter_of s tn i + length evs) (event_counters s),
       events := hm_insert (tn, i) (log_of s tn i @ new_rows now (counter_of s tn i) evs)
         (events s)\<rparr>"
  by (simp_all add: commit_events_def assign_sequences_spec Let_def)

lemma extend_latest_Max: "extend_latest prev seqs = Max (insert prev (set seqs))"
  by (simp add: extend_latest_def Max.set_eq_fold [symmetric])

lemma extend_latest_ge: "prev \<le> extend_latest prev seqs"
  by (simp add: extend_latest_Max)

lemma extend_latest_seq_range:
  "extend_latest prev (seq_range c n) = (if n = 0 then prev else max prev (c + n))"
proof (induction n arbitrary: c prev)
  case (Suc n)
  have "extend_latest prev (seq_range c (Suc n)) = extend_latest (max (Suc c) prev) (seq_range (Suc c) n)"
    by (simp add: extend_latest_def)
  then show ?case by (auto simp: Suc.IH max_def)
qed (simp add: extend_latest_def)

lemma commit_events_counter:
  "counter_of (snd (commit_events now tn i evs s)) tn' i' =
     (if tn' = tn \<and> i' = i then counter_of s tn i + length evs else counter_of s tn' i')"
  by (auto simp: commit_events_spec counter_of_def hm_simps)

lemma commit_events_log:
  "log_of (snd (commit_events now tn i evs s)) tn' i' =
     (if tn' = tn \<and> i' = i then log_of s tn i @ new_rows now (counter_of s tn i) evs
      else log_of s tn' i')"
  by (auto simp: commit_events_spec log_of_def hm_simps)

lemma commit_events_frame [simp]:
  "tasks (snd (commit_events now tn i evs s)) = tasks s"
  "push_configs (snd (commit_events now tn i evs s)) = push_configs s"
  "push_delivery_claims (snd (commit_events now tn i evs s)) = push_delivery_claims s"
  "pending_dispatches (snd (commit_events now tn i evs s)) = pending_dispatches s"
  "push_dispatch_enabled (snd (commit_events now tn i evs s)) = push_dispatch_enabled s"
  "retention (snd (commit_events now tn i evs s)) = retention s"
  "get_stored (snd (commit_events now tn i evs s)) = get_stored s"
  by (simp_all add: commit_events_spec get_stored_def fun_eq_iff)

lemma hm_wf_write_markers: "hm_wf m \<Longrightarrow> hm_wf (write_markers now tn i ow rows m)"
  by (induction now tn i ow rows m rule: write_markers.induct) (auto simp: hm_simps)

section \<open>Each commit as one equation\<close>

text \<open>
  A commit either fails and leaves the state as it was, or does all of its writes. The lemmas
  give each successful commit as one state.
\<close>

lemma create_task_with_events_eq:
  "create_task_with_events now tn ow t evs s =
     (let t' = fst (stamp_status now t evs); evs' = snd (stamp_status now t evs);
          c = counter_of s tn (tk_id t); seqs = seq_range c (length evs)
      in (Inr (t', seqs), put_stored tn (tk_id t)
            (fresh_row now tn ow t' (if evs = [] then 0 else c + length evs))
            (snd (commit_events now tn (tk_id t) evs' s))))"
  by (cases "stamp_status now t evs"; cases "commit_events now tn (tk_id t) (snd (stamp_status now t evs)) s")
    (use stamp_status_frame [of now t evs] commit_events_spec(1) [of now tn "tk_id t" "snd (stamp_status now t evs)" s]
      in \<open>auto simp: create_task_with_events_def Let_def extend_latest_seq_range simp del: stamp_status_frame\<close>)

lemma update_task_with_events_cases:
  assumes "update_task_with_events now tn ow t evs s = (res, s')"
  obtains (not_found) "get_stored s tn (tk_id t) = None" "res = Inl (SE_TaskNotFound (tk_id t))" "s' = s"
  | (owner) r where "get_stored s tn (tk_id t) = Some r" "s_owner r \<noteq> ow"
      "res = Inl (SE_OwnerMismatch (tk_id t))" "s' = s"
  | (terminal) r st where "get_stored s tn (tk_id t) = Some r" "s_owner r = ow"
      "task_state_of (s_task r) = Some st" "is_terminal st"
      "res = Inl (SE_TerminalStateAlreadySet (tk_id t) (wire_name st))" "s' = s"
  | (committed) r where "get_stored s tn (tk_id t) = Some r" "s_owner r = ow" "\<not> row_terminal r"
      "res = Inr (seq_range (counter_of s tn (tk_id t)) (length evs))"
      "s' = put_stored tn (tk_id t) (replace_row now tn ow (fst (stamp_status now t evs))
        (if evs = [] then s_latest_event_sequence r
         else max (s_latest_event_sequence r) (counter_of s tn (tk_id t) + length evs)) r)
        (snd (commit_events now tn (tk_id t) (snd (stamp_status now t evs)) s))"
proof -
  obtain t' evs' where st: "stamp_status now t evs = (t', evs')" by fastforce
  then have frame: "tk_id t' = tk_id t" "length evs' = length evs"
    using stamp_status_frame [of now t evs] by auto
  obtain seqs s1 where ce: "commit_events now tn (tk_id t) evs' s = (seqs, s1)" by fastforce
  then have seqs: "seqs = seq_range (counter_of s tn (tk_id t)) (length evs)"
    using commit_events_spec(1) [of now tn "tk_id t" evs' s] frame by simp
  have empty: "length evs = 0 \<longleftrightarrow> evs = []" by simp
  show thesis
  proof (cases "get_stored s tn (tk_id t)")
    case None
    with assms st frame show thesis
      by (intro not_found) (auto simp: update_task_with_events_def Let_def)
  next
    case (Some r)
    show thesis
    proof (cases "s_owner r = ow")
      case False
      with assms st frame Some show thesis
        by (intro owner [of r]) (auto simp: update_task_with_events_def Let_def)
    next
      case True
      show thesis
      proof (cases "row_terminal r")
        case T: True
        then obtain x where "task_state_of (s_task r) = Some x" "is_terminal x"
          by (auto simp: row_terminal_def split: option.splits)
        with assms st frame Some True show thesis
          by (intro terminal [of r x]) (auto simp: update_task_with_events_def Let_def)
      next
        case False
        with assms st frame Some True ce seqs show thesis
          by (intro committed [of r])
            (auto simp: update_task_with_events_def Let_def row_terminal_def extend_latest_seq_range
              simp del: upt_Suc split: option.splits)
      qed
    qed
  qed
qed

lemma update_status_with_events_cases:
  assumes "update_task_status_with_events now tn i ow st evs s = (res, s')"
  obtains (failed) e where "res = Inl e" "s' = s"
  | (committed) r c n t' evs' where "get_stored s tn i = Some r" "s_owner r = ow"
      "task_state_of (s_task r) = Some c" "status_state st = Inr n" "validate_transition c n = Inr ()"
      "tk_id (s_task r) \<noteq> []"
      "stamp_status now ((s_task r)\<lparr>tk_status := Some st\<rparr>) evs = (t', evs')"
      "task_state_of t' = Some n" "tk_id t' = tk_id (s_task r)"
      "res = Inr (t', seq_range (counter_of s tn i) (length evs))"
      "s' = put_stored tn i (replace_row now tn ow t'
          (if evs = [] then s_latest_event_sequence r
           else max (s_latest_event_sequence r) (counter_of s tn i + length evs)) r)
        (if push_dispatch_enabled s \<and> task_has_configs s tn i
         then (snd (commit_events now tn i evs' s))\<lparr>pending_dispatches :=
           write_markers now tn i ow (new_rows now (counter_of s tn i) evs') (pending_dispatches s)\<rparr>
         else snd (commit_events now tn i evs' s))"
proof (cases "get_stored s tn i")
  case None
  with assms show thesis
    by (intro failed) (auto simp: update_task_status_with_events_def)
next
  case (Some r)
  note row = this
  show thesis
  proof (cases "s_owner r = ow \<and>
      check_transition (\<lambda>st. SE_TerminalStateAlreadySet i (wire_name st)) i (s_task r) st = Inr () \<and>
      (\<exists>t. task_try_from ((s_task r)\<lparr>tk_status := Some st\<rparr>) = Inr t)")
    case False
    then have "\<exists>e. res = Inl e \<and> s' = s"
      using assms row
      by (auto simp: update_task_status_with_events_def split: if_splits sum.splits)
    then show thesis using failed by blast
  next
    case True
    then obtain c n where tr: "task_state_of (s_task r) = Some c" "status_state st = Inr n"
        "validate_transition c n = Inr ()"
      by (auto simp: check_transition_ok)
    let ?t = "(s_task r)\<lparr>tk_status := Some st\<rparr>"
    have tf: "task_try_from ?t = Inr ?t" "tk_id (s_task r) \<noteq> []"
      using True by (auto simp: task_try_from_iff)
    obtain t' evs' where ss: "stamp_status now ?t evs = (t', evs')" by fastforce
    then have frame: "tk_id t' = tk_id (s_task r)" "length evs' = length evs" "task_state_of t' = Some n"
      using stamp_status_frame [of now ?t evs] tr(2) by (auto simp: task_state_of_set_status)
    obtain seqs s1 where ce: "commit_events now tn i evs' s = (seqs, s1)" by fastforce
    then have seqs: "seqs = seq_range (counter_of s tn i) (length evs)"
      and s1: "s1 = snd (commit_events now tn i evs' s)"
      using commit_events_spec(1) [of now tn i evs' s] frame by simp_all
    have "pending_dispatches s1 = pending_dispatches s" by (simp add: s1)
    then show thesis
      using assms row True tr tf ss frame ce seqs
      by (intro committed [of r c n t' evs'])
        (auto simp: update_task_status_with_events_def assign_sequences_spec extend_latest_seq_range)
  qed
qed

end
