(* ===== verification/Paging.thy ===== *)
theory Paging
  imports Prelude
begin

text \<open>
  Cursor paging: a listing is read page by page, each page naming the token of the next one.
  The locale states what a client needs of a provider (the page at the start, the page after a
  given item) and proves once that following the tokens reads the whole listing, each item
  once and in order, and that it ends.
\<close>

text \<open>The client's loop: take the page, follow its token until there is none.\<close>

fun walk_pages :: "nat \<Rightarrow> ('t option \<Rightarrow> 'a list \<times> 't option) \<Rightarrow> 't option \<Rightarrow> 'a list option" where
  "walk_pages 0 fetch t = None"
| "walk_pages (Suc fuel) fetch t =
     (case fetch t of
        (xs, None) \<Rightarrow> Some xs
      | (xs, Some t') \<Rightarrow> map_option ((@) xs) (walk_pages fuel fetch (Some t')))"

text \<open>The page of \<open>n\<close> items from position \<open>k\<close>, and the token of its last item.\<close>

definition cut_page :: "('a \<Rightarrow> 't) \<Rightarrow> nat \<Rightarrow> 'a list \<Rightarrow> nat \<Rightarrow> 'a list \<times> 't option" where
  "cut_page tok n xs k = (take n (drop k xs),
     if k + n < length xs then Some (tok (xs ! (k + n - 1))) else None)"

lemma walk_pages_mono:
  "walk_pages fuel fetch t = Some xs \<Longrightarrow> walk_pages (Suc fuel) fetch t = Some xs"
proof (induction fuel arbitrary: t xs)
  case (Suc fuel)
  obtain ys nxt where f: "fetch t = (ys, nxt)" by fastforce
  show ?case
  proof (cases nxt)
    case None
    with f Suc.prems show ?thesis by simp
  next
    case (Some t')
    with f Suc.prems obtain zs where zs: "walk_pages fuel fetch (Some t') = Some zs" "xs = ys @ zs"
      by auto
    from Suc.IH [OF zs(1)] have "walk_pages (Suc fuel) fetch (Some t') = Some zs" .
    with f Some zs(2) show ?thesis by (subst walk_pages.simps(2)) simp
  qed
qed simp

locale cursor_paging =
  fixes listing :: "'s \<Rightarrow> 'a list"
    and good :: "'s \<Rightarrow> bool"
    and tok :: "'a \<Rightarrow> 't"
    and size :: nat
    and fetch :: "'s \<Rightarrow> 't option \<Rightarrow> 'a list \<times> 't option"
  assumes size_pos: "0 < size"
    and fetch_first: "good s \<Longrightarrow> fetch s None = cut_page tok size (listing s) 0"
    and fetch_next: "good s \<Longrightarrow> i < length (listing s) \<Longrightarrow>
      fetch s (Some (tok (listing s ! i))) = cut_page tok size (listing s) (Suc i)"
begin

lemma page_bound: "good s \<Longrightarrow> length (fst (fetch s None)) \<le> size"
  by (simp add: fetch_first cut_page_def)

lemma walk_from:
  assumes "good s" and "length (listing s) - k < fuel" and "k \<le> length (listing s)"
    and "fetch s t = cut_page tok size (listing s) k"
  shows "walk_pages fuel (fetch s) t = Some (drop k (listing s))"
  using assms(2-)
proof (induction fuel arbitrary: k t)
  case (Suc fuel)
  let ?xs = "listing s"
  show ?case
  proof (cases "k + size < length ?xs")
    case True
    let ?k = "k + size"
    have "fetch s (Some (tok (?xs ! (?k - 1)))) = cut_page tok size ?xs ?k"
      using fetch_next [OF assms(1), of "?k - 1"] size_pos True by simp
    moreover have "length ?xs - ?k < fuel"
      using Suc.prems(1) size_pos True by linarith
    ultimately have "walk_pages fuel (fetch s) (Some (tok (?xs ! (?k - 1)))) = Some (drop ?k ?xs)"
      using Suc.IH [of ?k] True by simp
    with Suc.prems(3) True show ?thesis
      by (simp add: cut_page_def) (metis add.commute append_take_drop_id drop_drop)
  next
    case False
    with Suc.prems(3) show ?thesis by (simp add: cut_page_def)
  qed
qed simp

theorem walk_complete:
  assumes "good s" and "length (listing s) < fuel"
  shows "walk_pages fuel (fetch s) None = Some (listing s)"
  using walk_from [OF assms(1), of 0 fuel None] fetch_first [OF assms(1)] assms(2) by simp

end

text \<open>
  How the providers find the start of a page: the first item that comes after the token.
\<close>

lemma position_after:
  assumes "sorted_wrt before xs" and "i < length xs"
    and "\<And>x y. x \<in> set xs \<Longrightarrow> y \<in> set xs \<Longrightarrow> after x y \<longleftrightarrow> before x y"
    and "\<And>x y. before x y \<Longrightarrow> \<not> before y x"
  shows "position (after (xs ! i)) xs = (if Suc i < length xs then Some (Suc i) else None)"
proof -
  have iff: "after (xs ! i) (xs ! j) \<longleftrightarrow> i < j" if "j < length xs" for j
  proof -
    have "after (xs ! i) (xs ! j) \<longleftrightarrow> before (xs ! i) (xs ! j)"
      using assms(2,3) that by simp
    moreover have "before (xs ! i) (xs ! j)" if "i < j"
      using assms(1) \<open>j < length xs\<close> that by (simp add: sorted_wrt_nth_less)
    moreover have "\<not> before (xs ! i) (xs ! j)" if "j < i"
      using assms(1,2,4) that by (meson sorted_wrt_nth_less)
    moreover have "\<not> before (xs ! i) (xs ! i)"
      using assms(4) by blast
    ultimately show ?thesis by (cases i j rule: linorder_cases) auto
  qed
  show ?thesis
  proof (cases "position (after (xs ! i)) xs")
    case None
    then have "\<not> after (xs ! i) (xs ! Suc i)" if "Suc i < length xs"
      using that by (simp add: position_None)
    then have "\<not> Suc i < length xs" using iff [of "Suc i"] by blast
    with None show ?thesis by simp
  next
    case (Some k)
    from position_Some [OF Some]
    have k: "k < length xs" "after (xs ! i) (xs ! k)" "\<And>j. j < k \<Longrightarrow> \<not> after (xs ! i) (xs ! j)"
      by auto
    have "i < k" using iff k(1,2) by blast
    moreover have "\<not> Suc i < k"
    proof
      assume "Suc i < k"
      with k(1,3) iff [of "Suc i"] show False by auto
    qed
    ultimately have "k = Suc i" by simp
    with Some k(1) show ?thesis by simp
  qed
qed

end
