(* ===== verification/Push_Configs.thy ===== *)
theory Push_Configs
  imports Store_Atomic Paging
begin

text \<open>
  \<open>A2aPushNotificationStorage\<close> of the in-memory store: creation with the causal-floor CAS, and
  the paged listings. The two phases of the CAS release the lock in between, so the model runs
  them as two steps with the other writers' work (\<open>env\<close>) in the gap.
\<close>

section \<open>\<open>create_config\<close>\<close>

definition latest_floor :: "store \<Rightarrow> string \<Rightarrow> string \<Rightarrow> nat" where
  "latest_floor s tenant task_id = (case get_stored s tenant task_id of
       Some r \<Rightarrow> s_latest_event_sequence r | None \<Rightarrow> 0)"

definition MAX_ATTEMPTS :: nat where "MAX_ATTEMPTS = 5"

definition insert_config :: "string \<Rightarrow> push_config \<Rightarrow> nat \<Rightarrow> store \<Rightarrow> store" where
  "insert_config tenant cfg stamp s = s\<lparr>push_configs :=
     hm_insert (tenant, pc_task_id cfg, pc_id cfg)
       \<lparr>spc_config = cfg, spc_registered_after_event_sequence = stamp\<rparr> (push_configs s)\<rparr>"

text \<open>
  The retry loop. \<open>env a\<close> is what the other tasks of the server do between phase 1 and phase 2
  of attempt \<open>a\<close> (and in the backoff sleep before it); \<open>left\<close> counts the attempts left.
\<close>

fun create_config_loop ::
  "nat \<Rightarrow> (nat \<Rightarrow> store \<Rightarrow> store) \<Rightarrow> string \<Rightarrow> push_config \<Rightarrow> nat \<Rightarrow> store \<Rightarrow> push_config store_result"
where
  "create_config_loop 0 env tenant cfg attempt s =
     (Inl (SE_CreateConfigCasTimeout tenant (pc_task_id cfg)), s)"
| "create_config_loop (Suc left) env tenant cfg attempt s =
     (let seq_read = latest_floor s tenant (pc_task_id cfg);
          s1 = env attempt s;
          seq_now = latest_floor s1 tenant (pc_task_id cfg)
      in if seq_now \<noteq> seq_read
         then create_config_loop left env tenant cfg (attempt + 1) s1
         else (Inr cfg, insert_config tenant cfg seq_read s1))"

definition create_config ::
  "string \<Rightarrow> (nat \<Rightarrow> store \<Rightarrow> store) \<Rightarrow> string \<Rightarrow> push_config \<Rightarrow> store \<Rightarrow> push_config store_result" where
  "create_config uuid env tenant cfg s =
     (let cfg' = (if pc_id cfg = [] then cfg\<lparr>pc_id := uuid\<rparr> else cfg)
      in create_config_loop MAX_ATTEMPTS env tenant cfg' 0 s)"

section \<open>Reads and delete\<close>

definition get_config ::
  "string \<Rightarrow> string \<Rightarrow> string \<Rightarrow> store \<Rightarrow> storage_error + push_config option" where
  "get_config tenant task_id config_id s =
     Inr (map_option spc_config (hm_get (push_configs s) (tenant, task_id, config_id)))"

definition delete_config :: "string \<Rightarrow> string \<Rightarrow> string \<Rightarrow> store \<Rightarrow> unit store_result" where
  "delete_config tenant task_id config_id s =
     (Inr (), s\<lparr>push_configs := hm_remove (tenant, task_id, config_id) (push_configs s)\<rparr>)"

text \<open>The page cut shared by both listings: \<open>matching\<close> sorted by id, the token the last id.\<close>

definition config_page :: "push_config list \<Rightarrow> string option \<Rightarrow> int option \<Rightarrow> push_config_page" where
  "config_page matching page_token page_size =
     (let n = nat (push_config_page_size page_size);
          start_idx = (case page_token of
              Some token \<Rightarrow> (case position (\<lambda>c. pc_id c > token) matching of
                  Some i \<Rightarrow> i | None \<Rightarrow> length matching)
            | None \<Rightarrow> 0);
          end_idx = min (start_idx + n) (length matching);
          page_configs = take (end_idx - start_idx) (drop start_idx matching);
          next = (if end_idx < length matching
            then (if page_configs = [] then '''' else pc_id (last page_configs)) else '''')
      in \<lparr>pcp_configs = page_configs, pcp_next_page_token = next\<rparr>)"

definition task_configs :: "(nat \<Rightarrow> bool) \<Rightarrow> string \<Rightarrow> string \<Rightarrow> store \<Rightarrow> push_config list" where
  "task_configs P tenant task_id s = sort_key pc_id (map (\<lambda>(_, v). spc_config v)
     (filter (\<lambda>((t, tid, _), v). t = tenant \<and> tid = task_id \<and>
        P (spc_registered_after_event_sequence v)) (push_configs s)))"

definition list_configs ::
  "string \<Rightarrow> string \<Rightarrow> string option \<Rightarrow> int option \<Rightarrow> store \<Rightarrow> storage_error + push_config_page"
where
  "list_configs tenant task_id page_token page_size s =
     Inr (config_page (task_configs (\<lambda>_. True) tenant task_id s) page_token page_size)"

definition list_configs_eligible_at_event ::
  "string \<Rightarrow> string \<Rightarrow> nat \<Rightarrow> string option \<Rightarrow> int option \<Rightarrow> store \<Rightarrow> storage_error + push_config_page"
where
  "list_configs_eligible_at_event tenant task_id event_sequence page_token page_size s =
     Inr (config_page (task_configs (\<lambda>floor. floor < event_sequence) tenant task_id s)
       page_token page_size)"

section \<open>The causal floor\<close>

lemma create_config_loop_result:
  assumes "create_config_loop left env tn cfg a s = (res, s')"
  shows "(res = Inl (SE_CreateConfigCasTimeout tn (pc_task_id cfg)) \<and>
      s' = fold env [a..<a + left] s) \<or>
    (\<exists>k<left. res = Inr cfg \<and> (let s1 = fold env [a..<a + Suc k] s
       in s' = insert_config tn cfg (latest_floor s1 tn (pc_task_id cfg)) s1))"
  using assms
proof (induction left env tn cfg a s arbitrary: res s' rule: create_config_loop.induct)
  case (2 left env tn cfg a s)
  show ?case
  proof (cases "latest_floor (env a s) tn (pc_task_id cfg) = latest_floor s tn (pc_task_id cfg)")
    case True
    with "2.prems" show ?thesis
      by (intro disjI2 exI [of _ 0]) (auto simp: Let_def)
  next
    case False
    with "2.prems" have "create_config_loop left env tn cfg (a + 1) (env a s) = (res, s')"
      by (auto simp: Let_def)
    note IH = "2.IH" [OF refl refl refl _ this]
    have upt: "[a..<a + Suc m] = a # [Suc a..<Suc a + m]" for m
      by (simp add: upt_rec del: upt_Suc)
    show ?thesis
      using IH False unfolding upt
      by (auto simp: Let_def upt simp del: upt_Suc)
  qed
qed simp

lemma create_config_loop_quiet:
  assumes "left > 0"
    and "latest_floor (env a s) tn (pc_task_id cfg) = latest_floor s tn (pc_task_id cfg)"
  shows "create_config_loop left env tn cfg a s =
    (Inr cfg, insert_config tn cfg (latest_floor s tn (pc_task_id cfg)) (env a s))"
  using assms by (cases left) (auto simp: Let_def)

section \<open>Listings\<close>

lemma set_task_configs:
  "set (task_configs P tn i s) = {spc_config v | v c. ((tn, i, c), v) \<in> set (push_configs s) \<and>
     P (spc_registered_after_event_sequence v)}"
  by (auto simp: task_configs_def image_iff)

lemma sorted_task_configs: "sorted (map pc_id (task_configs P tn i s))"
  by (simp add: task_configs_def)

text \<open>Each row sits under its own tenant, task and config id.\<close>

definition configs_keyed :: "store \<Rightarrow> bool" where
  "configs_keyed s \<longleftrightarrow> hm_wf (push_configs s) \<and>
     (\<forall>((t, tid, c), v) \<in> set (push_configs s). pc_task_id (spc_config v) = tid \<and>
        pc_id (spc_config v) = c \<and> c \<noteq> [])"

lemma distinct_task_configs:
  assumes "configs_keyed s"
  shows "distinct (map pc_id (task_configs P tn i s))"
proof -
  let ?rows = "filter (\<lambda>((t, tid, _), v). t = tn \<and> tid = i \<and>
    P (spc_registered_after_event_sequence v)) (push_configs s)"
  let ?id = "\<lambda>e. pc_id (spc_config (snd e))"
  have d: "distinct (map fst ?rows)"
    using assms by (simp add: configs_keyed_def hm_wf_def distinct_map_filter)
  have "fst e = (tn, i, ?id e)" if "e \<in> set ?rows" for e
    using assms that by (cases e) (auto simp: configs_keyed_def)
  then have "map fst ?rows = map (\<lambda>x. (tn, i, x)) (map ?id ?rows)"
    by simp
  with d have "distinct (map ?id ?rows)"
    by (simp only: distinct_map)
  then have "distinct (map pc_id (map (\<lambda>(_, v). spc_config v) ?rows))"
    by (simp add: comp_def split_beta')
  moreover have "mset (map pc_id (task_configs P tn i s)) = mset (map pc_id (map (\<lambda>(_, v). spc_config v) ?rows))"
    by (simp only: task_configs_def mset_map mset_sort)
  ultimately show ?thesis
    using mset_eq_imp_distinct_iff by blast
qed

text \<open>The listings are a provider of the paging contract, for any filter and page size.\<close>

definition config_fetch ::
  "(nat \<Rightarrow> bool) \<Rightarrow> string \<Rightarrow> string \<Rightarrow> int option \<Rightarrow> store \<Rightarrow> string option \<Rightarrow>
     push_config list \<times> string option" where
  "config_fetch P tenant task_id page_size s token =
     (let p = config_page (task_configs P tenant task_id s) token page_size
      in (pcp_configs p,
          if pcp_next_page_token p = [] then None else Some (pcp_next_page_token p)))"

lemma task_config_ids:
  "configs_keyed s \<Longrightarrow> c \<in> set (task_configs P tn i s) \<Longrightarrow> pc_id c \<noteq> []"
  by (auto simp: set_task_configs configs_keyed_def)

lemma config_page_cut:
  assumes "configs_keyed s" and "start \<le> length (task_configs P tn i s)"
    and "(case token of
            Some t \<Rightarrow> (case position (\<lambda>c. pc_id c > t) (task_configs P tn i s) of
                Some i \<Rightarrow> i | None \<Rightarrow> length (task_configs P tn i s))
          | None \<Rightarrow> 0) = start"
  shows "config_fetch P tn i ps s token =
    cut_page pc_id (nat (push_config_page_size ps)) (task_configs P tn i s) start"
proof -
  let ?xs = "task_configs P tn i s" and ?n = "nat (push_config_page_size ps)"
  have n: "0 < ?n" using push_config_page_size_bounds [of ps] by simp
  have cut: "take (min (start + ?n) (length ?xs) - start) (drop start ?xs) = take ?n (drop start ?xs)"
    using assms(2) by (simp add: min_def)
  have "last (take ?n (drop start ?xs)) = ?xs ! (start + ?n - 1)"
    and "pc_id (?xs ! (start + ?n - 1)) \<noteq> []" and "take ?n (drop start ?xs) \<noteq> []"
    if "start + ?n < length ?xs"
    using that n task_config_ids [OF assms(1), of "?xs ! (start + ?n - 1)" P tn i]
    by (auto simp: last_conv_nth min_def)
  with assms(3) cut show ?thesis
    by (auto simp: config_fetch_def config_page_def Let_def cut_page_def min_def)
qed

interpretation config_paging: cursor_paging "task_configs P tn i" configs_keyed pc_id
  "nat (push_config_page_size ps)" "config_fetch P tn i ps"
  for P :: "nat \<Rightarrow> bool" and tn :: string and i :: string and ps :: "int option"
proof
  show "0 < nat (push_config_page_size ps)"
    using push_config_page_size_bounds [of ps] by simp
next
  fix s assume "configs_keyed s"
  then show "config_fetch P tn i ps s None =
    cut_page pc_id (nat (push_config_page_size ps)) (task_configs P tn i s) 0"
    by (rule config_page_cut) simp_all
next
  fix s k assume k: "configs_keyed s" "k < length (task_configs P tn i s)"
  let ?xs = "task_configs P tn i s"
  have "sorted_wrt (<) (map pc_id ?xs)"
    using sorted_task_configs [of P tn i s] distinct_task_configs [OF k(1), of P tn i]
    by (simp add: strict_sorted_iff)
  then have "sorted_wrt (\<lambda>a b. pc_id a < pc_id b) ?xs"
    by (simp add: sorted_wrt_map)
  then have "position (\<lambda>c. pc_id c > pc_id (?xs ! k)) ?xs = (if Suc k < length ?xs then Some (Suc k) else None)"
    using position_after [of "\<lambda>a b. pc_id a < pc_id b" ?xs k "\<lambda>a b. pc_id b > pc_id a"] k(2) by auto
  then show "config_fetch P tn i ps s (Some (pc_id (?xs ! k))) =
    cut_page pc_id (nat (push_config_page_size ps)) ?xs (Suc k)"
    using k by (intro config_page_cut) auto
qed

text \<open>A created config carries the floor of its task at the time of the insertion.\<close>

lemma created_config_floor:
  assumes "create_config uuid env tn cfg s = (res, s')"
  shows "(\<exists>cfg'. res = Inr cfg' \<and> pc_id cfg' = (if pc_id cfg = [] then uuid else pc_id cfg) \<and>
      hm_get (push_configs s') (tn, pc_task_id cfg, pc_id cfg') =
        Some \<lparr>spc_config = cfg', spc_registered_after_event_sequence = latest_floor s' tn (pc_task_id cfg)\<rparr>) \<or>
    (res = Inl (SE_CreateConfigCasTimeout tn (pc_task_id cfg)) \<and> s' = fold env [0..<5] s)"
proof -
  let ?cfg = "if pc_id cfg = [] then cfg\<lparr>pc_id := uuid\<rparr> else cfg"
  have tid: "pc_task_id ?cfg = pc_task_id cfg" by simp
  have floor: "latest_floor (insert_config tn c k x) tn i = latest_floor x tn i" for c k x i
    by (simp add: latest_floor_def get_stored_def insert_config_def)
  have get: "hm_get (push_configs (insert_config tn ?cfg k x)) (tn, pc_task_id cfg, pc_id ?cfg) =
      Some \<lparr>spc_config = ?cfg, spc_registered_after_event_sequence = k\<rparr>" for k x
    by (simp add: insert_config_def hm_simps)
  have "create_config_loop 5 env tn ?cfg 0 s = (res, s')"
    using assms by (simp only: create_config_def MAX_ATTEMPTS_def Let_def)
  from create_config_loop_result [OF this] consider
      "res = Inl (SE_CreateConfigCasTimeout tn (pc_task_id cfg))" "s' = fold env [0..<5] s"
    | s1 where "res = Inr ?cfg" "s' = insert_config tn ?cfg (latest_floor s1 tn (pc_task_id cfg)) s1"
    unfolding tid Let_def by auto
  then show ?thesis
  proof cases
    case (2 s1)
    have "pc_id ?cfg = (if pc_id cfg = [] then uuid else pc_id cfg)" by simp
    with 2 get [of "latest_floor s1 tn (pc_task_id cfg)" s1] floor show ?thesis by metis
  qed simp
qed

end
