(* ===== verification/Push_Claims.thy ===== *)
theory Push_Claims
  imports Push_Configs
begin

text \<open>
  \<open>A2aPushDeliveryStore\<close> of the in-memory store: claims with a fencing token
  (\<open>claimant\<close>, \<open>generation\<close>), attempt counts, terminal rows, and the pending-dispatch markers.
  The locale \<open>claim_store\<close> is the contract the delivery worker relies on.
\<close>

section \<open>Claim, attempt, outcome\<close>

definition claim_of :: "store \<Rightarrow> push_delivery_key \<Rightarrow> stored_delivery_claim option" where
  "claim_of s key = hm_get (push_delivery_claims s) key"

definition put_claim :: "push_delivery_key \<Rightarrow> stored_delivery_claim \<Rightarrow> store \<Rightarrow> store" where
  "put_claim key row s = s\<lparr>push_delivery_claims := hm_insert key row (push_delivery_claims s)\<rparr>"

definition stale_claim :: "push_delivery_key \<Rightarrow> storage_error" where
  "stale_claim key = (case key of (tenant, task_id, sequence, config_id) \<Rightarrow>
     SE_StaleDeliveryClaim tenant task_id sequence config_id)"

definition claim_held :: "push_delivery_key \<Rightarrow> storage_error" where
  "claim_held key = (case key of (tenant, task_id, sequence, config_id) \<Rightarrow>
     SE_ClaimAlreadyHeld tenant task_id sequence config_id)"

definition reclaimed_row ::
  "instant \<Rightarrow> string \<Rightarrow> nat \<Rightarrow> stored_delivery_claim \<Rightarrow> stored_delivery_claim" where
  "reclaimed_row now claimant expiry old = \<lparr>cl_claimant = claimant, cl_owner = cl_owner old,
     cl_generation = cl_generation old + 1, cl_claimed_at = now, cl_expires_at = now + expiry,
     cl_delivery_attempt_count = cl_delivery_attempt_count old, cl_status = Pending,
     cl_first_attempted_at = cl_first_attempted_at old,
     cl_last_attempted_at = cl_last_attempted_at old,
     cl_last_http_status = cl_last_http_status old, cl_last_error_class = cl_last_error_class old,
     cl_gave_up_at = None, cl_gave_up_reason = None, cl_abandoned_reason = None\<rparr>"

definition fresh_claim_row :: "instant \<Rightarrow> string \<Rightarrow> string \<Rightarrow> nat \<Rightarrow> stored_delivery_claim" where
  "fresh_claim_row now claimant owner expiry = \<lparr>cl_claimant = claimant, cl_owner = owner,
     cl_generation = 1, cl_claimed_at = now, cl_expires_at = now + expiry,
     cl_delivery_attempt_count = 0, cl_status = Pending, cl_first_attempted_at = None,
     cl_last_attempted_at = None, cl_last_http_status = None, cl_last_error_class = None,
     cl_gave_up_at = None, cl_gave_up_reason = None, cl_abandoned_reason = None\<rparr>"

definition claim_delivery ::
  "instant \<Rightarrow> push_delivery_key \<Rightarrow> string \<Rightarrow> string \<Rightarrow> nat \<Rightarrow> store \<Rightarrow> delivery_claim store_result" where
  "claim_delivery now key claimant owner expiry s = (case claim_of s key of
       Some old \<Rightarrow>
         if claim_terminal (cl_status old) \<or> cl_expires_at old > now
         then (Inl (claim_held key), s)
         else (let row = reclaimed_row now claimant expiry old
               in (Inr (as_claim row), put_claim key row s))
     | None \<Rightarrow> (let row = fresh_claim_row now claimant owner expiry
               in (Inr (as_claim row), put_claim key row s)))"

definition attempt_row :: "instant \<Rightarrow> stored_delivery_claim \<Rightarrow> stored_delivery_claim" where
  "attempt_row now r = r\<lparr>
     cl_delivery_attempt_count := sat_inc_u32 (cl_delivery_attempt_count r),
     cl_status := (if cl_status r = Pending then Attempting else cl_status r),
     cl_first_attempted_at := (case cl_first_attempted_at r of None \<Rightarrow> Some now | Some x \<Rightarrow> Some x),
     cl_last_attempted_at := Some now\<rparr>"

definition record_attempt_started ::
  "instant \<Rightarrow> push_delivery_key \<Rightarrow> string \<Rightarrow> nat \<Rightarrow> store \<Rightarrow> nat store_result" where
  "record_attempt_started now key claimant claim_generation s = (case claim_of s key of
       None \<Rightarrow> (Inl (stale_claim key), s)
     | Some r \<Rightarrow>
         if cl_claimant r \<noteq> claimant \<or> cl_generation r \<noteq> claim_generation
         then (Inl (stale_claim key), s)
         else if claim_terminal (cl_status r) then (Inl (stale_claim key), s)
         else (let r' = attempt_row now r
               in (Inr (cl_delivery_attempt_count r'), put_claim key r' s)))"

definition or_now :: "instant \<Rightarrow> instant option \<Rightarrow> instant option" where
  "or_now now x = (case x of None \<Rightarrow> Some now | Some y \<Rightarrow> Some y)"

fun outcome_row ::
  "instant \<Rightarrow> delivery_outcome \<Rightarrow> stored_delivery_claim \<Rightarrow> stored_delivery_claim" where
  "outcome_row now (OutSucceeded http_status) r = r\<lparr>cl_status := Succeeded,
     cl_last_http_status := Some http_status,
     cl_first_attempted_at := or_now now (cl_first_attempted_at r),
     cl_last_attempted_at := Some now\<rparr>"
| "outcome_row now (OutRetry next_attempt_at http_status error_class) r = r\<lparr>cl_status := Attempting,
     cl_last_http_status := http_status, cl_last_error_class := Some error_class,
     cl_last_attempted_at := Some now\<rparr>"
| "outcome_row now (OutGaveUp reason error_class http_status retained_until) r = r\<lparr>
     cl_status := GaveUp, cl_expires_at := retained_until, cl_gave_up_at := Some now,
     cl_gave_up_reason := Some reason, cl_last_error_class := Some error_class,
     cl_last_http_status := http_status,
     cl_first_attempted_at := or_now (cl_claimed_at r) (cl_first_attempted_at r),
     cl_last_attempted_at := or_now now (cl_last_attempted_at r)\<rparr>"
| "outcome_row now (OutAbandoned reason) r = r\<lparr>cl_status := Abandoned,
     cl_abandoned_reason := Some reason\<rparr>"

definition record_delivery_outcome ::
  "instant \<Rightarrow> push_delivery_key \<Rightarrow> string \<Rightarrow> nat \<Rightarrow> delivery_outcome \<Rightarrow> store \<Rightarrow> unit store_result" where
  "record_delivery_outcome now key claimant claim_generation outcome s = (case claim_of s key of
       None \<Rightarrow> (Inl (stale_claim key), s)
     | Some r \<Rightarrow>
         if cl_claimant r \<noteq> claimant \<or> cl_generation r \<noteq> claim_generation
         then (Inl (stale_claim key), s)
         else if claim_terminal (cl_status r) then (Inr (), s)
         else (Inr (), put_claim key (outcome_row now outcome r) s))"

section \<open>Sweeps and listings\<close>

definition claim_open :: "stored_delivery_claim \<Rightarrow> bool" where
  "claim_open r \<longleftrightarrow> cl_status r = Pending \<or> cl_status r = Attempting"

definition sweep_expired_claims :: "instant \<Rightarrow> store \<Rightarrow> storage_error + nat" where
  "sweep_expired_claims now s = Inr (length (filter (\<lambda>r. claim_open r \<and> cl_expires_at r < now)
     (hm_values (push_delivery_claims s))))"

definition list_reclaimable_claims ::
  "instant \<Rightarrow> nat \<Rightarrow> store \<Rightarrow> storage_error + reclaimable_claim list" where
  "list_reclaimable_claims now limit s = Inr (take limit (List.map_filter
     (\<lambda>((tenant, task_id, event_sequence, config_id), r).
        if \<not> claim_open r then None
        else if cl_expires_at r \<ge> now then None
        else Some \<lparr>rec_tenant = tenant, rec_owner = cl_owner r, rec_task_id = task_id,
          rec_event_sequence = event_sequence, rec_config_id = config_id\<rparr>)
     (push_delivery_claims s)))"

definition record_pending_dispatch ::
  "instant \<Rightarrow> string \<Rightarrow> string \<Rightarrow> string \<Rightarrow> nat \<Rightarrow> store \<Rightarrow> unit store_result" where
  "record_pending_dispatch now tenant owner task_id event_sequence s =
     (Inr (), s\<lparr>pending_dispatches := hm_insert (tenant, task_id, event_sequence)
        \<lparr>spd_owner = owner, spd_recorded_at = now\<rparr> (pending_dispatches s)\<rparr>)"

definition delete_pending_dispatch ::
  "string \<Rightarrow> string \<Rightarrow> nat \<Rightarrow> store \<Rightarrow> unit store_result" where
  "delete_pending_dispatch tenant task_id event_sequence s =
     (Inr (), s\<lparr>pending_dispatches :=
        hm_remove (tenant, task_id, event_sequence) (pending_dispatches s)\<rparr>)"

definition list_stale_pending_dispatches ::
  "instant \<Rightarrow> nat \<Rightarrow> store \<Rightarrow> storage_error + pending_dispatch list" where
  "list_stale_pending_dispatches older_than limit s = Inr (take limit (List.map_filter
     (\<lambda>((tenant, task_id, sequence), r).
        if spd_recorded_at r \<le> older_than
        then Some \<lparr>pd_tenant = tenant, pd_owner = spd_owner r, pd_task_id = task_id,
          pd_event_sequence = sequence, pd_recorded_at = spd_recorded_at r\<rparr>
        else None)
     (pending_dispatches s)))"

definition failed_of ::
  "string \<Rightarrow> instant \<Rightarrow> push_delivery_key \<times> stored_delivery_claim \<Rightarrow> failed_delivery option" where
  "failed_of tenant since e =
     (case e of ((row_tenant, task_id, event_sequence, config_id), r) \<Rightarrow>
        if row_tenant \<noteq> tenant \<or> cl_status r \<noteq> GaveUp then None
        else (case cl_gave_up_at r of
            None \<Rightarrow> None
          | Some gave_up_at \<Rightarrow>
              if gave_up_at < since then None
              else Some \<lparr>fd_task_id = task_id, fd_config_id = config_id,
                fd_event_sequence = event_sequence,
                fd_first_attempted_at =
                  (case cl_first_attempted_at r of Some x \<Rightarrow> x | None \<Rightarrow> cl_claimed_at r),
                fd_last_attempted_at =
                  (case cl_last_attempted_at r of Some x \<Rightarrow> x | None \<Rightarrow> gave_up_at),
                fd_gave_up_at = gave_up_at,
                fd_delivery_attempt_count = cl_delivery_attempt_count r,
                fd_last_http_status = cl_last_http_status r,
                fd_last_error_class =
                  (case cl_last_error_class r of Some x \<Rightarrow> x | None \<Rightarrow> NetworkError)\<rparr>))"

definition list_failed_deliveries ::
  "string \<Rightarrow> instant \<Rightarrow> nat \<Rightarrow> store \<Rightarrow> storage_error + failed_delivery list" where
  "list_failed_deliveries tenant since limit s =
     Inr (take limit (sort_desc fd_gave_up_at
       (List.map_filter (failed_of tenant since) (push_delivery_claims s))))"

section \<open>What the operations do to a row\<close>

lemma claim_of_put_claim [simp]:
  "claim_of (put_claim key row s) key' = (if key' = key then Some row else claim_of s key')"
  by (simp add: claim_of_def put_claim_def hm_simps)

lemma put_claim_frame [frame]:
  "tasks (put_claim key row s) = tasks s" "push_configs (put_claim key row s) = push_configs s"
  "events (put_claim key row s) = events s"
  "event_counters (put_claim key row s) = event_counters s"
  "pending_dispatches (put_claim key row s) = pending_dispatches s"
  by (simp_all add: put_claim_def)

lemma claim_delivery_cases:
  assumes "claim_delivery now key w ow x s = (res, s')"
  obtains (held) old where "claim_of s key = Some old"
      "claim_terminal (cl_status old) \<or> now < cl_expires_at old"
      "res = Inl (claim_held key)" "s' = s"
  | (reclaimed) old where "claim_of s key = Some old" "\<not> claim_terminal (cl_status old)"
      "cl_expires_at old \<le> now" "res = Inr (as_claim (reclaimed_row now w x old))"
      "s' = put_claim key (reclaimed_row now w x old) s"
  | (fresh) "claim_of s key = None" "res = Inr (as_claim (fresh_claim_row now w ow x))"
      "s' = put_claim key (fresh_claim_row now w ow x) s"
  using assms
  by (auto simp: claim_delivery_def Let_def not_less split: option.splits if_splits)

lemma record_attempt_cases:
  assumes "record_attempt_started now key w g s = (res, s')"
  obtains (stale) "res = Inl (stale_claim key)" "s' = s"
  | (started) r where "claim_of s key = Some r" "cl_claimant r = w" "cl_generation r = g"
      "\<not> claim_terminal (cl_status r)" "s' = put_claim key (attempt_row now r) s"
      "res = Inr (sat_inc_u32 (cl_delivery_attempt_count r))"
  using assms
  by (auto simp: record_attempt_started_def Let_def attempt_row_def split: option.splits if_splits)

lemma record_outcome_cases:
  assumes "record_delivery_outcome now key w g oc s = (res, s')"
  obtains (stale) "res = Inl (stale_claim key)" "s' = s"
  | (frozen) r where "claim_of s key = Some r" "cl_claimant r = w" "cl_generation r = g"
      "claim_terminal (cl_status r)" "res = Inr ()" "s' = s"
  | (recorded) r where "claim_of s key = Some r" "cl_claimant r = w" "cl_generation r = g"
      "\<not> claim_terminal (cl_status r)" "res = Inr ()"
      "s' = put_claim key (outcome_row now oc r) s"
  using assms
  by (auto simp: record_delivery_outcome_def split: option.splits if_splits)

lemma outcome_row_identity [simp]:
  "cl_claimant (outcome_row now oc r) = cl_claimant r"
  "cl_generation (outcome_row now oc r) = cl_generation r"
  "cl_delivery_attempt_count (outcome_row now oc r) = cl_delivery_attempt_count r"
  "cl_owner (outcome_row now oc r) = cl_owner r"
  by (cases oc; simp)+

lemma attempt_row_identity [simp]:
  "cl_claimant (attempt_row now r) = cl_claimant r"
  "cl_generation (attempt_row now r) = cl_generation r"
  "cl_owner (attempt_row now r) = cl_owner r"
  "cl_delivery_attempt_count (attempt_row now r) = sat_inc_u32 (cl_delivery_attempt_count r)"
  by (simp_all add: attempt_row_def)

end
