(* ===== verification/Claim_Fencing.thy ===== *)
theory Claim_Fencing
  imports Push_Claims
begin

text \<open>
  The contract of a delivery store (\<open>A2aPushDeliveryStore\<close>, \<open>push/claim.rs\<close>) as a locale, what
  follows from it for every sequence of calls (terminal rows are frozen, a lost fencing token is
  useless, the attempt count is the number of attempts started), and its interpretation on the
  in-memory store.
\<close>

datatype 'k claim_call =
    CallClaim instant 'k string string nat
  | CallAttempt instant 'k string nat
  | CallOutcome instant 'k string nat delivery_outcome

primrec call_key :: "'k claim_call \<Rightarrow> 'k" where
  "call_key (CallClaim now k w ow x) = k"
| "call_key (CallAttempt now k w g) = k"
| "call_key (CallOutcome now k w g oc) = k"

locale claim_store =
  fixes row :: "'s \<Rightarrow> 'k \<Rightarrow> 'r option"
    and holder :: "'r \<Rightarrow> string" and gen :: "'r \<Rightarrow> nat" and count :: "'r \<Rightarrow> nat"
    and final :: "'r \<Rightarrow> bool"
    and inc :: "nat \<Rightarrow> nat"
    and claim :: "instant \<Rightarrow> 'k \<Rightarrow> string \<Rightarrow> string \<Rightarrow> nat \<Rightarrow> 's \<Rightarrow> (storage_error + delivery_claim) \<times> 's"
    and attempt :: "instant \<Rightarrow> 'k \<Rightarrow> string \<Rightarrow> nat \<Rightarrow> 's \<Rightarrow> (storage_error + nat) \<times> 's"
    and outcome :: "instant \<Rightarrow> 'k \<Rightarrow> string \<Rightarrow> nat \<Rightarrow> delivery_outcome \<Rightarrow> 's \<Rightarrow> (storage_error + unit) \<times> 's"
  assumes inc_small: "n + 1 < 2 ^ 32 \<Longrightarrow> inc n = n + 1"
    and inc_ge: "n \<le> inc n"
    and claim_other: "k' \<noteq> k \<Longrightarrow> row (snd (claim now k w ow x s)) k' = row s k'"
    and attempt_other: "k' \<noteq> k \<Longrightarrow> row (snd (attempt now k w g s)) k' = row s k'"
    and outcome_other: "k' \<noteq> k \<Longrightarrow> row (snd (outcome now k w g oc s)) k' = row s k'"
    and claim_error: "claim now k w ow x s = (Inl e, s') \<Longrightarrow> s' = s"
    and claim_fresh: "claim now k w ow x s = (Inr c, s') \<Longrightarrow> row s k = None \<Longrightarrow>
        dc_generation c = 1 \<and> dc_delivery_attempt_count c = 0"
    and claim_again: "claim now k w ow x s = (Inr c, s') \<Longrightarrow> row s k = Some r \<Longrightarrow>
        \<not> final r \<and> dc_generation c = gen r + 1 \<and> (\<forall>r'. row s' k = Some r' \<longrightarrow> count r' = count r)"
    and claim_row: "claim now k w ow x s = (Inr c, s') \<Longrightarrow>
        dc_claimant c = w \<and> (\<exists>r'. row s' k = Some r' \<and> holder r' = w \<and> gen r' = dc_generation c \<and>
          (count r' < 2 ^ 32 \<longrightarrow> dc_delivery_attempt_count c = count r'))"
    and attempt_error: "attempt now k w g s = (Inl e, s') \<Longrightarrow> s' = s"
    and attempt_ok: "attempt now k w g s = (Inr n, s') \<Longrightarrow>
        \<exists>r r'. row s k = Some r \<and> holder r = w \<and> gen r = g \<and> \<not> final r \<and> row s' k = Some r' \<and>
          holder r' = w \<and> gen r' = g \<and> (count r' < 2 ^ 32 \<longrightarrow> n = count r') \<and> count r' = inc (count r)"
    and outcome_error: "outcome now k w g oc s = (Inl e, s') \<Longrightarrow> s' = s"
    and outcome_ok: "outcome now k w g oc s = (Inr u, s') \<Longrightarrow>
        \<exists>r r'. row s k = Some r \<and> holder r = w \<and> gen r = g \<and> row s' k = Some r' \<and>
          holder r' = w \<and> gen r' = g \<and> count r' = count r \<and> (final r \<longrightarrow> s' = s)"
begin

primrec call :: "'s \<Rightarrow> 'k claim_call \<Rightarrow> 's" where
  "call s (CallClaim now k w ow x) = snd (claim now k w ow x s)"
| "call s (CallAttempt now k w g) = snd (attempt now k w g s)"
| "call s (CallOutcome now k w g oc) = snd (outcome now k w g oc s)"

primrec starts :: "'k \<Rightarrow> 's \<Rightarrow> 'k claim_call \<Rightarrow> bool" where
  "starts key s (CallClaim now k w ow x) = False"
| "starts key s (CallAttempt now k w g) = (k = key \<and> \<not> isl (fst (attempt now k w g s)))"
| "starts key s (CallOutcome now k w g oc) = False"

fun started :: "'k \<Rightarrow> 's \<Rightarrow> 'k claim_call list \<Rightarrow> nat" where
  "started key s [] = 0"
| "started key s (c # cs) = (if starts key s c then 1 else 0) + started key (call s c) cs"

lemma call_other: "k \<noteq> call_key c \<Longrightarrow> row (call s c) k = row s k"
  by (cases c) (auto simp: claim_other attempt_other outcome_other)

lemma call_row:
  assumes "row s k = Some r"
  obtains (same) "row (call s c) k = Some r" "\<not> starts k s c"
  | (moved) r' where "row (call s c) k = Some r'" "\<not> final r" "gen r \<le> gen r'"
      "holder r' = holder r \<or> gen r < gen r'"
      "count r' = (if starts k s c then inc (count r) else count r)"
proof (cases "k = call_key c")
  case False
  then have "\<not> starts k s c" by (cases c) auto
  with call_other [OF False] assms that(1) show thesis by simp
next
  case True
  show thesis
  proof (cases c)
    case (CallClaim now k' w ow x)
    then have k: "k' = k" using True by simp
    obtain res s' where r: "claim now k w ow x s = (res, s')" by fastforce
    show thesis
    proof (cases res)
      case (Inl e)
      with r claim_error have "s' = s" by blast
      with r k CallClaim assms same show thesis by simp
    next
      case (Inr d)
      from claim_again [OF r [unfolded Inr] assms] claim_row [OF r [unfolded Inr]]
      obtain r' where "row s' k = Some r'" "\<not> final r" "gen r' = gen r + 1" "count r' = count r"
        by auto
      with r k CallClaim show thesis by (intro moved [of r']) auto
    qed
  next
    case (CallAttempt now k' w g)
    then have k: "k' = k" using True by simp
    obtain res s' where r: "attempt now k w g s = (res, s')" by fastforce
    show thesis
    proof (cases res)
      case (Inl e)
      with r attempt_error have "s' = s" by blast
      with r k CallAttempt assms same Inl show thesis by simp
    next
      case (Inr n)
      from attempt_ok [OF r [unfolded Inr]] assms
      obtain r' where "row s' k = Some r'" "\<not> final r" "gen r' = gen r" "holder r' = holder r"
          "count r' = inc (count r)"
        by auto
      with r k CallAttempt Inr show thesis by (intro moved [of r']) auto
    qed
  next
    case (CallOutcome now k' w g oc)
    then have k: "k' = k" using True by simp
    obtain res s' where r: "outcome now k w g oc s = (res, s')" by fastforce
    show thesis
    proof (cases "\<exists>u. res = Inr u \<and> \<not> final r")
      case True
      then obtain u where u: "res = Inr u" "\<not> final r" by blast
      from outcome_ok [OF r [unfolded u]] assms
      obtain r' where "row s' k = Some r'" "gen r' = gen r" "holder r' = holder r" "count r' = count r"
        by auto
      with r k CallOutcome u show thesis by (intro moved [of r']) auto
    next
      case False
      then have "s' = s"
        using r assms outcome_error outcome_ok by (cases res) fastforce+
      with r k CallOutcome assms same show thesis by simp
    qed
  qed
qed

theorem final_frozen:
  assumes "row s k = Some r" and "final r"
  shows "row (foldl call s cs) k = Some r \<and> started k s cs = 0"
  using assms
proof (induction cs arbitrary: s)
  case (Cons c cs)
  then show ?case by (cases rule: call_row [OF Cons.prems(1), of c]) auto
qed simp

theorem row_persists:
  assumes "row s k = Some r"
  shows "\<exists>r'. row (foldl call s cs) k = Some r' \<and> gen r \<le> gen r' \<and>
    (holder r' = holder r \<or> gen r < gen r')"
  using assms
proof (induction cs arbitrary: s r)
  case (Cons c cs)
  show ?case
    using Cons.prems
  proof (cases rule: call_row [where c = c, consumes 1, case_names same moved])
    case same
    then show ?thesis using Cons.IH by simp
  next
    case (moved r')
    with Cons.IH [of "call s c" r'] show ?thesis by fastforce
  qed
qed simp

theorem count_started:
  assumes "row s k = Some r" and "count r + started k s cs < 2 ^ 32"
  shows "\<exists>r'. row (foldl call s cs) k = Some r' \<and> count r' = count r + started k s cs"
  using assms
proof (induction cs arbitrary: s r)
  case (Cons c cs)
  show ?case
    using Cons.prems(1)
  proof (cases rule: call_row [where c = c, consumes 1, case_names same moved])
    case same
    then show ?thesis using Cons by simp
  next
    case (moved r')
    then have "count r' = count r + (if starts k s c then 1 else 0)"
      using Cons.prems(2) inc_small [of "count r"] by (auto split: if_splits)
    with moved(1) Cons.IH [of "call s c" r'] Cons.prems(2) show ?thesis by fastforce
  qed
qed simp

theorem stale_token:
  assumes "row s k = Some r" and "holder r \<noteq> w \<or> gen r \<noteq> g"
  shows "\<exists>e e'. attempt now k w g s = (Inl e, s) \<and> outcome now k w g oc s = (Inl e', s)"
proof -
  obtain res1 s1 where a: "attempt now k w g s = (res1, s1)" by fastforce
  obtain res2 s2 where b: "outcome now k w g oc s = (res2, s2)" by fastforce
  from a b assms attempt_ok outcome_ok attempt_error outcome_error show ?thesis
    by (cases res1; cases res2) fastforce+
qed

theorem count_monotone:
  assumes "row s k = Some r"
  shows "\<exists>r'. row (foldl call s cs) k = Some r' \<and> count r \<le> count r'"
  using assms
proof (induction cs arbitrary: s r)
  case (Cons c cs)
  show ?case
    using Cons.prems
  proof (cases rule: call_row [where c = c, consumes 1, case_names same moved])
    case same
    then show ?thesis using Cons.IH by simp
  next
    case (moved r')
    then have "count r \<le> count r'" using inc_ge [of "count r"] by auto
    with Cons.IH [OF moved(1)] show ?thesis by (auto intro: order_trans)
  qed
qed simp

text \<open>Once a later claim succeeded, the earlier token stays useless whatever happens next.\<close>

theorem fenced_forever:
  assumes "claim now k w ow x s = (Inr c, s')" and "g < dc_generation c"
  shows "\<exists>e e'. attempt now' k w' g (foldl call s' cs) = (Inl e, foldl call s' cs) \<and>
    outcome now' k w' g oc (foldl call s' cs) = (Inl e', foldl call s' cs)"
proof -
  obtain r where "row s' k = Some r" "gen r = dc_generation c"
    using claim_row [OF assms(1)] by auto
  then obtain r' where "row (foldl call s' cs) k = Some r'" "dc_generation c \<le> gen r'"
    using row_persists [of s' k r cs] by auto
  with assms(2) show ?thesis by (intro stale_token) auto
qed

end

interpretation mem: claim_store claim_of cl_claimant cl_generation cl_delivery_attempt_count
  "\<lambda>r. claim_terminal (cl_status r)" sat_inc_u32 claim_delivery record_attempt_started record_delivery_outcome
proof
  show "n + 1 < 2 ^ 32 \<Longrightarrow> sat_inc_u32 n = n + 1" for n by (simp add: sat_inc_u32_def)
  show "n \<le> sat_inc_u32 n" for n by (rule sat_inc_u32_ge)
next
  fix now k w ow x and s s' :: store and c e
  show "k' \<noteq> k \<Longrightarrow> claim_of (snd (claim_delivery now k w ow x s)) k' = claim_of s k'" for k'
    by (simp add: claim_delivery_def Let_def split: option.splits)
  show "claim_delivery now k w ow x s = (Inl e, s') \<Longrightarrow> s' = s"
    by (erule claim_delivery_cases) simp_all
  show "claim_delivery now k w ow x s = (Inr c, s') \<Longrightarrow> claim_of s k = None \<Longrightarrow>
      dc_generation c = 1 \<and> dc_delivery_attempt_count c = 0"
    by (erule claim_delivery_cases) (auto simp: as_claim_def fresh_claim_row_def)
  show "claim_delivery now k w ow x s = (Inr c, s') \<Longrightarrow> claim_of s k = Some r \<Longrightarrow>
      \<not> claim_terminal (cl_status r) \<and> dc_generation c = cl_generation r + 1 \<and>
      (\<forall>r'. claim_of s' k = Some r' \<longrightarrow> cl_delivery_attempt_count r' = cl_delivery_attempt_count r)" for r
    by (erule claim_delivery_cases) (auto simp: as_claim_def reclaimed_row_def)
  show "claim_delivery now k w ow x s = (Inr c, s') \<Longrightarrow> dc_claimant c = w \<and>
      (\<exists>r'. claim_of s' k = Some r' \<and> cl_claimant r' = w \<and> cl_generation r' = dc_generation c \<and>
        (cl_delivery_attempt_count r' < 2 ^ 32 \<longrightarrow> dc_delivery_attempt_count c = cl_delivery_attempt_count r'))"
    by (erule claim_delivery_cases)
      (auto simp: as_claim_def reclaimed_row_def fresh_claim_row_def)
next
  fix now k w g oc and s s' :: store and e n u
  show "k' \<noteq> k \<Longrightarrow> claim_of (snd (record_attempt_started now k w g s)) k' = claim_of s k'" for k'
    by (simp add: record_attempt_started_def Let_def split: option.splits)
  show "k' \<noteq> k \<Longrightarrow> claim_of (snd (record_delivery_outcome now k w g oc s)) k' = claim_of s k'" for k'
    by (simp add: record_delivery_outcome_def split: option.splits)
  show "record_attempt_started now k w g s = (Inl e, s') \<Longrightarrow> s' = s"
    by (erule record_attempt_cases) simp_all
  show "record_attempt_started now k w g s = (Inr n, s') \<Longrightarrow>
      \<exists>r r'. claim_of s k = Some r \<and> cl_claimant r = w \<and> cl_generation r = g \<and>
        \<not> claim_terminal (cl_status r) \<and> claim_of s' k = Some r' \<and> cl_claimant r' = w \<and>
        cl_generation r' = g \<and> (cl_delivery_attempt_count r' < 2 ^ 32 \<longrightarrow> n = cl_delivery_attempt_count r') \<and>
        cl_delivery_attempt_count r' = sat_inc_u32 (cl_delivery_attempt_count r)"
    by (erule record_attempt_cases) simp_all
  show "record_delivery_outcome now k w g oc s = (Inl e, s') \<Longrightarrow> s' = s"
    by (erule record_outcome_cases) simp_all
  show "record_delivery_outcome now k w g oc s = (Inr u, s') \<Longrightarrow>
      \<exists>r r'. claim_of s k = Some r \<and> cl_claimant r = w \<and> cl_generation r = g \<and>
        claim_of s' k = Some r' \<and> cl_claimant r' = w \<and> cl_generation r' = g \<and>
        cl_delivery_attempt_count r' = cl_delivery_attempt_count r \<and>
        (claim_terminal (cl_status r) \<longrightarrow> s' = s)"
    by (erule record_outcome_cases) auto
qed

section \<open>Runs of the in-memory store\<close>

primrec claim_step :: "store \<Rightarrow> push_delivery_key claim_call \<Rightarrow> store" where
  "claim_step s (CallClaim now k w ow x) = snd (claim_delivery now k w ow x s)"
| "claim_step s (CallAttempt now k w g) = snd (record_attempt_started now k w g s)"
| "claim_step s (CallOutcome now k w g oc) = snd (record_delivery_outcome now k w g oc s)"

primrec attempt_starts :: "push_delivery_key \<Rightarrow> store \<Rightarrow> push_delivery_key claim_call \<Rightarrow> bool" where
  "attempt_starts key s (CallClaim now k w ow x) = False"
| "attempt_starts key s (CallAttempt now k w g) =
     (k = key \<and> \<not> isl (fst (record_attempt_started now k w g s)))"
| "attempt_starts key s (CallOutcome now k w g oc) = False"

fun attempts_started :: "push_delivery_key \<Rightarrow> store \<Rightarrow> push_delivery_key claim_call list \<Rightarrow> nat" where
  "attempts_started key s [] = 0"
| "attempts_started key s (c # cs) =
     (if attempt_starts key s c then 1 else 0) + attempts_started key (claim_step s c) cs"

lemma mem_call [simp]: "mem.call = claim_step"
proof -
  have "mem.call s c = claim_step s c" for s c by (cases c) simp_all
  then show ?thesis by (simp add: fun_eq_iff)
qed

lemma mem_starts [simp]: "mem.starts = attempt_starts"
proof -
  have "mem.starts k s c = attempt_starts k s c" for k s c by (cases c) simp_all
  then show ?thesis by (simp add: fun_eq_iff)
qed

lemma mem_started [simp]: "mem.started key s cs = attempts_started key s cs"
  by (induction cs arbitrary: s) simp_all

lemmas claim_run_laws =
  mem.final_frozen [unfolded mem_call mem_started]
  mem.count_started [unfolded mem_call mem_started]
  mem.fenced_forever [unfolded mem_call]
  mem.count_monotone [unfolded mem_call]

end
