(* ===== verification/Ssrf.thy ===== *)
theory Ssrf
  imports Prelude "HOL-Library.Word"
begin

text \<open>
  The SSRF guard of push delivery (\<open>push/ssrf.rs\<close>): the destination blocklist on octets and
  segments as machine words, the URL checks that need no DNS answer, and the choice of the
  address the worker connects to. The address predicates of \<open>std::net\<close> are the standard
  library's. The blocklist is refined against a list of CIDR prefixes.
\<close>

unbundle bit_operations_syntax

section \<open>Addresses\<close>

datatype ipv4 = Ipv4 "8 word" "8 word" "8 word" "8 word"

datatype ipv6 = Ipv6 "16 word" "16 word" "16 word" "16 word" "16 word" "16 word" "16 word" "16 word"

datatype ip_addr = V4 ipv4 | V6 ipv6

fun v4_is_unspecified :: "ipv4 \<Rightarrow> bool" where
  "v4_is_unspecified (Ipv4 a b c d) \<longleftrightarrow> a = 0 \<and> b = 0 \<and> c = 0 \<and> d = 0"

fun v4_is_broadcast :: "ipv4 \<Rightarrow> bool" where
  "v4_is_broadcast (Ipv4 a b c d) \<longleftrightarrow> a = 255 \<and> b = 255 \<and> c = 255 \<and> d = 255"

fun v4_is_loopback :: "ipv4 \<Rightarrow> bool" where
  "v4_is_loopback (Ipv4 a b c d) \<longleftrightarrow> a = 127"

fun v4_is_link_local :: "ipv4 \<Rightarrow> bool" where
  "v4_is_link_local (Ipv4 a b c d) \<longleftrightarrow> a = 169 \<and> b = 254"

fun v4_is_private :: "ipv4 \<Rightarrow> bool" where
  "v4_is_private (Ipv4 a b c d) \<longleftrightarrow>
     a = 10 \<or> (a = 172 \<and> 16 \<le> b \<and> b \<le> 31) \<or> (a = 192 \<and> b = 168)"

fun v4_is_multicast :: "ipv4 \<Rightarrow> bool" where
  "v4_is_multicast (Ipv4 a b c d) \<longleftrightarrow> 224 \<le> a \<and> a \<le> 239"

fun v6_is_unspecified :: "ipv6 \<Rightarrow> bool" where
  "v6_is_unspecified (Ipv6 a b c d e f g h) \<longleftrightarrow>
     a = 0 \<and> b = 0 \<and> c = 0 \<and> d = 0 \<and> e = 0 \<and> f = 0 \<and> g = 0 \<and> h = 0"

fun v6_is_loopback :: "ipv6 \<Rightarrow> bool" where
  "v6_is_loopback (Ipv6 a b c d e f g h) \<longleftrightarrow>
     a = 0 \<and> b = 0 \<and> c = 0 \<and> d = 0 \<and> e = 0 \<and> f = 0 \<and> g = 0 \<and> h = 1"

fun v6_is_multicast :: "ipv6 \<Rightarrow> bool" where
  "v6_is_multicast (Ipv6 a b c d e f g h) \<longleftrightarrow> a AND 0xff00 = 0xff00"

fun to_ipv4_mapped :: "ipv6 \<Rightarrow> ipv4 option" where
  "to_ipv4_mapped (Ipv6 a b c d e f g h) =
     (if a = 0 \<and> b = 0 \<and> c = 0 \<and> d = 0 \<and> e = 0 \<and> f = 0xffff
      then Some (Ipv4 (ucast (drop_bit 8 g)) (ucast g) (ucast (drop_bit 8 h)) (ucast h))
      else None)"

section \<open>The blocklist\<close>

fun is_blocked_ipv4 :: "ipv4 \<Rightarrow> bool" where
  "is_blocked_ipv4 (Ipv4 a b c d) =
     (let v4 = Ipv4 a b c d
      in if v4_is_unspecified v4 then True
         else if v4_is_broadcast v4 then True
         else if v4_is_loopback v4 then True
         else if v4_is_link_local v4 then True
         else if v4_is_private v4 then True
         else if v4_is_multicast v4 then True
         else if a = 100 \<and> b AND 0xc0 = 0x40 then True
         else False)"

fun is_blocked_ipv6 :: "ipv6 \<Rightarrow> bool" where
  "is_blocked_ipv6 (Ipv6 s0 s1 s2 s3 s4 s5 s6 s7) =
     (let v6 = Ipv6 s0 s1 s2 s3 s4 s5 s6 s7
      in if v6_is_unspecified v6 then True
         else if v6_is_loopback v6 then True
         else if v6_is_multicast v6 then True
         else if s0 AND 0xffc0 = 0xfe80 then True
         else if s0 AND 0xfe00 = 0xfc00 then True
         else (case to_ipv4_mapped v6 of Some v4 \<Rightarrow> is_blocked_ipv4 v4 | None \<Rightarrow> False))"

fun is_blocked_ip :: "ip_addr \<Rightarrow> bool" where
  "is_blocked_ip (V4 v4) = is_blocked_ipv4 v4"
| "is_blocked_ip (V6 v6) = is_blocked_ipv6 v6"

section \<open>The decision\<close>

datatype ssrf_block_reason =
  PrivateIp | InsecureScheme | ValidatorDenied | InvalidUrl | DnsResolutionFailed

datatype ssrf_decision = Allow ip_addr | Block ssrf_block_reason

text \<open>What the code reads of a parsed \<open>url::Url\<close>.\<close>

record url =
  url_scheme :: string
  url_host :: "string option"
  url_port :: "nat option"

definition validate_scheme :: "url \<Rightarrow> bool \<Rightarrow> ssrf_block_reason + unit" where
  "validate_scheme u allow_insecure =
     (if url_scheme u = ''https'' then Inr ()
      else if url_scheme u = ''http'' \<and> allow_insecure then Inr ()
      else Inl InsecureScheme)"

definition check_url ::
  "url \<Rightarrow> bool \<Rightarrow> (url \<Rightarrow> string + unit) option \<Rightarrow> ssrf_block_reason + unit" where
  "check_url u allow_insecure outbound_validator =
     (if url_host u = None then Inl InvalidUrl
      else case validate_scheme u allow_insecure of
        Inl e \<Rightarrow> Inl e
      | Inr _ \<Rightarrow> (case outbound_validator of
            Some validator \<Rightarrow> if isl (validator u) then Inl ValidatorDenied else Inr ()
          | None \<Rightarrow> Inr ()))"

fun pick_first :: "ip_addr list \<Rightarrow> bool \<Rightarrow> ip_addr option" where
  "pick_first [] allow_insecure = None"
| "pick_first (ip # ips) allow_insecure =
     (if allow_insecure then Some ip
      else if \<not> is_blocked_ip ip then Some ip
      else pick_first ips allow_insecure)"

definition pick_destination :: "ip_addr list \<Rightarrow> bool \<Rightarrow> ssrf_decision" where
  "pick_destination ips allow_insecure = (case pick_first ips allow_insecure of
       Some ip \<Rightarrow> Allow ip
     | None \<Rightarrow> if ips = [] then Block DnsResolutionFailed else Block PrivateIp)"

section \<open>CIDR prefixes\<close>

text \<open>An address as a number, and membership in \<open>base/len\<close>.\<close>

fun ipv4_num :: "ipv4 \<Rightarrow> nat" where
  "ipv4_num (Ipv4 a b c d) = unat a * 2 ^ 24 + unat b * 2 ^ 16 + unat c * 2 ^ 8 + unat d"

definition in_cidr :: "nat \<Rightarrow> nat \<Rightarrow> nat \<times> nat \<Rightarrow> bool" where
  "in_cidr bits x p \<longleftrightarrow> x div 2 ^ (bits - snd p) = fst p div 2 ^ (bits - snd p)"

definition cidr4 :: "nat \<Rightarrow> nat \<Rightarrow> nat \<Rightarrow> nat \<Rightarrow> nat \<Rightarrow> nat \<times> nat" where
  "cidr4 a b c d len = (a * 2 ^ 24 + b * 2 ^ 16 + c * 2 ^ 8 + d, len)"

definition blocked_ranges4 :: "(nat \<times> nat) list" where
  "blocked_ranges4 = [cidr4 0 0 0 0 32, cidr4 255 255 255 255 32, cidr4 127 0 0 0 8,
     cidr4 169 254 0 0 16, cidr4 10 0 0 0 8, cidr4 172 16 0 0 12, cidr4 192 168 0 0 16,
     cidr4 224 0 0 0 4, cidr4 100 64 0 0 10]"

lemma and_high_bits:
  fixes w c :: "'a::len word"
  assumes "c AND mask n = 0"
  shows "w AND NOT (mask n) = c \<longleftrightarrow> unat w div 2 ^ n = unat c div 2 ^ n"
proof -
  have "w AND NOT (mask n) = c \<longleftrightarrow> drop_bit n w = drop_bit n c"
  proof
    assume "w AND NOT (mask n) = c"
    then have "drop_bit n c = drop_bit n (w AND NOT (mask n))" by simp
    also have "\<dots> = drop_bit n w" by (auto simp: bit_eq_iff bit_simps dest: bit_imp_le_length)
    finally show "drop_bit n w = drop_bit n c" by simp
  next
    assume d: "drop_bit n w = drop_bit n c"
    have "w AND NOT (mask n) = push_bit n (drop_bit n w)"
      by (auto simp: bit_eq_iff bit_simps dest: bit_imp_le_length)
    also have "\<dots> = c AND NOT (mask n)" unfolding d by (auto simp: bit_eq_iff bit_simps dest: bit_imp_le_length)
    also have "\<dots> = c"
    proof -
      have "c = (c AND NOT (mask n)) OR (c AND mask n)" by (auto simp: bit_eq_iff bit_simps)
      then show ?thesis using assms by simp
    qed
    finally show "w AND NOT (mask n) = c" .
  qed
  also have "\<dots> \<longleftrightarrow> unat (drop_bit n w) = unat (drop_bit n c)"
    by (simp add: word_unat_eq_iff)
  also have "\<dots> \<longleftrightarrow> unat w div 2 ^ n = unat c div 2 ^ n"
    by (simp only: unat_drop_bit_eq) (simp only: drop_bit_eq_div)
  finally show ?thesis .
qed

lemma digits_unique:
  fixes m a q x y :: nat
  assumes "q < m" and "y < m"
  shows "m * a + q = m * x + y \<longleftrightarrow> a = x \<and> q = y"
proof
  assume e: "m * a + q = m * x + y"
  then have "(m * a + q) mod m = (m * x + y) mod m" "(m * a + q) div m = (m * x + y) div m" by simp_all
  then show "a = x \<and> q = y" using assms by simp
qed simp

lemma ipv4_num_div:
  assumes "b < 256" and "c < 256" and "d < (256::nat)"
  shows "(a * 2 ^ 24 + b * 2 ^ 16 + c * 2 ^ 8 + d) div 2 ^ 16 = a * 256 + b"
    and "(a * 2 ^ 24 + b * 2 ^ 16 + c * 2 ^ 8 + d) div 2 ^ 24 = a"
proof -
  have "(a * 2 ^ 24 + b * 2 ^ 16 + c * 2 ^ 8 + d) = (a * 256 + b) * 2 ^ 16 + (c * 2 ^ 8 + d)" by simp
  then show *: "(a * 2 ^ 24 + b * 2 ^ 16 + c * 2 ^ 8 + d) div 2 ^ 16 = a * 256 + b"
    using assms by simp
  have "(a * 2 ^ 24 + b * 2 ^ 16 + c * 2 ^ 8 + d) div 2 ^ 24 =
      (a * 2 ^ 24 + b * 2 ^ 16 + c * 2 ^ 8 + d) div 2 ^ 16 div 256"
    by (simp add: div_mult2_eq [symmetric])
  then show "(a * 2 ^ 24 + b * 2 ^ 16 + c * 2 ^ 8 + d) div 2 ^ 24 = a"
    using assms * by simp
qed

lemma blocked_ipv4_cases:
  "is_blocked_ipv4 (Ipv4 a b c d) \<longleftrightarrow>
     (let a = unat a; b = unat b; c = unat c; d = unat d
      in (a = 0 \<and> b = 0 \<and> c = 0 \<and> d = 0) \<or> (a = 255 \<and> b = 255 \<and> c = 255 \<and> d = 255) \<or>
         a = 127 \<or> (a = 169 \<and> b = 254) \<or> a = 10 \<or> (a = 172 \<and> b div 16 = 1) \<or>
         (a = 192 \<and> b = 168) \<or> a div 16 = 14 \<or> (a = 100 \<and> b div 64 = 1))"
proof -
  have "b AND 0xc0 = 0x40 \<longleftrightarrow> unat b div 64 = 1"
  proof -
    have "NOT (mask 6) = (0xc0 :: 8 word)" and "0x40 AND mask 6 = (0 :: 8 word)" by code_simp+
    with and_high_bits [of "0x40 :: 8 word" 6 b] show ?thesis by simp
  qed
  moreover have "16 \<le> b \<and> b \<le> 31 \<longleftrightarrow> unat b div 16 = 1"
    by (auto simp: word_le_nat_alt)
  moreover have "224 \<le> a \<and> a \<le> 239 \<longleftrightarrow> unat a div 16 = 14"
    by (auto simp: word_le_nat_alt)
  ultimately show ?thesis
    by (simp add: Let_def word_unat_eq_iff)
qed

lemma in_blocked_ranges4:
  assumes "a < 256" and "b < 256" and "c < 256" and "d < (256::nat)"
  shows "(\<exists>r \<in> set blocked_ranges4. in_cidr 32 (a * 2 ^ 24 + b * 2 ^ 16 + c * 2 ^ 8 + d) r) \<longleftrightarrow>
     (a = 0 \<and> b = 0 \<and> c = 0 \<and> d = 0) \<or> (a = 255 \<and> b = 255 \<and> c = 255 \<and> d = 255) \<or>
     a = 127 \<or> (a = 169 \<and> b = 254) \<or> a = 10 \<or> (a = 172 \<and> b div 16 = 1) \<or>
     (a = 192 \<and> b = 168) \<or> a div 16 = 14 \<or> (a = 100 \<and> b div 64 = 1)"
proof -
  let ?n = "a * 2 ^ 24 + b * 2 ^ 16 + c * 2 ^ 8 + d"
  note div = ipv4_num_div [OF assms(2-4), of a]
  have p16: "in_cidr 32 ?n (cidr4 x y 0 0 16) \<longleftrightarrow> a = x \<and> b = y" if "y < 256" for x y
  proof -
    have "a * 256 + b = 256 * x + y \<longleftrightarrow> a = x \<and> b = y"
      using digits_unique [OF assms(2) that, of a x] by (simp add: mult.commute)
    then show ?thesis using that div(1) by (simp add: in_cidr_def cidr4_def)
  qed
  have p8: "in_cidr 32 ?n (cidr4 x 0 0 0 8) \<longleftrightarrow> a = x" for x
    using div by (simp add: in_cidr_def cidr4_def)
  have "?n div 2 ^ 20 = ?n div 2 ^ 16 div 16" "?n div 2 ^ 22 = ?n div 2 ^ 16 div 64"
      "?n div 2 ^ 28 = ?n div 2 ^ 24 div 16"
    by (simp_all add: div_mult2_eq [symmetric])
  then have d: "?n div 2 ^ 20 = (a * 256 + b) div 16" "?n div 2 ^ 22 = (a * 256 + b) div 64"
      "?n div 2 ^ 28 = a div 16"
    unfolding div by simp_all
  have p12: "in_cidr 32 ?n (cidr4 172 16 0 0 12) \<longleftrightarrow> a = 172 \<and> b div 16 = 1"
  proof -
    have "a * 256 + b = b + 16 * (16 * a)" by simp
    then have "(a * 256 + b) div 16 = 16 * a + b div 16" by simp
    moreover have "b div 16 < 16" using assms(2) by simp
    ultimately have "(a * 256 + b) div 16 = 2753 \<longleftrightarrow> a = 172 \<and> b div 16 = 1"
      using digits_unique [of "b div 16" 16 1 a 172] by simp
    then show ?thesis using d(1) by (simp add: in_cidr_def cidr4_def)
  qed
  have p10: "in_cidr 32 ?n (cidr4 100 64 0 0 10) \<longleftrightarrow> a = 100 \<and> b div 64 = 1"
  proof -
    have "a * 256 + b = b + 64 * (4 * a)" by simp
    then have "(a * 256 + b) div 64 = 4 * a + b div 64" by simp
    moreover have "b div 64 < 4" using assms(2) by simp
    ultimately have "(a * 256 + b) div 64 = 401 \<longleftrightarrow> a = 100 \<and> b div 64 = 1"
      using digits_unique [of "b div 64" 4 1 a 100] by simp
    then show ?thesis using d(2) by (simp add: in_cidr_def cidr4_def)
  qed
  have p4: "in_cidr 32 ?n (cidr4 224 0 0 0 4) \<longleftrightarrow> a div 16 = 14"
    using d(3) by (simp add: in_cidr_def cidr4_def)
  have p0: "in_cidr 32 ?n (cidr4 0 0 0 0 32) \<longleftrightarrow> a = 0 \<and> b = 0 \<and> c = 0 \<and> d = 0"
    by (auto simp: in_cidr_def cidr4_def)
  have p32: "in_cidr 32 ?n (cidr4 255 255 255 255 32) \<longleftrightarrow> a = 255 \<and> b = 255 \<and> c = 255 \<and> d = 255"
  proof -
    have "a * 16777216 + b * 65536 + c * 256 + d = 4294967295 \<longleftrightarrow>
        a = 255 \<and> b = 255 \<and> c = 255 \<and> d = 255"
      using assms by (intro iffI conjI; (elim conjE)?; linarith)
    then show ?thesis by (simp add: in_cidr_def cidr4_def)
  qed
  show ?thesis
    unfolding blocked_ranges4_def by (simp add: p0 p32 p8 p16 p12 p4 p10 del: power_numeral)
qed

text \<open>The octet tests of the code block exactly the listed prefixes.\<close>

lemma is_blocked_ipv4_ranges:
  "is_blocked_ipv4 ip \<longleftrightarrow> (\<exists>r \<in> set blocked_ranges4. in_cidr 32 (ipv4_num ip) r)"
proof (cases ip)
  case (Ipv4 a b c d)
  have lt: "unat x < 256" for x :: "8 word" using unsigned_less [of x] by simp
  show ?thesis
    unfolding Ipv4 blocked_ipv4_cases ipv4_num.simps Let_def
    by (rule in_blocked_ranges4 [OF lt lt lt lt, symmetric])
qed

lemma blocked_ipv6_cases:
  "is_blocked_ipv6 (Ipv6 s0 s1 s2 s3 s4 s5 s6 s7) \<longleftrightarrow>
     (let v6 = Ipv6 s0 s1 s2 s3 s4 s5 s6 s7
      in v6_is_unspecified v6 \<or> v6_is_loopback v6 \<or> in_cidr 16 (unat s0) (0xff00, 8) \<or>
         in_cidr 16 (unat s0) (0xfe80, 10) \<or> in_cidr 16 (unat s0) (0xfc00, 7) \<or>
         (\<exists>v4. to_ipv4_mapped v6 = Some v4 \<and> is_blocked_ipv4 v4))"
proof -
  have "NOT (mask 8) = (0xff00 :: 16 word)" "0xff00 AND mask 8 = (0 :: 16 word)"
    "NOT (mask 6) = (0xffc0 :: 16 word)" "0xfe80 AND mask 6 = (0 :: 16 word)"
    "NOT (mask 9) = (0xfe00 :: 16 word)" "0xfc00 AND mask 9 = (0 :: 16 word)"
    by code_simp+
  with and_high_bits [of "0xff00 :: 16 word" 8 s0] and_high_bits [of "0xfe80 :: 16 word" 6 s0]
    and_high_bits [of "0xfc00 :: 16 word" 9 s0]
  have "s0 AND 0xff00 = 0xff00 \<longleftrightarrow> in_cidr 16 (unat s0) (0xff00, 8)"
    "s0 AND 0xffc0 = 0xfe80 \<longleftrightarrow> in_cidr 16 (unat s0) (0xfe80, 10)"
    "s0 AND 0xfe00 = 0xfc00 \<longleftrightarrow> in_cidr 16 (unat s0) (0xfc00, 7)"
    by (simp_all add: in_cidr_def)
  then show ?thesis
    by (simp add: Let_def split: option.splits del: to_ipv4_mapped.simps v6_is_unspecified.simps
        v6_is_loopback.simps)
qed

section \<open>Choosing the destination\<close>

lemma pick_first_SomeD: "pick_first ips b = Some ip \<Longrightarrow> ip \<in> set ips \<and> (b \<or> \<not> is_blocked_ip ip)"
  by (induction ips) (auto split: if_splits)

lemma pick_first_None: "pick_first ips b = None \<longleftrightarrow> ips = [] \<or> \<not> b \<and> (\<forall>ip \<in> set ips. is_blocked_ip ip)"
  by (induction ips) auto

lemma pick_first_eq: "pick_first ips False = find (\<lambda>ip. \<not> is_blocked_ip ip) ips"
  by (induction ips) auto

lemma pick_destination_Allow:
  "pick_destination ips b = Allow ip \<Longrightarrow> ip \<in> set ips \<and> (b \<or> \<not> is_blocked_ip ip)"
  by (auto simp: pick_destination_def dest: pick_first_SomeD split: option.splits if_splits)

lemma pick_destination_not_scheme: "pick_destination ips b \<noteq> Block InsecureScheme"
  by (simp add: pick_destination_def split: option.splits)

lemma pick_destination_total:
  "(\<exists>ip. pick_destination ips b = Allow ip) \<longleftrightarrow> ips \<noteq> [] \<and> (b \<or> (\<exists>ip \<in> set ips. \<not> is_blocked_ip ip))"
  using pick_first_None [of ips b] by (auto simp: pick_destination_def split: option.splits)

lemma check_url_Inr:
  "check_url u b v = Inr x \<longleftrightarrow> url_host u \<noteq> None \<and>
     (url_scheme u = ''https'' \<or> b \<and> url_scheme u = ''http'') \<and>
     (case v of None \<Rightarrow> True | Some f \<Rightarrow> \<not> isl (f u))"
  by (auto simp: check_url_def validate_scheme_def split: option.splits)

lemma mapped_v6_blocked:
  "is_blocked_ipv4 (Ipv4 a b c d) \<Longrightarrow>
   is_blocked_ipv6 (Ipv6 0 0 0 0 0 0xffff (word_cat a b) (word_cat c d))"
proof -
  assume b: "is_blocked_ipv4 (Ipv4 a b c d)"
  have "ucast (drop_bit 8 (word_cat x y :: 16 word)) = x" "ucast (word_cat x y :: 16 word) = y"
    for x y :: "8 word"
    by (auto simp: bit_eq_iff bit_simps bit_word_cat_iff)
  then have "to_ipv4_mapped (Ipv6 0 0 0 0 0 0xffff (word_cat a b) (word_cat c d)) = Some (Ipv4 a b c d)"
    by simp
  with b show ?thesis by (simp add: Let_def del: to_ipv4_mapped.simps is_blocked_ipv4.simps)
qed

end
