(* ===== verification/Delivery.thy ===== *)
theory Delivery
  imports Complex_Main Claim_Fencing Ssrf
begin

text \<open>
  The push delivery worker (\<open>push/delivery.rs\<close>): its configuration, the backoff, the delivery
  loop and the commit of a terminal outcome. What the worker calls (clock, store, DNS, HTTP,
  random numbers, sleep) is the record \<open>world\<close>: each field is a call, from the state of the world
  to its answer and the state after it, so the order of the calls is the order of the code.
  Durations are in nanoseconds. The jitter is a rational; the rounding of the \<open>f64\<close> product is
  not modelled.
\<close>

section \<open>Configuration\<close>

record push_delivery_config =
  max_attempts :: nat
  backoff_base :: nat
  backoff_cap :: nat
  backoff_jitter :: rat
  request_timeout :: nat
  connect_timeout :: nat
  read_timeout :: nat
  claim_expiry :: nat
  max_payload_bytes :: nat
  allow_insecure_urls :: bool
  config_cache_ttl :: nat
  failed_delivery_retention :: nat

definition secs :: "nat \<Rightarrow> nat" where "secs n = n * nanos_per_sec"

definition MAX_FAILED_DELIVERY_RETENTION :: nat where
  "MAX_FAILED_DELIVERY_RETENTION = secs (1000 * 365 * 24 * 60 * 60)"

definition push_delivery_config_default :: push_delivery_config where
  "push_delivery_config_default = \<lparr>max_attempts = 8, backoff_base = secs 2, backoff_cap = secs 60,
     backoff_jitter = 1 / 4, request_timeout = secs 30, connect_timeout = secs 5,
     read_timeout = secs 30, claim_expiry = secs 600, max_payload_bytes = 1024 * 1024,
     allow_insecure_urls = False, config_cache_ttl = 0,
     failed_delivery_retention = secs (7 * 24 * 60 * 60)\<rparr>"

record push_target =
  pt_tenant :: string
  pt_owner :: string
  pt_task_id :: string
  pt_event_sequence :: nat
  pt_config_id :: string
  pt_url :: url
  pt_auth_scheme :: string
  pt_auth_credentials :: string
  pt_token :: "string option"

definition target_key :: "push_target \<Rightarrow> push_delivery_key" where
  "target_key t = (pt_tenant t, pt_task_id t, pt_event_sequence t, pt_config_id t)"

datatype delivery_report =
    RepSucceeded nat
  | RepGaveUp gave_up_reason
  | RepAbandoned abandoned_reason
  | ClaimLostOrFinal
  | UnclaimedSkip
  | TransientStoreError

datatype claim_failure = AlreadyHeld | OtherFailure

section \<open>Backoff\<close>

definition millis :: "nat \<Rightarrow> nat" where "millis d = d div 10 ^ 6"
definition from_millis :: "nat \<Rightarrow> nat" where "from_millis ms = ms * 10 ^ 6"

definition as_u64 :: "nat \<Rightarrow> nat" where "as_u64 n = n mod 2 ^ 64"
definition as_i64 :: "nat \<Rightarrow> int" where "as_i64 n = (int n + 2 ^ 63) mod 2 ^ 64 - 2 ^ 63"

definition saturating_mul_u64 :: "nat \<Rightarrow> nat \<Rightarrow> nat" where
  "saturating_mul_u64 a b = min (a * b) (2 ^ 64 - 1)"

text \<open>The capped exponential, before jitter: attempt 1 waits the base, each next one doubles it.\<close>

definition backoff_target :: "push_delivery_config \<Rightarrow> nat \<Rightarrow> nat" where
  "backoff_target cfg attempt =
     (let base = as_u64 (millis (backoff_base cfg));
          cap = as_u64 (millis (backoff_cap cfg));
          raw = saturating_mul_u64 base (2 ^ (min attempt 31 - 1))
      in min raw cap)"

definition backoff_delta :: "push_delivery_config \<Rightarrow> nat \<Rightarrow> int" where
  "backoff_delta cfg attempt =
     clamp_i64 \<lfloor>of_nat (backoff_target cfg attempt) * max (backoff_jitter cfg) 0\<rfloor>"

definition backoff_final :: "nat \<Rightarrow> int \<Rightarrow> nat" where
  "backoff_final target offset = from_millis (nat (max (sat_add_i64 (as_i64 target) offset) 0))"

section \<open>The world of a delivery\<close>

record 'w world =
  w_now :: "'w \<Rightarrow> instant \<times> 'w"
  w_random :: "int \<Rightarrow> 'w \<Rightarrow> int \<times> 'w"
  w_sleep :: "nat \<Rightarrow> 'w \<Rightarrow> 'w"
  w_claim :: "'w \<Rightarrow> (storage_error + delivery_claim) \<times> 'w"
  w_lookup :: "('w \<Rightarrow> abandoned_reason option \<times> 'w) option"
  w_resolve :: "'w \<Rightarrow> (string + ip_addr list) \<times> 'w"
  w_start :: "string \<Rightarrow> nat \<Rightarrow> 'w \<Rightarrow> (storage_error + nat) \<times> 'w"
  w_post :: "ip_addr \<Rightarrow> 'w \<Rightarrow> (delivery_error_class + nat) \<times> 'w"
  w_outcome :: "string \<Rightarrow> nat \<Rightarrow> delivery_outcome \<Rightarrow> 'w \<Rightarrow> (storage_error + unit) \<times> 'w"

definition backoff_for :: "'w world \<Rightarrow> push_delivery_config \<Rightarrow> nat \<Rightarrow> 'w \<Rightarrow> nat \<times> 'w" where
  "backoff_for W cfg attempt w =
     (let target = backoff_target cfg attempt; delta = backoff_delta cfg attempt
      in if delta = 0 then (backoff_final target 0, w)
         else (case w_random W delta w of (offset, w) \<Rightarrow> (backoff_final target offset, w)))"

definition gave_up ::
  "'w world \<Rightarrow> push_delivery_config \<Rightarrow> gave_up_reason \<Rightarrow> delivery_error_class \<Rightarrow> nat option \<Rightarrow> 'w \<Rightarrow>
   delivery_outcome \<times> 'w" where
  "gave_up W cfg reason last_error_class last_http_status w = (case w_now W w of (now, w) \<Rightarrow>
     (OutGaveUp reason last_error_class last_http_status
       (now + min (failed_delivery_retention cfg) MAX_FAILED_DELIVERY_RETENTION), w))"

section \<open>Committing a terminal outcome\<close>

definition TERMINAL_PERSIST_MAX_ATTEMPTS :: nat where "TERMINAL_PERSIST_MAX_ATTEMPTS = 3"

definition persist_backoffs :: "nat list" where
  "persist_backoffs = [from_millis 50, from_millis 150, from_millis 500]"

fun success_report :: "delivery_outcome \<Rightarrow> delivery_report option" where
  "success_report (OutSucceeded http_status) = Some (RepSucceeded http_status)"
| "success_report (OutGaveUp reason e h u) = Some (RepGaveUp reason)"
| "success_report (OutAbandoned reason) = Some (RepAbandoned reason)"
| "success_report (OutRetry n h e) = None"

fun is_stale :: "storage_error \<Rightarrow> bool" where
  "is_stale (SE_StaleDeliveryClaim a b c d) = True"
| "is_stale _ = False"

fun persist_loop ::
  "'w world \<Rightarrow> delivery_claim \<Rightarrow> delivery_outcome \<Rightarrow> delivery_report \<Rightarrow> nat \<Rightarrow> nat \<Rightarrow> 'w \<Rightarrow>
   delivery_report \<times> 'w" where
  "persist_loop W claim outcome report 0 attempt w = (TransientStoreError, w)"
| "persist_loop W claim outcome report (Suc left) attempt w =
     (let w = (if attempt > 0
          then w_sleep W (persist_backoffs ! min attempt (length persist_backoffs - 1)) w else w)
      in case w_outcome W (dc_claimant claim) (dc_generation claim) outcome w of
           (Inr _, w) \<Rightarrow> (report, w)
         | (Inl e, w) \<Rightarrow> if is_stale e then (ClaimLostOrFinal, w)
             else persist_loop W claim outcome report left (attempt + 1) w)"

definition persist_terminal ::
  "'w world \<Rightarrow> delivery_claim \<Rightarrow> delivery_outcome \<Rightarrow> 'w \<Rightarrow> delivery_report \<times> 'w" where
  "persist_terminal W claim outcome w = (case success_report outcome of
       None \<Rightarrow> (TransientStoreError, w)
     | Some report \<Rightarrow> persist_loop W claim outcome report TERMINAL_PERSIST_MAX_ATTEMPTS 0 w)"

section \<open>Claiming\<close>

fun is_held :: "storage_error \<Rightarrow> bool" where
  "is_held (SE_ClaimAlreadyHeld a b c d) = True"
| "is_held _ = False"

definition worker_claim :: "'w world \<Rightarrow> 'w \<Rightarrow> (claim_failure + delivery_claim) \<times> 'w" where
  "worker_claim W w = (case w_claim W w of
       (Inr c, w) \<Rightarrow> (Inr c, w)
     | (Inl e, w) \<Rightarrow> (Inl (if is_held e then AlreadyHeld else OtherFailure), w))"

definition abandon_reclaimed :: "'w world \<Rightarrow> abandoned_reason \<Rightarrow> 'w \<Rightarrow> delivery_report \<times> 'w" where
  "abandon_reclaimed W reason w = (case worker_claim W w of
       (Inr c, w) \<Rightarrow> persist_terminal W c (OutAbandoned reason) w
     | (Inl AlreadyHeld, w) \<Rightarrow> (ClaimLostOrFinal, w)
     | (Inl OtherFailure, w) \<Rightarrow> (UnclaimedSkip, w))"

section \<open>The delivery loop\<close>

text \<open>\<open>next_attempt_at\<close> of a retry: a clock reading plus one backoff.\<close>

definition retry_outcome ::
  "'w world \<Rightarrow> push_delivery_config \<Rightarrow> nat \<Rightarrow> nat option \<Rightarrow> delivery_error_class \<Rightarrow> 'w \<Rightarrow>
   delivery_outcome \<times> 'w" where
  "retry_outcome W cfg cnt http_status error_class w = (case w_now W w of (now, w) \<Rightarrow>
     (case backoff_for W cfg cnt w of (b, w) \<Rightarrow> (OutRetry (now + b) http_status error_class, w)))"

definition classify ::
  "'w world \<Rightarrow> push_delivery_config \<Rightarrow> nat \<Rightarrow> delivery_error_class + nat \<Rightarrow> 'w \<Rightarrow>
   delivery_outcome \<times> 'w" where
  "classify W cfg cnt result w = (case result of
       Inr status \<Rightarrow>
         if 200 \<le> status \<and> status < 400 then (OutSucceeded status, w)
         else if status = 429 then retry_outcome W cfg cnt (Some status) HttpError429 w
         else if status = 408 then retry_outcome W cfg cnt (Some status) Timeout w
         else if 500 \<le> status \<and> status < 600
           then retry_outcome W cfg cnt (Some status) (HttpError5xx status) w
         else gave_up W cfg NonRetryableHttpStatus (HttpError4xx status) (Some status) w
     | Inl err \<Rightarrow>
         if err = ErrTlsRejected then gave_up W cfg TlsRejected ErrTlsRejected None w
         else retry_outcome W cfg cnt None err w)"

datatype loop_step = Return delivery_report | Continue nat

definition ssrf_check ::
  "'w world \<Rightarrow> push_delivery_config \<Rightarrow> (url \<Rightarrow> string + unit) option \<Rightarrow> url \<Rightarrow> 'w \<Rightarrow>
   ssrf_decision \<times> 'w" where
  "ssrf_check W cfg validator u w = (case check_url u (allow_insecure_urls cfg) validator of
       Inl reason \<Rightarrow> (Block reason, w)
     | Inr _ \<Rightarrow> (case w_resolve W w of (ips, w) \<Rightarrow>
         (pick_destination (case ips of Inr xs \<Rightarrow> xs | Inl _ \<Rightarrow> []) (allow_insecure_urls cfg), w)))"

definition lookup_gone :: "'w world \<Rightarrow> 'w \<Rightarrow> abandoned_reason option \<times> 'w" where
  "lookup_gone W w = (case w_lookup W of None \<Rightarrow> (None, w) | Some gone \<Rightarrow> gone w)"

text \<open>What follows a POST: classify, then commit a terminal outcome or record the retry.\<close>

definition after_post ::
  "'w world \<Rightarrow> push_delivery_config \<Rightarrow> delivery_claim \<Rightarrow> nat \<Rightarrow> delivery_error_class + nat \<Rightarrow> 'w \<Rightarrow>
   loop_step \<times> 'w" where
  "after_post W cfg claim cnt result w = (case classify W cfg cnt result w of
       (OutRetry n http_status error_class, w) \<Rightarrow>
         (case retry_outcome W cfg cnt http_status error_class w of (retry, w) \<Rightarrow>
         (case w_outcome W (dc_claimant claim) (dc_generation claim) retry w of (_, w) \<Rightarrow>
            if max_attempts cfg \<le> cnt
            then (case gave_up W cfg MaxAttemptsExhausted error_class http_status w of (outcome, w) \<Rightarrow>
                    (case persist_terminal W claim outcome w of (r, w) \<Rightarrow> (Return r, w)))
            else (case backoff_for W cfg cnt w of (b, w) \<Rightarrow> (Continue cnt, w_sleep W b w))))
     | (outcome, w) \<Rightarrow> (case persist_terminal W claim outcome w of (r, w) \<Rightarrow> (Return r, w)))"

definition deliver_step ::
  "'w world \<Rightarrow> push_delivery_config \<Rightarrow> (url \<Rightarrow> string + unit) option \<Rightarrow> url \<Rightarrow> delivery_claim \<Rightarrow> nat \<Rightarrow> 'w \<Rightarrow>
   loop_step \<times> 'w" where
  "deliver_step W cfg validator u claim current_count w =
     (if max_attempts cfg \<le> current_count
      then (case gave_up W cfg MaxAttemptsExhausted Timeout None w of (outcome, w) \<Rightarrow>
              (case persist_terminal W claim outcome w of (r, w) \<Rightarrow> (Return r, w)))
      else (case lookup_gone W w of
          (Some reason, w) \<Rightarrow>
            (case persist_terminal W claim (OutAbandoned reason) w of (r, w) \<Rightarrow> (Return r, w))
        | (None, w) \<Rightarrow> (case ssrf_check W cfg validator u w of
              (Block reason, w) \<Rightarrow>
                if reason = InsecureScheme
                then (case persist_terminal W claim (OutAbandoned NonHttpsUrlInProduction) w of
                        (r, w) \<Rightarrow> (Return r, w))
                else (case gave_up W cfg SsrfBlocked SSRFBlocked None w of (outcome, w) \<Rightarrow>
                        (case persist_terminal W claim outcome w of (r, w) \<Rightarrow> (Return r, w)))
            | (Allow resolved_ip, w) \<Rightarrow>
                (case w_start W (dc_claimant claim) (dc_generation claim) w of
                   (Inl e, w) \<Rightarrow> (Return (if is_stale e then ClaimLostOrFinal else TransientStoreError), w)
                 | (Inr new_count, w) \<Rightarrow> (case w_post W resolved_ip w of (result, w) \<Rightarrow>
                     after_post W cfg claim new_count result w)))))"

text \<open>The loop with fuel; \<open>None\<close> is a run that has not returned yet.\<close>

fun deliver_loop ::
  "nat \<Rightarrow> 'w world \<Rightarrow> push_delivery_config \<Rightarrow> (url \<Rightarrow> string + unit) option \<Rightarrow> url \<Rightarrow> delivery_claim \<Rightarrow> nat \<Rightarrow>
   'w \<Rightarrow> (delivery_report \<times> 'w) option" where
  "deliver_loop 0 W cfg validator u claim current_count w = None"
| "deliver_loop (Suc fuel) W cfg validator u claim current_count w =
     (case deliver_step W cfg validator u claim current_count w of
        (Return r, w) \<Rightarrow> Some (r, w)
      | (Continue cnt, w) \<Rightarrow> deliver_loop fuel W cfg validator u claim cnt w)"

definition deliver ::
  "nat \<Rightarrow> 'w world \<Rightarrow> push_delivery_config \<Rightarrow> (url \<Rightarrow> string + unit) option \<Rightarrow> push_target \<Rightarrow> nat \<Rightarrow> 'w \<Rightarrow>
   (delivery_report \<times> 'w) option" where
  "deliver fuel W cfg validator target payload_len w =
     (if max_payload_bytes cfg < payload_len
      then (case worker_claim W w of
          (Inl _, w) \<Rightarrow> Some (UnclaimedSkip, w)
        | (Inr claim, w) \<Rightarrow> (case gave_up W cfg PayloadTooLarge ErrPayloadTooLarge None w of
            (outcome, w) \<Rightarrow> Some (persist_terminal W claim outcome w)))
      else (case worker_claim W w of
          (Inl AlreadyHeld, w) \<Rightarrow> Some (ClaimLostOrFinal, w)
        | (Inl OtherFailure, w) \<Rightarrow> Some (UnclaimedSkip, w)
        | (Inr claim, w) \<Rightarrow>
            deliver_loop fuel W cfg validator (pt_url target) claim (dc_delivery_attempt_count claim) w))"

section \<open>Backoff bounds\<close>

lemma clamp_i64_id: "i64_min \<le> x \<Longrightarrow> x \<le> i64_max \<Longrightarrow> clamp_i64 x = x"
  by (simp add: clamp_i64_def)

lemma backoff_target_eq:
  assumes "millis (backoff_base cfg) < 2 ^ 64" and "millis (backoff_cap cfg) < 2 ^ 62"
  shows "backoff_target cfg n = min (millis (backoff_base cfg) * 2 ^ (min n 31 - 1)) (millis (backoff_cap cfg))"
  using assms by (auto simp: backoff_target_def Let_def as_u64_def saturating_mul_u64_def min_def)

lemma backoff_final_eq:
  assumes "t < 2 ^ 62" and "- int t \<le> offset" and "offset \<le> int t"
  shows "backoff_final t offset = from_millis (nat (int t + offset))"
proof -
  have "as_i64 t = int t" using assms(1) by (simp add: as_i64_def)
  moreover have "clamp_i64 (int t + offset) = int t + offset"
    using assms by (intro clamp_i64_id) (simp_all add: i64_min_def i64_max_def)
  ultimately show ?thesis using assms(2) by (simp add: backoff_final_def sat_add_i64_def)
qed

theorem backoff_for_eq:
  assumes "\<And>d w. 0 < d \<Longrightarrow> - d \<le> fst (w_random W d w) \<and> fst (w_random W d w) \<le> d"
    and "millis (backoff_base cfg) < 2 ^ 64" and "millis (backoff_cap cfg) < 2 ^ 62" and "backoff_jitter cfg \<le> 1"
    and "t = min (millis (backoff_base cfg) * 2 ^ (min n 31 - 1)) (millis (backoff_cap cfg))"
    and "d = \<lfloor>of_nat t * max (backoff_jitter cfg) 0\<rfloor>"
  shows "backoff_for W cfg n w = (if d = 0 then (from_millis t, w)
      else (from_millis (nat (int t + fst (w_random W d w))), snd (w_random W d w)))"
    and "0 \<le> d" and "d \<le> int t"
proof -
  have target: "backoff_target cfg n = t"
    by (simp add: backoff_target_eq [OF assms(2,3)] assms(5))
  have t: "t < 2 ^ 62" using assms(3,5) by simp
  show d0: "0 \<le> d" by (simp add: assms(6))
  have "of_nat t * max (backoff_jitter cfg) 0 \<le> (of_nat t :: rat)"
    using assms(4) by (intro mult_left_le) auto
  then show dt: "d \<le> int t" by (simp add: assms(6) floor_le_iff)
  have delta: "backoff_delta cfg n = d"
    using t d0 dt by (simp add: backoff_delta_def target clamp_i64_id i64_min_def i64_max_def flip: assms(6))
  show "backoff_for W cfg n w = (if d = 0 then (from_millis t, w)
      else (from_millis (nat (int t + fst (w_random W d w))), snd (w_random W d w)))"
    using assms(1) [of d w] d0 dt t backoff_final_eq [OF t, of 0] backoff_final_eq [OF t, of "fst (w_random W d w)"]
    by (auto simp: backoff_for_def target delta prod.case_eq_if)
qed
end
