(* ===== verification/Delivery_Trace.thy ===== *)
theory Delivery_Trace
  imports Delivery
begin

text \<open>
  What a delivery does, as a trace: \<open>traced\<close> wraps a world so that every call the worker makes
  is recorded. Every POST goes to a destination the SSRF guard picked from the DNS answer just
  read, after the existence check and a recorded attempt; the loop makes at most
  \<open>max_attempts\<close> of them and returns; a report of success means a committed row.
\<close>

datatype act =
    ActGone "abandoned_reason option"
  | ActResolve "string + ip_addr list"
  | ActStart "storage_error + nat"
  | ActPost ip_addr "delivery_error_class + nat"
  | ActOutcome delivery_outcome "storage_error + unit"

definition traced :: "'w world \<Rightarrow> ('w \<times> act list) world" where
  "traced W = \<lparr>
     w_now = (\<lambda>(w, tr). case w_now W w of (x, w) \<Rightarrow> (x, (w, tr))),
     w_random = (\<lambda>d (w, tr). case w_random W d w of (x, w) \<Rightarrow> (x, (w, tr))),
     w_sleep = (\<lambda>d (w, tr). (w_sleep W d w, tr)),
     w_claim = (\<lambda>(w, tr). case w_claim W w of (x, w) \<Rightarrow> (x, (w, tr))),
     w_lookup = map_option (\<lambda>gone (w, tr). case gone w of (x, w) \<Rightarrow> (x, (w, tr @ [ActGone x]))) (w_lookup W),
     w_resolve = (\<lambda>(w, tr). case w_resolve W w of (x, w) \<Rightarrow> (x, (w, tr @ [ActResolve x]))),
     w_start = (\<lambda>c g (w, tr). case w_start W c g w of (x, w) \<Rightarrow> (x, (w, tr @ [ActStart x]))),
     w_post = (\<lambda>ip (w, tr). case w_post W ip w of (x, w) \<Rightarrow> (x, (w, tr @ [ActPost ip x]))),
     w_outcome = (\<lambda>c g oc (w, tr). case w_outcome W c g oc w of
        (x, w) \<Rightarrow> (x, (w, tr @ [ActOutcome oc x])))\<rparr>"

definition is_post :: "act \<Rightarrow> bool" where
  "is_post a \<longleftrightarrow> (case a of ActPost ip r \<Rightarrow> True | _ \<Rightarrow> False)"

definition is_outcome :: "act \<Rightarrow> bool" where
  "is_outcome a \<longleftrightarrow> (case a of ActOutcome oc r \<Rightarrow> True | _ \<Rightarrow> False)"

definition posts :: "act list \<Rightarrow> nat" where
  "posts tr = length (filter is_post tr)"

lemma posts_simps [simp]:
  "posts [] = 0" "posts (ActPost ip r # tr) = Suc (posts tr)" "posts (ActGone g # tr) = posts tr"
  "posts (ActResolve x # tr) = posts tr" "posts (ActStart y # tr) = posts tr"
  "posts (ActOutcome oc z # tr) = posts tr" "posts (xs @ ys) = posts xs + posts ys"
  by (simp_all add: posts_def is_post_def)

lemma posts_outcomes: "\<forall>a \<in> set tr. is_outcome a \<Longrightarrow> posts tr = 0"
  by (auto simp: posts_def is_post_def is_outcome_def filter_empty_conv split: act.splits)

section \<open>What each part appends\<close>

lemma traced_now [simp]: "w_now (traced W) (w, tr) = (x, w', tr') \<longleftrightarrow> w_now W w = (x, w') \<and> tr' = tr"
  by (auto simp: traced_def split: prod.splits)

lemma backoff_traced:
  "backoff_for (traced W) cfg n (w, tr) = (b, w', tr') \<longleftrightarrow> backoff_for W cfg n w = (b, w') \<and> tr' = tr"
  by (auto simp: backoff_for_def traced_def Let_def split: prod.splits)

lemma gave_up_traced:
  "gave_up (traced W) cfg reason e h (w, tr) = (oc, w', tr') \<longleftrightarrow>
     gave_up W cfg reason e h w = (oc, w') \<and> tr' = tr"
  by (auto simp: gave_up_def traced_def split: prod.splits)

lemma retry_traced:
  "retry_outcome (traced W) cfg n h e (w, tr) = (oc, w', tr') \<longleftrightarrow>
     retry_outcome W cfg n h e w = (oc, w') \<and> tr' = tr"
  unfolding retry_outcome_def
  by (auto simp: traced_def backoff_for_def Let_def split: prod.splits)

lemma classify_traced:
  "classify (traced W) cfg n result (w, tr) = (oc, w', tr') \<longleftrightarrow>
     classify W cfg n result w = (oc, w') \<and> tr' = tr"
  by (auto simp: classify_def retry_traced gave_up_traced split: sum.splits)

lemma gave_up_outcome: "gave_up W cfg reason e h w = (oc, w') \<Longrightarrow> \<exists>u. oc = OutGaveUp reason e h u"
  by (auto simp: gave_up_def split: prod.splits)

lemma retry_outcome_outcome:
  "retry_outcome W cfg n h e w = (oc, w') \<Longrightarrow> \<exists>t. oc = OutRetry t h e"
  by (auto simp: retry_outcome_def split: prod.splits)

lemma classify_outcome:
  assumes "classify W cfg n result w = (oc, w')"
  shows "(\<exists>status. result = Inr status \<and> 200 \<le> status \<and> status < 400 \<and> oc = OutSucceeded status) \<or>
    (\<exists>reason e h u. oc = OutGaveUp reason e h u) \<or> (\<exists>t h e. oc = OutRetry t h e)"
  using assms
  by (auto simp: classify_def split: sum.splits if_splits
      dest!: gave_up_outcome retry_outcome_outcome)

definition definite :: "delivery_report \<Rightarrow> bool" where
  "definite rep \<longleftrightarrow> rep \<notin> {ClaimLostOrFinal, UnclaimedSkip, TransientStoreError}"

lemma success_report_definite: "success_report oc = Some rep \<Longrightarrow> definite rep"
  by (cases oc) (auto simp: definite_def)

lemma persist_loop_traced:
  assumes "persist_loop (traced W) c oc rep n i (w, tr) = (rep', w', tr')" and "success_report oc = Some rep"
  shows "\<exists>seg. tr' = tr @ seg \<and> (\<forall>a \<in> set seg. is_outcome a) \<and> (definite rep' \<longrightarrow> rep' = rep) \<and>
    (definite rep' \<longrightarrow> seg \<noteq> [] \<and> last seg = ActOutcome oc (Inr ()))"
  using assms
proof (induction n arbitrary: i w tr)
  case 0
  then show ?case by (simp add: definite_def)
next
  case (Suc n)
  obtain w1 where w1: "(if i > 0 then w_sleep (traced W)
      (persist_backoffs ! min i (length persist_backoffs - 1)) (w, tr) else (w, tr)) = (w1, tr)"
    by (cases "i > 0") (simp_all add: traced_def)
  obtain x w2 where o: "w_outcome W (dc_claimant c) (dc_generation c) oc w1 = (x, w2)" by fastforce
  then have o': "w_outcome (traced W) (dc_claimant c) (dc_generation c) oc (w1, tr) =
      (x, w2, tr @ [ActOutcome oc x])"
    by (simp add: traced_def)
  show ?case
  proof (cases x)
    case (Inr u)
    then show ?thesis using Suc.prems o' w1 by (auto simp: Let_def is_outcome_def)
  next
    case (Inl e)
    show ?thesis
    proof (cases "is_stale e")
      case True
      then show ?thesis using Suc.prems o' w1 Inl by (auto simp: Let_def is_outcome_def definite_def)
    next
      case False
      then have "persist_loop (traced W) c oc rep n (Suc i) (w2, tr @ [ActOutcome oc x]) = (rep', w', tr')"
        using Suc.prems(1) o' w1 Inl by (simp add: Let_def)
      from Suc.IH [OF this Suc.prems(2)] show ?thesis
        by (auto simp: is_outcome_def)
    qed
  qed
qed

lemma persist_traced:
  assumes "persist_terminal (traced W) c oc (w, tr) = (rep, w', tr')"
  shows "\<exists>seg. tr' = tr @ seg \<and> (\<forall>a \<in> set seg. is_outcome a) \<and>
    (definite rep \<longrightarrow> success_report oc = Some rep \<and> seg \<noteq> [] \<and> last seg = ActOutcome oc (Inr ()))"
proof (cases "success_report oc")
  case None
  then show ?thesis using assms by (simp add: persist_terminal_def definite_def)
next
  case (Some rep')
  then have "persist_loop (traced W) c oc rep' TERMINAL_PERSIST_MAX_ATTEMPTS 0 (w, tr) = (rep, w', tr')"
    using assms by (simp add: persist_terminal_def)
  from persist_loop_traced [OF this Some] Some show ?thesis by auto
qed

section \<open>One step\<close>

definition truthful :: "delivery_report \<Rightarrow> act list \<Rightarrow> bool" where
  "truthful rep seg \<longleftrightarrow> (definite rep \<longrightarrow>
     (\<exists>oc. success_report oc = Some rep \<and> seg \<noteq> [] \<and> last seg = ActOutcome oc (Inr ()))) \<and>
     (\<forall>s. rep = RepSucceeded s \<longrightarrow> 200 \<le> s \<and> s < 400 \<and> (\<exists>ip. ActPost ip (Inr s) \<in> set seg))"

lemma truthful_append: "truthful rep seg \<Longrightarrow> truthful rep (pre @ seg)"
  by (auto simp: truthful_def)

lemma persist_other:
  assumes "persist_terminal (traced W) c oc (w, tr) = (rep, w', tr')" and "\<forall>s. oc \<noteq> OutSucceeded s"
  shows "\<exists>seg. tr' = tr @ seg \<and> (\<forall>a \<in> set seg. is_outcome a) \<and> truthful rep seg"
proof -
  have "\<forall>s. rep \<noteq> RepSucceeded s \<or> \<not> success_report oc = Some rep"
    using assms(2) by (cases oc) auto
  moreover have "definite (RepSucceeded s)" for s by (simp add: definite_def)
  ultimately show ?thesis using persist_traced [OF assms(1)] by (auto simp: truthful_def)
qed

definition picked :: "push_delivery_config \<Rightarrow> string + ip_addr list \<Rightarrow> ip_addr \<Rightarrow> bool" where
  "picked cfg ips ip \<longleftrightarrow> pick_destination (case ips of Inr xs \<Rightarrow> xs | Inl _ \<Rightarrow> [])
     (allow_insecure_urls cfg) = Allow ip"

definition step_seg :: "push_delivery_config \<Rightarrow> bool \<Rightarrow> act list \<Rightarrow> bool" where
  "step_seg cfg look seg \<longleftrightarrow> posts seg = 0 \<or>
     (\<exists>ips n ip r outs. seg = (if look then [ActGone None] else []) @
         [ActResolve ips, ActStart (Inr n), ActPost ip r] @ outs \<and>
       picked cfg ips ip \<and>
       (\<forall>a \<in> set outs. is_outcome a))"

lemma outcome_traced:
  "w_outcome (traced W) c g oc (w, tr) = (x, w', tr') \<longleftrightarrow>
     w_outcome W c g oc w = (x, w') \<and> tr' = tr @ [ActOutcome oc x]"
  by (auto simp: traced_def split: prod.splits)

lemma sleep_traced: "w_sleep (traced W) d (w, tr) = (w_sleep W d w, tr)"
  by (simp add: traced_def)

lemma after_post_traced:
  assumes "after_post (traced W) cfg c n result (w, tr) = (res, w', tr')"
  shows "\<exists>seg. tr' = tr @ seg \<and> (\<forall>a \<in> set seg. is_outcome a) \<and>
    (case res of Continue k \<Rightarrow> k = n \<and> n < max_attempts cfg
     | Return rep \<Rightarrow> truthful rep (ActPost ip result # seg))"
proof -
  obtain oc w1 where c1: "classify W cfg n result w = (oc, w1)" by fastforce
  then have c1': "classify (traced W) cfg n result (w, tr) = (oc, w1, tr)" by (simp add: classify_traced)
  show ?thesis
  proof (cases "\<exists>t h e. oc = OutRetry t h e")
    case True
    then obtain t h e where oc: "oc = OutRetry t h e" by blast
    obtain rt w2 where r: "retry_outcome W cfg n h e w1 = (rt, w2)" by fastforce
    obtain x w3 where x: "w_outcome W (dc_claimant c) (dc_generation c) rt w2 = (x, w3)" by fastforce
    let ?tr = "tr @ [ActOutcome rt x]"
    have r': "retry_outcome (traced W) cfg n h e (w1, tr) = (rt, w2, tr)"
      and x': "w_outcome (traced W) (dc_claimant c) (dc_generation c) rt (w2, tr) = (x, w3, ?tr)"
      using r x by (simp_all add: retry_traced outcome_traced)
    show ?thesis
    proof (cases "max_attempts cfg \<le> n")
      case True
      obtain g w4 where g: "gave_up W cfg MaxAttemptsExhausted e h w3 = (g, w4)" by fastforce
      obtain rep w5 tr5 where p: "persist_terminal (traced W) c g (w4, ?tr) = (rep, w5, tr5)"
        by (metis prod.exhaust)
      have g': "gave_up (traced W) cfg MaxAttemptsExhausted e h (w3, ?tr) = (g, w4, ?tr)"
        using g by (simp add: gave_up_traced)
      have "res = Return rep" "tr' = tr5"
        using assms c1' oc r' x' True g' p by (simp_all add: after_post_def)
      moreover obtain seg where "tr5 = ?tr @ seg" "\<forall>a \<in> set seg. is_outcome a" "truthful rep seg"
        using persist_other [OF p] gave_up_outcome [OF g] by auto
      ultimately show ?thesis
        using truthful_append [of rep seg "[ActPost ip result, ActOutcome rt x]"]
        by (auto simp: is_outcome_def)
    next
      case False
      obtain b w4 where b: "backoff_for W cfg n w3 = (b, w4)" by fastforce
      then have "backoff_for (traced W) cfg n (w3, ?tr) = (b, w4, ?tr)" by (simp add: backoff_traced)
      then have "res = Continue n" "tr' = ?tr"
        using assms c1' oc r' x' False by (simp_all add: after_post_def sleep_traced)
      with False show ?thesis by (auto simp: is_outcome_def)
    qed
  next
    case False
    obtain rep w5 tr5 where p: "persist_terminal (traced W) c oc (w1, tr) = (rep, w5, tr5)"
      by (metis prod.exhaust)
    have res: "res = Return rep" "tr' = tr5"
      using assms c1' False p by (auto simp: after_post_def split: delivery_outcome.splits)
    obtain seg where seg: "tr5 = tr @ seg" "\<forall>a \<in> set seg. is_outcome a"
        "definite rep \<longrightarrow> success_report oc = Some rep \<and> seg \<noteq> [] \<and> last seg = ActOutcome oc (Inr ())"
      using persist_traced [OF p] by auto
    have "truthful rep (ActPost ip result # seg)"
      using seg(3) classify_outcome [OF c1] False
      by (auto simp: truthful_def definite_def)
    with res seg show ?thesis by auto
  qed
qed

lemma step_segI: "\<forall>a \<in> set seg. \<not> is_post a \<Longrightarrow> step_seg cfg look seg"
  by (simp add: step_seg_def posts_def filter_empty_conv)

lemma outcome_not_post: "is_outcome a \<Longrightarrow> \<not> is_post a"
  by (cases a) (simp_all add: is_outcome_def is_post_def)

lemma persist_return:
  assumes "persist_terminal (traced W) c oc (w, tr @ pre) = (rep, w', tr')"
    and "\<forall>s. oc \<noteq> OutSucceeded s" and "\<forall>a \<in> set pre. \<not> is_post a"
  shows "\<exists>seg. tr' = tr @ seg \<and> posts seg = 0 \<and> truthful rep seg"
proof -
  obtain seg where seg: "tr' = (tr @ pre) @ seg" "\<forall>a \<in> set seg. is_outcome a" "truthful rep seg"
    using persist_other [OF assms(1,2)] by auto
  have "posts (pre @ seg) = 0"
    using seg(2) assms(3) outcome_not_post by (auto simp: posts_def filter_empty_conv)
  with seg show ?thesis by (intro exI [of _ "pre @ seg"]) (auto intro: truthful_append)
qed

lemma ssrf_traced:
  assumes "ssrf_check (traced W) cfg v u (w, tr) = (d, w', tr')"
  shows "\<exists>seg. tr' = tr @ seg \<and> (\<forall>a \<in> set seg. \<not> is_post a) \<and>
    (\<forall>ip. d = Allow ip \<longrightarrow> (\<exists>ips. seg = [ActResolve ips] \<and>
       picked cfg ips ip))"
proof (cases "check_url u (allow_insecure_urls cfg) v")
  case (Inl e)
  then show ?thesis using assms by (auto simp: ssrf_check_def)
next
  case (Inr x)
  obtain ips w1 where r: "w_resolve W w = (ips, w1)" by fastforce
  then have "w_resolve (traced W) (w, tr) = (ips, w1, tr @ [ActResolve ips])" by (simp add: traced_def)
  then show ?thesis
    using assms Inr by (intro exI [of _ "[ActResolve ips]"]) (auto simp: ssrf_check_def is_post_def picked_def)
qed

text \<open>A step that makes no POST returns; one that does is the guarded sequence.\<close>

lemma deliver_step_traced:
  assumes "deliver_step (traced W) cfg v u c n (w, tr) = (res, w', tr')"
  shows "\<exists>seg. tr' = tr @ seg \<and> step_seg cfg (w_lookup W \<noteq> None) seg \<and>
    (posts seg = 0 \<or> posts seg = 1 \<and> n < max_attempts cfg) \<and>
    (case res of Continue k \<Rightarrow> k < max_attempts cfg \<and> n < max_attempts cfg
     | Return rep \<Rightarrow> truthful rep seg)"
proof -
  have finish: ?thesis
    if "persist_terminal (traced W) c oc (w1, tr @ pre) = (rep, w2, tr2)" "res = Return rep" "tr' = tr2"
      "\<forall>s. oc \<noteq> OutSucceeded s" "\<forall>a \<in> set pre. \<not> is_post a" for oc w1 pre rep w2 tr2
    using persist_return [OF that(1,4,5)] that(2,3) by (auto simp: step_seg_def)
  show ?thesis
  proof (cases "max_attempts cfg \<le> n")
    case True
    obtain g w1 where g: "gave_up W cfg MaxAttemptsExhausted Timeout None w = (g, w1)" by fastforce
    then have g': "gave_up (traced W) cfg MaxAttemptsExhausted Timeout None (w, tr) = (g, w1, tr)"
      by (simp add: gave_up_traced)
    obtain rep w2 tr2 where p: "persist_terminal (traced W) c g (w1, tr) = (rep, w2, tr2)"
      by (metis prod.exhaust)
    show ?thesis
      by (rule finish [where pre = "[]"])
        (use assms True g' p gave_up_outcome [OF g] in \<open>auto simp: deliver_step_def\<close>)
  next
    case budget: False
    let ?look = "w_lookup W \<noteq> None"
    obtain go w1 where l: "lookup_gone W w = (go, w1)" by fastforce
    let ?g = "if ?look then [ActGone go] else []"
    have l': "lookup_gone (traced W) (w, tr) = (go, w1, tr @ ?g)"
      using l by (auto simp: lookup_gone_def traced_def split: option.splits prod.splits)
    have gnone: "\<not> ?look \<Longrightarrow> go = None" using l by (simp add: lookup_gone_def)
    have np: "\<forall>a \<in> set ?g. \<not> is_post a" by (simp add: is_post_def)
    show ?thesis
    proof (cases go)
      case (Some reason)
      obtain rep w2 tr2 where p: "persist_terminal (traced W) c (OutAbandoned reason) (w1, tr @ ?g) = (rep, w2, tr2)"
        by (metis prod.exhaust)
      show ?thesis
        by (rule finish [OF p]) (use assms budget l' p Some np in \<open>simp_all add: deliver_step_def\<close>)
    next
      case None
      obtain d w2 tr2 where s: "ssrf_check (traced W) cfg v u (w1, tr @ ?g) = (d, w2, tr2)"
        by (metis prod.exhaust)
      obtain sg where sg: "tr2 = (tr @ ?g) @ sg" "\<forall>a \<in> set sg. \<not> is_post a"
          "\<forall>ip. d = Allow ip \<longrightarrow> (\<exists>ips. sg = [ActResolve ips] \<and>
             picked cfg ips ip)"
        using ssrf_traced [OF s] by auto
      have np2: "\<forall>a \<in> set (?g @ sg). \<not> is_post a" using np sg(2) by auto
      show ?thesis
      proof (cases d)
        case (Block reason)
        show ?thesis
        proof (cases "reason = InsecureScheme")
          case True
          obtain rep w3 tr3 where p: "persist_terminal (traced W) c (OutAbandoned NonHttpsUrlInProduction)
              (w2, tr @ ?g @ sg) = (rep, w3, tr3)"
            by (metis prod.exhaust)
          show ?thesis
            by (rule finish [OF p])
              (use assms budget l' p None np2 s sg(1) Block True in \<open>simp_all add: deliver_step_def\<close>)
        next
          case False
          obtain g w3 where g: "gave_up W cfg SsrfBlocked SSRFBlocked None w2 = (g, w3)" by fastforce
          then have g': "gave_up (traced W) cfg SsrfBlocked SSRFBlocked None (w2, tr2) = (g, w3, tr2)"
            by (simp add: gave_up_traced)
          obtain rep w4 tr4 where p: "persist_terminal (traced W) c g (w3, tr @ ?g @ sg) = (rep, w4, tr4)"
            by (metis prod.exhaust)
          have "\<forall>s. g \<noteq> OutSucceeded s" using gave_up_outcome [OF g] by auto
          then show ?thesis
            by (intro finish [OF p])
              (use assms budget l' p None np2 s sg(1) Block False g' in \<open>simp_all add: deliver_step_def\<close>)
        qed
      next
        case (Allow ip)
        then obtain ips where ips: "sg = [ActResolve ips]"
            "picked cfg ips ip"
          using sg(3) by auto
        obtain x w3 where x: "w_start W (dc_claimant c) (dc_generation c) w2 = (x, w3)" by fastforce
        then have x': "w_start (traced W) (dc_claimant c) (dc_generation c) (w2, tr2) =
            (x, w3, tr2 @ [ActStart x])"
          by (simp add: traced_def)
        show ?thesis
        proof (cases x)
          case (Inl e)
          then have "res = Return (if is_stale e then ClaimLostOrFinal else TransientStoreError)"
              "tr' = tr @ ?g @ [ActResolve ips, ActStart x]"
            using assms budget l' None s sg(1) Allow x' ips(1) by (simp_all add: deliver_step_def)
          then show ?thesis
            by (intro exI [of _ "?g @ [ActResolve ips, ActStart x]"])
              (auto simp: step_seg_def truthful_def definite_def)
        next
          case (Inr m)
          obtain r w4 where r: "w_post W ip w3 = (r, w4)" by fastforce
          let ?pre = "?g @ [ActResolve ips, ActStart (Inr m), ActPost ip r]"
          have r': "w_post (traced W) ip (w3, tr2 @ [ActStart x]) = (r, w4, tr @ ?pre)"
            using r sg(1) ips(1) Inr by (simp add: traced_def)
          have "after_post (traced W) cfg c m r (w4, tr @ ?pre) = (res, w', tr')"
            using assms budget l' None s Allow x' Inr r' by (simp add: deliver_step_def)
          from after_post_traced [OF this, of ip] obtain outs where outs: "tr' = (tr @ ?pre) @ outs"
              "\<forall>a \<in> set outs. is_outcome a"
              "case res of Continue k \<Rightarrow> k = m \<and> m < max_attempts cfg
               | Return rep \<Rightarrow> truthful rep (ActPost ip r # outs)"
            by auto
          have "step_seg cfg ?look (?pre @ outs)"
            unfolding step_seg_def using None ips(2) outs(2) by (intro disjI2) auto
          moreover have "posts (?pre @ outs) = 1" using posts_outcomes [OF outs(2)] by simp
          moreover have "truthful rep (?pre @ outs)" if "res = Return rep" for rep
            using that outs(3) truthful_append [of rep "ActPost ip r # outs" "?g @ [ActResolve ips, ActStart (Inr m)]"]
            by simp
          ultimately show ?thesis
            using outs(1,3) budget by (intro exI [of _ "?pre @ outs"]) (auto split: loop_step.splits)
        qed
      qed
    qed
  qed
qed

section \<open>The whole loop\<close>

text \<open>
  Every POST of a trace directly follows a recorded attempt, the DNS answer its destination was
  picked from, and (when the worker looks targets up) a check that found them present.
\<close>

definition posts_guarded :: "push_delivery_config \<Rightarrow> bool \<Rightarrow> act list \<Rightarrow> bool" where
  "posts_guarded cfg look tr \<longleftrightarrow> (\<forall>pre ip r rest. tr = pre @ ActPost ip r # rest \<longrightarrow>
     (\<exists>pre' ips n. pre = pre' @ (if look then [ActGone None] else []) @
         [ActResolve ips, ActStart (Inr n)] \<and>
       picked cfg ips ip))"

lemma no_post_split: "posts tr = 0 \<Longrightarrow> tr \<noteq> pre @ ActPost ip r # rest"
  by auto

lemma guarded_append:
  assumes "posts_guarded cfg look a" and "posts_guarded cfg look b"
  shows "posts_guarded cfg look (a @ b)"
  unfolding posts_guarded_def
proof (intro allI impI)
  fix pre ip r rest
  assume "a @ b = pre @ ActPost ip r # rest"
  then consider us where "a = pre @ us" "us @ b = ActPost ip r # rest"
    | us where "pre = a @ us" "b = us @ ActPost ip r # rest"
    by (auto simp: append_eq_append_conv2)
  then show "\<exists>pre' ips n. pre = pre' @ (if look then [ActGone None] else []) @
      [ActResolve ips, ActStart (Inr n)] \<and>
    picked cfg ips ip"
  proof cases
    case (1 us)
    show ?thesis
    proof (cases us)
      case Nil
      with 1 have "b = [] @ ActPost ip r # rest" by simp
      with assms(2) show ?thesis unfolding posts_guarded_def by blast
    next
      case (Cons x xs)
      with 1 have "a = pre @ ActPost ip r # xs" by simp
      with assms(1) show ?thesis unfolding posts_guarded_def by blast
    qed
  next
    case (2 us)
    then obtain pre' ips n where "us = pre' @ (if look then [ActGone None] else []) @
        [ActResolve ips, ActStart (Inr n)]"
      "picked cfg ips ip"
      using assms(2) unfolding posts_guarded_def by blast
    with 2 show ?thesis by (intro exI [of _ "a @ pre'"]) auto
  qed
qed

lemma step_seg_guarded:
  assumes "step_seg cfg look seg"
  shows "posts_guarded cfg look seg"
proof (cases "posts seg = 0")
  case True
  then show ?thesis using no_post_split by (auto simp: posts_guarded_def)
next
  case False
  then obtain ips n ip r outs where seg: "seg = (if look then [ActGone None] else []) @
         [ActResolve ips, ActStart (Inr n), ActPost ip r] @ outs"
      "picked cfg ips ip"
      "\<forall>a \<in> set outs. is_outcome a"
    using assms unfolding step_seg_def by (elim disjE exE conjE) simp_all
  let ?front = "(if look then [ActGone None] else []) @ [ActResolve ips, ActStart (Inr n)]"
  have "pre = ?front \<and> ip' = ip" if "seg = pre @ ActPost ip' r' # rest" for pre ip' r' rest
  proof -
    have "?front @ ActPost ip r # outs = pre @ ActPost ip' r' # rest" using seg(1) that by simp
    then consider us where "?front = pre @ us" "us @ ActPost ip r # outs = ActPost ip' r' # rest"
      | us where "pre = ?front @ us" "ActPost ip r # outs = us @ ActPost ip' r' # rest"
      unfolding append_eq_append_conv2 by blast
    then show ?thesis
    proof cases
      case (1 us)
      then show ?thesis by (cases us) (auto simp: append_eq_Cons_conv Cons_eq_append_conv split: if_splits)
    next
      case (2 us)
      then show ?thesis
        using no_post_split [OF posts_outcomes [OF seg(3)]] by (cases us) auto
    qed
  qed
  with seg(2) show ?thesis unfolding posts_guarded_def by fastforce
qed

theorem loop_traced:
  assumes "deliver_loop fuel (traced W) cfg v u c n (w, tr) = Some (rep, w', tr')"
  shows "\<exists>seg. tr' = tr @ seg \<and> posts_guarded cfg (w_lookup W \<noteq> None) seg \<and> truthful rep seg"
  using assms
proof (induction fuel arbitrary: n w tr)
  case (Suc fuel)
  obtain res w1 tr1 where s: "deliver_step (traced W) cfg v u c n (w, tr) = (res, w1, tr1)"
    by (metis prod.exhaust)
  from deliver_step_traced [OF this] obtain seg where seg: "tr1 = tr @ seg"
      "step_seg cfg (w_lookup W \<noteq> None) seg"
      "case res of Continue k \<Rightarrow> k < max_attempts cfg \<and> n < max_attempts cfg
       | Return rep \<Rightarrow> truthful rep seg"
    by auto
  show ?case
  proof (cases res)
    case (Return rep0)
    with s Suc.prems have "rep0 = rep" "tr1 = tr'" by auto
    with seg Return show ?thesis using step_seg_guarded by auto
  next
    case (Continue k)
    with s Suc.prems have "deliver_loop fuel (traced W) cfg v u c k (w1, tr1) = Some (rep, w', tr')" by simp
    from Suc.IH [OF this] obtain seg' where "tr' = tr1 @ seg'"
        "posts_guarded cfg (w_lookup W \<noteq> None) seg'" "truthful rep seg'"
      by auto
    with seg show ?thesis
      using guarded_append [OF step_seg_guarded [OF seg(2)]] truthful_append by auto
  qed
qed simp

lemma worker_claim_traced:
  "worker_claim (traced W) (w, tr) = (x, w', tr') \<longleftrightarrow> worker_claim W w = (x, w') \<and> tr' = tr"
  by (auto simp: worker_claim_def traced_def split: prod.splits sum.splits)

theorem deliver_traced:
  assumes "deliver fuel (traced W) cfg v target len (w, []) = Some (rep, w', tr)"
  shows "posts_guarded cfg (w_lookup W \<noteq> None) tr \<and> truthful rep tr"
proof -
  obtain x w1 where c: "worker_claim W w = (x, w1)" by fastforce
  then have c': "worker_claim (traced W) (w, []) = (x, w1, [])" by (simp add: worker_claim_traced)
  have skip: ?thesis if "tr = []" "\<not> definite rep"
    using that by (auto simp: posts_guarded_def truthful_def definite_def)
  show ?thesis
  proof (cases x)
    case (Inl e)
    then show ?thesis
      using assms c' by (intro skip; cases e) (auto simp: deliver_def definite_def split: if_splits)
  next
    case (Inr cl)
    show ?thesis
    proof (cases "max_payload_bytes cfg < len")
      case True
      obtain oc w2 where g: "gave_up W cfg PayloadTooLarge ErrPayloadTooLarge None w1 = (oc, w2)" by fastforce
      then have "gave_up (traced W) cfg PayloadTooLarge ErrPayloadTooLarge None (w1, []) = (oc, w2, [])"
        by (simp add: gave_up_traced)
      then have p: "persist_terminal (traced W) cl oc (w2, [] @ []) = (rep, w', tr)"
        using assms c' Inr True by (simp add: deliver_def)
      have "\<forall>s. oc \<noteq> OutSucceeded s" using gave_up_outcome [OF g] by auto
      from persist_return [OF p this] have "posts tr = 0" "truthful rep tr" by auto
      then show ?thesis using no_post_split by (auto simp: posts_guarded_def)
    next
      case False
      then have "deliver_loop fuel (traced W) cfg v (pt_url target) cl (dc_delivery_attempt_count cl) (w1, []) =
          Some (rep, w', tr)"
        using assms c' Inr by (simp add: deliver_def)
      from loop_traced [OF this] show ?thesis by auto
    qed
  qed
qed

lemma guarded_destination:
  assumes "posts_guarded cfg look tr" and "ActPost ip r \<in> set tr"
  shows "allow_insecure_urls cfg \<or> \<not> is_blocked_ip ip"
proof -
  obtain pre rest where "tr = pre @ ActPost ip r # rest" using assms(2) by (meson split_list)
  then obtain ips where "picked cfg ips ip" using assms(1) unfolding posts_guarded_def by blast
  then show ?thesis by (auto simp: picked_def dest: pick_destination_Allow)
qed

end
