(* ===== verification/Config_Cache.thy ===== *)
theory Config_Cache
  imports Delivery
begin

text \<open>
  The pre-attempt existence check of the delivery worker (\<open>DeliveryTargetLookup::gone\<close>) and the
  cache of configs confirmed present (\<open>PushConfigCache\<close>, \<open>push/delivery.rs\<close>). The cache is
  shared by all deliveries of a server, so its soundness is a statement about every interleaving
  of reads, deletions and invalidations: the step relation \<open>cache_step\<close>.
\<close>

record config_cache =
  cc_generation :: "64 word"
  cc_by_task :: "(string \<times> string, (string, instant) hashmap) hashmap"

definition config_cache_default :: config_cache where
  "config_cache_default = \<lparr>cc_generation = 0, cc_by_task = []\<rparr>"

definition cached :: "config_cache \<Rightarrow> push_target \<Rightarrow> instant option" where
  "cached c t = Option.bind (hm_get (cc_by_task c) (pt_tenant t, pt_task_id t))
     (\<lambda>configs. hm_get configs (pt_config_id t))"

definition is_fresh :: "instant \<Rightarrow> push_target \<Rightarrow> nat \<Rightarrow> config_cache \<Rightarrow> bool" where
  "is_fresh now t ttl c \<longleftrightarrow> (case cached c t of
       Some confirmed \<Rightarrow> now - confirmed < ttl | None \<Rightarrow> False)"

definition drop_expired ::
  "instant \<Rightarrow> nat \<Rightarrow> (string \<times> string, (string, instant) hashmap) hashmap \<Rightarrow>
   (string \<times> string, (string, instant) hashmap) hashmap" where
  "drop_expired now ttl m = filter (\<lambda>(k, configs). configs \<noteq> [])
     (map (\<lambda>(k, configs). (k, hm_retain (\<lambda>_ confirmed. now - confirmed < ttl) configs)) m)"

definition record_present ::
  "instant \<Rightarrow> push_target \<Rightarrow> nat \<Rightarrow> 64 word \<Rightarrow> config_cache \<Rightarrow> config_cache" where
  "record_present now t ttl read_generation c =
     (if ttl = 0 then c
      else if cc_generation c \<noteq> read_generation then c
      else (let m = drop_expired now ttl (cc_by_task c);
                key = (pt_tenant t, pt_task_id t);
                configs = (case hm_get m key of Some x \<Rightarrow> x | None \<Rightarrow> [])
            in c\<lparr>cc_by_task := hm_insert key (hm_insert (pt_config_id t) now configs) m\<rparr>))"

text \<open>\<open>wrapping_add\<close>\<close>

definition cache_invalidate :: "string \<Rightarrow> string \<Rightarrow> config_cache \<Rightarrow> config_cache" where
  "cache_invalidate tenant task_id c = \<lparr>cc_generation = cc_generation c + 1,
     cc_by_task = hm_remove (tenant, task_id) (cc_by_task c)\<rparr>"

text \<open>
  The check: \<open>config_read\<close> and \<open>task_read\<close> are the answers of the two stores, \<open>env\<close> what other
  threads do to the cache between the read of its generation and the record of the result.
\<close>

definition gone ::
  "instant \<Rightarrow> instant \<Rightarrow> push_target \<Rightarrow> nat \<Rightarrow> storage_error + push_config option \<Rightarrow>
   (config_cache \<Rightarrow> config_cache) \<Rightarrow> storage_error + pb_task option \<Rightarrow> config_cache \<Rightarrow>
   abandoned_reason option \<times> config_cache" where
  "gone now1 now2 t ttl config_read env task_read c =
     (let check_task = (\<lambda>c. (if task_read = Inr None then Some TaskDeleted else None, c))
      in if is_fresh now1 t ttl c then check_task c
         else (let generation = cc_generation c; c = env c
               in case config_read of
                    Inr None \<Rightarrow> (Some ConfigDeleted, c)
                  | Inr (Some _) \<Rightarrow> check_task (record_present now2 t ttl generation c)
                  | Inl _ \<Rightarrow> check_task c))"

section \<open>The cache as a map\<close>

definition cache_wf :: "config_cache \<Rightarrow> bool" where
  "cache_wf c \<longleftrightarrow> hm_wf (cc_by_task c) \<and> (\<forall>(k, m) \<in> set (cc_by_task c). hm_wf m)"

lemma drop_expired_get:
  assumes "hm_wf m"
  shows "hm_get (drop_expired now ttl m) k = (case hm_get m k of
      Some cs \<Rightarrow> (let cs' = hm_retain (\<lambda>_ x. now - x < ttl) cs in if cs' = [] then None else Some cs')
    | None \<Rightarrow> None)"
  using assms unfolding hm_wf_def hm_get_def drop_expired_def
proof (induction m)
  case (Cons e m)
  obtain k' cs where e: "e = (k', cs)" by fastforce
  let ?f = "\<lambda>(k, cs). (k, hm_retain (\<lambda>_ x. now - x < ttl) cs)"
  have "map_of (filter (\<lambda>(k, cs). cs \<noteq> []) (map ?f m)) k' = None"
    using Cons.prems e by (force simp: map_of_eq_None_iff)
  with Cons e show ?case by (auto simp: Let_def)
qed simp

lemma hm_wf_drop_expired: "hm_wf m \<Longrightarrow> hm_wf (drop_expired now ttl m)"
proof -
  assume "hm_wf m"
  moreover have "map fst (map (\<lambda>(k, cs). (k, hm_retain (\<lambda>_ x. now - x < ttl) cs)) m) = map fst m"
    by (induction m) auto
  ultimately show ?thesis
    unfolding hm_wf_def drop_expired_def by (metis (no_types, lifting) distinct_map_filter)
qed

lemma drop_expired_inner:
  "(k, cs) \<in> set (drop_expired now ttl m) \<Longrightarrow> (\<forall>(k, m) \<in> set m. hm_wf m) \<Longrightarrow> hm_wf cs"
  by (auto simp: drop_expired_def intro: hm_wf_retain)

lemma cached_invalidate [simp]:
  "cached (cache_invalidate tn i c) t =
     (if pt_tenant t = tn \<and> pt_task_id t = i then None else cached c t)"
  by (auto simp: cached_def cache_invalidate_def hm_simps)

lemma invalidate_generation [simp]:
  "cc_generation (cache_invalidate tn i c) = cc_generation c + 1"
  by (simp add: cache_invalidate_def)

lemma cache_wf_default: "cache_wf config_cache_default"
  by (simp add: cache_wf_def config_cache_default_def)

lemma cache_wf_invalidate: "cache_wf c \<Longrightarrow> cache_wf (cache_invalidate tn i c)"
  by (auto simp: cache_wf_def cache_invalidate_def hm_simps dest: hm_set_remove)

lemma cache_wf_record:
  assumes "cache_wf c"
  shows "cache_wf (record_present now t ttl g c)"
proof -
  let ?m = "drop_expired now ttl (cc_by_task c)"
  have w: "hm_wf ?m" "\<forall>(k, cs) \<in> set ?m. hm_wf cs"
    using assms drop_expired_inner [of _ _ now ttl "cc_by_task c"]
    by (auto simp: cache_wf_def intro: hm_wf_drop_expired)
  then have "hm_wf (case hm_get ?m k of Some x \<Rightarrow> x | None \<Rightarrow> [])" for k
    by (auto split: option.splits dest!: hm_get_in_set)
  with w assms show ?thesis
    by (auto simp: record_present_def Let_def cache_wf_def hm_simps dest!: hm_set_insert)
qed

text \<open>Recording adds the target's entry and otherwise only drops expired ones.\<close>

lemma cached_record:
  assumes "cache_wf c" and "cached (record_present now t ttl g c) t' = Some x"
  shows "cached c t' = Some x \<or>
    (cc_generation c = g \<and> pt_tenant t' = pt_tenant t \<and> pt_task_id t' = pt_task_id t \<and>
     pt_config_id t' = pt_config_id t \<and> x = now)"
proof (cases "ttl = 0 \<or> cc_generation c \<noteq> g")
  case True
  then have "record_present now t ttl g c = c" by (auto simp: record_present_def)
  with assms(2) show ?thesis by simp
next
  case False
  let ?m = "drop_expired now ttl (cc_by_task c)"
  let ?k = "(pt_tenant t', pt_task_id t')"
  have wf: "hm_wf (cc_by_task c)" using assms(1) by (simp add: cache_wf_def)
  have old: "cached c t' = Some x" if "hm_get ?m ?k = Some cs" "hm_get cs (pt_config_id t') = Some x" for cs
  proof -
    from that(1) obtain cs0 where cs0: "hm_get (cc_by_task c) ?k = Some cs0"
        "cs = hm_retain (\<lambda>_ x. now - x < ttl) cs0"
      using wf by (auto simp: drop_expired_get Let_def split: option.splits if_splits)
    then have "hm_wf cs0" using assms(1) by (auto simp: cache_wf_def dest!: hm_get_in_set)
    with that(2) cs0 show ?thesis
      by (auto simp: cached_def hm_get_retain split: option.splits if_splits)
  qed
  show ?thesis
    using assms(2) False old
    by (auto simp: record_present_def Let_def cached_def hm_simps
        split: if_splits option.splits bind_splits)
qed

lemma record_generation [simp]: "cc_generation (record_present now t ttl g c) = cc_generation c"
  by (simp add: record_present_def Let_def)

section \<open>Every interleaving of checks and deletions\<close>

text \<open>
  One config and everything its server does about it. A reader holds the cache generation it
  started at and, after its storage read, whether it saw the config. A deletion removes the
  config from the store, then invalidates the cache; \<open>sy_deleting\<close> counts the deletions between
  the two. The generation wraps around; \<open>sy_invalidations\<close> is the number of invalidations so far.
\<close>

record cache_system =
  sy_exists :: bool
  sy_cache :: config_cache
  sy_readers :: "(64 word \<times> bool option) list"
  sy_deleting :: nat
  sy_invalidations :: nat

definition other_target :: "push_target \<Rightarrow> push_target \<Rightarrow> bool" where
  "other_target t t' \<longleftrightarrow> (pt_tenant t', pt_task_id t', pt_config_id t') \<noteq>
     (pt_tenant t, pt_task_id t, pt_config_id t)"

inductive cache_step :: "push_target \<Rightarrow> nat \<Rightarrow> cache_system \<Rightarrow> cache_system \<Rightarrow> bool" for t ttl where
  start: "cache_step t ttl s (s\<lparr>sy_readers := (cc_generation (sy_cache s), None) # sy_readers s\<rparr>)"
| read: "sy_readers s = xs @ (g, None) # ys \<Longrightarrow>
    cache_step t ttl s (s\<lparr>sy_readers := xs @ (g, Some (sy_exists s)) # ys\<rparr>)"
| confirm: "sy_readers s = xs @ (g, Some True) # ys \<Longrightarrow>
    cache_step t ttl s (s\<lparr>sy_readers := xs @ ys, sy_cache := record_present now t ttl g (sy_cache s)\<rparr>)"
| drop: "sy_readers s = xs @ r # ys \<Longrightarrow> cache_step t ttl s (s\<lparr>sy_readers := xs @ ys\<rparr>)"
| other: "other_target t t' \<Longrightarrow>
    cache_step t ttl s (s\<lparr>sy_cache := record_present now t' ttl g (sy_cache s)\<rparr>)"
| create: "cache_step t ttl s (s\<lparr>sy_exists := True\<rparr>)"
| delete: "cache_step t ttl s (s\<lparr>sy_exists := False, sy_deleting := sy_deleting s + 1\<rparr>)"
| invalidate: "sy_deleting s = Suc n \<Longrightarrow>
    cache_step t ttl s (s\<lparr>sy_deleting := n, sy_invalidations := sy_invalidations s + 1,
      sy_cache := cache_invalidate (pt_tenant t) (pt_task_id t) (sy_cache s)\<rparr>)"
| invalidate_other: "(tn, i) \<noteq> (pt_tenant t, pt_task_id t) \<Longrightarrow>
    cache_step t ttl s (s\<lparr>sy_invalidations := sy_invalidations s + 1,
      sy_cache := cache_invalidate tn i (sy_cache s)\<rparr>)"

inductive_cases cache_stepE: "cache_step t ttl s s'"

definition cache_system_init :: "bool \<Rightarrow> cache_system" where
  "cache_system_init b = \<lparr>sy_exists = b, sy_cache = config_cache_default, sy_readers = [],
     sy_deleting = 0, sy_invalidations = 0\<rparr>"

text \<open>
  The invariant: a cached entry, and a positive answer still recordable at the current
  generation, each mean that the config exists or its deletion has yet to invalidate, as long as
  the generation has not come round again.
\<close>

definition cache_sound :: "push_target \<Rightarrow> cache_system \<Rightarrow> bool" where
  "cache_sound t s \<longleftrightarrow> cache_wf (sy_cache s) \<and> (sy_invalidations s < 2 ^ 64 \<longrightarrow>
     unat (cc_generation (sy_cache s)) = sy_invalidations s \<and>
     (\<forall>(g, seen) \<in> set (sy_readers s). g \<le> cc_generation (sy_cache s)) \<and>
     (sy_exists s \<or> sy_deleting s > 0 \<or>
       (cached (sy_cache s) t = None \<and> (cc_generation (sy_cache s), Some True) \<notin> set (sy_readers s))))"

lemma cache_sound_init: "cache_sound t (cache_system_init b)"
  by (auto simp: cache_sound_def cache_system_init_def cache_wf_default)
    (simp_all add: cached_def config_cache_default_def)

text \<open>The next generation is above all that were read, until it wraps.\<close>

lemma next_generation:
  assumes "unat (g :: 64 word) = n" and "n + 1 < 2 ^ 64"
  shows "unat (g + 1) = n + 1" and "h \<le> g \<Longrightarrow> h \<le> g + 1 \<and> h \<noteq> g + 1"
proof -
  show suc: "unat (g + 1) = n + 1"
    using assms by (simp add: unat_word_ariths)
  assume "h \<le> g"
  then have "unat h \<le> n" using assms(1) by (simp add: word_le_nat_alt)
  with suc show "h \<le> g + 1 \<and> h \<noteq> g + 1" by (auto simp: word_le_nat_alt)
qed

lemma invalidated_sound:
  assumes "cache_sound t s" and "sy_invalidations s + 1 < 2 ^ 64"
  shows "unat (cc_generation (sy_cache s) + 1) = sy_invalidations s + 1"
    and "\<forall>(g, seen) \<in> set (sy_readers s). g \<le> cc_generation (sy_cache s) + 1"
    and "(cc_generation (sy_cache s) + 1, Some True) \<notin> set (sy_readers s)"
proof -
  have g: "unat (cc_generation (sy_cache s)) = sy_invalidations s"
      "\<forall>(g, seen) \<in> set (sy_readers s). g \<le> cc_generation (sy_cache s)"
    using assms by (simp_all add: cache_sound_def)
  note n = next_generation [OF g(1) assms(2)]
  show "unat (cc_generation (sy_cache s) + 1) = sy_invalidations s + 1" by (rule n(1))
  show "\<forall>(g, seen) \<in> set (sy_readers s). g \<le> cc_generation (sy_cache s) + 1"
    using g(2) n(2) by blast
  show "(cc_generation (sy_cache s) + 1, Some True) \<notin> set (sy_readers s)"
    using g(2) n(2) by blast
qed

lemma cache_sound_step:
  assumes "cache_step t ttl s s'" and "cache_sound t s"
  shows "cache_sound t s'"
  using assms
proof (cases rule: cache_step.cases)
  case (confirm xs g ys now)
  have wf: "cache_wf (sy_cache s)" using assms(2) by (simp add: cache_sound_def)
  have "sy_exists s \<or> sy_deleting s > 0 \<or> cached (record_present now t ttl g (sy_cache s)) t = None"
    if "sy_invalidations s < 2 ^ 64"
  proof (rule ccontr)
    assume a: "\<not> ?thesis"
    then obtain x where "cached (record_present now t ttl g (sy_cache s)) t = Some x" by auto
    from cached_record [OF wf this] show False
      using a assms(2) confirm(2) that by (auto simp: cache_sound_def)
  qed
  then show ?thesis
    using assms(2) confirm by (auto simp: cache_sound_def cache_wf_record)
next
  case (other t' now g)
  have wf: "cache_wf (sy_cache s)" using assms(2) by (simp add: cache_sound_def)
  have "cached (record_present now t' ttl g (sy_cache s)) t = None" if "cached (sy_cache s) t = None"
  proof (rule ccontr)
    assume "cached (record_present now t' ttl g (sy_cache s)) t \<noteq> None"
    then obtain x where "cached (record_present now t' ttl g (sy_cache s)) t = Some x" by auto
    from cached_record [OF wf this] show False
      using that other(2) by (auto simp: other_target_def)
  qed
  then show ?thesis
    using assms(2) other by (auto simp: cache_sound_def cache_wf_record)
next
  case (invalidate n)
  then show ?thesis
    using assms(2) invalidated_sound [OF assms(2)] by (simp add: cache_sound_def cache_wf_invalidate)
next
  case (invalidate_other tn i)
  then show ?thesis
    using assms(2) invalidated_sound [OF assms(2)] by (auto simp: cache_sound_def cache_wf_invalidate)
qed (fastforce simp: cache_sound_def)+

lemma cache_sound_reachable:
  "(cache_step t ttl)\<^sup>*\<^sup>* (cache_system_init b) s \<Longrightarrow> cache_sound t s"
  by (induction rule: rtranclp_induct) (auto intro: cache_sound_init cache_sound_step)

end
