(* ===== verification/Delivery_Memory.thy ===== *)
theory Delivery_Memory
  imports Delivery_Trace Config_Cache
begin

text \<open>
  The delivery loop returns, and makes at most \<open>max_attempts\<close> POSTs, in every world whose store
  counts attempts: the locale \<open>counting_world\<close>. A \<open>u32\<close> count saturates at \<open>2 ^ 32 - 1\<close>, which no
  \<open>max_attempts\<close> exceeds.

  The worker on the in-memory store: a world whose claims, attempts and outcomes are those of
  \<open>Push_Claims\<close>, whose existence check is \<open>gone\<close> on the store's configs and tasks, and in which
  other workers call the store while this one sleeps. DNS answers, responses and random numbers
  are functions of a tick count. It interprets the counting contract.
\<close>

locale counting_world =
  fixes W :: "'w world" and cnt :: "'w \<Rightarrow> nat"
  assumes now_mono: "w_now W w = (t, w') \<Longrightarrow> cnt w \<le> cnt w'"
    and random_mono: "w_random W d w = (x, w') \<Longrightarrow> cnt w \<le> cnt w'"
    and sleep_mono: "cnt w \<le> cnt (w_sleep W b w)"
    and lookup_mono: "w_lookup W = Some look \<Longrightarrow> look w = (y, w') \<Longrightarrow> cnt w \<le> cnt w'"
    and resolve_mono: "w_resolve W w = (ips, w') \<Longrightarrow> cnt w \<le> cnt w'"
    and post_mono: "w_post W ip w = (r, w') \<Longrightarrow> cnt w \<le> cnt w'"
    and outcome_mono: "w_outcome W c g oc w = (u, w') \<Longrightarrow> cnt w \<le> cnt w'"
    and claim_counts: "w_claim W w = (Inr cl, w') \<Longrightarrow> dc_delivery_attempt_count cl \<le> cnt w'"
    and start_counts: "w_start W c g w = (Inr n, w') \<Longrightarrow>
        n \<le> cnt w' \<and> (cnt w < n \<or> 2 ^ 32 - 1 \<le> n)"
begin

lemma backoff_mono: "backoff_for W cfg n w = (b, w') \<Longrightarrow> cnt w \<le> cnt w'"
  by (auto simp: backoff_for_def Let_def dest: random_mono split: prod.splits if_splits)

lemma gave_up_mono: "gave_up W cfg reason e h w = (oc, w') \<Longrightarrow> cnt w \<le> cnt w'"
  by (auto simp: gave_up_def dest: now_mono split: prod.splits)

lemma retry_mono: "retry_outcome W cfg n h e w = (oc, w') \<Longrightarrow> cnt w \<le> cnt w'"
  by (auto simp: retry_outcome_def dest!: now_mono backoff_mono split: prod.splits)

lemma classify_mono: "classify W cfg n result w = (oc, w') \<Longrightarrow> cnt w \<le> cnt w'"
  by (auto simp: classify_def dest: gave_up_mono retry_mono split: sum.splits if_splits)

lemma lookup_gone_mono: "lookup_gone W w = (x, w') \<Longrightarrow> cnt w \<le> cnt w'"
  by (auto simp: lookup_gone_def dest: lookup_mono split: option.splits)

lemma ssrf_mono: "ssrf_check W cfg v u w = (d, w') \<Longrightarrow> cnt w \<le> cnt w'"
  by (auto simp: ssrf_check_def dest: resolve_mono split: sum.splits prod.splits)

lemma after_post_continue:
  assumes "after_post W cfg c n result w = (Continue k, w')"
  shows "k = n \<and> n < max_attempts cfg \<and> cnt w \<le> cnt w'"
proof -
  obtain oc w1 where c1: "classify W cfg n result w = (oc, w1)" by fastforce
  then obtain t h e where oc: "oc = OutRetry t h e"
    using assms by (auto simp: after_post_def split: delivery_outcome.splits prod.splits)
  obtain rt w2 where r: "retry_outcome W cfg n h e w1 = (rt, w2)" by fastforce
  obtain x w3 where x: "w_outcome W (dc_claimant c) (dc_generation c) rt w2 = (x, w3)" by fastforce
  have n: "n < max_attempts cfg"
    using assms c1 oc r x by (auto simp: after_post_def split: prod.splits if_splits)
  obtain b w4 where b: "backoff_for W cfg n w3 = (b, w4)" by fastforce
  have "k = n" "w' = w_sleep W b w4"
    using assms c1 oc r x b n by (simp_all add: after_post_def)
  moreover have "cnt w \<le> cnt w1" "cnt w1 \<le> cnt w2" "cnt w2 \<le> cnt w3" "cnt w3 \<le> cnt w4"
    "cnt w4 \<le> cnt (w_sleep W b w4)"
    using classify_mono [OF c1] retry_mono [OF r] outcome_mono [OF x] backoff_mono [OF b] sleep_mono
    by auto
  ultimately show ?thesis using n by simp
qed

lemma step_continue:
  assumes "deliver_step W cfg v u c n w = (Continue k, w')"
    and "n \<le> cnt w" and "max_attempts cfg < 2 ^ 32"
  shows "n < k \<and> k < max_attempts cfg \<and> k \<le> cnt w'"
proof -
  have budget: "\<not> max_attempts cfg \<le> n"
    using assms(1) by (auto simp: deliver_step_def split: prod.splits)
  obtain go w1 where l: "lookup_gone W w = (go, w1)" by fastforce
  have go: "go = None"
    using assms(1) budget l by (cases go) (auto simp: deliver_step_def split: prod.splits)
  obtain d w2 where s: "ssrf_check W cfg v u w1 = (d, w2)" by fastforce
  obtain ip where d: "d = Allow ip"
    using assms(1) budget l go s
    by (cases d) (auto simp: deliver_step_def split: prod.splits if_splits)
  obtain x w3 where x: "w_start W (dc_claimant c) (dc_generation c) w2 = (x, w3)" by fastforce
  obtain m where m: "x = Inr m"
    using assms(1) budget l go s d x by (cases x) (auto simp: deliver_step_def)
  obtain r w4 where r: "w_post W ip w3 = (r, w4)" by fastforce
  have a: "after_post W cfg c m r w4 = (Continue k, w')"
    using assms(1) budget l go s d x m r by (simp add: deliver_step_def)
  from after_post_continue [OF a] have k: "k = m" "m < max_attempts cfg" "cnt w4 \<le> cnt w'" by auto
  have "n \<le> cnt w2" using assms(2) lookup_gone_mono [OF l] ssrf_mono [OF s] by simp
  moreover have "m \<le> cnt w3" "cnt w2 < m \<or> 2 ^ 32 - 1 \<le> m"
    using start_counts x m by auto
  moreover have "cnt w3 \<le> cnt w4" using post_mono [OF r] .
  ultimately show ?thesis using k assms(3) by auto
qed

theorem loop_returns:
  assumes "n \<le> cnt w" and "max_attempts cfg < 2 ^ 32" and "max_attempts cfg - n < fuel"
  shows "\<exists>rep w'. deliver_loop fuel W cfg v u c n w = Some (rep, w')"
  using assms(1,3)
proof (induction fuel arbitrary: n w)
  case (Suc fuel)
  obtain res w1 where s: "deliver_step W cfg v u c n w = (res, w1)" by fastforce
  show ?case
  proof (cases res)
    case (Return rep)
    with s show ?thesis by simp
  next
    case (Continue k)
    with s step_continue [of cfg v u c n w k w1] Suc.prems(1) assms(2)
    have k: "n < k" "k < max_attempts cfg" "k \<le> cnt w1" by auto
    then have "max_attempts cfg - k < fuel" using Suc.prems(2) by linarith
    with Suc.IH [OF k(3)] s Continue show ?thesis by simp
  qed
qed simp

lemma traced_counting: "counting_world (traced W) (\<lambda>(w, tr). cnt w)"
  by unfold_locales
    (auto simp: traced_def split: prod.splits
      dest: now_mono random_mono lookup_mono resolve_mono post_mono outcome_mono claim_counts
        start_counts intro: sleep_mono)

theorem loop_posts:
  assumes "deliver_loop fuel (traced W) cfg v u c n (w, tr) = Some (rep, w', tr')"
    and "n \<le> cnt w" and "max_attempts cfg < 2 ^ 32"
  shows "\<exists>seg. tr' = tr @ seg \<and> posts seg \<le> max_attempts cfg - n"
  using assms(1,2)
proof (induction fuel arbitrary: n w tr)
  case (Suc fuel)
  obtain res w1 tr1 where s: "deliver_step (traced W) cfg v u c n (w, tr) = (res, w1, tr1)"
    by (metis prod.exhaust)
  from deliver_step_traced [OF this] obtain seg where seg: "tr1 = tr @ seg"
      "posts seg = 0 \<or> posts seg = 1 \<and> n < max_attempts cfg" by auto
  show ?case
  proof (cases res)
    case (Return rep0)
    with s Suc.prems have "tr1 = tr'" by auto
    with seg show ?thesis by auto
  next
    case (Continue k)
    have k: "n < k" "k < max_attempts cfg" "k \<le> cnt w1"
      using counting_world.step_continue [OF traced_counting s [unfolded Continue] _ assms(3)]
        Suc.prems(2) by auto
    have "deliver_loop fuel (traced W) cfg v u c k (w1, tr1) = Some (rep, w', tr')"
      using s Suc.prems(1) Continue by simp
    from Suc.IH [OF this k(3)] obtain seg' where "tr' = tr1 @ seg'" "posts seg' \<le> max_attempts cfg - k"
      by auto
    with seg k show ?thesis by auto
  qed
qed simp

theorem deliver_returns:
  assumes "max_attempts cfg < 2 ^ 32" and "max_attempts cfg < fuel"
  shows "\<exists>rep w'. deliver fuel W cfg v target len w = Some (rep, w')"
proof -
  obtain x w1 where c: "worker_claim W w = (x, w1)" by fastforce
  show ?thesis
  proof (cases "max_payload_bytes cfg < len")
    case True
    obtain oc w2 where g: "gave_up W cfg PayloadTooLarge ErrPayloadTooLarge None w1 = (oc, w2)"
      by fastforce
    obtain rep w3 where p: "\<And>cl. x = Inr cl \<Longrightarrow> persist_terminal W cl oc w2 = (rep, w3)"
      by (cases x; force)
    show ?thesis using True c g p by (cases x) (auto simp: deliver_def)
  next
    case False
    show ?thesis
    proof (cases x)
      case (Inl e)
      then show ?thesis using False c by (cases e) (auto simp: deliver_def)
    next
      case (Inr cl)
      then have "w_claim W w = (Inr cl, w1)"
        using c by (auto simp: worker_claim_def split: sum.splits prod.splits)
      from claim_counts [OF this] loop_returns [OF _ assms(1), of "dc_delivery_attempt_count cl" w1 fuel]
      show ?thesis using False c Inr assms(2) by (auto simp: deliver_def)
    qed
  qed
qed

theorem deliver_posts:
  assumes "deliver fuel (traced W) cfg v target len (w, []) = Some (rep, w', tr)"
    and "max_attempts cfg < 2 ^ 32"
  shows "posts tr \<le> max_attempts cfg"
proof -
  obtain x w1 where c: "worker_claim W w = (x, w1)" by fastforce
  then have c': "worker_claim (traced W) (w, []) = (x, w1, [])" by (simp add: worker_claim_traced)
  show ?thesis
  proof (cases x)
    case (Inl e)
    then show ?thesis
      using assms c' by (cases e) (auto simp: deliver_def split: if_splits)
  next
    case (Inr cl)
    show ?thesis
    proof (cases "max_payload_bytes cfg < len")
      case True
      obtain oc w2 where g: "gave_up W cfg PayloadTooLarge ErrPayloadTooLarge None w1 = (oc, w2)" by fastforce
      then have "gave_up (traced W) cfg PayloadTooLarge ErrPayloadTooLarge None (w1, []) = (oc, w2, [])"
        by (simp add: gave_up_traced)
      then have p: "persist_terminal (traced W) cl oc (w2, [] @ []) = (rep, w', tr)"
        using assms c' Inr True by (simp add: deliver_def)
      have "\<forall>s. oc \<noteq> OutSucceeded s" using gave_up_outcome [OF g] by auto
      from persist_return [OF p this] show ?thesis by auto
    next
      case False
      then have l: "deliver_loop fuel (traced W) cfg v (pt_url target) cl (dc_delivery_attempt_count cl)
          (w1, []) = Some (rep, w', tr)"
        using assms c' Inr by (simp add: deliver_def)
      have "w_claim W w = (Inr cl, w1)"
        using c Inr by (auto simp: worker_claim_def split: sum.splits prod.splits)
      from loop_posts [OF l claim_counts [OF this] assms(2)] show ?thesis by auto
    qed
  qed
qed

end

section \<open>The worker on the in-memory store\<close>

record delivery_env =
  de_store :: store
  de_cache :: config_cache
  de_clock :: instant
  de_tick :: nat
  de_dns :: "nat \<Rightarrow> string + ip_addr list"
  de_http :: "ip_addr \<Rightarrow> nat \<Rightarrow> delivery_error_class + nat"
  de_random :: "nat \<Rightarrow> int"
  de_others :: "nat \<Rightarrow> push_delivery_key claim_call list"

definition tick :: "delivery_env \<Rightarrow> delivery_env" where
  "tick e = e\<lparr>de_tick := de_tick e + 1\<rparr>"

definition on_store ::
  "(store \<Rightarrow> ('a \<times> store)) \<Rightarrow> delivery_env \<Rightarrow> 'a \<times> delivery_env" where
  "on_store f e = (case f (de_store e) of (x, s) \<Rightarrow> (x, tick (e\<lparr>de_store := s\<rparr>)))"

definition memory_lookup ::
  "push_delivery_config \<Rightarrow> push_target \<Rightarrow> delivery_env \<Rightarrow> abandoned_reason option \<times> delivery_env" where
  "memory_lookup cfg t e =
     (case gone (de_clock e) (de_clock e) t (config_cache_ttl cfg)
        (get_config (pt_tenant t) (pt_task_id t) (pt_config_id t) (de_store e)) id
        (get_task (pt_tenant t) (pt_task_id t) (pt_owner t) (Some 0) (de_store e)) (de_cache e) of
      (x, c) \<Rightarrow> (x, tick (e\<lparr>de_cache := c\<rparr>)))"

definition memory_world ::
  "push_delivery_config \<Rightarrow> string \<Rightarrow> bool \<Rightarrow> push_target \<Rightarrow> delivery_env world" where
  "memory_world cfg instance_id with_lookup t = \<lparr>
     w_now = (\<lambda>e. (de_clock e, tick e)),
     w_random = (\<lambda>d e. (max (- d) (min d (de_random e (de_tick e))), tick e)),
     w_sleep = (\<lambda>d e. tick (e\<lparr>de_clock := de_clock e + d,
        de_store := foldl claim_step (de_store e) (de_others e (de_tick e))\<rparr>)),
     w_claim = (\<lambda>e. on_store (claim_delivery (de_clock e) (target_key t) instance_id (pt_owner t)
        (claim_expiry cfg)) e),
     w_lookup = (if with_lookup then Some (memory_lookup cfg t) else None),
     w_resolve = (\<lambda>e. (de_dns e (de_tick e), tick e)),
     w_start = (\<lambda>c g e. on_store (record_attempt_started (de_clock e) (target_key t) c g) e),
     w_post = (\<lambda>ip e. (de_http e ip (de_tick e), tick e)),
     w_outcome = (\<lambda>c g oc e. on_store (record_delivery_outcome (de_clock e) (target_key t) c g oc) e)\<rparr>"

definition env_count :: "push_target \<Rightarrow> delivery_env \<Rightarrow> nat" where
  "env_count t e = (case claim_of (de_store e) (target_key t) of
       Some r \<Rightarrow> cl_delivery_attempt_count r | None \<Rightarrow> 0)"

lemma env_count_tick [simp]: "env_count t (tick e) = env_count t e"
  by (simp add: env_count_def tick_def)

lemma env_count_calls:
  "env_count t e \<le> env_count t (e\<lparr>de_clock := x, de_store := foldl claim_step (de_store e) cs\<rparr>)"
proof (cases "claim_of (de_store e) (target_key t)")
  case None
  then show ?thesis by (simp add: env_count_def)
next
  case (Some r)
  from mem.count_monotone [OF this, of cs] Some show ?thesis
    by (auto simp: env_count_def)
qed

interpretation memory: counting_world "memory_world cfg instance_id with_lookup t" "env_count t"
  for cfg :: push_delivery_config and instance_id :: string and with_lookup :: bool and t :: push_target
proof
  fix e e' :: delivery_env and c g oc u n x y gone cl
  let ?W = "memory_world cfg instance_id with_lookup t"
  show "w_now ?W e = (n, e') \<Longrightarrow> env_count t e \<le> env_count t e'" for n
    by (auto simp: memory_world_def)
  show "w_random ?W x e = (y, e') \<Longrightarrow> env_count t e \<le> env_count t e'" for x y
    by (auto simp: memory_world_def)
  show "env_count t e \<le> env_count t (w_sleep ?W b e)" for b
    using env_count_calls [of t e] by (simp add: memory_world_def)
  show "w_lookup ?W = Some gone \<Longrightarrow> gone e = (y, e') \<Longrightarrow> env_count t e \<le> env_count t e'" for y
    by (auto simp: memory_world_def memory_lookup_def env_count_def tick_def split: if_splits prod.splits)
  show "w_resolve ?W e = (y, e') \<Longrightarrow> env_count t e \<le> env_count t e'" for y
    by (auto simp: memory_world_def)
  show "w_post ?W ip e = (y, e') \<Longrightarrow> env_count t e \<le> env_count t e'" for ip y
    by (auto simp: memory_world_def)
  show "w_outcome ?W c g oc e = (u, e') \<Longrightarrow> env_count t e \<le> env_count t e'"
    by (auto simp: memory_world_def on_store_def env_count_def tick_def record_delivery_outcome_def
        split: prod.splits option.splits if_splits)
  show "w_claim ?W e = (Inr cl, e') \<Longrightarrow> dc_delivery_attempt_count cl \<le> env_count t e'"
  proof -
    assume "w_claim ?W e = (Inr cl, e')"
    then obtain s' where "claim_delivery (de_clock e) (target_key t) instance_id (pt_owner t)
        (claim_expiry cfg) (de_store e) = (Inr cl, s')" "e' = tick (e\<lparr>de_store := s'\<rparr>)"
      by (auto simp: memory_world_def on_store_def split: prod.splits)
    then show ?thesis
      by (elim claim_delivery_cases) (auto simp: env_count_def tick_def as_claim_def reclaimed_row_def fresh_claim_row_def)
  qed
  show "w_start ?W c g e = (Inr n, e') \<Longrightarrow>
      n \<le> env_count t e' \<and> (env_count t e < n \<or> 2 ^ 32 - 1 \<le> n)" for n
  proof -
    assume "w_start ?W c g e = (Inr n, e')"
    then obtain s' where "record_attempt_started (de_clock e) (target_key t) c g (de_store e) = (Inr n, s')"
        "e' = tick (e\<lparr>de_store := s'\<rparr>)"
      by (auto simp: memory_world_def on_store_def split: prod.splits)
    then show ?thesis
      by (elim record_attempt_cases) (auto simp: env_count_def tick_def sat_inc_u32_def split: if_splits)
  qed
qed

section \<open>A deleted target\<close>

text \<open>Without a cache, the check reports exactly what the stores say.\<close>

lemma gone_uncached:
  "fst (gone now1 now2 t 0 config_read env task_read c) =
     (if config_read = Inr None then Some ConfigDeleted
      else if task_read = Inr None then Some TaskDeleted else None)"
  by (auto simp: gone_def is_fresh_def Let_def split: sum.splits option.splits)

section \<open>A delivery run\<close>

text \<open>
  A small concrete world for the witnesses: a name that resolves to a private and to a public
  address, a store that accepts every call, and a receiver that answers \<open>first\<close> to the first
  POST and 200 to the later ones. Its state is the number of POSTs made.
\<close>

definition private_ip :: ip_addr where "private_ip = V4 (Ipv4 10 0 0 1)"
definition public_ip :: ip_addr where "public_ip = V4 (Ipv4 8 8 8 8)"

definition example_url :: url where
  "example_url = \<lparr>url_scheme = ''https'', url_host = Some ''hook'', url_port = None\<rparr>"

definition example_target :: push_target where
  "example_target = \<lparr>pt_tenant = ''t'', pt_owner = ''o'', pt_task_id = ''task'', pt_event_sequence = 1,
     pt_config_id = ''cfg'', pt_url = example_url,
     pt_auth_scheme = '''', pt_auth_credentials = '''', pt_token = None\<rparr>"

definition example_claim :: delivery_claim where
  "example_claim = \<lparr>dc_claimant = ''w'', dc_owner = ''o'', dc_generation = 1, dc_claimed_at = 0,
     dc_delivery_attempt_count = 0, dc_status = Pending\<rparr>"

definition example_world :: "nat \<Rightarrow> nat world" where
  "example_world first = \<lparr>
     w_now = (\<lambda>n. (0, n)), w_random = (\<lambda>d n. (0, n)), w_sleep = (\<lambda>d n. n),
     w_claim = (\<lambda>n. (Inr example_claim, n)), w_lookup = None,
     w_resolve = (\<lambda>n. (Inr [private_ip, public_ip], n)),
     w_start = (\<lambda>c g n. (Inr (Suc n), n)),
     w_post = (\<lambda>ip n. (Inr (if n = 0 then first else 200), Suc n)),
     w_outcome = (\<lambda>c g oc n. (Inr (), n))\<rparr>"

lemma example_pick: "pick_destination [private_ip, public_ip] False = Allow public_ip"
  by (simp add: pick_destination_def private_ip_def public_ip_def Let_def)

lemma example_check: "check_url example_url False None = Inr ()"
  by (simp add: check_url_Inr example_url_def)

lemmas deliver_defs = deliver_def worker_claim_def deliver_step_def lookup_gone_def ssrf_check_def
  after_post_def classify_def retry_outcome_def gave_up_def persist_terminal_def
  TERMINAL_PERSIST_MAX_ATTEMPTS_def numeral_3_eq_3 numeral_2_eq_2 Let_def

lemma example_ok:
  "deliver 1 (traced (example_world 200)) push_delivery_config_default None example_target 10 (0, []) =
     Some (RepSucceeded 200, 1, [ActResolve (Inr [private_ip, public_ip]), ActStart (Inr 1),
       ActPost public_ip (Inr 200), ActOutcome (OutSucceeded 200) (Inr ())])"
  by (simp add: deliver_defs traced_def example_world_def example_target_def example_claim_def
      push_delivery_config_default_def example_pick example_check)

end
