(* ===== verification/Cleanup.thy ===== *)
theory Cleanup
  imports Push_Claims
begin

text \<open>
  \<open>cleanup_expired\<close> of the in-memory store: failed deliveries past their retention, terminal
  tasks past the task TTL, events past the event TTL, the last two in batches. The locks are
  released between batches; the model runs the batches back to back. Each loop equals one
  filter, so the batch size never shows in the result.
\<close>

section \<open>What is expired\<close>

definition claim_expired :: "instant \<Rightarrow> stored_delivery_claim \<Rightarrow> bool" where
  "claim_expired now r \<longleftrightarrow> cl_status r = GaveUp \<and> cl_expires_at r < now"

definition task_expired :: "instant \<Rightarrow> nat \<Rightarrow> stored_task \<Rightarrow> bool" where
  "task_expired now ttl r \<longleftrightarrow> row_terminal r \<and>
     (case epoch_secs (s_updated_at r) of Some t \<Rightarrow> now div nanos_per_sec - t \<ge> ttl | None \<Rightarrow> False)"

definition event_expired :: "instant \<Rightarrow> nat \<Rightarrow> nat \<times> stream_event \<times> instant \<Rightarrow> bool" where
  "event_expired now ttl e \<longleftrightarrow> (case e of (_, _, at) \<Rightarrow> at \<le> now \<and> now - at \<ge> ttl * nanos_per_sec)"

section \<open>The task loop\<close>

lemma length_hm_remove_less: "k \<in> fst ` set m \<Longrightarrow> length (hm_remove k m) < length m"
  by (auto simp: hm_remove_def AList.delete_eq intro: length_filter_less)

lemma length_hm_remove_le: "length (hm_remove k m) \<le> length m"
  by (simp add: hm_remove_def AList.delete_eq)

lemma length_fold_remove_le: "length (fold hm_remove ks m) \<le> length m"
  by (induction ks arbitrary: m) (auto intro: order_trans length_hm_remove_le)

lemma length_fold_remove_less:
  assumes "k \<in> fst ` set m"
  shows "length (fold hm_remove (k # ks) m) < length m"
  using length_fold_remove_le [of ks "hm_remove k m"] length_hm_remove_less [OF assms] by simp

function reap_tasks ::
  "retention_config \<Rightarrow> (stored_task \<Rightarrow> bool) \<Rightarrow> (task_key, stored_task) hashmap \<Rightarrow>
   (task_key, stored_task) hashmap \<times> nat" where
  "reap_tasks rc P m =
     (let batch = retention_batch rc;
          expired = take batch (map fst (filter (\<lambda>(_, r). P r) m));
          n = length expired;
          m' = fold hm_remove expired m
      in if n < batch then (m', n)
         else (case reap_tasks rc P m' of (m'', k) \<Rightarrow> (m'', n + k)))"
  by pat_completeness auto
termination
proof (relation "measure (\<lambda>(rc, P, m). length m)")
  fix rc P and m :: "(task_key, stored_task) hashmap" and batch expired n m'
  assume eqs: "batch = retention_batch rc" "expired = take batch (map fst (filter (\<lambda>(_, r). P r) m))"
    "n = length expired" "m' = fold hm_remove expired m" and "\<not> n < batch"
  then have "expired \<noteq> []" using retention_batch_pos [of rc] by auto
  then obtain k ks where e: "expired = k # ks" by (cases expired) auto
  have "set expired \<subseteq> fst ` set m" unfolding eqs(2) by (force dest: in_set_takeD)
  with e have "k \<in> fst ` set m" by auto
  then show "((rc, P, m'), rc, P, m) \<in> measure (\<lambda>(rc, P, m). length m)"
    using length_fold_remove_less [of k m ks] eqs(4) e by simp
qed simp

declare reap_tasks.simps [simp del]

section \<open>The event loop\<close>

text \<open>
  The inner \<open>while\<close> over one log: drop expired entries until the budget is spent. It returns
  the log, the number dropped, and whether it spent the budget.
\<close>

fun scan_log :: "('e \<Rightarrow> bool) \<Rightarrow> nat \<Rightarrow> 'e list \<Rightarrow> 'e list \<times> nat \<times> bool" where
  "scan_log X budget [] = ([], 0, False)"
| "scan_log X budget (e # es) =
     (if X e
      then if budget \<le> 1 then (es, 1, True)
           else (case scan_log X (budget - 1) es of (es', k, hit) \<Rightarrow> (es', k + 1, hit))
      else (case scan_log X budget es of (es', k, hit) \<Rightarrow> (e # es', k, hit)))"

text \<open>The outer scan: the logs, the number dropped, the keys whose scanned log is empty.\<close>

fun scan_logs ::
  "('e \<Rightarrow> bool) \<Rightarrow> nat \<Rightarrow> ('k \<times> 'e list) list \<Rightarrow> ('k \<times> 'e list) list \<times> nat \<times> 'k list" where
  "scan_logs X budget [] = ([], 0, [])"
| "scan_logs X budget ((key, log) # rest) =
     (case scan_log X budget log of (log', k, hit) \<Rightarrow>
        (let emptied = (if log' = [] then [key] else [])
         in if hit then ((key, log') # rest, k, emptied)
            else (case scan_logs X (budget - k) rest of
                (rest', k', emptied') \<Rightarrow> ((key, log') # rest', k + k', emptied @ emptied'))))"

definition remove_emptied :: "'k list \<Rightarrow> ('k, 'e list) hashmap \<Rightarrow> ('k, 'e list) hashmap" where
  "remove_emptied ks m = fold (\<lambda>k m. if hm_get m k = Some [] then hm_remove k m else m) ks m"

definition log_total :: "('k \<times> 'e list) list \<Rightarrow> nat" where
  "log_total m = sum_list (map (\<lambda>(_, log). length log) m)"

lemma scan_log_length: "scan_log X b es = (es', k, hit) \<Longrightarrow> length es = length es' + k"
  by (induction X b es arbitrary: es' k rule: scan_log.induct) (auto split: if_splits prod.splits)

lemma scan_logs_total: "scan_logs X b m = (m', k, ks) \<Longrightarrow> log_total m = log_total m' + k"
  by (induction X b m arbitrary: m' k ks rule: scan_logs.induct)
    (auto simp: log_total_def Let_def dest!: scan_log_length split: if_splits prod.splits)

lemma log_total_remove: "log_total (hm_remove k m) \<le> log_total m"
  by (induction m) (auto simp: log_total_def hm_remove_def)

lemma log_total_remove_emptied: "log_total (remove_emptied ks m) \<le> log_total m"
  unfolding remove_emptied_def
  by (induction ks arbitrary: m) (auto intro: order_trans log_total_remove)

function reap_events ::
  "retention_config \<Rightarrow> (nat \<times> stream_event \<times> instant \<Rightarrow> bool) \<Rightarrow> (event_key, event_log) hashmap \<Rightarrow>
   (event_key, event_log) hashmap \<times> nat" where
  "reap_events rc X m =
     (let batch = retention_batch rc
      in case scan_logs X batch m of (m1, n, emptied) \<Rightarrow>
           (let m2 = remove_emptied emptied m1
            in if n < batch then (m2, n)
               else (case reap_events rc X m2 of (m3, k) \<Rightarrow> (m3, n + k))))"
  by pat_completeness auto
termination
proof (relation "measure (\<lambda>(rc, X, m). log_total m)")
  fix rc X and m m2 m1 :: "(event_key, event_log) hashmap" and batch n q emptied
  assume "batch = retention_batch rc" "(m1, q) = scan_logs X batch m" "(n, emptied) = q"
    "m2 = remove_emptied emptied m1" "\<not> n < batch"
  then show "((rc, X, m2), rc, X, m) \<in> measure (\<lambda>(rc, X, m). log_total m)"
    using scan_logs_total [of X batch m m1 n emptied] log_total_remove_emptied [of emptied m1]
      retention_batch_pos [of rc] by (simp del: retention_batch_pos)
qed simp

declare reap_events.simps [simp del]

section \<open>\<open>cleanup_expired\<close>\<close>

definition cleanup_expired :: "instant \<Rightarrow> store \<Rightarrow> nat store_result" where
  "cleanup_expired now s =
     (let rc = retention s;
          claims = hm_retain (\<lambda>_ r. \<not> claim_expired now r) (push_delivery_claims s);
          removed = length (push_delivery_claims s) - length claims;
          s1 = s\<lparr>push_delivery_claims := claims\<rparr>
      in if rc_task_ttl_seconds rc = 0 \<and> rc_event_ttl_seconds rc = 0 then (Inr removed, s1)
         else (let (m, n) = (if rc_task_ttl_seconds rc > 0
                  then reap_tasks rc (task_expired now (rc_task_ttl_seconds rc)) (tasks s1)
                  else (tasks s1, 0));
                   (ev, k) = (if rc_event_ttl_seconds rc > 0
                  then reap_events rc (event_expired now (rc_event_ttl_seconds rc)) (events s1)
                  else (events s1, 0))
               in (Inr (removed + n + k), s1\<lparr>tasks := m, events := ev\<rparr>)))"

section \<open>The task loop is one filter\<close>

lemma fold_remove_eq: "fold hm_remove ks m = filter (\<lambda>(k, v). k \<notin> set ks) m"
proof (induction ks arbitrary: m)
  case (Cons k ks)
  then show ?case
    by (simp add: hm_remove_def AList.delete_eq) (auto intro: filter_cong)
qed (simp add: filter_True split_beta')

lemma distinct_drop_filter:
  assumes "distinct xs"
  shows "filter (\<lambda>x. x \<notin> set (take n xs)) xs = drop n xs"
proof -
  have "filter (\<lambda>x. x \<notin> set (take n xs)) (take n xs @ drop n xs) = drop n xs"
    using set_take_disj_set_drop_if_distinct [OF assms, of n n]
    by (subst filter_append) (auto simp: filter_empty_conv intro!: filter_True)
  then show ?thesis by simp
qed

lemma one_batch:
  fixes m :: "('k \<times> 'v) list"
  assumes "hm_wf m" and E_def: "E = filter (\<lambda>(_, r). P r) m"
  shows "hm_wf (fold hm_remove (map fst (take b E)) m)"
    and "hm_retain (\<lambda>_ r. \<not> P r) (fold hm_remove (map fst (take b E)) m) = hm_retain (\<lambda>_ r. \<not> P r) m"
    and "filter (\<lambda>(_, r). P r) (fold hm_remove (map fst (take b E)) m) = drop b E"
proof -
  have inj: "e = e'" if "e \<in> set m" "e' \<in> set m" "fst e = fst e'" for e e'
    using assms(1) that by (auto simp: hm_wf_def distinct_map inj_on_def)
  have sub: "set (take b E) \<subseteq> set m" by (auto simp: E_def dest: in_set_takeD)
  have eq: "fold hm_remove (map fst (take b E)) m = filter (\<lambda>e. e \<notin> set (take b E)) m"
  proof -
    have "(case e of (k, v) \<Rightarrow> k \<notin> set (map fst (take b E))) = (e \<notin> set (take b E))"
      if "e \<in> set m" for e
    proof -
      have "fst e \<in> fst ` set (take b E) \<longleftrightarrow> e \<in> set (take b E)"
        using inj sub that by blast
      then show ?thesis by (simp add: split_beta)
    qed
    then show ?thesis unfolding fold_remove_eq by (intro filter_cong refl) simp
  qed
  show "hm_wf (fold hm_remove (map fst (take b E)) m)"
    using assms(1) unfolding eq by (simp add: hm_wf_def distinct_map_filter)
  have P: "P (snd e)" if "e \<in> set (take b E)" for e
    using that by (force simp: E_def dest: in_set_takeD)
  show "hm_retain (\<lambda>_ r. \<not> P r) (fold hm_remove (map fst (take b E)) m) = hm_retain (\<lambda>_ r. \<not> P r) m"
    unfolding eq hm_retain_def filter_filter using P by (intro filter_cong) auto
  have "distinct m" using assms(1) by (simp add: hm_wf_def distinct_map)
  then have "distinct E" by (simp add: E_def)
  have "filter (\<lambda>(_, r). P r) (filter (\<lambda>e. e \<notin> set (take b E)) m) = filter (\<lambda>e. e \<notin> set (take b E)) E"
    by (simp add: E_def conj_commute)
  then show "filter (\<lambda>(_, r). P r) (fold hm_remove (map fst (take b E)) m) = drop b E"
    unfolding eq by (simp only: distinct_drop_filter [OF \<open>distinct E\<close>])
qed

lemma hm_retain_none: "filter (\<lambda>(_, r). P r) m = [] \<Longrightarrow> hm_retain (\<lambda>_ r. \<not> P r) m = m"
  by (auto simp: hm_retain_def filter_empty_conv intro!: filter_True)

theorem reap_tasks_eq:
  assumes "hm_wf m"
  shows "reap_tasks rc P m = (hm_retain (\<lambda>_ r. \<not> P r) m, length (filter (\<lambda>(_, r). P r) m))"
  using assms
proof (induction rc P m rule: reap_tasks.induct)
  case (1 rc P m)
  let ?b = "retention_batch rc" and ?E = "filter (\<lambda>(_, r). P r) m"
  let ?m = "fold hm_remove (map fst (take ?b ?E)) m"
  note batch = one_batch [OF "1.prems" refl, where P = P and b = ?b]
  have step: "reap_tasks rc P m = (if length (take ?b ?E) < ?b then (?m, length (take ?b ?E))
      else (case reap_tasks rc P ?m of (m'', k) \<Rightarrow> (m'', length (take ?b ?E) + k)))"
    by (subst reap_tasks.simps) (simp add: Let_def take_map)
  show ?case
  proof (cases "length (take ?b ?E) < ?b")
    case True
    then have d: "drop ?b ?E = []" and tk: "take ?b ?E = ?E" by auto
    from batch(3) d have "filter (\<lambda>(_, r). P r) ?m = []" by (simp only:)
    then have "hm_retain (\<lambda>_ r. \<not> P r) ?m = ?m" by (rule hm_retain_none)
    with batch(2) have "?m = hm_retain (\<lambda>_ r. \<not> P r) m" by (simp only:)
    moreover have "reap_tasks rc P m = (?m, length ?E)" using step True tk by (simp only: if_True)
    ultimately show ?thesis by (simp only:)
  next
    case False
    have "reap_tasks rc P ?m = (hm_retain (\<lambda>_ r. \<not> P r) ?m, length (filter (\<lambda>(_, r). P r) ?m))"
      using "1.IH" [OF refl refl refl refl] False batch(1) by (simp only: take_map length_map not_False_eq_True)
    moreover have "length ?E = length (take ?b ?E) + length (drop ?b ?E)"
      by (metis append_take_drop_id length_append)
    ultimately show ?thesis
      using batch(2,3) step False by (simp only: if_False prod.case)
  qed
qed

section \<open>The event loop is one filter\<close>

lemma scan_log_spec:
  assumes "scan_log X b es = (es', k, hit)" and "0 < b"
  shows "filter (\<lambda>e. \<not> X e) es' = filter (\<lambda>e. \<not> X e) es \<and> k \<le> b \<and> (hit \<longleftrightarrow> k = b) \<and>
    (\<not> hit \<longrightarrow> (\<forall>e \<in> set es'. \<not> X e))"
  using assms
proof (induction X b es arbitrary: es' k hit rule: scan_log.induct)
  case (2 X b e es)
  show ?case
  proof (cases "X e")
    case False
    obtain es1 k1 h1 where r: "scan_log X b es = (es1, k1, h1)" by (metis prod.exhaust)
    have res: "es' = e # es1" "k = k1" "hit = h1" using False "2.prems"(1) r by simp_all
    from "2.IH"(2) [OF False r "2.prems"(2)] False show ?thesis unfolding res by simp
  next
    case True
    show ?thesis
    proof (cases "b \<le> 1")
      case True
      with \<open>X e\<close> "2.prems" show ?thesis by auto
    next
      case False
      obtain es1 k1 h1 where r: "scan_log X (b - 1) es = (es1, k1, h1)" by (metis prod.exhaust)
      have "0 < b - 1" using False by simp
      have res: "es' = es1" "k = k1 + 1" "hit = h1" using True False "2.prems"(1) r by simp_all
      from "2.IH"(1) [OF \<open>X e\<close> False r \<open>0 < b - 1\<close>] \<open>X e\<close> False show ?thesis unfolding res by auto
    qed
  qed
qed simp

definition same_live :: "('e \<Rightarrow> bool) \<Rightarrow> 'k \<times> 'e list \<Rightarrow> 'k \<times> 'e list \<Rightarrow> bool" where
  "same_live X a b \<longleftrightarrow> fst a = fst b \<and>
     filter (\<lambda>e. \<not> X e) (snd a) = filter (\<lambda>e. \<not> X e) (snd b)"

lemma same_live_Pair [simp]:
  "same_live X (a, l) (a', l') \<longleftrightarrow> a = a' \<and> filter (\<lambda>e. \<not> X e) l = filter (\<lambda>e. \<not> X e) l'"
  by (simp add: same_live_def)

lemma same_live_refl: "list_all2 (same_live X) m m"
  by (simp add: list_all2_refl same_live_def)

lemma scan_logs_spec:
  assumes "scan_logs X b m = (m', k, ks)" and "0 < b"
  shows "list_all2 (same_live X) m m' \<and> k \<le> b \<and>
    (k < b \<longrightarrow> (\<forall>(a, l) \<in> set m'. (\<forall>e \<in> set l. \<not> X e) \<and> (l = [] \<longrightarrow> a \<in> set ks)))"
  using assms
proof (induction X b m arbitrary: m' k ks rule: scan_logs.induct)
  case (2 X b key log rest)
  obtain log' k1 hit where s: "scan_log X b log = (log', k1, hit)" by (metis prod.exhaust)
  note spec = scan_log_spec [OF s "2.prems"(2)]
  show ?case
  proof (cases hit)
    case True
    with s "2.prems"(1) spec show ?thesis
      by (auto simp: Let_def same_live_refl)
  next
    case False
    obtain rest' k2 ks2 where r: "scan_logs X (b - k1) rest = (rest', k2, ks2)" by (metis prod.exhaust)
    have "0 < b - k1" using spec False "2.prems"(2) by simp
    from "2.IH" [OF s [symmetric] refl refl False r this]
    have IH: "list_all2 (same_live X) rest rest'" "k2 \<le> b - k1"
      "k2 < b - k1 \<longrightarrow> (\<forall>(a, l) \<in> set rest'. (\<forall>e \<in> set l. \<not> X e) \<and> (l = [] \<longrightarrow> a \<in> set ks2))"
      by auto
    have res: "m' = (key, log') # rest'" "k = k1 + k2" "ks = (if log' = [] then [key] else []) @ ks2"
      using s r False "2.prems"(1) by (auto simp: Let_def)
    show ?thesis
      using spec False IH \<open>0 < b - k1\<close> unfolding res by fastforce
  qed
qed simp

text \<open>The log of a key, empty when the key is absent.\<close>

definition get_log :: "('k, 'e list) hashmap \<Rightarrow> 'k \<Rightarrow> 'e list" where
  "get_log m k = (case hm_get m k of Some l \<Rightarrow> l | None \<Rightarrow> [])"

lemma same_live_get:
  assumes "list_all2 (same_live X) m m'"
  shows "filter (\<lambda>e. \<not> X e) (get_log m' k) = filter (\<lambda>e. \<not> X e) (get_log m k)"
  using assms
  by (induction rule: list_all2_induct) (auto simp: get_log_def hm_get_def same_live_def)

lemma same_live_keys: "list_all2 (same_live X) m m' \<Longrightarrow> map fst m' = map fst m"
  by (induction rule: list_all2_induct) (auto simp: same_live_def)

lemma remove_emptied_get:
  "hm_get (remove_emptied ks m) k =
     (if k \<in> set ks \<and> hm_get m k = Some [] then None else hm_get m k)"
  unfolding remove_emptied_def
proof (induction ks arbitrary: m)
  case (Cons a ks)
  show ?case
    by (simp add: Cons.IH hm_simps)
qed simp

lemma remove_emptied_wf: "hm_wf m \<Longrightarrow> hm_wf (remove_emptied ks m)"
  unfolding remove_emptied_def by (induction ks arbitrary: m) (auto simp: hm_simps)

lemma remove_emptied_log [simp]: "get_log (remove_emptied ks m) k = get_log m k"
  by (auto simp: get_log_def remove_emptied_get)

theorem reap_events_spec:
  assumes "hm_wf m" and "reap_events rc X m = (m', n)"
  shows "hm_wf m' \<and> (\<forall>k. get_log m' k = filter (\<lambda>e. \<not> X e) (get_log m k) \<and> hm_get m' k \<noteq> Some [])"
  using assms
proof (induction rc X m arbitrary: m' n rule: reap_events.induct)
  case (1 rc X m)
  let ?b = "retention_batch rc"
  obtain m1 n1 ks where s: "scan_logs X ?b m = (m1, n1, ks)" by (metis prod.exhaust)
  note spec = scan_logs_spec [OF s retention_batch_pos]
  let ?m2 = "remove_emptied ks m1"
  have wf1: "hm_wf m1" using "1.prems"(1) same_live_keys [of X m m1] spec by (simp add: hm_wf_def)
  have wf2: "hm_wf ?m2" using wf1 by (rule remove_emptied_wf)
  have live: "filter (\<lambda>e. \<not> X e) (get_log ?m2 k) = filter (\<lambda>e. \<not> X e) (get_log m k)" for k
    using same_live_get [of X m m1 k] spec by simp
  show ?case
  proof (cases "n1 < ?b")
    case True
    then have "m' = ?m2"
      using "1.prems"(2) s by (subst (asm) reap_events.simps) (auto simp: Let_def)
    moreover have clean: "\<forall>(a, l) \<in> set m1. (\<forall>e \<in> set l. \<not> X e) \<and> (l = [] \<longrightarrow> a \<in> set ks)"
      using spec True by blast
    moreover have "filter (\<lambda>e. \<not> X e) (get_log m1 k) = get_log m1 k" for k
      using clean by (auto simp: get_log_def intro!: filter_True split: option.splits dest!: hm_get_in_set)
    moreover have "hm_get ?m2 k \<noteq> Some []" for k
      using clean hm_get_in_set [of m1 k "[]"] by (auto simp: remove_emptied_get)
    ultimately show ?thesis using wf2 live by (metis remove_emptied_log)
  next
    case False
    obtain m3 j where r: "reap_events rc X ?m2 = (m3, j)" by fastforce
    have "m' = m3"
      using "1.prems"(2) s r False by (subst (asm) reap_events.simps) (auto simp: Let_def)
    with "1.IH" [OF refl s [symmetric] refl refl _ wf2 r] False live show ?thesis by simp
  qed
qed

section \<open>What a cleanup leaves\<close>

lemma cleanup_tasks:
  assumes "hm_wf (tasks s)" and "cleanup_expired now s = (res, s')"
  shows "get_stored s' tn i = (case get_stored s tn i of
      Some r \<Rightarrow> if rc_task_ttl_seconds (retention s) > 0 \<and>
          task_expired now (rc_task_ttl_seconds (retention s)) r then None else Some r
    | None \<Rightarrow> None)"
  using assms reap_tasks_eq [OF assms(1)]
  by (auto simp: cleanup_expired_def Let_def get_stored_def hm_get_retain split: option.splits
      if_splits prod.splits)

lemma cleanup_logs:
  assumes "hm_wf (events s)" and "cleanup_expired now s = (res, s')"
  shows "log_of s' tn i = (if rc_event_ttl_seconds (retention s) > 0
      then filter (\<lambda>e. \<not> event_expired now (rc_event_ttl_seconds (retention s)) e) (log_of s tn i)
      else log_of s tn i)"
proof -
  have "get_log (events x) (tn, i) = log_of x tn i" for x
    by (simp add: get_log_def log_of_def)
  moreover have "get_log (events s') (tn, i) = (if rc_event_ttl_seconds (retention s) > 0
      then filter (\<lambda>e. \<not> event_expired now (rc_event_ttl_seconds (retention s)) e) (get_log (events s) (tn, i))
      else get_log (events s) (tn, i))"
  proof (cases "rc_event_ttl_seconds (retention s) > 0")
    case True
    obtain m n where r: "reap_events (retention s)
        (event_expired now (rc_event_ttl_seconds (retention s))) (events s) = (m, n)"
      by fastforce
    have "events s' = m"
      using assms(2) r True by (auto simp: cleanup_expired_def Let_def split: if_splits prod.splits)
    with reap_events_spec [OF assms(1) r] True show ?thesis by simp
  next
    case False
    then have "events s' = events s"
      using assms(2) by (auto simp: cleanup_expired_def Let_def split: if_splits prod.splits)
    with False show ?thesis by simp
  qed
  ultimately show ?thesis by simp
qed

lemma cleanup_frame:
  assumes "cleanup_expired now s = (res, s')"
  shows "event_counters s' = event_counters s" "push_configs s' = push_configs s"
    "pending_dispatches s' = pending_dispatches s" "retention s' = retention s"
    "push_dispatch_enabled s' = push_dispatch_enabled s"
    "push_delivery_claims s' = hm_retain (\<lambda>_ r. \<not> claim_expired now r) (push_delivery_claims s)"
  using assms by (auto simp: cleanup_expired_def Let_def split: if_splits prod.splits)

lemma task_expired_terminal: "task_expired now ttl r \<Longrightarrow> row_terminal r"
  by (simp add: task_expired_def)

end
