(* ===== verification/Store_List.thy ===== *)
theory Store_List
  imports Store_Atomic Paging
begin

text \<open>
  \<open>list_tasks\<close> of the in-memory store: filter, order by status time and id (both descending),
  cut the page the cursor names. It provides the paging contract.
\<close>

definition task_matches :: "chrono \<Rightarrow> task_filter \<Rightarrow> stored_task \<Rightarrow> bool" where
  "task_matches c f r \<longleftrightarrow>
     (case tf_tenant f of None \<Rightarrow> True | Some t \<Rightarrow> s_tenant r = t) \<and>
     (case tf_owner f of None \<Rightarrow> True | Some ow \<Rightarrow> s_owner r = ow) \<and>
     (case tf_context_id f of None \<Rightarrow> True | Some ctx \<Rightarrow> tk_context_id (s_task r) = ctx) \<and>
     (case tf_status f of None \<Rightarrow> True
      | Some st \<Rightarrow> (case task_state_of (s_task r) of None \<Rightarrow> True | Some st' \<Rightarrow> st' = st)) \<and>
     admits_status_time c f (s_task r)"

definition row_key :: "chrono \<Rightarrow> stored_task \<Rightarrow> string \<times> string" where
  "row_key c r = (task_sort_key c (s_task r), tk_id (s_task r))"

definition filtered_rows :: "chrono \<Rightarrow> task_filter \<Rightarrow> store \<Rightarrow> stored_task list" where
  "filtered_rows c f s = sort_desc (row_key c) (filter (task_matches c f) (hm_values (tasks s)))"

definition listed_task :: "task_filter \<Rightarrow> stored_task \<Rightarrow> pb_task" where
  "listed_task f r = strip_artifacts (trim_history (s_task r) (tf_history_length f))
     (case tf_include_artifacts f of None \<Rightarrow> False | Some b \<Rightarrow> b)"

definition list_tasks :: "chrono \<Rightarrow> task_filter \<Rightarrow> store \<Rightarrow> storage_error + task_list_page" where
  "list_tasks c f s = (case resolved_page_size f of
       Inl e \<Rightarrow> Inl e
     | Inr page_size \<Rightarrow>
         (case (case tf_page_token f of None \<Rightarrow> Inr None
                | Some token \<Rightarrow> (case decode_cursor c token of Inl e \<Rightarrow> Inl e | Inr k \<Rightarrow> Inr (Some k))) of
            Inl e \<Rightarrow> Inl e
          | Inr cursor \<Rightarrow>
              (let filtered = filtered_rows c f s;
                   total = as_i32 (int (length filtered));
                   start_idx = (case cursor of
                       Some k \<Rightarrow> (case position (\<lambda>r. row_key c r < k) filtered of
                           Some i \<Rightarrow> i | None \<Rightarrow> length filtered)
                     | None \<Rightarrow> 0);
                   end_idx = min (start_idx + nat page_size) (length filtered);
                   page = map (listed_task f) (take (end_idx - start_idx) (drop start_idx filtered));
                   next = (if end_idx < length filtered
                     then (let l = filtered ! (end_idx - 1)
                           in encode_cursor (task_sort_key c (s_task l)) (tk_id (s_task l)))
                     else '''')
               in Inr \<lparr>tlp_tasks = page, tlp_next_page_token = next, tlp_page_size = page_size,
                    tlp_total_size = total\<rparr>)))"

section \<open>What a page shows of a task\<close>

lemma strip_artifacts_frame [simp]:
  "tk_id (strip_artifacts t b) = tk_id t" "tk_status (strip_artifacts t b) = tk_status t"
  "tk_history (strip_artifacts t b) = tk_history t"
  by (auto simp: strip_artifacts_def task_try_from_eq split: sum.splits option.splits if_splits)

lemma listed_task_frame [simp]:
  "tk_id (listed_task f r) = tk_id (s_task r)"
  "tk_status (listed_task f r) = tk_status (s_task r)"
  "task_sort_key c (listed_task f r) = task_sort_key c (s_task r)"
  by (simp_all add: listed_task_def task_sort_key_def)

section \<open>Keys\<close>

definition tasks_keyed :: "store \<Rightarrow> bool" where
  "tasks_keyed s \<longleftrightarrow> hm_wf (tasks s) \<and>
     (\<forall>((t, i), r) \<in> set (tasks s). s_tenant r = t \<and> tk_id (s_task r) = i)"

lemma tasks_keyed_get:
  "tasks_keyed s \<longleftrightarrow> hm_wf (tasks s) \<and>
     (\<forall>t i r. get_stored s t i = Some r \<longrightarrow> s_tenant r = t \<and> tk_id (s_task r) = i)"
proof (cases "hm_wf (tasks s)")
  case True
  then have "((t, i), r) \<in> set (tasks s) \<longleftrightarrow> get_stored s t i = Some r" for t i r
    using hm.entries_get [of "tasks s" "(t, i)" r] by (simp add: get_stored_def hm_entries_def)
  then show ?thesis by (fastforce simp: tasks_keyed_def)
qed (simp add: tasks_keyed_def)

lemma filtered_rows_set:
  "set (filtered_rows c f s) = {r. r \<in> snd ` set (tasks s) \<and> task_matches c f r}"
  by (auto simp: filtered_rows_def hm_values_def)

lemma distinct_ids_filtered:
  assumes "tasks_keyed s" and "tf_tenant f = Some tn"
  shows "distinct (map (\<lambda>r. tk_id (s_task r)) (filtered_rows c f s))"
proof -
  let ?rows = "filter (\<lambda>e. task_matches c f (snd e)) (tasks s)"
  let ?id = "\<lambda>e. tk_id (s_task (snd e))"
  have "distinct (map fst ?rows)"
    using assms(1) by (simp add: tasks_keyed_def hm_wf_def distinct_map_filter)
  moreover have "fst e = (tn, ?id e)" if "e \<in> set ?rows" for e
    using assms that by (cases e) (auto simp: tasks_keyed_def task_matches_def)
  then have "map fst ?rows = map (\<lambda>x. (tn, x)) (map ?id ?rows)" by simp
  ultimately have "distinct (map ?id ?rows)" by (simp only: distinct_map)
  moreover have "map ?id ?rows = map (\<lambda>r. tk_id (s_task r)) (filter (task_matches c f) (hm_values (tasks s)))"
    by (simp add: hm_values_def filter_map comp_def)
  moreover have "mset (map (\<lambda>r. tk_id (s_task r)) (filtered_rows c f s)) =
      mset (map (\<lambda>r. tk_id (s_task r)) (filter (task_matches c f) (hm_values (tasks s))))"
    by (simp only: filtered_rows_def mset_map mset_sort_desc)
  ultimately show ?thesis
    using mset_eq_imp_distinct_iff by metis
qed

lemma filtered_rows_desc:
  assumes "tasks_keyed s" and "tf_tenant f = Some tn"
  shows "sorted_wrt (\<lambda>a b. row_key c b < row_key c a) (filtered_rows c f s)"
proof -
  have "sorted_wrt (\<lambda>a b. row_key c b \<le> row_key c a) (filtered_rows c f s)"
    by (simp add: filtered_rows_def sorted_sort_desc)
  moreover have "distinct (map (row_key c) (filtered_rows c f s))"
  proof -
    have "map (\<lambda>r. tk_id (s_task r)) (filtered_rows c f s) = map snd (map (row_key c) (filtered_rows c f s))"
      by (simp add: row_key_def comp_def)
    with distinct_ids_filtered [OF assms, of c] show ?thesis
      by (metis distinct_map)
  qed
  ultimately show ?thesis
    by (auto simp: sorted_wrt_iff_nth_less distinct_conv_nth less_le)
qed

text \<open>In the years with four digits, newest first and not before the bound.\<close>

lemma filtered_rows_newest_first:
  assumes "chrono_ok c" and "tasks_keyed s" and "tf_tenant f = Some tn"
  shows "sorted_wrt (\<lambda>a b. \<forall>x y. status_micros c (s_task a) = Some x \<longrightarrow> status_micros c (s_task b) = Some y \<longrightarrow>
    four_digit_year x \<longrightarrow> four_digit_year y \<longrightarrow> y \<le> x) (filtered_rows c f s)"
  using filtered_rows_desc [OF assms(2,3), of c]
proof (rule sorted_wrt_mono_rel [rotated])
  fix a b
  assume less: "row_key c b < row_key c a"
  then have "task_sort_key c (s_task b) \<le> task_sort_key c (s_task a)"
    by (auto simp: row_key_def less_prod_def less_le_not_le)
  then show "\<forall>x y. status_micros c (s_task a) = Some x \<longrightarrow> status_micros c (s_task b) = Some y \<longrightarrow>
      four_digit_year x \<longrightarrow> four_digit_year y \<longrightarrow> y \<le> x"
    using key_order [OF assms(1)] by (auto dest!: task_sort_key_micros)
qed

lemma matched_after_bound:
  assumes "chrono_ok c" and "task_matches c f r" and "tf_status_timestamp_after f = Some after"
    and "chr_in_range c after" and "four_digit_year after"
    and "status_micros c (s_task r) = Some x" and "four_digit_year x"
  shows "after \<le> x"
  using assms(2,3) task_sort_key_micros [OF assms(6)] key_order [OF assms(1,4) _ assms(5,7)]
  by (auto simp: task_matches_def admits_status_time_def)

section \<open>Paging\<close>

definition list_page_len :: "task_filter \<Rightarrow> nat" where
  "list_page_len f = (case resolved_page_size f of Inr n \<Rightarrow> nat n | Inl _ \<Rightarrow> 1)"

definition list_fetch ::
  "chrono \<Rightarrow> task_filter \<Rightarrow> store \<Rightarrow> string option \<Rightarrow> pb_task list \<times> string option" where
  "list_fetch c f s token = (case list_tasks c (f\<lparr>tf_page_token := token\<rparr>) s of
       Inr p \<Rightarrow> (tlp_tasks p, if tlp_next_page_token p = [] then None else Some (tlp_next_page_token p))
     | Inl _ \<Rightarrow> ([], None))"

definition task_cursor :: "chrono \<Rightarrow> pb_task \<Rightarrow> string" where
  "task_cursor c t = encode_cursor (task_sort_key c t) (tk_id t)"

definition task_listing :: "chrono \<Rightarrow> task_filter \<Rightarrow> store \<Rightarrow> pb_task list" where
  "task_listing c f s = map (listed_task f) (filtered_rows c f s)"

definition listable :: "chrono \<Rightarrow> task_filter \<Rightarrow> store \<Rightarrow> bool" where
  "listable c f s \<longleftrightarrow> chrono_ok c \<and> tasks_keyed s \<and> tf_tenant f \<noteq> None \<and>
     (\<exists>n. resolved_page_size f = Inr n) \<and> (\<forall>(k, r) \<in> set (tasks s). tk_id (s_task r) \<noteq> [])"

lemma filter_token_irrelevant [simp]:
  "filtered_rows c (f\<lparr>tf_page_token := x\<rparr>) s = filtered_rows c f s"
  "listed_task (f\<lparr>tf_page_token := x\<rparr>) = listed_task f"
  "resolved_page_size (f\<lparr>tf_page_token := x\<rparr>) = resolved_page_size f"
proof -
  have "task_matches c (f\<lparr>tf_page_token := x\<rparr>) = task_matches c f"
    by (simp add: task_matches_def admits_status_time_def fun_eq_iff)
  then show "filtered_rows c (f\<lparr>tf_page_token := x\<rparr>) s = filtered_rows c f s"
    by (simp add: filtered_rows_def)
qed (simp_all add: listed_task_def resolved_page_size_def fun_eq_iff)

lemma list_page_cut:
  assumes "listable c f s" and "start \<le> length (filtered_rows c f s)"
    and "(case cursor of
            Some k \<Rightarrow> (case position (\<lambda>r. row_key c r < k) (filtered_rows c f s) of
                Some i \<Rightarrow> i | None \<Rightarrow> length (filtered_rows c f s))
          | None \<Rightarrow> 0) = start"
    and "(case token of None \<Rightarrow> Inr None
          | Some t \<Rightarrow> (case decode_cursor c t of Inl e \<Rightarrow> Inl e | Inr k \<Rightarrow> Inr (Some k))) = Inr cursor"
  shows "list_fetch c f s token = cut_page (task_cursor c) (list_page_len f) (task_listing c f s) start"
proof -
  let ?xs = "filtered_rows c f s" and ?n = "list_page_len f"
  obtain n where n: "resolved_page_size f = Inr n" "nat n = ?n"
    using assms(1) by (auto simp: listable_def list_page_len_def)
  have pos: "0 < ?n" using resolved_page_size_bounds [OF n(1)] by (simp flip: n(2))
  have cut: "take (min (start + ?n) (length ?xs) - start) (drop start ?xs) = take ?n (drop start ?xs)"
    using assms(2) by (simp add: min_def)
  have enc: "encode_cursor a b \<noteq> []" for a b by (simp add: encode_cursor_def)
  have "task_listing c f s ! (start + ?n - 1) = listed_task f (?xs ! (start + ?n - 1))"
    if "start + ?n < length ?xs"
    using that by (simp add: task_listing_def)
  with assms(3,4) n cut pos enc show ?thesis
    by (auto simp: list_fetch_def list_tasks_def Let_def cut_page_def task_listing_def task_cursor_def
        take_map drop_map min_def)
qed

interpretation task_paging: cursor_paging "task_listing c f" "listable c f" "task_cursor c"
  "list_page_len f" "list_fetch c f"
  for c :: chrono and f :: task_filter
proof
  show "0 < list_page_len f"
    using resolved_page_size_bounds [of f] by (auto simp: list_page_len_def split: sum.splits)
next
  fix s assume "listable c f s"
  then show "list_fetch c f s None = cut_page (task_cursor c) (list_page_len f) (task_listing c f s) 0"
    by (rule list_page_cut [where cursor = None]) simp_all
next
  fix s k assume l: "listable c f s" and "k < length (task_listing c f s)"
  let ?xs = "filtered_rows c f s"
  have k: "k < length ?xs" using \<open>k < _\<close> by (simp add: task_listing_def)
  let ?r = "?xs ! k"
  obtain tn where tn: "tf_tenant f = Some tn" using l by (auto simp: listable_def)
  have "?r \<in> set ?xs" using k by simp
  then have ne: "tk_id (s_task ?r) \<noteq> []"
    using l by (auto simp: listable_def filtered_rows_set)
  have dec: "decode_cursor c (task_cursor c (task_listing c f s ! k)) = Inr (row_key c ?r)"
    using cursor_roundtrip [of c "s_task ?r"] l ne k
    by (simp add: task_cursor_def row_key_def listable_def task_listing_def)
  have "position (\<lambda>r. row_key c r < row_key c ?r) ?xs = (if Suc k < length ?xs then Some (Suc k) else None)"
    using position_after [of "\<lambda>a b. row_key c b < row_key c a" ?xs k "\<lambda>a b. row_key c b < row_key c a"]
      filtered_rows_desc [OF _ tn, of s c] l k by (auto simp: listable_def)
  then show "list_fetch c f s (Some (task_cursor c (task_listing c f s ! k))) =
    cut_page (task_cursor c) (list_page_len f) (task_listing c f s) (Suc k)"
    using l k dec by (intro list_page_cut [where cursor = "Some (row_key c ?r)"]) auto
qed

end
