(* ===== verification/Store_Ops.thy ===== *)
theory Store_Ops
  imports Claim_Fencing Cleanup Store_List
begin

text \<open>
  The store as one system: every operation that changes it as a constructor, the states that
  operations reach from an empty store, and the invariant they keep: keys name their rows,
  event logs are strictly increasing and bounded by the sequence counter, and no causal floor
  is ahead of the counter. Operations run one after another, each under its locks.
\<close>

datatype store_op =
    OpCreateTask instant string string pb_task
  | OpUpdateTask instant string string pb_task
  | OpDeleteTask string string string
  | OpUpdateStatus instant string string string pb_task_status
  | OpAppendMessage string string string pb_message
  | OpAppendArtifact instant string string string pb_artifact bool bool
  | OpSetCancel string string string
  | OpRenewLeases string "string list" "int option"
  | OpAppendEvent instant string string stream_event
  | OpCreateAtomic instant string string pb_task "stream_event list"
  | OpStatusAtomic instant string string string pb_task_status "stream_event list"
  | OpUpdateAtomic instant string string pb_task "stream_event list"
  | OpCreateConfig string string push_config
  | OpDeleteConfig string string string
  | OpClaimCall "push_delivery_key claim_call"
  | OpRecordPending instant string string string nat
  | OpDeletePending string string nat
  | OpCleanup instant

fun exec :: "store_op \<Rightarrow> store \<Rightarrow> store" where
  "exec (OpCreateTask now tn ow t) s = snd (create_task now tn ow t s)"
| "exec (OpUpdateTask now tn ow t) s = snd (update_task now tn ow t s)"
| "exec (OpDeleteTask tn i ow) s = snd (delete_task tn i ow s)"
| "exec (OpUpdateStatus now tn i ow st) s = snd (update_task_status now tn i ow st s)"
| "exec (OpAppendMessage tn i ow m) s = snd (append_message tn i ow m s)"
| "exec (OpAppendArtifact now tn i ow a app l) s = snd (append_artifact now tn i ow a app l s)"
| "exec (OpSetCancel tn i ow) s = snd (set_cancel_requested tn i ow s)"
| "exec (OpRenewLeases tn ids e) s = snd (supervisor_renew_executor_leases tn ids e s)"
| "exec (OpAppendEvent now tn i e) s = snd (append_event now tn i e s)"
| "exec (OpCreateAtomic now tn ow t evs) s = snd (create_task_with_events now tn ow t evs s)"
| "exec (OpStatusAtomic now tn i ow st evs) s = snd (update_task_status_with_events now tn i ow st evs s)"
| "exec (OpUpdateAtomic now tn ow t evs) s = snd (update_task_with_events now tn ow t evs s)"
| "exec (OpCreateConfig uuid tn cfg) s = snd (create_config uuid (\<lambda>_ s. s) tn cfg s)"
| "exec (OpDeleteConfig tn i c) s = snd (delete_config tn i c s)"
| "exec (OpClaimCall c) s = claim_step s c"
| "exec (OpRecordPending now tn ow i q) s = snd (record_pending_dispatch now tn ow i q s)"
| "exec (OpDeletePending tn i q) s = snd (delete_pending_dispatch tn i q s)"
| "exec (OpCleanup now) s = snd (cleanup_expired now s)"

text \<open>A generated config id is not empty (it is a UUID).\<close>

fun op_ok :: "store_op \<Rightarrow> bool" where
  "op_ok (OpCreateConfig uuid tn cfg) \<longleftrightarrow> uuid \<noteq> []"
| "op_ok _ \<longleftrightarrow> True"

inductive reachable :: "store \<Rightarrow> bool" where
  init: "reachable (with_push_dispatch_enabled b (with_retention r store_new))"
| step: "reachable s \<Longrightarrow> op_ok op \<Longrightarrow> reachable (exec op s)"

section \<open>The row of a task under each operation\<close>

lemma create_config_quiet:
  "create_config uuid (\<lambda>_ s. s) tn cfg s =
     (let cfg' = (if pc_id cfg = [] then cfg\<lparr>pc_id := uuid\<rparr> else cfg)
      in (Inr cfg', insert_config tn cfg' (latest_floor s tn (pc_task_id cfg')) s))"
  by (simp add: create_config_def Let_def create_config_loop_quiet MAX_ATTEMPTS_def
      del: create_config_loop.simps)

lemma claim_step_frame [simp]:
  "tasks (claim_step s c) = tasks s" "events (claim_step s c) = events s"
  "event_counters (claim_step s c) = event_counters s" "push_configs (claim_step s c) = push_configs s"
  "pending_dispatches (claim_step s c) = pending_dispatches s"
  by (cases c; simp add: claim_delivery_def record_attempt_started_def record_delivery_outcome_def
      Let_def put_claim_frame split: option.splits)+

lemma insert_config_frame [simp]:
  "tasks (insert_config tn c k s) = tasks s" "events (insert_config tn c k s) = events s"
  "event_counters (insert_config tn c k s) = event_counters s"
  "push_delivery_claims (insert_config tn c k s) = push_delivery_claims s"
  "pending_dispatches (insert_config tn c k s) = pending_dispatches s"
  by (simp_all add: insert_config_def)

section \<open>Event logs\<close>

definition log_ok :: "store \<Rightarrow> string \<Rightarrow> string \<Rightarrow> bool" where
  "log_ok s tn i \<longleftrightarrow> sorted_wrt (<) (map fst (log_of s tn i)) \<and>
     (\<forall>e \<in> set (log_of s tn i). 1 \<le> fst e \<and> fst e \<le> counter_of s tn i)"

lemma map_fst_new_rows: "map fst (new_rows now c evs) = seq_range c (length evs)"
  by (simp add: new_rows_def)

lemma log_ok_commit:
  assumes "\<forall>tn i. log_ok s tn i"
  shows "log_ok (snd (commit_events now tn i evs s)) tn' i'"
proof (cases "tn' = tn \<and> i' = i")
  case True
  have mem: "fst e \<in> {counter_of s tn i<..counter_of s tn i + length evs}"
    if "e \<in> set (new_rows now (counter_of s tn i) evs)" for e
  proof -
    have "fst e \<in> set (map fst (new_rows now (counter_of s tn i) evs))" using that by simp
    then show ?thesis by (simp only: map_fst_new_rows set_seq_range)
  qed
  have old: "log_ok s tn i" using assms by blast
  have "sorted_wrt (<) (map fst (log_of s tn i @ new_rows now (counter_of s tn i) evs))"
    using old mem sorted_seq_range [of "counter_of s tn i" "length evs"]
    by (fastforce simp: log_ok_def sorted_wrt_append map_fst_new_rows simp del: upt_Suc)
  then show ?thesis
    using True old mem by (fastforce simp: log_ok_def commit_events_log commit_events_counter)
next
  case False
  then show ?thesis
    using assms by (auto simp: log_ok_def commit_events_log commit_events_counter)
qed

lemma append_event_commit:
  "snd (append_event now tn i e s) = snd (commit_events now tn i [e] s)"
  by (simp add: append_event_def commit_events_spec new_rows_def Let_def)

lemma log_of_frame: "events s' = events s \<Longrightarrow> log_of s' = log_of s"
  by (simp add: log_of_def fun_eq_iff)

lemma counter_of_frame: "event_counters s' = event_counters s \<Longrightarrow> counter_of s' = counter_of s"
  by (simp add: counter_of_def fun_eq_iff)

text \<open>The operations that write no event leave the logs and the counters.\<close>

lemma create_task_events [frame]:
  "events (snd (create_task now tn ow t s)) = events s"
  "push_configs (snd (create_task now tn ow t s)) = push_configs s"
  "event_counters (snd (create_task now tn ow t s)) = event_counters s"
  by (simp_all add: create_task_def Let_def)

lemma update_task_events [frame]:
  "events (snd (update_task now tn ow t s)) = events s"
  "push_configs (snd (update_task now tn ow t s)) = push_configs s"
  "event_counters (snd (update_task now tn ow t s)) = event_counters s"
  by (simp_all add: update_task_def Let_def split: option.splits)

lemma delete_task_events [frame]:
  "events (snd (delete_task tn i ow s)) = events s"
  "push_configs (snd (delete_task tn i ow s)) = push_configs s"
  "event_counters (snd (delete_task tn i ow s)) = event_counters s"
  by (simp_all add: delete_task_def split: option.splits)

lemma update_task_status_events [frame]:
  "events (snd (update_task_status now tn i ow st s)) = events s"
  "push_configs (snd (update_task_status now tn i ow st s)) = push_configs s"
  "event_counters (snd (update_task_status now tn i ow st s)) = event_counters s"
  by (simp_all add: update_task_status_def Let_def split: option.splits sum.splits)

lemma append_message_events [frame]:
  "events (snd (append_message tn i ow m s)) = events s"
  "push_configs (snd (append_message tn i ow m s)) = push_configs s"
  "event_counters (snd (append_message tn i ow m s)) = event_counters s"
  by (simp_all add: append_message_def split: option.splits)

lemma append_artifact_events [frame]:
  "events (snd (append_artifact now tn i ow a app l s)) = events s"
  "push_configs (snd (append_artifact now tn i ow a app l s)) = push_configs s"
  "event_counters (snd (append_artifact now tn i ow a app l s)) = event_counters s"
  by (simp_all add: append_artifact_def split: option.splits)

lemma set_cancel_requested_events [frame]:
  "events (snd (set_cancel_requested tn i ow s)) = events s"
  "push_configs (snd (set_cancel_requested tn i ow s)) = push_configs s"
  "event_counters (snd (set_cancel_requested tn i ow s)) = event_counters s"
  by (simp_all add: set_cancel_requested_def split: option.splits)

lemma create_config_events [frame]:
  "events (snd (create_config uuid (\<lambda>_ s. s) tn cfg s)) = events s"
  "event_counters (snd (create_config uuid (\<lambda>_ s. s) tn cfg s)) = event_counters s"
  by (simp_all add: create_config_quiet Let_def)

lemma delete_config_events [frame]:
  "events (snd (delete_config tn i c s)) = events s"
  "event_counters (snd (delete_config tn i c s)) = event_counters s"
  by (simp_all add: delete_config_def)

lemma record_pending_dispatch_events [frame]:
  "events (snd (record_pending_dispatch now tn ow i q s)) = events s"
  "push_configs (snd (record_pending_dispatch now tn ow i q s)) = push_configs s"
  "event_counters (snd (record_pending_dispatch now tn ow i q s)) = event_counters s"
  by (simp_all add: record_pending_dispatch_def)

lemma delete_pending_dispatch_events [frame]:
  "events (snd (delete_pending_dispatch tn i q s)) = events s"
  "push_configs (snd (delete_pending_dispatch tn i q s)) = push_configs s"
  "event_counters (snd (delete_pending_dispatch tn i q s)) = event_counters s"
  by (simp_all add: delete_pending_dispatch_def)

text \<open>An operation leaves the logs alone, commits events to one task, or is a cleanup.\<close>

lemma exec_log_cases:
  obtains (same) "events (exec op s) = events s" "event_counters (exec op s) = event_counters s"
  | (commit) now tn i evs where "events (exec op s) = events (snd (commit_events now tn i evs s))"
      "event_counters (exec op s) = event_counters (snd (commit_events now tn i evs s))"
  | (cleanup) now where "op = OpCleanup now"
proof (cases op)
  case (OpCreateAtomic now tn ow t evs)
  then show thesis
    by (intro commit) (simp_all add: create_task_with_events_eq Let_def)
next
  case (OpStatusAtomic now tn i ow st evs)
  obtain res s' where u: "update_task_status_with_events now tn i ow st evs s = (res, s')" by fastforce
  then show thesis
  proof (cases rule: update_status_with_events_cases)
    case failed
    then show thesis using u OpStatusAtomic same by simp
  next
    case (committed r c n t' evs')
    have "events s' = events (snd (commit_events now tn i evs' s)) \<and>
        event_counters s' = event_counters (snd (commit_events now tn i evs' s))"
      unfolding committed(11) put_stored_frame by auto
    then show thesis using u OpStatusAtomic commit by simp
  qed
next
  case (OpUpdateAtomic now tn ow t evs)
  obtain res s' where u: "update_task_with_events now tn ow t evs s = (res, s')" by fastforce
  then show thesis
  proof (cases rule: update_task_with_events_cases)
    case (committed r)
    then show thesis using u OpUpdateAtomic commit by simp
  qed (use u OpUpdateAtomic same in simp_all)
next
  case (OpAppendEvent now tn i e)
  then show thesis by (intro commit) (simp_all add: append_event_commit)
next
  case (OpCleanup now)
  then show thesis by (rule cleanup)
next
  case (OpRenewLeases tn ids e)
  have "events (fold (set_lease tn e) ids s) = events s \<and>
      event_counters (fold (set_lease tn e) ids s) = event_counters s"
    by (induction ids arbitrary: s) (auto simp: set_lease_def split: option.splits)
  then show thesis
    using OpRenewLeases by (intro same; simp add: supervisor_renew_executor_leases_def)
qed (intro same; simp add: frame)+

lemma log_ok_exec:
  assumes "\<forall>tn i. log_ok s tn i" and "hm_wf (events s)"
  shows "log_ok (exec op s) tn i"
proof (cases rule: exec_log_cases [of op s])
  case same
  then show ?thesis
    using assms(1) by (simp add: log_ok_def log_of_frame [OF same(1)] counter_of_frame [OF same(2)])
next
  case (commit now tn' i' evs)
  then show ?thesis
    using log_ok_commit [OF assms(1), of now tn' i' evs tn i]
    by (simp add: log_ok_def log_of_frame [OF commit(1)] counter_of_frame [OF commit(2)])
next
  case (cleanup now)
  obtain res s' where c: "cleanup_expired now s = (res, s')" by fastforce
  have "counter_of s' = counter_of s"
    using cleanup_frame(1) [OF c] by (rule counter_of_frame)
  then show ?thesis
    using assms(1) cleanup cleanup_logs [OF assms(2) c, of tn i] c
    by (fastforce simp: log_ok_def sorted_wrt_map intro: sorted_wrt_filter)
qed

lemma events_wf_exec:
  assumes "hm_wf (events s)"
  shows "hm_wf (events (exec op s))"
proof (cases rule: exec_log_cases [of op s])
  case (cleanup now)
  obtain m n where "reap_events (retention s)
      (event_expired now (rc_event_ttl_seconds (retention s))) (events s) = (m, n)" by fastforce
  with reap_events_spec [OF assms this] assms show ?thesis
    by (auto simp: cleanup cleanup_expired_def Let_def split: prod.splits)
qed (use assms in \<open>simp_all add: commit_events_spec hm_simps\<close>)

lemma counter_mono: "counter_of s tn i \<le> counter_of (exec op s) tn i"
proof (cases rule: exec_log_cases [of op s])
  case same
  then show ?thesis by (simp add: counter_of_frame [OF same(2)])
next
  case (commit now tn' i' evs)
  then show ?thesis by (simp add: counter_of_frame [OF commit(2)] commit_events_counter)
next
  case (cleanup now)
  obtain res s' where c: "cleanup_expired now s = (res, s')" by fastforce
  then show ?thesis
    using cleanup counter_of_frame [OF cleanup_frame(1) [OF c]] by simp
qed

section \<open>Rows under their keys\<close>

lemma tasks_keyed_put:
  "tasks_keyed s \<Longrightarrow> s_tenant r = tn \<Longrightarrow> tk_id (s_task r) = i \<Longrightarrow> tasks_keyed (put_stored tn i r s)"
  by (auto simp: tasks_keyed_get get_put_stored) (simp add: put_stored_def hm_simps)

lemma tasks_keyed_frame: "tasks s' = tasks s \<Longrightarrow> tasks_keyed s' = tasks_keyed s"
  by (simp add: tasks_keyed_def)

lemma get_stored_frame: "tasks s' = tasks s \<Longrightarrow> get_stored s' = get_stored s"
  by (simp add: get_stored_def fun_eq_iff)

lemma tasks_keyed_renew: "tasks_keyed s \<Longrightarrow> tasks_keyed (fold (set_lease tn e) ids s)"
proof (induction ids arbitrary: s)
  case (Cons i ids)
  have "tasks_keyed (set_lease tn e i s)"
    using Cons.prems by (auto simp: set_lease_def tasks_keyed_get [of s] intro!: tasks_keyed_put Cons.prems
        split: option.splits)
  then show ?case using Cons.IH by simp
qed simp

lemma replace_row_simps [simp]:
  "s_tenant (replace_row now tn ow t l r) = tn" "s_task (replace_row now tn ow t l r) = t"
  "s_owner (replace_row now tn ow t l r) = ow"
  "s_latest_event_sequence (replace_row now tn ow t l r) = l"
  "s_cancel_requested (replace_row now tn ow t l r) = s_cancel_requested r"
  by (simp_all add: replace_row_def)

lemma fresh_row_simps [simp]:
  "s_tenant (fresh_row now tn ow t l) = tn" "s_task (fresh_row now tn ow t l) = t"
  "s_owner (fresh_row now tn ow t l) = ow" "s_latest_event_sequence (fresh_row now tn ow t l) = l"
  "s_cancel_requested (fresh_row now tn ow t l) = False"
  by (simp_all add: fresh_row_def)

text \<open>What a write to one task can be: the row it leaves under its key.\<close>

definition row_write :: "store \<Rightarrow> store \<Rightarrow> string \<Rightarrow> string \<Rightarrow> stored_task \<Rightarrow> bool" where
  "row_write s s' tn i r \<longleftrightarrow> tasks s' = hm_insert (tn, i) r (tasks s) \<and> s_tenant r = tn \<and>
     tk_id (s_task r) = i \<and>
     (s_latest_event_sequence r \<le> counter_of s' tn i \<or>
      (\<exists>r0. get_stored s tn i = Some r0 \<and> s_latest_event_sequence r = s_latest_event_sequence r0))"

lemma tasks_put_stored: "tasks (put_stored tn i r s) = hm_insert (tn, i) r (tasks s)"
  by (simp add: put_stored_def)

lemma row_write_put:
  assumes "s_tenant r = tn" and "tk_id (s_task r) = i" and "tasks s0 = tasks s"
    and "s_latest_event_sequence r \<le> counter_of s0 tn i \<or>
      (\<exists>r0. get_stored s tn i = Some r0 \<and> s_latest_event_sequence r = s_latest_event_sequence r0)"
  shows "row_write s (put_stored tn i r s0) tn i r"
  using assms by (simp add: row_write_def tasks_put_stored)

text \<open>An operation on tasks leaves the store as it was or writes one row.\<close>

definition writes :: "store \<Rightarrow> store \<Rightarrow> bool" where
  "writes s s' \<longleftrightarrow> s' = s \<or> (\<exists>tn i r. row_write s s' tn i r)"

lemma writes_same: "writes s s"
  by (simp add: writes_def)

lemma writes_row: "row_write s s' tn i r \<Longrightarrow> writes s s'"
  by (auto simp: writes_def)

lemma writes_put:
  assumes "get_stored s tn i = Some r0" and "s_latest_event_sequence r = s_latest_event_sequence r0"
    and "s_tenant r = tn" and "tk_id (s_task r) = i"
  shows "writes s (put_stored tn i r s)"
  using assms by (intro writes_row [OF row_write_put]) auto

lemma create_task_write: "writes s (snd (create_task now tn ow t s))"
  unfolding create_task_def Let_def snd_conv
  by (rule writes_row, rule row_write_put) simp_all

lemma update_task_write: "writes s (snd (update_task now tn ow t s))"
  by (cases "get_stored s tn (tk_id t)")
    (auto simp: update_task_def Let_def intro: writes_same writes_put)

lemma update_status_write:
  assumes "tasks_keyed s"
  shows "writes s (snd (update_task_status now tn i ow st s))"
proof (cases "get_stored s tn i")
  case (Some r)
  then have "tk_id (s_task r) = i" using assms by (simp add: tasks_keyed_get)
  then show ?thesis
    using Some by (auto simp: update_task_status_def Let_def task_try_from_iff
        intro: writes_same writes_put split: sum.splits)
qed (simp add: update_task_status_def writes_same)

lemma append_message_write:
  assumes "tasks_keyed s"
  shows "writes s (snd (append_message tn i ow m s))"
proof (cases "get_stored s tn i")
  case (Some r)
  with assms show ?thesis
    by (auto simp: append_message_def tasks_keyed_get task_append_message_def
        intro: writes_same writes_put)
qed (simp add: append_message_def writes_same)

lemma append_artifact_write:
  assumes "tasks_keyed s"
  shows "writes s (snd (append_artifact now tn i ow a app l s))"
proof (cases "get_stored s tn i")
  case (Some r)
  then have "tk_id (s_task r) = i" "s_tenant r = tn" using assms by (auto simp: tasks_keyed_get)
  with Some show ?thesis
    by (auto simp: append_artifact_def task_append_artifact_def
        intro: writes_same writes_put split: option.splits)
qed (simp add: append_artifact_def writes_same)

lemma set_cancel_write:
  assumes "tasks_keyed s"
  shows "writes s (snd (set_cancel_requested tn i ow s))"
proof (cases "get_stored s tn i")
  case (Some r)
  then have "tk_id (s_task r) = i" "s_tenant r = tn" using assms by (auto simp: tasks_keyed_get)
  with Some show ?thesis
    by (auto simp: set_cancel_requested_def intro: writes_same writes_put split: option.splits)
qed (simp add: set_cancel_requested_def writes_same)

lemma create_atomic_write: "writes s (snd (create_task_with_events now tn ow t evs s))"
  unfolding create_task_with_events_eq Let_def snd_conv
  by (rule writes_row, rule row_write_put) (simp_all add: commit_events_counter)

lemma status_atomic_write:
  assumes "tasks_keyed s"
  shows "writes s (snd (update_task_status_with_events now tn i ow st evs s))"
proof -
  obtain res s' where u: "update_task_status_with_events now tn i ow st evs s = (res, s')" by fastforce
  then show ?thesis
  proof (cases rule: update_status_with_events_cases)
    case (committed r c n t' evs')
    have i: "tk_id t' = i" using committed(1,9) assms by (simp add: tasks_keyed_get)
    have len: "length evs' = length evs"
      using committed(7) stamp_status_frame(3) [of now "(s_task r)\<lparr>tk_status := Some st\<rparr>" evs] by simp
    have "row_write s s' tn i (replace_row now tn ow t'
          (if evs = [] then s_latest_event_sequence r
           else max (s_latest_event_sequence r) (counter_of s tn i + length evs)) r)"
      unfolding committed(11)
    proof (rule row_write_put)
      show "s_latest_event_sequence (replace_row now tn ow t'
          (if evs = [] then s_latest_event_sequence r
           else max (s_latest_event_sequence r) (counter_of s tn i + length evs)) r)
        \<le> counter_of (if push_dispatch_enabled s \<and> task_has_configs s tn i
            then (snd (commit_events now tn i evs' s))\<lparr>pending_dispatches :=
              write_markers now tn i ow (new_rows now (counter_of s tn i) evs') (pending_dispatches s)\<rparr>
            else snd (commit_events now tn i evs' s)) tn i \<or>
        (\<exists>r0. get_stored s tn i = Some r0 \<and> s_latest_event_sequence (replace_row now tn ow t'
          (if evs = [] then s_latest_event_sequence r
           else max (s_latest_event_sequence r) (counter_of s tn i + length evs)) r) =
          s_latest_event_sequence r0)"
      proof (cases "evs \<noteq> [] \<and> s_latest_event_sequence r \<le> counter_of s tn i + length evs")
        case True
        have "counter_of (x\<lparr>pending_dispatches := y\<rparr>) = counter_of x" for x y
          by (simp add: counter_of_def fun_eq_iff)
        then show ?thesis using True len by (simp add: commit_events_counter)
      next
        case False
        then show ?thesis using committed(1) by (auto simp: max_def)
      qed
    qed (simp_all add: i)
    with u show ?thesis by (auto intro: writes_row)
  qed (simp add: u writes_same)
qed

lemma update_atomic_write: "writes s (snd (update_task_with_events now tn ow t evs s))"
proof -
  obtain res s' where u: "update_task_with_events now tn ow t evs s = (res, s')" by fastforce
  then show ?thesis
  proof (cases rule: update_task_with_events_cases)
    case (committed r)
    have "\<exists>r'. row_write s s' tn (tk_id t) r'"
      unfolding committed(5)
    proof (rule exI, rule row_write_put)
      show "s_latest_event_sequence (replace_row now tn ow (fst (stamp_status now t evs))
        (if evs = [] then s_latest_event_sequence r
         else max (s_latest_event_sequence r) (counter_of s tn (tk_id t) + length evs)) r)
        \<le> counter_of (snd (commit_events now tn (tk_id t) (snd (stamp_status now t evs)) s)) tn (tk_id t) \<or>
        (\<exists>r0. get_stored s tn (tk_id t) = Some r0 \<and>
          s_latest_event_sequence (replace_row now tn ow (fst (stamp_status now t evs))
        (if evs = [] then s_latest_event_sequence r
         else max (s_latest_event_sequence r) (counter_of s tn (tk_id t) + length evs)) r) =
          s_latest_event_sequence r0)"
        using committed(1) by (cases "s_latest_event_sequence r \<le> counter_of s tn (tk_id t) + length evs")
          (auto simp: commit_events_counter max_def)
    qed simp_all
    with u show ?thesis by (auto intro: writes_row)
  qed (simp_all add: u writes_same)
qed

lemma delete_task_cases:
  "snd (delete_task tn i ow s) = s \<or> tasks (snd (delete_task tn i ow s)) = hm_remove (tn, i) (tasks s)"
  by (auto simp: delete_task_def split: option.splits)

lemma exec_tasks_cases:
  assumes "tasks_keyed s"
  obtains (same) "tasks (exec op s) = tasks s"
  | (wrote) tn i r where "row_write s (exec op s) tn i r"
  | (removed) tn i where "tasks (exec op s) = hm_remove (tn, i) (tasks s)"
  | (renewed) tn ids e where "tasks (exec op s) = tasks (fold (set_lease tn e) ids s)"
  | (cleanup) now where "op = OpCleanup now"
proof -
  note write_rules = create_task_write update_task_write create_atomic_write update_atomic_write
    update_status_write [OF assms] append_message_write [OF assms] append_artifact_write [OF assms]
    set_cancel_write [OF assms] status_atomic_write [OF assms]
  have w: thesis if "writes s (exec op s)"
    using that same wrote by (auto simp: writes_def)
  show thesis
  proof (cases op)
    case (OpDeleteTask tn i ow)
    then show thesis using delete_task_cases [of tn i ow s] same removed by auto
  next
    case (OpRenewLeases tn ids e)
    then show thesis using renewed by (simp add: supervisor_renew_executor_leases_def)
  next
    case (OpCleanup now)
    then show thesis by (rule cleanup)
  qed ((rule w, simp add: write_rules; fail) |
    (rule same, simp add: append_event_commit create_config_quiet delete_config_def Let_def
      record_pending_dispatch_def delete_pending_dispatch_def))+
qed

section \<open>The invariant\<close>

definition floors_ok :: "store \<Rightarrow> bool" where
  "floors_ok s \<longleftrightarrow> (\<forall>tn i r. get_stored s tn i = Some r \<longrightarrow> s_latest_event_sequence r \<le> counter_of s tn i)"

definition store_inv :: "store \<Rightarrow> bool" where
  "store_inv s \<longleftrightarrow> tasks_keyed s \<and> configs_keyed s \<and> hm_wf (events s) \<and>
     (\<forall>tn i. log_ok s tn i) \<and> floors_ok s"

lemma row_write_get:
  "row_write s s' tn i r \<Longrightarrow> get_stored s' tn' i' = (if tn' = tn \<and> i' = i then Some r else get_stored s tn' i')"
  by (auto simp: row_write_def get_stored_def hm_simps)

text \<open>Every row after an operation is a written one, or an old one up to its lease.\<close>

lemma exec_rows:
  assumes "tasks_keyed s" and "get_stored (exec op s) tn i = Some r"
  shows "(row_write s (exec op s) tn i r) \<or>
    (\<exists>r0. get_stored s tn i = Some r0 \<and> s_task r = s_task r0 \<and> s_tenant r = s_tenant r0 \<and>
       s_latest_event_sequence r = s_latest_event_sequence r0 \<and>
       s_cancel_requested r = s_cancel_requested r0)"
  using assms(1)
proof (cases rule: exec_tasks_cases [where op = op, consumes 1, case_names same wrote removed renewed cleanup])
  case same
  then show ?thesis using assms(2) get_stored_frame [OF same] by auto
next
  case (wrote tn' i' r')
  show ?thesis
  proof (cases "tn = tn' \<and> i = i'")
    case True
    with row_write_get [OF wrote, of tn i] assms(2) wrote show ?thesis by simp
  next
    case False
    with row_write_get [OF wrote, of tn i] assms(2) have "get_stored s tn i = Some r" by auto
    then show ?thesis by blast
  qed
next
  case (removed tn' i')
  then show ?thesis using assms(2) by (auto simp: get_stored_def hm_simps split: if_splits)
next
  case (renewed tn' ids e)
  then have "get_stored (fold (set_lease tn' e) ids s) tn i = Some r"
    using assms(2) by (simp add: get_stored_def)
  then show ?thesis by (auto simp: renew_leases_get split: if_splits)
next
  case (cleanup now)
  obtain res s' where c: "cleanup_expired now s = (res, s')" by fastforce
  have "hm_wf (tasks s)" using assms(1) by (simp add: tasks_keyed_def)
  from cleanup_tasks [OF this c, of tn i] show ?thesis
    using assms(2) cleanup c by (auto split: option.splits if_splits)
qed

lemma tasks_wf_exec:
  assumes "tasks_keyed s"
  shows "hm_wf (tasks (exec op s))"
  using assms
proof (cases rule: exec_tasks_cases [where op = op, consumes 1, case_names same wrote removed renewed cleanup])
  case (renewed tn ids e)
  then show ?thesis using tasks_keyed_renew [OF assms, of tn e ids] by (simp add: tasks_keyed_def)
next
  case (cleanup now)
  have wf: "hm_wf (tasks s)" using assms by (simp add: tasks_keyed_def)
  then show ?thesis
    using cleanup reap_tasks_eq [OF wf] hm_wf_retain [OF wf]
    by (auto simp: cleanup_expired_def Let_def split: prod.splits if_splits)
qed (use assms in \<open>auto simp: tasks_keyed_def row_write_def hm_simps\<close>)

lemma tasks_keyed_exec:
  assumes "tasks_keyed s"
  shows "tasks_keyed (exec op s)"
  unfolding tasks_keyed_get
proof (intro conjI allI impI)
  show "hm_wf (tasks (exec op s))" by (rule tasks_wf_exec [OF assms])
  fix t i r assume "get_stored (exec op s) t i = Some r"
  from exec_rows [OF assms this] assms show "s_tenant r = t" "tk_id (s_task r) = i"
    by (auto simp: row_write_def tasks_keyed_get)
qed

lemma floors_exec:
  assumes "tasks_keyed s" and "floors_ok s"
  shows "floors_ok (exec op s)"
  unfolding floors_ok_def
proof (intro allI impI)
  fix tn i r assume "get_stored (exec op s) tn i = Some r"
  from exec_rows [OF assms(1) this]
  show "s_latest_event_sequence r \<le> counter_of (exec op s) tn i"
    using assms(2) counter_mono [of s tn i op]
    by (fastforce simp: floors_ok_def row_write_def intro: order_trans)
qed

lemma configs_keyed_exec:
  assumes "configs_keyed s" and "op_ok op"
  shows "configs_keyed (exec op s)"
proof -
  have frame_ok: ?thesis if "push_configs (exec op s) = push_configs s"
    using that assms(1) by (simp add: configs_keyed_def)
  show ?thesis
  proof (cases op)
    case (OpCreateConfig uuid tn cfg)
    let ?cfg = "if pc_id cfg = [] then cfg\<lparr>pc_id := uuid\<rparr> else cfg"
    have "pc_id ?cfg \<noteq> []" using assms(2) OpCreateConfig by simp
    then have "configs_keyed (insert_config tn ?cfg k s)" for k
      using assms(1) by (auto simp: configs_keyed_def insert_config_def hm_simps
          dest!: hm_set_insert)
    then show ?thesis using OpCreateConfig by (simp add: create_config_quiet Let_def)
  next
    case (OpDeleteConfig tn i c)
    then show ?thesis
      using assms(1) by (auto simp: configs_keyed_def delete_config_def hm_simps dest: hm_set_remove)
  next
    case (OpRenewLeases tn ids e)
    have "push_configs (fold (set_lease tn e) ids s) = push_configs s"
      by (induction ids arbitrary: s) (auto simp: set_lease_def split: option.splits)
    then show ?thesis
      using OpRenewLeases by (intro frame_ok) (simp add: supervisor_renew_executor_leases_def)
  next
    case (OpStatusAtomic now tn i ow st evs)
    obtain res s' where u: "update_task_status_with_events now tn i ow st evs s = (res, s')" by fastforce
    then have "push_configs s' = push_configs s"
    proof (cases rule: update_status_with_events_cases)
      case (committed r c n t' evs')
      then show ?thesis by simp
    qed simp
    then show ?thesis using u OpStatusAtomic by (intro frame_ok) simp
  next
    case (OpUpdateAtomic now tn ow t evs)
    obtain res s' where u: "update_task_with_events now tn ow t evs s = (res, s')" by fastforce
    then have "push_configs s' = push_configs s"
    proof (cases rule: update_task_with_events_cases)
      case (committed r)
      then show ?thesis by simp
    qed simp_all
    then show ?thesis using u OpUpdateAtomic by (intro frame_ok) simp
  next
    case (OpCleanup now)
    obtain res s' where c: "cleanup_expired now s = (res, s')" by fastforce
    then show ?thesis using cleanup_frame(2) [OF c] OpCleanup by (intro frame_ok) simp
  qed (rule frame_ok, simp add: frame append_event_commit create_task_with_events_eq Let_def)+
qed

theorem reachable_inv: "reachable s \<Longrightarrow> store_inv s"
proof (induction rule: reachable.induct)
  case (init b r)
  show ?case
    by (simp add: store_inv_def with_push_dispatch_enabled_def with_retention_def store_new_def
        tasks_keyed_def configs_keyed_def log_ok_def floors_ok_def log_of_def get_stored_def)
next
  case (step s op)
  then show ?case
    by (auto simp: store_inv_def intro: tasks_keyed_exec configs_keyed_exec events_wf_exec log_ok_exec
        floors_exec)
qed

section \<open>Replay\<close>

lemma get_events_after_log:
  "get_events_after tn i k s = Inr (map (\<lambda>(q, e, _). (q, e)) (filter (\<lambda>(q, _, _). q > k) (log_of s tn i)))"
  by (simp add: get_events_after_def log_of_def split: option.splits)

lemma commit_replay:
  assumes "log_ok s tn i"
  shows "filter (\<lambda>(q, _, _). q > counter_of s tn i) (log_of (snd (commit_events now tn i evs s)) tn i) =
    new_rows now (counter_of s tn i) evs"
proof -
  have "filter (\<lambda>(q, _, _). q > counter_of s tn i) (log_of s tn i) = []"
    using assms by (fastforce simp: log_ok_def filter_empty_conv)
  moreover have "\<forall>e \<in> set (new_rows now (counter_of s tn i) evs). fst e > counter_of s tn i"
  proof
    fix e assume "e \<in> set (new_rows now (counter_of s tn i) evs)"
    then have "fst e \<in> set (map fst (new_rows now (counter_of s tn i) evs))" by simp
    then show "fst e > counter_of s tn i" by (simp only: map_fst_new_rows set_seq_range) simp
  qed
  then have "filter (\<lambda>(q, _, _). q > counter_of s tn i) (new_rows now (counter_of s tn i) evs) =
      new_rows now (counter_of s tn i) evs"
    by (intro filter_True) auto
  ultimately show ?thesis by (simp add: commit_events_log)
qed

lemma new_rows_events: "map (\<lambda>(q, e, _). (q, e)) (new_rows now c evs) = zip (seq_range c (length evs)) evs"
proof (induction evs arbitrary: c)
  case (Cons e evs)
  then show ?case by (simp add: new_rows_def)
qed (simp add: new_rows_def)

lemma sorted_replay_split:
  assumes "sorted_wrt (<) (map fst l)"
  shows "l = filter (\<lambda>e. fst e \<le> k) l @ filter (\<lambda>e. fst e > (k :: nat)) l"
  using assms
proof (induction l)
  case (Cons a l)
  show ?case
  proof (cases "fst a \<le> k")
    case True
    with Cons show ?thesis by simp
  next
    case False
    with Cons.prems have "filter (\<lambda>e. fst e \<le> k) l = []" "filter (\<lambda>e. fst e > k) l = l"
      by (auto simp: filter_empty_conv intro!: filter_True)
    with False show ?thesis by simp
  qed
qed simp

section \<open>Terminal tasks\<close>

text \<open>The operations that check the state of the task they write, and those that write no task.\<close>

fun respects_terminal :: "store_op \<Rightarrow> bool" where
  "respects_terminal (OpUpdateStatus now tn i ow st) = True"
| "respects_terminal (OpStatusAtomic now tn i ow st evs) = True"
| "respects_terminal (OpUpdateAtomic now tn ow t evs) = True"
| "respects_terminal (OpSetCancel tn i ow) = True"
| "respects_terminal (OpCreateConfig uuid tn cfg) = True"
| "respects_terminal (OpDeleteConfig tn i c) = True"
| "respects_terminal (OpClaimCall c) = True"
| "respects_terminal (OpRecordPending now tn ow i q) = True"
| "respects_terminal (OpDeletePending tn i q) = True"
| "respects_terminal _ = False"

lemma row_terminal_iff: "row_terminal r \<longleftrightarrow> (\<exists>st. task_state_of (s_task r) = Some st \<and> is_terminal st)"
  by (auto simp: row_terminal_def split: option.splits)

lemma check_transition_terminal_error:
  assumes "row_terminal r"
  shows "check_transition f i (s_task r) st \<noteq> Inr ()"
  using assms validate_terminal by (auto simp: row_terminal_iff check_transition_ok)

lemma terminal_step:
  assumes "get_stored s tn i = Some r" and "row_terminal r" and "respects_terminal op"
  shows "get_stored (exec op s) tn i = Some r \<and> log_of (exec op s) tn i = log_of s tn i"
proof (cases op)
  case (OpUpdateStatus now tn' i' ow st)
  show ?thesis
  proof (cases "tn' = tn \<and> i' = i")
    case True
    then have "exec op s = s"
      using OpUpdateStatus assms check_transition_terminal_error [OF assms(2)]
      by (auto simp: update_task_status_def split: sum.splits)
    with assms show ?thesis by simp
  next
    case False
    then show ?thesis
      using OpUpdateStatus assms
      by (auto simp: update_task_status_def Let_def get_put_stored split: option.splits sum.splits)
  qed
next
  case (OpStatusAtomic now tn' i' ow st evs)
  obtain res s' where u: "update_task_status_with_events now tn' i' ow st evs s = (res, s')" by fastforce
  then show ?thesis
  proof (cases rule: update_status_with_events_cases)
    case failed
    then show ?thesis using u OpStatusAtomic assms by simp
  next
    case (committed r' c n t' evs')
    have "\<not> (tn' = tn \<and> i' = i)"
      using committed(1,3,5) assms validate_terminal by (auto simp: row_terminal_iff)
    moreover have "log_of (x\<lparr>pending_dispatches := y\<rparr>) = log_of x"
      "get_stored (x\<lparr>pending_dispatches := y\<rparr>) = get_stored x" for x y
      by (simp_all add: log_of_def get_stored_def fun_eq_iff)
    ultimately show ?thesis
      using committed(11) u OpStatusAtomic assms(1)
      by (auto simp: get_put_stored commit_events_log)
  qed
next
  case (OpUpdateAtomic now tn' ow t evs)
  obtain res s' where u: "update_task_with_events now tn' ow t evs s = (res, s')" by fastforce
  then show ?thesis
  proof (cases rule: update_task_with_events_cases)
    case (committed r')
    have "\<not> (tn' = tn \<and> tk_id t = i)" using committed(1,3) assms by auto
    then show ?thesis
      using committed(5) u OpUpdateAtomic assms(1) by (auto simp: get_put_stored commit_events_log)
  qed (use u OpUpdateAtomic assms in simp_all)
next
  case (OpSetCancel tn' i' ow)
  then show ?thesis
    using assms by (auto simp: set_cancel_requested_def get_put_stored row_terminal_iff split: option.splits)
qed (use assms in \<open>simp_all add: get_stored_def log_of_def create_config_quiet delete_config_def Let_def
      record_pending_dispatch_def delete_pending_dispatch_def\<close>)

lemma terminal_run:
  assumes "get_stored s tn i = Some r" and "row_terminal r" and "\<forall>op \<in> set ops. respects_terminal op"
  shows "get_stored (fold exec ops s) tn i = Some r \<and> log_of (fold exec ops s) tn i = log_of s tn i"
  using assms
proof (induction ops arbitrary: s)
  case (Cons op ops)
  then show ?case using terminal_step [OF Cons.prems(1,2), of op] by auto
qed simp

section \<open>Pending-dispatch markers\<close>

lemma write_markers_get:
  "hm_get (write_markers now tn i ow rows m) key =
     (if \<exists>q e at. key = (tn, i, q) \<and> (q, e, at) \<in> set rows \<and> event_is_terminal e \<and> is_status_update e
      then Some \<lparr>spd_owner = ow, spd_recorded_at = now\<rparr> else hm_get m key)"
  by (induction now tn i ow rows m rule: write_markers.induct) (auto simp: hm_simps)

lemma new_rows_member: "(\<exists>at. (q, e, at) \<in> set (new_rows now c evs)) \<longleftrightarrow> (q, e) \<in> set (zip (seq_range c (length evs)) evs)"
proof (induction evs arbitrary: c)
  case (Cons a evs)
  have "new_rows now c (a # evs) = (Suc c, a, now) # new_rows now (Suc c) evs" by (simp add: new_rows_def)
  then show ?case using Cons.IH [of "Suc c"] by auto
qed (simp add: new_rows_def)

text \<open>What a status commit did, in one record of facts.\<close>

definition status_committed ::
  "instant \<Rightarrow> string \<Rightarrow> string \<Rightarrow> string \<Rightarrow> pb_task_status \<Rightarrow> stream_event list \<Rightarrow> store \<Rightarrow> pb_task \<Rightarrow>
   nat list \<Rightarrow> store \<Rightarrow> bool" where
  "status_committed now tn i ow st evs s t seqs s' \<longleftrightarrow>
     (\<exists>r evs'. get_stored s tn i = Some r \<and> s_owner r = ow \<and> \<not> row_terminal r \<and>
        (t, evs') = stamp_status now ((s_task r)\<lparr>tk_status := Some st\<rparr>) evs \<and>
        status_state st = Inr (the (task_state_of t)) \<and>
        seqs = seq_range (counter_of s tn i) (length evs) \<and>
        map_option s_task (get_stored s' tn i) = Some t \<and>
        counter_of s' tn i = counter_of s tn i + length evs \<and>
        get_events_after tn i (counter_of s tn i) s' = Inr (zip seqs evs') \<and>
        (\<forall>q. hm_get (pending_dispatches s') (tn, i, q) =
          (if push_dispatch_enabled s \<and> task_has_configs s tn i \<and>
              (\<exists>e. (q, e) \<in> set (zip seqs evs') \<and> event_is_terminal e \<and> is_status_update e)
           then Some \<lparr>spd_owner = ow, spd_recorded_at = now\<rparr>
           else hm_get (pending_dispatches s) (tn, i, q))))"

lemma status_commit_spec:
  assumes "log_ok s tn i" and "update_task_status_with_events now tn i ow st evs s = (Inr (t, seqs), s')"
  shows "status_committed now tn i ow st evs s t seqs s'"
  using assms(2)
proof (cases rule: update_status_with_events_cases)
  case (committed r c n t' evs')
  have len: "length evs' = length evs"
    using committed(7) stamp_status_frame(3) [of now "(s_task r)\<lparr>tk_status := Some st\<rparr>" evs] by simp
  have eq: "t = t'" "seqs = seq_range (counter_of s tn i) (length evs)" using committed(10) by auto
  have upd: "log_of (x\<lparr>pending_dispatches := y\<rparr>) = log_of x"
    "counter_of (x\<lparr>pending_dispatches := y\<rparr>) = counter_of x" for x y
    by (simp_all add: log_of_def counter_of_def fun_eq_iff)
  have log: "log_of s' tn i = log_of (snd (commit_events now tn i evs' s)) tn i"
    and cnt: "counter_of s' tn i = counter_of s tn i + length evs"
    unfolding committed(11) by (simp_all add: upd commit_events_counter len)
  have ev: "get_events_after tn i (counter_of s tn i) s' = Inr (zip seqs evs')"
    unfolding get_events_after_log log commit_replay [OF assms(1)] new_rows_events eq(2) len ..
  have row: "map_option s_task (get_stored s' tn i) = Some t"
    unfolding committed(11) eq(1) by (simp add: get_put_stored)
  have nt: "\<not> row_terminal r" using committed(3,5) validate_terminal by (auto simp: row_terminal_iff)
  have pend: "hm_get (pending_dispatches s') (tn, i, q) =
          (if push_dispatch_enabled s \<and> task_has_configs s tn i \<and>
              (\<exists>e. (q, e) \<in> set (zip seqs evs') \<and> event_is_terminal e \<and> is_status_update e)
           then Some \<lparr>spd_owner = ow, spd_recorded_at = now\<rparr>
           else hm_get (pending_dispatches s) (tn, i, q))" for q
  proof (cases "push_dispatch_enabled s \<and> task_has_configs s tn i")
    case True
    then have "pending_dispatches s' = write_markers now tn i ow (new_rows now (counter_of s tn i) evs')
        (pending_dispatches s)"
      unfolding committed(11) by simp
    then show ?thesis
      using True new_rows_member [of q _ now "counter_of s tn i" evs'] eq(2) len
      by (auto simp: write_markers_get)
  next
    case False
    then have "pending_dispatches s' = pending_dispatches s" unfolding committed(11) by auto
    with False show ?thesis by auto
  qed
  show ?thesis
    unfolding status_committed_def
    using committed(1,2,4,7,8) eq row ev cnt pend nt by (intro exI [of _ r] exI [of _ evs']) simp
qed simp

section \<open>Config listings\<close>

text \<open>
  Following the page tokens of \<open>list_configs\<close> or of \<open>list_configs_eligible_at_event\<close> (\<open>P\<close> selects on
  the causal floor) reads every admitted config of the task once, by ascending id, and ends.
\<close>

theorem config_pages_complete:
  assumes "reachable s" and "length (task_configs P tn i s) < fuel"
  shows "walk_pages fuel (config_fetch P tn i ps s) None = Some (task_configs P tn i s) \<and>
    sorted_wrt (<) (map pc_id (task_configs P tn i s)) \<and>
    set (task_configs P tn i s) = {spc_config v | v c. hm_get (push_configs s) (tn, i, c) = Some v \<and>
      P (spc_registered_after_event_sequence v)}"
proof -
  have k: "configs_keyed s" using reachable_inv [OF assms(1)] by (simp add: store_inv_def)
  then have wf: "hm_wf (push_configs s)" by (simp add: configs_keyed_def)
  have "sorted_wrt (<) (map pc_id (task_configs P tn i s))"
    using sorted_task_configs [of P tn i s] distinct_task_configs [OF k, of P tn i]
    by (simp add: strict_sorted_iff)
  moreover have "((tn, i, c), v) \<in> set (push_configs s) \<longleftrightarrow> hm_get (push_configs s) (tn, i, c) = Some v" for c v
    using hm.entries_get [OF wf] by (simp add: hm_entries_def)
  ultimately show ?thesis
    using config_paging.walk_complete [OF k assms(2), of ps] by (simp add: set_task_configs)
qed

section \<open>Fencing among all operations\<close>

lemma commit_claims: "commit_events now tn i evs s = (cs, s') \<Longrightarrow> push_delivery_claims s' = push_delivery_claims s"
  by (drule arg_cong [where f = "\<lambda>r. push_delivery_claims (snd r)"]) simp

lemma set_lease_claims: "push_delivery_claims (fold (set_lease tn e) ids s) = push_delivery_claims s"
  by (induction ids arbitrary: s) (auto simp: set_lease_def split: option.splits)

lemma exec_claims:
  "\<nexists>c. op = OpClaimCall c \<Longrightarrow> \<nexists>now. op = OpCleanup now \<Longrightarrow> push_delivery_claims (exec op s) = push_delivery_claims s"
  by (cases op)
    (auto simp: create_task_def update_task_def delete_task_def update_task_status_def append_message_def append_artifact_def
      set_cancel_requested_def supervisor_renew_executor_leases_def append_event_commit create_task_with_events_eq
      update_task_status_with_events_def update_task_with_events_def create_config_quiet delete_config_def
      record_pending_dispatch_def delete_pending_dispatch_def Let_def set_lease_claims
      split: option.splits sum.splits prod.splits if_splits dest: commit_claims)

definition run_ops :: "store \<Rightarrow> store_op list \<Rightarrow> store" where
  "run_ops s ops = foldl (\<lambda>s op. exec op s) s ops"

text \<open>Retention removed the row of a key at some point of a run.\<close>

fun reaped :: "push_delivery_key \<Rightarrow> store \<Rightarrow> store_op list \<Rightarrow> bool" where
  "reaped key s [] = False"
| "reaped key s (op # ops) \<longleftrightarrow>
     (case (op, claim_of s key) of (OpCleanup now, Some r) \<Rightarrow> claim_expired now r | _ \<Rightarrow> False) \<or> reaped key (exec op s) ops"

text \<open>How many attempts for a key started in a run.\<close>

fun op_attempts :: "push_delivery_key \<Rightarrow> store \<Rightarrow> store_op list \<Rightarrow> nat" where
  "op_attempts key s [] = 0"
| "op_attempts key s (op # ops) =
     (case op of OpClaimCall c \<Rightarrow> if attempt_starts key s c then 1 else 0 | _ \<Rightarrow> 0) + op_attempts key (exec op s) ops"

lemma claim_step_moves:
  assumes "claim_of s key = Some r"
  obtains "claim_of (claim_step s c) key = Some r" "\<not> attempt_starts key s c"
  | r' where "claim_of (claim_step s c) key = Some r'" "\<not> claim_terminal (cl_status r)" "cl_generation r \<le> cl_generation r'"
  by (rule mem.call_row [OF assms, of c, unfolded mem_call mem_starts]) (erule (1) that(1), erule (2) that(2))

lemma hm_get_retained: "hm_get m k = Some r \<Longrightarrow> P k r \<Longrightarrow> hm_get (hm_retain P m) k = Some r"
  unfolding hm_get_def hm_retain_def by (induction m) (auto split: if_splits)

lemma exec_moves:
  assumes "claim_of s key = Some r" and "\<not> reaped key s (op # ops)"
  obtains "claim_of (exec op s) key = Some r" "op_attempts key s [op] = 0"
  | r' where "claim_of (exec op s) key = Some r'" "\<not> claim_terminal (cl_status r)" "cl_generation r \<le> cl_generation r'"
proof (cases "(\<exists>c. op = OpClaimCall c) \<or> (\<exists>now. op = OpCleanup now)")
  case False
  then have "claim_of (exec op s) key = Some r" using exec_claims [of op s] assms(1) by (simp add: claim_of_def)
  moreover have "op_attempts key s [op] = 0" using False by (cases op) simp_all
  ultimately show thesis by (rule that(1))
next
  case True
  then show thesis
  proof
    assume "\<exists>c. op = OpClaimCall c"
    then obtain c where "op = OpClaimCall c" by blast
    then show thesis
      by (cases rule: claim_step_moves [OF assms(1), of c]) (simp_all add: that)
  next
    assume "\<exists>now. op = OpCleanup now"
    then obtain now where op: "op = OpCleanup now" by blast
    then have "\<not> claim_expired now r" using assms by simp
    then have "claim_of (exec op s) key = Some r"
      using op assms(1) cleanup_frame(6) [OF surjective_pairing, of now s] by (simp add: claim_of_def hm_get_retained)
    then show thesis by (rule that(1)) (simp add: op)
  qed
qed

theorem run_ops_generation:
  assumes "claim_of s key = Some r" and "\<not> reaped key s ops"
  shows "\<exists>r'. claim_of (run_ops s ops) key = Some r' \<and> cl_generation r \<le> cl_generation r'"
  using assms
proof (induction ops arbitrary: s r)
  case (Cons op ops)
  obtain r' where "claim_of (exec op s) key = Some r'" "cl_generation r \<le> cl_generation r'"
    using exec_moves [OF Cons.prems] by (metis order_refl)
  with Cons.IH [of "exec op s" r'] Cons.prems(2) show ?case by (auto simp: run_ops_def intro: le_trans)
qed (simp add: run_ops_def)

theorem run_ops_frozen:
  assumes "claim_of s key = Some r" and "claim_terminal (cl_status r)" and "\<not> reaped key s ops"
  shows "claim_of (run_ops s ops) key = Some r \<and> op_attempts key s ops = 0"
  using assms
proof (induction ops arbitrary: s)
  case (Cons op ops)
  have "claim_of (exec op s) key = Some r" "op_attempts key s [op] = 0"
    using exec_moves [OF Cons.prems(1,3)] Cons.prems(2) by metis+
  with Cons.IH [of "exec op s"] Cons.prems show ?case by (auto simp: run_ops_def)
qed (simp add: run_ops_def)

theorem fenced_among_ops:
  assumes "claim_delivery now key worker owner expiry s = (Inr c, s')" and "g < dc_generation c" and "\<not> reaped key s' ops"
  shows "\<exists>e e'. record_attempt_started now' key worker' g (run_ops s' ops) = (Inl e, run_ops s' ops) \<and>
    record_delivery_outcome now' key worker' g outcome (run_ops s' ops) = (Inl e', run_ops s' ops)"
proof -
  obtain r where r: "claim_of s' key = Some r" "cl_generation r = dc_generation c"
    using mem.claim_row [OF assms(1)] by auto
  obtain r' where "claim_of (run_ops s' ops) key = Some r'" "dc_generation c \<le> cl_generation r'"
    using run_ops_generation [OF r(1) assms(3)] r(2) by auto
  with assms(2) show ?thesis by (intro mem.stale_token) auto
qed

end
