(* ===== verification/Store_Example.thy ===== *)
theory Store_Example
  imports Store_Ops
begin

text \<open>
  Small concrete values for the witnesses: a task, an event, stores with one task in each kind
  of state, and a calendar (\<open>chrono\<close>) that writes an instant in unary.
\<close>

definition example_status :: "task_state \<Rightarrow> pb_task_status" where
  "example_status st = task_status_new st"

definition example_task :: "task_state \<Rightarrow> pb_task" where
  "example_task st = task_new ''task'' (example_status st)"

definition example_event :: "task_state \<Rightarrow> stream_event" where
  "example_event st = StatusUpdate \<lparr>su_task_id = ''task'', su_context_id = ''ctx'',
     su_status = example_status st\<rparr>"

definition empty_store :: "bool \<Rightarrow> store" where
  "empty_store b = with_push_dispatch_enabled b (with_retention (retention_new 60 60) store_new)"

definition example_store :: "task_state \<Rightarrow> store" where
  "example_store st = exec (OpCreateAtomic 0 ''t'' ''o'' (example_task st) [example_event st]) (empty_store True)"

lemma example_store_reachable: "reachable (example_store st)"
  unfolding example_store_def empty_store_def by (intro reachable.intros) simp

lemma example_task_state [simp]: "task_state_of (example_task st) = Some st"
  by (simp add: example_task_def example_status_def task_new_def task_status_new_def task_state_of_eq
      status_state_def)

lemma example_task_id [simp]: "tk_id (example_task st) = ''task''"
  by (simp add: example_task_def task_new_def)

definition example_row :: "task_state \<Rightarrow> stored_task" where
  "example_row st = fresh_row 0 ''t'' ''o'' (fst (stamp_status 0 (example_task st) [example_event st])) 1"

lemma example_store_row: "get_stored (example_store st) ''t'' ''task'' = Some (example_row st)"
  by (simp add: example_store_def create_task_with_events_eq Let_def get_put_stored example_row_def
      counter_of_def empty_store_def with_push_dispatch_enabled_def with_retention_def store_new_def)

lemma example_row_terminal: "row_terminal (example_row st) = is_terminal st"
  by (simp add: row_terminal_def example_row_def)

lemma example_row_owner [simp]: "s_owner (example_row st) = ''o''" "s_tenant (example_row st) = ''t''"
  by (simp_all add: example_row_def)

definition example_filter :: task_filter where
  "example_filter = \<lparr>tf_tenant = Some ''t'', tf_owner = None, tf_context_id = None, tf_status = None,
     tf_page_size = Some 1, tf_page_token = None, tf_history_length = None,
     tf_status_timestamp_after = None, tf_include_artifacts = None\<rparr>"

section \<open>A calendar\<close>

definition unary_chrono :: chrono where
  "unary_chrono = \<lparr>chr_in_range = (\<lambda>a. 0 \<le> a), chr_min = 0,
     chr_format = (\<lambda>a. replicate (nat a + 1) (CHR ''a'')),
     chr_parse = (\<lambda>s. if s = [] then None else Some (int (length s) - 1))\<rparr>"

lemma replicate_less: "replicate m (x :: char) < replicate n x \<longleftrightarrow> m < n"
proof (induction m arbitrary: n)
  case 0
  then show ?case by (cases n) simp_all
next
  case (Suc m)
  then show ?case by (cases n) simp_all
qed

lemma unary_chrono_ok: "chrono_ok unary_chrono"
proof -
  have "chr_format unary_chrono a < chr_format unary_chrono b \<longleftrightarrow> a < b"
    if "chr_in_range unary_chrono a" "chr_in_range unary_chrono b" for a b
    using that replicate_less [of "nat a + 1" "CHR ''a''" "nat b + 1"]
    by (simp add: unary_chrono_def) linarith
  then show ?thesis
    by (auto simp: chrono_ok_def) (simp_all add: unary_chrono_def)
qed

end
