(* ===== verification/Lock_Order.thy ===== *)
theory Lock_Order
  imports Main
begin

text \<open>
  The locks of \<open>InMemoryA2aStorage\<close> (\<open>storage/in_memory.rs\<close>): which guards each operation takes,
  in which order and mode, and when it drops them. A guard is awaited while the earlier ones are
  held, so operations can wait for each other. The locks are those of tokio, which are fair: an
  operation queues behind whoever already waits, so a reader can wait for a waiting writer.
  Operations that take locks in one global order never all wait; the locale \<open>ranked_plans\<close> proves
  it once for any set of plans that is so ordered.
\<close>

datatype lock = LTasks | LPushConfigs | LEventCounters | LEvents | LPending | LClaims

datatype lock_mode = Rd | Wr

datatype lock_step = Acq lock lock_mode | Rel lock

type_synonym held = "(lock \<times> lock_mode) list"

text \<open>A running operation: the guards it holds and what it has left to do.\<close>

type_synonym proc = "held \<times> lock_step list"

section \<open>The plans of the operations\<close>

datatype planned_call =
    PlanTaskRead
  | PlanTaskWrite
  | PlanCreateConfig nat
  | PlanConfigRead
  | PlanConfigDelete
  | PlanAppendEvent
  | PlanEventRead
  | PlanCounterRead
  | PlanCleanup nat nat
  | PlanAtomicTask
  | PlanAtomicStatus
  | PlanClaimRead
  | PlanClaimWrite
  | PlanPendingRead
  | PlanPendingWrite

text \<open>
  \<open>create_config\<close>: each lost race is a read, a drop, a second read and a drop; the last attempt
  writes the config under the second read guard. \<open>update_task_status_with_events\<close> reads the
  configs first when push dispatch is enabled.
\<close>

fun lock_plan :: "bool \<Rightarrow> planned_call \<Rightarrow> lock_step list" where
  "lock_plan push PlanTaskRead = [Acq LTasks Rd, Rel LTasks]"
| "lock_plan push PlanTaskWrite = [Acq LTasks Wr, Rel LTasks]"
| "lock_plan push (PlanCreateConfig lost) =
     concat (replicate lost [Acq LTasks Rd, Rel LTasks, Acq LTasks Rd, Rel LTasks]) @
     [Acq LTasks Rd, Rel LTasks, Acq LTasks Rd, Acq LPushConfigs Wr, Rel LPushConfigs, Rel LTasks]"
| "lock_plan push PlanConfigRead = [Acq LPushConfigs Rd, Rel LPushConfigs]"
| "lock_plan push PlanConfigDelete = [Acq LPushConfigs Wr, Rel LPushConfigs]"
| "lock_plan push PlanAppendEvent = [Acq LEventCounters Wr, Acq LEvents Wr, Rel LEvents, Rel LEventCounters]"
| "lock_plan push PlanEventRead = [Acq LEvents Rd, Rel LEvents]"
| "lock_plan push PlanCounterRead = [Acq LEventCounters Rd, Rel LEventCounters]"
| "lock_plan push (PlanCleanup m n) = [Acq LClaims Wr, Rel LClaims] @
     concat (replicate m [Acq LTasks Wr, Rel LTasks]) @ concat (replicate n [Acq LEvents Wr, Rel LEvents])"
| "lock_plan push PlanAtomicTask = [Acq LTasks Wr, Acq LEventCounters Wr, Acq LEvents Wr,
     Rel LEvents, Rel LEventCounters, Rel LTasks]"
| "lock_plan push PlanAtomicStatus =
     (if push
      then [Acq LPushConfigs Rd, Acq LTasks Wr, Acq LEventCounters Wr, Acq LEvents Wr, Acq LPending Wr,
            Rel LPending, Rel LEvents, Rel LEventCounters, Rel LTasks, Rel LPushConfigs]
      else [Acq LTasks Wr, Acq LEventCounters Wr, Acq LEvents Wr, Rel LEvents, Rel LEventCounters, Rel LTasks])"
| "lock_plan push PlanClaimRead = [Acq LClaims Rd, Rel LClaims]"
| "lock_plan push PlanClaimWrite = [Acq LClaims Wr, Rel LClaims]"
| "lock_plan push PlanPendingRead = [Acq LPending Rd, Rel LPending]"
| "lock_plan push PlanPendingWrite = [Acq LPending Wr, Rel LPending]"

section \<open>Running them\<close>

definition conflicts :: "lock_mode \<Rightarrow> lock_mode \<Rightarrow> bool" where
  "conflicts a b \<longleftrightarrow> a = Wr \<or> b = Wr"

text \<open>
  Who waits for each lock, in the order they came. A guard is granted to the first who waits, when
  no other operation holds a conflicting one.
\<close>

type_synonym system = "proc list \<times> (lock \<Rightarrow> nat list)"

definition grantable :: "proc list \<Rightarrow> nat \<Rightarrow> lock \<Rightarrow> lock_mode \<Rightarrow> bool" where
  "grantable ps i l m \<longleftrightarrow> (\<forall>j<length ps. j \<noteq> i \<longrightarrow> (\<forall>(l', m') \<in> set (fst (ps ! j)). \<not> (l' = l \<and> conflicts m m')))"

inductive lock_run :: "system \<Rightarrow> system \<Rightarrow> bool" where
  enqueue: "i < length ps \<Longrightarrow> ps ! i = (h, Acq l m # rest) \<Longrightarrow> i \<notin> set (queue l) \<Longrightarrow>
    lock_run (ps, queue) (ps, queue(l := queue l @ [i]))"
| acquire: "i < length ps \<Longrightarrow> ps ! i = (h, Acq l m # rest) \<Longrightarrow> queue l = i # waiting \<Longrightarrow> grantable ps i l m \<Longrightarrow>
    lock_run (ps, queue) (ps[i := ((l, m) # h, rest)], queue(l := waiting))"
| release: "i < length ps \<Longrightarrow> ps ! i = (h, Rel l # rest) \<Longrightarrow>
    lock_run (ps, queue) (ps[i := (filter (\<lambda>x. fst x \<noteq> l) h, rest)], queue)"

inductive_cases lock_runE: "lock_run (ps, queue) st'"

definition finished :: "proc list \<Rightarrow> bool" where
  "finished ps \<longleftrightarrow> (\<forall>p \<in> set ps. snd p = [])"

definition deadlocked :: "system \<Rightarrow> bool" where
  "deadlocked st \<longleftrightarrow> \<not> finished (fst st) \<and> (\<forall>st'. \<not> lock_run st st')"

definition launch :: "('c \<Rightarrow> lock_step list) \<Rightarrow> 'c list \<Rightarrow> system" where
  "launch plan calls = (map (\<lambda>c. ([], plan c)) calls, \<lambda>_. [])"

text \<open>Who waits for a lock is about to take it, and waits once.\<close>

definition queues_ok :: "system \<Rightarrow> bool" where
  "queues_ok st \<longleftrightarrow> (\<forall>l. distinct (snd st l) \<and>
     (\<forall>i \<in> set (snd st l). i < length (fst st) \<and> (\<exists>m rest. snd (fst st ! i) = Acq l m # rest)))"

lemma queues_okD:
  assumes "queues_ok (ps, queue)" and "i \<in> set (queue l)"
  shows "i < length ps" and "\<exists>m rest. snd (ps ! i) = Acq l m # rest"
  using assms by (auto simp: queues_ok_def)

lemma queues_ok_step:
  assumes "lock_run st st'" and "queues_ok st"
  shows "queues_ok st'"
  using assms(1)
proof cases
  case (acquire i ps h l m rest queue waiting)
  then have q: "queues_ok (ps, queue)" and d: "distinct (i # waiting)"
    using assms(2) by (simp, metis queues_ok_def snd_conv)
  have "distinct ((queue(l := waiting)) l') \<and> (\<forall>j \<in> set ((queue(l := waiting)) l').
      j < length ps \<and> (\<exists>m' rest'. snd (ps[i := ((l, m) # h, rest)] ! j) = Acq l' m' # rest'))" for l'
  proof -
    have "j \<noteq> i \<and> j \<in> set (queue l')" if "j \<in> set ((queue(l := waiting)) l')" for j
    proof (cases "l' = l")
      case False
      then show ?thesis using queues_okD(2) [OF q, of j l'] acquire that by auto
    qed (use d that acquire in auto)
    moreover have "distinct ((queue(l := waiting)) l')" using q d by (simp add: queues_ok_def)
    ultimately show ?thesis using queues_okD [OF q] by (metis nth_list_update_neq)
  qed
  then show ?thesis using acquire by (simp add: queues_ok_def)
next
  case (release i ps h l rest queue)
  then have q: "queues_ok (ps, queue)" using assms(2) by simp
  have "snd (ps[i := x] ! j) = snd (ps ! j)" if "j \<in> set (queue l')" for j l' x
  proof -
    have "j \<noteq> i" using queues_okD(2) [OF q that] release by auto
    then show ?thesis by simp
  qed
  with q release show ?thesis by (simp add: queues_ok_def)
qed (use assms(2) in \<open>auto simp: queues_ok_def\<close>)

section \<open>Ordered plans never deadlock\<close>

text \<open>Every guard is awaited while only guards of smaller rank are held, and all are dropped.\<close>

fun ordered :: "(lock \<Rightarrow> nat) \<Rightarrow> held \<Rightarrow> lock_step list \<Rightarrow> bool" where
  "ordered rank h [] \<longleftrightarrow> h = []"
| "ordered rank h (Acq l m # p) \<longleftrightarrow> (\<forall>x \<in> set h. rank (fst x) < rank l) \<and> ordered rank ((l, m) # h) p"
| "ordered rank h (Rel l # p) \<longleftrightarrow> l \<in> fst ` set h \<and> ordered rank (filter (\<lambda>x. fst x \<noteq> l) h) p"

definition all_ordered :: "(lock \<Rightarrow> nat) \<Rightarrow> proc list \<Rightarrow> bool" where
  "all_ordered rank ps \<longleftrightarrow> (\<forall>p \<in> set ps. ordered rank (fst p) (snd p))"

locale ranked_plans =
  fixes rank :: "lock \<Rightarrow> nat" and plan :: "'c \<Rightarrow> lock_step list"
  assumes plan_ordered: "ordered rank [] (plan c)"
begin

lemma ordered_step: "lock_run st st' \<Longrightarrow> all_ordered rank (fst st) \<Longrightarrow> all_ordered rank (fst st')"
proof (erule lock_run.cases)
  fix i ps h l m rest queue waiting
  assume a: "all_ordered rank (fst st)" "st = (ps, queue)" "st' = (ps[i := ((l, m) # h, rest)], queue(l := waiting))"
    "i < length ps" "ps ! i = (h, Acq l m # rest)"
  then have "ordered rank h (Acq l m # rest)" by (metis all_ordered_def fst_conv snd_conv nth_mem)
  with a show "all_ordered rank (fst st')" by (auto simp: all_ordered_def dest!: subsetD [OF set_update_subset_insert])
next
  fix i ps h l rest queue
  assume a: "all_ordered rank (fst st)" "st = (ps, queue)" "st' = (ps[i := (filter (\<lambda>x. fst x \<noteq> l) h, rest)], queue)"
    "i < length ps" "ps ! i = (h, Rel l # rest)"
  then have "ordered rank h (Rel l # rest)" by (metis all_ordered_def fst_conv snd_conv nth_mem)
  with a show "all_ordered rank (fst st')" by (auto simp: all_ordered_def dest!: subsetD [OF set_update_subset_insert])
qed simp

lemma ordered_not_deadlocked:
  assumes "all_ordered rank ps" and "queues_ok (ps, queue)"
  shows "\<not> deadlocked (ps, queue)"
proof
  assume d: "deadlocked (ps, queue)"
  define W where "W = {i. i < length ps \<and> snd (ps ! i) \<noteq> []}"
  define want where "want i = (case hd (snd (ps ! i)) of Acq l m \<Rightarrow> rank l | Rel l \<Rightarrow> 0)" for i
  have ne: "W \<noteq> {}" using d by (fastforce simp: deadlocked_def finished_def W_def in_set_conv_nth)
  have fin: "finite W" by (simp add: W_def)
  have ord: "ordered rank (fst (ps ! i)) (snd (ps ! i))" if "i < length ps" for i
    using assms(1) that by (simp add: all_ordered_def)
  have acq: "\<exists>l m rest. ps ! i = (fst (ps ! i), Acq l m # rest) \<and> i \<in> set (queue l)" if "i \<in> W" for i
  proof (cases "snd (ps ! i)")
    case (Cons s rest)
    show ?thesis
    proof (cases s)
      case (Rel l)
      then have "ps ! i = (fst (ps ! i), Rel l # rest)" using Cons by (metis prod.collapse)
      with that d have False unfolding deadlocked_def W_def by (blast intro: lock_run.release)
      then show ?thesis ..
    next
      case (Acq l m)
      then have next_step: "ps ! i = (fst (ps ! i), Acq l m # rest)" using Cons by (metis prod.collapse)
      with that d have "i \<in> set (queue l)" unfolding deadlocked_def W_def by (blast intro: lock_run.enqueue)
      with next_step show ?thesis by blast
    qed
  qed (use that in \<open>simp add: W_def\<close>)
  have "Max (want ` W) \<in> want ` W" using fin ne by (intro Max_in) auto
  then obtain i where "i \<in> W" "want i = Max (want ` W)" by auto
  then have i: "i \<in> W" "\<forall>j \<in> W. want j \<le> want i" using fin by simp_all
  obtain l m rest where li: "ps ! i = (fst (ps ! i), Acq l m # rest)" "i \<in> set (queue l)" using acq [OF i(1)] by blast
  obtain f waiting where first: "queue l = f # waiting" using li(2) by (cases "queue l") auto
  then obtain m' rest' where lf: "f < length ps" "snd (ps ! f) = Acq l m' # rest'"
    using queues_okD [OF assms(2), of f l] by auto
  then have "ps ! f = (fst (ps ! f), Acq l m' # rest')" by (metis prod.collapse)
  with d lf(1) first have "\<not> grantable ps f l m'" unfolding deadlocked_def by (blast intro: lock_run.acquire)
  then obtain j mj where j: "j < length ps" "(l, mj) \<in> set (fst (ps ! j))"
    by (auto simp: grantable_def)
  then have jW: "j \<in> W" using ord [OF j(1)] by (cases "snd (ps ! j)") (auto simp: W_def)
  obtain l2 m2 rest2 where lj: "ps ! j = (fst (ps ! j), Acq l2 m2 # rest2)" using acq [OF jW] by blast
  have "snd (ps ! j) = Acq l2 m2 # rest2" "snd (ps ! i) = Acq l m # rest" using lj li by (metis snd_conv)+
  moreover have "rank l < rank l2"
    using ord [OF j(1)] j(2) \<open>snd (ps ! j) = _\<close> by auto
  ultimately show False using i(2) jW by (auto simp: want_def)
qed

theorem no_deadlock:
  assumes "lock_run\<^sup>*\<^sup>* (launch plan calls) st"
  shows "\<not> deadlocked st"
proof -
  have "all_ordered rank (fst st) \<and> queues_ok st"
    using assms
  proof (induction rule: rtranclp_induct)
    case base
    show ?case by (simp add: all_ordered_def launch_def plan_ordered queues_ok_def)
  qed (blast intro: ordered_step queues_ok_step)
  then show ?thesis by (cases st) (simp add: ordered_not_deadlocked)
qed

end

section \<open>The store without push dispatch\<close>

definition lock_rank :: "lock \<Rightarrow> nat" where
  "lock_rank l = (case l of LTasks \<Rightarrow> 0 | LPushConfigs \<Rightarrow> 1 | LEventCounters \<Rightarrow> 2 | LEvents \<Rightarrow> 3
     | LPending \<Rightarrow> 4 | LClaims \<Rightarrow> 5)"

lemma ordered_repeat:
  assumes "\<And>q. ordered rank [] q \<Longrightarrow> ordered rank [] (p @ q)" and "ordered rank [] q"
  shows "ordered rank [] (concat (replicate n p) @ q)"
  by (induction n) (simp_all add: assms)

interpretation store_locks: ranked_plans lock_rank "lock_plan False"
proof
  fix c
  have nil: "ordered lock_rank [] (concat (replicate n p))"
    if "\<And>q. ordered lock_rank [] q \<Longrightarrow> ordered lock_rank [] (p @ q)" for n p
    using ordered_repeat [of lock_rank p "[]" n] that by simp
  show "ordered lock_rank [] (lock_plan False c)"
    by (cases c) (auto simp: lock_rank_def intro!: ordered_repeat nil)
qed

section \<open>With push dispatch\<close>

text \<open>
  A status commit holding the config guard and waiting for the tasks, and a config creation
  holding a task guard and waiting for the configs.
\<close>

definition stuck :: system where
  "stuck = ([([(LTasks, Rd)], [Acq LPushConfigs Wr, Rel LPushConfigs, Rel LTasks]),
      ([(LPushConfigs, Rd)], [Acq LTasks Wr, Acq LEventCounters Wr, Acq LEvents Wr, Acq LPending Wr,
        Rel LPending, Rel LEvents, Rel LEventCounters, Rel LTasks, Rel LPushConfigs])],
    (\<lambda>_. [])(LPushConfigs := [0], LTasks := [1]))"

text \<open>A lock nobody waits for and nobody holds in a conflicting mode is taken at once.\<close>

lemma taken_at_once:
  assumes "i < length ps" and "ps ! i = (h, Acq l m # rest)" and "queue l = []" and "grantable ps i l m"
  shows "lock_run\<^sup>*\<^sup>* (ps, queue) (ps[i := ((l, m) # h, rest)], queue)"
proof -
  have "lock_run (ps, queue) (ps, queue(l := [i]))"
    using lock_run.enqueue [of i ps h l m rest queue] assms by simp
  moreover have "lock_run (ps, queue(l := [i])) (ps[i := ((l, m) # h, rest)], queue)"
    using lock_run.acquire [of i ps h l m rest "queue(l := [i])" "[]"] assms fun_upd_triv [of queue l] by simp
  ultimately show ?thesis by (meson converse_rtranclp_into_rtranclp rtranclp.rtrancl_refl)
qed

lemma stuck_reachable: "lock_run\<^sup>*\<^sup>* (launch (lock_plan True) [PlanCreateConfig 0, PlanAtomicStatus]) stuck"
proof -
  let ?c = "[Acq LPushConfigs Wr, Rel LPushConfigs, Rel LTasks]"
  let ?p = "lock_plan True PlanAtomicStatus"
  let ?r = "tl ?p"
  let ?none = "\<lambda>_ :: lock. [] :: nat list"
  have a: "launch (lock_plan True) [PlanCreateConfig 0, PlanAtomicStatus] =
      ([([], [Acq LTasks Rd, Rel LTasks, Acq LTasks Rd] @ ?c), ([], ?p)], ?none)"
    by (simp add: launch_def)
  have "lock_run\<^sup>*\<^sup>* ([([], [Acq LTasks Rd, Rel LTasks, Acq LTasks Rd] @ ?c), ([], ?p)], ?none)
      ([([(LTasks, Rd)], [Rel LTasks, Acq LTasks Rd] @ ?c), ([], ?p)], ?none)"
    using taken_at_once [of 0 "[([], [Acq LTasks Rd, Rel LTasks, Acq LTasks Rd] @ ?c), ([], ?p)]" _ _ _ _ ?none]
    by (auto simp: grantable_def less_Suc_eq)
  moreover have "lock_run ([([(LTasks, Rd)], [Rel LTasks, Acq LTasks Rd] @ ?c), ([], ?p)], ?none)
      ([([], [Acq LTasks Rd] @ ?c), ([], ?p)], ?none)"
    using lock_run.release [of 0 "[([(LTasks, Rd)], [Rel LTasks, Acq LTasks Rd] @ ?c), ([], ?p)]" _ _ _ ?none] by auto
  moreover have "lock_run\<^sup>*\<^sup>* ([([], [Acq LTasks Rd] @ ?c), ([], ?p)], ?none) ([([(LTasks, Rd)], ?c), ([], ?p)], ?none)"
    using taken_at_once [of 0 "[([], [Acq LTasks Rd] @ ?c), ([], ?p)]" _ _ _ _ ?none]
    by (auto simp: grantable_def less_Suc_eq)
  moreover have "lock_run\<^sup>*\<^sup>* ([([(LTasks, Rd)], ?c), ([], ?p)], ?none)
      ([([(LTasks, Rd)], ?c), ([(LPushConfigs, Rd)], ?r)], ?none)"
    using taken_at_once [of 1 "[([(LTasks, Rd)], ?c), ([], ?p)]" _ _ _ _ ?none]
    by (auto simp: grantable_def less_Suc_eq)
  moreover have "lock_run ([([(LTasks, Rd)], ?c), ([(LPushConfigs, Rd)], ?r)], ?none)
      ([([(LTasks, Rd)], ?c), ([(LPushConfigs, Rd)], ?r)], ?none(LPushConfigs := [0]))"
    using lock_run.enqueue [of 0 "[([(LTasks, Rd)], ?c), ([(LPushConfigs, Rd)], ?r)]" _ _ _ _ ?none] by simp
  moreover have "lock_run ([([(LTasks, Rd)], ?c), ([(LPushConfigs, Rd)], ?r)], ?none(LPushConfigs := [0])) stuck"
    using lock_run.enqueue [of 1 "[([(LTasks, Rd)], ?c), ([(LPushConfigs, Rd)], ?r)]" _ LTasks _ _ "?none(LPushConfigs := [0])"]
    by (simp add: stuck_def)
  ultimately show ?thesis unfolding a by (meson rtranclp.rtrancl_into_rtrancl rtranclp_trans)
qed

lemma stuck_deadlocked: "deadlocked stuck"
proof -
  have "\<not> lock_run stuck st'" for st'
  proof
    assume "lock_run stuck st'"
    then show False
      by cases (auto simp: stuck_def less_Suc_eq grantable_def conflicts_def split: if_splits)
  qed
  then show ?thesis by (simp add: deadlocked_def finished_def stuck_def)
qed

end
