(* ===== verification/Server_Error.thy ===== *)
theory Server_Error
  imports Storage_Types
begin

text \<open>
  \<open>error.rs\<close>, \<open>storage/error.rs\<close> (its messages), \<open>grpc/error.rs\<close> and the error tables of
  \<open>turul-a2a-types/src/wire.rs\<close>: the server's error type, its codes on the three bindings,
  the bodies it is rendered to, and the translation of storage errors. JSON is a datatype of
  its own; \<open>json!\<close> objects keep the order they are written in.
\<close>

section \<open>JSON values\<close>

text \<open>A number that is not an integer is kept by its text.\<close>

datatype json =
    JNull
  | JBool bool
  | JInt int
  | JFloat string
  | JString string
  | JArray "json list"
  | JObject "(string \<times> json) list"

fun json_get :: "string \<Rightarrow> json \<Rightarrow> json option" where
  "json_get k (JObject fs) = map_of fs k"
| "json_get k _ = None"

section \<open>Messages of the error types\<close>

text \<open>\<open>\{:?\}\<close> of a \<open>TaskState\<close>: the variant's name.\<close>

fun state_debug :: "task_state \<Rightarrow> string" where
  "state_debug Submitted = ''Submitted''"
| "state_debug Working = ''Working''"
| "state_debug Completed = ''Completed''"
| "state_debug Failed = ''Failed''"
| "state_debug Canceled = ''Canceled''"
| "state_debug InputRequired = ''InputRequired''"
| "state_debug Rejected = ''Rejected''"
| "state_debug AuthRequired = ''AuthRequired''"

fun type_error_text :: "a2a_type_error \<Rightarrow> string" where
  "type_error_text (TE_InvalidTransition c r) =
     ''Invalid state transition: '' @ state_debug c @ '' -> '' @ state_debug r"
| "type_error_text (TE_TerminalState s) = ''Task is in terminal state: '' @ state_debug s"
| "type_error_text TE_InvalidState =
     ''Invalid state: UNSPECIFIED is not a valid application state''"
| "type_error_text (TE_MissingField f) = ''Missing required field: '' @ f"
| "type_error_text (TE_Deserialization m) = ''Deserialization error: '' @ m"

text \<open>The dash in the message of a stale claim, in UTF-8.\<close>

definition em_dash :: string where
  "em_dash = [CHR 0xE2, CHR 0x80, CHR 0x94]"

fun storage_error_text :: "storage_error \<Rightarrow> string" where
  "storage_error_text (SE_TaskNotFound i) = ''Task not found: '' @ i"
| "storage_error_text (SE_InvalidTransition i c r) =
     ''Invalid state transition for task '' @ i @ '': '' @ state_debug c @ '' -> '' @ state_debug r"
| "storage_error_text (SE_TerminalState i s) =
     ''Task '' @ i @ '' is in terminal state: '' @ state_debug s"
| "storage_error_text (SE_TerminalStateAlreadySet i s) =
     ''task '' @ i @ '' already in terminal state '' @ s @ '' (CAS loser)''"
| "storage_error_text (SE_OwnerMismatch i) = ''Owner mismatch for task: '' @ i"
| "storage_error_text (SE_TenantMismatch i) = ''Tenant mismatch for task: '' @ i"
| "storage_error_text (SE_ConcurrentModification m) = ''Concurrent modification: '' @ m"
| "storage_error_text (SE_PushConfigNotFound m) = ''Push notification config not found: '' @ m"
| "storage_error_text (SE_ClaimAlreadyHeld t i q c) =
     ''push delivery claim already held: tenant='' @ t @ '' task_id='' @ i @
     '' event_sequence='' @ show_nat q @ '' config_id='' @ c"
| "storage_error_text (SE_StaleDeliveryClaim t i q c) =
     ''stale push delivery claim: tenant='' @ t @ '' task_id='' @ i @
     '' event_sequence='' @ show_nat q @ '' config_id='' @ c @
     '' '' @ em_dash @ '' recorded outcome dropped because the claim was re-acquired by another claimant or generation''"
| "storage_error_text (SE_CreateConfigCasTimeout t i) =
     ''create_config CAS exhausted retries for tenant='' @ t @ '' task_id='' @ i @
     '': concurrent event commits kept advancing latest_event_sequence''"
| "storage_error_text (SE_InvalidListRequest m) = m"
| "storage_error_text (SE_DatabaseError m) = ''Database error: '' @ m"
| "storage_error_text (SE_SerializationError m) = ''Serialization error: '' @ m"
| "storage_error_text (SE_TypeError e) = ''Type error: '' @ type_error_text e"
| "storage_error_text (SE_Generic m) = ''Generic storage error: '' @ m"

section \<open>\<open>A2aError\<close>\<close>

datatype a2a_error =
    TaskNotFound string
  | TaskNotCancelable string
  | PushNotificationNotSupported
  | UnsupportedOperation string
  | ContentTypeNotSupported string
  | InvalidAgentResponse string
  | ExtendedAgentCardNotConfigured
  | ExtensionSupportRequired string
  | VersionNotSupported string
  | InvalidRequest string
  | Internal string

fun a2a_error_text :: "a2a_error \<Rightarrow> string" where
  "a2a_error_text (TaskNotFound i) = ''Task not found: '' @ i"
| "a2a_error_text (TaskNotCancelable i) = ''Task not cancelable: '' @ i"
| "a2a_error_text PushNotificationNotSupported = ''Push notifications not supported''"
| "a2a_error_text (UnsupportedOperation m) = ''Unsupported operation: '' @ m"
| "a2a_error_text (ContentTypeNotSupported c) = ''Content type not supported: '' @ c"
| "a2a_error_text (InvalidAgentResponse m) = ''Invalid agent response: '' @ m"
| "a2a_error_text ExtendedAgentCardNotConfigured = ''Extended agent card not configured''"
| "a2a_error_text (ExtensionSupportRequired e) = ''Extension support required: '' @ e"
| "a2a_error_text (VersionNotSupported v) = ''Version not supported: '' @ v"
| "a2a_error_text (InvalidRequest m) = ''Invalid request: '' @ m"
| "a2a_error_text (Internal m) = ''Internal error: '' @ m"

fun http_status :: "a2a_error \<Rightarrow> nat" where
  "http_status (TaskNotFound _) = 404"
| "http_status (TaskNotCancelable _) = 400"
| "http_status PushNotificationNotSupported = 400"
| "http_status (UnsupportedOperation _) = 400"
| "http_status (ContentTypeNotSupported _) = 400"
| "http_status (InvalidAgentResponse _) = 500"
| "http_status ExtendedAgentCardNotConfigured = 400"
| "http_status (ExtensionSupportRequired _) = 400"
| "http_status (VersionNotSupported _) = 400"
| "http_status (InvalidRequest _) = 400"
| "http_status (Internal _) = 500"

fun jsonrpc_code :: "a2a_error \<Rightarrow> int" where
  "jsonrpc_code (TaskNotFound _) = -32001"
| "jsonrpc_code (TaskNotCancelable _) = -32002"
| "jsonrpc_code PushNotificationNotSupported = -32003"
| "jsonrpc_code (UnsupportedOperation _) = -32004"
| "jsonrpc_code (ContentTypeNotSupported _) = -32005"
| "jsonrpc_code (InvalidAgentResponse _) = -32006"
| "jsonrpc_code ExtendedAgentCardNotConfigured = -32007"
| "jsonrpc_code (ExtensionSupportRequired _) = -32008"
| "jsonrpc_code (VersionNotSupported _) = -32009"
| "jsonrpc_code (InvalidRequest _) = -32602"
| "jsonrpc_code (Internal _) = -32603"

fun error_reason :: "a2a_error \<Rightarrow> string option" where
  "error_reason (TaskNotFound _) = Some ''TASK_NOT_FOUND''"
| "error_reason (TaskNotCancelable _) = Some ''TASK_NOT_CANCELABLE''"
| "error_reason PushNotificationNotSupported = Some ''PUSH_NOTIFICATION_NOT_SUPPORTED''"
| "error_reason (UnsupportedOperation _) = Some ''UNSUPPORTED_OPERATION''"
| "error_reason (ContentTypeNotSupported _) = Some ''CONTENT_TYPE_NOT_SUPPORTED''"
| "error_reason (InvalidAgentResponse _) = Some ''INVALID_AGENT_RESPONSE''"
| "error_reason ExtendedAgentCardNotConfigured = Some ''EXTENDED_AGENT_CARD_NOT_CONFIGURED''"
| "error_reason (ExtensionSupportRequired _) = Some ''EXTENSION_SUPPORT_REQUIRED''"
| "error_reason (VersionNotSupported _) = Some ''VERSION_NOT_SUPPORTED''"
| "error_reason (InvalidRequest _) = None"
| "error_reason (Internal _) = None"

fun grpc_status :: "a2a_error \<Rightarrow> string" where
  "grpc_status (TaskNotFound _) = ''NOT_FOUND''"
| "grpc_status (TaskNotCancelable _) = ''FAILED_PRECONDITION''"
| "grpc_status PushNotificationNotSupported = ''FAILED_PRECONDITION''"
| "grpc_status (UnsupportedOperation _) = ''FAILED_PRECONDITION''"
| "grpc_status (ContentTypeNotSupported _) = ''INVALID_ARGUMENT''"
| "grpc_status (InvalidAgentResponse _) = ''INTERNAL''"
| "grpc_status ExtendedAgentCardNotConfigured = ''FAILED_PRECONDITION''"
| "grpc_status (ExtensionSupportRequired _) = ''FAILED_PRECONDITION''"
| "grpc_status (VersionNotSupported _) = ''FAILED_PRECONDITION''"
| "grpc_status (InvalidRequest _) = ''INVALID_ARGUMENT''"
| "grpc_status (Internal _) = ''INTERNAL''"

section \<open>Bodies\<close>

definition ERROR_DOMAIN :: string where
  "ERROR_DOMAIN = ''a2a-protocol.org''"

definition ERROR_INFO_TYPE :: string where
  "ERROR_INFO_TYPE = ''type.googleapis.com/google.rpc.ErrorInfo''"

record error_info =
  ei_reason :: string
  ei_domain :: string
  ei_metadata :: "(string \<times> string) list"

definition error_info_new :: "string \<Rightarrow> string \<Rightarrow> error_info" where
  "error_info_new r d = \<lparr>ei_reason = r, ei_domain = d, ei_metadata = []\<rparr>"

text \<open>\<open>BTreeMap::insert\<close>, on a list sorted by key.\<close>

definition btree_insert :: "string \<Rightarrow> 'v \<Rightarrow> (string \<times> 'v) list \<Rightarrow> (string \<times> 'v) list" where
  "btree_insert k v m = insort_key fst (k, v) (filter (\<lambda>(k', _). k' \<noteq> k) m)"

definition error_info_with_metadata :: "string \<Rightarrow> string \<Rightarrow> error_info \<Rightarrow> error_info" where
  "error_info_with_metadata k v e = e\<lparr>ei_metadata :=
     btree_insert k v (ei_metadata e)\<rparr>"

definition json_of_error_info :: "error_info \<Rightarrow> json" where
  "json_of_error_info e = JObject
     ([(''@type'', JString ERROR_INFO_TYPE), (''reason'', JString (ei_reason e)),
       (''domain'', JString (ei_domain e))] @
      (if ei_metadata e = [] then []
       else [(''metadata'', JObject (map (\<lambda>(k, v). (k, JString v)) (ei_metadata e)))]))"

text \<open>The metadata object, which may be absent, must hold strings only.\<close>

fun metadata_of_json :: "json option \<Rightarrow> (string \<times> string) list option" where
  "metadata_of_json None = Some []"
| "metadata_of_json (Some (JObject fs)) =
     map_option (\<lambda>kvs. fold (\<lambda>(k, v). btree_insert k v) kvs [])
       (those (map (\<lambda>(k, v). case v of JString s \<Rightarrow> Some (k, s) | _ \<Rightarrow> None) fs))"
| "metadata_of_json (Some _) = None"

definition error_info_of_json :: "json \<Rightarrow> error_info option" where
  "error_info_of_json j = (case (json_get ''@type'' j, json_get ''reason'' j, json_get ''domain'' j) of
       (Some (JString ty), Some (JString r), Some (JString d)) \<Rightarrow>
         (case metadata_of_json (json_get ''metadata'' j) of
            None \<Rightarrow> None
          | Some md \<Rightarrow> if ty = ERROR_INFO_TYPE
              then Some \<lparr>ei_reason = r, ei_domain = d, ei_metadata = md\<rparr> else None)
     | _ \<Rightarrow> None)"

definition error_info_json :: "a2a_error \<Rightarrow> json option" where
  "error_info_json e =
     map_option (\<lambda>r. json_of_error_info (error_info_new r ERROR_DOMAIN)) (error_reason e)"

definition to_http_error_body :: "a2a_error \<Rightarrow> json" where
  "to_http_error_body e = JObject [(''error'', JObject
     ([(''code'', JInt (int (http_status e))), (''status'', JString (grpc_status e)),
       (''message'', JString (a2a_error_text e))] @
      (case error_info_json e of None \<Rightarrow> [] | Some i \<Rightarrow> [(''details'', JArray [i])])))]"

definition to_jsonrpc_error :: "a2a_error \<Rightarrow> json option \<Rightarrow> json" where
  "to_jsonrpc_error e req_id = JObject
     [(''jsonrpc'', JString ''2.0''),
      (''id'', case req_id of None \<Rightarrow> JNull | Some v \<Rightarrow> v),
      (''error'', JObject
        ([(''code'', JInt (jsonrpc_code e)), (''message'', JString (a2a_error_text e))] @
         (case error_info_json e of None \<Rightarrow> [] | Some i \<Rightarrow> [(''data'', JArray [i])])))]"

section \<open>gRPC\<close>

datatype grpc_code = CodeNotFound | CodeFailedPrecondition | CodeInvalidArgument | CodeInternal

record grpc_error =
  ge_code :: grpc_code
  ge_message :: string
  ge_error_info :: "error_info option"

definition a2a_to_status :: "a2a_error \<Rightarrow> grpc_error" where
  "a2a_to_status e = \<lparr>
     ge_code = (if grpc_status e = ''NOT_FOUND'' then CodeNotFound
       else if grpc_status e = ''FAILED_PRECONDITION'' then CodeFailedPrecondition
       else if grpc_status e = ''INVALID_ARGUMENT'' then CodeInvalidArgument
       else CodeInternal),
     ge_message = a2a_error_text e,
     ge_error_info = map_option (\<lambda>r. error_info_new r ERROR_DOMAIN) (error_reason e)\<rparr>"

section \<open>Storage errors on the wire\<close>

fun a2a_of_storage :: "storage_error \<Rightarrow> a2a_error" where
  "a2a_of_storage (SE_TaskNotFound i) = TaskNotFound i"
| "a2a_of_storage (SE_TerminalState i _) = TaskNotCancelable i"
| "a2a_of_storage (SE_TerminalStateAlreadySet i _) = TaskNotCancelable i"
| "a2a_of_storage (SE_InvalidTransition i _ _) = TaskNotCancelable i"
| "a2a_of_storage (SE_InvalidListRequest m) = InvalidRequest m"
| "a2a_of_storage e = Internal (storage_error_text e)"

section \<open>Reading an error back\<close>

lemma error_info_round_trip:
  "error_info_of_json (json_of_error_info (error_info_new r d)) = Some (error_info_new r d)"
  by (simp add: error_info_of_json_def json_of_error_info_def error_info_new_def)

lemma a2a_of_storage_not_found: "a2a_of_storage e = TaskNotFound i \<longleftrightarrow> e = SE_TaskNotFound i"
  by (cases e) auto

lemma a2a_of_storage_not_cancelable:
  "a2a_of_storage e = TaskNotCancelable i \<longleftrightarrow>
     (\<exists>s. e = SE_TerminalState i s) \<or> (\<exists>s. e = SE_TerminalStateAlreadySet i s) \<or>
     (\<exists>c r. e = SE_InvalidTransition i c r)"
  by (cases e) auto

end
