(* ===== verification/Server_State.thy ===== *)
theory Server_State
  imports Server_Error Store_Ops Config_Cache
begin

text \<open>
  The state a request handler and an executor act on: the store, the broker, the in-flight
  handles and their registry (\<open>server/in_flight.rs\<close>), and the runtime configuration
  (\<open>server/mod.rs\<close>).

  Storage is behind trait objects: a call may fail without effect, and other tasks of this
  process and other instances write the store between two calls of one handler. Both are part of
  the state: \<open>sv_fault n\<close> is the error the \<open>n\<close>-th call of the handler returns, if any, and
  \<open>sv_others n\<close> is what the rest of the deployment did to the store just before it.
  \<open>store_call\<close> is the one place where a handler touches the store.
\<close>

section \<open>Runtime configuration\<close>

record runtime_config =
  blocking_task_timeout :: nat
  timeout_abort_grace :: nat
  cancel_handler_grace :: nat
  cancel_handler_poll_interval :: nat
  cancel_abort_grace :: nat
  cross_instance_cancel_poll_interval :: nat
  executor_lease_ttl :: "nat option"
  executor_stall_timeout :: "nat option"
  idle_task_timeout :: "nat option"
  push_max_attempts :: nat
  push_backoff_base :: nat
  push_backoff_cap :: nat
  push_backoff_jitter :: rat
  push_request_timeout :: nat
  push_connect_timeout :: nat
  push_read_timeout :: nat
  push_claim_expiry :: nat
  push_config_cache_ttl :: nat
  push_failed_delivery_retention :: nat
  push_max_payload_bytes :: nat
  allow_insecure_push_urls :: bool
  push_reclaim_sweep_interval :: nat
  push_reclaim_sweep_batch :: nat
  maintenance_interval :: "nat option"
  supports_return_immediately :: bool

definition runtime_config_default :: runtime_config where
  "runtime_config_default = (let push = push_delivery_config_default in
     \<lparr>blocking_task_timeout = secs 30, timeout_abort_grace = secs 5, cancel_handler_grace = secs 5,
      cancel_handler_poll_interval = 100 * 10 ^ 6, cancel_abort_grace = secs 5,
      cross_instance_cancel_poll_interval = secs 1, executor_lease_ttl = None,
      executor_stall_timeout = None, idle_task_timeout = None,
      push_max_attempts = max_attempts push, push_backoff_base = backoff_base push,
      push_backoff_cap = backoff_cap push, push_backoff_jitter = backoff_jitter push,
      push_request_timeout = request_timeout push, push_connect_timeout = connect_timeout push,
      push_read_timeout = read_timeout push, push_claim_expiry = claim_expiry push,
      push_config_cache_ttl = config_cache_ttl push,
      push_failed_delivery_retention = failed_delivery_retention push,
      push_max_payload_bytes = max_payload_bytes push,
      allow_insecure_push_urls = allow_insecure_urls push,
      push_reclaim_sweep_interval = secs 60, push_reclaim_sweep_batch = 64,
      maintenance_interval = None, supports_return_immediately = True\<rparr>)"

section \<open>In-flight handles\<close>

text \<open>
  A handle is known by its number (the identity \<open>Arc::ptr_eq\<close> compares); a tokio task too. The
  oneshot is the sender still in its slot and the task that was sent through it.
\<close>

type_synonym in_flight_key = "string \<times> string"

record in_flight_handle =
  ih_cancelled :: bool
  ih_yielded_tx :: bool
  ih_yielded :: "pb_task option"
  ih_yielded_fired :: bool
  ih_spawned :: "nat option"
  ih_abort_handle :: nat
  ih_abort_armed :: bool
  ih_terminal_committed :: bool
  ih_client_held :: bool
  ih_last_progress :: instant
  ih_identity :: "(string \<times> string) option"

definition in_flight_handle_new :: "instant \<Rightarrow> nat \<Rightarrow> in_flight_handle" where
  "in_flight_handle_new now spawned = \<lparr>ih_cancelled = False, ih_yielded_tx = True,
     ih_yielded = None, ih_yielded_fired = False, ih_spawned = Some spawned,
     ih_abort_handle = spawned, ih_abort_armed = False, ih_terminal_committed = False,
     ih_client_held = False, ih_last_progress = now, ih_identity = None\<rparr>"

definition record_progress :: "instant \<Rightarrow> in_flight_handle \<Rightarrow> in_flight_handle" where
  "record_progress now h = h\<lparr>ih_last_progress := now\<rparr>"

definition since_progress :: "instant \<Rightarrow> in_flight_handle \<Rightarrow> nat" where
  "since_progress now h = now - ih_last_progress h"

definition set_identity :: "string \<Rightarrow> string \<Rightarrow> in_flight_handle \<Rightarrow> in_flight_handle" where
  "set_identity owner context_id h = (case ih_identity h of
       None \<Rightarrow> h\<lparr>ih_identity := Some (owner, context_id)\<rparr> | Some _ \<Rightarrow> h)"

text \<open>The compare-and-set and the send; the result says whether this call won.\<close>

definition fire_yielded :: "pb_task \<Rightarrow> in_flight_handle \<Rightarrow> bool \<times> in_flight_handle" where
  "fire_yielded t h = (if ih_yielded_fired h then (False, h)
     else (True, (if ih_yielded_tx h
        then h\<lparr>ih_yielded_fired := True, ih_yielded_tx := False, ih_yielded := Some t\<rparr>
        else h\<lparr>ih_yielded_fired := True\<rparr>)))"

definition mark_terminal_committed :: "in_flight_handle \<Rightarrow> in_flight_handle" where
  "mark_terminal_committed h = h\<lparr>ih_terminal_committed := True\<rparr>"

definition set_client_held :: "bool \<Rightarrow> in_flight_handle \<Rightarrow> in_flight_handle" where
  "set_client_held held h = h\<lparr>ih_client_held := held\<rparr>"

definition set_spawned :: "nat \<Rightarrow> in_flight_handle \<Rightarrow> in_flight_handle" where
  "set_spawned task h = h\<lparr>ih_spawned := Some task, ih_abort_handle := task\<rparr>"

definition take_spawned :: "in_flight_handle \<Rightarrow> nat option \<times> in_flight_handle" where
  "take_spawned h = (ih_spawned h, h\<lparr>ih_spawned := None\<rparr>)"

text \<open>
  The oneshot carries the task of the first fire, and nothing after it.
\<close>

lemma fire_yielded_once:
  assumes "fire_yielded t h = (won, h')"
  shows "ih_yielded_fired h'"
    and "fire_yielded t' h' = (False, h')"
    and "ih_yielded_fired h \<Longrightarrow> \<not> won \<and> h' = h"
    and "\<not> ih_yielded_fired h \<Longrightarrow> ih_yielded_tx h \<Longrightarrow> won \<and> ih_yielded h' = Some t"
  using assms by (auto simp: fire_yielded_def split: if_splits)

section \<open>The server\<close>

record server =
  sv_store :: store
  sv_broker :: broker
  sv_handles :: "nat \<Rightarrow> in_flight_handle"
  sv_next :: nat
  sv_registry :: "(in_flight_key, nat) hashmap"
  sv_aborted :: "nat list"
  sv_deferred :: "(instant \<times> nat) list"
  sv_dispatched :: "(string \<times> string \<times> pb_task \<times> (nat \<times> stream_event) list) list"
  sv_push_dispatcher :: bool
  sv_cache :: config_cache
  sv_config :: runtime_config
  sv_tick :: nat
  sv_now :: "nat \<Rightarrow> instant"
  sv_others :: "nat \<Rightarrow> store \<Rightarrow> store"
  sv_fault :: "nat \<Rightarrow> storage_error option"

definition now_of :: "server \<Rightarrow> instant" where
  "now_of sv = sv_now sv (sv_tick sv)"

definition store_call ::
  "(instant \<Rightarrow> store \<Rightarrow> 'a store_result) \<Rightarrow> server \<Rightarrow> (storage_error + 'a) \<times> server" where
  "store_call f sv =
     (let s = sv_others sv (sv_tick sv) (sv_store sv)
      in case sv_fault sv (sv_tick sv) of
           Some e \<Rightarrow> (Inl e, sv\<lparr>sv_store := s, sv_tick := Suc (sv_tick sv)\<rparr>)
         | None \<Rightarrow> (case f (now_of sv) s of
             (r, s') \<Rightarrow> (r, sv\<lparr>sv_store := s', sv_tick := Suc (sv_tick sv)\<rparr>)))"

text \<open>A call that only reads.\<close>

definition store_read ::
  "(store \<Rightarrow> storage_error + 'a) \<Rightarrow> server \<Rightarrow> (storage_error + 'a) \<times> server" where
  "store_read f = store_call (\<lambda>_ s. (f s, s))"

definition upd_handle :: "nat \<Rightarrow> (in_flight_handle \<Rightarrow> in_flight_handle) \<Rightarrow> server \<Rightarrow> server" where
  "upd_handle i f sv = sv\<lparr>sv_handles := (sv_handles sv)(i := f (sv_handles sv i))\<rparr>"

definition notify :: "string \<Rightarrow> server \<Rightarrow> server" where
  "notify task_id sv = sv\<lparr>sv_broker := broker_notify task_id (sv_broker sv)\<rparr>"

text \<open>The effect of \<open>PushDispatcher::dispatch\<close> on the caller: it is called, and returns.\<close>

definition call_dispatch ::
  "string \<Rightarrow> string \<Rightarrow> pb_task \<Rightarrow> (nat \<times> stream_event) list \<Rightarrow> server \<Rightarrow> server" where
  "call_dispatch tenant owner t evs sv = (if sv_push_dispatcher sv
     then sv\<lparr>sv_dispatched := sv_dispatched sv @ [(tenant, owner, t, evs)]\<rparr> else sv)"

section \<open>The registry\<close>

definition try_insert :: "in_flight_key \<Rightarrow> nat \<Rightarrow> server \<Rightarrow> (nat + unit) \<times> server" where
  "try_insert key h sv = (case hm_get (sv_registry sv) key of
       Some existing \<Rightarrow> (Inl existing, sv)
     | None \<Rightarrow> (Inr (), sv\<lparr>sv_registry := hm_insert key h (sv_registry sv)\<rparr>))"

definition registry_get :: "in_flight_key \<Rightarrow> server \<Rightarrow> nat option" where
  "registry_get key sv = hm_get (sv_registry sv) key"

definition remove_if_current :: "in_flight_key \<Rightarrow> nat \<Rightarrow> server \<Rightarrow> bool \<times> server" where
  "remove_if_current key h sv = (case hm_get (sv_registry sv) key of
       Some existing \<Rightarrow> if existing = h
         then (True, sv\<lparr>sv_registry := hm_remove key (sv_registry sv)\<rparr>) else (False, sv)
     | None \<Rightarrow> (False, sv))"

definition snapshot_by_tenant :: "server \<Rightarrow> (string, string list) hashmap" where
  "snapshot_by_tenant sv = fold (\<lambda>((tenant, task_id), _) out.
     hm_insert tenant ((case hm_get out tenant of Some is \<Rightarrow> is | None \<Rightarrow> []) @ [task_id]) out)
     (sv_registry sv) []"

definition snapshot_handles :: "server \<Rightarrow> (in_flight_key \<times> nat) list" where
  "snapshot_handles sv = hm_entries (sv_registry sv)"

definition abort_handle :: "nat \<Rightarrow> server \<Rightarrow> server" where
  "abort_handle h sv = sv\<lparr>sv_aborted := sv_aborted sv @ [ih_abort_handle (sv_handles sv h)]\<rparr>"

text \<open>
  \<open>cancel_then_abort_after\<close> trips the token and, the first time, arms the deferred abort;
  \<open>run_deferred\<close> is the task it spawned, when its sleep is over.
\<close>

definition cancel_then_abort_after :: "nat \<Rightarrow> nat \<Rightarrow> server \<Rightarrow> server" where
  "cancel_then_abort_after h grace sv =
     (let sv = upd_handle h (\<lambda>x. x\<lparr>ih_cancelled := True\<rparr>) sv
      in if ih_abort_armed (sv_handles sv h) then sv
         else (upd_handle h (\<lambda>x. x\<lparr>ih_abort_armed := True\<rparr>) sv)
                \<lparr>sv_deferred := sv_deferred sv @ [(now_of sv + grace, h)]\<rparr>)"

definition run_deferred :: "nat \<Rightarrow> server \<Rightarrow> server" where
  "run_deferred h sv = (if ih_terminal_committed (sv_handles sv h) then sv else abort_handle h sv)"

text \<open>\<open>SupervisorSentinel::drop\<close>.\<close>

definition sentinel_drop :: "in_flight_key \<Rightarrow> nat \<Rightarrow> server \<Rightarrow> server" where
  "sentinel_drop key h sv = snd (remove_if_current key h (abort_handle h sv))"

end
