(* ===== verification/Event_Sink.thy ===== *)
theory Event_Sink
  imports Server_State
begin

text \<open>
  The executor's write boundary (\<open>event_sink.rs\<close>). A commit runs under the sink's
  \<open>commit_lock\<close>, so it is a function of the sink's flags and the server; what other writers do
  before each of its storage calls is in the server (\<open>sv_others\<close>).
\<close>

section \<open>The sink\<close>

record event_sink_inner =
  es_tenant :: string
  es_task_id :: string
  es_context_id :: string
  es_owner :: string
  es_handle :: nat
  es_is_closed :: bool
  es_is_interrupted :: bool

type_synonym event_sink = "event_sink_inner option"

type_synonym 'a sink_result = "(a2a_error + 'a) \<times> event_sink \<times> server"

definition event_sink_new :: "string \<Rightarrow> string \<Rightarrow> string \<Rightarrow> string \<Rightarrow> nat \<Rightarrow> event_sink" where
  "event_sink_new tenant task_id context_id owner h = Some \<lparr>es_tenant = tenant,
     es_task_id = task_id, es_context_id = context_id, es_owner = owner, es_handle = h,
     es_is_closed = False, es_is_interrupted = False\<rparr>"

definition event_sink_detached :: event_sink where
  "event_sink_detached = None"

definition is_closed :: "event_sink \<Rightarrow> bool" where
  "is_closed sk = (case sk of Some k \<Rightarrow> es_is_closed k | None \<Rightarrow> True)"

definition is_interrupted :: "event_sink \<Rightarrow> bool" where
  "is_interrupted sk = (case sk of Some k \<Rightarrow> es_is_interrupted k | None \<Rightarrow> False)"

definition sink_closed_error :: a2a_error where
  "sink_closed_error = InvalidRequest ''EventSink is closed''"

definition sink_lost_error :: "string \<Rightarrow> a2a_error" where
  "sink_lost_error current =
     InvalidRequest (''EventSink is closed: terminal already set ('' @ current @ '')'')"

definition detached_error :: a2a_error where
  "detached_error = Internal (''EventSink is detached (no framework runtime); '' @
     ''construct via A2aServer or LambdaA2aHandler'')"

section \<open>Status commits\<close>

text \<open>\<open>TaskStatus::new(state)\<close> with the message, if there is one.\<close>

definition status_of :: "task_state \<Rightarrow> pb_message option \<Rightarrow> pb_task_status" where
  "status_of state message = (case message of
       None \<Rightarrow> task_status_new state
     | Some m \<Rightarrow> status_with_message m (task_status_new state))"

definition status_event :: "string \<Rightarrow> string \<Rightarrow> pb_task_status \<Rightarrow> stream_event" where
  "status_event task_id context_id st =
     StatusUpdate \<lparr>su_task_id = task_id, su_context_id = context_id, su_status = st\<rparr>"

text \<open>What a successful status commit does after the store has accepted it.\<close>

definition after_status_commit ::
  "task_state \<Rightarrow> pb_task \<Rightarrow> nat \<Rightarrow> event_sink_inner \<Rightarrow> server \<Rightarrow> event_sink_inner \<times> server" where
  "after_status_commit state t seq k sv =
     (let terminal = is_terminal state;
          interrupted = state \<in> set CLIENT_HELD_STATES;
          sv = call_dispatch (es_tenant k) (es_owner k) t
                 [(seq, status_event (es_task_id k) (es_context_id k) (task_status_new state))] sv;
          sv = upd_handle (es_handle k) (record_progress (now_of sv)) sv;
          k = k\<lparr>es_is_interrupted := interrupted\<rparr>;
          sv = upd_handle (es_handle k) (set_client_held interrupted) sv;
          (k, sv) = (if terminal then (k\<lparr>es_is_closed := True\<rparr>,
                       upd_handle (es_handle k) mark_terminal_committed sv) else (k, sv));
          sv = (if terminal \<or> interrupted
                then upd_handle (es_handle k) (\<lambda>h. snd (fire_yielded t h)) sv else sv)
      in (k, notify (es_task_id k) sv))"

definition commit_status ::
  "task_state \<Rightarrow> pb_message option \<Rightarrow> event_sink_inner \<Rightarrow> server \<Rightarrow>
     (a2a_error + nat) \<times> event_sink_inner \<times> server" where
  "commit_status state message k sv =
     (if es_is_closed k then (Inl sink_closed_error, k, sv)
      else (let st = status_of state message;
                ev = status_event (es_task_id k) (es_context_id k) st
            in case store_call (\<lambda>now. update_task_status_with_events now (es_tenant k) (es_task_id k)
                      (es_owner k) st [ev]) sv of
                 (Inr (t, seqs), sv) \<Rightarrow>
                   (let seq = (case seqs of q # _ \<Rightarrow> q | [] \<Rightarrow> 0);
                        (k, sv) = after_status_commit state t seq k sv
                    in (Inr seq, k, sv))
               | (Inl (SE_TerminalStateAlreadySet i cur), sv) \<Rightarrow>
                   (Inl (sink_lost_error cur), k\<lparr>es_is_closed := True\<rparr>, sv)
               | (Inl e, sv) \<Rightarrow> (Inl (a2a_of_storage e), k, sv)))"

section \<open>Artifact commits\<close>

definition artifact_event :: "event_sink_inner \<Rightarrow> pb_artifact \<Rightarrow> bool \<Rightarrow> bool \<Rightarrow> stream_event" where
  "artifact_event k a app last_chunk = ArtifactUpdate \<lparr>au_task_id = es_task_id k,
     au_context_id = es_context_id k, au_artifact = a, au_append = app, au_last_chunk = last_chunk\<rparr>"

text \<open>The read, then the write of the merged task: two calls, with the others in between.\<close>

definition commit_artifact ::
  "pb_artifact \<Rightarrow> bool \<Rightarrow> bool \<Rightarrow> event_sink_inner \<Rightarrow> server \<Rightarrow>
     (a2a_error + nat) \<times> event_sink_inner \<times> server" where
  "commit_artifact a app last_chunk k sv =
     (if es_is_closed k then (Inl sink_closed_error, k, sv)
      else case store_read (get_task (es_tenant k) (es_task_id k) (es_owner k) None) sv of
          (Inl e, sv) \<Rightarrow> (Inl (a2a_of_storage e), k, sv)
        | (Inr None, sv) \<Rightarrow> (Inl (TaskNotFound (es_task_id k)), k, sv)
        | (Inr (Some t), sv) \<Rightarrow>
            (let t = merge_artifact a app last_chunk t;
                 ev = artifact_event k a app last_chunk
             in case store_call (\<lambda>now. update_task_with_events now (es_tenant k) (es_owner k) t [ev]) sv of
                  (Inr seqs, sv) \<Rightarrow>
                    (let seq = (case seqs of q # _ \<Rightarrow> q | [] \<Rightarrow> 0);
                         sv = upd_handle (es_handle k) (record_progress (now_of sv)) sv
                     in (Inr seq, k, notify (es_task_id k) sv))
                | (Inl (SE_TerminalStateAlreadySet i cur), sv) \<Rightarrow>
                    (Inl (sink_lost_error cur), k\<lparr>es_is_closed := True\<rparr>, sv)
                | (Inl e, sv) \<Rightarrow> (Inl (a2a_of_storage e), k, sv)))"

section \<open>The executor's calls\<close>

text \<open>\<open>self.inner()?\<close> before the commit.\<close>

definition with_inner ::
  "(event_sink_inner \<Rightarrow> server \<Rightarrow> (a2a_error + nat) \<times> event_sink_inner \<times> server) \<Rightarrow>
     event_sink \<Rightarrow> server \<Rightarrow> nat sink_result" where
  "with_inner f sk sv = (case sk of
       None \<Rightarrow> (Inl detached_error, None, sv)
     | Some k \<Rightarrow> (case f k sv of (r, k, sv) \<Rightarrow> (r, Some k, sv)))"

definition commit_state_internal ::
  "task_state \<Rightarrow> pb_message option \<Rightarrow> event_sink \<Rightarrow> server \<Rightarrow> nat sink_result" where
  "commit_state_internal state message = with_inner (commit_status state message)"

definition sink_set_status ::
  "task_state \<Rightarrow> pb_message option \<Rightarrow> event_sink \<Rightarrow> server \<Rightarrow> nat sink_result" where
  "sink_set_status state message sk sv =
     (if is_terminal state
      then (Inl (InvalidRequest (''set_status does not accept terminal state '' @ state_debug state @
             ''; use complete/fail/cancelled/reject'')), sk, sv)
      else with_inner (commit_status state message) sk sv)"

definition emit_artifact :: "pb_artifact \<Rightarrow> bool \<Rightarrow> bool \<Rightarrow> event_sink \<Rightarrow> server \<Rightarrow> nat sink_result" where
  "emit_artifact a app last_chunk = with_inner (commit_artifact a app last_chunk)"

definition text_message_from_agent :: "string \<Rightarrow> string \<Rightarrow> pb_message" where
  "text_message_from_agent uuid reason = message_new uuid Agent [part_text reason]"

definition sink_complete :: "pb_message option \<Rightarrow> event_sink \<Rightarrow> server \<Rightarrow> nat sink_result" where
  "sink_complete message = with_inner (commit_status Completed message)"

definition sink_fail :: "string \<Rightarrow> string option \<Rightarrow> event_sink \<Rightarrow> server \<Rightarrow> nat sink_result" where
  "sink_fail uuid reason = with_inner (commit_status Failed (map_option (text_message_from_agent uuid) reason))"

definition sink_cancelled :: "string \<Rightarrow> string option \<Rightarrow> event_sink \<Rightarrow> server \<Rightarrow> nat sink_result" where
  "sink_cancelled uuid reason =
     with_inner (commit_status Canceled (map_option (text_message_from_agent uuid) reason))"

definition sink_reject :: "string \<Rightarrow> string option \<Rightarrow> event_sink \<Rightarrow> server \<Rightarrow> nat sink_result" where
  "sink_reject uuid reason =
     with_inner (commit_status Rejected (map_option (text_message_from_agent uuid) reason))"

definition require_input :: "pb_message option \<Rightarrow> event_sink \<Rightarrow> server \<Rightarrow> nat sink_result" where
  "require_input prompt = with_inner (commit_status InputRequired prompt)"

definition require_auth :: "pb_message option \<Rightarrow> event_sink \<Rightarrow> server \<Rightarrow> nat sink_result" where
  "require_auth challenge = with_inner (commit_status AuthRequired challenge)"

definition sink_heartbeat :: "event_sink \<Rightarrow> server \<Rightarrow> server" where
  "sink_heartbeat sk sv = (case sk of None \<Rightarrow> sv
     | Some k \<Rightarrow> upd_handle (es_handle k) (record_progress (now_of sv)) sv)"

end
