(* ===== verification/Task_Lifecycle.thy ===== *)
theory Task_Lifecycle
  imports Store_Ops "HOL-Library.Sublist"
begin

text \<open>
  What the event log of a task says about it. A task is seen through its owner, its state and
  its log; \<open>view_step\<close> is what one operation of the server may do to that view, and
  \<open>life_logged\<close> the invariant: the status events of the log are a path of the state machine from
  \<open>Submitted\<close> to the stored state, and nothing follows a terminal one.

  \<open>server_op\<close> describes the writes the server issues (\<open>event_sink.rs\<close>, \<open>router.rs\<close>,
  \<open>server/liveness.rs\<close>, the retention sweep of \<open>server/mod.rs\<close>): each status write carries its own
  event. An artifact write carries the state it read; \<open>commit_lock\<close> of the task's sink keeps the
  other writes of that sink out between the read and the write, and a terminal committed by
  somebody else in between makes the store refuse it, so the state it carries is the stored one
  or the write is refused. That a task has one sink at a time is what the registry of the instance
  gives. \<open>framework_op\<close> are the writes another task or instance may issue while an executor owns
  the task: forced terminals, markers, leases, claims, configs, other tasks. In both a retention
  sweep may run while it takes nothing of this task (\<open>spares\<close>, which holds while neither its row
  nor its events are past their time to live: \<open>spares_unexpired\<close>); \<open>task_run\<close> at the end has
  sweeps that take anything.
\<close>

section \<open>Views\<close>

type_synonym task_view = "string option \<times> task_state option \<times> event_log"

definition view_of :: "store \<Rightarrow> string \<Rightarrow> string \<Rightarrow> task_view" where
  "view_of s tn i = (map_option s_owner (get_stored s tn i), state_of s tn i, log_of s tn i)"

inductive view_step :: "task_view \<Rightarrow> task_view \<Rightarrow> bool" where
  quiet: "view_step v v"
| status: "validate_transition c n = Inr () \<Longrightarrow> event_task_state e = Some n \<Longrightarrow>
     view_step (Some ow, Some c, l) (Some ow, Some n, l @ [(q, e, at)])"
| artifact: "\<not> is_terminal c \<Longrightarrow> event_task_state e = None \<Longrightarrow>
     view_step (Some ow, Some c, l) (Some ow, Some c, l @ [(q, e, at)])"

inductive_cases view_stepE: "view_step v v'"
inductive_simps view_step_simps: "view_step (ow, c, l) v'"

section \<open>The invariant\<close>

definition status_path :: "event_log \<Rightarrow> task_state list" where
  "status_path l = List.map_filter (\<lambda>(_, e, _). event_task_state e) l"

definition may_follow :: "task_state \<Rightarrow> task_state \<Rightarrow> bool" where
  "may_follow c n \<longleftrightarrow> validate_transition c n = Inr ()"

definition life_logged :: "task_view \<Rightarrow> bool" where
  "life_logged v \<longleftrightarrow> (case v of (ow, st, l) \<Rightarrow>
     status_path l \<noteq> [] \<and> hd (status_path l) = Submitted \<and>
     successively may_follow (status_path l) \<and> st = Some (last (status_path l)) \<and>
     (is_terminal (last (status_path l)) \<longrightarrow> event_is_terminal (fst (snd (last l)))))"

lemma status_path_simps [simp]:
  "status_path [] = []"
  "status_path (l @ [(q, e, at)]) = status_path l @ (case event_task_state e of None \<Rightarrow> [] | Some n \<Rightarrow> [n])"
  by (auto simp: status_path_def map_filter_def split: option.splits)

lemma status_path_append: "status_path (l @ l') = status_path l @ status_path l'"
  by (simp add: status_path_def map_filter_def)

lemma may_follow_terminal: "is_terminal c \<Longrightarrow> \<not> may_follow c n"
  by (simp add: may_follow_def validate_terminal)

lemma lifecycle_step:
  assumes "life_logged v" and "view_step v v'"
  shows "life_logged v'"
  using assms(2,1)
  by (cases rule: view_stepE)
    (auto simp: life_logged_def successively_append_iff may_follow_def event_is_terminal_def)

lemma lifecycle_steps: "view_step\<^sup>*\<^sup>* v v' \<Longrightarrow> life_logged v \<Longrightarrow> life_logged v'"
  by (induction rule: rtranclp_induct) (auto intro: lifecycle_step)

text \<open>A terminal state ends the path, and its event ends the log.\<close>

lemma successively_terminal_last:
  assumes "successively may_follow ss" and "ss = xs @ x # ys" and "is_terminal x"
  shows "ys = []"
  using assms may_follow_terminal [OF assms(3)]
  by (cases ys) (auto simp: successively_append_iff)

lemma lifecycle_terminal_event_last:
  assumes "life_logged (ow, st, l)" and "l = l1 @ (q, e, at) # l2" and "event_is_terminal e"
  shows "l2 = []" and "event_task_state e = st"
proof -
  obtain n where n: "event_task_state e = Some n" "is_terminal n"
    using assms(3) by (auto simp: event_is_terminal_def split: option.splits)
  have path: "status_path l = status_path l1 @ n # status_path l2"
    using assms(2) n status_path_append [of "l1" "(q, e, at) # l2"]
    by (simp add: status_path_def map_filter_def)
  have "status_path l2 = []"
    using assms(1) successively_terminal_last [OF _ path n(2)] by (auto simp: life_logged_def)
  with path have last: "last (status_path l) = n" by simp
  with assms(1) n show "event_task_state e = st" by (simp add: life_logged_def)
  show "l2 = []"
  proof (rule ccontr)
    assume "l2 \<noteq> []"
    then obtain l3 q' e' at' where l2: "l2 = l3 @ [(q', e', at')]"
      by (metis append_butlast_last_id prod_cases3)
    then have "event_is_terminal e'"
      using assms(1,2) last n by (simp add: life_logged_def)
    then have "status_path l2 \<noteq> []"
      using l2 by (auto simp: event_is_terminal_def split: option.splits)
    with \<open>status_path l2 = []\<close> show False by simp
  qed
qed

section \<open>The writes of the server\<close>

definition state_event :: "pb_task_status \<Rightarrow> stream_event list \<Rightarrow> bool" where
  "state_event st evs \<longleftrightarrow> (case evs of
       [e] \<Rightarrow> event_task_state e = (case status_state st of Inr n \<Rightarrow> Some n | Inl _ \<Rightarrow> None)
     | _ \<Rightarrow> False)"

definition artifact_events :: "stream_event list \<Rightarrow> bool" where
  "artifact_events evs \<longleftrightarrow> (case evs of [e] \<Rightarrow> event_task_state e = None | _ \<Rightarrow> False)"

definition ended :: "task_state option \<Rightarrow> bool" where
  "ended st \<longleftrightarrow> (case st of Some n \<Rightarrow> is_terminal n | None \<Rightarrow> False)"

text \<open>A retention sweep at \<open>now\<close> takes neither the row nor an event of the task.\<close>

definition spares :: "string \<Rightarrow> string \<Rightarrow> instant \<Rightarrow> store \<Rightarrow> bool" where
  "spares tn i now s \<longleftrightarrow> get_stored (exec (OpCleanup now) s) tn i = get_stored s tn i \<and>
     log_of (exec (OpCleanup now) s) tn i = log_of s tn i"

lemma spares_unexpired:
  assumes "reachable s"
    and "\<And>r. get_stored s tn i = Some r \<Longrightarrow> 0 < rc_task_ttl_seconds (retention s) \<Longrightarrow>
      \<not> task_expired now (rc_task_ttl_seconds (retention s)) r"
    and "\<And>e. e \<in> set (log_of s tn i) \<Longrightarrow> 0 < rc_event_ttl_seconds (retention s) \<Longrightarrow>
      \<not> event_expired now (rc_event_ttl_seconds (retention s)) e"
  shows "spares tn i now s"
proof -
  obtain res s' where c: "cleanup_expired now s = (res, s')" by fastforce
  have "hm_wf (tasks s)" and "hm_wf (events s)"
    using reachable_inv [OF assms(1)] by (simp_all add: store_inv_def tasks_keyed_def)
  from cleanup_tasks [OF this(1) c, of tn i] cleanup_logs [OF this(2) c, of tn i] show ?thesis
    using c assms(2,3) by (auto simp: spares_def filter_id_conv split: option.splits)
qed

fun server_op :: "string \<Rightarrow> string \<Rightarrow> store \<Rightarrow> store_op \<Rightarrow> bool" where
  "server_op tn i s (OpStatusAtomic now tn' i' ow st evs) \<longleftrightarrow>
     (tn', i') \<noteq> (tn, i) \<or> state_event st evs"
| "server_op tn i s (OpUpdateAtomic now tn' ow t evs) \<longleftrightarrow>
     (tn', tk_id t) \<noteq> (tn, i) \<or> artifact_events evs \<and>
     (ended (state_of s tn i) \<or> task_state_of t = state_of s tn i)"
| "server_op tn i s (OpCreateAtomic now tn' ow t evs) \<longleftrightarrow> (tn', tk_id t) \<noteq> (tn, i)"
| "server_op tn i s (OpCreateTask now tn' ow t) \<longleftrightarrow> (tn', tk_id t) \<noteq> (tn, i)"
| "server_op tn i s (OpUpdateTask now tn' ow t) \<longleftrightarrow> (tn', tk_id t) \<noteq> (tn, i)"
| "server_op tn i s (OpDeleteTask tn' i' ow) \<longleftrightarrow> (tn', i') \<noteq> (tn, i)"
| "server_op tn i s (OpUpdateStatus now tn' i' ow st) \<longleftrightarrow> (tn', i') \<noteq> (tn, i)"
| "server_op tn i s (OpAppendEvent now tn' i' e) \<longleftrightarrow> (tn', i') \<noteq> (tn, i)"
| "server_op tn i s (OpCleanup now) \<longleftrightarrow> spares tn i now s"
| "server_op tn i s _ \<longleftrightarrow> True"

fun framework_op :: "string \<Rightarrow> string \<Rightarrow> store \<Rightarrow> store_op \<Rightarrow> bool" where
  "framework_op tn i s (OpStatusAtomic now tn' i' ow st evs) \<longleftrightarrow>
     (tn', i') \<noteq> (tn, i) \<or> state_event st evs \<and>
     (case status_state st of Inr n \<Rightarrow> is_terminal n | Inl _ \<Rightarrow> True)"
| "framework_op tn i s (OpUpdateAtomic now tn' ow t evs) \<longleftrightarrow> (tn', tk_id t) \<noteq> (tn, i)"
| "framework_op tn i s (OpCreateAtomic now tn' ow t evs) \<longleftrightarrow> (tn', tk_id t) \<noteq> (tn, i)"
| "framework_op tn i s (OpCreateTask now tn' ow t) \<longleftrightarrow> (tn', tk_id t) \<noteq> (tn, i)"
| "framework_op tn i s (OpUpdateTask now tn' ow t) \<longleftrightarrow> (tn', tk_id t) \<noteq> (tn, i)"
| "framework_op tn i s (OpDeleteTask tn' i' ow) \<longleftrightarrow> (tn', i') \<noteq> (tn, i)"
| "framework_op tn i s (OpUpdateStatus now tn' i' ow st) \<longleftrightarrow> (tn', i') \<noteq> (tn, i)"
| "framework_op tn i s (OpAppendEvent now tn' i' e) \<longleftrightarrow> (tn', i') \<noteq> (tn, i)"
| "framework_op tn i s (OpCleanup now) \<longleftrightarrow> spares tn i now s"
| "framework_op tn i s _ \<longleftrightarrow> True"

lemma framework_server_op: "framework_op tn i s op \<Longrightarrow> server_op tn i s op"
  by (cases op) auto

section \<open>Each write is a step of the view\<close>

lemma state_of_eq: "state_of s tn i = (case get_stored s tn i of None \<Rightarrow> None | Some r \<Rightarrow> task_state_of (s_task r))"
  by (simp add: state_of_def split: option.splits)

lemma view_of_frame:
  assumes "get_stored s' tn i = get_stored s tn i" and "log_of s' tn i = log_of s tn i"
  shows "view_of s' tn i = view_of s tn i"
  using assms by (simp add: view_of_def state_of_def)

lemma view_of_row:
  assumes "get_stored s tn i = Some r" and "get_stored s' tn i = Some r'" and "log_of s' tn i = log_of s tn i"
    and "s_owner r' = s_owner r" and "task_state_of (s_task r') = task_state_of (s_task r)"
  shows "view_of s' tn i = view_of s tn i"
  using assms by (simp add: view_of_def state_of_def)

lemma new_rows_single: "new_rows now c [e] = [(Suc c, e, now)]"
  by (simp add: new_rows_def)

lemma pending_frame [simp]:
  "log_of (x\<lparr>pending_dispatches := y\<rparr>) = log_of x"
  "get_stored (x\<lparr>pending_dispatches := y\<rparr>) = get_stored x"
  "counter_of (x\<lparr>pending_dispatches := y\<rparr>) = counter_of x"
  by (simp_all add: log_of_def get_stored_def counter_of_def fun_eq_iff)

text \<open>A committed status write, as it changes the view.\<close>

lemma status_commit_view:
  assumes u: "update_task_status_with_events now tn i ow st [e] s = (Inr (t', seqs), s')"
    and "event_task_state e = (case status_state st of Inr n \<Rightarrow> Some n | Inl _ \<Rightarrow> None)"
  obtains c n e' where "view_of s tn i = (Some ow, Some c, log_of s tn i)"
    "status_state st = Inr n" "validate_transition c n = Inr ()" "event_task_state e' = Some n"
    "task_state_of t' = Some n" "tk_id t' = tk_id (s_task (the (get_stored s tn i)))"
    "map_option s_task (get_stored s' tn i) = Some t'" "seqs = [Suc (counter_of s tn i)]"
    "view_of s' tn i = (Some ow, Some n, log_of s tn i @ [(Suc (counter_of s tn i), e', now)])"
  using u
proof (cases rule: update_status_with_events_cases)
  case (committed r c n u' evs')
  have "length evs' = 1" and map: "map event_task_state evs' = map event_task_state [e]"
    using committed(7) stamp_status_frame(3) [of now "(s_task r)\<lparr>tk_status := Some st\<rparr>" "[e]"]
      stamp_status_event_states [of now "(s_task r)\<lparr>tk_status := Some st\<rparr>" "[e]"] by simp_all
  then obtain e' where e': "evs' = [e']" by (cases evs') auto
  with map have ev: "event_task_state e' = Some n"
    using assms(2) committed(4) by (simp add: event_task_state_stamp)
  have log: "log_of s' tn i = log_of s tn i @ [(Suc (counter_of s tn i), e', now)]"
    unfolding committed(11) by (simp add: commit_events_log e' new_rows_single)
  have row: "get_stored s' tn i = Some (replace_row now tn ow u'
      (max (s_latest_event_sequence r) (counter_of s tn i + 1)) r)"
    unfolding committed(11) by (simp add: get_put_stored)
  show thesis
    using committed log row ev
    by (intro that [of c n e']) (simp_all add: view_of_def state_of_def replace_row_def)
qed simp

lemma artifact_commit_view:
  assumes u: "update_task_with_events now tn ow t [e] s = (Inr seqs, s')"
    and "event_task_state e = None" and "task_state_of t = state_of s tn (tk_id t)"
    and "state_of s tn (tk_id t) = Some c"
  shows "view_step (view_of s tn (tk_id t)) (view_of s' tn (tk_id t))"
    and "state_of s' tn (tk_id t) = Some c"
  using u
proof (atomize(full), cases rule: update_task_with_events_cases)
  case (committed r)
  let ?i = "tk_id t"
  let ?evs = "snd (stamp_status now t [e])"
  have "length ?evs = 1" and map: "map event_task_state ?evs = map event_task_state [e]"
    using stamp_status_frame(3) [of now t "[e]"] stamp_status_event_states [of now t "[e]"] by simp_all
  then obtain e' where e': "?evs = [e']" by (cases ?evs) auto
  have ev: "event_task_state e' = None" using map assms(2) e' by simp
  have log: "log_of s' tn ?i = log_of s tn ?i @ [(Suc (counter_of s tn ?i), e', now)]"
    unfolding committed(5) by (simp add: commit_events_log e' new_rows_single)
  have st: "state_of s' tn ?i = Some c"
    unfolding committed(5) state_of_def using assms(3,4)
    by (simp add: get_put_stored replace_row_def)
  have "\<not> is_terminal c"
    using committed(1,3) assms(4) by (auto simp: row_terminal_def state_of_def)
  moreover have "map_option s_owner (get_stored s tn ?i) = Some ow"
      "map_option s_owner (get_stored s' tn ?i) = Some ow"
    using committed(1,2) unfolding committed(5) by (simp_all add: get_put_stored replace_row_def)
  ultimately show "view_step (view_of s tn ?i) (view_of s' tn ?i) \<and> state_of s' tn ?i = Some c"
    using log st assms(4) ev by (auto simp: view_of_def intro: view_step.artifact)
qed simp_all

text \<open>The operations that write other rows, or this row without its state.\<close>

lemma other_log:
  assumes "server_op tn i s op" and "\<nexists>now ow st evs. op = OpStatusAtomic now tn i ow st evs"
    and "\<nexists>now ow t evs. op = OpUpdateAtomic now tn ow t evs \<and> tk_id t = i"
  shows "log_of (exec op s) tn i = log_of s tn i"
proof (cases op)
  case (OpStatusAtomic now tn' i' ow st evs)
  obtain res s' where u: "update_task_status_with_events now tn' i' ow st evs s = (res, s')" by fastforce
  have ne: "\<not> (tn = tn' \<and> i = i')" using assms(2) OpStatusAtomic by blast
  have "log_of s' tn i = log_of s tn i"
    using u
  proof (cases rule: update_status_with_events_cases)
    case (committed r c n t' evs')
    then show ?thesis using ne by (auto simp: commit_events_log)
  qed simp
  then show ?thesis using u OpStatusAtomic by simp
next
  case (OpUpdateAtomic now tn' ow t evs)
  obtain res s' where u: "update_task_with_events now tn' ow t evs s = (res, s')" by fastforce
  have ne: "\<not> (tn = tn' \<and> i = tk_id t)" using assms(3) OpUpdateAtomic by blast
  have "log_of s' tn i = log_of s tn i"
    using u
  proof (cases rule: update_task_with_events_cases)
    case (committed r)
    then show ?thesis using ne by (auto simp: commit_events_log)
  qed simp_all
  then show ?thesis using u OpUpdateAtomic by simp
next
  case (OpRenewLeases tn' ids e)
  have "events (fold (set_lease tn' e) ids s) = events s"
    by (induction ids arbitrary: s) (auto simp: set_lease_def split: option.splits)
  then show ?thesis
    using OpRenewLeases by (simp add: supervisor_renew_executor_leases_def log_of_def)
next
  case (OpAppendEvent now tn' i' e)
  then show ?thesis using assms(1) by (simp add: append_event_commit commit_events_log) auto
next
  case (OpCreateAtomic now tn' ow t evs)
  then show ?thesis
    using assms(1) by (simp add: create_task_with_events_eq Let_def commit_events_log) auto
next
  case (OpCleanup now)
  then show ?thesis using assms(1) by (simp add: spares_def)
qed (simp_all add: log_of_def frame)

lemma other_row:
  assumes "server_op tn i s op" and "\<nexists>now ow st evs. op = OpStatusAtomic now tn i ow st evs"
    and "\<nexists>now ow t evs. op = OpUpdateAtomic now tn ow t evs \<and> tk_id t = i"
  shows "map_option (\<lambda>r. (s_owner r, task_state_of (s_task r))) (get_stored (exec op s) tn i) =
    map_option (\<lambda>r. (s_owner r, task_state_of (s_task r))) (get_stored s tn i)"
proof (cases op)
  case (OpStatusAtomic now tn' i' ow st evs)
  obtain res s' where u: "update_task_status_with_events now tn' i' ow st evs s = (res, s')" by fastforce
  have ne: "\<not> (tn = tn' \<and> i = i')" using assms(2) OpStatusAtomic by blast
  have "get_stored s' tn i = get_stored s tn i"
    using u
  proof (cases rule: update_status_with_events_cases)
    case (committed r c n t' evs')
    then show ?thesis using ne by (auto simp: get_put_stored)
  qed simp
  then show ?thesis using u OpStatusAtomic by simp
next
  case (OpUpdateAtomic now tn' ow t evs)
  obtain res s' where u: "update_task_with_events now tn' ow t evs s = (res, s')" by fastforce
  have ne: "\<not> (tn = tn' \<and> i = tk_id t)" using assms(3) OpUpdateAtomic by blast
  have "get_stored s' tn i = get_stored s tn i"
    using u
  proof (cases rule: update_task_with_events_cases)
    case (committed r)
    then show ?thesis using ne by (auto simp: get_put_stored)
  qed simp_all
  then show ?thesis using u OpUpdateAtomic by simp
next
  case (OpRenewLeases tn' ids e)
  then show ?thesis
    by (auto simp: supervisor_renew_executor_leases_def renew_leases_get option.map_comp comp_def)
next
  case (OpDeleteTask tn' i' ow)
  then have "get_stored (exec op s) tn i = get_stored s tn i"
    using assms(1) by (auto simp: delete_task_def get_stored_def hm_simps split: option.splits)
  then show ?thesis by simp
next
  case (OpUpdateStatus now tn' i' ow st)
  then show ?thesis
    using assms(1) by (auto simp: update_task_status_def Let_def get_put_stored split: option.splits sum.splits)
next
  case (OpCreateTask now tn' ow t)
  then show ?thesis using assms(1) by (simp add: create_task_def Let_def get_put_stored) auto
next
  case (OpUpdateTask now tn' ow t)
  then have "get_stored (exec op s) tn i = get_stored s tn i"
    using assms(1) by (auto simp: update_task_def Let_def get_put_stored split: option.splits)
  then show ?thesis by simp
next
  case (OpAppendMessage tn' i' ow m)
  then show ?thesis
    by (cases "tn' = tn \<and> i' = i") (auto simp: append_message_def get_put_stored split: option.splits)
next
  case (OpAppendArtifact now tn' i' ow a app l)
  then show ?thesis
    by (cases "tn' = tn \<and> i' = i") (auto simp: append_artifact_def get_put_stored split: option.splits)
next
  case (OpSetCancel tn' i' ow)
  then show ?thesis
    by (cases "tn' = tn \<and> i' = i")
      (auto simp: set_cancel_requested_def get_put_stored split: option.splits)
next
  case (OpCreateAtomic now tn' ow t evs)
  then show ?thesis
    using assms(1) by (simp add: create_task_with_events_eq Let_def get_put_stored) auto
next
  case (OpCleanup now)
  then show ?thesis using assms(1) by (simp add: spares_def)
qed (simp_all add: get_stored_def append_event_commit create_config_quiet delete_config_def Let_def
      record_pending_dispatch_def delete_pending_dispatch_def)

lemma view_of_other:
  assumes "server_op tn i s op" and "\<nexists>now ow st evs. op = OpStatusAtomic now tn i ow st evs"
    and "\<nexists>now ow t evs. op = OpUpdateAtomic now tn ow t evs \<and> tk_id t = i"
  shows "view_of (exec op s) tn i = view_of s tn i"
proof -
  have "map_option s_owner (get_stored (exec op s) tn i) = map_option s_owner (get_stored s tn i) \<and>
      state_of (exec op s) tn i = state_of s tn i"
    using other_row [OF assms] unfolding state_of_eq
    by (cases "get_stored (exec op s) tn i"; cases "get_stored s tn i") auto
  then show ?thesis
    using other_log [OF assms] by (simp add: view_of_def)
qed

theorem server_op_view:
  assumes "server_op tn i s op" and "state_of s tn i = Some c"
  shows "view_step (view_of s tn i) (view_of (exec op s) tn i)"
proof (cases "(\<exists>now ow st evs. op = OpStatusAtomic now tn i ow st evs) \<or>
    (\<exists>now ow t evs. op = OpUpdateAtomic now tn ow t evs \<and> tk_id t = i)")
  case False
  then show ?thesis using view_of_other [OF assms(1)] by (simp add: view_step.quiet)
next
  case True
  then show ?thesis
  proof (elim disjE exE conjE)
    fix now ow st evs assume op: "op = OpStatusAtomic now tn i ow st evs"
    with assms(1) obtain e where e: "evs = [e]"
        "event_task_state e = (case status_state st of Inr n \<Rightarrow> Some n | Inl _ \<Rightarrow> None)"
      by (auto simp: state_event_def split: list.splits)
    obtain res s' where u: "update_task_status_with_events now tn i ow st [e] s = (res, s')" by fastforce
    show ?thesis
    proof (cases res)
      case (Inl er)
      with u have "s' = s" by (cases rule: update_status_with_events_cases) auto
      with u op e show ?thesis by (simp add: view_step.quiet)
    next
      case (Inr x)
      obtain t' seqs where "x = (t', seqs)" by (cases x)
      with Inr u have c: "update_task_status_with_events now tn i ow st [e] s = (Inr (t', seqs), s')" by simp
      show ?thesis
        by (rule status_commit_view [OF c e(2)]) (use u op e(1) in \<open>auto intro: view_step.status\<close>)
    qed
  next
    fix now ow t evs assume op: "op = OpUpdateAtomic now tn ow t evs" and i: "tk_id t = i"
    with assms(1) obtain e where e: "evs = [e]" "event_task_state e = None"
        "ended (state_of s tn i) \<or> task_state_of t = state_of s tn i"
      by (auto simp: artifact_events_def split: list.splits)
    obtain res s' where u: "update_task_with_events now tn ow t [e] s = (res, s')" by fastforce
    show ?thesis
    proof (cases res)
      case (Inl er)
      with u have "s' = s" by (cases rule: update_task_with_events_cases) auto
      with u op e show ?thesis by (simp add: view_step.quiet)
    next
      case (Inr seqs)
      with u i have "\<not> ended (state_of s tn i)"
        by (auto simp: ended_def state_of_def row_terminal_def elim!: update_task_with_events_cases
            split: option.splits)
      with Inr u e i assms(2) artifact_commit_view(1) [of now tn ow t e s seqs s' c] op
      show ?thesis by simp
    qed
  qed
qed

section \<open>Runs\<close>

text \<open>Operations issued one after another, each a write of the server when it is issued.\<close>

inductive server_run :: "string \<Rightarrow> string \<Rightarrow> store \<Rightarrow> store \<Rightarrow> bool" for tn i where
  done_run: "server_run tn i s s"
| step_run: "server_run tn i s s' \<Longrightarrow> server_op tn i s' op \<Longrightarrow> server_run tn i s (exec op s')"

lemma lifecycle_state: "life_logged (view_of s tn i) \<Longrightarrow> \<exists>c. state_of s tn i = Some c"
  by (simp add: life_logged_def view_of_def)

lemma server_run_lifecycle:
  "server_run tn i s s' \<Longrightarrow> life_logged (view_of s tn i) \<Longrightarrow> life_logged (view_of s' tn i)"
proof (induction rule: server_run.induct)
  case (step_run s s' op)
  then show ?case
    using lifecycle_state [of s' tn i] server_op_view [of tn i s' op] lifecycle_step by blast
qed

text \<open>The first commit of a task, under an id that is not in use.\<close>

lemma create_lifecycle:
  assumes "log_of s tn (tk_id t) = []" and "task_state_of t = Some Submitted"
    and "event_task_state e = Some Submitted"
  shows "life_logged (view_of (snd (create_task_with_events now tn ow t [e] s)) tn (tk_id t))"
proof -
  let ?evs = "snd (stamp_status now t [e])"
  let ?s' = "snd (create_task_with_events now tn ow t [e] s)"
  have "length ?evs = 1" and map: "map event_task_state ?evs = map event_task_state [e]"
    using stamp_status_frame(3) [of now t "[e]"] stamp_status_event_states [of now t "[e]"] by simp_all
  then obtain e' where e': "?evs = [e']" by (cases ?evs) auto
  with map have ev: "event_task_state e' = Some Submitted" using assms(3) by simp
  have log: "log_of ?s' tn (tk_id t) = [(Suc (counter_of s tn (tk_id t)), e', now)]"
    using assms(1) e' by (simp add: create_task_with_events_eq Let_def commit_events_log new_rows_single)
  have "state_of ?s' tn (tk_id t) = Some Submitted"
    using assms(2) by (simp add: create_task_with_events_eq Let_def state_of_def get_put_stored)
  then show ?thesis
    using log ev status_path_simps(2) [of "[]" "Suc (counter_of s tn (tk_id t))" e' now]
    by (simp add: life_logged_def view_of_def is_terminal_def TERMINAL_STATES_def)
qed

section \<open>What the rest of the deployment may do to a task its executor owns\<close>

text \<open>
  \<open>framework_fun tn i f\<close>: \<open>f\<close> is any sequence of framework writes. \<open>owned_step\<close> is what it does
  to the view: the task keeps its owner, and it keeps its state or becomes terminal, by path.
\<close>

fun framework_ops :: "string \<Rightarrow> string \<Rightarrow> store_op list \<Rightarrow> store \<Rightarrow> bool" where
  "framework_ops tn i [] s \<longleftrightarrow> True"
| "framework_ops tn i (op # ops) s \<longleftrightarrow> framework_op tn i s op \<and> framework_ops tn i ops (exec op s)"

definition framework_fun :: "string \<Rightarrow> string \<Rightarrow> (store \<Rightarrow> store) \<Rightarrow> bool" where
  "framework_fun tn i f \<longleftrightarrow> (\<forall>s. \<exists>ops. framework_ops tn i ops s \<and> f s = fold exec ops s)"

lemma framework_fun_id [simp]: "framework_fun tn i (\<lambda>s. s)"
  unfolding framework_fun_def by (intro allI exI [of _ "[]"]) simp

definition owned_step :: "store \<Rightarrow> store \<Rightarrow> string \<Rightarrow> string \<Rightarrow> bool" where
  "owned_step s s' tn i \<longleftrightarrow> view_step\<^sup>*\<^sup>* (view_of s tn i) (view_of s' tn i) \<and>
     map_option s_owner (get_stored s' tn i) = map_option s_owner (get_stored s tn i) \<and>
     (state_of s' tn i = state_of s tn i \<or> (\<exists>n. state_of s' tn i = Some n \<and> is_terminal n)) \<and>
     (\<forall>c. state_of s tn i = Some c \<longrightarrow> is_terminal c \<longrightarrow> view_of s' tn i = view_of s tn i)"

lemma owned_step_refl [simp]: "owned_step s s tn i"
  by (simp add: owned_step_def)

lemma owned_step_trans: "owned_step s s' tn i \<Longrightarrow> owned_step s' s'' tn i \<Longrightarrow> owned_step s s'' tn i"
  unfolding owned_step_def by (metis rtranclp_trans view_of_def prod.inject)

lemma framework_op_step:
  assumes "framework_op tn i s op" and "state_of s tn i = Some c"
  shows "owned_step s (exec op s) tn i"
proof -
  have so: "server_op tn i s op" by (rule framework_server_op [OF assms(1)])
  have vs: "view_step (view_of s tn i) (view_of (exec op s) tn i)"
    by (rule server_op_view [OF so assms(2)])
  show ?thesis
  proof (cases "(\<exists>now ow st evs. op = OpStatusAtomic now tn i ow st evs)")
    case False
    moreover have "\<not> (\<exists>now ow t evs. op = OpUpdateAtomic now tn ow t evs \<and> tk_id t = i)"
      using assms(1) by auto
    ultimately have "view_of (exec op s) tn i = view_of s tn i" using view_of_other [OF so] by blast
    then show ?thesis by (simp add: owned_step_def) (simp add: view_of_def)
  next
    case True
    then obtain now ow st evs where op: "op = OpStatusAtomic now tn i ow st evs" by blast
    obtain res s' where u: "update_task_status_with_events now tn i ow st evs s = (res, s')" by fastforce
    then have s': "exec op s = s'" using op by simp
    from u show ?thesis
    proof (cases rule: update_status_with_events_cases)
      case (failed e)
      then show ?thesis using s' by simp
    next
      case (committed r c' n t' evs')
      have st: "state_of s' tn i = Some n"
        unfolding committed(11) state_of_def using committed(8) by (simp add: get_put_stored replace_row_def)
      have own: "map_option s_owner (get_stored s' tn i) = map_option s_owner (get_stored s tn i)"
        unfolding committed(11) using committed(1,2) by (simp add: get_put_stored replace_row_def)
      have "is_terminal n" using assms(1) op committed(4) by simp
      moreover have "\<not> is_terminal c"
        using committed(1,3,5) assms(2) validate_terminal [of c n] by (auto simp: state_of_def)
      ultimately show ?thesis
        using vs st own assms(2) s' by (auto simp: owned_step_def)
    qed
  qed
qed

lemma framework_fun_step:
  assumes "framework_fun tn i f" and "state_of s tn i = Some c"
  shows "owned_step s (f s) tn i"
proof -
  obtain ops where ops: "framework_ops tn i ops s" "f s = fold exec ops s"
    using assms(1) unfolding framework_fun_def by metis
  have "owned_step s (fold exec ops s) tn i" using ops(1) assms(2)
  proof (induction ops arbitrary: s c)
    case (Cons op ops)
    have st: "owned_step s (exec op s) tn i" using Cons.prems framework_op_step by simp
    then obtain c' where "state_of (exec op s) tn i = Some c'"
      using Cons.prems(2) by (auto simp: owned_step_def)
    with Cons.IH [of "exec op s" c'] Cons.prems st owned_step_trans show ?case by auto
  qed simp
  with ops show ?thesis by simp
qed

section \<open>Runs with retention\<close>

text \<open>
  \<open>task_run tn i h s\<close>: from the store \<open>s0\<close> the server has written and retention has swept, in any
  order, a sweep taking whatever of the task is past its time to live; \<open>h\<close> is everything that was
  ever committed to the log of the task.
\<close>

inductive task_run :: "string \<Rightarrow> string \<Rightarrow> store \<Rightarrow> event_log \<Rightarrow> store \<Rightarrow> bool" for tn i s0 where
  begun: "task_run tn i s0 (log_of s0 tn i) s0"
| wrote: "task_run tn i s0 h s \<Longrightarrow> server_op tn i s op \<Longrightarrow>
     task_run tn i s0 (h @ drop (length (log_of s tn i)) (log_of (exec op s) tn i)) (exec op s)"
| swept: "task_run tn i s0 h s \<Longrightarrow> task_run tn i s0 h (exec (OpCleanup now) s)"

definition history_ok :: "event_log \<Rightarrow> bool" where
  "history_ok h \<longleftrightarrow> life_logged (None, Some (last (status_path h)), h)"

definition retained :: "string \<Rightarrow> string \<Rightarrow> event_log \<Rightarrow> store \<Rightarrow> bool" where
  "retained tn i h s \<longleftrightarrow> tasks_keyed s \<and> hm_wf (events s) \<and> history_ok h \<and> subseq (log_of s tn i) h \<and>
     (rc_event_ttl_seconds (retention s) = 0 \<longrightarrow> log_of s tn i = h) \<and>
     (state_of s tn i = Some (last (status_path h)) \<or>
      get_stored s tn i = None \<and> is_terminal (last (status_path h)))"

lemma life_logged_history: "life_logged (ow, st, h) \<longleftrightarrow> history_ok h \<and> st = Some (last (status_path h))"
  by (auto simp: life_logged_def history_ok_def)

lemma retention_exec: "retention (exec op s) = retention s"
proof (cases op)
  case (OpStatusAtomic now tn i ow st evs)
  obtain res s' where u: "update_task_status_with_events now tn i ow st evs s = (res, s')" by fastforce
  then have "retention s' = retention s"
    by (cases rule: update_status_with_events_cases) simp_all
  with u OpStatusAtomic show ?thesis by simp
next
  case (OpUpdateAtomic now tn ow t evs)
  obtain res s' where u: "update_task_with_events now tn ow t evs s = (res, s')" by fastforce
  then have "retention s' = retention s"
    by (cases rule: update_task_with_events_cases) simp_all
  with u OpUpdateAtomic show ?thesis by simp
next
  case (OpCleanup now)
  obtain res s' where c: "cleanup_expired now s = (res, s')" by fastforce
  then show ?thesis using cleanup_frame(4) [OF c] OpCleanup by simp
next
  case (OpRenewLeases tn ids e)
  have "retention (fold (set_lease tn e) ids s) = retention s"
    by (induction ids arbitrary: s) (auto simp: set_lease_def split: option.splits)
  then show ?thesis using OpRenewLeases by (simp add: supervisor_renew_executor_leases_def)
next
  case (OpClaimCall c)
  then show ?thesis
    by (cases c; simp add: claim_delivery_def record_attempt_started_def record_delivery_outcome_def
        put_claim_def Let_def split: option.splits)
qed (simp_all add: append_event_commit create_task_with_events_eq Let_def create_task_def update_task_def delete_task_def
    update_task_status_def append_message_def append_artifact_def set_cancel_requested_def create_config_quiet
    insert_config_def delete_config_def put_stored_def record_pending_dispatch_def delete_pending_dispatch_def
    commit_events_def case_prod_beta split: option.splits sum.splits)

lemma absent_row_write:
  assumes "server_op tn i s op" and "get_stored s tn i = None"
  shows "get_stored (exec op s) tn i = None" and "log_of (exec op s) tn i = log_of s tn i"
proof (atomize(full), cases "(\<exists>now ow st evs. op = OpStatusAtomic now tn i ow st evs) \<or>
    (\<exists>now ow t evs. op = OpUpdateAtomic now tn ow t evs \<and> tk_id t = i)")
  case True
  have "update_task_with_events now tn ow t evs s = (Inl (SE_TaskNotFound i), s)" if "tk_id t = i" for now ow t evs
    using that assms(2) stamp_status_frame(1) [of now t evs]
    by (simp add: update_task_with_events_def case_prod_beta Let_def)
  moreover have "update_task_status_with_events now tn i ow st evs s = (Inl (SE_TaskNotFound i), s)" for now ow st evs
    using assms(2) by (simp add: update_task_status_with_events_def)
  ultimately have "exec op s = s" using True by auto
  with assms(2) show "get_stored (exec op s) tn i = None \<and> log_of (exec op s) tn i = log_of s tn i" by simp
next
  case False
  then have no: "\<nexists>now ow st evs. op = OpStatusAtomic now tn i ow st evs"
      "\<nexists>now ow t evs. op = OpUpdateAtomic now tn ow t evs \<and> tk_id t = i" by blast+
  from other_row [OF assms(1) no] other_log [OF assms(1) no] assms(2)
  show "get_stored (exec op s) tn i = None \<and> log_of (exec op s) tn i = log_of s tn i" by simp
qed

lemma retained_write:
  assumes "retained tn i h s" and "server_op tn i s op"
  shows "retained tn i (h @ drop (length (log_of s tn i)) (log_of (exec op s) tn i)) (exec op s)"
proof -
  let ?s = "exec op s"
  have frame: "tasks_keyed ?s" "hm_wf (events ?s)" "retention ?s = retention s"
    using assms(1) by (simp_all add: retained_def tasks_keyed_exec events_wf_exec retention_exec)
  show ?thesis
  proof (cases "get_stored s tn i")
    case None
    with absent_row_write [OF assms(2) None] assms(1) frame show ?thesis
      by (auto simp: retained_def state_of_def)
  next
    case (Some r)
    then have st: "state_of s tn i = Some (last (status_path h))" using assms(1) by (simp add: retained_def)
    have step: "view_step (view_of s tn i) (view_of ?s tn i)" by (rule server_op_view [OF assms(2) st])
    then obtain new where new: "log_of ?s tn i = log_of s tn i @ new"
        and view: "view_step (map_option s_owner (get_stored s tn i), state_of s tn i, h)
          (map_option s_owner (get_stored ?s tn i), state_of ?s tn i, h @ new)"
      unfolding view_of_def view_step_simps by auto
    have "life_logged (map_option s_owner (get_stored s tn i), state_of s tn i, h)"
      using assms(1) st by (simp add: life_logged_history retained_def)
    from lifecycle_step [OF this view]
    have "history_ok (h @ new)" "state_of ?s tn i = Some (last (status_path (h @ new)))"
      by (simp_all add: life_logged_history)
    with new frame assms(1) show ?thesis
      by (auto simp: retained_def)
  qed
qed

lemma retained_sweep:
  assumes "retained tn i h s"
  shows "retained tn i h (exec (OpCleanup now) s)"
proof -
  obtain res s' where c: "cleanup_expired now s = (res, s')" by fastforce
  have wf: "hm_wf (tasks s)" "hm_wf (events s)" using assms by (simp_all add: retained_def tasks_keyed_def)
  have "subseq (log_of s' tn i) (log_of s tn i)"
    using cleanup_logs [OF wf(2) c, of tn i] by simp
  then have "subseq (log_of s' tn i) h" using assms subseq_order.trans by (auto simp: retained_def)
  moreover have "get_stored s' tn i = get_stored s tn i \<or>
      get_stored s' tn i = None \<and> (\<exists>r. get_stored s tn i = Some r \<and> row_terminal r)"
    using cleanup_tasks [OF wf(1) c, of tn i] task_expired_terminal by (auto split: option.splits)
  moreover have "tasks_keyed s'" "hm_wf (events s')" "retention s' = retention s"
    using tasks_keyed_exec [of s "OpCleanup now"] events_wf_exec [of s "OpCleanup now"]
      retention_exec [of "OpCleanup now" s] assms c by (simp_all add: retained_def)
  ultimately show ?thesis
    using assms c cleanup_logs [OF wf(2) c, of tn i]
    by (auto simp: retained_def state_of_def row_terminal_def split: option.splits)
qed

lemma task_run_retained:
  "task_run tn i s0 h s \<Longrightarrow> retained tn i (log_of s0 tn i) s0 \<Longrightarrow> retained tn i h s"
proof (induction rule: task_run.induct)
  case (swept h s now)
  then show ?case using retained_sweep [of tn i h s now] by blast
qed (blast intro: retained_write)+

lemma created_retained:
  assumes "reachable s" and "life_logged (view_of s tn i)"
  shows "retained tn i (log_of s tn i) s"
  using assms reachable_inv [OF assms(1)]
  by (simp add: retained_def store_inv_def view_of_def life_logged_history)

lemma history_terminal_last:
  assumes "history_ok h" and "h = l1 @ (q, e, at) # l2" and "event_is_terminal e"
  shows "l2 = []"
  using lifecycle_terminal_event_last(1) [OF _ assms(2,3)] assms(1) by (auto simp: history_ok_def)

end
