(* ===== verification/Sink_Laws.thy ===== *)
theory Sink_Laws
  imports Event_Sink Task_Lifecycle
begin

text \<open>
  What a sink's commits do to the task they are bound to, while the rest of the deployment
  issues framework writes around them: each commit is a step of the task's lifecycle or leaves
  the task to the others, the sink is closed only when the stored task is terminal, and the
  oneshot fires only for a committed terminal or interrupted state.
\<close>

section \<open>The environment\<close>

definition framework_others :: "string \<Rightarrow> string \<Rightarrow> server \<Rightarrow> bool" where
  "framework_others tn i sv \<longleftrightarrow> (\<forall>n. framework_fun tn i (sv_others sv n))"

definition no_faults :: "server \<Rightarrow> bool" where
  "no_faults sv \<longleftrightarrow> (\<forall>n. sv_fault sv n = None)"

definition same_env :: "server \<Rightarrow> server \<Rightarrow> bool" where
  "same_env sv sv' \<longleftrightarrow> sv_others sv' = sv_others sv \<and> sv_fault sv' = sv_fault sv \<and>
     sv_now sv' = sv_now sv \<and> sv_config sv' = sv_config sv"

lemma same_env_refl [simp]: "same_env sv sv"
  by (simp add: same_env_def)

lemma same_env_trans: "same_env sv sv' \<Longrightarrow> same_env sv' sv'' \<Longrightarrow> same_env sv sv''"
  by (simp add: same_env_def)

lemma same_env_laws:
  assumes "same_env sv sv'"
  shows "framework_others tn i sv' = framework_others tn i sv" and "no_faults sv' = no_faults sv"
  using assms by (simp_all add: same_env_def framework_others_def no_faults_def)

text \<open>What everyone else did before the next call.\<close>

definition store_seen :: "server \<Rightarrow> store" where
  "store_seen sv = sv_others sv (sv_tick sv) (sv_store sv)"

lemma store_call_cases:
  assumes "store_call f sv = (res, sv')"
  obtains (fault) e where "res = Inl e" "sv' = sv\<lparr>sv_store := store_seen sv, sv_tick := Suc (sv_tick sv)\<rparr>"
      "\<not> no_faults sv" "sv_fault sv (sv_tick sv) = Some e"
  | (call) s' where "f (now_of sv) (store_seen sv) = (res, s')"
      "sv' = sv\<lparr>sv_store := s', sv_tick := Suc (sv_tick sv)\<rparr>"
  using assms
  by (cases "sv_fault sv (sv_tick sv)")
    (auto simp: store_call_def store_seen_def no_faults_def Let_def split: prod.splits)

lemma store_read_cases:
  assumes "store_read f sv = (res, sv')"
  obtains (fault) e where "res = Inl e" "sv' = sv\<lparr>sv_store := store_seen sv, sv_tick := Suc (sv_tick sv)\<rparr>"
      "\<not> no_faults sv"
  | (call) "res = f (store_seen sv)" "sv' = sv\<lparr>sv_store := store_seen sv, sv_tick := Suc (sv_tick sv)\<rparr>"
  using assms unfolding store_read_def by (cases rule: store_call_cases) auto

lemma seen_step:
  assumes "framework_others tn i sv" and "state_of (sv_store sv) tn i = Some c"
  shows "owned_step (sv_store sv) (store_seen sv) tn i"
  using assms by (auto simp: framework_others_def store_seen_def intro: framework_fun_step)

section \<open>Helpers that leave the store and the environment\<close>

lemma upd_handle_frame [simp]:
  "sv_store (upd_handle h f sv) = sv_store sv" "sv_broker (upd_handle h f sv) = sv_broker sv"
  "sv_registry (upd_handle h f sv) = sv_registry sv" "sv_tick (upd_handle h f sv) = sv_tick sv"
  "sv_dispatched (upd_handle h f sv) = sv_dispatched sv"
  "sv_push_dispatcher (upd_handle h f sv) = sv_push_dispatcher sv"
  "sv_aborted (upd_handle h f sv) = sv_aborted sv" "sv_deferred (upd_handle h f sv) = sv_deferred sv"
  "now_of (upd_handle h f sv) = now_of sv" "same_env sv (upd_handle h f sv)"
  "sv_config (upd_handle h f sv) = sv_config sv"
  by (simp_all add: upd_handle_def same_env_def now_of_def)

lemma notify_frame [simp]:
  "sv_store (notify i sv) = sv_store sv" "sv_handles (notify i sv) = sv_handles sv"
  "sv_registry (notify i sv) = sv_registry sv" "sv_tick (notify i sv) = sv_tick sv"
  "sv_dispatched (notify i sv) = sv_dispatched sv" "now_of (notify i sv) = now_of sv"
  "sv_push_dispatcher (notify i sv) = sv_push_dispatcher sv" "sv_aborted (notify i sv) = sv_aborted sv"
  "sv_deferred (notify i sv) = sv_deferred sv" "same_env sv (notify i sv)" "sv_config (notify i sv) = sv_config sv"
  by (simp_all add: notify_def same_env_def now_of_def)

lemma call_dispatch_frame [simp]:
  "sv_store (call_dispatch tn ow t evs sv) = sv_store sv" "sv_handles (call_dispatch tn ow t evs sv) = sv_handles sv"
  "sv_registry (call_dispatch tn ow t evs sv) = sv_registry sv" "sv_tick (call_dispatch tn ow t evs sv) = sv_tick sv"
  "sv_broker (call_dispatch tn ow t evs sv) = sv_broker sv" "now_of (call_dispatch tn ow t evs sv) = now_of sv"
  "sv_aborted (call_dispatch tn ow t evs sv) = sv_aborted sv"
  "sv_deferred (call_dispatch tn ow t evs sv) = sv_deferred sv"
  "same_env sv (call_dispatch tn ow t evs sv)" "sv_config (call_dispatch tn ow t evs sv) = sv_config sv"
  by (simp_all add: call_dispatch_def same_env_def now_of_def)

lemma handles_upd [simp]:
  "sv_handles (upd_handle h f sv) h' = (if h' = h then f (sv_handles sv h) else sv_handles sv h')"
  by (simp add: upd_handle_def)

lemma same_env_store [simp]: "same_env sv (sv\<lparr>sv_store := s, sv_tick := n\<rparr>)"
  by (simp add: same_env_def)

section \<open>After a status commit\<close>

lemma status_state_status_of [simp]: "status_state (status_of state m) = Inr state"
  by (simp add: status_of_def split: option.splits)

lemma event_task_state_status_event [simp]:
  "event_task_state (status_event i c st) = (case status_state st of Inr n \<Rightarrow> Some n | Inl _ \<Rightarrow> None)"
  by (simp add: status_event_def split: sum.splits)

text \<open>The states that wake a blocking caller.\<close>

definition yields :: "task_state \<Rightarrow> bool" where
  "yields st \<longleftrightarrow> is_terminal st \<or> st \<in> set CLIENT_HELD_STATES"

lemma after_status_commit_frame:
  assumes "after_status_commit state t seq k sv = (k', sv')"
  shows "sv_store sv' = sv_store sv" and "same_env sv sv'" and "sv_tick sv' = sv_tick sv"
    and "k' = k\<lparr>es_is_interrupted := (state \<in> set CLIENT_HELD_STATES),
        es_is_closed := (if is_terminal state then True else es_is_closed k)\<rparr>"
    and "sv_registry sv' = sv_registry sv" and "sv_aborted sv' = sv_aborted sv"
proof -
  show "sv_store sv' = sv_store sv" "sv_tick sv' = sv_tick sv" "sv_registry sv' = sv_registry sv"
    "sv_aborted sv' = sv_aborted sv"
    using assms by (auto simp: after_status_commit_def Let_def split: if_splits)
  show "same_env sv sv'"
    using assms by (auto simp: after_status_commit_def Let_def same_env_def upd_handle_def notify_def
        call_dispatch_def split: if_splits)
  show "k' = k\<lparr>es_is_interrupted := (state \<in> set CLIENT_HELD_STATES),
        es_is_closed := (if is_terminal state then True else es_is_closed k)\<rparr>"
    using assms by (auto simp: after_status_commit_def Let_def split: if_splits)
qed

lemma after_status_commit_handle:
  assumes "after_status_commit state t seq k sv = (k', sv')"
  shows "ih_yielded (sv_handles sv' (es_handle k)) =
      (if yields state \<and> \<not> ih_yielded_fired (sv_handles sv (es_handle k)) \<and> ih_yielded_tx (sv_handles sv (es_handle k))
       then Some t else ih_yielded (sv_handles sv (es_handle k)))"
    and "ih_yielded_fired (sv_handles sv' (es_handle k)) =
      (yields state \<or> ih_yielded_fired (sv_handles sv (es_handle k)))"
    and "ih_terminal_committed (sv_handles sv' (es_handle k)) =
      (is_terminal state \<or> ih_terminal_committed (sv_handles sv (es_handle k)))"
    and "ih_client_held (sv_handles sv' (es_handle k)) = (state \<in> set CLIENT_HELD_STATES)"
    and "h \<noteq> es_handle k \<Longrightarrow> sv_handles sv' h = sv_handles sv h"
proof -
  let ?h = "es_handle k"
  have "sv_handles sv' ?h = (let g = set_client_held (state \<in> set CLIENT_HELD_STATES) (record_progress (now_of sv) (sv_handles sv ?h));
      g = (if is_terminal state then mark_terminal_committed g else g)
      in if yields state then snd (fire_yielded t g) else g)"
    using assms by (auto simp: after_status_commit_def Let_def yields_def upd_handle_def split: if_splits)
  then show "ih_yielded (sv_handles sv' ?h) =
      (if yields state \<and> \<not> ih_yielded_fired (sv_handles sv ?h) \<and> ih_yielded_tx (sv_handles sv ?h)
       then Some t else ih_yielded (sv_handles sv ?h))"
    "ih_yielded_fired (sv_handles sv' ?h) = (yields state \<or> ih_yielded_fired (sv_handles sv ?h))"
    "ih_terminal_committed (sv_handles sv' ?h) = (is_terminal state \<or> ih_terminal_committed (sv_handles sv ?h))"
    "ih_client_held (sv_handles sv' ?h) = (state \<in> set CLIENT_HELD_STATES)"
    by (auto simp: fire_yielded_def set_client_held_def record_progress_def mark_terminal_committed_def Let_def)
  show "h \<noteq> ?h \<Longrightarrow> sv_handles sv' h = sv_handles sv h"
    using assms by (auto simp: after_status_commit_def Let_def split: if_splits)
qed

section \<open>One status commit, outcome by outcome\<close>

lemma status_write_outcome:
  assumes "get_stored s tn i = Some r" and "s_owner r = ow" and "tk_id (s_task r) \<noteq> []"
    and "task_state_of (s_task r) = Some c" and "status_state st = Inr n"
    and "update_task_status_with_events now tn i ow st [e] s = (res, s')"
  shows "(may_follow c n \<and> (\<exists>t seqs. res = Inr (t, seqs))) \<or>
    (is_terminal c \<and> res = Inl (SE_TerminalStateAlreadySet i (wire_name c)) \<and> s' = s) \<or>
    (\<not> is_terminal c \<and> \<not> may_follow c n \<and> res = Inl (SE_InvalidTransition i c n) \<and> s' = s)"
proof (cases "is_terminal c")
  case True
  then have "check_transition (\<lambda>st. SE_TerminalStateAlreadySet i (wire_name st)) i (s_task r) st =
      Inl (SE_TerminalStateAlreadySet i (wire_name c))"
    using assms(4,5) check_transition_terminal by blast
  with True assms(1,2,6) show ?thesis by (simp add: update_task_status_with_events_def)
next
  case False
  show ?thesis
  proof (cases "may_follow c n")
    case True
    then have "check_transition (\<lambda>st. SE_TerminalStateAlreadySet i (wire_name st)) i (s_task r) st = Inr ()"
      using assms(4,5) by (auto simp: check_transition_ok may_follow_def)
    moreover have "task_try_from ((s_task r)\<lparr>tk_status := Some st\<rparr>) = Inr ((s_task r)\<lparr>tk_status := Some st\<rparr>)"
      using assms(3,5) by (simp add: task_try_from_iff task_state_of_set_status)
    ultimately show ?thesis
      using True assms(1,2,6)
      by (auto simp: update_task_status_with_events_def Let_def split: prod.splits)
  next
    case no: False
    then have "check_transition (\<lambda>st. SE_TerminalStateAlreadySet i (wire_name st)) i (s_task r) st =
        Inl (SE_InvalidTransition i c n)"
      using False assms(4,5) check_transition_invalid [of "s_task r" c st n]
      by (cases "validate_transition c n") (auto simp: may_follow_def can_transition_to_def)
    with False no assms(1,2,6) show ?thesis by (simp add: update_task_status_with_events_def)
  qed
qed

text \<open>
  A storage fault is never the compare-and-set loser's error: a backend reports that one only
  for a task that is terminal.
\<close>

definition faults_ok :: "server \<Rightarrow> bool" where
  "faults_ok sv \<longleftrightarrow> (\<forall>n i st. sv_fault sv n \<noteq> Some (SE_TerminalStateAlreadySet i st))"

text \<open>The task a sink is bound to is stored, under its owner, in a state.\<close>

definition bound :: "event_sink_inner \<Rightarrow> server \<Rightarrow> bool" where
  "bound k sv \<longleftrightarrow> framework_others (es_tenant k) (es_task_id k) sv \<and> faults_ok sv \<and>
     tasks_keyed (sv_store sv) \<and> es_task_id k \<noteq> [] \<and>
     (\<exists>r c. get_stored (sv_store sv) (es_tenant k) (es_task_id k) = Some r \<and> s_owner r = es_owner k \<and>
        task_state_of (s_task r) = Some c)"

definition sink_state :: "event_sink_inner \<Rightarrow> store \<Rightarrow> task_state option" where
  "sink_state k s = state_of s (es_tenant k) (es_task_id k)"

lemma tasks_keyed_framework: "framework_fun tn i f \<Longrightarrow> tasks_keyed s \<Longrightarrow> tasks_keyed (f s)"
proof -
  have "tasks_keyed s \<Longrightarrow> tasks_keyed (fold exec ops s)" for ops
    by (induction ops arbitrary: s) (auto intro: tasks_keyed_exec)
  then show "framework_fun tn i f \<Longrightarrow> tasks_keyed s \<Longrightarrow> ?thesis"
    unfolding framework_fun_def by metis
qed

lemma bound_seen:
  assumes "bound k sv"
  obtains r c where "get_stored (store_seen sv) (es_tenant k) (es_task_id k) = Some r" "s_owner r = es_owner k"
    "task_state_of (s_task r) = Some c" "tk_id (s_task r) = es_task_id k" "tasks_keyed (store_seen sv)"
    "sink_state k (store_seen sv) = Some c"
    "owned_step (sv_store sv) (store_seen sv) (es_tenant k) (es_task_id k)"
proof -
  obtain r0 c0 where r0: "get_stored (sv_store sv) (es_tenant k) (es_task_id k) = Some r0"
      "s_owner r0 = es_owner k" "task_state_of (s_task r0) = Some c0"
    using assms by (auto simp: bound_def)
  have os: "owned_step (sv_store sv) (store_seen sv) (es_tenant k) (es_task_id k)"
    using assms r0 by (intro seen_step) (auto simp: bound_def state_of_def)
  have keyed: "tasks_keyed (store_seen sv)"
    using assms by (auto simp: bound_def framework_others_def store_seen_def intro: tasks_keyed_framework)
  obtain r where r: "get_stored (store_seen sv) (es_tenant k) (es_task_id k) = Some r" "s_owner r = es_owner k"
    using os r0 by (auto simp: owned_step_def)
  moreover obtain c where c: "state_of (store_seen sv) (es_tenant k) (es_task_id k) = Some c"
    using os r0 by (auto simp: owned_step_def state_of_def)
  ultimately show thesis
    using os keyed by (intro that [of r c]) (auto simp: state_of_def sink_state_def tasks_keyed_get)
qed

lemma bound_keep:
  assumes "bound k sv" and "same_env sv sv'" and "tasks_keyed (sv_store sv')"
    and "view_of (sv_store sv') (es_tenant k) (es_task_id k) = (Some (es_owner k), Some c, l)"
    and "es_tenant k' = es_tenant k" "es_task_id k' = es_task_id k" "es_owner k' = es_owner k"
  shows "bound k' sv'"
  using assms by (auto simp: bound_def same_env_laws faults_ok_def same_env_def framework_others_def
      view_of_def state_of_eq split: option.splits)

lemma bound_after_seen:
  assumes "bound k sv" and "es_tenant k' = es_tenant k" "es_task_id k' = es_task_id k" "es_owner k' = es_owner k"
  shows "bound k' (sv\<lparr>sv_store := store_seen sv, sv_tick := n\<rparr>)"
proof (rule bound_seen [OF assms(1)])
  fix r c assume "get_stored (store_seen sv) (es_tenant k) (es_task_id k) = Some r" "s_owner r = es_owner k"
    "task_state_of (s_task r) = Some c" "tasks_keyed (store_seen sv)"
  with assms show ?thesis
    by (intro bound_keep [OF assms(1), where c = c and l = "log_of (store_seen sv) (es_tenant k) (es_task_id k)"])
      (simp_all add: view_of_def state_of_def)
qed

lemma commit_status_cases:
  assumes cs: "commit_status state m k sv = (res, k', sv')" and b: "bound k sv"
  obtains (closed) "es_is_closed k" "res = Inl sink_closed_error" "k' = k" "sv' = sv"
  | (committed) c t seq e s' where "\<not> es_is_closed k" "res = Inr seq"
      "sink_state k (store_seen sv) = Some c" "may_follow c state"
      "view_of s' (es_tenant k) (es_task_id k) = (Some (es_owner k), Some state,
         log_of (store_seen sv) (es_tenant k) (es_task_id k) @ [(seq, e, now_of sv)])"
      "event_task_state e = Some state" "task_state_of t = Some state"
      "map_option s_task (get_stored s' (es_tenant k) (es_task_id k)) = Some t" "tasks_keyed s'"
      "view_of (store_seen sv) (es_tenant k) (es_task_id k) = (Some (es_owner k), Some c,
         log_of (store_seen sv) (es_tenant k) (es_task_id k))"
      "after_status_commit state t seq k (sv\<lparr>sv_store := s', sv_tick := Suc (sv_tick sv)\<rparr>) = (k', sv')"
  | (lost) cur where "\<not> es_is_closed k" "res = Inl (sink_lost_error cur)" "k' = k\<lparr>es_is_closed := True\<rparr>"
      "sv' = sv\<lparr>sv_store := store_seen sv, sv_tick := Suc (sv_tick sv)\<rparr>" "ended (sink_state k (store_seen sv))"
  | (refused) e where "\<not> es_is_closed k" "res = Inl (a2a_of_storage e)" "k' = k"
      "sv' = sv\<lparr>sv_store := store_seen sv, sv_tick := Suc (sv_tick sv)\<rparr>"
      "no_faults sv \<longrightarrow> (\<exists>c. sink_state k (store_seen sv) = Some c \<and> \<not> is_terminal c \<and> \<not> may_follow c state)"
proof (cases "es_is_closed k")
  case True
  show thesis by (rule closed) (use True cs in \<open>simp_all add: commit_status_def\<close>)
next
  case live: False
  let ?ev = "status_event (es_task_id k) (es_context_id k) (status_of state m)"
  let ?f = "\<lambda>now. update_task_status_with_events now (es_tenant k) (es_task_id k) (es_owner k)
      (status_of state m) [?ev]"
  obtain r c where r: "get_stored (store_seen sv) (es_tenant k) (es_task_id k) = Some r" "s_owner r = es_owner k"
      "task_state_of (s_task r) = Some c" "tk_id (s_task r) = es_task_id k" "tasks_keyed (store_seen sv)"
      "sink_state k (store_seen sv) = Some c"
    by (rule bound_seen [OF b])
  have id: "tk_id (s_task r) \<noteq> []" using b r(4) by (simp add: bound_def)
  obtain out sv1 where sc: "store_call ?f sv = (out, sv1)" by fastforce
  from sc show thesis
  proof (cases rule: store_call_cases)
    case (fault e)
    from fault(4) b have "\<forall>i st. e \<noteq> SE_TerminalStateAlreadySet i st"
      by (auto simp: bound_def faults_ok_def)
    then have "res = Inl (a2a_of_storage e) \<and> k' = k \<and> sv' = sv1"
      using cs live sc fault(1) by (cases e) (simp_all add: commit_status_def Let_def)
    with live fault(2,3) show thesis by (intro refused [of e]) simp_all
  next
    case (call s')
    have ev: "event_task_state ?ev = (case status_state (status_of state m) of Inr n \<Rightarrow> Some n | Inl _ \<Rightarrow> None)"
      by simp
    from status_write_outcome [OF r(1,2) id r(3) _ call(1), of state]
    consider (ok) t seqs where "may_follow c state" "out = Inr (t, seqs)"
      | (trm) "is_terminal c" "out = Inl (SE_TerminalStateAlreadySet (es_task_id k) (wire_name c))" "s' = store_seen sv"
      | (no) "\<not> is_terminal c" "\<not> may_follow c state" "out = Inl (SE_InvalidTransition (es_task_id k) c state)"
          "s' = store_seen sv"
      by auto
    then show thesis
    proof cases
      case ok
      from call(1) ok(2) have u: "update_task_status_with_events (now_of sv) (es_tenant k) (es_task_id k)
          (es_owner k) (status_of state m) [?ev] (store_seen sv) = (Inr (t, seqs), s')" by simp
      have keyed: "tasks_keyed s'"
        using tasks_keyed_exec [OF r(5), of "OpStatusAtomic (now_of sv) (es_tenant k) (es_task_id k)
          (es_owner k) (status_of state m) [?ev]"] u by simp
      show thesis
      proof (rule status_commit_view [OF u ev])
        fix c' n e' assume v: "view_of (store_seen sv) (es_tenant k) (es_task_id k) =
            (Some (es_owner k), Some c', log_of (store_seen sv) (es_tenant k) (es_task_id k))"
          "status_state (status_of state m) = Inr n" "event_task_state e' = Some n" "task_state_of t = Some n"
          "map_option s_task (get_stored s' (es_tenant k) (es_task_id k)) = Some t"
          "seqs = [Suc (counter_of (store_seen sv) (es_tenant k) (es_task_id k))]"
          "view_of s' (es_tenant k) (es_task_id k) = (Some (es_owner k), Some n,
            log_of (store_seen sv) (es_tenant k) (es_task_id k) @
            [(Suc (counter_of (store_seen sv) (es_tenant k) (es_task_id k)), e', now_of sv)])"
        have n: "n = state" and c': "c' = c" using v(1,2) r(6) by (simp_all add: view_of_def sink_state_def)
        obtain k2 sv2 where as: "after_status_commit state t (hd seqs) k
            (sv\<lparr>sv_store := s', sv_tick := Suc (sv_tick sv)\<rparr>) = (k2, sv2)" by fastforce
        have "res = Inr (hd seqs)" "k' = k2" "sv' = sv2"
          using cs live sc ok(2) call(2) v(6) as by (auto simp: commit_status_def Let_def)
        then show thesis
          using as v n c' ok(1) live r(6) keyed
          by (intro committed [of "hd seqs" c s' e' t]) simp_all
      qed
    next
      case trm
      then show thesis
        using cs live sc call(2) r(6)
        by (intro lost [of "wire_name c"]) (auto simp: commit_status_def Let_def ended_def)
    next
      case no
      then show thesis
        using cs live sc call(2) r(6)
        by (intro refused [of "SE_InvalidTransition (es_task_id k) c state"])
          (auto simp: commit_status_def Let_def)
    qed
  qed
qed

section \<open>One artifact commit, outcome by outcome\<close>

text \<open>
  Between the read and the write the others may end the task, and then the write is refused; they
  cannot change its state otherwise, so the status the write carries is the stored one.
\<close>

lemma artifact_write_outcome:
  assumes "get_stored s tn (tk_id t) = Some r" and "s_owner r = ow" and "task_state_of (s_task r) = Some c"
    and "update_task_with_events now tn ow t [e] s = (res, s')"
  shows "(\<not> is_terminal c \<and> (\<exists>seqs. res = Inr seqs)) \<or>
    (is_terminal c \<and> res = Inl (SE_TerminalStateAlreadySet (tk_id t) (wire_name c)) \<and> s' = s)"
  using assms(4)
proof (cases rule: update_task_with_events_cases)
  case (terminal r' st)
  then show ?thesis using assms(1,3) by simp
next
  case (committed r')
  then show ?thesis using assms(1,3) by (simp add: row_terminal_def)
qed (use assms in simp_all)

lemma merge_artifact_state [simp]: "task_state_of (merge_artifact a ap lc t) = task_state_of t"
  by (rule merge_artifact_simps(3))

lemma artifact_event_state [simp]: "event_task_state (artifact_event k a app lc) = None"
  by (simp add: artifact_event_def)

lemma get_task_seen:
  assumes "get_stored s tn i = Some r" and "s_owner r = ow"
  shows "get_task tn i ow None s = Inr (Some (s_task r))"
  using assms by (simp add: get_task_def trim_history_def)

lemma commit_artifact_cases:
  assumes ca: "commit_artifact a app lc k sv = (res, k', sv')" and b: "bound k sv"
  obtains (closed) "es_is_closed k" "res = Inl sink_closed_error" "k' = k" "sv' = sv"
  | (committed) c seq s2 s' n where "\<not> es_is_closed k" "res = Inr seq" "k' = k"
      "owned_step (sv_store sv) s2 (es_tenant k) (es_task_id k)" "sink_state k s2 = Some c" "\<not> is_terminal c"
      "view_step (view_of s2 (es_tenant k) (es_task_id k)) (view_of s' (es_tenant k) (es_task_id k))"
      "sink_state k s' = Some c" "tasks_keyed s'"
      "sv' = notify (es_task_id k) (upd_handle (es_handle k) (record_progress (sv_now sv n))
         (sv\<lparr>sv_store := s', sv_tick := n\<rparr>))"
  | (lost) cur s2 n where "\<not> es_is_closed k" "res = Inl (sink_lost_error cur)" "k' = k\<lparr>es_is_closed := True\<rparr>"
      "owned_step (sv_store sv) s2 (es_tenant k) (es_task_id k)" "ended (sink_state k s2)" "tasks_keyed s2"
      "sv' = sv\<lparr>sv_store := s2, sv_tick := n\<rparr>"
  | (refused) e s2 n where "\<not> es_is_closed k" "res = Inl (a2a_of_storage e)" "k' = k" "\<not> no_faults sv"
      "owned_step (sv_store sv) s2 (es_tenant k) (es_task_id k)" "tasks_keyed s2"
      "sv' = sv\<lparr>sv_store := s2, sv_tick := n\<rparr>"
proof (cases "es_is_closed k")
  case True
  show thesis by (rule closed) (use True ca in \<open>simp_all add: commit_artifact_def\<close>)
next
  case live: False
  let ?tn = "es_tenant k" and ?i = "es_task_id k"
  obtain r c where r: "get_stored (store_seen sv) ?tn ?i = Some r" "s_owner r = es_owner k"
      "task_state_of (s_task r) = Some c" "tk_id (s_task r) = ?i" "tasks_keyed (store_seen sv)"
      "sink_state k (store_seen sv) = Some c" and os: "owned_step (sv_store sv) (store_seen sv) ?tn ?i"
    by (rule bound_seen [OF b])
  obtain out sv1 where rd: "store_read (get_task ?tn ?i (es_owner k) None) sv = (out, sv1)" by fastforce
  from rd show thesis
  proof (cases rule: store_read_cases)
    case (fault e)
    then have "res = Inl (a2a_of_storage e) \<and> k' = k \<and> sv' = sv1"
      using ca live rd by (simp add: commit_artifact_def)
    with fault live r(5) os show thesis by (intro refused [of e]) simp_all
  next
    case (call)
    have sv1: "sv1 = sv\<lparr>sv_store := store_seen sv, sv_tick := Suc (sv_tick sv)\<rparr>" by (rule call(2))
    have out: "out = Inr (Some (s_task r))" using call(1) get_task_seen [OF r(1,2)] by simp
    let ?t = "merge_artifact a app lc (s_task r)" and ?ev = "artifact_event k a app lc"
    have id: "tk_id ?t = ?i" using r(4) by simp
    have b1: "bound k sv1" unfolding sv1 by (rule bound_after_seen [OF b]) simp_all
    obtain r2 c2 where r2: "get_stored (store_seen sv1) ?tn ?i = Some r2" "s_owner r2 = es_owner k"
        "task_state_of (s_task r2) = Some c2" "tasks_keyed (store_seen sv1)" "sink_state k (store_seen sv1) = Some c2"
      and os1: "owned_step (sv_store sv1) (store_seen sv1) ?tn ?i"
      by (rule bound_seen [OF b1])
    have os2: "owned_step (sv_store sv) (store_seen sv1) ?tn ?i"
      using os os1 by (simp add: sv1 owned_step_trans)
    obtain out2 sv2 where wr: "store_call (\<lambda>now. update_task_with_events now ?tn (es_owner k) ?t [?ev]) sv1 = (out2, sv2)"
      by fastforce
    from wr show thesis
    proof (cases rule: store_call_cases)
      case (fault e)
      have nf: "\<not> no_faults sv" using fault(3) by (simp add: sv1 no_faults_def)
      have "\<forall>i st. e \<noteq> SE_TerminalStateAlreadySet i st" using fault(4) b1 by (auto simp: bound_def faults_ok_def)
      then have "res = Inl (a2a_of_storage e) \<and> k' = k \<and> sv' = sv2"
        using ca live rd out wr fault(1) by (cases e) (simp_all add: commit_artifact_def Let_def)
      with fault(2) live nf os2 r2(4) show thesis
        by (intro refused [of e "store_seen sv1"]) (simp_all add: sv1)
    next
      case (call s')
      have row: "get_stored (store_seen sv1) ?tn (tk_id ?t) = Some r2" using r2(1) id by simp
      from artifact_write_outcome [OF row r2(2,3) call(1)]
      consider (ok) seqs where "\<not> is_terminal c2" "out2 = Inr seqs"
        | (trm) "is_terminal c2" "out2 = Inl (SE_TerminalStateAlreadySet ?i (wire_name c2))" "s' = store_seen sv1"
        using id by auto
      then show thesis
      proof cases
        case ok
        have c2: "c2 = c"
          using os1 r(6) r2(5) ok(1) by (auto simp: owned_step_def sink_state_def sv1)
        from call(1) ok(2) have u: "update_task_with_events (now_of sv1) ?tn (es_owner k) ?t [?ev] (store_seen sv1) =
            (Inr seqs, s')" by simp
        have st: "task_state_of ?t = state_of (store_seen sv1) ?tn (tk_id ?t)" "state_of (store_seen sv1) ?tn (tk_id ?t) = Some c"
          using r(3) r2(5) c2 id by (simp_all add: sink_state_def)
        have keyed: "tasks_keyed s'"
          using tasks_keyed_exec [OF r2(4), of "OpUpdateAtomic (now_of sv1) ?tn (es_owner k) ?t [?ev]"] u by simp
        have "res = Inr (case seqs of q # _ \<Rightarrow> q | [] \<Rightarrow> 0) \<and> k' = k \<and>
            sv' = notify ?i (upd_handle (es_handle k) (record_progress (now_of sv2)) sv2)"
          using ca live rd out wr ok(2) by (auto simp: commit_artifact_def Let_def)
        then show thesis
          using live os2 r2(5) c2 ok(1) keyed call(2)
            artifact_commit_view [OF u artifact_event_state st] id
          by (intro committed [of _ "store_seen sv1" c s' "Suc (Suc (sv_tick sv))"])
            (simp_all add: sv1 now_of_def sink_state_def)
      next
        case trm
        then have "res = Inl (sink_lost_error (wire_name c2)) \<and> k' = k\<lparr>es_is_closed := True\<rparr> \<and> sv' = sv2"
          using ca live rd out wr by (simp add: commit_artifact_def Let_def)
        then show thesis
          using trm live os2 r2(4,5) call(2)
          by (intro lost [of "wire_name c2" "store_seen sv1" "Suc (Suc (sv_tick sv))"]) (simp_all add: sv1 ended_def)
      qed
    qed
  qed
qed

section \<open>The sink's invariant\<close>

text \<open>
  \<open>sink_inv\<close>: the log is a lifecycle; a closed sink's task is terminal; the oneshot carries a
  task in a terminal or interrupted state, sent once; a handle that says its sink committed a
  terminal has a closed sink; and a sink that says it is interrupted has woken its caller, and
  the task still waits on its client unless somebody ended it.
\<close>

definition at_rest :: "task_state option \<Rightarrow> bool" where
  "at_rest st \<longleftrightarrow> (case st of Some n \<Rightarrow> yields n | None \<Rightarrow> False)"

lemma ended_at_rest: "ended st \<Longrightarrow> at_rest st"
  by (auto simp: ended_def at_rest_def yields_def split: option.splits)

definition handle_of :: "event_sink_inner \<Rightarrow> server \<Rightarrow> in_flight_handle" where
  "handle_of k sv = sv_handles sv (es_handle k)"

definition handle_ok :: "event_sink_inner \<Rightarrow> in_flight_handle \<Rightarrow> bool" where
  "handle_ok k h \<longleftrightarrow>
     (\<forall>t. ih_yielded h = Some t \<longrightarrow> (\<exists>n. task_state_of t = Some n \<and> yields n) \<and> ih_yielded_fired h) \<and>
     (ih_terminal_committed h \<longrightarrow> es_is_closed k) \<and>
     (es_is_interrupted k \<longrightarrow> ih_yielded_fired h) \<and>
     (ih_terminal_committed h \<longrightarrow> ih_yielded_fired h)"

definition sink_inv :: "event_sink_inner \<Rightarrow> server \<Rightarrow> bool" where
  "sink_inv k sv \<longleftrightarrow> bound k sv \<and> life_logged (view_of (sv_store sv) (es_tenant k) (es_task_id k)) \<and>
     (es_is_closed k \<longrightarrow> ended (sink_state k (sv_store sv))) \<and>
     (es_is_interrupted k \<longrightarrow> at_rest (sink_state k (sv_store sv))) \<and> handle_ok k (handle_of k sv)"

text \<open>
  What a call of the sink guarantees: the same sink and environment, the task's view moves along
  its lifecycle, and once the task is terminal its view and the sink's closing stay.
\<close>

definition sink_call_ok :: "event_sink_inner \<Rightarrow> server \<Rightarrow> event_sink_inner \<Rightarrow> server \<Rightarrow> bool" where
  "sink_call_ok k sv k' sv' \<longleftrightarrow> same_env sv sv' \<and> es_tenant k' = es_tenant k \<and> es_task_id k' = es_task_id k \<and>
     es_context_id k' = es_context_id k \<and> es_owner k' = es_owner k \<and> es_handle k' = es_handle k \<and>
     view_step\<^sup>*\<^sup>* (view_of (sv_store sv) (es_tenant k) (es_task_id k)) (view_of (sv_store sv') (es_tenant k) (es_task_id k)) \<and>
     (ended (sink_state k (sv_store sv)) \<longrightarrow>
        view_of (sv_store sv') (es_tenant k) (es_task_id k) = view_of (sv_store sv) (es_tenant k) (es_task_id k)) \<and>
     (es_is_closed k \<longrightarrow> es_is_closed k' \<and> sv' = sv)"

lemma sink_call_ok_refl [simp]: "sink_call_ok k sv k sv"
  by (simp add: sink_call_ok_def)

lemma sink_call_ok_trans:
  assumes "sink_call_ok k sv k' sv'" and "sink_call_ok k' sv' k'' sv''"
  shows "sink_call_ok k sv k'' sv''"
proof -
  have "sink_state k' s = sink_state k s" for s using assms(1) by (simp add: sink_call_ok_def sink_state_def)
  moreover have "ended (sink_state k (sv_store sv)) \<Longrightarrow> sink_state k (sv_store sv') = sink_state k (sv_store sv)"
    using assms(1) by (auto simp: sink_call_ok_def view_of_def sink_state_def)
  ultimately show ?thesis
    using assms unfolding sink_call_ok_def
    by (auto intro: same_env_trans rtranclp_trans)
qed

lemma owned_step_view:
  assumes "owned_step s s' tn i"
  shows "view_step\<^sup>*\<^sup>* (view_of s tn i) (view_of s' tn i)"
    and "ended (state_of s tn i) \<Longrightarrow> view_of s' tn i = view_of s tn i"
  using assms by (auto simp: owned_step_def ended_def split: option.splits)

lemma owned_step_at_rest:
  "owned_step s s' tn i \<Longrightarrow> at_rest (state_of s tn i) \<Longrightarrow> at_rest (state_of s' tn i)"
  by (auto simp: owned_step_def at_rest_def yields_def)

lemma commit_status_ok:
  assumes cs: "commit_status state m k sv = (res, k', sv')" and inv: "sink_inv k sv"
  shows "sink_inv k' sv' \<and> sink_call_ok k sv k' sv'"
proof -
  let ?v = "\<lambda>s. view_of s (es_tenant k) (es_task_id k)"
  have b: "bound k sv" and lc: "life_logged (?v (sv_store sv))" and h: "handle_ok k (handle_of k sv)"
    using inv by (simp_all add: sink_inv_def)
  have os: "owned_step (sv_store sv) (store_seen sv) (es_tenant k) (es_task_id k)"
    by (rule bound_seen [OF b])
  have seen: "life_logged (?v (store_seen sv))"
    by (rule lifecycle_steps [OF owned_step_view(1) [OF os] lc])
  from cs b show ?thesis
  proof (cases rule: commit_status_cases)
    case closed
    then show ?thesis using inv by simp
  next
    case (committed c t seq e s')
    note fr = after_status_commit_frame [OF committed(11)] and hd = after_status_commit_handle [OF committed(11)]
    have vs: "view_step (?v (store_seen sv)) (?v s')"
      using committed(4,5,6,10) by (auto simp: may_follow_def intro: view_step.status)
    have steps: "view_step\<^sup>*\<^sup>* (?v (sv_store sv)) (?v s')"
      using owned_step_view(1) [OF os] vs by (rule rtranclp.rtrancl_into_rtrancl)
    have env: "same_env sv sv'"
      using fr(2) by (simp add: same_env_def)
    have bd: "bound k' sv'"
      by (rule bound_keep [OF b env, where c = state]) (use fr committed(5,9) in simp_all)
    have nend: "\<not> ended (sink_state k (sv_store sv))"
      using owned_step_view(2) [OF os] committed(3,4) may_follow_terminal [of c state]
      by (auto simp: sink_state_def ended_def view_of_def split: option.splits)
    have st: "sink_state k' (sv_store sv') = Some state"
      using committed(5) fr by (simp add: sink_state_def view_of_def)
    have "handle_ok k' (handle_of k' sv')"
      using h hd(1-4) fr(4) committed(1,7)
      by (auto simp: handle_ok_def handle_of_def yields_def split: if_splits)
    then show ?thesis
      using bd st steps env nend fr committed(1) lifecycle_step [OF seen vs]
      by (auto simp: sink_inv_def sink_call_ok_def ended_def at_rest_def yields_def)
  next
    case (lost cur)
    have "bound k' sv'" using bound_after_seen [OF b] lost(3,4) by simp
    then show ?thesis
      using lost os seen h owned_step_view [OF os] inv owned_step_at_rest [OF os]
      by (auto simp: sink_inv_def sink_call_ok_def sink_state_def handle_ok_def handle_of_def)
  next
    case (refused e)
    have "bound k' sv'" using bound_after_seen [OF b] refused(3,4) by simp
    then show ?thesis
      using refused(1-4) os seen h owned_step_view [OF os] inv owned_step_at_rest [OF os]
      by (auto simp: sink_inv_def sink_call_ok_def sink_state_def handle_ok_def handle_of_def)
  qed
qed

lemma handle_ok_progress: "handle_ok k (record_progress now h) = handle_ok k h"
  by (simp add: handle_ok_def record_progress_def)

lemma commit_artifact_ok:
  assumes ca: "commit_artifact a app lc k sv = (res, k', sv')" and inv: "sink_inv k sv"
  shows "sink_inv k' sv' \<and> sink_call_ok k sv k' sv'"
proof -
  let ?v = "\<lambda>s. view_of s (es_tenant k) (es_task_id k)"
  have b: "bound k sv" and lc: "life_logged (?v (sv_store sv))" and h: "handle_ok k (handle_of k sv)"
    using inv by (simp_all add: sink_inv_def)
  have by_others: "sink_inv k2 sv2 \<and> sink_call_ok k sv k2 sv2"
    if k2: "k2 = k\<lparr>es_is_closed := x\<rparr>" "\<not> es_is_closed k" "sv2 = sv\<lparr>sv_store := s2, sv_tick := n\<rparr>"
      and os2: "owned_step (sv_store sv) s2 (es_tenant k) (es_task_id k)"
      and keyed: "tasks_keyed s2" and cl: "x \<Longrightarrow> ended (sink_state k s2)"
    for k2 sv2 s2 n x
  proof -
    obtain r c where r: "get_stored (sv_store sv) (es_tenant k) (es_task_id k) = Some r" "s_owner r = es_owner k"
        "task_state_of (s_task r) = Some c"
      using b by (auto simp: bound_def)
    obtain c' where c': "?v s2 = (Some (es_owner k), Some c', log_of s2 (es_tenant k) (es_task_id k))"
      using os2 r by (auto simp: owned_step_def view_of_def state_of_def)
    have "bound k2 sv2"
      by (rule bound_keep [OF b, where c = c']) (use k2 keyed c' in simp_all)
    then show ?thesis
      using k2 cl h inv owned_step_at_rest [OF os2] owned_step_view [OF os2] lifecycle_steps [OF owned_step_view(1) [OF os2] lc]
      by (auto simp: sink_inv_def sink_call_ok_def sink_state_def handle_ok_def handle_of_def)
  qed
  from ca b show ?thesis
  proof (cases rule: commit_artifact_cases)
    case closed
    then show ?thesis using inv by simp
  next
    case (lost cur s2 n)
    then show ?thesis by (intro by_others [where x = True]) simp_all
  next
    case (refused e s2 n)
    then show ?thesis by (intro by_others [where x = False]) simp_all
  next
    case (committed c seq s2 s' n)
    have env: "same_env sv sv'" using committed(10) by (simp add: same_env_def upd_handle_def notify_def)
    have steps: "view_step\<^sup>*\<^sup>* (?v (sv_store sv)) (?v s')"
      using owned_step_view(1) [OF committed(4)] committed(7) by (rule rtranclp.rtrancl_into_rtrancl)
    have own: "map_option s_owner (get_stored s' (es_tenant k) (es_task_id k)) = Some (es_owner k)"
    proof -
      have "fst (?v s2) = Some (es_owner k)"
        using committed(4) b by (auto simp: owned_step_def bound_def view_of_def)
      with committed(7) show ?thesis by (auto elim!: view_stepE simp: view_of_def)
    qed
    have bd: "bound k sv'"
      by (rule bound_keep [OF b env, where c = c and l = "log_of s' (es_tenant k) (es_task_id k)"])
        (use committed(8,9,10) own in \<open>simp_all add: view_of_def sink_state_def\<close>)
    have rest: "es_is_interrupted k \<longrightarrow> at_rest (sink_state k (sv_store sv'))"
      using inv owned_step_at_rest [OF committed(4)] committed(5,8,10) by (simp add: sink_inv_def sink_state_def)
    have nend: "\<not> ended (sink_state k (sv_store sv))"
      using owned_step_view(2) [OF committed(4)] committed(5,6)
      by (auto simp: sink_state_def ended_def view_of_def split: option.splits)
    show ?thesis
      using bd env steps nend rest committed(1,3,10) h lifecycle_steps [OF steps lc]
      by (auto simp: sink_inv_def sink_call_ok_def handle_of_def handle_ok_progress)
  qed
qed

section \<open>The executor's calls\<close>

datatype sink_call =
    CallSetStatus task_state "pb_message option"
  | CallEmitArtifact pb_artifact bool bool
  | CallComplete "pb_message option"
  | CallFail string "string option"
  | CallCancelled string "string option"
  | CallReject string "string option"
  | CallRequireInput "pb_message option"
  | CallRequireAuth "pb_message option"
  | CallHeartbeat

fun sink_exec :: "sink_call \<Rightarrow> event_sink \<Rightarrow> server \<Rightarrow> nat sink_result" where
  "sink_exec (CallSetStatus st m) sk sv = sink_set_status st m sk sv"
| "sink_exec (CallEmitArtifact a app lc) sk sv = emit_artifact a app lc sk sv"
| "sink_exec (CallComplete m) sk sv = sink_complete m sk sv"
| "sink_exec (CallFail u r) sk sv = sink_fail u r sk sv"
| "sink_exec (CallCancelled u r) sk sv = sink_cancelled u r sk sv"
| "sink_exec (CallReject u r) sk sv = sink_reject u r sk sv"
| "sink_exec (CallRequireInput m) sk sv = require_input m sk sv"
| "sink_exec (CallRequireAuth m) sk sv = require_auth m sk sv"
| "sink_exec CallHeartbeat sk sv = (Inr 0, sk, sink_heartbeat sk sv)"

definition sink_run :: "sink_call list \<Rightarrow> event_sink \<times> server \<Rightarrow> event_sink \<times> server" where
  "sink_run calls = fold (\<lambda>c (sk, sv). snd (sink_exec c sk sv)) calls"

lemma with_inner_ok:
  assumes "\<And>k sv r k' sv'. f k sv = (r, k', sv') \<Longrightarrow> sink_inv k sv \<Longrightarrow> sink_inv k' sv' \<and> sink_call_ok k sv k' sv'"
    and "with_inner f (Some k) sv = (r, sk', sv')" and "sink_inv k sv"
  shows "\<exists>k'. sk' = Some k' \<and> sink_inv k' sv' \<and> sink_call_ok k sv k' sv'"
proof -
  obtain r0 k0 sv0 where f: "f k sv = (r0, k0, sv0)" by (cases "f k sv")
  with assms(2) have "sk' = Some k0" "sv' = sv0" by (simp_all add: with_inner_def)
  then show ?thesis using assms(1) [OF f assms(3)] by simp
qed

lemmas sink_defs = sink_complete_def sink_fail_def sink_cancelled_def sink_reject_def require_input_def
  require_auth_def emit_artifact_def commit_state_internal_def

text \<open>
  A heartbeat writes only the handle's clock, so it keeps the invariant; on a closed sink it is
  the one call that still touches the server.
\<close>

lemma heartbeat_ok:
  assumes "sink_inv k sv"
  shows "sink_inv k (sink_heartbeat (Some k) sv)" and "same_env sv (sink_heartbeat (Some k) sv)"
    and "sv_store (sink_heartbeat (Some k) sv) = sv_store sv"
proof -
  show env: "same_env sv (sink_heartbeat (Some k) sv)" by (simp add: sink_heartbeat_def)
  show st: "sv_store (sink_heartbeat (Some k) sv) = sv_store sv" by (simp add: sink_heartbeat_def)
  have "bound k (sink_heartbeat (Some k) sv)"
    using assms env st by (auto simp: sink_inv_def bound_def same_env_laws faults_ok_def same_env_def
        framework_others_def)
  then show "sink_inv k (sink_heartbeat (Some k) sv)"
    using assms st by (simp add: sink_inv_def handle_of_def sink_heartbeat_def handle_ok_progress)
qed

definition sink_kept :: "event_sink_inner \<Rightarrow> server \<Rightarrow> event_sink_inner \<Rightarrow> server \<Rightarrow> bool" where
  "sink_kept k sv k' sv' \<longleftrightarrow> same_env sv sv' \<and> es_tenant k' = es_tenant k \<and> es_task_id k' = es_task_id k \<and>
     es_owner k' = es_owner k \<and> es_handle k' = es_handle k \<and>
     view_step\<^sup>*\<^sup>* (view_of (sv_store sv) (es_tenant k) (es_task_id k)) (view_of (sv_store sv') (es_tenant k) (es_task_id k)) \<and>
     (ended (sink_state k (sv_store sv)) \<longrightarrow>
        view_of (sv_store sv') (es_tenant k) (es_task_id k) = view_of (sv_store sv) (es_tenant k) (es_task_id k)) \<and>
     (es_is_closed k \<longrightarrow> es_is_closed k' \<and> sv_store sv' = sv_store sv)"

lemma sink_call_kept: "sink_call_ok k sv k' sv' \<Longrightarrow> sink_kept k sv k' sv'"
  by (auto simp: sink_call_ok_def sink_kept_def)

lemma sink_kept_trans: "sink_kept k sv k' sv' \<Longrightarrow> sink_kept k' sv' k'' sv'' \<Longrightarrow> sink_kept k sv k'' sv''"
  by (auto simp: sink_kept_def sink_state_def view_of_def intro: same_env_trans rtranclp_trans)

lemma sink_exec_ok:
  assumes "sink_exec c (Some k) sv = (r, sk', sv')" and "sink_inv k sv"
  shows "\<exists>k'. sk' = Some k' \<and> sink_inv k' sv' \<and> sink_kept k sv k' sv'"
proof (cases "c = CallHeartbeat")
  case True
  then show ?thesis
    using assms heartbeat_ok [OF assms(2)] by (auto simp: sink_kept_def)
next
  case False
  have "\<exists>k'. sk' = Some k' \<and> sink_inv k' sv' \<and> sink_call_ok k sv k' sv'"
  proof (cases c)
    case (CallSetStatus st m)
    then show ?thesis
      using assms with_inner_ok [where f = "commit_status st m", OF commit_status_ok]
      by (auto simp: sink_set_status_def split: if_splits)
  next
    case (CallEmitArtifact a app lc)
    then show ?thesis
      using assms with_inner_ok [where f = "commit_artifact a app lc", OF commit_artifact_ok] by (simp add: sink_defs)
  qed (use assms False with_inner_ok [OF commit_status_ok] in \<open>simp_all add: sink_defs\<close>)
  then show ?thesis using sink_call_kept by blast
qed

lemma sink_run_ok:
  assumes "sink_run calls (Some k, sv) = (sk', sv')" and "sink_inv k sv"
  shows "\<exists>k'. sk' = Some k' \<and> sink_inv k' sv' \<and> sink_kept k sv k' sv'"
  using assms
proof (induction calls arbitrary: k sv)
  case Nil
  then show ?case by (auto simp: sink_run_def sink_kept_def)
next
  case (Cons c calls)
  obtain r sk1 sv1 where e: "sink_exec c (Some k) sv = (r, sk1, sv1)" by (cases "sink_exec c (Some k) sv")
  with sink_exec_ok [OF e Cons.prems(2)] obtain k1 where k1: "sk1 = Some k1" "sink_inv k1 sv1" "sink_kept k sv k1 sv1"
    by blast
  have "sink_run calls (Some k1, sv1) = (sk', sv')"
    using Cons.prems(1) e k1(1) by (simp add: sink_run_def)
  from Cons.IH [OF this k1(2)] k1(3) show ?case using sink_kept_trans by blast
qed

end
