(* ===== verification/Spawn.thy ===== *)
theory Spawn
  imports Sink_Laws
begin

text \<open>
  The life of one executor (\<open>server/spawn.rs\<close>): its registration, its body, the post-execute
  rule and the supervisor. The executor itself is user code, a parameter: given the task, the
  scope and what it sees of its sink and the server, it makes a list of sink calls and then
  returns with the task as it left it, panics, or is aborted at an await point.
  Its message and its execution context are the fields of the scope.
\<close>

section \<open>The executor\<close>

datatype exec_end =
    Returned "a2a_error + unit" pb_task
  | Panicked
  | Aborted

record spawn_scope =
  sc_tenant :: string
  sc_owner :: string
  sc_task_id :: string
  sc_context_id :: string
  sc_message :: pb_message
  sc_claims :: "json option"
  sc_accepted_output_modes :: "string list"
  sc_request_metadata :: "json option"
  sc_activated_extensions :: "string list"

type_synonym executor = "pb_task \<Rightarrow> spawn_scope \<Rightarrow> event_sink \<times> server \<Rightarrow> sink_call list \<times> exec_end"

definition agent_text :: "string \<Rightarrow> string \<Rightarrow> pb_message" where
  "agent_text uuid text = message_new uuid Agent [part_text text]"

definition message_try_from :: "pb_message \<Rightarrow> a2a_type_error + pb_message" where
  "message_try_from m = (if msg_role m = pb_role_i32 PbRoleUser \<or> msg_role m = pb_role_i32 PbRoleAgent
     then Inr m else Inl (TE_MissingField ''role''))"

section \<open>The post-execute rule\<close>

definition artifact_sigs :: "pb_task \<Rightarrow> (string \<times> nat) list" where
  "artifact_sigs t = map (\<lambda>a. (art_artifact_id a, length (art_parts a))) (tk_artifacts t)"

text \<open>
  The diff of the artifacts against the signature taken before the executor ran, index by index;
  the result says whether the sink is closed, on which the rule returns.
\<close>

fun publish_artifacts ::
  "(string \<times> nat) list \<Rightarrow> pb_artifact list \<Rightarrow> event_sink \<Rightarrow> server \<Rightarrow> bool \<times> event_sink \<times> server" where
  "publish_artifacts sigs [] sk sv = (False, sk, sv)"
| "publish_artifacts sigs (a # as) sk sv =
     (let (sk, sv) = (case sigs of
          [] \<Rightarrow> snd (emit_artifact a False True sk sv)
        | (prev_id, prev_len) # _ \<Rightarrow>
            if prev_id = art_artifact_id a \<and> prev_len < length (art_parts a)
            then snd (emit_artifact (a\<lparr>art_parts := drop prev_len (art_parts a)\<rparr>) True True sk sv)
            else (sk, sv))
      in if is_closed sk then (True, sk, sv) else publish_artifacts (tl sigs) as sk sv)"

definition commit_forced :: "string \<Rightarrow> event_sink \<Rightarrow> server \<Rightarrow> event_sink \<times> server" where
  "commit_forced uuid sk sv = (if is_interrupted sk then (sk, sv)
     else snd (commit_state_internal Failed (Some (agent_text uuid
       (''executor returned without reaching terminal state and without emitting events''))) sk sv))"

definition commit_result ::
  "string \<Rightarrow> pb_task \<Rightarrow> a2a_error + unit \<Rightarrow> event_sink \<Rightarrow> server \<Rightarrow> event_sink \<times> server" where
  "commit_result uuid t result sk sv = (case result of
       Inl e \<Rightarrow> snd (commit_state_internal Failed
         (Some (agent_text uuid (''executor error: '' @ a2a_error_text e))) sk sv)
     | Inr _ \<Rightarrow>
         (let state_opt = task_state_of t;
              message_opt = Option.bind (task_status t) (\<lambda>st. Option.bind (st_message st)
                (\<lambda>m. case message_try_from m of Inr m \<Rightarrow> Some m | Inl _ \<Rightarrow> None))
          in case state_opt of
               Some s \<Rightarrow>
                 if is_terminal s then snd (commit_state_internal s message_opt sk sv)
                 else if s = InputRequired \<or> s = AuthRequired
                 then snd (commit_state_internal s message_opt sk sv)
                 else commit_forced uuid sk sv
             | None \<Rightarrow> commit_forced uuid sk sv))"

definition commit_post_execute ::
  "string \<Rightarrow> pb_task \<Rightarrow> (string \<times> nat) list \<Rightarrow> a2a_error + unit \<Rightarrow> event_sink \<Rightarrow> server \<Rightarrow> event_sink \<times> server"
where
  "commit_post_execute uuid t sigs result sk sv =
     (if is_closed sk then (sk, sv)
      else (case publish_artifacts sigs (tk_artifacts t) sk sv of
          (True, sk, sv) \<Rightarrow> (sk, sv)
        | (False, sk, sv) \<Rightarrow> commit_result uuid t result sk sv))"

section \<open>The body\<close>

text \<open>The outcome of the spawned tokio task: it finished, panicked, or was aborted.\<close>

datatype task_outcome = Finished | TaskPanicked | TaskAborted

definition run_executor_for_existing_task ::
  "executor \<Rightarrow> string \<Rightarrow> spawn_scope \<Rightarrow> event_sink \<Rightarrow> server \<Rightarrow> task_outcome \<times> event_sink \<times> server" where
  "run_executor_for_existing_task execute uuid sc sk sv =
     (case store_read (get_task (sc_tenant sc) (sc_task_id sc) (sc_owner sc) None) sv of
        (Inr None, sv) \<Rightarrow> (Finished, snd (commit_state_internal Failed
            (Some (agent_text uuid ''framework: task not found when executor body started'')) sk sv))
      | (Inl e, sv) \<Rightarrow> (Finished, snd (commit_state_internal Failed
            (Some (agent_text uuid (''framework: failed to load task in executor body: '' @
               storage_error_text e))) sk sv))
      | (Inr (Some t), sv) \<Rightarrow>
          (let sigs = artifact_sigs t;
               (calls, ending) = execute t sc (sk, sv);
               (sk, sv) = sink_run calls (sk, sv)
           in case ending of
                Returned result t' \<Rightarrow> (Finished, commit_post_execute uuid t' sigs result sk sv)
              | Panicked \<Rightarrow> (TaskPanicked, sk, sv)
              | Aborted \<Rightarrow> (TaskAborted, sk, sv)))"

section \<open>Spawning and supervising\<close>

definition collision_text :: "in_flight_key \<Rightarrow> string" where
  "collision_text key = ''in-flight registry collision for tenant='' @ fst key @ '', task_id='' @
     snd key @ ''; a spawn for this key is already active''"

text \<open>
  Registration: a new handle with a placeholder task, its identity, the registry entry, the sink,
  and the executor's own task. The numbers taken are those of the handle and the two tasks.
\<close>

definition spawn_tracked_executor ::
  "spawn_scope \<Rightarrow> server \<Rightarrow> (a2a_error + nat \<times> event_sink) \<times> server" where
  "spawn_tracked_executor sc sv =
     (let key = (sc_tenant sc, sc_task_id sc);
          h = sv_next sv; placeholder = h + 1; executor_jh = h + 2;
          sv = sv\<lparr>sv_next := h + 3, sv_handles := (sv_handles sv)
            (h := set_identity (sc_owner sc) (sc_context_id sc)
                    (in_flight_handle_new (now_of sv) placeholder))\<rparr>
      in case try_insert key h sv of
           (Inl _, sv) \<Rightarrow>
             (Inl (Internal (''double-spawn for in-flight task: '' @ collision_text key)), sv)
         | (Inr _, sv) \<Rightarrow>
             (Inr (h, event_sink_new (sc_tenant sc) (sc_task_id sc) (sc_context_id sc) (sc_owner sc) h),
              upd_handle h (set_spawned executor_jh) sv))"

definition clear_lease_after_turn :: "in_flight_key \<Rightarrow> server \<Rightarrow> server" where
  "clear_lease_after_turn key sv =
     snd (store_call (\<lambda>_. supervisor_renew_executor_leases (fst key) [snd key] None) sv)"

definition supervise ::
  "string \<Rightarrow> in_flight_key \<Rightarrow> nat \<Rightarrow> task_outcome \<Rightarrow> event_sink \<Rightarrow> server \<Rightarrow> event_sink \<times> server" where
  "supervise uuid key h outcome sk sv =
     (let (spawned, hd) = take_spawned (sv_handles sv h);
          sv = upd_handle h (\<lambda>_. hd) sv;
          (sk, sv) = (if spawned \<noteq> None \<and> outcome = TaskPanicked \<and> \<not> is_closed sk
            then snd (commit_state_internal Failed (Some (agent_text uuid ''executor panicked'')) sk sv)
            else (sk, sv));
          ended_turn = (ih_terminal_committed (sv_handles sv h) \<or> ih_client_held (sv_handles sv h));
          sv = sentinel_drop key h sv
      in (sk, if ended_turn \<and> executor_lease_ttl (sv_config sv) \<noteq> None
              then clear_lease_after_turn key sv else sv))"

text \<open>One turn of an executor, from its registration to the end of its supervisor.\<close>

definition executor_turn :: "executor \<Rightarrow> string \<Rightarrow> spawn_scope \<Rightarrow> server \<Rightarrow> (a2a_error + nat) \<times> event_sink \<times> server" where
  "executor_turn execute uuid sc sv = (case spawn_tracked_executor sc sv of
       (Inl e, sv) \<Rightarrow> (Inl e, None, sv)
     | (Inr (h, sk), sv) \<Rightarrow>
         (case run_executor_for_existing_task execute uuid sc sk sv of
            (outcome, sk, sv) \<Rightarrow> (case supervise uuid (sc_tenant sc, sc_task_id sc) h outcome sk sv of
               (sk, sv) \<Rightarrow> (Inr h, sk, sv))))"

text \<open>The durable-queue consumer: no registry entry and no supervisor.\<close>

definition run_queued_executor_job ::
  "executor \<Rightarrow> string \<Rightarrow> spawn_scope \<Rightarrow> server \<Rightarrow> task_outcome \<times> event_sink \<times> server" where
  "run_queued_executor_job execute uuid sc sv =
     (let h = sv_next sv;
          sv = sv\<lparr>sv_next := h + 2, sv_handles := (sv_handles sv)
            (h := in_flight_handle_new (now_of sv) (h + 1))\<rparr>
      in run_executor_for_existing_task execute uuid sc
           (event_sink_new (sc_tenant sc) (sc_task_id sc) (sc_context_id sc) (sc_owner sc) h) sv)"

end
