(* ===== verification/Task_Stream.thy ===== *)
theory Task_Stream
  imports Task_Lifecycle Server_Error
begin

text \<open>
  The stream behind \<open>SendStreamingMessage\<close> and \<open>SubscribeToTask\<close> (\<open>streaming/task_stream.rs\<close>):
  the snapshot, then round after round the events above the last one sent, until one closes the
  stream. What a round meets is a \<open>stream_world\<close>: the store it reads, the error its read
  returns, whether the wake-up channel was closed after it, and how many items the consumer
  takes before it goes away.
\<close>

section \<open>The stream\<close>

datatype stream_item = ItemTask pb_task | ItemEvent stream_event

definition closes_stream :: "task_state \<Rightarrow> bool" where
  "closes_stream st \<longleftrightarrow> is_terminal st \<or> st = InputRequired"

record stream_world =
  sw_store :: "nat \<Rightarrow> store"
  sw_fault :: "nat \<Rightarrow> storage_error option"
  sw_wake_closed :: "nat \<Rightarrow> bool"
  sw_takes :: "nat option"

type_synonym stream_items = "(a2a_error + stream_item) list"

text \<open>\<open>tx.send\<close>: refused once the consumer is gone.\<close>

definition send_item :: "stream_world \<Rightarrow> a2a_error + stream_item \<Rightarrow> stream_items \<Rightarrow> bool \<times> stream_items" where
  "send_item w x out = (case sw_takes w of
       None \<Rightarrow> (True, out @ [x])
     | Some n \<Rightarrow> if length out < n then (True, out @ [x]) else (False, out))"

definition event_closes :: "stream_event \<Rightarrow> bool" where
  "event_closes e \<longleftrightarrow> (case event_task_state e of None \<Rightarrow> False | Some st \<Rightarrow> closes_stream st)"

text \<open>The inner loop: whether the stream returned in it, what was sent and the last number.\<close>

fun deliver_events ::
  "stream_world \<Rightarrow> (nat \<times> stream_event) list \<Rightarrow> nat \<Rightarrow> stream_items \<Rightarrow> bool \<times> stream_items \<times> nat" where
  "deliver_events w [] last_seq out = (False, out, last_seq)"
| "deliver_events w ((seq, e) # evs) last_seq out =
     (case send_item w (Inr (ItemEvent e)) out of (sent, out) \<Rightarrow>
        if \<not> sent \<or> event_closes e then (True, out, seq) else deliver_events w evs seq out)"

fun stream_loop ::
  "nat \<Rightarrow> stream_world \<Rightarrow> string \<Rightarrow> string \<Rightarrow> nat \<Rightarrow> nat \<Rightarrow> stream_items \<Rightarrow> bool \<times> stream_items" where
  "stream_loop 0 w tn i round_no last_seq out = (False, out)"
| "stream_loop (Suc fuel) w tn i round_no last_seq out =
     (case (case sw_fault w round_no of Some e \<Rightarrow> Inl e
            | None \<Rightarrow> get_events_after tn i last_seq (sw_store w round_no)) of
        Inl e \<Rightarrow> (True, snd (send_item w (Inl (a2a_of_storage e)) out))
      | Inr evs \<Rightarrow> (case deliver_events w evs last_seq out of
            (True, out, _) \<Rightarrow> (True, out)
          | (False, out, last_seq) \<Rightarrow>
              if sw_wake_closed w round_no then (True, out)
              else stream_loop fuel w tn i (Suc round_no) last_seq out))"

text \<open>The stream after \<open>fuel\<close> rounds: whether it has ended, and the items it sent.\<close>

definition task_event_stream ::
  "nat \<Rightarrow> stream_world \<Rightarrow> string \<Rightarrow> string \<Rightarrow> pb_task \<Rightarrow> nat \<Rightarrow> bool \<times> stream_items" where
  "task_event_stream fuel w tn i snapshot seq =
     (let closes = (case task_state_of snapshot of None \<Rightarrow> False | Some st \<Rightarrow> closes_stream st)
      in case send_item w (Inr (ItemTask snapshot)) [] of (sent, out) \<Rightarrow>
        if \<not> sent \<or> closes then (True, out) else stream_loop fuel w tn i 0 seq out)"

section \<open>What it should send\<close>

text \<open>The events up to and with the first that closes.\<close>

fun up_to_closing :: "stream_event list \<Rightarrow> stream_event list" where
  "up_to_closing [] = []"
| "up_to_closing (e # es) = e # (if event_closes e then [] else up_to_closing es)"

definition events_above :: "nat \<Rightarrow> event_log \<Rightarrow> stream_event list" where
  "events_above k l = map (\<lambda>(_, e, _). e) (filter (\<lambda>(q, _, _). q > k) l)"

lemma up_to_closing_open: "\<forall>e \<in> set xs. \<not> event_closes e \<Longrightarrow> up_to_closing (xs @ ys) = xs @ up_to_closing ys"
  by (induction xs) auto

lemma up_to_closing_all: "\<forall>e \<in> set xs. \<not> event_closes e \<Longrightarrow> up_to_closing xs = xs"
  using up_to_closing_open [of xs "[]"] by simp

text \<open>Nobody disturbs the stream: reads succeed, the channel lives, the consumer stays.\<close>

definition undisturbed :: "stream_world \<Rightarrow> bool" where
  "undisturbed w \<longleftrightarrow> (\<forall>n. sw_fault w n = None) \<and> (\<forall>n. \<not> sw_wake_closed w n) \<and> sw_takes w = None"

lemma send_undisturbed: "undisturbed w \<Longrightarrow> send_item w x out = (True, out @ [x])"
  by (simp add: undisturbed_def send_item_def)

lemma deliver_undisturbed:
  assumes "undisturbed w"
  shows "deliver_events w evs k out = (b, out', k') \<Longrightarrow>
    b = (\<exists>e \<in> set evs. event_closes (snd e)) \<and>
    out' = out @ map (Inr \<circ> ItemEvent) (up_to_closing (map snd evs)) \<and>
    (\<not> b \<longrightarrow> k' = (if evs = [] then k else fst (last evs)))"
proof (induction evs arbitrary: k out)
  case (Cons a evs)
  obtain q e where a: "a = (q, e)" by (cases a)
  show ?case
  proof (cases "event_closes e")
    case True
    then show ?thesis using Cons.prems a send_undisturbed [OF assms] by auto
  next
    case False
    then have "deliver_events w evs q (out @ [Inr (ItemEvent e)]) = (b, out', k')"
      using Cons.prems a send_undisturbed [OF assms] by simp
    from Cons.IH [OF this] a False show ?thesis by auto
  qed
qed simp

section \<open>Growing logs\<close>

definition log_grows :: "event_log \<Rightarrow> event_log \<Rightarrow> bool" where
  "log_grows l l' \<longleftrightarrow> (\<exists>more. l' = l @ more)"

lemma view_step_grows: "view_step v v' \<Longrightarrow> log_grows (snd (snd v)) (snd (snd v'))"
  by (cases rule: view_step.cases) (auto simp: log_grows_def)

lemma log_grows_trans: "log_grows l l' \<Longrightarrow> log_grows l' l'' \<Longrightarrow> log_grows l l''"
  by (auto simp: log_grows_def)

lemma server_run_grows:
  "server_run tn i s s' \<Longrightarrow> life_logged (view_of s tn i) \<Longrightarrow> log_grows (log_of s tn i) (log_of s' tn i)"
proof (induction rule: server_run.induct)
  case (done_run s)
  then show ?case by (simp add: log_grows_def)
next
  case (step_run s s' op)
  then obtain c where "state_of s' tn i = Some c"
    using server_run_lifecycle [of tn i s s'] lifecycle_state by blast
  then have "view_step (view_of s' tn i) (view_of (exec op s') tn i)"
    using step_run.hyps(2) server_op_view by blast
  from view_step_grows [OF this] step_run show ?case
    by (auto simp: view_of_def intro: log_grows_trans)
qed

text \<open>One store after another, as the server's writes change it between two rounds.\<close>

definition watched :: "string \<Rightarrow> string \<Rightarrow> (nat \<Rightarrow> store) \<Rightarrow> bool" where
  "watched tn i seen \<longleftrightarrow> life_logged (view_of (seen 0) tn i) \<and>
     (\<forall>n. log_ok (seen n) tn i \<and> server_run tn i (seen n) (seen (Suc n)))"

lemma watched_lifecycle: "watched tn i seen \<Longrightarrow> life_logged (view_of (seen n) tn i)"
  by (induction n) (auto simp: watched_def intro: server_run_lifecycle)

lemma watched_grows: "watched tn i seen \<Longrightarrow> log_grows (log_of (seen n) tn i) (log_of (seen (Suc n)) tn i)"
  using watched_lifecycle [of tn i seen n] server_run_grows by (auto simp: watched_def)

lemma watched_sorted: "watched tn i seen \<Longrightarrow> sorted_wrt (<) (map fst (log_of (seen n) tn i))"
  by (simp add: watched_def log_ok_def)

section \<open>What it does send\<close>

lemma up_to_closing_cut:
  "e \<in> set xs \<Longrightarrow> event_closes e \<Longrightarrow> up_to_closing (xs @ ys) = up_to_closing xs"
  by (induction xs) auto

lemma events_above_append: "events_above k (l @ l') = events_above k l @ events_above k l'"
  by (simp add: events_above_def)

lemma events_above_grows:
  "log_grows l l' \<Longrightarrow> \<exists>more. events_above k l' = events_above k l @ more"
  using events_above_append by (auto simp: log_grows_def)

lemma get_events_above: "get_events_after tn i k s = Inr evs \<Longrightarrow> map snd evs = events_above k (log_of s tn i)"
  by (auto simp: get_events_after_log events_above_def)

lemma sorted_split:
  assumes "sorted_wrt (<) (map fst l)" and "q \<le> k"
  shows "events_above q l = map (\<lambda>(_, e, _). e) (filter (\<lambda>(p, _, _). q < p \<and> p \<le> k) l) @ events_above k l"
  using assms(1)
proof (induction l)
  case (Cons a l)
  obtain p e at where a: "a = (p, e, at)" by (cases a)
  show ?case
  proof (cases "p \<le> k")
    case True
    with Cons a show ?thesis by (simp add: events_above_def)
  next
    case False
    then have "filter (\<lambda>(p, _, _). q < p \<and> p \<le> k) l = []" "filter (\<lambda>(p, _, _). p > k) l = l" "filter (\<lambda>(p, _, _). p > q) l = l"
      using Cons.prems a assms(2) by (auto simp: filter_empty_conv intro!: filter_True)
    with False a assms(2) show ?thesis by (simp add: events_above_def)
  qed
qed (simp add: events_above_def)

text \<open>Where the loop stands before round \<open>n\<close>: \<open>sent\<close> is the log above \<open>q\<close> up to the last number.\<close>

definition stream_at :: "event_log \<Rightarrow> nat \<Rightarrow> nat \<Rightarrow> stream_event list \<Rightarrow> bool" where
  "stream_at l q k sent \<longleftrightarrow> q \<le> k \<and> events_above q l = sent @ events_above k l \<and>
     (k = q \<or> k \<in> fst ` set l) \<and> (\<forall>e \<in> set sent. \<not> event_closes e)"

lemma stream_at_grows:
  assumes "stream_at l q k sent" and "log_grows l l'" and "sorted_wrt (<) (map fst l')"
  shows "stream_at l' q k sent"
proof -
  obtain more where l': "l' = l @ more" using assms(2) by (auto simp: log_grows_def)
  have "events_above q more = events_above k more"
  proof (cases "k = q")
    case False
    then have "k \<in> fst ` set l" using assms(1) by (simp add: stream_at_def)
    then have "\<forall>x \<in> set more. k < fst x" using assms(3) l' by (auto simp: sorted_wrt_append)
    moreover have "q \<le> k" using assms(1) by (simp add: stream_at_def)
    ultimately have "filter (\<lambda>(p, _, _). p > q) more = more" "filter (\<lambda>(p, _, _). p > k) more = more"
      by (auto intro!: filter_True)
    then show ?thesis by (simp add: events_above_def)
  qed simp
  then show ?thesis using assms(1) l' by (auto simp: stream_at_def events_above_append)
qed

lemma stream_at_round:
  assumes "stream_at l q k sent" and "sorted_wrt (<) (map fst l)"
    and "\<forall>e \<in> set (events_above k l). \<not> event_closes e"
    and "evs = map (\<lambda>(q, e, _). (q, e)) (filter (\<lambda>(q, _, _). q > k) l)"
  shows "stream_at l q (if evs = [] then k else fst (last evs)) (sent @ events_above k l)"
proof (cases "evs = []")
  case True
  then show ?thesis using assms by (auto simp: stream_at_def events_above_def)
next
  case False
  let ?f = "filter (\<lambda>(q, _, _). q > k) l" and ?k = "fst (last evs)"
  have ne: "?f \<noteq> []" using False assms(4) by auto
  have last: "?k = fst (last ?f)" using ne assms(4) by (simp add: last_map case_prod_beta)
  have mem: "last ?f \<in> set l" "k < fst (last ?f)" using last_in_set [OF ne] by auto
  have "sorted_wrt (<) (map fst ?f)" using assms(2) by (simp add: sorted_wrt_map sorted_wrt_filter)
  then have top: "\<forall>x \<in> set ?f. fst x \<le> ?k"
    using ne unfolding last by (cases ?f rule: rev_exhaust) (auto simp: sorted_wrt_append less_imp_le)
  have "events_above ?k l = []"
    using top mem(2) last by (fastforce simp: events_above_def filter_empty_conv)
  then show ?thesis
    using assms(1,3) mem last False by (auto simp: stream_at_def)
qed

lemma watched_grows_to: "watched tn i seen \<Longrightarrow> log_grows (log_of (seen n) tn i) (log_of (seen (n + m)) tn i)"
proof (induction m)
  case (Suc m)
  then show ?case using watched_grows [of tn i seen "n + m"] log_grows_trans by fastforce
qed (simp add: log_grows_def)

definition sends :: "stream_items \<Rightarrow> stream_event list \<Rightarrow> stream_items" where
  "sends pre es = pre @ map (Inr \<circ> ItemEvent) es"

lemma stream_round:
  assumes und: "undisturbed w" and l: "l = log_of (sw_store w n) tn i" "sorted_wrt (<) (map fst l)"
    and at: "stream_at l q k sent"
  shows "\<exists>k'. stream_loop (Suc f) w tn i n k (sends pre sent) =
      (if \<exists>e \<in> set (events_above q l). event_closes e
       then (True, sends pre (up_to_closing (events_above q l)))
       else stream_loop f w tn i (Suc n) k' (sends pre (events_above q l))) \<and>
    ((\<forall>e \<in> set (events_above q l). \<not> event_closes e) \<longrightarrow> stream_at l q k' (events_above q l))"
proof -
  let ?evs = "map (\<lambda>(q, e, _). (q, e)) (filter (\<lambda>(q, _, _). q > k) l)"
  obtain b out k' where d: "deliver_events w ?evs k (sends pre sent) = (b, out, k')"
    by (cases "deliver_events w ?evs k (sends pre sent)")
  have snds: "map snd ?evs = events_above k l"
    using get_events_above [OF get_events_after_log] l(1) by simp
  have cl: "(\<exists>e \<in> set ?evs. event_closes (snd e)) = (\<exists>e \<in> set (events_above k l). event_closes e)"
    unfolding snds [symmetric] by (simp only: set_map bex_simps)
  note del = deliver_undisturbed [OF und d, unfolded snds cl]
  have above: "events_above q l = sent @ events_above k l" and quiet: "\<forall>e \<in> set sent. \<not> event_closes e"
    using at by (simp_all add: stream_at_def)
  have loop: "stream_loop (Suc f) w tn i n k (sends pre sent) =
      (if b then (True, out) else stream_loop f w tn i (Suc n) k' out)"
    using und d l(1) by (simp add: undisturbed_def get_events_after_log)
  have b: "b = (\<exists>e \<in> set (events_above q l). event_closes e)"
    using del quiet above by auto
  have out: "out = sends pre (up_to_closing (events_above q l))"
    using del quiet by (simp add: above up_to_closing_open sends_def)
  have "stream_at l q k' (events_above q l)" if nb: "\<not> b"
  proof -
    have "\<forall>e \<in> set (events_above k l). \<not> event_closes e" using nb b above by simp
    from stream_at_round [OF at l(2) this refl] show ?thesis using del nb above by simp
  qed
  then show ?thesis
    unfolding loop out b [symmetric] using b up_to_closing_all [of "events_above q l"] by auto
qed

lemma stream_loop_exact:
  assumes und: "undisturbed w" and watch: "watched tn i (sw_store w)"
  shows "stream_at (log_of (sw_store w n) tn i) q k sent \<Longrightarrow>
    evs = events_above q (log_of (sw_store w (n + f)) tn i) \<Longrightarrow>
    stream_loop (Suc f) w tn i n k (sends pre sent) =
      (\<exists>e \<in> set evs. event_closes e, sends pre (up_to_closing evs))"
proof (induction f arbitrary: n k sent)
  case (0 n k sent)
  let ?l = "log_of (sw_store w n) tn i"
  have evs: "evs = events_above q ?l" using 0(2) by simp
  obtain k' where r: "stream_loop (Suc 0) w tn i n k (sends pre sent) =
      (if \<exists>e \<in> set evs. event_closes e then (True, sends pre (up_to_closing evs))
       else stream_loop 0 w tn i (Suc n) k' (sends pre evs))"
    using stream_round [OF und refl watched_sorted [OF watch] 0(1), of 0 pre] evs by blast
  show ?case
  proof (cases "\<exists>e \<in> set evs. event_closes e")
    case True
    then show ?thesis unfolding r by simp
  next
    case False
    then have "up_to_closing evs = evs" by (intro up_to_closing_all) blast
    with False show ?thesis unfolding r by simp
  qed
next
  case (Suc f n k sent)
  let ?l = "log_of (sw_store w n) tn i"
  obtain k' where r: "stream_loop (Suc (Suc f)) w tn i n k (sends pre sent) =
      (if \<exists>e \<in> set (events_above q ?l). event_closes e
       then (True, sends pre (up_to_closing (events_above q ?l)))
       else stream_loop (Suc f) w tn i (Suc n) k' (sends pre (events_above q ?l)))"
    "(\<forall>e \<in> set (events_above q ?l). \<not> event_closes e) \<longrightarrow> stream_at ?l q k' (events_above q ?l)"
    using stream_round [OF und refl watched_sorted [OF watch] Suc.prems(1)] by blast
  show ?case
  proof (cases "\<exists>e \<in> set (events_above q ?l). event_closes e")
    case True
    then obtain e where e: "e \<in> set (events_above q ?l)" "event_closes e" by blast
    obtain more where more: "evs = events_above q ?l @ more"
      using events_above_grows [OF watched_grows_to [OF watch]] Suc.prems(2) by blast
    show ?thesis
      unfolding r(1) more up_to_closing_cut [OF e] using True by auto
  next
    case False
    then have "stream_at (log_of (sw_store w (Suc n)) tn i) q k' (events_above q ?l)"
      using r(2) stream_at_grows watched_grows [OF watch] watched_sorted [OF watch] by blast
    from Suc.IH [OF this] Suc.prems(2) False show ?thesis unfolding r(1) by simp
  qed
qed

theorem stream_exact:
  assumes "undisturbed w" and "watched tn i (sw_store w)" and "task_state_of snapshot = Some st"
  shows "task_event_stream (Suc n) w tn i snapshot q =
    (let evs = (if closes_stream st then [] else events_above q (log_of (sw_store w n) tn i))
     in (closes_stream st \<or> (\<exists>e \<in> set evs. event_closes e),
         Inr (ItemTask snapshot) # map (Inr \<circ> ItemEvent) (up_to_closing evs)))"
proof (cases "closes_stream st")
  case True
  then show ?thesis using assms(3) send_undisturbed [OF assms(1)] by (simp add: task_event_stream_def del: stream_loop.simps)
next
  case False
  have "stream_at (log_of (sw_store w 0) tn i) q q []" by (simp add: stream_at_def)
  from stream_loop_exact [OF assms(1,2) this, of _ n "[Inr (ItemTask snapshot)]"] False
  show ?thesis
    using assms(3) send_undisturbed [OF assms(1)]
    by (simp add: task_event_stream_def sends_def Let_def del: stream_loop.simps)
qed

end
