(* ===== verification/Handlers.thy ===== *)
theory Handlers
  imports Spawn Task_Stream Store_List
begin

text \<open>
  The transport-independent operations of \<open>router.rs\<close>, which every binding calls: guards, reads
  and writes in the order of the code, each storage call through \<open>store_call\<close>.

  A request body is what \<open>serde\<close> makes of it, a value or the text of its error. The agent card,
  the URL parser, the RFC 3339 parser and fresh UUIDs are arguments.
\<close>

section \<open>Paths\<close>

datatype task_action =
    GetTask string
  | CancelTask string
  | SubscribeToTask string
  | PushConfigCollection string
  | PushConfigItem string string

definition strip_prefix :: "string \<Rightarrow> string \<Rightarrow> string option" where
  "strip_prefix p s = (if take (length p) s = p then Some (drop (length p) s) else None)"

definition strip_suffix :: "string \<Rightarrow> string \<Rightarrow> string option" where
  "strip_suffix p s = map_option rev (strip_prefix (rev p) (rev s))"

fun split_on :: "char \<Rightarrow> string \<Rightarrow> string list" where
  "split_on c [] = [[]]"
| "split_on c (x # xs) = (if x = c then [] # split_on c xs
     else (case split_on c xs of [] \<Rightarrow> [[x]] | y # ys \<Rightarrow> (x # y) # ys))"

definition unwrap_or :: "'a \<Rightarrow> 'a option \<Rightarrow> 'a" where
  "unwrap_or d x = (case x of Some y \<Rightarrow> y | None \<Rightarrow> d)"

definition parse_task_path :: "string \<Rightarrow> task_action option" where
  "parse_task_path rest =
     (let rest = unwrap_or rest (strip_prefix ''/'' rest)
      in case split_on (CHR ''/'') rest of
           [segment] \<Rightarrow> (case strip_suffix '':cancel'' segment of
               Some i \<Rightarrow> Some (CancelTask i)
             | None \<Rightarrow> (case strip_suffix '':subscribe'' segment of
                 Some i \<Rightarrow> Some (SubscribeToTask i)
               | None \<Rightarrow> Some (GetTask segment)))
         | [task_id, kind] \<Rightarrow>
             if kind = ''pushNotificationConfigs'' then Some (PushConfigCollection task_id) else None
         | [task_id, kind, config_id] \<Rightarrow>
             if kind = ''pushNotificationConfigs'' then Some (PushConfigItem task_id config_id) else None
         | _ \<Rightarrow> None)"

section \<open>The agent card\<close>

record agent_extension =
  ext_uri :: string
  ext_required :: bool

record agent_capabilities =
  cap_streaming :: "bool option"
  cap_push_notifications :: "bool option"
  cap_extended_agent_card :: "bool option"
  cap_extensions :: "agent_extension list"

record agent_card =
  card_capabilities :: "agent_capabilities option"
  card_default_input_modes :: "string list"

datatype capability = Streaming | PushNotifications | ExtendedAgentCard

fun cap_flag :: "capability \<Rightarrow> agent_capabilities \<Rightarrow> bool option" where
  "cap_flag Streaming c = cap_streaming c"
| "cap_flag PushNotifications c = cap_push_notifications c"
| "cap_flag ExtendedAgentCard c = cap_extended_agent_card c"

fun cap_unsupported :: "capability \<Rightarrow> a2a_error" where
  "cap_unsupported Streaming = UnsupportedOperation (''streaming is not supported by this agent '' @
     ''(AgentCard.capabilities.streaming is not true)'')"
| "cap_unsupported PushNotifications = PushNotificationNotSupported"
| "cap_unsupported ExtendedAgentCard = UnsupportedOperation (''the extended agent card is not supported by this agent '' @
     ''(AgentCard.capabilities.extendedAgentCard is not true)'')"

definition cap_require :: "agent_card \<Rightarrow> capability \<Rightarrow> a2a_error + unit" where
  "cap_require ac c =
     (if unwrap_or False (Option.bind (card_capabilities ac) (cap_flag c)) then Inr ()
      else Inl (cap_unsupported c))"

section \<open>Media types\<close>

text \<open>The characters \<open>str::trim\<close> removes, as the UTF-8 bytes they are.\<close>

definition bytes :: "nat list \<Rightarrow> string" where
  "bytes = map char_of"

definition WHITESPACE :: "string list" where
  "WHITESPACE = map (\<lambda>b. bytes [b]) [9, 10, 11, 12, 13, 32] @
     [bytes [0xC2, 0x85], bytes [0xC2, 0xA0], bytes [0xE1, 0x9A, 0x80]] @
     map (\<lambda>b. bytes [0xE2, 0x80, b]) ([0x80 ..< 0x8B] @ [0xA8, 0xA9, 0xAF]) @
     [bytes [0xE2, 0x81, 0x9F], bytes [0xE3, 0x80, 0x80]]"

function trim_by :: "string list \<Rightarrow> string \<Rightarrow> string" where
  "trim_by ws s = (case find (\<lambda>w. w \<noteq> [] \<and> strip_prefix w s \<noteq> None) ws of
       Some w \<Rightarrow> trim_by ws (drop (length w) s) | None \<Rightarrow> s)"
  by pat_completeness auto
termination
proof (relation "measure (\<lambda>(ws, s). length s)")
  fix ws s w assume "find (\<lambda>w. w \<noteq> [] \<and> strip_prefix w s \<noteq> None) ws = Some w"
  then have "w \<noteq> []" "strip_prefix w s \<noteq> None" by (auto simp: find_Some_iff)
  then show "((ws, drop (length w) s), ws, s) \<in> measure (\<lambda>(ws, s). length s)"
    by (cases s) (auto simp: strip_prefix_def split: if_splits)
qed simp

definition trim :: "string \<Rightarrow> string" where
  "trim s = rev (trim_by (map rev WHITESPACE) (rev (trim_by WHITESPACE s)))"

definition ascii_lower :: "char \<Rightarrow> char" where
  "ascii_lower c = (if 65 \<le> (of_char c :: nat) \<and> (of_char c :: nat) \<le> 90
     then char_of ((of_char c :: nat) + 32) else c)"

definition media_essence :: "string \<Rightarrow> string" where
  "media_essence m = map ascii_lower (trim (hd (split_on (CHR '';'') m)))"

definition mode_accepts :: "string \<Rightarrow> string \<Rightarrow> bool" where
  "mode_accepts media_type mode =
     (let wanted = media_essence media_type; mode = media_essence mode
      in mode = ''*/*'' \<or> mode = wanted \<or>
         (case strip_suffix ''/*'' mode of
            Some ty \<Rightarrow> hd (split_on (CHR ''/'') wanted) = ty | None \<Rightarrow> False))"

definition check_part_media_types :: "agent_card \<Rightarrow> pb_message \<Rightarrow> a2a_error + unit" where
  "check_part_media_types ac m =
     (if card_default_input_modes ac = [] then Inr ()
      else case find (\<lambda>p. part_media_type p \<noteq> [] \<and>
                \<not> list_ex (mode_accepts (part_media_type p)) (card_default_input_modes ac)) (msg_parts m) of
             Some p \<Rightarrow> Inl (ContentTypeNotSupported (part_media_type p))
           | None \<Rightarrow> Inr ())"

section \<open>Requests\<close>

record send_configuration =
  cf_accepted_output_modes :: "string list"
  cf_push_config :: "push_config option"
  cf_history_length :: "int option"
  cf_return_immediately :: bool

record send_request =
  sr_message :: "pb_message option"
  sr_metadata :: "json option"
  sr_configuration :: "send_configuration option"

definition checked_history_length :: "int option \<Rightarrow> a2a_error + int option" where
  "checked_history_length h = (case h of
       Some n \<Rightarrow> if n < 0
         then Inl (InvalidRequest (''historyLength must be a non-negative integer, got '' @ show_int n))
         else Inr h
     | None \<Rightarrow> Inr None)"

definition request_message :: "send_request \<Rightarrow> a2a_error + pb_message" where
  "request_message req = (case sr_message req of
       None \<Rightarrow> Inl (InvalidRequest ''message field is required'')
     | Some m \<Rightarrow> (case message_try_from m of
         Inl e \<Rightarrow> Inl (InvalidRequest (''Invalid message: '' @ type_error_text e))
       | Inr m \<Rightarrow> Inr m))"

definition decode_request :: "string + 'r \<Rightarrow> string \<Rightarrow> a2a_error + 'r" where
  "decode_request body what = (case body of
       Inl e \<Rightarrow> Inl (InvalidRequest (what @ e)) | Inr r \<Rightarrow> Inr r)"

text \<open>\<open>url_error\<close> is what \<open>url::Url::parse\<close> says against a text, if anything.\<close>

definition inline_push_config ::
  "agent_card \<Rightarrow> (string \<Rightarrow> string option) \<Rightarrow> send_configuration option \<Rightarrow> a2a_error + push_config option"
where
  "inline_push_config ac url_error configuration =
     (case Option.bind configuration cf_push_config of
        None \<Rightarrow> Inr None
      | Some cfg \<Rightarrow> (case cap_require ac PushNotifications of
          Inl e \<Rightarrow> Inl e
        | Inr _ \<Rightarrow>
            if pc_url cfg = [] then Inl (InvalidRequest ''inline push config url is required'')
            else (case url_error (pc_url cfg) of
                Some e \<Rightarrow> Inl (InvalidRequest (''inline push config url is not a valid URL: '' @ e))
              | None \<Rightarrow> Inr (Some cfg))))"

section \<open>Handler steps\<close>

type_synonym 'a handled = "(a2a_error + 'a) \<times> server"

text \<open>\<open>check?\<close>, \<open>storage_call.map_err(A2aError::from)?\<close> and the owner-scoped read of a task.\<close>

definition guard :: "a2a_error + 'a \<Rightarrow> ('a \<Rightarrow> server \<Rightarrow> 'b handled) \<Rightarrow> server \<Rightarrow> 'b handled" where
  "guard c k sv = (case c of Inl e \<Rightarrow> (Inl e, sv) | Inr x \<Rightarrow> k x sv)"

definition call_then ::
  "(server \<Rightarrow> (storage_error + 'a) \<times> server) \<Rightarrow> ('a \<Rightarrow> server \<Rightarrow> 'b handled) \<Rightarrow> server \<Rightarrow> 'b handled" where
  "call_then f k sv = (case f sv of
       (Inl e, sv) \<Rightarrow> (Inl (a2a_of_storage e), sv) | (Inr x, sv) \<Rightarrow> k x sv)"

definition step_then :: "(server \<Rightarrow> 'a handled) \<Rightarrow> ('a \<Rightarrow> server \<Rightarrow> 'b handled) \<Rightarrow> server \<Rightarrow> 'b handled" where
  "step_then f k sv = (case f sv of (Inl e, sv) \<Rightarrow> (Inl e, sv) | (Inr x, sv) \<Rightarrow> k x sv)"

definition with_owned_task ::
  "string \<Rightarrow> string \<Rightarrow> string \<Rightarrow> int option \<Rightarrow> (pb_task \<Rightarrow> server \<Rightarrow> 'b handled) \<Rightarrow> server \<Rightarrow> 'b handled" where
  "with_owned_task tn ow i history_length k =
     call_then (store_read (get_task tn i ow history_length))
       (\<lambda>r sv. case r of None \<Rightarrow> (Inl (TaskNotFound i), sv) | Some t \<Rightarrow> k t sv)"

definition reply :: "'a \<Rightarrow> server \<Rightarrow> 'a handled" where
  "reply x sv = (Inr x, sv)"

definition task_terminal :: "pb_task \<Rightarrow> bool" where
  "task_terminal t \<longleftrightarrow> (case task_state_of t of Some st \<Rightarrow> is_terminal st | None \<Rightarrow> False)"

section \<open>GetTask and ListTasks\<close>

definition core_get_task :: "string \<Rightarrow> string \<Rightarrow> string \<Rightarrow> int option \<Rightarrow> server \<Rightarrow> pb_task handled" where
  "core_get_task tn ow i history_length =
     guard (checked_history_length history_length) (\<lambda>h. with_owned_task tn ow i h reply)"

record list_tasks_query =
  lq_context_id :: "string option"
  lq_status :: "string option"
  lq_page_size :: "int option"
  lq_page_token :: "string option"
  lq_history_length :: "int option"
  lq_include_artifacts :: "bool option"
  lq_status_timestamp_after :: "string option"

definition query_status :: "string option \<Rightarrow> a2a_error + task_state option" where
  "query_status s = (case s of None \<Rightarrow> Inr None
     | Some name \<Rightarrow> (case from_wire_name name of
         None \<Rightarrow> Inl (InvalidRequest (''Invalid status value: '' @ name)) | Some st \<Rightarrow> Inr (Some st)))"

definition query_time :: "(string \<Rightarrow> int option) \<Rightarrow> string option \<Rightarrow> a2a_error + int option" where
  "query_time parse_rfc3339 s = (case s of None \<Rightarrow> Inr None
     | Some text \<Rightarrow> (case parse_rfc3339 text of
         None \<Rightarrow> Inl (InvalidRequest (''Invalid statusTimestampAfter value: '' @ text)) | Some time \<Rightarrow> Inr (Some time)))"

definition query_filter ::
  "string \<Rightarrow> string \<Rightarrow> list_tasks_query \<Rightarrow> int option \<Rightarrow> task_state option \<Rightarrow> int option \<Rightarrow> task_filter" where
  "query_filter tn ow q history_length status after =
     \<lparr>tf_tenant = Some tn, tf_owner = Some ow, tf_context_id = lq_context_id q, tf_status = status,
      tf_page_size = lq_page_size q,
      tf_page_token = Option.bind (lq_page_token q) (\<lambda>t. if t = [] then None else Some t),
      tf_history_length = history_length, tf_status_timestamp_after = after,
      tf_include_artifacts = lq_include_artifacts q\<rparr>"

definition core_list_tasks ::
  "chrono \<Rightarrow> (string \<Rightarrow> int option) \<Rightarrow> string \<Rightarrow> string \<Rightarrow> list_tasks_query \<Rightarrow> server \<Rightarrow> task_list_page handled" where
  "core_list_tasks c parse_rfc3339 tn ow q =
     guard (checked_history_length (lq_history_length q)) (\<lambda>h.
     guard (query_status (lq_status q)) (\<lambda>st.
     guard (query_time parse_rfc3339 (lq_status_timestamp_after q)) (\<lambda>after.
     call_then (store_read (list_tasks c (query_filter tn ow q h st after))) reply)))"

section \<open>Push notification configs\<close>

definition verify_task_ownership ::
  "string \<Rightarrow> string \<Rightarrow> string \<Rightarrow> (server \<Rightarrow> 'b handled) \<Rightarrow> server \<Rightarrow> 'b handled" where
  "verify_task_ownership tn ow i k = with_owned_task tn ow i (Some 0) (\<lambda>_. k)"

definition config_url_ok :: "(string \<Rightarrow> string option) \<Rightarrow> push_config \<Rightarrow> a2a_error + unit" where
  "config_url_ok url_error cfg =
     (if pc_url cfg = [] then Inl (InvalidRequest ''push config url is required'')
      else (case url_error (pc_url cfg) of
          Some e \<Rightarrow> Inl (InvalidRequest (''push config url is not a valid URL: '' @ e))
        | None \<Rightarrow> Inr ()))"

definition core_create_push_config ::
  "agent_card \<Rightarrow> (string \<Rightarrow> string option) \<Rightarrow> string \<Rightarrow> (nat \<Rightarrow> store \<Rightarrow> store) \<Rightarrow> string \<Rightarrow> string \<Rightarrow> string \<Rightarrow>
     string + push_config \<Rightarrow> server \<Rightarrow> push_config handled" where
  "core_create_push_config ac url_error uuid gap tn ow i body =
     guard (cap_require ac PushNotifications) (\<lambda>_.
     verify_task_ownership tn ow i (
     guard (decode_request body ''Invalid push config: '') (\<lambda>cfg.
       let cfg = cfg\<lparr>pc_task_id := i\<rparr>
       in guard (config_url_ok url_error cfg) (\<lambda>_.
          call_then (store_call (\<lambda>_. create_config uuid gap tn cfg)) reply))))"

definition core_list_push_configs ::
  "agent_card \<Rightarrow> string \<Rightarrow> string \<Rightarrow> string \<Rightarrow> string option \<Rightarrow> int option \<Rightarrow> server \<Rightarrow> push_config_page handled" where
  "core_list_push_configs ac tn ow i page_token page_size =
     guard (cap_require ac PushNotifications) (\<lambda>_.
     verify_task_ownership tn ow i (
     call_then (store_read (list_configs tn i page_token page_size)) reply))"

definition core_get_push_config ::
  "agent_card \<Rightarrow> string \<Rightarrow> string \<Rightarrow> string \<Rightarrow> string \<Rightarrow> server \<Rightarrow> push_config handled" where
  "core_get_push_config ac tn ow i config_id =
     guard (cap_require ac PushNotifications) (\<lambda>_.
     verify_task_ownership tn ow i (
     call_then (store_read (get_config tn i config_id)) (\<lambda>r sv. case r of
         None \<Rightarrow> (Inl (TaskNotFound (''push config '' @ config_id @ '' for task '' @ i)), sv)
       | Some cfg \<Rightarrow> (Inr cfg, sv))))"

definition core_delete_push_config ::
  "agent_card \<Rightarrow> string \<Rightarrow> string \<Rightarrow> string \<Rightarrow> string \<Rightarrow> server \<Rightarrow> unit handled" where
  "core_delete_push_config ac tn ow i config_id =
     guard (cap_require ac PushNotifications) (\<lambda>_.
     verify_task_ownership tn ow i (
     call_then (store_call (\<lambda>_. delete_config tn i config_id)) (\<lambda>_ sv.
       (Inr (), if sv_push_dispatcher sv
                then sv\<lparr>sv_cache := cache_invalidate tn i (sv_cache sv)\<rparr> else sv))))"

section \<open>Framework terminals\<close>

definition commit_framework_terminal ::
  "string \<Rightarrow> string \<Rightarrow> string \<Rightarrow> string \<Rightarrow> pb_task_status \<Rightarrow> server \<Rightarrow>
     (storage_error + pb_task \<times> nat list) \<times> server" where
  "commit_framework_terminal tn ow i context_id st sv =
     (let ev = status_event i context_id st
      in case store_call (\<lambda>now. update_task_status_with_events now tn i ow st [ev]) sv of
           (Inl e, sv) \<Rightarrow> (Inl e, sv)
         | (Inr (t, seqs), sv) \<Rightarrow>
             (let seq = (case seqs of q # _ \<Rightarrow> q | [] \<Rightarrow> 0)
              in (Inr (t, seqs), notify i (call_dispatch tn ow t [(seq, ev)] sv))))"

section \<open>CancelTask\<close>

text \<open>\<open>tokio::time::sleep\<close>: whatever the clock says next, at least \<open>d\<close> has passed.\<close>

definition sleep_for :: "nat \<Rightarrow> server \<Rightarrow> server" where
  "sleep_for d sv = sv\<lparr>sv_now := (\<lambda>n. if sv_tick sv \<le> n then max (sv_now sv n) (now_of sv + d) else sv_now sv n)\<rparr>"

text \<open>
  The grace wait: \<open>Some r\<close> is a reply, \<open>None\<close> the end of the grace. The outer option is
  \<open>None\<close> when the fuel is used up.
\<close>

fun cancel_grace ::
  "nat \<Rightarrow> instant \<Rightarrow> string \<Rightarrow> string \<Rightarrow> string \<Rightarrow> server \<Rightarrow> ((a2a_error + pb_task) option \<times> server) option" where
  "cancel_grace 0 deadline tn ow i sv = None"
| "cancel_grace (Suc fuel) deadline tn ow i sv =
     (if deadline \<le> now_of sv then Some (None, sv)
      else (let (r, sv) = store_read (get_task tn i ow (Some 0)) sv;
                remaining = deadline - now_of sv;
                wait = (if remaining = 0 then Some (None, sv)
                        else cancel_grace fuel deadline tn ow i
                          (sleep_for (min (cancel_handler_poll_interval (sv_config sv)) remaining) sv))
            in case r of
                 Inl _ \<Rightarrow> wait
               | Inr (Some t) \<Rightarrow> if task_terminal t then Some (Some (Inr t), notify i sv) else wait
               | Inr None \<Rightarrow> Some (Some (Inl (TaskNotFound i)), sv)))"

definition cancel_grace_then_commit ::
  "nat \<Rightarrow> string \<Rightarrow> string \<Rightarrow> string \<Rightarrow> string \<Rightarrow> server \<Rightarrow> pb_task handled option" where
  "cancel_grace_then_commit fuel tn ow i context_id sv =
     (let deadline = now_of sv + cancel_handler_grace (sv_config sv)
      in case cancel_grace fuel deadline tn ow i sv of
           None \<Rightarrow> None
         | Some (Some r, sv) \<Rightarrow> Some (r, sv)
         | Some (None, sv) \<Rightarrow> Some (case commit_framework_terminal tn ow i context_id (task_status_new Canceled) sv of
             (Inr (t, _), sv) \<Rightarrow> (Inr t, sv)
           | (Inl (SE_TerminalStateAlreadySet _ _), sv) \<Rightarrow>
               with_owned_task tn ow i None (\<lambda>t sv. (Inr t, notify i sv)) sv
           | (Inl (SE_TaskNotFound j), sv) \<Rightarrow> (Inl (TaskNotFound j), sv)
           | (Inl (SE_TerminalState _ _), sv) \<Rightarrow> (Inl (TaskNotCancelable i), sv)
           | (Inl (SE_InvalidTransition _ _ _), sv) \<Rightarrow> (Inl (TaskNotCancelable i), sv)
           | (Inl e, sv) \<Rightarrow> (Inl (a2a_of_storage e), sv)))"

definition marker_error :: "string \<Rightarrow> storage_error \<Rightarrow> a2a_error" where
  "marker_error i e = (case e of
       SE_TaskNotFound _ \<Rightarrow> TaskNotFound i
     | SE_TerminalState _ _ \<Rightarrow> TaskNotCancelable i
     | SE_InvalidTransition _ _ _ \<Rightarrow> TaskNotCancelable i
     | SE_TerminalStateAlreadySet _ _ \<Rightarrow> TaskNotCancelable i
     | _ \<Rightarrow> a2a_of_storage e)"

text \<open>Steps 1 to 4, then 5 and 6.\<close>

definition core_cancel_task :: "nat \<Rightarrow> string \<Rightarrow> string \<Rightarrow> string \<Rightarrow> server \<Rightarrow> pb_task handled option" where
  "core_cancel_task fuel tn ow i sv =
     (case with_owned_task tn ow i (Some 0) reply sv of
        (Inl e, sv) \<Rightarrow> Some (Inl e, sv)
      | (Inr t, sv) \<Rightarrow>
          if task_terminal t then Some (Inl (TaskNotCancelable i), sv)
          else (case store_call (\<lambda>_. set_cancel_requested tn i ow) sv of
              (Inl e, sv) \<Rightarrow> Some (Inl (marker_error i e), sv)
            | (Inr _, sv) \<Rightarrow>
                cancel_grace_then_commit fuel tn ow i (tk_context_id t)
                  (case registry_get (tn, i) sv of
                     Some h \<Rightarrow> cancel_then_abort_after h (cancel_abort_grace (sv_config sv)) sv
                   | None \<Rightarrow> sv)))"

end
