(* ===== verification/Turn_Laws.thy ===== *)
theory Turn_Laws
  imports Spawn
begin

text \<open>
  What one executor turn guarantees (\<open>Spawn\<close>): whatever the executor does with its sink and
  however it returns or panics, the post-execute rule and the supervisor leave the task terminal
  or waiting on its client, and the registry slot free.
\<close>

section \<open>What the sink leaves alone\<close>

definition server_kept :: "server \<Rightarrow> server \<Rightarrow> bool" where
  "server_kept sv sv' \<longleftrightarrow> sv_registry sv' = sv_registry sv \<and> sv_next sv' = sv_next sv \<and>
     sv_aborted sv' = sv_aborted sv \<and> same_env sv sv' \<and>
     (\<forall>h. ih_spawned (sv_handles sv' h) = ih_spawned (sv_handles sv h))"

lemma server_kept_refl [simp]: "server_kept sv sv"
  by (simp add: server_kept_def)

lemma server_kept_trans: "server_kept sv sv' \<Longrightarrow> server_kept sv' sv'' \<Longrightarrow> server_kept sv sv''"
  by (auto simp: server_kept_def intro: same_env_trans)

lemma store_call_kept:
  assumes "store_call f sv = (r, sv')"
  shows "server_kept sv sv'"
  using assms by (cases rule: store_call_cases) (auto simp: server_kept_def)

lemma upd_handle_kept:
  "(\<And>x. ih_spawned (f x) = ih_spawned x) \<Longrightarrow> server_kept sv (upd_handle h f sv)"
  by (simp add: server_kept_def) (simp add: upd_handle_def)

lemma small_kept:
  "server_kept sv (upd_handle h (record_progress now) sv)"
  "server_kept sv (upd_handle h (set_client_held b) sv)"
  "server_kept sv (upd_handle h mark_terminal_committed sv)"
  "server_kept sv (upd_handle h (\<lambda>x. snd (fire_yielded t x)) sv)"
  "server_kept sv (notify i sv)" "server_kept sv (call_dispatch tn ow t evs sv)"
  by (auto intro!: upd_handle_kept simp: record_progress_def set_client_held_def mark_terminal_committed_def
      fire_yielded_def server_kept_def) (simp_all add: notify_def call_dispatch_def upd_handle_def)

lemma after_status_commit_kept:
  assumes "after_status_commit st t seq k sv = (k', sv')"
  shows "server_kept sv sv'"
proof -
  define a where "a = call_dispatch (es_tenant k) (es_owner k) t
    [(seq, status_event (es_task_id k) (es_context_id k) (task_status_new st))] sv"
  define b where "b = upd_handle (es_handle k) (record_progress (now_of a)) a"
  define c where "c = upd_handle (es_handle k) (set_client_held (st \<in> set CLIENT_HELD_STATES)) b"
  define d where "d = (if is_terminal st then upd_handle (es_handle k) mark_terminal_committed c else c)"
  define e where "e = (if is_terminal st \<or> st \<in> set CLIENT_HELD_STATES
    then upd_handle (es_handle k) (\<lambda>h. snd (fire_yielded t h)) d else d)"
  have "server_kept sv a" "server_kept a b" "server_kept b c" "server_kept c d" "server_kept d e"
    by (simp_all add: a_def b_def c_def d_def e_def small_kept)
  moreover have "sv' = notify (es_task_id k) e"
    using assms by (auto simp: after_status_commit_def Let_def a_def b_def c_def d_def e_def split: if_splits)
  ultimately show ?thesis using small_kept(5) server_kept_trans by metis
qed

lemma commit_status_kept:
  assumes "commit_status st m k sv = (r, k', sv')"
  shows "server_kept sv sv'"
proof -
  obtain out sv1 where sc: "store_call (\<lambda>now. update_task_status_with_events now (es_tenant k) (es_task_id k)
      (es_owner k) (status_of st m) [status_event (es_task_id k) (es_context_id k) (status_of st m)]) sv =
      (out, sv1)" by fastforce
  show ?thesis
    using assms sc store_call_kept [OF sc] after_status_commit_kept server_kept_trans
    by (fastforce simp: commit_status_def Let_def split: if_splits sum.splits prod.splits storage_error.splits)
qed

lemma commit_artifact_kept:
  assumes "commit_artifact a app lc k sv = (r, k', sv')"
  shows "server_kept sv sv'"
proof (cases "es_is_closed k")
  case True
  then show ?thesis using assms by (simp add: commit_artifact_def)
next
  case live: False
  obtain out sv1 where rd: "store_read (get_task (es_tenant k) (es_task_id k) (es_owner k) None) sv = (out, sv1)"
    by fastforce
  then have kept: "server_kept sv sv1" by (auto simp: store_read_def intro: store_call_kept)
  show ?thesis
  proof (cases "\<exists>t. out = Inr (Some t)")
    case True
    then obtain t where out: "out = Inr (Some t)" by blast
    obtain out2 sv2 where wr: "store_call (\<lambda>now. update_task_with_events now (es_tenant k) (es_owner k)
        (merge_artifact a app lc t) [artifact_event k a app lc]) sv1 = (out2, sv2)" by fastforce
    have kept2: "server_kept sv sv2" using kept store_call_kept [OF wr] server_kept_trans by blast
    have "sv' = sv2 \<or> sv' = notify (es_task_id k) (upd_handle (es_handle k) (record_progress (now_of sv2)) sv2)"
      using assms live rd out wr
      by (auto simp: commit_artifact_def Let_def split: sum.splits storage_error.splits)
    then show ?thesis
      using kept2 small_kept(1,5) server_kept_trans by metis
  next
    case False
    then have "sv' = sv1"
      using assms live rd by (auto simp: commit_artifact_def split: sum.splits option.splits)
    with kept show ?thesis by simp
  qed
qed

lemma with_inner_kept:
  assumes "\<And>k sv r k' sv'. f k sv = (r, k', sv') \<Longrightarrow> server_kept sv sv'"
    and "with_inner f sk sv = (r, sk', sv')"
  shows "server_kept sv sv'"
  using assms by (auto simp: with_inner_def split: option.splits prod.splits)

lemma sink_exec_server_kept:
  assumes "sink_exec c sk sv = (r, sk', sv')"
  shows "server_kept sv sv'"
proof (cases c)
  case CallHeartbeat
  then show ?thesis using assms small_kept(1) by (auto simp: sink_heartbeat_def split: option.splits)
next
  case (CallEmitArtifact a app lc)
  then show ?thesis
    using assms with_inner_kept [where f = "commit_artifact a app lc", OF commit_artifact_kept]
    by (simp add: emit_artifact_def)
next
  case (CallSetStatus st m)
  then show ?thesis
    using assms with_inner_kept [where f = "commit_status st m", OF commit_status_kept]
    by (auto simp: sink_set_status_def split: if_splits)
qed (use assms with_inner_kept [OF commit_status_kept] in \<open>simp_all add: sink_defs\<close>)

lemma sink_run_server_kept: "sink_run calls (sk, sv) = (sk', sv') \<Longrightarrow> server_kept sv sv'"
proof (induction calls arbitrary: sk sv)
  case (Cons c calls)
  obtain r sk1 sv1 where e: "sink_exec c sk sv = (r, sk1, sv1)" by (cases "sink_exec c sk sv")
  with Cons have "server_kept sv1 sv'" by (simp add: sink_run_def)
  with sink_exec_server_kept [OF e] show ?case by (rule server_kept_trans)
qed (simp add: sink_run_def)

section \<open>A commit that ends the turn\<close>

text \<open>The task has left its initial state; the rest of its life never returns there.\<close>

definition turn_started :: "task_state option \<Rightarrow> bool" where
  "turn_started st \<longleftrightarrow> (case st of Some c \<Rightarrow> c \<noteq> Submitted | None \<Rightarrow> False)"

lemma may_not_restart: "\<not> may_follow c Submitted"
  by (cases c) (simp_all add: may_follow_def)

lemma working_may_yield: "yields st \<Longrightarrow> may_follow Working st"
  by (cases st) (simp_all add: may_follow_def yields_def is_terminal_def TERMINAL_STATES_def CLIENT_HELD_STATES_def)

lemma started_not_working: "turn_started (Some c) \<Longrightarrow> c \<noteq> Working \<Longrightarrow> yields c"
  by (cases c) (simp_all add: turn_started_def yields_def is_terminal_def TERMINAL_STATES_def CLIENT_HELD_STATES_def)

lemma started_step: "view_step v v' \<Longrightarrow> turn_started (fst (snd v)) \<Longrightarrow> turn_started (fst (snd v'))"
  by (cases rule: view_step.cases)
    (use may_not_restart in \<open>auto simp: turn_started_def may_follow_def split: option.splits\<close>)

lemma started_steps: "view_step\<^sup>*\<^sup>* v v' \<Longrightarrow> turn_started (fst (snd v)) \<Longrightarrow> turn_started (fst (snd v'))"
  by (induction rule: rtranclp_induct) (auto intro: started_step)

lemma started_kept:
  "sink_kept k sv k' sv' \<Longrightarrow> turn_started (sink_state k (sv_store sv)) \<Longrightarrow> turn_started (sink_state k' (sv_store sv'))"
  using started_steps [of "view_of (sv_store sv) (es_tenant k) (es_task_id k)"
      "view_of (sv_store sv') (es_tenant k) (es_task_id k)"]
  by (simp add: sink_kept_def sink_state_def view_of_def)

lemma commit_status_rests:
  assumes cs: "commit_status st m k sv = (res, k', sv')" and inv: "sink_inv k sv" and nf: "no_faults sv"
    and start: "turn_started (sink_state k (sv_store sv))" and y: "yields st"
  shows "at_rest (sink_state k (sv_store sv'))"
proof -
  have b: "bound k sv" using inv by (simp add: sink_inv_def)
  have os: "owned_step (sv_store sv) (store_seen sv) (es_tenant k) (es_task_id k)"
    by (rule bound_seen [OF b])
  have seen: "turn_started (sink_state k (store_seen sv))"
    using start started_steps [OF owned_step_view(1) [OF os]] by (simp add: sink_state_def view_of_def)
  from cs b show ?thesis
  proof (cases rule: commit_status_cases)
    case closed
    then show ?thesis using inv ended_at_rest by (simp add: sink_inv_def)
  next
    case (committed c t seq e s')
    then show ?thesis
      using y after_status_commit_frame(1) [OF committed(11)]
      by (simp add: sink_state_def view_of_def at_rest_def)
  next
    case (lost cur)
    then show ?thesis using ended_at_rest by simp
  next
    case (refused e)
    then obtain c where c: "sink_state k (store_seen sv) = Some c" "\<not> may_follow c st" using nf by blast
    then have "c \<noteq> Working" using working_may_yield [OF y] by auto
    then have "yields c" using seen c(1) started_not_working by simp
    with c(1) refused(4) show ?thesis by (simp add: at_rest_def)
  qed
qed

lemma commit_internal_rests:
  assumes "commit_state_internal st m (Some k) sv = (res, sk', sv')" and "sink_inv k sv" and "no_faults sv"
    and "turn_started (sink_state k (sv_store sv))" and "yields st"
  shows "\<exists>k'. sk' = Some k' \<and> sink_inv k' sv' \<and> sink_kept k sv k' sv' \<and> at_rest (sink_state k (sv_store sv')) \<and>
    server_kept sv sv'"
proof -
  obtain r k1 sv1 where c: "commit_status st m k sv = (r, k1, sv1)" by (cases "commit_status st m k sv")
  then have "sk' = Some k1" "sv' = sv1" using assms(1) by (simp_all add: commit_state_internal_def with_inner_def)
  then show ?thesis
    using commit_status_rests [OF c assms(2-5)] commit_status_ok [OF c assms(2)] sink_call_kept commit_status_kept [OF c]
    by blast
qed

section \<open>The post-execute rule\<close>

text \<open>The sink and the server after some of the sink's calls.\<close>

definition sink_ran :: "event_sink_inner \<Rightarrow> server \<Rightarrow> event_sink \<Rightarrow> server \<Rightarrow> bool" where
  "sink_ran k sv sk sv' \<longleftrightarrow>
     (\<exists>k'. sk = Some k' \<and> sink_inv k' sv' \<and> sink_kept k sv k' sv' \<and> server_kept sv sv')"

lemma sink_ranE:
  assumes "sink_ran k sv sk sv'"
  obtains k' where "sk = Some k'" "sink_inv k' sv'" "sink_kept k sv k' sv'" "server_kept sv sv'"
  using assms by (auto simp: sink_ran_def)

lemma sink_ran_refl [simp]: "sink_inv k sv \<Longrightarrow> sink_ran k sv (Some k) sv"
  by (simp add: sink_ran_def sink_kept_def)

lemma sink_ran_trans:
  assumes "sink_ran k sv (Some k') sv'" and "sink_ran k' sv' sk'' sv''"
  shows "sink_ran k sv sk'' sv''"
  using assms sink_kept_trans server_kept_trans unfolding sink_ran_def by blast

lemma sink_ran_facts:
  assumes "sink_ran k sv (Some k') sv'"
  shows "no_faults sv' = no_faults sv"
    and "turn_started (sink_state k (sv_store sv)) \<Longrightarrow> turn_started (sink_state k' (sv_store sv'))"
    and "sink_state k' s = sink_state k s" and "sink_inv k' sv'"
  using assms started_kept [of k sv k' sv'] same_env_laws(2) [of sv sv']
  by (auto simp: sink_ran_def sink_kept_def sink_state_def)

lemma sink_exec_ran:
  assumes "sink_exec c (Some k) sv = (r, sk', sv')" and "sink_inv k sv"
  shows "sink_ran k sv sk' sv'"
  using sink_exec_ok [OF assms] sink_exec_server_kept [OF assms(1)] by (auto simp: sink_ran_def)

lemma sink_run_ran:
  assumes "sink_run calls (Some k, sv) = (sk', sv')" and "sink_inv k sv"
  shows "sink_ran k sv sk' sv'"
  using sink_run_ok [OF assms] sink_run_server_kept [OF assms(1)] by (auto simp: sink_ran_def)

lemma emit_artifact_ran:
  assumes "sink_inv k sv"
  shows "sink_ran k sv (fst (snd (emit_artifact a app lc (Some k) sv))) (snd (snd (emit_artifact a app lc (Some k) sv)))"
  using sink_exec_ran [of "CallEmitArtifact a app lc" k sv] assms
  by (cases "emit_artifact a app lc (Some k) sv") simp

lemma publish_artifacts_ran:
  "publish_artifacts sigs arts (Some k) sv = (b, sk', sv') \<Longrightarrow> sink_inv k sv \<Longrightarrow>
     sink_ran k sv sk' sv' \<and> (b \<longrightarrow> is_closed sk')"
proof (induction arts arbitrary: sigs k sv)
  case Nil
  then show ?case by auto
next
  case (Cons a as)
  obtain sk1 sv1 where step: "(case sigs of [] \<Rightarrow> snd (emit_artifact a False True (Some k) sv)
        | (prev_id, prev_len) # _ \<Rightarrow>
            if prev_id = art_artifact_id a \<and> prev_len < length (art_parts a)
            then snd (emit_artifact (a\<lparr>art_parts := drop prev_len (art_parts a)\<rparr>) True True (Some k) sv)
            else (Some k, sv)) = (sk1, sv1)" by fastforce
  then have ran: "sink_ran k sv sk1 sv1"
    using emit_artifact_ran [OF Cons.prems(2), of a False True] Cons.prems(2)
      emit_artifact_ran [OF Cons.prems(2), of "a\<lparr>art_parts := drop (snd (hd sigs)) (art_parts a)\<rparr>" True True]
    by (auto split: list.splits if_splits)
  then obtain k1 where k1: "sk1 = Some k1" "sink_inv k1 sv1" by (auto simp: sink_ran_def)
  show ?case
  proof (cases "es_is_closed k1")
    case True
    then show ?thesis using Cons.prems(1) step k1 ran by (auto simp: is_closed_def)
  next
    case False
    then have "publish_artifacts (tl sigs) as (Some k1) sv1 = (b, sk', sv')"
      using Cons.prems(1) step k1(1) by (simp add: is_closed_def)
    from Cons.IH [OF this k1(2)] ran k1(1) show ?thesis by (auto intro: sink_ran_trans)
  qed
qed

lemma closed_at_rest:
  "sink_ran k sv sk' sv' \<Longrightarrow> is_closed sk' \<Longrightarrow> at_rest (sink_state k (sv_store sv'))"
  using sink_ran_facts(3) ended_at_rest
  by (auto simp: sink_ran_def is_closed_def sink_inv_def sink_kept_def sink_state_def)

lemma commit_internal_ends:
  assumes "sink_inv k sv" and "no_faults sv" and "turn_started (sink_state k (sv_store sv))" and "yields st"
    and "snd (commit_state_internal st m (Some k) sv) = (sk', sv')"
  shows "sink_ran k sv sk' sv' \<and> at_rest (sink_state k (sv_store sv'))"
  using commit_internal_rests [of st m k sv _ sk' sv'] assms unfolding sink_ran_def
  by (metis prod.collapse)

lemma yields_states [simp]:
  "yields Failed" "yields InputRequired" "yields AuthRequired" "is_terminal st \<Longrightarrow> yields st"
  by (simp_all add: yields_def is_terminal_def TERMINAL_STATES_def CLIENT_HELD_STATES_def)

lemma commit_forced_rests:
  assumes "sink_inv k sv" and "no_faults sv" and "turn_started (sink_state k (sv_store sv))"
    and "commit_forced uuid (Some k) sv = (sk', sv')"
  shows "sink_ran k sv sk' sv' \<and> at_rest (sink_state k (sv_store sv'))"
proof (cases "es_is_interrupted k")
  case True
  then show ?thesis using assms(1,4) by (auto simp: commit_forced_def is_interrupted_def sink_inv_def)
next
  case False
  then show ?thesis
    using assms(4) commit_internal_ends [OF assms(1-3) yields_states(1)]
    by (simp add: commit_forced_def is_interrupted_def)
qed

text \<open>Every branch of the rule commits a state that ends the turn, or finds one already there.\<close>

lemma commit_result_rests:
  assumes "sink_inv k sv" and "no_faults sv" and "turn_started (sink_state k (sv_store sv))"
    and "commit_result uuid t result (Some k) sv = (sk', sv')"
  shows "sink_ran k sv sk' sv' \<and> at_rest (sink_state k (sv_store sv'))"
proof (cases result)
  case (Inl e)
  then show ?thesis
    using assms(4) commit_internal_ends [OF assms(1-3) yields_states(1)] by (simp add: commit_result_def)
next
  case (Inr u)
  show ?thesis
  proof (cases "\<exists>s. task_state_of t = Some s \<and> yields s")
    case True
    then obtain s where s: "task_state_of t = Some s" "yields s" by blast
    then have "is_terminal s \<or> s = InputRequired \<or> s = AuthRequired"
      by (auto simp: yields_def CLIENT_HELD_STATES_def)
    with assms(4) s(1) Inr commit_internal_ends [OF assms(1-3) s(2)] show ?thesis
      by (auto simp: commit_result_def Let_def split: if_splits)
  next
    case False
    then have "commit_forced uuid (Some k) sv = (sk', sv')"
      using assms(4) Inr by (auto simp: commit_result_def Let_def split: option.splits if_splits)
    with commit_forced_rests [OF assms(1-3)] show ?thesis by simp
  qed
qed

lemma commit_post_execute_rests:
  assumes "sink_inv k sv" and "no_faults sv" and "turn_started (sink_state k (sv_store sv))"
    and "commit_post_execute uuid t sigs result (Some k) sv = (sk', sv')"
  shows "sink_ran k sv sk' sv' \<and> at_rest (sink_state k (sv_store sv'))"
proof (cases "es_is_closed k")
  case True
  with assms show ?thesis
    using ended_at_rest by (auto simp: commit_post_execute_def is_closed_def sink_inv_def)
next
  case False
  obtain b sk1 sv1 where pub: "publish_artifacts sigs (tk_artifacts t) (Some k) sv = (b, sk1, sv1)"
    by (cases "publish_artifacts sigs (tk_artifacts t) (Some k) sv")
  have ran: "sink_ran k sv sk1 sv1" "b \<longrightarrow> is_closed sk1"
    using publish_artifacts_ran [OF pub assms(1)] by simp_all
  obtain k1 where k1: "sk1 = Some k1" "sink_inv k1 sv1" using ran(1) by (auto simp: sink_ran_def)
  note facts = sink_ran_facts [OF ran(1) [unfolded k1(1)]]
  show ?thesis
  proof (cases b)
    case True
    with assms(4) pub False ran show ?thesis
      using closed_at_rest by (auto simp: commit_post_execute_def is_closed_def)
  next
    case no: False
    then have res: "commit_result uuid t result (Some k1) sv1 = (sk', sv')"
      using assms(4) pub False k1(1) by (simp add: commit_post_execute_def is_closed_def)
    have "sink_ran k1 sv1 sk' sv' \<and> at_rest (sink_state k1 (sv_store sv'))"
      by (rule commit_result_rests [OF k1(2) _ _ res]) (use facts assms(2,3) in simp_all)
    with ran(1) k1(1) facts(3) show ?thesis by (auto intro: sink_ran_trans)
  qed
qed

section \<open>The body\<close>

definition returns :: "executor \<Rightarrow> bool" where
  "returns execute \<longleftrightarrow> (\<forall>t m x. snd (execute t m x) \<noteq> Aborted)"

definition sink_for :: "spawn_scope \<Rightarrow> event_sink_inner \<Rightarrow> bool" where
  "sink_for sc k \<longleftrightarrow> es_tenant k = sc_tenant sc \<and> es_task_id k = sc_task_id sc \<and> es_owner k = sc_owner sc"

lemma read_ran:
  assumes "sink_inv k sv" and "no_faults sv" and "\<not> es_is_closed k"
    and "store_read (get_task (es_tenant k) (es_task_id k) (es_owner k) None) sv = (out, sv')"
  shows "sink_ran k sv (Some k) sv' \<and> (\<exists>t. out = Inr (Some t))"
proof -
  have b: "bound k sv" using assms(1) by (simp add: sink_inv_def)
  have sv': "sv' = sv\<lparr>sv_store := store_seen sv, sv_tick := Suc (sv_tick sv)\<rparr>" and
      out: "out = get_task (es_tenant k) (es_task_id k) (es_owner k) None (store_seen sv)"
    using assms(4,2) by (cases rule: store_read_cases; simp)+
  obtain r where r: "get_stored (store_seen sv) (es_tenant k) (es_task_id k) = Some r" "s_owner r = es_owner k"
    and os: "owned_step (sv_store sv) (store_seen sv) (es_tenant k) (es_task_id k)"
    by (rule bound_seen [OF b])
  note view = owned_step_view [OF os]
  have "sink_inv k sv'"
    using assms(1) bound_after_seen [OF b, of k] lifecycle_steps [OF view(1)] view(2) owned_step_at_rest [OF os]
    by (auto simp: sink_inv_def sv' sink_state_def handle_of_def view_of_def)
  then have "sink_ran k sv (Some k) sv'"
    using view assms(3) by (auto simp: sink_ran_def sink_kept_def sv' server_kept_def sink_state_def)
  then show ?thesis using get_task_seen [OF r] out by simp
qed

lemma body_rests:
  assumes "sink_inv k sv" and "no_faults sv" and "turn_started (sink_state k (sv_store sv))" and "sink_for sc k"
    and live: "\<not> es_is_closed k" and run: "run_executor_for_existing_task execute uuid sc (Some k) sv = (outcome, sk', sv')"
  shows "sink_ran k sv sk' sv' \<and> (outcome = Finished \<longrightarrow> at_rest (sink_state k (sv_store sv'))) \<and>
    (returns execute \<longrightarrow> outcome \<noteq> TaskAborted)"
proof -
  obtain out sv1 where rd: "store_read (get_task (es_tenant k) (es_task_id k) (es_owner k) None) sv = (out, sv1)"
    by fastforce
  obtain t where t: "out = Inr (Some t)" and ran1: "sink_ran k sv (Some k) sv1"
    using read_ran [OF assms(1,2) live rd] by blast
  obtain calls ending where ex: "execute t sc (Some k, sv1) = (calls, ending)" by fastforce
  obtain sk2 sv2 where sr: "sink_run calls (Some k, sv1) = (sk2, sv2)" by fastforce
  have ran2: "sink_ran k sv sk2 sv2"
    using sink_ran_trans [OF ran1 sink_run_ran [OF sr sink_ran_facts(4) [OF ran1]]] .
  then obtain k2 where k2: "sk2 = Some k2" "sink_inv k2 sv2" by (auto simp: sink_ran_def)
  note facts = sink_ran_facts [OF ran2 [unfolded k2(1)]]
  have body: "(outcome, sk', sv') = (case ending of
        Returned result t' \<Rightarrow> (Finished, commit_post_execute uuid t' (artifact_sigs t) result sk2 sv2)
      | Panicked \<Rightarrow> (TaskPanicked, sk2, sv2) | Aborted \<Rightarrow> (TaskAborted, sk2, sv2))"
    using run rd t ex sr assms(4) by (simp add: run_executor_for_existing_task_def sink_for_def Let_def)
  show ?thesis
  proof (cases ending)
    case (Returned result t')
    with body have pe: "commit_post_execute uuid t' (artifact_sigs t) result (Some k2) sv2 = (sk', sv')"
      "outcome = Finished" using k2(1) by auto
    have "sink_ran k2 sv2 sk' sv' \<and> at_rest (sink_state k2 (sv_store sv'))"
      by (rule commit_post_execute_rests [OF k2(2) _ _ pe(1)]) (use facts assms(2,3) in simp_all)
    with ran2 k2(1) facts(3) pe(2) show ?thesis by (auto intro: sink_ran_trans)
  next
    case Panicked
    then show ?thesis using body ran2 by simp
  next
    case Aborted
    then have "\<not> returns execute" using ex by (auto simp: returns_def) (metis snd_conv)
    then show ?thesis using Aborted body ran2 by simp
  qed
qed

section \<open>The supervisor\<close>

lemma take_spawned_inv:
  assumes "sink_inv k sv"
  shows "sink_inv k (upd_handle h (\<lambda>_. snd (take_spawned (sv_handles sv h))) sv)"
proof -
  have "bound k (upd_handle h f sv) = bound k sv" for f
    by (simp add: bound_def framework_others_def faults_ok_def upd_handle_def)
  then show ?thesis
    using assms by (auto simp: sink_inv_def handle_of_def handle_ok_def take_spawned_def)
qed

lemma sentinel_drop_frame:
  "sv_store (sentinel_drop key h sv) = sv_store sv" "same_env sv (sentinel_drop key h sv)"
  "sv_tick (sentinel_drop key h sv) = sv_tick sv"
  by (auto simp: sentinel_drop_def remove_if_current_def abort_handle_def same_env_def split: option.splits)

lemma sentinel_drop_frees:
  "registry_get key sv = Some h \<Longrightarrow> registry_get key (sentinel_drop key h sv) = None"
  by (simp add: sentinel_drop_def remove_if_current_def abort_handle_def registry_get_def hm_simps)

lemma clear_lease_rests:
  assumes "framework_others tn i sv" and "at_rest (state_of (sv_store sv) tn i)"
  shows "at_rest (state_of (sv_store (clear_lease_after_turn key sv)) tn i)"
    and "sv_registry (clear_lease_after_turn key sv) = sv_registry sv"
proof -
  obtain c where c: "state_of (sv_store sv) tn i = Some c"
    using assms(2) by (auto simp: at_rest_def split: option.splits)
  note seen = seen_step [OF assms(1) c]
  have rest: "at_rest (state_of (store_seen sv) tn i)" by (rule owned_step_at_rest [OF seen assms(2)])
  then obtain c' where c': "state_of (store_seen sv) tn i = Some c'"
    by (auto simp: at_rest_def split: option.splits)
  have renew: "owned_step (store_seen sv) (exec (OpRenewLeases (fst key) [snd key] None) (store_seen sv)) tn i"
    by (rule framework_op_step [OF _ c']) simp
  obtain out sv1 where sc: "store_call (\<lambda>_. supervisor_renew_executor_leases (fst key) [snd key] None) sv = (out, sv1)"
    by fastforce
  from sc have "at_rest (state_of (sv_store sv1) tn i) \<and> sv_registry sv1 = sv_registry sv"
  proof (cases rule: store_call_cases)
    case (fault e)
    then show ?thesis using rest by simp
  next
    case (call s')
    then have "s' = exec (OpRenewLeases (fst key) [snd key] None) (store_seen sv)" by simp
    with call(2) owned_step_at_rest [OF renew rest] show ?thesis by simp
  qed
  with sc show "at_rest (state_of (sv_store (clear_lease_after_turn key sv)) tn i)"
    "sv_registry (clear_lease_after_turn key sv) = sv_registry sv"
    by (simp_all add: clear_lease_after_turn_def)
qed

lemma supervise_rests:
  assumes inv: "sink_inv k sv" and nf: "no_faults sv" and start: "turn_started (sink_state k (sv_store sv))"
    and out: "outcome \<noteq> TaskAborted" "outcome = Finished \<longrightarrow> at_rest (sink_state k (sv_store sv))"
    and h: "es_handle k = h" "ih_spawned (sv_handles sv h) \<noteq> None" "registry_get key sv = Some h"
    and sup: "supervise uuid key h outcome (Some k) sv = (sk', sv')"
  shows "at_rest (sink_state k (sv_store sv')) \<and> registry_get key sv' = None"
proof -
  define sv1 where "sv1 = upd_handle h (\<lambda>_. snd (take_spawned (sv_handles sv h))) sv"
  have inv1: "sink_inv k sv1" unfolding sv1_def by (rule take_spawned_inv [OF inv])
  have sv1: "sv_store sv1 = sv_store sv" "no_faults sv1" "sv_registry sv1 = sv_registry sv"
    using nf by (simp_all add: sv1_def no_faults_def upd_handle_def)
  define panic where "panic \<longleftrightarrow> outcome = TaskPanicked \<and> \<not> es_is_closed k"
  obtain sk2 sv2 where p: "(if panic then snd (commit_state_internal Failed
      (Some (agent_text uuid ''executor panicked'')) (Some k) sv1) else (Some k, sv1)) = (sk2, sv2)" by fastforce
  have ran: "sink_ran k sv1 sk2 sv2 \<and> at_rest (sink_state k (sv_store sv2))"
  proof (cases panic)
    case True
    with p have "snd (commit_state_internal Failed (Some (agent_text uuid ''executor panicked'')) (Some k) sv1) =
      (sk2, sv2)" by simp
    from commit_internal_ends [OF inv1 sv1(2) _ _ this] start sv1(1) show ?thesis by simp
  next
    case False
    then have "at_rest (sink_state k (sv_store sv1))"
      using out inv1 ended_at_rest by (cases outcome) (auto simp: panic_def sink_inv_def sv1(1))
    with False p inv1 show ?thesis by auto
  qed
  define sv3 where "sv3 = sentinel_drop key h sv2"
  have reg: "registry_get key sv2 = Some h"
    using ran h(3) sv1(3) by (auto simp: sink_ran_def server_kept_def registry_get_def)
  have others: "framework_others (es_tenant k) (es_task_id k) sv3"
    using inv1 ran sentinel_drop_frame(2) [of sv2 key h] same_env_laws(1)
    by (auto simp: sv3_def sink_inv_def bound_def sink_ran_def sink_kept_def)
  have fin: "sv' = sv3 \<or> sv' = clear_lease_after_turn key sv3"
    using sup p h(2) unfolding sv3_def sv1_def panic_def
    by (auto simp: supervise_def Let_def take_spawned_def is_closed_def split: if_splits prod.splits)
  have "at_rest (sink_state k (sv_store sv3))" "registry_get key sv3 = None"
    using ran sentinel_drop_frame(1) sentinel_drop_frees [OF reg] by (simp_all add: sv3_def)
  with fin clear_lease_rests [OF others, of key] show ?thesis
    by (auto simp: sink_state_def registry_get_def)
qed

section \<open>The turn\<close>

text \<open>
  The task of a scope is stored under its owner, its log is a lifecycle and its turn has begun
  (the router commits Working before it spawns); everyone else makes framework writes only.
\<close>

definition turn_ready :: "spawn_scope \<Rightarrow> server \<Rightarrow> bool" where
  "turn_ready sc sv \<longleftrightarrow> framework_others (sc_tenant sc) (sc_task_id sc) sv \<and> tasks_keyed (sv_store sv) \<and>
     sc_task_id sc \<noteq> [] \<and> fst (view_of (sv_store sv) (sc_tenant sc) (sc_task_id sc)) = Some (sc_owner sc) \<and>
     life_logged (view_of (sv_store sv) (sc_tenant sc) (sc_task_id sc)) \<and>
     turn_started (state_of (sv_store sv) (sc_tenant sc) (sc_task_id sc)) \<and>
     registry_get (sc_tenant sc, sc_task_id sc) sv = None"

lemma spawn_ready:
  assumes ready: "turn_ready sc sv" and nf: "no_faults sv"
    and sp: "spawn_tracked_executor sc sv = (res, sv1)"
  obtains h k where "res = Inr (h, Some k)" "sink_inv k sv1" "sink_for sc k" "es_handle k = h"
    "\<not> es_is_closed k" "no_faults sv1" "turn_started (sink_state k (sv_store sv1))"
    "ih_spawned (sv_handles sv1 h) \<noteq> None" "registry_get (sc_tenant sc, sc_task_id sc) sv1 = Some h"
proof -
  let ?h = "sv_next sv"
  define k where "k = \<lparr>es_tenant = sc_tenant sc, es_task_id = sc_task_id sc, es_context_id = sc_context_id sc,
    es_owner = sc_owner sc, es_handle = ?h, es_is_closed = False, es_is_interrupted = False\<rparr>"
  have res: "res = Inr (?h, Some k)" and sv1: "sv_store sv1 = sv_store sv" "same_env sv sv1"
      "registry_get (sc_tenant sc, sc_task_id sc) sv1 = Some ?h"
      "sv_handles sv1 ?h = set_spawned (?h + 2) (set_identity (sc_owner sc) (sc_context_id sc)
        (in_flight_handle_new (now_of sv) (?h + 1)))"
    using sp ready by (auto simp: spawn_tracked_executor_def try_insert_def turn_ready_def registry_get_def
        Let_def k_def event_sink_new_def upd_handle_def same_env_def hm_simps)
  have bd: "bound k sv1"
    using ready nf sv1(2)
    by (auto simp: bound_def k_def turn_ready_def sv1(1) same_env_laws faults_ok_def no_faults_def
        same_env_def framework_others_def view_of_def state_of_def life_logged_def split: option.splits)
  have "handle_ok k (handle_of k sv1)"
    using sv1(4) by (simp add: handle_ok_def handle_of_def k_def set_spawned_def set_identity_def in_flight_handle_new_def)
  then have "sink_inv k sv1"
    using bd ready by (simp add: sink_inv_def k_def turn_ready_def sv1(1))
  then show thesis
    using res sv1 ready nf
    by (intro that [of ?h k])
      (simp_all add: sink_for_def k_def same_env_laws turn_ready_def sink_state_def set_spawned_def)
qed

theorem turn_rests:
  assumes ready: "turn_ready sc sv" and nf: "no_faults sv" and ret: "returns execute"
    and turn: "executor_turn execute uuid sc sv = (res, sk, sv')"
  shows "(\<exists>h. res = Inr h) \<and> at_rest (state_of (sv_store sv') (sc_tenant sc) (sc_task_id sc)) \<and>
    registry_get (sc_tenant sc, sc_task_id sc) sv' = None"
proof -
  obtain r sv1 where sp: "spawn_tracked_executor sc sv = (r, sv1)" by fastforce
  obtain h k where k: "r = Inr (h, Some k)" "sink_inv k sv1" "sink_for sc k" "es_handle k = h"
    "\<not> es_is_closed k" "no_faults sv1" "turn_started (sink_state k (sv_store sv1))"
    "ih_spawned (sv_handles sv1 h) \<noteq> None" "registry_get (sc_tenant sc, sc_task_id sc) sv1 = Some h"
    by (rule spawn_ready [OF ready nf sp])
  obtain outcome sk2 sv2 where run: "run_executor_for_existing_task execute uuid sc (Some k) sv1 = (outcome, sk2, sv2)"
    by (cases "run_executor_for_existing_task execute uuid sc (Some k) sv1")
  have body: "sink_ran k sv1 sk2 sv2" "outcome = Finished \<longrightarrow> at_rest (sink_state k (sv_store sv2))" "outcome \<noteq> TaskAborted"
    using body_rests [OF k(2,6,7,3,5) run] ret by simp_all
  then obtain k2 where k2: "sk2 = Some k2" "sink_inv k2 sv2" "sink_kept k sv1 k2 sv2" "server_kept sv1 sv2"
    by (auto simp: sink_ran_def)
  note facts = sink_ran_facts [OF body(1) [unfolded k2(1)]]
  obtain sk3 sv3 where sup: "supervise uuid (sc_tenant sc, sc_task_id sc) h outcome (Some k2) sv2 = (sk3, sv3)"
    by fastforce
  have "at_rest (sink_state k2 (sv_store sv3)) \<and> registry_get (sc_tenant sc, sc_task_id sc) sv3 = None"
    by (rule supervise_rests [OF k2(2) _ _ body(3) _ _ _ _ sup])
      (use facts k k2 body(2) in \<open>auto simp: sink_kept_def server_kept_def registry_get_def\<close>)
  moreover have "res = Inr h" "sv' = sv3"
    using turn sp k(1) run k2(1) sup by (simp_all add: executor_turn_def)
  ultimately show ?thesis
    using facts(3) k(3) by (simp add: sink_state_def sink_for_def)
qed

end
