(* ===== verification/Send_Message.thy ===== *)
theory Send_Message
  imports Handlers Turn_Laws
begin

text \<open>
  \<open>SendMessage\<close>, \<open>SendStreamingMessage\<close> and \<open>SubscribeToTask\<close> (\<open>router.rs\<close>): the target of a
  message, the start of a turn, the inline push config, the durable queue, the blocking wait,
  and the two ways a stream opens.

  The claims and the negotiated extensions are arguments, and so are the UUIDs, by their use.
\<close>

section \<open>The target\<close>

record send_target =
  tg_task_id :: string
  tg_context_id :: string
  tg_is_continuation :: bool

definition context_mismatch :: "pb_message \<Rightarrow> pb_task \<Rightarrow> a2a_error" where
  "context_mismatch m t = InvalidRequest (''contextId mismatch: message has '' @ [CHR 0x27] @ msg_context_id m @
     [CHR 0x27] @ '' but task '' @ msg_task_id m @ '' has '' @ [CHR 0x27] @ tk_context_id t @ [CHR 0x27])"

definition refuse_state :: "string \<Rightarrow> task_state \<Rightarrow> a2a_error" where
  "refuse_state i st = UnsupportedOperation (if is_terminal st
     then ''Task '' @ i @ '' is in terminal state '' @ state_debug st @ '' and cannot accept further messages''
     else ''Task '' @ i @ '' is in state '' @ state_debug st @
       '', only INPUT_REQUIRED or AUTH_REQUIRED tasks accept follow-up messages'')"

definition resolve_send_target ::
  "string \<Rightarrow> string \<Rightarrow> string \<Rightarrow> string \<Rightarrow> pb_message \<Rightarrow> server \<Rightarrow> send_target handled" where
  "resolve_send_target uuid_context uuid_task tn ow m =
     (if msg_task_id m = []
      then reply \<lparr>tg_task_id = uuid_task,
             tg_context_id = (if msg_context_id m = [] then uuid_context else msg_context_id m),
             tg_is_continuation = False\<rparr>
      else with_owned_task tn ow (msg_task_id m) None (\<lambda>t sv.
        if msg_context_id m \<noteq> [] \<and> msg_context_id m \<noteq> tk_context_id t then (Inl (context_mismatch m t), sv)
        else case task_state_of t of
            Some st \<Rightarrow> if st \<noteq> InputRequired \<and> st \<noteq> AuthRequired then (Inl (refuse_state (msg_task_id m) st), sv)
              else if registry_get (tn, msg_task_id m) sv \<noteq> None
              then (Inl (UnsupportedOperation (''Task '' @ msg_task_id m @
                     '' is still being processed by its executor; send the follow-up once the current turn has finished'')), sv)
              else (Inr \<lparr>tg_task_id = msg_task_id m, tg_context_id = tk_context_id t, tg_is_continuation = True\<rparr>, sv)
          | None \<Rightarrow> if registry_get (tn, msg_task_id m) sv \<noteq> None
              then (Inl (UnsupportedOperation (''Task '' @ msg_task_id m @
                     '' is still being processed by its executor; send the follow-up once the current turn has finished'')), sv)
              else (Inr \<lparr>tg_task_id = msg_task_id m, tg_context_id = tk_context_id t, tg_is_continuation = True\<rparr>, sv)))"

section \<open>The start of a turn\<close>

definition turn_event :: "send_target \<Rightarrow> task_state \<Rightarrow> stream_event" where
  "turn_event tg st = status_event (tg_task_id tg) (tg_context_id tg) (task_status_new st)"

definition submitted_task :: "send_target \<Rightarrow> pb_message \<Rightarrow> pb_task" where
  "submitted_task tg m = task_append_message m (task_with_context_id (tg_context_id tg)
     (task_new (tg_task_id tg) (task_status_new Submitted)))"

definition lease_deadline :: "instant \<Rightarrow> nat \<Rightarrow> int" where
  "lease_deadline now ttl = sat_add_i64 (int (now div 1000))
     (if int (ttl div 1000) \<le> i64_max then int (ttl div 1000) else i64_max)"

definition open_turn :: "string \<Rightarrow> string \<Rightarrow> send_target \<Rightarrow> pb_message \<Rightarrow> server \<Rightarrow> unit handled" where
  "open_turn tn ow tg m =
     (if tg_is_continuation tg
      then call_then (store_call (\<lambda>_. append_message tn (tg_task_id tg) ow m)) (\<lambda>_. reply ())
      else call_then (store_call (\<lambda>now. create_task_with_events now tn ow (submitted_task tg m)
                        [turn_event tg Submitted])) (\<lambda>_ sv. (Inr (), notify (tg_task_id tg) sv)))"

definition stamp_lease :: "string \<Rightarrow> send_target \<Rightarrow> server \<Rightarrow> unit handled" where
  "stamp_lease tn tg sv = (case executor_lease_ttl (sv_config sv) of
       None \<Rightarrow> (Inr (), sv)
     | Some ttl \<Rightarrow> call_then (store_call (\<lambda>_. supervisor_renew_executor_leases tn [tg_task_id tg]
                     (Some (lease_deadline (now_of sv) ttl)))) reply sv)"

definition start_task_turn :: "string \<Rightarrow> string \<Rightarrow> send_target \<Rightarrow> pb_message \<Rightarrow> server \<Rightarrow> unit handled" where
  "start_task_turn tn ow tg m =
     step_then (open_turn tn ow tg m) (\<lambda>_.
     step_then (stamp_lease tn tg) (\<lambda>_.
     call_then (store_call (\<lambda>now. update_task_status_with_events now tn (tg_task_id tg) ow
         (task_status_new Working) [turn_event tg Working]))
       (\<lambda>_ sv. (Inr (), notify (tg_task_id tg) sv))))"

section \<open>A turn whose executor never runs\<close>

definition fail_unstarted_task :: "string \<Rightarrow> string \<Rightarrow> string \<Rightarrow> send_target \<Rightarrow> string \<Rightarrow> server \<Rightarrow> server" where
  "fail_unstarted_task uuid tn ow tg reason sv =
     snd (commit_framework_terminal tn ow (tg_task_id tg) (tg_context_id tg)
       (status_with_message (agent_text uuid reason) (task_status_new Failed)) sv)"

definition register_inline_push_config ::
  "string \<Rightarrow> string \<Rightarrow> (nat \<Rightarrow> store \<Rightarrow> store) \<Rightarrow> string \<Rightarrow> string \<Rightarrow> send_target \<Rightarrow> push_config option \<Rightarrow> server \<Rightarrow> unit handled"
where
  "register_inline_push_config uuid uuid_config gap tn ow tg cfg sv = (case cfg of
       None \<Rightarrow> (Inr (), sv)
     | Some cfg \<Rightarrow> (case store_call (\<lambda>_. create_config uuid_config gap tn (cfg\<lparr>pc_task_id := tg_task_id tg\<rparr>)) sv of
         (Inr _, sv) \<Rightarrow> (Inr (), sv)
       | (Inl e, sv) \<Rightarrow> (Inl (a2a_of_storage e), fail_unstarted_task uuid tn ow tg
           (''inline push notification config registration failed: '' @ storage_error_text e) sv)))"

section \<open>What the executor is given\<close>

record executor_inputs =
  xi_claims :: "json option"
  xi_accepted_output_modes :: "string list"
  xi_request_metadata :: "json option"
  xi_activated_extensions :: "string list"

text \<open>The negotiated set is a list here; its order is lost by the sort.\<close>

definition executor_request_inputs :: "json option \<Rightarrow> send_request \<Rightarrow> string list \<Rightarrow> executor_inputs" where
  "executor_request_inputs claims req activated = \<lparr>xi_claims = claims,
     xi_accepted_output_modes = (case sr_configuration req of Some c \<Rightarrow> cf_accepted_output_modes c | None \<Rightarrow> []),
     xi_request_metadata = sr_metadata req, xi_activated_extensions = sort activated\<rparr>"

definition target_scope ::
  "string \<Rightarrow> string \<Rightarrow> send_target \<Rightarrow> pb_message \<Rightarrow> executor_inputs \<Rightarrow> spawn_scope" where
  "target_scope tn ow tg m xi = \<lparr>sc_tenant = tn, sc_owner = ow, sc_task_id = tg_task_id tg,
     sc_context_id = tg_context_id tg, sc_message = m, sc_claims = xi_claims xi,
     sc_accepted_output_modes = xi_accepted_output_modes xi, sc_request_metadata = xi_request_metadata xi,
     sc_activated_extensions = xi_activated_extensions xi\<rparr>"

section \<open>The durable queue\<close>

record queued_job =
  qj_version :: nat
  qj_tenant :: string
  qj_owner :: string
  qj_task_id :: string
  qj_context_id :: string
  qj_message :: pb_message
  qj_inputs :: executor_inputs
  qj_enqueued_at_micros :: int

definition JOB_VERSION :: nat where
  "JOB_VERSION = 1"

text \<open>The queue: what it says against a job's size and what \<open>enqueue\<close> answers.\<close>

record durable_queue =
  dq_check :: "queued_job \<Rightarrow> string option"
  dq_enqueue :: "queued_job \<Rightarrow> string option"

definition build_job ::
  "string \<Rightarrow> string \<Rightarrow> send_target \<Rightarrow> pb_message \<Rightarrow> executor_inputs \<Rightarrow> server \<Rightarrow> queued_job" where
  "build_job tn ow tg m xi sv = \<lparr>qj_version = JOB_VERSION, qj_tenant = tn, qj_owner = ow,
     qj_task_id = tg_task_id tg, qj_context_id = tg_context_id tg, qj_message = m,
     qj_inputs = xi, qj_enqueued_at_micros = int (now_of sv div 1000)\<rparr>"

definition job_scope :: "queued_job \<Rightarrow> a2a_type_error + spawn_scope" where
  "job_scope job = (case message_try_from (qj_message job) of
       Inl e \<Rightarrow> Inl e
     | Inr m \<Rightarrow> Inr \<lparr>sc_tenant = qj_tenant job, sc_owner = qj_owner job, sc_task_id = qj_task_id job,
         sc_context_id = qj_context_id job, sc_message = m, sc_claims = xi_claims (qj_inputs job),
         sc_accepted_output_modes = xi_accepted_output_modes (qj_inputs job),
         sc_request_metadata = xi_request_metadata (qj_inputs job),
         sc_activated_extensions = xi_activated_extensions (qj_inputs job)\<rparr>)"

definition checked_job ::
  "durable_queue option \<Rightarrow> string \<Rightarrow> string \<Rightarrow> send_target \<Rightarrow> pb_message \<Rightarrow> executor_inputs \<Rightarrow> server \<Rightarrow>
     (a2a_error + (durable_queue \<times> queued_job) option) \<times> server" where
  "checked_job queue tn ow tg m xi sv = (case queue of
       None \<Rightarrow> (Inr None, sv)
     | Some q \<Rightarrow> (let job = build_job tn ow tg m xi sv in case dq_check q job of
         Some e \<Rightarrow> (Inl (InvalidRequest (''durable executor queue: '' @ e)), sv)
       | None \<Rightarrow> (Inr (Some (q, job)), sv)))"

definition enqueue_job ::
  "string \<Rightarrow> durable_queue \<times> queued_job \<Rightarrow> string \<Rightarrow> string \<Rightarrow> send_target \<Rightarrow> int option \<Rightarrow> server \<Rightarrow> pb_task handled" where
  "enqueue_job uuid qj tn ow tg history_length sv = (case dq_enqueue (fst qj) (snd qj) of
       None \<Rightarrow> with_owned_task tn ow (tg_task_id tg) history_length reply sv
     | Some e \<Rightarrow> (let reason = ''durable executor enqueue failed: '' @ e
         in (Inl (Internal reason), fail_unstarted_task uuid tn ow tg reason sv)))"

section \<open>The blocking wait\<close>

text \<open>
  What wakes each wait: the oneshot with what it carried (nothing, when its sender was dropped),
  the clock, or a cancellation somebody else tripped. The polls of a cancelled wait are listed up
  to the hard deadline.
\<close>

datatype soft_wake = SoftYielded "pb_task option" | SoftTimeout | SoftCancelled
datatype poll_wake = PollYielded "pb_task option" | PollTick

record wait_world =
  ww_soft :: soft_wake
  ww_polls :: "poll_wake list"
  ww_cooperative :: "pb_task option option"

definition not_emitted :: a2a_error where
  "not_emitted = Internal ''executor exited without emitting a terminal or interrupted event''"

definition oneshot_result :: "pb_task option \<Rightarrow> a2a_error + pb_task" where
  "oneshot_result t = (case t of Some t \<Rightarrow> Inr t | None \<Rightarrow> Inl not_emitted)"

fun cancelled_wait ::
  "poll_wake list \<Rightarrow> string \<Rightarrow> string \<Rightarrow> string \<Rightarrow> server \<Rightarrow> (a2a_error + pb_task) option \<times> server" where
  "cancelled_wait [] tn ow i sv = (None, sv)"
| "cancelled_wait (PollYielded t # ps) tn ow i sv = (Some (oneshot_result t), sv)"
| "cancelled_wait (PollTick # ps) tn ow i sv =
     (let (r, sv) = store_read (get_task tn i ow None) sv
      in case r of
           Inr (Some t) \<Rightarrow> if task_terminal t then (Some (Inr t), sv) else cancelled_wait ps tn ow i sv
         | _ \<Rightarrow> cancelled_wait ps tn ow i sv)"

definition hard_deadline ::
  "string \<Rightarrow> nat \<Rightarrow> string \<Rightarrow> string \<Rightarrow> string \<Rightarrow> string \<Rightarrow> server \<Rightarrow> pb_task handled" where
  "hard_deadline uuid h tn ow i context_id sv =
     (case commit_framework_terminal tn ow i context_id (status_with_message (agent_text uuid
           ''task timed out: hard deadline exceeded without terminal emission'') (task_status_new Failed))
           (abort_handle h sv) of
        (Inr (t, _), sv) \<Rightarrow> (Inr t, sv)
      | (Inl (SE_TerminalStateAlreadySet _ _), sv) \<Rightarrow> with_owned_task tn ow i None reply (notify i sv)
      | (Inl e, sv) \<Rightarrow> (Inl (a2a_of_storage e), sv))"

definition cooperative_wait ::
  "wait_world \<Rightarrow> string \<Rightarrow> nat \<Rightarrow> string \<Rightarrow> string \<Rightarrow> string \<Rightarrow> string \<Rightarrow> server \<Rightarrow> pb_task handled" where
  "cooperative_wait w uuid h tn ow i context_id sv =
     (let sv = upd_handle h (\<lambda>x. x\<lparr>ih_cancelled := True\<rparr>) sv
      in case ww_cooperative w of
           Some (Some t) \<Rightarrow> (Inr t, sv)
         | _ \<Rightarrow> hard_deadline uuid h tn ow i context_id sv)"

definition await_yielded ::
  "wait_world \<Rightarrow> string \<Rightarrow> nat \<Rightarrow> string \<Rightarrow> string \<Rightarrow> string \<Rightarrow> string \<Rightarrow> server \<Rightarrow> pb_task handled" where
  "await_yielded w uuid h tn ow i context_id sv = (case ww_soft w of
       SoftYielded t \<Rightarrow> (oneshot_result t, sv)
     | SoftCancelled \<Rightarrow> (case cancelled_wait (ww_polls w) tn ow i sv of
           (Some r, sv) \<Rightarrow> (r, sv)
         | (None, sv) \<Rightarrow> cooperative_wait w uuid h tn ow i context_id sv)
     | SoftTimeout \<Rightarrow> cooperative_wait w uuid h tn ow i context_id sv)"

section \<open>SendMessage\<close>

text \<open>
  What a send finds around it: the card, the URL parser, the durable queue, four UUIDs, the gap
  of the config's compare-and-set, and its wait.
\<close>

record send_world =
  se_card :: agent_card
  se_url_error :: "string \<Rightarrow> string option"
  se_queue :: "durable_queue option"
  se_uuid_context :: string
  se_uuid_task :: string
  se_uuid_config :: string
  se_uuid_message :: string
  se_gap :: "nat \<Rightarrow> store \<Rightarrow> store"
  se_wait :: wait_world

definition refuse_return_immediately :: a2a_error where
  "refuse_return_immediately = UnsupportedOperation (''return_immediately=true is not supported on this runtime '' @
     ''(post-return executor continuation is not guaranteed); resubmit with return_immediately=false for a blocking send'')"

text \<open>After the executor is spawned: return at once, or wait for it.\<close>

definition send_reply ::
  "send_world \<Rightarrow> string \<Rightarrow> string \<Rightarrow> send_target \<Rightarrow> bool \<Rightarrow> int option \<Rightarrow> nat \<Rightarrow> server \<Rightarrow> pb_task handled" where
  "send_reply w tn ow tg return_immediately history_length h =
     (if return_immediately then with_owned_task tn ow (tg_task_id tg) history_length reply
      else step_then (await_yielded (se_wait w) (se_uuid_message w) h tn ow (tg_task_id tg) (tg_context_id tg))
        (\<lambda>t. if history_length = None then reply t
             else call_then (store_read (get_task tn (tg_task_id tg) ow history_length))
               (\<lambda>r. reply (unwrap_or t r))))"

definition run_send ::
  "send_world \<Rightarrow> string \<Rightarrow> string \<Rightarrow> pb_message \<Rightarrow> executor_inputs \<Rightarrow> bool \<Rightarrow> int option \<Rightarrow> push_config option \<Rightarrow>
     server \<Rightarrow> pb_task handled" where
  "run_send w tn ow m xi return_immediately history_length cfg =
     step_then (resolve_send_target (se_uuid_context w) (se_uuid_task w) tn ow m) (\<lambda>tg.
     step_then (checked_job (if return_immediately then se_queue w else None) tn ow tg m xi) (\<lambda>job.
     step_then (start_task_turn tn ow tg m) (\<lambda>_.
     step_then (register_inline_push_config (se_uuid_message w) (se_uuid_config w) (se_gap w) tn ow tg cfg) (\<lambda>_.
       case job of
         Some qj \<Rightarrow> enqueue_job (se_uuid_message w) qj tn ow tg history_length
       | None \<Rightarrow> step_then (spawn_tracked_executor (target_scope tn ow tg m xi)) (\<lambda>(h, sk).
           send_reply w tn ow tg return_immediately history_length h)))))"

definition core_send_message ::
  "send_world \<Rightarrow> string \<Rightarrow> string \<Rightarrow> json option \<Rightarrow> string list \<Rightarrow> string + send_request \<Rightarrow> server \<Rightarrow> pb_task handled" where
  "core_send_message w tn ow claims activated body =
     guard (decode_request body ''Invalid request body: '') (\<lambda>req.
     guard (request_message req) (\<lambda>m.
     guard (check_part_media_types (se_card w) m) (\<lambda>_ sv.
       let return_immediately = (case sr_configuration req of Some c \<Rightarrow> cf_return_immediately c | None \<Rightarrow> False)
       in if return_immediately \<and> \<not> supports_return_immediately (sv_config sv)
          then (Inl refuse_return_immediately, sv)
          else guard (checked_history_length (Option.bind (sr_configuration req) cf_history_length)) (\<lambda>h.
               guard (inline_push_config (se_card w) (se_url_error w) (sr_configuration req)) (\<lambda>cfg.
                 run_send w tn ow m (executor_request_inputs claims req activated) return_immediately h cfg)) sv)))"

section \<open>Opening a stream\<close>

record opened_stream =
  os_snapshot :: pb_task
  os_sequence :: nat
  os_channel :: nat

definition subscribe_channel :: "string \<Rightarrow> server \<Rightarrow> nat \<times> server" where
  "subscribe_channel i sv = (let (c, b) = broker_subscribe i (sv_broker sv) in (c, sv\<lparr>sv_broker := b\<rparr>))"

definition stream_of :: "string \<Rightarrow> pb_task \<Rightarrow> nat \<Rightarrow> server \<Rightarrow> opened_stream handled" where
  "stream_of i t seq sv = (case subscribe_channel i sv of
     (c, sv) \<Rightarrow> (Inr \<lparr>os_snapshot = t, os_sequence = seq, os_channel = c\<rparr>, sv))"

definition open_send_stream ::
  "send_world \<Rightarrow> string \<Rightarrow> string \<Rightarrow> json option \<Rightarrow> string list \<Rightarrow> string + send_request \<Rightarrow> server \<Rightarrow> opened_stream handled" where
  "open_send_stream w tn ow claims activated body =
     guard (cap_require (se_card w) Streaming) (\<lambda>_.
     guard (decode_request body ''Invalid request body: '') (\<lambda>req.
     guard (checked_history_length (Option.bind (sr_configuration req) cf_history_length)) (\<lambda>hl.
     guard (request_message req) (\<lambda>m.
     guard (check_part_media_types (se_card w) m) (\<lambda>_.
     guard (inline_push_config (se_card w) (se_url_error w) (sr_configuration req)) (\<lambda>cfg.
     step_then (resolve_send_target (se_uuid_context w) (se_uuid_task w) tn ow m) (\<lambda>tg.
     step_then (start_task_turn tn ow tg m) (\<lambda>_.
     step_then (register_inline_push_config (se_uuid_message w) (se_uuid_config w) (se_gap w) tn ow tg cfg) (\<lambda>_.
     call_then (store_read (latest_sequence tn (tg_task_id tg))) (\<lambda>seq.
     with_owned_task tn ow (tg_task_id tg) hl (\<lambda>t.
     step_then (stream_of (tg_task_id tg) t seq) (\<lambda>st.
     step_then (spawn_tracked_executor (target_scope tn ow tg m (executor_request_inputs claims req activated))) (\<lambda>_. reply st)))))))))))))"

definition open_subscribe_stream ::
  "agent_card \<Rightarrow> string \<Rightarrow> string \<Rightarrow> string \<Rightarrow> server \<Rightarrow> opened_stream handled" where
  "open_subscribe_stream ac tn ow i =
     guard (cap_require ac Streaming) (\<lambda>_.
     call_then (store_read (latest_sequence tn i)) (\<lambda>seq.
     with_owned_task tn ow i None (\<lambda>t sv.
       case task_state_of t of
         Some st \<Rightarrow> if is_terminal st
           then (Inl (UnsupportedOperation (''Task '' @ i @ '' is already in terminal state '' @ state_debug st)), sv)
           else stream_of i t seq sv
       | None \<Rightarrow> stream_of i t seq sv)))"

section \<open>Dispatch by method and path\<close>

datatype response =
    TaskResponse pb_task
  | StreamResponse opened_stream
  | ConfigResponse push_config
  | ConfigsResponse push_config_page
  | EmptyResponse

record task_get_query =
  gq_history_length :: "int option"
  gq_page_size :: "int option"
  gq_page_token :: "string option"

definition invalid_path :: a2a_error where
  "invalid_path = InvalidRequest ''Invalid task path''"

definition map_reply :: "('a \<Rightarrow> 'b) \<Rightarrow> 'a handled \<Rightarrow> 'b handled" where
  "map_reply f r = (case r of (Inl e, sv) \<Rightarrow> (Inl e, sv) | (Inr x, sv) \<Rightarrow> (Inr (f x), sv))"

definition dispatch_task_get ::
  "agent_card \<Rightarrow> string \<Rightarrow> string \<Rightarrow> string \<Rightarrow> task_get_query \<Rightarrow> server \<Rightarrow> response handled" where
  "dispatch_task_get ac tn ow rest q sv = (case parse_task_path rest of
       Some (GetTask i) \<Rightarrow> map_reply TaskResponse (core_get_task tn ow i (gq_history_length q) sv)
     | Some (SubscribeToTask i) \<Rightarrow> map_reply StreamResponse (open_subscribe_stream ac tn ow i sv)
     | Some (PushConfigCollection i) \<Rightarrow>
         map_reply ConfigsResponse (core_list_push_configs ac tn ow i (gq_page_token q) (gq_page_size q) sv)
     | Some (PushConfigItem i c) \<Rightarrow> map_reply ConfigResponse (core_get_push_config ac tn ow i c sv)
     | _ \<Rightarrow> (Inl invalid_path, sv))"

definition dispatch_task_post ::
  "send_world \<Rightarrow> nat \<Rightarrow> string \<Rightarrow> string \<Rightarrow> string \<Rightarrow> string + push_config \<Rightarrow> server \<Rightarrow> response handled option" where
  "dispatch_task_post w fuel tn ow rest body sv = (case parse_task_path rest of
       Some (CancelTask i) \<Rightarrow> map_option (map_reply TaskResponse) (core_cancel_task fuel tn ow i sv)
     | Some (SubscribeToTask i) \<Rightarrow> Some (map_reply StreamResponse (open_subscribe_stream (se_card w) tn ow i sv))
     | Some (PushConfigCollection i) \<Rightarrow> Some (map_reply ConfigResponse
         (core_create_push_config (se_card w) (se_url_error w) (se_uuid_config w) (se_gap w) tn ow i body sv))
     | _ \<Rightarrow> Some (Inl invalid_path, sv))"

definition dispatch_task_delete :: "agent_card \<Rightarrow> string \<Rightarrow> string \<Rightarrow> string \<Rightarrow> server \<Rightarrow> response handled" where
  "dispatch_task_delete ac tn ow rest sv = (case parse_task_path rest of
       Some (PushConfigItem i c) \<Rightarrow> map_reply (\<lambda>_. EmptyResponse) (core_delete_push_config ac tn ow i c sv)
     | _ \<Rightarrow> (Inl invalid_path, sv))"

end
