(* ===== verification/Handler_Laws.thy ===== *)
theory Handler_Laws
  imports Send_Message
begin

text \<open>
  What the handlers promise: a task of another owner is answered exactly like one that does not
  exist, a cancellation ends the task, a blocking send returns a task at rest, and the start of a
  turn leaves the task as an executor's turn needs it.
\<close>

section \<open>Foreign tasks\<close>

text \<open>The owner has no such task, and nobody gives it one.\<close>

definition hidden :: "string \<Rightarrow> string \<Rightarrow> string \<Rightarrow> store \<Rightarrow> bool" where
  "hidden tn i ow s \<longleftrightarrow> (\<forall>r. get_stored s tn i = Some r \<longrightarrow> s_owner r \<noteq> ow)"

definition stays_hidden :: "string \<Rightarrow> string \<Rightarrow> string \<Rightarrow> server \<Rightarrow> bool" where
  "stays_hidden tn i ow sv \<longleftrightarrow> hidden tn i ow (sv_store sv) \<and>
     (\<forall>n s. hidden tn i ow s \<longrightarrow> hidden tn i ow (sv_others sv n s))"

fun others_run :: "server \<Rightarrow> nat \<Rightarrow> store" where
  "others_run sv 0 = sv_store sv"
| "others_run sv (Suc n) = sv_others sv (sv_tick sv + n) (others_run sv n)"

text \<open>Nothing happened but what the others did during \<open>n\<close> calls.\<close>

definition only_others :: "server \<Rightarrow> server \<Rightarrow> bool" where
  "only_others sv sv' \<longleftrightarrow> (\<exists>n. sv' = sv\<lparr>sv_store := others_run sv n, sv_tick := sv_tick sv + n\<rparr>)"

lemma only_others_refl: "only_others sv sv"
  unfolding only_others_def by (rule exI [of _ 0]) simp

lemma others_run_read:
  "others_run (sv\<lparr>sv_store := store_seen sv, sv_tick := Suc (sv_tick sv)\<rparr>) n = others_run sv (Suc n)"
  by (induction n) (simp_all add: store_seen_def)

lemma only_others_read:
  assumes "only_others (sv\<lparr>sv_store := store_seen sv, sv_tick := Suc (sv_tick sv)\<rparr>) sv'"
  shows "only_others sv sv'"
proof -
  obtain n where "sv' = sv\<lparr>sv_store := others_run sv (Suc n), sv_tick := sv_tick sv + Suc n\<rparr>"
    using assms others_run_read by (auto simp: only_others_def)
  then show ?thesis unfolding only_others_def by blast
qed

lemma read_no_faults:
  assumes "no_faults sv"
  shows "store_read f sv = (f (store_seen sv), sv\<lparr>sv_store := store_seen sv, sv_tick := Suc (sv_tick sv)\<rparr>)"
  using assms by (simp add: store_read_def store_call_def no_faults_def store_seen_def Let_def)

lemma hidden_read:
  assumes "stays_hidden tn i ow sv"
  shows "get_task tn i ow h (store_seen sv) = Inr None"
  using assms by (auto simp: stays_hidden_def hidden_def get_task_def store_seen_def split: option.splits)

lemma hidden_seen:
  assumes "stays_hidden tn i ow sv"
  shows "stays_hidden tn i ow (sv\<lparr>sv_store := store_seen sv, sv_tick := n\<rparr>)"
  using assms by (simp add: stays_hidden_def store_seen_def)

lemma hidden_owned_task:
  assumes "stays_hidden tn i ow sv" and "no_faults sv"
  shows "with_owned_task tn ow i h k sv =
    (Inl (TaskNotFound i), sv\<lparr>sv_store := store_seen sv, sv_tick := Suc (sv_tick sv)\<rparr>)"
  using assms by (simp add: with_owned_task_def call_then_def read_no_faults hidden_read)

lemma one_read: "only_others sv (sv\<lparr>sv_store := store_seen sv, sv_tick := Suc (sv_tick sv)\<rparr>)"
  by (rule only_others_read) (rule only_others_refl)

text \<open>The operations a client addresses to one task.\<close>

datatype task_request =
    ReqGet "int option"
  | ReqCancel
  | ReqSubscribe
  | ReqSend "json option" "string list" send_request
  | ReqSendStream "json option" "string list" send_request
  | ReqCreateConfig "string + push_config"
  | ReqListConfigs "string option" "int option"
  | ReqGetConfig string
  | ReqDeleteConfig string

fun handle_request ::
  "send_world \<Rightarrow> nat \<Rightarrow> string \<Rightarrow> string \<Rightarrow> string \<Rightarrow> task_request \<Rightarrow> server \<Rightarrow> response handled option" where
  "handle_request w fuel tn ow i (ReqGet h) sv = Some (map_reply TaskResponse (core_get_task tn ow i h sv))"
| "handle_request w fuel tn ow i ReqCancel sv = map_option (map_reply TaskResponse) (core_cancel_task fuel tn ow i sv)"
| "handle_request w fuel tn ow i ReqSubscribe sv =
     Some (map_reply StreamResponse (open_subscribe_stream (se_card w) tn ow i sv))"
| "handle_request w fuel tn ow i (ReqSend claims activated req) sv =
     Some (map_reply TaskResponse (core_send_message w tn ow claims activated (Inr req) sv))"
| "handle_request w fuel tn ow i (ReqSendStream claims activated req) sv =
     Some (map_reply StreamResponse (open_send_stream w tn ow claims activated (Inr req) sv))"
| "handle_request w fuel tn ow i (ReqCreateConfig body) sv = Some (map_reply ConfigResponse
     (core_create_push_config (se_card w) (se_url_error w) (se_uuid_config w) (se_gap w) tn ow i body sv))"
| "handle_request w fuel tn ow i (ReqListConfigs page_token page_size) sv =
     Some (map_reply ConfigsResponse (core_list_push_configs (se_card w) tn ow i page_token page_size sv))"
| "handle_request w fuel tn ow i (ReqGetConfig c) sv =
     Some (map_reply ConfigResponse (core_get_push_config (se_card w) tn ow i c sv))"
| "handle_request w fuel tn ow i (ReqDeleteConfig c) sv =
     Some (map_reply (\<lambda>_. EmptyResponse) (core_delete_push_config (se_card w) tn ow i c sv))"

text \<open>The checks before the task is looked up.\<close>

fun request_admitted :: "send_world \<Rightarrow> server \<Rightarrow> string \<Rightarrow> task_request \<Rightarrow> bool" where
  "request_admitted w sv i (ReqGet h) \<longleftrightarrow> (\<exists>h'. checked_history_length h = Inr h')"
| "request_admitted w sv i ReqCancel \<longleftrightarrow> True"
| "request_admitted w sv i ReqSubscribe \<longleftrightarrow> cap_require (se_card w) Streaming = Inr ()"
| "request_admitted w sv i (ReqSend claims activated req) \<longleftrightarrow>
     (\<exists>m h cfg. request_message req = Inr m \<and> msg_task_id m = i \<and> i \<noteq> [] \<and>
       check_part_media_types (se_card w) m = Inr () \<and>
       ((\<exists>c. sr_configuration req = Some c \<and> cf_return_immediately c) \<longrightarrow> supports_return_immediately (sv_config sv)) \<and>
       checked_history_length (Option.bind (sr_configuration req) cf_history_length) = Inr h \<and>
       inline_push_config (se_card w) (se_url_error w) (sr_configuration req) = Inr cfg)"
| "request_admitted w sv i (ReqSendStream claims activated req) \<longleftrightarrow>
     cap_require (se_card w) Streaming = Inr () \<and>
     (\<exists>m h cfg. request_message req = Inr m \<and> msg_task_id m = i \<and> i \<noteq> [] \<and>
       check_part_media_types (se_card w) m = Inr () \<and>
       checked_history_length (Option.bind (sr_configuration req) cf_history_length) = Inr h \<and>
       inline_push_config (se_card w) (se_url_error w) (sr_configuration req) = Inr cfg)"
| "request_admitted w sv i _ \<longleftrightarrow> cap_require (se_card w) PushNotifications = Inr ()"

theorem hidden_task_not_found:
  assumes "stays_hidden tn i ow sv" and "no_faults sv" and "request_admitted w sv i req"
  shows "\<exists>sv'. handle_request w fuel tn ow i req sv = Some (Inl (TaskNotFound i), sv') \<and> only_others sv sv'"
proof (cases req)
  case (ReqSend claims activated r)
  then obtain m h cfg where m: "request_message r = Inr m" "msg_task_id m = i" "i \<noteq> []"
      "check_part_media_types (se_card w) m = Inr ()"
      "(\<exists>c. sr_configuration r = Some c \<and> cf_return_immediately c) \<longrightarrow> supports_return_immediately (sv_config sv)"
      "checked_history_length (Option.bind (sr_configuration r) cf_history_length) = Inr h"
      "inline_push_config (se_card w) (se_url_error w) (sr_configuration r) = Inr cfg"
    using assms(3) by auto
  have "core_send_message w tn ow claims activated (Inr r) sv =
      (Inl (TaskNotFound i), sv\<lparr>sv_store := store_seen sv, sv_tick := Suc (sv_tick sv)\<rparr>)"
    using m
    by (auto simp: hidden_owned_task [OF assms(1,2)] core_send_message_def decode_request_def guard_def Let_def run_send_def step_then_def
        resolve_send_target_def split: option.splits)
  with ReqSend show ?thesis using one_read by (auto simp: map_reply_def)
next
  case (ReqSendStream claims activated r)
  then obtain m h cfg where m: "request_message r = Inr m" "msg_task_id m = i" "i \<noteq> []"
      "check_part_media_types (se_card w) m = Inr ()" "cap_require (se_card w) Streaming = Inr ()"
      "checked_history_length (Option.bind (sr_configuration r) cf_history_length) = Inr h"
      "inline_push_config (se_card w) (se_url_error w) (sr_configuration r) = Inr cfg"
    using assms(3) by auto
  have "open_send_stream w tn ow claims activated (Inr r) sv =
      (Inl (TaskNotFound i), sv\<lparr>sv_store := store_seen sv, sv_tick := Suc (sv_tick sv)\<rparr>)"
    using m
    by (auto simp: hidden_owned_task [OF assms(1,2)] open_send_stream_def decode_request_def guard_def step_then_def
        resolve_send_target_def split: option.splits)
  with ReqSendStream show ?thesis using one_read by (auto simp: map_reply_def)
next
  case ReqSubscribe
  let ?sv = "sv\<lparr>sv_store := store_seen sv, sv_tick := Suc (sv_tick sv)\<rparr>"
  have "no_faults ?sv" using assms(2) by (simp add: no_faults_def)
  note foreign = hidden_owned_task [OF hidden_seen [OF assms(1)] this]
  have "open_subscribe_stream (se_card w) tn ow i sv =
      (Inl (TaskNotFound i), ?sv\<lparr>sv_store := store_seen ?sv, sv_tick := Suc (sv_tick ?sv)\<rparr>)"
    using assms(3) ReqSubscribe
    by (simp add: foreign open_subscribe_stream_def guard_def call_then_def read_no_faults [OF assms(2)] latest_sequence_def)
  moreover have "only_others sv (?sv\<lparr>sv_store := store_seen ?sv, sv_tick := Suc (sv_tick ?sv)\<rparr>)"
    by (rule only_others_read) (rule one_read)
  ultimately show ?thesis using ReqSubscribe by (simp add: map_reply_def)
qed (use assms(3) one_read in
    \<open>auto simp: hidden_owned_task [OF assms(1,2)] map_reply_def core_get_task_def core_cancel_task_def core_create_push_config_def
      core_list_push_configs_def core_get_push_config_def core_delete_push_config_def
      verify_task_ownership_def guard_def\<close>)

section \<open>The task a handler acts on\<close>

text \<open>
  Between the calls of a handler everyone else may issue any writes of the server:
  \<open>server_others\<close>. \<open>task_here\<close> is what they keep.
\<close>

definition server_others :: "string \<Rightarrow> string \<Rightarrow> server \<Rightarrow> bool" where
  "server_others tn i sv \<longleftrightarrow> (\<forall>n s. server_run tn i s (sv_others sv n s))"

definition task_here :: "string \<Rightarrow> string \<Rightarrow> string \<Rightarrow> store \<Rightarrow> bool" where
  "task_here tn i ow s \<longleftrightarrow> life_logged (view_of s tn i) \<and> fst (view_of s tn i) = Some ow \<and> tasks_keyed s \<and> i \<noteq> []"

definition same_world :: "server \<Rightarrow> server \<Rightarrow> bool" where
  "same_world sv sv' \<longleftrightarrow> sv_others sv' = sv_others sv \<and> sv_fault sv' = sv_fault sv \<and> sv_config sv' = sv_config sv"

lemma same_world_refl [simp]: "same_world sv sv"
  by (simp add: same_world_def)

lemma same_world_trans: "same_world sv sv' \<Longrightarrow> same_world sv' sv'' \<Longrightarrow> same_world sv sv''"
  by (simp add: same_world_def)

lemma same_world_laws:
  "same_world sv sv' \<Longrightarrow> server_others tn i sv' = server_others tn i sv"
  "same_world sv sv' \<Longrightarrow> no_faults sv' = no_faults sv"
  by (simp_all add: same_world_def server_others_def no_faults_def)

lemma same_world_small [simp]:
  "same_world sv (notify i sv)" "same_world sv (upd_handle h f sv)" "same_world sv (call_dispatch tn ow t evs sv)"
  "same_world sv (abort_handle h sv)" "same_world sv (sleep_for d sv)" "same_world sv (cancel_then_abort_after h d sv)"
  "same_world sv (sv\<lparr>sv_store := s, sv_tick := n\<rparr>)"
  by (simp_all add: same_world_def notify_def upd_handle_def call_dispatch_def abort_handle_def sleep_for_def
      cancel_then_abort_after_def Let_def)

lemma store_small [simp]:
  "sv_store (abort_handle h sv) = sv_store sv" "sv_store (sleep_for d sv) = sv_store sv"
  "sv_store (cancel_then_abort_after h d sv) = sv_store sv"
  by (simp_all add: abort_handle_def sleep_for_def cancel_then_abort_after_def Let_def)

lemma server_run_steps:
  assumes "server_run tn i s s'" and "life_logged (view_of s tn i)"
  shows "view_step\<^sup>*\<^sup>* (view_of s tn i) (view_of s' tn i)"
  using assms
proof (induction rule: server_run.induct)
  case (step_run s s' op)
  then obtain c where "state_of s' tn i = Some c"
    using server_run_lifecycle lifecycle_state by blast
  from server_op_view [OF step_run.hyps(2) this] step_run show ?case
    by (auto intro: rtranclp.rtrancl_into_rtrancl)
qed simp

lemma server_run_keyed: "server_run tn i s s' \<Longrightarrow> tasks_keyed s \<Longrightarrow> tasks_keyed s'"
  by (induction rule: server_run.induct) (auto intro: tasks_keyed_exec)

lemma view_step_owner: "view_step v v' \<Longrightarrow> fst v' = fst v"
  by (cases rule: view_step.cases) auto

lemma view_steps_owner: "view_step\<^sup>*\<^sup>* v v' \<Longrightarrow> fst v' = fst v"
  by (induction rule: rtranclp_induct) (auto dest: view_step_owner)

lemma view_step_ended: "view_step v v' \<Longrightarrow> ended (fst (snd v)) \<Longrightarrow> v' = v"
  by (elim view_stepE) (use may_follow_terminal in \<open>auto simp: ended_def may_follow_def\<close>)

lemma view_steps_ended: "view_step\<^sup>*\<^sup>* v v' \<Longrightarrow> ended (fst (snd v)) \<Longrightarrow> v' = v"
  by (induction rule: rtranclp_induct) (auto dest: view_step_ended)

lemma here_run:
  assumes "task_here tn i ow s" and "server_run tn i s s'"
  shows "task_here tn i ow s'" and "ended (state_of s tn i) \<Longrightarrow> state_of s' tn i = state_of s tn i"
proof -
  have steps: "view_step\<^sup>*\<^sup>* (view_of s tn i) (view_of s' tn i)"
    using assms by (intro server_run_steps) (auto simp: task_here_def)
  show "task_here tn i ow s'"
    using assms lifecycle_steps [OF steps] view_steps_owner [OF steps] server_run_keyed [OF assms(2)]
    by (auto simp: task_here_def)
  show "ended (state_of s tn i) \<Longrightarrow> state_of s' tn i = state_of s tn i"
    using view_steps_ended [OF steps] by (simp add: view_of_def)
qed

lemma here_row:
  assumes "task_here tn i ow s"
  obtains r c where "get_stored s tn i = Some r" "s_owner r = ow" "task_state_of (s_task r) = Some c"
    "state_of s tn i = Some c" "tk_id (s_task r) = i"
proof -
  obtain c where c: "state_of s tn i = Some c"
    using assms lifecycle_state [of s tn i] by (auto simp: task_here_def)
  then obtain r where "get_stored s tn i = Some r" "task_state_of (s_task r) = Some c"
    by (auto simp: state_of_eq split: option.splits)
  with assms c show thesis
    by (intro that [of r c]) (auto simp: task_here_def view_of_def tasks_keyed_get)
qed

text \<open>A read of the task, and a write that is one of the server's.\<close>

lemma here_seen:
  assumes "task_here tn i ow (sv_store sv)" and "server_others tn i sv"
  shows "task_here tn i ow (store_seen sv)"
    and "ended (state_of (sv_store sv) tn i) \<Longrightarrow> state_of (store_seen sv) tn i = state_of (sv_store sv) tn i"
  using here_run [OF assms(1)] assms(2) by (simp_all add: server_others_def store_seen_def)

lemma here_read:
  assumes "task_here tn i ow (sv_store sv)" and "server_others tn i sv" and "no_faults sv"
    and "store_read (get_task tn i ow h) sv = (res, sv')"
  obtains t c where "res = Inr (Some t)" "task_state_of t = Some c" "state_of (sv_store sv') tn i = Some c"
    "task_here tn i ow (sv_store sv')" "same_world sv sv'" "tk_context_id t = tk_context_id (s_task (the (get_stored (sv_store sv') tn i)))"
    "ended (state_of (sv_store sv) tn i) \<Longrightarrow> state_of (sv_store sv') tn i = state_of (sv_store sv) tn i"
    "sv' = sv\<lparr>sv_store := store_seen sv, sv_tick := Suc (sv_tick sv)\<rparr>"
proof (rule here_row [OF here_seen(1) [OF assms(1,2)]])
  fix r c assume r: "get_stored (store_seen sv) tn i = Some r" "s_owner r = ow"
    "task_state_of (s_task r) = Some c" "state_of (store_seen sv) tn i = Some c"
  have sv': "res = get_task tn i ow h (store_seen sv)"
      "sv' = sv\<lparr>sv_store := store_seen sv, sv_tick := Suc (sv_tick sv)\<rparr>"
    using assms(4) by (simp_all add: read_no_faults [OF assms(3)])
  have "tk_context_id (trim_history (s_task r) h) = tk_context_id (s_task r)"
    by (auto simp: trim_history_def Let_def split: option.splits)
  then show thesis
    using r sv' here_seen [OF assms(1,2)]
    by (intro that [of "trim_history (s_task r) h" c]) (simp_all add: get_task_def)
qed

lemma terminal_follows: "\<not> is_terminal c \<Longrightarrow> n = Failed \<or> n = Canceled \<Longrightarrow> may_follow c n"
  by (cases c) (auto simp: may_follow_def is_terminal_def TERMINAL_STATES_def)

text \<open>A framework terminal ends the task, by its own commit or by the winner's.\<close>

lemma framework_terminal_ends:
  assumes here: "task_here tn i ow (sv_store sv)" and others: "server_others tn i sv" and nf: "no_faults sv"
    and n: "status_state st = Inr n" "n = Failed \<or> n = Canceled"
    and c: "commit_framework_terminal tn ow i ctx st sv = (res, sv')"
  shows "task_here tn i ow (sv_store sv') \<and> same_world sv sv' \<and> ended (state_of (sv_store sv') tn i) \<and>
    ((\<exists>t seqs. res = Inr (t, seqs) \<and> task_state_of t = Some n \<and> state_of (sv_store sv') tn i = Some n) \<or>
     (\<exists>cur. res = Inl (SE_TerminalStateAlreadySet i cur)))"
proof (rule here_row [OF here_seen(1) [OF here others]])
  let ?ev = "status_event i ctx st"
  fix r c0 assume r: "get_stored (store_seen sv) tn i = Some r" "s_owner r = ow"
    "task_state_of (s_task r) = Some c0" "state_of (store_seen sv) tn i = Some c0" "tk_id (s_task r) = i"
  have seen: "task_here tn i ow (store_seen sv)" by (rule here_seen(1) [OF here others])
  have trm: "is_terminal n" using n(2) by (auto simp: is_terminal_def TERMINAL_STATES_def)
  obtain out sv1 where sc: "store_call (\<lambda>now. update_task_status_with_events now tn i ow st [?ev]) sv = (out, sv1)"
    by fastforce
  have fin: "(res, sv') = (case out of Inl e \<Rightarrow> (Inl e, sv1) | Inr (t, seqs) \<Rightarrow> (Inr (t, seqs),
      notify i (call_dispatch tn ow t [(case seqs of q # _ \<Rightarrow> q | [] \<Rightarrow> 0, ?ev)] sv1)))"
    using c sc by (cases out) (auto simp: commit_framework_terminal_def Let_def split: prod.splits)
  from sc show ?thesis
  proof (cases rule: store_call_cases)
    case (fault e)
    then show ?thesis using nf by simp
  next
    case (call s')
    have "server_run tn i (store_seen sv) s'"
      using server_run.step_run [OF server_run.done_run, of tn i "store_seen sv" "OpStatusAtomic (now_of sv) tn i ow st [?ev]"]
        call(1) by (simp add: state_event_def)
    note run = here_run [OF seen this]
    have id: "tk_id (s_task r) \<noteq> []" using r(5) here by (simp add: task_here_def)
    from status_write_outcome [OF r(1,2) id r(3) n(1) call(1)] terminal_follows [of c0 n] n(2)
    consider (ok) t seqs where "out = Inr (t, seqs)"
      | (lost) "is_terminal c0" "out = Inl (SE_TerminalStateAlreadySet i (wire_name c0))" "s' = store_seen sv" by auto
    then show ?thesis
    proof cases
      case ok
      have u: "update_task_status_with_events (now_of sv) tn i ow st [?ev] (store_seen sv) = (Inr (t, seqs), s')"
        using call(1) ok by simp
      have ev: "event_task_state ?ev = (case status_state st of Inr n \<Rightarrow> Some n | Inl _ \<Rightarrow> None)" by simp
      have "task_state_of t = Some n \<and> state_of s' tn i = Some n"
        by (rule status_commit_view [OF u ev]) (use n(1) in \<open>auto simp: view_of_def\<close>)
      moreover have "res = Inr (t, seqs)" "sv_store sv' = s'" "same_world sv sv'"
        using fin ok call(2) by (auto simp: same_world_def notify_def call_dispatch_def)
      ultimately show ?thesis using run(1) trm by (auto simp: ended_def)
    next
      case lost
      then have "res = Inl (SE_TerminalStateAlreadySet i (wire_name c0))" "sv' = sv1" using fin by simp_all
      then show ?thesis using lost call(2) seen r(4) by (simp add: ended_def)
    qed
  qed
qed

section \<open>Cancellation\<close>

definition clock_monotone :: "server \<Rightarrow> bool" where
  "clock_monotone sv \<longleftrightarrow> mono (sv_now sv)"

lemma now_of_sleep: "now_of (sleep_for d sv) = max (now_of sv) (now_of sv + d)"
  by (simp add: now_of_def sleep_for_def)

lemma clock_sleep: "clock_monotone sv \<Longrightarrow> clock_monotone (sleep_for d sv)"
  by (auto simp: clock_monotone_def sleep_for_def mono_def now_of_def intro: le_max_iff_disj [THEN iffD2])

lemma store_call_clock:
  assumes "store_call f sv = (r, sv')"
  shows "sv_now sv' = sv_now sv" "sv_tick sv' = Suc (sv_tick sv)" "sv_config sv' = sv_config sv"
  using assms by (cases rule: store_call_cases; simp)+

lemma cancel_grace_returns:
  assumes "0 < cancel_handler_poll_interval (sv_config sv)" and "clock_monotone sv" and "dl - now_of sv < fuel"
  shows "\<exists>r. cancel_grace fuel dl tn ow i sv = Some r"
  using assms
proof (induction fuel arbitrary: sv)
  case (Suc fuel)
  obtain r sv1 where rd: "store_read (get_task tn i ow (Some 0)) sv = (r, sv1)" by fastforce
  note clk = store_call_clock [OF rd [unfolded store_read_def]]
  let ?d = "min (cancel_handler_poll_interval (sv_config sv1)) (dl - now_of sv1)"
  have now: "now_of sv \<le> now_of sv1"
    using Suc.prems(2) clk by (simp add: now_of_def clock_monotone_def mono_def)
  have "\<exists>r. cancel_grace fuel dl tn ow i (sleep_for ?d sv1) = Some r" if "dl - now_of sv1 \<noteq> 0"
  proof (rule Suc.IH)
    show "0 < cancel_handler_poll_interval (sv_config (sleep_for ?d sv1))"
      using Suc.prems(1) clk by (simp add: sleep_for_def)
    show "clock_monotone (sleep_for ?d sv1)"
      using Suc.prems(2) clk by (intro clock_sleep) (simp add: clock_monotone_def)
    show "dl - now_of (sleep_for ?d sv1) < fuel"
      using that now Suc.prems(1,3) clk(3) by (simp add: now_of_sleep)
  qed
  then show ?case using rd by (auto simp: Let_def split: sum.splits option.splits)
qed simp

lemma cancel_grace_ends:
  assumes "cancel_grace fuel dl tn ow i sv = Some (r, sv')" and "task_here tn i ow (sv_store sv)"
    and "server_others tn i sv" and "no_faults sv"
  shows "task_here tn i ow (sv_store sv') \<and> same_world sv sv' \<and>
    (r = None \<or> (\<exists>t c. r = Some (Inr t) \<and> task_state_of t = Some c \<and> is_terminal c \<and>
       state_of (sv_store sv') tn i = Some c))"
  using assms
proof (induction fuel arbitrary: sv)
  case (Suc fuel)
  obtain res sv1 where rd: "store_read (get_task tn i ow (Some 0)) sv = (res, sv1)" by fastforce
  obtain t c where t: "res = Inr (Some t)" "task_state_of t = Some c" "state_of (sv_store sv1) tn i = Some c"
    "task_here tn i ow (sv_store sv1)" "same_world sv sv1"
    by (rule here_read [OF Suc.prems(2-4) rd])
  show ?case
  proof (cases "dl \<le> now_of sv \<or> is_terminal c \<or> dl - now_of sv1 = 0")
    case True
    then have "(r, sv') = (None, sv) \<or> (r, sv') = (None, sv1) \<or> is_terminal c \<and> (r, sv') = (Some (Inr t), notify i sv1)"
      using Suc.prems(1) rd t(1,2) by (auto simp: Let_def task_terminal_def split: if_splits)
    then show ?thesis using Suc.prems(2) t by (auto intro: same_world_trans)
  next
    case False
    let ?sv2 = "sleep_for (min (cancel_handler_poll_interval (sv_config sv1)) (dl - now_of sv1)) sv1"
    have w: "same_world sv ?sv2" using t(5) by (auto intro: same_world_trans)
    have "cancel_grace fuel dl tn ow i ?sv2 = Some (r, sv')"
      using Suc.prems(1) rd t(1,2) False by (auto simp: Let_def task_terminal_def split: if_splits)
    from Suc.IH [OF this] t(4) w same_world_laws [OF w] Suc.prems(3,4) show ?thesis
      by (auto intro: same_world_trans)
  qed
qed simp

lemma grace_then_commit_ends:
  assumes "cancel_grace_then_commit fuel tn ow i ctx sv = Some (r, sv')" and "task_here tn i ow (sv_store sv)"
    and "server_others tn i sv" and "no_faults sv"
  shows "\<exists>t c. r = Inr t \<and> task_state_of t = Some c \<and> is_terminal c \<and> state_of (sv_store sv') tn i = Some c"
proof -
  obtain g sv1 where g: "cancel_grace fuel (now_of sv + cancel_handler_grace (sv_config sv)) tn ow i sv = Some (g, sv1)"
    using assms(1) by (auto simp: cancel_grace_then_commit_def Let_def split: option.splits)
  note ge = cancel_grace_ends [OF g assms(2-4)]
  show ?thesis
  proof (cases g)
    case (Some r')
    then show ?thesis using ge g assms(1) by (auto simp: cancel_grace_then_commit_def Let_def)
  next
    case None
    have here1: "task_here tn i ow (sv_store sv1)" and o1: "server_others tn i sv1" and nf1: "no_faults sv1"
      using ge same_world_laws [of sv sv1] assms(3,4) by auto
    obtain res sv2 where c: "commit_framework_terminal tn ow i ctx (task_status_new Canceled) sv1 = (res, sv2)"
      by fastforce
    have st: "status_state (task_status_new Canceled) = Inr Canceled" by simp
    have out: "(r, sv') = (case (res, sv2) of
             (Inr (t, _), sv) \<Rightarrow> (Inr t, sv)
           | (Inl (SE_TerminalStateAlreadySet _ _), sv) \<Rightarrow>
               with_owned_task tn ow i None (\<lambda>t sv. (Inr t, notify i sv)) sv
           | (Inl (SE_TaskNotFound j), sv) \<Rightarrow> (Inl (TaskNotFound j), sv)
           | (Inl (SE_TerminalState _ _), sv) \<Rightarrow> (Inl (TaskNotCancelable i), sv)
           | (Inl (SE_InvalidTransition _ _ _), sv) \<Rightarrow> (Inl (TaskNotCancelable i), sv)
           | (Inl e, sv) \<Rightarrow> (Inl (a2a_of_storage e), sv))"
      using assms(1) g None c by (simp add: cancel_grace_then_commit_def Let_def)
    note fin = framework_terminal_ends [OF here1 o1 nf1 st _ c]
    from fin consider (ok) t seqs where "res = Inr (t, seqs)" "task_state_of t = Some Canceled"
        "state_of (sv_store sv2) tn i = Some Canceled"
      | (lost) cur where "res = Inl (SE_TerminalStateAlreadySet i cur)" by blast
    then show ?thesis
    proof cases
      case ok
      then show ?thesis using out by (auto simp: is_terminal_def TERMINAL_STATES_def)
    next
      case lost
      have here2: "task_here tn i ow (sv_store sv2)" "ended (state_of (sv_store sv2) tn i)"
          and o2: "server_others tn i sv2" and nf2: "no_faults sv2"
        using fin same_world_laws [of sv1 sv2] o1 nf1 by auto
      obtain rd sv3 where rd: "store_read (get_task tn i ow None) sv2 = (rd, sv3)" by fastforce
      obtain t c where t: "rd = Inr (Some t)" "task_state_of t = Some c" "state_of (sv_store sv3) tn i = Some c"
          "state_of (sv_store sv3) tn i = state_of (sv_store sv2) tn i"
        by (rule here_read [OF here2(1) o2 nf2 rd]) (use here2(2) in simp)
      have "(r, sv') = (Inr t, notify i sv3)"
        using out lost rd t(1) by (simp add: with_owned_task_def call_then_def)
      then show ?thesis using t here2(2) by (auto simp: ended_def)
    qed
  qed
qed

lemma marker_write:
  assumes "task_here tn i ow (sv_store sv)" and "server_others tn i sv" and "no_faults sv"
    and "store_call (\<lambda>_. set_cancel_requested tn i ow) sv = (res, sv')"
  shows "task_here tn i ow (sv_store sv') \<and> same_world sv sv' \<and> sv_now sv' = sv_now sv \<and>
    (res = Inr () \<or> (\<exists>st. res = Inl (SE_TerminalState i st) \<and> ended (state_of (sv_store sv') tn i)))"
  using assms(4)
proof (cases rule: store_call_cases)
  case (fault e)
  then show ?thesis using assms(3) by simp
next
  case (call s')
  have seen: "task_here tn i ow (store_seen sv)" by (rule here_seen(1) [OF assms(1,2)])
  have "server_run tn i (store_seen sv) s'"
    using server_run.step_run [OF server_run.done_run, of tn i "store_seen sv" "OpSetCancel tn i ow"] call(1) by simp
  note run = here_run [OF seen this]
  show ?thesis
  proof (rule here_row [OF seen])
    fix r c assume "get_stored (store_seen sv) tn i = Some r" "s_owner r = ow"
      "task_state_of (s_task r) = Some c" "state_of (store_seen sv) tn i = Some c"
    then show ?thesis using call run by (auto simp: set_cancel_requested_def ended_def split: if_splits)
  qed
qed

theorem cancel_ends_task:
  assumes here: "task_here tn i ow (sv_store sv)" and others: "server_others tn i sv" and nf: "no_faults sv"
    and time: "0 < cancel_handler_poll_interval (sv_config sv)" "clock_monotone sv"
      "cancel_handler_grace (sv_config sv) < fuel"
  shows "\<exists>r sv'. core_cancel_task fuel tn ow i sv = Some (r, sv') \<and>
    ((\<exists>t c. r = Inr t \<and> task_state_of t = Some c \<and> is_terminal c \<and> state_of (sv_store sv') tn i = Some c) \<or>
     r = Inl (TaskNotCancelable i) \<and> ended (state_of (sv_store sv') tn i))"
proof -
  obtain rd sv1 where rd: "store_read (get_task tn i ow (Some 0)) sv = (rd, sv1)" by fastforce
  obtain t c where t: "rd = Inr (Some t)" "task_state_of t = Some c" "state_of (sv_store sv1) tn i = Some c"
    "task_here tn i ow (sv_store sv1)" "same_world sv sv1"
    by (rule here_read [OF here others nf rd])
  have get: "with_owned_task tn ow i (Some 0) reply sv = (Inr t, sv1)"
    using rd t(1) by (simp add: with_owned_task_def call_then_def reply_def)
  show ?thesis
  proof (cases "is_terminal c")
    case True
    then show ?thesis using get t by (simp add: core_cancel_task_def task_terminal_def ended_def)
  next
    case False
    note w1 = same_world_laws [OF t(5)]
    obtain m sv2 where mk: "store_call (\<lambda>_. set_cancel_requested tn i ow) sv1 = (m, sv2)" by fastforce
    have m: "task_here tn i ow (sv_store sv2)" "same_world sv1 sv2" "sv_now sv2 = sv_now sv1"
        "m = Inr () \<or> (\<exists>st. m = Inl (SE_TerminalState i st) \<and> ended (state_of (sv_store sv2) tn i))"
      using marker_write [OF t(4) _ _ mk] w1 others nf by auto
    show ?thesis
    proof (cases m)
      case (Inl e)
      then show ?thesis using m(4) get mk False t(2) by (auto simp: core_cancel_task_def task_terminal_def marker_error_def)
    next
      case (Inr u)
      let ?sv3 = "case registry_get (tn, i) sv2 of
          Some h \<Rightarrow> cancel_then_abort_after h (cancel_abort_grace (sv_config sv2)) sv2 | None \<Rightarrow> sv2"
      have w: "same_world sv ?sv3" "sv_store ?sv3 = sv_store sv2" "clock_monotone ?sv3"
        using t(5) m(2,3) time(2) store_call_clock(1) [OF rd [unfolded store_read_def]]
        by (auto simp: clock_monotone_def cancel_then_abort_after_def upd_handle_def Let_def
            same_world_def split: option.splits)
      have go: "core_cancel_task fuel tn ow i sv = cancel_grace_then_commit fuel tn ow i (tk_context_id t) ?sv3"
        using get mk Inr False t(2) by (simp add: core_cancel_task_def task_terminal_def)
      have cfg: "sv_config ?sv3 = sv_config sv" using w(1) by (simp add: same_world_def)
      have "\<exists>r. cancel_grace fuel (now_of ?sv3 + cancel_handler_grace (sv_config ?sv3)) tn ow i ?sv3 = Some r"
        using time cfg w(3) by (intro cancel_grace_returns) simp_all
      then have "\<exists>r. cancel_grace_then_commit fuel tn ow i (tk_context_id t) ?sv3 = Some r"
        by (auto simp: cancel_grace_then_commit_def Let_def split: option.splits)
      then obtain r sv' where res: "cancel_grace_then_commit fuel tn ow i (tk_context_id t) ?sv3 = Some (r, sv')"
        by (metis prod.exhaust)
      from grace_then_commit_ends [OF this] m(1) w(2) same_world_laws [OF w(1)] others nf
      show ?thesis unfolding go res by auto
    qed
  qed
qed

section \<open>The blocking wait\<close>

definition rests :: "pb_task \<Rightarrow> bool" where
  "rests t \<longleftrightarrow> at_rest (task_state_of t)"

text \<open>The tasks the oneshot may carry in this wait.\<close>

definition oneshot_tasks :: "wait_world \<Rightarrow> pb_task set" where
  "oneshot_tasks w = {t. ww_soft w = SoftYielded (Some t)} \<union> {t. PollYielded (Some t) \<in> set (ww_polls w)} \<union>
     {t. ww_cooperative w = Some (Some t)}"

lemma hard_deadline_ends:
  assumes "task_here tn i ow (sv_store sv)" and "server_others tn i sv" and "no_faults sv"
    and "hard_deadline uuid h tn ow i ctx sv = (r, sv')"
  shows "\<exists>t c. r = Inr t \<and> task_state_of t = Some c \<and> is_terminal c \<and> state_of (sv_store sv') tn i = Some c"
proof -
  let ?st = "status_with_message (agent_text uuid ''task timed out: hard deadline exceeded without terminal emission'')
      (task_status_new Failed)"
  obtain res sv2 where c: "commit_framework_terminal tn ow i ctx ?st (abort_handle h sv) = (res, sv2)" by fastforce
  have st: "status_state ?st = Inr Failed"
    using status_state_status_of [of Failed "Some (agent_text uuid
      ''task timed out: hard deadline exceeded without terminal emission'')"] by (simp add: status_of_def)
  have w: "same_world sv (abort_handle h sv)" by simp
  have fin: "task_here tn i ow (sv_store sv2) \<and> same_world (abort_handle h sv) sv2 \<and> ended (state_of (sv_store sv2) tn i) \<and>
    ((\<exists>t seqs. res = Inr (t, seqs) \<and> task_state_of t = Some Failed \<and> state_of (sv_store sv2) tn i = Some Failed) \<or>
     (\<exists>cur. res = Inl (SE_TerminalStateAlreadySet i cur)))"
    by (rule framework_terminal_ends [OF _ _ _ st _ c]) (use assms same_world_laws [OF w] in simp_all)
  then consider (ok) t seqs where "res = Inr (t, seqs)" "task_state_of t = Some Failed"
      "state_of (sv_store sv2) tn i = Some Failed"
    | (lost) cur where "res = Inl (SE_TerminalStateAlreadySet i cur)" by blast
  then show ?thesis
  proof cases
    case ok
    then show ?thesis
      using assms(4) c by (auto simp: hard_deadline_def is_terminal_def TERMINAL_STATES_def)
  next
    case lost
    let ?sv = "notify i sv2"
    have here2: "task_here tn i ow (sv_store ?sv)" "ended (state_of (sv_store ?sv) tn i)"
        and o2: "server_others tn i ?sv" and nf2: "no_faults ?sv"
      using fin same_world_laws [of sv ?sv] assms(2,3) by (auto simp: same_world_def notify_def abort_handle_def)
    obtain rd sv3 where rd: "store_read (get_task tn i ow None) ?sv = (rd, sv3)" by fastforce
    obtain t c where t: "rd = Inr (Some t)" "task_state_of t = Some c" "state_of (sv_store sv3) tn i = Some c"
        "state_of (sv_store sv3) tn i = state_of (sv_store ?sv) tn i"
      by (rule here_read [OF here2(1) o2 nf2 rd]) (use here2(2) in simp)
    have "(r, sv') = (Inr t, sv3)"
      using assms(4) c lost rd t(1) by (simp add: hard_deadline_def with_owned_task_def call_then_def reply_def)
    then show ?thesis using t here2(2) by (auto simp: ended_def)
  qed
qed

lemma terminal_rests: "task_state_of t = Some c \<Longrightarrow> is_terminal c \<Longrightarrow> rests t"
  by (simp add: rests_def at_rest_def)

lemma cooperative_rests:
  assumes "task_here tn i ow (sv_store sv)" and "server_others tn i sv" and "no_faults sv"
    and "cooperative_wait w uuid h tn ow i ctx sv = (r, sv')"
    and "\<And>t. t \<in> oneshot_tasks w \<Longrightarrow> rests t"
  shows "\<exists>t. r = Inr t \<and> rests t"
proof -
  let ?sv = "upd_handle h (\<lambda>x. x\<lparr>ih_cancelled := True\<rparr>) sv"
  note w = same_world_laws [OF same_world_small(2) [of sv h "\<lambda>x. x\<lparr>ih_cancelled := True\<rparr>"]]
  show ?thesis
  proof (cases "\<exists>t. ww_cooperative w = Some (Some t)")
    case True
    then obtain t where t: "ww_cooperative w = Some (Some t)" by blast
    then have "r = Inr t" using assms(4) by (simp add: cooperative_wait_def Let_def)
    then show ?thesis using assms(5) t by (simp add: oneshot_tasks_def)
  next
    case False
    then have hard: "hard_deadline uuid h tn ow i ctx ?sv = (r, sv')"
      using assms(4) by (cases "ww_cooperative w") (auto simp: cooperative_wait_def Let_def split: option.splits)
    have "\<exists>t c. r = Inr t \<and> task_state_of t = Some c \<and> is_terminal c \<and> state_of (sv_store sv') tn i = Some c"
      by (rule hard_deadline_ends [OF _ _ _ hard]) (use assms(1-3) w in simp_all)
    then show ?thesis using terminal_rests by blast
  qed
qed

lemma cancelled_wait_rests:
  assumes "cancelled_wait ps tn ow i sv = (r, sv')" and "task_here tn i ow (sv_store sv)" and "server_others tn i sv"
    and "no_faults sv" and "\<And>t. PollYielded (Some t) \<in> set ps \<Longrightarrow> rests t"
  shows "(\<forall>t. r = Some (Inr t) \<longrightarrow> rests t) \<and> (\<forall>e. r = Some (Inl e) \<longrightarrow> e = not_emitted) \<and>
    task_here tn i ow (sv_store sv') \<and> same_world sv sv'"
  using assms
proof (induction ps arbitrary: sv)
  case (Cons p ps)
  show ?case
  proof (cases p)
    case (PollYielded t)
    then show ?thesis using Cons.prems by (auto simp: oneshot_result_def split: option.splits)
  next
    case PollTick
    obtain rd sv1 where rd: "store_read (get_task tn i ow None) sv = (rd, sv1)" by fastforce
    obtain t c where t: "rd = Inr (Some t)" "task_state_of t = Some c" "task_here tn i ow (sv_store sv1)" "same_world sv sv1"
      by (rule here_read [OF Cons.prems(2-4) rd])
    show ?thesis
    proof (cases "is_terminal c")
      case True
      then show ?thesis
        using Cons.prems(1) PollTick rd t terminal_rests [of t c] by (auto simp: Let_def task_terminal_def)
    next
      case False
      then have "cancelled_wait ps tn ow i sv1 = (r, sv')"
        using Cons.prems(1) PollTick rd t(1,2) by (simp add: Let_def task_terminal_def)
      from Cons.IH [OF this t(3)] Cons.prems(3-5) same_world_laws [OF t(4)] t(4) show ?thesis
        by (auto intro: same_world_trans)
    qed
  qed
qed simp

text \<open>
  The oneshot of a handle carries what a status commit of the executor bound to the handle put
  there, and nothing else: \<open>fire_yielded\<close> is called by \<open>commit_status\<close> only.
\<close>

definition oneshot_fired :: "wait_world \<Rightarrow> nat \<Rightarrow> string \<Rightarrow> string \<Rightarrow> bool" where
  "oneshot_fired w h tn i \<longleftrightarrow> (\<forall>t \<in> oneshot_tasks w. \<exists>k sv st m r k' sv'. sink_inv k sv \<and> es_handle k = h \<and>
     es_tenant k = tn \<and> es_task_id k = i \<and> commit_status st m k sv = (r, k', sv') \<and>
     ih_yielded (sv_handles sv' h) = Some t)"

lemma fired_rests:
  assumes "oneshot_fired w h tn i" and "t \<in> oneshot_tasks w"
  shows "rests t"
proof -
  obtain k sv st m r k' sv' where k: "sink_inv k sv" "es_handle k = h"
      "commit_status st m k sv = (r, k', sv')" "ih_yielded (sv_handles sv' h) = Some t"
    using assms unfolding oneshot_fired_def by blast
  from commit_status_ok [OF k(3,1)] k(2,4) show ?thesis
    by (auto simp: sink_inv_def sink_call_ok_def handle_ok_def handle_of_def rests_def at_rest_def)
qed

theorem blocking_wait_rests:
  assumes here: "task_here tn i ow (sv_store sv)" and others: "server_others tn i sv" and nf: "no_faults sv"
    and fired: "oneshot_fired w h tn i"
    and aw: "await_yielded w uuid h tn ow i ctx sv = (r, sv')"
  shows "(\<exists>t. r = Inr t \<and> rests t) \<or> r = Inl not_emitted"
proof -
  have rest: "rests t" if "t \<in> oneshot_tasks w" for t using fired_rests [OF fired that] .
  show ?thesis
  proof (cases "ww_soft w")
    case (SoftYielded t)
    then show ?thesis
      using aw rest by (auto simp: await_yielded_def oneshot_result_def oneshot_tasks_def split: option.splits)
  next
    case SoftTimeout
    then have "cooperative_wait w uuid h tn ow i ctx sv = (r, sv')" using aw by (simp add: await_yielded_def)
    from cooperative_rests [OF here others nf this rest] show ?thesis by blast
  next
    case SoftCancelled
    obtain g sv1 where g: "cancelled_wait (ww_polls w) tn ow i sv = (g, sv1)" by fastforce
    have ok: "(\<forall>t. g = Some (Inr t) \<longrightarrow> rests t) \<and> (\<forall>e. g = Some (Inl e) \<longrightarrow> e = not_emitted) \<and>
        task_here tn i ow (sv_store sv1) \<and> same_world sv sv1"
      by (rule cancelled_wait_rests [OF g here others nf]) (simp add: rest oneshot_tasks_def)
    show ?thesis
    proof (cases g)
      case None
      then have "cooperative_wait w uuid h tn ow i ctx sv1 = (r, sv')"
        using aw SoftCancelled g by (simp add: await_yielded_def)
      then have "\<exists>t. r = Inr t \<and> rests t"
        by (rule cooperative_rests [rotated 3]) (use ok rest same_world_laws [of sv sv1] others nf in auto)
      then show ?thesis by blast
    next
      case (Some x)
      then show ?thesis using aw SoftCancelled g Some ok by (cases x) (auto simp: await_yielded_def)
    qed
  qed
qed

end
