(* ===== verification/Send_Turn.thy ===== *)
theory Send_Turn
  imports Handler_Laws
begin

text \<open>
  From the message to the end of the turn: what \<open>start_task_turn\<close> commits is what an executor
  turn needs (\<open>turn_ready\<close>), for a new task and for a follow-up.
\<close>

section \<open>Framework writes are server writes\<close>

lemma framework_run: "framework_ops tn i ops s \<Longrightarrow> server_run tn i s0 s \<Longrightarrow> server_run tn i s0 (fold exec ops s)"
  by (induction ops arbitrary: s) (auto intro: framework_server_op server_run.step_run)

lemma framework_server_others: "framework_others tn i sv \<Longrightarrow> server_others tn i sv"
  unfolding framework_others_def framework_fun_def server_others_def
  using framework_run server_run.done_run by metis

section \<open>A task that is not there yet\<close>

definition absent :: "string \<Rightarrow> string \<Rightarrow> store \<Rightarrow> bool" where
  "absent tn i s \<longleftrightarrow> get_stored s tn i = None \<and> log_of s tn i = []"

lemma absent_exec:
  assumes "framework_op tn i s op" and "absent tn i s"
  shows "absent tn i (exec op s)"
proof (cases "\<exists>now ow st evs. op = OpStatusAtomic now tn i ow st evs")
  case True
  then obtain now ow st evs where op: "op = OpStatusAtomic now tn i ow st evs" by blast
  have "snd (update_task_status_with_events now tn i ow st evs s) = s"
    using assms(2) by (simp add: update_task_status_with_events_def absent_def)
  with op assms(2) show ?thesis by simp
next
  case False
  have "\<nexists>now ow t evs. op = OpUpdateAtomic now tn ow t evs \<and> tk_id t = i" using assms(1) by auto
  from other_row [OF framework_server_op [OF assms(1)] False this]
    other_log [OF framework_server_op [OF assms(1)] False this] assms(2)
  show ?thesis by (simp add: absent_def)
qed

lemma absent_seen:
  assumes "framework_others tn i sv" and "absent tn i (sv_store sv)"
  shows "absent tn i (store_seen sv)"
proof -
  have "framework_ops tn i ops s \<Longrightarrow> absent tn i s \<Longrightarrow> absent tn i (fold exec ops s)" for ops s
    by (induction ops arbitrary: s) (auto intro: absent_exec)
  moreover obtain ops where "framework_ops tn i ops (sv_store sv)"
      "sv_others sv (sv_tick sv) (sv_store sv) = fold exec ops (sv_store sv)"
    using assms(1) unfolding framework_others_def framework_fun_def by metis
  ultimately show ?thesis using assms(2) by (simp add: store_seen_def)
qed

section \<open>The steps of the start\<close>

text \<open>A call that is one of the server's writes keeps the task.\<close>

lemma here_write:
  assumes "task_here tn i ow (sv_store sv)" and "server_others tn i sv"
    and "\<And>now s. \<exists>op. server_op tn i s op \<and> snd (f now s) = exec op s"
    and "store_call f sv = (res, sv')"
  shows "task_here tn i ow (sv_store sv') \<and> server_kept sv sv' \<and> (turn_started (state_of (sv_store sv) tn i) \<longrightarrow>
    turn_started (state_of (sv_store sv') tn i))"
proof -
  note seen = here_seen(1) [OF assms(1,2)]
  have "server_run tn i (sv_store sv) (sv_store sv')"
    using assms(4)
  proof (cases rule: store_call_cases)
    case (fault e)
    then show ?thesis using assms(2) by (simp add: server_others_def store_seen_def)
  next
    case (call s')
    then have s': "s' = snd (f (now_of sv) (store_seen sv))" by simp
    obtain op where "server_op tn i (store_seen sv) op" "s' = exec op (store_seen sv)"
      using assms(3) [of "store_seen sv" "now_of sv"] s' by auto
    moreover have "server_run tn i (sv_store sv) (store_seen sv)"
      using assms(2) by (simp add: server_others_def store_seen_def)
    ultimately show ?thesis using call server_run.step_run by simp
  qed
  note run = here_run(1) [OF assms(1) this] and steps = server_run_steps [OF this]
  have "turn_started (state_of (sv_store sv) tn i) \<longrightarrow> turn_started (state_of (sv_store sv') tn i)"
    using started_steps [OF steps] assms(1) by (simp add: task_here_def view_of_def)
  with run store_call_kept [OF assms(4)] show ?thesis by simp
qed

lemma server_kept_others:
  "server_kept sv sv' \<Longrightarrow> framework_others tn i sv' = framework_others tn i sv"
  "server_kept sv sv' \<Longrightarrow> no_faults sv' = no_faults sv"
  "server_kept sv sv' \<Longrightarrow> registry_get k sv' = registry_get k sv"
  by (simp_all add: server_kept_def same_env_laws registry_get_def)

lemma create_here:
  assumes "absent tn (tk_id t) s" and "tasks_keyed s" and "tk_id t \<noteq> []"
    and "task_state_of t = Some Submitted" and "event_task_state e = Some Submitted"
  shows "task_here tn (tk_id t) ow (snd (create_task_with_events now tn ow t [e] s))"
proof -
  have "map_option s_owner (get_stored (snd (create_task_with_events now tn ow t [e] s)) tn (tk_id t)) = Some ow"
    by (simp add: create_task_with_events_eq Let_def get_put_stored)
  then show ?thesis
    using assms create_lifecycle [of s tn t e now ow] tasks_keyed_exec [of s "OpCreateAtomic now tn ow t [e]"]
    by (simp add: task_here_def absent_def view_of_def)
qed

lemma submitted_task_simps [simp]:
  "tk_id (submitted_task tg m) = tg_task_id tg" "task_state_of (submitted_task tg m) = Some Submitted"
  by (simp_all add: submitted_task_def task_append_message_def task_with_context_id_def task_new_def
      task_state_of_eq)

definition target_ready :: "string \<Rightarrow> string \<Rightarrow> send_target \<Rightarrow> store \<Rightarrow> bool" where
  "target_ready tn ow tg s \<longleftrightarrow> tasks_keyed s \<and> tg_task_id tg \<noteq> [] \<and>
     (if tg_is_continuation tg then task_here tn (tg_task_id tg) ow s else absent tn (tg_task_id tg) s)"

lemma open_turn_here:
  assumes others: "framework_others tn (tg_task_id tg) sv" and nf: "no_faults sv"
    and ready: "target_ready tn ow tg (sv_store sv)"
    and go: "open_turn tn ow tg m sv = (Inr (), sv')"
  shows "task_here tn (tg_task_id tg) ow (sv_store sv') \<and> server_kept sv sv'"
proof (cases "tg_is_continuation tg")
  case True
  have here: "task_here tn (tg_task_id tg) ow (sv_store sv)" using True ready by (simp add: target_ready_def)
  obtain res sv1 where sc: "store_call (\<lambda>_. append_message tn (tg_task_id tg) ow m) sv = (res, sv1)" by fastforce
  have op: "\<exists>op. server_op tn (tg_task_id tg) s op \<and> snd (append_message tn (tg_task_id tg) ow m s) = exec op s" for s
    by (rule exI [of _ "OpAppendMessage tn (tg_task_id tg) ow m"]) simp
  from here_write [OF here framework_server_others [OF others] op sc] go True sc show ?thesis
    by (auto simp: open_turn_def call_then_def reply_def split: sum.splits)
next
  case False
  let ?f = "\<lambda>now. create_task_with_events now tn ow (submitted_task tg m) [turn_event tg Submitted]"
  obtain res sv1 where sc: "store_call ?f sv = (res, sv1)" by fastforce
  have seen: "absent tn (tg_task_id tg) (store_seen sv)"
    using absent_seen [OF others] False ready by (simp add: target_ready_def)
  have keyed: "tasks_keyed (store_seen sv)"
    using tasks_keyed_framework [of tn "tg_task_id tg" "sv_others sv (sv_tick sv)" "sv_store sv"] others ready
    by (simp add: target_ready_def framework_others_def store_seen_def)
  from sc have "task_here tn (tg_task_id tg) ow (sv_store sv1)"
  proof (cases rule: store_call_cases)
    case (fault e)
    then show ?thesis using nf by simp
  next
    case (call s')
    then show ?thesis
      using create_here [of tn "submitted_task tg m" "store_seen sv" "turn_event tg Submitted" ow "now_of sv"] seen keyed ready
      by (simp add: turn_event_def target_ready_def)
  qed
  moreover have "sv' = notify (tg_task_id tg) sv1"
    using go False sc by (auto simp: open_turn_def call_then_def split: sum.splits)
  ultimately show ?thesis using store_call_kept [OF sc] small_kept(5) server_kept_trans by auto
qed

lemma stamp_lease_here:
  assumes "framework_others tn (tg_task_id tg) sv" and "task_here tn (tg_task_id tg) ow (sv_store sv)"
    and "stamp_lease tn tg sv = (Inr (), sv')"
  shows "task_here tn (tg_task_id tg) ow (sv_store sv') \<and> server_kept sv sv'"
proof (cases "executor_lease_ttl (sv_config sv)")
  case None
  then show ?thesis using assms by (simp add: stamp_lease_def)
next
  case (Some ttl)
  let ?at = "Some (lease_deadline (now_of sv) ttl)"
  obtain res sv1 where sc: "store_call (\<lambda>_. supervisor_renew_executor_leases tn [tg_task_id tg] ?at) sv = (res, sv1)"
    by fastforce
  have op: "\<exists>op. server_op tn (tg_task_id tg) s op \<and>
      snd (supervisor_renew_executor_leases tn [tg_task_id tg] ?at s) = exec op s" for s
    by (rule exI [of _ "OpRenewLeases tn [tg_task_id tg] ?at"]) simp
  from here_write [OF assms(2) framework_server_others [OF assms(1)] op sc] assms(3) Some sc show ?thesis
    by (auto simp: stamp_lease_def call_then_def reply_def split: sum.splits)
qed

theorem start_turn_ready:
  assumes others: "framework_others tn (tg_task_id tg) sv" and nf: "no_faults sv"
    and ready: "target_ready tn ow tg (sv_store sv)" and reg: "registry_get (tn, tg_task_id tg) sv = None"
    and go: "start_task_turn tn ow tg m sv = (Inr (), sv')"
  shows "turn_ready (target_scope tn ow tg m xi) sv' \<and> no_faults sv'"
proof -
  let ?i = "tg_task_id tg"
  obtain sv1 where s1: "open_turn tn ow tg m sv = (Inr (), sv1)"
    using go by (auto simp: start_task_turn_def step_then_def split: sum.splits prod.splits)
  note h1 = open_turn_here [OF others nf ready s1]
  obtain sv2 where s2: "stamp_lease tn tg sv1 = (Inr (), sv2)"
    using go s1 by (auto simp: start_task_turn_def step_then_def split: sum.splits prod.splits)
  have k1: "framework_others tn ?i sv1" using h1 server_kept_others(1) others by blast
  note h2 = stamp_lease_here [OF k1 _ s2]
  have here2: "task_here tn ?i ow (sv_store sv2)" and kept: "server_kept sv sv2" "framework_others tn ?i sv2" "no_faults sv2"
    using h1 h2 server_kept_trans server_kept_others others nf by blast+
  let ?f = "\<lambda>now. update_task_status_with_events now tn ?i ow (task_status_new Working) [turn_event tg Working]"
  obtain res sv3 where sc: "store_call ?f sv2 = (res, sv3)" by fastforce
  obtain t seqs where res: "res = Inr (t, seqs)" and sv': "sv' = notify ?i sv3"
    using go s1 s2 sc by (auto simp: start_task_turn_def step_then_def call_then_def split: sum.splits)
  have op: "\<exists>op. server_op tn ?i s op \<and> snd (?f now s) = exec op s" for now s
    by (rule exI [of _ "OpStatusAtomic now tn ?i ow (task_status_new Working) [turn_event tg Working]"])
      (simp add: state_event_def turn_event_def)
  note h3 = here_write [OF here2 framework_server_others [OF kept(2)] op sc]
  from sc have "state_of (sv_store sv3) tn ?i = Some Working"
  proof (cases rule: store_call_cases)
    case (fault e)
    then show ?thesis using kept(3) by simp
  next
    case (call s')
    then have u: "update_task_status_with_events (now_of sv2) tn ?i ow (task_status_new Working)
        [turn_event tg Working] (store_seen sv2) = (Inr (t, seqs), s')" using res by simp
    have ev: "event_task_state (turn_event tg Working) =
        (case status_state (task_status_new Working) of Inr n \<Rightarrow> Some n | Inl _ \<Rightarrow> None)"
      by (simp add: turn_event_def)
    have "state_of s' tn ?i = Some Working"
      by (rule status_commit_view [OF u ev]) (auto simp: view_of_def)
    with call show ?thesis by simp
  qed
  then have "turn_started (state_of (sv_store sv') tn ?i)" by (simp add: turn_started_def sv')
  moreover have "server_kept sv sv'"
    unfolding sv' using kept(1) h3 small_kept(5) server_kept_trans by blast
  ultimately show ?thesis
    using h3 server_kept_others others nf reg ready
    by (auto simp: turn_ready_def target_scope_def task_here_def sv')
qed

text \<open>A started turn whose executor returns or panics ends at rest.\<close>

theorem started_turn_ends:
  assumes others: "framework_others tn (tg_task_id tg) sv" and nf: "no_faults sv"
    and ready: "target_ready tn ow tg (sv_store sv)" and reg: "registry_get (tn, tg_task_id tg) sv = None"
    and start: "start_task_turn tn ow tg m sv = (Inr (), sv1)" and ret: "returns execute"
    and turn: "executor_turn execute uuid (target_scope tn ow tg m xi) sv1 = (res, sk, sv2)"
  shows "(\<exists>h. res = Inr h) \<and> at_rest (state_of (sv_store sv2) tn (tg_task_id tg)) \<and>
    registry_get (tn, tg_task_id tg) sv2 = None"
  using turn_rests [OF _ _ ret turn] start_turn_ready [OF others nf ready reg start]
  by (simp add: target_scope_def)

end
