(* ===== verification/Server_Example.thy ===== *)
theory Server_Example
  imports Send_Turn Store_Example
begin

text \<open>
  Small concrete servers, requests and executors for the witnesses: nobody else writes, no call
  fails, and the clock counts the calls.
\<close>

definition example_server :: "store \<Rightarrow> server" where
  "example_server s = \<lparr>sv_store = s, sv_broker = broker_new, sv_handles = (\<lambda>_. in_flight_handle_new 0 0),
     sv_next = 0, sv_registry = [], sv_aborted = [], sv_deferred = [], sv_dispatched = [],
     sv_push_dispatcher = True, sv_cache = config_cache_default, sv_config = runtime_config_default,
     sv_tick = 0, sv_now = (\<lambda>n. n), sv_others = (\<lambda>_ s. s), sv_fault = (\<lambda>_. None)\<rparr>"

lemma example_server_simps [simp]:
  "sv_store (example_server s) = s" "sv_config (example_server s) = runtime_config_default"
  "no_faults (example_server s)" "framework_others tn i (example_server s)" "server_others tn i (example_server s)"
  "registry_get k (example_server s) = None" "clock_monotone (example_server s)"
  by (simp_all add: example_server_def no_faults_def framework_others_def server_others_def registry_get_def
      clock_monotone_def mono_def server_run.done_run)

definition example_message :: pb_message where
  "example_message = message_new ''m1'' User [part_text ''hi'']"

definition example_send_target :: send_target where
  "example_send_target = \<lparr>tg_task_id = ''task'', tg_context_id = ''ctx'', tg_is_continuation = False\<rparr>"

definition example_inputs :: executor_inputs where
  "example_inputs = \<lparr>xi_claims = None, xi_accepted_output_modes = [], xi_request_metadata = None,
     xi_activated_extensions = []\<rparr>"

text \<open>It sends a chunk, asks for input, goes on, and returns without ending its turn.\<close>

definition example_executor :: executor where
  "example_executor t m x = ([CallEmitArtifact (artifact_new ''a'' [part_text ''x'']) False True,
     CallRequireInput None, CallSetStatus Working None], Returned (Inr ()) t)"

lemma example_executor_returns: "returns example_executor"
  by (simp add: returns_def example_executor_def)

lemma example_send_target_ready: "target_ready ''t'' ''o'' example_send_target (empty_store True)"
  by (simp add: target_ready_def example_send_target_def absent_def tasks_keyed_def empty_store_def log_of_def
      get_stored_def with_push_dispatch_enabled_def with_retention_def store_new_def)

definition started_server :: server where
  "started_server = snd (start_task_turn ''t'' ''o'' example_send_target example_message (example_server (empty_store True)))"

lemma example_turn_starts:
  "start_task_turn ''t'' ''o'' example_send_target example_message (example_server (empty_store True)) = (Inr (), started_server)"
proof -
  let ?sv = "example_server (empty_store True)" and ?t = "submitted_task example_send_target example_message"
  let ?s1 = "snd (create_task_with_events 0 ''t'' ''o'' ?t [turn_event example_send_target Submitted] (empty_store True))"
  let ?sv1 = "notify ''task'' (?sv\<lparr>sv_store := ?s1, sv_tick := 1\<rparr>)"
  have i: "tg_task_id example_send_target = ''task''" "\<not> tg_is_continuation example_send_target"
    by (simp_all add: example_send_target_def)
  have "\<exists>x. fst (create_task_with_events 0 ''t'' ''o'' ?t [turn_event example_send_target Submitted] (empty_store True)) = Inr x"
    by (simp add: create_task_with_events_eq Let_def)
  then have "open_turn ''t'' ''o'' example_send_target example_message ?sv = (Inr (), ?sv1)"
    using i by (auto simp: open_turn_def call_then_def store_call_def example_server_def now_of_def prod_eq_iff
        split: prod.splits sum.splits)
  moreover have "stamp_lease ''t'' example_send_target ?sv1 = (Inr (), ?sv1)"
    by (simp add: stamp_lease_def runtime_config_default_def Let_def)
  moreover have "\<exists>x. fst (store_call (\<lambda>now. update_task_status_with_events now ''t'' ''task'' ''o''
      (task_status_new Working) [turn_event example_send_target Working]) ?sv1) = Inr x"
  proof -
    have here: "task_here ''t'' ''task'' ''o'' ?s1"
      using create_here [of "''t''" ?t "empty_store True" "turn_event example_send_target Submitted" "''o''" 0]
        example_send_target_ready by (simp add: i target_ready_def turn_event_def)
    have "state_of ?s1 ''t'' ''task'' = Some Submitted"
      by (simp add: create_task_with_events_eq Let_def state_of_def get_put_stored i)
    then show ?thesis
    proof (rule_tac here_row [OF here])
      fix r c assume r: "get_stored ?s1 ''t'' ''task'' = Some r" "s_owner r = ''o''"
        "task_state_of (s_task r) = Some c" "state_of ?s1 ''t'' ''task'' = Some c" "tk_id (s_task r) = ''task''"
        and "state_of ?s1 ''t'' ''task'' = Some Submitted"
      then have c: "c = Submitted" by simp
      obtain res s' where u: "update_task_status_with_events 1 ''t'' ''task'' ''o'' (task_status_new Working)
          [turn_event example_send_target Working] ?s1 = (res, s')" by fastforce
      have "\<exists>x. res = Inr x"
        using status_write_outcome [OF r(1,2) _ r(3) _ u, of Working] r(5) c
        by (auto simp: may_follow_def is_terminal_def TERMINAL_STATES_def)
      then show ?thesis using u by (auto simp: store_call_def example_server_def now_of_def notify_def)
    qed
  qed
  ultimately have "fst (start_task_turn ''t'' ''o'' example_send_target example_message ?sv) = Inr ()"
    using i by (auto simp: start_task_turn_def step_then_def call_then_def split: prod.splits)
  then show ?thesis by (simp add: started_server_def prod_eq_iff)
qed

lemma example_here: "task_here ''t'' ''task'' ''o'' (example_store Submitted)"
  using create_here [of "''t''" "example_task Submitted" "empty_store True" "example_event Submitted" "''o''" 0]
  by (simp add: example_store_def absent_def tasks_keyed_def empty_store_def log_of_def example_event_def
      get_stored_def with_push_dispatch_enabled_def with_retention_def store_new_def example_status_def)

text \<open>A sink of the stored task commits \<open>Failed\<close>: the oneshot of its handle carries the failed task.\<close>

definition example_wait :: "pb_task \<Rightarrow> wait_world" where
  "example_wait t = \<lparr>ww_soft = SoftYielded (Some t), ww_polls = [], ww_cooperative = None\<rparr>"

lemma example_fired: "\<exists>t. task_state_of t = Some Failed \<and> oneshot_fired (example_wait t) 0 ''t'' ''task''"
proof -
  let ?sv = "example_server (example_store Submitted)"
  let ?k = "\<lparr>es_tenant = ''t'', es_task_id = ''task'', es_context_id = ''ctx'', es_owner = ''o'', es_handle = 0,
    es_is_closed = False, es_is_interrupted = False\<rparr>"
  have seen: "store_seen ?sv = example_store Submitted" by (simp add: store_seen_def example_server_def)
  have submitted: "state_of (example_store Submitted) ''t'' ''task'' = Some Submitted"
    by (simp add: state_of_def example_store_row example_row_def)
  have fresh: "sv_handles ?sv 0 = in_flight_handle_new 0 0" by (simp add: example_server_def)
  have "bound ?k ?sv"
    using example_here submitted
    by (auto simp: bound_def task_here_def view_of_def state_of_def faults_ok_def example_server_def split: option.splits)
      (simp_all add: framework_others_def)
  then have inv: "sink_inv ?k ?sv"
    using example_here fresh
    by (simp add: sink_inv_def task_here_def handle_ok_def handle_of_def in_flight_handle_new_def)
  obtain r k' sv' where cs: "commit_status Failed None ?k ?sv = (r, k', sv')" by (metis prod_cases3)
  then obtain t where "task_state_of t = Some Failed" "ih_yielded (sv_handles sv' 0) = Some t"
  proof (cases rule: commit_status_cases [OF _ \<open>bound ?k ?sv\<close>, consumes 1, case_names closed committed lost refused])
    case (committed c t seq e s')
    then show thesis
      using after_status_commit_handle(1) [OF committed(11)] fresh
      by (intro that [of t]) (simp_all add: in_flight_handle_new_def yields_def is_terminal_def TERMINAL_STATES_def)
  next
    case (lost cur)
    then show thesis using submitted by (simp add: seen sink_state_def ended_def is_terminal_def TERMINAL_STATES_def)
  next
    case (refused e)
    then show thesis using submitted by (simp add: seen sink_state_def may_follow_def)
  qed simp
  moreover have "oneshot_tasks (example_wait t) = {t}" by (simp add: oneshot_tasks_def example_wait_def)
  moreover have "\<exists>k sv st m r k' sv'. sink_inv k sv \<and> es_handle k = 0 \<and> es_tenant k = ''t'' \<and> es_task_id k = ''task'' \<and>
      commit_status st m k sv = (r, k', sv') \<and> ih_yielded (sv_handles sv' 0) = Some t"
    by (rule exI [of _ ?k], rule exI [of _ ?sv], rule exI [of _ Failed], rule exI [of _ None], rule exI [of _ r],
        rule exI [of _ k'], rule exI [of _ sv']) (simp add: inv cs calculation(2))
  ultimately show ?thesis by (intro exI [of _ t]) (simp add: oneshot_fired_def)
qed

end
