(* ===== verification/Dispatcher.thy ===== *)
theory Dispatcher
  imports Delivery_Memory
begin

text \<open>
  The push dispatcher (\<open>push/dispatcher.rs\<close>) and the reclaim tick of \<open>A2aServer::run\<close>
  (\<open>server/mod.rs\<close>): from committed terminal events to one delivery per eligible config, and the
  recovery of markers and claims a fan-out left behind. What the dispatcher calls is the record
  \<open>dispatch_world\<close>. The per-config deliveries of an event are spawned and then all joined, so
  the spawned batch is one field, \<open>d_join\<close>: the deliveries run to their end in whatever
  interleaving the runtime chooses. \<open>d_parse_url\<close> is the \<open>url\<close> crate, \<open>d_payload\<close> the
  serialisation of the generated \<open>StreamResponse\<close>.
\<close>

section \<open>Targets\<close>

definition target_from_config ::
  "(string \<Rightarrow> url option) \<Rightarrow> string \<Rightarrow> string \<Rightarrow> string \<Rightarrow> nat \<Rightarrow> push_config \<Rightarrow> push_target option" where
  "target_from_config parse tenant owner task_id event_sequence cfg = (case parse (pc_url cfg) of
       None \<Rightarrow> None
     | Some u \<Rightarrow>
         (let (scheme, credentials) = (case pc_authentication cfg of
                Some a \<Rightarrow> (ai_scheme a, ai_credentials a) | None \<Rightarrow> ('''', ''''));
              token = (if pc_token cfg = [] then None else Some (pc_token cfg))
          in Some \<lparr>pt_tenant = tenant, pt_owner = owner, pt_task_id = task_id,
               pt_event_sequence = event_sequence, pt_config_id = pc_id cfg, pt_url = u,
               pt_auth_scheme = scheme, pt_auth_credentials = credentials, pt_token = token\<rparr>))"

definition dispatch_eligible :: "stream_event \<Rightarrow> bool" where
  "dispatch_eligible ev \<longleftrightarrow> is_status_update ev \<and> event_is_terminal ev"

section \<open>What the dispatcher calls\<close>

record 'w dispatch_world =
  d_sleep :: "nat \<Rightarrow> 'w \<Rightarrow> 'w"
  d_now :: "'w \<Rightarrow> instant \<times> 'w"
  d_list_eligible :: "string \<Rightarrow> string \<Rightarrow> nat \<Rightarrow> string option \<Rightarrow> int option \<Rightarrow> 'w \<Rightarrow>
    (storage_error + push_config_page) \<times> 'w"
  d_get_config :: "string \<Rightarrow> string \<Rightarrow> string \<Rightarrow> 'w \<Rightarrow> (storage_error + push_config option) \<times> 'w"
  d_get_task :: "string \<Rightarrow> string \<Rightarrow> string \<Rightarrow> int option \<Rightarrow> 'w \<Rightarrow> (storage_error + pb_task option) \<times> 'w"
  d_record_pending :: "string \<Rightarrow> string \<Rightarrow> string \<Rightarrow> nat \<Rightarrow> 'w \<Rightarrow> (storage_error + unit) \<times> 'w"
  d_delete_pending :: "string \<Rightarrow> string \<Rightarrow> nat \<Rightarrow> 'w \<Rightarrow> (storage_error + unit) \<times> 'w"
  d_stale_pending :: "instant \<Rightarrow> nat \<Rightarrow> 'w \<Rightarrow> (storage_error + pending_dispatch list) \<times> 'w"
  d_reclaimable :: "nat \<Rightarrow> 'w \<Rightarrow> (storage_error + reclaimable_claim list) \<times> 'w"
  d_join :: "push_target list \<Rightarrow> string \<Rightarrow> 'w \<Rightarrow> 'w"
  d_deliver :: "push_target \<Rightarrow> string \<Rightarrow> 'w \<Rightarrow> delivery_report \<times> 'w"
  d_abandon :: "push_target \<Rightarrow> abandoned_reason \<Rightarrow> 'w \<Rightarrow> delivery_report \<times> 'w"
  d_parse_url :: "string \<Rightarrow> url option"
  d_payload :: "pb_task \<Rightarrow> string + string"

section \<open>The fan-out\<close>

definition LIST_MAX_ATTEMPTS :: nat where "LIST_MAX_ATTEMPTS = 3"

definition list_backoffs :: "nat list" where
  "list_backoffs = [from_millis 50, from_millis 150, from_millis 500]"

text \<open>One page, read with at most \<open>LIST_MAX_ATTEMPTS\<close> attempts; \<open>left\<close> counts those left.\<close>

fun list_page_retry ::
  "'w dispatch_world \<Rightarrow> string \<Rightarrow> string \<Rightarrow> nat \<Rightarrow> string option \<Rightarrow> nat \<Rightarrow> nat \<Rightarrow> storage_error option \<Rightarrow>
   'w \<Rightarrow> (storage_error + push_config_page) \<times> 'w" where
  "list_page_retry D tenant task_id sq page_token 0 attempt last_err w =
     (Inl (case last_err of Some e \<Rightarrow> e | None \<Rightarrow> SE_DatabaseError
        ''list_configs_eligible_at_event exhausted retry budget without recording an error''), w)"
| "list_page_retry D tenant task_id sq page_token (Suc left) attempt last_err w =
     (let w = (if attempt > 0
          then d_sleep D (list_backoffs ! min attempt (length list_backoffs - 1)) w else w)
      in case d_list_eligible D tenant task_id sq page_token None w of
           (Inr p, w) \<Rightarrow> (Inr p, w)
         | (Inl e, w) \<Rightarrow>
             list_page_retry D tenant task_id sq page_token left (attempt + 1) (Some e) w)"

text \<open>The page loop, with fuel for the number of pages.\<close>

fun fetch_configs ::
  "nat \<Rightarrow> 'w dispatch_world \<Rightarrow> string \<Rightarrow> string \<Rightarrow> nat \<Rightarrow> string option \<Rightarrow> push_config list \<Rightarrow> 'w \<Rightarrow>
   ((storage_error + push_config list) \<times> 'w) option" where
  "fetch_configs 0 D tenant task_id sq page_token configs w = None"
| "fetch_configs (Suc fuel) D tenant task_id sq page_token configs w =
     (case list_page_retry D tenant task_id sq page_token LIST_MAX_ATTEMPTS 0 None w of
        (Inl e, w) \<Rightarrow> Some (Inl e, w)
      | (Inr p, w) \<Rightarrow>
          (let configs = configs @ pcp_configs p
           in if pcp_next_page_token p = [] then Some (Inr configs, w)
              else fetch_configs fuel D tenant task_id sq (Some (pcp_next_page_token p)) configs w))"

definition targets_of ::
  "(string \<Rightarrow> url option) \<Rightarrow> string \<Rightarrow> string \<Rightarrow> string \<Rightarrow> nat \<Rightarrow> push_config list \<Rightarrow> push_target list" where
  "targets_of parse tenant owner task_id sq configs =
     List.map_filter (target_from_config parse tenant owner task_id sq) configs"

fun fanout_loop ::
  "nat \<Rightarrow> 'w dispatch_world \<Rightarrow> string \<Rightarrow> string \<Rightarrow> string \<Rightarrow> string \<Rightarrow> nat list \<Rightarrow> storage_error option \<Rightarrow> 'w \<Rightarrow>
   ((storage_error + unit) \<times> 'w) option" where
  "fanout_loop fuel D tenant owner task_id payload [] first_err w =
     Some (case first_err of Some e \<Rightarrow> Inl e | None \<Rightarrow> Inr (), w)"
| "fanout_loop fuel D tenant owner task_id payload (sq # seqs) first_err w =
     (case fetch_configs fuel D tenant task_id sq None [] w of
        None \<Rightarrow> None
      | Some (Inl e, w) \<Rightarrow> fanout_loop fuel D tenant owner task_id payload seqs
          (case first_err of None \<Rightarrow> Some e | Some f \<Rightarrow> Some f) w
      | Some (Inr configs, w) \<Rightarrow>
          (let w = (if configs = [] then w
                 else d_join D (targets_of (d_parse_url D) tenant owner task_id sq configs) payload w);
               w = snd (d_delete_pending D tenant task_id sq w)
           in fanout_loop fuel D tenant owner task_id payload seqs first_err w))"

definition run_fanout ::
  "nat \<Rightarrow> 'w dispatch_world \<Rightarrow> string \<Rightarrow> string \<Rightarrow> string \<Rightarrow> pb_task \<Rightarrow> nat list \<Rightarrow> 'w \<Rightarrow>
   ((storage_error + unit) \<times> 'w) option" where
  "run_fanout fuel D tenant owner task_id t terminal_seqs w = (case d_payload D t of
       Inl e \<Rightarrow> Some (Inl (SE_SerializationError (''push payload serialise failed: '' @ e)), w)
     | Inr payload \<Rightarrow> fanout_loop fuel D tenant owner task_id payload terminal_seqs None w)"

text \<open>
  \<open>dispatch\<close> returns at once; the model gives the state when the spawned fan-out has ended.
\<close>

definition dispatch ::
  "nat \<Rightarrow> 'w dispatch_world \<Rightarrow> string \<Rightarrow> string \<Rightarrow> pb_task \<Rightarrow> (nat \<times> stream_event) list \<Rightarrow> 'w \<Rightarrow> 'w option" where
  "dispatch fuel D tenant owner t evs w =
     (let terminal_seqs = map fst (filter (\<lambda>(_, e). dispatch_eligible e) evs)
      in if terminal_seqs = [] then Some w
         else if tk_id t = [] then Some w
         else map_option snd (run_fanout fuel D tenant owner (tk_id t) t terminal_seqs w))"

section \<open>Recovery\<close>

definition redispatch_pending :: "nat \<Rightarrow> 'w dispatch_world \<Rightarrow> pending_dispatch \<Rightarrow> 'w \<Rightarrow> 'w option" where
  "redispatch_pending fuel D p w =
     (let tenant = pd_tenant p; owner = pd_owner p; task_id = pd_task_id p; sq = pd_event_sequence p
      in case d_get_task D tenant task_id owner None w of
           (Inr None, w) \<Rightarrow> Some (snd (d_delete_pending D tenant task_id sq w))
         | (Inl e, w) \<Rightarrow> Some w
         | (Inr (Some t), w) \<Rightarrow>
             (let w = snd (d_record_pending D tenant owner task_id sq w)
              in map_option snd (run_fanout fuel D tenant owner task_id t [sq] w)))"

definition try_redispatch_pending ::
  "nat \<Rightarrow> 'w dispatch_world \<Rightarrow> pending_dispatch \<Rightarrow> 'w \<Rightarrow> ((storage_error + unit) \<times> 'w) option" where
  "try_redispatch_pending fuel D p w =
     (let tenant = pd_tenant p; owner = pd_owner p; task_id = pd_task_id p; sq = pd_event_sequence p
      in case d_get_task D tenant task_id owner None w of
           (Inr None, w) \<Rightarrow> Some (d_delete_pending D tenant task_id sq w)
         | (Inl e, w) \<Rightarrow> Some (Inl e, w)
         | (Inr (Some t), w) \<Rightarrow>
             (let w = snd (d_record_pending D tenant owner task_id sq w)
              in run_fanout fuel D tenant owner task_id t [sq] w))"

definition abandoned_url :: url where
  "abandoned_url = \<lparr>url_scheme = ''https'', url_host = Some ''invalid.abandoned.push'', url_port = None\<rparr>"

definition redispatch_one :: "'w dispatch_world \<Rightarrow> reclaimable_claim \<Rightarrow> 'w \<Rightarrow> 'w" where
  "redispatch_one D c w =
     (let tenant = rec_tenant c; owner = rec_owner c; task_id = rec_task_id c;
          sq = rec_event_sequence c; config_id = rec_config_id c
      in case d_get_config D tenant task_id config_id w of (config_result, w) \<Rightarrow>
        (case d_get_task D tenant task_id owner None w of (task_result, w) \<Rightarrow>
          (case (config_result, task_result) of
             (Inl e, _) \<Rightarrow> w
           | (_, Inl e) \<Rightarrow> w
           | (Inr (Some cfg), Inr (Some t)) \<Rightarrow>
               (case target_from_config (d_parse_url D) tenant owner task_id sq cfg of
                  None \<Rightarrow> w
                | Some target \<Rightarrow> (case d_payload D t of
                    Inl e \<Rightarrow> w
                  | Inr payload \<Rightarrow> snd (d_deliver D target payload w)))
           | (Inr cfg, Inr t) \<Rightarrow>
               (let reason = (if t = None then TaskDeleted else ConfigDeleted);
                    u = (case Option.bind cfg (\<lambda>c. d_parse_url D (pc_url c)) of
                           Some u \<Rightarrow> u | None \<Rightarrow> abandoned_url)
                in snd (d_abandon D \<lparr>pt_tenant = tenant, pt_owner = owner, pt_task_id = task_id,
                     pt_event_sequence = sq, pt_config_id = config_id, pt_url = u,
                     pt_auth_scheme = '''', pt_auth_credentials = '''', pt_token = None\<rparr> reason w)))))"

text \<open>One tick of the reclaim loop: the stale markers, then the expired claims.\<close>

fun redispatch_all :: "nat \<Rightarrow> 'w dispatch_world \<Rightarrow> pending_dispatch list \<Rightarrow> 'w \<Rightarrow> 'w option" where
  "redispatch_all fuel D [] w = Some w"
| "redispatch_all fuel D (p # ps) w =
     Option.bind (redispatch_pending fuel D p w) (redispatch_all fuel D ps)"

definition reclaim_tick :: "nat \<Rightarrow> 'w dispatch_world \<Rightarrow> nat \<Rightarrow> nat \<Rightarrow> 'w \<Rightarrow> 'w option" where
  "reclaim_tick fuel D stale_threshold batch w =
     (case d_now D w of (now, w) \<Rightarrow>
     (case d_stale_pending D (now - stale_threshold) batch w of (stale, w) \<Rightarrow>
     (case (case stale of Inr rows \<Rightarrow> redispatch_all fuel D rows w | Inl e \<Rightarrow> Some w) of
        None \<Rightarrow> None
      | Some w \<Rightarrow> (case d_reclaimable D batch w of
            (Inr rows, w) \<Rightarrow> Some (foldl (\<lambda>w c. redispatch_one D c w) w rows)
          | (Inl e, w) \<Rightarrow> Some w))))"

section \<open>The dispatcher on the in-memory store\<close>

text \<open>
  The world of \<open>Delivery_Memory\<close>, with the target lookup that \<open>PushDispatcher::new\<close> installs.
  Deliveries of one batch run one after the other, each interrupted by the other workers of
  \<open>de_others\<close> whenever it sleeps. \<open>claims_up\<close> tells at which ticks claiming works: it is False
  during an outage of the delivery store.
\<close>

definition claims_fail :: "(nat \<Rightarrow> bool) \<Rightarrow> delivery_env world \<Rightarrow> delivery_env world" where
  "claims_fail claims_up W = W\<lparr>w_claim := (\<lambda>e. if claims_up (de_tick e) then w_claim W e
     else (Inl (SE_DatabaseError ''claim''), tick e))\<rparr>"

definition memory_deliver ::
  "nat \<Rightarrow> push_delivery_config \<Rightarrow> string \<Rightarrow> (url \<Rightarrow> string + unit) option \<Rightarrow> (nat \<Rightarrow> bool) \<Rightarrow>
   push_target \<Rightarrow> string \<Rightarrow> delivery_env \<Rightarrow> delivery_report \<times> delivery_env" where
  "memory_deliver fuel cfg instance_id validator claims_up t payload e =
     (case deliver fuel (claims_fail claims_up (memory_world cfg instance_id True t)) cfg validator t
        (length payload) e of Some r \<Rightarrow> r | None \<Rightarrow> (TransientStoreError, e))"

definition memory_join ::
  "nat \<Rightarrow> push_delivery_config \<Rightarrow> string \<Rightarrow> (url \<Rightarrow> string + unit) option \<Rightarrow> (nat \<Rightarrow> bool) \<Rightarrow>
   push_target list \<Rightarrow> string \<Rightarrow> delivery_env \<Rightarrow> delivery_env" where
  "memory_join fuel cfg instance_id validator claims_up ts payload e =
     foldl (\<lambda>e t. snd (memory_deliver fuel cfg instance_id validator claims_up t payload e)) e ts"

definition read_store :: "(store \<Rightarrow> storage_error + 'a) \<Rightarrow> delivery_env \<Rightarrow> (storage_error + 'a) \<times> delivery_env" where
  "read_store f e = (f (de_store e), tick e)"

definition memory_dispatch ::
  "nat \<Rightarrow> push_delivery_config \<Rightarrow> string \<Rightarrow> (url \<Rightarrow> string + unit) option \<Rightarrow> (nat \<Rightarrow> bool) \<Rightarrow>
   (nat \<Rightarrow> bool) \<Rightarrow> (string \<Rightarrow> url option) \<Rightarrow> (pb_task \<Rightarrow> string + string) \<Rightarrow> delivery_env dispatch_world" where
  "memory_dispatch fuel cfg instance_id validator claims_up configs_up parse payload = \<lparr>
     d_sleep = (\<lambda>d e. tick (e\<lparr>de_clock := de_clock e + d,
        de_store := foldl claim_step (de_store e) (de_others e (de_tick e))\<rparr>)),
     d_now = (\<lambda>e. (de_clock e, tick e)),
     d_list_eligible = (\<lambda>tenant task_id sq token ps e. if configs_up (de_tick e)
        then read_store (list_configs_eligible_at_event tenant task_id sq token ps) e
        else (Inl (SE_DatabaseError ''configs''), tick e)),
     d_get_config = (\<lambda>tenant task_id config_id. read_store (get_config tenant task_id config_id)),
     d_get_task = (\<lambda>tenant task_id owner n. read_store (get_task tenant task_id owner n)),
     d_record_pending = (\<lambda>tenant owner task_id sq e.
        on_store (record_pending_dispatch (de_clock e) tenant owner task_id sq) e),
     d_delete_pending = (\<lambda>tenant task_id sq. on_store (delete_pending_dispatch tenant task_id sq)),
     d_stale_pending = (\<lambda>older n. read_store (list_stale_pending_dispatches older n)),
     d_reclaimable = (\<lambda>n e. read_store (list_reclaimable_claims (de_clock e) n) e),
     d_join = memory_join fuel cfg instance_id validator claims_up,
     d_deliver = memory_deliver fuel cfg instance_id validator claims_up,
     d_abandon = (\<lambda>t reason. abandon_reclaimed (claims_fail claims_up (memory_world cfg instance_id True t)) reason),
     d_parse_url = parse,
     d_payload = payload\<rparr>"

end
