(* ===== verification/Dispatcher_Laws.thy ===== *)
theory Dispatcher_Laws
  imports Dispatcher Store_Ops Store_Example Delivery_Memory
begin

text \<open>
  What a fan-out does on the in-memory store. The locale \<open>kept_world\<close>: whatever every call of a
  delivery keeps, a whole delivery keeps; it is interpreted on \<open>claims_grow\<close>, which says that a
  delivery adds and updates claim rows and touches nothing else.
\<close>

locale kept_world =
  fixes W :: "'w world" and I :: "'w \<Rightarrow> bool"
  assumes now_keeps: "w_now W w = (t, w') \<Longrightarrow> I w \<Longrightarrow> I w'"
    and random_keeps: "w_random W d w = (x, w') \<Longrightarrow> I w \<Longrightarrow> I w'"
    and sleep_keeps: "I w \<Longrightarrow> I (w_sleep W b w)"
    and claim_keeps: "w_claim W w = (y, w') \<Longrightarrow> I w \<Longrightarrow> I w'"
    and lookup_keeps: "w_lookup W = Some chk \<Longrightarrow> chk w = (z, w') \<Longrightarrow> I w \<Longrightarrow> I w'"
    and resolve_keeps: "w_resolve W w = (ips, w') \<Longrightarrow> I w \<Longrightarrow> I w'"
    and start_keeps: "w_start W c g w = (n, w') \<Longrightarrow> I w \<Longrightarrow> I w'"
    and post_keeps: "w_post W ip w = (r, w') \<Longrightarrow> I w \<Longrightarrow> I w'"
    and outcome_keeps: "w_outcome W c g oc w = (u, w') \<Longrightarrow> I w \<Longrightarrow> I w'"
begin

lemma backoff_keeps: "backoff_for W cfg n w = (b, w') \<Longrightarrow> I w \<Longrightarrow> I w'"
  by (auto simp: backoff_for_def Let_def dest: random_keeps split: prod.splits if_splits)

lemma gave_up_keeps: "gave_up W cfg reason e h w = (oc, w') \<Longrightarrow> I w \<Longrightarrow> I w'"
  by (auto simp: gave_up_def dest: now_keeps split: prod.splits)

lemma retry_keeps: "retry_outcome W cfg n h e w = (oc, w') \<Longrightarrow> I w \<Longrightarrow> I w'"
  by (auto simp: retry_outcome_def dest!: now_keeps backoff_keeps split: prod.splits)

lemma classify_keeps: "classify W cfg n result w = (oc, w') \<Longrightarrow> I w \<Longrightarrow> I w'"
  by (auto simp: classify_def dest: gave_up_keeps retry_keeps split: sum.splits if_splits)

lemma worker_claim_keeps: "worker_claim W w = (x, w') \<Longrightarrow> I w \<Longrightarrow> I w'"
  by (auto simp: worker_claim_def dest: claim_keeps split: sum.splits prod.splits)

lemma lookup_gone_keeps: "lookup_gone W w = (x, w') \<Longrightarrow> I w \<Longrightarrow> I w'"
  by (auto simp: lookup_gone_def dest: lookup_keeps split: option.splits)

lemma ssrf_keeps: "ssrf_check W cfg v u w = (d, w') \<Longrightarrow> I w \<Longrightarrow> I w'"
  by (auto simp: ssrf_check_def dest: resolve_keeps split: sum.splits prod.splits)

lemma persist_loop_keeps: "persist_loop W c oc rep n i w = (rep', w') \<Longrightarrow> I w \<Longrightarrow> I w'"
proof (induction n arbitrary: i w)
  case (Suc n)
  obtain x w1 where o: "w_outcome W (dc_claimant c) (dc_generation c) oc
      (if i > 0 then w_sleep W (persist_backoffs ! min i (length persist_backoffs - 1)) w else w) = (x, w1)"
    by fastforce
  then have "I w1" using outcome_keeps Suc.prems(2) sleep_keeps by (metis (full_types))
  with Suc o show ?case by (auto simp: Let_def split: sum.splits if_splits)
qed simp

lemma persist_keeps: "persist_terminal W c oc w = (rep, w') \<Longrightarrow> I w \<Longrightarrow> I w'"
  by (auto simp: persist_terminal_def dest: persist_loop_keeps split: option.splits)

lemma after_post_keeps: "after_post W cfg c n result w = (res, w') \<Longrightarrow> I w \<Longrightarrow> I w'"
  by (auto simp: after_post_def split: prod.splits delivery_outcome.splits if_splits
      dest!: classify_keeps retry_keeps outcome_keeps gave_up_keeps persist_keeps backoff_keeps
      intro: sleep_keeps)

lemma step_keeps: "deliver_step W cfg v u c n w = (res, w') \<Longrightarrow> I w \<Longrightarrow> I w'"
  by (auto simp: deliver_step_def split: prod.splits option.splits ssrf_decision.splits sum.splits if_splits
      dest!: gave_up_keeps persist_keeps lookup_gone_keeps ssrf_keeps start_keeps post_keeps after_post_keeps)

lemma loop_keeps: "deliver_loop fuel W cfg v u c n w = Some (rep, w') \<Longrightarrow> I w \<Longrightarrow> I w'"
proof (induction fuel arbitrary: n w)
  case (Suc fuel)
  then show ?case by (auto split: prod.splits loop_step.splits dest: step_keeps)
qed simp

theorem after_claim_keeps:
  assumes "deliver fuel W cfg v target len w = Some (rep, w')"
    and "worker_claim W w = (x, w1)" and "I w1"
  shows "I w'"
  using assms by (auto simp: deliver_def split: sum.splits claim_failure.splits prod.splits if_splits
      dest: gave_up_keeps persist_keeps loop_keeps)

theorem deliver_keeps:
  assumes "deliver fuel W cfg v target len w = Some (rep, w')" and "I w"
  shows "I w'"
proof -
  obtain x w1 where c: "worker_claim W w = (x, w1)" by fastforce
  from after_claim_keeps [OF assms(1) c worker_claim_keeps [OF c assms(2)]] show ?thesis .
qed

theorem abandon_keeps: "abandon_reclaimed W reason w = (rep, w') \<Longrightarrow> I w \<Longrightarrow> I w'"
  by (auto simp: abandon_reclaimed_def dest: worker_claim_keeps persist_keeps
      split: prod.splits sum.splits claim_failure.splits)

end

section \<open>Claim rows only grow\<close>

definition same_rows :: "store \<Rightarrow> store \<Rightarrow> bool" where
  "same_rows s s' \<longleftrightarrow> tasks s' = tasks s \<and> push_configs s' = push_configs s \<and>
     pending_dispatches s' = pending_dispatches s"

definition store_grows :: "store \<Rightarrow> store \<Rightarrow> bool" where
  "store_grows s s' \<longleftrightarrow> same_rows s s' \<and> (\<forall>k. claim_of s k \<noteq> None \<longrightarrow> claim_of s' k \<noteq> None)"

definition claims_grow :: "delivery_env \<Rightarrow> delivery_env \<Rightarrow> bool" where
  "claims_grow e e' \<longleftrightarrow> store_grows (de_store e) (de_store e')"

lemma store_grows_refl [simp]: "store_grows s s"
  by (simp add: store_grows_def same_rows_def)

lemma store_grows_trans: "store_grows s s1 \<Longrightarrow> store_grows s1 s2 \<Longrightarrow> store_grows s s2"
  by (simp add: store_grows_def same_rows_def)

lemma store_grows_put: "store_grows s (put_claim key row s)"
  by (simp add: store_grows_def same_rows_def put_claim_frame)

lemma claim_delivery_grows: "claim_delivery now k w ow x s = (res, s') \<Longrightarrow> store_grows s s'"
  by (erule claim_delivery_cases) (simp_all add: store_grows_put)

lemma record_attempt_grows: "record_attempt_started now k w g s = (res, s') \<Longrightarrow> store_grows s s'"
  by (erule record_attempt_cases) (simp_all add: store_grows_put)

lemma record_outcome_grows: "record_delivery_outcome now k w g oc s = (res, s') \<Longrightarrow> store_grows s s'"
  by (erule record_outcome_cases) (simp_all add: store_grows_put)

lemma claim_step_grows: "store_grows s (claim_step s c)"
  using claim_delivery_grows [OF prod.collapse [symmetric]] record_attempt_grows [OF prod.collapse [symmetric]]
    record_outcome_grows [OF prod.collapse [symmetric]]
  by (cases c) (simp_all del: prod.collapse)

lemma claim_steps_grow: "store_grows s (foldl claim_step s cs)"
proof (induction cs arbitrary: s)
  case (Cons c cs)
  show ?case using store_grows_trans [OF claim_step_grows Cons.IH] by simp
qed simp

lemma claims_grow_refl [simp]: "claims_grow e e"
  by (simp add: claims_grow_def)

lemma claims_grow_trans: "claims_grow e e1 \<Longrightarrow> claims_grow e1 e2 \<Longrightarrow> claims_grow e e2"
  unfolding claims_grow_def by (rule store_grows_trans)

lemma tick_store [simp]: "de_store (tick e) = de_store e" "de_clock (tick e) = de_clock e"
  by (simp_all add: tick_def)

lemma on_store_grows:
  "on_store f e = (x, e') \<Longrightarrow> (\<And>y s'. f (de_store e) = (y, s') \<Longrightarrow> store_grows (de_store e) s') \<Longrightarrow>
   claims_grow e e'"
  by (auto simp: on_store_def claims_grow_def split: prod.splits)

lemma claims_fail_fields [simp]:
  "w_now (claims_fail up W) = w_now W" "w_random (claims_fail up W) = w_random W"
  "w_sleep (claims_fail up W) = w_sleep W" "w_lookup (claims_fail up W) = w_lookup W"
  "w_resolve (claims_fail up W) = w_resolve W" "w_start (claims_fail up W) = w_start W"
  "w_post (claims_fail up W) = w_post W" "w_outcome (claims_fail up W) = w_outcome W"
  by (simp_all add: claims_fail_def)

interpretation grow: kept_world "claims_fail up (memory_world cfg iid lk t)" "claims_grow e0"
  for up :: "nat \<Rightarrow> bool" and cfg :: push_delivery_config and iid :: string and lk :: bool
    and t :: push_target and e0 :: delivery_env
proof
  fix e e' :: delivery_env
  let ?W = "claims_fail up (memory_world cfg iid lk t)"
  assume g: "claims_grow e0 e"
  have step: "claims_grow e0 e'" if "claims_grow e e'" for e' using claims_grow_trans [OF g that] .
  have same: "claims_grow e0 e'" if "de_store e' = de_store e" for e' using g that by (simp add: claims_grow_def)
  show "w_now ?W e = (n, e') \<Longrightarrow> claims_grow e0 e'" for n
    by (rule same) (auto simp: memory_world_def)
  show "w_random ?W d e = (x, e') \<Longrightarrow> claims_grow e0 e'" for d x
    by (rule same) (auto simp: memory_world_def)
  show "claims_grow e0 (w_sleep ?W b e)" for b
    by (rule step) (simp add: memory_world_def claims_grow_def claim_steps_grow)
  show "w_claim ?W e = (y, e') \<Longrightarrow> claims_grow e0 e'" for y
    by (rule step) (auto simp: memory_world_def claims_fail_def claims_grow_def
        dest: on_store_grows [OF _ claim_delivery_grows, unfolded claims_grow_def] split: if_splits)
  show "w_lookup ?W = Some chk \<Longrightarrow> chk e = (z, e') \<Longrightarrow> claims_grow e0 e'" for chk z
    by (rule same) (auto simp: memory_world_def memory_lookup_def split: if_splits prod.splits)
  show "w_resolve ?W e = (ips, e') \<Longrightarrow> claims_grow e0 e'" for ips
    by (rule same) (auto simp: memory_world_def)
  show "w_start ?W c g e = (n, e') \<Longrightarrow> claims_grow e0 e'" for c g n
    by (rule step) (auto simp: memory_world_def intro: on_store_grows record_attempt_grows)
  show "w_post ?W ip e = (r, e') \<Longrightarrow> claims_grow e0 e'" for ip r
    by (rule same) (auto simp: memory_world_def)
  show "w_outcome ?W c g oc e = (u, e') \<Longrightarrow> claims_grow e0 e'" for c g oc u
    by (rule step) (auto simp: memory_world_def intro: on_store_grows record_outcome_grows)
qed

section \<open>One delivery leaves a row\<close>

lemma memory_deliver_grows:
  "memory_deliver fuel cfg iid v up t p e = (rep, e') \<Longrightarrow> claims_grow e e'"
  using grow.deliver_keeps [of fuel up cfg iid True t cfg v t "length p" e _ _ e]
  by (auto simp: memory_deliver_def split: option.splits)

text \<open>A claim attempt of a working store leaves a row, whether it was won or was already held.\<close>

lemma claim_leaves_row:
  assumes "worker_claim (claims_fail (\<lambda>_. True) (memory_world cfg iid lk t)) e = (x, e')"
  shows "claim_of (de_store e') (target_key t) \<noteq> None"
proof -
  obtain res s' where c: "claim_delivery (de_clock e) (target_key t) iid (pt_owner t) (claim_expiry cfg)
      (de_store e) = (res, s')" by fastforce
  then have "claim_of s' (target_key t) \<noteq> None" by (rule claim_delivery_cases) simp_all
  with assms c show ?thesis
    by (auto simp: worker_claim_def claims_fail_def memory_world_def on_store_def split: sum.splits)
qed

lemma claim_stays: "claims_grow e e' \<Longrightarrow> claim_of (de_store e) k \<noteq> None \<Longrightarrow> claim_of (de_store e') k \<noteq> None"
  unfolding claims_grow_def store_grows_def by blast

text \<open>The world during an outage counts attempts too, so the deliveries of a batch return.\<close>

lemma claims_fail_counting:
  "counting_world (claims_fail up (memory_world cfg iid lk t)) (env_count t)"
proof
  fix e e' :: delivery_env
  let ?W = "claims_fail up (memory_world cfg iid lk t)"
  show "w_claim ?W e = (Inr cl, e') \<Longrightarrow> dc_delivery_attempt_count cl \<le> env_count t e'" for cl
    using memory.claim_counts [of cfg iid lk t e cl e'] by (auto simp: claims_fail_def split: if_splits)
  show "w_start ?W c g e = (Inr n, e') \<Longrightarrow> n \<le> env_count t e' \<and> (env_count t e < n \<or> 2 ^ 32 - 1 \<le> n)" for c g n
    unfolding claims_fail_fields by (rule memory.start_counts)
qed (simp_all add: memory.now_mono memory.random_mono memory.sleep_mono memory.lookup_mono
      memory.resolve_mono memory.post_mono memory.outcome_mono)

lemma memory_deliver_row:
  assumes "max_attempts cfg < 2 ^ 32" and "max_attempts cfg < fuel"
    and "memory_deliver fuel cfg iid v (\<lambda>_. True) t p e = (rep, e')"
  shows "claim_of (de_store e') (target_key t) \<noteq> None"
proof -
  let ?W = "claims_fail (\<lambda>_. True) (memory_world cfg iid True t)"
  obtain rep1 e1 where d: "deliver fuel ?W cfg v t (length p) e = Some (rep1, e1)"
    using counting_world.deliver_returns [OF claims_fail_counting assms(1,2)] by blast
  obtain x e2 where c: "worker_claim ?W e = (x, e2)" by fastforce
  from grow.after_claim_keeps [OF d c claims_grow_refl] have "claims_grow e2 e1" .
  from claim_stays [OF this claim_leaves_row [OF c]] d assms(3) show ?thesis
    by (simp add: memory_deliver_def)
qed

lemma memory_join_grows: "claims_grow e (memory_join fuel cfg iid v up ts p e)"
proof (induction ts arbitrary: e)
  case (Cons t ts)
  have "claims_grow e (snd (memory_deliver fuel cfg iid v up t p e))"
    by (rule memory_deliver_grows [OF prod.collapse [symmetric]])
  from claims_grow_trans [OF this Cons.IH] show ?case by (simp add: memory_join_def)
qed (simp add: memory_join_def)

lemma memory_join_rows:
  assumes "max_attempts cfg < 2 ^ 32" and "max_attempts cfg < fuel" and "t \<in> set ts"
  shows "claim_of (de_store (memory_join fuel cfg iid v (\<lambda>_. True) ts p e)) (target_key t) \<noteq> None"
  using assms(3)
proof (induction ts arbitrary: e)
  case (Cons u ts)
  let ?e = "snd (memory_deliver fuel cfg iid v (\<lambda>_. True) u p e)"
  have j: "memory_join fuel cfg iid v (\<lambda>_. True) (u # ts) p e = memory_join fuel cfg iid v (\<lambda>_. True) ts p ?e"
    by (simp add: memory_join_def)
  show ?case
  proof (cases "t = u")
    case True
    then have "claim_of (de_store ?e) (target_key t) \<noteq> None"
      using memory_deliver_row [OF assms(1,2) prod.collapse [symmetric]] by simp
    from claim_stays [OF memory_join_grows this, of fuel cfg iid v "\<lambda>_. True" ts p] show ?thesis unfolding j .
  next
    case False
    with Cons show ?thesis by (simp only: j) simp
  qed
qed simp

section \<open>The listing\<close>

lemma list_eligible_memory:
  "d_list_eligible (memory_dispatch fuel cfg iid v up cup parse pay) tn i sq tok ps e =
     (if cup (de_tick e) then list_configs_eligible_at_event tn i sq tok ps (de_store e)
      else Inl (SE_DatabaseError ''configs''), tick e)"
  by (simp add: memory_dispatch_def read_store_def)

lemma list_page_memory:
  assumes "list_page_retry (memory_dispatch fuel cfg iid v up cup parse pay) tn i sq tok left a le e = (r, e')"
  shows "claims_grow e e' \<and>
    (\<forall>p. r = Inr p \<longrightarrow> list_configs_eligible_at_event tn i sq tok None (de_store e) = Inr p) \<and>
    (left > 0 \<longrightarrow> cup = (\<lambda>_. True) \<longrightarrow> \<not> isl r)"
  using assms
proof (induction left arbitrary: a le e)
  case (Suc left)
  let ?D = "memory_dispatch fuel cfg iid v up cup parse pay"
  let ?e1 = "if a > 0 then d_sleep ?D (list_backoffs ! min a (length list_backoffs - 1)) e else e"
  have g1: "claims_grow e ?e1" by (simp add: memory_dispatch_def claims_grow_def claim_steps_grow)
  then have cfgs: "push_configs (de_store ?e1) = push_configs (de_store e)"
    by (simp add: claims_grow_def store_grows_def same_rows_def)
  then have same: "list_configs_eligible_at_event tn i sq tok None (de_store ?e1) =
      list_configs_eligible_at_event tn i sq tok None (de_store e)"
    by (simp add: list_configs_eligible_at_event_def task_configs_def)
  have g2: "claims_grow e (tick ?e1)" using g1 by (simp add: claims_grow_def)
  show ?case
  proof (cases "cup (de_tick ?e1)")
    case True
    then have "r = list_configs_eligible_at_event tn i sq tok None (de_store e)" "e' = tick ?e1"
      using Suc.prems same
      by (simp_all add: Let_def list_eligible_memory list_configs_eligible_at_event_def)
    with g2 show ?thesis by (simp add: list_configs_eligible_at_event_def)
  next
    case False
    then have "list_page_retry ?D tn i sq tok left (a + 1) (Some (SE_DatabaseError ''configs'')) (tick ?e1) =
        (r, e')"
      using Suc.prems by (simp add: Let_def list_eligible_memory)
    from Suc.IH [OF this] same claims_grow_trans [OF g2] False show ?thesis
      by auto
  qed
qed auto

text \<open>
  The page loop reads what \<open>walk_pages\<close> reads, or stops at a failed page; with the config store
  up it never stops.
\<close>

lemma eligible_page:
  "list_configs_eligible_at_event tn i sq tok ps s = Inr p \<Longrightarrow>
   config_fetch (\<lambda>floor. floor < sq) tn i ps s tok =
     (pcp_configs p, if pcp_next_page_token p = [] then None else Some (pcp_next_page_token p))"
  by (auto simp: list_configs_eligible_at_event_def config_fetch_def Let_def)

lemma config_fetch_frame:
  "push_configs s' = push_configs s \<Longrightarrow> config_fetch P tn i ps s' = config_fetch P tn i ps s"
  by (simp add: fun_eq_iff config_fetch_def task_configs_def)

lemma fetch_configs_memory:
  assumes "walk_pages pages (config_fetch (\<lambda>floor. floor < sq) tn i None (de_store e)) tok = Some xs"
  shows "\<exists>r e'. fetch_configs pages (memory_dispatch fuel cfg iid v up cup parse pay) tn i sq tok acc e =
      Some (r, e') \<and> claims_grow e e' \<and> (\<forall>ys. r = Inr ys \<longrightarrow> ys = acc @ xs) \<and>
      (cup = (\<lambda>_. True) \<longrightarrow> \<not> isl r)"
  using assms
proof (induction pages arbitrary: tok acc e xs)
  case (Suc pages)
  let ?D = "memory_dispatch fuel cfg iid v up cup parse pay"
  obtain r e1 where p: "list_page_retry ?D tn i sq tok LIST_MAX_ATTEMPTS 0 None e = (r, e1)" by fastforce
  note l = list_page_memory [OF p]
  then have g: "claims_grow e e1" by blast
  then have frame: "config_fetch (\<lambda>floor. floor < sq) tn i None (de_store e1) =
      config_fetch (\<lambda>floor. floor < sq) tn i None (de_store e)"
    by (intro config_fetch_frame) (simp add: claims_grow_def store_grows_def same_rows_def)
  show ?case
  proof (cases r)
    case (Inl x)
    with p g l show ?thesis by (simp add: LIST_MAX_ATTEMPTS_def)
  next
    case (Inr pg)
    with l have pg: "list_configs_eligible_at_event tn i sq tok None (de_store e) = Inr pg" by blast
    show ?thesis
    proof (cases "pcp_next_page_token pg = []")
      case True
      with Suc.prems eligible_page [OF pg] have "xs = pcp_configs pg" by simp
      with p g Inr True show ?thesis by simp
    next
      case False
      with Suc.prems eligible_page [OF pg] obtain ys where ys: "xs = pcp_configs pg @ ys"
          "walk_pages pages (config_fetch (\<lambda>floor. floor < sq) tn i None (de_store e1))
             (Some (pcp_next_page_token pg)) = Some ys"
        unfolding frame by auto
      from Suc.IH [OF ys(2), of "acc @ pcp_configs pg"] obtain r' e' where
        "fetch_configs pages ?D tn i sq (Some (pcp_next_page_token pg)) (acc @ pcp_configs pg) e1 = Some (r', e')"
        "claims_grow e1 e'" "\<forall>zs. r' = Inr zs \<longrightarrow> zs = (acc @ pcp_configs pg) @ ys"
        "cup = (\<lambda>_. True) \<longrightarrow> \<not> isl r'" by blast
      with p Inr False ys(1) claims_grow_trans [OF g] show ?thesis by simp
    qed
  qed
qed simp

lemma fetch_all:
  assumes "configs_keyed (de_store e)"
    and "length (task_configs (\<lambda>floor. floor < sq) tn i (de_store e)) < pages"
  obtains r e' where "fetch_configs pages (memory_dispatch fuel cfg iid v up cup parse pay) tn i sq None [] e =
      Some (r, e')" "claims_grow e e'"
    "\<And>ys. r = Inr ys \<Longrightarrow> ys = task_configs (\<lambda>floor. floor < sq) tn i (de_store e)"
    "cup = (\<lambda>_. True) \<Longrightarrow> \<not> isl r"
proof -
  from fetch_configs_memory [OF config_paging.walk_complete [OF assms], of fuel cfg iid v up cup parse pay "[]"]
    that show thesis by auto
qed

section \<open>The fan-out\<close>

definition marker :: "delivery_env \<Rightarrow> pending_dispatch_key \<Rightarrow> stored_pending_dispatch option" where
  "marker e k = hm_get (pending_dispatches (de_store e)) k"

definition eligible :: "string \<Rightarrow> string \<Rightarrow> nat \<Rightarrow> delivery_env \<Rightarrow> push_config list" where
  "eligible tenant task_id sq e = task_configs (\<lambda>floor. floor < sq) tenant task_id (de_store e)"

text \<open>What a fan-out may do to the store: add claim rows and drop its own markers.\<close>

definition fanned :: "delivery_env \<Rightarrow> delivery_env \<Rightarrow> bool" where
  "fanned e e' \<longleftrightarrow> push_configs (de_store e') = push_configs (de_store e) \<and>
     tasks (de_store e') = tasks (de_store e) \<and>
     (\<forall>k. claim_of (de_store e) k \<noteq> None \<longrightarrow> claim_of (de_store e') k \<noteq> None)"

lemma fanned_refl [simp]: "fanned e e"
  by (simp add: fanned_def)

lemma fanned_trans: "fanned e e1 \<Longrightarrow> fanned e1 e2 \<Longrightarrow> fanned e e2"
  unfolding fanned_def by simp

lemma claims_grow_fanned: "claims_grow e e' \<Longrightarrow> fanned e e' \<and> (\<forall>k. marker e' k = marker e k)"
  by (simp add: claims_grow_def store_grows_def same_rows_def fanned_def marker_def)

lemma fanned_eligible: "fanned e e' \<Longrightarrow> eligible tn i sq e' = eligible tn i sq e"
  by (simp add: fanned_def eligible_def task_configs_def)

lemma fanned_keyed: "fanned e e' \<Longrightarrow> configs_keyed (de_store e') = configs_keyed (de_store e)"
  by (simp add: fanned_def configs_keyed_def)

lemma delete_pending_memory:
  "snd (d_delete_pending (memory_dispatch fuel cfg iid v up cup parse pay) tn i sq e) =
     tick (e\<lparr>de_store := de_store e\<lparr>pending_dispatches :=
        hm_remove (tn, i, sq) (pending_dispatches (de_store e))\<rparr>\<rparr>)"
  by (simp add: memory_dispatch_def on_store_def delete_pending_dispatch_def)

lemma delete_pending_fanned:
  "fanned e (snd (d_delete_pending (memory_dispatch fuel cfg iid v up cup parse pay) tn i sq e))"
  "marker (snd (d_delete_pending (memory_dispatch fuel cfg iid v up cup parse pay) tn i sq e)) k =
     (if k = (tn, i, sq) then None else marker e k)"
  by (auto simp: delete_pending_memory fanned_def marker_def claim_of_def hm_simps)

definition handled_event ::
  "(string \<Rightarrow> url option) \<Rightarrow> string \<Rightarrow> string \<Rightarrow> nat \<Rightarrow> delivery_env \<Rightarrow> delivery_env \<Rightarrow> bool" where
  "handled_event parse tenant task_id sq e e' \<longleftrightarrow> marker e' (tenant, task_id, sq) = None \<and>
     (\<forall>c \<in> set (eligible tenant task_id sq e). parse (pc_url c) \<noteq> None \<longrightarrow>
        claim_of (de_store e') (tenant, task_id, sq, pc_id c) \<noteq> None)"

lemma target_key_of_config:
  "target_from_config parse tn ow i sq c = Some t \<Longrightarrow> target_key t = (tn, i, sq, pc_id c)"
  by (auto simp: target_from_config_def target_key_def Let_def split: option.splits)

lemma target_of_config:
  "parse (pc_url c) \<noteq> None \<Longrightarrow> \<exists>t. target_from_config parse tn ow i sq c = Some t"
  by (auto simp: target_from_config_def Let_def split: option.splits)

lemma targets_of_iff:
  "t \<in> set (targets_of parse tn ow i sq cs) \<longleftrightarrow>
     (\<exists>c \<in> set cs. target_from_config parse tn ow i sq c = Some t)"
  by (simp add: targets_of_def List.map_filter_def) force

lemma handled_later:
  assumes "handled_event parse tn i sq e e1" and "fanned e1 e'"
    and "marker e' (tn, i, sq) = marker e1 (tn, i, sq) \<or> marker e' (tn, i, sq) = None"
  shows "handled_event parse tn i sq e e'"
  using assms by (auto simp: handled_event_def fanned_def)

lemma handled_earlier:
  "fanned e e1 \<Longrightarrow> handled_event parse tn i sq e1 e' = handled_event parse tn i sq e e'"
  by (simp add: handled_event_def fanned_eligible)

text \<open>One event: its configs are read, their deliveries joined, its marker dropped.\<close>

lemma join_handles:
  assumes "max_attempts cfg < 2 ^ 32" and "max_attempts cfg < fuel"
    and D: "D = memory_dispatch fuel cfg iid v (\<lambda>_. True) cup parse pay"
    and "claims_grow e e1"
    and e2: "e2 = (if eligible tn i sq e = [] then e1
        else d_join D (targets_of (d_parse_url D) tn ow i sq (eligible tn i sq e)) p e1)"
    and e3: "e3 = snd (d_delete_pending D tn i sq e2)"
  shows "fanned e e3" and "handled_event parse tn i sq e e3"
    and "marker e3 k = (if k = (tn, i, sq) then None else marker e k)"
proof -
  let ?ts = "targets_of parse tn ow i sq (eligible tn i sq e)"
  have j: "e2 = (if eligible tn i sq e = [] then e1 else memory_join fuel cfg iid v (\<lambda>_. True) ?ts p e1)"
    by (simp add: e2 D memory_dispatch_def)
  have g2: "claims_grow e e2"
    using assms(4) claims_grow_trans [OF assms(4) memory_join_grows] by (simp add: j)
  note f2 = claims_grow_fanned [OF g2]
  show "fanned e e3" unfolding e3 D
    using fanned_trans [OF conjunct1 [OF f2]] delete_pending_fanned(1) by blast
  show m: "marker e3 k = (if k = (tn, i, sq) then None else marker e k)" for k
    unfolding e3 D delete_pending_fanned(2) using conjunct2 [OF f2] by (simp del: split_paired_All)
  have "claim_of (de_store e3) (tn, i, sq, pc_id c) \<noteq> None"
    if c: "c \<in> set (eligible tn i sq e)" "parse (pc_url c) \<noteq> None" for c
  proof -
    obtain t where t: "target_from_config parse tn ow i sq c = Some t"
      using target_of_config [where parse = parse and c = c] c(2) by blast
    then have "t \<in> set ?ts" using c(1) by (auto simp: targets_of_iff)
    from memory_join_rows [OF assms(1,2) this] c(1) target_key_of_config [OF t]
    have "claim_of (de_store e2) (tn, i, sq, pc_id c) \<noteq> None" by (auto simp: j)
    moreover have "fanned e2 e3" unfolding e3 D by (rule delete_pending_fanned(1))
    ultimately show ?thesis unfolding fanned_def by blast
  qed
  with m [of "(tn, i, sq)"] show "handled_event parse tn i sq e e3"
    by (simp add: handled_event_def)
qed

theorem fanout_loop_memory:
  assumes "max_attempts cfg < 2 ^ 32" and "max_attempts cfg < fuel"
    and "D = memory_dispatch fuel cfg iid v (\<lambda>_. True) cup parse pay"
    and "configs_keyed (de_store e)" and "\<forall>sq \<in> set seqs. length (eligible tn i sq e) < pages"
  shows "\<exists>r e'. fanout_loop pages D tn ow i p seqs fe e = Some (r, e') \<and> fanned e e' \<and>
    (\<forall>k. k \<notin> (\<lambda>sq. (tn, i, sq)) ` set seqs \<longrightarrow> marker e' k = marker e k) \<and>
    (\<forall>sq \<in> set seqs. handled_event parse tn i sq e e' \<or>
       isl r \<and> marker e' (tn, i, sq) = marker e (tn, i, sq)) \<and>
    (fe \<noteq> None \<longrightarrow> isl r) \<and> (cup = (\<lambda>_. True) \<longrightarrow> fe = None \<longrightarrow> r = Inr ())"
  using assms(4,5)
proof (induction seqs arbitrary: fe e)
  case Nil
  then show ?case by (auto split: option.splits)
next
  case (Cons sq seqs)
  have "length (task_configs (\<lambda>floor. floor < sq) tn i (de_store e)) < pages"
    using Cons.prems(2) by (simp add: eligible_def)
  from fetch_all [OF Cons.prems(1) this, of fuel cfg iid v "\<lambda>_. True" cup parse pay]
  obtain r1 e1 where f: "fetch_configs pages D tn i sq None [] e = Some (r1, e1)" "claims_grow e e1"
    "\<And>ys. r1 = Inr ys \<Longrightarrow> ys = eligible tn i sq e" "cup = (\<lambda>_. True) \<Longrightarrow> \<not> isl r1"
    unfolding assms(3) eligible_def by blast
  have IH: "\<exists>r e'. fanout_loop pages D tn ow i p seqs fe' e1 = Some (r, e') \<and> fanned e1 e' \<and>
    (\<forall>k. k \<notin> (\<lambda>sq. (tn, i, sq)) ` set seqs \<longrightarrow> marker e' k = marker e1 k) \<and>
    (\<forall>sq \<in> set seqs. handled_event parse tn i sq e e' \<or>
       isl r \<and> marker e' (tn, i, sq) = marker e1 (tn, i, sq)) \<and>
    (fe' \<noteq> None \<longrightarrow> isl r) \<and> (cup = (\<lambda>_. True) \<longrightarrow> fe' = None \<longrightarrow> r = Inr ())"
    if "fanned e e1" for fe' e1
    using Cons.IH [of e1 fe'] Cons.prems that by (simp add: fanned_keyed fanned_eligible handled_earlier)
  show ?case
  proof (cases r1)
    case (Inl x)
    note g = claims_grow_fanned [OF f(2)]
    let ?fe = "case fe of None \<Rightarrow> Some x | Some f \<Rightarrow> Some f"
    from IH [OF conjunct1 [OF g], of ?fe] obtain r e' where
      l: "fanout_loop pages D tn ow i p seqs ?fe e1 = Some (r, e')" "fanned e1 e'"
        "\<forall>k. k \<notin> (\<lambda>sq. (tn, i, sq)) ` set seqs \<longrightarrow> marker e' k = marker e k"
        "\<forall>sq \<in> set seqs. handled_event parse tn i sq e e' \<or>
           isl r \<and> marker e' (tn, i, sq) = marker e (tn, i, sq)"
        "?fe \<noteq> None \<longrightarrow> isl r"
      using g by auto
    have "isl r" using l(5) by (simp split: option.splits)
    moreover have "fanned e e'" using fanned_trans g l(2) by blast
    moreover have "fanout_loop pages D tn ow i p (sq # seqs) fe e = Some (r, e')"
      using f(1) l(1) Inl by simp
    moreover have "cup \<noteq> (\<lambda>_. True)" using f(4) Inl by auto
    moreover have "handled_event parse tn i sq e e' \<or> marker e' (tn, i, sq) = marker e (tn, i, sq)"
      using l(3) [rule_format, of "(tn, i, sq)"] l(4) by (cases "sq \<in> set seqs") auto
    ultimately show ?thesis using l(3,4) by (auto simp del: split_paired_All)
  next
    case (Inr configs)
    with f(3) have configs: "configs = eligible tn i sq e" by simp
    define e2 where "e2 = (if eligible tn i sq e = [] then e1
        else d_join D (targets_of (d_parse_url D) tn ow i sq (eligible tn i sq e)) p e1)"
    define e3 where "e3 = snd (d_delete_pending D tn i sq e2)"
    note j = join_handles [OF assms(1-3) f(2) e2_def e3_def]
    from IH [OF j(1), of fe] obtain r e' where
      l: "fanout_loop pages D tn ow i p seqs fe e3 = Some (r, e')" "fanned e3 e'"
        "\<forall>k. k \<notin> (\<lambda>sq. (tn, i, sq)) ` set seqs \<longrightarrow> marker e' k = marker e3 k"
        "\<forall>sq \<in> set seqs. handled_event parse tn i sq e e' \<or>
           isl r \<and> marker e' (tn, i, sq) = marker e3 (tn, i, sq)"
        "fe \<noteq> None \<longrightarrow> isl r" "cup = (\<lambda>_. True) \<longrightarrow> fe = None \<longrightarrow> r = Inr ()"
      by blast
    have "fanout_loop pages D tn ow i p (sq # seqs) fe e = Some (r, e')"
      using f(1) l(1) by (simp add: Inr configs e2_def e3_def Let_def)
    moreover have "fanned e e'" using fanned_trans [OF j(1) l(2)] .
    moreover have "marker e' (tn, i, sq) = marker e3 (tn, i, sq) \<or> marker e' (tn, i, sq) = None"
      using l(3) [rule_format, of "(tn, i, sq)"] l(4)
      by (cases "sq \<in> set seqs") (auto simp: handled_event_def)
    with handled_later [OF j(2) l(2)] have "handled_event parse tn i sq e e'" .
    moreover have "\<forall>k. k \<notin> (\<lambda>sq. (tn, i, sq)) ` set (sq # seqs) \<longrightarrow> marker e' k = marker e k"
      using l(3) j(3) by (auto simp del: split_paired_All)
    moreover have "handled_event parse tn i s e e' \<or> isl r \<and> marker e' (tn, i, s) = marker e (tn, i, s)"
      if "s \<in> set seqs" for s
      using l(4) that j(3) \<open>handled_event parse tn i sq e e'\<close> by (cases "s = sq") auto
    ultimately show ?thesis using l(5,6) by (auto simp del: split_paired_All)
  qed
qed

lemma fanout_single:
  assumes "max_attempts cfg < 2 ^ 32" and "max_attempts cfg < fuel"
    and "D = memory_dispatch fuel cfg iid v (\<lambda>_. True) cup parse pay"
    and "configs_keyed (de_store e)" and "length (eligible tn i sq e) < pages"
  shows "\<exists>r e'. fanout_loop pages D tn ow i p [sq] None e = Some (r, e') \<and>
    (r = Inr () \<longrightarrow> handled_event parse tn i sq e e') \<and> (isl r \<longrightarrow> marker e' (tn, i, sq) = marker e (tn, i, sq)) \<and>
    (cup = (\<lambda>_. True) \<longrightarrow> r = Inr ())"
proof -
  from fetch_all [OF assms(4) assms(5) [unfolded eligible_def], of fuel cfg iid v "\<lambda>_. True" cup parse pay]
  obtain r1 e1 where f: "fetch_configs pages D tn i sq None [] e = Some (r1, e1)" "claims_grow e e1"
    "\<And>ys. r1 = Inr ys \<Longrightarrow> ys = eligible tn i sq e" "cup = (\<lambda>_. True) \<Longrightarrow> \<not> isl r1"
    unfolding assms(3) eligible_def by blast
  show ?thesis
  proof (cases r1)
    case (Inl x)
    with f claims_grow_fanned [OF f(2)] show ?thesis by auto
  next
    case (Inr configs)
    with f(3) have configs: "configs = eligible tn i sq e" by simp
    note j = join_handles [OF assms(1-3) f(2) refl refl, of tn i sq ow p]
    from j(2) f(1) show ?thesis by (simp add: Inr configs Let_def)
  qed
qed

lemma length_task_configs: "length (task_configs P tn i s) \<le> length (push_configs s)"
  by (simp add: task_configs_def)

section \<open>Recovery of markers\<close>

lemma recover_marker:
  assumes "max_attempts cfg < 2 ^ 32" and "max_attempts cfg < fuel"
    and D: "D = memory_dispatch fuel cfg iid v (\<lambda>_. True) cup parse (\<lambda>t. Inr (pay t))"
    and "configs_keyed (de_store e)" and "length (push_configs (de_store e)) < pages"
    and key: "key = (pd_tenant q, pd_task_id q, pd_event_sequence q)"
  shows "\<exists>r e'. try_redispatch_pending pages D q e = Some (r, e') \<and>
    (r = Inr () \<longrightarrow> marker e' key = None \<and>
      (get_task (pd_tenant q) (pd_task_id q) (pd_owner q) None (de_store e) \<noteq> Inr None \<longrightarrow>
        handled_event parse (pd_tenant q) (pd_task_id q) (pd_event_sequence q) e e')) \<and>
    (isl r \<longrightarrow> marker e' key \<noteq> None) \<and> (cup = (\<lambda>_. True) \<longrightarrow> r = Inr ())"
proof (cases "get_task (pd_tenant q) (pd_task_id q) (pd_owner q) None (de_store e)")
  case (Inl x)
  then show ?thesis by (auto simp: get_task_def split: option.splits if_splits)
next
  case (Inr o')
  have read: "d_get_task D tn i ow n e = (get_task tn i ow n (de_store e), tick e)" for tn i ow n
    by (simp add: D memory_dispatch_def read_store_def)
  show ?thesis
  proof (cases o')
    case None
    have "try_redispatch_pending pages D q e = Some (Inr (), snd (d_delete_pending D (pd_tenant q)
        (pd_task_id q) (pd_event_sequence q) (tick e)))"
      using Inr None by (simp add: try_redispatch_pending_def read)
        (simp add: D memory_dispatch_def on_store_def delete_pending_dispatch_def)
    with Inr None delete_pending_fanned(2) show ?thesis by (simp add: D key)
  next
    case (Some t)
    let ?tn = "pd_tenant q" and ?i = "pd_task_id q" and ?sq = "pd_event_sequence q"
    define e1 where "e1 = snd (d_record_pending D ?tn (pd_owner q) ?i ?sq (tick e))"
    have e1: "fanned e e1" "marker e1 key \<noteq> None"
      by (auto simp: e1_def D memory_dispatch_def on_store_def record_pending_dispatch_def fanned_def
          marker_def key hm_simps claim_of_def)
    have same: "eligible ?tn ?i ?sq e1 = eligible ?tn ?i ?sq e" by (rule fanned_eligible [OF e1(1)])
    then have "length (eligible ?tn ?i ?sq e1) < pages"
      using assms(5) length_task_configs [of "\<lambda>floor. floor < ?sq" ?tn ?i "de_store e"]
      by (simp add: eligible_def)
    moreover have "configs_keyed (de_store e1)" using assms(4) fanned_keyed [OF e1(1)] by simp
    ultimately obtain r e' where
      r: "fanout_loop pages D ?tn (pd_owner q) ?i (pay t) [?sq] None e1 = Some (r, e')"
        "r = Inr () \<longrightarrow> handled_event parse ?tn ?i ?sq e1 e'" "isl r \<longrightarrow> marker e' key = marker e1 key"
        "cup = (\<lambda>_. True) \<longrightarrow> r = Inr ()"
      using fanout_single [OF assms(1-3), of e1 ?tn ?i ?sq pages "pd_owner q" "pay t"] unfolding key by blast
    have "d_payload D t = Inr (pay t)" by (simp add: D memory_dispatch_def)
    with Inr Some r(1) have "try_redispatch_pending pages D q e = Some (r, e')"
      by (simp add: try_redispatch_pending_def read run_fanout_def e1_def)
    with r(2-4) e1 show ?thesis
      by (auto simp: handled_event_def key same)
  qed
qed

section \<open>An outage of the delivery store\<close>

text \<open>No claim can be written: every delivery is skipped, and the marker goes all the same.\<close>

lemma deliver_unclaimed:
  "memory_deliver fuel cfg iid v (\<lambda>_. False) t p e = (UnclaimedSkip, tick e)"
  by (simp add: memory_deliver_def deliver_def worker_claim_def claims_fail_def)

lemma join_unclaimed: "de_store (memory_join fuel cfg iid v (\<lambda>_. False) ts p e) = de_store e"
  by (induction ts arbitrary: e) (simp_all add: memory_join_def deliver_unclaimed)

lemma list_page_up:
  assumes "\<And>n. cup n"
  shows "list_page_retry (memory_dispatch fuel cfg iid v up cup parse pay) tn i sq tok LIST_MAX_ATTEMPTS 0 None e =
    (list_configs_eligible_at_event tn i sq tok None (de_store e), tick e)"
  using assms by (simp add: LIST_MAX_ATTEMPTS_def eval_nat_numeral list_eligible_memory
      list_configs_eligible_at_event_def Let_def)

lemma fetch_configs_up:
  assumes "walk_pages pages (config_fetch (\<lambda>floor. floor < sq) tn i None (de_store e)) tok = Some xs"
    and "\<And>n. cup n"
  shows "\<exists>e'. fetch_configs pages (memory_dispatch fuel cfg iid v up cup parse pay) tn i sq tok acc e =
      Some (Inr (acc @ xs), e') \<and> de_store e' = de_store e"
  using assms(1)
proof (induction pages arbitrary: tok acc e xs)
  case (Suc pages)
  let ?D = "memory_dispatch fuel cfg iid v up cup parse pay"
  obtain pg where pg: "list_configs_eligible_at_event tn i sq tok None (de_store e) = Inr pg"
    by (simp add: list_configs_eligible_at_event_def)
  note p = list_page_up [OF assms(2), where fuel = fuel and cfg = cfg and iid = iid and v = v and up = up
    and parse = parse and pay = pay and tn = tn and i = i and sq = sq and tok = tok and e = e, unfolded pg]
  show ?case
  proof (cases "pcp_next_page_token pg = []")
    case True
    with Suc.prems eligible_page [OF pg] p show ?thesis by simp
  next
    case False
    with Suc.prems eligible_page [OF pg] obtain ys where ys: "xs = pcp_configs pg @ ys"
        "walk_pages pages (config_fetch (\<lambda>floor. floor < sq) tn i None (de_store (tick e)))
           (Some (pcp_next_page_token pg)) = Some ys"
      by auto
    from Suc.IH [OF ys(2), of "acc @ pcp_configs pg"] p False ys(1) show ?thesis by auto
  qed
qed simp

lemma fanout_unclaimed:
  assumes D: "D = memory_dispatch fuel cfg iid v (\<lambda>_. False) (\<lambda>_. True) parse pay"
    and "configs_keyed (de_store e)" and "length (eligible tn i sq e) < pages"
  shows "\<exists>e'. fanout_loop pages D tn ow i p [sq] None e = Some (Inr (), e') \<and>
    de_store e' = de_store e\<lparr>pending_dispatches := hm_remove (tn, i, sq) (pending_dispatches (de_store e))\<rparr>"
proof -
  let ?cs = "eligible tn i sq e"
  from fetch_configs_up [OF config_paging.walk_complete [OF assms(2), of "\<lambda>floor. floor < sq" tn i pages None],
      of "\<lambda>_. True" fuel cfg iid v "\<lambda>_. False" parse pay "[]"] assms(3)
  obtain e1 where f: "fetch_configs pages D tn i sq None [] e = Some (Inr ?cs, e1)" "de_store e1 = de_store e"
    by (auto simp: D eligible_def)
  let ?e2 = "if ?cs = [] then e1 else d_join D (targets_of (d_parse_url D) tn ow i sq ?cs) p e1"
  have "de_store ?e2 = de_store e"
    using f(2) by (simp add: D memory_dispatch_def join_unclaimed)
  moreover have "de_store (snd (d_delete_pending D tn i sq x)) =
      de_store x\<lparr>pending_dispatches := hm_remove (tn, i, sq) (pending_dispatches (de_store x))\<rparr>" for x
    by (simp add: D delete_pending_memory)
  ultimately show ?thesis using f(1) by (simp add: Let_def del: split_paired_Ex)
qed

lemma hm_get_member: "(k, v) \<in> set m \<Longrightarrow> hm_get m k \<noteq> None"
  by (auto simp: hm_get_def map_of_eq_None_iff intro: rev_image_eqI)

lemma stale_rows:
  assumes "list_stale_pending_dispatches older n s = Inr rows" and "r \<in> set rows"
  shows "hm_get (pending_dispatches s) (pd_tenant r, pd_task_id r, pd_event_sequence r) \<noteq> None"
proof -
  obtain x where "((pd_tenant r, pd_task_id r, pd_event_sequence r), x) \<in> set (pending_dispatches s)"
    using assms by (auto simp: list_stale_pending_dispatches_def List.map_filter_def
        split: if_splits dest!: in_set_takeD)
  then show ?thesis by (rule hm_get_member)
qed

lemma reclaimable_rows:
  assumes "list_reclaimable_claims now n s = Inr rows" and "r \<in> set rows"
  shows "claim_of s (rec_tenant r, rec_task_id r, rec_event_sequence r, rec_config_id r) \<noteq> None"
proof -
  obtain x where "((rec_tenant r, rec_task_id r, rec_event_sequence r, rec_config_id r), x)
      \<in> set (push_delivery_claims s)"
    using assms by (auto simp: list_reclaimable_claims_def List.map_filter_def
        split: if_splits dest!: in_set_takeD)
  then show ?thesis unfolding claim_of_def by (rule hm_get_member)
qed

section \<open>Claims whose task or config is gone\<close>

lemma outcome_of_claim:
  assumes "claim_of s key = Some r"
  shows "\<exists>s'. record_delivery_outcome now key (cl_claimant r) (cl_generation r) (OutAbandoned reason) s =
      (Inr (), s') \<and> (cl_status r = Pending \<longrightarrow> (\<exists>r'. claim_of s' key = Some r' \<and> cl_status r' = Abandoned))"
  using assms by (auto simp: record_delivery_outcome_def claim_terminal_def)

lemma abandon_retires:
  assumes "claim_of (de_store e) (target_key t) = Some old" and "claim_open old"
    and "cl_expires_at old \<le> de_clock e"
  shows "\<exists>e' r'. abandon_reclaimed (claims_fail (\<lambda>_. True) (memory_world cfg iid lk t)) reason e =
      (RepAbandoned reason, e') \<and> claim_of (de_store e') (target_key t) = Some r' \<and> cl_status r' = Abandoned"
proof -
  let ?row = "reclaimed_row (de_clock e) iid (claim_expiry cfg) old"
  let ?s = "put_claim (target_key t) ?row (de_store e)"
  have c: "claim_delivery (de_clock e) (target_key t) iid (pt_owner t) (claim_expiry cfg) (de_store e) =
      (Inr (as_claim ?row), ?s)"
    using assms by (auto simp: claim_delivery_def Let_def claim_open_def claim_terminal_def)
  have "claim_of ?s (target_key t) = Some ?row" "cl_status ?row = Pending"
    by (simp_all add: reclaimed_row_def)
  from outcome_of_claim [OF this(1), of "de_clock e" reason] this(2) obtain s' r' where
    o: "record_delivery_outcome (de_clock e) (target_key t) (cl_claimant ?row) (cl_generation ?row)
        (OutAbandoned reason) ?s = (Inr (), s')" "claim_of s' (target_key t) = Some r'" "cl_status r' = Abandoned"
    by blast
  have w: "worker_claim (claims_fail (\<lambda>_. True) (memory_world cfg iid lk t)) e =
      (Inr (as_claim ?row), tick (e\<lparr>de_store := ?s\<rparr>))"
    by (simp add: worker_claim_def claims_fail_def memory_world_def on_store_def c)
  have a: "dc_claimant (as_claim ?row) = cl_claimant ?row" "dc_generation (as_claim ?row) = cl_generation ?row"
    by (simp_all add: as_claim_def)
  show ?thesis
    using o by (simp add: abandon_reclaimed_def w persist_terminal_def TERMINAL_PERSIST_MAX_ATTEMPTS_def
        eval_nat_numeral Let_def) (simp add: memory_world_def on_store_def a)
qed

lemma orphan_retires:
  assumes D: "D = memory_dispatch fuel cfg iid v (\<lambda>_. True) cup parse pay"
    and key: "key = (rec_tenant c, rec_task_id c, rec_event_sequence c, rec_config_id c)"
    and "claim_of (de_store e) key = Some old" and "claim_open old" and "cl_expires_at old \<le> de_clock e"
    and gone: "get_config (rec_tenant c) (rec_task_id c) (rec_config_id c) (de_store e) = Inr None \<or>
      get_task (rec_tenant c) (rec_task_id c) (rec_owner c) None (de_store e) = Inr None"
  shows "\<exists>r'. claim_of (de_store (redispatch_one D c e)) key = Some r' \<and> cl_status r' = Abandoned"
proof -
  obtain co where co: "get_config (rec_tenant c) (rec_task_id c) (rec_config_id c) (de_store e) = Inr co"
    by (simp add: get_config_def)
  obtain tk where tk: "get_task (rec_tenant c) (rec_task_id c) (rec_owner c) None (de_store e) = Inr tk"
    by (cases "get_task (rec_tenant c) (rec_task_id c) (rec_owner c) None (de_store e)")
      (auto simp: get_task_def split: option.splits if_splits)
  let ?t = "\<lparr>pt_tenant = rec_tenant c, pt_owner = rec_owner c, pt_task_id = rec_task_id c,
    pt_event_sequence = rec_event_sequence c, pt_config_id = rec_config_id c,
    pt_url = case Option.bind co (\<lambda>c. parse (pc_url c)) of Some u \<Rightarrow> u | None \<Rightarrow> abandoned_url,
    pt_auth_scheme = '''', pt_auth_credentials = '''', pt_token = None\<rparr>"
  let ?why = "if tk = None then TaskDeleted else ConfigDeleted"
  have k: "target_key ?t = key" by (simp add: target_key_def key)
  have "redispatch_one D c e = snd (abandon_reclaimed (claims_fail (\<lambda>_. True)
      (memory_world cfg iid True ?t)) ?why (tick (tick e)))"
    using gone co tk by (cases co; cases tk)
      (simp_all add: redispatch_one_def D memory_dispatch_def read_store_def Let_def)
  with abandon_retires [of "tick (tick e)" ?t old cfg iid True ?why] assms(3-5) show ?thesis
    unfolding k by fastforce
qed

section \<open>An example\<close>

text \<open>
  A store for the witnesses: a task with one push config, registered before the task's terminal
  event, whose fan-out marker is still there; and the environment of its deliveries.
\<close>

definition hook_config :: push_config where
  "hook_config = \<lparr>pc_tenant = ''t'', pc_id = ''cfg'', pc_task_id = ''task'', pc_url = ''hook'',
     pc_token = '''', pc_authentication = None\<rparr>"

definition hooked_store :: store where
  "hooked_store = exec (OpRecordPending 0 ''t'' ''o'' ''task'' 1)
     (exec (OpCreateConfig ''uuid'' ''t'' hook_config) (empty_store True))"

lemma hooked_store_reachable: "reachable hooked_store"
  unfolding hooked_store_def empty_store_def by (intro reachable.intros) (simp_all add: hook_config_def)

definition hooked_env :: delivery_env where
  "hooked_env = \<lparr>de_store = hooked_store, de_cache = config_cache_default, de_clock = 0, de_tick = 0,
     de_dns = (\<lambda>_. Inr [public_ip]), de_http = (\<lambda>_ _. Inr 200), de_random = (\<lambda>_. 0),
     de_others = (\<lambda>_. [])\<rparr>"

definition hook_url :: "string \<Rightarrow> url option" where
  "hook_url s = (if s = ''hook'' then Some example_url else None)"

lemma hooked_store_eq:
  "hooked_store = store_new\<lparr>retention := retention_new 60 60, push_dispatch_enabled := True,
     push_configs := [((''t'', ''task'', ''cfg''),
        \<lparr>spc_config = hook_config, spc_registered_after_event_sequence = 0\<rparr>)],
     pending_dispatches := [((''t'', ''task'', 1), \<lparr>spd_owner = ''o'', spd_recorded_at = 0\<rparr>)]\<rparr>"
  by (simp add: hooked_store_def empty_store_def create_config_quiet record_pending_dispatch_def
      create_config_def MAX_ATTEMPTS_def eval_nat_numeral latest_floor_def get_stored_def insert_config_def
      with_push_dispatch_enabled_def with_retention_def store_new_def hook_config_def hm_insert_def
      hm_get_def Let_def)

lemma hooked_env_fields [simp]:
  "de_store hooked_env = hooked_store" "length (push_configs hooked_store) = 1"
  "eligible ''t'' ''task'' (Suc 0) hooked_env = [hook_config]"
  "claim_of hooked_store k = None" "get_stored hooked_store tn i = None"
  by (simp_all add: hooked_env_def hooked_store_eq eligible_def task_configs_def claim_of_def
      get_stored_def store_new_def)

end
