(* ===== verification/Artifact_Store.thy ===== *)
theory Artifact_Store
  imports Store_Tasks Server_Error
begin

text \<open>
  Artifact separation of the persistent backends (\<open>storage/artifacts.rs\<close>): a task row keeps a
  manifest of artifact ids and fingerprints, the bodies live in rows of their own. The codec of
  the generated proto types (pbjson), the text form of a JSON value and SHA-256 are fields of
  \<open>codec\<close>; a stored text is a value of its own type, so nothing is assumed of its format.
\<close>

section \<open>What the backends call\<close>

record ('t, 'e, 'a, 'c) codec =
  enc_task :: "pb_task \<Rightarrow> string + 't"
  dec_task :: "'t \<Rightarrow> string + pb_task"
  enc_event :: "stream_event \<Rightarrow> string + 'e"
  dec_event :: "'e \<Rightarrow> string + stream_event"
  enc_artifact :: "pb_artifact \<Rightarrow> string + 'a"
  dec_artifact :: "'a \<Rightarrow> string + pb_artifact"
  enc_config :: "push_config \<Rightarrow> string + 'c"
  dec_config :: "'c \<Rightarrow> string + push_config"
  artifact_value :: "pb_artifact \<Rightarrow> string + json"
  json_text :: "json \<Rightarrow> string + string"
  sha256_hex :: "string \<Rightarrow> string"

text \<open>\<open>?\<close>, and \<open>.map_err(|e| SerializationError(e.to_string()))?\<close>.\<close>

definition attempt :: "'e + 'a \<Rightarrow> ('a \<Rightarrow> 'e + 'b) \<Rightarrow> 'e + 'b" where
  "attempt r k = (case r of Inl e \<Rightarrow> Inl e | Inr x \<Rightarrow> k x)"

definition serde :: "string + 'a \<Rightarrow> storage_error + 'a" where
  "serde r = (case r of Inl e \<Rightarrow> Inl (SE_SerializationError e) | Inr x \<Rightarrow> Inr x)"

lemma attempt_simps [simp]: "attempt (Inr x) k = k x" "attempt (Inl e) k = Inl e"
  by (simp_all add: attempt_def)

lemma serde_simps [simp]: "serde (Inr x) = Inr x" "serde (Inl e) = Inl (SE_SerializationError e)"
  by (simp_all add: serde_def)

section \<open>Fingerprints\<close>

text \<open>
  \<open>serde_json\<close> keeps one value per key; the last of a repeated key would win, and \<open>sort_key\<close> is
  stable as \<open>sort_by\<close> is.
\<close>

fun canonicalize :: "json \<Rightarrow> json" where
  "canonicalize (JObject fs) = JObject (sort_key fst (map (\<lambda>(k, v). (k, canonicalize v)) fs))"
| "canonicalize (JArray items) = JArray (map canonicalize items)"
| "canonicalize other = other"

definition artifact_fingerprint :: "('t, 'e, 'a, 'c) codec \<Rightarrow> pb_artifact \<Rightarrow> storage_error + string" where
  "artifact_fingerprint C a = attempt (serde (artifact_value C a)) (\<lambda>v.
     attempt (serde (json_text C (canonicalize v))) (\<lambda>text. Inr (sha256_hex C text)))"

section \<open>The reconcile plan\<close>

record manifest_entry =
  me_artifact_id :: string
  me_fingerprint :: string

record reconcile_plan =
  rp_writes :: "(pb_artifact \<times> string) list"
  rp_deletes :: "string list"
  rp_manifest :: "manifest_entry list"

definition unchanged_in :: "manifest_entry list \<Rightarrow> string \<Rightarrow> string \<Rightarrow> bool" where
  "unchanged_in stored i f \<longleftrightarrow> list_ex (\<lambda>e. me_artifact_id e = i \<and> me_fingerprint e = f) stored"

fun reconcile_incoming ::
  "('t, 'e, 'a, 'c) codec \<Rightarrow> manifest_entry list \<Rightarrow> pb_artifact list \<Rightarrow>
   storage_error + (pb_artifact \<times> string) list \<times> manifest_entry list" where
  "reconcile_incoming C stored [] = Inr ([], [])"
| "reconcile_incoming C stored (a # as) =
     attempt (artifact_fingerprint C a) (\<lambda>f.
     attempt (reconcile_incoming C stored as) (\<lambda>(writes, manifest).
       Inr ((if unchanged_in stored (art_artifact_id a) f then writes else (a, f) # writes),
            \<lparr>me_artifact_id = art_artifact_id a, me_fingerprint = f\<rparr> # manifest)))"

definition reconcile ::
  "('t, 'e, 'a, 'c) codec \<Rightarrow> pb_artifact list \<Rightarrow> manifest_entry list \<Rightarrow> storage_error + reconcile_plan" where
  "reconcile C incoming stored = attempt (reconcile_incoming C stored incoming) (\<lambda>(writes, manifest).
     Inr \<lparr>rp_writes = writes,
       rp_deletes = map me_artifact_id
         (filter (\<lambda>e. \<not> list_ex (\<lambda>a. art_artifact_id a = me_artifact_id e) incoming) stored),
       rp_manifest = manifest\<rparr>)"

text \<open>The read: each manifest entry takes its record out of the map.\<close>

fun rehydrate_in_manifest_order ::
  "manifest_entry list \<Rightarrow> (string, pb_artifact) hashmap \<Rightarrow> pb_artifact list" where
  "rehydrate_in_manifest_order [] records = []"
| "rehydrate_in_manifest_order (e # es) records =
     (case hm_get records (me_artifact_id e) of
        Some a \<Rightarrow> a # rehydrate_in_manifest_order es (hm_remove (me_artifact_id e) records)
      | None \<Rightarrow> rehydrate_in_manifest_order es records)"

section \<open>What the codec is relied on for\<close>

text \<open>
  Serialisation can fail (\<open>timestamp.rs\<close> refuses nanoseconds out of range, \<open>pbjson\<close> an unknown enum
  value), and a column may not hold every value. A value is codable when a backend stores it and
  reads the same value back; what is shown of a backend is about codable values only.
\<close>

definition codable_task :: "('t, 'e, 'a, 'c) codec \<Rightarrow> pb_task \<Rightarrow> bool" where
  "codable_task C t \<longleftrightarrow> (\<exists>x. enc_task C t = Inr x \<and> dec_task C x = Inr t)"

definition codable_event :: "('t, 'e, 'a, 'c) codec \<Rightarrow> stream_event \<Rightarrow> bool" where
  "codable_event C e \<longleftrightarrow> (\<exists>x. enc_event C e = Inr x \<and> dec_event C x = Inr e)"

definition codable_config :: "('t, 'e, 'a, 'c) codec \<Rightarrow> push_config \<Rightarrow> bool" where
  "codable_config C c \<longleftrightarrow> (\<exists>x. enc_config C c = Inr x \<and> dec_config C x = Inr c)"

text \<open>What a write of a task and its events stores: the stamped task without its artifacts, the events.\<close>

definition storable_task :: "('t, 'e, 'a, 'c) codec \<Rightarrow> pb_task \<Rightarrow> bool" where
  "storable_task C t \<longleftrightarrow> codable_task C (t\<lparr>tk_artifacts := []\<rparr>)"

definition storable_write :: "('t, 'e, 'a, 'c) codec \<Rightarrow> instant \<Rightarrow> pb_task \<Rightarrow> stream_event list \<Rightarrow> bool" where
  "storable_write C now t evs \<longleftrightarrow> (case stamp_status now t evs of (t', evs') \<Rightarrow>
     storable_task C t' \<and> (\<forall>e \<in> set evs'. codable_event C e))"

text \<open>A task that is encoded is read back as it was.\<close>

definition sound_at :: "('t, 'e, 'a, 'c) codec \<Rightarrow> pb_task \<Rightarrow> bool" where
  "sound_at C t \<longleftrightarrow> (\<forall>x. enc_task C t = Inr x \<longrightarrow> dec_task C x = Inr t)"

lemma codable_sound: "codable_task C t \<Longrightarrow> sound_at C t"
  by (auto simp: codable_task_def sound_at_def)

text \<open>
  On the artifacts \<open>A\<close> of a run: encoding succeeds and decodes to the value, and the fingerprints of
  different ones differ (no SHA-256 collision among them).
\<close>

definition codec_ok :: "('t, 'e, 'a, 'c) codec \<Rightarrow> pb_artifact set \<Rightarrow> bool" where
  "codec_ok C A \<longleftrightarrow>
     (\<forall>a \<in> A. \<exists>x. enc_artifact C a = Inr x \<and> dec_artifact C x = Inr a) \<and>
     (\<forall>a \<in> A. \<not> isl (artifact_fingerprint C a)) \<and>
     (\<forall>a \<in> A. \<forall>b \<in> A. artifact_fingerprint C a = artifact_fingerprint C b \<longrightarrow> a = b)"

end
