(* ===== verification/Sqlite_Store.thy ===== *)
theory Sqlite_Store
  imports Artifact_Store Store_Atomic Push_Claims
begin

text \<open>
  \<open>SqliteA2aStorage\<close> (\<open>storage/sqlite.rs\<close>): tasks, events and atomic commits on SQL tables. A
  table is a map from its primary key to the other columns the modelled statements read or
  write; a statement is an update of the tables, a transaction (\<open>in_tx\<close>) a sequence of them that
  leaves the tables alone when it fails. SQLite has one writer, so a transaction is one step.
  \<open>datetime('now')\<close> is whole seconds since the epoch. Statements that fail for reasons outside
  the tables (I/O, a busy database) are not modelled.
\<close>

section \<open>Tables\<close>

record 't task_row =
  tr_owner :: string
  tr_task_json :: 't
  tr_context_id :: string
  tr_status_state :: string
  tr_status_timestamp :: string
  tr_cancel_requested :: bool
  tr_latest_event_sequence :: nat
  tr_lease_expires_at :: "int option"
  tr_artifact_manifest :: "manifest_entry list"
  tr_updated_at :: nat

type_synonym artifact_key = "string \<times> string \<times> string"
type_synonym event_row_key = "string \<times> string \<times> nat"

record 'c config_row =
  cr_config_json :: 'c
  cr_registered_after_event_sequence :: nat

text \<open>
  A delivery row. Times are microseconds; the status and the reasons are their texts; the error
  class is the JSON text of \<open>ErrorClassWire\<close>, here its JSON value.
\<close>

record delivery_row =
  dr_claimant :: string
  dr_owner :: string
  dr_generation :: nat
  dr_claimed_at :: int
  dr_expires_at :: int
  dr_delivery_attempt_count :: nat
  dr_status :: string
  dr_first_attempted_at :: "int option"
  dr_last_attempted_at :: "int option"
  dr_last_http_status :: "nat option"
  dr_last_error_class :: "json option"
  dr_gave_up_at :: "int option"
  dr_gave_up_reason :: "string option"
  dr_abandoned_reason :: "string option"

record ('t, 'e, 'a, 'c) sqlite =
  sq_tasks :: "(task_key, 't task_row) hashmap"
  sq_artifacts :: "(artifact_key, 'a \<times> string) hashmap"
  sq_events :: "(event_row_key, 'e \<times> nat) hashmap"
  sq_configs :: "(push_config_key, 'c config_row) hashmap"
  sq_pending :: "(pending_dispatch_key, string \<times> nat) hashmap"
  sq_deliveries :: "(push_delivery_key, delivery_row) hashmap"
  sq_push_dispatch_enabled :: bool
  sq_retention :: retention_config

definition sqlite_new :: "bool \<Rightarrow> retention_config \<Rightarrow> ('t, 'e, 'a, 'c) sqlite" where
  "sqlite_new b rc = \<lparr>sq_tasks = [], sq_artifacts = [], sq_events = [], sq_configs = [], sq_pending = [],
     sq_deliveries = [], sq_push_dispatch_enabled = b, sq_retention = rc\<rparr>"

definition datetime_now :: "instant \<Rightarrow> nat" where "datetime_now now = now div nanos_per_sec"
definition systime_to_micros :: "instant \<Rightarrow> int" where "systime_to_micros now = int (now div 1000)"

definition UNIQUE_VIOLATION :: storage_error where
  "UNIQUE_VIOLATION = SE_DatabaseError ''UNIQUE constraint failed''"

definition TERMINAL_STATES_SQL :: "string list" where
  "TERMINAL_STATES_SQL = map wire_name TERMINAL_STATES"

text \<open>\<open>begin\<close> .. \<open>commit\<close>: a failing body is rolled back.\<close>

definition in_tx :: "('db \<Rightarrow> 'e + 'a \<times> 'db) \<Rightarrow> 'db \<Rightarrow> ('e + 'a) \<times> 'db" where
  "in_tx body db = (case body db of Inl e \<Rightarrow> (Inl e, db) | Inr (x, db') \<Rightarrow> (Inr x, db'))"

section \<open>Task blobs\<close>

definition status_state_str :: "pb_task \<Rightarrow> string" where
  "status_state_str t = (case task_state_of t of Some s \<Rightarrow> wire_name s | None \<Rightarrow> '''')"

definition typed :: "a2a_type_error + 'a \<Rightarrow> storage_error + 'a" where
  "typed r = (case r of Inl e \<Rightarrow> Inl (SE_TypeError e) | Inr x \<Rightarrow> Inr x)"

definition task_from_json :: "('t, 'e, 'a, 'c) codec \<Rightarrow> 't \<Rightarrow> storage_error + pb_task" where
  "task_from_json C json = attempt (serde (dec_task C json)) (\<lambda>t. typed (task_try_from t))"

definition split_task :: "('t, 'e, 'a, 'c) codec \<Rightarrow> pb_task \<Rightarrow> storage_error + 't \<times> pb_artifact list" where
  "split_task C t = attempt (typed (task_try_from (t\<lparr>tk_artifacts := []\<rparr>))) (\<lambda>stripped.
     attempt (serde (enc_task C stripped)) (\<lambda>json. Inr (json, tk_artifacts t)))"

fun write_artifacts ::
  "('t, 'e, 'a, 'c) codec \<Rightarrow> string \<Rightarrow> string \<Rightarrow> (pb_artifact \<times> string) list \<Rightarrow>
   (artifact_key, 'a \<times> string) hashmap \<Rightarrow> storage_error + (artifact_key, 'a \<times> string) hashmap" where
  "write_artifacts C tenant task_id [] m = Inr m"
| "write_artifacts C tenant task_id ((a, f) # ws) m =
     attempt (serde (enc_artifact C a)) (\<lambda>body.
       write_artifacts C tenant task_id ws (hm_insert (tenant, task_id, art_artifact_id a) (body, f) m))"

definition apply_artifact_plan ::
  "('t, 'e, 'a, 'c) codec \<Rightarrow> string \<Rightarrow> string \<Rightarrow> reconcile_plan \<Rightarrow> ('t, 'e, 'a, 'c) sqlite \<Rightarrow>
   storage_error + ('t, 'e, 'a, 'c) sqlite" where
  "apply_artifact_plan C tenant task_id plan db =
     attempt (write_artifacts C tenant task_id (rp_writes plan) (sq_artifacts db)) (\<lambda>m.
       Inr (db\<lparr>sq_artifacts := foldl (\<lambda>m i. hm_remove (tenant, task_id, i) m) m (rp_deletes plan)\<rparr>))"

definition fetch_manifest :: "string \<Rightarrow> string \<Rightarrow> ('t, 'e, 'a, 'c) sqlite \<Rightarrow> manifest_entry list" where
  "fetch_manifest tenant task_id db = (case hm_get (sq_tasks db) (tenant, task_id) of
       Some r \<Rightarrow> tr_artifact_manifest r | None \<Rightarrow> [])"

text \<open>\<open>SELECT artifact_id, artifact_json\<close> of one task, decoded into a map.\<close>

fun decode_bodies ::
  "('t, 'e, 'a, 'c) codec \<Rightarrow> (string \<times> 'a) list \<Rightarrow> (string, pb_artifact) hashmap \<Rightarrow>
   storage_error + (string, pb_artifact) hashmap" where
  "decode_bodies C [] m = Inr m"
| "decode_bodies C ((i, body) # rows) m =
     attempt (serde (dec_artifact C body)) (\<lambda>a. decode_bodies C rows (hm_insert i a m))"

definition artifact_rows ::
  "string \<Rightarrow> string \<Rightarrow> (artifact_key, 'a \<times> string) hashmap \<Rightarrow> (string \<times> 'a) list" where
  "artifact_rows tenant task_id m = map (\<lambda>((_, _, i), (body, _)). (i, body))
     (filter (\<lambda>((t, tid, _), _). t = tenant \<and> tid = task_id) m)"

definition rehydrate_task ::
  "('t, 'e, 'a, 'c) codec \<Rightarrow> string \<Rightarrow> string \<Rightarrow> 't \<Rightarrow> manifest_entry list \<Rightarrow> ('t, 'e, 'a, 'c) sqlite \<Rightarrow>
   storage_error + pb_task" where
  "rehydrate_task C tenant task_id blob manifest db =
     attempt (serde (dec_task C blob)) (\<lambda>t.
     attempt (if manifest = [] then Inr t
        else attempt (decode_bodies C (artifact_rows tenant task_id (sq_artifacts db)) []) (\<lambda>bodies.
          Inr (t\<lparr>tk_artifacts := rehydrate_in_manifest_order manifest bodies\<rparr>))) (\<lambda>t.
     typed (task_try_from t)))"

section \<open>\<open>A2aTaskStorage\<close>\<close>

text \<open>\<open>WHERE tenant = ? AND task_id = ? AND owner = ?\<close>.\<close>

definition owned_row ::
  "string \<Rightarrow> string \<Rightarrow> string \<Rightarrow> ('t, 'e, 'a, 'c) sqlite \<Rightarrow> 't task_row option" where
  "owned_row tenant task_id owner db = (case hm_get (sq_tasks db) (tenant, task_id) of
       Some r \<Rightarrow> if tr_owner r = owner then Some r else None | None \<Rightarrow> None)"

definition put_row :: "string \<Rightarrow> string \<Rightarrow> 't task_row \<Rightarrow> ('t, 'e, 'a, 'c) sqlite \<Rightarrow> ('t, 'e, 'a, 'c) sqlite" where
  "put_row tenant task_id r db = db\<lparr>sq_tasks := hm_insert (tenant, task_id) r (sq_tasks db)\<rparr>"

definition insert_task_row ::
  "('t, 'e, 'a, 'c) codec \<Rightarrow> chrono \<Rightarrow> instant \<Rightarrow> string \<Rightarrow> string \<Rightarrow> pb_task \<Rightarrow> ('t, 'e, 'a, 'c) sqlite \<Rightarrow>
   storage_error + ('t, 'e, 'a, 'c) sqlite" where
  "insert_task_row C c now tenant owner t db =
     attempt (split_task C t) (\<lambda>(blob, artifacts).
     attempt (reconcile C artifacts []) (\<lambda>plan.
       if hm_get (sq_tasks db) (tenant, tk_id t) \<noteq> None then Inl UNIQUE_VIOLATION
       else apply_artifact_plan C tenant (tk_id t) plan (put_row tenant (tk_id t)
          \<lparr>tr_owner = owner, tr_task_json = blob, tr_context_id = tk_context_id t,
           tr_status_state = status_state_str t, tr_status_timestamp = task_sort_key c t,
           tr_cancel_requested = False, tr_latest_event_sequence = 0, tr_lease_expires_at = None,
           tr_artifact_manifest = rp_manifest plan, tr_updated_at = datetime_now now\<rparr> db)))"

definition sqlite_create_task ::
  "('t, 'e, 'a, 'c) codec \<Rightarrow> chrono \<Rightarrow> instant \<Rightarrow> string \<Rightarrow> string \<Rightarrow> pb_task \<Rightarrow> ('t, 'e, 'a, 'c) sqlite \<Rightarrow>
   (storage_error + pb_task) \<times> ('t, 'e, 'a, 'c) sqlite" where
  "sqlite_create_task C c now tenant owner t =
     (let t' = fst (stamp_status now t [])
      in in_tx (\<lambda>db. attempt (insert_task_row C c now tenant owner t' db) (\<lambda>db. Inr (t', db))))"

definition sqlite_get_task ::
  "('t, 'e, 'a, 'c) codec \<Rightarrow> string \<Rightarrow> string \<Rightarrow> string \<Rightarrow> int option \<Rightarrow> ('t, 'e, 'a, 'c) sqlite \<Rightarrow>
   storage_error + pb_task option" where
  "sqlite_get_task C tenant task_id owner history_length db = (case owned_row tenant task_id owner db of
       Some r \<Rightarrow> attempt (rehydrate_task C tenant task_id (tr_task_json r) (tr_artifact_manifest r) db)
         (\<lambda>t. Inr (Some (trim_history t history_length)))
     | None \<Rightarrow> Inr None)"

text \<open>The columns a full-task write sets.\<close>

definition written_row ::
  "chrono \<Rightarrow> instant \<Rightarrow> 't \<Rightarrow> pb_task \<Rightarrow> manifest_entry list \<Rightarrow> 't task_row \<Rightarrow> 't task_row" where
  "written_row c now blob t manifest r = r\<lparr>tr_task_json := blob, tr_status_state := status_state_str t,
     tr_status_timestamp := task_sort_key c t, tr_context_id := tk_context_id t,
     tr_artifact_manifest := manifest, tr_updated_at := datetime_now now\<rparr>"

definition sqlite_update_task ::
  "('t, 'e, 'a, 'c) codec \<Rightarrow> chrono \<Rightarrow> instant \<Rightarrow> string \<Rightarrow> string \<Rightarrow> pb_task \<Rightarrow> ('t, 'e, 'a, 'c) sqlite \<Rightarrow>
   (storage_error + unit) \<times> ('t, 'e, 'a, 'c) sqlite" where
  "sqlite_update_task C c now tenant owner t =
     (let t' = fst (stamp_status now t []); task_id = tk_id t'
      in in_tx (\<lambda>db. attempt (split_task C t') (\<lambda>(blob, artifacts).
           attempt (reconcile C artifacts (fetch_manifest tenant task_id db)) (\<lambda>plan.
             case owned_row tenant task_id owner db of
               None \<Rightarrow> Inl (SE_TaskNotFound task_id)
             | Some r \<Rightarrow> attempt (apply_artifact_plan C tenant task_id plan
                   (put_row tenant task_id (written_row c now blob t' (rp_manifest plan) r) db))
                 (\<lambda>db. Inr ((), db))))))"

definition sqlite_delete_task ::
  "string \<Rightarrow> string \<Rightarrow> string \<Rightarrow> ('t, 'e, 'a, 'c) sqlite \<Rightarrow> (storage_error + bool) \<times> ('t, 'e, 'a, 'c) sqlite" where
  "sqlite_delete_task tenant task_id owner db = (case owned_row tenant task_id owner db of
       None \<Rightarrow> (Inr False, db)
     | Some r \<Rightarrow> (Inr True, db\<lparr>sq_tasks := hm_remove (tenant, task_id) (sq_tasks db),
         sq_artifacts := hm_retain (\<lambda>(t, tid, _) _. \<not> (t = tenant \<and> tid = task_id)) (sq_artifacts db)\<rparr>))"

text \<open>
  The status write shared by both status updates: the raw, artifact-free blob with the new
  status. \<open>on_terminal\<close> is the error for a terminal task.
\<close>

definition status_blob ::
  "('t, 'e, 'a, 'c) codec \<Rightarrow> instant \<Rightarrow> (task_state \<Rightarrow> storage_error) \<Rightarrow> string \<Rightarrow> 't \<Rightarrow> pb_task_status \<Rightarrow>
   stream_event list \<Rightarrow> storage_error + pb_task \<times> stream_event list \<times> 't" where
  "status_blob C now on_terminal task_id blob new_status evs =
     attempt (task_from_json C blob) (\<lambda>t.
     attempt (check_transition on_terminal task_id t new_status) (\<lambda>_.
     attempt (typed (task_try_from (t\<lparr>tk_status := Some new_status\<rparr>))) (\<lambda>t.
       (let (t', evs') = stamp_status now t evs
        in attempt (serde (enc_task C t')) (\<lambda>json. Inr (t', evs', json))))))"

text \<open>
  The read, the update and the read of the artifacts are three statements on the pool; here nobody
  gets between them.
\<close>

definition sqlite_update_task_status ::
  "('t, 'e, 'a, 'c) codec \<Rightarrow> chrono \<Rightarrow> instant \<Rightarrow> string \<Rightarrow> string \<Rightarrow> string \<Rightarrow> pb_task_status \<Rightarrow>
   ('t, 'e, 'a, 'c) sqlite \<Rightarrow> (storage_error + pb_task) \<times> ('t, 'e, 'a, 'c) sqlite" where
  "sqlite_update_task_status C c now tenant task_id owner new_status db =
     (case owned_row tenant task_id owner db of
        None \<Rightarrow> (Inl (SE_TaskNotFound task_id), db)
      | Some r \<Rightarrow> (case status_blob C now (SE_TerminalState task_id) task_id (tr_task_json r) new_status [] of
            Inl e \<Rightarrow> (Inl e, db)
          | Inr (t', _, json) \<Rightarrow>
              (let db = put_row tenant task_id (r\<lparr>tr_task_json := json, tr_status_state := status_state_str t',
                     tr_status_timestamp := task_sort_key c t', tr_updated_at := datetime_now now\<rparr>) db
               in (rehydrate_task C tenant task_id json (tr_artifact_manifest r) db, db))))"

definition sqlite_append_message ::
  "('t, 'e, 'a, 'c) codec \<Rightarrow> chrono \<Rightarrow> instant \<Rightarrow> string \<Rightarrow> string \<Rightarrow> string \<Rightarrow> pb_message \<Rightarrow>
   ('t, 'e, 'a, 'c) sqlite \<Rightarrow> (storage_error + unit) \<times> ('t, 'e, 'a, 'c) sqlite" where
  "sqlite_append_message C c now tenant task_id owner m db =
     (case sqlite_get_task C tenant task_id owner None db of
        Inl e \<Rightarrow> (Inl e, db)
      | Inr None \<Rightarrow> (Inl (SE_TaskNotFound task_id), db)
      | Inr (Some t) \<Rightarrow> (case typed (task_try_from (t\<lparr>tk_history := tk_history t @ [m]\<rparr>)) of
            Inl e \<Rightarrow> (Inl e, db)
          | Inr t' \<Rightarrow> sqlite_update_task C c now tenant owner t' db))"

definition sqlite_append_artifact ::
  "('t, 'e, 'a, 'c) codec \<Rightarrow> chrono \<Rightarrow> instant \<Rightarrow> string \<Rightarrow> string \<Rightarrow> string \<Rightarrow> pb_artifact \<Rightarrow> bool \<Rightarrow> bool \<Rightarrow>
   ('t, 'e, 'a, 'c) sqlite \<Rightarrow> (storage_error + unit) \<times> ('t, 'e, 'a, 'c) sqlite" where
  "sqlite_append_artifact C c now tenant task_id owner a app last_chunk db =
     (case sqlite_get_task C tenant task_id owner None db of
        Inl e \<Rightarrow> (Inl e, db)
      | Inr None \<Rightarrow> (Inl (SE_TaskNotFound task_id), db)
      | Inr (Some t) \<Rightarrow>
          (let t1 = (case (if app then extend_first_parts (art_artifact_id a) (art_parts a) (tk_artifacts t)
                       else None) of
                 Some as \<Rightarrow> t\<lparr>tk_artifacts := as\<rparr>
               | None \<Rightarrow> t\<lparr>tk_artifacts := tk_artifacts t @ [a]\<rparr>)
           in case typed (task_try_from t1) of
                Inl e \<Rightarrow> (Inl e, db)
              | Inr t' \<Rightarrow> sqlite_update_task C c now tenant owner t' db))"

definition sqlite_set_cancel_requested ::
  "string \<Rightarrow> string \<Rightarrow> string \<Rightarrow> ('t, 'e, 'a, 'c) sqlite \<Rightarrow> (storage_error + unit) \<times> ('t, 'e, 'a, 'c) sqlite" where
  "sqlite_set_cancel_requested tenant task_id owner db = (case hm_get (sq_tasks db) (tenant, task_id) of
       None \<Rightarrow> (Inl (SE_TaskNotFound task_id), db)
     | Some r \<Rightarrow>
         if tr_owner r \<noteq> owner then (Inl (SE_TaskNotFound task_id), db)
         else if tr_status_state r \<notin> set TERMINAL_STATES_SQL
           then (Inr (), put_row tenant task_id (r\<lparr>tr_cancel_requested := True\<rparr>) db)
         else (case from_wire_name (tr_status_state r) of
             Some st \<Rightarrow> if is_terminal st then (Inl (SE_TerminalState task_id st), db)
               else (Inl (SE_DatabaseError (''unexpected status_state on set_cancel_requested classify: '' @
                      tr_status_state r)), db)
           | None \<Rightarrow> (Inl (SE_DatabaseError (''unexpected status_state on set_cancel_requested classify: '' @
                      tr_status_state r)), db)))"

section \<open>\<open>A2aEventStore\<close>\<close>

definition event_rows ::
  "string \<Rightarrow> string \<Rightarrow> (event_row_key, 'e \<times> nat) hashmap \<Rightarrow> (nat \<times> 'e) list" where
  "event_rows tenant task_id m = map (\<lambda>((_, _, q), (data, _)). (q, data))
     (filter (\<lambda>((t, tid, _), _). t = tenant \<and> tid = task_id) m)"

text \<open>\<open>SELECT COALESCE(MAX(event_sequence), 0)\<close>.\<close>

definition max_sequence :: "string \<Rightarrow> string \<Rightarrow> ('t, 'e, 'a, 'c) sqlite \<Rightarrow> nat" where
  "max_sequence tenant task_id db = fold max (map fst (event_rows tenant task_id (sq_events db))) 0"

definition insert_event ::
  "('t, 'e, 'a, 'c) codec \<Rightarrow> instant \<Rightarrow> string \<Rightarrow> string \<Rightarrow> stream_event \<Rightarrow> ('t, 'e, 'a, 'c) sqlite \<Rightarrow>
   storage_error + nat \<times> ('t, 'e, 'a, 'c) sqlite" where
  "insert_event C now tenant task_id ev db =
     (let sq = max_sequence tenant task_id db + 1
      in attempt (serde (enc_event C ev)) (\<lambda>data.
           if hm_get (sq_events db) (tenant, task_id, sq) \<noteq> None then Inl UNIQUE_VIOLATION
           else Inr (sq, db\<lparr>sq_events :=
             hm_insert (tenant, task_id, sq) (data, datetime_now now) (sq_events db)\<rparr>)))"

definition sqlite_append_event ::
  "('t, 'e, 'a, 'c) codec \<Rightarrow> instant \<Rightarrow> string \<Rightarrow> string \<Rightarrow> stream_event \<Rightarrow> ('t, 'e, 'a, 'c) sqlite \<Rightarrow>
   (storage_error + nat) \<times> ('t, 'e, 'a, 'c) sqlite" where
  "sqlite_append_event C now tenant task_id ev = in_tx (insert_event C now tenant task_id ev)"

fun decode_events :: "('t, 'e, 'a, 'c) codec \<Rightarrow> (nat \<times> 'e) list \<Rightarrow> storage_error + (nat \<times> stream_event) list" where
  "decode_events C [] = Inr []"
| "decode_events C ((q, data) # rows) = attempt (serde (dec_event C data)) (\<lambda>ev.
     attempt (decode_events C rows) (\<lambda>evs. Inr ((q, ev) # evs)))"

definition as_signed :: "nat \<Rightarrow> int" where "as_signed n = (int n + 2 ^ 63) mod 2 ^ 64 - 2 ^ 63"

definition sqlite_get_events_after ::
  "('t, 'e, 'a, 'c) codec \<Rightarrow> string \<Rightarrow> string \<Rightarrow> nat \<Rightarrow> ('t, 'e, 'a, 'c) sqlite \<Rightarrow>
   storage_error + (nat \<times> stream_event) list" where
  "sqlite_get_events_after C tenant task_id after db =
     decode_events C (sort_key fst (filter (\<lambda>(q, _). as_signed after < int q)
       (event_rows tenant task_id (sq_events db))))"

definition sqlite_latest_sequence ::
  "string \<Rightarrow> string \<Rightarrow> ('t, 'e, 'a, 'c) sqlite \<Rightarrow> storage_error + nat" where
  "sqlite_latest_sequence tenant task_id db = Inr (max_sequence tenant task_id db)"

section \<open>\<open>A2aAtomicStore\<close>\<close>

text \<open>The loop over the events of a commit; \<open>mark\<close> writes the pending-dispatch marker, if any.\<close>

fun insert_events ::
  "('t, 'e, 'a, 'c) codec \<Rightarrow> instant \<Rightarrow> string \<Rightarrow> string \<Rightarrow>
   (nat \<Rightarrow> stream_event \<Rightarrow> ('t, 'e, 'a, 'c) sqlite \<Rightarrow> ('t, 'e, 'a, 'c) sqlite) \<Rightarrow> stream_event list \<Rightarrow>
   ('t, 'e, 'a, 'c) sqlite \<Rightarrow> storage_error + nat list \<times> ('t, 'e, 'a, 'c) sqlite" where
  "insert_events C now tenant task_id mark [] db = Inr ([], db)"
| "insert_events C now tenant task_id mark (ev # evs) db =
     attempt (insert_event C now tenant task_id ev db) (\<lambda>(sq, db).
     attempt (insert_events C now tenant task_id mark evs (mark sq ev db)) (\<lambda>(seqs, db).
       Inr (sq # seqs, db)))"

definition write_marker ::
  "instant \<Rightarrow> string \<Rightarrow> string \<Rightarrow> string \<Rightarrow> nat \<Rightarrow> stream_event \<Rightarrow> ('t, 'e, 'a, 'c) sqlite \<Rightarrow> ('t, 'e, 'a, 'c) sqlite" where
  "write_marker now tenant task_id owner sq ev db =
     (if sq_push_dispatch_enabled db \<and> event_is_terminal ev \<and> is_status_update ev \<and>
         list_ex (\<lambda>((t, tid, _), _). t = tenant \<and> tid = task_id) (sq_configs db)
      then db\<lparr>sq_pending := hm_insert (tenant, task_id, sq)
        (owner, nat (systime_to_micros now)) (sq_pending db)\<rparr>
      else db)"

definition bump_latest ::
  "string \<Rightarrow> string \<Rightarrow> nat list \<Rightarrow> ('t, 'e, 'a, 'c) sqlite \<Rightarrow> ('t, 'e, 'a, 'c) sqlite" where
  "bump_latest tenant task_id seqs db =
     (if seqs = [] then db
      else (case hm_get (sq_tasks db) (tenant, task_id) of
          None \<Rightarrow> db
        | Some r \<Rightarrow> if tr_latest_event_sequence r < fold max seqs 0
            then put_row tenant task_id (r\<lparr>tr_latest_event_sequence := fold max seqs 0\<rparr>) db else db))"

definition sqlite_create_task_with_events ::
  "('t, 'e, 'a, 'c) codec \<Rightarrow> chrono \<Rightarrow> instant \<Rightarrow> string \<Rightarrow> string \<Rightarrow> pb_task \<Rightarrow> stream_event list \<Rightarrow>
   ('t, 'e, 'a, 'c) sqlite \<Rightarrow> (storage_error + pb_task \<times> nat list) \<times> ('t, 'e, 'a, 'c) sqlite" where
  "sqlite_create_task_with_events C c now tenant owner t evs =
     (let (t', evs') = stamp_status now t evs; task_id = tk_id t'
      in in_tx (\<lambda>db. attempt (insert_task_row C c now tenant owner t' db) (\<lambda>db.
           attempt (insert_events C now tenant task_id (\<lambda>_ _ db. db) evs' db) (\<lambda>(seqs, db).
             Inr ((t', seqs), bump_latest tenant task_id seqs db)))))"

definition sqlite_update_task_status_with_events ::
  "('t, 'e, 'a, 'c) codec \<Rightarrow> chrono \<Rightarrow> instant \<Rightarrow> string \<Rightarrow> string \<Rightarrow> string \<Rightarrow> pb_task_status \<Rightarrow>
   stream_event list \<Rightarrow> ('t, 'e, 'a, 'c) sqlite \<Rightarrow>
   (storage_error + pb_task \<times> nat list) \<times> ('t, 'e, 'a, 'c) sqlite" where
  "sqlite_update_task_status_with_events C c now tenant task_id owner new_status evs db =
     (case in_tx (\<lambda>db. case owned_row tenant task_id owner db of
          None \<Rightarrow> Inl (SE_TaskNotFound task_id)
        | Some r \<Rightarrow> attempt (status_blob C now (\<lambda>st. SE_TerminalStateAlreadySet task_id (wire_name st))
              task_id (tr_task_json r) new_status evs) (\<lambda>(t', evs', json).
            if tr_status_state r \<in> set TERMINAL_STATES_SQL
            then Inl (SE_TerminalStateAlreadySet task_id (tr_status_state r))
            else attempt (insert_events C now tenant task_id (write_marker now tenant task_id owner) evs'
                (put_row tenant task_id (r\<lparr>tr_task_json := json, tr_status_state := status_state_str t',
                   tr_status_timestamp := task_sort_key c t', tr_context_id := tk_context_id t',
                   tr_updated_at := datetime_now now\<rparr>) db)) (\<lambda>(seqs, db).
              Inr ((t', tr_artifact_manifest r, seqs), bump_latest tenant task_id seqs db)))) db of
        (Inl e, db) \<Rightarrow> (Inl e, db)
      | (Inr (t', manifest, seqs), db) \<Rightarrow>
          (attempt (serde (enc_task C t')) (\<lambda>blob.
             attempt (rehydrate_task C tenant task_id blob manifest db) (\<lambda>t. Inr (t, seqs))), db))"

definition sqlite_update_task_with_events ::
  "('t, 'e, 'a, 'c) codec \<Rightarrow> chrono \<Rightarrow> instant \<Rightarrow> string \<Rightarrow> string \<Rightarrow> pb_task \<Rightarrow> stream_event list \<Rightarrow>
   ('t, 'e, 'a, 'c) sqlite \<Rightarrow> (storage_error + nat list) \<times> ('t, 'e, 'a, 'c) sqlite" where
  "sqlite_update_task_with_events C c now tenant owner t evs =
     (let (t', evs') = stamp_status now t evs; task_id = tk_id t'
      in in_tx (\<lambda>db. attempt (split_task C t') (\<lambda>(blob, artifacts).
           attempt (reconcile C artifacts (fetch_manifest tenant task_id db)) (\<lambda>plan.
             case owned_row tenant task_id owner db of
               None \<Rightarrow> Inl (SE_TaskNotFound task_id)
             | Some r \<Rightarrow>
                 if tr_status_state r \<in> set TERMINAL_STATES_SQL
                 then Inl (SE_TerminalStateAlreadySet task_id (tr_status_state r))
                 else attempt (apply_artifact_plan C tenant task_id plan
                     (put_row tenant task_id (written_row c now blob t' (rp_manifest plan) r) db)) (\<lambda>db.
                   attempt (insert_events C now tenant task_id (\<lambda>_ _ db. db) evs' db) (\<lambda>(seqs, db).
                     Inr (seqs, bump_latest tenant task_id seqs db)))))))"

section \<open>Retention\<close>

text \<open>\<open>DELETE .. WHERE rowid IN (SELECT rowid .. WHERE P LIMIT batch)\<close>, until a batch is short.\<close>

fun delete_limit :: "('r \<Rightarrow> bool) \<Rightarrow> nat \<Rightarrow> 'r list \<Rightarrow> 'r list \<times> nat" where
  "delete_limit P n [] = ([], 0)"
| "delete_limit P n (r # rs) =
     (if n > 0 \<and> P r then (case delete_limit P (n - 1) rs of (rs', k) \<Rightarrow> (rs', k + 1))
      else (case delete_limit P n rs of (rs', k) \<Rightarrow> (r # rs', k)))"

lemma delete_limit_length: "delete_limit P n rs = (rs', k) \<Longrightarrow> length rs = length rs' + k"
  by (induction P n rs arbitrary: rs' k rule: delete_limit.induct) (auto split: if_splits prod.splits)

function delete_batches :: "('r \<Rightarrow> bool) \<Rightarrow> nat \<Rightarrow> 'r list \<Rightarrow> 'r list \<times> nat" where
  "delete_batches P batch rs = (case delete_limit P batch rs of (rs', n) \<Rightarrow>
     if n < batch \<or> batch = 0 then (rs', n)
     else (case delete_batches P batch rs' of (rs'', k) \<Rightarrow> (rs'', n + k)))"
  by pat_completeness auto
termination
  by (relation "measure (\<lambda>(P, batch, rs). length rs)") (auto dest!: delete_limit_length [OF sym])

declare delete_batches.simps [simp del]

definition sqlite_cleanup_expired ::
  "instant \<Rightarrow> ('t, 'e, 'a, 'c) sqlite \<Rightarrow> (storage_error + nat) \<times> ('t, 'e, 'a, 'c) sqlite" where
  "sqlite_cleanup_expired now db =
     (let rc = sq_retention db; batch = retention_batch rc; secs = int (datetime_now now);
          (deliveries, n1) = delete_batches (\<lambda>(_, r). dr_status r = ''GaveUp'' \<and> dr_expires_at r < systime_to_micros now)
             batch (sq_deliveries db);
          (evs, n2) = (if rc_event_ttl_seconds rc > 0
             then delete_batches (\<lambda>(_, (_, created)). int created < secs - int (rc_event_ttl_seconds rc))
               batch (sq_events db) else (sq_events db, 0));
          (rows, n3) = (if rc_task_ttl_seconds rc > 0
             then delete_batches (\<lambda>(_, r). tr_status_state r \<in> set TERMINAL_STATES_SQL \<and>
               int (tr_updated_at r) < secs - int (rc_task_ttl_seconds rc)) batch (sq_tasks db)
             else (sq_tasks db, 0));
          arts = (if rc_task_ttl_seconds rc > 0
             then fst (delete_batches (\<lambda>((t, tid, _), _). hm_get rows (t, tid) = None) batch (sq_artifacts db))
             else sq_artifacts db)
      in (Inr (n1 + n2 + n3), db\<lparr>sq_deliveries := deliveries, sq_events := evs, sq_tasks := rows,
            sq_artifacts := arts\<rparr>))"

end
