(* ===== verification/Sqlite_Artifacts.thy ===== *)
theory Sqlite_Artifacts
  imports Sqlite_Store
begin

text \<open>
  The separated artifacts of a task row: writing a reconcile plan and reading it back in manifest
  order gives the artifacts of the written task, whatever was stored before, when their ids are
  distinct. When two share an id, the read loses one of them.
\<close>

section \<open>What a row holds\<close>

definition entry_holds ::
  "('t, 'e, 'a, 'c) codec \<Rightarrow> pb_artifact set \<Rightarrow> string \<Rightarrow> string \<Rightarrow> (artifact_key, 'a \<times> string) hashmap \<Rightarrow>
   manifest_entry \<Rightarrow> pb_artifact \<Rightarrow> bool" where
  "entry_holds C A tn i m e a \<longleftrightarrow> me_artifact_id e = art_artifact_id a \<and> a \<in> A \<and>
     artifact_fingerprint C a = Inr (me_fingerprint e) \<and>
     (\<exists>body f. hm_get m (tn, i, art_artifact_id a) = Some (body, f) \<and> dec_artifact C body = Inr a)"

definition artifacts_hold ::
  "('t, 'e, 'a, 'c) codec \<Rightarrow> pb_artifact set \<Rightarrow> string \<Rightarrow> string \<Rightarrow> (artifact_key, 'a \<times> string) hashmap \<Rightarrow>
   manifest_entry list \<Rightarrow> pb_artifact list \<Rightarrow> bool" where
  "artifacts_hold C A tn i m manifest as \<longleftrightarrow> list_all2 (entry_holds C A tn i m) manifest as \<and>
     distinct (map art_artifact_id as) \<and>
     (\<forall>k. hm_get m (tn, i, k) \<noteq> None \<longrightarrow> k \<in> set (map me_artifact_id manifest))"

lemma holds_ids: "artifacts_hold C A tn i m manifest as \<Longrightarrow> map me_artifact_id manifest = map art_artifact_id as"
  unfolding artifacts_hold_def by (auto simp: list_all2_conv_all_nth entry_holds_def intro: nth_equalityI)

lemma holds_empty: "(\<And>k. hm_get m (tn, i, k) = None) \<Longrightarrow> artifacts_hold C A tn i m [] []"
  by (simp add: artifacts_hold_def)

lemma holds_in: "artifacts_hold C A tn i m manifest as \<Longrightarrow> a \<in> set as \<Longrightarrow> a \<in> A"
  unfolding artifacts_hold_def by (auto simp: list_all2_conv_all_nth entry_holds_def in_set_conv_nth)

lemma holds_cong:
  "(\<And>k. hm_get m' (tn, i, k) = hm_get m (tn, i, k)) \<Longrightarrow>
   artifacts_hold C A tn i m' manifest as = artifacts_hold C A tn i m manifest as"
proof -
  assume eq: "\<And>k. hm_get m' (tn, i, k) = hm_get m (tn, i, k)"
  then have "entry_holds C A tn i m' = entry_holds C A tn i m"
    by (simp add: fun_eq_iff entry_holds_def)
  then show ?thesis by (simp add: artifacts_hold_def eq)
qed

section \<open>Writing a plan\<close>

definition fp :: "('t, 'e, 'a, 'c) codec \<Rightarrow> pb_artifact \<Rightarrow> string" where
  "fp C a = projr (artifact_fingerprint C a)"

definition entry_of :: "('t, 'e, 'a, 'c) codec \<Rightarrow> pb_artifact \<Rightarrow> manifest_entry" where
  "entry_of C a = \<lparr>me_artifact_id = art_artifact_id a, me_fingerprint = fp C a\<rparr>"

lemma fingerprint_ok: "codec_ok C A \<Longrightarrow> a \<in> A \<Longrightarrow> artifact_fingerprint C a = Inr (fp C a)"
  unfolding codec_ok_def fp_def by (metis sum.collapse(2))

lemma fp_inj: "codec_ok C A \<Longrightarrow> a \<in> A \<Longrightarrow> b \<in> A \<Longrightarrow> fp C a = fp C b \<Longrightarrow> a = b"
  using fingerprint_ok [of C A a] fingerprint_ok [of C A b] unfolding codec_ok_def by simp

definition changed :: "('t, 'e, 'a, 'c) codec \<Rightarrow> manifest_entry list \<Rightarrow> pb_artifact \<Rightarrow> bool" where
  "changed C stored a \<longleftrightarrow> \<not> unchanged_in stored (art_artifact_id a) (fp C a)"

lemma reconcile_incoming_ok:
  assumes "codec_ok C A" and "set as \<subseteq> A"
  shows "reconcile_incoming C stored as =
    Inr (map (\<lambda>a. (a, fp C a)) (filter (changed C stored) as), map (entry_of C) as)"
  using assms(2)
proof (induction as)
  case (Cons a as)
  then have "artifact_fingerprint C a = Inr (fp C a)"
    using fingerprint_ok [OF assms(1)] by simp
  with Cons show ?case by (simp add: entry_of_def changed_def)
qed simp

lemma write_artifacts_ok:
  assumes "codec_ok C A" and "set as \<subseteq> A" and "distinct (map art_artifact_id as)"
  shows "\<exists>m'. write_artifacts C tn i (map (\<lambda>a. (a, fp C a)) as) m = Inr m' \<and>
    (\<forall>a \<in> set as. \<exists>body. dec_artifact C body = Inr a \<and>
       hm_get m' (tn, i, art_artifact_id a) = Some (body, fp C a)) \<and>
    (\<forall>tn' i' k. (tn', i') \<noteq> (tn, i) \<or> k \<notin> art_artifact_id ` set as \<longrightarrow>
       hm_get m' (tn', i', k) = hm_get m (tn', i', k)) \<and> (hm_wf m \<longrightarrow> hm_wf m')"
  using assms(2,3)
proof (induction as arbitrary: m)
  case (Cons a as)
  obtain body where b: "enc_artifact C a = Inr body" "dec_artifact C body = Inr a"
    using assms(1) Cons.prems(1) by (auto simp: codec_ok_def)
  let ?m = "hm_insert (tn, i, art_artifact_id a) (body, fp C a) m"
  have "set as \<subseteq> A" "distinct (map art_artifact_id as)" using Cons.prems by auto
  from Cons.IH [OF this, of ?m] obtain m' where
    IH: "write_artifacts C tn i (map (\<lambda>a. (a, fp C a)) as) ?m = Inr m'"
      "\<forall>a \<in> set as. \<exists>body. dec_artifact C body = Inr a \<and>
         hm_get m' (tn, i, art_artifact_id a) = Some (body, fp C a)"
      "\<And>tn' i' k. (tn', i') \<noteq> (tn, i) \<or> k \<notin> art_artifact_id ` set as \<Longrightarrow>
         hm_get m' (tn', i', k) = hm_get ?m (tn', i', k)" "hm_wf ?m \<longrightarrow> hm_wf m'" by blast
  have "art_artifact_id a \<notin> art_artifact_id ` set as" using Cons.prems(2) by simp
  then have "hm_get m' (tn, i, art_artifact_id a) = Some (body, fp C a)"
    using IH(3) [of tn i "art_artifact_id a"] by (simp add: hm_simps)
  moreover have "hm_get m' (tn', i', k) = hm_get m (tn', i', k)"
    if "(tn', i') \<noteq> (tn, i) \<or> k \<notin> art_artifact_id ` set (a # as)" for tn' i' k
    using that IH(3) [of tn' i' k] by (auto simp: hm_simps)
  moreover have "hm_wf m \<longrightarrow> hm_wf m'" using IH(4) by (simp add: hm_simps)
  ultimately show ?case using IH(1,2) b by (intro exI [of _ m']) auto
qed simp

text \<open>The deletes.\<close>

lemma foldl_remove_get:
  "hm_get (foldl (\<lambda>m i'. hm_remove (tn, i, i') m) m ds) k =
     (if \<exists>d \<in> set ds. k = (tn, i, d) then None else hm_get m k)"
  by (induction ds arbitrary: m) (auto simp: hm_simps)

lemma foldl_remove_wf: "hm_wf m \<Longrightarrow> hm_wf (foldl (\<lambda>m i'. hm_remove (tn, i, i') m) m ds)"
  by (induction ds arbitrary: m) (auto simp: hm_simps)

text \<open>
  The new artifacts hold after the plan is applied. An artifact the plan skips has the id and the
  fingerprint of a manifest entry, so its stored body is that artifact.
\<close>

lemma plan_holds:
  assumes C: "codec_ok C A" and as: "set as \<subseteq> A" "distinct (map art_artifact_id as)"
    and old: "artifacts_hold C A tn i (sq_artifacts db) stored bs"
  obtains plan m' where "reconcile C as stored = Inr plan" "rp_manifest plan = map (entry_of C) as"
    "\<And>x. sq_artifacts x = sq_artifacts db \<Longrightarrow>
      apply_artifact_plan C tn i plan x = Inr (x\<lparr>sq_artifacts := m'\<rparr>)"
    "artifacts_hold C A tn i m' (map (entry_of C) as) as"
    "\<And>tn' i' k. (tn', i') \<noteq> (tn, i) \<Longrightarrow> hm_get m' (tn', i', k) = hm_get (sq_artifacts db) (tn', i', k)"
    "hm_wf (sq_artifacts db) \<Longrightarrow> hm_wf m'"
proof -
  let ?m = "sq_artifacts db" and ?ws = "filter (changed C stored) as"
  let ?ds = "map me_artifact_id (filter (\<lambda>e. \<not> list_ex (\<lambda>a. art_artifact_id a = me_artifact_id e) as) stored)"
  have "set ?ws \<subseteq> A" "distinct (map art_artifact_id ?ws)"
    using as by (auto simp: distinct_map_filter)
  from write_artifacts_ok [OF C this, of tn i ?m] obtain m1 where
    m1: "write_artifacts C tn i (map (\<lambda>a. (a, fp C a)) ?ws) ?m = Inr m1"
      "\<And>a. a \<in> set ?ws \<Longrightarrow> \<exists>body. dec_artifact C body = Inr a \<and>
         hm_get m1 (tn, i, art_artifact_id a) = Some (body, fp C a)"
      "\<And>tn' i' k. (tn', i') \<noteq> (tn, i) \<or> k \<notin> art_artifact_id ` set ?ws \<Longrightarrow>
         hm_get m1 (tn', i', k) = hm_get ?m (tn', i', k)" "hm_wf ?m \<longrightarrow> hm_wf m1" by blast
  define m2 where "m2 = foldl (\<lambda>m d. hm_remove (tn, i, d) m) m1 ?ds"
  have other: "hm_get m2 (tn', i', k) = hm_get ?m (tn', i', k)" if "(tn', i') \<noteq> (tn, i)" for tn' i' k
    using that m1(3) [of tn' i' k] unfolding m2_def foldl_remove_get by auto
  have kept: "hm_get m2 (tn, i, art_artifact_id a) = hm_get m1 (tn, i, art_artifact_id a)" if "a \<in> set as" for a
    using that unfolding m2_def foldl_remove_get by (auto simp: list_ex_iff)
  have stored_body: "\<exists>body f. hm_get m2 (tn, i, art_artifact_id a) = Some (body, f) \<and> dec_artifact C body = Inr a"
    if a: "a \<in> set as" for a
  proof (cases "changed C stored a")
    case True
    with a m1(2) [of a] kept [OF a] show ?thesis by auto
  next
    case False
    then obtain e where e: "e \<in> set stored" "me_artifact_id e = art_artifact_id a" "me_fingerprint e = fp C a"
      by (auto simp: changed_def unchanged_in_def list_ex_iff)
    then obtain b where b: "entry_holds C A tn i ?m e b"
      using old by (auto simp: artifacts_hold_def list_all2_conv_all_nth in_set_conv_nth)
    then have "fp C b = fp C a" "b \<in> A" "a \<in> A"
      using e a as(1) by (auto simp: entry_holds_def fp_def)
    with fp_inj [OF C] have "b = a" by blast
    have "art_artifact_id a \<notin> art_artifact_id ` set ?ws"
    proof
      assume "art_artifact_id a \<in> art_artifact_id ` set ?ws"
      then obtain a' where "a' \<in> set ?ws" "art_artifact_id a' = art_artifact_id a" by auto
      with a as(2) have "a' = a" by (auto simp: distinct_map inj_on_def)
      with \<open>a' \<in> set ?ws\<close> False show False by simp
    qed
    with m1(3) [of tn i "art_artifact_id a"] b \<open>b = a\<close> kept [OF a] show ?thesis
      by (auto simp: entry_holds_def)
  qed
  have "list_all2 (entry_holds C A tn i m2) (map (entry_of C) as) as"
    using stored_body as(1) fingerprint_ok [OF C]
    by (auto simp: list_all2_map1 list_all2_same entry_holds_def entry_of_def)
  moreover have "k \<in> set (map me_artifact_id (map (entry_of C) as))" if k: "hm_get m2 (tn, i, k) \<noteq> None" for k
  proof (rule ccontr)
    assume "k \<notin> set (map me_artifact_id (map (entry_of C) as))"
    then have no: "k \<notin> art_artifact_id ` set as" by (auto simp: entry_of_def)
    then have "hm_get m1 (tn, i, k) = hm_get ?m (tn, i, k)" by (intro m1(3)) auto
    moreover have "hm_get m1 (tn, i, k) \<noteq> None" using k unfolding m2_def foldl_remove_get by (auto split: if_splits)
    ultimately have "hm_get ?m (tn, i, k) \<noteq> None" by simp
    then have "k \<in> set (map me_artifact_id stored)" using old unfolding artifacts_hold_def by blast
    then obtain e where "e \<in> set stored" "me_artifact_id e = k" by auto
    with no have "k \<in> set ?ds" by (force simp: list_ex_iff)
    with k show False unfolding m2_def foldl_remove_get by auto
  qed
  ultimately have h: "artifacts_hold C A tn i m2 (map (entry_of C) as) as"
    using as(2) by (simp add: artifacts_hold_def)
  let ?plan = "\<lparr>rp_writes = map (\<lambda>a. (a, fp C a)) ?ws, rp_deletes = ?ds, rp_manifest = map (entry_of C) as\<rparr>"
  show thesis
  proof (rule that)
    show "reconcile C as stored = Inr ?plan" by (simp add: reconcile_def reconcile_incoming_ok [OF C as(1)])
    show "apply_artifact_plan C tn i ?plan x = Inr (x\<lparr>sq_artifacts := m2\<rparr>)"
      if "sq_artifacts x = sq_artifacts db" for x
      by (simp add: apply_artifact_plan_def that m1(1) m2_def)
  qed (use h other m1(4) in \<open>simp_all add: m2_def foldl_remove_wf\<close>)
qed

section \<open>Reading it back\<close>

lemma artifact_rows_get:
  assumes "hm_wf m"
  shows "(k, body) \<in> set (artifact_rows tn i m) \<longleftrightarrow> (\<exists>f. hm_get m (tn, i, k) = Some (body, f))"
  using hm.entries_get [OF assms] by (force simp: artifact_rows_def hm_entries_def image_iff)

lemma distinct_artifact_rows:
  assumes "hm_wf m"
  shows "distinct (map fst (artifact_rows tn i m))"
proof -
  let ?rows = "filter (\<lambda>((t, tid, _), _). t = tn \<and> tid = i) m"
  have d: "distinct m" "inj_on fst (set m)" using assms by (simp_all add: hm_wf_def distinct_map)
  have "inj_on (\<lambda>((_, _, k), _). k) (set ?rows)"
  proof (rule inj_onI)
    fix x y assume xy: "x \<in> set ?rows" "y \<in> set ?rows" "(\<lambda>((_, _, k), _). k) x = (\<lambda>((_, _, k), _). k) y"
    then have "fst x = fst y" by (auto split: prod.splits)
    with d(2) xy(1,2) show "x = y" by (auto dest: inj_onD)
  qed
  moreover have "map fst (artifact_rows tn i m) = map (\<lambda>((_, _, k), _). k) ?rows"
    by (simp add: artifact_rows_def)
  ultimately show ?thesis using d(1) by (simp add: distinct_map)
qed

lemma decode_bodies_ok:
  assumes "\<And>k body. (k, body) \<in> set rows \<Longrightarrow> \<exists>a. dec_artifact C body = Inr a" and "distinct (map fst rows)"
  shows "\<exists>m'. decode_bodies C rows m = Inr m' \<and>
    (\<forall>k. hm_get m' k = (case map_of rows k of Some body \<Rightarrow> Some (projr (dec_artifact C body)) | None \<Rightarrow> hm_get m k))"
  using assms
proof (induction rows arbitrary: m)
  case (Cons r rows)
  obtain k body where r: "r = (k, body)" by fastforce
  obtain a where a: "dec_artifact C body = Inr a" using Cons.prems(1) r by auto
  from Cons.IH [of "hm_insert k a m"] Cons.prems obtain m' where
    m': "decode_bodies C rows (hm_insert k a m) = Inr m'"
      "\<forall>j. hm_get m' j = (case map_of rows j of Some body \<Rightarrow> Some (projr (dec_artifact C body))
         | None \<Rightarrow> hm_get (hm_insert k a m) j)" by auto
  have "map_of rows k = None" using Cons.prems(2) r by (auto simp: map_of_eq_None_iff)
  with m' a r show ?case by (auto simp: hm_simps split: option.splits)
qed simp

lemma rehydrate_ok:
  assumes "map me_artifact_id es = map art_artifact_id as"
    and "\<forall>a \<in> set as. hm_get records (art_artifact_id a) = Some a" and "distinct (map art_artifact_id as)"
  shows "rehydrate_in_manifest_order es records = as"
  using assms
proof (induction as arbitrary: es records)
  case (Cons a as)
  from Cons.prems(1) obtain e es' where es: "es = e # es'" "me_artifact_id e = art_artifact_id a"
    "map me_artifact_id es' = map art_artifact_id as" by (cases es) auto
  have "\<forall>b \<in> set as. hm_get (hm_remove (art_artifact_id a) records) (art_artifact_id b) = Some b"
  proof
    fix b assume b: "b \<in> set as"
    have "art_artifact_id a \<notin> art_artifact_id ` set as" using Cons.prems(3) by simp
    with imageI [OF b, of art_artifact_id] have "art_artifact_id b \<noteq> art_artifact_id a" by metis
    with b Cons.prems(2) show "hm_get (hm_remove (art_artifact_id a) records) (art_artifact_id b) = Some b"
      by (simp add: hm_simps)
  qed
  moreover have "distinct (map art_artifact_id as)" using Cons.prems(3) by simp
  ultimately have "rehydrate_in_manifest_order es' (hm_remove (art_artifact_id a) records) = as"
    by (rule Cons.IH [OF es(3)])
  moreover have "hm_get records (art_artifact_id a) = Some a" using Cons.prems(2) by simp
  ultimately show ?case by (simp add: es(1,2))
qed simp

theorem rehydrate_task_ok:
  assumes "dec_task C blob = Inr (t\<lparr>tk_artifacts := []\<rparr>)" and "task_try_from t = Inr t"
    and "artifacts_hold C A tn i (sq_artifacts db) manifest (tk_artifacts t)" and "hm_wf (sq_artifacts db)"
  shows "rehydrate_task C tn i blob manifest db = Inr t"
proof (cases "manifest = []")
  case True
  with assms(3) have "tk_artifacts t = []" by (simp add: artifacts_hold_def)
  then have "t\<lparr>tk_artifacts := []\<rparr> = t" by simp
  with True assms(1,2) show ?thesis by (simp add: rehydrate_task_def typed_def)
next
  case False
  let ?m = "sq_artifacts db" and ?as = "tk_artifacts t"
  let ?rows = "artifact_rows tn i ?m"
  have held: "\<exists>body f. hm_get ?m (tn, i, art_artifact_id a) = Some (body, f) \<and> dec_artifact C body = Inr a"
    if "a \<in> set ?as" for a
    using assms(3) that by (auto simp: artifacts_hold_def list_all2_conv_all_nth in_set_conv_nth entry_holds_def)
  have ids: "map me_artifact_id manifest = map art_artifact_id ?as" by (rule holds_ids [OF assms(3)])
  have dec: "\<exists>a. dec_artifact C body = Inr a" if row: "(k, body) \<in> set ?rows" for k body
  proof -
    obtain f where f: "hm_get ?m (tn, i, k) = Some (body, f)"
      using row unfolding artifact_rows_get [OF assms(4)] by blast
    then have "hm_get ?m (tn, i, k) \<noteq> None" by simp
    then have "k \<in> set (map me_artifact_id manifest)" using assms(3) unfolding artifacts_hold_def by blast
    then obtain a where a: "a \<in> set ?as" "art_artifact_id a = k" unfolding ids by auto
    from held [OF a(1)] f a(2) show ?thesis by auto
  qed
  have "\<exists>m'. decode_bodies C ?rows [] = Inr m' \<and> (\<forall>k. hm_get m' k = (case map_of ?rows k of
      Some body \<Rightarrow> Some (projr (dec_artifact C body)) | None \<Rightarrow> hm_get [] k))"
    using dec by (intro decode_bodies_ok distinct_artifact_rows [OF assms(4)])
  then obtain records where rec: "decode_bodies C ?rows [] = Inr records"
    "\<And>k. hm_get records k = (case map_of ?rows k of Some body \<Rightarrow> Some (projr (dec_artifact C body))
       | None \<Rightarrow> hm_get [] k)"
    by blast
  have "hm_get records (art_artifact_id a) = Some a" if "a \<in> set ?as" for a
  proof -
    from held [OF that] obtain body f where b: "hm_get ?m (tn, i, art_artifact_id a) = Some (body, f)"
      "dec_artifact C body = Inr a" by blast
    then have "(art_artifact_id a, body) \<in> set ?rows" unfolding artifact_rows_get [OF assms(4)] by blast
    then have "map_of ?rows (art_artifact_id a) = Some body"
      by (rule map_of_is_SomeI [OF distinct_artifact_rows [OF assms(4)]])
    with b(2) rec(2) [of "art_artifact_id a"] show ?thesis by simp
  qed
  then have "rehydrate_in_manifest_order manifest records = ?as"
    using assms(3) ids by (intro rehydrate_ok) (simp_all add: artifacts_hold_def)
  with False rec(1) assms(1,2) show ?thesis by (simp add: rehydrate_task_def typed_def)
qed

end
