(* ===== verification/Sqlite_Events.thy ===== *)
theory Sqlite_Events
  imports Sqlite_Artifacts
begin

text \<open>
  The event rows of the SQL backend against an in-memory log: while no row is deleted,
  \<open>MAX(event_sequence) + 1\<close> is the next number of the log's counter, and a replay reads the log.
\<close>

section \<open>Rows of one task\<close>

lemma hm_insert_fresh: "hm_get m k = None \<Longrightarrow> hm_insert k v m = m @ [(k, v)]"
  by (induction m) (auto simp: hm_get_def hm_insert_def split: if_splits)

lemma event_rows_append:
  "event_rows tn i (m @ [((tn', i', q), (data, at))]) =
     event_rows tn i m @ (if tn' = tn \<and> i' = i then [(q, data)] else [])"
  by (simp add: event_rows_def)

lemma fold_max: "fold max xs (n :: nat) = Max (insert n (set xs))"
  by (simp add: Max.set_eq_fold [symmetric])

lemma fold_max_append: "fold max (xs @ [y]) (n :: nat) = max y (fold max xs n)"
  by simp

lemma sequence_le: "(q, data) \<in> set (event_rows tn i (sq_events db)) \<Longrightarrow> q \<le> max_sequence tn i db"
  by (force simp: max_sequence_def fold_max intro: Max_ge)

lemma event_row_of: "hm_get m (tn, i, q) = Some (data, at) \<Longrightarrow> (q, data) \<in> set (event_rows tn i m)"
  by (force simp: event_rows_def dest: hm_get_in_set)

lemma next_sequence_free: "hm_get (sq_events db) (tn, i, max_sequence tn i db + 1) = None"
proof (rule ccontr)
  assume "hm_get (sq_events db) (tn, i, max_sequence tn i db + 1) \<noteq> None"
  then obtain data at where "hm_get (sq_events db) (tn, i, max_sequence tn i db + 1) = Some (data, at)"
    by (metis not_None_eq surj_pair)
  from sequence_le [OF event_row_of [OF this]] show False by simp
qed

text \<open>
  An insert: it takes the next number and adds a row at the end; with a codec that encodes the
  event it cannot fail.
\<close>

lemma insert_event_ok:
  assumes "codable_event C ev"
  obtains data db' E where "insert_event C now tn i ev db = Inr (max_sequence tn i db + 1, db')"
    "dec_event C data = Inr ev" "db' = db\<lparr>sq_events := E\<rparr>"
    "\<And>tn' i'. event_rows tn' i' (sq_events db') = event_rows tn' i' (sq_events db) @
       (if tn' = tn \<and> i' = i then [(max_sequence tn i db + 1, data)] else [])"
    "\<And>tn' i'. max_sequence tn' i' db' = (if tn' = tn \<and> i' = i then max_sequence tn i db + 1 else max_sequence tn' i' db)"
proof -
  obtain data where d: "enc_event C ev = Inr data" "dec_event C data = Inr ev"
    using assms unfolding codable_event_def by blast
  let ?q = "max_sequence tn i db + 1"
  let ?db = "db\<lparr>sq_events := sq_events db @ [((tn, i, ?q), (data, datetime_now now))]\<rparr>"
  have "insert_event C now tn i ev db = Inr (?q, ?db)"
    using d(1) next_sequence_free [of db tn i] by (simp add: insert_event_def Let_def hm_insert_fresh)
  then show thesis
    using d(2) refl by (rule that) (auto simp: event_rows_append max_sequence_def)
qed

section \<open>The rows as a log\<close>

definition row_logs :: "('t, 'e, 'a, 'c) codec \<Rightarrow> nat \<times> 'e \<Rightarrow> nat \<times> stream_event \<times> instant \<Rightarrow> bool" where
  "row_logs C r e \<longleftrightarrow> fst r = fst e \<and> dec_event C (snd r) = Inr (fst (snd e))"

definition log_refines ::
  "('t, 'e, 'a, 'c) codec \<Rightarrow> ('t, 'e, 'a, 'c) sqlite \<Rightarrow> store \<Rightarrow> string \<Rightarrow> string \<Rightarrow> bool" where
  "log_refines C db s tn i \<longleftrightarrow>
     list_all2 (row_logs C) (event_rows tn i (sq_events db)) (log_of s tn i) \<and>
     sorted_wrt (<) (map fst (log_of s tn i)) \<and> max_sequence tn i db = counter_of s tn i"

text \<open>What a commit does to the tables besides its task row: events, and markers where \<open>Q\<close>.\<close>

definition put_marker ::
  "instant \<Rightarrow> string \<Rightarrow> string \<Rightarrow> string \<Rightarrow> (stream_event \<Rightarrow> bool) \<Rightarrow> nat \<Rightarrow> stream_event \<Rightarrow>
   ('t, 'e, 'a, 'c) sqlite \<Rightarrow> ('t, 'e, 'a, 'c) sqlite" where
  "put_marker now tn i ow Q q ev db = (if Q ev
     then db\<lparr>sq_pending := hm_insert (tn, i, q) (ow, nat (systime_to_micros now)) (sq_pending db)\<rparr> else db)"

lemma write_marker_put:
  "sq_configs db = sq_configs db0 \<Longrightarrow> sq_push_dispatch_enabled db = sq_push_dispatch_enabled db0 \<Longrightarrow>
   write_marker now tn i ow q ev db = put_marker now tn i ow (\<lambda>ev. sq_push_dispatch_enabled db0 \<and>
     event_is_terminal ev \<and> is_status_update ev \<and>
     list_ex (\<lambda>((t, tid, _), _). t = tn \<and> tid = i) (sq_configs db0)) q ev db"
  by (simp add: write_marker_def put_marker_def)

definition marked :: "('t, 'e, 'a, 'c) sqlite \<Rightarrow> pending_dispatch_key \<Rightarrow> string option" where
  "marked db k = map_option fst (hm_get (sq_pending db) k)"

text \<open>The keys and owners of the markers after the rows of a commit.\<close>

fun markers_after ::
  "string \<Rightarrow> string \<Rightarrow> string \<Rightarrow> (stream_event \<Rightarrow> bool) \<Rightarrow> nat \<Rightarrow> stream_event list \<Rightarrow>
   (pending_dispatch_key \<Rightarrow> string option) \<Rightarrow> pending_dispatch_key \<Rightarrow> string option" where
  "markers_after tn i ow Q n [] f = f"
| "markers_after tn i ow Q n (e # es) f =
     markers_after tn i ow Q (Suc n) es (if Q e then f((tn, i, Suc n) := Some ow) else f)"

definition same_tables :: "('t, 'e, 'a, 'c) sqlite \<Rightarrow> ('t, 'e, 'a, 'c) sqlite \<Rightarrow> bool" where
  "same_tables db db' \<longleftrightarrow> sq_tasks db' = sq_tasks db \<and> sq_artifacts db' = sq_artifacts db \<and>
     sq_configs db' = sq_configs db \<and> sq_deliveries db' = sq_deliveries db \<and>
     sq_push_dispatch_enabled db' = sq_push_dispatch_enabled db \<and> sq_retention db' = sq_retention db"

lemma new_rows_Cons: "new_rows now n (e # es) = (Suc n, e, now) # new_rows now (Suc n) es"
  by (simp add: new_rows_def)

theorem insert_events_ok:
  assumes C: "\<forall>e \<in> set evs. codable_event C e"
    and mark: "\<And>q e x. sq_configs x = sq_configs db0 \<Longrightarrow>
      sq_push_dispatch_enabled x = sq_push_dispatch_enabled db0 \<Longrightarrow> mark q e x = put_marker now tn i ow Q q e x"
    and "sq_configs db = sq_configs db0" "sq_push_dispatch_enabled db = sq_push_dispatch_enabled db0"
  shows "\<exists>db' rows. insert_events C now tn i mark evs db =
      Inr (seq_range (max_sequence tn i db) (length evs), db') \<and> same_tables db db' \<and>
    list_all2 (row_logs C) rows (new_rows now (max_sequence tn i db) evs) \<and>
    (\<forall>tn' i'. event_rows tn' i' (sq_events db') = event_rows tn' i' (sq_events db) @
       (if tn' = tn \<and> i' = i then rows else []) \<and>
       max_sequence tn' i' db' = (if tn' = tn \<and> i' = i then max_sequence tn i db + length evs
         else max_sequence tn' i' db)) \<and>
    marked db' = markers_after tn i ow Q (max_sequence tn i db) evs (marked db)"
  using C assms(3,4)
proof (induction evs arbitrary: db)
  case Nil
  then show ?case by (simp add: same_tables_def new_rows_def)
next
  case (Cons e evs)
  let ?n = "max_sequence tn i db"
  obtain data db1 E where
    ie: "insert_event C now tn i e db = Inr (?n + 1, db1)" "dec_event C data = Inr e"
      "db1 = db\<lparr>sq_events := E\<rparr>"
      "\<And>tn' i'. event_rows tn' i' (sq_events db1) = event_rows tn' i' (sq_events db) @
         (if tn' = tn \<and> i' = i then [(?n + 1, data)] else [])"
      "\<And>tn' i'. max_sequence tn' i' db1 = (if tn' = tn \<and> i' = i then ?n + 1 else max_sequence tn' i' db)"
    by (rule insert_event_ok [of C e now tn i db], simp add: Cons.prems(1), rule that)
  define db2 where "db2 = put_marker now tn i ow Q (?n + 1) e db1"
  have ev2: "sq_events db2 = sq_events db1" by (simp add: db2_def put_marker_def)
  then have max2: "max_sequence tn' i' db2 = max_sequence tn' i' db1" for tn' i'
    by (simp add: max_sequence_def)
  have s1: "sq_tasks db1 = sq_tasks db" "sq_artifacts db1 = sq_artifacts db" "sq_configs db1 = sq_configs db"
    "sq_deliveries db1 = sq_deliveries db" "sq_push_dispatch_enabled db1 = sq_push_dispatch_enabled db"
    "sq_retention db1 = sq_retention db" "sq_pending db1 = sq_pending db"
    by (simp_all add: ie(3))
  then have st2: "same_tables db db2" by (simp add: same_tables_def db2_def put_marker_def)
  have m1: "mark (?n + 1) e db1 = db2"
    unfolding db2_def by (rule mark) (simp_all add: s1 Cons.prems(2,3))
  have "sq_configs db2 = sq_configs db0" "sq_push_dispatch_enabled db2 = sq_push_dispatch_enabled db0"
    using st2 Cons.prems(2,3) by (simp_all add: same_tables_def)
  from Cons.IH [OF _ this] Cons.prems(1) obtain db' rows where
    IH: "insert_events C now tn i mark evs db2 = Inr (seq_range (?n + 1) (length evs), db')" "same_tables db2 db'"
      "list_all2 (row_logs C) rows (new_rows now (?n + 1) evs)"
      "\<And>tn' i'. event_rows tn' i' (sq_events db') = event_rows tn' i' (sq_events db2) @
         (if tn' = tn \<and> i' = i then rows else [])"
      "\<And>tn' i'. max_sequence tn' i' db' = (if tn' = tn \<and> i' = i then ?n + 1 + length evs
         else max_sequence tn' i' db2)"
      "marked db' = markers_after tn i ow Q (?n + 1) evs (marked db2)"
    by (auto simp: max2 ie(5))
  have md: "marked db2 = (if Q e then (marked db)((tn, i, Suc ?n) := Some ow) else marked db)"
    by (auto simp: db2_def put_marker_def marked_def fun_eq_iff hm_simps s1)
  show ?case
  proof (intro exI [of _ db'] exI [of _ "(?n + 1, data) # rows"] conjI allI)
    show "insert_events C now tn i mark (e # evs) db = Inr (seq_range ?n (length (e # evs)), db')"
      using ie(1) IH(1) m1 by simp
    show "same_tables db db'" using st2 IH(2) by (simp add: same_tables_def)
    show "list_all2 (row_logs C) ((?n + 1, data) # rows) (new_rows now ?n (e # evs))"
      using IH(3) ie(2) by (simp add: new_rows_Cons row_logs_def)
    show "event_rows tn' i' (sq_events db') = event_rows tn' i' (sq_events db) @
        (if tn' = tn \<and> i' = i then (?n + 1, data) # rows else [])" for tn' i'
      by (simp add: IH(4) ev2 ie(4))
    show "max_sequence tn' i' db' = (if tn' = tn \<and> i' = i then ?n + length (e # evs) else max_sequence tn' i' db)"
      for tn' i' by (simp add: IH(5) max2 ie(5))
    show "marked db' = markers_after tn i ow Q ?n (e # evs) (marked db)"
      by (simp add: IH(6) md)
  qed
qed

section \<open>Replay\<close>

lemma decode_events_ok:
  assumes "list_all2 (row_logs C) rows log"
  shows "decode_events C rows = Inr (map (\<lambda>(q, e, _). (q, e)) log)"
  using assms by (induction rows log rule: list_all2_induct) (auto simp: row_logs_def)

lemma filter_log_rows:
  assumes "list_all2 (row_logs C) rows log"
  shows "list_all2 (row_logs C) (filter (\<lambda>(q, _). P q) rows) (filter (\<lambda>(q, _, _). P q) log)"
  using assms by (induction rows log rule: list_all2_induct) (auto simp: row_logs_def)

lemma log_rows_seqs: "list_all2 (row_logs C) rows log \<Longrightarrow> map fst rows = map fst log"
  by (induction rows log rule: list_all2_induct) (auto simp: row_logs_def)

theorem replay_refines:
  assumes "log_refines C db s tn i" and "after < 2 ^ 63"
  shows "sqlite_get_events_after C tn i after db = get_events_after tn i after s"
proof -
  let ?rows = "event_rows tn i (sq_events db)"
  have l: "list_all2 (row_logs C) ?rows (log_of s tn i)" and so: "sorted_wrt (<) (map fst (log_of s tn i))"
    using assms(1) by (auto simp: log_refines_def)
  have a: "as_signed after = int after" using assms(2) by (simp add: as_signed_def)
  let ?f = "filter (\<lambda>(q, _). after < q) ?rows"
  have "sorted (map fst ?rows)"
    using so log_rows_seqs [OF l] strict_sorted_imp_sorted by metis
  then have "sorted (map fst ?f)" by (rule sorted_filter)
  then have "sort_key fst ?f = ?f" by (rule sort_key_id_if_sorted)
  moreover have "filter (\<lambda>(q, _). as_signed after < int q) ?rows = ?f" by (simp add: a)
  ultimately have "sqlite_get_events_after C tn i after db =
      Inr (map (\<lambda>(q, e, _). (q, e)) (filter (\<lambda>(q, _, _). after < q) (log_of s tn i)))"
    using decode_events_ok [OF filter_log_rows [OF l, of "\<lambda>q. after < q"]]
    by (simp add: sqlite_get_events_after_def)
  then show ?thesis by (auto simp: get_events_after_def log_of_def split: option.splits)
qed

end
