(* ===== verification/Sqlite_Refine.thy ===== *)
theory Sqlite_Refine
  imports Sqlite_Events Store_Ops
begin

text \<open>
  The SQL backend refines the in-memory store: \<open>refines\<close> relates tables to a store, every commit
  of the server keeps the relation and answers the same, and related states answer every read
  alike. Retention is outside the relation: \<open>Sqlite_Typed\<close> shows where the two part.
\<close>

section \<open>The relation\<close>

definition well_typed :: "pb_task \<Rightarrow> bool" where
  "well_typed t \<longleftrightarrow> tk_id t \<noteq> [] \<and> (\<exists>s. task_state_of t = Some s)"

lemma well_typed_try: "task_try_from t = Inr t' \<longleftrightarrow> t' = t \<and> well_typed t"
  by (simp add: well_typed_def task_try_from_iff)

text \<open>A stored status carries its time, so a second write leaves it.\<close>

definition stamped :: "pb_task \<Rightarrow> bool" where
  "stamped t \<longleftrightarrow> (case tk_status t of None \<Rightarrow> True | Some st \<Rightarrow> st_timestamp st \<noteq> None)"

lemma stamped_stamp [simp]: "stamped (fst (stamp_status now t evs))"
  by (auto simp: stamped_def stamp_status_def Let_def split: option.splits)

lemma stamped_cong: "tk_status t' = tk_status t \<Longrightarrow> stamped t' = stamped t"
  by (simp add: stamped_def)

lemma stamp_stamped: "stamped t \<Longrightarrow> stamp_status now t [] = (t, [])"
  by (cases t) (auto simp: stamped_def stamp_status_def Let_def split: option.splits)

definition row_refines ::
  "('t, 'e, 'a, 'c) codec \<Rightarrow> pb_artifact set \<Rightarrow> string \<Rightarrow> string \<Rightarrow> ('t, 'e, 'a, 'c) sqlite \<Rightarrow> 't task_row \<Rightarrow>
   stored_task \<Rightarrow> bool" where
  "row_refines C A tn i db r x \<longleftrightarrow> tr_owner r = s_owner x \<and> well_typed (s_task x) \<and> stamped (s_task x) \<and>
     tk_id (s_task x) = i \<and> dec_task C (tr_task_json r) = Inr ((s_task x)\<lparr>tk_artifacts := []\<rparr>) \<and>
     artifacts_hold C A tn i (sq_artifacts db) (tr_artifact_manifest r) (tk_artifacts (s_task x)) \<and>
     tr_status_state r = status_state_str (s_task x) \<and>
     tr_latest_event_sequence r = s_latest_event_sequence x \<and>
     tr_cancel_requested r = s_cancel_requested x \<and> tr_lease_expires_at r = s_lease_expires_at x"

definition task_refines ::
  "('t, 'e, 'a, 'c) codec \<Rightarrow> pb_artifact set \<Rightarrow> string \<Rightarrow> string \<Rightarrow> ('t, 'e, 'a, 'c) sqlite \<Rightarrow> store \<Rightarrow> bool" where
  "task_refines C A tn i db s \<longleftrightarrow> (case get_stored s tn i of
       None \<Rightarrow> hm_get (sq_tasks db) (tn, i) = None \<and> (\<forall>k. hm_get (sq_artifacts db) (tn, i, k) = None)
     | Some x \<Rightarrow> (\<exists>r. hm_get (sq_tasks db) (tn, i) = Some r \<and> row_refines C A tn i db r x))"

definition config_refines ::
  "('t, 'e, 'a, 'c) codec \<Rightarrow> push_config_key \<times> 'c config_row \<Rightarrow> push_config_key \<times> stored_push_config \<Rightarrow> bool" where
  "config_refines C r x \<longleftrightarrow> fst r = fst x \<and> dec_config C (cr_config_json (snd r)) = Inr (spc_config (snd x)) \<and>
     cr_registered_after_event_sequence (snd r) = spc_registered_after_event_sequence (snd x) \<and>
     snd (snd (fst x)) = pc_id (spc_config (snd x))"

definition configs_refine ::
  "('t, 'e, 'a, 'c) codec \<Rightarrow> (push_config_key, 'c config_row) hashmap \<Rightarrow>
   (push_config_key, stored_push_config) hashmap \<Rightarrow> bool" where
  "configs_refine C rows m \<longleftrightarrow> list_all2 (config_refines C) rows m \<and> hm_wf m"

lemma configs_refine_any:
  assumes "configs_refine C rows m"
  shows "list_ex (\<lambda>((t, tid, _), _). t = tn \<and> tid = i) rows = list_ex (\<lambda>((t, tid, _), _). t = tn \<and> tid = i) m"
proof -
  have "list_all2 (config_refines C) rows m" using assms by (simp add: configs_refine_def)
  then show ?thesis
    by (induction rows m rule: list_all2_induct) (auto simp: config_refines_def)
qed

definition refines ::
  "('t, 'e, 'a, 'c) codec \<Rightarrow> pb_artifact set \<Rightarrow> ('t, 'e, 'a, 'c) sqlite \<Rightarrow> store \<Rightarrow> bool" where
  "refines C A db s \<longleftrightarrow> hm_wf (sq_artifacts db) \<and> (\<forall>tn i. task_refines C A tn i db s) \<and>
     (\<forall>tn i. log_refines C db s tn i) \<and> configs_refine C (sq_configs db) (push_configs s) \<and>
     sq_push_dispatch_enabled db = push_dispatch_enabled s \<and>
     (\<forall>k. marked db k = map_option spd_owner (hm_get (pending_dispatches s) k))"

lemma refines_new: "refines C A (sqlite_new b rc) (with_push_dispatch_enabled b store_new)"
  by (simp add: refines_def sqlite_new_def with_push_dispatch_enabled_def store_new_def task_refines_def
      get_stored_def log_refines_def log_of_def counter_of_def event_rows_def max_sequence_def marked_def
      configs_refine_def)

section \<open>Reads\<close>

lemma task_refines_cases:
  assumes "task_refines C A tn i db s"
  obtains (absent) "get_stored s tn i = None" "hm_get (sq_tasks db) (tn, i) = None"
      "\<And>k. hm_get (sq_artifacts db) (tn, i, k) = None"
  | (here) r x where "get_stored s tn i = Some x" "hm_get (sq_tasks db) (tn, i) = Some r"
      "row_refines C A tn i db r x"
  using assms by (auto simp: task_refines_def split: option.splits)

lemma rehydrate_refines:
  assumes "row_refines C A tn i db r x" and "hm_wf (sq_artifacts db)"
  shows "rehydrate_task C tn i (tr_task_json r) (tr_artifact_manifest r) db = Inr (s_task x)"
  using assms by (intro rehydrate_task_ok [where A = A]) (auto simp: row_refines_def well_typed_try)

theorem get_task_refines:
  assumes "refines C A db s"
  shows "sqlite_get_task C tn i ow n db = get_task tn i ow n s"
proof -
  have wf: "hm_wf (sq_artifacts db)" and t: "task_refines C A tn i db s" using assms by (auto simp: refines_def)
  from t show ?thesis
  proof (cases rule: task_refines_cases)
    case absent
    then show ?thesis by (simp add: sqlite_get_task_def owned_row_def get_task_def)
  next
    case (here r x)
    then have "tr_owner r = s_owner x" by (simp add: row_refines_def)
    with here rehydrate_refines [OF here(3) wf] show ?thesis
      by (simp add: sqlite_get_task_def owned_row_def get_task_def)
  qed
qed

theorem latest_refines: "refines C A db s \<Longrightarrow> sqlite_latest_sequence tn i db = latest_sequence tn i s"
  by (simp add: refines_def log_refines_def sqlite_latest_sequence_def latest_sequence_def)

section \<open>Pieces of the commits\<close>

lemma stamp_status_strip:
  "stamp_status now (t\<lparr>tk_artifacts := x\<rparr>) evs = (let (t', evs') = stamp_status now t evs in (t'\<lparr>tk_artifacts := x\<rparr>, evs'))"
  by (cases "tk_status t") (simp_all add: stamp_status_def Let_def)

lemma stamp_well_typed: "well_typed (fst (stamp_status now t evs)) = well_typed t"
  by (simp add: well_typed_def)

lemma strip_well_typed [simp]: "well_typed (t\<lparr>tk_artifacts := x\<rparr>) = well_typed t"
  by (simp add: well_typed_def)

lemma split_task_ok:
  assumes "storable_task C t" and "well_typed t"
  shows "\<exists>blob. split_task C t = Inr (blob, tk_artifacts t) \<and> dec_task C blob = Inr (t\<lparr>tk_artifacts := []\<rparr>)"
proof -
  obtain blob where "enc_task C (t\<lparr>tk_artifacts := []\<rparr>) = Inr blob" "dec_task C blob = Inr (t\<lparr>tk_artifacts := []\<rparr>)"
    using assms(1) unfolding storable_task_def codable_task_def by blast
  moreover have "task_try_from (t\<lparr>tk_artifacts := []\<rparr>) = Inr (t\<lparr>tk_artifacts := []\<rparr>)"
    using assms(2) by (simp add: well_typed_try)
  ultimately show ?thesis by (simp add: split_task_def typed_def)
qed

lemma inj_wire_name: "inj wire_name"
proof -
  have "from_wire_name (wire_name s) = Some s" for s
    by (cases s) (simp_all add: from_wire_name_def wire_name_def pb_from_str_name_def pb_all_def)
  then show ?thesis by (metis injI option.inject)
qed

lemma wire_name_terminal: "wire_name s \<in> set TERMINAL_STATES_SQL \<longleftrightarrow> is_terminal s"
  by (simp add: TERMINAL_STATES_SQL_def is_terminal_def inj_wire_name inj_image_mem_iff)

lemma status_state_terminal:
  "well_typed t \<Longrightarrow> status_state_str t \<in> set TERMINAL_STATES_SQL \<longleftrightarrow>
     (case task_state_of t of Some s \<Rightarrow> is_terminal s | None \<Rightarrow> False)"
  by (auto simp: status_state_str_def well_typed_def wire_name_terminal)

text \<open>A commit writes one task's row and artifacts; the rows of the others are as before.\<close>

lemma task_refines_other:
  assumes "task_refines C A tn' i' db s" and "get_stored s' tn' i' = get_stored s tn' i'"
    and "hm_get (sq_tasks db') (tn', i') = hm_get (sq_tasks db) (tn', i')"
    and "\<And>k. hm_get (sq_artifacts db') (tn', i', k) = hm_get (sq_artifacts db) (tn', i', k)"
  shows "task_refines C A tn' i' db' s'"
  using assms(1-3)
  by (simp add: task_refines_def row_refines_def assms(4) holds_cong [OF assms(4)] split: option.splits)

lemma log_refines_commit:
  assumes old: "\<And>tn i. log_refines C db s tn i" and "list_all2 (row_logs C) rows (new_rows now (max_sequence tn i db) evs)"
    and rows: "\<And>tn' i'. event_rows tn' i' (sq_events db') = event_rows tn' i' (sq_events db) @
       (if tn' = tn \<and> i' = i then rows else [])"
    and mx: "\<And>tn' i'. max_sequence tn' i' db' = (if tn' = tn \<and> i' = i then max_sequence tn i db + length evs
         else max_sequence tn' i' db)"
    and s': "log_of s' = log_of (snd (commit_events now tn i evs s))"
      "counter_of s' = counter_of (snd (commit_events now tn i evs s))"
  shows "log_refines C db' s' tn' i'"
proof -
  have o: "list_all2 (row_logs C) (event_rows tn' i' (sq_events db)) (log_of s tn' i')"
    "sorted_wrt (<) (map fst (log_of s tn' i'))" "max_sequence tn' i' db = counter_of s tn' i'"
    using old [of tn' i'] by (auto simp: log_refines_def)
  show ?thesis
  proof (cases "tn' = tn \<and> i' = i")
    case False
    then show ?thesis using o by (auto simp: log_refines_def rows mx s' commit_events_log commit_events_counter)
  next
    case True
    have le: "fst e \<le> max_sequence tn i db" if "e \<in> set (log_of s tn i)" for e
    proof -
      have "fst e \<in> set (map fst (event_rows tn i (sq_events db)))"
        using that log_rows_seqs [OF o(1)] True by simp
      then obtain data where "(fst e, data) \<in> set (event_rows tn i (sq_events db))" by auto
      then show ?thesis by (rule sequence_le)
    qed
    have c: "counter_of s tn i = max_sequence tn i db" using o(3) True by simp
    have "sorted_wrt (<) (map fst (log_of s tn i @ new_rows now (max_sequence tn i db) evs))"
      using o(2) True
      by (auto simp: sorted_wrt_append map_fst_new_rows sorted_seq_range dest!: le)
    then show ?thesis
      using True o assms(2)
      by (auto simp: log_refines_def rows mx s' commit_events_log commit_events_counter c intro: list_all2_appendI)
  qed
qed

lemma markers_after_write:
  "(\<And>k. f k = map_option spd_owner (hm_get m k)) \<Longrightarrow>
   markers_after tn i ow (\<lambda>e. event_is_terminal e \<and> is_status_update e) n evs f k =
     map_option spd_owner (hm_get (write_markers now tn i ow (new_rows now n evs) m) k)"
  by (induction evs arbitrary: n f m) (auto simp: new_rows_Cons new_rows_def hm_simps simp del: split_paired_All)

lemma markers_after_none: "(\<And>e. \<not> Q e) \<Longrightarrow> markers_after tn i ow Q n evs f = f"
  by (induction evs arbitrary: n f) auto

lemma fold_max_range: "fold max (seq_range n k) 0 = (if k = 0 then 0 else n + k)"
  using extend_latest_seq_range [of 0 n k] by (simp add: extend_latest_def)

lemma bump_latest_row:
  assumes "hm_get (sq_tasks db) (tn, i) = Some r"
  shows "bump_latest tn i (seq_range n k) db = db\<lparr>sq_tasks := sq_tasks (bump_latest tn i (seq_range n k) db)\<rparr>"
    and "hm_get (sq_tasks (bump_latest tn i (seq_range n k) db)) (tn', i') = (if tn' = tn \<and> i' = i
      then Some (r\<lparr>tr_latest_event_sequence := if k = 0 then tr_latest_event_sequence r
        else max (tr_latest_event_sequence r) (n + k)\<rparr>) else hm_get (sq_tasks db) (tn', i'))"
  using assms by (auto simp: bump_latest_def put_row_def fold_max_range hm_simps)

section \<open>The commits keep the relation\<close>

lemma refines_commit:
  assumes "refines C A db s" and "hm_wf (sq_artifacts db')" and "task_refines C A tn i db' s'"
    and "\<And>tn' i'. (tn', i') \<noteq> (tn, i) \<Longrightarrow> get_stored s' tn' i' = get_stored s tn' i'"
    and "\<And>tn' i'. (tn', i') \<noteq> (tn, i) \<Longrightarrow> hm_get (sq_tasks db') (tn', i') = hm_get (sq_tasks db) (tn', i')"
    and "\<And>tn' i' k. (tn', i') \<noteq> (tn, i) \<Longrightarrow>
      hm_get (sq_artifacts db') (tn', i', k) = hm_get (sq_artifacts db) (tn', i', k)"
    and "\<And>tn' i'. log_refines C db' s' tn' i'"
    and "sq_configs db' = sq_configs db" "push_configs s' = push_configs s"
    and "sq_push_dispatch_enabled db' = sq_push_dispatch_enabled db" "push_dispatch_enabled s' = push_dispatch_enabled s"
    and "\<And>k. marked db' k = map_option spd_owner (hm_get (pending_dispatches s') k)"
  shows "refines C A db' s'"
proof -
  have "task_refines C A tn' i' db' s'" for tn' i'
  proof (cases "(tn', i') = (tn, i)")
    case False
    have "task_refines C A tn' i' db s" using assms(1) by (simp add: refines_def)
    from task_refines_other [OF this assms(4,5,6) [OF False]] show ?thesis .
  qed (use assms(3) in simp)
  with assms show ?thesis by (simp add: refines_def del: split_paired_All)
qed

lemma insert_task_row_ok:
  assumes C: "codec_ok C A" and S: "storable_task C t" and "well_typed t" and "distinct (map art_artifact_id (tk_artifacts t))"
    and "set (tk_artifacts t) \<subseteq> A" and "hm_get (sq_tasks db) (tn, tk_id t) = None"
    and "\<And>k. hm_get (sq_artifacts db) (tn, tk_id t, k) = None" and "hm_wf (sq_artifacts db)"
  shows "\<exists>r m. insert_task_row C c now tn ow t db = Inr (put_row tn (tk_id t) r db\<lparr>sq_artifacts := m\<rparr>) \<and>
    tr_owner r = ow \<and> dec_task C (tr_task_json r) = Inr (t\<lparr>tk_artifacts := []\<rparr>) \<and>
    tr_status_state r = status_state_str t \<and> \<not> tr_cancel_requested r \<and> tr_latest_event_sequence r = 0 \<and>
    tr_lease_expires_at r = None \<and>
    artifacts_hold C A tn (tk_id t) m (tr_artifact_manifest r) (tk_artifacts t) \<and> hm_wf m \<and>
    (\<forall>tn' i' k. (tn', i') \<noteq> (tn, tk_id t) \<longrightarrow> hm_get m (tn', i', k) = hm_get (sq_artifacts db) (tn', i', k))"
proof -
  obtain blob where b: "split_task C t = Inr (blob, tk_artifacts t)" "dec_task C blob = Inr (t\<lparr>tk_artifacts := []\<rparr>)"
    using split_task_ok [OF S assms(3)] by blast
  obtain plan m where p: "reconcile C (tk_artifacts t) [] = Inr plan" "rp_manifest plan = map (entry_of C) (tk_artifacts t)"
    "\<And>x. sq_artifacts x = sq_artifacts db \<Longrightarrow> apply_artifact_plan C tn (tk_id t) plan x = Inr (x\<lparr>sq_artifacts := m\<rparr>)"
    "artifacts_hold C A tn (tk_id t) m (map (entry_of C) (tk_artifacts t)) (tk_artifacts t)"
    "\<And>tn' i' k. (tn', i') \<noteq> (tn, tk_id t) \<Longrightarrow> hm_get m (tn', i', k) = hm_get (sq_artifacts db) (tn', i', k)"
    "hm_wf (sq_artifacts db) \<Longrightarrow> hm_wf m"
    by (rule plan_holds [OF C assms(5,4) holds_empty [OF assms(7)]], rule that)
  define r where "r = \<lparr>tr_owner = ow, tr_task_json = blob, tr_context_id = tk_context_id t,
    tr_status_state = status_state_str t, tr_status_timestamp = task_sort_key c t,
    tr_cancel_requested = False, tr_latest_event_sequence = 0, tr_lease_expires_at = None,
    tr_artifact_manifest = rp_manifest plan, tr_updated_at = datetime_now now\<rparr>"
  have "sq_artifacts (put_row tn (tk_id t) r db) = sq_artifacts db" by (simp add: put_row_def)
  from p(3) [OF this] have "insert_task_row C c now tn ow t db =
      Inr (put_row tn (tk_id t) r db\<lparr>sq_artifacts := m\<rparr>)"
    by (simp add: insert_task_row_def b(1) p(1) assms(6) r_def)
  moreover have "hm_wf m" using p(6) assms(8) .
  ultimately show ?thesis
    using b(2) p(2,4,5) by (intro exI [of _ r] exI [of _ m]) (simp add: r_def)
qed

lemma put_row_fields [simp]:
  "sq_artifacts (put_row tn i r db) = sq_artifacts db" "sq_events (put_row tn i r db) = sq_events db"
  "sq_configs (put_row tn i r db) = sq_configs db" "sq_pending (put_row tn i r db) = sq_pending db"
  "sq_push_dispatch_enabled (put_row tn i r db) = sq_push_dispatch_enabled db"
  "hm_get (sq_tasks (put_row tn i r db)) k = (if k = (tn, i) then Some r else hm_get (sq_tasks db) k)"
  by (simp_all add: put_row_def hm_simps)

lemma max_sequence_events:
  "sq_events db' = sq_events db \<Longrightarrow> max_sequence tn i db' = max_sequence tn i db"
  by (simp add: max_sequence_def)

text \<open>
  The events of a commit on tables \<open>db1\<close> that already hold its task row: they are appended, the
  row's floor is bumped, everything else is as it was.
\<close>

lemma commit_tail:
  assumes C: "\<forall>e \<in> set evs. codable_event C e"
    and mark: "\<And>q e x. sq_configs x = sq_configs db1 \<Longrightarrow>
      sq_push_dispatch_enabled x = sq_push_dispatch_enabled db1 \<Longrightarrow> mark q e x = put_marker now tn i ow Q q e x"
    and row: "hm_get (sq_tasks db1) (tn, i) = Some r" and old: "\<And>tn' i'. log_refines C db1 s tn' i'"
    and s': "log_of s' = log_of (snd (commit_events now tn i evs s))"
      "counter_of s' = counter_of (snd (commit_events now tn i evs s))"
  shows "\<exists>db2 db'. insert_events C now tn i mark evs db1 = Inr (seq_range (counter_of s tn i) (length evs), db2) \<and>
    db' = bump_latest tn i (seq_range (counter_of s tn i) (length evs)) db2 \<and>
    sq_artifacts db' = sq_artifacts db1 \<and> sq_configs db' = sq_configs db1 \<and>
    sq_push_dispatch_enabled db' = sq_push_dispatch_enabled db1 \<and>
    (\<forall>tn' i'. hm_get (sq_tasks db') (tn', i') = (if tn' = tn \<and> i' = i
       then Some (r\<lparr>tr_latest_event_sequence := if evs = [] then tr_latest_event_sequence r
         else max (tr_latest_event_sequence r) (counter_of s tn i + length evs)\<rparr>)
       else hm_get (sq_tasks db1) (tn', i'))) \<and>
    (\<forall>tn' i'. log_refines C db' s' tn' i') \<and>
    marked db' = markers_after tn i ow Q (counter_of s tn i) evs (marked db1)"
proof -
  let ?n = "counter_of s tn i"
  have n: "max_sequence tn i db1 = ?n" using old [of tn i] by (simp add: log_refines_def)
  have "\<exists>db2 rows. insert_events C now tn i mark evs db1 = Inr (seq_range (max_sequence tn i db1) (length evs), db2) \<and>
      same_tables db1 db2 \<and> list_all2 (row_logs C) rows (new_rows now (max_sequence tn i db1) evs) \<and>
      (\<forall>tn' i'. event_rows tn' i' (sq_events db2) = event_rows tn' i' (sq_events db1) @
         (if tn' = tn \<and> i' = i then rows else []) \<and>
         max_sequence tn' i' db2 = (if tn' = tn \<and> i' = i then max_sequence tn i db1 + length evs
           else max_sequence tn' i' db1)) \<and>
      marked db2 = markers_after tn i ow Q (max_sequence tn i db1) evs (marked db1)"
    by (rule insert_events_ok [OF C]) (rule mark, assumption+, rule refl, rule refl)
  then obtain db2 rows where E: "insert_events C now tn i mark evs db1 = Inr (seq_range ?n (length evs), db2) \<and>
      same_tables db1 db2 \<and> list_all2 (row_logs C) rows (new_rows now ?n evs) \<and>
      (\<forall>tn' i'. event_rows tn' i' (sq_events db2) = event_rows tn' i' (sq_events db1) @
         (if tn' = tn \<and> i' = i then rows else []) \<and>
         max_sequence tn' i' db2 = (if tn' = tn \<and> i' = i then ?n + length evs else max_sequence tn' i' db1)) \<and>
      marked db2 = markers_after tn i ow Q ?n evs (marked db1)"
    unfolding n by (elim exE)
  have e: "insert_events C now tn i mark evs db1 = Inr (seq_range ?n (length evs), db2)" "same_tables db1 db2"
      "list_all2 (row_logs C) rows (new_rows now ?n evs)"
      "\<And>tn' i'. event_rows tn' i' (sq_events db2) = event_rows tn' i' (sq_events db1) @
         (if tn' = tn \<and> i' = i then rows else [])"
      "\<And>tn' i'. max_sequence tn' i' db2 = (if tn' = tn \<and> i' = i then ?n + length evs else max_sequence tn' i' db1)"
      "marked db2 = markers_after tn i ow Q ?n evs (marked db1)"
    using E by blast+
  let ?db' = "bump_latest tn i (seq_range ?n (length evs)) db2"
  have row2: "hm_get (sq_tasks db2) (tn, i) = Some r" using e(2) row by (simp add: same_tables_def)
  note b = bump_latest_row [OF row2, of ?n "length evs"]
  have fields: "sq_artifacts ?db' = sq_artifacts db2" "sq_configs ?db' = sq_configs db2" "sq_events ?db' = sq_events db2"
    "sq_push_dispatch_enabled ?db' = sq_push_dispatch_enabled db2" "sq_pending ?db' = sq_pending db2"
    by (subst b(1), simp)+
  have mx: "max_sequence x y ?db' = max_sequence x y db2" for x y
    by (rule max_sequence_events) (rule fields(3))
  have L: "log_refines C ?db' s' tn' i'" for tn' i'
    by (rule log_refines_commit [OF old, where rows = rows and now = now and evs = evs and tn = tn and i = i])
      (simp_all add: n mx e(3-5) fields s')
  have T: "hm_get (sq_tasks ?db') (tn', i') = (if tn' = tn \<and> i' = i
       then Some (r\<lparr>tr_latest_event_sequence := if evs = [] then tr_latest_event_sequence r
         else max (tr_latest_event_sequence r) (?n + length evs)\<rparr>)
       else hm_get (sq_tasks db1) (tn', i'))" for tn' i'
    using b(2) [of tn' i'] e(2) by (simp add: same_tables_def)
  have M: "marked ?db' = markers_after tn i ow Q ?n evs (marked db1)"
    using e(6) by (simp add: marked_def fun_eq_iff fields)
  have F: "sq_artifacts ?db' = sq_artifacts db1" "sq_configs ?db' = sq_configs db1"
    "sq_push_dispatch_enabled ?db' = sq_push_dispatch_enabled db1"
    using e(2) by (simp_all add: fields same_tables_def)
  show ?thesis
    by (intro exI [of _ db2] exI [of _ ?db'] conjI allI) (rule e(1) refl F T L M)+
qed

end
