(* ===== verification/Sqlite_Commits.thy ===== *)
theory Sqlite_Commits
  imports Sqlite_Refine
begin

text \<open>
  Every commit the server makes, run on related tables and store, answers alike and leaves them
  related. \<open>masked\<close> is the one difference in the answers: a row of another owner is not found by
  a SQL statement, the in-memory store names the mismatch.
\<close>

section \<open>Answers\<close>

definition masked :: "storage_error + 'a \<Rightarrow> storage_error + 'a" where
  "masked r = (case r of Inl (SE_OwnerMismatch i) \<Rightarrow> Inl (SE_TaskNotFound i) | _ \<Rightarrow> r)"

lemma masked_simps [simp]:
  "masked (Inr x) = Inr x" "masked (Inl (SE_OwnerMismatch i)) = Inl (SE_TaskNotFound i)"
  "masked (Inl (SE_TaskNotFound i)) = Inl (SE_TaskNotFound i)" "masked (Inl (SE_TypeError e)) = Inl (SE_TypeError e)"
  "masked (Inl (SE_TerminalState i st)) = Inl (SE_TerminalState i st)"
  "masked (Inl (SE_InvalidTransition i c n)) = Inl (SE_InvalidTransition i c n)"
  "masked (Inl (SE_TerminalStateAlreadySet i w)) = Inl (SE_TerminalStateAlreadySet i w)"
  by (simp_all add: masked_def)

section \<open>Commits in general\<close>

lemma refines_marked:
  "refines C A db s \<Longrightarrow> marked db k = map_option spd_owner (hm_get (pending_dispatches s) k)"
  by (simp add: refines_def del: split_paired_All)

text \<open>A commit that writes one task and no event.\<close>

lemma refines_quiet:
  assumes R: "refines C A db s" and "hm_wf (sq_artifacts db')" and "task_refines C A tn i db' s'"
    and "\<And>tn' i'. (tn', i') \<noteq> (tn, i) \<Longrightarrow> get_stored s' tn' i' = get_stored s tn' i'"
    and "\<And>tn' i'. (tn', i') \<noteq> (tn, i) \<Longrightarrow> hm_get (sq_tasks db') (tn', i') = hm_get (sq_tasks db) (tn', i')"
    and "\<And>tn' i' k. (tn', i') \<noteq> (tn, i) \<Longrightarrow>
      hm_get (sq_artifacts db') (tn', i', k) = hm_get (sq_artifacts db) (tn', i', k)"
    and db': "sq_events db' = sq_events db" "sq_configs db' = sq_configs db" "sq_pending db' = sq_pending db"
      "sq_push_dispatch_enabled db' = sq_push_dispatch_enabled db"
    and s': "events s' = events s" "event_counters s' = event_counters s" "push_configs s' = push_configs s"
      "pending_dispatches s' = pending_dispatches s" "push_dispatch_enabled s' = push_dispatch_enabled s"
  shows "refines C A db' s'"
proof -
  have "log_refines C db' s' tn' i'" for tn' i'
  proof -
    have "log_refines C db s tn' i'" using R by (simp add: refines_def)
    then show ?thesis
      by (simp add: log_refines_def log_of_def counter_of_def s' db' max_sequence_events [OF db'(1)])
  qed
  moreover have "marked db' k = map_option spd_owner (hm_get (pending_dispatches s') k)" for k
    using refines_marked [OF R, of k] by (simp add: marked_def db' s')
  ultimately show ?thesis using assms by (intro refines_commit [OF R]) simp_all
qed

text \<open>A commit that writes one task and then its events.\<close>

lemma refines_events:
  assumes C: "\<forall>e \<in> set evs. codable_event C e" and R: "refines C A db s"
    and db1: "db1 = put_row tn i r db\<lparr>sq_artifacts := m\<rparr>" and "hm_wf m"
    and m: "\<And>tn' i' k. (tn', i') \<noteq> (tn, i) \<Longrightarrow> hm_get m (tn', i', k) = hm_get (sq_artifacts db) (tn', i', k)"
    and row: "row_refines C A tn i db1 r x"
    and mark: "\<And>q e y. sq_configs y = sq_configs db \<Longrightarrow>
      sq_push_dispatch_enabled y = sq_push_dispatch_enabled db \<Longrightarrow> mark q e y = put_marker now tn i ow Q q e y"
    and s1: "tasks s1 = tasks s" "push_configs s1 = push_configs s" "push_dispatch_enabled s1 = push_dispatch_enabled s"
      "log_of s1 = log_of (snd (commit_events now tn i evs s))"
      "counter_of s1 = counter_of (snd (commit_events now tn i evs s))"
      "\<And>k. markers_after tn i ow Q (counter_of s tn i) evs
         (\<lambda>k. map_option spd_owner (hm_get (pending_dispatches s) k)) k =
         map_option spd_owner (hm_get (pending_dispatches s1) k)"
    and s': "s' = put_stored tn i (x\<lparr>s_latest_event_sequence := if evs = [] then s_latest_event_sequence x
        else max (s_latest_event_sequence x) (counter_of s tn i + length evs)\<rparr>) s1"
  shows "\<exists>db2. insert_events C now tn i mark evs db1 = Inr (seq_range (counter_of s tn i) (length evs), db2) \<and>
    refines C A (bump_latest tn i (seq_range (counter_of s tn i) (length evs)) db2) s' \<and>
    (\<exists>r'. hm_get (sq_tasks (bump_latest tn i (seq_range (counter_of s tn i) (length evs)) db2)) (tn, i) = Some r' \<and>
       tr_task_json r' = tr_task_json r \<and> tr_artifact_manifest r' = tr_artifact_manifest r)"
proof -
  have db1_get: "hm_get (sq_tasks db1) k = (if k = (tn, i) then Some r else hm_get (sq_tasks db) k)" for k
    by (simp add: db1)
  have f1: "sq_events db1 = sq_events db" "sq_configs db1 = sq_configs db" "sq_pending db1 = sq_pending db"
    "sq_push_dispatch_enabled db1 = sq_push_dispatch_enabled db" "sq_artifacts db1 = m"
    by (simp_all add: db1)
  have old: "log_refines C db1 s tn' i'" for tn' i'
  proof -
    have "log_refines C db s tn' i'" using R by (simp add: refines_def)
    then show ?thesis by (simp add: log_refines_def f1(1) max_sequence_events [OF f1(1)])
  qed
  have "\<exists>db2 db'. insert_events C now tn i mark evs db1 = Inr (seq_range (counter_of s tn i) (length evs), db2) \<and>
    db' = bump_latest tn i (seq_range (counter_of s tn i) (length evs)) db2 \<and>
    sq_artifacts db' = sq_artifacts db1 \<and> sq_configs db' = sq_configs db1 \<and>
    sq_push_dispatch_enabled db' = sq_push_dispatch_enabled db1 \<and>
    (\<forall>tn' i'. hm_get (sq_tasks db') (tn', i') = (if tn' = tn \<and> i' = i
       then Some (r\<lparr>tr_latest_event_sequence := if evs = [] then tr_latest_event_sequence r
         else max (tr_latest_event_sequence r) (counter_of s tn i + length evs)\<rparr>)
       else hm_get (sq_tasks db1) (tn', i'))) \<and>
    (\<forall>tn' i'. log_refines C db' s' tn' i') \<and>
    marked db' = markers_after tn i ow Q (counter_of s tn i) evs (marked db1)"
    by (rule commit_tail [OF C, where r = r]) (simp_all add: mark f1 db1_get old s' s1)
  then obtain db2 db' where E: "insert_events C now tn i mark evs db1 =
      Inr (seq_range (counter_of s tn i) (length evs), db2)"
    and db': "db' = bump_latest tn i (seq_range (counter_of s tn i) (length evs)) db2"
    and f: "sq_artifacts db' = m" "sq_configs db' = sq_configs db"
      "sq_push_dispatch_enabled db' = sq_push_dispatch_enabled db"
    and T: "\<And>tn' i'. hm_get (sq_tasks db') (tn', i') = (if tn' = tn \<and> i' = i
       then Some (r\<lparr>tr_latest_event_sequence := if evs = [] then tr_latest_event_sequence r
         else max (tr_latest_event_sequence r) (counter_of s tn i + length evs)\<rparr>)
       else hm_get (sq_tasks db) (tn', i'))"
    and L: "\<And>tn' i'. log_refines C db' s' tn' i'"
    and M: "marked db' = markers_after tn i ow Q (counter_of s tn i) evs (marked db1)"
    by (auto simp: f1 db1_get)
  have "marked db1 = (\<lambda>k. map_option spd_owner (hm_get (pending_dispatches s) k))"
    using refines_marked [OF R] by (simp add: fun_eq_iff marked_def f1 del: split_paired_All)
  then have M': "marked db' k = map_option spd_owner (hm_get (pending_dispatches s') k)" for k
    by (simp add: M s1(6) s')
  have "artifacts_hold C A tn i (sq_artifacts db') = artifacts_hold C A tn i (sq_artifacts db1)"
    by (simp add: f f1)
  then have "task_refines C A tn i db' s'"
    using row by (simp add: task_refines_def s' get_put_stored T row_refines_def)
  moreover have "get_stored s' tn' i' = get_stored s tn' i'" if "(tn', i') \<noteq> (tn, i)" for tn' i'
    using that by (auto simp: s' put_stored_def get_stored_def hm_simps s1)
  moreover have "push_configs s' = push_configs s" "push_dispatch_enabled s' = push_dispatch_enabled s"
    by (simp_all add: s' s1)
  ultimately have "refines C A db' s'"
    using assms(4) m by (intro refines_commit [OF R]) (auto simp: f T L M')
  then show ?thesis using E T [of tn i] by (intro exI [of _ db2]) (simp add: db')
qed

section \<open>Each commit\<close>

definition writable :: "pb_artifact set \<Rightarrow> pb_task \<Rightarrow> bool" where
  "writable A t \<longleftrightarrow> well_typed t \<and> distinct (map art_artifact_id (tk_artifacts t)) \<and> set (tk_artifacts t) \<subseteq> A"

lemma writable_stamp [simp]: "writable A (fst (stamp_status now t evs)) = writable A t"
  by (simp add: writable_def stamp_well_typed)

lemma fetch_manifest_row: "hm_get (sq_tasks db) (tn, i) = Some r \<Longrightarrow> fetch_manifest tn i db = tr_artifact_manifest r"
  by (simp add: fetch_manifest_def)

text \<open>The row of a create.\<close>

lemma create_row:
  assumes C: "codec_ok C A" and S: "storable_task C t" and R: "refines C A db s" and t: "writable A t" "stamped t"
    and new: "get_stored s tn (tk_id t) = None"
  obtains r m where "insert_task_row C c now tn ow t db = Inr (put_row tn (tk_id t) r db\<lparr>sq_artifacts := m\<rparr>)"
    "hm_wf m" "\<And>tn' i' k. (tn', i') \<noteq> (tn, tk_id t) \<Longrightarrow> hm_get m (tn', i', k) = hm_get (sq_artifacts db) (tn', i', k)"
    "row_refines C A tn (tk_id t) (put_row tn (tk_id t) r db\<lparr>sq_artifacts := m\<rparr>) r (fresh_row now tn ow t 0)"
proof -
  have wf: "hm_wf (sq_artifacts db)" and "task_refines C A tn (tk_id t) db s" using R by (auto simp: refines_def)
  then have "hm_get (sq_tasks db) (tn, tk_id t) = None" "\<And>k. hm_get (sq_artifacts db) (tn, tk_id t, k) = None"
    using new by (auto simp: task_refines_def)
  from insert_task_row_ok [OF C S _ _ _ this wf, of c now ow] t(1)
  obtain r m where rm: "insert_task_row C c now tn ow t db = Inr (put_row tn (tk_id t) r db\<lparr>sq_artifacts := m\<rparr>)"
      "tr_owner r = ow" "dec_task C (tr_task_json r) = Inr (t\<lparr>tk_artifacts := []\<rparr>)"
      "tr_status_state r = status_state_str t" "\<not> tr_cancel_requested r" "tr_latest_event_sequence r = 0"
      "tr_lease_expires_at r = None"
      "artifacts_hold C A tn (tk_id t) m (tr_artifact_manifest r) (tk_artifacts t)" "hm_wf m"
      "\<forall>tn' i' k. (tn', i') \<noteq> (tn, tk_id t) \<longrightarrow> hm_get m (tn', i', k) = hm_get (sq_artifacts db) (tn', i', k)"
    unfolding writable_def by blast
  show thesis
    using rm t by (intro that [OF rm(1,9)]) (simp_all add: row_refines_def fresh_row_def writable_def)
qed

lemma create_refines:
  assumes C: "codec_ok C A" and S: "storable_write C now t evs" and R: "refines C A db s" and "writable A t" and "get_stored s tn (tk_id t) = None"
  shows "fst (sqlite_create_task_with_events C c now tn ow t evs db) = fst (create_task_with_events now tn ow t evs s) \<and>
    refines C A (snd (sqlite_create_task_with_events C c now tn ow t evs db))
      (snd (create_task_with_events now tn ow t evs s))"
proof -
  obtain t' evs' where st: "stamp_status now t evs = (t', evs')" by fastforce
  from st stamp_status_frame [of now t evs] have f: "tk_id t' = tk_id t" "length evs' = length evs" by auto
  from st writable_stamp [of A now t evs] stamped_stamp [of now t evs] assms(4)
  have t': "writable A t'" "stamped t'" by auto
  have S': "storable_task C t'" "\<forall>e \<in> set evs'. codable_event C e" using S by (simp_all add: storable_write_def st)
  have "get_stored s tn (tk_id t') = None" by (simp add: f assms(5))
  note new = this
  obtain r m where
    r: "insert_task_row C c now tn ow t' db = Inr (put_row tn (tk_id t') r db\<lparr>sq_artifacts := m\<rparr>)" "hm_wf m"
    "\<And>tn' i' k. (tn', i') \<noteq> (tn, tk_id t') \<Longrightarrow> hm_get m (tn', i', k) = hm_get (sq_artifacts db) (tn', i', k)"
    "row_refines C A tn (tk_id t') (put_row tn (tk_id t') r db\<lparr>sq_artifacts := m\<rparr>) r (fresh_row now tn ow t' 0)"
    by (rule create_row [OF C S'(1) R t' new, of c now ow], rule that)
  have "\<exists>db2. insert_events C now tn (tk_id t') (\<lambda>_ _ db. db) evs' (put_row tn (tk_id t') r db\<lparr>sq_artifacts := m\<rparr>) =
      Inr (seq_range (counter_of s tn (tk_id t')) (length evs'), db2) \<and>
    refines C A (bump_latest tn (tk_id t') (seq_range (counter_of s tn (tk_id t')) (length evs')) db2)
      (snd (create_task_with_events now tn ow t evs s)) \<and>
    (\<exists>r'. hm_get (sq_tasks (bump_latest tn (tk_id t') (seq_range (counter_of s tn (tk_id t')) (length evs')) db2))
         (tn, tk_id t') = Some r' \<and>
       tr_task_json r' = tr_task_json r \<and> tr_artifact_manifest r' = tr_artifact_manifest r)"
    by (rule refines_events [OF S'(2) R refl r(2-4), where Q = "\<lambda>_. False" and ow = ow and now = now
          and ?s1.0 = "snd (commit_events now tn (tk_id t') evs' s)"])
      (use f in \<open>auto simp: put_marker_def markers_after_none create_task_with_events_eq st fresh_row_def Let_def\<close>)
  then show ?thesis using f
    by (auto simp: sqlite_create_task_with_events_def st r(1) in_tx_def create_task_with_events_eq Let_def)
qed

text \<open>The row a statement on a task finds.\<close>

lemma owned_cases:
  assumes R: "refines C A db s"
  obtains (none) "get_stored s tn i = None" "owned_row tn i ow db = None" "hm_get (sq_tasks db) (tn, i) = None"
  | (other) r x where "get_stored s tn i = Some x" "s_owner x \<noteq> ow" "owned_row tn i ow db = None"
      "hm_get (sq_tasks db) (tn, i) = Some r" "tr_owner r \<noteq> ow"
  | (own) r x where "get_stored s tn i = Some x" "s_owner x = ow" "owned_row tn i ow db = Some r"
      "hm_get (sq_tasks db) (tn, i) = Some r" "row_refines C A tn i db r x"
proof -
  have "task_refines C A tn i db s" using R by (simp add: refines_def)
  then show thesis
  proof (cases rule: task_refines_cases)
    case absent
    then show thesis by (intro none) (simp_all add: owned_row_def)
  next
    case (here r x)
    then have "tr_owner r = s_owner x" by (simp add: row_refines_def)
    with here show thesis by (cases "s_owner x = ow") (auto simp: owned_row_def intro: other own)
  qed
qed

lemma rehydrate_stored:
  assumes "refines C A db s" and "hm_get (sq_tasks db) (tn, i) = Some r" and "get_stored s tn i = Some x"
  shows "rehydrate_task C tn i (tr_task_json r) (tr_artifact_manifest r) db = Inr (s_task x)"
proof -
  have "hm_wf (sq_artifacts db)" "task_refines C A tn i db s" using assms(1) by (auto simp: refines_def)
  with assms(2,3) show ?thesis by (intro rehydrate_refines) (auto simp: task_refines_def)
qed

text \<open>The status write on the artifact-free blob is the status write on the task.\<close>

lemma check_transition_strip [simp]: "check_transition f i (t\<lparr>tk_artifacts := x\<rparr>) st = check_transition f i t st"
  by (simp add: check_transition_def task_status_def)

lemma status_blob_eq:
  assumes "storable_task C (fst (stamp_status now (t\<lparr>tk_status := Some st\<rparr>) evs))"
    and dec: "dec_task C blob = Inr (t\<lparr>tk_artifacts := []\<rparr>)" and "well_typed t"
  shows "status_blob C now f i blob st evs =
    attempt (check_transition f i t st) (\<lambda>_. attempt (typed (task_try_from (t\<lparr>tk_status := Some st\<rparr>))) (\<lambda>t1.
      (let (t', evs') = stamp_status now t1 evs
       in Inr (t'\<lparr>tk_artifacts := []\<rparr>, evs', projr (enc_task C (t'\<lparr>tk_artifacts := []\<rparr>))))))"
proof -
  let ?v = "(fst (stamp_status now (t\<lparr>tk_status := Some st\<rparr>) evs))\<lparr>tk_artifacts := []\<rparr>"
  have enc: "serde (enc_task C ?v) = Inr (projr (enc_task C ?v))"
    using assms(1) by (auto simp: storable_task_def codable_task_def)
  have "task_try_from (t\<lparr>tk_artifacts := []\<rparr>) = Inr (t\<lparr>tk_artifacts := []\<rparr>)"
    using assms(3) by (simp add: well_typed_try)
  then have tj: "task_from_json C blob = Inr (t\<lparr>tk_artifacts := []\<rparr>)"
    by (simp add: task_from_json_def dec typed_def)
  show ?thesis
  proof (cases "task_try_from (t\<lparr>tk_status := Some st\<rparr>)")
    case (Inl e)
    then have "task_try_from (t\<lparr>tk_artifacts := [], tk_status := Some st\<rparr>) = Inl e"
      by (simp add: task_try_from_eq split: if_splits sum.splits)
    with Inl show ?thesis by (simp add: status_blob_def tj typed_def attempt_def split: sum.splits)
  next
    case (Inr t1)
    then have t1: "t1 = t\<lparr>tk_status := Some st\<rparr>" "well_typed t1" by (auto simp: well_typed_try)
    then have "task_try_from (t1\<lparr>tk_artifacts := []\<rparr>) = Inr (t1\<lparr>tk_artifacts := []\<rparr>)" by (simp add: well_typed_try)
    moreover have "t\<lparr>tk_artifacts := [], tk_status := Some st\<rparr> = t1\<lparr>tk_artifacts := []\<rparr>" by (cases t) (simp add: t1(1))
    moreover obtain t' evs' where "stamp_status now t1 evs = (t', evs')" by fastforce
    moreover from this have "serde (enc_task C (t'\<lparr>tk_artifacts := []\<rparr>)) = Inr (projr (enc_task C (t'\<lparr>tk_artifacts := []\<rparr>)))"
      using enc by (simp add: t1(1))
    ultimately show ?thesis
      using Inr stamp_status_strip [of now "[]" t1 evs]
      by (simp add: status_blob_def tj typed_def attempt_def split: sum.splits)
  qed
qed

lemma masked_check:
  assumes "check_transition f i t st = Inl e" and "\<And>c j. f c \<noteq> SE_OwnerMismatch j"
  shows "masked (Inl e) = Inl e"
proof -
  have "\<forall>j. e \<noteq> SE_OwnerMismatch j"
    using check_transition_error_cases [OF assms(1)] assms(2) assms(2) [symmetric] by auto
  then show ?thesis by (simp add: masked_def split: storage_error.splits)
qed

lemma status_refines:
  assumes S: "\<And>x. get_stored s tn i = Some x \<Longrightarrow> storable_write C now ((s_task x)\<lparr>tk_status := Some st\<rparr>) evs"
    and R: "refines C A db s"
  shows "fst (sqlite_update_task_status_with_events C c now tn i ow st evs db) =
      masked (fst (update_task_status_with_events now tn i ow st evs s)) \<and>
    refines C A (snd (sqlite_update_task_status_with_events C c now tn i ow st evs db))
      (snd (update_task_status_with_events now tn i ow st evs s))"
  using R
proof (cases rule: owned_cases [where tn = tn and i = i and ow = ow])
  case none
  then show ?thesis using R
    by (simp add: sqlite_update_task_status_with_events_def update_task_status_with_events_def in_tx_def)
next
  case (other r x)
  then show ?thesis using R
    by (simp add: sqlite_update_task_status_with_events_def update_task_status_with_events_def in_tx_def)
next
  case (own r x)
  note row = own(5)
  let ?f = "\<lambda>st. SE_TerminalStateAlreadySet i (wire_name st)"
  have dec: "dec_task C (tr_task_json r) = Inr ((s_task x)\<lparr>tk_artifacts := []\<rparr>)" and w: "well_typed (s_task x)"
    using row by (simp_all add: row_refines_def)
  have S': "storable_task C (fst (stamp_status now ((s_task x)\<lparr>tk_status := Some st\<rparr>) evs))"
      "\<forall>e \<in> set (snd (stamp_status now ((s_task x)\<lparr>tk_status := Some st\<rparr>) evs)). codable_event C e"
    using S [OF own(1)] by (simp_all add: storable_write_def case_prod_unfold)
  note blob = status_blob_eq [OF S'(1) dec w, of ?f i]
  show ?thesis
  proof (cases "check_transition ?f i (s_task x) st")
    case (Inl e)
    from Inl own R show ?thesis
      by (simp add: sqlite_update_task_status_with_events_def update_task_status_with_events_def in_tx_def blob
          masked_check [OF Inl])
  next
    case ok: (Inr u)
    then obtain a n where tr: "task_state_of (s_task x) = Some a" "validate_transition a n = Inr ()"
      by (auto simp: check_transition_ok)
    then have "\<not> is_terminal a" using validate_terminal by auto
    with status_state_terminal [OF w] have live: "tr_status_state r \<notin> set TERMINAL_STATES_SQL"
      using row tr(1) by (simp add: row_refines_def)
    show ?thesis
    proof (cases "task_try_from ((s_task x)\<lparr>tk_status := Some st\<rparr>)")
      case (Inl e)
      with ok own R show ?thesis
        by (simp add: sqlite_update_task_status_with_events_def update_task_status_with_events_def in_tx_def blob typed_def)
    next
      case (Inr t1)
      obtain t' evs' where ss: "stamp_status now t1 evs = (t', evs')" by fastforce
      have t1: "t1 = (s_task x)\<lparr>tk_status := Some st\<rparr>" "well_typed t1" using Inr by (auto simp: well_typed_try)
      let ?u = "t'\<lparr>tk_artifacts := []\<rparr>"
      let ?b = "projr (enc_task C ?u)"
      have ex: "\<exists>z. enc_task C ?u = Inr z \<and> dec_task C z = Inr ?u"
        using S'(1) ss unfolding storable_task_def codable_task_def t1(1) [symmetric] by simp
      then have enc: "enc_task C ?u = Inr ?b" and decb: "dec_task C ?b = Inr ?u" by auto
      have encs: "serde (enc_task C ?u) = Inr ?b" by (subst enc) simp
      define r1 where "r1 = r\<lparr>tr_task_json := ?b, tr_status_state := status_state_str ?u,
        tr_status_timestamp := task_sort_key c ?u, tr_context_id := tk_context_id ?u, tr_updated_at := datetime_now now\<rparr>"
      have t': "well_typed t'" "stamped t'" "tk_id t' = tk_id (s_task x)" "tk_artifacts t' = tk_artifacts (s_task x)"
        "length evs' = length evs"
        using ss t1(2) stamp_well_typed [of now t1 evs] stamped_stamp [of now t1 evs] stamp_status_frame [of now t1 evs]
        by (simp_all add: t1(1))
      define s1 where "s1 = (if push_dispatch_enabled s \<and> task_has_configs s tn i
         then (snd (commit_events now tn i evs' s))\<lparr>pending_dispatches :=
           write_markers now tn i ow (new_rows now (counter_of s tn i) evs') (pending_dispatches s)\<rparr>
         else snd (commit_events now tn i evs' s))"
      have row1: "row_refines C A tn i (put_row tn i r1 db\<lparr>sq_artifacts := sq_artifacts db\<rparr>) r1
          (replace_row now tn ow t' (s_latest_event_sequence x) x)"
        using row own(2) t' decb by (simp add: row_refines_def r1_def replace_row_def status_state_str_def task_state_of_eq)
      let ?n = "counter_of s tn i" and ?b = "push_dispatch_enabled s \<and> task_has_configs s tn i"
      let ?seqs = "seq_range ?n (length evs')"
      let ?L = "if evs' = [] then s_latest_event_sequence x else max (s_latest_event_sequence x) (?n + length evs')"
      have mem: "update_task_status_with_events now tn i ow st evs s =
          (Inr (t', ?seqs), put_stored tn i (replace_row now tn ow t' ?L x) s1)"
        using own(1,2) ok Inr ss t'(5)
        by (simp add: update_task_status_with_events_def assign_sequences_spec extend_latest_seq_range s1_def
            commit_events_spec(1) prod.case_eq_if)
      have rc: "list_ex (\<lambda>((t, tid, _), _). t = tn \<and> tid = i) (sq_configs db) = task_has_configs s tn i"
        "sq_push_dispatch_enabled db = push_dispatch_enabled s"
        using R configs_refine_any [of C "sq_configs db" "push_configs s" tn i]
        by (simp_all add: refines_def task_has_configs_def)
      have wf: "hm_wf (sq_artifacts db)" using R by (simp add: refines_def)
      have mk: "markers_after tn i ow (\<lambda>e. ?b \<and> event_is_terminal e \<and> is_status_update e) ?n evs'
         (\<lambda>k. map_option spd_owner (hm_get (pending_dispatches s) k)) k =
         map_option spd_owner (hm_get (pending_dispatches s1) k)" for k
        using markers_after_write [of "\<lambda>k. map_option spd_owner (hm_get (pending_dispatches s) k)" "pending_dispatches s"
            tn i ow ?n evs' k now]
        by (cases ?b) (simp add: s1_def, subst markers_after_none, auto simp: s1_def)
      have s1: "tasks s1 = tasks s" "push_configs s1 = push_configs s" "push_dispatch_enabled s1 = push_dispatch_enabled s"
        "log_of s1 = log_of (snd (commit_events now tn i evs' s))"
        "counter_of s1 = counter_of (snd (commit_events now tn i evs' s))"
        by (simp_all add: s1_def log_of_def counter_of_def fun_eq_iff)
      have "\<exists>db2. insert_events C now tn i (write_marker now tn i ow) evs' (put_row tn i r1 db\<lparr>sq_artifacts := sq_artifacts db\<rparr>) =
          Inr (?seqs, db2) \<and>
        refines C A (bump_latest tn i ?seqs db2) (snd (update_task_status_with_events now tn i ow st evs s)) \<and>
        (\<exists>r'. hm_get (sq_tasks (bump_latest tn i ?seqs db2)) (tn, i) = Some r' \<and>
          tr_task_json r' = tr_task_json r1 \<and> tr_artifact_manifest r' = tr_artifact_manifest r1)"
      proof (rule refines_events [OF _ R refl wf refl row1])
        show "\<forall>e \<in> set evs'. codable_event C e" using S'(2) ss unfolding t1(1) [symmetric] by simp
      next
        show "write_marker now tn i ow q e y = put_marker now tn i ow
            (\<lambda>e. ?b \<and> event_is_terminal e \<and> is_status_update e) q e y"
          if "sq_configs y = sq_configs db" "sq_push_dispatch_enabled y = sq_push_dispatch_enabled db" for q e y
          using that by (simp add: write_marker_def put_marker_def rc)
      qed (simp_all only: mk s1, simp add: mem replace_row_def)
      then obtain db2 r' where S: "insert_events C now tn i (write_marker now tn i ow) evs'
          (put_row tn i r1 db\<lparr>sq_artifacts := sq_artifacts db\<rparr>) = Inr (?seqs, db2)"
        "refines C A (bump_latest tn i ?seqs db2) (snd (update_task_status_with_events now tn i ow st evs s))"
        "hm_get (sq_tasks (bump_latest tn i ?seqs db2)) (tn, i) = Some r'"
        "tr_task_json r' = tr_task_json r1" "tr_artifact_manifest r' = tr_artifact_manifest r1" by blast
      have "put_row tn i r1 db\<lparr>sq_artifacts := sq_artifacts db\<rparr> = put_row tn i r1 db" by (simp add: put_row_def)
      note ins = S(1) [unfolded this, unfolded r1_def]
      have "get_stored (snd (update_task_status_with_events now tn i ow st evs s)) tn i = Some (replace_row now tn ow t' ?L x)"
        by (simp add: mem get_put_stored)
      from rehydrate_stored [OF S(2,3) this] have
        "rehydrate_task C tn i (projr (enc_task C ?u)) (tr_artifact_manifest r) (bump_latest tn i ?seqs db2) = Inr t'"
        by (simp add: S(4,5) r1_def replace_row_def)
      then have "sqlite_update_task_status_with_events C c now tn i ow st evs db = (Inr (t', ?seqs), bump_latest tn i ?seqs db2)"
        using ok Inr ss own(3) live ins encs
        by (simp add: sqlite_update_task_status_with_events_def in_tx_def blob typed_def)
      with S(2) mem show ?thesis by simp
    qed
  qed
qed

text \<open>A full-task write, before its events.\<close>

lemma written_ok:
  assumes C: "codec_ok C A" and S: "storable_task C t" and R: "refines C A db s" and t: "writable A t" "stamped t"
  obtains blob plan where "split_task C t = Inr (blob, tk_artifacts t)"
    "reconcile C (tk_artifacts t) (fetch_manifest tn (tk_id t) db) = Inr plan"
    "\<And>x r. get_stored s tn (tk_id t) = Some x \<Longrightarrow> hm_get (sq_tasks db) (tn, tk_id t) = Some r \<Longrightarrow> s_owner x = ow \<Longrightarrow>
      \<exists>m. apply_artifact_plan C tn (tk_id t) plan
          (put_row tn (tk_id t) (written_row c now blob t (rp_manifest plan) r) db) =
        Inr (put_row tn (tk_id t) (written_row c now blob t (rp_manifest plan) r) db\<lparr>sq_artifacts := m\<rparr>) \<and> hm_wf m \<and>
      (\<forall>tn' i' k. (tn', i') \<noteq> (tn, tk_id t) \<longrightarrow> hm_get m (tn', i', k) = hm_get (sq_artifacts db) (tn', i', k)) \<and>
      row_refines C A tn (tk_id t)
        (put_row tn (tk_id t) (written_row c now blob t (rp_manifest plan) r) db\<lparr>sq_artifacts := m\<rparr>)
        (written_row c now blob t (rp_manifest plan) r) (replace_row now tn ow t (s_latest_event_sequence x) x)"
proof -
  have w: "well_typed t" "distinct (map art_artifact_id (tk_artifacts t))" "set (tk_artifacts t) \<subseteq> A"
    using t by (simp_all add: writable_def)
  obtain blob where b: "split_task C t = Inr (blob, tk_artifacts t)" "dec_task C blob = Inr (t\<lparr>tk_artifacts := []\<rparr>)"
    using split_task_ok [OF S w(1)] by blast
  have "task_refines C A tn (tk_id t) db s" and wf: "hm_wf (sq_artifacts db)" using R by (simp_all add: refines_def)
  then obtain bs where bs: "artifacts_hold C A tn (tk_id t) (sq_artifacts db) (fetch_manifest tn (tk_id t) db) bs"
  proof (cases rule: task_refines_cases)
    case absent
    then have "fetch_manifest tn (tk_id t) db = []" by (simp add: fetch_manifest_def)
    with holds_empty [OF absent(3)] show ?thesis by (intro that [of "[]"]) simp
  next
    case (here r x)
    then show ?thesis
      by (intro that [of "tk_artifacts (s_task x)"]) (simp add: row_refines_def fetch_manifest_row)
  qed
  obtain plan m where p: "reconcile C (tk_artifacts t) (fetch_manifest tn (tk_id t) db) = Inr plan"
    "rp_manifest plan = map (entry_of C) (tk_artifacts t)"
    "\<And>x. sq_artifacts x = sq_artifacts db \<Longrightarrow> apply_artifact_plan C tn (tk_id t) plan x = Inr (x\<lparr>sq_artifacts := m\<rparr>)"
    "artifacts_hold C A tn (tk_id t) m (map (entry_of C) (tk_artifacts t)) (tk_artifacts t)"
    "\<And>tn' i' k. (tn', i') \<noteq> (tn, tk_id t) \<Longrightarrow> hm_get m (tn', i', k) = hm_get (sq_artifacts db) (tn', i', k)"
    "hm_wf (sq_artifacts db) \<Longrightarrow> hm_wf m"
    by (rule plan_holds [OF C w(3,2) bs], rule that)
  show thesis
  proof (rule that [OF b(1) p(1)])
    fix x r assume x: "get_stored s tn (tk_id t) = Some x" "hm_get (sq_tasks db) (tn, tk_id t) = Some r" "s_owner x = ow"
    have "row_refines C A tn (tk_id t) db r x"
      using \<open>task_refines C A tn (tk_id t) db s\<close> x(1,2) by (simp add: task_refines_def)
    then have "row_refines C A tn (tk_id t)
        (put_row tn (tk_id t) (written_row c now blob t (rp_manifest plan) r) db\<lparr>sq_artifacts := m\<rparr>)
        (written_row c now blob t (rp_manifest plan) r) (replace_row now tn ow t (s_latest_event_sequence x) x)"
      using b(2) p(2,4) w(1) t(2) x(3) by (simp add: row_refines_def written_row_def replace_row_def)
    with p(3) [of "put_row tn (tk_id t) (written_row c now blob t (rp_manifest plan) r) db"] p(5,6) wf
    show "\<exists>m. apply_artifact_plan C tn (tk_id t) plan
          (put_row tn (tk_id t) (written_row c now blob t (rp_manifest plan) r) db) =
        Inr (put_row tn (tk_id t) (written_row c now blob t (rp_manifest plan) r) db\<lparr>sq_artifacts := m\<rparr>) \<and> hm_wf m \<and>
      (\<forall>tn' i' k. (tn', i') \<noteq> (tn, tk_id t) \<longrightarrow> hm_get m (tn', i', k) = hm_get (sq_artifacts db) (tn', i', k)) \<and>
      row_refines C A tn (tk_id t)
        (put_row tn (tk_id t) (written_row c now blob t (rp_manifest plan) r) db\<lparr>sq_artifacts := m\<rparr>)
        (written_row c now blob t (rp_manifest plan) r) (replace_row now tn ow t (s_latest_event_sequence x) x)"
      by (intro exI [of _ m]) simp
  qed
qed

lemma update_refines:
  assumes C: "codec_ok C A" and S: "storable_write C now t evs" and R: "refines C A db s" and "writable A t"
  shows "fst (sqlite_update_task_with_events C c now tn ow t evs db) = masked (fst (update_task_with_events now tn ow t evs s)) \<and>
    refines C A (snd (sqlite_update_task_with_events C c now tn ow t evs db)) (snd (update_task_with_events now tn ow t evs s))"
proof -
  obtain t' evs' where st: "stamp_status now t evs = (t', evs')" by fastforce
  from st stamp_status_frame [of now t evs] have f: "tk_id t' = tk_id t" "length evs' = length evs" by auto
  from st writable_stamp [of A now t evs] stamped_stamp [of now t evs] assms(4)
  have t': "writable A t'" "stamped t'" by auto
  have S': "storable_task C t'" "\<forall>e \<in> set evs'. codable_event C e" using S by (simp_all add: storable_write_def st)
  let ?i = "tk_id t'"
  obtain blob plan where sp: "split_task C t' = Inr (blob, tk_artifacts t')"
    "reconcile C (tk_artifacts t') (fetch_manifest tn ?i db) = Inr plan"
    "\<And>x r. get_stored s tn ?i = Some x \<Longrightarrow> hm_get (sq_tasks db) (tn, ?i) = Some r \<Longrightarrow> s_owner x = ow \<Longrightarrow>
      \<exists>m. apply_artifact_plan C tn ?i plan (put_row tn ?i (written_row c now blob t' (rp_manifest plan) r) db) =
        Inr (put_row tn ?i (written_row c now blob t' (rp_manifest plan) r) db\<lparr>sq_artifacts := m\<rparr>) \<and> hm_wf m \<and>
      (\<forall>tn' i' k. (tn', i') \<noteq> (tn, ?i) \<longrightarrow> hm_get m (tn', i', k) = hm_get (sq_artifacts db) (tn', i', k)) \<and>
      row_refines C A tn ?i (put_row tn ?i (written_row c now blob t' (rp_manifest plan) r) db\<lparr>sq_artifacts := m\<rparr>)
        (written_row c now blob t' (rp_manifest plan) r) (replace_row now tn ow t' (s_latest_event_sequence x) x)"
    by (rule written_ok [OF C S'(1) R t', of tn ow c now], rule that)
  from R show ?thesis
  proof (cases rule: owned_cases [where tn = tn and i = ?i and ow = ow])
    case none
    then show ?thesis using R sp(1,2) f
      by (simp add: sqlite_update_task_with_events_def update_task_with_events_def in_tx_def st Let_def)
  next
    case (other r x)
    then show ?thesis using R sp(1,2) f
      by (simp add: sqlite_update_task_with_events_def update_task_with_events_def in_tx_def st Let_def)
  next
    case (own r x)
    have w: "well_typed (s_task x)" and str: "tr_status_state r = status_state_str (s_task x)"
      using own(5) by (simp_all add: row_refines_def)
    then obtain a where a: "task_state_of (s_task x) = Some a" by (auto simp: well_typed_def)
    have tm: "tr_status_state r \<in> set TERMINAL_STATES_SQL \<longleftrightarrow> is_terminal a"
      using status_state_terminal [OF w] str a by simp
    show ?thesis
    proof (cases "is_terminal a")
      case True
      with own tm a str R sp(1,2) st show ?thesis
        by (simp add: sqlite_update_task_with_events_def update_task_with_events_def in_tx_def status_state_str_def Let_def)
    next
      case False
      let ?r = "written_row c now blob t' (rp_manifest plan) r"
      obtain m where m: "apply_artifact_plan C tn ?i plan (put_row tn ?i ?r db) = Inr (put_row tn ?i ?r db\<lparr>sq_artifacts := m\<rparr>)"
        "hm_wf m" "\<And>tn' i' k. (tn', i') \<noteq> (tn, ?i) \<Longrightarrow> hm_get m (tn', i', k) = hm_get (sq_artifacts db) (tn', i', k)"
        "row_refines C A tn ?i (put_row tn ?i ?r db\<lparr>sq_artifacts := m\<rparr>) ?r
          (replace_row now tn ow t' (s_latest_event_sequence x) x)"
        using sp(3) [OF own(1,4,2)] by blast
      let ?seqs = "seq_range (counter_of s tn ?i) (length evs')"
      let ?L = "if evs' = [] then s_latest_event_sequence x else max (s_latest_event_sequence x) (counter_of s tn ?i + length evs')"
      let ?s1 = "snd (commit_events now tn ?i evs' s)"
      have mem: "update_task_with_events now tn ow t evs s = (Inr ?seqs, put_stored tn ?i (replace_row now tn ow t' ?L x) ?s1)"
        using own(1,2) a False st
        by (simp add: update_task_with_events_def extend_latest_seq_range commit_events_spec(1) prod.case_eq_if Let_def)
      have "\<exists>db2. insert_events C now tn ?i (\<lambda>_ _ db. db) evs' (put_row tn ?i ?r db\<lparr>sq_artifacts := m\<rparr>) = Inr (?seqs, db2) \<and>
          refines C A (bump_latest tn ?i ?seqs db2) (snd (update_task_with_events now tn ow t evs s)) \<and>
          (\<exists>r'. hm_get (sq_tasks (bump_latest tn ?i ?seqs db2)) (tn, ?i) = Some r' \<and>
            tr_task_json r' = tr_task_json ?r \<and> tr_artifact_manifest r' = tr_artifact_manifest ?r)"
        by (rule refines_events [OF S'(2) R refl m(2-4), where Q = "\<lambda>_. False" and ow = ow and now = now and ?s1.0 = ?s1])
          (auto simp: put_marker_def markers_after_none mem replace_row_def)
      then show ?thesis
        using own(3) tm False m(1) sp(1,2) st mem
        by (auto simp: sqlite_update_task_with_events_def in_tx_def Let_def)
    qed
  qed
qed

text \<open>The commits that write no event: a create, a message, a delete, the cancel marker.\<close>

lemma quiet_create_refines:
  assumes C: "codec_ok C A" and S: "storable_write C now t []" and R: "refines C A db s" and "writable A t" and "get_stored s tn (tk_id t) = None"
  shows "fst (sqlite_create_task C c now tn ow t db) = fst (create_task now tn ow t s) \<and>
    refines C A (snd (sqlite_create_task C c now tn ow t db)) (snd (create_task now tn ow t s))"
proof -
  obtain t' where st: "fst (stamp_status now t []) = t'" by simp
  with stamp_status_frame [of now t "[]"] writable_stamp [of A now t "[]"] stamped_stamp [of now t "[]"] assms(4,5)
  have t': "writable A t'" "stamped t'" "get_stored s tn (tk_id t') = None" by auto
  obtain r m where
    r: "insert_task_row C c now tn ow t' db = Inr (put_row tn (tk_id t') r db\<lparr>sq_artifacts := m\<rparr>)" "hm_wf m"
    "\<And>tn' i' k. (tn', i') \<noteq> (tn, tk_id t') \<Longrightarrow> hm_get m (tn', i', k) = hm_get (sq_artifacts db) (tn', i', k)"
    "row_refines C A tn (tk_id t') (put_row tn (tk_id t') r db\<lparr>sq_artifacts := m\<rparr>) r (fresh_row now tn ow t' 0)"
    by (rule create_row [OF C _ R t', of c now ow], use S st in \<open>simp add: storable_write_def case_prod_unfold\<close>, rule that)
  have "refines C A (put_row tn (tk_id t') r db\<lparr>sq_artifacts := m\<rparr>)
      (put_stored tn (tk_id t') (fresh_row now tn ow t' 0) s)"
    by (rule refines_quiet [OF R, of _ tn "tk_id t'"])
      (use r in \<open>auto simp: task_refines_def get_put_stored row_refines_def\<close>)
  then show ?thesis by (simp add: sqlite_create_task_def create_task_def st r(1) in_tx_def Let_def)
qed

lemma delete_refines:
  assumes R: "refines C A db s"
  shows "fst (sqlite_delete_task tn i ow db) = masked (fst (delete_task tn i ow s)) \<and>
    refines C A (snd (sqlite_delete_task tn i ow db)) (snd (delete_task tn i ow s))"
  using R
proof (cases rule: owned_cases [where tn = tn and i = i and ow = ow])
  case (own r x)
  let ?db = "db\<lparr>sq_tasks := hm_remove (tn, i) (sq_tasks db),
    sq_artifacts := hm_retain (\<lambda>(t, tid, _) _. \<not> (t = tn \<and> tid = i)) (sq_artifacts db)\<rparr>"
  have wf: "hm_wf (sq_artifacts db)" using R by (simp add: refines_def)
  have "refines C A ?db (s\<lparr>tasks := hm_remove (tn, i) (tasks s)\<rparr>)"
    by (rule refines_quiet [OF R, of _ tn i])
      (auto simp: hm_wf_retain [OF wf] task_refines_def get_stored_def hm_simps hm_get_retain [OF wf] split: option.splits)
  then show ?thesis using own by (simp add: sqlite_delete_task_def delete_task_def)
qed (use R in \<open>simp_all add: sqlite_delete_task_def delete_task_def\<close>)

lemma cancel_refines:
  assumes R: "refines C A db s"
  shows "fst (sqlite_set_cancel_requested tn i ow db) = masked (fst (set_cancel_requested tn i ow s)) \<and>
    refines C A (snd (sqlite_set_cancel_requested tn i ow db)) (snd (set_cancel_requested tn i ow s))"
  using R
proof (cases rule: owned_cases [where tn = tn and i = i and ow = ow])
  case (own r x)
  have w: "well_typed (s_task x)" and str: "tr_status_state r = status_state_str (s_task x)" "tr_owner r = ow"
    using own(2,5) by (simp_all add: row_refines_def)
  then obtain a where a: "task_state_of (s_task x) = Some a" by (auto simp: well_typed_def)
  have tm: "tr_status_state r \<in> set TERMINAL_STATES_SQL \<longleftrightarrow> is_terminal a"
    using status_state_terminal [OF w] str(1) a by simp
  show ?thesis
  proof (cases "is_terminal a")
    case True
    have "from_wire_name (wire_name a) = Some a"
      by (cases a) (simp_all add: from_wire_name_def wire_name_def pb_from_str_name_def pb_all_def)
    then show ?thesis using own tm str a True R
      by (simp add: sqlite_set_cancel_requested_def set_cancel_requested_def status_state_str_def)
  next
    case False
    have "refines C A (put_row tn i (r\<lparr>tr_cancel_requested := True\<rparr>) db)
        (put_stored tn i (x\<lparr>s_cancel_requested := True\<rparr>) s)"
      by (rule refines_quiet [OF R, of _ tn i])
        (use own(5) R in \<open>auto simp: task_refines_def get_put_stored row_refines_def refines_def\<close>)
    then show ?thesis using own tm str a False
      by (simp add: sqlite_set_cancel_requested_def set_cancel_requested_def)
  qed
qed (use R in \<open>simp_all add: sqlite_set_cancel_requested_def set_cancel_requested_def\<close>)

lemma message_refines:
  assumes C: "codec_ok C A" and R: "refines C A db s"
    and S: "\<And>x. get_stored s tn i = Some x \<Longrightarrow> storable_task C ((s_task x)\<lparr>tk_history := tk_history (s_task x) @ [msg]\<rparr>)"
  shows "fst (sqlite_append_message C c now tn i ow msg db) = masked (fst (append_message tn i ow msg s)) \<and>
    refines C A (snd (sqlite_append_message C c now tn i ow msg db)) (snd (append_message tn i ow msg s))"
  using R
proof (cases rule: owned_cases [where tn = tn and i = i and ow = ow])
  case (own r x)
  have get: "sqlite_get_task C tn i ow None db = Inr (Some (s_task x))"
    by (simp add: get_task_refines [OF R] get_task_def own(1,2) trim_history_def)
  let ?t = "(s_task x)\<lparr>tk_history := tk_history (s_task x) @ [msg]\<rparr>"
  have h: "artifacts_hold C A tn i (sq_artifacts db) (tr_artifact_manifest r) (tk_artifacts (s_task x))"
    using own(5) by (simp add: row_refines_def)
  have x: "well_typed (s_task x)" "stamped (s_task x)" "tk_id (s_task x) = i"
    "distinct (map art_artifact_id (tk_artifacts (s_task x)))" "set (tk_artifacts (s_task x)) \<subseteq> A"
    using own(5) holds_in [OF h] h by (auto simp: row_refines_def artifacts_hold_def)
  then have t: "writable A ?t" "stamped ?t" "tk_id ?t = i"
    by (simp_all add: writable_def well_typed_def task_state_of_eq stamped_def)
  obtain blob plan where sp: "split_task C ?t = Inr (blob, tk_artifacts ?t)"
    "reconcile C (tk_artifacts ?t) (fetch_manifest tn (tk_id ?t) db) = Inr plan"
    "\<And>x r. get_stored s tn (tk_id ?t) = Some x \<Longrightarrow> hm_get (sq_tasks db) (tn, tk_id ?t) = Some r \<Longrightarrow> s_owner x = ow \<Longrightarrow>
      \<exists>m. apply_artifact_plan C tn (tk_id ?t) plan (put_row tn (tk_id ?t) (written_row c now blob ?t (rp_manifest plan) r) db) =
        Inr (put_row tn (tk_id ?t) (written_row c now blob ?t (rp_manifest plan) r) db\<lparr>sq_artifacts := m\<rparr>) \<and> hm_wf m \<and>
      (\<forall>tn' i' k. (tn', i') \<noteq> (tn, tk_id ?t) \<longrightarrow> hm_get m (tn', i', k) = hm_get (sq_artifacts db) (tn', i', k)) \<and>
      row_refines C A tn (tk_id ?t) (put_row tn (tk_id ?t) (written_row c now blob ?t (rp_manifest plan) r) db\<lparr>sq_artifacts := m\<rparr>)
        (written_row c now blob ?t (rp_manifest plan) r) (replace_row now tn ow ?t (s_latest_event_sequence x) x)"
    by (rule written_ok [OF C S [OF own(1)] R t(1,2), of tn ow c now], rule that)
  let ?r = "written_row c now blob ?t (rp_manifest plan) r"
  obtain m where m: "apply_artifact_plan C tn i plan (put_row tn i ?r db) = Inr (put_row tn i ?r db\<lparr>sq_artifacts := m\<rparr>)"
    "hm_wf m" "\<And>tn' i' k. (tn', i') \<noteq> (tn, i) \<Longrightarrow> hm_get m (tn', i', k) = hm_get (sq_artifacts db) (tn', i', k)"
    "row_refines C A tn i (put_row tn i ?r db\<lparr>sq_artifacts := m\<rparr>) ?r
      (replace_row now tn ow ?t (s_latest_event_sequence x) x)"
    using sp(3) [unfolded t(3), OF own(1,4,2)] by blast
  have "refines C A (put_row tn i ?r db\<lparr>sq_artifacts := m\<rparr>) (put_stored tn i (x\<lparr>s_task := ?t\<rparr>) s)"
  proof (rule refines_quiet [OF R, of _ tn i])
    show "task_refines C A tn i (put_row tn i ?r db\<lparr>sq_artifacts := m\<rparr>) (put_stored tn i (x\<lparr>s_task := ?t\<rparr>) s)"
      using m(4) own(2) by (simp add: task_refines_def get_put_stored row_refines_def replace_row_def)
  qed (use m(2,3) in \<open>auto simp: get_put_stored\<close>)
  moreover have "task_try_from ?t = Inr ?t" using t(1) by (simp add: well_typed_try writable_def)
  ultimately show ?thesis
    using sp(1,2) m(1) own x(3) stamp_stamped [OF t(2), of now]
    by (simp add: sqlite_append_message_def get typed_def sqlite_update_task_def in_tx_def append_message_def
        task_append_message_def Let_def)
qed (use R in \<open>simp_all add: sqlite_append_message_def append_message_def get_task_refines [OF R] get_task_def\<close>)

end
