(* ===== verification/Sqlite_Push.thy ===== *)
theory Sqlite_Push
  imports Sqlite_Store Claim_Fencing
begin

text \<open>
  The push tables of \<open>SqliteA2aStorage\<close>: configs with their causal floor, delivery claims, and
  pending-dispatch markers. The claim operations provide the contract of \<open>Claim_Fencing\<close>.
\<close>

section \<open>\<open>A2aPushNotificationStorage\<close>\<close>

text \<open>
  One transaction of \<open>create_config\<close>: the floor, the insert, the check that the floor still
  stands. None is a lost race, whose transaction is dropped.
\<close>

definition config_tx ::
  "'c \<Rightarrow> string \<Rightarrow> push_config \<Rightarrow> ('t, 'e, 'a, 'c) sqlite \<Rightarrow> ('t, 'e, 'a, 'c) sqlite option" where
  "config_tx json tenant cfg db =
     (let latest = (\<lambda>db. hm_get (sq_tasks db) (tenant, pc_task_id cfg));
          seq_read = (case latest db of Some r \<Rightarrow> tr_latest_event_sequence r | None \<Rightarrow> 0);
          db1 = db\<lparr>sq_configs := hm_insert (tenant, pc_task_id cfg, pc_id cfg)
            \<lparr>cr_config_json = json, cr_registered_after_event_sequence = seq_read\<rparr> (sq_configs db)\<rparr>;
          cas_rows = (case latest db1 of
              Some r \<Rightarrow> if tr_latest_event_sequence r = seq_read then 1 else 0 | None \<Rightarrow> (0 :: nat));
          task_exists = (case latest db1 of Some _ \<Rightarrow> 1 | None \<Rightarrow> (0 :: nat))
      in if task_exists > 0 \<and> cas_rows = 0 then None else Some db1)"

text \<open>The retry loop; \<open>env a\<close> is what the other writers commit during the backoff after attempt \<open>a\<close>.\<close>

fun sqlite_create_config_loop ::
  "nat \<Rightarrow> (nat \<Rightarrow> ('t, 'e, 'a, 'c) sqlite \<Rightarrow> ('t, 'e, 'a, 'c) sqlite) \<Rightarrow> 'c \<Rightarrow> string \<Rightarrow> push_config \<Rightarrow> nat \<Rightarrow>
   ('t, 'e, 'a, 'c) sqlite \<Rightarrow> (storage_error + push_config) \<times> ('t, 'e, 'a, 'c) sqlite" where
  "sqlite_create_config_loop 0 env json tenant cfg k db =
     (Inl (SE_CreateConfigCasTimeout tenant (pc_task_id cfg)), db)"
| "sqlite_create_config_loop (Suc left) env json tenant cfg k db =
     (case config_tx json tenant cfg db of
        Some db' \<Rightarrow> (Inr cfg, db')
      | None \<Rightarrow> if k + 1 \<ge> MAX_ATTEMPTS then (Inl (SE_CreateConfigCasTimeout tenant (pc_task_id cfg)), db)
          else sqlite_create_config_loop left env json tenant cfg (k + 1) (env k db))"

definition sqlite_create_config ::
  "('t, 'e, 'a, 'c) codec \<Rightarrow> string \<Rightarrow> (nat \<Rightarrow> ('t, 'e, 'a, 'c) sqlite \<Rightarrow> ('t, 'e, 'a, 'c) sqlite) \<Rightarrow> string \<Rightarrow>
   push_config \<Rightarrow> ('t, 'e, 'a, 'c) sqlite \<Rightarrow> (storage_error + push_config) \<times> ('t, 'e, 'a, 'c) sqlite" where
  "sqlite_create_config C uuid env tenant cfg db =
     (let cfg' = (if pc_id cfg = [] then cfg\<lparr>pc_id := uuid\<rparr> else cfg)
      in case serde (enc_config C cfg') of
           Inl e \<Rightarrow> (Inl e, db)
         | Inr json \<Rightarrow> sqlite_create_config_loop MAX_ATTEMPTS env json tenant cfg' 0 db)"

definition sqlite_get_config ::
  "('t, 'e, 'a, 'c) codec \<Rightarrow> string \<Rightarrow> string \<Rightarrow> string \<Rightarrow> ('t, 'e, 'a, 'c) sqlite \<Rightarrow>
   storage_error + push_config option" where
  "sqlite_get_config C tenant task_id config_id db =
     (case hm_get (sq_configs db) (tenant, task_id, config_id) of
        Some r \<Rightarrow> attempt (serde (dec_config C (cr_config_json r))) (\<lambda>c. Inr (Some c))
      | None \<Rightarrow> Inr None)"

text \<open>
  \<open>SELECT config_json .. WHERE .. AND config_id > ? ORDER BY config_id LIMIT page_size + 1\<close> and the
  page cut, shared by both listings; \<open>P\<close> is the test on the floor.
\<close>

definition select_configs ::
  "(nat \<Rightarrow> bool) \<Rightarrow> string \<Rightarrow> string \<Rightarrow> string option \<Rightarrow> nat \<Rightarrow> ('t, 'e, 'a, 'c) sqlite \<Rightarrow> 'c list" where
  "select_configs P tenant task_id page_token limit db =
     map snd (take limit (sort_key fst (map (\<lambda>((_, _, i), r). (i, cr_config_json r))
       (filter (\<lambda>((t, tid, i), r). t = tenant \<and> tid = task_id \<and> P (cr_registered_after_event_sequence r) \<and>
          (case page_token of None \<Rightarrow> True | Some token \<Rightarrow> i > token)) (sq_configs db)))))"

definition sqlite_config_page ::
  "('t, 'e, 'a, 'c) codec \<Rightarrow> (nat \<Rightarrow> bool) \<Rightarrow> string \<Rightarrow> string \<Rightarrow> string option \<Rightarrow> int option \<Rightarrow>
   ('t, 'e, 'a, 'c) sqlite \<Rightarrow> push_config_page" where
  "sqlite_config_page C P tenant task_id page_token page_size db =
     (let n = nat (push_config_page_size page_size);
          rows = select_configs P tenant task_id page_token (n + 1) db;
          has_more = length rows > n;
          configs = List.map_filter (\<lambda>json. case dec_config C json of Inr c \<Rightarrow> Some c | Inl _ \<Rightarrow> None) (take n rows);
          next = (if has_more then (if configs = [] then '''' else pc_id (last configs)) else '''')
      in \<lparr>pcp_configs = configs, pcp_next_page_token = next\<rparr>)"

definition sqlite_list_configs ::
  "('t, 'e, 'a, 'c) codec \<Rightarrow> string \<Rightarrow> string \<Rightarrow> string option \<Rightarrow> int option \<Rightarrow> ('t, 'e, 'a, 'c) sqlite \<Rightarrow>
   storage_error + push_config_page" where
  "sqlite_list_configs C tenant task_id page_token page_size db =
     Inr (sqlite_config_page C (\<lambda>_. True) tenant task_id page_token page_size db)"

definition sqlite_list_configs_eligible_at_event ::
  "('t, 'e, 'a, 'c) codec \<Rightarrow> string \<Rightarrow> string \<Rightarrow> nat \<Rightarrow> string option \<Rightarrow> int option \<Rightarrow> ('t, 'e, 'a, 'c) sqlite \<Rightarrow>
   storage_error + push_config_page" where
  "sqlite_list_configs_eligible_at_event C tenant task_id event_sequence page_token page_size db =
     Inr (sqlite_config_page C (\<lambda>floor. int floor < as_signed event_sequence) tenant task_id page_token page_size db)"

definition sqlite_delete_config ::
  "string \<Rightarrow> string \<Rightarrow> string \<Rightarrow> ('t, 'e, 'a, 'c) sqlite \<Rightarrow> (storage_error + unit) \<times> ('t, 'e, 'a, 'c) sqlite" where
  "sqlite_delete_config tenant task_id config_id db =
     (Inr (), db\<lparr>sq_configs := hm_remove (tenant, task_id, config_id) (sq_configs db)\<rparr>)"

section \<open>Texts of a delivery row\<close>

fun claim_status_to_str :: "claim_status \<Rightarrow> string" where
  "claim_status_to_str Pending = ''Pending''"
| "claim_status_to_str Attempting = ''Attempting''"
| "claim_status_to_str Succeeded = ''Succeeded''"
| "claim_status_to_str GaveUp = ''GaveUp''"
| "claim_status_to_str Abandoned = ''Abandoned''"

definition claim_status_from_str :: "string \<Rightarrow> storage_error + claim_status" where
  "claim_status_from_str s =
     (if s = ''Pending'' then Inr Pending
      else if s = ''Attempting'' then Inr Attempting
      else if s = ''Succeeded'' then Inr Succeeded
      else if s = ''GaveUp'' then Inr GaveUp
      else if s = ''Abandoned'' then Inr Abandoned
      else Inl (SE_DatabaseError (''unknown claim status: '' @ s)))"

text \<open>\<open>#[serde(tag = "t", content = "s")]\<close>.\<close>

fun error_class_to_json :: "delivery_error_class \<Rightarrow> json" where
  "error_class_to_json NetworkError = JObject [(''t'', JString ''NetworkError'')]"
| "error_class_to_json Timeout = JObject [(''t'', JString ''Timeout'')]"
| "error_class_to_json (HttpError4xx n) = JObject [(''t'', JString ''HttpError4xx''), (''s'', JInt (int n))]"
| "error_class_to_json (HttpError5xx n) = JObject [(''t'', JString ''HttpError5xx''), (''s'', JInt (int n))]"
| "error_class_to_json HttpError429 = JObject [(''t'', JString ''HttpError429'')]"
| "error_class_to_json SSRFBlocked = JObject [(''t'', JString ''SSRFBlocked'')]"
| "error_class_to_json ErrPayloadTooLarge = JObject [(''t'', JString ''PayloadTooLarge'')]"
| "error_class_to_json ErrTlsRejected = JObject [(''t'', JString ''TlsRejected'')]"

text \<open>The read of what the writer produced; a value of another shape is not an error class.\<close>

definition error_class_from_json :: "json \<Rightarrow> delivery_error_class option" where
  "error_class_from_json j = (case json_get ''t'' j of
       Some (JString tag) \<Rightarrow> (case json_get ''s'' j of
           Some (JInt n) \<Rightarrow> if n < 0 \<or> n \<ge> 2 ^ 16 then None
             else if tag = ''HttpError4xx'' then Some (HttpError4xx (nat n))
             else if tag = ''HttpError5xx'' then Some (HttpError5xx (nat n))
             else None
         | Some _ \<Rightarrow> None
         | None \<Rightarrow> List.find (\<lambda>c. error_class_to_json c = JObject [(''t'', JString tag)])
             [NetworkError, Timeout, HttpError429, SSRFBlocked, ErrPayloadTooLarge, ErrTlsRejected])
     | _ \<Rightarrow> None)"

fun gave_up_reason_to_str :: "gave_up_reason \<Rightarrow> string" where
  "gave_up_reason_to_str MaxAttemptsExhausted = ''MaxAttemptsExhausted''"
| "gave_up_reason_to_str NonRetryableHttpStatus = ''NonRetryableHttpStatus''"
| "gave_up_reason_to_str SsrfBlocked = ''SsrfBlocked''"
| "gave_up_reason_to_str PayloadTooLarge = ''PayloadTooLarge''"
| "gave_up_reason_to_str TlsRejected = ''TlsRejected''"

fun abandoned_reason_to_str :: "abandoned_reason \<Rightarrow> string" where
  "abandoned_reason_to_str ConfigDeleted = ''ConfigDeleted''"
| "abandoned_reason_to_str TaskDeleted = ''TaskDeleted''"
| "abandoned_reason_to_str NonHttpsUrlInProduction = ''NonHttpsUrlInProduction''"

definition micros_to_systime :: "int \<Rightarrow> instant" where
  "micros_to_systime micros = nat (max micros 0) * 1000"

section \<open>\<open>A2aPushDeliveryStore\<close>: claim, attempt, outcome\<close>

definition delivery_of :: "('t, 'e, 'a, 'c) sqlite \<Rightarrow> push_delivery_key \<Rightarrow> delivery_row option" where
  "delivery_of db key = hm_get (sq_deliveries db) key"

definition put_delivery ::
  "push_delivery_key \<Rightarrow> delivery_row \<Rightarrow> ('t, 'e, 'a, 'c) sqlite \<Rightarrow> ('t, 'e, 'a, 'c) sqlite" where
  "put_delivery key r db = db\<lparr>sq_deliveries := hm_insert key r (sq_deliveries db)\<rparr>"

definition as_u32 :: "nat \<Rightarrow> nat" where "as_u32 n = n mod 2 ^ 32"

definition row_open :: "delivery_row \<Rightarrow> bool" where
  "row_open r \<longleftrightarrow> dr_status r = ''Pending'' \<or> dr_status r = ''Attempting''"

definition claim_taken_row :: "int \<Rightarrow> int \<Rightarrow> string \<Rightarrow> delivery_row \<Rightarrow> delivery_row" where
  "claim_taken_row now_micros expires_micros claimant r = r\<lparr>dr_claimant := claimant,
     dr_generation := dr_generation r + 1, dr_claimed_at := now_micros, dr_expires_at := expires_micros,
     dr_status := ''Pending'', dr_gave_up_at := None, dr_gave_up_reason := None, dr_abandoned_reason := None\<rparr>"

definition sqlite_claim_delivery ::
  "instant \<Rightarrow> push_delivery_key \<Rightarrow> string \<Rightarrow> string \<Rightarrow> nat \<Rightarrow> ('t, 'e, 'a, 'c) sqlite \<Rightarrow>
   (storage_error + delivery_claim) \<times> ('t, 'e, 'a, 'c) sqlite" where
  "sqlite_claim_delivery now key claimant owner expiry =
     (let now_micros = systime_to_micros now; expires_micros = systime_to_micros (now + expiry)
      in in_tx (\<lambda>db. case delivery_of db key of
        Some prev \<Rightarrow> attempt (claim_status_from_str (dr_status prev)) (\<lambda>prev_status.
          if claim_terminal prev_status \<or> dr_expires_at prev > now_micros then Inl (claim_held key)
          else if \<not> (row_open prev \<and> dr_expires_at prev < now_micros) then Inl (claim_held key)
          else (let r = claim_taken_row now_micros expires_micros claimant prev
            in Inr (\<lparr>dc_claimant = claimant, dc_owner = dr_owner prev, dc_generation = dr_generation prev + 1,
                 dc_claimed_at = now, dc_delivery_attempt_count = as_u32 (dr_delivery_attempt_count prev),
                 dc_status = Pending\<rparr>, put_delivery key r db)))
      | None \<Rightarrow> Inr (\<lparr>dc_claimant = claimant, dc_owner = owner, dc_generation = 1, dc_claimed_at = now,
            dc_delivery_attempt_count = 0, dc_status = Pending\<rparr>,
          put_delivery key \<lparr>dr_claimant = claimant, dr_owner = owner, dr_generation = 1,
            dr_claimed_at = now_micros, dr_expires_at = expires_micros, dr_delivery_attempt_count = 0,
            dr_status = ''Pending'', dr_first_attempted_at = None, dr_last_attempted_at = None,
            dr_last_http_status = None, dr_last_error_class = None, dr_gave_up_at = None,
            dr_gave_up_reason = None, dr_abandoned_reason = None\<rparr> db)))"

definition coalesce :: "'x option \<Rightarrow> 'x \<Rightarrow> 'x option" where
  "coalesce a b = (case a of Some x \<Rightarrow> Some x | None \<Rightarrow> Some b)"

definition started_row :: "int \<Rightarrow> delivery_row \<Rightarrow> delivery_row" where
  "started_row now_micros r = r\<lparr>dr_delivery_attempt_count := dr_delivery_attempt_count r + 1,
     dr_status := (if dr_status r = ''Pending'' then ''Attempting'' else dr_status r),
     dr_first_attempted_at := coalesce (dr_first_attempted_at r) now_micros,
     dr_last_attempted_at := Some now_micros\<rparr>"

definition sqlite_record_attempt_started ::
  "instant \<Rightarrow> push_delivery_key \<Rightarrow> string \<Rightarrow> nat \<Rightarrow> ('t, 'e, 'a, 'c) sqlite \<Rightarrow>
   (storage_error + nat) \<times> ('t, 'e, 'a, 'c) sqlite" where
  "sqlite_record_attempt_started now key claimant claim_generation = in_tx (\<lambda>db.
     case delivery_of db key of
       None \<Rightarrow> Inl (stale_claim key)
     | Some r \<Rightarrow>
         if dr_claimant r = claimant \<and> dr_generation r = claim_generation \<and> row_open r
         then (let r' = started_row (systime_to_micros now) r
           in Inr (as_u32 (dr_delivery_attempt_count r'), put_delivery key r' db))
         else Inl (stale_claim key))"

fun settled_row :: "int \<Rightarrow> delivery_outcome \<Rightarrow> delivery_row \<Rightarrow> delivery_row" where
  "settled_row now_micros (OutSucceeded http) r = r\<lparr>dr_status := ''Succeeded'',
     dr_last_http_status := Some http,
     dr_first_attempted_at := coalesce (dr_first_attempted_at r) now_micros,
     dr_last_attempted_at := Some now_micros\<rparr>"
| "settled_row now_micros (OutRetry next_attempt_at http error_class) r = r\<lparr>dr_status := ''Attempting'',
     dr_last_http_status := http, dr_last_error_class := Some (error_class_to_json error_class),
     dr_last_attempted_at := Some now_micros\<rparr>"
| "settled_row now_micros (OutGaveUp reason error_class http retained_until) r = r\<lparr>
     dr_status := ''GaveUp'', dr_gave_up_at := Some now_micros,
     dr_gave_up_reason := Some (gave_up_reason_to_str reason),
     dr_last_error_class := Some (error_class_to_json error_class), dr_last_http_status := http,
     dr_first_attempted_at := coalesce (dr_first_attempted_at r) (dr_claimed_at r),
     dr_last_attempted_at := coalesce (dr_last_attempted_at r) now_micros,
     dr_expires_at := systime_to_micros retained_until\<rparr>"
| "settled_row now_micros (OutAbandoned reason) r = r\<lparr>dr_status := ''Abandoned'',
     dr_abandoned_reason := Some (abandoned_reason_to_str reason)\<rparr>"

definition sqlite_record_delivery_outcome ::
  "instant \<Rightarrow> push_delivery_key \<Rightarrow> string \<Rightarrow> nat \<Rightarrow> delivery_outcome \<Rightarrow> ('t, 'e, 'a, 'c) sqlite \<Rightarrow>
   (storage_error + unit) \<times> ('t, 'e, 'a, 'c) sqlite" where
  "sqlite_record_delivery_outcome now key claimant claim_generation outcome = in_tx (\<lambda>db.
     case delivery_of db key of
       None \<Rightarrow> Inl (stale_claim key)
     | Some r \<Rightarrow>
         if dr_claimant r \<noteq> claimant \<or> dr_generation r \<noteq> claim_generation then Inl (stale_claim key)
         else attempt (claim_status_from_str (dr_status r)) (\<lambda>cur_status.
           if claim_terminal cur_status then Inr ((), db)
           else Inr ((), put_delivery key (settled_row (systime_to_micros now) outcome r) db)))"

section \<open>Sweeps, listings, markers\<close>

definition sqlite_sweep_expired_claims :: "instant \<Rightarrow> ('t, 'e, 'a, 'c) sqlite \<Rightarrow> storage_error + nat" where
  "sqlite_sweep_expired_claims now db = Inr (length (filter
     (\<lambda>(_, r). dr_expires_at r < systime_to_micros now \<and> row_open r) (sq_deliveries db)))"

definition sqlite_list_reclaimable_claims ::
  "instant \<Rightarrow> nat \<Rightarrow> ('t, 'e, 'a, 'c) sqlite \<Rightarrow> storage_error + reclaimable_claim list" where
  "sqlite_list_reclaimable_claims now limit db = Inr (map
     (\<lambda>((tenant, task_id, event_sequence, config_id), r). \<lparr>rec_tenant = tenant, rec_owner = dr_owner r,
        rec_task_id = task_id, rec_event_sequence = event_sequence, rec_config_id = config_id\<rparr>)
     (take limit (filter (\<lambda>(_, r). dr_expires_at r < systime_to_micros now \<and> row_open r) (sq_deliveries db))))"

definition sqlite_record_pending_dispatch ::
  "instant \<Rightarrow> string \<Rightarrow> string \<Rightarrow> string \<Rightarrow> nat \<Rightarrow> ('t, 'e, 'a, 'c) sqlite \<Rightarrow>
   (storage_error + unit) \<times> ('t, 'e, 'a, 'c) sqlite" where
  "sqlite_record_pending_dispatch now tenant owner task_id event_sequence db =
     (Inr (), db\<lparr>sq_pending := hm_insert (tenant, task_id, event_sequence)
        (owner, nat (systime_to_micros now)) (sq_pending db)\<rparr>)"

definition sqlite_delete_pending_dispatch ::
  "string \<Rightarrow> string \<Rightarrow> nat \<Rightarrow> ('t, 'e, 'a, 'c) sqlite \<Rightarrow> (storage_error + unit) \<times> ('t, 'e, 'a, 'c) sqlite" where
  "sqlite_delete_pending_dispatch tenant task_id event_sequence db =
     (Inr (), db\<lparr>sq_pending := hm_remove (tenant, task_id, event_sequence) (sq_pending db)\<rparr>)"

definition sqlite_list_stale_pending_dispatches ::
  "instant \<Rightarrow> nat \<Rightarrow> ('t, 'e, 'a, 'c) sqlite \<Rightarrow> storage_error + pending_dispatch list" where
  "sqlite_list_stale_pending_dispatches older_than limit db = Inr (map
     (\<lambda>((tenant, task_id, sq), (owner, recorded)). \<lparr>pd_tenant = tenant, pd_owner = owner, pd_task_id = task_id,
        pd_event_sequence = sq, pd_recorded_at = micros_to_systime (int recorded)\<rparr>)
     (take limit (filter (\<lambda>(_, (_, recorded)). int recorded \<le> systime_to_micros older_than) (sq_pending db))))"

definition failed_row :: "(string \<times> string \<times> nat) \<times> delivery_row \<Rightarrow> failed_delivery" where
  "failed_row e = (case e of ((task_id, config_id, sq), r) \<Rightarrow>
     (let gave_up = (case dr_gave_up_at r of Some x \<Rightarrow> x | None \<Rightarrow> dr_claimed_at r)
      in \<lparr>fd_task_id = task_id, fd_config_id = config_id, fd_event_sequence = sq,
           fd_first_attempted_at = micros_to_systime (case dr_first_attempted_at r of
             Some x \<Rightarrow> x | None \<Rightarrow> dr_claimed_at r),
           fd_last_attempted_at = micros_to_systime (case dr_last_attempted_at r of Some x \<Rightarrow> x | None \<Rightarrow> gave_up),
           fd_gave_up_at = micros_to_systime gave_up,
           fd_delivery_attempt_count = as_u32 (dr_delivery_attempt_count r),
           fd_last_http_status = map_option (\<lambda>n. n mod 2 ^ 16) (dr_last_http_status r),
           fd_last_error_class = (case Option.bind (dr_last_error_class r) error_class_from_json of
             Some c \<Rightarrow> c | None \<Rightarrow> NetworkError)\<rparr>))"

definition sqlite_list_failed_deliveries ::
  "string \<Rightarrow> instant \<Rightarrow> nat \<Rightarrow> ('t, 'e, 'a, 'c) sqlite \<Rightarrow> storage_error + failed_delivery list" where
  "sqlite_list_failed_deliveries tenant since limit db = Inr (map failed_row (take limit
     (sort_desc (\<lambda>(_, r). case dr_gave_up_at r of Some g \<Rightarrow> g | None \<Rightarrow> 0) (List.map_filter
       (\<lambda>((t, task_id, sq, config_id), r). if t = tenant \<and> dr_status r = ''GaveUp'' \<and>
            (case dr_gave_up_at r of Some g \<Rightarrow> systime_to_micros since \<le> g | None \<Rightarrow> False)
          then Some ((task_id, config_id, sq), r) else None) (sq_deliveries db)))))"

section \<open>The texts\<close>

lemma claim_status_round_trip [simp]: "claim_status_from_str (claim_status_to_str s) = Inr s"
  by (cases s) (simp_all add: claim_status_from_str_def)

lemma claim_status_from_open: "claim_status_from_str s = Inr x \<Longrightarrow>
    (s = ''Pending'' \<or> s = ''Attempting'') = (\<not> claim_terminal x)"
  by (auto simp: claim_status_from_str_def claim_terminal_def split: if_splits)

fun class_in_range :: "delivery_error_class \<Rightarrow> bool" where
  "class_in_range (HttpError4xx n) \<longleftrightarrow> n < 2 ^ 16"
| "class_in_range (HttpError5xx n) \<longleftrightarrow> n < 2 ^ 16"
| "class_in_range _ \<longleftrightarrow> True"

lemma error_class_round_trip: "class_in_range e \<Longrightarrow> error_class_from_json (error_class_to_json e) = Some e"
  by (cases e) (simp_all add: error_class_from_json_def)

section \<open>The claim contract\<close>

definition row_final :: "delivery_row \<Rightarrow> bool" where
  "row_final r \<longleftrightarrow> (case claim_status_from_str (dr_status r) of Inr s \<Rightarrow> claim_terminal s | Inl _ \<Rightarrow> False)"

lemma delivery_of_put [simp]:
  "delivery_of (put_delivery key r db) key' = (if key' = key then Some r else delivery_of db key')"
  by (simp add: delivery_of_def put_delivery_def hm_simps)

lemma row_open_final: "row_open r \<Longrightarrow> \<not> row_final r"
  by (auto simp: row_open_def row_final_def claim_status_from_str_def claim_terminal_def)

lemma in_tx_error: "in_tx body db = (Inl e, db') \<Longrightarrow> db' = db"
  by (auto simp: in_tx_def split: sum.splits)

lemma as_u32_small: "n < 2 ^ 32 \<Longrightarrow> as_u32 n = n"
  by (simp add: as_u32_def)

lemma settled_row_identity [simp]:
  "dr_claimant (settled_row m oc r) = dr_claimant r" "dr_generation (settled_row m oc r) = dr_generation r"
  "dr_delivery_attempt_count (settled_row m oc r) = dr_delivery_attempt_count r"
  by (cases oc; simp)+

interpretation sql: claim_store
  "delivery_of :: ('t, 'e, 'a, 'c) sqlite \<Rightarrow> push_delivery_key \<Rightarrow> delivery_row option" dr_claimant dr_generation dr_delivery_attempt_count row_final Suc
  sqlite_claim_delivery sqlite_record_attempt_started sqlite_record_delivery_outcome
proof
  fix now k w ow x and s s' :: "('t, 'e, 'a, 'c) sqlite" and c e
  show "k' \<noteq> k \<Longrightarrow> delivery_of (snd (sqlite_claim_delivery now k w ow x s)) k' = delivery_of s k'" for k'
    by (auto simp: sqlite_claim_delivery_def in_tx_def attempt_def Let_def split: option.splits sum.splits)
  show "sqlite_claim_delivery now k w ow x s = (Inl e, s') \<Longrightarrow> s' = s"
    unfolding sqlite_claim_delivery_def Let_def by (rule in_tx_error)
  show "sqlite_claim_delivery now k w ow x s = (Inr c, s') \<Longrightarrow> delivery_of s k = None \<Longrightarrow>
      dc_generation c = 1 \<and> dc_delivery_attempt_count c = 0"
    by (auto simp: sqlite_claim_delivery_def in_tx_def Let_def)
  show "sqlite_claim_delivery now k w ow x s = (Inr c, s') \<Longrightarrow> delivery_of s k = Some r \<Longrightarrow>
      \<not> row_final r \<and> dc_generation c = dr_generation r + 1 \<and>
      (\<forall>r'. delivery_of s' k = Some r' \<longrightarrow> dr_delivery_attempt_count r' = dr_delivery_attempt_count r)" for r
    by (auto simp: sqlite_claim_delivery_def in_tx_def attempt_def claim_taken_row_def row_open_final Let_def
        split: sum.splits if_splits)
  show "sqlite_claim_delivery now k w ow x s = (Inr c, s') \<Longrightarrow> dc_claimant c = w \<and>
      (\<exists>r'. delivery_of s' k = Some r' \<and> dr_claimant r' = w \<and> dr_generation r' = dc_generation c \<and>
        (dr_delivery_attempt_count r' < 2 ^ 32 \<longrightarrow> dc_delivery_attempt_count c = dr_delivery_attempt_count r'))"
    by (auto simp: sqlite_claim_delivery_def in_tx_def attempt_def claim_taken_row_def Let_def as_u32_def
        split: sum.splits if_splits option.splits)
next
  fix now k w g oc and s s' :: "('t, 'e, 'a, 'c) sqlite" and e n u
  show "k' \<noteq> k \<Longrightarrow> delivery_of (snd (sqlite_record_attempt_started now k w g s)) k' = delivery_of s k'" for k'
    by (auto simp: sqlite_record_attempt_started_def in_tx_def Let_def split: option.splits)
  show "k' \<noteq> k \<Longrightarrow> delivery_of (snd (sqlite_record_delivery_outcome now k w g oc s)) k' = delivery_of s k'" for k'
    by (auto simp: sqlite_record_delivery_outcome_def in_tx_def attempt_def split: option.splits sum.splits)
  show "sqlite_record_attempt_started now k w g s = (Inl e, s') \<Longrightarrow> s' = s"
    unfolding sqlite_record_attempt_started_def Let_def by (rule in_tx_error)
  show "sqlite_record_attempt_started now k w g s = (Inr n, s') \<Longrightarrow>
      \<exists>r r'. delivery_of s k = Some r \<and> dr_claimant r = w \<and> dr_generation r = g \<and> \<not> row_final r \<and>
        delivery_of s' k = Some r' \<and> dr_claimant r' = w \<and> dr_generation r' = g \<and>
        (dr_delivery_attempt_count r' < 2 ^ 32 \<longrightarrow> n = dr_delivery_attempt_count r') \<and>
        dr_delivery_attempt_count r' = Suc (dr_delivery_attempt_count r)"
    by (auto simp: sqlite_record_attempt_started_def in_tx_def started_row_def row_open_final as_u32_def Let_def
        split: option.splits if_splits)
  show "sqlite_record_delivery_outcome now k w g oc s = (Inl e, s') \<Longrightarrow> s' = s"
    unfolding sqlite_record_delivery_outcome_def Let_def by (rule in_tx_error)
  show "sqlite_record_delivery_outcome now k w g oc s = (Inr u, s') \<Longrightarrow>
      \<exists>r r'. delivery_of s k = Some r \<and> dr_claimant r = w \<and> dr_generation r = g \<and>
        delivery_of s' k = Some r' \<and> dr_claimant r' = w \<and> dr_generation r' = g \<and>
        dr_delivery_attempt_count r' = dr_delivery_attempt_count r \<and> (row_final r \<longrightarrow> s' = s)"
    by (auto simp: sqlite_record_delivery_outcome_def in_tx_def attempt_def row_final_def
        split: option.splits if_splits sum.splits)
qed simp_all

primrec sql_claim_step :: "('t, 'e, 'a, 'c) sqlite \<Rightarrow> push_delivery_key claim_call \<Rightarrow> ('t, 'e, 'a, 'c) sqlite" where
  "sql_claim_step s (CallClaim now k w ow x) = snd (sqlite_claim_delivery now k w ow x s)"
| "sql_claim_step s (CallAttempt now k w g) = snd (sqlite_record_attempt_started now k w g s)"
| "sql_claim_step s (CallOutcome now k w g oc) = snd (sqlite_record_delivery_outcome now k w g oc s)"

lemma sql_call [simp]: "sql.call = sql_claim_step"
proof (rule ext, rule ext)
  show "sql.call s c = sql_claim_step s c" for s c by (cases c) simp_all
qed

lemmas sql_claim_laws = sql.final_frozen [unfolded sql_call] sql.fenced_forever [unfolded sql_call]

end
