(* ===== verification/Sqlite_List.thy ===== *)
theory Sqlite_List
  imports Sqlite_Store Store_List
begin

text \<open>
  The reads over many rows of \<open>SqliteA2aStorage\<close>: the filtered, ordered, paged listing of tasks
  and the listings of the cancellation supervisor. A \<open>SELECT\<close> without \<open>ORDER BY\<close> gives its rows in
  the order of the table.
\<close>

section \<open>\<open>list_tasks\<close>\<close>

definition select_matches ::
  "chrono \<Rightarrow> task_filter \<Rightarrow> task_key \<times> 't task_row \<Rightarrow> bool" where
  "select_matches c f e = (case e of ((t, i), r) \<Rightarrow>
     t = (case tf_tenant f of Some tenant \<Rightarrow> tenant | None \<Rightarrow> '''') \<and>
     tr_owner r = (case tf_owner f of Some owner \<Rightarrow> owner | None \<Rightarrow> '''') \<and>
     (case tf_context_id f of None \<Rightarrow> True | Some ctx \<Rightarrow> tr_context_id r = ctx) \<and>
     (case tf_status f of None \<Rightarrow> True | Some st \<Rightarrow> tr_status_state r = wire_name st) \<and>
     (case tf_status_timestamp_after f of None \<Rightarrow> True
      | Some after \<Rightarrow> key_of c after \<le> tr_status_timestamp r))"

definition select_key :: "task_key \<times> 't task_row \<Rightarrow> string \<times> string" where
  "select_key e = (case e of ((t, i), r) \<Rightarrow> (tr_status_timestamp r, i))"

definition before_cursor :: "(string \<times> string) option \<Rightarrow> task_key \<times> 't task_row \<Rightarrow> bool" where
  "before_cursor cursor e = (case cursor of None \<Rightarrow> True
     | Some (key, i) \<Rightarrow> fst (select_key e) < key \<or> fst (select_key e) = key \<and> snd (select_key e) < i)"

definition select_tasks ::
  "chrono \<Rightarrow> task_filter \<Rightarrow> (string \<times> string) option \<Rightarrow> nat \<Rightarrow> ('t, 'e, 'a, 'c) sqlite \<Rightarrow>
   (task_key \<times> 't task_row) list" where
  "select_tasks c f cursor limit db = take limit (sort_desc select_key
     (filter (before_cursor cursor) (filter (select_matches c f) (sq_tasks db))))"

definition listed_row ::
  "('t, 'e, 'a, 'c) codec \<Rightarrow> task_filter \<Rightarrow> ('t, 'e, 'a, 'c) sqlite \<Rightarrow> task_key \<times> 't task_row \<Rightarrow> pb_task option" where
  "listed_row C f db e = (case e of ((t, i), r) \<Rightarrow>
     (case (if (case tf_include_artifacts f of Some b \<Rightarrow> b | None \<Rightarrow> False)
            then rehydrate_task C (case tf_tenant f of Some tenant \<Rightarrow> tenant | None \<Rightarrow> '''') i
              (tr_task_json r) (tr_artifact_manifest r) db
            else task_from_json C (tr_task_json r)) of
        Inr t \<Rightarrow> Some (trim_history t (tf_history_length f))
      | Inl _ \<Rightarrow> None))"

definition sqlite_list_tasks ::
  "('t, 'e, 'a, 'c) codec \<Rightarrow> chrono \<Rightarrow> task_filter \<Rightarrow> ('t, 'e, 'a, 'c) sqlite \<Rightarrow> storage_error + task_list_page" where
  "sqlite_list_tasks C c f db =
     attempt (resolved_page_size f) (\<lambda>page_size.
     attempt (case tf_page_token f of None \<Rightarrow> Inr None
        | Some token \<Rightarrow> attempt (decode_cursor c token) (\<lambda>k. Inr (Some k))) (\<lambda>cursor.
       (let total_size = length (filter (select_matches c f) (sq_tasks db));
            n = nat page_size;
            fetched = select_tasks c f cursor (n + 1) db;
            has_more = length fetched > n;
            rows = take n fetched;
            ts = List.map_filter (listed_row C f db) rows;
            next = (if rows \<noteq> [] \<and> has_more
              then encode_cursor (fst (select_key (last rows))) (snd (select_key (last rows))) else '''')
        in Inr \<lparr>tlp_tasks = ts, tlp_next_page_token = next, tlp_page_size = page_size,
             tlp_total_size = as_i32 (int total_size)\<rparr>)))"

definition sqlite_task_count :: "('t, 'e, 'a, 'c) sqlite \<Rightarrow> storage_error + nat" where
  "sqlite_task_count db = Inr (length (sq_tasks db))"

section \<open>\<open>A2aCancellationSupervisor\<close>\<close>

definition sqlite_get_cancel_requested ::
  "string \<Rightarrow> string \<Rightarrow> ('t, 'e, 'a, 'c) sqlite \<Rightarrow> storage_error + bool" where
  "sqlite_get_cancel_requested tenant task_id db = Inr (case hm_get (sq_tasks db) (tenant, task_id) of
       Some r \<Rightarrow> tr_status_state r \<notin> set TERMINAL_STATES_SQL \<and> tr_cancel_requested r
     | None \<Rightarrow> False)"

definition sqlite_list_cancel_requested ::
  "string \<Rightarrow> string list \<Rightarrow> ('t, 'e, 'a, 'c) sqlite \<Rightarrow> storage_error + string list" where
  "sqlite_list_cancel_requested tenant task_ids db =
     (if task_ids = [] then Inr []
      else Inr (List.map_filter (\<lambda>((t, i), r). if t = tenant \<and> i \<in> set task_ids \<and> tr_cancel_requested r \<and>
            tr_status_state r \<notin> set TERMINAL_STATES_SQL then Some i else None) (sq_tasks db)))"

definition lease_chunk ::
  "string \<Rightarrow> int option \<Rightarrow> string list \<Rightarrow> ('t, 'e, 'a, 'c) sqlite \<Rightarrow> ('t, 'e, 'a, 'c) sqlite" where
  "lease_chunk tenant expires ids db = db\<lparr>sq_tasks := map (\<lambda>((t, i), r).
     ((t, i), if t = tenant \<and> i \<in> set ids then r\<lparr>tr_lease_expires_at := expires\<rparr> else r)) (sq_tasks db)\<rparr>"

text \<open>\<open>task_ids.chunks(500)\<close>.\<close>

function chunks :: "nat \<Rightarrow> 'x list \<Rightarrow> 'x list list" where
  "chunks n xs = (if xs = [] \<or> n = 0 then [] else take n xs # chunks n (drop n xs))"
  by pat_completeness auto
termination by (relation "measure (\<lambda>(n, xs). length xs)") auto

declare chunks.simps [simp del]

definition sqlite_renew_executor_leases ::
  "string \<Rightarrow> string list \<Rightarrow> int option \<Rightarrow> ('t, 'e, 'a, 'c) sqlite \<Rightarrow>
   (storage_error + unit) \<times> ('t, 'e, 'a, 'c) sqlite" where
  "sqlite_renew_executor_leases tenant task_ids expires db =
     (Inr (), fold (lease_chunk tenant expires) (chunks 500 task_ids) db)"

definition EXECUTOR_HELD_STATES_SQL :: "string list" where
  "EXECUTOR_HELD_STATES_SQL = map wire_name EXECUTOR_HELD_STATES"

definition CLIENT_HELD_STATES_SQL :: "string list" where
  "CLIENT_HELD_STATES_SQL = map wire_name CLIENT_HELD_STATES"

definition supervised_row :: "task_key \<times> 't task_row \<Rightarrow> supervised_task" where
  "supervised_row e = (case e of ((t, i), r) \<Rightarrow>
     \<lparr>sv_tenant = t, sv_task_id = i, sv_owner = tr_owner r, sv_context_id = tr_context_id r\<rparr>)"

definition sqlite_list_expired_executor_leases ::
  "int \<Rightarrow> ('t, 'e, 'a, 'c) sqlite \<Rightarrow> storage_error + supervised_task list" where
  "sqlite_list_expired_executor_leases now_micros db = Inr (map supervised_row (filter
     (\<lambda>(_, r). tr_status_state r \<in> set EXECUTOR_HELD_STATES_SQL \<and>
        (case tr_lease_expires_at r of None \<Rightarrow> False | Some l \<Rightarrow> l < now_micros)) (sq_tasks db)))"

definition sqlite_list_idle_client_held_tasks ::
  "chrono \<Rightarrow> int \<Rightarrow> nat \<Rightarrow> ('t, 'e, 'a, 'c) sqlite \<Rightarrow> storage_error + supervised_task list" where
  "sqlite_list_idle_client_held_tasks c before_micros limit db = Inr (map supervised_row (take limit (filter
     (\<lambda>(_, r). tr_status_state r \<in> set CLIENT_HELD_STATES_SQL \<and>
        tr_status_timestamp r < key_of_micros c before_micros) (sq_tasks db))))"

section \<open>Leases\<close>

text \<open>The chunks renew exactly the ids they were cut from.\<close>

lemma chunks_concat: "0 < n \<Longrightarrow> concat (chunks n xs) = xs"
  by (induction n xs rule: chunks.induct) (subst chunks.simps, simp)

lemma lease_chunk_twice: "lease_chunk tn e ids (lease_chunk tn e ids' db) = lease_chunk tn e (ids' @ ids) db"
  by (auto simp: lease_chunk_def comp_def intro!: arg_cong [where f = "\<lambda>x. db\<lparr>sq_tasks := x\<rparr>"] map_cong)

lemma lease_chunk_none: "lease_chunk tn e [] db = db"
proof -
  have "map (\<lambda>((t, i), r). ((t, i), r)) xs = xs" for xs :: "(task_key \<times> 't task_row) list"
    by (induction xs) auto
  then show ?thesis by (simp add: lease_chunk_def)
qed

theorem renew_leases_at_once:
  "snd (sqlite_renew_executor_leases tn ids e db) = lease_chunk tn e ids db"
proof -
  have "fold (lease_chunk tn e) cs (lease_chunk tn e xs db) = lease_chunk tn e (xs @ concat cs) db" for cs xs
    by (induction cs arbitrary: xs) (simp_all add: lease_chunk_twice)
  from this [of "chunks 500 ids" "[]"] show ?thesis
    by (simp add: sqlite_renew_executor_leases_def chunks_concat lease_chunk_none)
qed

end
