(* ===== verification/Sqlite_Reads.thy ===== *)
theory Sqlite_Reads
  imports Sqlite_Commits Sqlite_Push Sqlite_List
begin

text \<open>
  The rest of the refinement: the writes of push configs, markers and leases keep the relation,
  and related states answer the paged listings alike.
\<close>

section \<open>Push configs\<close>

lemma config_refines_update:
  assumes "configs_refine C rows m" and "dec_config C json = Inr cfg" and "snd (snd k) = pc_id cfg"
  shows "configs_refine C (hm_insert k \<lparr>cr_config_json = json, cr_registered_after_event_sequence = n\<rparr> rows)
    (hm_insert k \<lparr>spc_config = cfg, spc_registered_after_event_sequence = n\<rparr> m)"
proof -
  let ?r = "\<lparr>cr_config_json = json, cr_registered_after_event_sequence = n\<rparr>"
  let ?x = "\<lparr>spc_config = cfg, spc_registered_after_event_sequence = n\<rparr>"
  have new: "config_refines C (k, ?r) (k, ?x)" using assms(2,3) by (simp add: config_refines_def)
  have "list_all2 (config_refines C) rows m" "hm_wf m" using assms(1) by (simp_all add: configs_refine_def)
  then have "list_all2 (config_refines C) (hm_insert k ?r rows) (hm_insert k ?x m)"
  proof (induction rows m rule: list_all2_induct)
    case (Cons a as b bs)
    then have "fst a = fst b" by (simp add: config_refines_def)
    with Cons new show ?case
      by (cases a; cases b) (auto simp: hm_insert_def hm_wf_def)
  qed (simp add: hm_insert_def new)
  with \<open>hm_wf m\<close> show ?thesis by (simp add: configs_refine_def hm_simps)
qed

lemma config_refines_remove:
  assumes "configs_refine C rows m"
  shows "configs_refine C (hm_remove k rows) (hm_remove k m)"
proof -
  have "list_all2 (config_refines C) rows m" "hm_wf m" using assms by (simp_all add: configs_refine_def)
  moreover from this(1) have "list_all2 (config_refines C) (hm_remove k rows) (hm_remove k m)"
    by (induction rows m rule: list_all2_induct) (auto simp: hm_remove_def config_refines_def)
  ultimately show ?thesis by (simp add: configs_refine_def hm_simps)
qed

lemma refines_configs:
  assumes R: "refines C A db s" and "configs_refine C m m'"
  shows "refines C A (db\<lparr>sq_configs := m\<rparr>) (s\<lparr>push_configs := m'\<rparr>)"
proof -
  have "task_refines C A tn i (db\<lparr>sq_configs := m\<rparr>) (s\<lparr>push_configs := m'\<rparr>) = task_refines C A tn i db s" for tn i
    by (simp add: task_refines_def get_stored_def row_refines_def split: option.splits)
  moreover have "log_refines C (db\<lparr>sq_configs := m\<rparr>) (s\<lparr>push_configs := m'\<rparr>) tn i = log_refines C db s tn i" for tn i
    by (simp add: log_refines_def log_of_def counter_of_def max_sequence_def)
  moreover have "marked (db\<lparr>sq_configs := m\<rparr>) = marked db" by (simp add: marked_def fun_eq_iff)
  ultimately show ?thesis using assms by (simp add: refines_def)
qed

lemma floor_refines:
  assumes "refines C A db s"
  shows "(case hm_get (sq_tasks db) (tn, i) of Some r \<Rightarrow> tr_latest_event_sequence r | None \<Rightarrow> 0) = latest_floor s tn i"
proof -
  have "task_refines C A tn i db s" using assms by (simp add: refines_def)
  then show ?thesis
    by (cases rule: task_refines_cases) (auto simp: latest_floor_def row_refines_def)
qed

lemma create_config_refines:
  assumes C: "codable_config C (if pc_id cfg = [] then cfg\<lparr>pc_id := uuid\<rparr> else cfg)" and R: "refines C A db s"
  shows "fst (sqlite_create_config C uuid env tn cfg db) = fst (create_config uuid (\<lambda>_ s. s) tn cfg s) \<and>
    refines C A (snd (sqlite_create_config C uuid env tn cfg db)) (snd (create_config uuid (\<lambda>_ s. s) tn cfg s))"
proof -
  define c where "c = (if pc_id cfg = [] then cfg\<lparr>pc_id := uuid\<rparr> else cfg)"
  obtain json where j: "enc_config C c = Inr json" "dec_config C json = Inr c"
    using C unfolding codable_config_def c_def by blast
  let ?n = "latest_floor s tn (pc_task_id c)" and ?k = "(tn, pc_task_id c, pc_id c)"
  let ?db = "db\<lparr>sq_configs := hm_insert ?k \<lparr>cr_config_json = json, cr_registered_after_event_sequence = ?n\<rparr> (sq_configs db)\<rparr>"
  have "config_tx json tn c db = Some ?db"
    using floor_refines [OF R, of tn "pc_task_id c", symmetric]
    by (simp add: config_tx_def Let_def split: option.splits)
  then have sql: "sqlite_create_config C uuid env tn cfg db = (Inr c, ?db)"
    using j by (simp add: sqlite_create_config_def c_def [symmetric] MAX_ATTEMPTS_def eval_nat_numeral)
  have "create_config_loop MAX_ATTEMPTS (\<lambda>_ s. s) tn c 0 s = (Inr c, insert_config tn c ?n s)"
    by (rule create_config_loop_quiet) (simp_all add: MAX_ATTEMPTS_def)
  then have mem: "create_config uuid (\<lambda>_ s. s) tn cfg s = (Inr c, insert_config tn c ?n s)"
    by (simp add: create_config_def c_def [symmetric])
  have "configs_refine C (sq_configs db) (push_configs s)" using R by (simp add: refines_def)
  from config_refines_update [OF this j(2), of ?k ?n] refines_configs [OF R]
  have "refines C A ?db (insert_config tn c ?n s)" by (simp add: insert_config_def)
  with sql mem show ?thesis by simp
qed

lemma delete_config_refines:
  assumes "refines C A db s"
  shows "fst (sqlite_delete_config tn i c db) = fst (delete_config tn i c s) \<and>
    refines C A (snd (sqlite_delete_config tn i c db)) (snd (delete_config tn i c s))"
proof -
  have "configs_refine C (sq_configs db) (push_configs s)" using assms by (simp add: refines_def)
  from config_refines_remove [OF this, of "(tn, i, c)"] refines_configs [OF assms] show ?thesis
    by (simp add: sqlite_delete_config_def delete_config_def)
qed

section \<open>Markers\<close>

lemma refines_pending:
  assumes R: "refines C A db s" and "\<And>k. map_option fst (hm_get m k) = map_option spd_owner (hm_get m' k)"
  shows "refines C A (db\<lparr>sq_pending := m\<rparr>) (s\<lparr>pending_dispatches := m'\<rparr>)"
proof -
  have "task_refines C A tn i (db\<lparr>sq_pending := m\<rparr>) (s\<lparr>pending_dispatches := m'\<rparr>) = task_refines C A tn i db s" for tn i
    by (simp add: task_refines_def get_stored_def row_refines_def split: option.splits)
  moreover have "log_refines C (db\<lparr>sq_pending := m\<rparr>) (s\<lparr>pending_dispatches := m'\<rparr>) tn i = log_refines C db s tn i" for tn i
    by (simp add: log_refines_def log_of_def counter_of_def max_sequence_def)
  ultimately show ?thesis using assms by (simp add: refines_def marked_def del: split_paired_All)
qed

lemma pending_refines:
  assumes R: "refines C A db s"
  shows "refines C A (snd (sqlite_record_pending_dispatch now tn ow i q db)) (snd (record_pending_dispatch now tn ow i q s))"
    "refines C A (snd (sqlite_delete_pending_dispatch tn i q db)) (snd (delete_pending_dispatch tn i q s))"
proof -
  have m: "map_option fst (hm_get (sq_pending db) k) = map_option spd_owner (hm_get (pending_dispatches s) k)" for k
    using refines_marked [OF R, of k] by (simp add: marked_def)
  show "refines C A (snd (sqlite_record_pending_dispatch now tn ow i q db)) (snd (record_pending_dispatch now tn ow i q s))"
    using refines_pending [OF R] m by (simp add: sqlite_record_pending_dispatch_def record_pending_dispatch_def hm_simps)
  show "refines C A (snd (sqlite_delete_pending_dispatch tn i q db)) (snd (delete_pending_dispatch tn i q s))"
    using refines_pending [OF R] m by (simp add: sqlite_delete_pending_dispatch_def delete_pending_dispatch_def hm_simps)
qed

section \<open>Leases\<close>

lemma lease_chunk_get:
  "hm_get (sq_tasks (lease_chunk tn e ids db)) (tn', i) = map_option (\<lambda>r. if tn' = tn \<and> i \<in> set ids
     then r\<lparr>tr_lease_expires_at := e\<rparr> else r) (hm_get (sq_tasks db) (tn', i))"
proof -
  have "map_of (map (\<lambda>((t, i), r). ((t, i), g t i r)) xs) (tn', i) = map_option (g tn' i) (map_of xs (tn', i))"
    for g and xs :: "(task_key \<times> 'r) list"
    by (induction xs) auto
  from this [of "\<lambda>t i r. if t = tn \<and> i \<in> set ids then r\<lparr>tr_lease_expires_at := e\<rparr> else r"] show ?thesis
    by (simp add: lease_chunk_def hm_get_def)
qed

lemma renew_frame:
  "fold (set_lease tn e) ids s = s\<lparr>tasks := tasks (fold (set_lease tn e) ids s)\<rparr>"
proof (induction ids arbitrary: s)
  case (Cons i ids)
  have "set_lease tn e i s = s\<lparr>tasks := tasks (set_lease tn e i s)\<rparr>"
    by (auto simp: set_lease_def put_stored_def split: option.splits)
  with Cons [of "set_lease tn e i s"] show ?case by (metis (no_types, lifting) fold_simps(2) store.surjective store.update_convs(1))
qed simp

lemma lease_refines:
  assumes R: "refines C A db s"
  shows "refines C A (snd (sqlite_renew_executor_leases tn ids e db)) (snd (supervisor_renew_executor_leases tn ids e s))"
proof -
  let ?db = "lease_chunk tn e ids db" and ?s = "fold (set_lease tn e) ids s"
  have f: "sq_artifacts ?db = sq_artifacts db" "sq_events ?db = sq_events db" "sq_configs ?db = sq_configs db"
    "sq_pending ?db = sq_pending db" "sq_push_dispatch_enabled ?db = sq_push_dispatch_enabled db"
    by (simp_all add: lease_chunk_def)
  have g: "events ?s = events s" "event_counters ?s = event_counters s" "push_configs ?s = push_configs s"
    "pending_dispatches ?s = pending_dispatches s" "push_dispatch_enabled ?s = push_dispatch_enabled s"
    by (subst renew_frame, simp)+
  have "task_refines C A tn' i ?db ?s" for tn' i
  proof -
    have "task_refines C A tn' i db s" using R by (simp add: refines_def)
    then show ?thesis
      by (cases rule: task_refines_cases)
        (auto simp: task_refines_def renew_leases_get lease_chunk_get f row_refines_def)
  qed
  moreover have "log_refines C ?db ?s tn' i = log_refines C db s tn' i" for tn' i
    by (simp add: log_refines_def log_of_def counter_of_def g f max_sequence_events [OF f(2)])
  moreover have "marked ?db = marked db" by (simp add: marked_def fun_eq_iff f)
  ultimately show ?thesis
    using R by (simp add: refines_def renew_leases_at_once supervisor_renew_executor_leases_def f g)
qed

section \<open>Pages after a cursor\<close>

lemma drop_position_filter:
  assumes "sorted_wrt before xs" and "\<And>x y. x \<in> set xs \<Longrightarrow> y \<in> set xs \<Longrightarrow> before x y \<Longrightarrow> P x \<Longrightarrow> P y"
  shows "drop (case position P xs of Some i \<Rightarrow> i | None \<Rightarrow> length xs) xs = filter P xs"
  using assms
proof (induction xs)
  case (Cons x xs)
  show ?case
  proof (cases "P x")
    case True
    with Cons.prems have "\<forall>y \<in> set xs. P y" by (metis list.set_intros(1,2) sorted_wrt.simps(2))
    with True show ?thesis by (simp add: filter_True)
  next
    case False
    have "drop (case position P xs of Some i \<Rightarrow> i | None \<Rightarrow> length xs) xs = filter P xs"
      using Cons.prems by (intro Cons.IH) auto
    with False show ?thesis by (auto split: option.splits)
  qed
qed simp

lemma page_of_rest:
  assumes "length xs' = length (drop i xs)" and "i \<le> length xs"
  shows "(length (take (n + 1) xs') > n) = (min (i + n) (length xs) < length xs)"
    "take (min (i + n) (length xs) - i) ys = take (min n (length xs')) ys"
  using assms by (auto simp: min_def)

section \<open>Config listings\<close>

lemma list_all2_insort:
  assumes "R x y" and "list_all2 R xs ys" and "\<And>a b. R a b \<Longrightarrow> f a = g b"
  shows "list_all2 R (insort_key f x xs) (insort_key g y ys)"
  using assms(2) assms(3) [OF assms(1)]
  by (induction xs ys rule: list_all2_induct) (auto simp: assms(1) dest: assms(3))

lemma list_all2_sort:
  assumes "list_all2 R xs ys" and "\<And>a b. R a b \<Longrightarrow> f a = g b"
  shows "list_all2 R (sort_key f xs) (sort_key g ys)"
  using assms(1) by (induction xs ys rule: list_all2_induct) (auto intro: list_all2_insort assms(2))

lemma list_all2_filter:
  assumes "list_all2 R xs ys" and "\<And>a b. R a b \<Longrightarrow> P a = Q b"
  shows "list_all2 R (filter P xs) (filter Q ys)"
  using assms(1) by (induction xs ys rule: list_all2_induct) (auto simp: assms(2))

definition cfg_rel :: "('t, 'e, 'a, 'c) codec \<Rightarrow> string \<times> 'c \<Rightarrow> push_config \<Rightarrow> bool" where
  "cfg_rel C r x \<longleftrightarrow> fst r = pc_id x \<and> dec_config C (snd r) = Inr x"

lemma task_configs_rel:
  assumes "configs_refine C rows (push_configs s)"
  shows "list_all2 (cfg_rel C) (sort_key fst (map (\<lambda>((_, _, i), r). (i, cr_config_json r))
       (filter (\<lambda>((t, tid, _), r). t = tn \<and> tid = i \<and> P (cr_registered_after_event_sequence r)) rows)))
     (task_configs P tn i s)"
proof -
  have "list_all2 (cfg_rel C) (map (\<lambda>((_, _, i), r). (i, cr_config_json r))
       (filter (\<lambda>((t, tid, _), r). t = tn \<and> tid = i \<and> P (cr_registered_after_event_sequence r)) rows))
     (map (\<lambda>(_, v). spc_config v) (filter (\<lambda>((t, tid, _), v). t = tn \<and> tid = i \<and>
        P (spc_registered_after_event_sequence v)) m))"
    if "list_all2 (config_refines C) rows m" for m
    using that
  proof (induction rows m rule: list_all2_induct)
    case (Cons a as b bs)
    then show ?case by (cases a; cases b) (auto simp: config_refines_def cfg_rel_def)
  qed simp
  then show ?thesis using assms
    unfolding task_configs_def configs_refine_def
    by (intro list_all2_sort) (auto simp: cfg_rel_def)
qed

definition after_token :: "string option \<Rightarrow> string \<Rightarrow> bool" where
  "after_token tok i = (case tok of None \<Rightarrow> True | Some t \<Rightarrow> i > t)"

lemma selected_configs:
  "select_configs P tn i tok n db = map snd (take n (filter (\<lambda>(c, _). after_token tok c)
     (sort_key fst (map (\<lambda>((_, _, i), r). (i, cr_config_json r))
       (filter (\<lambda>((t, tid, _), r). t = tn \<and> tid = i \<and> P (cr_registered_after_event_sequence r)) (sq_configs db))))))"
proof -
  have "filter (\<lambda>(c, _). after_token tok c) (map (\<lambda>((_, _, i), r). (i, cr_config_json r))
      (filter (\<lambda>((t, tid, _), r). t = tn \<and> tid = i \<and> P (cr_registered_after_event_sequence r)) rows)) =
    map (\<lambda>((_, _, i), r). (i, cr_config_json r)) (filter (\<lambda>((t, tid, c), r). t = tn \<and> tid = i \<and>
      P (cr_registered_after_event_sequence r) \<and> (case tok of None \<Rightarrow> True | Some token \<Rightarrow> c > token)) rows)" for rows
    by (induction rows) (auto simp: after_token_def)
  from this [of "sq_configs db"] show ?thesis by (simp add: select_configs_def filter_sort)
qed

lemma decoded_rows:
  assumes "list_all2 (cfg_rel C) xs ys"
  shows "List.map_filter (\<lambda>json. case dec_config C json of Inr c \<Rightarrow> Some c | Inl _ \<Rightarrow> None) (map snd xs) = ys"
  using assms
  by (induction xs ys rule: list_all2_induct) (auto simp: map_filter_simps cfg_rel_def)

lemma page_configs_matching:
  "config_page matching tok psize = (let n = nat (push_config_page_size psize);
     rest = filter (\<lambda>c. after_token tok (pc_id c)) matching; page = take n rest
   in \<lparr>pcp_configs = page, pcp_next_page_token = (if length rest > n
       then (if page = [] then '''' else pc_id (last page)) else '''')\<rparr>)"
  if "sorted (map pc_id matching)"
proof -
  define start where "start = (case tok of Some t \<Rightarrow> (case position (\<lambda>c. pc_id c > t) matching of
      Some i \<Rightarrow> i | None \<Rightarrow> length matching) | None \<Rightarrow> 0)"
  have le: "start \<le> length matching"
    by (auto simp: start_def dest!: position_Some split: option.splits)
  have "sorted_wrt (\<lambda>x y. pc_id x \<le> pc_id y) matching" using that by (simp add: sorted_map)
  then have rest: "filter (\<lambda>c. after_token tok (pc_id c)) matching = drop start matching"
    by (cases tok) (auto simp: start_def after_token_def intro!: drop_position_filter [symmetric])
  show ?thesis
    unfolding config_page_def Let_def start_def [symmetric] rest using le
    by (auto simp: min_def)
qed

lemma config_page_refines:
  assumes R: "refines C A db s" and eq: "\<And>n. P n = Q n"
  shows "sqlite_config_page C P tn i tok psize db = config_page (task_configs Q tn i s) tok psize"
proof -
  have PQ: "P = Q" using eq by auto
  define n where "n = nat (push_config_page_size psize)"
  define ys where "ys = filter (\<lambda>c. after_token tok (pc_id c)) (task_configs Q tn i s)"
  have "configs_refine C (sq_configs db) (push_configs s)" using R by (simp add: refines_def)
  from list_all2_filter [OF task_configs_rel [OF this, of tn i Q],
      of "\<lambda>(c, _). after_token tok c" "\<lambda>c. after_token tok (pc_id c)"]
  obtain xs where xs: "list_all2 (cfg_rel C) xs ys" and sel: "select_configs P tn i tok m db = map snd (take m xs)" for m
    unfolding selected_configs PQ ys_def by (auto simp: cfg_rel_def)
  have len: "length xs = length ys" using xs by (rule list_all2_lengthD)
  have dec: "List.map_filter (\<lambda>json. case dec_config C json of Inr c \<Rightarrow> Some c | Inl _ \<Rightarrow> None) (map snd (take n xs)) = take n ys"
    using xs by (intro decoded_rows list_all2_takeI)
  have tk: "take n (map snd (take (n + 1) xs)) = map snd (take n xs)" by (simp add: take_map)
  show ?thesis
    unfolding page_configs_matching [OF sorted_task_configs] sqlite_config_page_def sel n_def [symmetric] Let_def
      tk dec ys_def [symmetric]
    by (simp add: len)
qed

lemma list_configs_refines:
  assumes "refines C A db s"
  shows "sqlite_list_configs C tn i tok psize db = list_configs tn i tok psize s"
  using config_page_refines [OF assms, of "\<lambda>_. True" "\<lambda>_. True"]
  by (simp add: sqlite_list_configs_def list_configs_def)

lemma eligible_configs_refine:
  assumes "refines C A db s" and "q < 2 ^ 63"
  shows "sqlite_list_configs_eligible_at_event C tn i q tok psize db = list_configs_eligible_at_event tn i q tok psize s"
proof -
  have "int n < as_signed q \<longleftrightarrow> n < q" for n using assms(2) by (simp add: as_signed_def)
  then show ?thesis
    using config_page_refines [OF assms(1), of "\<lambda>n. int n < as_signed q" "\<lambda>n. n < q"]
    by (simp add: sqlite_list_configs_eligible_at_event_def list_configs_eligible_at_event_def)
qed

end
