(* ===== verification/Sqlite_System.thy ===== *)
theory Sqlite_System
  imports Sqlite_Reads
begin

text \<open>
  Runs of commits on both backends from empty: the commits as data, one step of each backend, and
  the theorem that the answers agree and every later read does.
\<close>

datatype backend_commit =
    CCreate instant string string pb_task "stream_event list"
  | CCreateQuiet instant string string pb_task
  | CStatus instant string string string pb_task_status "stream_event list"
  | CUpdate instant string string pb_task "stream_event list"
  | CMessage instant string string string pb_message
  | CCancel string string string
  | CDelete string string string
  | CConfig string string push_config
  | CDeleteConfig string string string
  | CMarker instant string string string nat
  | CUnmark string string nat
  | CLease string "string list" "int option"

datatype backend_answer =
    ATaskSeqs "storage_error + pb_task \<times> nat list"
  | ATask "storage_error + pb_task"
  | ASeqs "storage_error + nat list"
  | AUnit "storage_error + unit"
  | ABool "storage_error + bool"
  | AConfig "storage_error + push_config"

fun sql_commit ::
  "('t, 'e, 'a, 'c) codec \<Rightarrow> chrono \<Rightarrow> backend_commit \<Rightarrow> ('t, 'e, 'a, 'c) sqlite \<Rightarrow> backend_answer \<times> ('t, 'e, 'a, 'c) sqlite" where
  "sql_commit C c (CCreate now tn ow t evs) db = apfst ATaskSeqs (sqlite_create_task_with_events C c now tn ow t evs db)"
| "sql_commit C c (CCreateQuiet now tn ow t) db = apfst ATask (sqlite_create_task C c now tn ow t db)"
| "sql_commit C c (CStatus now tn i ow st evs) db =
     apfst ATaskSeqs (sqlite_update_task_status_with_events C c now tn i ow st evs db)"
| "sql_commit C c (CUpdate now tn ow t evs) db = apfst ASeqs (sqlite_update_task_with_events C c now tn ow t evs db)"
| "sql_commit C c (CMessage now tn i ow m) db = apfst AUnit (sqlite_append_message C c now tn i ow m db)"
| "sql_commit C c (CCancel tn i ow) db = apfst AUnit (sqlite_set_cancel_requested tn i ow db)"
| "sql_commit C c (CDelete tn i ow) db = apfst ABool (sqlite_delete_task tn i ow db)"
| "sql_commit C c (CConfig uuid tn cfg) db = apfst AConfig (sqlite_create_config C uuid (\<lambda>_ s. s) tn cfg db)"
| "sql_commit C c (CDeleteConfig tn i k) db = apfst AUnit (sqlite_delete_config tn i k db)"
| "sql_commit C c (CMarker now tn ow i q) db = apfst AUnit (sqlite_record_pending_dispatch now tn ow i q db)"
| "sql_commit C c (CUnmark tn i q) db = apfst AUnit (sqlite_delete_pending_dispatch tn i q db)"
| "sql_commit C c (CLease tn ids e) db = apfst AUnit (sqlite_renew_executor_leases tn ids e db)"

fun mem_commit :: "backend_commit \<Rightarrow> store \<Rightarrow> backend_answer \<times> store" where
  "mem_commit (CCreate now tn ow t evs) s = apfst (ATaskSeqs \<circ> masked) (create_task_with_events now tn ow t evs s)"
| "mem_commit (CCreateQuiet now tn ow t) s = apfst (ATask \<circ> masked) (create_task now tn ow t s)"
| "mem_commit (CStatus now tn i ow st evs) s =
     apfst (ATaskSeqs \<circ> masked) (update_task_status_with_events now tn i ow st evs s)"
| "mem_commit (CUpdate now tn ow t evs) s = apfst (ASeqs \<circ> masked) (update_task_with_events now tn ow t evs s)"
| "mem_commit (CMessage now tn i ow m) s = apfst (AUnit \<circ> masked) (append_message tn i ow m s)"
| "mem_commit (CCancel tn i ow) s = apfst (AUnit \<circ> masked) (set_cancel_requested tn i ow s)"
| "mem_commit (CDelete tn i ow) s = apfst (ABool \<circ> masked) (delete_task tn i ow s)"
| "mem_commit (CConfig uuid tn cfg) s = apfst AConfig (create_config uuid (\<lambda>_ s. s) tn cfg s)"
| "mem_commit (CDeleteConfig tn i k) s = apfst AUnit (delete_config tn i k s)"
| "mem_commit (CMarker now tn ow i q) s = apfst AUnit (record_pending_dispatch now tn ow i q s)"
| "mem_commit (CUnmark tn i q) s = apfst AUnit (delete_pending_dispatch tn i q s)"
| "mem_commit (CLease tn ids e) s = apfst AUnit (supervisor_renew_executor_leases tn ids e s)"

text \<open>
  A created id is new (the SQL insert refuses another one, the in-memory store would overwrite),
  a written task has an id, a known state and artifacts with distinct ids, and what the commit
  stores is codable (a serialisation error fails a SQL commit, the in-memory store takes any value).
\<close>

fun admissible :: "('t, 'e, 'a, 'c) codec \<Rightarrow> pb_artifact set \<Rightarrow> store \<Rightarrow> backend_commit \<Rightarrow> bool" where
  "admissible C A s (CCreate now tn ow t evs) \<longleftrightarrow> writable A t \<and> get_stored s tn (tk_id t) = None \<and> storable_write C now t evs"
| "admissible C A s (CCreateQuiet now tn ow t) \<longleftrightarrow> writable A t \<and> get_stored s tn (tk_id t) = None \<and> storable_write C now t []"
| "admissible C A s (CStatus now tn i ow st evs) \<longleftrightarrow>
     (\<forall>x. get_stored s tn i = Some x \<longrightarrow> storable_write C now ((s_task x)\<lparr>tk_status := Some st\<rparr>) evs)"
| "admissible C A s (CUpdate now tn ow t evs) \<longleftrightarrow> writable A t \<and> storable_write C now t evs"
| "admissible C A s (CMessage now tn i ow msg) \<longleftrightarrow> (\<forall>x. get_stored s tn i = Some x \<longrightarrow>
     storable_task C ((s_task x)\<lparr>tk_history := tk_history (s_task x) @ [msg]\<rparr>))"
| "admissible C A s (CConfig uuid tn cfg) \<longleftrightarrow> codable_config C (if pc_id cfg = [] then cfg\<lparr>pc_id := uuid\<rparr> else cfg)"
| "admissible C A s _ \<longleftrightarrow> True"

lemma pending_answers:
  "fst (sqlite_record_pending_dispatch now tn ow i q db) = fst (record_pending_dispatch now tn ow i q s)"
  "fst (sqlite_delete_pending_dispatch tn i q db) = fst (delete_pending_dispatch tn i q s)"
  by (simp_all add: sqlite_record_pending_dispatch_def record_pending_dispatch_def
      sqlite_delete_pending_dispatch_def delete_pending_dispatch_def)

lemma lease_answer:
  "fst (sqlite_renew_executor_leases tn ids e db) = fst (supervisor_renew_executor_leases tn ids e s)"
  by (simp add: sqlite_renew_executor_leases_def supervisor_renew_executor_leases_def)

lemma commit_refines:
  assumes "codec_ok C A" and "refines C A db s" and "admissible C A s x"
  shows "fst (sql_commit C c x db) = fst (mem_commit x s) \<and> refines C A (snd (sql_commit C c x db)) (snd (mem_commit x s))"
proof (cases x)
  case (CCreate now tn ow t evs)
  have "\<exists>y. fst (create_task_with_events now tn ow t evs s) = Inr y"
    by (simp add: create_task_with_events_eq Let_def)
  then show ?thesis
    using assms(3) create_refines [OF assms(1) _ assms(2), of now t evs tn c ow] by (auto simp: CCreate)
next
  case (CCreateQuiet now tn ow t)
  have "\<exists>y. fst (create_task now tn ow t s) = Inr y" by (simp add: create_task_def Let_def)
  then show ?thesis
    using assms(3) quiet_create_refines [OF assms(1) _ assms(2), of now t tn c ow] by (auto simp: CCreateQuiet)
qed (use assms(3) status_refines [OF _ assms(2)] update_refines [OF assms(1) _ assms(2)] message_refines [OF assms(1,2)]
      cancel_refines [OF assms(2)] delete_refines [OF assms(2)] create_config_refines [OF _ assms(2)]
      delete_config_refines [OF assms(2)] pending_refines [OF assms(2)] lease_refines [OF assms(2)] in
      \<open>simp_all add: pending_answers lease_answer\<close>)

fun run_sql ::
  "('t, 'e, 'a, 'c) codec \<Rightarrow> chrono \<Rightarrow> backend_commit list \<Rightarrow> ('t, 'e, 'a, 'c) sqlite \<Rightarrow>
   backend_answer list \<times> ('t, 'e, 'a, 'c) sqlite" where
  "run_sql C c [] db = ([], db)"
| "run_sql C c (x # xs) db = (case sql_commit C c x db of (a, db) \<Rightarrow> apfst ((#) a) (run_sql C c xs db))"

fun run_mem :: "backend_commit list \<Rightarrow> store \<Rightarrow> backend_answer list \<times> store" where
  "run_mem [] s = ([], s)"
| "run_mem (x # xs) s = (case mem_commit x s of (a, s) \<Rightarrow> apfst ((#) a) (run_mem xs s))"

fun all_admissible :: "('t, 'e, 'a, 'c) codec \<Rightarrow> pb_artifact set \<Rightarrow> store \<Rightarrow> backend_commit list \<Rightarrow> bool" where
  "all_admissible C A s [] \<longleftrightarrow> True"
| "all_admissible C A s (x # xs) \<longleftrightarrow> admissible C A s x \<and> all_admissible C A (snd (mem_commit x s)) xs"

lemma run_refines:
  assumes "codec_ok C A"
  shows "refines C A db s \<Longrightarrow> all_admissible C A s xs \<Longrightarrow>
    fst (run_sql C c xs db) = fst (run_mem xs s) \<and> refines C A (snd (run_sql C c xs db)) (snd (run_mem xs s))"
proof (induction xs arbitrary: db s)
  case (Cons x xs)
  from Cons.prems commit_refines [OF assms, of db s x c]
  have h: "fst (sql_commit C c x db) = fst (mem_commit x s)"
    "refines C A (snd (sql_commit C c x db)) (snd (mem_commit x s))" "all_admissible C A (snd (mem_commit x s)) xs"
    by auto
  with Cons.IH [OF h(2,3)] show ?case by (simp add: case_prod_beta)
qed simp

end
