(* ===== verification/Sqlite_Typed.thy ===== *)
theory Sqlite_Typed
  imports Sqlite_System Sqlite_Events
begin

text \<open>
  Retention on the tables: the batched deletes remove every row the predicate names, whatever the
  batch size, and the event numbers of a live task start again at one when its events expired.
  The type invariant of the task table: whatever is written to the tables, every row's blob
  decodes to a task with an id, the row's key, and a known state, without artifacts, and the
  columns the listing and the terminal guard read are those of the blob.
\<close>


section \<open>Batched deletes\<close>

lemma delete_limit_filter:
  assumes "delete_limit P n rs = (rs', k)" and "k < n"
  shows "rs' = filter (\<lambda>r. \<not> P r) rs"
  using assms
  by (induction P n rs arbitrary: rs' k rule: delete_limit.induct) (auto split: if_splits prod.splits)

lemma delete_limit_rest: "delete_limit P n rs = (rs', k) \<Longrightarrow> filter (\<lambda>r. \<not> P r) rs' = filter (\<lambda>r. \<not> P r) rs"
  by (induction P n rs arbitrary: rs' k rule: delete_limit.induct) (auto split: if_splits prod.splits)

lemma delete_limit_le: "delete_limit P n rs = (rs', k) \<Longrightarrow> k \<le> n"
  by (induction P n rs arbitrary: rs' k rule: delete_limit.induct) (auto split: if_splits prod.splits)

theorem delete_batches_filter:
  assumes "0 < batch"
  shows "delete_batches P batch rs = (filter (\<lambda>r. \<not> P r) rs, length (filter P rs))"
proof -
  have "fst (delete_batches P batch rs) = filter (\<lambda>r. \<not> P r) rs \<and>
      length rs = length (fst (delete_batches P batch rs)) + snd (delete_batches P batch rs)"
    using assms
  proof (induction P batch rs rule: delete_batches.induct)
    case (1 P batch rs)
    obtain rs' n where d: "delete_limit P batch rs = (rs', n)" by fastforce
    note len = delete_limit_length [OF d]
    show ?case
    proof (cases "n < batch")
      case True
      with delete_limit_filter [OF d] 1(2) len show ?thesis by (subst (1 2 3) delete_batches.simps) (simp add: d)
    next
      case False
      with 1(2) have c: "\<not> (n < batch \<or> batch = 0)" by simp
      from 1(1) [OF d [symmetric] c 1(2)] delete_limit_rest [OF d] len c show ?thesis
        by (subst (1 2 3) delete_batches.simps) (simp add: d case_prod_beta)
    qed
  qed
  moreover have "length rs = length (filter P rs) + length (filter (\<lambda>r. \<not> P r) rs)"
    by (rule sum_length_filter_compl [symmetric])
  ultimately show ?thesis by (cases "delete_batches P batch rs") simp
qed

definition event_row_expired :: "instant \<Rightarrow> ('t, 'e, 'a, 'c) sqlite \<Rightarrow> nat \<Rightarrow> bool" where
  "event_row_expired now db created \<longleftrightarrow> int created < int (datetime_now now) - int (rc_event_ttl_seconds (sq_retention db))"

definition task_row_expired :: "instant \<Rightarrow> ('t, 'e, 'a, 'c) sqlite \<Rightarrow> 't task_row \<Rightarrow> bool" where
  "task_row_expired now db r \<longleftrightarrow> tr_status_state r \<in> set TERMINAL_STATES_SQL \<and>
     int (tr_updated_at r) < int (datetime_now now) - int (rc_task_ttl_seconds (sq_retention db))"

lemma cleanup_tables:
  assumes "rc_event_ttl_seconds (sq_retention db) > 0"
  shows "sq_events (snd (sqlite_cleanup_expired now db)) =
      filter (\<lambda>(_, (_, created)). \<not> event_row_expired now db created) (sq_events db)"
    and "sq_tasks (snd (sqlite_cleanup_expired now db)) = (if rc_task_ttl_seconds (sq_retention db) > 0
      then filter (\<lambda>(_, r). \<not> task_row_expired now db r) (sq_tasks db) else sq_tasks db)"
  using assms
  by (auto simp: sqlite_cleanup_expired_def delete_batches_filter [OF retention_batch_pos] Let_def event_row_expired_def task_row_expired_def
      case_prod_unfold)

lemma live_row_kept:
  assumes "rc_event_ttl_seconds (sq_retention db) > 0" and "hm_wf (sq_tasks db)"
    and "hm_get (sq_tasks db) k = Some r" and "tr_status_state r \<notin> set TERMINAL_STATES_SQL"
  shows "hm_get (sq_tasks (snd (sqlite_cleanup_expired now db))) k = Some r"
proof -
  have "filter (\<lambda>(_, r). \<not> task_row_expired now db r) (sq_tasks db) = hm_retain (\<lambda>_ r. \<not> task_row_expired now db r) (sq_tasks db)"
    by (simp add: hm_retain_def)
  with assms show ?thesis by (simp add: cleanup_tables hm_get_retain task_row_expired_def)
qed

text \<open>All events of a task expired: the next number is one, and the old readers miss it.\<close>

lemma sequence_restarts:
  assumes C: "codable_event C ev" and "rc_event_ttl_seconds (sq_retention db) > 0"
    and old: "\<And>q data created. ((tn, i, q), (data, created)) \<in> set (sq_events db) \<Longrightarrow> event_row_expired now db created"
    and n: "0 < n" "n < 2 ^ 63"
  obtains db' where "sqlite_append_event C now tn i ev (snd (sqlite_cleanup_expired now db)) = (Inr 1, db')"
    "sqlite_get_events_after C tn i n db' = Inr []" "sq_tasks db' = sq_tasks (snd (sqlite_cleanup_expired now db))"
proof -
  let ?db = "snd (sqlite_cleanup_expired now db)"
  have none: "event_rows tn i (sq_events ?db) = []"
    using old by (force simp: event_rows_def cleanup_tables(1) [OF assms(2)] filter_empty_conv)
  then have m: "max_sequence tn i ?db = 0" by (simp add: max_sequence_def)
  obtain data db' E where ie: "insert_event C now tn i ev ?db = Inr (max_sequence tn i ?db + 1, db')"
    "dec_event C data = Inr ev" "db' = ?db\<lparr>sq_events := E\<rparr>"
    "\<And>tn' i'. event_rows tn' i' (sq_events db') = event_rows tn' i' (sq_events ?db) @
       (if tn' = tn \<and> i' = i then [(max_sequence tn i ?db + 1, data)] else [])"
    "\<And>tn' i'. max_sequence tn' i' db' = (if tn' = tn \<and> i' = i then max_sequence tn i ?db + 1 else max_sequence tn' i' ?db)"
    by (rule insert_event_ok [OF C, of now tn i ?db], rule that)
  have "event_rows tn i (sq_events db') = [(1, data)]" using ie(4) [of tn i] none m by simp
  moreover have "as_signed n = int n" using n by (simp add: as_signed_def)
  ultimately have "sqlite_get_events_after C tn i n db' = Inr []"
    using n by (simp add: sqlite_get_events_after_def)
  then show thesis using ie(1,3) m by (intro that [of db']) (simp_all add: sqlite_append_event_def in_tx_def)
qed

text \<open>
  Retention restarts the numbering of a live task: once all its events expired, the next one is
  number one again, and a reader that continues from a number it saw before is given nothing.
\<close>

theorem retention_restarts_sequences:
  assumes "codable_event C ev" and "rc_event_ttl_seconds (sq_retention db) > 0" and "hm_wf (sq_tasks db)"
    and "hm_get (sq_tasks db) (tn, i) = Some r" and "tr_status_state r \<notin> set TERMINAL_STATES_SQL"
    and "\<And>q data created. ((tn, i, q), (data, created)) \<in> set (sq_events db) \<Longrightarrow> event_row_expired now db created"
    and "0 < n" and "n < 2 ^ 63"
  shows "\<exists>db'. sqlite_append_event C now tn i ev (snd (sqlite_cleanup_expired now db)) = (Inr 1, db') \<and>
    sqlite_get_events_after C tn i n db' = Inr [] \<and> hm_get (sq_tasks db') (tn, i) = Some r"
proof -
  obtain db' where "sqlite_append_event C now tn i ev (snd (sqlite_cleanup_expired now db)) = (Inr 1, db')"
    "sqlite_get_events_after C tn i n db' = Inr []" "sq_tasks db' = sq_tasks (snd (sqlite_cleanup_expired now db))"
    by (rule sequence_restarts [OF assms(1,2) _ assms(7,8)], erule assms(6), rule that)
  with live_row_kept [OF assms(2-5), of now] show ?thesis by (intro exI [of _ db']) simp
qed

section \<open>Typed rows\<close>

definition row_typed :: "('t, 'e, 'a, 'c) codec \<Rightarrow> chrono \<Rightarrow> task_key \<Rightarrow> 't task_row \<Rightarrow> bool" where
  "row_typed C c k r \<longleftrightarrow> (\<exists>t. dec_task C (tr_task_json r) = Inr t \<and> well_typed t \<and> tk_artifacts t = [] \<and>
     tk_id t = snd k \<and> tr_status_state r = status_state_str t \<and> tr_context_id r = tk_context_id t \<and>
     tr_status_timestamp r = task_sort_key c t)"

definition rows_typed :: "('t, 'e, 'a, 'c) codec \<Rightarrow> chrono \<Rightarrow> ('t, 'e, 'a, 'c) sqlite \<Rightarrow> bool" where
  "rows_typed C c db \<longleftrightarrow> hm_wf (sq_tasks db) \<and> (\<forall>(k, r) \<in> set (sq_tasks db). row_typed C c k r)"

inductive sql_reachable :: "('t, 'e, 'a, 'c) codec \<Rightarrow> chrono \<Rightarrow> ('t, 'e, 'a, 'c) sqlite \<Rightarrow> bool" for C c where
  empty: "sql_reachable C c (sqlite_new b rc)"
| commit: "sql_reachable C c db \<Longrightarrow> sql_reachable C c (snd (sql_commit C c x db))"
| artifact: "sql_reachable C c db \<Longrightarrow> sql_reachable C c (snd (sqlite_append_artifact C c now tn i ow a app l db))"
| full_write: "sql_reachable C c db \<Longrightarrow> sql_reachable C c (snd (sqlite_update_task C c now tn ow t db))"
| status_write: "sql_reachable C c db \<Longrightarrow> sql_reachable C c (snd (sqlite_update_task_status C c now tn i ow st db))"
| event: "sql_reachable C c db \<Longrightarrow> sql_reachable C c (snd (sqlite_append_event C now tn i ev db))"
| cleanup: "sql_reachable C c db \<Longrightarrow> sql_reachable C c (snd (sqlite_cleanup_expired now db))"

section \<open>Statements\<close>

lemma rows_typed_frame: "sq_tasks db' = sq_tasks db \<Longrightarrow> rows_typed C c db' = rows_typed C c db"
  by (auto simp: rows_typed_def)

lemma rows_typed_put: "rows_typed C c db \<Longrightarrow> row_typed C c (tn, i) r \<Longrightarrow> rows_typed C c (put_row tn i r db)"
  by (auto simp: rows_typed_def put_row_def hm_simps dest: hm_set_insert)

lemma rows_typed_row: "rows_typed C c db \<Longrightarrow> hm_get (sq_tasks db) (tn, i) = Some r \<Longrightarrow> row_typed C c (tn, i) r"
  by (auto simp: rows_typed_def dest: hm_get_in_set)

lemma rows_typed_owned: "rows_typed C c db \<Longrightarrow> owned_row tn i ow db = Some r \<Longrightarrow> row_typed C c (tn, i) r"
  by (auto simp: owned_row_def rows_typed_row split: option.splits if_splits)

lemma row_typed_columns [simp]:
  "row_typed C c k (r\<lparr>tr_latest_event_sequence := n\<rparr>) = row_typed C c k r"
  "row_typed C c k (r\<lparr>tr_cancel_requested := b\<rparr>) = row_typed C c k r"
  by (simp_all add: row_typed_def)

lemma apply_plan_tasks: "apply_artifact_plan C tn i plan db = Inr db' \<Longrightarrow> sq_tasks db' = sq_tasks db"
  by (auto simp: apply_artifact_plan_def attempt_def split: sum.splits)

lemma insert_event_tasks: "insert_event C now tn i ev db = Inr (q, db') \<Longrightarrow> sq_tasks db' = sq_tasks db"
  by (auto simp: insert_event_def Let_def attempt_def split: sum.splits if_splits)

lemma insert_events_tasks:
  assumes "\<And>q e x. sq_tasks (mark q e x) = sq_tasks x"
  shows "insert_events C now tn i mark evs db = Inr (seqs, db') \<Longrightarrow> sq_tasks db' = sq_tasks db"
  by (induction evs arbitrary: seqs db)
    (auto simp: attempt_def assms dest!: insert_event_tasks split: sum.splits)

lemma write_marker_tasks [simp]: "sq_tasks (write_marker now tn i ow q e db) = sq_tasks db"
  by (simp add: write_marker_def)

lemma rows_typed_bump:
  assumes "rows_typed C c db"
  shows "rows_typed C c (bump_latest tn i seqs db)"
proof (cases "hm_get (sq_tasks db) (tn, i)")
  case (Some r)
  with assms rows_typed_put [OF assms, of tn i] rows_typed_row [OF assms Some] show ?thesis
    by (simp add: bump_latest_def)
qed (use assms in \<open>simp add: bump_latest_def\<close>)

section \<open>Blobs\<close>

lemma task_key_strip [simp]: "task_sort_key c (t\<lparr>tk_artifacts := x\<rparr>) = task_sort_key c t"
  by (simp add: task_sort_key_def)

lemma status_state_strip [simp]: "status_state_str (t\<lparr>tk_artifacts := x\<rparr>) = status_state_str t"
  by (simp add: status_state_str_def task_state_of_eq)

lemma split_task_typed:
  assumes "sound_at C (t\<lparr>tk_artifacts := []\<rparr>)" and "split_task C t = Inr (blob, as)"
  shows "dec_task C blob = Inr (t\<lparr>tk_artifacts := []\<rparr>)" "well_typed t"
proof -
  from assms(2) have tf: "task_try_from (t\<lparr>tk_artifacts := []\<rparr>) = Inr (t\<lparr>tk_artifacts := []\<rparr>)"
    and enc: "enc_task C (t\<lparr>tk_artifacts := []\<rparr>) = Inr blob"
    by (auto simp: split_task_def typed_def attempt_def serde_def well_typed_try split: sum.splits)
  show "dec_task C blob = Inr (t\<lparr>tk_artifacts := []\<rparr>)" using assms(1) enc by (simp add: sound_at_def)
  show "well_typed t" using tf by (simp add: well_typed_try)
qed

text \<open>A status write starts from a typed row and ends in one.\<close>

definition sound_status :: "('t, 'e, 'a, 'c) codec \<Rightarrow> instant \<Rightarrow> 't \<Rightarrow> pb_task_status \<Rightarrow> stream_event list \<Rightarrow> bool" where
  "sound_status C now blob st evs \<longleftrightarrow> (\<forall>t. dec_task C blob = Inr t \<longrightarrow>
     sound_at C (fst (stamp_status now (t\<lparr>tk_status := Some st\<rparr>) evs)))"

lemma status_blob_typed:
  assumes C: "sound_status C now (tr_task_json r) st evs" and r: "row_typed C c (tn, i) r"
    and blob: "status_blob C now f i (tr_task_json r) st evs = Inr (t', evs', json)"
  shows "dec_task C json = Inr t'" "well_typed t'" "tk_artifacts t' = []" "tk_id t' = i"
    "tk_context_id t' = tr_context_id r"
proof -
  obtain t where t: "dec_task C (tr_task_json r) = Inr t" "well_typed t" "tk_artifacts t = []" "tk_id t = i"
    "tr_context_id r = tk_context_id t"
    using r by (auto simp: row_typed_def)
  let ?t1 = "t\<lparr>tk_status := Some st\<rparr>"
  have "task_try_from t = Inr t" using t(2) by (simp add: well_typed_try)
  then have "task_from_json C (tr_task_json r) = Inr t" using t(1) by (simp add: task_from_json_def typed_def)
  with blob have tf: "task_try_from ?t1 = Inr ?t1" and st: "stamp_status now ?t1 evs = (t', evs')"
    and enc: "enc_task C t' = Inr json"
    by (auto simp: status_blob_def typed_def attempt_def serde_def well_typed_try split: sum.splits prod.splits)
  have t': "t' = fst (stamp_status now ?t1 evs)" using st by simp
  show "dec_task C json = Inr t'" using C t(1) enc by (simp add: sound_status_def sound_at_def t')
  show "well_typed t'" using tf by (simp add: t' stamp_well_typed well_typed_try)
  show "tk_artifacts t' = []" "tk_id t' = i" by (simp_all add: t' t(3,4))
  show "tk_context_id t' = tr_context_id r" by (simp add: t' t(5) stamp_status_def Let_def)
qed

section \<open>Operations\<close>

lemma typed_in_tx:
  assumes "rows_typed C c db" and "\<And>a db'. body db = Inr (a, db') \<Longrightarrow> rows_typed C c db'"
  shows "rows_typed C c (snd (in_tx body db))"
  using assms by (auto simp: in_tx_def split: sum.splits prod.splits)

lemma insert_task_row_typed:
  assumes C: "sound_at C (t\<lparr>tk_artifacts := []\<rparr>)" and T: "rows_typed C c db" and "insert_task_row C c now tn ow t db = Inr db'"
  shows "rows_typed C c db'"
proof -
  from assms(3) obtain blob as plan r where s: "split_task C t = Inr (blob, as)"
    "r = \<lparr>tr_owner = ow, tr_task_json = blob, tr_context_id = tk_context_id t, tr_status_state = status_state_str t,
       tr_status_timestamp = task_sort_key c t, tr_cancel_requested = False, tr_latest_event_sequence = 0,
       tr_lease_expires_at = None, tr_artifact_manifest = rp_manifest plan, tr_updated_at = datetime_now now\<rparr>"
    "apply_artifact_plan C tn (tk_id t) plan (put_row tn (tk_id t) r db) = Inr db'"
    by (auto simp: insert_task_row_def attempt_def split: sum.splits if_splits)
  have "row_typed C c (tn, tk_id t) r"
    using split_task_typed [OF C s(1)] by (auto simp: row_typed_def s(2))
  with apply_plan_tasks [OF s(3)] show ?thesis
    using rows_typed_put [OF T] by (metis rows_typed_frame)
qed

lemma insert_events_typed:
  assumes "\<And>q e x. sq_tasks (mark q e x) = sq_tasks x" and "insert_events C now tn i mark evs db = Inr (seqs, db')"
    and "rows_typed C c db"
  shows "rows_typed C c (bump_latest tn i seqs db')"
proof -
  have "sq_tasks db' = sq_tasks db" using assms(1,2) by (rule insert_events_tasks)
  then show ?thesis using rows_typed_frame [of db' db] assms(3) by (intro rows_typed_bump) simp
qed

lemma written_row_typed:
  assumes C: "sound_at C (t\<lparr>tk_artifacts := []\<rparr>)" and T: "rows_typed C c db" and "split_task C t = Inr (blob, as)"
    and "apply_artifact_plan C tn i plan (put_row tn i (written_row c now blob t m r) db) = Inr db'" and "tk_id t = i"
  shows "rows_typed C c db'"
proof -
  have "row_typed C c (tn, i) (written_row c now blob t m r)"
    using split_task_typed [OF C assms(3)] assms(5) by (auto simp: row_typed_def written_row_def)
  with apply_plan_tasks [OF assms(4)] show ?thesis
    using rows_typed_put [OF T] by (metis rows_typed_frame)
qed

definition sound_write :: "('t, 'e, 'a, 'c) codec \<Rightarrow> instant \<Rightarrow> pb_task \<Rightarrow> stream_event list \<Rightarrow> bool" where
  "sound_write C now t evs \<longleftrightarrow> sound_at C ((fst (stamp_status now t evs))\<lparr>tk_artifacts := []\<rparr>)"

lemma update_task_typed:
  assumes "sound_write C now t []" and "rows_typed C c db"
  shows "rows_typed C c (snd (sqlite_update_task C c now tn ow t db))"
  unfolding sqlite_update_task_def Let_def
  using assms by (intro typed_in_tx [OF assms(2)])
    (auto simp: attempt_def split: sum.splits option.splits
      intro: written_row_typed [OF assms(1) [unfolded sound_write_def] assms(2) _ _ stamp_status_frame(1)])

lemma status_row_typed:
  assumes "sound_status C now (tr_task_json r) st evs" and "row_typed C c (tn, i) r"
    and "status_blob C now f i (tr_task_json r) st evs = Inr (t', evs', json)"
  shows "row_typed C c (tn, i) (r\<lparr>tr_task_json := json, tr_status_state := status_state_str t',
      tr_status_timestamp := task_sort_key c t', tr_updated_at := n\<rparr>)"
    "row_typed C c (tn, i) (r\<lparr>tr_task_json := json, tr_status_state := status_state_str t',
      tr_status_timestamp := task_sort_key c t', tr_context_id := tk_context_id t', tr_updated_at := n\<rparr>)"
  using status_blob_typed [OF assms] by (auto simp: row_typed_def)

lemma update_status_typed:
  assumes "\<And>r. owned_row tn i ow db = Some r \<Longrightarrow> sound_status C now (tr_task_json r) st []" and "rows_typed C c db"
  shows "rows_typed C c (snd (sqlite_update_task_status C c now tn i ow st db))"
  using assms
  by (auto simp: sqlite_update_task_status_def Let_def split: option.splits sum.splits
      dest!: rows_typed_owned intro!: rows_typed_put status_row_typed)

lemma status_commit_typed:
  assumes C: "\<And>r. owned_row tn i ow db = Some r \<Longrightarrow> sound_status C now (tr_task_json r) st evs" and T: "rows_typed C c db"
  shows "rows_typed C c (snd (sqlite_update_task_status_with_events C c now tn i ow st evs db))"
proof -
  let ?body = "\<lambda>db. case owned_row tn i ow db of
          None \<Rightarrow> Inl (SE_TaskNotFound i)
        | Some r \<Rightarrow> attempt (status_blob C now (\<lambda>st. SE_TerminalStateAlreadySet i (wire_name st))
              i (tr_task_json r) st evs) (\<lambda>(t', evs', json).
            if tr_status_state r \<in> set TERMINAL_STATES_SQL
            then Inl (SE_TerminalStateAlreadySet i (tr_status_state r))
            else attempt (insert_events C now tn i (write_marker now tn i ow) evs'
                (put_row tn i (r\<lparr>tr_task_json := json, tr_status_state := status_state_str t',
                   tr_status_timestamp := task_sort_key c t', tr_context_id := tk_context_id t',
                   tr_updated_at := datetime_now now\<rparr>) db)) (\<lambda>(seqs, db).
              Inr ((t', tr_artifact_manifest r, seqs), bump_latest tn i seqs db)))"
  have "rows_typed C c (snd (in_tx ?body db))"
  proof (rule typed_in_tx [OF T])
    fix a db' assume "?body db = Inr (a, db')"
    then obtain r t' evs' json seqs db1 where o: "owned_row tn i ow db = Some r"
      and b: "status_blob C now (\<lambda>st. SE_TerminalStateAlreadySet i (wire_name st)) i (tr_task_json r) st evs =
        Inr (t', evs', json)"
      and e: "insert_events C now tn i (write_marker now tn i ow) evs'
        (put_row tn i (r\<lparr>tr_task_json := json, tr_status_state := status_state_str t',
           tr_status_timestamp := task_sort_key c t', tr_context_id := tk_context_id t',
           tr_updated_at := datetime_now now\<rparr>) db) = Inr (seqs, db1)" "db' = bump_latest tn i seqs db1"
      by (auto simp: attempt_def split: option.splits sum.splits if_splits)
    from status_row_typed(2) [OF C [OF o] rows_typed_owned [OF T o] b] show "rows_typed C c db'"
      unfolding e(2) by (intro insert_events_typed [OF write_marker_tasks e(1)] rows_typed_put [OF T])
  qed
  then show ?thesis
    by (simp add: sqlite_update_task_status_with_events_def case_prod_unfold split: sum.splits)
qed

lemma create_commit_typed:
  assumes "sound_write C now t evs" and "rows_typed C c db"
  shows "rows_typed C c (snd (sqlite_create_task_with_events C c now tn ow t evs db))"
  unfolding sqlite_create_task_with_events_def Let_def case_prod_unfold
  using assms by (intro typed_in_tx [OF assms(2)])
    (auto simp: attempt_def split: sum.splits dest!: insert_task_row_typed [OF assms(1) [unfolded sound_write_def] assms(2)] intro: insert_events_typed [rotated])

lemma create_typed:
  assumes "sound_write C now t []" and "rows_typed C c db"
  shows "rows_typed C c (snd (sqlite_create_task C c now tn ow t db))"
  unfolding sqlite_create_task_def Let_def
  using assms by (intro typed_in_tx [OF assms(2)])
    (auto simp: attempt_def split: sum.splits dest: insert_task_row_typed [OF assms(1) [unfolded sound_write_def]])

lemma update_commit_typed:
  assumes "sound_write C now t evs" and "rows_typed C c db"
  shows "rows_typed C c (snd (sqlite_update_task_with_events C c now tn ow t evs db))"
  unfolding sqlite_update_task_with_events_def Let_def case_prod_unfold
  using assms by (intro typed_in_tx [OF assms(2)])
    (auto simp: attempt_def split: sum.splits option.splits if_splits
      dest!: written_row_typed [OF assms(1) [unfolded sound_write_def] assms(2)] intro: insert_events_typed [rotated])

lemma message_typed:
  assumes "\<And>x. sqlite_get_task C tn i ow None db = Inr (Some x) \<Longrightarrow>
      sound_write C now (x\<lparr>tk_history := tk_history x @ [m]\<rparr>) []"
    and "rows_typed C c db"
  shows "rows_typed C c (snd (sqlite_append_message C c now tn i ow m db))"
proof -
  have same: "task_try_from x = Inr y \<Longrightarrow> y = x" for x y by (simp add: task_try_from_iff)
  show ?thesis
    using assms(2) update_task_typed [OF assms(1) assms(2)]
    by (auto simp: sqlite_append_message_def task_append_message_def typed_def Let_def dest!: same
        split: sum.splits option.splits)
qed

lemma artifact_typed:
  assumes "\<And>x. sound_write C now x []" and "rows_typed C c db"
  shows "rows_typed C c (snd (sqlite_append_artifact C c now tn i ow a app l db))"
  using assms(2) update_task_typed [OF assms]
  by (simp add: sqlite_append_artifact_def Let_def split: sum.splits option.splits)

lemma cancel_typed: "rows_typed C c db \<Longrightarrow> rows_typed C c (snd (sqlite_set_cancel_requested tn i ow db))"
  by (auto simp: sqlite_set_cancel_requested_def rows_typed_row intro!: rows_typed_put split: option.splits)

lemma delete_typed: "rows_typed C c db \<Longrightarrow> rows_typed C c (snd (sqlite_delete_task tn i ow db))"
  by (auto simp: sqlite_delete_task_def rows_typed_def hm_simps dest: hm_set_remove split: option.splits)

lemma append_event_typed: "rows_typed C c db \<Longrightarrow> rows_typed C c (snd (sqlite_append_event C now tn i ev db))"
  unfolding sqlite_append_event_def
  by (rule typed_in_tx) (auto simp: rows_typed_def dest!: insert_event_tasks)

lemma cleanup_typed: "rows_typed C c db \<Longrightarrow> rows_typed C c (snd (sqlite_cleanup_expired now db))"
  by (auto simp: sqlite_cleanup_expired_def Let_def rows_typed_def hm_wf_def distinct_map_filter delete_batches_filter [OF retention_batch_pos]
      split: prod.splits)

lemma lease_typed: "rows_typed C c db \<Longrightarrow> rows_typed C c (snd (sqlite_renew_executor_leases tn ids e db))"
proof -
  have "rows_typed C c (lease_chunk tn e x d)" if "rows_typed C c d" for x d
  proof -
    have "map fst (sq_tasks (lease_chunk tn e x d)) = map fst (sq_tasks d)"
      by (simp add: lease_chunk_def case_prod_beta)
    moreover have "row_typed C c k (r\<lparr>tr_lease_expires_at := l\<rparr>) = row_typed C c k r" for k r l
      by (simp add: row_typed_def)
    ultimately show ?thesis using that
      by (auto simp: rows_typed_def hm_wf_def) (auto simp: lease_chunk_def split: if_splits)
  qed
  then have "rows_typed C c d \<Longrightarrow> rows_typed C c (fold (lease_chunk tn e) xs d)" for xs d
    by (induction xs arbitrary: d) auto
  then show "rows_typed C c db \<Longrightarrow> ?thesis" by (simp add: sqlite_renew_executor_leases_def)
qed

lemma config_tasks [simp]:
  "sq_tasks (snd (sqlite_create_config C uuid (\<lambda>_ s. s) tn cfg db)) = sq_tasks db"
  "sq_tasks (snd (sqlite_delete_config tn i k db)) = sq_tasks db"
proof -
  have "sq_tasks (snd (sqlite_create_config_loop n (\<lambda>_ s. s) json tn cfg a db)) = sq_tasks db" for n a json cfg
    by (induction n arbitrary: a) (auto simp: config_tx_def Let_def split: option.splits)
  then show "sq_tasks (snd (sqlite_create_config C uuid (\<lambda>_ s. s) tn cfg db)) = sq_tasks db"
    by (simp add: sqlite_create_config_def Let_def split: sum.splits)
qed (simp add: sqlite_delete_config_def)

lemma marker_tasks [simp]:
  "sq_tasks (snd (sqlite_record_pending_dispatch now tn ow i q db)) = sq_tasks db"
  "sq_tasks (snd (sqlite_delete_pending_dispatch tn i q db)) = sq_tasks db"
  by (simp_all add: sqlite_record_pending_dispatch_def sqlite_delete_pending_dispatch_def)

lemmas quiet_typed = config_tasks [THEN rows_typed_frame] marker_tasks [THEN rows_typed_frame]

text \<open>What a serialiser of the server is relied on for, when nothing is known of the values.\<close>

definition codec_sound :: "('t, 'e, 'a, 'c) codec \<Rightarrow> bool" where
  "codec_sound C \<longleftrightarrow> (\<forall>t. sound_at C t)"

lemma sound_everywhere:
  assumes "codec_sound C"
  shows "sound_at C t" "sound_write C now t evs" "sound_status C now blob st evs"
  using assms by (simp_all add: codec_sound_def sound_write_def sound_status_def)

theorem reachable_typed:
  assumes "codec_sound C" and "sql_reachable C c db"
  shows "rows_typed C c db"
  using assms(2)
proof induction
  case (commit db x)
  with sound_everywhere [OF assms(1)] show ?case
    by (cases x) (simp_all add: create_commit_typed create_typed status_commit_typed update_commit_typed message_typed
        cancel_typed delete_typed lease_typed quiet_typed)
next
  case (empty b rc)
  then show ?case by (simp add: rows_typed_def sqlite_new_def)
qed (use sound_everywhere [OF assms(1)] in \<open>simp_all add: artifact_typed update_task_typed
    update_status_typed append_event_typed cleanup_typed\<close>)

text \<open>An admissible commit keeps the invariant whatever the codec makes of other values.\<close>

lemma codable_write: "storable_write C now t evs \<Longrightarrow> sound_write C now t evs"
  by (simp add: storable_write_def sound_write_def storable_task_def codable_sound case_prod_unfold)

lemma codable_status:
  assumes R: "refines C A db s" and o: "owned_row tn i ow db = Some r"
    and S: "\<And>x. get_stored s tn i = Some x \<Longrightarrow> storable_write C now ((s_task x)\<lparr>tk_status := Some st\<rparr>) evs"
  shows "sound_status C now (tr_task_json r) st evs"
  using R
proof (cases rule: owned_cases [where tn = tn and i = i and ow = ow])
  case (own r' x)
  then have "r' = r" using o by simp
  then have "dec_task C (tr_task_json r) = Inr ((s_task x)\<lparr>tk_artifacts := []\<rparr>)"
    using own(5) by (simp add: row_refines_def)
  moreover have "fst (stamp_status now ((s_task x)\<lparr>tk_artifacts := [], tk_status := Some st\<rparr>) evs) =
      (fst (stamp_status now ((s_task x)\<lparr>tk_status := Some st\<rparr>) evs))\<lparr>tk_artifacts := []\<rparr>"
    using stamp_status_strip [of now "[]" "(s_task x)\<lparr>tk_status := Some st\<rparr>" evs]
    by (cases "s_task x") (simp add: case_prod_unfold Let_def)
  ultimately show ?thesis
    using codable_write [OF S [OF own(1)]] by (simp add: sound_status_def sound_write_def)
qed (use o in simp_all)

lemma admissible_typed:
  assumes R: "refines C A db s" and T: "rows_typed C c db" and adm: "admissible C A s x"
  shows "rows_typed C c (snd (sql_commit C c x db))"
proof (cases x)
  case (CStatus now tn i ow st evs)
  with adm have "\<And>y. get_stored s tn i = Some y \<Longrightarrow> storable_write C now ((s_task y)\<lparr>tk_status := Some st\<rparr>) evs" by simp
  with CStatus show ?thesis
    using status_commit_typed [OF _ T] codable_status [OF R] by simp
next
  case (CMessage now tn i ow m)
  have "sound_write C now (y\<lparr>tk_history := tk_history y @ [m]\<rparr>) []"
    if g: "sqlite_get_task C tn i ow None db = Inr (Some y)" for y
  proof -
    obtain r where r: "get_stored s tn i = Some r" "y = s_task r"
      using g by (auto simp: get_task_refines [OF R] get_task_def trim_history_def split: option.splits if_splits)
    have "task_refines C A tn i db s" using R by (simp add: refines_def)
    then have st: "stamped (s_task r)" using r by (cases rule: task_refines_cases) (auto simp: row_refines_def)
    have "stamped (y\<lparr>tk_history := tk_history y @ [m]\<rparr>)" using st stamped_cong [of "y\<lparr>tk_history := tk_history y @ [m]\<rparr>" y] r(2) by simp
    then have "stamp_status now (y\<lparr>tk_history := tk_history y @ [m]\<rparr>) [] = (y\<lparr>tk_history := tk_history y @ [m]\<rparr>, [])"
      by (rule stamp_stamped)
    moreover have "storable_task C (y\<lparr>tk_history := tk_history y @ [m]\<rparr>)" using adm r CMessage by simp
    ultimately show ?thesis by (simp add: sound_write_def storable_task_def codable_sound)
  qed
  with CMessage show ?thesis using message_typed [OF _ T] by simp
qed (use adm T in \<open>simp_all add: create_commit_typed create_typed update_commit_typed codable_write
    cancel_typed delete_typed lease_typed quiet_typed\<close>)

end
