(* ===== verification/Sqlite_Example.thy ===== *)
theory Sqlite_Example
  imports Sqlite_Typed Store_Example
begin

text \<open>
  Two artifacts with one id, which a full-task write of the event sink can produce, and the
  values of the witnesses: a codec whose stored texts are the values themselves.
\<close>

section \<open>Two artifacts with one id\<close>

lemma duplicate_write:
  assumes C: "codec_ok C A" and S: "storable_write C now t []" and R: "refines C A db s"
    and row: "get_stored s tn (tk_id t) = Some x" "s_owner x = ow" "\<not> row_terminal x" "tk_artifacts (s_task x) = [a]"
    and t: "well_typed t" "tk_artifacts t = [a, b]" "art_artifact_id b = art_artifact_id a" "a \<noteq> b" "b \<in> A"
  shows "fst (sqlite_update_task_with_events C c now tn ow t [] db) = Inr []"
    "sqlite_get_task C tn (tk_id t) ow None (snd (sqlite_update_task_with_events C c now tn ow t [] db)) =
      Inr (Some ((fst (stamp_status now t []))\<lparr>tk_artifacts := [b]\<rparr>))"
proof -
  define t' where "t' = fst (stamp_status now t [])"
  have t': "tk_id t' = tk_id t" "tk_artifacts t' = [a, b]" "well_typed t'" "snd (stamp_status now t []) = []"
    using t(1,2) by (simp_all add: t'_def stamp_well_typed) (auto simp: stamp_status_def Let_def split: option.splits)
  have ss: "stamp_status now t [] = (t', [])" using t'(4) by (simp add: t'_def prod_eq_iff)
  let ?i = "tk_id t" and ?k = "art_artifact_id a" and ?m = "sq_artifacts db"
  have wf: "hm_wf ?m" using R by (simp add: refines_def)
  obtain r where r: "hm_get (sq_tasks db) (tn, ?i) = Some r" "row_refines C A tn ?i db r x" "tr_owner r = ow"
    by (rule owned_cases [OF R, of tn ?i ow]) (use row(1,2) that in \<open>auto simp: row_refines_def\<close>)
  have h: "artifacts_hold C A tn ?i ?m (tr_artifact_manifest r) [a]" using r(2) row(4) by (simp add: row_refines_def)
  then have a: "a \<in> A" by (rule holds_in) simp
  obtain e where e: "tr_artifact_manifest r = [e]" "entry_holds C A tn ?i ?m e a"
    using h by (auto simp: artifacts_hold_def list_all2_Cons2)
  then have e': "me_artifact_id e = ?k" "me_fingerprint e = fp C a"
    by (auto simp: entry_holds_def fp_def)
  have "fp C a \<noteq> fp C b" using fp_inj [OF C a t(5)] t(4) by blast
  then have "changed C [e] b" "\<not> changed C [e] a" by (auto simp: changed_def unchanged_in_def e' t(3))
  with reconcile_incoming_ok [OF C, of "[a, b]" "[e]"] a t(5) e'(1)
  have plan: "reconcile C [a, b] [e] = Inr \<lparr>rp_writes = [(b, fp C b)], rp_deletes = [],
      rp_manifest = [entry_of C a, entry_of C b]\<rparr>"
    by (simp add: reconcile_def)
  obtain blob where sp: "split_task C t' = Inr (blob, [a, b])" "dec_task C blob = Inr (t'\<lparr>tk_artifacts := []\<rparr>)"
    using split_task_ok [of C t'] S t' ss by (auto simp: storable_write_def)
  obtain body where body: "enc_artifact C b = Inr body" "dec_artifact C body = Inr b"
    using C t(5) unfolding codec_ok_def by blast
  have live: "tr_status_state r \<notin> set TERMINAL_STATES_SQL"
    using r(2) row(3) status_state_terminal [of "s_task x"]
    by (auto simp: row_refines_def row_terminal_def split: option.splits)
  let ?M = "[entry_of C a, entry_of C b]"
  let ?db = "put_row tn ?i (written_row c now blob t' ?M r) db\<lparr>sq_artifacts := hm_insert (tn, ?i, ?k) (body, fp C b) ?m\<rparr>"
  have run: "sqlite_update_task_with_events C c now tn ow t [] db = (Inr [], ?db)"
    using sp(1) plan live r(1,3) body(1)
    by (simp add: sqlite_update_task_with_events_def ss t' fetch_manifest_def e(1) owned_row_def in_tx_def
        apply_artifact_plan_def bump_latest_def t(3) Let_def)
  then show "fst (sqlite_update_task_with_events C c now tn ow t [] db) = Inr []" by simp
  have wf': "hm_wf (sq_artifacts ?db)" using wf by (simp add: hm_simps)
  have rows: "(k, z) \<in> set (artifact_rows tn ?i (sq_artifacts ?db)) \<longleftrightarrow> k = ?k \<and> z = body" for k z
    using h e(1) e'(1) unfolding artifact_rows_get [OF wf'] by (auto simp: hm_simps artifacts_hold_def)
  have dec: "\<exists>u. dec_artifact C z = Inr u" if "(k, z) \<in> set (artifact_rows tn ?i (sq_artifacts ?db))" for k z
    using that body(2) unfolding rows by auto
  have "\<exists>m'. decode_bodies C (artifact_rows tn ?i (sq_artifacts ?db)) [] = Inr m' \<and>
      (\<forall>k. hm_get m' k = (case map_of (artifact_rows tn ?i (sq_artifacts ?db)) k of
         Some z \<Rightarrow> Some (projr (dec_artifact C z)) | None \<Rightarrow> hm_get [] k))"
    by (intro decode_bodies_ok distinct_artifact_rows [OF wf']) (rule dec)
  then obtain recs where recs: "decode_bodies C (artifact_rows tn ?i (sq_artifacts ?db)) [] = Inr recs"
    "\<And>k. hm_get recs k = (case map_of (artifact_rows tn ?i (sq_artifacts ?db)) k of
       Some z \<Rightarrow> Some (projr (dec_artifact C z)) | None \<Rightarrow> hm_get [] k)"
    by blast
  have "map_of (artifact_rows tn ?i (sq_artifacts ?db)) ?k = Some body"
    by (rule map_of_is_SomeI [OF distinct_artifact_rows [OF wf']]) (simp only: rows simp_thms)
  then have "hm_get recs ?k = Some b" by (simp add: recs(2) body(2))
  then have "rehydrate_in_manifest_order ?M recs = [b]" by (simp add: entry_of_def t(3) hm_simps)
  moreover have "task_try_from (t'\<lparr>tk_artifacts := [b]\<rparr>) = Inr (t'\<lparr>tk_artifacts := [b]\<rparr>)" using t'(3) by (simp add: well_typed_try)
  ultimately have "rehydrate_task C tn ?i blob ?M ?db = Inr (t'\<lparr>tk_artifacts := [b]\<rparr>)"
    using sp(2) recs(1) by (simp add: rehydrate_task_def typed_def)
  then show "sqlite_get_task C tn (tk_id t) ow None (snd (sqlite_update_task_with_events C c now tn ow t [] db)) =
      Inr (Some ((fst (stamp_status now t []))\<lparr>tk_artifacts := [b]\<rparr>))"
    using r(3) by (simp add: run sqlite_get_task_def owned_row_def written_row_def trim_history_def t'_def [symmetric])
qed

section \<open>Values\<close>

definition plain_codec :: "(pb_task, stream_event, pb_artifact, push_config) codec" where
  "plain_codec = \<lparr>enc_task = Inr, dec_task = Inr, enc_event = Inr, dec_event = Inr, enc_artifact = Inr,
     dec_artifact = Inr, enc_config = Inr, dec_config = Inr, artifact_value = (\<lambda>a. Inr (JString (art_name a))),
     json_text = (\<lambda>j. case j of JString s \<Rightarrow> Inr s | _ \<Rightarrow> Inr ''''), sha256_hex = (\<lambda>s. s)\<rparr>"

lemma plain_codable [simp]:
  "codable_task plain_codec t" "codable_event plain_codec e" "codable_config plain_codec cfg"
  "storable_task plain_codec t" "storable_write plain_codec now t evs" "sound_at plain_codec t"
  by (simp_all add: codable_task_def codable_event_def codable_config_def storable_task_def storable_write_def
      sound_at_def plain_codec_def case_prod_unfold)

lemma plain_codec_ok: "inj_on art_name A \<Longrightarrow> codec_ok plain_codec A"
  by (auto simp: codec_ok_def plain_codec_def artifact_fingerprint_def dest: inj_onD)

definition example_sql_row :: "pb_task task_row" where
  "example_sql_row = \<lparr>tr_owner = ''o'', tr_task_json = example_task Working, tr_context_id = '''',
     tr_status_state = wire_name Working, tr_status_timestamp = '''', tr_cancel_requested = False,
     tr_latest_event_sequence = 1, tr_lease_expires_at = None, tr_artifact_manifest = [], tr_updated_at = 0\<rparr>"

lemma example_sql_row_live: "tr_status_state example_sql_row \<notin> set TERMINAL_STATES_SQL"
  by (simp add: example_sql_row_def wire_name_terminal is_terminal_def TERMINAL_STATES_def)

end
