(* ===== verification/Sqlite_Listing.thy ===== *)
theory Sqlite_Listing
  imports Sqlite_Typed
begin

text \<open>
  The filtered, paged listing of tasks: on related databases whose columns agree with their blobs,
  \<open>list_tasks\<close> of the SQLite backend answers what the in-memory store answers, page by page.
\<close>

section \<open>Rows and stored tasks\<close>

definition listed_pair ::
  "('t, 'e, 'a, 'c) codec \<Rightarrow> pb_artifact set \<Rightarrow> chrono \<Rightarrow> ('t, 'e, 'a, 'c) sqlite \<Rightarrow> store \<Rightarrow> task_filter \<Rightarrow>
   string \<Rightarrow> bool" where
  "listed_pair C A c db s f tn \<longleftrightarrow> refines C A db s \<and> rows_typed C c db \<and> tasks_keyed s \<and>
     tf_tenant f = Some tn \<and> tf_owner f \<noteq> None"

definition listed_rel ::
  "('t, 'e, 'a, 'c) codec \<Rightarrow> pb_artifact set \<Rightarrow> chrono \<Rightarrow> ('t, 'e, 'a, 'c) sqlite \<Rightarrow> store \<Rightarrow> string \<Rightarrow>
   task_key \<times> 't task_row \<Rightarrow> stored_task \<Rightarrow> bool" where
  "listed_rel C A c db s tn e x \<longleftrightarrow> fst e = (tn, tk_id (s_task x)) \<and>
     row_refines C A tn (tk_id (s_task x)) db (snd e) x \<and>
     hm_get (sq_tasks db) (fst e) = Some (snd e) \<and> get_stored s tn (tk_id (s_task x)) = Some x \<and>
     select_key e = row_key c x"

lemma listed_columns:
  assumes L: "listed_pair C A c db s f tn" and "hm_get (sq_tasks db) (tn, i) = Some r" and "row_refines C A tn i db r x"
  shows "tr_context_id r = tk_context_id (s_task x)" "tr_status_timestamp r = task_sort_key c (s_task x)"
    "tr_status_state r = status_state_str (s_task x)" "tk_id (s_task x) = i"
proof -
  obtain t where "dec_task C (tr_task_json r) = Inr t" "tr_context_id r = tk_context_id t"
    "tr_status_timestamp r = task_sort_key c t"
    using rows_typed_row [of C c db, OF _ assms(2)] L by (auto simp: row_typed_def listed_pair_def)
  moreover from this(1) assms(3) have "t = (s_task x)\<lparr>tk_artifacts := []\<rparr>" by (simp add: row_refines_def)
  ultimately show "tr_context_id r = tk_context_id (s_task x)" "tr_status_timestamp r = task_sort_key c (s_task x)"
    by simp_all
qed (use assms(3) in \<open>simp_all add: row_refines_def\<close>)

lemma listed_matches:
  assumes L: "listed_pair C A c db s f tn"
    and r: "hm_get (sq_tasks db) (tn, i) = Some r" "get_stored s tn i = Some x" "row_refines C A tn i db r x"
  shows "select_matches c f ((tn, i), r) = task_matches c f x"
proof -
  have "s_tenant x = tn" "tr_owner r = s_owner x"
    using L r by (auto simp: tasks_keyed_get row_refines_def listed_pair_def)
  moreover obtain st where "task_state_of (s_task x) = Some st"
    using r(3) by (auto simp: row_refines_def well_typed_def)
  ultimately show ?thesis using listed_columns [OF L r(1,3)] L
    by (auto simp: select_matches_def task_matches_def listed_pair_def admits_status_time_def status_state_str_def
        inj_eq [OF inj_wire_name] split: option.splits)
qed

lemma selected_listed:
  assumes L: "listed_pair C A c db s f tn" and "e \<in> set (sq_tasks db)" and "select_matches c f e"
  shows "\<exists>x. listed_rel C A c db s tn e x \<and> x \<in> set (filtered_rows c f s)"
proof -
  obtain i r where e: "e = ((tn, i), r)" using assms(3) L by (cases e) (auto simp: select_matches_def listed_pair_def)
  have get: "hm_get (sq_tasks db) (tn, i) = Some r"
    using assms(2) L by (auto simp: e rows_typed_def listed_pair_def hm_get_def hm_wf_def)
  have "task_refines C A tn i db s" using L by (simp add: refines_def listed_pair_def)
  with get obtain x where x: "get_stored s tn i = Some x" "row_refines C A tn i db r x"
    by (auto simp: task_refines_def split: option.splits)
  note cs = listed_columns [OF L get x(2)]
  have "listed_rel C A c db s tn e x" using get x cs by (simp add: listed_rel_def e select_key_def row_key_def)
  moreover have "((tn, i), x) \<in> set (tasks s)"
    using x(1) by (auto simp: get_stored_def dest: hm_get_in_set)
  ultimately show ?thesis
    using listed_matches [OF L get x] assms(3) by (force simp: filtered_rows_set e)
qed

lemma filtered_listed:
  assumes L: "listed_pair C A c db s f tn" and "x \<in> set (filtered_rows c f s)"
  shows "\<exists>e \<in> set (sq_tasks db). select_matches c f e \<and> listed_rel C A c db s tn e x"
proof -
  from assms(2) obtain k where k: "(k, x) \<in> set (tasks s)" "task_matches c f x" by (auto simp: filtered_rows_set)
  then have "fst k = tn" using L by (cases k) (auto simp: tasks_keyed_def task_matches_def listed_pair_def)
  then obtain i where "k = (tn, i)" by (cases k) auto
  with k(1) L have x: "get_stored s tn i = Some x"
    by (auto simp: tasks_keyed_def listed_pair_def get_stored_def hm_get_def hm_wf_def)
  have "task_refines C A tn i db s" using L by (simp add: refines_def listed_pair_def)
  with x obtain r where r: "hm_get (sq_tasks db) (tn, i) = Some r" "row_refines C A tn i db r x"
    by (auto simp: task_refines_def)
  with x listed_columns [OF L r] have "listed_rel C A c db s tn ((tn, i), r) x"
    by (simp add: listed_rel_def select_key_def row_key_def)
  with listed_matches [OF L r(1) x r(2)] k(2) r(1) show ?thesis by (auto dest: hm_get_in_set)
qed

section \<open>The whole listing\<close>

lemma strict_desc_unique:
  fixes xs ys :: "'k::linorder list"
  assumes "sorted_wrt (\<lambda>a b. b < a) xs" and "sorted_wrt (\<lambda>a b. b < a) ys" and "set xs = set ys"
  shows "xs = ys"
proof -
  have "sorted (rev zs) \<and> distinct (rev zs)" if "sorted_wrt (\<lambda>a b. b < a) zs" for zs :: "'k list"
    using that by (induction zs) (auto simp: sorted_append less_imp_le)
  with assms have "rev xs = rev ys" by (intro sorted_distinct_set_unique) simp_all
  then show ?thesis by simp
qed

lemma strict_desc_distinct: "sorted_wrt (\<lambda>a b. b < a) xs \<Longrightarrow> distinct xs" for xs :: "'k::linorder list"
  by (induction xs) auto

lemma list_all2_of_keys:
  assumes "map f xs = map g ys" and "distinct (map g ys)"
    and "\<And>x. x \<in> set xs \<Longrightarrow> \<exists>y \<in> set ys. R x y" and "\<And>x y. R x y \<Longrightarrow> f x = g y"
  shows "list_all2 R xs ys"
proof (rule list_all2_all_nthI)
  show "length xs = length ys" using assms(1) by (metis length_map)
  fix i assume i: "i < length xs"
  with \<open>length xs = length ys\<close> have "f (xs ! i) = g (ys ! i)" using assms(1) by (metis nth_map)
  moreover obtain y where y: "y \<in> set ys" "R (xs ! i) y" using assms(3) i by (meson nth_mem)
  ultimately have "g y = g (ys ! i)" using assms(4) by metis
  moreover have "ys ! i \<in> set ys" using i \<open>length xs = length ys\<close> by simp
  ultimately have "y = ys ! i" using assms(2) y(1) by (meson distinct_map inj_onD)
  with y(2) show "R (xs ! i) (ys ! i)" by simp
qed

lemma filter_sort_desc: "filter P (sort_desc f xs) = sort_desc f (filter P xs)"
  by (simp add: sort_desc_def filter_sort flip: rev_filter)

lemma selected_desc:
  assumes L: "listed_pair C A c db s f tn"
  shows "sorted_wrt (\<lambda>a b. b < a) (map select_key (sort_desc select_key (filter (select_matches c f) (sq_tasks db))))"
proof -
  let ?rows = "filter (select_matches c f) (sq_tasks db)"
  have "distinct (map fst ?rows)"
    using L by (simp add: listed_pair_def rows_typed_def hm_wf_def distinct_map_filter)
  moreover have "fst e = (tn, snd (select_key e))" if "e \<in> set ?rows" for e
  proof -
    have "select_matches c f e" using that by simp
    then show ?thesis using L by (cases e) (auto simp: select_matches_def listed_pair_def select_key_def)
  qed
  then have "map fst ?rows = map (\<lambda>k. (tn, snd k)) (map select_key ?rows)" by simp
  ultimately have "distinct (map select_key ?rows)" by (simp only: distinct_map)
  then have "distinct (map select_key (sort_desc select_key ?rows))"
    using mset_eq_imp_distinct_iff [of "map select_key (sort_desc select_key ?rows)" "map select_key ?rows"] by simp
  with sorted_sort_desc [of select_key ?rows] show ?thesis
    by (auto simp: sorted_wrt_map sorted_wrt_iff_nth_less distinct_conv_nth less_le)
qed

lemma listing_related:
  assumes L: "listed_pair C A c db s f tn"
  shows "list_all2 (listed_rel C A c db s tn)
    (sort_desc select_key (filter (select_matches c f) (sq_tasks db))) (filtered_rows c f s)"
proof (rule list_all2_of_keys [where f = select_key and g = "row_key c"])
  let ?G = "sort_desc select_key (filter (select_matches c f) (sq_tasks db))"
  have desc: "sorted_wrt (\<lambda>a b. b < a) (map (row_key c) (filtered_rows c f s))"
    using filtered_rows_desc [of s f tn c] L by (simp add: sorted_wrt_map listed_pair_def)
  then show "distinct (map (row_key c) (filtered_rows c f s))"
    by (rule strict_desc_distinct)
  show ex: "\<exists>y \<in> set (filtered_rows c f s). listed_rel C A c db s tn e y" if "e \<in> set ?G" for e
    using selected_listed [OF L] that by fastforce
  show "map select_key ?G = map (row_key c) (filtered_rows c f s)"
  proof (rule strict_desc_unique [OF selected_desc [OF L] desc])
    show "set (map select_key ?G) = set (map (row_key c) (filtered_rows c f s))"
    proof (intro equalityI subsetI)
      fix k assume "k \<in> set (map select_key ?G)"
      then obtain e where "e \<in> set ?G" "k = select_key e" by auto
      with ex [of e] show "k \<in> set (map (row_key c) (filtered_rows c f s))" by (auto simp: listed_rel_def)
    next
      fix k assume "k \<in> set (map (row_key c) (filtered_rows c f s))"
      then obtain x where x: "x \<in> set (filtered_rows c f s)" "k = row_key c x" by auto
      from filtered_listed [OF L this(1)] obtain e where "e \<in> set ?G" "select_key e = k"
        by (auto simp: listed_rel_def x(2))
      then show "k \<in> set (map select_key ?G)" by auto
    qed
  qed
qed (simp add: listed_rel_def)

section \<open>One page\<close>

lemma listed_row_task:
  assumes L: "listed_pair C A c db s f tn" and "listed_rel C A c db s tn e x"
  shows "listed_row C f db e = Some (listed_task f x)"
proof -
  obtain i r where e: "e = ((tn, i), r)" using assms(2) by (cases e) (auto simp: listed_rel_def)
  have r: "hm_get (sq_tasks db) (tn, i) = Some r" "get_stored s tn i = Some x" "row_refines C A tn i db r x" "tk_id (s_task x) = i"
    using assms(2) by (auto simp: listed_rel_def e)
  have w: "well_typed (s_task x)" and json: "dec_task C (tr_task_json r) = Inr ((s_task x)\<lparr>tk_artifacts := []\<rparr>)"
    using r(3) by (auto simp: row_refines_def)
  have tf: "task_try_from ((s_task x)\<lparr>tk_artifacts := []\<rparr>) = Inr ((s_task x)\<lparr>tk_artifacts := []\<rparr>)"
    "task_try_from ((trim_history (s_task x) n)\<lparr>tk_artifacts := []\<rparr>) = Inr ((trim_history (s_task x) n)\<lparr>tk_artifacts := []\<rparr>)" for n
    using w by (simp_all add: well_typed_try) (simp_all add: well_typed_def)
  have "task_from_json C (tr_task_json r) = Inr ((s_task x)\<lparr>tk_artifacts := []\<rparr>)"
    using json by (simp add: task_from_json_def typed_def attempt_def serde_def tf)
  moreover have "trim_history ((s_task x)\<lparr>tk_artifacts := []\<rparr>) n = (trim_history (s_task x) n)\<lparr>tk_artifacts := []\<rparr>" for n
    by (simp add: trim_history_def Let_def split: option.splits)
  moreover have "rehydrate_task C tn i (tr_task_json r) (tr_artifact_manifest r) db = Inr (s_task x)"
    using L r(1,2) by (intro rehydrate_stored) (auto simp: listed_pair_def)
  ultimately show ?thesis using L
    by (auto simp: listed_row_def e listed_task_def strip_artifacts_def listed_pair_def tf split: option.splits)
qed

lemma before_cursor_key: "before_cursor cur e = (case cur of None \<Rightarrow> True | Some k \<Rightarrow> select_key e < k)"
  by (auto simp: before_cursor_def less_prod_def split: option.splits prod.splits)

lemma list_tasks_refines:
  assumes L: "listed_pair C A c db s f tn"
  shows "sqlite_list_tasks C c f db = list_tasks c f s"
proof (cases "resolved_page_size f")
  case (Inr size)
  define n where "n = nat size"
  have n: "0 < n" "0 < size" using resolved_page_size_bounds [OF Inr] by (simp_all add: n_def)
  let ?F = "filtered_rows c f s" and ?G = "sort_desc select_key (filter (select_matches c f) (sq_tasks db))"
  have rel: "list_all2 (listed_rel C A c db s tn) ?G ?F" by (rule listing_related [OF L])
  have total: "length (filter (select_matches c f) (sq_tasks db)) = length ?F"
    using list_all2_lengthD [OF rel] by simp
  have dec: "attempt (case tf_page_token f of None \<Rightarrow> Inr None
      | Some token \<Rightarrow> attempt (decode_cursor c token) (\<lambda>k. Inr (Some k))) g =
    (case (case tf_page_token f of None \<Rightarrow> Inr None
      | Some token \<Rightarrow> (case decode_cursor c token of Inl e \<Rightarrow> Inl e | Inr k \<Rightarrow> Inr (Some k))) of
        Inl e \<Rightarrow> Inl e | Inr cur \<Rightarrow> g cur)" for g :: "(string \<times> string) option \<Rightarrow> storage_error + task_list_page"
    by (auto simp: attempt_def split: option.splits sum.splits)
  show ?thesis
  proof (cases "case tf_page_token f of None \<Rightarrow> Inr None
      | Some token \<Rightarrow> (case decode_cursor c token of Inl e \<Rightarrow> Inl e | Inr k \<Rightarrow> Inr (Some k))")
    case (Inl e)
    then show ?thesis using Inr by (simp add: sqlite_list_tasks_def list_tasks_def dec)
  next
    case cur: (Inr cur)
    define start where "start = (case cur of Some k \<Rightarrow> (case position (\<lambda>r. row_key c r < k) ?F of
           Some i \<Rightarrow> i | None \<Rightarrow> length ?F) | None \<Rightarrow> 0)"
    let ?P = "\<lambda>x. case cur of None \<Rightarrow> True | Some k \<Rightarrow> row_key c x < k"
    define G where "G = filter (before_cursor cur) ?G"
    have le: "start \<le> length ?F"
      by (auto simp: start_def dest!: position_Some split: option.splits)
    have "sorted_wrt (\<lambda>a b. row_key c b < row_key c a) ?F"
      using L by (auto intro: filtered_rows_desc simp: listed_pair_def)
    then have rest: "filter ?P ?F = drop start ?F"
      unfolding start_def
      by (cases cur) (auto intro!: drop_position_filter [symmetric] elim: less_trans)
    have R: "list_all2 (listed_rel C A c db s tn) G (drop start ?F)"
      unfolding rest [symmetric] G_def
      by (rule list_all2_filter [OF rel]) (auto simp: before_cursor_key listed_rel_def split: option.splits)
    have sel: "select_tasks c f cur m db = take m G" for m
      by (simp add: select_tasks_def filter_sort_desc G_def)
    have len: "length G = length ?F - start" using list_all2_lengthD [OF R] by simp
    have "list_all2 (listed_rel C A c db s tn) xs ys \<Longrightarrow> List.map_filter (listed_row C f db) xs = map (listed_task f) ys" for xs ys
      by (induction xs ys rule: list_all2_induct) (auto simp: map_filter_simps listed_row_task [OF L])
    then have rows: "List.map_filter (listed_row C f db) (take n G) = map (listed_task f) (take n (drop start ?F))"
      using R by (metis list_all2_takeI)
    have final: "select_key (last (take n G)) = row_key c (?F ! (start + n - 1))" if "start + n < length ?F"
    proof -
      have "listed_rel C A c db s tn (G ! (n - 1)) (drop start ?F ! (n - 1))"
        using that n len by (intro list_all2_nthD [OF R]) simp
      moreover have "last (take n G) = G ! (n - 1)"
        using that n len by (subst last_conv_nth) (auto simp: min_def)
      ultimately show ?thesis using that n by (simp add: listed_rel_def)
    qed
    have tk: "take n (take (n + 1) G) = take n G" by simp
    have more: "length (take (n + 1) G) > n \<longleftrightarrow> start + n < length ?F" using len by auto
    have "take (min (start + n) (length ?F) - start) (drop start ?F) = take n (drop start ?F)"
      using le by (simp add: min_def)
    with Inr cur show ?thesis
      unfolding sqlite_list_tasks_def list_tasks_def dec
      by (simp add: attempt_def n_def [symmetric] start_def [symmetric] sel Let_def)
         (use more final n len le in \<open>auto simp: total rows row_key_def min_def\<close>)
  qed
qed (simp add: sqlite_list_tasks_def list_tasks_def attempt_def)

section \<open>After any run of commits\<close>

lemma run_sql_reachable: "sql_reachable C c db \<Longrightarrow> sql_reachable C c (snd (run_sql C c xs db))"
proof (induction xs arbitrary: db)
  case (Cons x xs)
  from Cons.IH [OF sql_reachable.commit [OF Cons.prems, of x]] show ?case by (simp add: case_prod_beta)
qed simp

lemma mem_commit_keyed:
  assumes "tasks_keyed s"
  shows "tasks_keyed (snd (mem_commit x s))"
proof (cases x)
  case (CCreate now tn ow t evs)
  with tasks_keyed_exec [OF assms, of "OpCreateAtomic now tn ow t evs"] show ?thesis by simp
next
  case (CCreateQuiet now tn ow t)
  with tasks_keyed_exec [OF assms, of "OpCreateTask now tn ow t"] show ?thesis by simp
next
  case (CStatus now tn i ow st evs)
  with tasks_keyed_exec [OF assms, of "OpStatusAtomic now tn i ow st evs"] show ?thesis by simp
next
  case (CUpdate now tn ow t evs)
  with tasks_keyed_exec [OF assms, of "OpUpdateAtomic now tn ow t evs"] show ?thesis by simp
next
  case (CMessage now tn i ow m)
  with tasks_keyed_exec [OF assms, of "OpAppendMessage tn i ow m"] show ?thesis by simp
next
  case (CCancel tn i ow)
  with tasks_keyed_exec [OF assms, of "OpSetCancel tn i ow"] show ?thesis by simp
next
  case (CDelete tn i ow)
  with tasks_keyed_exec [OF assms, of "OpDeleteTask tn i ow"] show ?thesis by simp
next
  case (CConfig uuid tn cfg)
  with tasks_keyed_exec [OF assms, of "OpCreateConfig uuid tn cfg"] show ?thesis by simp
next
  case (CDeleteConfig tn i k)
  with tasks_keyed_exec [OF assms, of "OpDeleteConfig tn i k"] show ?thesis by simp
next
  case (CMarker now tn ow i q)
  with tasks_keyed_exec [OF assms, of "OpRecordPending now tn ow i q"] show ?thesis by simp
next
  case (CUnmark tn i q)
  with tasks_keyed_exec [OF assms, of "OpDeletePending tn i q"] show ?thesis by simp
next
  case (CLease tn ids e)
  with tasks_keyed_exec [OF assms, of "OpRenewLeases tn ids e"] show ?thesis by simp
qed

lemma run_mem_keyed: "tasks_keyed s \<Longrightarrow> tasks_keyed (snd (run_mem xs s))"
proof (induction xs arbitrary: s)
  case (Cons x xs)
  from Cons.IH [OF mem_commit_keyed [OF Cons.prems]] show ?case by (simp add: case_prod_beta)
qed simp

lemma new_typed: "rows_typed C c (sqlite_new b rc)"
  by (simp add: rows_typed_def sqlite_new_def)

lemma run_typed:
  assumes "codec_ok C A"
  shows "refines C A db s \<Longrightarrow> rows_typed C c db \<Longrightarrow> all_admissible C A s xs \<Longrightarrow> rows_typed C c (snd (run_sql C c xs db))"
proof (induction xs arbitrary: db s)
  case (Cons x xs)
  from Cons.prems have x: "admissible C A s x" "all_admissible C A (snd (mem_commit x s)) xs" by simp_all
  from Cons.IH [OF conjunct2 [OF commit_refines [OF assms Cons.prems(1) x(1)]] admissible_typed [OF Cons.prems(1,2) x(1)] x(2)]
  show ?case by (simp add: case_prod_beta)
qed simp

lemma run_listed_pair:
  assumes "codec_ok C A" and "all_admissible C A (with_push_dispatch_enabled b store_new) xs"
    and "tf_tenant f = Some tn" and "tf_owner f \<noteq> None"
  shows "listed_pair C A c (snd (run_sql C c xs (sqlite_new b rc)))
    (snd (run_mem xs (with_push_dispatch_enabled b store_new))) f tn"
proof -
  have "tasks_keyed (with_push_dispatch_enabled b store_new)"
    by (simp add: tasks_keyed_def with_push_dispatch_enabled_def store_new_def)
  then show ?thesis
    using run_refines [OF assms(1) refines_new assms(2)] assms(3,4) run_mem_keyed
      run_typed [OF assms(1) refines_new new_typed assms(2)]
    by (simp add: listed_pair_def)
qed

theorem sqlite_run_agrees:
  assumes "codec_ok C A" and "all_admissible C A (with_push_dispatch_enabled b store_new) xs"
    and "run_sql C c xs (sqlite_new b rc) = (answers, db)"
    and "run_mem xs (with_push_dispatch_enabled b store_new) = (answers', s)"
  shows "answers = answers' \<and>
    (\<forall>tn i ow n. sqlite_get_task C tn i ow n db = get_task tn i ow n s) \<and>
    (\<forall>f. tf_tenant f \<noteq> None \<longrightarrow> tf_owner f \<noteq> None \<longrightarrow> sqlite_list_tasks C c f db = list_tasks c f s) \<and>
    (\<forall>tn i tok n. sqlite_list_configs C tn i tok n db = list_configs tn i tok n s) \<and>
    (\<forall>tn i q tok n. q < 2 ^ 63 \<longrightarrow> sqlite_list_configs_eligible_at_event C tn i q tok n db =
       list_configs_eligible_at_event tn i q tok n s) \<and>
    (\<forall>tn i after. after < 2 ^ 63 \<longrightarrow>
       sqlite_get_events_after C tn i after db = get_events_after tn i after s) \<and>
    (\<forall>tn i. sqlite_latest_sequence tn i db = latest_sequence tn i s)"
proof -
  from run_refines [OF assms(1) refines_new [of C A b rc] assms(2), of c] assms(3,4)
  have eq: "answers = answers'" and R: "refines C A db s" by auto
  then have "log_refines C db s tn i" for tn i by (simp add: refines_def)
  moreover have "sqlite_list_tasks C c f db = list_tasks c f s" if "tf_tenant f \<noteq> None" "tf_owner f \<noteq> None" for f
  proof -
    from that(1) obtain tn where "tf_tenant f = Some tn" by blast
    from run_listed_pair [OF assms(1,2) this that(2), of c rc] assms(3,4)
    have "listed_pair C A c db s f tn" by simp
    then show ?thesis by (rule list_tasks_refines)
  qed
  ultimately show ?thesis
    using eq get_task_refines [OF R] latest_refines [OF R] list_configs_refines [OF R] eligible_configs_refine [OF R]
    by (intro conjI allI impI replay_refines) simp_all
qed

end
