(* ===== verification/Liveness.thy ===== *)
theory Liveness
  imports Send_Message Spawn
begin

text \<open>
  The loops that keep task state honest about its executor (\<open>server/liveness.rs\<close>) and the poller
  that carries a cancellation to the instance that runs the executor (\<open>server/in_flight.rs\<close>): one
  tick of each is one function on the server. The loops around them only sleep and repeat.
  A commit goes through \<open>commit_framework_terminal\<close>, which reads neither registry nor handles, so
  the copy of the state with an empty registry is the state. \<open>{:?}\<close> of a duration is \<open>dur\<close>, fresh
  UUIDs are \<open>uuid\<close>; calls joined by \<open>join_all\<close> are made one after another.
\<close>

definition now_micros :: "server \<Rightarrow> int" where
  "now_micros sv = int (now_of sv div 1000)"

definition failed_status :: "string \<Rightarrow> string \<Rightarrow> pb_task_status" where
  "failed_status uuid reason = status_with_message (agent_text uuid reason) (task_status_new Failed)"

definition LEASE_LOST_REASON :: string where
  "LEASE_LOST_REASON = ''task failed: the server running its executor stopped renewing the executor's lease''"

section \<open>Leases\<close>

text \<open>The expiry is computed once, before the calls; a failed call is retried at the next tick.\<close>

definition renew_tick :: "nat \<Rightarrow> server \<Rightarrow> server" where
  "renew_tick ttl sv =
     (let groups = hm_entries (snapshot_by_tenant sv);
          expires_at = lease_deadline (now_of sv) ttl
      in fold (\<lambda>(tenant, task_ids) sv.
           snd (store_call (\<lambda>_. supervisor_renew_executor_leases tenant task_ids (Some expires_at)) sv)) groups sv)"

definition clear_lease :: "string \<Rightarrow> string \<Rightarrow> server \<Rightarrow> server" where
  "clear_lease tenant task_id sv =
     snd (store_call (\<lambda>_. supervisor_renew_executor_leases tenant [task_id] None) sv)"

definition reap_one :: "string \<Rightarrow> supervised_task \<Rightarrow> server \<Rightarrow> server" where
  "reap_one uuid t sv =
     (case commit_framework_terminal (sv_tenant t) (sv_owner t) (sv_task_id t) (sv_context_id t)
         (failed_status uuid LEASE_LOST_REASON) sv of
        (Inr _, sv) \<Rightarrow> clear_lease (sv_tenant t) (sv_task_id t) sv
      | (Inl (SE_TerminalStateAlreadySet _ _), sv) \<Rightarrow> clear_lease (sv_tenant t) (sv_task_id t) sv
      | (Inl (SE_TaskNotFound _), sv) \<Rightarrow> clear_lease (sv_tenant t) (sv_task_id t) sv
      | (Inl _, sv) \<Rightarrow> sv)"

definition reap_once :: "string \<Rightarrow> server \<Rightarrow> server" where
  "reap_once uuid sv =
     (case store_read (supervisor_list_expired_executor_leases (now_micros sv)) sv of
        (Inl _, sv) \<Rightarrow> sv
      | (Inr expired, sv) \<Rightarrow> fold (reap_one uuid) expired sv)"

section \<open>Stalled executors\<close>

definition stalled :: "nat \<Rightarrow> server \<Rightarrow> nat \<Rightarrow> bool" where
  "stalled timeout sv h \<longleftrightarrow> (let x = sv_handles sv h in \<not> ih_terminal_committed x \<and> \<not> ih_client_held x \<and>
     \<not> ih_cancelled x \<and> timeout < since_progress (now_of sv) x)"

definition stall_reason :: "(nat \<Rightarrow> string) \<Rightarrow> nat \<Rightarrow> string" where
  "stall_reason dur timeout = ''task failed: its executor made no progress for '' @ dur timeout"

definition stall_one ::
  "(nat \<Rightarrow> string) \<Rightarrow> string \<Rightarrow> nat \<Rightarrow> nat \<Rightarrow> in_flight_key \<times> nat \<Rightarrow> server \<Rightarrow> server" where
  "stall_one dur uuid timeout abort_grace e sv = (case e of ((tenant, task_id), h) \<Rightarrow>
     if \<not> stalled timeout sv h then sv
     else (case ih_identity (sv_handles sv h) of
         None \<Rightarrow> sv
       | Some (owner, context_id) \<Rightarrow>
           (case commit_framework_terminal tenant owner task_id context_id
               (failed_status uuid (stall_reason dur timeout)) sv of
              (Inr _, sv) \<Rightarrow> cancel_then_abort_after h abort_grace sv
            | (Inl (SE_TerminalStateAlreadySet _ _), sv) \<Rightarrow> cancel_then_abort_after h abort_grace sv
            | (Inl (SE_TaskNotFound _), sv) \<Rightarrow> cancel_then_abort_after h abort_grace sv
            | (Inl _, sv) \<Rightarrow> sv)))"

definition stall_tick :: "(nat \<Rightarrow> string) \<Rightarrow> string \<Rightarrow> nat \<Rightarrow> nat \<Rightarrow> server \<Rightarrow> server" where
  "stall_tick dur uuid timeout abort_grace sv =
     fold (stall_one dur uuid timeout abort_grace) (snapshot_handles sv) sv"

section \<open>Idle tasks\<close>

definition IDLE_PAGE :: nat where "IDLE_PAGE = 100"

record idle_sweep =
  is_canceled :: nat
  is_errors :: nat

datatype idle_outcome = IdleCanceled | IdleResolved | IdleFailed

definition idle_reason :: "(nat \<Rightarrow> string) \<Rightarrow> nat \<Rightarrow> string" where
  "idle_reason dur idle_for = ''task canceled: no client input for '' @ dur idle_for"

text \<open>\<open>with_registry\<close>: whether the sweep runs beside this process's registry.\<close>

definition cancel_idle_task ::
  "string \<Rightarrow> bool \<Rightarrow> string \<Rightarrow> supervised_task \<Rightarrow> server \<Rightarrow> idle_outcome \<times> server" where
  "cancel_idle_task uuid with_registry reason t sv =
     (case commit_framework_terminal (sv_tenant t) (sv_owner t) (sv_task_id t) (sv_context_id t)
         (status_with_message (agent_text uuid reason) (task_status_new Canceled)) sv of
        (Inr _, sv) \<Rightarrow> (IdleCanceled, (case (if with_registry then registry_get (sv_tenant t, sv_task_id t) sv else None) of
            Some h \<Rightarrow> cancel_then_abort_after h (cancel_abort_grace (sv_config sv)) sv | None \<Rightarrow> sv))
      | (Inl (SE_TerminalStateAlreadySet _ _), sv) \<Rightarrow> (IdleResolved, sv)
      | (Inl (SE_TaskNotFound _), sv) \<Rightarrow> (IdleResolved, sv)
      | (Inl _, sv) \<Rightarrow> (IdleFailed, sv))"

text \<open>A page: how many were canceled and how many failed.\<close>

fun cancel_idle_page ::
  "string \<Rightarrow> bool \<Rightarrow> string \<Rightarrow> supervised_task list \<Rightarrow> server \<Rightarrow> nat \<times> nat \<times> server" where
  "cancel_idle_page uuid wr reason [] sv = (0, 0, sv)"
| "cancel_idle_page uuid wr reason (t # ts) sv =
     (case cancel_idle_task uuid wr reason t sv of (out, sv) \<Rightarrow>
      (case cancel_idle_page uuid wr reason ts sv of (n, e, sv) \<Rightarrow>
        (if out = IdleCanceled then n + 1 else n, if out = IdleFailed then e + 1 else e, sv)))"

definition idle_before :: "instant \<Rightarrow> nat \<Rightarrow> int" where
  "idle_before now idle_for = sat_sub_i64 (int (now div 1000))
     (if int (idle_for div 1000) \<le> i64_max then int (idle_for div 1000) else i64_max)"

fun cancel_idle_loop ::
  "nat \<Rightarrow> chrono \<Rightarrow> string \<Rightarrow> bool \<Rightarrow> string \<Rightarrow> nat \<Rightarrow> idle_sweep \<Rightarrow> server \<Rightarrow>
   ((storage_error + idle_sweep) \<times> server) option" where
  "cancel_idle_loop 0 c uuid wr reason idle_for sweep sv = None"
| "cancel_idle_loop (Suc fuel) c uuid wr reason idle_for sweep sv =
     (case store_read (supervisor_list_idle_client_held_tasks c (idle_before (now_of sv) idle_for) IDLE_PAGE) sv of
        (Inl e, sv) \<Rightarrow> Some (Inl e, sv)
      | (Inr page, sv) \<Rightarrow>
          (case cancel_idle_page uuid wr reason page sv of (n, e, sv) \<Rightarrow>
             let sweep = \<lparr>is_canceled = is_canceled sweep + n, is_errors = is_errors sweep + e\<rparr>
             in if length page < IDLE_PAGE \<or> e = length page then Some (Inr sweep, sv)
                else cancel_idle_loop fuel c uuid wr reason idle_for sweep sv))"

definition cancel_idle_tasks ::
  "nat \<Rightarrow> chrono \<Rightarrow> (nat \<Rightarrow> string) \<Rightarrow> string \<Rightarrow> bool \<Rightarrow> nat \<Rightarrow> server \<Rightarrow>
   ((storage_error + idle_sweep) \<times> server) option" where
  "cancel_idle_tasks fuel c dur uuid wr idle_for sv =
     cancel_idle_loop fuel c uuid wr (idle_reason dur idle_for) idle_for \<lparr>is_canceled = 0, is_errors = 0\<rparr> sv"

section \<open>The cross-instance cancel poller\<close>

definition trip_handle :: "nat \<Rightarrow> string \<Rightarrow> string \<Rightarrow> server \<Rightarrow> server" where
  "trip_handle abort_grace tenant task_id sv = (case registry_get (tenant, task_id) sv of
       Some h \<Rightarrow> cancel_then_abort_after h abort_grace sv | None \<Rightarrow> sv)"

definition poll_group :: "nat \<Rightarrow> string \<times> string list \<Rightarrow> server \<Rightarrow> server" where
  "poll_group abort_grace g sv = (case g of (tenant, task_ids) \<Rightarrow>
     (case store_read (supervisor_list_cancel_requested tenant task_ids) sv of
        (Inl _, sv) \<Rightarrow> sv
      | (Inr marked, sv) \<Rightarrow> fold (trip_handle abort_grace tenant) marked sv))"

definition poll_once :: "nat \<Rightarrow> server \<Rightarrow> server" where
  "poll_once abort_grace sv = fold (poll_group abort_grace) (hm_entries (snapshot_by_tenant sv)) sv"

end
