(* ===== verification/Liveness_Laws.thy ===== *)
theory Liveness_Laws
  imports Handler_Laws Liveness
begin

text \<open>
  What the loops guarantee. A lost or stalled executor's task ends whatever the rest of the
  deployment writes meanwhile; an idle sweep that nobody disturbs returns and cancels exactly the
  idle tasks; the poller trips exactly the executors whose task carries a live cancel marker.
\<close>

section \<open>Every call of a loop is one of the server's writes\<close>

definition kept :: "string \<Rightarrow> string \<Rightarrow> string \<Rightarrow> server \<Rightarrow> server \<Rightarrow> bool" where
  "kept tn i ow sv sv' \<longleftrightarrow> task_here tn i ow (sv_store sv') \<and> same_world sv sv' \<and>
     (ended (state_of (sv_store sv) tn i) \<longrightarrow> state_of (sv_store sv') tn i = state_of (sv_store sv) tn i)"

lemma kept_refl: "task_here tn i ow (sv_store sv) \<Longrightarrow> kept tn i ow sv sv"
  by (simp add: kept_def)

lemma kept_trans: "kept tn i ow sv sv1 \<Longrightarrow> kept tn i ow sv1 sv2 \<Longrightarrow> kept tn i ow sv sv2"
  using same_world_trans by (auto simp: kept_def)

lemma kept_laws:
  assumes "kept tn i ow sv sv'"
  shows "task_here tn i ow (sv_store sv')" "server_others tn i sv \<Longrightarrow> server_others tn i sv'"
    "no_faults sv \<Longrightarrow> no_faults sv'" "ended (state_of (sv_store sv) tn i) \<Longrightarrow> ended (state_of (sv_store sv') tn i)"
  using assms same_world_laws by (auto simp: kept_def)

lemma kept_call:
  assumes "task_here tn i ow (sv_store sv)" and "server_others tn i sv"
    and "\<And>now s. \<exists>op. server_op tn i s op \<and> snd (f now s) = exec op s"
    and "store_call f sv = (res, sv')"
  shows "kept tn i ow sv sv'"
proof -
  note seen = here_seen [OF assms(1,2)]
  have step: "server_run tn i s (snd (f now s))" for now s
    using assms(3) [of s now] server_run.step_run [OF server_run.done_run] by metis
  from assms(4) show ?thesis
  proof (cases rule: store_call_cases)
    case (fault e)
    then show ?thesis using seen by (simp add: kept_def)
  next
    case (call s')
    then have "s' = snd (f (now_of sv) (store_seen sv))" by simp
    then show ?thesis using seen call(2) here_run [OF seen(1) step] by (auto simp: kept_def)
  qed
qed

lemma kept_terminal:
  assumes "task_here tn i ow (sv_store sv)" and "server_others tn i sv" and "status_state st = Inr n"
    and "commit_framework_terminal tn' ow' i' ctx st sv = (res, sv')"
  shows "kept tn i ow sv sv'"
proof -
  let ?ev = "status_event i' ctx st"
  obtain out sv1 where sc: "store_call (\<lambda>now. update_task_status_with_events now tn' i' ow' st [?ev]) sv = (out, sv1)"
    by fastforce
  have "\<exists>op. server_op tn i s op \<and> snd (update_task_status_with_events now tn' i' ow' st [?ev] s) = exec op s" for now s
    by (intro exI [of _ "OpStatusAtomic now tn' i' ow' st [?ev]"]) (simp add: state_event_def)
  from kept_call [OF assms(1,2) this sc] have "kept tn i ow sv sv1" .
  moreover have "sv' = sv1 \<or> (\<exists>t seqs q. sv' = notify i' (call_dispatch tn' ow' t [(q, ?ev)] sv1))"
    using assms(4) sc by (auto simp: commit_framework_terminal_def Let_def split: sum.splits prod.splits)
  then have "sv_store sv' = sv_store sv1 \<and> same_world sv1 sv'"
    by (auto simp: same_world_def notify_def call_dispatch_def)
  ultimately show ?thesis using same_world_trans by (auto simp: kept_def)
qed

lemma kept_read:
  assumes "task_here tn i ow (sv_store sv)" and "server_others tn i sv" and "store_read f sv = (res, sv')"
  shows "kept tn i ow sv sv'"
proof (rule kept_call [OF assms(1,2) _ assms(3) [unfolded store_read_def]])
  show "\<exists>op. server_op tn i s op \<and> snd ((\<lambda>_ s. (f s, s)) now s) = exec op s" for now :: instant and s
    by (intro exI [of _ "OpRenewLeases [] [] None"]) (simp add: supervisor_renew_executor_leases_def)
qed

lemma kept_clear_lease:
  assumes "task_here tn i ow (sv_store sv)" and "server_others tn i sv"
  shows "kept tn i ow sv (clear_lease tn' i' sv)"
proof -
  obtain res sv1 where sc: "store_call (\<lambda>_. supervisor_renew_executor_leases tn' [i'] None) sv = (res, sv1)" by fastforce
  have "\<exists>op. server_op tn i s op \<and> snd (supervisor_renew_executor_leases tn' [i'] None s) = exec op s" for s
    by (intro exI [of _ "OpRenewLeases tn' [i'] None"]) simp
  from kept_call [OF assms this sc] show ?thesis by (simp add: clear_lease_def sc)
qed

lemma failed_status_state: "status_state (failed_status uuid reason) = Inr Failed"
  by (simp add: failed_status_def)

section \<open>Lost executors\<close>

lemma reap_one_kept:
  assumes "task_here tn i ow (sv_store sv)" and "server_others tn i sv"
  shows "kept tn i ow sv (reap_one uuid t sv)"
proof -
  obtain res sv1 where c: "commit_framework_terminal (sv_tenant t) (sv_owner t) (sv_task_id t) (sv_context_id t)
      (failed_status uuid LEASE_LOST_REASON) sv = (res, sv1)" by fastforce
  have k: "kept tn i ow sv sv1" by (rule kept_terminal [OF assms failed_status_state c])
  have "kept tn i ow sv1 (clear_lease (sv_tenant t) (sv_task_id t) sv1)"
    using kept_laws [OF k] assms(2) by (intro kept_clear_lease) auto
  with kept_trans [OF k this] k show ?thesis
    by (auto simp: reap_one_def c split: sum.splits storage_error.splits)
qed

lemma reap_fold_kept:
  assumes "task_here tn i ow (sv_store sv)" and "server_others tn i sv"
  shows "kept tn i ow sv (fold (reap_one uuid) ts sv)"
  using assms
proof (induction ts arbitrary: sv)
  case (Cons t ts)
  have k: "kept tn i ow sv (reap_one uuid t sv)" by (rule reap_one_kept [OF Cons.prems])
  with Cons.IH [of "reap_one uuid t sv"] kept_laws [OF k] Cons.prems show ?case
    by (auto intro: kept_trans)
qed (simp add: kept_refl)

lemma reap_one_ends:
  assumes "task_here tn i ow (sv_store sv)" and "server_others tn i sv" and "no_faults sv"
    and "sv_tenant t = tn" "sv_task_id t = i" "sv_owner t = ow"
  shows "ended (state_of (sv_store (reap_one uuid t sv)) tn i)"
proof -
  obtain res sv1 where c: "commit_framework_terminal tn ow i (sv_context_id t)
      (failed_status uuid LEASE_LOST_REASON) sv = (res, sv1)" by fastforce
  from framework_terminal_ends [OF assms(1-3) failed_status_state _ c] have e: "task_here tn i ow (sv_store sv1)"
      "same_world sv sv1" "ended (state_of (sv_store sv1) tn i)" by auto
  have "kept tn i ow sv1 (clear_lease tn i sv1)"
    using e same_world_laws assms(2) by (intro kept_clear_lease) auto
  from kept_laws(4) [OF this e(3)] e(3) show ?thesis
    by (auto simp: reap_one_def assms(4-6) c split: sum.splits storage_error.splits)
qed

theorem lost_executor_ends:
  assumes here: "task_here tn i ow (sv_store sv)" and others: "server_others tn i sv" and nf: "no_faults sv"
    and r: "get_stored (store_seen sv) tn i = Some r" "lease_expired (now_micros sv) r"
  shows "ended (state_of (sv_store (reap_once uuid sv)) tn i)"
proof -
  obtain sv1 where rd: "store_read (supervisor_list_expired_executor_leases (now_micros sv)) sv =
      (supervisor_list_expired_executor_leases (now_micros sv) (store_seen sv), sv1)"
    by (simp add: read_no_faults [OF nf])
  let ?l = "map supervised_of (filter (lease_expired (now_micros sv)) (hm_values (tasks (store_seen sv))))"
  have seen: "task_here tn i ow (store_seen sv)" by (rule here_seen(1) [OF here others])
  then have row: "s_tenant r = tn" "tk_id (s_task r) = i" "s_owner r = ow"
    using r(1) by (auto simp: task_here_def tasks_keyed_get view_of_def)
  have "((tn, i), r) \<in> set (tasks (store_seen sv))"
    using r(1) by (auto simp: get_stored_def dest: hm_get_in_set)
  then have "supervised_of r \<in> set ?l" using r(2) by (force simp: hm_values_def)
  then obtain xs ys where l: "?l = xs @ supervised_of r # ys" by (meson split_list)
  have k: "kept tn i ow sv sv1" by (rule kept_read [OF here others rd])
  define sv2 where "sv2 = fold (reap_one uuid) xs sv1"
  have k2: "kept tn i ow sv1 sv2"
    unfolding sv2_def using kept_laws [OF k] others by (intro reap_fold_kept) auto
  note laws = kept_laws [OF kept_trans [OF k k2]]
  define sv3 where "sv3 = reap_one uuid (supervised_of r) sv2"
  have e: "ended (state_of (sv_store sv3) tn i)"
    unfolding sv3_def using laws others nf row by (intro reap_one_ends) (auto simp: supervised_of_def)
  have k3: "kept tn i ow sv2 sv3" unfolding sv3_def using laws others by (intro reap_one_kept) auto
  have "kept tn i ow sv3 (fold (reap_one uuid) ys sv3)"
    using kept_laws [OF k3] laws others by (intro reap_fold_kept) auto
  from kept_laws(4) [OF this e] show ?thesis
    by (simp add: reap_once_def rd supervisor_list_expired_executor_leases_def l sv2_def sv3_def)
qed

section \<open>Stalled executors\<close>

text \<open>What commits leave of the handles and the clock.\<close>

lemma commit_handles:
  assumes "commit_framework_terminal tn ow i ctx st sv = (res, sv')"
  shows "sv_handles sv' = sv_handles sv" "sv_now sv' = sv_now sv" "sv_tick sv' = Suc (sv_tick sv)"
    "sv_registry sv' = sv_registry sv"
  using assms
  by (auto simp: commit_framework_terminal_def store_call_def Let_def notify_def call_dispatch_def
      split: sum.splits prod.splits option.splits if_splits)

definition same_handle :: "nat \<Rightarrow> server \<Rightarrow> server \<Rightarrow> bool" where
  "same_handle h sv sv' \<longleftrightarrow> sv_handles sv' h = sv_handles sv h \<and> sv_now sv' = sv_now sv \<and> sv_tick sv \<le> sv_tick sv'"

lemma cancel_other_handle [simp]:
  "h \<noteq> h' \<Longrightarrow> sv_handles (cancel_then_abort_after h' d sv) h = sv_handles sv h"
  "sv_now (cancel_then_abort_after h' d sv) = sv_now sv" "sv_tick (cancel_then_abort_after h' d sv) = sv_tick sv"
  by (simp_all add: cancel_then_abort_after_def upd_handle_def Let_def)

lemma cancel_trips:
  "ih_cancelled (sv_handles (cancel_then_abort_after h d sv) h)" "ih_abort_armed (sv_handles (cancel_then_abort_after h d sv) h)"
  by (simp_all add: cancel_then_abort_after_def upd_handle_def Let_def)

lemma stall_one_other:
  assumes "h' \<noteq> h"
  shows "same_handle h sv (stall_one dur uuid timeout d (k, h') sv)"
proof (cases k)
  case (Pair tenant task_id)
  show ?thesis
  proof (cases "ih_identity (sv_handles sv h')")
    case None
    then show ?thesis by (simp add: stall_one_def Pair same_handle_def)
  next
    case (Some x)
    obtain owner ctx where x: "x = (owner, ctx)" by fastforce
    obtain res sv1 where c: "commit_framework_terminal tenant owner task_id ctx
        (failed_status uuid (stall_reason dur timeout)) sv = (res, sv1)" by fastforce
    show ?thesis
      using commit_handles [OF c] assms
      by (auto simp: stall_one_def Pair Some x c same_handle_def split: sum.splits storage_error.splits)
  qed
qed

lemma stall_one_kept:
  assumes "task_here tn i ow (sv_store sv)" and "server_others tn i sv"
  shows "kept tn i ow sv (stall_one dur uuid timeout d e sv)"
proof -
  obtain tenant task_id h where e: "e = ((tenant, task_id), h)" by (cases e) auto
  have c: "kept tn i ow s1 (cancel_then_abort_after h d s1)" if "task_here tn i ow (sv_store s1)" for s1
    using that by (simp add: kept_def)
  show ?thesis
  proof (cases "ih_identity (sv_handles sv h)")
    case None
    then show ?thesis using assms by (simp add: stall_one_def e kept_refl)
  next
    case (Some x)
    obtain owner ctx where x: "x = (owner, ctx)" by fastforce
    obtain res sv1 where t: "commit_framework_terminal tenant owner task_id ctx
        (failed_status uuid (stall_reason dur timeout)) sv = (res, sv1)" by fastforce
    have k: "kept tn i ow sv sv1" by (rule kept_terminal [OF assms failed_status_state t])
    with kept_trans [OF k c [OF kept_laws(1) [OF k]]] kept_refl [OF assms(1)] show ?thesis
      by (auto simp: stall_one_def e Some x t split: sum.splits storage_error.splits)
  qed
qed

lemma stall_fold:
  assumes "task_here tn i ow (sv_store sv)" and "server_others tn i sv"
  shows "kept tn i ow sv (fold (stall_one dur uuid timeout d) es sv)"
    and "h \<notin> snd ` set es \<Longrightarrow> same_handle h sv (fold (stall_one dur uuid timeout d) es sv)"
proof -
  show "kept tn i ow sv (fold (stall_one dur uuid timeout d) es sv)"
    using assms
  proof (induction es arbitrary: sv)
    case (Cons e es)
    have k: "kept tn i ow sv (stall_one dur uuid timeout d e sv)" by (rule stall_one_kept [OF Cons.prems])
    with Cons.IH [of "stall_one dur uuid timeout d e sv"] kept_laws [OF k] Cons.prems show ?case
      by (auto intro: kept_trans)
  qed (simp add: kept_refl)
  show "h \<notin> snd ` set es \<Longrightarrow> same_handle h sv (fold (stall_one dur uuid timeout d) es sv)"
  proof (induction es arbitrary: sv)
    case (Cons e es)
    obtain k h' where e: "e = (k, h')" by fastforce
    with Cons.prems have "same_handle h sv (stall_one dur uuid timeout d e sv)" by (auto intro: stall_one_other)
    with Cons.IH [of "stall_one dur uuid timeout d e sv"] Cons.prems show ?case by (auto simp: same_handle_def)
  qed (simp add: same_handle_def)
qed

lemma stalled_later:
  assumes "stalled timeout sv h" and "same_handle h sv sv'" and "clock_monotone sv"
  shows "stalled timeout sv' h"
proof -
  have "now_of sv \<le> now_of sv'"
    using assms(2,3) by (auto simp: same_handle_def now_of_def clock_monotone_def mono_def)
  with assms(1,2) show ?thesis by (auto simp: stalled_def Let_def same_handle_def since_progress_def)
qed

theorem stalled_executor_ends:
  assumes here: "task_here tn i ow (sv_store sv)" and others: "server_others tn i sv" and nf: "no_faults sv"
    and reg: "((tn, i), h) \<in> set (snapshot_handles sv)" and inj: "distinct (map snd (snapshot_handles sv))"
    and st: "stalled timeout sv h" and id: "ih_identity (sv_handles sv h) = Some (ow, ctx)" and clock: "clock_monotone sv"
    and tick: "stall_tick dur uuid timeout d sv = sv'"
  shows "ended (state_of (sv_store sv') tn i) \<and> ih_cancelled (sv_handles sv' h) \<and> ih_abort_armed (sv_handles sv' h)"
proof -
  obtain xs ys where l: "snapshot_handles sv = xs @ ((tn, i), h) # ys" using reg by (meson split_list)
  have fresh: "h \<notin> snd ` set xs" "h \<notin> snd ` set ys" using inj by (auto simp: l)
  define sv1 where "sv1 = fold (stall_one dur uuid timeout d) xs sv"
  note k = stall_fold(1) [OF here others, where dur = dur and uuid = uuid and timeout = timeout and d = d and es = xs, folded sv1_def]
  have same: "same_handle h sv sv1" unfolding sv1_def by (rule stall_fold(2) [OF here others fresh(1)])
  note laws = kept_laws [OF k]
  have id1: "ih_identity (sv_handles sv1 h) = Some (ow, ctx)" using same id by (simp add: same_handle_def)
  obtain res sv2 where c: "commit_framework_terminal tn ow i ctx (failed_status uuid (stall_reason dur timeout)) sv1 = (res, sv2)"
    by fastforce
  from framework_terminal_ends [OF laws(1) laws(2) [OF others] laws(3) [OF nf] failed_status_state _ c]
  have e: "task_here tn i ow (sv_store sv2)" "same_world sv1 sv2" "ended (state_of (sv_store sv2) tn i)"
    "(\<exists>x. res = Inr x) \<or> (\<exists>cur. res = Inl (SE_TerminalStateAlreadySet i cur))" by auto
  define sv3 where "sv3 = cancel_then_abort_after h d sv2"
  have one: "stall_one dur uuid timeout d ((tn, i), h) sv1 = sv3"
    using e(4) stalled_later [OF st same clock] by (auto simp: stall_one_def id1 c sv3_def)
  have here3: "task_here tn i ow (sv_store sv3)" "server_others tn i sv3" "ended (state_of (sv_store sv3) tn i)"
    using e same_world_laws(1) [OF e(2)] laws(2) [OF others] same_world_laws(1) [of sv2 sv3 tn i] by (simp_all add: sv3_def)
  have fin: "sv' = fold (stall_one dur uuid timeout d) ys sv3"
    by (simp add: stall_tick_def l one flip: sv1_def tick)
  have "ended (state_of (sv_store sv') tn i)"
    unfolding fin by (rule kept_laws(4) [OF stall_fold(1) [OF here3(1,2)] here3(3)])
  moreover have "sv_handles sv' h = sv_handles sv3 h"
    using stall_fold(2) [OF here3(1,2) fresh(2)] by (simp add: fin same_handle_def)
  ultimately show ?thesis by (simp add: sv3_def cancel_trips)
qed

end
