(* ===== verification/Idle_Sweep.thy ===== *)
theory Idle_Sweep
  imports Liveness_Laws
begin

text \<open>
  The idle-task sweep when nobody else writes: it returns, cancels exactly the tasks that have
  waited on their client for too long, and leaves none.
\<close>

section \<open>One task\<close>

definition quiet :: "server \<Rightarrow> bool" where
  "quiet sv \<longleftrightarrow> no_faults sv \<and> sv_others sv = (\<lambda>_ s. s)"

definition waits_on_client :: "stored_task \<Rightarrow> bool" where
  "waits_on_client r \<longleftrightarrow> (\<exists>st \<in> set CLIENT_HELD_STATES. task_state_of (s_task r) = Some st)"

definition row_canceled :: "store \<Rightarrow> string \<times> string \<Rightarrow> bool" where
  "row_canceled s k \<longleftrightarrow> (\<exists>r. get_stored s (fst k) (snd k) = Some r \<and> task_state_of (s_task r) = Some Canceled)"

text \<open>What canceling the tasks \<open>ks\<close> did, and all it did.\<close>

definition swept :: "bool \<Rightarrow> (string \<times> string) set \<Rightarrow> server \<Rightarrow> server \<Rightarrow> bool" where
  "swept wr ks sv sv' \<longleftrightarrow> tasks_keyed (sv_store sv') \<and> quiet sv' \<and> sv_registry sv' = sv_registry sv \<and>
     sv_now sv' = sv_now sv \<and> sv_tick sv \<le> sv_tick sv' \<and>
     (\<forall>k \<in> ks. row_canceled (sv_store sv') k) \<and>
     (\<forall>tn i. (tn, i) \<notin> ks \<longrightarrow> get_stored (sv_store sv') tn i = get_stored (sv_store sv) tn i) \<and>
     (\<forall>h. ih_cancelled (sv_handles sv h) \<longrightarrow> ih_cancelled (sv_handles sv' h)) \<and>
     (wr \<longrightarrow> (\<forall>k \<in> ks. \<forall>h. registry_get k sv = Some h \<longrightarrow> ih_cancelled (sv_handles sv' h)))"

lemma swept_refl: "tasks_keyed (sv_store sv) \<Longrightarrow> quiet sv \<Longrightarrow> swept wr {} sv sv"
  by (simp add: swept_def)

lemma swept_trans:
  assumes "swept wr ks sv sv1" and "swept wr ks' sv1 sv2" and "ks \<inter> ks' = {}"
  shows "swept wr (ks \<union> ks') sv sv2"
proof -
  have "row_canceled (sv_store sv2) k" if "k \<in> ks" for k
  proof -
    obtain tn i where k: "k = (tn, i)" by (cases k)
    have "k \<notin> ks'" using that assms(3) by auto
    with that assms(1,2) show ?thesis by (auto simp: swept_def row_canceled_def k)
  qed
  with assms(1,2) show ?thesis
    by (auto simp: swept_def registry_get_def)
qed

lemma cancel_one:
  assumes q: "quiet sv" and keyed: "tasks_keyed (sv_store sv)"
    and r: "get_stored (sv_store sv) (sv_tenant t) (sv_task_id t) = Some r" "s_owner r = sv_owner t" "waits_on_client r"
    and id: "sv_task_id t \<noteq> []"
  shows "\<exists>sv'. cancel_idle_task uuid wr reason t sv = (IdleCanceled, sv') \<and>
    swept wr {(sv_tenant t, sv_task_id t)} sv sv'"
proof -
  let ?tn = "sv_tenant t" and ?i = "sv_task_id t"
  let ?st = "status_with_message (agent_text uuid reason) (task_status_new Canceled)"
  let ?ev = "status_event ?i (sv_context_id t) ?st"
  have seen: "store_seen sv = sv_store sv" using q by (simp add: quiet_def store_seen_def)
  have tid: "tk_id (s_task r) = ?i" using keyed r(1) by (simp add: tasks_keyed_get)
  obtain c where c: "task_state_of (s_task r) = Some c" "c \<in> set CLIENT_HELD_STATES" using r(3) by (auto simp: waits_on_client_def)
  have st: "status_state ?st = Inr Canceled" by simp
  obtain res s' where u: "update_task_status_with_events (now_of sv) ?tn ?i (sv_owner t) ?st [?ev] (sv_store sv) = (res, s')"
    by fastforce
  have "\<not> is_terminal c" using c(2) client_held_not_terminal by blast
  then have "may_follow c Canceled" by (intro terminal_follows) auto
  with status_write_outcome [OF r(1,2) _ c(1) st u] id tid \<open>\<not> is_terminal c\<close>
  obtain t' seqs where res: "res = Inr (t', seqs)" by auto
  from u have row: "(\<exists>x. get_stored s' ?tn ?i = Some x \<and> task_state_of (s_task x) = Some Canceled) \<and>
      (\<forall>tn i. (tn, i) \<noteq> (?tn, ?i) \<longrightarrow> get_stored s' tn i = get_stored (sv_store sv) tn i)"
  proof (cases rule: update_status_with_events_cases)
    case (committed r c n t' evs')
    then show ?thesis using st by (auto simp: get_put_stored replace_row_def)
  qed (simp add: res)
  have keyed': "tasks_keyed s'"
    using tasks_keyed_exec [OF keyed, of "OpStatusAtomic (now_of sv) ?tn ?i (sv_owner t) ?st [?ev]"] u by simp
  let ?sv1 = "sv\<lparr>sv_store := s', sv_tick := Suc (sv_tick sv)\<rparr>"
  have "store_call (\<lambda>now. update_task_status_with_events now ?tn ?i (sv_owner t) ?st [?ev]) sv = (Inr (t', seqs), ?sv1)"
    using q u res seen by (simp add: store_call_def quiet_def no_faults_def Let_def now_of_def store_seen_def)
  then have cft: "commit_framework_terminal ?tn (sv_owner t) ?i (sv_context_id t) ?st sv = (Inr (t', seqs),
      notify ?i (call_dispatch ?tn (sv_owner t) t' [(case seqs of q # _ \<Rightarrow> q | [] \<Rightarrow> 0, ?ev)] ?sv1))"
    by (simp add: commit_framework_terminal_def Let_def)
  define sv2 where "sv2 = notify ?i (call_dispatch ?tn (sv_owner t) t' [(case seqs of q # _ \<Rightarrow> q | [] \<Rightarrow> 0, ?ev)] ?sv1)"
  note cft = cft [folded sv2_def]
  have sv2: "sv_store sv2 = s'" "same_world ?sv1 sv2"
    by (simp_all add: sv2_def same_world_def notify_def call_dispatch_def)
  note h = commit_handles [OF cft]
  have q2: "quiet sv2" using q sv2(2) by (auto simp: quiet_def same_world_def no_faults_def)
  define g where "g = (if wr then registry_get (?tn, ?i) sv2 else None)"
  define sv3 where "sv3 = (case g of Some h \<Rightarrow> cancel_then_abort_after h (cancel_abort_grace (sv_config sv2)) sv2 | None \<Rightarrow> sv2)"
  have "cancel_idle_task uuid wr reason t sv = (IdleCanceled, sv3)"
    by (simp add: cancel_idle_task_def cft sv3_def g_def)
  moreover have "sv_store sv3 = s'" "sv_registry sv3 = sv_registry sv" "sv_now sv3 = sv_now sv" "sv_tick sv \<le> sv_tick sv3"
      "quiet sv3"
    using sv2 h q2 by (auto simp: sv3_def cancel_then_abort_after_def upd_handle_def Let_def quiet_def no_faults_def split: option.splits)
  moreover have "ih_cancelled (sv_handles sv h) \<Longrightarrow> ih_cancelled (sv_handles sv3 h)" for h
    using h by (auto simp: sv3_def cancel_then_abort_after_def upd_handle_def Let_def split: option.splits)
  moreover have "wr \<Longrightarrow> registry_get (?tn, ?i) sv = Some h \<Longrightarrow> ih_cancelled (sv_handles sv3 h)" for h
    using h cancel_trips by (auto simp: sv3_def g_def registry_get_def split: option.splits)
  ultimately show ?thesis
    using row keyed' by (intro exI [of _ sv3]) (auto simp: swept_def row_canceled_def)
qed

section \<open>One page\<close>

definition waits_at :: "store \<Rightarrow> supervised_task \<Rightarrow> bool" where
  "waits_at s t \<longleftrightarrow> sv_task_id t \<noteq> [] \<and> (\<exists>r. get_stored s (sv_tenant t) (sv_task_id t) = Some r \<and>
     s_owner r = sv_owner t \<and> waits_on_client r)"

definition sup_key :: "supervised_task \<Rightarrow> string \<times> string" where
  "sup_key t = (sv_tenant t, sv_task_id t)"

lemma cancel_page:
  assumes "quiet sv" and "tasks_keyed (sv_store sv)" and "distinct (map sup_key ts)"
    and "\<forall>t \<in> set ts. waits_at (sv_store sv) t"
  shows "\<exists>sv'. cancel_idle_page uuid wr reason ts sv = (length ts, 0, sv') \<and> swept wr (sup_key ` set ts) sv sv'"
  using assms
proof (induction ts arbitrary: sv)
  case Nil
  then show ?case by (simp add: swept_refl)
next
  case (Cons t ts)
  obtain r where r: "get_stored (sv_store sv) (sv_tenant t) (sv_task_id t) = Some r" "s_owner r = sv_owner t"
      "waits_on_client r" "sv_task_id t \<noteq> []"
    using Cons.prems(4) by (auto simp: waits_at_def)
  obtain sv1 where sv1: "cancel_idle_task uuid wr reason t sv = (IdleCanceled, sv1)" "swept wr {sup_key t} sv sv1"
    using cancel_one [OF Cons.prems(1,2) r, of uuid wr reason] by (auto simp: sup_key_def)
  have "waits_at (sv_store sv1) u" if "u \<in> set ts" for u
  proof -
    have "sup_key u \<noteq> sup_key t" using Cons.prems(3) that by (auto simp: image_iff)
    then have "get_stored (sv_store sv1) (sv_tenant u) (sv_task_id u) = get_stored (sv_store sv) (sv_tenant u) (sv_task_id u)"
      using sv1(2) by (simp add: swept_def sup_key_def)
    with Cons.prems(4) that show ?thesis by (simp add: waits_at_def)
  qed
  with Cons.IH [of sv1] Cons.prems(3) sv1(2) obtain sv2 where
    sv2: "cancel_idle_page uuid wr reason ts sv1 = (length ts, 0, sv2)" "swept wr (sup_key ` set ts) sv1 sv2"
    by (auto simp: swept_def)
  have "swept wr ({sup_key t} \<union> sup_key ` set ts) sv sv2"
    using Cons.prems(3) by (intro swept_trans [OF sv1(2) sv2(2)]) auto
  with sv1(1) sv2(1) show ?case by simp
qed

section \<open>The sweep\<close>

definition waiting :: "store \<Rightarrow> (string \<times> string) set" where
  "waiting s = {k. \<exists>r. get_stored s (fst k) (snd k) = Some r \<and> waits_on_client r}"

definition named :: "store \<Rightarrow> bool" where
  "named s \<longleftrightarrow> (\<forall>tn i. get_stored s tn i \<noteq> None \<longrightarrow> i \<noteq> [])"

lemma finite_waiting: "finite (waiting s)"
proof (rule finite_subset)
  show "waiting s \<subseteq> fst ` set (tasks s)"
    by (force simp: waiting_def get_stored_def dest: hm_get_in_set)
qed simp

lemma waits_idle: "idle_client_held c b r \<Longrightarrow> waits_on_client r"
  by (auto simp: idle_client_held_def waits_on_client_def split: option.splits)

lemma page_rows:
  assumes "tasks_keyed s" and "named s"
    and "page = map supervised_of (take n (filter (idle_client_held c b) (hm_values (tasks s))))"
  shows "distinct (map sup_key page)" "\<forall>t \<in> set page. waits_at s t"
    "\<forall>k \<in> sup_key ` set page. \<exists>r. get_stored s (fst k) (snd k) = Some r \<and> idle_client_held c b r"
    "length page < n \<Longrightarrow> get_stored s tn i = Some r \<Longrightarrow> idle_client_held c b r \<Longrightarrow> (tn, i) \<in> sup_key ` set page"
proof -
  let ?k = "\<lambda>r. (s_tenant r, tk_id (s_task r))"
  have key: "sup_key (supervised_of r) = ?k r" for r by (simp add: sup_key_def supervised_of_def)
  have row: "r \<in> set (hm_values (tasks s)) \<Longrightarrow> get_stored s (s_tenant r) (tk_id (s_task r)) = Some r" for r
    using assms(1) by (force simp: hm_values_def tasks_keyed_def hm_wf_def get_stored_def hm_get_def)
  have "map ?k (hm_values (tasks s)) = map fst (tasks s)"
    using assms(1) by (auto simp: hm_values_def tasks_keyed_def)
  then have "distinct (map ?k (hm_values (tasks s)))" using assms(1) by (simp add: tasks_keyed_def hm_wf_def)
  then have "distinct (map ?k (take n (filter (idle_client_held c b) (hm_values (tasks s)))))"
    by (simp add: distinct_map_filter flip: take_map)
  then show "distinct (map sup_key page)" by (simp add: assms(3) key comp_def)
  have mem: "\<exists>r \<in> set (hm_values (tasks s)). t = supervised_of r \<and> idle_client_held c b r" if "t \<in> set page" for t
    using that by (auto simp: assms(3) dest!: in_set_takeD)
  show "\<forall>t \<in> set page. waits_at s t"
  proof
    fix t assume "t \<in> set page"
    from mem [OF this] obtain r where r: "r \<in> set (hm_values (tasks s))" "t = supervised_of r" "idle_client_held c b r" by blast
    with row [OF r(1)] assms(2) waits_idle [OF r(3)] show "waits_at s t"
      by (auto simp: waits_at_def supervised_of_def named_def)
  qed
  show "\<forall>k \<in> sup_key ` set page. \<exists>r. get_stored s (fst k) (snd k) = Some r \<and> idle_client_held c b r"
  proof
    fix k assume "k \<in> sup_key ` set page"
    then obtain t where "t \<in> set page" "k = sup_key t" by blast
    with mem [OF this(1)] row show "\<exists>r. get_stored s (fst k) (snd k) = Some r \<and> idle_client_held c b r"
      by (auto simp: key)
  qed
  assume "length page < n" "get_stored s tn i = Some r" "idle_client_held c b r"
  then have "page = map supervised_of (filter (idle_client_held c b) (hm_values (tasks s)))"
    by (simp add: assms(3))
  moreover have "r \<in> set (hm_values (tasks s))" "?k r = (tn, i)"
    using \<open>get_stored s tn i = Some r\<close> assms(1)
    by (force simp: get_stored_def hm_values_def dest: hm_get_in_set, simp add: tasks_keyed_get)
  ultimately show "(tn, i) \<in> sup_key ` set page" using \<open>idle_client_held c b r\<close> by (force simp: key)
qed

lemma swept_waiting:
  assumes "swept wr ks sv sv'" and "ks \<subseteq> waiting (sv_store sv)"
  shows "waiting (sv_store sv') = waiting (sv_store sv) - ks"
proof -
  have "k \<in> waiting (sv_store sv') \<longleftrightarrow> k \<in> waiting (sv_store sv) \<and> k \<notin> ks" for k
  proof (cases "k \<in> ks")
    case True
    with assms(1) have "row_canceled (sv_store sv') k" by (simp add: swept_def)
    with True show ?thesis by (auto simp: row_canceled_def waiting_def waits_on_client_def CLIENT_HELD_STATES_def)
  next
    case False
    with assms(1) show ?thesis by (cases k) (simp add: swept_def waiting_def)
  qed
  then show ?thesis by auto
qed

lemma swept_named:
  assumes "swept wr ks sv sv'" and "ks \<subseteq> waiting (sv_store sv)" and "named (sv_store sv)"
  shows "named (sv_store sv')"
proof -
  have "get_stored (sv_store sv) tn i \<noteq> None" if "get_stored (sv_store sv') tn i \<noteq> None" for tn i
  proof (cases "(tn, i) \<in> ks")
    case True
    with assms(2) show ?thesis by (auto simp: waiting_def)
  next
    case False
    with assms(1) that show ?thesis by (simp add: swept_def)
  qed
  with assms(3) show ?thesis unfolding named_def by blast
qed

definition was_idle :: "chrono \<Rightarrow> nat \<Rightarrow> server \<Rightarrow> string \<times> string \<Rightarrow> bool" where
  "was_idle c idle_for sv k \<longleftrightarrow> (\<exists>r n. get_stored (sv_store sv) (fst k) (snd k) = Some r \<and>
     idle_client_held c (idle_before (sv_now sv n) idle_for) r)"

lemma sweep_loop:
  assumes "quiet sv" and "tasks_keyed (sv_store sv)" and "named (sv_store sv)" and "clock_monotone sv"
    and "card (waiting (sv_store sv)) < fuel"
  shows "\<exists>ks sv'. cancel_idle_loop fuel c uuid wr reason idle_for sweep sv =
      Some (Inr \<lparr>is_canceled = is_canceled sweep + card ks, is_errors = is_errors sweep\<rparr>, sv') \<and>
    swept wr ks sv sv' \<and> finite ks \<and> (\<forall>k \<in> ks. was_idle c idle_for sv k) \<and>
    (\<exists>now' \<ge> now_of sv. \<forall>tn i r. get_stored (sv_store sv') tn i = Some r \<longrightarrow>
       \<not> idle_client_held c (idle_before now' idle_for) r)"
  using assms
proof (induction fuel arbitrary: sweep sv)
  case (Suc fuel)
  let ?b = "idle_before (now_of sv) idle_for"
  define page where "page = map supervised_of (take IDLE_PAGE (filter (idle_client_held c ?b) (hm_values (tasks (sv_store sv)))))"
  let ?sv1 = "sv\<lparr>sv_tick := Suc (sv_tick sv)\<rparr>" and ?ks = "sup_key ` set page"
  have rd: "store_read (supervisor_list_idle_client_held_tasks c ?b IDLE_PAGE) sv = (Inr page, ?sv1)"
  proof -
    have "no_faults sv" "store_seen sv = sv_store sv" using Suc.prems(1) by (simp_all add: quiet_def store_seen_def)
    then show ?thesis
      by (simp add: read_no_faults supervisor_list_idle_client_held_tasks_def page_def)
  qed
  note rows = page_rows [OF Suc.prems(2,3) page_def]
  have q1: "quiet ?sv1" using Suc.prems(1) by (simp add: quiet_def no_faults_def)
  have s1: "swept wr {} sv ?sv1"
    using Suc.prems(2) q1 by (simp add: swept_def)
  obtain sv2 where pg: "cancel_idle_page uuid wr reason page ?sv1 = (length page, 0, sv2)" "swept wr ?ks ?sv1 sv2"
    using cancel_page [OF q1, of page uuid wr reason] Suc.prems(2) rows(1,2) by auto
  have s2: "swept wr ?ks sv sv2" using swept_trans [OF s1 pg(2)] by simp
  have idle: "was_idle c idle_for sv k" if "k \<in> ?ks" for k
    using bspec [OF rows(3) that] unfolding was_idle_def now_of_def by blast
  have sub: "?ks \<subseteq> waiting (sv_store sv)"
  proof
    fix k assume "k \<in> ?ks"
    with rows(3) obtain r where "get_stored (sv_store sv) (fst k) (snd k) = Some r" "idle_client_held c ?b r" by blast
    with waits_idle show "k \<in> waiting (sv_store sv)" by (auto simp: waiting_def)
  qed
  have card: "card ?ks = length page" using rows(1) distinct_card by fastforce
  show ?case
  proof (cases "length page < IDLE_PAGE")
    case True
    have "\<not> idle_client_held c ?b r" if "get_stored (sv_store sv2) tn i = Some r" for tn i r
    proof (cases "(tn, i) \<in> ?ks")
      case True
      then have "row_canceled (sv_store sv2) (tn, i)" using s2 unfolding swept_def by blast
      with that have "task_state_of (s_task r) = Some Canceled" by (simp add: row_canceled_def)
      then show ?thesis by (simp add: idle_client_held_def CLIENT_HELD_STATES_def)
    next
      case False
      with s2 that have "get_stored (sv_store sv) tn i = Some r" by (simp add: swept_def)
      with rows(4) [OF True] False show ?thesis by blast
    qed
    then have "\<exists>now' \<ge> now_of sv. \<forall>tn i r. get_stored (sv_store sv2) tn i = Some r \<longrightarrow>
       \<not> idle_client_held c (idle_before now' idle_for) r" by blast
    with True s2 idle card show ?thesis
      by (intro exI [of _ ?ks] exI [of _ sv2]) (simp add: rd pg(1) Let_def del: cancel_idle_page.simps)
  next
    case False
    then have pos: "0 < length page" "length page \<noteq> 0" by (auto simp: IDLE_PAGE_def)
    let ?sweep = "\<lparr>is_canceled = is_canceled sweep + length page, is_errors = is_errors sweep\<rparr>"
    have w2: "waiting (sv_store sv2) = waiting (sv_store sv) - ?ks" by (rule swept_waiting [OF s2 sub])
    then have "card (waiting (sv_store sv2)) = card (waiting (sv_store sv)) - length page"
      using card_Diff_subset [of ?ks "waiting (sv_store sv)"] sub card by simp
    moreover have "length page \<le> card (waiting (sv_store sv))"
      using card_mono [OF finite_waiting sub] card by simp
    ultimately have less: "card (waiting (sv_store sv2)) < fuel" using Suc.prems(5) pos(1) by linarith
    have cl: "clock_monotone sv2" "now_of sv \<le> now_of sv2"
      using s2 Suc.prems(4) by (auto simp: swept_def clock_monotone_def now_of_def mono_def)
    from s2 have "quiet sv2" "tasks_keyed (sv_store sv2)" by (simp_all add: swept_def)
    from Suc.IH [OF this swept_named [OF s2 sub Suc.prems(3)] cl(1) less, of ?sweep] obtain ks sv3 where
      l: "cancel_idle_loop fuel c uuid wr reason idle_for ?sweep sv2 =
        Some (Inr \<lparr>is_canceled = is_canceled sweep + length page + card ks, is_errors = is_errors sweep\<rparr>, sv3)"
      and s3: "swept wr ks sv2 sv3" "finite ks" "\<forall>k \<in> ks. was_idle c idle_for sv2 k"
      and fin: "\<exists>now' \<ge> now_of sv2. \<forall>tn i r. get_stored (sv_store sv3) tn i = Some r \<longrightarrow>
       \<not> idle_client_held c (idle_before now' idle_for) r" by auto
    have out: "k \<notin> ?ks \<and> was_idle c idle_for sv k" if "k \<in> ks" for k
    proof -
      from s3(3) that obtain r n where r: "get_stored (sv_store sv2) (fst k) (snd k) = Some r"
        "idle_client_held c (idle_before (sv_now sv2 n) idle_for) r" by (auto simp: was_idle_def)
      then have "k \<in> waiting (sv_store sv2)" using waits_idle by (auto simp: waiting_def)
      then have ne: "k \<notin> ?ks" using w2 by blast
      with r s2 show ?thesis by (cases k) (auto simp: swept_def was_idle_def)
    qed
    then have disj: "?ks \<inter> ks = {}" by auto
    have "card (?ks \<union> ks) = length page + card ks" using disj s3(2) card by (simp add: card_Un_disjoint)
    moreover have "cancel_idle_loop (Suc fuel) c uuid wr reason idle_for sweep sv =
        cancel_idle_loop fuel c uuid wr reason idle_for ?sweep sv2"
      using False pos by (simp add: rd pg(1) Let_def del: cancel_idle_page.simps)
    moreover have "\<exists>now' \<ge> now_of sv. \<forall>tn i r. get_stored (sv_store sv3) tn i = Some r \<longrightarrow>
       \<not> idle_client_held c (idle_before now' idle_for) r" using fin cl(2) by (meson order_trans)
    ultimately show ?thesis
      using l swept_trans [OF s2 s3(1) disj] s3(2) idle out
      by (intro exI [of _ "?ks \<union> ks"] exI [of _ sv3]) (auto simp: add.assoc simp del: cancel_idle_loop.simps)
  qed
qed simp

section \<open>One pass of the cancel poller\<close>

text \<open>
  One pass of the cross-instance cancel poller: it trips exactly the registered executors whose
  stored task carries a cancel marker and is not terminal, and touches nothing else.
\<close>

definition marked_live :: "store \<Rightarrow> in_flight_key \<Rightarrow> bool" where
  "marked_live s k \<longleftrightarrow> (\<exists>r. get_stored s (fst k) (snd k) = Some r \<and> s_cancel_requested r \<and> \<not> row_terminal r)"

text \<open>Which handles a piece of the pass trips, by key.\<close>

definition tripped :: "in_flight_key set \<Rightarrow> server \<Rightarrow> server \<Rightarrow> bool" where
  "tripped ks sv sv' \<longleftrightarrow> sv_store sv' = sv_store sv \<and> sv_registry sv' = sv_registry sv \<and> quiet sv' \<and>
     (\<forall>h. ih_cancelled (sv_handles sv' h) \<longleftrightarrow> ih_cancelled (sv_handles sv h) \<or> (\<exists>k \<in> ks. registry_get k sv = Some h))"

lemma tripped_refl: "quiet sv \<Longrightarrow> tripped {} sv sv"
  by (simp add: tripped_def)

lemma tripped_trans:
  assumes "tripped ks sv sv1" and "tripped ks' sv1 sv2"
  shows "tripped (ks \<union> ks') sv sv2"
proof -
  have "registry_get k sv1 = registry_get k sv" for k using assms(1) by (simp add: tripped_def registry_get_def)
  with assms show ?thesis by (auto simp: tripped_def)
qed

lemma trip_handle_tripped:
  assumes "quiet sv"
  shows "tripped {(tn, i)} sv (trip_handle d tn i sv)"
  using assms
  by (auto simp: tripped_def trip_handle_def quiet_def no_faults_def cancel_then_abort_after_def upd_handle_def Let_def
      split: option.splits)

lemma trip_fold:
  assumes "quiet sv"
  shows "tripped (Pair tn ` set is) sv (fold (trip_handle d tn) is sv)"
  using assms
proof (induction "is" arbitrary: sv)
  case (Cons i "is")
  have t: "tripped {(tn, i)} sv (trip_handle d tn i sv)" by (rule trip_handle_tripped [OF Cons.prems])
  then have "quiet (trip_handle d tn i sv)" by (simp add: tripped_def)
  from tripped_trans [OF t Cons.IH [OF this]] show ?case by simp
qed (simp add: tripped_refl)

lemma poll_group_tripped:
  assumes "quiet sv"
  shows "tripped {k \<in> Pair tn ` set is. marked_live (sv_store sv) k} sv (poll_group d (tn, is) sv)"
proof -
  let ?sv1 = "sv\<lparr>sv_tick := Suc (sv_tick sv)\<rparr>"
  have "no_faults sv" "store_seen sv = sv_store sv" using assms by (simp_all add: quiet_def store_seen_def)
  then have rd: "store_read (supervisor_list_cancel_requested tn is) sv = (supervisor_list_cancel_requested tn is (sv_store sv), ?sv1)"
    by (simp add: read_no_faults)
  have q: "quiet ?sv1" using assms by (simp add: quiet_def no_faults_def)
  then have "tripped {} sv ?sv1" by (simp add: tripped_def)
  from tripped_trans [OF this trip_fold [OF q]]
  have t: "tripped (Pair tn ` set js) sv (fold (trip_handle d tn) js ?sv1)" for js by simp
  have "{k \<in> Pair tn ` set is. marked_live (sv_store sv) k} = Pair tn ` set (filter (\<lambda>i. marked_live (sv_store sv) (tn, i)) is)"
    by auto
  moreover have "(case get_stored (sv_store sv) tn i of None \<Rightarrow> False
      | Some r \<Rightarrow> s_cancel_requested r \<and> \<not> row_terminal r) = marked_live (sv_store sv) (tn, i)" for i
    by (simp add: marked_live_def split: option.splits)
  ultimately show ?thesis
    using t [of "filter (\<lambda>i. marked_live (sv_store sv) (tn, i)) is"]
    by (simp add: poll_group_def rd supervisor_list_cancel_requested_def)
qed

lemma poll_fold:
  assumes "quiet sv"
  shows "tripped {(tn, i) |tn i is. (tn, is) \<in> set gs \<and> i \<in> set is \<and> marked_live (sv_store sv) (tn, i)} sv
    (fold (poll_group d) gs sv)"
  using assms
proof (induction gs arbitrary: sv)
  case (Cons g gs)
  obtain tn "is" where g: "g = (tn, is)" by (cases g)
  let ?A = "{k \<in> Pair tn ` set is. marked_live (sv_store sv) k}"
  have t: "tripped ?A sv (poll_group d g sv)" unfolding g by (rule poll_group_tripped [OF Cons.prems])
  then have q: "quiet (poll_group d g sv)" and s: "sv_store (poll_group d g sv) = sv_store sv" by (simp_all add: tripped_def)
  have "?A \<union> {(tn, i) |tn i is. (tn, is) \<in> set gs \<and> i \<in> set is \<and> marked_live (sv_store sv) (tn, i)} =
      {(tn, i) |tn i is. (tn, is) \<in> set (g # gs) \<and> i \<in> set is \<and> marked_live (sv_store sv) (tn, i)}"
    by (auto simp: g)
  with tripped_trans [OF t Cons.IH [OF q]] s show ?case by simp
qed (simp add: tripped_refl)

section \<open>The groups are the registry\<close>

definition grouped :: "in_flight_key \<Rightarrow> (string, string list) hashmap \<Rightarrow> bool" where
  "grouped k out \<longleftrightarrow> (\<exists>is. hm_get out (fst k) = Some is \<and> snd k \<in> set is)"

lemma group_step:
  "grouped k (hm_insert tn ((case hm_get out tn of Some is \<Rightarrow> is | None \<Rightarrow> []) @ [i]) out) \<longleftrightarrow> grouped k out \<or> k = (tn, i)"
  by (cases k; cases "hm_get out tn") (auto simp: grouped_def hm_simps)

lemma group_fold:
  assumes "hm_wf out"
  shows "hm_wf (fold (\<lambda>((tenant, task_id), _) out.
      hm_insert tenant ((case hm_get out tenant of Some is \<Rightarrow> is | None \<Rightarrow> []) @ [task_id]) out) es out) \<and>
    (grouped k (fold (\<lambda>((tenant, task_id), _) out.
      hm_insert tenant ((case hm_get out tenant of Some is \<Rightarrow> is | None \<Rightarrow> []) @ [task_id]) out) es out) \<longleftrightarrow>
     grouped k out \<or> k \<in> fst ` set es)"
  using assms
proof (induction es arbitrary: out)
  case (Cons e es)
  obtain tn i h where e: "e = ((tn, i), h)" by (cases e) auto
  let ?o = "hm_insert tn ((case hm_get out tn of Some is \<Rightarrow> is | None \<Rightarrow> []) @ [i]) out"
  have "hm_wf ?o" using Cons.prems by (simp add: hm_simps)
  from Cons.IH [OF this] group_step [of k tn out i] show ?case by (auto simp: e)
qed simp

lemma snapshot_groups:
  "(\<exists>is. (tn, is) \<in> set (hm_entries (snapshot_by_tenant sv)) \<and> i \<in> set is) \<longleftrightarrow> (tn, i) \<in> fst ` set (sv_registry sv)"
proof -
  have "hm_wf ([] :: (string, string list) hashmap)" by simp
  note g = group_fold [OF this, of "sv_registry sv" "(tn, i)"]
  have wf: "hm_wf (snapshot_by_tenant sv)" using g by (simp add: snapshot_by_tenant_def)
  have "grouped (tn, i) (snapshot_by_tenant sv) \<longleftrightarrow> (tn, i) \<in> fst ` set (sv_registry sv)"
    using g by (simp add: snapshot_by_tenant_def grouped_def hm_get_def)
  then show ?thesis using hm.entries_get [OF wf] by (auto simp: grouped_def)
qed

theorem poll_trips_marked:
  assumes "quiet sv"
  shows "sv_store (poll_once d sv) = sv_store sv \<and> sv_registry (poll_once d sv) = sv_registry sv \<and>
    (\<forall>h. ih_cancelled (sv_handles (poll_once d sv) h) \<longleftrightarrow> ih_cancelled (sv_handles sv h) \<or>
       (\<exists>k. registry_get k sv = Some h \<and> marked_live (sv_store sv) k))"
proof -
  let ?K = "{(tn, i) |tn i is. (tn, is) \<in> set (hm_entries (snapshot_by_tenant sv)) \<and> i \<in> set is \<and> marked_live (sv_store sv) (tn, i)}"
  have t: "tripped ?K sv (poll_once d sv)" unfolding poll_once_def by (rule poll_fold [OF assms])
  have K: "?K = {k \<in> fst ` set (sv_registry sv). marked_live (sv_store sv) k}"
  proof (intro set_eqI)
    fix k :: in_flight_key
    obtain tn i where k: "k = (tn, i)" by (cases k)
    show "k \<in> ?K \<longleftrightarrow> k \<in> {k \<in> fst ` set (sv_registry sv). marked_live (sv_store sv) k}"
      using snapshot_groups [of tn sv i] by (auto simp: k)
  qed
  have "registry_get k sv = Some h \<Longrightarrow> k \<in> fst ` set (sv_registry sv)" for k h
    by (force simp: registry_get_def dest: hm_get_in_set)
  with t [unfolded K] show ?thesis unfolding tripped_def by blast
qed

end
