(* ===== verification/Transport.thy ===== *)
theory Transport
  imports Handlers
begin

text \<open>
  \<open>middleware/transport.rs\<close> and \<open>profile_dispatch.rs\<close>: what is checked about a request before it
  is authenticated, how a JSON response is labelled, and the negotiation of profile extensions.

  A header map is a list of fields with lower-case names, in the order they arrived; a text is a
  list of bytes. Whether the \<open>compat-v03\<close> feature is compiled in is the argument \<open>v03\<close>.
\<close>

section \<open>Header values\<close>

type_synonym headers = "(string \<times> string) list"

definition header_get :: "string \<Rightarrow> headers \<Rightarrow> string option" where
  "header_get n hs = map_of hs (map ascii_lower n)"

definition header_get_all :: "string \<Rightarrow> headers \<Rightarrow> string list" where
  "header_get_all n hs = map snd (filter (\<lambda>(m, _). m = map ascii_lower n) hs)"

definition header_insert :: "string \<Rightarrow> string \<Rightarrow> headers \<Rightarrow> headers" where
  "header_insert n v hs = filter (\<lambda>(m, _). m \<noteq> map ascii_lower n) hs @ [(map ascii_lower n, v)]"

definition header_append :: "string \<Rightarrow> string \<Rightarrow> headers \<Rightarrow> headers" where
  "header_append n v hs = hs @ [(map ascii_lower n, v)]"

definition byte :: "char \<Rightarrow> nat" where
  "byte c = of_char c"

text \<open>\<open>HeaderValue::to_str\<close>: visible ASCII, spaces and tabs only.\<close>

definition to_str :: "string \<Rightarrow> string option" where
  "to_str v = (if list_all (\<lambda>c. 32 \<le> byte c \<and> byte c < 127 \<or> byte c = 9) v then Some v else None)"

definition eq_ignore_ascii_case :: "string \<Rightarrow> string \<Rightarrow> bool" where
  "eq_ignore_ascii_case a b \<longleftrightarrow> map ascii_lower a = map ascii_lower b"

definition ascii_digit :: "char \<Rightarrow> bool" where
  "ascii_digit c \<longleftrightarrow> 48 \<le> byte c \<and> byte c \<le> 57"

text \<open>\<open>str::split_once\<close> at the first character of a set.\<close>

fun split_once_by :: "(char \<Rightarrow> bool) \<Rightarrow> string \<Rightarrow> (string \<times> string) option" where
  "split_once_by p [] = None"
| "split_once_by p (x # xs) =
     (if p x then Some ([], xs) else map_option (\<lambda>(a, b). (x # a, b)) (split_once_by p xs))"

definition first_segment :: "char \<Rightarrow> string \<Rightarrow> string" where
  "first_segment c s = hd (split_on c s)"

section \<open>Versions\<close>

text \<open>\<open>Iterator::next\<close> on the parts of a version, then the rest of them.\<close>

definition part_at :: "nat \<Rightarrow> string list \<Rightarrow> string option" where
  "part_at n ps = (if n < length ps then Some (ps ! n) else None)"

definition same_major_minor :: "string \<Rightarrow> string \<Rightarrow> bool" where
  "same_major_minor requested target =
     (let ours = split_on (CHR ''.'') target; theirs = split_on (CHR ''.'') (trim requested)
      in part_at 0 ours = part_at 0 theirs \<and> part_at 1 ours = part_at 1 theirs \<and>
         list_all (\<lambda>patch. patch \<noteq> [] \<and> list_all ascii_digit patch) (drop 2 theirs))"

definition VERSION :: string where
  "VERSION = ''1.0''"

definition LEGACY_VERSION :: string where
  "LEGACY_VERSION = ''0.3''"

definition version_supported :: "string \<Rightarrow> bool" where
  "version_supported requested = same_major_minor requested VERSION"

definition is_legacy_version :: "string \<Rightarrow> bool" where
  "is_legacy_version requested = same_major_minor requested LEGACY_VERSION"

definition check_version :: "string option \<Rightarrow> bool \<Rightarrow> a2a_error + unit" where
  "check_version requested serves_v03 =
     (case Option.bind (map_option trim requested) (\<lambda>v. if v = [] then None else Some v) of
        Some v \<Rightarrow> if version_supported v then Inr ()
          else if serves_v03 \<and> is_legacy_version v then Inr ()
          else Inl (VersionNotSupported v)
      | None \<Rightarrow> if serves_v03 then Inr ()
          else Inl (VersionNotSupported ''0.3 (A2A-Version absent or empty)''))"

section \<open>Requests and responses\<close>

record http_request =
  rq_method :: string
  rq_path :: string
  rq_query :: "string option"
  rq_headers :: headers
  rq_body :: string

text \<open>
  A streamed body is the opened stream and how its items are framed: as JSON-RPC responses to a
  request id, or as they are.
\<close>

datatype 's body = JsonBody json | SseBody "json option" 's | TextBody string | NoBody

record 's http_response =
  rp_status :: nat
  rp_headers :: headers
  rp_body :: "'s body"

definition json_response :: "nat \<Rightarrow> json \<Rightarrow> 's http_response" where
  "json_response status j = \<lparr>rp_status = status,
     rp_headers = [(''content-type'', ''application/json'')], rp_body = JsonBody j\<rparr>"

definition into_response :: "a2a_error \<Rightarrow> 's http_response" where
  "into_response e = json_response (http_status e) (to_http_error_body e)"

definition VERSION_PARAM :: string where
  "VERSION_PARAM = ''A2A-Version''"

definition requested_version :: "http_request \<Rightarrow> string option" where
  "requested_version req = (case header_get VERSION_PARAM (rq_headers req) of
       Some v \<Rightarrow> Some (unwrap_or [] (to_str v))
     | None \<Rightarrow> Option.bind (rq_query req) (\<lambda>q.
         Option.bind (find (\<lambda>pair. eq_ignore_ascii_case (fst (unwrap_or (pair, []) (split_once (CHR ''='') pair))) VERSION_PARAM)
             (split_on (CHR ''&'') q))
           (\<lambda>pair. Some (snd (unwrap_or (pair, []) (split_once (CHR ''='') pair))))))"

section \<open>Media types\<close>

definition MEDIA_TYPE_JSON :: string where
  "MEDIA_TYPE_JSON = ''application/json''"

definition MEDIA_TYPE_A2A_JSON :: string where
  "MEDIA_TYPE_A2A_JSON = ''application/a2a+json''"

definition essence :: "string \<Rightarrow> string" where
  "essence v = trim (first_segment (CHR '';'') v)"

definition is_accepted_json_media_type :: "string \<Rightarrow> bool" where
  "is_accepted_json_media_type content_type \<longleftrightarrow>
     eq_ignore_ascii_case (essence content_type) MEDIA_TYPE_JSON \<or>
     eq_ignore_ascii_case (essence content_type) MEDIA_TYPE_A2A_JSON"

text \<open>
  \<open>q.parse::<f32>() == Ok(0.0)\<close>: a decimal number, with digits on one side of its point at least,
  whose value rounds to zero: at most half of the smallest subnormal, \<open>2 ^ -149\<close>.
\<close>

definition digits_value :: "string \<Rightarrow> nat" where
  "digits_value ds = foldl (\<lambda>n c. 10 * n + (byte c - 48)) 0 ds"

definition drop_sign :: "string \<Rightarrow> bool \<times> string" where
  "drop_sign s = (case s of
       c # r \<Rightarrow> if c = CHR ''-'' then (True, r) else if c = CHR ''+'' then (False, r) else (False, s)
     | [] \<Rightarrow> (False, s))"

definition exponent_of :: "string \<Rightarrow> int option" where
  "exponent_of s = (case s of [] \<Rightarrow> Some 0
     | c # r \<Rightarrow> (let (neg, ds) = drop_sign r
         in if ascii_lower c = CHR ''e'' \<and> ds \<noteq> [] \<and> list_all ascii_digit ds
            then Some (if neg then - int (digits_value ds) else int (digits_value ds)) else None))"

definition parses_to_zero :: "string \<Rightarrow> bool" where
  "parses_to_zero s =
     (let t = snd (drop_sign s);
          whole = takeWhile ascii_digit t; r = dropWhile ascii_digit t;
          (frac, rest) = (case r of c # r' \<Rightarrow>
             if c = CHR ''.'' then (takeWhile ascii_digit r', dropWhile ascii_digit r') else ([], r)
             | [] \<Rightarrow> ([], r));
          m = digits_value (whole @ frac)
      in whole @ frac \<noteq> [] \<and>
         (case exponent_of rest of None \<Rightarrow> False
          | Some e \<Rightarrow> m = 0 \<or> (let d = int (length frac) - e in 0 \<le> d \<and> m * 2 ^ 150 \<le> 10 ^ nat d)))"

definition refuses :: "string \<Rightarrow> bool" where
  "refuses rng = list_ex (\<lambda>param. case split_once (CHR ''='') param of
       Some (key, q) \<Rightarrow> eq_ignore_ascii_case (trim key) ''q'' \<and> parses_to_zero (trim q)
     | None \<Rightarrow> False) (drop 1 (split_on (CHR '';'') rng))"

definition accept_ranges :: "headers \<Rightarrow> (string \<times> bool) list" where
  "accept_ranges hs = map (\<lambda>r. (essence r, refuses r))
     (filter (\<lambda>r. trim r \<noteq> [])
       (concat (map (split_on (CHR '','')) (List.map_filter to_str (header_get_all ''accept'' hs)))))"

definition accepts_a2a_json :: "http_request \<Rightarrow> bool" where
  "accepts_a2a_json req =
     (let is_a2a = (\<lambda>media_type. eq_ignore_ascii_case media_type MEDIA_TYPE_A2A_JSON);
          request_is_a2a = (case Option.bind (header_get ''content-type'' (rq_headers req)) to_str of
              Some v \<Rightarrow> is_a2a (essence v) | None \<Rightarrow> False);
          ranges = accept_ranges (rq_headers req)
      in if ranges = [] then request_is_a2a
         else if list_ex (\<lambda>(media_type, refused). refused \<and> is_a2a media_type) ranges then False
         else list_ex (\<lambda>(media_type, refused). \<not> refused \<and>
             (is_a2a media_type \<or> request_is_a2a \<and>
               (media_type = ''*/*'' \<or> eq_ignore_ascii_case media_type ''application/*''))) ranges)"

definition label_json_response :: "'s http_response \<Rightarrow> bool \<Rightarrow> string \<Rightarrow> 's http_response" where
  "label_json_response response a2a_json vary =
     (let is_json = (case Option.bind (header_get ''content-type'' (rp_headers response)) to_str of
          Some v \<Rightarrow> eq_ignore_ascii_case (essence v) MEDIA_TYPE_JSON | None \<Rightarrow> False)
      in if is_json then
           let hs = header_append ''vary'' vary (rp_headers response)
           in response\<lparr>rp_headers := (if a2a_json then header_insert ''content-type'' MEDIA_TYPE_A2A_JSON hs else hs)\<rparr>
         else response)"

section \<open>The layer\<close>

definition is_bypass_path :: "string \<Rightarrow> bool" where
  "is_bypass_path path \<longleftrightarrow> path \<in> {''/.well-known/agent-card.json''}"

definition JSONRPC_PATH :: string where
  "JSONRPC_PATH = ''/jsonrpc''"

definition is_jsonrpc_path :: "bool \<Rightarrow> string \<Rightarrow> bool" where
  "is_jsonrpc_path v03 path \<longleftrightarrow> path = JSONRPC_PATH \<or> v03 \<and> path = ''/''"

definition is_legacy_request :: "bool \<Rightarrow> http_request \<Rightarrow> bool" where
  "is_legacy_request v03 req \<longleftrightarrow> v03 \<and>
     (case requested_version req of None \<Rightarrow> True | Some v \<Rightarrow> trim v = [] \<or> is_legacy_version v)"

definition check_request :: "bool \<Rightarrow> http_request \<Rightarrow> a2a_error + unit" where
  "check_request v03 req =
     (case (if is_bypass_path (rq_path req) then Inr () else check_version (requested_version req) v03) of
        Inl e \<Rightarrow> Inl e
      | Inr _ \<Rightarrow>
          (case header_get ''content-type'' (rq_headers req) of
             Some v \<Rightarrow> if rq_method req = ''POST'' \<and> \<not> is_accepted_json_media_type (unwrap_or [] (to_str v))
               then Inl (ContentTypeNotSupported (unwrap_or [] (to_str v))) else Inr ()
           | None \<Rightarrow> Inr ()))"

text \<open>The service below the layer acts on a state; a refused request leaves it alone.\<close>

definition transport_call ::
  "bool \<Rightarrow> (http_request \<Rightarrow> 'c \<Rightarrow> ('s http_response \<times> 'c) option) \<Rightarrow> http_request \<Rightarrow> 'c \<Rightarrow>
     ('s http_response \<times> 'c) option" where
  "transport_call v03 service req c =
     (let path = rq_path req; jsonrpc = is_jsonrpc_path v03 path; discovery = is_bypass_path path;
          a2a_json = ((discovery \<or> \<not> is_legacy_request v03 req) \<and> accepts_a2a_json req);
          vary = (if v03 \<and> \<not> discovery then ''Accept, A2A-Version'' else ''Accept'');
          labelled = (\<lambda>r. if jsonrpc then r else label_json_response r a2a_json vary)
      in case check_request v03 req of
           Inl e \<Rightarrow> Some (labelled (if jsonrpc then json_response 200 (to_jsonrpc_error e None) else into_response e), c)
         | Inr _ \<Rightarrow> map_option (map_prod labelled id) (service req c))"

section \<open>Profile extensions\<close>

definition EXTENSIONS_PARAM :: string where
  "EXTENSIONS_PARAM = ''a2a-extensions''"

definition SKILL_INVOCATION_PROFILE_V1 :: string where
  "SKILL_INVOCATION_PROFILE_V1 = ''https://turul.dev/a2a/extensions/skill-invocation/v1''"

definition SKILL_ID_METADATA_KEY :: string where
  "SKILL_ID_METADATA_KEY = ''a2a.skillId''"

text \<open>A set of URIs is a list without repetitions.\<close>

definition parse_a2a_extensions :: "string option \<Rightarrow> string list" where
  "parse_a2a_extensions header_value = (case header_value of
       None \<Rightarrow> []
     | Some raw \<Rightarrow> remdups (filter (\<lambda>s. s \<noteq> []) (map trim (split_on (CHR '','') raw))))"

definition activated_from_headers :: "headers \<Rightarrow> string list" where
  "activated_from_headers hs = parse_a2a_extensions (Option.bind (header_get EXTENSIONS_PARAM hs) to_str)"

definition validate_activation :: "string list \<Rightarrow> agent_extension list \<Rightarrow> a2a_error + string list" where
  "validate_activation activated advertised =
     (case find (\<lambda>ext. ext_required ext \<and> ext_uri ext \<notin> set activated) advertised of
        Some ext \<Rightarrow> Inl (ExtensionSupportRequired (ext_uri ext))
      | None \<Rightarrow> Inr (filter (\<lambda>uri. uri \<in> ext_uri ` set advertised) activated))"

definition negotiate_profile_extensions :: "agent_card \<Rightarrow> headers \<Rightarrow> a2a_error + string list" where
  "negotiate_profile_extensions ac hs =
     validate_activation (activated_from_headers hs)
       (case card_capabilities ac of Some c \<Rightarrow> cap_extensions c | None \<Rightarrow> [])"

fun join_with :: "string \<Rightarrow> string list \<Rightarrow> string" where
  "join_with sep [] = []"
| "join_with sep [x] = x"
| "join_with sep (x # xs) = x @ sep @ join_with sep xs"

definition response_header_value :: "string list \<Rightarrow> string option" where
  "response_header_value activated =
     (if activated = [] then None else Some (join_with '', '' (sort activated)))"

text \<open>\<open>HeaderValue::from_str\<close> refuses control characters but tabs.\<close>

definition attach_extension_echo :: "string list \<Rightarrow> 's http_response \<Rightarrow> 's http_response" where
  "attach_extension_echo echoed response = (case response_header_value echoed of
       Some v \<Rightarrow> if list_all (\<lambda>c. 32 \<le> byte c \<and> byte c \<noteq> 127 \<or> byte c = 9) v
         then response\<lparr>rp_headers := header_insert EXTENSIONS_PARAM v (rp_headers response)\<rparr> else response
     | None \<Rightarrow> response)"

definition quoted :: "string \<Rightarrow> string" where
  "quoted s = [CHR 0x27] @ s @ [CHR 0x27]"

definition double_quoted :: "string \<Rightarrow> string" where
  "double_quoted s = [CHR 0x22] @ s @ [CHR 0x22]"

definition skill_id_error :: "string \<Rightarrow> a2a_error" where
  "skill_id_error what = InvalidRequest (''Message.metadata['' @ double_quoted SKILL_ID_METADATA_KEY @ ''] '' @ what @
     '' when extension '' @ quoted SKILL_INVOCATION_PROFILE_V1 @ '' is activated'')"

definition check_skill_invocation_request :: "string list \<Rightarrow> json \<Rightarrow> a2a_error + unit" where
  "check_skill_invocation_request negotiated request =
     (if SKILL_INVOCATION_PROFILE_V1 \<notin> set negotiated then Inr ()
      else case json_get ''message'' request of
          None \<Rightarrow> Inr ()
        | Some message \<Rightarrow>
            (case Option.bind (json_get ''metadata'' message) (json_get SKILL_ID_METADATA_KEY) of
               Some (JString _) \<Rightarrow> Inr ()
             | Some _ \<Rightarrow> Inl (skill_id_error ''must be a string'')
             | None \<Rightarrow> Inl (skill_id_error ''is required'')))"

definition check_skill_invocation_body ::
  "(string \<Rightarrow> json option) \<Rightarrow> string list \<Rightarrow> string \<Rightarrow> a2a_error + unit" where
  "check_skill_invocation_body from_str negotiated text =
     (if SKILL_INVOCATION_PROFILE_V1 \<notin> set negotiated then Inr ()
      else case from_str text of
          Some request \<Rightarrow> check_skill_invocation_request negotiated request
        | None \<Rightarrow> Inr ())"

end
