(* ===== verification/Auth.thy ===== *)
theory Auth
  imports Transport
begin

text \<open>
  Authentication: \<open>middleware/context.rs\<close>, \<open>error.rs\<close>, \<open>bearer.rs\<close>, \<open>stack.rs\<close>, \<open>layer.rs\<close>,
  \<open>traits.rs\<close> and the middlewares of \<open>turul-a2a-auth\<close>. A middleware is a function on the request
  context; the JWT validator and the key lookup are arguments.
\<close>

section \<open>The request context\<close>

datatype auth_identity = Anonymous | Authenticated string "json option"

fun identity_owner :: "auth_identity \<Rightarrow> string" where
  "identity_owner Anonymous = ''anonymous''"
| "identity_owner (Authenticated ow claims) = ow"

fun identity_claims :: "auth_identity \<Rightarrow> json option" where
  "identity_claims Anonymous = None"
| "identity_claims (Authenticated ow claims) = claims"

fun is_authenticated :: "auth_identity \<Rightarrow> bool" where
  "is_authenticated Anonymous = False"
| "is_authenticated (Authenticated ow claims) = True"

record request_context =
  rx_bearer_token :: "string option"
  rx_headers :: headers
  rx_identity :: auth_identity
  rx_extensions :: "string \<rightharpoonup> json"

definition ascii_whitespace :: "char \<Rightarrow> bool" where
  "ascii_whitespace c \<longleftrightarrow> byte c \<in> {9, 10, 12, 13, 32}"

definition ascii_control :: "char \<Rightarrow> bool" where
  "ascii_control c \<longleftrightarrow> byte c < 32 \<or> byte c = 127"

definition extract_bearer_token :: "string \<Rightarrow> string option" where
  "extract_bearer_token auth_header =
     (case split_once_by (\<lambda>c. byte c = 32 \<or> byte c = 9) (trim auth_header) of
        None \<Rightarrow> None
      | Some (scheme, rest) \<Rightarrow>
          if \<not> eq_ignore_ascii_case scheme ''bearer'' then None
          else let token = trim rest
               in if token = [] then None
                  else if list_ex ascii_whitespace token then None
                  else if list_ex ascii_control token then None
                  else Some token)"

definition context_from_headers :: "headers \<Rightarrow> request_context" where
  "context_from_headers hs = \<lparr>
     rx_bearer_token = Option.bind (Option.bind (header_get ''authorization'' hs) to_str) extract_bearer_token,
     rx_headers = hs, rx_identity = Anonymous, rx_extensions = Map.empty\<rparr>"

section \<open>Failures\<close>

datatype auth_failure_kind =
    MissingCredential | InvalidToken | InvalidApiKey | EmptyPrincipal | InsufficientScope

datatype middleware_error =
    Unauthenticated auth_failure_kind
  | HttpChallenge auth_failure_kind
  | Forbidden auth_failure_kind
  | MiddlewareInternal string

fun kind_reason :: "auth_failure_kind \<Rightarrow> string" where
  "kind_reason MissingCredential = ''MISSING_CREDENTIAL''"
| "kind_reason InvalidToken = ''INVALID_TOKEN''"
| "kind_reason InvalidApiKey = ''INVALID_API_KEY''"
| "kind_reason EmptyPrincipal = ''EMPTY_PRINCIPAL''"
| "kind_reason InsufficientScope = ''INSUFFICIENT_SCOPE''"

fun bearer_rfc6750_code :: "auth_failure_kind \<Rightarrow> string option" where
  "bearer_rfc6750_code InvalidToken = Some ''invalid_token''"
| "bearer_rfc6750_code EmptyPrincipal = Some ''invalid_token''"
| "bearer_rfc6750_code InsufficientScope = Some ''insufficient_scope''"
| "bearer_rfc6750_code MissingCredential = None"
| "bearer_rfc6750_code InvalidApiKey = None"

definition bearer_challenge :: "auth_failure_kind \<Rightarrow> string option" where
  "bearer_challenge k = (case k of
       MissingCredential \<Rightarrow> Some (''Bearer realm='' @ double_quoted ''a2a'')
     | other \<Rightarrow> map_option (\<lambda>code. ''Bearer realm='' @ double_quoted ''a2a'' @ '', error='' @ double_quoted code)
         (bearer_rfc6750_code other))"

fun precedence :: "middleware_error \<Rightarrow> nat" where
  "precedence (Forbidden _) = 3"
| "precedence (HttpChallenge _) = 2"
| "precedence (Unauthenticated _) = 1"
| "precedence (MiddlewareInternal _) = 0"

fun middleware_status :: "middleware_error \<Rightarrow> nat" where
  "middleware_status (HttpChallenge InsufficientScope) = 403"
| "middleware_status (Unauthenticated _) = 401"
| "middleware_status (HttpChallenge _) = 401"
| "middleware_status (Forbidden _) = 403"
| "middleware_status (MiddlewareInternal _) = 500"

fun failure_kind :: "middleware_error \<Rightarrow> auth_failure_kind option" where
  "failure_kind (Unauthenticated k) = Some k"
| "failure_kind (HttpChallenge k) = Some k"
| "failure_kind (Forbidden k) = Some k"
| "failure_kind (MiddlewareInternal _) = None"

definition middleware_reason :: "middleware_error \<Rightarrow> string" where
  "middleware_reason e = (case failure_kind e of Some k \<Rightarrow> kind_reason k | None \<Rightarrow> ''INTERNAL_ERROR'')"

definition middleware_message :: "middleware_error \<Rightarrow> string" where
  "middleware_message e = (case failure_kind e of
       Some MissingCredential \<Rightarrow> ''authentication credentials are required''
     | Some InvalidToken \<Rightarrow> ''the bearer token is invalid''
     | Some InvalidApiKey \<Rightarrow> ''the API key is invalid''
     | Some EmptyPrincipal \<Rightarrow> ''the credential does not identify a principal''
     | Some InsufficientScope \<Rightarrow> ''the credential lacks a required scope''
     | None \<Rightarrow> ''authentication failed due to an internal error'')"

definition status_name :: "middleware_error \<Rightarrow> string" where
  "status_name e = (if middleware_status e = 401 then ''UNAUTHENTICATED''
     else if middleware_status e = 403 then ''PERMISSION_DENIED'' else ''INTERNAL'')"

definition AUTH_ERROR_DOMAIN :: string where
  "AUTH_ERROR_DOMAIN = ''turul-a2a''"

definition middleware_error_info :: "middleware_error \<Rightarrow> json" where
  "middleware_error_info e = json_of_error_info (error_info_new (middleware_reason e) AUTH_ERROR_DOMAIN)"

definition middleware_http_body :: "middleware_error \<Rightarrow> json" where
  "middleware_http_body e = JObject [(''error'', JObject
     [(''code'', JInt (int (middleware_status e))), (''status'', JString (status_name e)),
      (''message'', JString (middleware_message e)), (''details'', JArray [middleware_error_info e])])]"

definition middleware_jsonrpc_body :: "middleware_error \<Rightarrow> json" where
  "middleware_jsonrpc_body e = JObject
     [(''jsonrpc'', JString ''2.0''), (''id'', JNull),
      (''error'', JObject
        [(''code'', JInt (if middleware_status e = 401 then -32040
            else if middleware_status e = 403 then -32041 else -32603)),
         (''message'', JString (middleware_message e)), (''data'', JArray [middleware_error_info e])])]"

section \<open>Stacks\<close>

type_synonym middleware = "request_context \<Rightarrow> (middleware_error + unit) \<times> request_context"

fun before_request :: "middleware list \<Rightarrow> middleware" where
  "before_request [] ctx = (Inr (), ctx)"
| "before_request (mw # mws) ctx = (case mw ctx of
     (Inl e, ctx) \<Rightarrow> (Inl e, ctx) | (Inr _, ctx) \<Rightarrow> before_request mws ctx)"

text \<open>
  Every child works on a copy of the context. The failures so far are kept in order, and the
  most important one is reported, the first of equals.
\<close>

definition champion :: "middleware_error \<Rightarrow> middleware_error \<Rightarrow> middleware_error" where
  "champion c challenger = (if precedence c < precedence challenger then challenger else c)"

fun any_of_from :: "middleware_error list \<Rightarrow> middleware list \<Rightarrow> middleware" where
  "any_of_from errors [] ctx = (Inl (foldl champion (hd errors) (tl errors)), ctx)"
| "any_of_from errors (child # children) ctx = (case child ctx of
     (Inr _, attempt) \<Rightarrow>
       (Inr (), ctx\<lparr>rx_identity := rx_identity attempt, rx_extensions := rx_extensions attempt\<rparr>)
   | (Inl (MiddlewareInternal m), _) \<Rightarrow> (Inl (MiddlewareInternal m), ctx)
   | (Inl e, _) \<Rightarrow> any_of_from (errors @ [e]) children ctx)"

text \<open>\<open>AnyOfMiddleware::new\<close> panics without children.\<close>

definition any_of :: "middleware list \<Rightarrow> middleware option" where
  "any_of children = (if children = [] then None else Some (any_of_from [] children))"

section \<open>Bearer tokens and API keys\<close>

record jwt_claims =
  jc_sub :: string
  jc_scope :: "string option"
  jc_extra :: "string \<rightharpoonup> json"

definition enforce_required_scopes :: "string list \<Rightarrow> string option \<Rightarrow> middleware_error + unit" where
  "enforce_required_scopes required claims_scope =
     (if required = [] then Inr ()
      else let present = set (split_on (CHR '' '') (unwrap_or [] claims_scope))
           in if list_all (\<lambda>s. s \<in> present) required then Inr ()
              else Inl (HttpChallenge InsufficientScope))"

definition principal_of :: "string \<Rightarrow> jwt_claims \<Rightarrow> string" where
  "principal_of principal_claim claims =
     (if principal_claim = ''sub'' then jc_sub claims
      else case jc_extra claims principal_claim of Some (JString s) \<Rightarrow> s | _ \<Rightarrow> [])"

definition bearer_before_request ::
  "(string \<Rightarrow> 'e + jwt_claims) \<Rightarrow> (jwt_claims \<Rightarrow> json option) \<Rightarrow> string \<Rightarrow> string list \<Rightarrow> middleware" where
  "bearer_before_request validate to_value principal_claim required_scopes ctx =
     (case rx_bearer_token ctx of
        None \<Rightarrow> (Inl (HttpChallenge MissingCredential), ctx)
      | Some token \<Rightarrow> (case validate token of
          Inl _ \<Rightarrow> (Inl (HttpChallenge InvalidToken), ctx)
        | Inr claims \<Rightarrow>
            (let ow = principal_of principal_claim claims
             in if trim ow = [] then (Inl (Unauthenticated EmptyPrincipal), ctx)
                else case enforce_required_scopes required_scopes (jc_scope claims) of
                    Inl e \<Rightarrow> (Inl e, ctx)
                  | Inr _ \<Rightarrow> (Inr (), ctx\<lparr>rx_identity := Authenticated ow (to_value claims)\<rparr>))))"

definition api_key_before_request :: "(string \<Rightarrow> string option) \<Rightarrow> string \<Rightarrow> middleware" where
  "api_key_before_request lookup header_name ctx =
     (case Option.bind (header_get header_name (rx_headers ctx)) to_str of
        None \<Rightarrow> (Inl (Unauthenticated MissingCredential), ctx)
      | Some key \<Rightarrow> if key = [] then (Inl (Unauthenticated MissingCredential), ctx)
          else (case lookup key of
              None \<Rightarrow> (Inl (Unauthenticated InvalidApiKey), ctx)
            | Some ow \<Rightarrow> if trim ow = [] then (Inl (Unauthenticated EmptyPrincipal), ctx)
                else (Inr (), ctx\<lparr>rx_identity := Authenticated ow None\<rparr>)))"

section \<open>What a middleware adds to the card\<close>

datatype security_scheme =
    ApiKeyScheme string string string
  | HttpAuthScheme string string string

record security_contribution =
  sec_schemes :: "(string \<times> security_scheme) list"
  sec_requirements :: "(string \<times> string list) list list"

definition contribution_new :: security_contribution where
  "contribution_new = \<lparr>sec_schemes = [], sec_requirements = []\<rparr>"

definition with_scheme ::
  "string \<Rightarrow> security_scheme \<Rightarrow> string list \<Rightarrow> security_contribution \<Rightarrow> security_contribution" where
  "with_scheme name scheme scopes c = c\<lparr>sec_schemes := sec_schemes c @ [(name, scheme)],
     sec_requirements := sec_requirements c @ [[(name, scopes)]]\<rparr>"

definition bearer_contribution :: "string list \<Rightarrow> security_contribution" where
  "bearer_contribution required_scopes =
     with_scheme ''bearer'' (HttpAuthScheme [] ''Bearer'' ''JWT'') required_scopes contribution_new"

definition api_key_contribution :: "string \<Rightarrow> security_contribution" where
  "api_key_contribution header_name =
     with_scheme ''apiKey'' (ApiKeyScheme [] ''header'' header_name) [] contribution_new"

definition any_of_contribution :: "security_contribution list \<Rightarrow> security_contribution" where
  "any_of_contribution children =
     \<lparr>sec_schemes = concat (map sec_schemes children), sec_requirements = concat (map sec_requirements children)\<rparr>"

section \<open>The layer\<close>

definition middleware_error_to_response :: "bool \<Rightarrow> middleware_error \<Rightarrow> string \<Rightarrow> 's http_response" where
  "middleware_error_to_response v03 e path =
     (let response = json_response (middleware_status e)
            (if is_jsonrpc_path v03 path then middleware_jsonrpc_body e else middleware_http_body e)
      in case e of
           HttpChallenge k \<Rightarrow> (case bearer_challenge k of
               Some challenge \<Rightarrow> response\<lparr>rp_headers := rp_headers response @ [(''www-authenticate'', challenge)]\<rparr>
             | None \<Rightarrow> response)
         | _ \<Rightarrow> response)"

definition auth_call ::
  "bool \<Rightarrow> middleware list \<Rightarrow> (request_context \<Rightarrow> http_request \<Rightarrow> 'c \<Rightarrow> ('s http_response \<times> 'c) option) \<Rightarrow>
     http_request \<Rightarrow> 'c \<Rightarrow> ('s http_response \<times> 'c) option" where
  "auth_call v03 stack service req c =
     (if is_bypass_path (rq_path req) \<or> stack = []
      then service (context_from_headers (rq_headers req)) req c
      else case before_request stack (context_from_headers (rq_headers req)) of
          (Inr _, ctx) \<Rightarrow> service ctx req c
        | (Inl e, _) \<Rightarrow> Some (middleware_error_to_response v03 e (rq_path req), c))"

section \<open>What is logged of a context\<close>

definition is_allowlisted_header :: "string \<Rightarrow> bool" where
  "is_allowlisted_header name \<longleftrightarrow> map ascii_lower name \<in>
     {''content-type'', ''content-length'', ''accept'', ''user-agent'', ''host''}"

text \<open>The \<open>Debug\<close> fields of a context: the token, the headers, the identity and the extension keys.\<close>

definition debug_headers :: "headers \<Rightarrow> (string \<times> string) list" where
  "debug_headers hs = map (\<lambda>(n, v). (n, if is_allowlisted_header n then unwrap_or ''<non-utf8>'' (to_str v)
     else ''<redacted>'')) hs"

definition debug_identity :: "auth_identity \<Rightarrow> string \<times> string" where
  "debug_identity x = (case x of Anonymous \<Rightarrow> (''Anonymous'', [])
     | Authenticated ow claims \<Rightarrow> (ow, if claims = None then ''<none>'' else ''<redacted>''))"

definition debug_context :: "request_context \<Rightarrow> string option \<times> (string \<times> string) list \<times> (string \<times> string)" where
  "debug_context ctx = (map_option (\<lambda>_. ''<redacted>'') (rx_bearer_token ctx), debug_headers (rx_headers ctx),
     debug_identity (rx_identity ctx))"

text \<open>Contexts that differ only in secrets are logged alike.\<close>

lemma debug_context_hides_secrets:
  assumes "map fst (rx_headers c) = map fst (rx_headers c')"
    and "\<forall>i < length (rx_headers c). is_allowlisted_header (fst (rx_headers c ! i)) \<longrightarrow> rx_headers c ! i = rx_headers c' ! i"
    and "(rx_bearer_token c = None) = (rx_bearer_token c' = None)"
    and "identity_owner (rx_identity c) = identity_owner (rx_identity c')"
    and "is_authenticated (rx_identity c) = is_authenticated (rx_identity c')"
    and "(identity_claims (rx_identity c) = None) = (identity_claims (rx_identity c') = None)"
  shows "debug_context c = debug_context c'"
proof -
  have "debug_headers (rx_headers c) = debug_headers (rx_headers c')"
  proof (rule nth_equalityI)
    show "length (debug_headers (rx_headers c)) = length (debug_headers (rx_headers c'))"
      using arg_cong [OF assms(1), of length] by (simp add: debug_headers_def)
    fix i assume i: "i < length (debug_headers (rx_headers c))"
    then have "i < length (rx_headers c)" "i < length (rx_headers c')"
      using arg_cong [OF assms(1), of length] by (simp_all add: debug_headers_def)
    moreover have "fst (rx_headers c ! i) = fst (rx_headers c' ! i)"
      using arg_cong [OF assms(1), of "\<lambda>l. l ! i"] calculation by simp
    ultimately show "debug_headers (rx_headers c) ! i = debug_headers (rx_headers c') ! i"
      using assms(2) by (cases "rx_headers c ! i"; cases "rx_headers c' ! i") (auto simp: debug_headers_def)
  qed
  moreover have "debug_identity (rx_identity c) = debug_identity (rx_identity c')"
    using assms(4-6) by (cases "rx_identity c"; cases "rx_identity c'") (auto simp: debug_identity_def)
  ultimately show ?thesis
    using assms(3) by (cases "rx_bearer_token c"; cases "rx_bearer_token c'") (auto simp: debug_context_def)
qed

end
