(* ===== verification/Compat_V03.thy ===== *)
theory Compat_V03
  imports Transport
begin

text \<open>
  \<open>compat_v03.rs\<close>: how a request in the 0.3 wire format is recognised and rewritten to 1.0, and how
  its response is rewritten back.
\<close>

section \<open>Detection\<close>

datatype compat_mode = V10 | V03

definition detect_compat_mode :: "string \<Rightarrow> headers \<Rightarrow> compat_mode" where
  "detect_compat_mode meth hs =
     (case Option.bind (header_get VERSION_PARAM hs) to_str of
        Some version \<Rightarrow>
          if version_supported version then V10
          else if is_legacy_version version then V03
          else if CHR ''/'' \<in> set meth then V03 else V10
      | None \<Rightarrow> if CHR ''/'' \<in> set meth then V03 else V10)"

section \<open>Method names\<close>

definition SEND_MESSAGE :: string where "SEND_MESSAGE = ''SendMessage''"
definition SEND_STREAMING_MESSAGE :: string where "SEND_STREAMING_MESSAGE = ''SendStreamingMessage''"
definition GET_TASK :: string where "GET_TASK = ''GetTask''"
definition LIST_TASKS :: string where "LIST_TASKS = ''ListTasks''"
definition CANCEL_TASK :: string where "CANCEL_TASK = ''CancelTask''"
definition SUBSCRIBE_TO_TASK :: string where "SUBSCRIBE_TO_TASK = ''SubscribeToTask''"
definition CREATE_TASK_PUSH_NOTIFICATION_CONFIG :: string where
  "CREATE_TASK_PUSH_NOTIFICATION_CONFIG = ''CreateTaskPushNotificationConfig''"
definition GET_TASK_PUSH_NOTIFICATION_CONFIG :: string where
  "GET_TASK_PUSH_NOTIFICATION_CONFIG = ''GetTaskPushNotificationConfig''"
definition LIST_TASK_PUSH_NOTIFICATION_CONFIGS :: string where
  "LIST_TASK_PUSH_NOTIFICATION_CONFIGS = ''ListTaskPushNotificationConfigs''"
definition DELETE_TASK_PUSH_NOTIFICATION_CONFIG :: string where
  "DELETE_TASK_PUSH_NOTIFICATION_CONFIG = ''DeleteTaskPushNotificationConfig''"
definition GET_EXTENDED_AGENT_CARD :: string where "GET_EXTENDED_AGENT_CARD = ''GetExtendedAgentCard''"

definition ALL_METHODS :: "string list" where
  "ALL_METHODS = [SEND_MESSAGE, SEND_STREAMING_MESSAGE, GET_TASK, LIST_TASKS, CANCEL_TASK,
     SUBSCRIBE_TO_TASK, CREATE_TASK_PUSH_NOTIFICATION_CONFIG, GET_TASK_PUSH_NOTIFICATION_CONFIG,
     LIST_TASK_PUSH_NOTIFICATION_CONFIGS, DELETE_TASK_PUSH_NOTIFICATION_CONFIG, GET_EXTENDED_AGENT_CARD]"

lemmas method_names =
  SEND_MESSAGE_def SEND_STREAMING_MESSAGE_def GET_TASK_def LIST_TASKS_def CANCEL_TASK_def
  SUBSCRIBE_TO_TASK_def CREATE_TASK_PUSH_NOTIFICATION_CONFIG_def
  GET_TASK_PUSH_NOTIFICATION_CONFIG_def LIST_TASK_PUSH_NOTIFICATION_CONFIGS_def
  DELETE_TASK_PUSH_NOTIFICATION_CONFIG_def GET_EXTENDED_AGENT_CARD_def

definition v03_methods :: "(string \<times> string) list" where
  "v03_methods = [
     (''message/send'', SEND_MESSAGE),
     (''message/stream'', SEND_STREAMING_MESSAGE),
     (''tasks/get'', GET_TASK),
     (''tasks/list'', LIST_TASKS),
     (''tasks/cancel'', CANCEL_TASK),
     (''tasks/subscribe'', SUBSCRIBE_TO_TASK),
     (''tasks/pushNotificationConfig/set'', CREATE_TASK_PUSH_NOTIFICATION_CONFIG),
     (''tasks/pushNotificationConfig/get'', GET_TASK_PUSH_NOTIFICATION_CONFIG),
     (''tasks/pushNotificationConfig/list'', LIST_TASK_PUSH_NOTIFICATION_CONFIGS),
     (''tasks/pushNotificationConfig/delete'', DELETE_TASK_PUSH_NOTIFICATION_CONFIG)]"

definition normalize_jsonrpc_method :: "string \<Rightarrow> string" where
  "normalize_jsonrpc_method meth = unwrap_or meth (map_of v03_methods meth)"

definition maybe_normalize_method :: "string \<Rightarrow> compat_mode \<Rightarrow> string" where
  "maybe_normalize_method meth mode = (case mode of V10 \<Rightarrow> meth | V03 \<Rightarrow> normalize_jsonrpc_method meth)"

section \<open>Values\<close>

text \<open>
  Every string under the key, at any depth of an object or array, is replaced. (The code replaces a
  field before it descends into it; a string has nothing below it, so the order does not matter.)
\<close>

fun rewrite_string :: "(string \<Rightarrow> string) \<Rightarrow> json \<Rightarrow> json" where
  "rewrite_string f (JString s) = JString (f s)"
| "rewrite_string f v = v"

fun rewrite_field :: "string \<Rightarrow> (string \<Rightarrow> string) \<Rightarrow> json \<Rightarrow> json" where
  "rewrite_field key f (JObject fs) = JObject (map (\<lambda>(k, v).
     (k, if k = key then rewrite_string f (rewrite_field key f v) else rewrite_field key f v)) fs)"
| "rewrite_field key f (JArray vs) = JArray (map (rewrite_field key f) vs)"
| "rewrite_field key f v = v"

definition v10_role :: "string \<Rightarrow> string" where
  "v10_role s = (if s = ''user'' then ''ROLE_USER'' else if s = ''agent'' then ''ROLE_AGENT'' else s)"

definition v03_role :: "string \<Rightarrow> string" where
  "v03_role s = (if s = ''ROLE_USER'' then ''user'' else if s = ''ROLE_AGENT'' then ''agent'' else s)"

definition normalize_roles :: "json \<Rightarrow> json" where
  "normalize_roles = rewrite_field ''role'' v10_role"

definition denormalize_roles :: "json \<Rightarrow> json" where
  "denormalize_roles = rewrite_field ''role'' v03_role"

definition maybe_normalize_params :: "json \<Rightarrow> compat_mode \<Rightarrow> json" where
  "maybe_normalize_params params mode = (if mode = V03 then normalize_roles params else params)"

fun v03_state_name :: "task_state \<Rightarrow> string option" where
  "v03_state_name Submitted = Some ''submitted''"
| "v03_state_name Working = Some ''working''"
| "v03_state_name InputRequired = Some ''input-required''"
| "v03_state_name Completed = Some ''completed''"
| "v03_state_name Canceled = Some ''canceled''"
| "v03_state_name Failed = Some ''failed''"
| "v03_state_name Rejected = Some ''rejected''"
| "v03_state_name AuthRequired = Some ''auth-required''"

definition v03_state :: "string \<Rightarrow> string" where
  "v03_state s = unwrap_or s (Option.bind (from_wire_name s) v03_state_name)"

definition normalize_task_state_enums :: "json \<Rightarrow> json" where
  "normalize_task_state_enums = rewrite_field ''state'' v03_state"

text \<open>Replaces the field of an object that has it.\<close>

fun json_set :: "string \<Rightarrow> json \<Rightarrow> json \<Rightarrow> json" where
  "json_set key v (JObject fs) = JObject (map (\<lambda>(k, w). (k, if k = key then v else w)) fs)"
| "json_set key v j = j"

definition maybe_normalize_response :: "json \<Rightarrow> compat_mode \<Rightarrow> json" where
  "maybe_normalize_response response mode =
     (if mode \<noteq> V03 then response
      else case json_get ''result'' response of
          None \<Rightarrow> response
        | Some result \<Rightarrow> json_set ''result''
            (denormalize_roles (normalize_task_state_enums (unwrap_or result (json_get ''task'' result)))) response)"

section \<open>The agent card\<close>

fun json_array :: "json option \<Rightarrow> json list" where
  "json_array (Some (JArray vs)) = vs"
| "json_array _ = []"

definition json_insert :: "string \<Rightarrow> json \<Rightarrow> (string \<times> json) list \<Rightarrow> (string \<times> json) list" where
  "json_insert k v fs = (if map_of fs k = None then fs @ [(k, v)] else fs)"

definition v03_interface :: "json \<Rightarrow> json" where
  "v03_interface iface = JObject
     ((case json_get ''url'' iface of Some u \<Rightarrow> [(''url'', u)] | None \<Rightarrow> []) @
      (case json_get ''protocolBinding'' iface of Some b \<Rightarrow> [(''transport'', b)] | None \<Rightarrow> []))"

definition inject_agent_card_compat :: "json \<Rightarrow> json" where
  "inject_agent_card_compat ac = (case ac of
       JObject obj \<Rightarrow>
         (let interfaces = json_array (map_of obj ''supportedInterfaces'');
              obj = (case interfaces of
                  [] \<Rightarrow> obj
                | primary # _ \<Rightarrow> json_insert ''additionalInterfaces'' (JArray (map v03_interface interfaces))
                    (case json_get ''url'' primary of Some u \<Rightarrow> json_insert ''url'' u obj | None \<Rightarrow> obj))
          in JObject (json_insert ''protocolVersion'' (JString ''0.3.0'') obj))
     | _ \<Rightarrow> ac)"

end
