(* ===== verification/Json_Rpc.thy ===== *)
theory Json_Rpc
  imports Auth Compat_V03 Handler_Laws
begin

text \<open>
  \<open>jsonrpc.rs\<close> and the conversions of \<open>router.rs\<close> to JSON: the envelope checks of a request, the
  dispatch by method to the operations every binding shares, and the replies.

  The text form of JSON (\<open>serde_json\<close>), the request and response types generated from the
  protocol's schema, and the \<open>turul-rpc\<close> dispatcher that wraps a handler's result in a response
  are fields of \<open>front\<close>; a request context passes through that dispatcher unchanged.
\<close>

section \<open>The front end of a server\<close>

record get_task_request =
  gt_id :: string
  gt_history_length :: "int option"

record list_tasks_request =
  lr_context_id :: string
  lr_status :: int
  lr_page_size :: "int option"
  lr_page_token :: string
  lr_history_length :: "int option"
  lr_include_artifacts :: "bool option"
  lr_status_timestamp_after :: "timestamp option"

record front =
  fr_send :: send_world
  fr_chrono :: chrono
  fr_parse_rfc3339 :: "string \<Rightarrow> int option"
  fr_to_rfc3339 :: "int \<Rightarrow> string"
  fr_from_str :: "string \<Rightarrow> json option"
  fr_to_string :: "json \<Rightarrow> string"
  fr_send_request :: "string \<Rightarrow> string + send_request"
  fr_push_config :: "string \<Rightarrow> string + push_config"
  fr_get_task :: "json \<Rightarrow> string + get_task_request"
  fr_list_tasks :: "json \<Rightarrow> string + list_tasks_request"
  fr_task_json :: "pb_task \<Rightarrow> json"
  fr_event_json :: "stream_event \<Rightarrow> json"
  fr_config_json :: "push_config \<Rightarrow> json"
  fr_card_json :: json
  fr_extended_card :: "json option \<Rightarrow> json option"
  fr_rpc :: "json \<Rightarrow> a2a_error + json \<Rightarrow> json"
  fr_fuel :: nat
  fr_v03 :: bool
  fr_stack :: "middleware list"

section \<open>Results as JSON\<close>

definition task_reply_json :: "front \<Rightarrow> pb_task \<Rightarrow> json" where
  "task_reply_json f t = JObject [(''task'', fr_task_json f t)]"

definition list_page_to_json :: "front \<Rightarrow> task_list_page \<Rightarrow> json" where
  "list_page_to_json f p = JObject
     [(''tasks'', JArray (map (fr_task_json f) (tlp_tasks p))),
      (''nextPageToken'', JString (tlp_next_page_token p)),
      (''pageSize'', JInt (tlp_page_size p)), (''totalSize'', JInt (tlp_total_size p))]"

definition config_page_to_json :: "front \<Rightarrow> push_config_page \<Rightarrow> json" where
  "config_page_to_json f p = JObject
     [(''configs'', JArray (map (fr_config_json f) (pcp_configs p))),
      (''nextPageToken'', JString (pcp_next_page_token p))]"

definition core_get_extended_agent_card :: "front \<Rightarrow> json option \<Rightarrow> a2a_error + json" where
  "core_get_extended_agent_card f claims = (case cap_require (se_card (fr_send f)) ExtendedAgentCard of
       Inl e \<Rightarrow> Inl e
     | Inr _ \<Rightarrow> (case fr_extended_card f claims of
         None \<Rightarrow> Inl ExtendedAgentCardNotConfigured | Some c \<Rightarrow> Inr c))"

text \<open>\<open>ListTasksQuery::from_proto\<close>.\<close>

definition nonempty :: "string \<Rightarrow> string option" where
  "nonempty s = (if s = [] then None else Some s)"

definition list_query_from_proto :: "front \<Rightarrow> list_tasks_request \<Rightarrow> a2a_error + list_tasks_query" where
  "list_query_from_proto f r = (case pb_of_i32 (lr_status r) of
       None \<Rightarrow> Inl (InvalidRequest (''Invalid status value: '' @ show_int (lr_status r)))
     | Some st \<Rightarrow>
         (let query = (\<lambda>after. \<lparr>lq_context_id = nonempty (lr_context_id r),
                lq_status = (if st = PbUnspecified then None else Some (pb_as_str_name st)),
                lq_page_size = lr_page_size r, lq_page_token = nonempty (lr_page_token r),
                lq_history_length = lr_history_length r, lq_include_artifacts = lr_include_artifacts r,
                lq_status_timestamp_after = after\<rparr>)
          in case lr_status_timestamp_after r of
               None \<Rightarrow> Inr (query None)
             | Some ts \<Rightarrow> (case datetime_try_from (fr_chrono f) ts of
                 None \<Rightarrow> Inl (InvalidRequest ''statusTimestampAfter is out of range'')
               | Some tm \<Rightarrow> Inr (query (Some (fr_to_rfc3339 f tm))))))"

section \<open>Params\<close>

fun json_as_str :: "json option \<Rightarrow> string option" where
  "json_as_str (Some (JString s)) = Some s"
| "json_as_str _ = None"

definition json_as_i64 :: "json option \<Rightarrow> int option" where
  "json_as_i64 v = (case v of
       Some (JInt n) \<Rightarrow> if i64_min \<le> n \<and> n \<le> i64_max then Some n else None | _ \<Rightarrow> None)"

definition required_str :: "string \<Rightarrow> json \<Rightarrow> a2a_error + string" where
  "required_str key params = (case json_as_str (json_get key params) of
       Some s \<Rightarrow> Inr s | None \<Rightarrow> Inl (InvalidRequest (''Missing required field: '' @ key)))"

type_synonym rpc_result = "json handled option"

definition answer :: "('a \<Rightarrow> json) \<Rightarrow> 'a handled \<Rightarrow> rpc_result" where
  "answer enc r = Some (map_reply enc r)"

section \<open>The methods\<close>

definition dispatch_send_message ::
  "front \<Rightarrow> string \<Rightarrow> string \<Rightarrow> json option \<Rightarrow> string list \<Rightarrow> json \<Rightarrow> server \<Rightarrow> rpc_result" where
  "dispatch_send_message f tn ow claims activated params sv =
     answer (task_reply_json f)
       (core_send_message (fr_send f) tn ow claims activated (fr_send_request f (fr_to_string f params)) sv)"

definition dispatch_get_task :: "front \<Rightarrow> string \<Rightarrow> string \<Rightarrow> json \<Rightarrow> server \<Rightarrow> rpc_result" where
  "dispatch_get_task f tn ow params sv = answer (fr_task_json f)
     (guard (decode_request (fr_get_task f params) ''Invalid params: '') (\<lambda>r sv.
        if gt_id r = [] then (Inl (InvalidRequest ''Missing required field: id''), sv)
        else core_get_task tn ow (gt_id r) (gt_history_length r) sv) sv)"

definition dispatch_list_tasks :: "front \<Rightarrow> string \<Rightarrow> string \<Rightarrow> json \<Rightarrow> server \<Rightarrow> rpc_result" where
  "dispatch_list_tasks f tn ow params sv = answer (list_page_to_json f)
     (guard (decode_request (fr_list_tasks f params) ''Invalid ListTasks params: '') (\<lambda>r.
      guard (list_query_from_proto f r) (\<lambda>q.
        core_list_tasks (fr_chrono f) (fr_parse_rfc3339 f) tn ow q)) sv)"

definition dispatch_cancel_task :: "front \<Rightarrow> string \<Rightarrow> string \<Rightarrow> json \<Rightarrow> server \<Rightarrow> rpc_result" where
  "dispatch_cancel_task f tn ow params sv = (case required_str ''id'' params of
       Inl e \<Rightarrow> Some (Inl e, sv)
     | Inr i \<Rightarrow> map_option (map_reply (fr_task_json f)) (core_cancel_task (fr_fuel f) tn ow i sv))"

definition dispatch_get_extended_agent_card :: "front \<Rightarrow> json option \<Rightarrow> server \<Rightarrow> rpc_result" where
  "dispatch_get_extended_agent_card f claims sv = Some (core_get_extended_agent_card f claims, sv)"

definition dispatch_create_push_config :: "front \<Rightarrow> string \<Rightarrow> string \<Rightarrow> json \<Rightarrow> server \<Rightarrow> rpc_result" where
  "dispatch_create_push_config f tn ow params sv = answer (fr_config_json f)
     (guard (required_str ''taskId'' params) (\<lambda>i.
        core_create_push_config (se_card (fr_send f)) (se_url_error (fr_send f)) (se_uuid_config (fr_send f))
          (se_gap (fr_send f)) tn ow i (fr_push_config f (fr_to_string f params))) sv)"

definition dispatch_get_push_config :: "front \<Rightarrow> string \<Rightarrow> string \<Rightarrow> json \<Rightarrow> server \<Rightarrow> rpc_result" where
  "dispatch_get_push_config f tn ow params sv = answer (fr_config_json f)
     (guard (required_str ''taskId'' params) (\<lambda>i.
      guard (required_str ''id'' params) (\<lambda>c.
        core_get_push_config (se_card (fr_send f)) tn ow i c)) sv)"

definition dispatch_list_push_configs :: "front \<Rightarrow> string \<Rightarrow> string \<Rightarrow> json \<Rightarrow> server \<Rightarrow> rpc_result" where
  "dispatch_list_push_configs f tn ow params sv = answer (config_page_to_json f)
     (guard (required_str ''taskId'' params) (\<lambda>i.
        core_list_push_configs (se_card (fr_send f)) tn ow i
          (json_as_str (json_get ''pageToken'' params))
          (map_option as_i32 (json_as_i64 (json_get ''pageSize'' params)))) sv)"

definition dispatch_delete_push_config :: "front \<Rightarrow> string \<Rightarrow> string \<Rightarrow> json \<Rightarrow> server \<Rightarrow> rpc_result" where
  "dispatch_delete_push_config f tn ow params sv = answer (\<lambda>_. JObject [])
     (guard (required_str ''taskId'' params) (\<lambda>i.
      guard (required_str ''id'' params) (\<lambda>c.
        core_delete_push_config (se_card (fr_send f)) tn ow i c)) sv)"

definition method_not_found :: a2a_error where
  "method_not_found = InvalidRequest ''Method not found''"

definition rpc_dispatch ::
  "front \<Rightarrow> string \<Rightarrow> string \<Rightarrow> string \<Rightarrow> json option \<Rightarrow> string list \<Rightarrow> json \<Rightarrow> server \<Rightarrow> rpc_result" where
  "rpc_dispatch f meth tn ow claims activated params sv =
     (if meth = SEND_MESSAGE then dispatch_send_message f tn ow claims activated params sv
      else if meth = GET_TASK then dispatch_get_task f tn ow params sv
      else if meth = LIST_TASKS then dispatch_list_tasks f tn ow params sv
      else if meth = CANCEL_TASK then dispatch_cancel_task f tn ow params sv
      else if meth = GET_EXTENDED_AGENT_CARD then dispatch_get_extended_agent_card f claims sv
      else if meth = CREATE_TASK_PUSH_NOTIFICATION_CONFIG then dispatch_create_push_config f tn ow params sv
      else if meth = GET_TASK_PUSH_NOTIFICATION_CONFIG then dispatch_get_push_config f tn ow params sv
      else if meth = LIST_TASK_PUSH_NOTIFICATION_CONFIGS then dispatch_list_push_configs f tn ow params sv
      else if meth = DELETE_TASK_PUSH_NOTIFICATION_CONFIG then dispatch_delete_push_config f tn ow params sv
      else if meth = SEND_STREAMING_MESSAGE \<or> meth = SUBSCRIBE_TO_TASK
      then Some (Inl (Internal ''Streaming methods should not reach dispatch()''), sv)
      else Some (Inl method_not_found, sv))"

section \<open>Replies\<close>

definition jsonrpc_success :: "json \<Rightarrow> json \<Rightarrow> json" where
  "jsonrpc_success i result = JObject [(''jsonrpc'', JString ''2.0''), (''id'', i), (''result'', result)]"

definition jsonrpc_error :: "json \<Rightarrow> int \<Rightarrow> string \<Rightarrow> json option \<Rightarrow> json" where
  "jsonrpc_error i code message data = JObject
     [(''jsonrpc'', JString ''2.0''), (''id'', i),
      (''error'', JObject ([(''code'', JInt code), (''message'', JString message)] @
        (case data of Some d \<Rightarrow> [(''data'', d)] | None \<Rightarrow> [])))]"

type_synonym reply = "opened_stream http_response"
type_synonym answered = "(reply \<times> server) option"

definition ok_json :: "json \<Rightarrow> reply" where
  "ok_json j = json_response 200 j"

definition no_content :: reply where
  "no_content = \<lparr>rp_status = 204, rp_headers = [], rp_body = NoBody\<rparr>"

definition sse_response :: "json option \<Rightarrow> opened_stream \<Rightarrow> reply" where
  "sse_response req_id st = \<lparr>rp_status = 200,
     rp_headers = [(''content-type'', ''text/event-stream''), (''cache-control'', ''no-cache'')],
     rp_body = SseBody req_id st\<rparr>"

text \<open>The \<open>data:\<close> of one item of a stream.\<close>

fun item_json :: "front \<Rightarrow> stream_item \<Rightarrow> json" where
  "item_json f (ItemTask t) = task_reply_json f t"
| "item_json f (ItemEvent e) = fr_event_json f e"

definition http_sse_frame :: "a2a_error + json \<Rightarrow> json" where
  "http_sse_frame item = (case item of Inr j \<Rightarrow> j | Inl e \<Rightarrow> to_http_error_body e)"

definition jsonrpc_sse_frame :: "json \<Rightarrow> a2a_error + json \<Rightarrow> json" where
  "jsonrpc_sse_frame req_id item = (case item of
       Inr result \<Rightarrow> JObject [(''jsonrpc'', JString ''2.0''), (''result'', result), (''id'', req_id)]
     | Inl e \<Rightarrow> to_jsonrpc_error e (Some req_id))"

definition sse_frames :: "front \<Rightarrow> json option \<Rightarrow> stream_items \<Rightarrow> json list" where
  "sse_frames f req_id items =
     map ((case req_id of None \<Rightarrow> http_sse_frame | Some i \<Rightarrow> jsonrpc_sse_frame i) \<circ> map_sum id (item_json f)) items"

section \<open>Streaming methods\<close>

definition dispatch_send_streaming_message ::
  "front \<Rightarrow> string \<Rightarrow> string \<Rightarrow> json option \<Rightarrow> string list \<Rightarrow> json \<Rightarrow> server \<Rightarrow> opened_stream handled" where
  "dispatch_send_streaming_message f tn ow claims activated params =
     open_send_stream (fr_send f) tn ow claims activated (fr_send_request f (fr_to_string f params))"

definition dispatch_subscribe_to_task ::
  "front \<Rightarrow> string \<Rightarrow> string \<Rightarrow> json \<Rightarrow> server \<Rightarrow> opened_stream handled" where
  "dispatch_subscribe_to_task f tn ow params =
     guard (required_str ''id'' params) (\<lambda>i. open_subscribe_stream (se_card (fr_send f)) tn ow i)"

definition dispatch_streaming ::
  "front \<Rightarrow> string \<Rightarrow> string \<Rightarrow> string \<Rightarrow> json option \<Rightarrow> string list \<Rightarrow> json \<Rightarrow> server \<Rightarrow> opened_stream handled" where
  "dispatch_streaming f meth tn ow claims activated params sv =
     (if meth = SEND_STREAMING_MESSAGE then dispatch_send_streaming_message f tn ow claims activated params sv
      else if meth = SUBSCRIBE_TO_TASK then dispatch_subscribe_to_task f tn ow params sv
      else (Inl (Internal ''Unknown streaming method''), sv))"

section \<open>A request\<close>

definition rpc_mode :: "front \<Rightarrow> string \<Rightarrow> headers \<Rightarrow> compat_mode" where
  "rpc_mode f raw_method hs = (if fr_v03 f then detect_compat_mode raw_method hs else V10)"

definition request_params :: "json \<Rightarrow> json option" where
  "request_params value = (case json_get ''params'' value of
       None \<Rightarrow> Some (JObject []) | Some JNull \<Rightarrow> Some (JObject []) | Some (JObject fs) \<Rightarrow> Some (JObject fs)
     | Some _ \<Rightarrow> None)"

text \<open>An id \<open>turul-rpc\<close> can carry.\<close>

definition representable_id :: "json \<Rightarrow> bool" where
  "representable_id i = (case i of JString s \<Rightarrow> True | JInt n \<Rightarrow> i64_min \<le> n \<and> n \<le> i64_max | _ \<Rightarrow> False)"

definition known_non_streaming :: "string \<Rightarrow> bool" where
  "known_non_streaming meth \<longleftrightarrow> meth \<in> {SEND_MESSAGE, GET_TASK, LIST_TASKS, CANCEL_TASK, GET_EXTENDED_AGENT_CARD,
     CREATE_TASK_PUSH_NOTIFICATION_CONFIG, GET_TASK_PUSH_NOTIFICATION_CONFIG,
     LIST_TASK_PUSH_NOTIFICATION_CONFIGS, DELETE_TASK_PUSH_NOTIFICATION_CONFIG}"

definition rpc_response :: "front \<Rightarrow> string \<Rightarrow> json \<Rightarrow> compat_mode \<Rightarrow> a2a_error + json \<Rightarrow> json" where
  "rpc_response f meth i mode r =
     (if representable_id i \<and> known_non_streaming meth then maybe_normalize_response (fr_rpc f i r) mode
      else case r of
          Inr value \<Rightarrow> maybe_normalize_response (jsonrpc_success i value) mode
        | Inl e \<Rightarrow> if e = InvalidRequest ''Method not found'' then jsonrpc_error i (-32601) ''Method not found'' None
            else to_jsonrpc_error e (Some i))"

text \<open>From step 4 on; the id of a notification is \<open>None\<close>.\<close>

definition rpc_call ::
  "front \<Rightarrow> string \<Rightarrow> json option \<Rightarrow> headers \<Rightarrow> string list \<Rightarrow> json \<Rightarrow> string \<Rightarrow> json option \<Rightarrow> server \<Rightarrow> answered" where
  "rpc_call f ow claims hs negotiated value raw_method req_id sv =
     (let mode = rpc_mode f raw_method hs;
          meth = maybe_normalize_method raw_method mode;
          say = (\<lambda>j. case req_id of None \<Rightarrow> no_content | Some _ \<Rightarrow> ok_json j);
          i = unwrap_or JNull req_id
      in case request_params value of
           None \<Rightarrow> Some (say (jsonrpc_error i (-32602) ''Invalid params: params must be an object'' None), sv)
         | Some params \<Rightarrow>
             (let params = maybe_normalize_params params mode;
                  tn = unwrap_or [] (json_as_str (json_get ''tenant'' params))
              in case (if meth = SEND_MESSAGE \<or> meth = SEND_STREAMING_MESSAGE
                       then check_skill_invocation_request negotiated params else Inr ()) of
                   Inl e \<Rightarrow> Some (say (to_jsonrpc_error e (Some i)), sv)
                 | Inr _ \<Rightarrow>
                     if meth = SEND_STREAMING_MESSAGE \<or> meth = SUBSCRIBE_TO_TASK
                     then (if req_id = None then Some (no_content, sv)
                           else case dispatch_streaming f meth tn ow claims negotiated params sv of
                               (Inr st, sv) \<Rightarrow> Some (sse_response (Some i) st, sv)
                             | (Inl e, sv) \<Rightarrow> Some (ok_json (to_jsonrpc_error e (Some i)), sv))
                     else map_option (\<lambda>(r, sv). (say (rpc_response f meth i mode r), sv))
                       (rpc_dispatch f meth tn ow claims negotiated params sv)))"

definition jsonrpc_dispatch_inner ::
  "front \<Rightarrow> request_context \<Rightarrow> headers \<Rightarrow> string \<Rightarrow> string list \<Rightarrow> server \<Rightarrow> answered" where
  "jsonrpc_dispatch_inner f ctx hs text negotiated sv =
     (case fr_from_str f text of
        None \<Rightarrow> Some (ok_json (jsonrpc_error JNull (-32700) ''Parse error'' None), sv)
      | Some value \<Rightarrow>
          (let i = unwrap_or JNull (json_get ''id'' value)
           in if json_as_str (json_get ''jsonrpc'' value) \<noteq> Some ''2.0''
              then Some (ok_json (jsonrpc_error i (-32600) ''Invalid Request: missing or wrong jsonrpc version'' None), sv)
              else case json_as_str (json_get ''method'' value) of
                  None \<Rightarrow> Some (ok_json (jsonrpc_error i (-32600) ''Invalid Request: missing method'' None), sv)
                | Some raw_method \<Rightarrow>
                    if json_get ''id'' value = Some JNull
                    then Some (ok_json (jsonrpc_error JNull (-32600) ''Invalid Request: id must be a string or number'' None), sv)
                    else rpc_call f (identity_owner (rx_identity ctx)) (identity_claims (rx_identity ctx)) hs negotiated
                      value raw_method (json_get ''id'' value) sv))"

definition jsonrpc_dispatch_handler ::
  "front \<Rightarrow> request_context \<Rightarrow> http_request \<Rightarrow> server \<Rightarrow> answered" where
  "jsonrpc_dispatch_handler f ctx req sv =
     (case negotiate_profile_extensions (se_card (fr_send f)) (rq_headers req) of
        Inl e \<Rightarrow> Some (attach_extension_echo [] (ok_json (to_jsonrpc_error e None)), sv)
      | Inr echoed \<Rightarrow> map_option (\<lambda>(r, sv). (attach_extension_echo echoed r, sv))
          (jsonrpc_dispatch_inner f ctx (rq_headers req) (rq_body req) echoed sv))"

end
