(* ===== verification/Http_Router.thy ===== *)
theory Http_Router
  imports Json_Rpc
begin

text \<open>
  The HTTP service of \<open>router.rs\<close>: its routes, the handlers behind them and the layers around
  them. Routes are matched the way axum matches them: literal segments before \<open>{tenant}\<close>, a
  parameter and \<open>{*rest}\<close> never empty. The query string parser (a value or the text of a 400) and
  the percent-decoding of path parameters are arguments.
\<close>

section \<open>Routes\<close>

datatype route =
    AgentCardRoute
  | JsonRpcRoute
  | ExtendedCardRoute
  | SendRoute "string option"
  | SendStreamRoute "string option"
  | ListRoute "string option"
  | TaskRoute "string option" string

text \<open>The routes below a prefix, \<open>tn\<close> the tenant in it.\<close>

definition task_routes :: "string option \<Rightarrow> string \<Rightarrow> route option" where
  "task_routes tn path =
     (if path = ''/extendedAgentCard'' then Some ExtendedCardRoute
      else if path = ''/message:send'' then Some (SendRoute tn)
      else if path = ''/message:stream'' then Some (SendStreamRoute tn)
      else if path = ''/tasks'' then Some (ListRoute tn)
      else case strip_prefix ''/tasks/'' path of
          Some rest \<Rightarrow> if rest = [] then None else Some (TaskRoute tn rest)
        | None \<Rightarrow> None)"

definition tenant_routes :: "string \<Rightarrow> route option" where
  "tenant_routes path = (case strip_prefix ''/'' path of
       None \<Rightarrow> None
     | Some p \<Rightarrow> (let tn = first_segment (CHR ''/'') p
         in if tn = [] then None else task_routes (Some tn) (drop (length tn) p)))"

definition route_of :: "bool \<Rightarrow> string \<Rightarrow> route option" where
  "route_of v03 path =
     (if path = ''/.well-known/agent-card.json'' then Some AgentCardRoute
      else if is_jsonrpc_path v03 path then Some JsonRpcRoute
      else case task_routes None path of Some r \<Rightarrow> Some r | None \<Rightarrow> tenant_routes path)"

section \<open>What axum extracts\<close>

record extractors =
  ex_decode :: "string \<Rightarrow> string option"
  ex_task_query :: "string option \<Rightarrow> string + task_get_query"
  ex_list_query :: "string option \<Rightarrow> string + list_tasks_query"

definition rejection :: "nat \<Rightarrow> string \<Rightarrow> reply" where
  "rejection status text = \<lparr>rp_status = status,
     rp_headers = [(''content-type'', ''text/plain; charset=utf-8'')], rp_body = TextBody text\<rparr>"

definition bad_path :: reply where
  "bad_path = rejection 400 ''Invalid URL: Invalid UTF-8 in path''"

definition DEFAULT_TENANT :: string where
  "DEFAULT_TENANT = []"

definition route_tenant :: "extractors \<Rightarrow> string option \<Rightarrow> string option" where
  "route_tenant ex tn = (case tn of None \<Rightarrow> Some DEFAULT_TENANT | Some t \<Rightarrow> ex_decode ex t)"

section \<open>Handlers\<close>

definition handler_reply :: "'a handled \<Rightarrow> ('a \<Rightarrow> reply) \<Rightarrow> answered" where
  "handler_reply r k = Some (case r of (Inl e, sv) \<Rightarrow> (into_response e, sv) | (Inr x, sv) \<Rightarrow> (k x, sv))"

definition response_reply :: "front \<Rightarrow> response \<Rightarrow> reply" where
  "response_reply f r = (case r of
       TaskResponse t \<Rightarrow> ok_json (fr_task_json f t)
     | StreamResponse st \<Rightarrow> sse_response None st
     | ConfigResponse c \<Rightarrow> ok_json (fr_config_json f c)
     | ConfigsResponse p \<Rightarrow> ok_json (config_page_to_json f p)
     | EmptyResponse \<Rightarrow> ok_json (JObject []))"

definition agent_card_handler :: "front \<Rightarrow> reply" where
  "agent_card_handler f =
     ok_json (if fr_v03 f then inject_agent_card_compat (fr_card_json f) else fr_card_json f)"

definition extended_agent_card_handler :: "front \<Rightarrow> request_context \<Rightarrow> server \<Rightarrow> answered" where
  "extended_agent_card_handler f ctx sv =
     handler_reply (core_get_extended_agent_card f (identity_claims (rx_identity ctx)), sv)
       (\<lambda>c. ok_json (if fr_v03 f then inject_agent_card_compat c else c))"

text \<open>
  The two send handlers and their tenant forms: negotiate, check the shape the profile asks for,
  run \<open>k\<close>, echo. An error is answered without the echo.
\<close>

definition negotiated_send ::
  "front \<Rightarrow> http_request \<Rightarrow> (string list \<Rightarrow> server \<Rightarrow> 'a handled) \<Rightarrow> ('a \<Rightarrow> reply) \<Rightarrow> server \<Rightarrow> answered" where
  "negotiated_send f req k enc sv =
     (case negotiate_profile_extensions (se_card (fr_send f)) (rq_headers req) of
        Inl e \<Rightarrow> Some (into_response e, sv)
      | Inr echoed \<Rightarrow> handler_reply
          (guard (check_skill_invocation_body (fr_from_str f) echoed (rq_body req)) (\<lambda>_. k echoed) sv)
          (\<lambda>x. attach_extension_echo echoed (enc x)))"

definition send_message_handler :: "front \<Rightarrow> string \<Rightarrow> request_context \<Rightarrow> http_request \<Rightarrow> server \<Rightarrow> answered" where
  "send_message_handler f tn ctx req = negotiated_send f req
     (\<lambda>echoed. core_send_message (fr_send f) tn (identity_owner (rx_identity ctx)) (identity_claims (rx_identity ctx))
        echoed (fr_send_request f (rq_body req)))
     (\<lambda>t. ok_json (task_reply_json f t))"

definition send_streaming_message_handler ::
  "front \<Rightarrow> string \<Rightarrow> request_context \<Rightarrow> http_request \<Rightarrow> server \<Rightarrow> answered" where
  "send_streaming_message_handler f tn ctx req = negotiated_send f req
     (\<lambda>echoed. open_send_stream (fr_send f) tn (identity_owner (rx_identity ctx)) (identity_claims (rx_identity ctx))
        echoed (fr_send_request f (rq_body req)))
     (sse_response None)"

definition list_tasks_handler ::
  "front \<Rightarrow> extractors \<Rightarrow> string \<Rightarrow> request_context \<Rightarrow> http_request \<Rightarrow> server \<Rightarrow> answered" where
  "list_tasks_handler f ex tn ctx req sv = (case ex_list_query ex (rq_query req) of
       Inl e \<Rightarrow> Some (rejection 400 e, sv)
     | Inr q \<Rightarrow> handler_reply (core_list_tasks (fr_chrono f) (fr_parse_rfc3339 f) tn (identity_owner (rx_identity ctx)) q sv)
         (\<lambda>p. ok_json (list_page_to_json f p)))"

definition task_get_handler ::
  "front \<Rightarrow> extractors \<Rightarrow> string \<Rightarrow> string \<Rightarrow> request_context \<Rightarrow> http_request \<Rightarrow> server \<Rightarrow> answered" where
  "task_get_handler f ex tn rest ctx req sv = (case ex_task_query ex (rq_query req) of
       Inl e \<Rightarrow> Some (rejection 400 e, sv)
     | Inr q \<Rightarrow> handler_reply (dispatch_task_get (se_card (fr_send f)) tn (identity_owner (rx_identity ctx)) rest q sv)
         (response_reply f))"

definition task_post_handler ::
  "front \<Rightarrow> string \<Rightarrow> string \<Rightarrow> request_context \<Rightarrow> http_request \<Rightarrow> server \<Rightarrow> answered" where
  "task_post_handler f tn rest ctx req sv =
     Option.bind (dispatch_task_post (fr_send f) (fr_fuel f) tn (identity_owner (rx_identity ctx)) rest
         (fr_push_config f (rq_body req)) sv)
       (\<lambda>r. handler_reply r (response_reply f))"

definition task_delete_handler :: "front \<Rightarrow> string \<Rightarrow> string \<Rightarrow> request_context \<Rightarrow> server \<Rightarrow> answered" where
  "task_delete_handler f tn rest ctx sv =
     handler_reply (dispatch_task_delete (se_card (fr_send f)) tn (identity_owner (rx_identity ctx)) rest sv)
       (response_reply f)"

section \<open>The service\<close>

text \<open>\<open>require_activated_extensions\<close>, the layer on the routes of A2A operations.\<close>

definition require_activated_extensions ::
  "front \<Rightarrow> http_request \<Rightarrow> (server \<Rightarrow> answered) \<Rightarrow> server \<Rightarrow> answered" where
  "require_activated_extensions f req k sv =
     (case negotiate_profile_extensions (se_card (fr_send f)) (rq_headers req) of
        Inl e \<Rightarrow> Some (into_response e, sv) | Inr _ \<Rightarrow> k sv)"

definition not_allowed :: reply where
  "not_allowed = \<lparr>rp_status = 405, rp_headers = [], rp_body = NoBody\<rparr>"

definition not_found :: reply where
  "not_found = \<lparr>rp_status = 404, rp_headers = [], rp_body = NoBody\<rparr>"

definition with_tenant :: "extractors \<Rightarrow> string option \<Rightarrow> (string \<Rightarrow> server \<Rightarrow> answered) \<Rightarrow> server \<Rightarrow> answered" where
  "with_tenant ex tn k sv = (case route_tenant ex tn of None \<Rightarrow> Some (bad_path, sv) | Some t \<Rightarrow> k t sv)"

definition with_rest :: "extractors \<Rightarrow> string \<Rightarrow> (string \<Rightarrow> server \<Rightarrow> answered) \<Rightarrow> server \<Rightarrow> answered" where
  "with_rest ex rest k sv = (case ex_decode ex rest of None \<Rightarrow> Some (bad_path, sv) | Some r \<Rightarrow> k r sv)"

text \<open>\<open>get\<close> routes answer \<open>HEAD\<close> too, without the body.\<close>

definition is_get :: "http_request \<Rightarrow> bool" where
  "is_get req \<longleftrightarrow> rq_method req = ''GET'' \<or> rq_method req = ''HEAD''"

definition head_reply :: "http_request \<Rightarrow> reply \<Rightarrow> reply" where
  "head_reply req r = (if rq_method req = ''HEAD'' then r\<lparr>rp_body := NoBody\<rparr> else r)"

definition route_call ::
  "front \<Rightarrow> extractors \<Rightarrow> route \<Rightarrow> request_context \<Rightarrow> http_request \<Rightarrow> (server \<Rightarrow> answered) option" where
  "route_call f ex r ctx req = (case r of
       AgentCardRoute \<Rightarrow> if is_get req then Some (\<lambda>sv. Some (agent_card_handler f, sv)) else None
     | JsonRpcRoute \<Rightarrow> if rq_method req = ''POST'' then Some (jsonrpc_dispatch_handler f ctx req) else None
     | ExtendedCardRoute \<Rightarrow> if is_get req
         then Some (require_activated_extensions f req (extended_agent_card_handler f ctx)) else None
     | SendRoute tn \<Rightarrow> if rq_method req = ''POST''
         then Some (require_activated_extensions f req (with_tenant ex tn (\<lambda>t. send_message_handler f t ctx req))) else None
     | SendStreamRoute tn \<Rightarrow> if rq_method req = ''POST''
         then Some (require_activated_extensions f req
           (with_tenant ex tn (\<lambda>t. send_streaming_message_handler f t ctx req))) else None
     | ListRoute tn \<Rightarrow> if is_get req
         then Some (require_activated_extensions f req (with_tenant ex tn (\<lambda>t. list_tasks_handler f ex t ctx req))) else None
     | TaskRoute tn rest \<Rightarrow>
         map_option (\<lambda>k. require_activated_extensions f req (with_tenant ex tn (\<lambda>t. with_rest ex rest (k t))))
           (if is_get req then Some (\<lambda>t rest. task_get_handler f ex t rest ctx req)
            else if rq_method req = ''POST'' then Some (\<lambda>t rest. task_post_handler f t rest ctx req)
            else if rq_method req = ''DELETE'' then Some (\<lambda>t rest. task_delete_handler f t rest ctx)
            else None))"

definition router_call :: "front \<Rightarrow> extractors \<Rightarrow> request_context \<Rightarrow> http_request \<Rightarrow> server \<Rightarrow> answered" where
  "router_call f ex ctx req sv = map_option (map_prod (head_reply req) id)
     (case route_of (fr_v03 f) (rq_path req) of
        None \<Rightarrow> Some (not_found, sv)
      | Some r \<Rightarrow> (case route_call f ex r ctx req of None \<Rightarrow> Some (not_allowed, sv) | Some k \<Rightarrow> k sv))"

text \<open>\<open>build_router\<close>: transport checks, then authentication, then the routes.\<close>

definition serve :: "front \<Rightarrow> extractors \<Rightarrow> http_request \<Rightarrow> server \<Rightarrow> answered" where
  "serve f ex = transport_call (fr_v03 f) (auth_call (fr_v03 f) (fr_stack f) (router_call f ex))"

end
