(* ===== verification/Front_Laws.thy ===== *)
theory Front_Laws
  imports Http_Router
begin

text \<open>
  What the front end promises: which versions it serves, that nothing runs before the transport
  checks and the authentication have passed, what a failed authentication reports, and how
  extensions are negotiated.
\<close>

section \<open>Splitting and joining\<close>

lemma split_on_not_Nil [simp]: "split_on c s \<noteq> []"
  by (induction s) (auto split: list.split)

lemma split_on_parts: "p \<in> set (split_on c s) \<Longrightarrow> c \<notin> set p"
  by (induction s arbitrary: p) (auto split: list.splits if_splits)

lemma join_Cons: "ps \<noteq> [] \<Longrightarrow> join_with sep (p # ps) = p @ sep @ join_with sep ps"
  by (cases ps) simp_all

lemma join_split: "join_with [c] (split_on c s) = s"
proof (induction s)
  case (Cons x s)
  obtain p ps where s: "split_on c s = p # ps" by (cases "split_on c s") simp_all
  show ?case
    using Cons by (cases ps) (auto simp: s)
qed simp

lemma split_on_append:
  assumes "c \<notin> set p"
  shows "split_on c (p @ c # s) = p # split_on c s" and "split_on c p = [p]"
  using assms by (induction p) auto

lemma split_join:
  assumes "ps \<noteq> []" and "\<forall>p\<in>set ps. c \<notin> set p"
  shows "split_on c (join_with [c] ps) = ps"
  using assms
proof (induction ps)
  case (Cons p ps)
  then show ?case by (cases "ps = []") (simp_all add: split_on_append join_Cons)
qed simp

section \<open>Versions\<close>

text \<open>A version text that names \<open>major.minor\<close>, whatever patch numbers follow.\<close>

definition names_version :: "string \<Rightarrow> string \<Rightarrow> string \<Rightarrow> bool" where
  "names_version s major minor \<longleftrightarrow>
     (\<exists>patches. trim s = join_with ''.'' (major # minor # patches) \<and>
        (\<forall>p\<in>set patches. p \<noteq> [] \<and> (\<forall>c\<in>set p. ascii_digit c)))"

lemma digit_no_dot: "\<forall>c\<in>set p. ascii_digit c \<Longrightarrow> CHR ''.'' \<notin> set p"
  by (auto simp: ascii_digit_def byte_def)

lemma same_major_minor_iff:
  assumes "CHR ''.'' \<notin> set major" and "CHR ''.'' \<notin> set minor"
  shows "same_major_minor s (major @ ''.'' @ minor) \<longleftrightarrow> names_version s major minor"
proof -
  let ?theirs = "split_on (CHR ''.'') (trim s)"
  have ours: "split_on (CHR ''.'') (major @ ''.'' @ minor) = [major, minor]"
    using assms by (simp add: split_on_append)
  show ?thesis
  proof
    assume same: "same_major_minor s (major @ ''.'' @ minor)"
    then have parts: "part_at 0 ?theirs = Some major" "part_at 1 ?theirs = Some minor"
        "list_all (\<lambda>p. p \<noteq> [] \<and> list_all ascii_digit p) (drop 2 ?theirs)"
      unfolding same_major_minor_def Let_def ours by (simp_all add: part_at_def)
    then obtain patches where t: "?theirs = major # minor # patches"
      by (cases ?theirs; cases "tl ?theirs") (auto simp: part_at_def split: if_splits)
    have "trim s = join_with ''.'' ?theirs" by (simp add: join_split)
    with parts(3) show "names_version s major minor"
      unfolding t names_version_def by (intro exI [of _ patches]) (simp add: list_all_iff)
  next
    assume "names_version s major minor"
    then obtain patches where s: "trim s = join_with ''.'' (major # minor # patches)"
        and ok: "\<forall>p\<in>set patches. p \<noteq> [] \<and> (\<forall>c\<in>set p. ascii_digit c)"
      by (auto simp: names_version_def)
    have "?theirs = major # minor # patches"
      unfolding s using assms ok digit_no_dot by (intro split_join) auto
    then show "same_major_minor s (major @ ''.'' @ minor)"
      unfolding same_major_minor_def Let_def ours using ok by (simp add: part_at_def list_all_iff)
  qed
qed

lemma version_supported_iff: "version_supported s \<longleftrightarrow> names_version s ''1'' ''0''"
  using same_major_minor_iff [of "''1''" "''0''" s] by (simp add: version_supported_def VERSION_def)

lemma is_legacy_version_iff: "is_legacy_version s \<longleftrightarrow> names_version s ''0'' ''3''"
  using same_major_minor_iff [of "''0''" "''3''" s] by (simp add: is_legacy_version_def LEGACY_VERSION_def)

declare trim_by.simps [simp del]

lemma trim_by_fixed: "find (\<lambda>w. w \<noteq> [] \<and> strip_prefix w s \<noteq> None) ws = None \<Longrightarrow> trim_by ws s = s"
  by (subst trim_by.simps) simp

lemma trim_by_stops: "find (\<lambda>w. w \<noteq> [] \<and> strip_prefix w (trim_by ws s) \<noteq> None) ws = None"
  by (induction ws s rule: trim_by.induct)
    (subst (1) trim_by.simps, auto split: option.split)

lemma trim_by_suffix: "\<exists>p. s = p @ trim_by ws s"
proof (induction ws s rule: trim_by.induct)
  case (1 ws s)
  show ?case
  proof (cases "find (\<lambda>w. w \<noteq> [] \<and> strip_prefix w s \<noteq> None) ws")
    case (Some w)
    then obtain p where "drop (length w) s = p @ trim_by ws (drop (length w) s)" using 1 by blast
    then have "s = (take (length w) s @ p) @ trim_by ws (drop (length w) s)"
      by (metis append.assoc append_take_drop_id)
    moreover have "trim_by ws s = trim_by ws (drop (length w) s)" using Some by (subst trim_by.simps) simp
    ultimately show ?thesis by metis
  qed (simp add: trim_by_fixed)
qed

lemma strip_prefix_append:
  assumes "strip_prefix w s = Some r"
  shows "strip_prefix w (s @ t) = Some (r @ t)"
proof -
  have t: "take (length w) s = w" "r = drop (length w) s"
    using assms by (auto simp: strip_prefix_def split: if_splits)
  from t(1) have "length w \<le> length s" by (metis length_take min.cobounded1)
  with t show ?thesis by (simp add: strip_prefix_def)
qed

lemma trim_idem [simp]: "trim (trim s) = trim s"
proof -
  let ?W = WHITESPACE and ?R = "map rev WHITESPACE"
  define y where "y = trim_by ?W s"
  define z where "z = trim_by ?R (rev y)"
  obtain p where "rev y = p @ z" using trim_by_suffix z_def by blast
  then have "y = rev z @ rev p" by (metis rev_append rev_rev_ident)
  moreover have "find (\<lambda>w. w \<noteq> [] \<and> strip_prefix w y \<noteq> None) ?W = None"
    unfolding y_def by (rule trim_by_stops)
  ultimately have "find (\<lambda>w. w \<noteq> [] \<and> strip_prefix w (rev z) \<noteq> None) ?W = None"
    using strip_prefix_append [of _ "rev z" _ "rev p"] by (fastforce simp: find_None_iff)
  then have "trim_by ?W (rev z) = rev z" by (rule trim_by_fixed)
  moreover have "trim_by ?R z = z"
    unfolding z_def by (rule trim_by_fixed) (rule trim_by_stops)
  ultimately show ?thesis by (simp add: trim_def y_def z_def)
qed

text \<open>A text that begins and ends with a visible ASCII character.\<close>

definition visible :: "char \<Rightarrow> bool" where
  "visible c \<longleftrightarrow> 32 < byte c \<and> byte c < 127"

lemma whitespace_not_visible: "list_all (\<lambda>w. w \<noteq> [] \<and> \<not> visible (hd w) \<and> \<not> visible (last w)) WHITESPACE"
  by (simp add: WHITESPACE_def bytes_def visible_def byte_def upt_rec)

lemma trim_visible:
  assumes "s \<noteq> []" and "visible (hd s)" and "visible (last s)"
  shows "trim s = s"
proof -
  have starts: "hd w = hd t" if "strip_prefix w t \<noteq> None" "w \<noteq> []" for w t :: string
    using that by (cases w; cases t) (auto simp: strip_prefix_def split: if_splits)
  have ws: "w \<noteq> [] \<and> \<not> visible (hd w) \<and> \<not> visible (last w)" if "w \<in> set WHITESPACE" for w
    using whitespace_not_visible that by (auto simp: list_all_iff)
  have front: "strip_prefix w s = None" if "w \<in> set WHITESPACE" for w
  proof (rule ccontr)
    assume "strip_prefix w s \<noteq> None"
    then have "hd w = hd s" using starts ws that by blast
    then show False using ws [OF that] assms(2) by simp
  qed
  have behind: "strip_prefix (rev w) (rev s) = None" if "w \<in> set WHITESPACE" for w
  proof (rule ccontr)
    assume "strip_prefix (rev w) (rev s) \<noteq> None"
    then have "hd (rev w) = hd (rev s)" using starts ws that by blast
    then show False using ws [OF that] assms by (simp add: hd_rev)
  qed
  have "trim_by WHITESPACE s = s" by (rule trim_by_fixed) (auto simp: find_None_iff front)
  moreover have "trim_by (map rev WHITESPACE) (rev s) = rev s"
    by (rule trim_by_fixed) (auto simp: find_None_iff behind)
  ultimately show ?thesis by (simp add: trim_def)
qed

lemma names_version_trim [simp]: "names_version (trim s) a b = names_version s a b"
  by (simp add: names_version_def)

text \<open>The versions a request is served with.\<close>

definition version_admitted :: "bool \<Rightarrow> string option \<Rightarrow> bool" where
  "version_admitted v03 requested \<longleftrightarrow> (case requested of
       None \<Rightarrow> v03
     | Some v \<Rightarrow> if trim v = [] then v03 else names_version v ''1'' ''0'' \<or> v03 \<and> names_version v ''0'' ''3'')"

lemma check_version_iff: "check_version requested v03 = Inr () \<longleftrightarrow> version_admitted v03 requested"
  by (cases requested) (auto simp: check_version_def version_admitted_def version_supported_iff is_legacy_version_iff)

lemma check_version_refused:
  assumes "\<not> version_admitted v03 requested"
  shows "\<exists>v. check_version requested v03 = Inl (VersionNotSupported v)"
  using assms
  by (cases requested)
    (auto simp: check_version_def version_admitted_def version_supported_iff is_legacy_version_iff split: if_splits)

section \<open>The layers\<close>

lemma transport_refused:
  assumes "check_request v03 req = Inl e"
  shows "\<exists>r. transport_call v03 service req c = Some (r, c) \<and>
    (if is_jsonrpc_path v03 (rq_path req) then r = json_response 200 (to_jsonrpc_error e None)
     else rp_status r = http_status e \<and> rp_body r = JsonBody (to_http_error_body e))"
  using assms
  by (auto simp: transport_call_def Let_def label_json_response_def into_response_def json_response_def)

lemma transport_passed:
  assumes "transport_call v03 service req c = Some (r, c')" and "check_request v03 req = Inr ()"
  obtains r0 where "service req c = Some (r0, c')" "rp_status r = rp_status r0" "rp_body r = rp_body r0"
  using assms by (auto simp: transport_call_def Let_def label_json_response_def split: if_splits option.splits)

lemma version_refused:
  assumes "\<not> version_admitted v03 (requested_version req)" and "\<not> is_bypass_path (rq_path req)"
  obtains v where "check_request v03 req = Inl (VersionNotSupported v)"
  using check_version_refused [OF assms(1)] assms(2) by (auto simp: check_request_def)

lemma serve_transport_refused:
  assumes "check_request (fr_v03 f) req = Inl e"
  shows "\<exists>r. serve f ex req sv = Some (r, sv) \<and>
    rp_body r = JsonBody (if is_jsonrpc_path (fr_v03 f) (rq_path req) then to_jsonrpc_error e None else to_http_error_body e)"
  using transport_refused [OF assms, of "auth_call (fr_v03 f) (fr_stack f) (router_call f ex)" sv]
  unfolding serve_def by (auto simp: json_response_def)

section \<open>Authentication\<close>

text \<open>
  What a bearer credential must be: a token in the \<open>Authorization\<close> header that the validator
  accepts, with a principal and every required scope.
\<close>

definition bearer_credential ::
  "(string \<Rightarrow> 'e + jwt_claims) \<Rightarrow> string \<Rightarrow> string list \<Rightarrow> headers \<Rightarrow> jwt_claims \<Rightarrow> bool" where
  "bearer_credential validate principal_claim required_scopes hs claims \<longleftrightarrow>
     (\<exists>v token. header_get ''authorization'' hs = Some v \<and> extract_bearer_token v = Some token \<and>
        validate token = Inr claims) \<and>
     trim (principal_of principal_claim claims) \<noteq> [] \<and>
     set required_scopes \<subseteq> set (split_on (CHR '' '') (unwrap_or [] (jc_scope claims)))"

lemma to_str_same: "to_str v = Some w \<Longrightarrow> w = v"
  by (simp add: to_str_def split: if_splits)

lemma required_scopes_iff:
  assumes "set required \<subseteq> set (split_on (CHR '' '') (unwrap_or [] scope)) \<or> required = []"
  shows "enforce_required_scopes required scope = Inr ()"
  using assms by (auto simp: enforce_required_scopes_def list_all_iff)

lemma enforced_scopes:
  "enforce_required_scopes required scope = Inr () \<Longrightarrow>
     set required \<subseteq> set (split_on (CHR '' '') (unwrap_or [] scope))"
  by (auto simp: enforce_required_scopes_def list_all_iff Let_def split: if_splits)

lemma bearer_passed:
  assumes "bearer_before_request validate to_value pc scopes (context_from_headers hs) = (Inr (), ctx)"
  obtains claims where "bearer_credential validate pc scopes hs claims"
    "ctx = (context_from_headers hs)\<lparr>rx_identity := Authenticated (principal_of pc claims) (to_value claims)\<rparr>"
proof -
  obtain token where token: "rx_bearer_token (context_from_headers hs) = Some token"
    using assms by (auto simp: bearer_before_request_def split: option.splits)
  then obtain v where "header_get ''authorization'' hs = Some v" "extract_bearer_token v = Some token"
    by (auto simp: context_from_headers_def bind_eq_Some_conv dest: to_str_same)
  moreover obtain claims where "validate token = Inr claims" "trim (principal_of pc claims) \<noteq> []"
      "enforce_required_scopes scopes (jc_scope claims) = Inr ()"
      "ctx = (context_from_headers hs)\<lparr>rx_identity := Authenticated (principal_of pc claims) (to_value claims)\<rparr>"
    using assms token by (auto simp: bearer_before_request_def Let_def split: sum.splits if_splits)
  ultimately show thesis using that enforced_scopes by (auto simp: bearer_credential_def)
qed

text \<open>The replies a request gets that reached no route.\<close>

definition refused_reply :: "front \<Rightarrow> http_request \<Rightarrow> reply \<Rightarrow> bool" where
  "refused_reply f req r \<longleftrightarrow>
     (\<exists>e. check_request (fr_v03 f) req = Inl e \<and>
        rp_body r = JsonBody (if is_jsonrpc_path (fr_v03 f) (rq_path req) then to_jsonrpc_error e None else to_http_error_body e)) \<or>
     (\<exists>e. rp_status r = middleware_status e \<and>
        rp_body r = JsonBody (if is_jsonrpc_path (fr_v03 f) (rq_path req) then middleware_jsonrpc_body e else middleware_http_body e))"

lemma middleware_reply [simp]:
  "rp_status (middleware_error_to_response v03 e path) = middleware_status e"
  "rp_body (middleware_error_to_response v03 e path) =
     JsonBody (if is_jsonrpc_path v03 path then middleware_jsonrpc_body e else middleware_http_body e)"
  by (auto simp: middleware_error_to_response_def json_response_def Let_def split: middleware_error.split option.split)

lemma serve_cases:
  assumes "serve f ex req sv = Some (r, sv')" and "fr_stack f \<noteq> []" and "\<not> is_bypass_path (rq_path req)"
  obtains (refused) "refused_reply f req r" "sv' = sv"
  | (served) ctx r0 where "before_request (fr_stack f) (context_from_headers (rq_headers req)) = (Inr (), ctx)"
      "router_call f ex ctx req sv = Some (r0, sv')" "rp_status r = rp_status r0" "rp_body r = rp_body r0"
proof (cases "check_request (fr_v03 f) req")
  case (Inl e)
  with serve_transport_refused [OF Inl, of ex sv] assms(1) show thesis
    by (intro refused) (auto simp: refused_reply_def)
next
  case (Inr u)
  then obtain r0 where r0: "auth_call (fr_v03 f) (fr_stack f) (router_call f ex) req sv = Some (r0, sv')"
      "rp_status r = rp_status r0" "rp_body r = rp_body r0"
    using transport_passed assms(1) unfolding serve_def by (metis (full_types) unit.exhaust)
  show thesis
  proof (cases "before_request (fr_stack f) (context_from_headers (rq_headers req))")
    case (Pair res ctx)
    show thesis
    proof (cases res)
      case (Inl e)
      with r0 Pair assms(2,3) show thesis by (intro refused) (auto simp: auth_call_def refused_reply_def)
    next
      case (Inr u)
      with r0 Pair assms(2,3) show thesis by (intro served [of ctx r0]) (auto simp: auth_call_def)
    qed
  qed
qed

lemma bearer_served:
  assumes "serve f ex req sv = Some (r, sv')" and "\<not> is_bypass_path (rq_path req)"
    and "fr_stack f = [bearer_before_request validate to_value pc scopes]"
  shows "refused_reply f req r \<and> sv' = sv \<or>
    (\<exists>claims ctx r0. bearer_credential validate pc scopes (rq_headers req) claims \<and>
       rx_identity ctx = Authenticated (principal_of pc claims) (to_value claims) \<and>
       router_call f ex ctx req sv = Some (r0, sv') \<and> rp_status r = rp_status r0 \<and> rp_body r = rp_body r0)"
proof -
  have stack: "fr_stack f \<noteq> []" by (simp add: assms(3))
  show ?thesis using assms(1) stack assms(2)
  proof (cases rule: serve_cases)
    case (served ctx r0)
    then have "bearer_before_request validate to_value pc scopes (context_from_headers (rq_headers req)) = (Inr (), ctx)"
      by (auto simp: assms(3) split: prod.splits sum.splits)
    then obtain claims where "bearer_credential validate pc scopes (rq_headers req) claims"
        "ctx = (context_from_headers (rq_headers req))\<lparr>rx_identity := Authenticated (principal_of pc claims) (to_value claims)\<rparr>"
      by (rule bearer_passed)
    with served show ?thesis by (intro disjI2 exI [of _ claims] exI [of _ ctx] exI [of _ r0]) simp
  qed simp
qed

section \<open>One of several credentials\<close>

definition soft_failure :: "middleware_error + unit \<Rightarrow> bool" where
  "soft_failure r \<longleftrightarrow> (\<exists>e. r = Inl e \<and> 0 < precedence e)"

text \<open>The first of the strongest.\<close>

definition first_strongest :: "middleware_error \<Rightarrow> middleware_error list \<Rightarrow> bool" where
  "first_strongest e es \<longleftrightarrow> (\<exists>pre post. es = pre @ e # post \<and>
     (\<forall>x\<in>set pre. precedence x < precedence e) \<and> (\<forall>x\<in>set post. precedence x \<le> precedence e))"

lemma first_strongest_snoc:
  assumes "first_strongest e es"
  shows "first_strongest (champion e x) (es @ [x])"
proof -
  obtain pre post where es: "es = pre @ e # post" "\<forall>y\<in>set pre. precedence y < precedence e"
      "\<forall>y\<in>set post. precedence y \<le> precedence e"
    using assms by (auto simp: first_strongest_def)
  show ?thesis
  proof (cases "precedence e < precedence x")
    case True
    then have "es @ [x] = es @ champion e x # []" "\<forall>y\<in>set es. precedence y < precedence (champion e x)"
      using es by (auto simp: champion_def)
    then show ?thesis unfolding first_strongest_def by (metis empty_iff empty_set)
  next
    case False
    then have "es @ [x] = pre @ champion e x # (post @ [x])" "champion e x = e"
        "\<forall>y\<in>set (post @ [x]). precedence y \<le> precedence e"
      using es by (auto simp: champion_def)
    then show ?thesis unfolding first_strongest_def using es(2) by metis
  qed
qed

lemma champion_first_strongest: "es \<noteq> [] \<Longrightarrow> first_strongest (foldl champion (hd es) (tl es)) es"
proof (induction es rule: rev_induct)
  case (snoc x es)
  show ?case
  proof (cases "es = []")
    case True
    then show ?thesis
      by (auto simp: first_strongest_def intro!: exI [of _ "[]"])
  next
    case False
    then show ?thesis using snoc first_strongest_snoc [of "foldl champion (hd es) (tl es)" es x] by simp
  qed
qed simp

lemma any_of_step_soft:
  assumes "soft_failure (fst (child ctx))"
  shows "any_of_from es (child # children) ctx = any_of_from (es @ [projl (fst (child ctx))]) children ctx"
  using assms by (cases "child ctx") (auto simp: soft_failure_def split: middleware_error.splits sum.splits)

lemma any_of_soft:
  assumes "\<forall>c\<in>set pre. soft_failure (fst (c ctx))"
  shows "any_of_from es (pre @ children) ctx = any_of_from (es @ map (\<lambda>c. projl (fst (c ctx))) pre) children ctx"
  using assms
proof (induction pre arbitrary: es)
  case (Cons c pre)
  then show ?case by (simp add: any_of_step_soft del: any_of_from.simps)
qed simp

lemma any_of_laws:
  assumes "any_of children = Some mw"
  shows any_of_success: "children = pre @ c # post \<Longrightarrow> \<forall>c\<in>set pre. soft_failure (fst (c ctx)) \<Longrightarrow>
      c ctx = (Inr (), ctx') \<Longrightarrow>
      mw ctx = (Inr (), ctx\<lparr>rx_identity := rx_identity ctx', rx_extensions := rx_extensions ctx'\<rparr>)"
    and any_of_internal: "children = pre @ c # post \<Longrightarrow> \<forall>c\<in>set pre. soft_failure (fst (c ctx)) \<Longrightarrow>
      fst (c ctx) = Inl (MiddlewareInternal m) \<Longrightarrow> mw ctx = (Inl (MiddlewareInternal m), ctx)"
    and any_of_failure: "\<forall>c\<in>set children. soft_failure (fst (c ctx)) \<Longrightarrow>
      \<exists>e. mw ctx = (Inl e, ctx) \<and> first_strongest e (map (\<lambda>c. projl (fst (c ctx))) children)"
proof -
  have mw: "mw = any_of_from [] children" "children \<noteq> []"
    using assms by (auto simp: any_of_def split: if_splits)
  show "children = pre @ c # post \<Longrightarrow> \<forall>c\<in>set pre. soft_failure (fst (c ctx)) \<Longrightarrow> c ctx = (Inr (), ctx') \<Longrightarrow>
      mw ctx = (Inr (), ctx\<lparr>rx_identity := rx_identity ctx', rx_extensions := rx_extensions ctx'\<rparr>)"
    by (simp add: mw any_of_soft)
  show "children = pre @ c # post \<Longrightarrow> \<forall>c\<in>set pre. soft_failure (fst (c ctx)) \<Longrightarrow>
      fst (c ctx) = Inl (MiddlewareInternal m) \<Longrightarrow> mw ctx = (Inl (MiddlewareInternal m), ctx)"
    by (cases "c ctx") (simp add: mw any_of_soft)
  show "\<forall>c\<in>set children. soft_failure (fst (c ctx)) \<Longrightarrow>
      \<exists>e. mw ctx = (Inl e, ctx) \<and> first_strongest e (map (\<lambda>c. projl (fst (c ctx))) children)"
    using any_of_soft [of children ctx "[]" "[]"] champion_first_strongest [of "map (\<lambda>c. projl (fst (c ctx))) children"] mw
    by simp
qed

section \<open>Extensions\<close>

lemma negotiated:
  assumes "negotiate_profile_extensions ac hs = Inr echoed" and "card_capabilities ac = Some c"
  shows "set echoed = set (activated_from_headers hs) \<inter> ext_uri ` set (cap_extensions c)"
    and "ext \<in> set (cap_extensions c) \<Longrightarrow> ext_required ext \<Longrightarrow> ext_uri ext \<in> set echoed"
    and "distinct echoed"
proof -
  have e: "find (\<lambda>ext. ext_required ext \<and> ext_uri ext \<notin> set (activated_from_headers hs)) (cap_extensions c) = None"
      "echoed = filter (\<lambda>uri. uri \<in> ext_uri ` set (cap_extensions c)) (activated_from_headers hs)"
    using assms by (auto simp: negotiate_profile_extensions_def validate_activation_def split: option.splits)
  show "set echoed = set (activated_from_headers hs) \<inter> ext_uri ` set (cap_extensions c)" by (auto simp: e(2))
  show "ext \<in> set (cap_extensions c) \<Longrightarrow> ext_required ext \<Longrightarrow> ext_uri ext \<in> set echoed"
    using e(1) by (auto simp: e(2) find_None_iff)
  show "distinct echoed"
    by (simp add: e(2) activated_from_headers_def parse_a2a_extensions_def split: option.split)
qed

lemma required_not_activated:
  assumes "card_capabilities ac = Some c" and "ext \<in> set (cap_extensions c)" and "ext_required ext"
    and "ext_uri ext \<notin> set (activated_from_headers hs)"
  shows "\<exists>uri. negotiate_profile_extensions ac hs = Inl (ExtensionSupportRequired uri)"
  using assms
  by (auto simp: negotiate_profile_extensions_def validate_activation_def find_None_iff split: option.split)

lemma space_char:
  "char_of (n :: nat) = CHR '' '' \<longleftrightarrow> n mod 256 = 32" "CHR '' '' = char_of (n :: nat) \<longleftrightarrow> n mod 256 = 32"
  by (simp_all add: char_of_eq_iff take_bit_eq_mod eq_commute [of "CHR '' ''"])

lemma trim_space: "trim (CHR '' '' # s) = trim s"
proof -
  have "find (\<lambda>w. w \<noteq> [] \<and> strip_prefix w (CHR '' '' # s) \<noteq> None) WHITESPACE = Some '' ''"
    by (simp add: WHITESPACE_def bytes_def strip_prefix_def upt_rec space_char)
  then have "trim_by WHITESPACE (CHR '' '' # s) = trim_by WHITESPACE s"
    by (subst trim_by.simps) simp
  then show ?thesis by (simp add: trim_def)
qed

lemma split_joined_header:
  assumes "\<forall>u\<in>set us. CHR '','' \<notin> set u \<and> trim u = u" and "us \<noteq> []"
  shows "map trim (split_on (CHR '','') (join_with '', '' us)) = us"
  using assms
proof (induction us)
  case (Cons u us)
  show ?case
  proof (cases us)
    case Nil
    with Cons show ?thesis by (simp add: split_on_append)
  next
    case (Cons v vs)
    define s where "s = join_with '', '' us"
    have "split_on (CHR '','') (CHR '' '' # s) = (CHR '' '' # hd (split_on (CHR '','') s)) # tl (split_on (CHR '','') s)"
      by (cases "split_on (CHR '','') s") simp_all
    then have "map trim (split_on (CHR '','') (CHR '' '' # s)) = map trim (split_on (CHR '','') s)"
      by (cases "split_on (CHR '','') s") (simp_all add: trim_space)
    moreover have "map trim (split_on (CHR '','') s) = us"
      using Cons.IH Cons.prems Cons unfolding s_def by simp
    moreover have "join_with '', '' (u # us) = u @ CHR '','' # (CHR '' '' # s)"
      using Cons by (simp add: join_Cons s_def)
    ultimately show ?thesis using Cons.prems by (simp add: split_on_append)
  qed
qed simp

text \<open>The echo, read back, is the negotiated set.\<close>

lemma echo_round_trip:
  assumes "\<forall>u\<in>set us. CHR '','' \<notin> set u \<and> trim u = u \<and> u \<noteq> []" and "distinct us"
  shows "parse_a2a_extensions (response_header_value us) = sort us"
proof (cases "us = []")
  case False
  have "map trim (split_on (CHR '','') (join_with '', '' (sort us))) = sort us"
    using assms False by (intro split_joined_header) (auto dest: arg_cong [of "sort us" "[]" length])
  moreover have "filter (\<lambda>s. s \<noteq> []) (sort us) = sort us" using assms by (simp add: filter_id_conv)
  ultimately show ?thesis
    using assms(2) False by (simp add: parse_a2a_extensions_def response_header_value_def distinct_remdups_id)
qed (simp add: parse_a2a_extensions_def response_header_value_def)

end
