(* ===== verification/Rpc_Laws.thy ===== *)
theory Rpc_Laws
  imports Front_Laws
begin

text \<open>
  What the JSON-RPC binding promises: one well-formed reply per request with its id, none for a
  notification; the same operations as the HTTP binding; and a faithful translation of the 0.3
  wire format.
\<close>

section \<open>Replies\<close>

text \<open>What is relied on of \<open>turul-rpc\<close>: a response of the protocol, with the handler's result or error.\<close>

definition rpc_ok :: "(json \<Rightarrow> a2a_error + json \<Rightarrow> json) \<Rightarrow> bool" where
  "rpc_ok rpc \<longleftrightarrow> (\<forall>i r. (\<exists>fs. rpc i r = JObject fs) \<and>
     json_get ''jsonrpc'' (rpc i r) = Some (JString ''2.0'') \<and> json_get ''id'' (rpc i r) = Some i \<and>
     (case r of
        Inr v \<Rightarrow> json_get ''result'' (rpc i r) = Some v \<and> json_get ''error'' (rpc i r) = None
      | Inl e \<Rightarrow> json_get ''result'' (rpc i r) = None \<and>
          json_get ''error'' (rpc i r) = json_get ''error'' (to_jsonrpc_error e (Some i))))"

text \<open>A JSON-RPC response: its version, the id, and either a result or an error.\<close>

definition rpc_reply_for :: "json \<Rightarrow> json \<Rightarrow> bool" where
  "rpc_reply_for i j \<longleftrightarrow> json_get ''jsonrpc'' j = Some (JString ''2.0'') \<and> json_get ''id'' j = Some i \<and>
     (json_get ''result'' j = None) \<noteq> (json_get ''error'' j = None)"

lemma rpc_reply_builders [simp]:
  "rpc_reply_for i (jsonrpc_success i v)"
  "rpc_reply_for i (jsonrpc_error i code message data)"
  "rpc_reply_for i (to_jsonrpc_error e (Some i))"
  "rpc_reply_for JNull (to_jsonrpc_error e None)"
  by (simp_all add: rpc_reply_for_def jsonrpc_success_def jsonrpc_error_def to_jsonrpc_error_def)

lemma json_get_set: "json_get k (json_set key v j) = (if k = key \<and> json_get k j \<noteq> None then Some v else json_get k j)"
proof (cases j)
  case (JObject fs)
  have "map_of (map (\<lambda>(k, w). (k, if k = key then v else w)) fs) k =
      (if k = key \<and> map_of fs k \<noteq> None then Some v else map_of fs k)"
    by (induction fs) auto
  with JObject show ?thesis by auto
qed simp_all

lemma rpc_reply_normalized:
  "rpc_reply_for i j \<Longrightarrow> rpc_reply_for i (maybe_normalize_response j mode)"
  by (auto simp: rpc_reply_for_def maybe_normalize_response_def json_get_set split: option.split)

lemma rpc_response_ok:
  assumes "rpc_ok (fr_rpc f)"
  shows "rpc_reply_for i (rpc_response f meth i mode r)"
proof -
  have "rpc_reply_for i (fr_rpc f i r)"
    using assms by (cases r) (auto simp: rpc_ok_def rpc_reply_for_def to_jsonrpc_error_def split: sum.splits)
  then show ?thesis by (auto simp: rpc_response_def rpc_reply_normalized split: sum.split)
qed

text \<open>The body of a reply to a request with an id.\<close>

definition answered_with :: "json \<Rightarrow> reply \<Rightarrow> bool" where
  "answered_with i r \<longleftrightarrow> (\<exists>j. rp_body r = JsonBody j \<and> rpc_reply_for i j) \<or> (\<exists>st. rp_body r = SseBody (Some i) st)"

lemma answered_with_intros [simp]:
  "answered_with i (ok_json j) \<longleftrightarrow> rpc_reply_for i j" "answered_with i (sse_response (Some i) st)"
  by (simp_all add: answered_with_def ok_json_def json_response_def sse_response_def)

lemma rpc_call_replies:
  assumes "rpc_call f ow claims hs neg v raw req_id sv = Some (r, sv')" and "rpc_ok (fr_rpc f)"
  shows "case req_id of None \<Rightarrow> r = no_content | Some i \<Rightarrow> answered_with i r"
  using assms(1) rpc_response_ok [OF assms(2)]
  by (auto simp: rpc_call_def Let_def unwrap_or_def split: option.splits sum.splits if_splits prod.splits)

text \<open>What an envelope must have before its method is looked at.\<close>

definition envelope_ok :: "json \<Rightarrow> bool" where
  "envelope_ok v \<longleftrightarrow> json_get ''jsonrpc'' v = Some (JString ''2.0'') \<and> (\<exists>m. json_get ''method'' v = Some (JString m)) \<and>
     json_get ''id'' v \<noteq> Some JNull"

lemma json_as_str_iff: "json_as_str v = Some s \<longleftrightarrow> v = Some (JString s)"
  by (cases v; cases "the v") auto

lemma dispatch_inner_replies:
  assumes "jsonrpc_dispatch_inner f ctx hs text neg sv = Some (r, sv')" and "rpc_ok (fr_rpc f)"
  shows "case fr_from_str f text of
      None \<Rightarrow> r = ok_json (jsonrpc_error JNull (-32700) ''Parse error'' None) \<and> sv' = sv
    | Some v \<Rightarrow> if envelope_ok v then (case json_get ''id'' v of None \<Rightarrow> r = no_content | Some i \<Rightarrow> answered_with i r)
        else sv' = sv \<and> (\<exists>message. r = ok_json (jsonrpc_error (unwrap_or JNull (json_get ''id'' v)) (-32600) message None))"
proof (cases "fr_from_str f text")
  case (Some v)
  show ?thesis
  proof (cases "envelope_ok v")
    case True
    then obtain raw where raw: "json_get ''method'' v = Some (JString raw)" by (auto simp: envelope_ok_def)
    then have "rpc_call f (identity_owner (rx_identity ctx)) (identity_claims (rx_identity ctx)) hs neg v raw (json_get ''id'' v) sv = Some (r, sv')"
      using assms(1) True Some by (simp add: jsonrpc_dispatch_inner_def envelope_ok_def Let_def)
    from rpc_call_replies [OF this assms(2)] True Some show ?thesis by simp
  next
    case False
    with assms(1) Some show ?thesis
      by (auto simp: jsonrpc_dispatch_inner_def envelope_ok_def Let_def json_as_str_iff unwrap_or_def
          split: if_splits option.splits)
  qed
qed (use assms(1) in \<open>simp add: jsonrpc_dispatch_inner_def\<close>)

text \<open>
  What a call comes to: it names a method that is not a stream, its params are an object, its skill
  invocation is in order, and the method answers \<open>out\<close>. And the reply that says so.
\<close>

definition rpc_outcome ::
  "front \<Rightarrow> request_context \<Rightarrow> headers \<Rightarrow> string list \<Rightarrow> json \<Rightarrow> server \<Rightarrow> string \<Rightarrow> compat_mode \<Rightarrow>
   a2a_error + json \<Rightarrow> server \<Rightarrow> bool" where
  "rpc_outcome f ctx hs neg v sv meth mode out sv1 \<longleftrightarrow> (\<exists>raw p.
     json_get ''method'' v = Some (JString raw) \<and> mode = rpc_mode f raw hs \<and> meth = maybe_normalize_method raw mode \<and>
     meth \<notin> {SEND_STREAMING_MESSAGE, SUBSCRIBE_TO_TASK} \<and> request_params v = Some p \<and>
     (let params = maybe_normalize_params p mode in
       (meth = SEND_MESSAGE \<longrightarrow> check_skill_invocation_request neg params = Inr ()) \<and>
       rpc_dispatch f meth (unwrap_or [] (json_as_str (json_get ''tenant'' params))) (identity_owner (rx_identity ctx))
         (identity_claims (rx_identity ctx)) neg params sv = Some (out, sv1)))"

definition outcome_reply :: "json \<Rightarrow> string \<Rightarrow> compat_mode \<Rightarrow> a2a_error + json \<Rightarrow> json \<Rightarrow> bool" where
  "outcome_reply i meth mode out j \<longleftrightarrow> rpc_reply_for i j \<and> (case out of
       Inr value \<Rightarrow> json_get ''result'' j = Some (if mode = V03
         then denormalize_roles (normalize_task_state_enums (unwrap_or value (json_get ''task'' value))) else value)
     | Inl e \<Rightarrow> json_get ''error'' j =
         (if e = InvalidRequest ''Method not found'' \<and> \<not> (representable_id i \<and> known_non_streaming meth)
          then json_get ''error'' (jsonrpc_error i (-32601) ''Method not found'' None)
          else json_get ''error'' (to_jsonrpc_error e (Some i))))"

lemma rpc_response_outcome:
  assumes "rpc_ok (fr_rpc f)"
  shows "outcome_reply i meth mode out (rpc_response f meth i mode out)"
proof -
  have rpc: "case r of Inr v \<Rightarrow> json_get ''result'' (fr_rpc f i r) = Some v | Inl e \<Rightarrow>
      json_get ''result'' (fr_rpc f i r) = None \<and>
      json_get ''error'' (fr_rpc f i r) = json_get ''error'' (to_jsonrpc_error e (Some i))" for r
    using assms by (auto simp: rpc_ok_def split: sum.splits)
  have "case out of Inr value \<Rightarrow> json_get ''result'' (rpc_response f meth i mode out) = Some (if mode = V03
         then denormalize_roles (normalize_task_state_enums (unwrap_or value (json_get ''task'' value))) else value)
     | Inl e \<Rightarrow> json_get ''error'' (rpc_response f meth i mode out) =
         (if e = InvalidRequest ''Method not found'' \<and> \<not> (representable_id i \<and> known_non_streaming meth)
          then json_get ''error'' (jsonrpc_error i (-32601) ''Method not found'' None)
          else json_get ''error'' (to_jsonrpc_error e (Some i)))"
  proof (cases out)
    case (Inl e)
    then show ?thesis
      using rpc [of "Inl e"] by (auto simp: rpc_response_def maybe_normalize_response_def)
  next
    case (Inr x)
    then show ?thesis
      using rpc [of "Inr x"]
      by (auto simp: rpc_response_def maybe_normalize_response_def json_get_set jsonrpc_success_def)
  qed
  then show ?thesis using rpc_response_ok [OF assms] by (simp add: outcome_reply_def)
qed

lemma dispatch_inner_outcome:
  assumes "jsonrpc_dispatch_inner f ctx hs text neg sv = Some (r, sv')" and "rpc_ok (fr_rpc f)"
    and "fr_from_str f text = Some v" and "envelope_ok v" and "rpc_outcome f ctx hs neg v sv meth mode out sv1"
  shows "sv' = sv1 \<and> (case json_get ''id'' v of None \<Rightarrow> r = no_content
    | Some i \<Rightarrow> \<exists>j. r = ok_json j \<and> outcome_reply i meth mode out j)"
proof -
  obtain raw p where raw: "json_get ''method'' v = Some (JString raw)" "mode = rpc_mode f raw hs"
      "meth = maybe_normalize_method raw mode" "meth \<notin> {SEND_STREAMING_MESSAGE, SUBSCRIBE_TO_TASK}"
      "request_params v = Some p"
      "meth = SEND_MESSAGE \<longrightarrow> check_skill_invocation_request neg (maybe_normalize_params p mode) = Inr ()"
      "rpc_dispatch f meth (unwrap_or [] (json_as_str (json_get ''tenant'' (maybe_normalize_params p mode))))
         (identity_owner (rx_identity ctx)) (identity_claims (rx_identity ctx)) neg (maybe_normalize_params p mode) sv =
       Some (out, sv1)"
    using assms(5) by (auto simp: rpc_outcome_def Let_def)
  have "rpc_call f (identity_owner (rx_identity ctx)) (identity_claims (rx_identity ctx)) hs neg v raw (json_get ''id'' v) sv =
      Some (r, sv')"
    using assms(1,3,4) raw(1) by (simp add: jsonrpc_dispatch_inner_def envelope_ok_def Let_def)
  then have "sv' = sv1 \<and> r = (case json_get ''id'' v of None \<Rightarrow> no_content
      | Some i \<Rightarrow> ok_json (rpc_response f meth i mode out))"
    using raw by (cases "meth = SEND_MESSAGE") (auto simp: rpc_call_def Let_def unwrap_or_def split: option.splits)
  then show ?thesis using rpc_response_outcome [OF assms(2)] by (auto split: option.splits)
qed

section \<open>The two bindings\<close>

text \<open>
  A request to one task in the form each binding gives it: for HTTP the method, the path below
  \<open>/tasks/\<close> and what the extractors make of the rest; for JSON-RPC the method and the params.
\<close>

definition plain_id :: "string \<Rightarrow> bool" where
  "plain_id i \<longleftrightarrow> i \<noteq> [] \<and> CHR ''/'' \<notin> set i \<and> strip_suffix '':cancel'' i = None \<and> strip_suffix '':subscribe'' i = None"

fun http_form :: "front \<Rightarrow> extractors \<Rightarrow> string \<Rightarrow> task_request \<Rightarrow> http_request \<Rightarrow> string \<Rightarrow> bool" where
  "http_form f ex i (ReqGet h) rq rest \<longleftrightarrow> rq_method rq = ''GET'' \<and> rest = i \<and>
     (\<exists>q. ex_task_query ex (rq_query rq) = Inr q \<and> gq_history_length q = h)"
| "http_form f ex i ReqCancel rq rest \<longleftrightarrow> rq_method rq = ''POST'' \<and> rest = i @ '':cancel''"
| "http_form f ex i ReqSubscribe rq rest \<longleftrightarrow> rq_method rq = ''POST'' \<and> rest = i @ '':subscribe''"
| "http_form f ex i (ReqCreateConfig body) rq rest \<longleftrightarrow> rq_method rq = ''POST'' \<and>
     rest = i @ ''/pushNotificationConfigs'' \<and> fr_push_config f (rq_body rq) = body"
| "http_form f ex i (ReqListConfigs page_token page_size) rq rest \<longleftrightarrow> rq_method rq = ''GET'' \<and>
     rest = i @ ''/pushNotificationConfigs'' \<and>
     (\<exists>q. ex_task_query ex (rq_query rq) = Inr q \<and> gq_page_token q = page_token \<and> gq_page_size q = page_size)"
| "http_form f ex i (ReqGetConfig c) rq rest \<longleftrightarrow> rq_method rq = ''GET'' \<and>
     rest = i @ ''/pushNotificationConfigs/'' @ c \<and> CHR ''/'' \<notin> set c \<and> (\<exists>q. ex_task_query ex (rq_query rq) = Inr q)"
| "http_form f ex i (ReqDeleteConfig c) rq rest \<longleftrightarrow> rq_method rq = ''DELETE'' \<and>
     rest = i @ ''/pushNotificationConfigs/'' @ c \<and> CHR ''/'' \<notin> set c"
| "http_form f ex i (ReqSend claims activated req) rq rest \<longleftrightarrow> False"
| "http_form f ex i (ReqSendStream claims activated req) rq rest \<longleftrightarrow> False"

fun rpc_form :: "front \<Rightarrow> string \<Rightarrow> task_request \<Rightarrow> string \<Rightarrow> json \<Rightarrow> bool" where
  "rpc_form f i (ReqGet h) meth params \<longleftrightarrow> meth = GET_TASK \<and> i \<noteq> [] \<and>
     fr_get_task f params = Inr \<lparr>gt_id = i, gt_history_length = h\<rparr>"
| "rpc_form f i ReqCancel meth params \<longleftrightarrow> meth = CANCEL_TASK \<and> json_get ''id'' params = Some (JString i)"
| "rpc_form f i ReqSubscribe meth params \<longleftrightarrow> meth = SUBSCRIBE_TO_TASK \<and> json_get ''id'' params = Some (JString i)"
| "rpc_form f i (ReqCreateConfig body) meth params \<longleftrightarrow> meth = CREATE_TASK_PUSH_NOTIFICATION_CONFIG \<and>
     json_get ''taskId'' params = Some (JString i) \<and> fr_push_config f (fr_to_string f params) = body"
| "rpc_form f i (ReqListConfigs page_token page_size) meth params \<longleftrightarrow> meth = LIST_TASK_PUSH_NOTIFICATION_CONFIGS \<and>
     json_get ''taskId'' params = Some (JString i) \<and> json_get ''pageToken'' params = map_option JString page_token \<and>
     json_get ''pageSize'' params = map_option JInt page_size \<and> (\<forall>n. page_size = Some n \<longrightarrow> - (2 ^ 31) \<le> n \<and> n < 2 ^ 31)"
| "rpc_form f i (ReqGetConfig c) meth params \<longleftrightarrow> meth = GET_TASK_PUSH_NOTIFICATION_CONFIG \<and>
     json_get ''taskId'' params = Some (JString i) \<and> json_get ''id'' params = Some (JString c)"
| "rpc_form f i (ReqDeleteConfig c) meth params \<longleftrightarrow> meth = DELETE_TASK_PUSH_NOTIFICATION_CONFIG \<and>
     json_get ''taskId'' params = Some (JString i) \<and> json_get ''id'' params = Some (JString c)"
| "rpc_form f i (ReqSend claims activated req) meth params \<longleftrightarrow> False"
| "rpc_form f i (ReqSendStream claims activated req) meth params \<longleftrightarrow> False"

text \<open>A response as the JSON both bindings carry.\<close>

definition response_json :: "front \<Rightarrow> response \<Rightarrow> json" where
  "response_json f r = (case r of
       TaskResponse t \<Rightarrow> fr_task_json f t | ConfigResponse c \<Rightarrow> fr_config_json f c
     | ConfigsResponse p \<Rightarrow> config_page_to_json f p | _ \<Rightarrow> JObject [])"

lemma map_reply_comp: "map_reply g (map_reply h r) = map_reply (\<lambda>x. g (h x)) r"
  by (cases r) (auto simp: map_reply_def split: sum.splits)

lemma guard_Inr [simp]: "guard (Inr x) k sv = k x sv"
  by (simp add: guard_def)

lemma page_size_param:
  assumes "\<forall>n. page_size = Some n \<longrightarrow> - (2 ^ 31) \<le> n \<and> n < 2 ^ 31"
  shows "map_option as_i32 (json_as_i64 (map_option JInt page_size)) = page_size"
  using assms by (cases page_size) (auto simp: json_as_i64_def as_i32_id i64_min_def i64_max_def)

lemma rpc_dispatch_request:
  assumes "rpc_form f i req meth params" and "req \<noteq> ReqSubscribe"
  shows "rpc_dispatch f meth tn ow claims activated params sv =
    map_option (map_reply (response_json f)) (handle_request (fr_send f) (fr_fuel f) tn ow i req sv)"
proof (cases req)
  case (ReqListConfigs page_token page_size)
  have token: "json_as_str (map_option JString page_token) = page_token" by (cases page_token) simp_all
  show ?thesis
    using assms ReqListConfigs page_size_param [of page_size]
    by (auto simp: rpc_dispatch_def method_names dispatch_list_push_configs_def answer_def required_str_def map_reply_comp
        response_json_def token)
qed (use assms in \<open>auto simp: rpc_dispatch_def method_names answer_def required_str_def map_reply_comp response_json_def
    dispatch_get_task_def dispatch_cancel_task_def dispatch_create_push_config_def dispatch_get_push_config_def
    dispatch_delete_push_config_def decode_request_def option.map_comp comp_def\<close>)

lemma rpc_streaming_request:
  assumes "rpc_form f i ReqSubscribe meth params"
  shows "dispatch_streaming f meth tn ow claims activated params sv = open_subscribe_stream (se_card (fr_send f)) tn ow i sv"
  using assms by (auto simp: dispatch_streaming_def method_names dispatch_subscribe_to_task_def required_str_def)

lemma strip_suffix_append: "strip_suffix s (i @ s) = Some i"
  by (simp add: strip_suffix_def strip_prefix_def)

lemma plain_path:
  assumes "plain_id i"
  shows "strip_prefix ''/'' (i @ s) = None"
  using assms by (cases i) (auto simp: plain_id_def strip_prefix_def)

lemma parse_plain:
  assumes "plain_id i"
  shows "parse_task_path i = Some (GetTask i)"
    and "parse_task_path (i @ '':cancel'') = Some (CancelTask i)"
    and "parse_task_path (i @ '':subscribe'') = Some (SubscribeToTask i)"
    and "parse_task_path (i @ ''/pushNotificationConfigs'') = Some (PushConfigCollection i)"
    and "CHR ''/'' \<notin> set c \<Longrightarrow> parse_task_path (i @ ''/pushNotificationConfigs/'' @ c) = Some (PushConfigItem i c)"
proof -
  have i: "CHR ''/'' \<notin> set i" "strip_suffix '':cancel'' i = None" "strip_suffix '':subscribe'' i = None"
    using assms by (auto simp: plain_id_def)
  note start = plain_path [OF assms]
  show "parse_task_path i = Some (GetTask i)"
    using i start [of "[]"] by (simp add: parse_task_path_def unwrap_or_def split_on_append)
  show "parse_task_path (i @ '':cancel'') = Some (CancelTask i)"
    using i start by (simp add: parse_task_path_def unwrap_or_def split_on_append strip_suffix_append)
  have "strip_suffix '':cancel'' (i @ '':subscribe'') = None"
    by (simp add: strip_suffix_def strip_prefix_def)
  then show "parse_task_path (i @ '':subscribe'') = Some (SubscribeToTask i)"
    using i start by (simp add: parse_task_path_def unwrap_or_def split_on_append strip_suffix_append)
  have config: "split_on (CHR ''/'') (i @ ''/pushNotificationConfigs'' @ s) =
      i # split_on (CHR ''/'') (''pushNotificationConfigs'' @ s)" for s
    using i(1) by (simp add: split_on_append)
  show "parse_task_path (i @ ''/pushNotificationConfigs'') = Some (PushConfigCollection i)"
    using config [of "[]"] start by (simp add: parse_task_path_def unwrap_or_def split_on_append)
  show "CHR ''/'' \<notin> set c \<Longrightarrow> parse_task_path (i @ ''/pushNotificationConfigs/'' @ c) = Some (PushConfigItem i c)"
    using config [of "''/'' @ c"] start by (simp add: parse_task_path_def unwrap_or_def split_on_append)
qed

text \<open>The task routes of HTTP answer a request with what the shared operation returns.\<close>

lemma task_route_request:
  assumes "http_form f ex i req rq rest" and "plain_id i" and "ow = identity_owner (rx_identity ctx)"
    and "negotiate_profile_extensions (se_card (fr_send f)) (rq_headers rq) = Inr echoed"
    and "route_tenant ex tno = Some tn" and "ex_decode ex p = Some rest"
  shows "\<exists>k. route_call f ex (TaskRoute tno p) ctx rq = Some k \<and>
    k sv = Option.bind (handle_request (fr_send f) (fr_fuel f) tn ow i req sv) (\<lambda>r. handler_reply r (response_reply f))"
  using assms(1) parse_plain [OF assms(2)] assms(3-6)
  by (cases req)
    (auto simp: route_call_def is_get_def require_activated_extensions_def with_tenant_def with_rest_def task_get_handler_def
      task_post_handler_def task_delete_handler_def dispatch_task_get_def dispatch_task_post_def dispatch_task_delete_def)

text \<open>A whole JSON-RPC request of the 1.0 format.\<close>

definition rpc_request :: "front \<Rightarrow> headers \<Rightarrow> string \<Rightarrow> json \<Rightarrow> string \<Rightarrow> json \<Rightarrow> string \<Rightarrow> bool" where
  "rpc_request f hs text rid meth params tn \<longleftrightarrow>
     (\<exists>v. fr_from_str f text = Some v \<and> json_get ''jsonrpc'' v = Some (JString ''2.0'') \<and>
        json_get ''id'' v = Some rid \<and> rid \<noteq> JNull \<and> json_get ''method'' v = Some (JString meth) \<and>
        json_get ''params'' v = Some params) \<and>
     rpc_mode f meth hs = V10 \<and> (\<exists>fs. params = JObject fs) \<and> tn = unwrap_or [] (json_as_str (json_get ''tenant'' params))"

lemma rpc_request_dispatched:
  assumes "rpc_request f hs text rid meth params tn" and "rpc_form f i req meth params" and "req \<noteq> ReqSubscribe"
  shows "jsonrpc_dispatch_inner f ctx hs text neg sv =
    map_option (\<lambda>(r, sv'). (ok_json (rpc_response f meth rid V10 (map_sum id (response_json f) r)), sv'))
      (handle_request (fr_send f) (fr_fuel f) tn (identity_owner (rx_identity ctx)) i req sv)"
proof -
  obtain v fs where v: "fr_from_str f text = Some v" "json_get ''jsonrpc'' v = Some (JString ''2.0'')"
      "json_get ''id'' v = Some rid" "rid \<noteq> JNull" "json_get ''method'' v = Some (JString meth)"
      "json_get ''params'' v = Some params" "rpc_mode f meth hs = V10" "params = JObject fs"
      "tn = unwrap_or [] (json_as_str (json_get ''tenant'' params))"
    using assms(1) by (auto simp: rpc_request_def)
  have meth: "meth \<notin> {SEND_MESSAGE, SEND_STREAMING_MESSAGE, SUBSCRIBE_TO_TASK}"
    using assms(2,3) by (cases req) (auto simp: method_names)
  have split: "map_option (\<lambda>(r, sv'). (ok_json (rpc_response f meth rid V10 r), sv')) (map_option (map_reply (response_json f)) h) =
      map_option (\<lambda>(r, sv'). (ok_json (rpc_response f meth rid V10 (map_sum id (response_json f) r)), sv')) h" for h
    by (cases h) (auto simp: map_reply_def split: sum.splits)
  have "request_params v = Some params"
    using v(6,8) by (simp add: request_params_def)
  then have "jsonrpc_dispatch_inner f ctx hs text neg sv =
      map_option (\<lambda>(r, sv'). (ok_json (rpc_response f meth rid V10 r), sv'))
        (rpc_dispatch f meth tn (identity_owner (rx_identity ctx)) (identity_claims (rx_identity ctx)) neg params sv)"
    using v meth
    by (simp add: jsonrpc_dispatch_inner_def rpc_call_def Let_def unwrap_or_def maybe_normalize_method_def
        maybe_normalize_params_def)
  then show ?thesis by (simp add: rpc_dispatch_request [OF assms(2,3)] split)
qed

section \<open>The 0.3 wire format\<close>

text \<open>The strings under a key.\<close>

fun string_of :: "json \<Rightarrow> string list" where
  "string_of (JString s) = [s]"
| "string_of v = []"

fun strings_under :: "string \<Rightarrow> json \<Rightarrow> string list" where
  "strings_under key (JObject fs) =
     concat (map (\<lambda>(k, v). (if k = key then string_of v else []) @ strings_under key v) fs)"
| "strings_under key (JArray vs) = concat (map (strings_under key) vs)"
| "strings_under key v = []"

lemma rewrite_string_laws:
  "rewrite_field key g (rewrite_string f v) = rewrite_string f (rewrite_field key g v)"
  "rewrite_string g (rewrite_string f v) = rewrite_string (\<lambda>s. g (f s)) v"
  "string_of (rewrite_field key g v) = string_of v"
  "\<forall>s\<in>set (string_of v). f s = s \<Longrightarrow> rewrite_string f v = v"
  by (cases v; simp)+

lemma rewrite_field_comp: "rewrite_field key g (rewrite_field key f j) = rewrite_field key (\<lambda>s. g (f s)) j"
proof (induction key f j rule: rewrite_field.induct)
  case (1 key f fs)
  then have "\<And>k v. (k, v) \<in> set fs \<Longrightarrow> rewrite_field key g (rewrite_field key f v) = rewrite_field key (\<lambda>s. g (f s)) v"
    by metis
  then show ?case by (auto simp: rewrite_string_laws)
qed simp_all

lemma strings_below:
  assumes "(k, v) \<in> set fs"
  shows "set (strings_under key v) \<subseteq> set (strings_under key (JObject fs))"
    and "k = key \<Longrightarrow> set (string_of v) \<subseteq> set (strings_under key (JObject fs))"
  using assms by fastforce+

lemma rewrite_field_id:
  assumes "\<forall>s\<in>set (strings_under key j). f s = s"
  shows "rewrite_field key f j = j"
  using assms
proof (induction j)
  case (JObject fs)
  have "rewrite_field key f v = v" "k = key \<Longrightarrow> rewrite_string f v = v" if "(k, v) \<in> set fs" for k v
    using JObject.IH [OF that, of v] JObject.prems strings_below [OF that, of key]
      rewrite_string_laws(4) [of v f] by (auto simp del: strings_under.simps)
  then show ?case by (auto intro!: map_idI)
qed (auto intro!: map_idI)

lemma v03_role_inverse:
  "s \<noteq> ''ROLE_USER'' \<Longrightarrow> s \<noteq> ''ROLE_AGENT'' \<Longrightarrow> v03_role (v10_role s) = s"
  "s \<noteq> ''user'' \<Longrightarrow> s \<noteq> ''agent'' \<Longrightarrow> v10_role (v03_role s) = s"
  by (auto simp: v03_role_def v10_role_def)

lemma roles_round_trip:
  "{''ROLE_USER'', ''ROLE_AGENT''} \<inter> set (strings_under ''role'' j) = {} \<Longrightarrow> denormalize_roles (normalize_roles j) = j"
  "{''user'', ''agent''} \<inter> set (strings_under ''role'' j) = {} \<Longrightarrow> normalize_roles (denormalize_roles j) = j"
  unfolding denormalize_roles_def normalize_roles_def rewrite_field_comp
  by (rule rewrite_field_id, intro ballI v03_role_inverse; blast)+

text \<open>The client's own data is rewritten along: a \<open>role\<close> in a data part, say.\<close>

lemma v03_rewrites_user_data:
  "normalize_roles (JObject [(''data'', JObject [(''role'', JString ''user'')])]) =
     JObject [(''data'', JObject [(''role'', JString ''ROLE_USER'')])]"
  by (simp add: normalize_roles_def v10_role_def)

lemma wire_name_v03: "v03_state (wire_name st) = the (v03_state_name st)"
proof -
  have "from_wire_name (wire_name st) = Some st" by (simp add: from_wire_name_def wire_name_def)
  then show ?thesis by (cases st) (simp_all add: v03_state_def unwrap_or_def)
qed

text \<open>The states of a task by their names in 0.3 and in 1.0.\<close>

definition state_names :: "(string \<times> string) list" where
  "state_names = [
     (''submitted'', ''TASK_STATE_SUBMITTED''), (''working'', ''TASK_STATE_WORKING''),
     (''input-required'', ''TASK_STATE_INPUT_REQUIRED''), (''completed'', ''TASK_STATE_COMPLETED''),
     (''canceled'', ''TASK_STATE_CANCELED''), (''failed'', ''TASK_STATE_FAILED''),
     (''rejected'', ''TASK_STATE_REJECTED''), (''auth-required'', ''TASK_STATE_AUTH_REQUIRED'')]"

definition v10_state :: "string \<Rightarrow> string" where
  "v10_state s = unwrap_or s (map_of state_names s)"

lemma wire_state_names:
  "map (\<lambda>st. (v03_state (wire_name st), wire_name st)) [Submitted, Working, InputRequired, Completed, Canceled,
     Failed, Rejected, AuthRequired] = state_names"
  by code_simp

lemma from_wire_name_inverse: "from_wire_name s = Some st \<Longrightarrow> wire_name st = s"
  using pb_from_str_name_SomeD [of s]
  by (cases "pb_from_str_name s")
    (auto simp: from_wire_name_def wire_name_def state_try_from_pb_Inr split: sum.splits)

lemma v10_state_inverse:
  assumes "s \<notin> fst ` set state_names"
  shows "v10_state (v03_state s) = s"
proof (cases "from_wire_name s")
  case None
  have "map_of state_names s = None" using assms by (simp add: map_of_eq_None_iff)
  with None show ?thesis by (simp add: v03_state_def v10_state_def unwrap_or_def)
next
  case (Some st)
  have "list_all (\<lambda>st. v10_state (v03_state (wire_name st)) = wire_name st) [Submitted, Working, InputRequired,
     Completed, Canceled, Failed, Rejected, AuthRequired]" by code_simp
  then have "v10_state (v03_state (wire_name st)) = wire_name st" by (cases st) simp_all
  with from_wire_name_inverse [OF Some] show ?thesis by simp
qed

lemma strings_under_rewrite:
  assumes "key \<noteq> key'"
  shows "strings_under key (rewrite_field key' f j) = strings_under key j"
proof (induction j)
  case (JObject fs)
  have sub: "strings_under key (rewrite_string f v) = strings_under key v" for v by (cases v) simp_all
  have "strings_under key (rewrite_field key' f v) = strings_under key v" if "(k, v) \<in> set fs" for k v
    using JObject.IH [OF that, of v] by simp
  then have "(if k = key then string_of (if k = key' then rewrite_string f (rewrite_field key' f v) else rewrite_field key' f v)
      else []) @ strings_under key (if k = key' then rewrite_string f (rewrite_field key' f v) else rewrite_field key' f v) =
      (if k = key then string_of v else []) @ strings_under key v" if "(k, v) \<in> set fs" for k v
    using that assms by (auto simp: sub rewrite_string_laws(3))
  then show ?case by (auto intro!: arg_cong [where f = concat] map_cong)
next
  case (JArray vs)
  then show ?case by (auto intro!: arg_cong [where f = concat] map_cong)
qed simp_all

text \<open>A reply rewritten to 0.3 can be read back, unless it holds a name of 0.3 as data.\<close>

lemma response_round_trip:
  assumes "{''user'', ''agent''} \<inter> set (strings_under ''role'' j) = {}"
    and "fst ` set state_names \<inter> set (strings_under ''state'' j) = {}"
  shows "rewrite_field ''state'' v10_state (normalize_roles (denormalize_roles (normalize_task_state_enums j))) = j"
proof -
  have "normalize_roles (denormalize_roles (normalize_task_state_enums j)) = normalize_task_state_enums j"
    using assms(1) by (intro roles_round_trip) (simp add: normalize_task_state_enums_def strings_under_rewrite)
  moreover have "rewrite_field ''state'' v10_state (normalize_task_state_enums j) = j"
    unfolding normalize_task_state_enums_def rewrite_field_comp
    by (rule rewrite_field_id) (use assms(2) v10_state_inverse in blast)
  ultimately show ?thesis by simp
qed

lemma v03_method_named:
  assumes "CHR ''/'' \<in> set old" and "header_get VERSION_PARAM hs = None"
  shows "maybe_normalize_method old (detect_compat_mode old hs) = normalize_jsonrpc_method old"
  using assms by (simp add: detect_compat_mode_def maybe_normalize_method_def)

lemma modern_method_kept:
  assumes "CHR ''/'' \<notin> set meth"
  shows "maybe_normalize_method meth mode = meth"
proof -
  have "list_all (\<lambda>(old, new). CHR ''/'' \<in> set old) v03_methods" by code_simp
  then have "map_of v03_methods meth = None"
    using assms by (auto simp: list_all_iff map_of_eq_None_iff)
  then show ?thesis
    by (simp add: maybe_normalize_method_def normalize_jsonrpc_method_def unwrap_or_def split: compat_mode.split)
qed

text \<open>A reply in 0.3: the task itself, with the old names of states and roles.\<close>

lemma v03_task_reply:
  "maybe_normalize_response (jsonrpc_success i (task_reply_json f t)) V03 =
     jsonrpc_success i (denormalize_roles (normalize_task_state_enums (fr_task_json f t)))"
  by (simp add: maybe_normalize_response_def jsonrpc_success_def task_reply_json_def unwrap_or_def)

section \<open>Required extensions\<close>

lemma required_extension_refused:
  assumes "card_capabilities (se_card (fr_send f)) = Some c" and "ext \<in> set (cap_extensions c)" and "ext_required ext"
    and "ext_uri ext \<notin> set (activated_from_headers (rq_headers req))"
    and "route_call f ex r ctx req = Some k" and "r \<noteq> AgentCardRoute"
  shows "\<exists>uri rep. k sv = Some (rep, sv) \<and> rp_body rep = JsonBody
    (if r = JsonRpcRoute then to_jsonrpc_error (ExtensionSupportRequired uri) None
     else to_http_error_body (ExtensionSupportRequired uri))"
proof -
  obtain uri where uri: "negotiate_profile_extensions (se_card (fr_send f)) (rq_headers req) = Inl (ExtensionSupportRequired uri)"
    using required_not_activated [OF assms(1-4)] by blast
  show ?thesis
    using assms(5,6) uri
    by (cases r)
      (auto simp: route_call_def jsonrpc_dispatch_handler_def require_activated_extensions_def attach_extension_echo_def
        response_header_value_def ok_json_def into_response_def json_response_def split: if_splits)
qed

section \<open>Unary replies\<close>

lemma handler_reply_map: "handler_reply (map_reply g r) k = handler_reply r (\<lambda>x. k (g x))"
  by (cases r) (auto simp: handler_reply_def map_reply_def split: sum.splits)

lemma unary_replies:
  assumes "req \<noteq> ReqSubscribe" and "\<nexists>claims activated r. req = ReqSendStream claims activated r"
  shows "Option.bind (handle_request w fuel tn ow i req sv) (\<lambda>r. handler_reply r (response_reply f)) =
    Option.bind (handle_request w fuel tn ow i req sv) (\<lambda>r. handler_reply r (\<lambda>x. ok_json (response_json f x)))"
proof (cases req)
  case ReqCancel
  then show ?thesis
    by (cases "core_cancel_task fuel tn ow i sv") (simp_all add: handler_reply_map response_reply_def response_json_def)
qed (use assms in \<open>simp_all add: handler_reply_map response_reply_def response_json_def\<close>)

end
