(* ===== verification/Grpc_Service.thy ===== *)
theory Grpc_Service
  imports Rpc_Laws
begin

text \<open>
  The gRPC binding: \<open>grpc/auth.rs\<close>, \<open>grpc/service.rs\<close>, \<open>grpc/streaming.rs\<close>. A call reaches its
  handler with the message decoded by tonic and the context the layer left in its extensions; the
  handlers run the operations the JSON bindings run. The conversions between the generated types
  and JSON are fields of \<open>grpc_codec\<close>.
\<close>

section \<open>Statuses\<close>

record rpc_status =
  rs_code :: string
  rs_message :: string
  rs_info :: "error_info option"

fun code_name :: "grpc_code \<Rightarrow> string" where
  "code_name CodeNotFound = ''NOT_FOUND''"
| "code_name CodeFailedPrecondition = ''FAILED_PRECONDITION''"
| "code_name CodeInvalidArgument = ''INVALID_ARGUMENT''"
| "code_name CodeInternal = ''INTERNAL''"

definition a2a_status :: "a2a_error \<Rightarrow> rpc_status" where
  "a2a_status e = (let s = a2a_to_status e
     in \<lparr>rs_code = code_name (ge_code s), rs_message = ge_message s, rs_info = ge_error_info s\<rparr>)"

lemmas error_renderings = to_jsonrpc_error_def error_info_json_def a2a_status_def a2a_to_status_def ERROR_DOMAIN_def

definition internal_from_json :: "string \<Rightarrow> rpc_status" where
  "internal_from_json err = \<lparr>rs_code = ''INTERNAL'',
     rs_message = ''grpc adapter: proto/json mismatch: '' @ err, rs_info = None\<rparr>"

fun middleware_code :: "middleware_error \<Rightarrow> string" where
  "middleware_code (HttpChallenge InsufficientScope) = ''PERMISSION_DENIED''"
| "middleware_code (Unauthenticated _) = ''UNAUTHENTICATED''"
| "middleware_code (HttpChallenge _) = ''UNAUTHENTICATED''"
| "middleware_code (Forbidden _) = ''PERMISSION_DENIED''"
| "middleware_code (MiddlewareInternal _) = ''INTERNAL''"

definition middleware_error_to_grpc_response :: "middleware_error \<Rightarrow> rpc_status" where
  "middleware_error_to_grpc_response e = \<lparr>rs_code = middleware_code e, rs_message = middleware_message e,
     rs_info = Some (error_info_new (middleware_reason e) AUTH_ERROR_DOMAIN)\<rparr>"

section \<open>Messages\<close>

record send_message_request =
  sm_tenant :: string
  sm_request :: send_request

datatype send_reply_payload = TaskPayload pb_task | MessagePayload pb_message

datatype grpc_call =
    RpcSendMessage send_message_request
  | RpcGetTask string get_task_request
  | RpcListTasks string list_tasks_request
  | RpcCancelTask string string
  | RpcCreateConfig push_config
  | RpcGetConfig string string string
  | RpcListConfigs string string int string
  | RpcDeleteConfig string string string
  | RpcExtendedCard string
  | RpcSendStreaming send_message_request
  | RpcSubscribe string string

datatype grpc_message =
    SendReply send_reply_payload
  | TaskReply pb_task
  | TasksReply task_list_page
  | ConfigReply push_config
  | ConfigsReply push_config_page
  | EmptyReply
  | CardReply json
  | StreamReply opened_stream

text \<open>\<open>serde_json::to_string\<close> of the requests and \<open>from_value\<close> of the replies.\<close>

record grpc_codec =
  gc_send_text :: "send_message_request \<Rightarrow> string + string"
  gc_config_text :: "push_config \<Rightarrow> string + string"
  gc_send_reply :: "json \<Rightarrow> string + send_reply_payload"
  gc_task :: "json \<Rightarrow> string + pb_task"
  gc_tasks :: "json \<Rightarrow> string + task_list_page"
  gc_config :: "json \<Rightarrow> string + push_config"
  gc_configs :: "json \<Rightarrow> string + push_config_page"
  gc_item :: "json \<Rightarrow> string + stream_item"

text \<open>A request: its metadata and the context the layer installed.\<close>

record grpc_request =
  gq_metadata :: headers
  gq_context :: "request_context option"

type_synonym grpc_answered = "((rpc_status + grpc_message \<times> headers) \<times> server) option"

definition TENANT_METADATA :: string where
  "TENANT_METADATA = ''x-tenant-id''"

definition tenant_from :: "grpc_request \<Rightarrow> string \<Rightarrow> string" where
  "tenant_from rq proto_tenant =
     (if proto_tenant \<noteq> [] then proto_tenant
      else unwrap_or [] (Option.bind (header_get TENANT_METADATA (gq_metadata rq)) to_str))"

definition owner_from :: "grpc_request \<Rightarrow> string" where
  "owner_from rq = (case gq_context rq of Some ctx \<Rightarrow> identity_owner (rx_identity ctx) | None \<Rightarrow> ''anonymous'')"

definition claims_from :: "grpc_request \<Rightarrow> json option" where
  "claims_from rq = Option.bind (gq_context rq) (\<lambda>ctx. identity_claims (rx_identity ctx))"

definition negotiate_profile_extensions_grpc :: "front \<Rightarrow> headers \<Rightarrow> a2a_error + string list" where
  "negotiate_profile_extensions_grpc f md =
     (let activated = parse_a2a_extensions (Option.bind (header_get EXTENSIONS_PARAM md) to_str)
      in validate_activation activated
           (case card_capabilities (se_card (fr_send f)) of Some c \<Rightarrow> cap_extensions c | None \<Rightarrow> []))"

definition attach_extension_echo_grpc :: "string list \<Rightarrow> headers \<Rightarrow> headers" where
  "attach_extension_echo_grpc echoed md = (case response_header_value echoed of
       Some v \<Rightarrow> if list_all (\<lambda>c. 32 \<le> byte c \<and> byte c \<noteq> 127 \<or> byte c = 9) v
         then header_insert EXTENSIONS_PARAM v md else md
     | None \<Rightarrow> md)"

section \<open>Handlers\<close>

definition refused :: "rpc_status \<Rightarrow> server \<Rightarrow> grpc_answered" where
  "refused s sv = Some (Inl s, sv)"

text \<open>\<open>map_err(a2a_to_status)\<close>, then the reply decoded from its JSON.\<close>

definition rpc_answer :: "('a \<Rightarrow> string + grpc_message) \<Rightarrow> headers \<Rightarrow> 'a handled \<Rightarrow> grpc_answered" where
  "rpc_answer dec md r = Some (case r of
       (Inl e, sv) \<Rightarrow> (Inl (a2a_status e), sv)
     | (Inr x, sv) \<Rightarrow> (case dec x of
         Inl e \<Rightarrow> (Inl (internal_from_json e), sv) | Inr m \<Rightarrow> (Inr (m, md), sv)))"

definition with_extensions ::
  "front \<Rightarrow> grpc_request \<Rightarrow> (string list \<Rightarrow> server \<Rightarrow> grpc_answered) \<Rightarrow> server \<Rightarrow> grpc_answered" where
  "with_extensions f rq k sv = (case negotiate_profile_extensions_grpc f (gq_metadata rq) of
       Inl e \<Rightarrow> refused (a2a_status e) sv | Inr echoed \<Rightarrow> k echoed sv)"

text \<open>The two sends: the request goes back to the text the JSON bindings would have received.\<close>

definition with_send_body ::
  "front \<Rightarrow> grpc_codec \<Rightarrow> grpc_request \<Rightarrow> send_message_request \<Rightarrow>
   (string list \<Rightarrow> string \<Rightarrow> server \<Rightarrow> grpc_answered) \<Rightarrow> server \<Rightarrow> grpc_answered" where
  "with_send_body f C rq r k = with_extensions f rq (\<lambda>echoed sv. case gc_send_text C r of
       Inl e \<Rightarrow> refused (internal_from_json e) sv
     | Inr text \<Rightarrow> (case check_skill_invocation_body (fr_from_str f) echoed text of
         Inl e \<Rightarrow> refused (a2a_status e) sv | Inr _ \<Rightarrow> k echoed text sv))"

definition grpc_send_message :: "front \<Rightarrow> grpc_codec \<Rightarrow> grpc_request \<Rightarrow> send_message_request \<Rightarrow> server \<Rightarrow> grpc_answered" where
  "grpc_send_message f C rq r = with_send_body f C rq r (\<lambda>echoed text sv.
     rpc_answer (\<lambda>t. map_sum id SendReply (gc_send_reply C (task_reply_json f t))) (attach_extension_echo_grpc echoed [])
       (core_send_message (fr_send f) (tenant_from rq (sm_tenant r)) (owner_from rq) (claims_from rq) echoed
         (fr_send_request f text) sv))"

definition grpc_send_streaming_message ::
  "front \<Rightarrow> grpc_codec \<Rightarrow> grpc_request \<Rightarrow> send_message_request \<Rightarrow> server \<Rightarrow> grpc_answered" where
  "grpc_send_streaming_message f C rq r = with_send_body f C rq r (\<lambda>echoed text sv.
     rpc_answer (\<lambda>st. Inr (StreamReply st)) (attach_extension_echo_grpc echoed [])
       (open_send_stream (fr_send f) (tenant_from rq (sm_tenant r)) (owner_from rq) (claims_from rq) echoed
         (fr_send_request f text) sv))"

definition grpc_get_task :: "front \<Rightarrow> grpc_codec \<Rightarrow> grpc_request \<Rightarrow> string \<Rightarrow> get_task_request \<Rightarrow> server \<Rightarrow> grpc_answered" where
  "grpc_get_task f C rq tn r = with_extensions f rq (\<lambda>_ sv.
     rpc_answer (\<lambda>t. map_sum id TaskReply (gc_task C (fr_task_json f t))) []
       (core_get_task (tenant_from rq tn) (owner_from rq) (gt_id r) (gt_history_length r) sv))"

definition grpc_list_tasks :: "front \<Rightarrow> grpc_codec \<Rightarrow> grpc_request \<Rightarrow> string \<Rightarrow> list_tasks_request \<Rightarrow> server \<Rightarrow> grpc_answered" where
  "grpc_list_tasks f C rq tn r = with_extensions f rq (\<lambda>_ sv.
     rpc_answer (\<lambda>p. map_sum id TasksReply (gc_tasks C (list_page_to_json f p))) []
       (guard (list_query_from_proto f r) (\<lambda>q.
          core_list_tasks (fr_chrono f) (fr_parse_rfc3339 f) (tenant_from rq tn) (owner_from rq) q) sv))"

definition grpc_cancel_task :: "front \<Rightarrow> grpc_codec \<Rightarrow> grpc_request \<Rightarrow> string \<Rightarrow> string \<Rightarrow> server \<Rightarrow> grpc_answered" where
  "grpc_cancel_task f C rq tn i = with_extensions f rq (\<lambda>_ sv.
     Option.bind (core_cancel_task (fr_fuel f) (tenant_from rq tn) (owner_from rq) i sv)
       (rpc_answer (\<lambda>t. map_sum id TaskReply (gc_task C (fr_task_json f t))) []))"

definition grpc_create_config :: "front \<Rightarrow> grpc_codec \<Rightarrow> grpc_request \<Rightarrow> push_config \<Rightarrow> server \<Rightarrow> grpc_answered" where
  "grpc_create_config f C rq cfg = with_extensions f rq (\<lambda>_ sv.
     if pc_task_id cfg = [] then refused (a2a_status (InvalidRequest ''push config task_id is required'')) sv
     else case gc_config_text C cfg of
         Inl e \<Rightarrow> refused (internal_from_json e) sv
       | Inr text \<Rightarrow> rpc_answer (\<lambda>c. map_sum id ConfigReply (gc_config C (fr_config_json f c))) []
           (core_create_push_config (se_card (fr_send f)) (se_url_error (fr_send f)) (se_uuid_config (fr_send f))
             (se_gap (fr_send f)) (tenant_from rq (pc_tenant cfg)) (owner_from rq) (pc_task_id cfg)
             (fr_push_config f text) sv))"

definition grpc_get_config ::
  "front \<Rightarrow> grpc_codec \<Rightarrow> grpc_request \<Rightarrow> string \<Rightarrow> string \<Rightarrow> string \<Rightarrow> server \<Rightarrow> grpc_answered" where
  "grpc_get_config f C rq tn i c = with_extensions f rq (\<lambda>_ sv.
     rpc_answer (\<lambda>c. map_sum id ConfigReply (gc_config C (fr_config_json f c))) []
       (core_get_push_config (se_card (fr_send f)) (tenant_from rq tn) (owner_from rq) i c sv))"

definition grpc_list_configs ::
  "front \<Rightarrow> grpc_codec \<Rightarrow> grpc_request \<Rightarrow> string \<Rightarrow> string \<Rightarrow> int \<Rightarrow> string \<Rightarrow> server \<Rightarrow> grpc_answered" where
  "grpc_list_configs f C rq tn i page_size page_token = with_extensions f rq (\<lambda>_ sv.
     rpc_answer (\<lambda>p. map_sum id ConfigsReply (gc_configs C (config_page_to_json f p))) []
       (core_list_push_configs (se_card (fr_send f)) (tenant_from rq tn) (owner_from rq) i (nonempty page_token)
         (if page_size > 0 then Some page_size else None) sv))"

definition grpc_delete_config ::
  "front \<Rightarrow> grpc_request \<Rightarrow> string \<Rightarrow> string \<Rightarrow> string \<Rightarrow> server \<Rightarrow> grpc_answered" where
  "grpc_delete_config f rq tn i c = with_extensions f rq (\<lambda>_ sv.
     rpc_answer (\<lambda>_. Inr EmptyReply) []
       (core_delete_push_config (se_card (fr_send f)) (tenant_from rq tn) (owner_from rq) i c sv))"

definition grpc_get_extended_agent_card :: "front \<Rightarrow> grpc_request \<Rightarrow> server \<Rightarrow> grpc_answered" where
  "grpc_get_extended_agent_card f rq = with_extensions f rq (\<lambda>_ sv.
     rpc_answer (\<lambda>c. Inr (CardReply c)) [] (core_get_extended_agent_card f (claims_from rq), sv))"

definition grpc_subscribe_to_task :: "front \<Rightarrow> grpc_request \<Rightarrow> string \<Rightarrow> string \<Rightarrow> server \<Rightarrow> grpc_answered" where
  "grpc_subscribe_to_task f rq tn i = with_extensions f rq (\<lambda>_ sv.
     rpc_answer (\<lambda>st. Inr (StreamReply st)) []
       (open_subscribe_stream (se_card (fr_send f)) (tenant_from rq tn) (owner_from rq) i sv))"

fun grpc_dispatch :: "front \<Rightarrow> grpc_codec \<Rightarrow> grpc_request \<Rightarrow> grpc_call \<Rightarrow> server \<Rightarrow> grpc_answered" where
  "grpc_dispatch f C rq (RpcSendMessage r) = grpc_send_message f C rq r"
| "grpc_dispatch f C rq (RpcGetTask tn r) = grpc_get_task f C rq tn r"
| "grpc_dispatch f C rq (RpcListTasks tn r) = grpc_list_tasks f C rq tn r"
| "grpc_dispatch f C rq (RpcCancelTask tn i) = grpc_cancel_task f C rq tn i"
| "grpc_dispatch f C rq (RpcCreateConfig cfg) = grpc_create_config f C rq cfg"
| "grpc_dispatch f C rq (RpcGetConfig tn i c) = grpc_get_config f C rq tn i c"
| "grpc_dispatch f C rq (RpcListConfigs tn i n tok) = grpc_list_configs f C rq tn i n tok"
| "grpc_dispatch f C rq (RpcDeleteConfig tn i c) = grpc_delete_config f rq tn i c"
| "grpc_dispatch f C rq (RpcExtendedCard tn) = grpc_get_extended_agent_card f rq"
| "grpc_dispatch f C rq (RpcSendStreaming r) = grpc_send_streaming_message f C rq r"
| "grpc_dispatch f C rq (RpcSubscribe tn i) = grpc_subscribe_to_task f rq tn i"

text \<open>The items of a stream: the snapshot as it is, an event through its JSON.\<close>

definition grpc_stream :: "front \<Rightarrow> grpc_codec \<Rightarrow> stream_items \<Rightarrow> (rpc_status + stream_item) list" where
  "grpc_stream f C = map (\<lambda>item. case item of
       Inr (ItemTask t) \<Rightarrow> Inr (ItemTask t)
     | Inr (ItemEvent e) \<Rightarrow> (case gc_item C (fr_event_json f e) of
         Inr x \<Rightarrow> Inr x
       | Inl err \<Rightarrow> Inl \<lparr>rs_code = ''INTERNAL'',
           rs_message = ''grpc adapter: failed to encode stream event: '' @ err, rs_info = None\<rparr>)
     | Inl e \<Rightarrow> Inl (a2a_status e))"

section \<open>The layer\<close>

definition GRPC_SERVICE :: string where
  "GRPC_SERVICE = ''lf.a2a.v1.A2AService''"

definition is_a2a_call :: "string \<Rightarrow> bool" where
  "is_a2a_call path = (case Option.bind (strip_prefix ''/'' path) (strip_prefix GRPC_SERVICE) of
       Some rest \<Rightarrow> strip_prefix ''/'' rest \<noteq> None | None \<Rightarrow> False)"

definition check_a2a_version :: "string \<Rightarrow> headers \<Rightarrow> a2a_error + unit" where
  "check_a2a_version path hs =
     (if \<not> is_a2a_call path then Inr ()
      else check_version (map_option (\<lambda>v. unwrap_or [] (to_str v)) (header_get VERSION_PARAM hs)) False)"

definition grpc_auth_call ::
  "middleware list \<Rightarrow> string \<Rightarrow> headers \<Rightarrow> (request_context \<Rightarrow> server \<Rightarrow> grpc_answered) \<Rightarrow> server \<Rightarrow> grpc_answered" where
  "grpc_auth_call stack path hs inner sv =
     (case check_a2a_version path hs of
        Inl e \<Rightarrow> refused (a2a_status e) sv
      | Inr _ \<Rightarrow>
          if stack = [] then inner (context_from_headers hs) sv
          else (case before_request stack (context_from_headers hs) of
              (Inr _, ctx) \<Rightarrow> inner ctx sv
            | (Inl e, _) \<Rightarrow> refused (middleware_error_to_grpc_response e) sv))"

definition rpc_name :: "grpc_call \<Rightarrow> string" where
  "rpc_name call = (case call of
       RpcSendMessage _ \<Rightarrow> ''SendMessage'' | RpcGetTask _ _ \<Rightarrow> ''GetTask'' | RpcListTasks _ _ \<Rightarrow> ''ListTasks''
     | RpcCancelTask _ _ \<Rightarrow> ''CancelTask'' | RpcCreateConfig _ \<Rightarrow> ''CreateTaskPushNotificationConfig''
     | RpcGetConfig _ _ _ \<Rightarrow> ''GetTaskPushNotificationConfig''
     | RpcListConfigs _ _ _ _ \<Rightarrow> ''ListTaskPushNotificationConfigs''
     | RpcDeleteConfig _ _ _ \<Rightarrow> ''DeleteTaskPushNotificationConfig''
     | RpcExtendedCard _ \<Rightarrow> ''GetExtendedAgentCard'' | RpcSendStreaming _ \<Rightarrow> ''SendStreamingMessage''
     | RpcSubscribe _ _ \<Rightarrow> ''SubscribeToTask'')"

definition grpc_serve :: "front \<Rightarrow> grpc_codec \<Rightarrow> headers \<Rightarrow> grpc_call \<Rightarrow> server \<Rightarrow> grpc_answered" where
  "grpc_serve f C hs call = grpc_auth_call (fr_stack f) (''/'' @ GRPC_SERVICE @ ''/'' @ rpc_name call) hs
     (\<lambda>ctx. grpc_dispatch f C \<lparr>gq_metadata = hs, gq_context = Some ctx\<rparr> call)"

section \<open>One service\<close>

text \<open>A request about task \<open>i\<close> as a call, \<open>tn\<close> its tenant field.\<close>

fun grpc_form :: "front \<Rightarrow> grpc_codec \<Rightarrow> string \<Rightarrow> string \<Rightarrow> task_request \<Rightarrow> grpc_call \<Rightarrow> bool" where
  "grpc_form f C tn i (ReqGet h) call \<longleftrightarrow> call = RpcGetTask tn \<lparr>gt_id = i, gt_history_length = h\<rparr>"
| "grpc_form f C tn i ReqCancel call \<longleftrightarrow> call = RpcCancelTask tn i"
| "grpc_form f C tn i ReqSubscribe call \<longleftrightarrow> call = RpcSubscribe tn i"
| "grpc_form f C tn i (ReqCreateConfig body) call \<longleftrightarrow> i \<noteq> [] \<and> (\<exists>cfg text. call = RpcCreateConfig cfg \<and>
     pc_tenant cfg = tn \<and> pc_task_id cfg = i \<and> gc_config_text C cfg = Inr text \<and> fr_push_config f text = body)"
| "grpc_form f C tn i (ReqListConfigs page_token page_size) call \<longleftrightarrow> (\<exists>n tok. call = RpcListConfigs tn i n tok \<and>
     page_size = (if n > 0 then Some n else None) \<and> page_token = nonempty tok)"
| "grpc_form f C tn i (ReqGetConfig c) call \<longleftrightarrow> call = RpcGetConfig tn i c"
| "grpc_form f C tn i (ReqDeleteConfig c) call \<longleftrightarrow> call = RpcDeleteConfig tn i c"
| "grpc_form f C tn i (ReqSend claims activated req) call \<longleftrightarrow> False"
| "grpc_form f C tn i (ReqSendStream claims activated req) call \<longleftrightarrow> False"

fun grpc_of_response :: "response \<Rightarrow> grpc_message" where
  "grpc_of_response (TaskResponse t) = TaskReply t"
| "grpc_of_response (StreamResponse st) = StreamReply st"
| "grpc_of_response (ConfigResponse c) = ConfigReply c"
| "grpc_of_response (ConfigsResponse p) = ConfigsReply p"
| "grpc_of_response EmptyResponse = EmptyReply"

text \<open>A response comes back from its JSON.\<close>

fun reply_decodes :: "front \<Rightarrow> grpc_codec \<Rightarrow> response \<Rightarrow> bool" where
  "reply_decodes f C (TaskResponse t) \<longleftrightarrow> gc_task C (fr_task_json f t) = Inr t"
| "reply_decodes f C (ConfigResponse c) \<longleftrightarrow> gc_config C (fr_config_json f c) = Inr c"
| "reply_decodes f C (ConfigsResponse p) \<longleftrightarrow> gc_configs C (config_page_to_json f p) = Inr p"
| "reply_decodes f C (StreamResponse st) \<longleftrightarrow> True"
| "reply_decodes f C EmptyResponse \<longleftrightarrow> True"

definition replies_decode :: "front \<Rightarrow> grpc_codec \<Rightarrow> response handled option \<Rightarrow> bool" where
  "replies_decode f C res \<longleftrightarrow> (case res of Some (Inr x, sv') \<Rightarrow> reply_decodes f C x | _ \<Rightarrow> True)"

definition grpc_reply :: "(a2a_error + response) \<times> server \<Rightarrow> (rpc_status + grpc_message \<times> headers) \<times> server" where
  "grpc_reply r = (map_sum a2a_status (\<lambda>x. (grpc_of_response x, [])) (fst r), snd r)"

lemma negotiate_grpc: "negotiate_profile_extensions_grpc f md = negotiate_profile_extensions (se_card (fr_send f)) md"
  by (simp add: negotiate_profile_extensions_grpc_def negotiate_profile_extensions_def activated_from_headers_def Let_def)

lemma rpc_answers:
  "replies_decode f C (Some (map_reply TaskResponse r1)) \<Longrightarrow>
     rpc_answer (\<lambda>t. map_sum id TaskReply (gc_task C (fr_task_json f t))) [] r1 = Some (grpc_reply (map_reply TaskResponse r1))"
  "replies_decode f C (Some (map_reply ConfigResponse r2)) \<Longrightarrow>
     rpc_answer (\<lambda>c. map_sum id ConfigReply (gc_config C (fr_config_json f c))) [] r2 =
       Some (grpc_reply (map_reply ConfigResponse r2))"
  "replies_decode f C (Some (map_reply ConfigsResponse r3)) \<Longrightarrow>
     rpc_answer (\<lambda>p. map_sum id ConfigsReply (gc_configs C (config_page_to_json f p))) [] r3 =
       Some (grpc_reply (map_reply ConfigsResponse r3))"
  "rpc_answer (\<lambda>st. Inr (StreamReply st)) [] r4 = Some (grpc_reply (map_reply StreamResponse r4))"
  "rpc_answer (\<lambda>_. Inr EmptyReply) [] r5 = Some (grpc_reply (map_reply (\<lambda>_. EmptyResponse) r5))"
  for r5 :: "unit handled"
  by (auto simp: rpc_answer_def replies_decode_def grpc_reply_def map_reply_def split: sum.splits prod.splits)

theorem grpc_task_request:
  assumes "grpc_form f C tn i req call"
    and "negotiate_profile_extensions (se_card (fr_send f)) (gq_metadata rq) = Inr echoed"
    and "res = handle_request (fr_send f) (fr_fuel f) (tenant_from rq tn) (owner_from rq) i req sv"
    and "replies_decode f C res"
  shows "grpc_dispatch f C rq call sv = map_option grpc_reply res"
proof -
  have through: "with_extensions f rq k = k echoed" for k
    by (rule ext) (simp add: with_extensions_def negotiate_grpc assms(2))
  show ?thesis
  proof (cases req)
    case ReqCancel
    then show ?thesis
      using assms(1,3,4) by (cases "core_cancel_task (fr_fuel f) (tenant_from rq tn) (owner_from rq) i sv")
        (simp_all add: through grpc_cancel_task_def rpc_answers)
  qed (use assms(1,3,4) in \<open>auto simp: through grpc_get_task_def grpc_subscribe_to_task_def grpc_create_config_def
      grpc_list_configs_def grpc_get_config_def grpc_delete_config_def rpc_answers\<close>)
qed

section \<open>Who is served\<close>

lemma is_a2a_path: "is_a2a_call (''/'' @ GRPC_SERVICE @ ''/'' @ name)"
proof -
  have "strip_prefix s (s @ t) = Some t" for s t by (simp add: strip_prefix_def)
  then show ?thesis by (simp add: is_a2a_call_def strip_prefix_def)
qed

text \<open>A call is refused before it changes anything, or runs for the principal the stack found.\<close>

theorem grpc_serve_cases:
  obtains e where "check_version (map_option (\<lambda>v. unwrap_or [] (to_str v)) (header_get VERSION_PARAM hs)) False = Inl e"
      "grpc_serve f C hs call sv = Some (Inl (a2a_status e), sv)"
  | e ctx where "fr_stack f \<noteq> []" "before_request (fr_stack f) (context_from_headers hs) = (Inl e, ctx)"
      "grpc_serve f C hs call sv = Some (Inl (middleware_error_to_grpc_response e), sv)"
  | ctx where "check_version (map_option (\<lambda>v. unwrap_or [] (to_str v)) (header_get VERSION_PARAM hs)) False = Inr ()"
      "before_request (fr_stack f) (context_from_headers hs) = (Inr (), ctx)"
      "grpc_serve f C hs call sv = grpc_dispatch f C \<lparr>gq_metadata = hs, gq_context = Some ctx\<rparr> call sv"
proof (cases "check_version (map_option (\<lambda>v. unwrap_or [] (to_str v)) (header_get VERSION_PARAM hs)) False")
  case (Inl e)
  then show thesis
    by (intro that(1)) (simp_all only: grpc_serve_def grpc_auth_call_def check_a2a_version_def is_a2a_path refused_def
        not_True_eq_False if_False sum.case)
next
  case (Inr u)
  then have version: "check_a2a_version (''/'' @ GRPC_SERVICE @ ''/'' @ rpc_name call) hs = Inr ()"
    by (simp only: check_a2a_version_def is_a2a_path not_True_eq_False if_False) simp
  obtain r ctx where before: "before_request (fr_stack f) (context_from_headers hs) = (r, ctx)" by (cases rule: prod.exhaust)
  show thesis
  proof (cases "fr_stack f = []")
    case True
    then show thesis
      using before version Inr by (intro that(3) [of ctx])
        (auto simp: grpc_serve_def grpc_auth_call_def)
  next
    case False
    then show thesis
      using before version Inr by (cases r) (auto simp: grpc_serve_def grpc_auth_call_def refused_def intro: that(2,3))
  qed
qed

lemma grpc_bearer:
  assumes "fr_stack f = [bearer_before_request validate to_value pc scopes]"
  shows "(\<exists>s. grpc_serve f C hs call sv = Some (Inl s, sv)) \<or>
    (\<exists>claims ctx. bearer_credential validate pc scopes hs claims \<and>
       rx_identity ctx = Authenticated (principal_of pc claims) (to_value claims) \<and>
       grpc_serve f C hs call sv = grpc_dispatch f C \<lparr>gq_metadata = hs, gq_context = Some ctx\<rparr> call sv)"
proof (cases rule: grpc_serve_cases [of hs f C call sv])
  case (3 ctx)
  then have "bearer_before_request validate to_value pc scopes (context_from_headers hs) = (Inr (), ctx)"
    using assms by (auto split: prod.splits sum.splits)
  then obtain claims where "bearer_credential validate pc scopes hs claims"
      "ctx = (context_from_headers hs)\<lparr>rx_identity := Authenticated (principal_of pc claims) (to_value claims)\<rparr>"
    by (rule bearer_passed)
  with 3(3) show ?thesis by (intro disjI2 exI [of _ claims] exI [of _ ctx]) simp
qed auto

text \<open>Both layers see one stack: a credential HTTP refuses is refused here, with the same reason and message.\<close>

lemma refusals_agree:
  "rs_message (middleware_error_to_grpc_response e) = middleware_message e"
  "middleware_code e = (if middleware_status e = 401 then ''UNAUTHENTICATED''
     else if middleware_status e = 403 then ''PERMISSION_DENIED'' else ''INTERNAL'')"
proof -
  show "rs_message (middleware_error_to_grpc_response e) = middleware_message e"
    by (simp add: middleware_error_to_grpc_response_def)
  show "middleware_code e = (if middleware_status e = 401 then ''UNAUTHENTICATED''
     else if middleware_status e = 403 then ''PERMISSION_DENIED'' else ''INTERNAL'')"
  proof (cases e)
    case (HttpChallenge k)
    then show ?thesis by (cases k) simp_all
  qed simp_all
qed

text \<open>A stream carries the items the JSON bindings carry.\<close>

lemma grpc_stream_items:
  assumes "\<And>e. Inr (ItemEvent e) \<in> set items \<Longrightarrow> gc_item C (fr_event_json f e) = Inr (ItemEvent e)"
  shows "grpc_stream f C items = map (map_sum a2a_status id) items"
  using assms by (auto simp: grpc_stream_def split: sum.splits stream_item.splits)

end
