(* ===== verification/Front_Example.thy ===== *)
theory Front_Example
  imports Grpc_Service Server_Example
begin

text \<open>
  A small front end for the witnesses: one bearer middleware that knows one token, one JSON-RPC
  body, a card with one required extension, and a gRPC codec that knows one task.
\<close>

definition example_claims :: jwt_claims where
  "example_claims = \<lparr>jc_sub = ''alice'', jc_scope = Some ''read write'', jc_extra = Map.empty\<rparr>"

definition example_validate :: "string \<Rightarrow> string + jwt_claims" where
  "example_validate token = (if token = ''good'' then Inr example_claims else Inl ''expired'')"

definition example_bearer :: middleware where
  "example_bearer = bearer_before_request example_validate (\<lambda>_. None) ''sub'' [''read'']"

definition example_card :: agent_card where
  "example_card = \<lparr>card_capabilities = Some \<lparr>cap_streaming = Some True, cap_push_notifications = Some True,
       cap_extended_agent_card = None, cap_extensions = [\<lparr>ext_uri = ''urn:x'', ext_required = True\<rparr>]\<rparr>,
     card_default_input_modes = []\<rparr>"

definition example_params :: json where
  "example_params = JObject [(''id'', JString ''task'')]"

definition example_envelope :: json where
  "example_envelope = JObject [(''jsonrpc'', JString ''2.0''), (''id'', JInt 7), (''method'', JString GET_TASK),
     (''params'', example_params)]"

definition example_rpc :: "json \<Rightarrow> a2a_error + json \<Rightarrow> json" where
  "example_rpc i r = (case r of Inr v \<Rightarrow> jsonrpc_success i v | Inl e \<Rightarrow> to_jsonrpc_error e (Some i))"

definition example_front :: front where
  "example_front = \<lparr>
     fr_send = \<lparr>se_card = example_card, se_url_error = (\<lambda>_. None), se_queue = None, se_uuid_context = ''c1'',
       se_uuid_task = ''t1'', se_uuid_config = ''p1'', se_uuid_message = ''m1'', se_gap = (\<lambda>_ s. s),
       se_wait = \<lparr>ww_soft = SoftTimeout, ww_polls = [], ww_cooperative = None\<rparr>\<rparr>,
     fr_chrono = unary_chrono, fr_parse_rfc3339 = (\<lambda>_. None), fr_to_rfc3339 = (\<lambda>_. []),
     fr_from_str = (\<lambda>s. if s = ''body'' then Some example_envelope else None), fr_to_string = (\<lambda>_. []),
     fr_send_request = (\<lambda>_. Inl ''no''), fr_push_config = (\<lambda>_. Inl ''no''),
     fr_get_task = (\<lambda>j. case json_get ''id'' j of Some (JString i) \<Rightarrow> Inr \<lparr>gt_id = i, gt_history_length = None\<rparr>
        | _ \<Rightarrow> Inl ''no id''),
     fr_list_tasks = (\<lambda>_. Inl ''no''), fr_task_json = (\<lambda>t. JObject [(''id'', JString (tk_id t))]),
     fr_event_json = (\<lambda>_. JNull), fr_config_json = (\<lambda>_. JNull), fr_card_json = JObject [],
     fr_extended_card = (\<lambda>_. None), fr_rpc = example_rpc, fr_fuel = 10, fr_v03 = False,
     fr_stack = [example_bearer]\<rparr>"

definition example_extractors :: extractors where
  "example_extractors = \<lparr>ex_decode = Some,
     ex_task_query = (\<lambda>_. Inr \<lparr>gq_history_length = None, gq_page_size = None, gq_page_token = None\<rparr>),
     ex_list_query = (\<lambda>_. Inl ''no'')\<rparr>"

definition example_headers :: headers where
  "example_headers = [(''a2a-version'', ''1.0''), (''a2a-extensions'', ''urn:x''),
     (''authorization'', ''Bearer good'')]"

definition example_get :: http_request where
  "example_get = \<lparr>rq_method = ''GET'', rq_path = ''/tasks/task'', rq_query = None, rq_headers = example_headers,
     rq_body = []\<rparr>"

lemma example_rpc_ok: "rpc_ok example_rpc"
  by (auto simp: rpc_ok_def example_rpc_def jsonrpc_success_def to_jsonrpc_error_def split: sum.split)

lemma example_front_simps [simp]:
  "fr_rpc example_front = example_rpc" "fr_v03 example_front = False" "fr_stack example_front = [example_bearer]"
  "fr_from_str example_front ''body'' = Some example_envelope" "se_card (fr_send example_front) = example_card"
  by (simp_all add: example_front_def)

lemma example_header_values [simp]:
  "header_get ''authorization'' example_headers = Some ''Bearer good''" "to_str ''Bearer good'' = Some ''Bearer good''"
  "header_get VERSION_PARAM example_headers = Some ''1.0''" "to_str ''1.0'' = Some ''1.0''"
  "header_get EXTENSIONS_PARAM example_headers = Some ''urn:x''" "to_str ''urn:x'' = Some ''urn:x''"
  "header_get ''content-type'' example_headers = None"
  by code_simp+

lemma example_trims [simp]:
  "trim ''Bearer good'' = ''Bearer good''" "trim ''good'' = ''good''" "trim ''1.0'' = ''1.0''" "trim ''urn:x'' = ''urn:x''"
  "trim ''alice'' = ''alice''"
  by (rule trim_visible; simp add: visible_def byte_def)+

lemma example_negotiated: "negotiate_profile_extensions example_card example_headers = Inr [''urn:x'']"
  by (simp add: negotiate_profile_extensions_def activated_from_headers_def parse_a2a_extensions_def example_card_def
      validate_activation_def)

lemma example_version: "version_admitted False (Some ''1.0'')"
  by (simp add: version_admitted_def names_version_def exI [of _ "[]"])

lemma example_transport_ok: "check_request False example_get = Inr ()"
  using check_version_iff [of "Some ''1.0''" False] example_version
  by (simp add: check_request_def example_get_def requested_version_def is_bypass_path_def unwrap_or_def)

lemma example_scheme: "eq_ignore_ascii_case ''Bearer'' ''bearer''"
  by code_simp

lemma example_token: "extract_bearer_token ''Bearer good'' = Some ''good''"
  by (simp add: extract_bearer_token_def byte_def example_scheme ascii_whitespace_def ascii_control_def)

lemma example_authenticated:
  "example_bearer (context_from_headers example_headers) =
     (Inr (), (context_from_headers example_headers)\<lparr>rx_identity := Authenticated ''alice'' None\<rparr>)"
  by (simp add: example_bearer_def bearer_before_request_def context_from_headers_def example_token example_validate_def
      example_claims_def principal_of_def enforce_required_scopes_def unwrap_or_def)

lemma example_envelope_ok: "envelope_ok example_envelope" "json_get ''id'' example_envelope = Some (JInt 7)"
  by (simp_all add: envelope_ok_def example_envelope_def)

lemma example_rpc_call:
  "\<exists>x. jsonrpc_dispatch_inner example_front (context_from_headers []) [] ''body'' [] (example_server (example_store Working)) = Some x"
proof -
  have "rpc_request example_front [] ''body'' (JInt 7) GET_TASK example_params []"
    by (simp add: rpc_request_def example_envelope_def rpc_mode_def example_params_def unwrap_or_def)
  moreover have "rpc_form example_front ''task'' (ReqGet None) GET_TASK example_params"
    by (simp add: example_front_def example_params_def)
  ultimately show ?thesis by (simp add: rpc_request_dispatched [where req = "ReqGet None" and i = "''task''"])
qed

text \<open>A task of an anonymous client, and the gRPC call that asks for it.\<close>

definition example_public_store :: store where
  "example_public_store = exec (OpCreateAtomic 0 [] ''anonymous'' (example_task Working) [example_event Working]) (empty_store True)"

definition example_stamped :: pb_task where
  "example_stamped = fst (stamp_status 0 (example_task Working) [example_event Working])"

definition example_codec :: grpc_codec where
  "example_codec = \<lparr>gc_send_text = (\<lambda>_. Inr ''body''), gc_config_text = (\<lambda>_. Inr ''body''),
     gc_send_reply = (\<lambda>_. Inl ''no''),
     gc_task = (\<lambda>j. if j = JObject [(''id'', JString (tk_id example_stamped))] then Inr example_stamped else Inl ''no''),
     gc_tasks = (\<lambda>_. Inl ''no''), gc_config = (\<lambda>_. Inl ''no''), gc_configs = (\<lambda>_. Inl ''no''), gc_item = (\<lambda>_. Inl ''no'')\<rparr>"

definition example_grpc :: grpc_request where
  "example_grpc = \<lparr>gq_metadata = example_headers, gq_context = Some (context_from_headers [])\<rparr>"

definition example_grpc_get :: grpc_call where
  "example_grpc_get = RpcGetTask [] \<lparr>gt_id = ''task'', gt_history_length = None\<rparr>"

lemma example_public_get:
  "fst (core_get_task [] ''anonymous'' ''task'' None (example_server example_public_store)) = Inr example_stamped"
proof -
  have "get_stored example_public_store [] ''task'' = Some (fresh_row 0 [] ''anonymous'' example_stamped 1)"
    by (simp add: example_public_store_def create_task_with_events_eq Let_def get_put_stored example_stamped_def
        counter_of_def empty_store_def with_push_dispatch_enabled_def with_retention_def store_new_def)
  then show ?thesis
    by (simp add: core_get_task_def checked_history_length_def with_owned_task_def call_then_def store_read_def
        store_call_def get_task_def reply_def example_server_def guard_def fresh_row_def trim_history_def)
qed

lemma example_no_tenant [simp]: "header_get TENANT_METADATA example_headers = None"
  by code_simp

lemma example_grpc_form:
  "grpc_form example_front example_codec [] ''task'' (ReqGet None) example_grpc_get" "tenant_from example_grpc [] = []"
  "negotiate_profile_extensions (se_card (fr_send example_front)) (gq_metadata example_grpc) = Inr [''urn:x'']"
  using example_negotiated by (simp_all add: example_grpc_get_def tenant_from_def example_grpc_def unwrap_or_def)

lemma example_replies_decode:
  "replies_decode example_front example_codec
     (handle_request (fr_send example_front) n [] ''anonymous'' ''task'' (ReqGet None) (example_server example_public_store))"
proof -
  obtain sv' where "core_get_task [] ''anonymous'' ''task'' None (example_server example_public_store) =
      (Inr example_stamped, sv')"
    using example_public_get by (metis prod.collapse)
  then show ?thesis by (simp add: replies_decode_def map_reply_def example_front_def example_codec_def)
qed

end
