(* ===== verification/Sse_Client.thy ===== *)
theory Sse_Client
  imports Http_Router
begin

text \<open>
  The event stream of the client (crate \<open>turul-a2a-client\<close>): its errors (\<open>error.rs\<close>) and the
  decoder of \<open>sse.rs\<close>, from body chunks to typed events. A response body is the list of the
  answers of its byte stream, a chunk or a transport error each; strings are their bytes.
  \<open>serde_json::from_str\<close> and the decoding of the generated types are arguments.
\<close>

section \<open>Errors\<close>

datatype client_error =
    ClientHttp nat string
  | ClientA2a nat string "string option"
  | ClientRequest string
  | ClientJson string
  | ClientConversion string
  | ClientSse string
  | ClientStreamClosed
  | ClientGrpc string string "string option"
  | ClientGrpcTransport string

fun client_reason :: "client_error \<Rightarrow> string option" where
  "client_reason (ClientA2a _ _ reason) = reason"
| "client_reason (ClientGrpc _ _ reason) = reason"
| "client_reason _ = None"

fun client_status :: "client_error \<Rightarrow> nat option" where
  "client_status (ClientHttp status _) = Some status"
| "client_status (ClientA2a status _ _) = Some status"
| "client_status _ = None"

fun client_grpc_code :: "client_error \<Rightarrow> string option" where
  "client_grpc_code (ClientGrpc code _ _) = Some code"
| "client_grpc_code _ = None"

section \<open>UTF-8\<close>

text \<open>
  \<open>String::from_utf8_lossy\<close>: at the start of a string, whether a character follows and its
  length, or how many bytes are replaced together.
\<close>

definition byte_at :: "string \<Rightarrow> nat \<Rightarrow> nat" where
  "byte_at s i = (if i < length s then byte (s ! i) else 0)"

definition utf8_width :: "nat \<Rightarrow> nat" where
  "utf8_width b = (if b < 128 then 1 else if 194 \<le> b \<and> b \<le> 223 then 2 else if 224 \<le> b \<and> b \<le> 239 then 3
     else if 240 \<le> b \<and> b \<le> 244 then 4 else 0)"

definition continuation :: "nat \<Rightarrow> bool" where
  "continuation b \<longleftrightarrow> 128 \<le> b \<and> b \<le> 191"

definition second_byte :: "nat \<Rightarrow> nat \<Rightarrow> bool" where
  "second_byte b c = (if b = 224 then 160 \<le> c \<and> c \<le> 191 else if b = 237 then 128 \<le> c \<and> c \<le> 159
     else if b = 240 then 144 \<le> c \<and> c \<le> 191 else if b = 244 then 128 \<le> c \<and> c \<le> 143 else continuation c)"

definition utf8_step :: "string \<Rightarrow> bool \<times> nat" where
  "utf8_step s = (let b = byte_at s 0; w = utf8_width b in
     if w = 1 then (True, 1)
     else if w = 0 \<or> \<not> second_byte b (byte_at s 1) then (False, 1)
     else if w = 2 then (True, 2)
     else if \<not> continuation (byte_at s 2) then (False, 2)
     else if w = 3 then (True, 3)
     else if \<not> continuation (byte_at s 3) then (False, 3)
     else (True, 4))"

lemma utf8_step_pos: "0 < snd (utf8_step s)"
  by (simp add: utf8_step_def Let_def)

lemma utf8_step_shrinks: "s \<noteq> [] \<Longrightarrow> (ok, n) = utf8_step s \<Longrightarrow> length s - n < length s"
  using utf8_step_pos [of s] by (cases "utf8_step s") simp

definition REPLACEMENT_CHARACTER :: string where
  "REPLACEMENT_CHARACTER = map char_of [0xEF, 0xBF, 0xBD :: nat]"

function from_utf8_lossy :: "string \<Rightarrow> string" where
  "from_utf8_lossy s = (if s = [] then [] else case utf8_step s of
     (ok, n) \<Rightarrow> (if ok then take n s else REPLACEMENT_CHARACTER) @ from_utf8_lossy (drop n s))"
  by auto
termination
  by (relation "measure length") (auto simp: utf8_step_shrinks)

declare from_utf8_lossy.simps [simp del]

function valid_utf8 :: "string \<Rightarrow> bool" where
  "valid_utf8 s = (if s = [] then True else fst (utf8_step s) \<and> valid_utf8 (drop (snd (utf8_step s)) s))"
  by auto
termination
  by (relation "measure length") (auto simp: utf8_step_pos)

declare valid_utf8.simps [simp del]

section \<open>Blocks\<close>

definition LF :: char where "LF = CHR 0x0A"
definition CR :: char where "CR = CHR 0x0D"

record sse_decoder =
  sd_buf :: string
  sd_after_cr :: bool

definition sse_decoder_default :: sse_decoder where
  "sse_decoder_default = \<lparr>sd_buf = [], sd_after_cr = False\<rparr>"

definition push_byte :: "char \<Rightarrow> sse_decoder \<Rightarrow> sse_decoder" where
  "push_byte b d = (let after_cr = sd_after_cr d; d = d\<lparr>sd_after_cr := False\<rparr> in
     if b = LF \<and> after_cr then d
     else if b = CR then d\<lparr>sd_buf := sd_buf d @ [LF], sd_after_cr := True\<rparr>
     else d\<lparr>sd_buf := sd_buf d @ [b]\<rparr>)"

definition sse_push :: "string \<Rightarrow> sse_decoder \<Rightarrow> sse_decoder" where
  "sse_push chunk d = fold push_byte chunk d"

text \<open>\<open>windows(2).position(..)\<close>\<close>

fun blank_line :: "string \<Rightarrow> nat option" where
  "blank_line (a # b # s) = (if a = LF \<and> b = LF then Some 0 else map_option Suc (blank_line (b # s)))"
| "blank_line _ = None"

definition next_block :: "sse_decoder \<Rightarrow> (string \<times> sse_decoder) option" where
  "next_block d = (case blank_line (sd_buf d) of
       None \<Rightarrow> None
     | Some e \<Rightarrow> Some (from_utf8_lossy (take e (sd_buf d)), d\<lparr>sd_buf := drop (e + 2) (sd_buf d)\<rparr>))"

definition sse_finish :: "sse_decoder \<Rightarrow> sse_decoder" where
  "sse_finish d = (if sd_buf d \<noteq> [] then d\<lparr>sd_buf := sd_buf d @ [LF, LF]\<rparr> else d)"

section \<open>Events\<close>

record sse_event =
  ss_id :: "string option"
  ss_data :: json

text \<open>One line: the id and the data collected so far.\<close>

definition event_line :: "string \<Rightarrow> string option \<times> string option \<Rightarrow> string option \<times> string option" where
  "event_line line acc = (case acc of (eid, dat) \<Rightarrow>
     if line = [] \<or> strip_prefix '':'' line \<noteq> None then (eid, dat)
     else (case (case split_once (CHR '':'') line of
             Some (field, value) \<Rightarrow> (field, unwrap_or value (strip_prefix '' '' value))
           | None \<Rightarrow> (line, [])) of (field, value) \<Rightarrow>
         if field = ''data'' then (eid, Some (case dat of Some d \<Rightarrow> d @ [LF] @ value | None \<Rightarrow> value))
         else if field = ''id'' then (Some value, dat)
         else (eid, dat)))"

definition parse_sse_event :: "(string \<Rightarrow> string + json) \<Rightarrow> string \<Rightarrow> client_error + sse_event option" where
  "parse_sse_event from_str block = (case fold event_line (split_on LF block) (None, None) of
       (eid, Some dat) \<Rightarrow> if dat \<noteq> [] then (case from_str dat of
           Inl e \<Rightarrow> Inl (ClientJson e) | Inr v \<Rightarrow> Inr (Some \<lparr>ss_id = eid, ss_data = v\<rparr>)) else Inr None
     | (eid, None) \<Rightarrow> Inr None)"

lemma blank_line_bound: "blank_line s = Some e \<Longrightarrow> e + 2 \<le> length s"
  by (induction s arbitrary: e rule: blank_line.induct) (auto split: if_splits)

text \<open>
  The stream to its end: every complete block becomes an event, an error item or nothing before
  the next chunk is asked for.
\<close>

function sse_events ::
  "(string \<Rightarrow> string + json) \<Rightarrow> (string + string) list \<Rightarrow> sse_decoder \<Rightarrow> bool \<Rightarrow> (client_error + sse_event) list" where
  "sse_events from_str answers d eof = (case next_block d of
       Some (block, d) \<Rightarrow> (case parse_sse_event from_str block of
           Inr (Some event) \<Rightarrow> Inr event # sse_events from_str answers d eof
         | Inr None \<Rightarrow> sse_events from_str answers d eof
         | Inl e \<Rightarrow> Inl e # sse_events from_str answers d eof)
     | None \<Rightarrow> if eof then [] else (case answers of
           Inr chunk # answers \<Rightarrow> sse_events from_str answers (sse_push chunk d) eof
         | Inl e # answers \<Rightarrow> Inl (ClientRequest e) # sse_events from_str answers d eof
         | [] \<Rightarrow> sse_events from_str answers (sse_finish d) True))"
  by pat_completeness auto
termination
  by (relation "measures [\<lambda>(_, answers, _, eof). length answers + (if eof then 0 else 1),
        \<lambda>(_, _, d, _). length (sd_buf d)]")
    (auto simp: next_block_def split: option.splits dest!: blank_line_bound)

declare sse_events.simps [simp del]

section \<open>Typed events\<close>

record client_codec =
  cc_from_str :: "string \<Rightarrow> string + json"
  cc_to_string :: "json \<Rightarrow> string"
  cc_task :: "json \<Rightarrow> string + pb_task"
  cc_message :: "json \<Rightarrow> string + pb_message"
  cc_type_error :: "a2a_type_error \<Rightarrow> string"

datatype client_event =
    ClientTask pb_task
  | ClientMessage pb_message
  | ClientStatusUpdate string string json
  | ClientArtifactUpdate string string json bool bool

record typed_event =
  te_id :: "string option"
  te_event :: client_event

definition str_field :: "string \<Rightarrow> json \<Rightarrow> string" where
  "str_field k j = unwrap_or [] (json_as_str (json_get k j))"

definition bool_field :: "string \<Rightarrow> json \<Rightarrow> bool" where
  "bool_field k j = (json_get k j = Some (JBool True))"

definition client_event_of :: "client_codec \<Rightarrow> json \<Rightarrow> client_error + client_event" where
  "client_event_of C data = (case json_get ''task'' data of
     Some j \<Rightarrow> (case cc_task C j of
         Inl e \<Rightarrow> Inl (ClientConversion (''Invalid Task: '' @ e))
       | Inr t \<Rightarrow> (case task_try_from t of
           Inl e \<Rightarrow> Inl (ClientConversion (cc_type_error C e)) | Inr t \<Rightarrow> Inr (ClientTask t)))
   | None \<Rightarrow> (case json_get ''message'' data of
     Some j \<Rightarrow> (case cc_message C j of
         Inl e \<Rightarrow> Inl (ClientConversion (''Invalid Message: '' @ e))
       | Inr m \<Rightarrow> (case message_try_from m of
           Inl e \<Rightarrow> Inl (ClientConversion (cc_type_error C e)) | Inr m \<Rightarrow> Inr (ClientMessage m)))
   | None \<Rightarrow> (case json_get ''statusUpdate'' data of
     Some su \<Rightarrow> Inr (ClientStatusUpdate (str_field ''taskId'' su) (str_field ''contextId'' su)
       (unwrap_or JNull (json_get ''status'' su)))
   | None \<Rightarrow> (case json_get ''artifactUpdate'' data of
     Some au \<Rightarrow> Inr (ClientArtifactUpdate (str_field ''taskId'' au) (str_field ''contextId'' au)
       (unwrap_or JNull (json_get ''artifact'' au)) (bool_field ''append'' au) (bool_field ''lastChunk'' au))
   | None \<Rightarrow> Inl (ClientConversion (''Unknown stream event shape: '' @ cc_to_string C data))))))"

definition parse_stream_event :: "client_codec \<Rightarrow> sse_event \<Rightarrow> client_error + typed_event" where
  "parse_stream_event C raw =
     map_sum id (\<lambda>ev. \<lparr>te_id = ss_id raw, te_event = ev\<rparr>) (client_event_of C (ss_data raw))"

definition typed_events :: "client_codec \<Rightarrow> (client_error + sse_event) list \<Rightarrow> (client_error + typed_event) list" where
  "typed_events C = map (\<lambda>r. case r of Inr raw \<Rightarrow> parse_stream_event C raw | Inl e \<Rightarrow> Inl e)"

definition client_stream :: "client_codec \<Rightarrow> (string + string) list \<Rightarrow> (client_error + sse_event) list" where
  "client_stream C body = sse_events (cc_from_str C) body sse_decoder_default False"

section \<open>Chunks do not matter\<close>

text \<open>
  What line endings come to (\<open>cr\<close>: the byte before was a CR), and the complete blocks of a text
  with what is left.
\<close>

fun lf_lines :: "bool \<Rightarrow> string \<Rightarrow> string" where
  "lf_lines cr [] = []"
| "lf_lines cr (c # s) = (if c = LF \<and> cr then lf_lines False s
     else if c = CR then LF # lf_lines True s else c # lf_lines False s)"

definition ends_cr :: "bool \<Rightarrow> string \<Rightarrow> bool" where
  "ends_cr cr s = (if s = [] then cr else last s = CR)"

function blocks_of :: "string \<Rightarrow> string list \<times> string" where
  "blocks_of s = (case blank_line s of
       None \<Rightarrow> ([], s) | Some e \<Rightarrow> map_prod ((#) (take e s)) id (blocks_of (drop (e + 2) s)))"
  by auto
termination
  by (relation "measure length") (auto dest!: blank_line_bound)

declare blocks_of.simps [simp del]

text \<open>The item a block becomes.\<close>

definition block_items :: "(string \<Rightarrow> string + json) \<Rightarrow> string \<Rightarrow> (client_error + sse_event) list" where
  "block_items from_str block = (case parse_sse_event from_str (from_utf8_lossy block) of
       Inr (Some event) \<Rightarrow> [Inr event] | Inr None \<Rightarrow> [] | Inl e \<Rightarrow> [Inl e])"

lemma LF_CR [simp]: "LF \<noteq> CR" "CR \<noteq> LF"
  by (simp_all add: LF_def CR_def)

lemma sse_push_lines:
  "sse_push chunk d = \<lparr>sd_buf = sd_buf d @ lf_lines (sd_after_cr d) chunk,
     sd_after_cr = ends_cr (sd_after_cr d) chunk\<rparr>"
  by (induction chunk arbitrary: d) (auto simp: sse_push_def push_byte_def ends_cr_def Let_def)

lemma lf_lines_append: "lf_lines cr (s @ t) = lf_lines cr s @ lf_lines (ends_cr cr s) t"
  by (induction s arbitrary: cr) (auto simp: ends_cr_def)

lemma lf_lines_plain: "CR \<notin> set s \<Longrightarrow> LF \<notin> set s \<or> \<not> cr \<Longrightarrow> lf_lines cr s = s"
  by (induction s arbitrary: cr) auto

lemma blank_line_append: "blank_line s = Some e \<Longrightarrow> blank_line (s @ t) = Some e"
  by (induction s arbitrary: e rule: blank_line.induct) (auto split: if_splits)

lemma blocks_append:
  "blocks_of (s @ t) = (case blocks_of s of (bs, rest) \<Rightarrow> map_prod ((@) bs) id (blocks_of (rest @ t)))"
proof (induction s rule: blocks_of.induct)
  case (1 s)
  show ?case
  proof (cases "blank_line s")
    case None
    then show ?thesis by (simp add: blocks_of.simps [of s] map_prod_def prod.case_eq_if)
  next
    case (Some e)
    from 1 [OF Some] show ?thesis
      using blank_line_bound [OF Some]
      by (simp add: blocks_of.simps [of s] blocks_of.simps [of "s @ t"] Some blank_line_append [OF Some]
          map_prod_def prod.case_eq_if)
  qed
qed

lemma sse_events_blocks:
  "sse_events from_str answers d eof = concat (map (block_items from_str) (fst (blocks_of (sd_buf d)))) @
     sse_events from_str answers (d\<lparr>sd_buf := snd (blocks_of (sd_buf d))\<rparr>) eof"
proof (induction "sd_buf d" arbitrary: d rule: blocks_of.induct)
  case 1
  show ?case
  proof (cases "blank_line (sd_buf d)")
    case None
    then show ?thesis by (simp add: blocks_of.simps [of "sd_buf d"])
  next
    case (Some e)
    let ?d = "d\<lparr>sd_buf := drop (e + 2) (sd_buf d)\<rparr>"
    have step: "sse_events from_str answers d eof =
        block_items from_str (take e (sd_buf d)) @ sse_events from_str answers ?d eof"
      by (subst sse_events.simps) (simp add: next_block_def Some block_items_def split: sum.split option.split)
    from 1 [OF Some, of ?d] show ?thesis
      by (simp add: step blocks_of.simps [of "sd_buf d"] Some map_prod_def prod.case_eq_if)
  qed
qed

text \<open>The items of a whole body: of its blocks, and of what the server did not terminate.\<close>

definition body_items :: "(string \<Rightarrow> string + json) \<Rightarrow> string \<Rightarrow> (client_error + sse_event) list" where
  "body_items from_str text = (case blocks_of text of (bs, rest) \<Rightarrow> concat (map (block_items from_str)
     (bs @ (if rest = [] then [] else fst (blocks_of (rest @ [LF, LF]))))))"

lemma blocks_rest: "blank_line (snd (blocks_of s)) = None"
  by (induction s rule: blocks_of.induct) (simp add: blocks_of.simps split: option.split)

lemma body_items_append:
  assumes "blocks_of s = (bs, rest)"
  shows "body_items from_str (s @ t) = concat (map (block_items from_str) bs) @ body_items from_str (rest @ t)"
  using blocks_append [of s t] assms by (simp add: body_items_def map_prod_def prod.case_eq_if)

lemma sse_events_ended:
  "sse_events from_str answers d True = concat (map (block_items from_str) (fst (blocks_of (sd_buf d))))"
  by (subst sse_events_blocks, subst sse_events.simps) (simp add: next_block_def blocks_rest)

lemma sse_events_end: "sse_events from_str [] d False = body_items from_str (sd_buf d)"
  by (subst sse_events_blocks, subst sse_events.simps)
    (simp add: next_block_def blocks_rest sse_events_ended sse_finish_def body_items_def prod.case_eq_if blocks_of.simps [of "[]"])

theorem sse_events_chunks:
  "sse_events from_str (map Inr chunks) d False =
     body_items from_str (sd_buf d @ lf_lines (sd_after_cr d) (concat chunks))"
proof (induction chunks arbitrary: d)
  case Nil
  show ?case by (simp add: sse_events_end)
next
  case (Cons c cs)
  obtain bs rest where b: "blocks_of (sd_buf d) = (bs, rest)" by (cases "blocks_of (sd_buf d)")
  have "sse_events from_str (map Inr (c # cs)) d False = concat (map (block_items from_str) bs) @
      sse_events from_str (map Inr cs) (sse_push c (d\<lparr>sd_buf := rest\<rparr>)) False"
    using blocks_rest [of "sd_buf d"]
    by (subst sse_events_blocks, subst sse_events.simps) (simp add: b next_block_def)
  also have "\<dots> = concat (map (block_items from_str) bs) @
      body_items from_str (rest @ lf_lines (sd_after_cr d) (c @ concat cs))"
    by (simp add: Cons.IH sse_push_lines lf_lines_append)
  finally show ?case by (simp add: body_items_append [OF b])
qed

section \<open>What a server writes\<close>

text \<open>The pieces of a stream: a keep-alive comment, an event with one line of data.\<close>

datatype sse_piece = Comment string | Data string

fun piece_block :: "sse_piece \<Rightarrow> string" where
  "piece_block (Comment s) = '':'' @ s"
| "piece_block (Data s) = ''data: '' @ s"

fun piece_line :: "sse_piece \<Rightarrow> string" where
  "piece_line (Comment s) = s"
| "piece_line (Data s) = s"

definition wire_text :: "sse_piece list \<Rightarrow> string" where
  "wire_text ps = concat (map (\<lambda>p. piece_block p @ [LF, LF]) ps)"

definition one_line :: "string \<Rightarrow> bool" where
  "one_line s \<longleftrightarrow> LF \<notin> set s \<and> CR \<notin> set s \<and> valid_utf8 s"

fun piece_items :: "(string \<Rightarrow> string + json) \<Rightarrow> sse_piece \<Rightarrow> (client_error + sse_event) list" where
  "piece_items from_str (Comment s) = []"
| "piece_items from_str (Data s) = (if s = [] then [] else [map_sum ClientJson (\<lambda>v. \<lparr>ss_id = None, ss_data = v\<rparr>) (from_str s)])"

lemma utf8_step_ascii: "byte c < 128 \<Longrightarrow> utf8_step (c # s) = (True, 1)"
  by (simp add: utf8_step_def byte_at_def utf8_width_def)

lemma valid_utf8_ascii: "byte c < 128 \<Longrightarrow> valid_utf8 (c # s) = valid_utf8 s"
  by (simp add: valid_utf8.simps [of "c # s"] utf8_step_ascii)

lemma from_utf8_lossy_valid: "valid_utf8 s \<Longrightarrow> from_utf8_lossy s = s"
proof (induction s rule: valid_utf8.induct)
  case (1 s)
  then show ?case
    by (cases "utf8_step s") (auto simp: from_utf8_lossy.simps [of s] valid_utf8.simps [of s])
qed

lemma piece_valid: "valid_utf8 (piece_line p) \<Longrightarrow> valid_utf8 (piece_block p)"
  by (cases p) (simp_all add: valid_utf8_ascii byte_def)

lemma piece_lines: "LF \<notin> set (piece_line p) \<Longrightarrow> LF \<notin> set (piece_block p)"
  by (cases p) (simp_all add: LF_def)

lemma split_on_single: "c \<notin> set s \<Longrightarrow> split_on c s = [s]"
  by (induction s) auto

lemma piece_block_items:
  assumes "one_line (piece_line p)"
  shows "block_items from_str (piece_block p) = piece_items from_str p"
proof -
  have "from_utf8_lossy (piece_block p) = piece_block p" "split_on LF (piece_block p) = [piece_block p]"
    using assms by (simp_all add: from_utf8_lossy_valid piece_valid split_on_single piece_lines one_line_def)
  then show ?thesis
    by (cases p) (auto simp: block_items_def parse_sse_event_def event_line_def strip_prefix_def unwrap_or_def
        split: sum.splits)
qed

lemma blank_line_piece:
  assumes "LF \<notin> set b" and "b \<noteq> []"
  shows "blank_line (b @ LF # LF # s) = Some (length b)"
  using assms
proof (induction b)
  case (Cons c b)
  then show ?case by (cases b) auto
qed simp

lemma blocks_of_wire:
  assumes "\<forall>p\<in>set ps. one_line (piece_line p)"
  shows "blocks_of (wire_text ps) = (map piece_block ps, [])"
  using assms
proof (induction ps)
  case (Cons p ps)
  have "piece_block p \<noteq> []" by (cases p) simp_all
  with Cons have "blank_line (wire_text (p # ps)) = Some (length (piece_block p))"
    by (simp add: wire_text_def blank_line_piece piece_lines one_line_def)
  then show ?case using Cons by (subst blocks_of.simps) (simp add: wire_text_def)
qed (simp add: wire_text_def blocks_of.simps)

text \<open>However the body is cut and whatever line endings it uses, the events are those written.\<close>

theorem client_stream_reads:
  assumes "\<forall>p\<in>set ps. one_line (piece_line p)" and "lf_lines False (concat chunks) = wire_text ps"
  shows "client_stream C (map Inr chunks) = concat (map (piece_items (cc_from_str C)) ps)"
proof -
  have "concat (map (block_items f \<circ> piece_block) ps) = concat (map (piece_items f) ps)" for f
    using assms(1) by (induct ps) (simp_all add: piece_block_items)
  then show ?thesis
    by (simp add: client_stream_def sse_decoder_default_def sse_events_chunks assms(2) body_items_def blocks_of_wire [OF assms(1)])
qed

end
