(* ===== verification/Client.thy ===== *)
theory Client
  imports Sse_Client Grpc_Service
begin

text \<open>
  The HTTP client (\<open>turul-a2a-client/src/lib.rs\<close>, \<open>response.rs\<close>): the request each method sends
  and what it makes of the answer. \<open>reqwest\<close> is an argument: what becomes of a request, an error
  or a response with its status, its text and the chunks of its body. So are the percent-encoding
  of a path segment (the \<open>url\<close> crate) and the JSON of the generated types.
\<close>

section \<open>Requests\<close>

datatype client_auth = NoAuth | BearerAuth string | ApiKeyAuth string string

record a2a_client =
  cl_base_url :: string
  cl_tenant :: "string option"
  cl_auth :: client_auth
  cl_extensions :: "string list"
  cl_agent_card :: "json option"

record client_request =
  cq_method :: string
  cq_url :: string
  cq_headers :: headers
  cq_query :: "(string \<times> string) list"
  cq_body :: string

record client_response =
  cr_status :: nat
  cr_text :: "string + string"
  cr_chunks :: "(string + string) list"

type_synonym exchange = "client_request \<Rightarrow> string + client_response"

record request_codec = client_codec +
  cc_segment :: "string \<Rightarrow> string"
  cc_send_text :: "send_request \<Rightarrow> string"
  cc_config_text :: "push_config \<Rightarrow> string"
  cc_send_reply :: "json \<Rightarrow> string + (pb_task + pb_message) option"
  cc_task_page :: "json \<Rightarrow> string + task_list_page"
  cc_config :: "json \<Rightarrow> string + push_config"
  cc_config_page :: "json \<Rightarrow> string + push_config_page"

definition trim_end_slashes :: "string \<Rightarrow> string" where
  "trim_end_slashes s = rev (dropWhile (\<lambda>c. c = CHR ''/'') (rev s))"

definition client_new :: "string \<Rightarrow> a2a_client" where
  "client_new base_url = \<lparr>cl_base_url = trim_end_slashes base_url, cl_tenant = None, cl_auth = NoAuth,
     cl_extensions = [], cl_agent_card = None\<rparr>"

definition client_with_auth :: "client_auth \<Rightarrow> a2a_client \<Rightarrow> a2a_client" where
  "client_with_auth auth c = c\<lparr>cl_auth := auth\<rparr>"

definition client_with_tenant :: "string \<Rightarrow> a2a_client \<Rightarrow> a2a_client" where
  "client_with_tenant tenant c = c\<lparr>cl_tenant := Some tenant\<rparr>"

definition client_with_extensions :: "string list \<Rightarrow> a2a_client \<Rightarrow> a2a_client" where
  "client_with_extensions uris c = c\<lparr>cl_extensions := uris\<rparr>"

definition client_url :: "request_codec \<Rightarrow> a2a_client \<Rightarrow> string \<Rightarrow> string" where
  "client_url C c path = (case cl_tenant c of
       Some tenant \<Rightarrow> cl_base_url c @ ''/'' @ cc_segment C tenant @ path
     | None \<Rightarrow> cl_base_url c @ path)"

definition task_url :: "request_codec \<Rightarrow> a2a_client \<Rightarrow> string \<Rightarrow> string \<Rightarrow> string" where
  "task_url C c task_id below = client_url C c (''/tasks/'' @ cc_segment C task_id @ below)"

definition auth_headers :: "client_auth \<Rightarrow> headers" where
  "auth_headers auth = (case auth of
       NoAuth \<Rightarrow> [] | BearerAuth token \<Rightarrow> [(''authorization'', ''Bearer '' @ token)]
     | ApiKeyAuth name key \<Rightarrow> [(map ascii_lower name, key)])"

definition client_headers :: "a2a_client \<Rightarrow> headers" where
  "client_headers c = [(map ascii_lower VERSION_PARAM, VERSION)] @ auth_headers (cl_auth c) @
     (if cl_extensions c \<noteq> [] then [(EXTENSIONS_PARAM, join_with '', '' (cl_extensions c))] else [])"

definition client_request :: "a2a_client \<Rightarrow> string \<Rightarrow> string \<Rightarrow> client_request" where
  "client_request c meth url = \<lparr>cq_method = meth, cq_url = url, cq_headers = client_headers c,
     cq_query = [], cq_body = []\<rparr>"

definition with_json :: "string \<Rightarrow> client_request \<Rightarrow> client_request" where
  "with_json body q = q\<lparr>cq_headers := cq_headers q @ [(''content-type'', ''application/json'')], cq_body := body\<rparr>"

definition accept_events :: "client_request \<Rightarrow> client_request" where
  "accept_events q = q\<lparr>cq_headers := cq_headers q @ [(''accept'', ''text/event-stream'')]\<rparr>"

definition query_param :: "string \<Rightarrow> string option \<Rightarrow> client_request \<Rightarrow> client_request" where
  "query_param name v q = (case v of Some x \<Rightarrow> q\<lparr>cq_query := cq_query q @ [(name, x)]\<rparr> | None \<Rightarrow> q)"

section \<open>Answers\<close>

definition is_success :: "nat \<Rightarrow> bool" where
  "is_success status \<longleftrightarrow> 200 \<le> status \<and> status < 300"

text \<open>The text of a body whose reading fails is empty.\<close>

definition text_or_default :: "client_response \<Rightarrow> string" where
  "text_or_default r = (case cr_text r of Inr s \<Rightarrow> s | Inl _ \<Rightarrow> [])"

fun find_map :: "('a \<Rightarrow> 'b option) \<Rightarrow> 'a list \<Rightarrow> 'b option" where
  "find_map g [] = None"
| "find_map g (x # xs) = (case g x of Some y \<Rightarrow> Some y | None \<Rightarrow> find_map g xs)"

definition client_parse_error :: "request_codec \<Rightarrow> client_response \<Rightarrow> client_error" where
  "client_parse_error C r = (let status = cr_status r; body = text_or_default r in
     case Option.bind (case cc_from_str C body of Inr j \<Rightarrow> Some j | Inl _ \<Rightarrow> None) (json_get ''error'') of
       Some e \<Rightarrow> ClientA2a status (unwrap_or ''Unknown error'' (json_as_str (json_get ''message'' e)))
         (map_option ei_reason (case json_get ''details'' e of
            Some (JArray details) \<Rightarrow> find_map error_info_of_json details | _ \<Rightarrow> None))
     | None \<Rightarrow> ClientHttp status body)"

text \<open>\<open>resp.json()\<close>: whatever fails in it is an error of the request.\<close>

definition decode_json :: "request_codec \<Rightarrow> (json \<Rightarrow> string + 'a) \<Rightarrow> client_response \<Rightarrow> client_error + 'a" where
  "decode_json C dec r = (case cr_text r of
       Inl e \<Rightarrow> Inl (ClientRequest e)
     | Inr s \<Rightarrow> map_sum ClientRequest id (case cc_from_str C s of Inl e \<Rightarrow> Inl e | Inr j \<Rightarrow> dec j))"

definition client_send ::
  "request_codec \<Rightarrow> exchange \<Rightarrow> (client_response \<Rightarrow> client_error + 'a) \<Rightarrow> client_request \<Rightarrow> client_error + 'a" where
  "client_send C x k q = (case x q of
       Inl e \<Rightarrow> Inl (ClientRequest e)
     | Inr r \<Rightarrow> if is_success (cr_status r) then k r else Inl (client_parse_error C r))"

text \<open>An answer the client gets of a reply: its status, and a text that parses to its JSON.\<close>

definition carries :: "request_codec \<Rightarrow> 's http_response \<Rightarrow> client_response \<Rightarrow> bool" where
  "carries C rep r \<longleftrightarrow> cr_status r = rp_status rep \<and>
     (\<exists>s j. rp_body rep = JsonBody j \<and> cr_text r = Inr s \<and> cc_from_str C s = Inr j)"

text \<open>The error the gRPC client makes of a status (\<open>From<tonic::Status>\<close>).\<close>

definition client_of_status :: "rpc_status \<Rightarrow> client_error" where
  "client_of_status s = ClientGrpc (rs_code s) (rs_message s) (map_option ei_reason (rs_info s))"

lemma client_reads_error:
  assumes "carries C (into_response e) r" and "x q = Inr r"
  shows "client_send C x k q = Inl (ClientA2a (http_status e) (a2a_error_text e) (error_reason e))"
proof -
  obtain s where s: "cr_status r = http_status e" "cr_text r = Inr s" "cc_from_str C s = Inr (to_http_error_body e)"
    using assms(1) by (auto simp: carries_def into_response_def json_response_def)
  have "\<not> is_success (http_status e)" by (cases e) (simp_all add: is_success_def)
  moreover have "client_parse_error C r = ClientA2a (http_status e) (a2a_error_text e) (error_reason e)"
    using s error_info_round_trip
    by (cases e) (simp_all add: client_parse_error_def text_or_default_def to_http_error_body_def error_info_json_def
        unwrap_or_def error_info_new_def)
  ultimately show ?thesis using assms(2) s(1) by (simp add: client_send_def)
qed

section \<open>Methods\<close>

definition fetch_agent_card :: "request_codec \<Rightarrow> exchange \<Rightarrow> a2a_client \<Rightarrow> client_error + json" where
  "fetch_agent_card C x c = (case x (client_request c ''GET'' (cl_base_url c @ ''/.well-known/agent-card.json'')) of
       Inl e \<Rightarrow> Inl (ClientRequest e)
     | Inr r \<Rightarrow> if is_success (cr_status r) then decode_json C Inr r
         else Inl (ClientHttp (cr_status r) (text_or_default r)))"

definition client_discover :: "request_codec \<Rightarrow> exchange \<Rightarrow> string \<Rightarrow> client_error + a2a_client" where
  "client_discover C x base_url = (let c = client_new base_url in
     map_sum id (\<lambda>card. c\<lparr>cl_agent_card := Some card\<rparr>) (fetch_agent_card C x c))"

text \<open>A value of the generated types as one of the library's.\<close>

definition checked_task :: "request_codec \<Rightarrow> pb_task \<Rightarrow> client_error + pb_task" where
  "checked_task C t = map_sum (\<lambda>e. ClientConversion (cc_type_error C e)) id (task_try_from t)"

definition checked_message :: "request_codec \<Rightarrow> pb_message \<Rightarrow> client_error + pb_message" where
  "checked_message C m = map_sum (\<lambda>e. ClientConversion (cc_type_error C e)) id (message_try_from m)"

fun checked_tasks :: "request_codec \<Rightarrow> pb_task list \<Rightarrow> client_error + pb_task list" where
  "checked_tasks C [] = Inr []"
| "checked_tasks C (t # ts) = (case checked_task C t of
       Inl e \<Rightarrow> Inl e | Inr t' \<Rightarrow> map_sum id ((#) t') (checked_tasks C ts))"

definition and_checked :: "('a \<Rightarrow> 'e + 'b) \<Rightarrow> 'e + 'a \<Rightarrow> 'e + 'b" where
  "and_checked g r = (case r of Inl e \<Rightarrow> Inl e | Inr x \<Rightarrow> g x)"

definition send_response_try_from ::
  "request_codec \<Rightarrow> (pb_task + pb_message) option \<Rightarrow> client_error + (pb_task + pb_message)" where
  "send_response_try_from C payload = (case payload of
       Some (Inl t) \<Rightarrow> map_sum id Inl (checked_task C t)
     | Some (Inr m) \<Rightarrow> map_sum id Inr (checked_message C m)
     | None \<Rightarrow> Inl (ClientConversion ''SendMessageResponse has no payload''))"

definition list_response_try_from :: "request_codec \<Rightarrow> task_list_page \<Rightarrow> client_error + task_list_page" where
  "list_response_try_from C p = map_sum id (\<lambda>ts. p\<lparr>tlp_tasks := ts\<rparr>) (checked_tasks C (tlp_tasks p))"

definition send_message_proto ::
  "request_codec \<Rightarrow> exchange \<Rightarrow> a2a_client \<Rightarrow> send_request \<Rightarrow> client_error + (pb_task + pb_message) option" where
  "send_message_proto C x c req = client_send C x (decode_json C (cc_send_reply C))
     (with_json (cc_send_text C req) (client_request c ''POST'' (client_url C c ''/message:send'')))"

definition client_send_message ::
  "request_codec \<Rightarrow> exchange \<Rightarrow> a2a_client \<Rightarrow> send_request \<Rightarrow> client_error + (pb_task + pb_message)" where
  "client_send_message C x c req = and_checked (send_response_try_from C) (send_message_proto C x c req)"

definition get_task_proto ::
  "request_codec \<Rightarrow> exchange \<Rightarrow> a2a_client \<Rightarrow> string \<Rightarrow> int option \<Rightarrow> client_error + pb_task" where
  "get_task_proto C x c task_id history_length = client_send C x (decode_json C (cc_task C))
     (query_param ''historyLength'' (map_option show_int history_length)
       (client_request c ''GET'' (task_url C c task_id [])))"

definition client_get_task ::
  "request_codec \<Rightarrow> exchange \<Rightarrow> a2a_client \<Rightarrow> string \<Rightarrow> int option \<Rightarrow> client_error + pb_task" where
  "client_get_task C x c task_id history_length =
     and_checked (checked_task C) (get_task_proto C x c task_id history_length)"

definition cancel_task_proto :: "request_codec \<Rightarrow> exchange \<Rightarrow> a2a_client \<Rightarrow> string \<Rightarrow> client_error + pb_task" where
  "cancel_task_proto C x c task_id = client_send C x (decode_json C (cc_task C))
     (client_request c ''POST'' (task_url C c task_id '':cancel''))"

definition client_cancel_task :: "request_codec \<Rightarrow> exchange \<Rightarrow> a2a_client \<Rightarrow> string \<Rightarrow> client_error + pb_task" where
  "client_cancel_task C x c task_id = and_checked (checked_task C) (cancel_task_proto C x c task_id)"

record list_tasks_params =
  lp_context_id :: "string option"
  lp_status :: "string option"
  lp_page_size :: "int option"
  lp_page_token :: "string option"
  lp_history_length :: "int option"
  lp_include_artifacts :: "bool option"

definition list_tasks_proto ::
  "request_codec \<Rightarrow> exchange \<Rightarrow> a2a_client \<Rightarrow> list_tasks_params \<Rightarrow> client_error + task_list_page" where
  "list_tasks_proto C x c p = client_send C x (decode_json C (cc_task_page C))
     (query_param ''includeArtifacts'' (map_option (\<lambda>b. if b then ''true'' else ''false'') (lp_include_artifacts p))
     (query_param ''historyLength'' (map_option show_int (lp_history_length p))
     (query_param ''pageToken'' (lp_page_token p)
     (query_param ''pageSize'' (map_option show_int (lp_page_size p))
     (query_param ''status'' (lp_status p)
     (query_param ''contextId'' (lp_context_id p)
       (client_request c ''GET'' (client_url C c ''/tasks''))))))))"

definition client_list_tasks ::
  "request_codec \<Rightarrow> exchange \<Rightarrow> a2a_client \<Rightarrow> list_tasks_params \<Rightarrow> client_error + task_list_page" where
  "client_list_tasks C x c p = and_checked (list_response_try_from C) (list_tasks_proto C x c p)"

text \<open>The streams: the answer's body goes to the decoder.\<close>

definition event_items :: "request_codec \<Rightarrow> client_response \<Rightarrow> client_error + (client_error + sse_event) list" where
  "event_items C r = Inr (client_stream (client_codec.truncate C) (cr_chunks r))"

definition send_streaming_message_raw ::
  "request_codec \<Rightarrow> exchange \<Rightarrow> a2a_client \<Rightarrow> send_request \<Rightarrow> client_error + (client_error + sse_event) list" where
  "send_streaming_message_raw C x c req = client_send C x (event_items C)
     (with_json (cc_send_text C req) (accept_events (client_request c ''POST'' (client_url C c ''/message:stream''))))"

definition subscribe_to_task_raw ::
  "request_codec \<Rightarrow> exchange \<Rightarrow> a2a_client \<Rightarrow> string \<Rightarrow> client_error + (client_error + sse_event) list" where
  "subscribe_to_task_raw C x c task_id = client_send C x (event_items C)
     (accept_events (client_request c ''GET'' (task_url C c task_id '':subscribe'')))"

definition client_send_streaming_message ::
  "request_codec \<Rightarrow> exchange \<Rightarrow> a2a_client \<Rightarrow> send_request \<Rightarrow> client_error + (client_error + typed_event) list" where
  "client_send_streaming_message C x c req =
     map_sum id (typed_events (client_codec.truncate C)) (send_streaming_message_raw C x c req)"

definition client_subscribe_to_task ::
  "request_codec \<Rightarrow> exchange \<Rightarrow> a2a_client \<Rightarrow> string \<Rightarrow> client_error + (client_error + typed_event) list" where
  "client_subscribe_to_task C x c task_id =
     map_sum id (typed_events (client_codec.truncate C)) (subscribe_to_task_raw C x c task_id)"

definition create_push_config_with ::
  "request_codec \<Rightarrow> exchange \<Rightarrow> a2a_client \<Rightarrow> string \<Rightarrow> push_config \<Rightarrow> client_error + push_config" where
  "create_push_config_with C x c task_id cfg = client_send C x (decode_json C (cc_config C))
     (with_json (cc_config_text C cfg) (client_request c ''POST'' (task_url C c task_id ''/pushNotificationConfigs'')))"

definition client_create_push_config ::
  "request_codec \<Rightarrow> exchange \<Rightarrow> a2a_client \<Rightarrow> string \<Rightarrow> string \<Rightarrow> string \<Rightarrow> client_error + push_config" where
  "client_create_push_config C x c task_id url token = create_push_config_with C x c task_id
     \<lparr>pc_tenant = [], pc_id = [], pc_task_id = task_id, pc_url = url, pc_token = token, pc_authentication = None\<rparr>"

definition config_url :: "request_codec \<Rightarrow> a2a_client \<Rightarrow> string \<Rightarrow> string \<Rightarrow> string" where
  "config_url C c task_id config_id = task_url C c task_id (''/pushNotificationConfigs/'' @ cc_segment C config_id)"

definition client_get_push_config ::
  "request_codec \<Rightarrow> exchange \<Rightarrow> a2a_client \<Rightarrow> string \<Rightarrow> string \<Rightarrow> client_error + push_config" where
  "client_get_push_config C x c task_id config_id = client_send C x (decode_json C (cc_config C))
     (client_request c ''GET'' (config_url C c task_id config_id))"

definition client_list_push_configs ::
  "request_codec \<Rightarrow> exchange \<Rightarrow> a2a_client \<Rightarrow> string \<Rightarrow> int option \<Rightarrow> string option \<Rightarrow>
     client_error + push_config list \<times> string option" where
  "client_list_push_configs C x c task_id page_size page_token = map_sum id
     (\<lambda>p. (pcp_configs p, if pcp_next_page_token p \<noteq> [] then Some (pcp_next_page_token p) else None))
     (client_send C x (decode_json C (cc_config_page C))
       (query_param ''pageToken'' page_token (query_param ''pageSize'' (map_option show_int page_size)
         (client_request c ''GET'' (task_url C c task_id ''/pushNotificationConfigs'')))))"

definition client_delete_push_config ::
  "request_codec \<Rightarrow> exchange \<Rightarrow> a2a_client \<Rightarrow> string \<Rightarrow> string \<Rightarrow> client_error + unit" where
  "client_delete_push_config C x c task_id config_id = client_send C x (\<lambda>_. Inr ())
     (client_request c ''DELETE'' (config_url C c task_id config_id))"

definition fetch_extended_agent_card :: "request_codec \<Rightarrow> exchange \<Rightarrow> a2a_client \<Rightarrow> client_error + json" where
  "fetch_extended_agent_card C x c = client_send C x (decode_json C Inr)
     (client_request c ''GET'' (client_url C c ''/extendedAgentCard''))"

text \<open>The text parts of a task's artifacts.\<close>

definition artifact_text :: "pb_task \<Rightarrow> string" where
  "artifact_text t = join_with '' '' (List.map_filter
     (\<lambda>p. case part_content p of Some (PText s) \<Rightarrow> Some s | _ \<Rightarrow> None) (concat (map art_parts (tk_artifacts t))))"

section \<open>Calls about one task\<close>

datatype client_call =
    CallGet "int option"
  | CallCancel
  | CallCreateConfig push_config
  | CallListConfigs "int option" "string option"
  | CallGetConfig string
  | CallDeleteConfig string

text \<open>The method of a call, its answer as a response of the server.\<close>

fun run_call :: "request_codec \<Rightarrow> exchange \<Rightarrow> a2a_client \<Rightarrow> string \<Rightarrow> client_call \<Rightarrow> client_error + response" where
  "run_call C x c i (CallGet h) = map_sum id TaskResponse (get_task_proto C x c i h)"
| "run_call C x c i CallCancel = map_sum id TaskResponse (cancel_task_proto C x c i)"
| "run_call C x c i (CallCreateConfig cfg) = map_sum id ConfigResponse (create_push_config_with C x c i cfg)"
| "run_call C x c i (CallListConfigs n tok) = map_sum id
     (\<lambda>(cs, next). ConfigsResponse \<lparr>pcp_configs = cs, pcp_next_page_token = unwrap_or [] next\<rparr>)
     (client_list_push_configs C x c i n tok)"
| "run_call C x c i (CallGetConfig k) = map_sum id ConfigResponse (client_get_push_config C x c i k)"
| "run_call C x c i (CallDeleteConfig k) = map_sum id (\<lambda>_. EmptyResponse) (client_delete_push_config C x c i k)"

fun call_request :: "request_codec \<Rightarrow> a2a_client \<Rightarrow> string \<Rightarrow> client_call \<Rightarrow> client_request" where
  "call_request C c i (CallGet h) =
     query_param ''historyLength'' (map_option show_int h) (client_request c ''GET'' (task_url C c i []))"
| "call_request C c i CallCancel = client_request c ''POST'' (task_url C c i '':cancel'')"
| "call_request C c i (CallCreateConfig cfg) =
     with_json (cc_config_text C cfg) (client_request c ''POST'' (task_url C c i ''/pushNotificationConfigs''))"
| "call_request C c i (CallListConfigs n tok) =
     query_param ''pageToken'' tok (query_param ''pageSize'' (map_option show_int n)
       (client_request c ''GET'' (task_url C c i ''/pushNotificationConfigs'')))"
| "call_request C c i (CallGetConfig k) = client_request c ''GET'' (config_url C c i k)"
| "call_request C c i (CallDeleteConfig k) = client_request c ''DELETE'' (config_url C c i k)"

fun call_decoder :: "request_codec \<Rightarrow> client_call \<Rightarrow> client_response \<Rightarrow> client_error + response" where
  "call_decoder C (CallGet h) = (\<lambda>r. map_sum id TaskResponse (decode_json C (cc_task C) r))"
| "call_decoder C CallCancel = (\<lambda>r. map_sum id TaskResponse (decode_json C (cc_task C) r))"
| "call_decoder C (CallListConfigs n tok) = (\<lambda>r. map_sum id ConfigsResponse (decode_json C (cc_config_page C) r))"
| "call_decoder C (CallDeleteConfig k) = (\<lambda>r. Inr EmptyResponse)"
| "call_decoder C (CallCreateConfig cfg) = (\<lambda>r. map_sum id ConfigResponse (decode_json C (cc_config C) r))"
| "call_decoder C (CallGetConfig k) = (\<lambda>r. map_sum id ConfigResponse (decode_json C (cc_config C) r))"

lemma client_send_map: "map_sum id g (client_send C x k q) = client_send C x (\<lambda>r. map_sum id g (k r)) q"
  by (simp add: client_send_def split: sum.split)

lemma run_call_sends: "run_call C x c i call = client_send C x (call_decoder C call) (call_request C c i call)"
proof (cases call)
  case (CallListConfigs n tok)
  have page: "\<lparr>pcp_configs = pcp_configs p,
      pcp_next_page_token = unwrap_or [] (if pcp_next_page_token p \<noteq> [] then Some (pcp_next_page_token p) else None)\<rparr> = p"
    for p by (simp add: unwrap_or_def)
  show ?thesis
    by (simp add: CallListConfigs client_list_push_configs_def client_send_map [unfolded id_def] sum.map_comp comp_def
        page [simplified] id_def)
qed (simp_all add: get_task_proto_def cancel_task_proto_def create_push_config_with_def client_get_push_config_def
    client_delete_push_config_def client_send_map)

text \<open>What the server is asked.\<close>

fun call_task_request :: "front \<Rightarrow> request_codec \<Rightarrow> client_call \<Rightarrow> task_request" where
  "call_task_request f C (CallGet h) = ReqGet h"
| "call_task_request f C CallCancel = ReqCancel"
| "call_task_request f C (CallCreateConfig cfg) = ReqCreateConfig (fr_push_config f (cc_config_text C cfg))"
| "call_task_request f C (CallListConfigs n tok) = ReqListConfigs tok n"
| "call_task_request f C (CallGetConfig k) = ReqGetConfig k"
| "call_task_request f C (CallDeleteConfig k) = ReqDeleteConfig k"

section \<open>The way to the server\<close>

text \<open>
  A request as the server receives it, \<open>enc\<close> the encoding of a query; what its path relies on:
  decoding undoes the encoding of segments and leaves other text alone.
\<close>

definition received :: "((string \<times> string) list \<Rightarrow> string) \<Rightarrow> a2a_client \<Rightarrow> client_request \<Rightarrow> http_request" where
  "received enc c q = \<lparr>rq_method = cq_method q, rq_path = drop (length (cl_base_url c)) (cq_url q),
     rq_query = (if cq_query q = [] then None else Some (enc (cq_query q))), rq_headers = cq_headers q,
     rq_body = cq_body q\<rparr>"

definition decodes :: "extractors \<Rightarrow> string \<Rightarrow> string \<Rightarrow> bool" where
  "decodes ex a b \<longleftrightarrow> (\<forall>t. ex_decode ex (a @ t) = map_option ((@) b) (ex_decode ex t))"

definition literals_ok :: "extractors \<Rightarrow> bool" where
  "literals_ok ex \<longleftrightarrow> ex_decode ex [] = Some [] \<and> (\<forall>a. CHR ''%'' \<notin> set a \<longrightarrow> decodes ex a a)"

definition segment_ok :: "request_codec \<Rightarrow> extractors \<Rightarrow> string \<Rightarrow> bool" where
  "segment_ok C ex s \<longleftrightarrow> cc_segment C s \<noteq> [] \<and> CHR ''/'' \<notin> set (cc_segment C s) \<and> decodes ex (cc_segment C s) s"

definition tenant_ok :: "request_codec \<Rightarrow> extractors \<Rightarrow> a2a_client \<Rightarrow> string \<Rightarrow> bool" where
  "tenant_ok C ex c tn \<longleftrightarrow> (case cl_tenant c of
       None \<Rightarrow> tn = DEFAULT_TENANT
     | Some t \<Rightarrow> tn = t \<and> segment_ok C ex t \<and> cc_segment C t \<noteq> ''tasks'')"

text \<open>The query of a call, read back by the extractor; the config id of a call.\<close>

fun call_readable :: "request_codec \<Rightarrow> extractors \<Rightarrow> string option \<Rightarrow> client_call \<Rightarrow> bool" where
  "call_readable C ex query (CallGet h) \<longleftrightarrow> (\<exists>g. ex_task_query ex query = Inr g \<and> gq_history_length g = h)"
| "call_readable C ex query (CallListConfigs n tok) \<longleftrightarrow>
     (\<exists>g. ex_task_query ex query = Inr g \<and> gq_page_token g = tok \<and> gq_page_size g = n)"
| "call_readable C ex query (CallGetConfig k) \<longleftrightarrow> (\<exists>g. ex_task_query ex query = Inr g) \<and> segment_ok C ex k \<and> CHR ''/'' \<notin> set k"
| "call_readable C ex query (CallDeleteConfig k) \<longleftrightarrow> segment_ok C ex k \<and> CHR ''/'' \<notin> set k"
| "call_readable C ex query call \<longleftrightarrow> True"

fun call_rest :: "(string \<Rightarrow> string) \<Rightarrow> client_call \<Rightarrow> string" where
  "call_rest enc (CallGet h) = []"
| "call_rest enc CallCancel = '':cancel''"
| "call_rest enc (CallCreateConfig cfg) = ''/pushNotificationConfigs''"
| "call_rest enc (CallListConfigs n tok) = ''/pushNotificationConfigs''"
| "call_rest enc (CallGetConfig k) = ''/pushNotificationConfigs/'' @ enc k"
| "call_rest enc (CallDeleteConfig k) = ''/pushNotificationConfigs/'' @ enc k"

lemma first_segment_append: "CHR ''/'' \<notin> set s \<Longrightarrow> first_segment (CHR ''/'') (s @ CHR ''/'' # t) = s"
  by (simp add: first_segment_def split_on_append)

lemma task_routes_task: "r \<noteq> [] \<Longrightarrow> task_routes tn (''/tasks/'' @ r) = Some (TaskRoute tn r)"
  by (simp add: task_routes_def strip_prefix_def)

lemma call_request_simps [simp]:
  "cq_url (call_request C c i call) = task_url C c i (call_rest (cc_segment C) call)"
  "cq_url (query_param n v q) = cq_url q" "cq_method (query_param n v q) = cq_method q"
  "cq_headers (query_param n v q) = cq_headers q" "cq_body (query_param n v q) = cq_body q"
  by (cases call; simp add: query_param_def with_json_def client_request_def config_url_def split: option.split;
      simp add: query_param_def split: option.split)+

lemma segments_eq:
  assumes "s @ CHR ''/'' # t = s' @ CHR ''/'' # t'" and "CHR ''/'' \<notin> set s" and "CHR ''/'' \<notin> set s'"
  shows "s = s' \<and> t = t'"
  using assms first_segment_append [of s t] first_segment_append [of s' t'] by auto

lemma tenant_path_route:
  assumes "CHR ''/'' \<notin> set s" and "s \<noteq> []" and "s \<noteq> ''tasks''" and "r \<noteq> []"
  shows "route_of v03 (''/'' @ s @ ''/tasks/'' @ r) = Some (TaskRoute (Some s) r)"
proof -
  let ?p = "s @ CHR ''/'' # ''tasks/'' @ r"
  have plain: "CHR ''/'' \<notin> set l \<Longrightarrow> ?p \<noteq> l" for l
    by (metis in_set_conv_decomp)
  have card: "?p \<noteq> ''.well-known/agent-card.json''"
    using segments_eq [of s "''tasks/'' @ r" "''.well-known''" "''agent-card.json''"] assms(1) by auto
  have "strip_prefix ''/tasks/'' (CHR ''/'' # ?p) = None"
  proof (rule ccontr)
    assume "\<not> ?thesis"
    then have "take 6 ?p = ''tasks/''" by (simp add: strip_prefix_def numeral_eq_Suc split: if_splits)
    then have "?p = ''tasks'' @ CHR ''/'' # drop 6 ?p"
      using append_take_drop_id [of 6 ?p] by (metis append.assoc append_Cons append_Nil)
    with segments_eq [of s "''tasks/'' @ r" "''tasks''" "drop 6 ?p"] assms(1,3) show False by auto
  qed
  then have "task_routes None (CHR ''/'' # ?p) = None"
    using plain [of "''extendedAgentCard''"] plain [of "''message:send''"] plain [of "''message:stream''"] plain [of "''tasks''"]
    by (simp add: task_routes_def)
  moreover have "tenant_routes (CHR ''/'' # ?p) = Some (TaskRoute (Some s) r)"
    using first_segment_append [OF assms(1), of "''tasks/'' @ r"] task_routes_task [OF assms(4), of "Some s"] assms(2)
    by (simp add: tenant_routes_def strip_prefix_def Let_def)
  ultimately show ?thesis
    using card plain [of "''jsonrpc''"] plain [of "[]"]
    by (simp add: route_of_def is_jsonrpc_path_def JSONRPC_PATH_def)
qed

lemma task_url_route:
  assumes "tenant_ok C ex c tn" and "cc_segment C i \<noteq> []"
  shows "route_of v03 (drop (length (cl_base_url c)) (task_url C c i rest)) =
    Some (TaskRoute (map_option (cc_segment C) (cl_tenant c)) (cc_segment C i @ rest))"
proof (cases "cl_tenant c")
  case None
  then show ?thesis
    using task_routes_task [of "cc_segment C i @ rest" None] assms(2)
    by (simp add: task_url_def client_url_def route_of_def is_jsonrpc_path_def JSONRPC_PATH_def)
next
  case (Some t)
  then show ?thesis
    using assms tenant_path_route [of "cc_segment C t" "cc_segment C i @ rest" v03]
    by (simp add: task_url_def client_url_def tenant_ok_def segment_ok_def)
qed

lemma decodes_whole: "literals_ok ex \<Longrightarrow> decodes ex a b \<Longrightarrow> ex_decode ex a = Some b"
  unfolding literals_ok_def decodes_def by (metis append_Nil2 option.simps(9))

lemma tenant_decoded:
  assumes "tenant_ok C ex c tn" and "literals_ok ex"
  shows "route_tenant ex (map_option (cc_segment C) (cl_tenant c)) = Some tn"
  using assms decodes_whole [OF assms(2)]
  by (auto simp: tenant_ok_def route_tenant_def segment_ok_def split: option.splits)

lemma rest_decoded:
  assumes "literals_ok ex" and "segment_ok C ex i" and "call_readable C ex query call"
  shows "ex_decode ex (cc_segment C i @ call_rest (cc_segment C) call) = Some (i @ call_rest id call)"
proof -
  have literal: "decodes ex a a" if "CHR ''%'' \<notin> set a" for a
    using assms(1) that by (simp add: literals_ok_def)
  have whole: "ex_decode ex a = Some a" if "CHR ''%'' \<notin> set a" for a
    using decodes_whole [OF assms(1) literal [OF that]] .
  have segment: "ex_decode ex (''/pushNotificationConfigs/'' @ cc_segment C k) = Some (''/pushNotificationConfigs/'' @ k)"
    if "segment_ok C ex k" for k
    using decodes_whole [OF assms(1), of "cc_segment C k" k] literal [of "''/pushNotificationConfigs/''"] that
    unfolding segment_ok_def decodes_def by simp
  have "ex_decode ex (call_rest (cc_segment C) call) = Some (call_rest id call)"
    using assms(3) by (cases call) (simp_all add: whole segment [simplified])
  then show ?thesis using assms(2) by (simp add: segment_ok_def decodes_def)
qed

lemma call_form:
  assumes "call_readable C ex (rq_query (received enc c (call_request C c i call))) call"
  shows "http_form f ex i (call_task_request f C call) (received enc c (call_request C c i call)) (i @ call_rest id call)"
  using assms by (cases call) (auto simp: received_def client_request_def with_json_def)

end
