(* ===== verification/Pg_Session.thy ===== *)
theory Pg_Session
  imports Sqlite_List Sqlite_Push
begin

text \<open>
  Database sessions at the isolation level PostgreSQL runs a transaction at by default (READ
  COMMITTED), for \<open>storage/postgres.rs\<close>. A statement reads what is committed when it starts, with
  the transaction's own writes on top; what other sessions commit before the n-th statement is
  the n-th gap, an arbitrary function. A commit puts the collected writes on what is committed
  then; a failed transaction drops them. Which rows a row lock keeps out of the gaps is stated
  where a theorem needs it.
\<close>

section \<open>Statements\<close>

type_synonym 'db gaps = "nat \<Rightarrow> 'db \<Rightarrow> 'db"
type_synonym 'db session = "'db gaps \<times> 'db \<times> ('db \<Rightarrow> 'db)"
type_synonym ('db, 'a) program = "'db session \<Rightarrow> (storage_error + 'a) \<times> 'db session"

definition done_with :: "'a \<Rightarrow> ('db, 'a) program" where
  "done_with x s = (Inr x, s)"

definition lifted :: "storage_error + 'a \<Rightarrow> ('db, 'a) program" where
  "lifted r s = (r, s)"

definition and_then :: "('db, 'a) program \<Rightarrow> ('a \<Rightarrow> ('db, 'b) program) \<Rightarrow> ('db, 'b) program" where
  "and_then m k s = (case m s of (Inl e, s) \<Rightarrow> (Inl e, s) | (Inr x, s) \<Rightarrow> k x s)"

definition query :: "('db \<Rightarrow> 'a) \<Rightarrow> ('db, 'a) program" where
  "query q s = (case s of (g, db, w) \<Rightarrow>
     (let db' = g 0 db in (Inr (q (w db')), (\<lambda>n. g (Suc n), db', w))))"

text \<open>
  A writing statement: its answer, and the change it makes to the rows it touches, both from
  what it sees. \<open>perform\<close> is one inside a transaction, \<open>autocommit\<close> one on the pool.
\<close>

type_synonym ('db, 'a) change = "'db \<Rightarrow> storage_error + 'a \<times> ('db \<Rightarrow> 'db)"

definition perform :: "('db, 'a) change \<Rightarrow> ('db, 'a) program" where
  "perform u s = (case s of (g, db, w) \<Rightarrow>
     (let db' = g 0 db
      in case u (w db') of
           Inl e \<Rightarrow> (Inl e, (\<lambda>n. g (Suc n), db', w))
         | Inr (x, f) \<Rightarrow> (Inr x, (\<lambda>n. g (Suc n), db', \<lambda>d. f (w d)))))"

definition autocommit :: "('db, 'a) change \<Rightarrow> ('db, 'a) program" where
  "autocommit u s = (case s of (g, db, w) \<Rightarrow>
     (let db' = g 0 db
      in case u db' of
           Inl e \<Rightarrow> (Inl e, (\<lambda>n. g (Suc n), db', w))
         | Inr (x, f) \<Rightarrow> (Inr x, (\<lambda>n. g (Suc n), f db', w))))"

definition transaction :: "('db, 'a) program \<Rightarrow> ('db, 'a) program" where
  "transaction m s = (case s of (g, db, w) \<Rightarrow> (case m (g, db, \<lambda>d. d) of
       (Inl e, (g', db', _)) \<Rightarrow> (Inl e, (g', db', w))
     | (Inr x, (g', db', w')) \<Rightarrow> (Inr x, (\<lambda>n. g' (Suc n), w' (g' 0 db'), w))))"

definition run_program :: "('db, 'a) program \<Rightarrow> 'db gaps \<Rightarrow> 'db \<Rightarrow> (storage_error + 'a) \<times> 'db" where
  "run_program m g db = (case m (g, db, \<lambda>d. d) of (r, (_, db', _)) \<Rightarrow> (r, db'))"

text \<open>
  A statement sends its text parameters first, and PostgreSQL takes no NUL in a text: a statement
  with one fails. \<open>sending\<close> stands before the first statement of a program that sends them.
\<close>

definition no_nul :: "string \<Rightarrow> bool" where
  "no_nul s \<longleftrightarrow> CHR 0x00 \<notin> set s"

definition sendable :: "string list \<Rightarrow> bool" where
  "sendable ts \<longleftrightarrow> list_all no_nul ts"

definition INVALID_TEXT :: storage_error where
  "INVALID_TEXT = SE_DatabaseError ''invalid byte sequence for encoding UTF8: 0x00''"

definition sending :: "string list \<Rightarrow> ('db, 'a) program \<Rightarrow> ('db, 'a) program" where
  "sending ts m = (if sendable ts then m else lifted (Inl INVALID_TEXT))"

lemma sending_ok [simp]: "sendable ts \<Longrightarrow> sending ts m = m"
  by (simp add: sending_def)

lemma sendable_simps:
  "sendable []" "sendable (t # ts) \<longleftrightarrow> no_nul t \<and> sendable ts" "sendable (ts @ us) \<longleftrightarrow> sendable ts \<and> sendable us"
  by (simp_all add: sendable_def)

section \<open>Alone\<close>

text \<open>With nobody else committing, a program is a function of the database.\<close>

definition nobody :: "'db gaps" where "nobody = (\<lambda>_ d. d)"

definition alone :: "('db, 'a) program \<Rightarrow> 'db \<Rightarrow> (storage_error + 'a) \<times> 'db" where
  "alone m db = run_program m nobody db"

definition quiet_session :: "'db \<Rightarrow> ('db \<Rightarrow> 'db) \<Rightarrow> 'db session" where
  "quiet_session db w = (nobody, db, w)"

lemma nobody_simps [simp]: "nobody n d = d" "(\<lambda>n. nobody (Suc n)) = nobody"
  by (simp_all add: nobody_def)

named_theorems session_simps

lemma quiet_steps [session_simps]:
  "done_with x (quiet_session db w) = (Inr x, quiet_session db w)"
  "lifted r (quiet_session db w) = (r, quiet_session db w)"
  "query q (quiet_session db w) = (Inr (q (w db)), quiet_session db w)"
  "perform u (quiet_session db w) = (case u (w db) of
     Inl e \<Rightarrow> (Inl e, quiet_session db w) | Inr (x, f) \<Rightarrow> (Inr x, quiet_session db (\<lambda>d. f (w d))))"
  "autocommit u (quiet_session db w) = (case u db of
     Inl e \<Rightarrow> (Inl e, quiet_session db w) | Inr (x, f) \<Rightarrow> (Inr x, quiet_session (f db) w))"
  by (simp_all add: done_with_def lifted_def query_def perform_def autocommit_def quiet_session_def Let_def
      split: sum.splits)

lemma transaction_quiet [session_simps]:
  "m (quiet_session db (\<lambda>d. d)) = (r, quiet_session db w') \<Longrightarrow>
   transaction m (quiet_session db w) =
     (case r of Inl e \<Rightarrow> (Inl e, quiet_session db w) | Inr x \<Rightarrow> (Inr x, quiet_session (w' db) w))"
  by (simp add: transaction_def quiet_session_def split: sum.splits)

lemma alone_def': "m (quiet_session db (\<lambda>d. d)) = (r, quiet_session db' w') \<Longrightarrow> alone m db = (r, db')"
  by (simp add: alone_def run_program_def quiet_session_def)

lemma and_then_simps [session_simps]:
  "m s = (Inl e, s') \<Longrightarrow> and_then m k s = (Inl e, s')"
  "m s = (Inr x, s') \<Longrightarrow> and_then m k s = k x s'"
  by (simp_all add: and_then_def)

section \<open>A failed transaction\<close>

text \<open>
  The gaps it went through are all that is left of a transaction that failed: \<open>passed n\<close> is what
  the first n gaps make of a database.
\<close>

primrec passed :: "'db gaps \<Rightarrow> nat \<Rightarrow> 'db \<Rightarrow> 'db" where
  "passed g 0 db = db"
| "passed g (Suc n) db = passed (\<lambda>k. g (Suc k)) n (g 0 db)"

lemma passed_add: "passed g (n + m) db = passed (\<lambda>k. g (n + k)) m (passed g n db)"
  by (induction n arbitrary: g db) simp_all

text \<open>A program that only reads and writes inside its transaction.\<close>

definition inside :: "('db, 'a) program \<Rightarrow> bool" where
  "inside m \<longleftrightarrow> (\<forall>g db w. \<exists>r n w'. m (g, db, w) = (r, (\<lambda>k. g (n + k), passed g n db, w')))"

named_theorems inside_rules

lemma inside_pure:
  assumes "\<And>g db w. \<exists>r w'. m (g, db, w) = (r, (g, db, w'))"
  shows "inside m"
  unfolding inside_def
proof (intro allI)
  fix g db w
  obtain r w' where "m (g, db, w) = (r, (g, db, w'))" using assms by blast
  then have "m (g, db, w) = (r, (\<lambda>k. g (0 + k), passed g 0 db, w'))" by simp
  then show "\<exists>r n w'. m (g, db, w) = (r, (\<lambda>k. g (n + k), passed g n db, w'))" by blast
qed

lemma inside_stmt:
  assumes "\<And>g db w. \<exists>r w'. m (g, db, w) = (r, (\<lambda>k. g (Suc k), g 0 db, w'))"
  shows "inside m"
  unfolding inside_def
proof (intro allI)
  fix g db w
  obtain r w' where "m (g, db, w) = (r, (\<lambda>k. g (Suc k), g 0 db, w'))" using assms by blast
  then have "m (g, db, w) = (r, (\<lambda>k. g (1 + k), passed g 1 db, w'))" by simp
  then show "\<exists>r n w'. m (g, db, w) = (r, (\<lambda>k. g (n + k), passed g n db, w'))" by blast
qed

lemma inside_done [inside_rules]: "inside (done_with x)"
  by (rule inside_pure) (simp add: done_with_def)

lemma inside_lifted [inside_rules]: "inside (lifted r)"
  by (rule inside_pure) (simp add: lifted_def)

lemma inside_query [inside_rules]: "inside (query q)"
  by (rule inside_stmt) (simp add: query_def Let_def)

lemma inside_perform [inside_rules]: "inside (perform u)"
  by (rule inside_stmt) (auto simp: perform_def Let_def split: sum.splits prod.splits)

lemma inside_sending [inside_rules]: "inside m \<Longrightarrow> inside (sending ts m)"
  by (simp add: sending_def inside_lifted)

lemma inside_then [inside_rules]:
  assumes "inside m" and "\<And>x. inside (k x)"
  shows "inside (and_then m k)"
  unfolding inside_def
proof (intro allI)
  fix g db w
  obtain r n w' where m: "m (g, db, w) = (r, (\<lambda>k. g (n + k), passed g n db, w'))"
    using assms(1) unfolding inside_def by blast
  show "\<exists>r n w'. and_then m k (g, db, w) = (r, (\<lambda>k. g (n + k), passed g n db, w'))"
  proof (cases r)
    case (Inl e)
    then show ?thesis using m by (auto simp: and_then_def)
  next
    case (Inr x)
    have "\<exists>r' n' w''. k x (\<lambda>k. g (n + k), passed g n db, w') =
        (r', (\<lambda>j. g (n + (n' + j)), passed (\<lambda>k. g (n + k)) n' (passed g n db), w''))"
      using assms(2) [of x, unfolded inside_def, rule_format, of "\<lambda>k. g (n + k)" "passed g n db" w'] .
    then obtain r' n' w'' where "k x (\<lambda>k. g (n + k), passed g n db, w') =
        (r', (\<lambda>j. g (n + (n' + j)), passed (\<lambda>k. g (n + k)) n' (passed g n db), w''))"
      by blast
    with m Inr have "and_then m k (g, db, w) = (r', (\<lambda>j. g ((n + n') + j), passed g (n + n') db, w''))"
      by (simp add: and_then_def passed_add add.assoc)
    then show ?thesis by blast
  qed
qed

theorem failed_transaction:
  assumes "inside m" and "run_program (transaction m) g db = (Inl e, db')"
  obtains n where "db' = passed g n db"
proof -
  obtain r n w' where "m (g, db, \<lambda>d. d) = (r, (\<lambda>k. g (n + k), passed g n db, w'))"
    using assms(1) unfolding inside_def by blast
  with assms(2) that show thesis by (cases r) (auto simp: run_program_def transaction_def)
qed

end
