(* ===== verification/Postgres_Store.thy ===== *)
theory Postgres_Store
  imports Pg_Session
begin

text \<open>
  \<open>PostgresA2aStorage\<close> (\<open>storage/postgres.rs\<close>): tasks, events, atomic commits and retention, as
  programs of statements between which other sessions commit. The tables have the columns of the
  SQLite tables; \<open>created_at\<close> and \<open>updated_at\<close> are microseconds, a JSONB column holds a value of
  the codec, whose encoding stands for the serialisation and the column's acceptance (JSONB takes
  no NUL either). Texts are sent with \<open>sending\<close>.
\<close>

section \<open>Helpers\<close>

type_synonym ('t, 'e, 'a, 'c) pg = "('t, 'e, 'a, 'c) sqlite"

definition postgres_new :: "bool \<Rightarrow> retention_config \<Rightarrow> ('t, 'e, 'a, 'c) pg" where
  "postgres_new enabled rc = \<lparr>sq_tasks = [], sq_artifacts = [], sq_events = [],
     sq_configs = [], sq_pending = [], sq_deliveries = [],
     sq_push_dispatch_enabled = enabled, sq_retention = rc\<rparr>"

definition PG_UNIQUE_VIOLATION :: storage_error where
  "PG_UNIQUE_VIOLATION = SE_DatabaseError ''duplicate key value violates unique constraint''"

definition pg_systime_to_micros :: "instant \<Rightarrow> int" where
  "pg_systime_to_micros t = int (t div 1000)"

text \<open>\<open>NOW()\<close>, the time a transaction starts.\<close>

definition pg_now :: "instant \<Rightarrow> nat" where "pg_now now = now div 1000"

definition pg_task_from_json :: "('t, 'e, 'a, 'c) codec \<Rightarrow> 't \<Rightarrow> storage_error + pb_task" where
  "pg_task_from_json C json = (case dec_task C json of
       Inl e \<Rightarrow> Inl (SE_SerializationError e)
     | Inr proto \<Rightarrow> typed (task_try_from proto))"

definition pg_status_state_str :: "pb_task \<Rightarrow> string" where
  "pg_status_state_str t = (case task_state_of t of Some s \<Rightarrow> wire_name s | None \<Rightarrow> '''')"

definition pg_split_task :: "('t, 'e, 'a, 'c) codec \<Rightarrow> pb_task \<Rightarrow> storage_error + 't \<times> pb_artifact list" where
  "pg_split_task C t = (let artifacts = tk_artifacts t
     in attempt (typed (task_try_from (t\<lparr>tk_artifacts := []\<rparr>))) (\<lambda>stripped.
        attempt (serde (enc_task C stripped)) (\<lambda>blob. Inr (blob, artifacts))))"

text \<open>
  The texts of a task outside its JSON columns; the ids of the artifacts are sent with the
  manifest, in the statement that writes the row.
\<close>

definition task_texts :: "pb_task \<Rightarrow> string list" where
  "task_texts t = tk_id t # tk_context_id t # map art_artifact_id (tk_artifacts t)"

text \<open>One upsert per written artifact, one delete per dropped one.\<close>

fun pg_write_artifacts ::
  "('t, 'e, 'a, 'c) codec \<Rightarrow> string \<Rightarrow> string \<Rightarrow> (pb_artifact \<times> string) list \<Rightarrow> (('t, 'e, 'a, 'c) pg, unit) program" where
  "pg_write_artifacts C tenant task_id [] = done_with ()"
| "pg_write_artifacts C tenant task_id ((a, fingerprint) # ws) =
     and_then (lifted (serde (enc_artifact C a))) (\<lambda>body.
     and_then (perform (\<lambda>_. Inr ((), \<lambda>db. db\<lparr>sq_artifacts :=
         hm_insert (tenant, task_id, art_artifact_id a) (body, fingerprint) (sq_artifacts db)\<rparr>))) (\<lambda>_.
       pg_write_artifacts C tenant task_id ws))"

fun pg_delete_artifacts :: "string \<Rightarrow> string \<Rightarrow> string list \<Rightarrow> (('t, 'e, 'a, 'c) pg, unit) program" where
  "pg_delete_artifacts tenant task_id [] = done_with ()"
| "pg_delete_artifacts tenant task_id (i # is) =
     and_then (perform (\<lambda>_. Inr ((), \<lambda>db. db\<lparr>sq_artifacts :=
         hm_remove (tenant, task_id, i) (sq_artifacts db)\<rparr>))) (\<lambda>_.
       pg_delete_artifacts tenant task_id is)"

definition pg_apply_artifact_plan ::
  "('t, 'e, 'a, 'c) codec \<Rightarrow> string \<Rightarrow> string \<Rightarrow> reconcile_plan \<Rightarrow> (('t, 'e, 'a, 'c) pg, unit) program" where
  "pg_apply_artifact_plan C tenant task_id plan =
     and_then (pg_write_artifacts C tenant task_id (rp_writes plan)) (\<lambda>_.
       pg_delete_artifacts tenant task_id (rp_deletes plan))"

definition pg_fetch_manifest :: "string \<Rightarrow> string \<Rightarrow> (('t, 'e, 'a, 'c) pg, manifest_entry list) program" where
  "pg_fetch_manifest tenant task_id = sending [tenant, task_id]
     (query (\<lambda>db. case hm_get (sq_tasks db) (tenant, task_id) of
       Some r \<Rightarrow> tr_artifact_manifest r | None \<Rightarrow> []))"

definition pg_rehydrate_task ::
  "('t, 'e, 'a, 'c) codec \<Rightarrow> string \<Rightarrow> string \<Rightarrow> 't \<Rightarrow> manifest_entry list \<Rightarrow> (('t, 'e, 'a, 'c) pg, pb_task) program" where
  "pg_rehydrate_task C tenant task_id blob manifest =
     and_then (lifted (serde (dec_task C blob))) (\<lambda>proto.
     and_then (if manifest = [] then done_with proto
        else and_then (query (\<lambda>db. artifact_rows tenant task_id (sq_artifacts db))) (\<lambda>rows.
             and_then (lifted (decode_bodies C rows [])) (\<lambda>bodies.
               done_with (proto\<lparr>tk_artifacts := rehydrate_in_manifest_order manifest bodies\<rparr>)))) (\<lambda>proto.
       lifted (typed (task_try_from proto))))"

section \<open>\<open>A2aTaskStorage\<close>\<close>

definition pg_insert_task ::
  "('t, 'e, 'a, 'c) codec \<Rightarrow> chrono \<Rightarrow> instant \<Rightarrow> string \<Rightarrow> string \<Rightarrow> pb_task \<Rightarrow> 't \<Rightarrow> manifest_entry list \<Rightarrow>
   (('t, 'e, 'a, 'c) pg, unit) program" where
  "pg_insert_task C c now tenant owner t blob manifest = sending (tenant # owner # task_texts t) (perform (\<lambda>db.
     if hm_get (sq_tasks db) (tenant, tk_id t) \<noteq> None then Inl PG_UNIQUE_VIOLATION
     else Inr ((), put_row tenant (tk_id t)
       \<lparr>tr_owner = owner, tr_task_json = blob, tr_context_id = tk_context_id t,
        tr_status_state = pg_status_state_str t, tr_status_timestamp = task_sort_key c t,
        tr_cancel_requested = False, tr_latest_event_sequence = 0, tr_lease_expires_at = None,
        tr_artifact_manifest = manifest, tr_updated_at = pg_now now\<rparr>)))"

definition pg_create_task ::
  "('t, 'e, 'a, 'c) codec \<Rightarrow> chrono \<Rightarrow> instant \<Rightarrow> string \<Rightarrow> string \<Rightarrow> pb_task \<Rightarrow>
   (('t, 'e, 'a, 'c) pg, pb_task) program" where
  "pg_create_task C c now tenant owner task =
     (let t = fst (stamp_status now task [])
      in and_then (lifted (pg_split_task C t)) (\<lambda>(blob, artifacts).
         and_then (lifted (reconcile C artifacts [])) (\<lambda>plan.
         transaction (
           and_then (pg_insert_task C c now tenant owner t blob (rp_manifest plan)) (\<lambda>_.
           and_then (pg_apply_artifact_plan C tenant (tk_id t) plan) (\<lambda>_. done_with t))))))"

definition pg_get_task ::
  "('t, 'e, 'a, 'c) codec \<Rightarrow> string \<Rightarrow> string \<Rightarrow> string \<Rightarrow> int option \<Rightarrow>
   (('t, 'e, 'a, 'c) pg, pb_task option) program" where
  "pg_get_task C tenant task_id owner history_length = sending [tenant, task_id, owner] (
     and_then (query (owned_row tenant task_id owner)) (\<lambda>row. case row of
         Some r \<Rightarrow> and_then (pg_rehydrate_task C tenant task_id (tr_task_json r) (tr_artifact_manifest r)) (\<lambda>t.
           done_with (Some (trim_history t history_length)))
       | None \<Rightarrow> done_with None))"

text \<open>The columns a full-task write sets.\<close>

definition pg_written_row ::
  "chrono \<Rightarrow> instant \<Rightarrow> 't \<Rightarrow> pb_task \<Rightarrow> manifest_entry list \<Rightarrow> 't task_row \<Rightarrow> 't task_row" where
  "pg_written_row c now blob t manifest r = r\<lparr>tr_task_json := blob, tr_status_state := pg_status_state_str t,
     tr_status_timestamp := task_sort_key c t, tr_context_id := tk_context_id t,
     tr_artifact_manifest := manifest, tr_updated_at := pg_now now\<rparr>"

text \<open>\<open>UPDATE a2a_tasks .. WHERE tenant, task_id, owner [AND live]\<close>: the rows affected.\<close>

definition pg_update_row ::
  "string \<Rightarrow> string \<Rightarrow> string \<Rightarrow> ('t task_row \<Rightarrow> bool) \<Rightarrow> ('t task_row \<Rightarrow> 't task_row) \<Rightarrow>
   (('t, 'e, 'a, 'c) pg, bool) change" where
  "pg_update_row tenant task_id owner live f db = Inr (case owned_row tenant task_id owner db of
       Some r \<Rightarrow> if live r then (True, put_row tenant task_id (f r)) else (False, \<lambda>db. db)
     | None \<Rightarrow> (False, \<lambda>db. db))"

definition pg_update_task ::
  "('t, 'e, 'a, 'c) codec \<Rightarrow> chrono \<Rightarrow> instant \<Rightarrow> string \<Rightarrow> string \<Rightarrow> pb_task \<Rightarrow> (('t, 'e, 'a, 'c) pg, unit) program" where
  "pg_update_task C c now tenant owner task =
     (let t = fst (stamp_status now task [])
      in and_then (lifted (pg_split_task C t)) (\<lambda>(blob, artifacts).
         transaction (
           and_then (pg_fetch_manifest tenant (tk_id t)) (\<lambda>stored.
           and_then (lifted (reconcile C artifacts stored)) (\<lambda>plan.
           and_then (sending (owner # task_texts t) (perform (pg_update_row tenant (tk_id t) owner (\<lambda>_. True)
               (pg_written_row c now blob t (rp_manifest plan))))) (\<lambda>affected.
             if \<not> affected then lifted (Inl (SE_TaskNotFound (tk_id t)))
             else pg_apply_artifact_plan C tenant (tk_id t) plan))))))"

definition pg_delete_task :: "string \<Rightarrow> string \<Rightarrow> string \<Rightarrow> (('t, 'e, 'a, 'c) pg, bool) program" where
  "pg_delete_task tenant task_id owner = sending [tenant, task_id, owner] (transaction (
     and_then (perform (\<lambda>db. Inr (case owned_row tenant task_id owner db of
         Some _ \<Rightarrow> (True, \<lambda>db. db\<lparr>sq_tasks := hm_remove (tenant, task_id) (sq_tasks db)\<rparr>)
       | None \<Rightarrow> (False, \<lambda>db. db)))) (\<lambda>affected.
       if \<not> affected then done_with False
       else and_then (perform (\<lambda>_. Inr ((), \<lambda>db. db\<lparr>sq_artifacts :=
           hm_retain (\<lambda>(t, tid, _) _. \<not> (t = tenant \<and> tid = task_id)) (sq_artifacts db)\<rparr>))) (\<lambda>_.
         done_with True))))"

text \<open>
  The validation and the new blob of a status write; \<open>on_terminal\<close> is the error for a terminal
  task.
\<close>

definition pg_status_blob ::
  "('t, 'e, 'a, 'c) codec \<Rightarrow> instant \<Rightarrow> (task_state \<Rightarrow> storage_error) \<Rightarrow> string \<Rightarrow> 't \<Rightarrow> pb_task_status \<Rightarrow>
   stream_event list \<Rightarrow> storage_error + pb_task \<times> stream_event list \<times> 't" where
  "pg_status_blob C now on_terminal task_id blob new_status evs =
     attempt (pg_task_from_json C blob) (\<lambda>t.
     attempt (check_transition on_terminal task_id t new_status) (\<lambda>_.
     attempt (typed (task_try_from (t\<lparr>tk_status := Some new_status\<rparr>))) (\<lambda>t.
       (let (t', evs') = stamp_status now t evs
        in attempt (serde (enc_task C t')) (\<lambda>json. Inr (t', evs', json))))))"

definition pg_update_task_status ::
  "('t, 'e, 'a, 'c) codec \<Rightarrow> chrono \<Rightarrow> instant \<Rightarrow> string \<Rightarrow> string \<Rightarrow> string \<Rightarrow> pb_task_status \<Rightarrow>
   (('t, 'e, 'a, 'c) pg, pb_task) program" where
  "pg_update_task_status C c now tenant task_id owner new_status = sending [tenant, task_id, owner] (
     and_then (query (owned_row tenant task_id owner)) (\<lambda>row. case row of
         None \<Rightarrow> lifted (Inl (SE_TaskNotFound task_id))
       | Some r \<Rightarrow>
           and_then (lifted (pg_status_blob C now (SE_TerminalState task_id) task_id (tr_task_json r) new_status []))
             (\<lambda>(t', _, json).
           and_then (autocommit (pg_update_row tenant task_id owner (\<lambda>_. True) (\<lambda>r. r\<lparr>tr_task_json := json,
               tr_status_state := pg_status_state_str t', tr_status_timestamp := task_sort_key c t',
               tr_updated_at := pg_now now\<rparr>))) (\<lambda>_.
             pg_rehydrate_task C tenant task_id json (tr_artifact_manifest r)))))"

definition pg_append_message ::
  "('t, 'e, 'a, 'c) codec \<Rightarrow> chrono \<Rightarrow> instant \<Rightarrow> string \<Rightarrow> string \<Rightarrow> string \<Rightarrow> pb_message \<Rightarrow>
   (('t, 'e, 'a, 'c) pg, unit) program" where
  "pg_append_message C c now tenant task_id owner m =
     and_then (pg_get_task C tenant task_id owner None) (\<lambda>found. case found of
         None \<Rightarrow> lifted (Inl (SE_TaskNotFound task_id))
       | Some t \<Rightarrow> and_then (lifted (typed (task_try_from (t\<lparr>tk_history := tk_history t @ [m]\<rparr>)))) (\<lambda>updated.
           pg_update_task C c now tenant owner updated))"

definition pg_append_artifact ::
  "('t, 'e, 'a, 'c) codec \<Rightarrow> chrono \<Rightarrow> instant \<Rightarrow> string \<Rightarrow> string \<Rightarrow> string \<Rightarrow> pb_artifact \<Rightarrow> bool \<Rightarrow> bool \<Rightarrow>
   (('t, 'e, 'a, 'c) pg, unit) program" where
  "pg_append_artifact C c now tenant task_id owner a app last_chunk =
     and_then (pg_get_task C tenant task_id owner None) (\<lambda>found. case found of
         None \<Rightarrow> lifted (Inl (SE_TaskNotFound task_id))
       | Some t \<Rightarrow> (let t1 = (case (if app then extend_first_parts (art_artifact_id a) (art_parts a) (tk_artifacts t)
                       else None) of
                 Some as \<Rightarrow> t\<lparr>tk_artifacts := as\<rparr>
               | None \<Rightarrow> t\<lparr>tk_artifacts := tk_artifacts t @ [a]\<rparr>)
           in and_then (lifted (typed (task_try_from t1))) (\<lambda>updated. pg_update_task C c now tenant owner updated)))"

definition pg_task_count :: "(('t, 'e, 'a, 'c) pg, nat) program" where
  "pg_task_count = query (\<lambda>db. length (sq_tasks db))"

definition pg_terminal :: "'t task_row \<Rightarrow> bool" where
  "pg_terminal r \<longleftrightarrow> tr_status_state r \<in> set TERMINAL_STATES_SQL"

definition pg_set_cancel_requested :: "string \<Rightarrow> string \<Rightarrow> string \<Rightarrow> (('t, 'e, 'a, 'c) pg, unit) program" where
  "pg_set_cancel_requested tenant task_id owner = sending [tenant, task_id, owner] (
     and_then (autocommit (pg_update_row tenant task_id owner (\<lambda>r. \<not> pg_terminal r)
         (\<lambda>r. r\<lparr>tr_cancel_requested := True\<rparr>))) (\<lambda>affected.
       if affected then done_with ()
       else and_then (query (\<lambda>db. hm_get (sq_tasks db) (tenant, task_id))) (\<lambda>row. lifted (case row of
           None \<Rightarrow> Inl (SE_TaskNotFound task_id)
         | Some r \<Rightarrow>
             if tr_owner r \<noteq> owner then Inl (SE_TaskNotFound task_id)
             else (case from_wire_name (tr_status_state r) of
                 Some st \<Rightarrow> if is_terminal st then Inl (SE_TerminalState task_id st)
                   else Inl (SE_DatabaseError (''unexpected status_state on set_cancel_requested classify: '' @
                     tr_status_state r))
               | None \<Rightarrow> Inl (SE_DatabaseError (''unexpected status_state on set_cancel_requested classify: '' @
                     tr_status_state r)))))))"

section \<open>\<open>A2aEventStore\<close>\<close>

definition pg_next_sequence :: "string \<Rightarrow> string \<Rightarrow> (('t, 'e, 'a, 'c) pg, nat) program" where
  "pg_next_sequence tenant task_id = query (\<lambda>db. max_sequence tenant task_id db + 1)"

definition pg_insert_event_row ::
  "instant \<Rightarrow> string \<Rightarrow> string \<Rightarrow> nat \<Rightarrow> 'e \<Rightarrow> (('t, 'e, 'a, 'c) pg, unit) program" where
  "pg_insert_event_row now tenant task_id sq data = perform (\<lambda>db.
     if hm_get (sq_events db) (tenant, task_id, sq) \<noteq> None then Inl PG_UNIQUE_VIOLATION
     else Inr ((), \<lambda>db. db\<lparr>sq_events := hm_insert (tenant, task_id, sq) (data, pg_now now) (sq_events db)\<rparr>))"

text \<open>The lock of \<open>SELECT 1 .. FOR UPDATE\<close> keeps other writers of the task out of later gaps.\<close>

definition pg_append_event ::
  "('t, 'e, 'a, 'c) codec \<Rightarrow> instant \<Rightarrow> string \<Rightarrow> string \<Rightarrow> stream_event \<Rightarrow> (('t, 'e, 'a, 'c) pg, nat) program" where
  "pg_append_event C now tenant task_id ev =
     and_then (lifted (serde (enc_event C ev))) (\<lambda>data.
     sending [tenant, task_id] (transaction (
       and_then (query (\<lambda>_. ())) (\<lambda>_.
       and_then (pg_next_sequence tenant task_id) (\<lambda>sq.
       and_then (pg_insert_event_row now tenant task_id sq data) (\<lambda>_. done_with sq))))))"

definition pg_get_events_after ::
  "('t, 'e, 'a, 'c) codec \<Rightarrow> string \<Rightarrow> string \<Rightarrow> nat \<Rightarrow> (('t, 'e, 'a, 'c) pg, (nat \<times> stream_event) list) program" where
  "pg_get_events_after C tenant task_id after_sequence = sending [tenant, task_id] (
     and_then (query (\<lambda>db. sort_key fst (filter (\<lambda>(q, _). as_signed after_sequence < int q)
       (event_rows tenant task_id (sq_events db))))) (\<lambda>rows. lifted (decode_events C rows)))"

definition pg_latest_sequence :: "string \<Rightarrow> string \<Rightarrow> (('t, 'e, 'a, 'c) pg, nat) program" where
  "pg_latest_sequence tenant task_id = sending [tenant, task_id] (query (max_sequence tenant task_id))"

section \<open>\<open>A2aAtomicStore\<close>\<close>

text \<open>
  The loop over the events of a commit: allocate, serialise, insert; \<open>mark\<close> is the marker write
  that follows, if any.
\<close>

fun pg_insert_events ::
  "('t, 'e, 'a, 'c) codec \<Rightarrow> instant \<Rightarrow> string \<Rightarrow> string \<Rightarrow> (nat \<Rightarrow> stream_event \<Rightarrow> (('t, 'e, 'a, 'c) pg, unit) program) \<Rightarrow>
   stream_event list \<Rightarrow> (('t, 'e, 'a, 'c) pg, nat list) program" where
  "pg_insert_events C now tenant task_id mark [] = done_with []"
| "pg_insert_events C now tenant task_id mark (ev # evs) =
     and_then (pg_next_sequence tenant task_id) (\<lambda>sq.
     and_then (lifted (serde (enc_event C ev))) (\<lambda>data.
     and_then (pg_insert_event_row now tenant task_id sq data) (\<lambda>_.
     and_then (mark sq ev) (\<lambda>_.
     and_then (pg_insert_events C now tenant task_id mark evs) (\<lambda>seqs. done_with (sq # seqs))))))"

definition no_marker :: "nat \<Rightarrow> stream_event \<Rightarrow> (('t, 'e, 'a, 'c) pg, unit) program" where
  "no_marker sq ev = done_with ()"

definition pg_write_marker ::
  "bool \<Rightarrow> instant \<Rightarrow> string \<Rightarrow> string \<Rightarrow> string \<Rightarrow> nat \<Rightarrow> stream_event \<Rightarrow> (('t, 'e, 'a, 'c) pg, unit) program" where
  "pg_write_marker enabled now tenant task_id owner sq ev =
     (if enabled \<and> event_is_terminal ev \<and> is_status_update ev
      then and_then (query (\<lambda>db. length (filter (\<lambda>((t, tid, _), _). t = tenant \<and> tid = task_id) (sq_configs db))))
        (\<lambda>config_count.
          if config_count > 0
          then perform (\<lambda>_. Inr ((), \<lambda>db. db\<lparr>sq_pending :=
            hm_insert (tenant, task_id, sq) (owner, nat (pg_systime_to_micros now)) (sq_pending db)\<rparr>))
          else done_with ())
      else done_with ())"

definition pg_bump_latest :: "string \<Rightarrow> string \<Rightarrow> nat list \<Rightarrow> (('t, 'e, 'a, 'c) pg, unit) program" where
  "pg_bump_latest tenant task_id sequences =
     (if sequences = [] then done_with ()
      else (let max_seq = fold max sequences 0
        in perform (\<lambda>db. Inr ((), case hm_get (sq_tasks db) (tenant, task_id) of
            Some r \<Rightarrow> if tr_latest_event_sequence r < max_seq
              then put_row tenant task_id (r\<lparr>tr_latest_event_sequence := max_seq\<rparr>) else (\<lambda>db. db)
          | None \<Rightarrow> (\<lambda>db. db)))))"

definition pg_create_task_with_events ::
  "('t, 'e, 'a, 'c) codec \<Rightarrow> chrono \<Rightarrow> instant \<Rightarrow> string \<Rightarrow> string \<Rightarrow> pb_task \<Rightarrow> stream_event list \<Rightarrow>
   (('t, 'e, 'a, 'c) pg, pb_task \<times> nat list) program" where
  "pg_create_task_with_events C c now tenant owner task new_events =
     (let (t, evs) = stamp_status now task new_events
      in and_then (lifted (pg_split_task C t)) (\<lambda>(blob, artifacts).
         and_then (lifted (reconcile C artifacts [])) (\<lambda>plan.
         transaction (
           and_then (pg_insert_task C c now tenant owner t blob (rp_manifest plan)) (\<lambda>_.
           and_then (pg_apply_artifact_plan C tenant (tk_id t) plan) (\<lambda>_.
           and_then (pg_insert_events C now tenant (tk_id t) no_marker evs) (\<lambda>sequences.
           and_then (pg_bump_latest tenant (tk_id t) sequences) (\<lambda>_. done_with (t, sequences)))))))))"

text \<open>
  The transaction of a status commit: the read without a lock, the validation, the conditional
  update (which locks the row), the events, the counter. The answer carries the manifest that was
  read and the blob of the task for the read after the commit. (Its parameters are sent by the
  caller's \<open>sending\<close>.)
\<close>

definition pg_status_write ::
  "('t, 'e, 'a, 'c) codec \<Rightarrow> chrono \<Rightarrow> bool \<Rightarrow> instant \<Rightarrow> string \<Rightarrow> string \<Rightarrow> string \<Rightarrow> manifest_entry list \<Rightarrow>
   pb_task \<times> stream_event list \<times> 't \<Rightarrow> (('t, 'e, 'a, 'c) pg, pb_task \<times> manifest_entry list \<times> nat list) program" where
  "pg_status_write C c enabled now tenant task_id owner manifest x = (case x of (t', evs', json) \<Rightarrow>
     and_then (perform (pg_update_row tenant task_id owner (\<lambda>r. \<not> pg_terminal r) (\<lambda>r. r\<lparr>tr_task_json := json,
         tr_status_state := pg_status_state_str t', tr_status_timestamp := task_sort_key c t',
         tr_context_id := tk_context_id t', tr_updated_at := pg_now now\<rparr>))) (\<lambda>affected.
     if \<not> affected
     then and_then (query (\<lambda>db. hm_get (sq_tasks db) (tenant, task_id))) (\<lambda>current.
       lifted (Inl (SE_TerminalStateAlreadySet task_id
         (case current of Some r \<Rightarrow> tr_status_state r | None \<Rightarrow> ''TASK_STATE_UNKNOWN''))))
     else
       and_then (pg_insert_events C now tenant task_id (pg_write_marker enabled now tenant task_id owner) evs') (\<lambda>sequences.
       and_then (pg_bump_latest tenant task_id sequences) (\<lambda>_. done_with (t', manifest, sequences)))))"

definition pg_status_tx ::
  "('t, 'e, 'a, 'c) codec \<Rightarrow> chrono \<Rightarrow> bool \<Rightarrow> instant \<Rightarrow> string \<Rightarrow> string \<Rightarrow> string \<Rightarrow> pb_task_status \<Rightarrow>
   stream_event list \<Rightarrow> (('t, 'e, 'a, 'c) pg, pb_task \<times> manifest_entry list \<times> nat list) program" where
  "pg_status_tx C c enabled now tenant task_id owner new_status new_events =
     and_then (query (owned_row tenant task_id owner)) (\<lambda>row. case row of
         None \<Rightarrow> lifted (Inl (SE_TaskNotFound task_id))
       | Some r \<Rightarrow>
           and_then (lifted (pg_status_blob C now (\<lambda>st. SE_TerminalStateAlreadySet task_id (wire_name st))
             task_id (tr_task_json r) new_status new_events))
             (pg_status_write C c enabled now tenant task_id owner (tr_artifact_manifest r)))"

definition pg_update_task_status_with_events ::
  "('t, 'e, 'a, 'c) codec \<Rightarrow> chrono \<Rightarrow> bool \<Rightarrow> instant \<Rightarrow> string \<Rightarrow> string \<Rightarrow> string \<Rightarrow> pb_task_status \<Rightarrow>
   stream_event list \<Rightarrow> (('t, 'e, 'a, 'c) pg, pb_task \<times> nat list) program" where
  "pg_update_task_status_with_events C c enabled now tenant task_id owner new_status new_events =
     sending [tenant, task_id, owner] (and_then (transaction (pg_status_tx C c enabled now tenant task_id owner new_status new_events))
       (\<lambda>(t', manifest, sequences).
     and_then (lifted (serde (enc_task C t'))) (\<lambda>new_blob.
     and_then (pg_rehydrate_task C tenant task_id new_blob manifest) (\<lambda>rehydrated.
       done_with (rehydrated, sequences)))))"

definition pg_update_tx ::
  "('t, 'e, 'a, 'c) codec \<Rightarrow> chrono \<Rightarrow> instant \<Rightarrow> string \<Rightarrow> string \<Rightarrow> pb_task \<Rightarrow> stream_event list \<Rightarrow> 't \<Rightarrow>
   pb_artifact list \<Rightarrow> (('t, 'e, 'a, 'c) pg, nat list) program" where
  "pg_update_tx C c now tenant owner t evs blob artifacts =
     and_then (pg_fetch_manifest tenant (tk_id t)) (\<lambda>stored.
     and_then (lifted (reconcile C artifacts stored)) (\<lambda>plan.
     and_then (sending (owner # task_texts t) (perform (pg_update_row tenant (tk_id t) owner (\<lambda>r. \<not> pg_terminal r)
         (pg_written_row c now blob t (rp_manifest plan))))) (\<lambda>affected.
     if \<not> affected
     then and_then (query (owned_row tenant (tk_id t) owner)) (\<lambda>current. lifted (Inl (case current of
         Some r \<Rightarrow> SE_TerminalStateAlreadySet (tk_id t) (tr_status_state r)
       | None \<Rightarrow> SE_TaskNotFound (tk_id t))))
     else
       and_then (pg_apply_artifact_plan C tenant (tk_id t) plan) (\<lambda>_.
       and_then (pg_insert_events C now tenant (tk_id t) no_marker evs) (\<lambda>sequences.
       and_then (pg_bump_latest tenant (tk_id t) sequences) (\<lambda>_. done_with sequences))))))"

definition pg_update_task_with_events ::
  "('t, 'e, 'a, 'c) codec \<Rightarrow> chrono \<Rightarrow> instant \<Rightarrow> string \<Rightarrow> string \<Rightarrow> pb_task \<Rightarrow> stream_event list \<Rightarrow>
   (('t, 'e, 'a, 'c) pg, nat list) program" where
  "pg_update_task_with_events C c now tenant owner task new_events =
     (let (t, evs) = stamp_status now task new_events
      in and_then (lifted (pg_split_task C t)) (\<lambda>(blob, artifacts).
           transaction (pg_update_tx C c now tenant owner t evs blob artifacts)))"

section \<open>Retention\<close>

text \<open>
  \<open>DELETE .. WHERE ctid IN (SELECT ctid .. WHERE P LIMIT batch)\<close> in a loop that ends with a short
  batch. Rows only leave a table here; the loop is bounded by the rows there are plus what the
  gaps add, so it takes the number of batches it may run and stops early when a batch is short.
\<close>

fun pg_delete_batches ::
  "nat \<Rightarrow> nat \<Rightarrow> ('db \<Rightarrow> nat \<times> ('db \<Rightarrow> 'db)) \<Rightarrow> nat \<Rightarrow> ('db, nat) program" where
  "pg_delete_batches 0 batch delete deleted = done_with deleted"
| "pg_delete_batches (Suc fuel) batch delete deleted =
     and_then (autocommit (\<lambda>db. Inr (delete db))) (\<lambda>n.
       if n < batch then done_with (deleted + n)
       else pg_delete_batches fuel batch delete (deleted + n))"

definition pg_delete_deliveries :: "int \<Rightarrow> nat \<Rightarrow> ('t, 'e, 'a, 'c) pg \<Rightarrow> nat \<times> (('t, 'e, 'a, 'c) pg \<Rightarrow> ('t, 'e, 'a, 'c) pg)" where
  "pg_delete_deliveries now_micros batch db =
     (case delete_limit (\<lambda>(_, r). dr_status r = ''GaveUp'' \<and> dr_expires_at r < now_micros) batch (sq_deliveries db) of
        (rows, n) \<Rightarrow> (n, \<lambda>db. db\<lparr>sq_deliveries := rows\<rparr>))"

definition pg_delete_events :: "int \<Rightarrow> nat \<Rightarrow> ('t, 'e, 'a, 'c) pg \<Rightarrow> nat \<times> (('t, 'e, 'a, 'c) pg \<Rightarrow> ('t, 'e, 'a, 'c) pg)" where
  "pg_delete_events cutoff batch db =
     (case delete_limit (\<lambda>(_, (_, created)). int created < cutoff) batch (sq_events db) of
        (rows, n) \<Rightarrow> (n, \<lambda>db. db\<lparr>sq_events := rows\<rparr>))"

definition pg_delete_tasks :: "int \<Rightarrow> nat \<Rightarrow> ('t, 'e, 'a, 'c) pg \<Rightarrow> nat \<times> (('t, 'e, 'a, 'c) pg \<Rightarrow> ('t, 'e, 'a, 'c) pg)" where
  "pg_delete_tasks cutoff batch db =
     (case delete_limit (\<lambda>(_, r). pg_terminal r \<and> int (tr_updated_at r) < cutoff) batch (sq_tasks db) of
        (rows, n) \<Rightarrow> (n, \<lambda>db. db\<lparr>sq_tasks := rows\<rparr>))"

definition pg_delete_orphans :: "nat \<Rightarrow> ('t, 'e, 'a, 'c) pg \<Rightarrow> nat \<times> (('t, 'e, 'a, 'c) pg \<Rightarrow> ('t, 'e, 'a, 'c) pg)" where
  "pg_delete_orphans batch db =
     (case delete_limit (\<lambda>((t, tid, _), _). hm_get (sq_tasks db) (t, tid) = None) batch (sq_artifacts db) of
        (rows, n) \<Rightarrow> (n, \<lambda>db. db\<lparr>sq_artifacts := rows\<rparr>))"

definition pg_cleanup_expired :: "nat \<Rightarrow> retention_config \<Rightarrow> instant \<Rightarrow> (('t, 'e, 'a, 'c) pg, nat) program" where
  "pg_cleanup_expired fuel rc now =
     (let batch = retention_batch rc;
          cutoff = (\<lambda>ttl. int (pg_now now) - 1000000 * int ttl)
      in and_then (pg_delete_batches fuel batch (pg_delete_deliveries (pg_systime_to_micros now) batch) 0) (\<lambda>n1.
         and_then (if rc_event_ttl_seconds rc > 0
           then pg_delete_batches fuel batch (pg_delete_events (cutoff (rc_event_ttl_seconds rc)) batch) n1
           else done_with n1) (\<lambda>n2.
         if rc_task_ttl_seconds rc > 0
         then and_then (pg_delete_batches fuel batch (pg_delete_tasks (cutoff (rc_task_ttl_seconds rc)) batch) n2)
           (\<lambda>n3. and_then (pg_delete_batches fuel batch (pg_delete_orphans batch) 0) (\<lambda>_. done_with n3))
         else done_with n2)))"

end
