(* ===== verification/Postgres_Push.thy ===== *)
theory Postgres_Push
  imports Postgres_Store
begin

text \<open>
  The listings, push configs and delivery claims of \<open>PostgresA2aStorage\<close>. Text columns other
  than the status time sort by the collation of the database: \<open>coll\<close> is the sort key of a text.
  A serialization failure (SQLSTATE 40001) may hit any attempt of \<open>create_config\<close>; which ones it
  hits is a parameter.
\<close>

section \<open>\<open>list_tasks\<close> and the cancellation supervisor\<close>

definition pg_select_tasks ::
  "(string \<Rightarrow> string) \<Rightarrow> chrono \<Rightarrow> task_filter \<Rightarrow> (string \<times> string) option \<Rightarrow> nat \<Rightarrow> ('t, 'e, 'a, 'c) pg \<Rightarrow>
   (task_key \<times> 't task_row) list" where
  "pg_select_tasks coll c f cursor limit db = take limit
     (sort_desc (\<lambda>((_, i), r). (tr_status_timestamp r, coll i))
       (filter (\<lambda>((_, i), r). case cursor of None \<Rightarrow> True
            | Some (key, j) \<Rightarrow> tr_status_timestamp r < key \<or> tr_status_timestamp r = key \<and> coll i < coll j)
         (filter (select_matches c f) (sq_tasks db))))"

text \<open>The loop over the rows of a page: a row that does not decode is skipped.\<close>

fun pg_list_rows ::
  "('t, 'e, 'a, 'c) codec \<Rightarrow> bool \<Rightarrow> string \<Rightarrow> int option \<Rightarrow> (task_key \<times> 't task_row) list \<Rightarrow>
   (('t, 'e, 'a, 'c) pg, pb_task list) program" where
  "pg_list_rows C include_artifacts tenant history_length [] = done_with []"
| "pg_list_rows C include_artifacts tenant history_length (((_, row_task_id), r) # rows) = (\<lambda>s.
     case (if include_artifacts
            then pg_rehydrate_task C tenant row_task_id (tr_task_json r) (tr_artifact_manifest r) s
            else (pg_task_from_json C (tr_task_json r), s)) of
        (Inl _, s) \<Rightarrow> pg_list_rows C include_artifacts tenant history_length rows s
      | (Inr t, s) \<Rightarrow> and_then (pg_list_rows C include_artifacts tenant history_length rows) (\<lambda>ts.
          done_with (trim_history t history_length # ts)) s)"

text \<open>The texts a listing sends: the filter's, then the cursor's.\<close>

definition filter_texts :: "task_filter \<Rightarrow> string list" where
  "filter_texts f = List.map_filter (\<lambda>x. x) [tf_tenant f, tf_owner f, tf_context_id f]"

definition cursor_texts :: "(string \<times> string) option \<Rightarrow> string list" where
  "cursor_texts cursor = (case cursor of Some (key, i) \<Rightarrow> [key, i] | None \<Rightarrow> [])"

definition pg_list_tasks ::
  "('t, 'e, 'a, 'c) codec \<Rightarrow> (string \<Rightarrow> string) \<Rightarrow> chrono \<Rightarrow> task_filter \<Rightarrow> (('t, 'e, 'a, 'c) pg, task_list_page) program" where
  "pg_list_tasks C coll c f =
     and_then (lifted (resolved_page_size f)) (\<lambda>page_size.
     and_then (lifted (case tf_page_token f of None \<Rightarrow> Inr None
        | Some token \<Rightarrow> attempt (decode_cursor c token) (\<lambda>k. Inr (Some k)))) (\<lambda>cursor.
     and_then (sending (filter_texts f) (query (\<lambda>db. length (filter (select_matches c f) (sq_tasks db))))) (\<lambda>total_size.
     and_then (sending (cursor_texts cursor) (query (pg_select_tasks coll c f cursor (nat page_size + 1)))) (\<lambda>fetched.
       (let has_more = length fetched > nat page_size;
            rows = take (nat page_size) fetched;
            include_artifacts = (case tf_include_artifacts f of Some b \<Rightarrow> b | None \<Rightarrow> False);
            next = (if rows \<noteq> [] \<and> has_more
              then encode_cursor (fst (select_key (last rows))) (snd (select_key (last rows))) else '''')
        in and_then (pg_list_rows C include_artifacts
             (case tf_tenant f of Some tenant \<Rightarrow> tenant | None \<Rightarrow> '''') (tf_history_length f) rows) (\<lambda>ts.
           done_with \<lparr>tlp_tasks = ts, tlp_next_page_token = next, tlp_page_size = page_size,
             tlp_total_size = as_i32 (int total_size)\<rparr>))))))"

definition pg_get_cancel_requested :: "string \<Rightarrow> string \<Rightarrow> (('t, 'e, 'a, 'c) pg, bool) program" where
  "pg_get_cancel_requested tenant task_id = sending [tenant, task_id]
     (query (\<lambda>db. case hm_get (sq_tasks db) (tenant, task_id) of
       Some r \<Rightarrow> \<not> pg_terminal r \<and> tr_cancel_requested r | None \<Rightarrow> False))"

definition pg_list_cancel_requested :: "string \<Rightarrow> string list \<Rightarrow> (('t, 'e, 'a, 'c) pg, string list) program" where
  "pg_list_cancel_requested tenant task_ids =
     (if task_ids = [] then done_with []
      else sending (tenant # task_ids) (query (\<lambda>db. List.map_filter (\<lambda>((t, i), r). if t = tenant \<and> i \<in> set task_ids \<and>
          tr_cancel_requested r \<and> \<not> pg_terminal r then Some i else None) (sq_tasks db))))"

definition pg_renew_executor_leases ::
  "string \<Rightarrow> string list \<Rightarrow> int option \<Rightarrow> (('t, 'e, 'a, 'c) pg, unit) program" where
  "pg_renew_executor_leases tenant task_ids expires_at_micros =
     (if task_ids = [] then done_with ()
      else sending (tenant # task_ids) (autocommit (\<lambda>_. Inr ((), \<lambda>db. db\<lparr>sq_tasks := map (\<lambda>((t, i), r).
        ((t, i), if t = tenant \<and> i \<in> set task_ids then r\<lparr>tr_lease_expires_at := expires_at_micros\<rparr> else r))
          (sq_tasks db)\<rparr>))))"

definition pg_list_expired_executor_leases :: "int \<Rightarrow> (('t, 'e, 'a, 'c) pg, supervised_task list) program" where
  "pg_list_expired_executor_leases now_micros = query (\<lambda>db. map supervised_row (filter
     (\<lambda>(_, r). tr_status_state r \<in> set EXECUTOR_HELD_STATES_SQL \<and>
        (case tr_lease_expires_at r of None \<Rightarrow> False | Some l \<Rightarrow> l < now_micros)) (sq_tasks db)))"

definition pg_list_idle_client_held_tasks ::
  "chrono \<Rightarrow> int \<Rightarrow> nat \<Rightarrow> (('t, 'e, 'a, 'c) pg, supervised_task list) program" where
  "pg_list_idle_client_held_tasks c status_before_micros limit = query (\<lambda>db. map supervised_row (take limit (filter
     (\<lambda>(_, r). tr_status_state r \<in> set CLIENT_HELD_STATES_SQL \<and>
        tr_status_timestamp r < key_of_micros c status_before_micros) (sq_tasks db))))"

section \<open>\<open>A2aPushNotificationStorage\<close>\<close>

text \<open>
  One SERIALIZABLE transaction of \<open>create_config\<close>: the floor is read from its snapshot, and what
  others commit before the insert does not change it. \<open>conflict\<close> is a serialization failure.
\<close>

definition pg_config_tx ::
  "bool \<Rightarrow> 'c \<Rightarrow> string \<Rightarrow> push_config \<Rightarrow> (('t, 'e, 'a, 'c) pg, bool) program" where
  "pg_config_tx conflict json tenant cfg = transaction (
     and_then (query (\<lambda>db. case hm_get (sq_tasks db) (tenant, pc_task_id cfg) of
         Some r \<Rightarrow> tr_latest_event_sequence r | None \<Rightarrow> 0)) (\<lambda>seq_read.
       if conflict then done_with False
       else and_then (perform (\<lambda>_. Inr ((), \<lambda>db. db\<lparr>sq_configs :=
           hm_insert (tenant, pc_task_id cfg, pc_id cfg)
             \<lparr>cr_config_json = json, cr_registered_after_event_sequence = seq_read\<rparr> (sq_configs db)\<rparr>))) (\<lambda>_.
         done_with True)))"

definition SERIALIZATION_FAILURE :: storage_error where
  "SERIALIZATION_FAILURE = SE_DatabaseError ''could not serialize access due to read/write dependencies among transactions''"

fun pg_create_config_loop ::
  "nat \<Rightarrow> (nat \<Rightarrow> bool) \<Rightarrow> 'c \<Rightarrow> string \<Rightarrow> push_config \<Rightarrow> nat \<Rightarrow> (('t, 'e, 'a, 'c) pg, push_config) program" where
  "pg_create_config_loop 0 conflicts json tenant cfg k =
     lifted (Inl (SE_CreateConfigCasTimeout tenant (pc_task_id cfg)))"
| "pg_create_config_loop (Suc left) conflicts json tenant cfg k =
     and_then (pg_config_tx (conflicts k) json tenant cfg) (\<lambda>ok.
       if ok then done_with cfg
       else if k + 1 < MAX_ATTEMPTS then pg_create_config_loop left conflicts json tenant cfg (k + 1)
       else lifted (Inl SERIALIZATION_FAILURE))"

definition pg_create_config ::
  "('t, 'e, 'a, 'c) codec \<Rightarrow> string \<Rightarrow> (nat \<Rightarrow> bool) \<Rightarrow> string \<Rightarrow> push_config \<Rightarrow> (('t, 'e, 'a, 'c) pg, push_config) program" where
  "pg_create_config C uuid conflicts tenant cfg =
     (let cfg' = (if pc_id cfg = [] then cfg\<lparr>pc_id := uuid\<rparr> else cfg)
      in and_then (lifted (serde (enc_config C cfg'))) (\<lambda>json.
           sending [tenant, pc_task_id cfg', pc_id cfg'] (pg_create_config_loop MAX_ATTEMPTS conflicts json tenant cfg' 0)))"

definition pg_get_config ::
  "('t, 'e, 'a, 'c) codec \<Rightarrow> string \<Rightarrow> string \<Rightarrow> string \<Rightarrow> (('t, 'e, 'a, 'c) pg, push_config option) program" where
  "pg_get_config C tenant task_id config_id = sending [tenant, task_id, config_id] (
     and_then (query (\<lambda>db. hm_get (sq_configs db) (tenant, task_id, config_id))) (\<lambda>row. case row of
         Some r \<Rightarrow> lifted (attempt (serde (dec_config C (cr_config_json r))) (\<lambda>c. Inr (Some c)))
       | None \<Rightarrow> done_with None))"

definition pg_config_page ::
  "('t, 'e, 'a, 'c) codec \<Rightarrow> (string \<Rightarrow> string) \<Rightarrow> (nat \<Rightarrow> bool) \<Rightarrow> string \<Rightarrow> string \<Rightarrow> string option \<Rightarrow> int option \<Rightarrow>
   (('t, 'e, 'a, 'c) pg, push_config_page) program" where
  "pg_config_page C coll P tenant task_id page_token page_size =
     (let n = nat (push_config_page_size page_size)
      in and_then (sending ([tenant, task_id] @ (case page_token of Some token \<Rightarrow> [token] | None \<Rightarrow> []))
           (query (\<lambda>db. map snd (take (n + 1) (sort_key (coll \<circ> fst)
           (map (\<lambda>((_, _, i), r). (i, cr_config_json r)) (filter (\<lambda>((t, tid, i), r). t = tenant \<and> tid = task_id \<and>
              P (cr_registered_after_event_sequence r) \<and>
              (case page_token of None \<Rightarrow> True | Some token \<Rightarrow> coll token < coll i)) (sq_configs db)))))))) (\<lambda>rows.
         (let configs = List.map_filter (\<lambda>json. case dec_config C json of Inr c \<Rightarrow> Some c | Inl _ \<Rightarrow> None) (take n rows)
          in done_with \<lparr>pcp_configs = configs, pcp_next_page_token =
               (if length rows > n then (if configs = [] then '''' else pc_id (last configs)) else '''')\<rparr>)))"

definition pg_list_configs ::
  "('t, 'e, 'a, 'c) codec \<Rightarrow> (string \<Rightarrow> string) \<Rightarrow> string \<Rightarrow> string \<Rightarrow> string option \<Rightarrow> int option \<Rightarrow>
   (('t, 'e, 'a, 'c) pg, push_config_page) program" where
  "pg_list_configs C coll tenant task_id page_token page_size =
     pg_config_page C coll (\<lambda>_. True) tenant task_id page_token page_size"

definition pg_list_configs_eligible_at_event ::
  "('t, 'e, 'a, 'c) codec \<Rightarrow> (string \<Rightarrow> string) \<Rightarrow> string \<Rightarrow> string \<Rightarrow> nat \<Rightarrow> string option \<Rightarrow> int option \<Rightarrow>
   (('t, 'e, 'a, 'c) pg, push_config_page) program" where
  "pg_list_configs_eligible_at_event C coll tenant task_id event_sequence page_token page_size =
     pg_config_page C coll (\<lambda>floor. int floor < as_signed event_sequence) tenant task_id page_token page_size"

definition pg_delete_config :: "string \<Rightarrow> string \<Rightarrow> string \<Rightarrow> (('t, 'e, 'a, 'c) pg, unit) program" where
  "pg_delete_config tenant task_id config_id = sending [tenant, task_id, config_id] (autocommit (\<lambda>_. Inr ((), \<lambda>db.
     db\<lparr>sq_configs := hm_remove (tenant, task_id, config_id) (sq_configs db)\<rparr>)))"

section \<open>\<open>A2aPushDeliveryStore\<close>\<close>

text \<open>A claim's texts are ids read from the tables and the instance's own; they are sent as they are.\<close>

fun pg_claim_status_to_str :: "claim_status \<Rightarrow> string" where
  "pg_claim_status_to_str Pending = ''Pending''"
| "pg_claim_status_to_str Attempting = ''Attempting''"
| "pg_claim_status_to_str Succeeded = ''Succeeded''"
| "pg_claim_status_to_str GaveUp = ''GaveUp''"
| "pg_claim_status_to_str Abandoned = ''Abandoned''"

definition pg_claim_status_from_str :: "string \<Rightarrow> storage_error + claim_status" where
  "pg_claim_status_from_str s = (if s = ''Pending'' then Inr Pending
       else if s = ''Attempting'' then Inr Attempting
       else if s = ''Succeeded'' then Inr Succeeded
       else if s = ''GaveUp'' then Inr GaveUp
       else if s = ''Abandoned'' then Inr Abandoned
       else Inl (SE_DatabaseError (''unknown claim status: '' @ s)))"

text \<open>\<open>INTEGER\<close> columns are 32-bit.\<close>

definition INTEGER_OUT_OF_RANGE :: storage_error where
  "INTEGER_OUT_OF_RANGE = SE_DatabaseError ''integer out of range''"

definition pg_claim_delivery ::
  "instant \<Rightarrow> push_delivery_key \<Rightarrow> string \<Rightarrow> string \<Rightarrow> nat \<Rightarrow> (('t, 'e, 'a, 'c) pg, delivery_claim) program" where
  "pg_claim_delivery now key claimant owner claim_expiry =
     (let now_micros = pg_systime_to_micros now; expires_micros = pg_systime_to_micros (now + claim_expiry)
      in transaction (
        and_then (query (\<lambda>db. delivery_of db key)) (\<lambda>existing. case existing of
          Some prev \<Rightarrow>
            and_then (lifted (pg_claim_status_from_str (dr_status prev))) (\<lambda>prev_status.
            if claim_terminal prev_status \<or> dr_expires_at prev > now_micros then lifted (Inl (claim_held key))
            else and_then (perform (\<lambda>db. Inr (case delivery_of db key of
                Some r \<Rightarrow> if dr_generation r = dr_generation prev \<and> row_open r \<and> dr_expires_at r < now_micros
                  then (True, put_delivery key (r\<lparr>dr_claimant := claimant, dr_generation := dr_generation prev + 1,
                    dr_claimed_at := now_micros, dr_expires_at := expires_micros, dr_status := ''Pending'',
                    dr_gave_up_at := None, dr_gave_up_reason := None, dr_abandoned_reason := None\<rparr>))
                  else (False, \<lambda>db. db)
              | None \<Rightarrow> (False, \<lambda>db. db)))) (\<lambda>affected.
              if \<not> affected then lifted (Inl (claim_held key))
              else done_with \<lparr>dc_claimant = claimant, dc_owner = dr_owner prev,
                dc_generation = dr_generation prev + 1, dc_claimed_at = now,
                dc_delivery_attempt_count = as_u32 (dr_delivery_attempt_count prev), dc_status = Pending\<rparr>))
        | None \<Rightarrow>
            and_then (perform (\<lambda>db. Inr (case delivery_of db key of
                Some _ \<Rightarrow> (False, \<lambda>db. db)
              | None \<Rightarrow> (True, put_delivery key \<lparr>dr_claimant = claimant, dr_owner = owner, dr_generation = 1,
                  dr_claimed_at = now_micros, dr_expires_at = expires_micros, dr_delivery_attempt_count = 0,
                  dr_status = ''Pending'', dr_first_attempted_at = None, dr_last_attempted_at = None,
                  dr_last_http_status = None, dr_last_error_class = None, dr_gave_up_at = None,
                  dr_gave_up_reason = None, dr_abandoned_reason = None\<rparr>)))) (\<lambda>affected.
              if \<not> affected then lifted (Inl (claim_held key))
              else done_with \<lparr>dc_claimant = claimant, dc_owner = owner, dc_generation = 1, dc_claimed_at = now,
                dc_delivery_attempt_count = 0, dc_status = Pending\<rparr>))))"

definition pg_record_attempt_started ::
  "instant \<Rightarrow> push_delivery_key \<Rightarrow> string \<Rightarrow> nat \<Rightarrow> (('t, 'e, 'a, 'c) pg, nat) program" where
  "pg_record_attempt_started now key claimant claim_generation = transaction (
     and_then (perform (\<lambda>db. case delivery_of db key of
         Some r \<Rightarrow>
           if dr_claimant r = claimant \<and> dr_generation r = claim_generation \<and> row_open r
           then (if dr_delivery_attempt_count r + 1 \<ge> 2 ^ 31 then Inl INTEGER_OUT_OF_RANGE
             else (let r' = r\<lparr>dr_delivery_attempt_count := dr_delivery_attempt_count r + 1,
                      dr_status := (if dr_status r = ''Pending'' then ''Attempting'' else dr_status r),
                      dr_first_attempted_at := coalesce (dr_first_attempted_at r) (pg_systime_to_micros now),
                      dr_last_attempted_at := Some (pg_systime_to_micros now)\<rparr>
               in Inr (Some (dr_delivery_attempt_count r'), put_delivery key r')))
           else Inr (None, \<lambda>db. db)
       | None \<Rightarrow> Inr (None, \<lambda>db. db))) (\<lambda>count. lifted (case count of
         Some n \<Rightarrow> Inr n | None \<Rightarrow> Inl (stale_claim key))))"

fun pg_settled_row :: "int \<Rightarrow> int \<Rightarrow> delivery_outcome \<Rightarrow> delivery_row \<Rightarrow> delivery_row" where
  "pg_settled_row now_micros cur_claimed (OutSucceeded http) r = r\<lparr>dr_status := ''Succeeded'',
     dr_last_http_status := Some http,
     dr_first_attempted_at := coalesce (dr_first_attempted_at r) now_micros,
     dr_last_attempted_at := Some now_micros\<rparr>"
| "pg_settled_row now_micros cur_claimed (OutRetry next_attempt_at http error_class) r = r\<lparr>
     dr_status := ''Attempting'', dr_last_http_status := http,
     dr_last_error_class := Some (error_class_to_json error_class), dr_last_attempted_at := Some now_micros\<rparr>"
| "pg_settled_row now_micros cur_claimed (OutGaveUp reason error_class http retained_until) r = r\<lparr>
     dr_status := ''GaveUp'', dr_gave_up_at := Some now_micros,
     dr_gave_up_reason := Some (gave_up_reason_to_str reason),
     dr_last_error_class := Some (error_class_to_json error_class), dr_last_http_status := http,
     dr_first_attempted_at := coalesce (dr_first_attempted_at r) cur_claimed,
     dr_last_attempted_at := coalesce (dr_last_attempted_at r) now_micros,
     dr_expires_at := pg_systime_to_micros retained_until\<rparr>"
| "pg_settled_row now_micros cur_claimed (OutAbandoned reason) r = r\<lparr>dr_status := ''Abandoned'',
     dr_abandoned_reason := Some (abandoned_reason_to_str reason)\<rparr>"

definition pg_record_delivery_outcome ::
  "instant \<Rightarrow> push_delivery_key \<Rightarrow> string \<Rightarrow> nat \<Rightarrow> delivery_outcome \<Rightarrow> (('t, 'e, 'a, 'c) pg, unit) program" where
  "pg_record_delivery_outcome now key claimant claim_generation outcome = transaction (
     and_then (query (\<lambda>db. delivery_of db key)) (\<lambda>row. case row of
         None \<Rightarrow> lifted (Inl (stale_claim key))
       | Some cur \<Rightarrow>
           if dr_claimant cur \<noteq> claimant \<or> dr_generation cur \<noteq> claim_generation then lifted (Inl (stale_claim key))
           else and_then (lifted (pg_claim_status_from_str (dr_status cur))) (\<lambda>cur_status.
             if claim_terminal cur_status then done_with ()
             else perform (\<lambda>db. Inr ((), case delivery_of db key of
                 Some r \<Rightarrow> put_delivery key (pg_settled_row (pg_systime_to_micros now) (dr_claimed_at cur) outcome r)
               | None \<Rightarrow> (\<lambda>db. db))))))"

section \<open>Sweeps, listings, markers\<close>

definition pg_micros_to_systime :: "int \<Rightarrow> instant" where
  "pg_micros_to_systime m = nat (max m 0) * 1000"

definition pg_sweep_expired_claims :: "instant \<Rightarrow> (('t, 'e, 'a, 'c) pg, nat) program" where
  "pg_sweep_expired_claims now = query (\<lambda>db. length (filter
     (\<lambda>(_, r). dr_expires_at r < pg_systime_to_micros now \<and> row_open r) (sq_deliveries db)))"

definition pg_list_reclaimable_claims :: "instant \<Rightarrow> nat \<Rightarrow> (('t, 'e, 'a, 'c) pg, reclaimable_claim list) program" where
  "pg_list_reclaimable_claims now limit = query (\<lambda>db. map
     (\<lambda>((tenant, task_id, event_sequence, config_id), r). \<lparr>rec_tenant = tenant, rec_owner = dr_owner r,
        rec_task_id = task_id, rec_event_sequence = event_sequence, rec_config_id = config_id\<rparr>)
     (take limit (filter (\<lambda>(_, r). dr_expires_at r < pg_systime_to_micros now \<and> row_open r) (sq_deliveries db))))"

definition pg_record_pending_dispatch ::
  "instant \<Rightarrow> string \<Rightarrow> string \<Rightarrow> string \<Rightarrow> nat \<Rightarrow> (('t, 'e, 'a, 'c) pg, unit) program" where
  "pg_record_pending_dispatch now tenant owner task_id event_sequence = sending [tenant, task_id, owner]
     (autocommit (\<lambda>_. Inr ((), \<lambda>db.
       db\<lparr>sq_pending := hm_insert (tenant, task_id, event_sequence) (owner, nat (pg_systime_to_micros now))
         (sq_pending db)\<rparr>)))"

definition pg_delete_pending_dispatch :: "string \<Rightarrow> string \<Rightarrow> nat \<Rightarrow> (('t, 'e, 'a, 'c) pg, unit) program" where
  "pg_delete_pending_dispatch tenant task_id event_sequence = sending [tenant, task_id] (autocommit (\<lambda>_. Inr ((), \<lambda>db.
     db\<lparr>sq_pending := hm_remove (tenant, task_id, event_sequence) (sq_pending db)\<rparr>)))"

definition pg_list_stale_pending_dispatches ::
  "instant \<Rightarrow> nat \<Rightarrow> (('t, 'e, 'a, 'c) pg, pending_dispatch list) program" where
  "pg_list_stale_pending_dispatches older_than limit = query (\<lambda>db. map
     (\<lambda>((tenant, task_id, sq), (owner, recorded)). \<lparr>pd_tenant = tenant, pd_owner = owner, pd_task_id = task_id,
        pd_event_sequence = sq, pd_recorded_at = pg_micros_to_systime (int recorded)\<rparr>)
     (take limit (filter (\<lambda>(_, (_, recorded)). int recorded \<le> pg_systime_to_micros older_than) (sq_pending db))))"

definition or_default :: "'x option \<Rightarrow> 'x \<Rightarrow> 'x" where
  "or_default a d = (case a of Some x \<Rightarrow> x | None \<Rightarrow> d)"

definition pg_failed_row :: "(string \<times> string \<times> nat) \<times> delivery_row \<Rightarrow> failed_delivery" where
  "pg_failed_row e = (case e of ((task_id, config_id, sq), r) \<Rightarrow>
     (let gave_up = or_default (dr_gave_up_at r) (dr_claimed_at r)
      in \<lparr>fd_task_id = task_id, fd_config_id = config_id, fd_event_sequence = sq,
           fd_first_attempted_at = pg_micros_to_systime (or_default (dr_first_attempted_at r) (dr_claimed_at r)),
           fd_last_attempted_at = pg_micros_to_systime (or_default (dr_last_attempted_at r) gave_up),
           fd_gave_up_at = pg_micros_to_systime gave_up,
           fd_delivery_attempt_count = as_u32 (dr_delivery_attempt_count r),
           fd_last_http_status = map_option (\<lambda>n. n mod 2 ^ 16) (dr_last_http_status r),
           fd_last_error_class = or_default (Option.bind (dr_last_error_class r) error_class_from_json) NetworkError\<rparr>))"

definition pg_list_failed_deliveries ::
  "string \<Rightarrow> instant \<Rightarrow> nat \<Rightarrow> (('t, 'e, 'a, 'c) pg, failed_delivery list) program" where
  "pg_list_failed_deliveries tenant since limit = sending [tenant] (query (\<lambda>db. map pg_failed_row (take limit
     (sort_desc (\<lambda>(_, r). or_default (dr_gave_up_at r) 0) (List.map_filter
       (\<lambda>((t, task_id, sq, config_id), r). if t = tenant \<and> dr_status r = ''GaveUp'' \<and>
            (case dr_gave_up_at r of Some g \<Rightarrow> pg_systime_to_micros since \<le> g | None \<Rightarrow> False)
          then Some ((task_id, config_id, sq), r) else None) (sq_deliveries db))))))"

end
