(* ===== verification/Postgres_Alone.thy ===== *)
theory Postgres_Alone
  imports Postgres_Push Sqlite_Typed
begin

text \<open>
  What a PostgreSQL program does when nobody else commits: what the SQLite operation does, on the
  same tables with the row times in seconds. \<open>matches\<close> relates a program inside its transaction to
  the SQLite function on the database it sees.
\<close>

section \<open>Row times\<close>

definition hm_map :: "('v \<Rightarrow> 'w) \<Rightarrow> ('k, 'v) hashmap \<Rightarrow> ('k, 'w) hashmap" where
  "hm_map f m = map (\<lambda>(k, v). (k, f v)) m"

lemma hm_map_laws [hm_simps]:
  "hm_get (hm_map f m) k = map_option f (hm_get m k)"
  "hm_map f (hm_insert k v m) = hm_insert k (f v) (hm_map f m)"
  "hm_map f (hm_remove k m) = hm_remove k (hm_map f m)"
proof -
  show "hm_get (hm_map f m) k = map_option f (hm_get m k)"
    by (induction m) (auto simp: hm_get_def hm_map_def)
  show "hm_map f (hm_insert k v m) = hm_insert k (f v) (hm_map f m)"
    by (induction m) (auto simp: hm_map_def hm_insert_def)
  show "hm_map f (hm_remove k m) = hm_remove k (hm_map f m)"
    by (induction m) (auto simp: hm_map_def hm_remove_def)
qed

definition row_seconds :: "'t task_row \<Rightarrow> 't task_row" where
  "row_seconds r = r\<lparr>tr_updated_at := tr_updated_at r div 1000000\<rparr>"

definition in_seconds :: "('t, 'e, 'a, 'c) pg \<Rightarrow> ('t, 'e, 'a, 'c) sqlite" where
  "in_seconds db = db\<lparr>sq_tasks := hm_map row_seconds (sq_tasks db),
     sq_events := hm_map (\<lambda>(data, created). (data, created div 1000000)) (sq_events db)\<rparr>"

named_theorems seconds_simps

lemma pg_now_seconds [seconds_simps]: "pg_now now div 1000000 = datetime_now now"
  by (simp add: pg_now_def datetime_now_def nanos_per_sec_def div_mult2_eq [symmetric])

lemma row_seconds_fields [simp]:
  "tr_owner (row_seconds r) = tr_owner r" "tr_task_json (row_seconds r) = tr_task_json r"
  "tr_context_id (row_seconds r) = tr_context_id r" "tr_status_state (row_seconds r) = tr_status_state r"
  "tr_status_timestamp (row_seconds r) = tr_status_timestamp r"
  "tr_cancel_requested (row_seconds r) = tr_cancel_requested r"
  "tr_latest_event_sequence (row_seconds r) = tr_latest_event_sequence r"
  "tr_lease_expires_at (row_seconds r) = tr_lease_expires_at r"
  "tr_artifact_manifest (row_seconds r) = tr_artifact_manifest r"
  by (simp_all add: row_seconds_def)

lemma in_seconds_fields [simp]:
  "sq_tasks (in_seconds db) = hm_map row_seconds (sq_tasks db)"
  "sq_artifacts (in_seconds db) = sq_artifacts db" "sq_configs (in_seconds db) = sq_configs db"
  "sq_pending (in_seconds db) = sq_pending db" "sq_deliveries (in_seconds db) = sq_deliveries db"
  "sq_push_dispatch_enabled (in_seconds db) = sq_push_dispatch_enabled db"
  "sq_retention (in_seconds db) = sq_retention db"
  by (simp_all add: in_seconds_def)

lemma in_seconds_updates [seconds_simps]:
  "in_seconds (db\<lparr>sq_artifacts := m\<rparr>) = (in_seconds db)\<lparr>sq_artifacts := m\<rparr>"
  "in_seconds (db\<lparr>sq_configs := m'\<rparr>) = (in_seconds db)\<lparr>sq_configs := m'\<rparr>"
  "in_seconds (db\<lparr>sq_pending := m''\<rparr>) = (in_seconds db)\<lparr>sq_pending := m''\<rparr>"
  "in_seconds (db\<lparr>sq_deliveries := m'''\<rparr>) = (in_seconds db)\<lparr>sq_deliveries := m'''\<rparr>"
  "in_seconds (put_row tn i r db) = put_row tn i (row_seconds r) (in_seconds db)"
  "in_seconds (db\<lparr>sq_tasks := hm_remove k (sq_tasks db)\<rparr>) =
     (in_seconds db)\<lparr>sq_tasks := hm_remove k (hm_map row_seconds (sq_tasks db))\<rparr>"
  "in_seconds (put_delivery key d db) = put_delivery key d (in_seconds db)"
  by (simp_all add: in_seconds_def put_row_def put_delivery_def hm_simps)

lemma owned_row_seconds [seconds_simps]:
  "owned_row tn i ow (in_seconds db) = map_option row_seconds (owned_row tn i ow db)"
  by (simp add: owned_row_def hm_simps split: option.splits)

lemma delivery_of_seconds [seconds_simps]: "delivery_of (in_seconds db) key = delivery_of db key"
  by (simp add: delivery_of_def)

lemma event_rows_seconds [seconds_simps]:
  "event_rows tn i (sq_events (in_seconds db)) = event_rows tn i (sq_events db)"
  by (auto simp: event_rows_def in_seconds_def hm_map_def filter_map comp_def split_def)

lemma max_sequence_seconds [seconds_simps]: "max_sequence tn i (in_seconds db) = max_sequence tn i db"
  by (simp add: max_sequence_def event_rows_seconds)

lemma pg_same_helpers [seconds_simps]:
  "pg_status_state_str = status_state_str" "pg_systime_to_micros = systime_to_micros"
  "pg_split_task = split_task" "pg_claim_status_from_str = claim_status_from_str"
  "pg_task_from_json = task_from_json" "pg_status_blob = status_blob"
proof -
  show "pg_status_state_str = status_state_str"
    by (simp add: fun_eq_iff pg_status_state_str_def status_state_str_def)
  show "pg_systime_to_micros = systime_to_micros"
    by (simp add: fun_eq_iff pg_systime_to_micros_def systime_to_micros_def)
  show "pg_split_task = split_task"
    by (simp add: fun_eq_iff pg_split_task_def split_task_def)
  show "pg_claim_status_from_str = claim_status_from_str"
    by (simp add: fun_eq_iff pg_claim_status_from_str_def claim_status_from_str_def)
  show json: "pg_task_from_json = task_from_json"
    by (simp add: fun_eq_iff pg_task_from_json_def task_from_json_def serde_def attempt_def split: sum.splits)
  show "pg_status_blob = status_blob"
    by (simp add: fun_eq_iff pg_status_blob_def status_blob_def json)
qed

section \<open>Programs and functions\<close>

definition matches ::
  "(('t, 'e, 'a, 'c) pg, 'x) program \<Rightarrow> ('t, 'e, 'a, 'c) pg \<Rightarrow> (('t, 'e, 'a, 'c) pg \<Rightarrow> ('t, 'e, 'a, 'c) pg) \<Rightarrow>
   storage_error + 'x \<times> ('t, 'e, 'a, 'c) sqlite \<Rightarrow> bool" where
  "matches m db w r \<longleftrightarrow> (case r of
       Inl e \<Rightarrow> \<exists>w'. m (quiet_session db w) = (Inl e, quiet_session db w')
     | Inr (x, d) \<Rightarrow> \<exists>w'. m (quiet_session db w) = (Inr x, quiet_session db w') \<and> in_seconds (w' db) = d)"

named_theorems matches_simps

lemma then_simps [matches_simps]:
  "and_then (done_with x) k = k x" "and_then (lifted (Inr x)) k = k x"
  "and_then (lifted (Inl e)) l = lifted (Inl e)"
  by (simp_all add: fun_eq_iff and_then_def done_with_def lifted_def)

lemma matches_basic [matches_simps]:
  "in_seconds (w db) = d \<Longrightarrow> matches (done_with x) db w (Inr (x, d))"
  "in_seconds (w db) = d \<Longrightarrow> matches (lifted (Inr x)) db w (Inr (x, d))"
  "matches (lifted (Inl e)) db w (Inl e)"
  by (auto simp: matches_def session_simps)

lemma matches_query [matches_simps]:
  "matches (and_then (query q) k) db w r = matches (k (q (w db))) db w r"
  by (cases r) (auto simp: matches_def and_then_def session_simps)

lemma matches_perform [matches_simps]:
  "matches (and_then (perform u) k) db w r = (case u (w db) of
     Inl e \<Rightarrow> matches (lifted (Inl e)) db w r | Inr (x, f) \<Rightarrow> matches (k x) db (\<lambda>d. f (w d)) r)"
  by (cases r) (auto simp: matches_def and_then_def session_simps split: sum.splits)

lemma matches_perform_last [matches_simps]:
  "matches (perform u) db w r = (case u (w db) of
     Inl e \<Rightarrow> matches (lifted (Inl e)) db w r | Inr (x, f) \<Rightarrow> matches (done_with x) db (\<lambda>d. f (w d)) r)"
  by (cases r) (auto simp: matches_def session_simps split: sum.splits)

lemma matches_attempt:
  assumes "\<And>x. r = Inr x \<Longrightarrow> matches (k x) db w (K x)"
  shows "matches (and_then (lifted r) k) db w (attempt r K)"
  using assms by (cases r) (auto simp: matches_simps)

lemma matches_then:
  assumes "matches m db w r"
    and "\<And>x d w'. r = Inr (x, d) \<Longrightarrow> in_seconds (w' db) = d \<Longrightarrow> matches (k x) db w' (K (x, d))"
  shows "matches (and_then m k) db w (attempt r K)"
proof (cases r)
  case (Inl e)
  then show ?thesis using assms(1) by (auto simp: matches_def and_then_def)
next
  case (Inr y)
  then obtain x d where y: "r = Inr (x, d)" by (cases y) simp
  then obtain w' where m: "m (quiet_session db w) = (Inr x, quiet_session db w')" "in_seconds (w' db) = d"
    using assms(1) by (auto simp: matches_def)
  have "matches (k x) db w' (K (x, d))" using y m(2) by (rule assms(2))
  then show ?thesis
    by (cases "K (x, d)") (auto simp: y matches_def and_then_def m(1))
qed

lemma matches_transaction:
  assumes "matches m db (\<lambda>d. d) r"
  shows "apsnd in_seconds (alone (transaction m) db) = in_tx (\<lambda>_. r) (in_seconds db)"
proof -
  obtain w' x where m: "m (quiet_session db (\<lambda>d. d)) = (x, quiet_session db w')"
    and x: "case r of Inl e \<Rightarrow> x = Inl e | Inr (y, d) \<Rightarrow> x = Inr y \<and> in_seconds (w' db) = d"
    using assms by (cases r) (auto simp: matches_def)
  have "transaction m (quiet_session db (\<lambda>d. d)) =
      (case x of Inl e \<Rightarrow> (Inl e, quiet_session db (\<lambda>d. d)) | Inr y \<Rightarrow> (Inr y, quiet_session (w' db) (\<lambda>d. d)))"
    using m by (rule transaction_quiet)
  with x show ?thesis
    by (cases r) (auto simp: in_tx_def alone_def run_program_def quiet_session_def)
qed


section \<open>The loops\<close>

lemma write_artifacts_matches:
  "matches (pg_write_artifacts C tn i ws) db w
    (attempt (write_artifacts C tn i ws (sq_artifacts (w db))) (\<lambda>m. Inr ((), (in_seconds (w db))\<lparr>sq_artifacts := m\<rparr>)))"
proof (induction ws arbitrary: w)
  case (Cons x ws)
  obtain a f where x: "x = (a, f)" by (cases x)
  show ?case
  proof (cases "enc_artifact C a")
    case (Inr body)
    let ?w = "\<lambda>d. w d\<lparr>sq_artifacts := hm_insert (tn, i, art_artifact_id a) (body, f) (sq_artifacts (w d))\<rparr>"
    show ?thesis
      using Cons.IH [of ?w] by (simp add: x Inr matches_simps seconds_simps)
  qed (simp add: x matches_simps)
qed (simp add: matches_simps)

lemma delete_artifacts_matches:
  "matches (pg_delete_artifacts tn i ids) db w
    (Inr ((), (in_seconds (w db))\<lparr>sq_artifacts := foldl (\<lambda>m j. hm_remove (tn, i, j) m) (sq_artifacts (w db)) ids\<rparr>))"
proof (induction ids arbitrary: w)
  case (Cons j js)
  let ?w = "\<lambda>d. w d\<lparr>sq_artifacts := hm_remove (tn, i, j) (sq_artifacts (w d))\<rparr>"
  show ?case
    using Cons.IH [of ?w] by (simp add: seconds_simps matches_simps)
qed (simp add: matches_simps)

lemma apply_plan_matches:
  "matches (pg_apply_artifact_plan C tn i plan) db w
    (attempt (apply_artifact_plan C tn i plan (in_seconds (w db))) (\<lambda>d. Inr ((), d)))"
proof -
  have "matches (pg_apply_artifact_plan C tn i plan) db w
      (attempt (attempt (write_artifacts C tn i (rp_writes plan) (sq_artifacts (w db)))
          (\<lambda>m. Inr ((), (in_seconds (w db))\<lparr>sq_artifacts := m\<rparr>)))
        (\<lambda>x. Inr ((), snd x\<lparr>sq_artifacts := foldl (\<lambda>m j. hm_remove (tn, i, j) m) (sq_artifacts (snd x)) (rp_deletes plan)\<rparr>)))"
    unfolding pg_apply_artifact_plan_def
  proof (rule matches_then [OF write_artifacts_matches])
    show "matches (pg_delete_artifacts tn i (rp_deletes plan)) db w'
        (Inr ((), snd (x, d)\<lparr>sq_artifacts := foldl (\<lambda>m j. hm_remove (tn, i, j) m) (sq_artifacts (snd (x, d))) (rp_deletes plan)\<rparr>))"
      if "in_seconds (w' db) = d" for x :: unit and d w'
      using delete_artifacts_matches [of tn i "rp_deletes plan" db w'] that by auto
  qed
  then show ?thesis
    by (cases "write_artifacts C tn i (rp_writes plan) (sq_artifacts (w db))") (simp_all add: apply_artifact_plan_def)
qed

lemma event_insert_seconds:
  "in_seconds (v\<lparr>sq_events := hm_insert (tn, i, q) (data, pg_now now) (sq_events v)\<rparr>) =
   (in_seconds v)\<lparr>sq_events := hm_insert (tn, i, q) (data, datetime_now now) (sq_events (in_seconds v))\<rparr>"
  by (simp add: in_seconds_def hm_simps pg_now_seconds)

lemma insert_event_alone:
  assumes "enc_event C ev = Inr data"
  shows "insert_event C now tn i ev (in_seconds v) = Inr (max_sequence tn i v + 1,
    in_seconds (v\<lparr>sq_events := hm_insert (tn, i, max_sequence tn i v + 1) (data, pg_now now) (sq_events v)\<rparr>))"
  using next_sequence_free [of "in_seconds v" tn i] assms
  by (simp add: insert_event_def Let_def max_sequence_seconds event_insert_seconds)

lemma insert_event_matches:
  assumes "\<And>sq d w'. insert_event C now tn i ev (in_seconds (w db)) = Inr (sq, d) \<Longrightarrow> in_seconds (w' db) = d \<Longrightarrow>
      matches (k sq) db w' (K (sq, d))"
  shows "matches (and_then (pg_next_sequence tn i) (\<lambda>sq. and_then (lifted (serde (enc_event C ev))) (\<lambda>data.
      and_then (pg_insert_event_row now tn i sq data) (\<lambda>_. k sq)))) db w
    (attempt (insert_event C now tn i ev (in_seconds (w db))) K)"
proof (cases "enc_event C ev")
  case (Inl e)
  then show ?thesis
    by (simp add: insert_event_def Let_def matches_simps pg_next_sequence_def)
next
  case (Inr data)
  let ?q = "max_sequence tn i (w db) + 1"
  let ?w = "\<lambda>d. w d\<lparr>sq_events := hm_insert (tn, i, ?q) (data, pg_now now) (sq_events (w d))\<rparr>"
  have free: "hm_get (sq_events (w db)) (tn, i, ?q) = None" by (rule next_sequence_free)
  have "matches (k ?q) db ?w (K (?q, in_seconds (?w db)))"
    by (rule assms) (simp_all add: insert_event_alone [OF Inr])
  then show ?thesis
    unfolding insert_event_alone [OF Inr] pg_next_sequence_def pg_insert_event_row_def
    using free by (simp add: Inr matches_simps)
qed

section \<open>Tasks and events\<close>

text \<open>The answer of an operation and the database it leaves, in seconds.\<close>

definition seen_alone :: "(('t, 'e, 'a, 'c) pg, 'x) program \<Rightarrow> ('t, 'e, 'a, 'c) pg \<Rightarrow> (storage_error + 'x) \<times> ('t, 'e, 'a, 'c) sqlite" where
  "seen_alone m db = apsnd in_seconds (alone m db)"

lemma seen_basic [matches_simps]:
  "seen_alone (lifted r) db = (r, in_seconds db)" "seen_alone (done_with x) db = (Inr x, in_seconds db)"
  by (simp_all add: seen_alone_def alone_def run_program_def lifted_def done_with_def)

lemma seen_query [matches_simps]:
  "seen_alone (and_then (query q) k) db = seen_alone (k (q db)) db" "seen_alone (query q') db = (Inr (q' db), in_seconds db)"
  by (simp_all add: seen_alone_def alone_def run_program_def and_then_def query_def Let_def)

lemma seen_autocommit [matches_simps]:
  "seen_alone (and_then (autocommit u) k) db = (case u db of
     Inl e \<Rightarrow> (Inl e, in_seconds db) | Inr (x, f) \<Rightarrow> seen_alone (k x) (f db))"
  by (simp add: seen_alone_def alone_def run_program_def and_then_def autocommit_def Let_def split: sum.splits)

lemma seen_autocommit_last [matches_simps]:
  "seen_alone (autocommit u) db = (case u db of
     Inl e \<Rightarrow> (Inl e, in_seconds db) | Inr (x, f) \<Rightarrow> (Inr x, in_seconds (f db)))"
  by (simp add: seen_alone_def alone_def run_program_def autocommit_def Let_def split: sum.splits)

lemma seen_lifted:
  "seen_alone (and_then (lifted r) k) db = (case r of Inl e \<Rightarrow> (Inl e, in_seconds db) | Inr x \<Rightarrow> seen_alone (k x) db)"
  by (cases r) (simp_all add: matches_simps)

lemma seen_transaction:
  assumes "matches m db (\<lambda>d. d) r"
  shows "seen_alone (transaction m) db = in_tx (\<lambda>_. r) (in_seconds db)"
  unfolding seen_alone_def by (rule matches_transaction [OF assms])

end
