(* ===== verification/Postgres_Commits.thy ===== *)
theory Postgres_Commits
  imports Postgres_Alone
begin

text \<open>
  Operation by operation: PostgreSQL alone does to the tables what SQLite does, and answers alike.
\<close>

section \<open>Composition\<close>

lemma then_assoc [matches_simps]: "and_then (and_then m f) k = and_then m (\<lambda>x. and_then (f x) k)"
  by (auto simp: fun_eq_iff and_then_def split: sum.splits prod.splits)

lemma attempt_assoc: "attempt (attempt r f) k = attempt r (\<lambda>x. attempt (f x) k)"
  by (cases r) simp_all

lemma apply_plan_then:
  assumes "\<And>d w'. in_seconds (w' db) = d \<Longrightarrow> matches (k ()) db w' (K d)"
  shows "matches (and_then (pg_apply_artifact_plan C tn i plan) k) db w
    (attempt (apply_artifact_plan C tn i plan (in_seconds (w db))) K)"
proof -
  have "matches (and_then (pg_apply_artifact_plan C tn i plan) k) db w
      (attempt (attempt (apply_artifact_plan C tn i plan (in_seconds (w db))) (\<lambda>d. Inr ((), d))) (\<lambda>x. K (snd x)))"
    by (rule matches_then [OF apply_plan_matches]) (use assms in auto)
  then show ?thesis by (simp add: attempt_assoc)
qed

lemma insert_event_enabled:
  "insert_event C now tn i ev d = Inr (sq, d') \<Longrightarrow> sq_push_dispatch_enabled d' = sq_push_dispatch_enabled d"
  by (cases "enc_event C ev") (auto simp: insert_event_def Let_def split: if_splits)

lemma insert_events_then:
  fixes k :: "nat list \<Rightarrow> (('t, 'e, 'a, 'c) pg, 'x) program"
  assumes mark: "\<And>sq ev w' (k' :: unit \<Rightarrow> (('t, 'e, 'a, 'c) pg, 'x) program) r.
      (\<And>w''. in_seconds (w'' db) = mark' sq ev (in_seconds (w' db)) \<Longrightarrow> matches (k' ()) db w'' r) \<Longrightarrow>
      sq_push_dispatch_enabled (w' db) = b \<Longrightarrow> matches (and_then (mark sq ev) k') db w' r"
    and kept: "\<And>sq ev d. sq_push_dispatch_enabled (mark' sq ev d) = sq_push_dispatch_enabled d"
    and k: "\<And>seqs d w'. in_seconds (w' db) = d \<Longrightarrow> matches (k seqs) db w' (K (seqs, d))"
    and b: "sq_push_dispatch_enabled (w db) = b"
  shows "matches (and_then (pg_insert_events C now tn i mark evs) k) db w
    (attempt (insert_events C now tn i mark' evs (in_seconds (w db))) K)"
  using k b
proof (induction evs arbitrary: w k K)
  case (Cons ev evs)
  have step: "matches (and_then (mark sq ev) (\<lambda>_. and_then (pg_insert_events C now tn i mark evs) (\<lambda>seqs. k (sq # seqs)))) db w'
      (attempt (insert_events C now tn i mark' evs (mark' sq ev d)) (\<lambda>(seqs, db). K (sq # seqs, db)))"
    if "in_seconds (w' db) = d" "insert_event C now tn i ev (in_seconds (w db)) = Inr (sq, d)" for sq d w'
  proof (rule mark)
    have flag: "sq_push_dispatch_enabled d = b" using insert_event_enabled [OF that(2)] Cons.prems(2) by simp
    with that(1) show "sq_push_dispatch_enabled (w' db) = b" by auto
    fix w''
    assume w'': "in_seconds (w'' db) = mark' sq ev (in_seconds (w' db))"
    then have "sq_push_dispatch_enabled (w'' db) = b"
      using kept [of sq ev d] flag that(1) by (metis in_seconds_fields(6))
    then have "matches (and_then (pg_insert_events C now tn i mark evs) (\<lambda>seqs. k (sq # seqs))) db w''
        (attempt (insert_events C now tn i mark' evs (in_seconds (w'' db))) (\<lambda>(seqs, db). K (sq # seqs, db)))"
      by (intro Cons.IH) (use Cons.prems in auto)
    with w'' that show "matches (and_then (pg_insert_events C now tn i mark evs) (\<lambda>seqs. k (sq # seqs))) db w''
        (attempt (insert_events C now tn i mark' evs (mark' sq ev d)) (\<lambda>(seqs, db). K (sq # seqs, db)))"
      by simp
  qed
  have "matches (and_then (pg_next_sequence tn i) (\<lambda>sq. and_then (lifted (serde (enc_event C ev))) (\<lambda>data.
      and_then (pg_insert_event_row now tn i sq data) (\<lambda>_. and_then (mark sq ev)
        (\<lambda>_. and_then (pg_insert_events C now tn i mark evs) (\<lambda>seqs. k (sq # seqs))))))) db w
    (attempt (insert_event C now tn i ev (in_seconds (w db))) (\<lambda>x. attempt
      (insert_events C now tn i mark' evs (mark' (fst x) ev (snd x))) (\<lambda>(seqs, db). K (fst x # seqs, db))))"
  proof (rule insert_event_matches)
    show "matches (and_then (mark sq ev) (\<lambda>_. and_then (pg_insert_events C now tn i mark evs) (\<lambda>seqs. k (sq # seqs)))) db w'
        (attempt (insert_events C now tn i mark' evs (mark' (fst (sq, d)) ev (snd (sq, d)))) (\<lambda>(seqs, db). K (fst (sq, d) # seqs, db)))"
      if "insert_event C now tn i ev (in_seconds (w db)) = Inr (sq, d)" "in_seconds (w' db) = d" for sq d w'
      by (simp, rule step) (use that in simp_all)
  qed
  then show ?case
    by (simp add: matches_simps attempt_assoc split_def)
qed (simp add: matches_simps)

lemma no_marker_mark:
  "(\<And>w''. in_seconds (w'' db) = (\<lambda>_ _ d. d) sq ev (in_seconds (w' db)) \<Longrightarrow> matches (k ()) db w'' r) \<Longrightarrow>
   matches (and_then (no_marker sq ev) k) db w' r"
  by (simp add: no_marker_def matches_simps)

lemma config_count: "0 < length (filter P xs) \<longleftrightarrow> list_ex P xs"
  by (induction xs) auto

lemma write_marker_mark:
  assumes k: "\<And>w''. in_seconds (w'' db) = write_marker now tn i ow sq ev (in_seconds (w' db)) \<Longrightarrow> matches (k ()) db w'' r"
    and "sq_push_dispatch_enabled (w' db) = enabled"
  shows "matches (and_then (pg_write_marker enabled now tn i ow sq ev) k) db w' r"
proof (cases "enabled \<and> event_is_terminal ev \<and> is_status_update ev \<and>
    list_ex (\<lambda>((t, tid, _), _). t = tn \<and> tid = i) (sq_configs (w' db))")
  case True
  then have "0 < length (filter (\<lambda>((t, tid, _), _). t = tn \<and> tid = i) (sq_configs (w' db)))"
    unfolding config_count by simp
  with True show ?thesis
    using k [of "\<lambda>d. w' d\<lparr>sq_pending := hm_insert (tn, i, sq) (ow, nat (systime_to_micros now)) (sq_pending (w' d))\<rparr>"]
    by (simp add: pg_write_marker_def write_marker_def matches_simps seconds_simps assms(2))
next
  case False
  have "length (filter (\<lambda>((t, tid, _), _). t = tn \<and> tid = i) (sq_configs (w' db))) = 0"
    if "enabled \<and> event_is_terminal ev \<and> is_status_update ev"
    using False that config_count [of "\<lambda>((t, tid, _), _). t = tn \<and> tid = i" "sq_configs (w' db)"] by simp
  with False show ?thesis
    using k [of w'] by (auto simp: pg_write_marker_def write_marker_def matches_simps assms(2))
qed

lemma write_marker_enabled [simp]: "sq_push_dispatch_enabled (write_marker now tn i ow sq ev d) = sq_push_dispatch_enabled d"
  by (simp add: write_marker_def)

lemma bump_then:
  assumes "\<And>w'. in_seconds (w' db) = bump_latest tn i seqs (in_seconds (w db)) \<Longrightarrow> matches (k ()) db w' r"
  shows "matches (and_then (pg_bump_latest tn i seqs) k) db w r"
proof (cases "seqs = []")
  case False
  let ?m = "fold max seqs 0"
  have "row_seconds (x\<lparr>tr_latest_event_sequence := ?m\<rparr>) = row_seconds x\<lparr>tr_latest_event_sequence := ?m\<rparr>" for x :: "'a task_row"
    by (simp add: row_seconds_def)
  then show ?thesis
    using False assms [of "\<lambda>d. (case hm_get (sq_tasks (w db)) (tn, i) of
        Some r \<Rightarrow> if tr_latest_event_sequence r < ?m then put_row tn i (r\<lparr>tr_latest_event_sequence := ?m\<rparr>) else (\<lambda>d. d)
      | None \<Rightarrow> (\<lambda>d. d)) (w d)"]
    by (auto simp: pg_bump_latest_def bump_latest_def matches_simps Let_def hm_simps seconds_simps split: option.splits)
qed (use assms [of w] in \<open>simp add: pg_bump_latest_def bump_latest_def matches_simps\<close>)

section \<open>Commits\<close>

lemma seen_after_transaction:
  assumes "matches m db (\<lambda>d. d) r"
    and "\<And>x d d'. r = Inr (x, d) \<Longrightarrow> in_seconds d' = d \<Longrightarrow> seen_alone (k x) d' = K x d"
  shows "seen_alone (and_then (transaction m) k) db =
    (case r of Inl e \<Rightarrow> (Inl e, in_seconds db) | Inr (x, d) \<Rightarrow> K x d)"
proof -
  obtain w' y where m: "m (quiet_session db (\<lambda>d. d)) = (y, quiet_session db w')"
    and y: "case r of Inl e \<Rightarrow> y = Inl e | Inr (x, d) \<Rightarrow> y = Inr x \<and> in_seconds (w' db) = d"
    using assms(1) by (cases r) (auto simp: matches_def)
  have t: "transaction m (quiet_session db (\<lambda>d. d)) =
      (case y of Inl e \<Rightarrow> (Inl e, quiet_session db (\<lambda>d. d)) | Inr z \<Rightarrow> (Inr z, quiet_session (w' db) (\<lambda>d. d)))"
    using m by (rule transaction_quiet)
  show ?thesis
  proof (cases r)
    case (Inl e)
    with y t show ?thesis by (simp add: seen_alone_def alone_def run_program_def and_then_def quiet_session_def)
  next
    case (Inr xd)
    then obtain x d where r: "r = Inr (x, d)" by (cases xd) simp
    with y have y': "y = Inr x" "in_seconds (w' db) = d" by simp_all
    have "seen_alone (and_then (transaction m) k) db = seen_alone (k x) (w' db)"
      using t unfolding y' by (simp add: seen_alone_def alone_def run_program_def and_then_def quiet_session_def)
    with assms(2) [OF r y'(2)] r show ?thesis by simp
  qed
qed

lemma in_tx_cases: "in_tx (\<lambda>_. r) d = (case r of Inl e \<Rightarrow> (Inl e, d) | Inr (x, d') \<Rightarrow> (Inr x, d'))"
  by (simp add: in_tx_def)

lemma sendable_task:
  assumes "sendable (tn # ow # task_texts t)" and "t' = fst (stamp_status now t evs)"
  shows "sendable [tn, tk_id t']" "sendable (ow # task_texts t')" "sendable (tn # ow # task_texts t')"
proof -
  have "task_texts t' = task_texts t"
    using assms(2) by (auto simp: task_texts_def stamp_status_def Let_def split: option.splits)
  then show "sendable [tn, tk_id t']" "sendable (ow # task_texts t')" "sendable (tn # ow # task_texts t')"
    using assms(1) by (simp_all add: sendable_simps task_texts_def assms(2))
qed

lemma insert_row_then:
  assumes "sendable (tn # ow # task_texts t)" and "hm_get (sq_tasks (w db)) (tn, tk_id t) = None"
    and "\<And>w'. in_seconds (w' db) = put_row tn (tk_id t)
          \<lparr>tr_owner = ow, tr_task_json = blob, tr_context_id = tk_context_id t,
           tr_status_state = status_state_str t, tr_status_timestamp = task_sort_key c t,
           tr_cancel_requested = False, tr_latest_event_sequence = 0, tr_lease_expires_at = None,
           tr_artifact_manifest = manifest, tr_updated_at = datetime_now now\<rparr> (in_seconds (w db)) \<Longrightarrow>
        matches (k ()) db w' r"
  shows "matches (and_then (pg_insert_task C c now tn ow t blob manifest) k) db w r"
  using assms(1,2) by (auto simp: pg_insert_task_def matches_simps seconds_simps row_seconds_def intro!: assms(3))

text \<open>The events and the counter, the end of every commit.\<close>

lemma quiet_tail:
  "matches (and_then (pg_insert_events C now tn i no_marker evs) (\<lambda>seqs.
     and_then (pg_bump_latest tn i seqs) (\<lambda>_. done_with (f seqs)))) db w
   (attempt (insert_events C now tn i (\<lambda>_ _ db. db) evs (in_seconds (w db))) (\<lambda>(seqs, d). Inr (f seqs, bump_latest tn i seqs d)))"
  by (rule insert_events_then [OF no_marker_mark]) (auto intro!: bump_then simp: matches_simps)

lemma marked_tail:
  "matches (and_then (pg_insert_events C now tn i (pg_write_marker (sq_push_dispatch_enabled (w db)) now tn i ow) evs) (\<lambda>seqs.
     and_then (pg_bump_latest tn i seqs) (\<lambda>_. done_with (f seqs)))) db w
   (attempt (insert_events C now tn i (write_marker now tn i ow) evs (in_seconds (w db))) (\<lambda>(seqs, d). Inr (f seqs, bump_latest tn i seqs d)))"
  by (rule insert_events_then [OF write_marker_mark]) (auto intro!: bump_then simp: matches_simps)

lemma insert_task_row_alone:
  assumes "split_task C t = Inr (blob, arts)" and "reconcile C arts [] = Inr plan"
    and "hm_get (sq_tasks db) (tn, tk_id t) = None"
    and "\<And>d w. in_seconds (w db) = d \<Longrightarrow> matches (k ()) db w (K d)"
    and "sendable (tn # ow # task_texts t)"
  shows "matches (and_then (pg_insert_task C c now tn ow t blob (rp_manifest plan)) (\<lambda>_.
      and_then (pg_apply_artifact_plan C tn (tk_id t) plan) k)) db (\<lambda>d. d)
    (attempt (insert_task_row C c now tn ow t (in_seconds db)) K)"
proof (rule insert_row_then, rule assms(5), rule assms(3))
  fix w'
  assume w': "in_seconds (w' db) = put_row tn (tk_id t)
      \<lparr>tr_owner = ow, tr_task_json = blob, tr_context_id = tk_context_id t,
       tr_status_state = status_state_str t, tr_status_timestamp = task_sort_key c t,
       tr_cancel_requested = False, tr_latest_event_sequence = 0, tr_lease_expires_at = None,
       tr_artifact_manifest = rp_manifest plan, tr_updated_at = datetime_now now\<rparr> (in_seconds db)"
  have "matches (and_then (pg_apply_artifact_plan C tn (tk_id t) plan) k) db w'
      (attempt (apply_artifact_plan C tn (tk_id t) plan (in_seconds (w' db))) K)"
    by (rule apply_plan_then) (rule assms(4))
  then show "matches (and_then (pg_apply_artifact_plan C tn (tk_id t) plan) k) db w'
      (attempt (insert_task_row C c now tn ow t (in_seconds db)) K)"
    unfolding w' by (simp add: insert_task_row_def assms(1-3) hm_simps)
qed

theorem create_with_events_alone:
  assumes new: "hm_get (sq_tasks db) (tn, tk_id t) = None" and S: "sendable (tn # ow # task_texts t)"
  shows "seen_alone (pg_create_task_with_events C c now tn ow t evs) db =
    sqlite_create_task_with_events C c now tn ow t evs (in_seconds db)"
proof -
  obtain t' evs' where st: "stamp_status now t evs = (t', evs')" by fastforce
  then have new': "hm_get (sq_tasks db) (tn, tk_id t') = None"
    using new stamp_status_frame [of now t evs] by simp
  have S': "sendable (tn # ow # task_texts t')" by (rule sendable_task [OF S, of _ now evs]) (simp add: st)
  note defs = pg_create_task_with_events_def sqlite_create_task_with_events_def st seen_lifted seconds_simps Let_def
  show ?thesis
  proof (cases "split_task C t'")
    case (Inl e)
    then show ?thesis by (simp add: defs insert_task_row_def in_tx_def)
  next
    case (Inr y)
    then obtain blob arts where sp: "split_task C t' = Inr (blob, arts)" by (cases y) simp
    show ?thesis
    proof (cases "reconcile C arts []")
      case (Inl e)
      then show ?thesis by (simp add: defs sp insert_task_row_def in_tx_def)
    next
      case (Inr plan)
      have "matches (and_then (pg_insert_task C c now tn ow t' blob (rp_manifest plan)) (\<lambda>_.
           and_then (pg_apply_artifact_plan C tn (tk_id t') plan) (\<lambda>_.
           and_then (pg_insert_events C now tn (tk_id t') no_marker evs') (\<lambda>sequences.
           and_then (pg_bump_latest tn (tk_id t') sequences) (\<lambda>_. done_with (t', sequences)))))) db (\<lambda>d. d)
        (attempt (insert_task_row C c now tn ow t' (in_seconds db)) (\<lambda>d.
           attempt (insert_events C now tn (tk_id t') (\<lambda>_ _ db. db) evs' d) (\<lambda>(seqs, d). Inr ((t', seqs), bump_latest tn (tk_id t') seqs d))))"
        by (rule insert_task_row_alone [OF sp Inr new' _ S']) (auto intro!: quiet_tail)
      from seen_transaction [OF this] show ?thesis
        by (simp add: defs sp Inr in_tx_def)
    qed
  qed
qed

theorem create_alone:
  assumes new: "hm_get (sq_tasks db) (tn, tk_id t) = None" and S: "sendable (tn # ow # task_texts t)"
  shows "seen_alone (pg_create_task C c now tn ow t) db = sqlite_create_task C c now tn ow t (in_seconds db)"
proof -
  define t' where "t' = fst (stamp_status now t [])"
  then have new': "hm_get (sq_tasks db) (tn, tk_id t') = None"
    using new stamp_status_frame [of now t "[]"] by simp
  note S' = sendable_task(3) [OF S t'_def]
  note defs = pg_create_task_def sqlite_create_task_def t'_def [symmetric] seen_lifted seconds_simps Let_def
  show ?thesis
  proof (cases "split_task C t'")
    case (Inl e)
    then show ?thesis by (simp add: defs insert_task_row_def in_tx_def)
  next
    case (Inr y)
    then obtain blob arts where sp: "split_task C t' = Inr (blob, arts)" by (cases y) simp
    show ?thesis
    proof (cases "reconcile C arts []")
      case (Inl e)
      then show ?thesis by (simp add: defs sp insert_task_row_def in_tx_def)
    next
      case (Inr plan)
      have "matches (and_then (pg_insert_task C c now tn ow t' blob (rp_manifest plan)) (\<lambda>_.
           and_then (pg_apply_artifact_plan C tn (tk_id t') plan) (\<lambda>_. done_with t'))) db (\<lambda>d. d)
        (attempt (insert_task_row C c now tn ow t' (in_seconds db)) (\<lambda>d. Inr (t', d)))"
        by (rule insert_task_row_alone [OF sp Inr new' _ S']) (auto simp: matches_simps)
      from seen_transaction [OF this] show ?thesis
        by (simp add: defs sp Inr in_tx_def)
    qed
  qed
qed

section \<open>Writes of an existing task\<close>

lemma row_updates_seconds [seconds_simps]:
  "row_seconds (pg_written_row c now blob t m r) = written_row c now blob t m (row_seconds r)"
  "row_seconds (r\<lparr>tr_cancel_requested := b\<rparr>) = row_seconds r\<lparr>tr_cancel_requested := b\<rparr>"
  "row_seconds (r\<lparr>tr_lease_expires_at := e\<rparr>) = row_seconds r\<lparr>tr_lease_expires_at := e\<rparr>"
  by (simp_all add: row_seconds_def pg_written_row_def written_row_def pg_same_helpers pg_now_seconds)

lemma status_row_seconds [seconds_simps]:
  "row_seconds (r\<lparr>tr_task_json := json, tr_status_state := st, tr_status_timestamp := ts, tr_context_id := ctx,
     tr_updated_at := pg_now now\<rparr>) = row_seconds r\<lparr>tr_task_json := json, tr_status_state := st,
     tr_status_timestamp := ts, tr_context_id := ctx, tr_updated_at := datetime_now now\<rparr>"
  "row_seconds (r\<lparr>tr_task_json := json, tr_status_state := st, tr_status_timestamp := ts,
     tr_updated_at := pg_now now\<rparr>) = row_seconds r\<lparr>tr_task_json := json, tr_status_state := st,
     tr_status_timestamp := ts, tr_updated_at := datetime_now now\<rparr>"
  by (simp_all add: row_seconds_def pg_now_seconds)

lemma manifest_seconds [seconds_simps]:
  "fetch_manifest tn i (in_seconds db) = (case hm_get (sq_tasks db) (tn, i) of Some r \<Rightarrow> tr_artifact_manifest r | None \<Rightarrow> [])"
  by (simp add: fetch_manifest_def hm_simps split: option.splits)

lemma owned_put [simp]:
  "owned_row tn i ow (put_row tn i r db) = (if tr_owner r = ow then Some r else None)"
  by (simp add: owned_row_def put_row_def hm_simps)

theorem update_with_events_alone:
  assumes S: "sendable (tn # ow # task_texts t)"
  shows "seen_alone (pg_update_task_with_events C c now tn ow t evs) db =
    sqlite_update_task_with_events C c now tn ow t evs (in_seconds db)"
proof -
  obtain t' evs' where st: "stamp_status now t evs = (t', evs')" by fastforce
  then have "t' = fst (stamp_status now t evs)" by simp
  note sends = sendable_task [OF S this, THEN sending_ok]
  note defs = pg_update_task_with_events_def sqlite_update_task_with_events_def st seen_lifted seconds_simps Let_def
  show ?thesis
  proof (cases "split_task C t'")
    case (Inl e)
    then show ?thesis by (simp add: defs in_tx_def)
  next
    case (Inr y)
    then obtain blob arts where sp: "split_task C t' = Inr (blob, arts)" by (cases y) simp
    let ?M = "case hm_get (sq_tasks db) (tn, tk_id t') of Some r \<Rightarrow> tr_artifact_manifest r | None \<Rightarrow> []"
    have "matches (pg_update_tx C c now tn ow t' evs' blob arts) db (\<lambda>d. d)
      (attempt (reconcile C arts ?M) (\<lambda>plan. case owned_row tn (tk_id t') ow (in_seconds db) of
           None \<Rightarrow> Inl (SE_TaskNotFound (tk_id t'))
         | Some r \<Rightarrow>
             if tr_status_state r \<in> set TERMINAL_STATES_SQL
             then Inl (SE_TerminalStateAlreadySet (tk_id t') (tr_status_state r))
             else attempt (apply_artifact_plan C tn (tk_id t') plan
                 (put_row tn (tk_id t') (written_row c now blob t' (rp_manifest plan) r) (in_seconds db))) (\<lambda>d.
               attempt (insert_events C now tn (tk_id t') (\<lambda>_ _ db. db) evs' d) (\<lambda>(seqs, d). Inr (seqs, bump_latest tn (tk_id t') seqs d)))))"
      unfolding pg_update_tx_def pg_fetch_manifest_def sends matches_query
    proof (rule matches_attempt)
      fix plan
      assume "reconcile C arts ?M = Inr plan"
      show "matches (and_then (perform (pg_update_row tn (tk_id t') ow (\<lambda>r. \<not> pg_terminal r)
             (pg_written_row c now blob t' (rp_manifest plan)))) (\<lambda>affected.
           if \<not> affected
           then and_then (query (owned_row tn (tk_id t') ow)) (\<lambda>current. lifted (Inl (case current of
               Some r \<Rightarrow> SE_TerminalStateAlreadySet (tk_id t') (tr_status_state r)
             | None \<Rightarrow> SE_TaskNotFound (tk_id t'))))
           else and_then (pg_apply_artifact_plan C tn (tk_id t') plan) (\<lambda>_.
             and_then (pg_insert_events C now tn (tk_id t') no_marker evs') (\<lambda>sequences.
             and_then (pg_bump_latest tn (tk_id t') sequences) (\<lambda>_. done_with sequences))))) db (\<lambda>d. d)
         (case owned_row tn (tk_id t') ow (in_seconds db) of
           None \<Rightarrow> Inl (SE_TaskNotFound (tk_id t'))
         | Some r \<Rightarrow>
             if tr_status_state r \<in> set TERMINAL_STATES_SQL
             then Inl (SE_TerminalStateAlreadySet (tk_id t') (tr_status_state r))
             else attempt (apply_artifact_plan C tn (tk_id t') plan
                 (put_row tn (tk_id t') (written_row c now blob t' (rp_manifest plan) r) (in_seconds db))) (\<lambda>d.
               attempt (insert_events C now tn (tk_id t') (\<lambda>_ _ db. db) evs' d) (\<lambda>(seqs, d). Inr (seqs, bump_latest tn (tk_id t') seqs d))))"
      proof (cases "owned_row tn (tk_id t') ow db")
        case (Some r)
        let ?w = "\<lambda>d. put_row tn (tk_id t') (pg_written_row c now blob t' (rp_manifest plan) r) d"
        have "matches (and_then (pg_apply_artifact_plan C tn (tk_id t') plan) (\<lambda>_.
             and_then (pg_insert_events C now tn (tk_id t') no_marker evs') (\<lambda>sequences.
             and_then (pg_bump_latest tn (tk_id t') sequences) (\<lambda>_. done_with sequences)))) db ?w
           (attempt (apply_artifact_plan C tn (tk_id t') plan (in_seconds (?w db))) (\<lambda>d.
               attempt (insert_events C now tn (tk_id t') (\<lambda>_ _ db. db) evs' d) (\<lambda>(seqs, d). Inr (seqs, bump_latest tn (tk_id t') seqs d))))"
          by (rule apply_plan_then) (auto intro!: quiet_tail)
        with Some show ?thesis
          by (simp add: matches_simps pg_update_row_def seconds_simps pg_terminal_def)
      qed (simp add: matches_simps pg_update_row_def seconds_simps)
    qed
    from seen_transaction [OF this] show ?thesis
      by (simp add: defs sp in_tx_def cong: sum.case_cong option.case_cong)
  qed
qed

lemma update_alone:
  assumes S: "sendable (tn # ow # task_texts t)"
  shows "seen_alone (pg_update_task C c now tn ow t) db = sqlite_update_task C c now tn ow t (in_seconds db)"
proof -
  define t' where "t' = fst (stamp_status now t [])"
  note sends = sendable_task [OF S this, THEN sending_ok]
  note defs = pg_update_task_def sqlite_update_task_def t'_def [symmetric] seen_lifted seconds_simps Let_def
  show ?thesis
  proof (cases "split_task C t'")
    case (Inl e)
    then show ?thesis by (simp add: defs in_tx_def)
  next
    case (Inr y)
    then obtain blob arts where sp: "split_task C t' = Inr (blob, arts)" by (cases y) simp
    let ?M = "case hm_get (sq_tasks db) (tn, tk_id t') of Some r \<Rightarrow> tr_artifact_manifest r | None \<Rightarrow> []"
    have "matches (and_then (pg_fetch_manifest tn (tk_id t')) (\<lambda>stored.
           and_then (lifted (reconcile C arts stored)) (\<lambda>plan.
           and_then (sending (ow # task_texts t') (perform (pg_update_row tn (tk_id t') ow (\<lambda>_. True)
               (pg_written_row c now blob t' (rp_manifest plan))))) (\<lambda>affected.
             if \<not> affected then lifted (Inl (SE_TaskNotFound (tk_id t')))
             else pg_apply_artifact_plan C tn (tk_id t') plan)))) db (\<lambda>d. d)
      (attempt (reconcile C arts ?M) (\<lambda>plan. case owned_row tn (tk_id t') ow (in_seconds db) of
           None \<Rightarrow> Inl (SE_TaskNotFound (tk_id t'))
         | Some r \<Rightarrow> attempt (apply_artifact_plan C tn (tk_id t') plan
                 (put_row tn (tk_id t') (written_row c now blob t' (rp_manifest plan) r) (in_seconds db)))
               (\<lambda>d. Inr ((), d))))"
      unfolding pg_fetch_manifest_def sends matches_query
    proof (rule matches_attempt)
      fix plan
      assume "reconcile C arts ?M = Inr plan"
      show "matches (and_then (perform (pg_update_row tn (tk_id t') ow (\<lambda>_. True)
             (pg_written_row c now blob t' (rp_manifest plan)))) (\<lambda>affected.
           if \<not> affected then lifted (Inl (SE_TaskNotFound (tk_id t')))
           else pg_apply_artifact_plan C tn (tk_id t') plan)) db (\<lambda>d. d)
         (case owned_row tn (tk_id t') ow (in_seconds db) of
           None \<Rightarrow> Inl (SE_TaskNotFound (tk_id t'))
         | Some r \<Rightarrow> attempt (apply_artifact_plan C tn (tk_id t') plan
                 (put_row tn (tk_id t') (written_row c now blob t' (rp_manifest plan) r) (in_seconds db)))
               (\<lambda>d. Inr ((), d)))"
      proof (cases "owned_row tn (tk_id t') ow db")
        case (Some r)
        show ?thesis
          using apply_plan_matches [of C tn "tk_id t'" plan db
              "\<lambda>d. put_row tn (tk_id t') (pg_written_row c now blob t' (rp_manifest plan) r) d"] Some
          by (simp add: matches_simps pg_update_row_def seconds_simps)
      qed (simp add: matches_simps pg_update_row_def seconds_simps)
    qed
    from seen_transaction [OF this] show ?thesis
      by (simp add: defs sp in_tx_def)
  qed
qed

section \<open>Reads and status commits\<close>

lemma rehydrate_alone:
  "pg_rehydrate_task C tn i blob m (quiet_session db w) =
    (rehydrate_task C tn i blob m (in_seconds (w db)), quiet_session db w)"
  by (cases "dec_task C blob"; cases "decode_bodies C (artifact_rows tn i (sq_artifacts (w db))) []")
    (auto simp: pg_rehydrate_task_def rehydrate_task_def and_then_def session_simps)

lemma seen_rehydrate [matches_simps]:
  "seen_alone (and_then (pg_rehydrate_task C tn i blob m) k) db =
    (case rehydrate_task C tn i blob m (in_seconds db) of Inl e \<Rightarrow> (Inl e, in_seconds db) | Inr t \<Rightarrow> seen_alone (k t) db)"
  using rehydrate_alone [of C tn i blob m db "\<lambda>d. d"]
  by (simp add: seen_alone_def alone_def run_program_def and_then_def quiet_session_def split: sum.splits)

lemma seen_rehydrate_last [matches_simps]:
  "seen_alone (pg_rehydrate_task C tn i blob m) db = (rehydrate_task C tn i blob m (in_seconds db), in_seconds db)"
  using rehydrate_alone [of C tn i blob m db "\<lambda>d. d"]
  by (simp add: seen_alone_def alone_def run_program_def quiet_session_def)

theorem status_with_events_alone:
  fixes db :: "('t, 'e, 'a, 'c) pg"
  assumes S: "sendable [tn, i, ow]"
  shows "seen_alone (pg_update_task_status_with_events C c (sq_push_dispatch_enabled db) now tn i ow st evs) db =
    sqlite_update_task_status_with_events C c now tn i ow st evs (in_seconds db)"
proof -
  let ?b = "sq_push_dispatch_enabled db"
  let ?R = "case owned_row tn i ow (in_seconds db) of
      None \<Rightarrow> Inl (SE_TaskNotFound i)
    | Some r \<Rightarrow> attempt (status_blob C now (\<lambda>st. SE_TerminalStateAlreadySet i (wire_name st))
          i (tr_task_json r) st evs) (\<lambda>(t', evs', json).
        if tr_status_state r \<in> set TERMINAL_STATES_SQL
        then Inl (SE_TerminalStateAlreadySet i (tr_status_state r))
        else attempt (insert_events C now tn i (write_marker now tn i ow) evs'
            (put_row tn i (r\<lparr>tr_task_json := json, tr_status_state := status_state_str t',
               tr_status_timestamp := task_sort_key c t', tr_context_id := tk_context_id t',
               tr_updated_at := datetime_now now\<rparr>) (in_seconds db))) (\<lambda>(seqs, db).
          Inr ((t', tr_artifact_manifest r, seqs), bump_latest tn i seqs db)))"
  have tx: "matches (pg_status_tx C c ?b now tn i ow st evs) db (\<lambda>d. d) ?R"
  proof (cases "owned_row tn i ow db")
    case None
    then show ?thesis by (simp add: pg_status_tx_def matches_simps seconds_simps)
  next
    case (Some r)
    then have row: "hm_get (sq_tasks db) (tn, i) = Some r" by (auto simp: owned_row_def split: option.splits if_splits)
    show ?thesis
      unfolding pg_status_tx_def matches_query owned_row_seconds Some option.simps pg_same_helpers row_seconds_fields
    proof (rule matches_attempt)
      fix x :: "pb_task \<times> stream_event list \<times> 't"
      obtain t' evs' json where x: "x = (t', evs', json)" by (cases x) auto
      let ?r = "r\<lparr>tr_task_json := json, tr_status_state := status_state_str t',
        tr_status_timestamp := task_sort_key c t', tr_context_id := tk_context_id t', tr_updated_at := pg_now now\<rparr>"
      have flag: "sq_push_dispatch_enabled (put_row tn i ?r db) = ?b" by (simp add: put_row_def)
      have "matches (and_then (pg_insert_events C now tn i (pg_write_marker ?b now tn i ow) evs') (\<lambda>seqs.
            and_then (pg_bump_latest tn i seqs) (\<lambda>_. done_with (t', tr_artifact_manifest r, seqs)))) db
          (\<lambda>d. put_row tn i ?r d)
          (attempt (insert_events C now tn i (write_marker now tn i ow) evs' (in_seconds (put_row tn i ?r db)))
            (\<lambda>(seqs, d). Inr ((t', tr_artifact_manifest r, seqs), bump_latest tn i seqs d)))"
        using marked_tail [where w = "put_row tn i ?r" and db = db and f = "\<lambda>seqs. (t', tr_artifact_manifest r, seqs)"
            and C = C and now = now and tn = tn and i = i and ow = ow and evs = evs'] unfolding flag .
      then show "matches (pg_status_write C c ?b now tn i ow (tr_artifact_manifest r) x) db (\<lambda>d. d)
        (case x of (t', evs', json) \<Rightarrow>
          if tr_status_state r \<in> set TERMINAL_STATES_SQL
          then Inl (SE_TerminalStateAlreadySet i (tr_status_state r))
          else attempt (insert_events C now tn i (write_marker now tn i ow) evs'
            (put_row tn i (row_seconds r\<lparr>tr_task_json := json, tr_status_state := status_state_str t',
               tr_status_timestamp := task_sort_key c t', tr_context_id := tk_context_id t',
               tr_updated_at := datetime_now now\<rparr>) (in_seconds db))) (\<lambda>(seqs, db).
          Inr ((t', tr_artifact_manifest r, seqs), bump_latest tn i seqs db)))"
        using Some row by (simp add: x pg_status_write_def matches_simps pg_update_row_def seconds_simps pg_terminal_def)
    qed
  qed
  have "seen_alone (pg_update_task_status_with_events C c ?b now tn i ow st evs) db =
      (case ?R of Inl e \<Rightarrow> (Inl e, in_seconds db) | Inr (x, d) \<Rightarrow> (case x of (t', manifest, seqs) \<Rightarrow>
        (attempt (serde (enc_task C t')) (\<lambda>blob. attempt (rehydrate_task C tn i blob manifest d) (\<lambda>t. Inr (t, seqs))), d)))"
    unfolding pg_update_task_status_with_events_def sending_ok [OF S]
  proof (rule seen_after_transaction [OF tx])
    fix x and d d' :: "('t, 'e, 'a, 'c) sqlite"
    assume "in_seconds d' = d"
    then show "seen_alone (case x of (t', manifest, sequences) \<Rightarrow> and_then (lifted (serde (enc_task C t'))) (\<lambda>new_blob.
          and_then (pg_rehydrate_task C tn i new_blob manifest) (\<lambda>rehydrated. done_with (rehydrated, sequences)))) d' =
        (case x of (t', manifest, seqs) \<Rightarrow>
        (attempt (serde (enc_task C t')) (\<lambda>blob. attempt (rehydrate_task C tn i blob manifest d) (\<lambda>t. Inr (t, seqs))), d))"
      by (cases "enc_task C (fst x)") (auto simp: seen_lifted matches_simps attempt_def split: prod.splits sum.splits)
  qed
  then show ?thesis
    unfolding sqlite_update_task_status_with_events_def in_tx_def
    by (auto split: sum.splits prod.splits)
qed

end
