(* ===== verification/Postgres_System.thy ===== *)
theory Postgres_System
  imports Postgres_Commits Sqlite_Listing
begin

text \<open>
  The remaining operations, and runs of commits: a PostgreSQL deployment whose sessions take turns
  answers like the SQLite backend, and so like the in-memory store.
\<close>

section \<open>The other operations\<close>

theorem get_alone: "sendable [tn, i, ow] \<Longrightarrow> seen_alone (pg_get_task C tn i ow n) db =
    (sqlite_get_task C tn i ow n (in_seconds db), in_seconds db)"
  by (cases "owned_row tn i ow db")
    (auto simp: pg_get_task_def sqlite_get_task_def matches_simps seconds_simps attempt_def split: sum.splits)

lemma seen_get_then:
  "sendable [tn, i, ow] \<Longrightarrow> seen_alone (and_then (pg_get_task C tn i ow n) k) db = (case sqlite_get_task C tn i ow n (in_seconds db) of
     Inl e \<Rightarrow> (Inl e, in_seconds db) | Inr t \<Rightarrow> seen_alone (k t) db)"
  by (cases "owned_row tn i ow db")
    (auto simp: pg_get_task_def sqlite_get_task_def matches_simps seconds_simps attempt_def split: sum.splits)

lemma sendable_written:
  assumes "sendable [tn, i, ow]" and "task_try_from t' = Inr t''" and "sendable (task_texts t')"
  shows "sendable (tn # ow # task_texts t'')"
  using assms by (simp add: task_try_from_iff sendable_simps)

theorem append_message_alone:
  assumes "sendable [tn, i, ow]"
    and "\<And>t. sqlite_get_task C tn i ow None (in_seconds db) = Inr (Some t) \<Longrightarrow> sendable (task_texts t)"
  shows "seen_alone (pg_append_message C c now tn i ow m) db = sqlite_append_message C c now tn i ow m (in_seconds db)"
proof (cases "sqlite_get_task C tn i ow None (in_seconds db)")
  case (Inr found)
  show ?thesis
  proof (cases found)
    case (Some t)
    let ?t = "t\<lparr>tk_history := tk_history t @ [m]\<rparr>"
    have "sendable (task_texts ?t)" using assms(2) Inr Some by (simp add: task_texts_def)
    then show ?thesis
      using sendable_written [OF assms(1), of ?t] Inr Some
      by (cases "task_try_from ?t") (auto simp: pg_append_message_def sqlite_append_message_def
          seen_get_then [OF assms(1)] seen_lifted matches_simps typed_def update_alone)
  qed (simp add: pg_append_message_def sqlite_append_message_def seen_get_then [OF assms(1)] matches_simps Inr)
qed (simp add: pg_append_message_def sqlite_append_message_def seen_get_then [OF assms(1)])

lemma extended_ids: "extend_first_parts k ps as = Some as' \<Longrightarrow> map art_artifact_id as' = map art_artifact_id as"
  by (induction as arbitrary: as') (auto split: if_splits option.splits)

theorem append_artifact_alone:
  assumes "sendable [tn, i, ow]"
    and "\<And>t. sqlite_get_task C tn i ow None (in_seconds db) = Inr (Some t) \<Longrightarrow>
      sendable (art_artifact_id a # task_texts t)"
  shows "seen_alone (pg_append_artifact C c now tn i ow a app lc) db =
    sqlite_append_artifact C c now tn i ow a app lc (in_seconds db)"
proof (cases "sqlite_get_task C tn i ow None (in_seconds db)")
  case (Inr found)
  show ?thesis
  proof (cases found)
    case (Some t)
    define t1 where "t1 = (case (if app then extend_first_parts (art_artifact_id a) (art_parts a) (tk_artifacts t) else None) of
        Some as \<Rightarrow> t\<lparr>tk_artifacts := as\<rparr> | None \<Rightarrow> t\<lparr>tk_artifacts := tk_artifacts t @ [a]\<rparr>)"
    have "sendable (task_texts t1)"
      using assms(2) Inr Some extended_ids [of "art_artifact_id a" "art_parts a" "tk_artifacts t"]
      by (auto simp: t1_def task_texts_def sendable_simps split: option.split)
    then show ?thesis
      using sendable_written [OF assms(1), of t1] Inr Some
      by (cases "task_try_from t1") (auto simp: pg_append_artifact_def sqlite_append_artifact_def Let_def
          t1_def [symmetric] seen_get_then [OF assms(1)] seen_lifted matches_simps typed_def update_alone)
  qed (simp add: pg_append_artifact_def sqlite_append_artifact_def seen_get_then [OF assms(1)] matches_simps Inr)
qed (simp add: pg_append_artifact_def sqlite_append_artifact_def seen_get_then [OF assms(1)])

theorem update_status_alone:
  assumes S: "sendable [tn, i, ow]"
  shows "seen_alone (pg_update_task_status C c now tn i ow st) db =
    sqlite_update_task_status C c now tn i ow st (in_seconds db)"
proof (cases "owned_row tn i ow db")
  case (Some r)
  show ?thesis
    by (cases "status_blob C now (SE_TerminalState i) i (tr_task_json r) st []")
      (auto simp: pg_update_task_status_def S sqlite_update_task_status_def matches_simps seconds_simps seen_lifted Some
        pg_update_row_def Let_def split: prod.splits)
qed (simp add: pg_update_task_status_def S sqlite_update_task_status_def matches_simps seconds_simps)

theorem delete_alone:
  assumes "sendable [tn, i, ow]"
  shows "seen_alone (pg_delete_task tn i ow) db = sqlite_delete_task tn i ow (in_seconds db)"
proof -
  have "matches (and_then (perform (\<lambda>db. Inr (case owned_row tn i ow db of
         Some _ \<Rightarrow> (True, \<lambda>db. db\<lparr>sq_tasks := hm_remove (tn, i) (sq_tasks db)\<rparr>)
       | None \<Rightarrow> (False, \<lambda>db. db)))) (\<lambda>affected.
       if \<not> affected then done_with False
       else and_then (perform (\<lambda>_. Inr ((), \<lambda>db. db\<lparr>sq_artifacts :=
           hm_retain (\<lambda>(t, tid, _) _. \<not> (t = tn \<and> tid = i)) (sq_artifacts db)\<rparr>))) (\<lambda>_.
         done_with True))) db (\<lambda>d. d)
     (Inr (case owned_row tn i ow (in_seconds db) of None \<Rightarrow> (False, in_seconds db)
       | Some r \<Rightarrow> (True, (in_seconds db)\<lparr>sq_tasks := hm_remove (tn, i) (sq_tasks (in_seconds db)),
           sq_artifacts := hm_retain (\<lambda>(t, tid, _) _. \<not> (t = tn \<and> tid = i)) (sq_artifacts (in_seconds db))\<rparr>)))"
    by (cases "owned_row tn i ow db") (simp_all add: matches_simps seconds_simps)
  from seen_transaction [OF this] show ?thesis
    by (cases "owned_row tn i ow db") (simp_all add: pg_delete_task_def assms sqlite_delete_task_def in_tx_def seconds_simps)
qed

theorem cancel_alone:
  assumes "sendable [tn, i, ow]"
  shows "seen_alone (pg_set_cancel_requested tn i ow) db = sqlite_set_cancel_requested tn i ow (in_seconds db)"
proof (cases "hm_get (sq_tasks db) (tn, i)")
  case None
  then show ?thesis
    by (simp add: pg_set_cancel_requested_def assms sqlite_set_cancel_requested_def matches_simps pg_update_row_def
        owned_row_def hm_simps)
next
  case (Some r)
  then show ?thesis
    by (auto simp: pg_set_cancel_requested_def assms sqlite_set_cancel_requested_def matches_simps pg_update_row_def
        owned_row_def hm_simps pg_terminal_def seconds_simps split: option.splits)
qed

theorem append_event_alone:
  assumes "sendable [tn, i]"
  shows "seen_alone (pg_append_event C now tn i ev) db = sqlite_append_event C now tn i ev (in_seconds db)"
proof (cases "enc_event C ev")
  case (Inl e)
  then show ?thesis
    by (simp add: pg_append_event_def sqlite_append_event_def seen_lifted in_tx_def insert_event_def Let_def)
next
  case (Inr data)
  have "matches (and_then (query (\<lambda>_. ())) (\<lambda>_.
       and_then (pg_next_sequence tn i) (\<lambda>sq.
       and_then (lifted (serde (enc_event C ev))) (\<lambda>data.
       and_then (pg_insert_event_row now tn i sq data) (\<lambda>_. done_with sq))))) db (\<lambda>d. d)
     (attempt (insert_event C now tn i ev (in_seconds db)) Inr)"
    unfolding matches_query by (rule insert_event_matches) (simp add: matches_simps)
  moreover have "attempt (insert_event C now tn i ev (in_seconds db)) Inr = insert_event C now tn i ev (in_seconds db)"
    by (simp add: attempt_def split: sum.splits)
  ultimately have m: "matches (and_then (query (\<lambda>_. ())) (\<lambda>_.
       and_then (pg_next_sequence tn i) (\<lambda>sq.
       and_then (pg_insert_event_row now tn i sq data) (\<lambda>_. done_with sq)))) db (\<lambda>d. d)
     (insert_event C now tn i ev (in_seconds db))"
    by (simp add: Inr then_simps)
  from seen_transaction [OF m] show ?thesis
    by (simp add: pg_append_event_def assms sqlite_append_event_def Inr then_simps in_tx_def)
qed

theorem replay_alone: "sendable [tn, i] \<Longrightarrow> seen_alone (pg_get_events_after C tn i after) db =
    (sqlite_get_events_after C tn i after (in_seconds db), in_seconds db)"
  by (simp add: pg_get_events_after_def sqlite_get_events_after_def matches_simps event_rows_seconds)

theorem latest_alone: "sendable [tn, i] \<Longrightarrow> seen_alone (pg_latest_sequence tn i) db =
    (sqlite_latest_sequence tn i (in_seconds db), in_seconds db)"
  by (simp add: pg_latest_sequence_def sqlite_latest_sequence_def matches_simps max_sequence_seconds)

lemma postgres_new_seconds: "in_seconds (postgres_new b rc) = sqlite_new b rc"
  by (simp add: in_seconds_def postgres_new_def sqlite_new_def hm_map_def)

section \<open>Configs, markers and leases\<close>

lemma config_tx_alone:
  "config_tx json tn cfg d = Some (d\<lparr>sq_configs := hm_insert (tn, pc_task_id cfg, pc_id cfg)
     \<lparr>cr_config_json = json, cr_registered_after_event_sequence =
        (case hm_get (sq_tasks d) (tn, pc_task_id cfg) of Some r \<Rightarrow> tr_latest_event_sequence r | None \<Rightarrow> 0)\<rparr> (sq_configs d)\<rparr>)"
  by (auto simp: config_tx_def Let_def split: option.splits)

text \<open>The id a config is stored under.\<close>

definition config_key :: "string \<Rightarrow> push_config \<Rightarrow> string" where
  "config_key uuid cfg = (if pc_id cfg = [] then uuid else pc_id cfg)"

theorem create_config_alone:
  assumes "sendable [tn, pc_task_id cfg, config_key uuid cfg]"
  shows "seen_alone (pg_create_config C uuid (\<lambda>_. False) tn cfg) db =
    sqlite_create_config C uuid (\<lambda>_ s. s) tn cfg (in_seconds db)"
proof -
  define cfg' where "cfg' = (if pc_id cfg = [] then cfg\<lparr>pc_id := uuid\<rparr> else cfg)"
  then have S: "sendable [tn, pc_task_id cfg', pc_id cfg']" using assms by (simp add: config_key_def split: if_splits)
  show ?thesis
  proof (cases "enc_config C cfg'")
    case (Inl e)
    then show ?thesis
      by (simp add: pg_create_config_def sqlite_create_config_def cfg'_def [symmetric] seen_lifted)
  next
    case (Inr json)
    let ?seq = "case hm_get (sq_tasks db) (tn, pc_task_id cfg') of Some r \<Rightarrow> tr_latest_event_sequence r | None \<Rightarrow> 0"
    let ?d = "(in_seconds db)\<lparr>sq_configs := hm_insert (tn, pc_task_id cfg', pc_id cfg')
       \<lparr>cr_config_json = json, cr_registered_after_event_sequence = ?seq\<rparr> (sq_configs db)\<rparr>"
    have tx: "matches (and_then (query (\<lambda>db. case hm_get (sq_tasks db) (tn, pc_task_id cfg') of
           Some r \<Rightarrow> tr_latest_event_sequence r | None \<Rightarrow> 0)) (\<lambda>seq_read.
         if False then done_with False
         else and_then (perform (\<lambda>_. Inr ((), \<lambda>db. db\<lparr>sq_configs :=
             hm_insert (tn, pc_task_id cfg', pc_id cfg')
               \<lparr>cr_config_json = json, cr_registered_after_event_sequence = seq_read\<rparr> (sq_configs db)\<rparr>))) (\<lambda>_.
           done_with True))) db (\<lambda>d. d) (Inr (True, ?d))"
      by (simp add: matches_simps seconds_simps)
    have five: "MAX_ATTEMPTS = Suc 4" by (simp add: MAX_ATTEMPTS_def)
    have loop: "pg_create_config_loop MAX_ATTEMPTS (\<lambda>_. False) json tn cfg' 0 =
        and_then (pg_config_tx False json tn cfg') (\<lambda>ok. if ok then done_with cfg'
          else if 0 + 1 < MAX_ATTEMPTS then pg_create_config_loop 4 (\<lambda>_. False) json tn cfg' (0 + 1)
          else lifted (Inl SERIALIZATION_FAILURE))"
      by (subst five) (simp only: pg_create_config_loop.simps)
    have "seen_alone (pg_create_config_loop MAX_ATTEMPTS (\<lambda>_. False) json tn cfg' 0) db = (Inr cfg', ?d)"
      unfolding loop pg_config_tx_def
      by (subst seen_after_transaction [OF tx, where K = "\<lambda>_ d. (Inr cfg', d)"]) (auto simp: matches_simps)
    moreover have "sqlite_create_config_loop MAX_ATTEMPTS (\<lambda>_ s. s) json tn cfg' 0 (in_seconds db) = (Inr cfg', ?d)"
      unfolding five sqlite_create_config_loop.simps config_tx_alone
      by (cases "hm_get (sq_tasks db) (tn, pc_task_id cfg')") (simp_all add: hm_simps)
    ultimately show ?thesis
      by (simp add: pg_create_config_def sqlite_create_config_def cfg'_def [symmetric] Inr then_simps Let_def S)
  qed
qed

theorem push_writes_alone:
  "sendable [tn, i, k] \<Longrightarrow> seen_alone (pg_delete_config tn i k) db = sqlite_delete_config tn i k (in_seconds db)"
  "sendable [tn, i, ow] \<Longrightarrow>
     seen_alone (pg_record_pending_dispatch now tn ow i q) db = sqlite_record_pending_dispatch now tn ow i q (in_seconds db)"
  "sendable [tn, i] \<Longrightarrow> seen_alone (pg_delete_pending_dispatch tn i q) db = sqlite_delete_pending_dispatch tn i q (in_seconds db)"
  by (simp_all add: pg_delete_config_def sqlite_delete_config_def pg_record_pending_dispatch_def
      sqlite_record_pending_dispatch_def pg_delete_pending_dispatch_def sqlite_delete_pending_dispatch_def
      matches_simps seconds_simps)

lemma lease_map_seconds:
  "in_seconds (db\<lparr>sq_tasks := map (\<lambda>((t, i), r). ((t, i), if t = tn \<and> i \<in> set ids
      then r\<lparr>tr_lease_expires_at := e\<rparr> else r)) (sq_tasks db)\<rparr>) = lease_chunk tn e ids (in_seconds db)"
proof -
  have "hm_map row_seconds (map (\<lambda>((t, i), r). ((t, i), if t = tn \<and> i \<in> set ids
      then r\<lparr>tr_lease_expires_at := e\<rparr> else r)) m) =
    map (\<lambda>((t, i), r). ((t, i), if t = tn \<and> i \<in> set ids then r\<lparr>tr_lease_expires_at := e\<rparr> else r))
      (hm_map row_seconds m)" for m :: "(task_key, 'a task_row) hashmap"
    by (induction m) (auto simp: hm_map_def seconds_simps)
  then show ?thesis by (simp add: in_seconds_def lease_chunk_def)
qed

theorem leases_alone:
  assumes "sendable (tn # ids)"
  shows "seen_alone (pg_renew_executor_leases tn ids e) db = sqlite_renew_executor_leases tn ids e (in_seconds db)"
proof -
  have "fst (sqlite_renew_executor_leases tn ids e (in_seconds db)) = Inr ()"
    by (simp add: sqlite_renew_executor_leases_def)
  moreover have "lease_chunk tn e [] d = d" for d :: "('a, 'b, 'c, 'd) sqlite" by (rule lease_chunk_none)
  ultimately show ?thesis
    by (auto simp: pg_renew_executor_leases_def assms matches_simps lease_map_seconds renew_leases_at_once prod_eq_iff)
qed

section \<open>Listings\<close>

lemma insort_key_map: "insort_key f (g x) (map g xs) = map g (insort_key (f \<circ> g) x xs)"
  by (induction xs) auto

lemma sort_key_map: "sort_key f (map g xs) = map g (sort_key (f \<circ> g) xs)"
  by (induction xs) (simp_all add: insort_key_map comp_def)

lemma sort_desc_map: "sort_desc f (map g xs) = map g (sort_desc (f \<circ> g) xs)"
  by (simp add: sort_desc_def rev_map sort_key_map)

definition entry_seconds :: "task_key \<times> 't task_row \<Rightarrow> task_key \<times> 't task_row" where
  "entry_seconds e = (fst e, row_seconds (snd e))"

lemma entry_views [simp]:
  "select_matches c f \<circ> entry_seconds = select_matches c f" "select_key \<circ> entry_seconds = select_key"
  "before_cursor cursor \<circ> entry_seconds = before_cursor cursor" "select_key (entry_seconds e) = select_key e"
  by (auto simp: fun_eq_iff entry_seconds_def select_matches_def select_key_def before_cursor_def
      split: option.splits prod.splits)

lemma tasks_seconds: "sq_tasks (in_seconds db) = map entry_seconds (sq_tasks db)"
  by (simp add: hm_map_def entry_seconds_def split_def)

lemma select_seconds:
  "select_tasks c f cursor n (in_seconds db) = map entry_seconds (pg_select_tasks (\<lambda>s. s) c f cursor n db)"
proof -
  have key: "(\<lambda>((_, i), r). (tr_status_timestamp r, i)) = (select_key :: task_key \<times> 'a task_row \<Rightarrow> string \<times> string)"
    by (auto simp: fun_eq_iff select_key_def)
  have cur: "(\<lambda>((_, i), r). case cursor of None \<Rightarrow> True
            | Some (key, j) \<Rightarrow> tr_status_timestamp r < key \<or> tr_status_timestamp r = key \<and> i < j) =
      (before_cursor cursor :: task_key \<times> 'a task_row \<Rightarrow> bool)"
    by (auto simp: fun_eq_iff before_cursor_def select_key_def split: option.splits)
  show ?thesis
    unfolding select_tasks_def pg_select_tasks_def tasks_seconds key cur
    by (simp add: filter_map sort_desc_map take_map)
qed

text \<open>A listing whose filter and cursor hold no NUL.\<close>

definition listing_sendable :: "chrono \<Rightarrow> task_filter \<Rightarrow> bool" where
  "listing_sendable c f \<longleftrightarrow> sendable (filter_texts f) \<and>
     (\<forall>token k. tf_page_token f = Some token \<longrightarrow> decode_cursor c token = Inr k \<longrightarrow> sendable (cursor_texts (Some k)))"

lemma list_rows_alone:
  "pg_list_rows C (case tf_include_artifacts f of Some b \<Rightarrow> b | None \<Rightarrow> False)
     (case tf_tenant f of Some tenant \<Rightarrow> tenant | None \<Rightarrow> '''') (tf_history_length f) rows (quiet_session db w) =
   (Inr (List.map_filter (listed_row C f (in_seconds (w db))) (map entry_seconds rows)), quiet_session db w)"
proof (induction rows)
  case (Cons e rows)
  obtain t i r where e: "e = ((t, i), r)" by (metis prod.exhaust)
  let ?inc = "case tf_include_artifacts f of Some b \<Rightarrow> b | None \<Rightarrow> False"
  let ?tn = "case tf_tenant f of Some tenant \<Rightarrow> tenant | None \<Rightarrow> ''''"
  have "(if ?inc then pg_rehydrate_task C ?tn i (tr_task_json r) (tr_artifact_manifest r) (quiet_session db w)
        else (pg_task_from_json C (tr_task_json r), quiet_session db w)) =
      (if ?inc then rehydrate_task C ?tn i (tr_task_json r) (tr_artifact_manifest r) (in_seconds (w db))
        else task_from_json C (tr_task_json r), quiet_session db w)"
    by (simp add: rehydrate_alone pg_same_helpers)
  moreover have "listed_row C f (in_seconds (w db)) (entry_seconds e) =
      (case (if ?inc then rehydrate_task C ?tn i (tr_task_json r) (tr_artifact_manifest r) (in_seconds (w db))
        else task_from_json C (tr_task_json r)) of Inr t \<Rightarrow> Some (trim_history t (tf_history_length f)) | Inl _ \<Rightarrow> None)"
    by (simp add: listed_row_def entry_seconds_def e)
  ultimately show ?case
    using Cons.IH by (auto simp: e and_then_def session_simps List.map_filter_simps split: sum.splits)
qed (simp add: session_simps List.map_filter_simps)

theorem list_alone:
  assumes "listing_sendable c f"
  shows "fst (alone (pg_list_tasks C (\<lambda>s. s) c f) db) = sqlite_list_tasks C c f (in_seconds db)"
proof (cases "resolved_page_size f")
  case (Inl e)
  then show ?thesis by (simp add: pg_list_tasks_def then_simps sqlite_list_tasks_def alone_def run_program_def lifted_def)
next
  case (Inr n)
  let ?cur = "case tf_page_token f of None \<Rightarrow> Inr None | Some token \<Rightarrow> attempt (decode_cursor c token) (\<lambda>k. Inr (Some k))"
  show ?thesis
  proof (cases ?cur)
    case (Inl e)
    with Inr show ?thesis
      by (simp add: pg_list_tasks_def then_simps sqlite_list_tasks_def alone_def run_program_def lifted_def)
  next
    case cur: (Inr cursor)
    have S: "sendable (filter_texts f)" "sendable (cursor_texts cursor)"
      using assms cur by (auto simp: listing_sendable_def cursor_texts_def sendable_simps attempt_def
          split: option.splits sum.splits)
    let ?rows = "pg_select_tasks (\<lambda>s. s) c f cursor (nat n + 1) db"
    have last: "select_key (last (map entry_seconds xs)) = select_key (last xs)" if "xs \<noteq> []" for xs :: "(task_key \<times> 'a task_row) list"
      using that by (simp add: last_map)
    let ?page = "\<lparr>tlp_tasks = List.map_filter (listed_row C f (in_seconds db)) (map entry_seconds (take (nat n) ?rows)),
         tlp_next_page_token = (if take (nat n) ?rows \<noteq> [] \<and> length ?rows > nat n
           then encode_cursor (fst (select_key (last (take (nat n) ?rows)))) (snd (select_key (last (take (nat n) ?rows)))) else ''''),
         tlp_page_size = n, tlp_total_size = as_i32 (int (length (filter (select_matches c f) (sq_tasks db))))\<rparr>"
    have run: "pg_list_tasks C (\<lambda>s. s) c f (quiet_session db (\<lambda>d. d)) = (Inr ?page, quiet_session db (\<lambda>d. d))"
      by (simp add: pg_list_tasks_def Inr cur S then_simps and_then_def session_simps Let_def list_rows_alone)
    then have al: "alone (pg_list_tasks C (\<lambda>s. s) c f) db = (Inr ?page, db)"
      by (simp add: alone_def run_program_def quiet_session_def)
    moreover have "length (filter (select_matches c f) (sq_tasks (in_seconds db))) = length (filter (select_matches c f) (sq_tasks db))"
      unfolding tasks_seconds by (simp add: filter_map)
    ultimately show ?thesis
      using last [of "take (nat n) ?rows"] al
      unfolding sqlite_list_tasks_def Inr cur attempt_simps select_seconds Let_def
      by (simp add: take_map)
  qed
qed

theorem configs_alone:
  assumes "sendable ([tn, i] @ (case tok of Some token \<Rightarrow> [token] | None \<Rightarrow> []))"
  shows "fst (alone (pg_list_configs C (\<lambda>s. s) tn i tok n) db) = sqlite_list_configs C tn i tok n (in_seconds db)"
  "fst (alone (pg_list_configs_eligible_at_event C (\<lambda>s. s) tn i q tok n) db) =
     sqlite_list_configs_eligible_at_event C tn i q tok n (in_seconds db)"
proof -
  have page: "fst (alone (pg_config_page C (\<lambda>s. s) P tn i tok n) db) = Inr (sqlite_config_page C P tn i tok n (in_seconds db))" for P
    by (simp only: pg_config_page_def Let_def sending_ok [OF assms])
      (simp add: sqlite_config_page_def select_configs_def alone_def run_program_def and_then_def
        query_def done_with_def Let_def comp_def)
  show "fst (alone (pg_list_configs C (\<lambda>s. s) tn i tok n) db) = sqlite_list_configs C tn i tok n (in_seconds db)"
    "fst (alone (pg_list_configs_eligible_at_event C (\<lambda>s. s) tn i q tok n) db) =
       sqlite_list_configs_eligible_at_event C tn i q tok n (in_seconds db)"
    by (simp_all add: pg_list_configs_def pg_list_configs_eligible_at_event_def sqlite_list_configs_def
        sqlite_list_configs_eligible_at_event_def page)
qed

section \<open>Claims\<close>

lemma matches_option:
  assumes "ob = None \<Longrightarrow> matches m db w r" and "\<And>x. ob = Some x \<Longrightarrow> matches (k x) db w (R x)"
  shows "matches (case ob of None \<Rightarrow> m | Some x \<Rightarrow> k x) db w (case ob of None \<Rightarrow> r | Some x \<Rightarrow> R x)"
  using assms by (cases ob) simp_all

theorem claim_alone: "seen_alone (pg_claim_delivery now key w ow x) db = sqlite_claim_delivery now key w ow x (in_seconds db)"
proof -
  let ?n = "systime_to_micros now" and ?x = "systime_to_micros (now + x)"
  let ?R = "case delivery_of (in_seconds db) key of
        Some prev \<Rightarrow> attempt (claim_status_from_str (dr_status prev)) (\<lambda>prev_status.
          if claim_terminal prev_status \<or> dr_expires_at prev > ?n then Inl (claim_held key)
          else if \<not> (row_open prev \<and> dr_expires_at prev < ?n) then Inl (claim_held key)
          else Inr (\<lparr>dc_claimant = w, dc_owner = dr_owner prev, dc_generation = dr_generation prev + 1,
                 dc_claimed_at = now, dc_delivery_attempt_count = as_u32 (dr_delivery_attempt_count prev),
                 dc_status = Pending\<rparr>, put_delivery key (claim_taken_row ?n ?x w prev) (in_seconds db)))
      | None \<Rightarrow> Inr (\<lparr>dc_claimant = w, dc_owner = ow, dc_generation = 1, dc_claimed_at = now,
            dc_delivery_attempt_count = 0, dc_status = Pending\<rparr>,
          put_delivery key \<lparr>dr_claimant = w, dr_owner = ow, dr_generation = 1,
            dr_claimed_at = ?n, dr_expires_at = ?x, dr_delivery_attempt_count = 0,
            dr_status = ''Pending'', dr_first_attempted_at = None, dr_last_attempted_at = None,
            dr_last_http_status = None, dr_last_error_class = None, dr_gave_up_at = None,
            dr_gave_up_reason = None, dr_abandoned_reason = None\<rparr> (in_seconds db))"
  have "seen_alone (pg_claim_delivery now key w ow x) db = in_tx (\<lambda>_. ?R) (in_seconds db)"
    unfolding pg_claim_delivery_def Let_def pg_same_helpers
  proof (rule seen_transaction, unfold matches_query delivery_of_seconds, rule matches_option)
    show "matches (and_then (lifted (claim_status_from_str (dr_status prev))) (\<lambda>prev_status.
            if claim_terminal prev_status \<or> dr_expires_at prev > ?n then lifted (Inl (claim_held key))
            else and_then (perform (\<lambda>db. Inr (case delivery_of db key of
                Some r \<Rightarrow> if dr_generation r = dr_generation prev \<and> row_open r \<and> dr_expires_at r < ?n
                  then (True, put_delivery key (r\<lparr>dr_claimant := w, dr_generation := dr_generation prev + 1,
                    dr_claimed_at := ?n, dr_expires_at := ?x, dr_status := ''Pending'',
                    dr_gave_up_at := None, dr_gave_up_reason := None, dr_abandoned_reason := None\<rparr>))
                  else (False, \<lambda>db. db)
              | None \<Rightarrow> (False, \<lambda>db. db)))) (\<lambda>affected.
              if \<not> affected then lifted (Inl (claim_held key))
              else done_with \<lparr>dc_claimant = w, dc_owner = dr_owner prev,
                dc_generation = dr_generation prev + 1, dc_claimed_at = now,
                dc_delivery_attempt_count = as_u32 (dr_delivery_attempt_count prev), dc_status = Pending\<rparr>))) db (\<lambda>d. d)
        (attempt (claim_status_from_str (dr_status prev)) (\<lambda>prev_status.
          if claim_terminal prev_status \<or> dr_expires_at prev > ?n then Inl (claim_held key)
          else if \<not> (row_open prev \<and> dr_expires_at prev < ?n) then Inl (claim_held key)
          else Inr (\<lparr>dc_claimant = w, dc_owner = dr_owner prev, dc_generation = dr_generation prev + 1,
                 dc_claimed_at = now, dc_delivery_attempt_count = as_u32 (dr_delivery_attempt_count prev),
                 dc_status = Pending\<rparr>, put_delivery key (claim_taken_row ?n ?x w prev) (in_seconds db))))"
      if "delivery_of db key = Some prev" for prev
      by (rule matches_attempt) (auto simp: matches_simps that seconds_simps claim_taken_row_def Let_def)
  qed (simp add: matches_simps seconds_simps)
  also have "\<dots> = sqlite_claim_delivery now key w ow x (in_seconds db)"
    by (simp only: sqlite_claim_delivery_def Let_def in_tx_def)
  finally show ?thesis .
qed

theorem attempt_alone:
  assumes "\<And>r. delivery_of db key = Some r \<Longrightarrow> dr_delivery_attempt_count r + 1 < 2 ^ 31"
  shows "seen_alone (pg_record_attempt_started now key w g) db =
    sqlite_record_attempt_started now key w g (in_seconds db)"
proof -
  let ?R = "case delivery_of (in_seconds db) key of
       None \<Rightarrow> Inl (stale_claim key)
     | Some r \<Rightarrow>
         if dr_claimant r = w \<and> dr_generation r = g \<and> row_open r
         then (let r' = started_row (systime_to_micros now) r
           in Inr (as_u32 (dr_delivery_attempt_count r'), put_delivery key r' (in_seconds db)))
         else Inl (stale_claim key)"
  have "seen_alone (pg_record_attempt_started now key w g) db = in_tx (\<lambda>_. ?R) (in_seconds db)"
    unfolding pg_record_attempt_started_def
    by (rule seen_transaction) (cases "delivery_of db key"; use assms in
      \<open>auto simp: matches_simps seconds_simps started_row_def Let_def as_u32_def pg_same_helpers\<close>)
  then show ?thesis by (simp add: sqlite_record_attempt_started_def in_tx_def)
qed

lemma settled_same: "pg_settled_row n (dr_claimed_at r) oc r = settled_row n oc r"
  by (cases oc) (simp_all add: pg_same_helpers)

theorem outcome_alone: "seen_alone (pg_record_delivery_outcome now key w g oc) db =
    sqlite_record_delivery_outcome now key w g oc (in_seconds db)"
proof -
  let ?R = "case delivery_of (in_seconds db) key of
       None \<Rightarrow> Inl (stale_claim key)
     | Some r \<Rightarrow>
         if dr_claimant r \<noteq> w \<or> dr_generation r \<noteq> g then Inl (stale_claim key)
         else attempt (claim_status_from_str (dr_status r)) (\<lambda>cur_status.
           if claim_terminal cur_status then Inr ((), in_seconds db)
           else Inr ((), put_delivery key (settled_row (systime_to_micros now) oc r) (in_seconds db)))"
  have "seen_alone (pg_record_delivery_outcome now key w g oc) db = in_tx (\<lambda>_. ?R) (in_seconds db)"
    unfolding pg_record_delivery_outcome_def
  proof (rule seen_transaction, unfold matches_query, cases "delivery_of db key")
    case (Some r)
    then show "matches (case delivery_of db key of
         None \<Rightarrow> lifted (Inl (stale_claim key))
       | Some cur \<Rightarrow>
           if dr_claimant cur \<noteq> w \<or> dr_generation cur \<noteq> g then lifted (Inl (stale_claim key))
           else and_then (lifted (pg_claim_status_from_str (dr_status cur))) (\<lambda>cur_status.
             if claim_terminal cur_status then done_with ()
             else perform (\<lambda>db. Inr ((), case delivery_of db key of
                 Some r \<Rightarrow> put_delivery key (pg_settled_row (pg_systime_to_micros now) (dr_claimed_at cur) oc r)
               | None \<Rightarrow> (\<lambda>db. db))))) db (\<lambda>d. d) ?R"
      by (cases "claim_status_from_str (dr_status r)")
        (auto simp: matches_simps seconds_simps settled_same)
  qed (simp add: matches_simps seconds_simps)
  then show ?thesis by (simp add: sqlite_record_delivery_outcome_def in_tx_def)
qed

section \<open>Runs\<close>

fun pg_commit ::
  "('t, 'e, 'a, 'c) codec \<Rightarrow> chrono \<Rightarrow> backend_commit \<Rightarrow> ('t, 'e, 'a, 'c) pg \<Rightarrow> backend_answer \<times> ('t, 'e, 'a, 'c) pg" where
  "pg_commit C c (CCreate now tn ow t evs) db = apfst ATaskSeqs (alone (pg_create_task_with_events C c now tn ow t evs) db)"
| "pg_commit C c (CCreateQuiet now tn ow t) db = apfst ATask (alone (pg_create_task C c now tn ow t) db)"
| "pg_commit C c (CStatus now tn i ow st evs) db = apfst ATaskSeqs (alone
     (pg_update_task_status_with_events C c (sq_push_dispatch_enabled db) now tn i ow st evs) db)"
| "pg_commit C c (CUpdate now tn ow t evs) db = apfst ASeqs (alone (pg_update_task_with_events C c now tn ow t evs) db)"
| "pg_commit C c (CMessage now tn i ow m) db = apfst AUnit (alone (pg_append_message C c now tn i ow m) db)"
| "pg_commit C c (CCancel tn i ow) db = apfst AUnit (alone (pg_set_cancel_requested tn i ow) db)"
| "pg_commit C c (CDelete tn i ow) db = apfst ABool (alone (pg_delete_task tn i ow) db)"
| "pg_commit C c (CConfig uuid tn cfg) db = apfst AConfig (alone (pg_create_config C uuid (\<lambda>_. False) tn cfg) db)"
| "pg_commit C c (CDeleteConfig tn i k) db = apfst AUnit (alone (pg_delete_config tn i k) db)"
| "pg_commit C c (CMarker now tn ow i q) db = apfst AUnit (alone (pg_record_pending_dispatch now tn ow i q) db)"
| "pg_commit C c (CUnmark tn i q) db = apfst AUnit (alone (pg_delete_pending_dispatch tn i q) db)"
| "pg_commit C c (CLease tn ids e) db = apfst AUnit (alone (pg_renew_executor_leases tn ids e) db)"

fun run_pg ::
  "('t, 'e, 'a, 'c) codec \<Rightarrow> chrono \<Rightarrow> backend_commit list \<Rightarrow> ('t, 'e, 'a, 'c) pg \<Rightarrow>
   backend_answer list \<times> ('t, 'e, 'a, 'c) pg" where
  "run_pg C c [] db = ([], db)"
| "run_pg C c (x # xs) db = (case pg_commit C c x db of (a, db) \<Rightarrow> apfst ((#) a) (run_pg C c xs db))"

fun creates_new :: "('t, 'e, 'a, 'c) sqlite \<Rightarrow> backend_commit \<Rightarrow> bool" where
  "creates_new d (CCreate now tn ow t evs) \<longleftrightarrow> hm_get (sq_tasks d) (tn, tk_id t) = None"
| "creates_new d (CCreateQuiet now tn ow t) \<longleftrightarrow> hm_get (sq_tasks d) (tn, tk_id t) = None"
| "creates_new d _ \<longleftrightarrow> True"

text \<open>
  The texts a commit sends outside the JSON columns. A stored task's came in with a commit, so
  when no commit holds a NUL, neither does what is stored.
\<close>

fun commit_texts :: "backend_commit \<Rightarrow> string list" where
  "commit_texts (CCreate now tn ow t evs) = tn # ow # task_texts t"
| "commit_texts (CCreateQuiet now tn ow t) = tn # ow # task_texts t"
| "commit_texts (CStatus now tn i ow st evs) = [tn, i, ow]"
| "commit_texts (CUpdate now tn ow t evs) = tn # ow # task_texts t"
| "commit_texts (CMessage now tn i ow m) = [tn, i, ow]"
| "commit_texts (CCancel tn i ow) = [tn, i, ow]"
| "commit_texts (CDelete tn i ow) = [tn, i, ow]"
| "commit_texts (CConfig uuid tn cfg) = [tn, pc_task_id cfg, config_key uuid cfg]"
| "commit_texts (CDeleteConfig tn i k) = [tn, i, k]"
| "commit_texts (CMarker now tn ow i q) = [tn, i, ow]"
| "commit_texts (CUnmark tn i q) = [tn, i]"
| "commit_texts (CLease tn ids e) = tn # ids"

definition texts_ok :: "store \<Rightarrow> bool" where
  "texts_ok s \<longleftrightarrow> (\<forall>tn i x. get_stored s tn i = Some x \<longrightarrow> sendable (task_texts (s_task x)))"

lemma texts_ok_new: "texts_ok (with_push_dispatch_enabled b store_new)"
  by (simp add: texts_ok_def get_stored_def with_push_dispatch_enabled_def store_new_def)

lemma texts_put: "texts_ok s \<Longrightarrow> sendable (task_texts (s_task x)) \<Longrightarrow> texts_ok (put_stored tn i x s)"
  by (auto simp: texts_ok_def get_put_stored)

lemma texts_frame: "texts_ok s \<Longrightarrow> tasks s' = tasks s \<Longrightarrow> texts_ok s'"
  by (simp add: texts_ok_def get_stored_def)

lemma texts_stamped: "task_texts (fst (stamp_status now t evs)) = task_texts t"
  by (auto simp: task_texts_def stamp_status_def Let_def split: option.splits)

lemma texts_lease: "texts_ok s \<Longrightarrow> texts_ok (set_lease tn e i s)"
  by (auto simp: set_lease_def texts_ok_def get_put_stored split: option.splits)

lemma texts_leases: "texts_ok s \<Longrightarrow> texts_ok (fold (set_lease tn e) ids s)"
  by (induction ids arbitrary: s) (simp_all add: texts_lease)

lemma commit_texts_ok:
  assumes "texts_ok s" and "sendable (commit_texts x)"
  shows "texts_ok (snd (mem_commit x s))"
proof -
  note frame = texts_frame [OF assms(1)]
  have put: "texts_ok (put_stored tn i r s')" if "tasks s' = tasks s" "sendable (task_texts (s_task r))" for tn i r s'
    by (rule texts_put [OF frame [OF that(1)] that(2)])
  show ?thesis
  proof (cases x)
    case (CCreate now tn ow t evs)
    then show ?thesis
      using assms(2) by (simp add: create_task_with_events_eq Let_def put fresh_row_def texts_stamped sendable_simps)
  next
    case (CCreateQuiet now tn ow t)
    then show ?thesis
      using assms(2) texts_stamped [of now t "[]"] by (simp add: create_task_def Let_def put fresh_row_def sendable_simps)
  next
    case (CStatus now tn i ow st evs)
    show ?thesis
    proof (cases "update_task_status_with_events now tn i ow st evs s" rule: prod.exhaust)
      case (Pair res s')
      then show ?thesis
      proof (cases rule: update_status_with_events_cases)
        case (committed r c n t' evs')
        have "task_texts t' = task_texts (s_task r)"
          using texts_stamped [of now "(s_task r)\<lparr>tk_status := Some st\<rparr>" evs] committed(7) by (simp add: task_texts_def)
        then have "sendable (task_texts t')" using assms(1) committed(1) by (auto simp: texts_ok_def)
        then have "texts_ok s'" unfolding committed(11) by (intro put) (simp_all add: replace_row_def)
        then show ?thesis by (simp add: CStatus Pair)
      qed (use assms(1) in \<open>simp add: CStatus Pair\<close>)
    qed
  next
    case (CUpdate now tn ow t evs)
    show ?thesis
    proof (cases "update_task_with_events now tn ow t evs s" rule: prod.exhaust)
      case (Pair res s')
      then show ?thesis
      proof (cases rule: update_task_with_events_cases)
        case (committed r)
        have "texts_ok s'"
          unfolding committed(5) using assms(2)
          by (intro put) (simp_all add: CUpdate replace_row_def texts_stamped sendable_simps)
        then show ?thesis by (simp add: CUpdate Pair)
      qed (use assms(1) in \<open>simp_all add: CUpdate Pair\<close>)
    qed
  next
    case (CDelete tn i ow)
    then show ?thesis
      using assms(1) delete_task_cases [of tn i ow s] by (auto simp: texts_ok_def get_stored_def hm_simps split: if_splits)
  next
    case (CLease tn ids e)
    then show ?thesis using texts_leases [OF assms(1)] by (simp add: supervisor_renew_executor_leases_def)
  next
    case (CMessage now tn i ow m)
    have "task_texts (task_append_message m t) = task_texts t" for t by (simp add: task_append_message_def task_texts_def)
    then show ?thesis
      using assms(1) by (auto simp: CMessage append_message_def texts_ok_def get_put_stored split: option.splits)
  next
    case (CCancel tn i ow)
    then show ?thesis
      using assms(1) by (auto simp: set_cancel_requested_def texts_ok_def get_put_stored split: option.splits)
  next
    case (CConfig uuid tn cfg)
    then show ?thesis by (simp add: create_config_quiet Let_def insert_config_def frame)
  qed (simp_all add: frame delete_config_def record_pending_dispatch_def delete_pending_dispatch_def Let_def)
qed

lemma seen_alone_apfst:
  "seen_alone m db = r \<Longrightarrow> apsnd in_seconds (apfst f (alone m db)) = apfst f r"
  by (auto simp: seen_alone_def apfst_def apsnd_def map_prod_def split: prod.splits)

lemma pg_commit_matches:
  assumes "creates_new (in_seconds db) x" and "sendable (commit_texts x)"
    and "\<And>tn i ow t. sqlite_get_task C tn i ow None (in_seconds db) = Inr (Some t) \<Longrightarrow> sendable (task_texts t)"
  shows "apsnd in_seconds (pg_commit C c x db) = sql_commit C c x (in_seconds db)"
proof -
  have "hm_get (sq_tasks db) k = None" if "hm_get (sq_tasks (in_seconds db)) k = None" for k
    using that by (simp add: hm_simps)
  with assms show ?thesis
    by (cases x; simp only: pg_commit.simps sql_commit.simps creates_new.simps; intro seen_alone_apfst;
        insert assms(3); simp add: create_with_events_alone create_alone status_with_events_alone
        update_with_events_alone append_message_alone cancel_alone delete_alone create_config_alone
        push_writes_alone leases_alone)
qed

lemma admissible_new:
  assumes "refines C A d s" and "admissible C A s x"
  shows "creates_new d x"
proof -
  have "hm_get (sq_tasks d) (tn, i) = None" if "get_stored s tn i = None" for tn i
  proof -
    have "task_refines C A tn i d s" using assms(1) by (simp add: refines_def)
    with that show ?thesis by (simp add: task_refines_def)
  qed
  with assms(2) show ?thesis by (cases x) auto
qed

theorem postgres_runs:
  assumes "codec_ok C A"
  shows "refines C A (in_seconds db) s \<Longrightarrow> all_admissible C A s xs \<Longrightarrow> texts_ok s \<Longrightarrow>
    list_all (\<lambda>x. sendable (commit_texts x)) xs \<Longrightarrow> apsnd in_seconds (run_pg C c xs db) = run_sql C c xs (in_seconds db)"
proof (induction xs arbitrary: db s)
  case (Cons x xs)
  obtain a db1 where step: "pg_commit C c x db = (a, db1)" by fastforce
  have "sendable (task_texts t)" if "sqlite_get_task C tn i ow None (in_seconds db) = Inr (Some t)" for tn i ow t
    using that Cons.prems(3)
    by (auto simp: get_task_refines [OF Cons.prems(1)] get_task_def trim_history_def texts_ok_def split: option.splits if_splits)
  then have "apsnd in_seconds (pg_commit C c x db) = sql_commit C c x (in_seconds db)"
    using Cons.prems admissible_new by (intro pg_commit_matches) auto
  then have sql: "sql_commit C c x (in_seconds db) = (a, in_seconds db1)" by (simp add: step)
  from Cons.prems commit_refines [OF assms, of "in_seconds db" s x c]
  have "refines C A (in_seconds db1) (snd (mem_commit x s))" "all_admissible C A (snd (mem_commit x s)) xs"
    by (auto simp: sql)
  from Cons.IH [OF this commit_texts_ok] Cons.prems(3,4) show ?case
    by (simp add: step sql apsnd_apfst_commute) (metis apfst_conv apsnd_conv prod.collapse)
qed simp

end
