(* ===== verification/Postgres_Race.thy ===== *)
theory Postgres_Race
  imports Postgres_System Sqlite_Example
begin

text \<open>
  Concurrent sessions: what a commit of \<open>PostgresA2aStorage\<close> does when others commit between its
  statements. The conditional update keeps terminal rows as they are; but the blob it writes was
  read before, without a lock, so what another session wrote in between is lost.
\<close>

section \<open>A transaction that pins a row\<close>

text \<open>
  \<open>pins\<close>: from here on the writes of the transaction give the row its columns, whatever is
  committed underneath (the row is locked).
\<close>

definition pinned :: "string \<Rightarrow> string \<Rightarrow> ('t task_row \<Rightarrow> bool) \<Rightarrow> (('t, 'e, 'a, 'c) pg \<Rightarrow> ('t, 'e, 'a, 'c) pg) \<Rightarrow> bool" where
  "pinned tn i P w \<longleftrightarrow> (\<forall>d. \<exists>r. hm_get (sq_tasks (w d)) (tn, i) = Some r \<and> P r)"

definition pins :: "string \<Rightarrow> string \<Rightarrow> ('t task_row \<Rightarrow> bool) \<Rightarrow> (('t, 'e, 'a, 'c) pg, 'x) program \<Rightarrow> bool" where
  "pins tn i P m \<longleftrightarrow> (\<forall>g db w r g' db' w'. m (g, db, w) = (r, (g', db', w')) \<longrightarrow> pinned tn i P w \<longrightarrow> pinned tn i P w')"

named_theorems pins_rules

lemma pins_done [pins_rules]: "pins tn i P (done_with x)"
  by (simp add: pins_def done_with_def)

lemma pins_lifted [pins_rules]: "pins tn i P (lifted r)"
  by (simp add: pins_def lifted_def)

lemma pins_query [pins_rules]: "pins tn i P (query q)"
  by (simp add: pins_def query_def Let_def)

lemma pins_then [pins_rules]:
  assumes "pins tn i P m" and "\<And>x. pins tn i P (k x)"
  shows "pins tn i P (and_then m k)"
  unfolding pins_def
proof (intro allI impI)
  fix g db w r g' db' w'
  assume run: "and_then m k (g, db, w) = (r, g', db', w')" and w: "pinned tn i P w"
  obtain r1 g1 db1 w1 where m: "m (g, db, w) = (r1, g1, db1, w1)" by (metis prod_cases4)
  with assms(1) w have w1: "pinned tn i P w1" unfolding pins_def by blast
  show "pinned tn i P w'"
  proof (cases r1)
    case (Inl e)
    with run m w1 show ?thesis by (simp add: and_then_def)
  next
    case (Inr x)
    with run m have "k x (g1, db1, w1) = (r, g', db', w')" by (simp add: and_then_def)
    with assms(2) [of x] w1 show ?thesis unfolding pins_def by blast
  qed
qed

lemma pins_perform [pins_rules]:
  assumes "\<And>v x f d r. u v = Inr (x, f) \<Longrightarrow> hm_get (sq_tasks d) (tn, i) = Some r \<Longrightarrow> P r \<Longrightarrow>
    (\<exists>r'. hm_get (sq_tasks v) (tn, i) = Some r' \<and> P r') \<Longrightarrow> \<exists>r'. hm_get (sq_tasks (f d)) (tn, i) = Some r' \<and> P r'"
  shows "pins tn i P (perform u)"
  unfolding pins_def
proof (intro allI impI)
  fix g db w r g' db' w'
  assume run: "perform u (g, db, w) = (r, g', db', w')" and w: "pinned tn i P w"
  show "pinned tn i P w'"
  proof (cases "u (w (g 0 db))")
    case (Inl e)
    with run w show ?thesis by (auto simp: perform_def Let_def)
  next
    case (Inr xf)
    then obtain x f where u: "u (w (g 0 db)) = Inr (x, f)" by (cases xf) simp
    with run have w': "w' = (\<lambda>d. f (w d))" by (auto simp: perform_def Let_def)
    show ?thesis
      unfolding pinned_def w'
    proof
      fix d
      obtain r1 where "hm_get (sq_tasks (w d)) (tn, i) = Some r1" "P r1" using w by (auto simp: pinned_def)
      moreover have "\<exists>r'. hm_get (sq_tasks (w (g 0 db))) (tn, i) = Some r' \<and> P r'" using w by (auto simp: pinned_def)
      ultimately show "\<exists>r. hm_get (sq_tasks (f (w d))) (tn, i) = Some r \<and> P r" by (rule assms [OF u])
    qed
  qed
qed

lemma pins_events [pins_rules]:
  assumes "\<And>sq ev. pins tn i P (mark sq ev)"
  shows "pins tn i P (pg_insert_events C now tn' i' mark evs)"
proof (induction evs)
  case (Cons ev evs)
  then show ?case
    by (auto simp: pg_next_sequence_def pg_insert_event_row_def split: if_splits intro!: pins_rules assms)
qed (simp add: pins_rules)

lemma pins_marker [pins_rules]: "pins tn i P (pg_write_marker b now tn' i' ow sq ev)"
  by (auto simp: pg_write_marker_def intro!: pins_rules)

lemma pins_no_marker [pins_rules]: "pins tn i P (no_marker sq ev)"
  by (simp add: no_marker_def pins_rules)

lemma pins_bump [pins_rules]:
  assumes "\<And>r n. P r \<Longrightarrow> P (r\<lparr>tr_latest_event_sequence := n\<rparr>)"
  shows "pins tn i P (pg_bump_latest tn i seqs)"
  by (auto simp: pg_bump_latest_def Let_def put_row_def hm_simps assms split: option.splits if_splits intro!: pins_rules)

lemma pins_artifacts [pins_rules]: "pins tn i P (pg_apply_artifact_plan C tn' i' plan)"
proof -
  have "pins tn i P (pg_write_artifacts C tn' i' ws)" for ws
    by (induction ws) (auto intro!: pins_rules)
  moreover have "pins tn i P (pg_delete_artifacts tn' i' js :: (('a, 'b, 'c, 'd) pg, unit) program)" for js
    by (induction js) (auto intro!: pins_rules)
  ultimately show ?thesis by (auto simp: pg_apply_artifact_plan_def intro!: pins_rules)
qed

lemma pins_run:
  assumes "pins tn i P m" and "m (g, db, w) = (r, g', db', w')" and "pinned tn i P w"
  shows "\<exists>x. hm_get (sq_tasks (w' d)) (tn, i) = Some x \<and> P x"
  using assms unfolding pins_def pinned_def by blast

section \<open>Runs that succeed\<close>

lemma then_Inr:
  "and_then m k s = (Inr x, s'') \<Longrightarrow> \<exists>y s'. m s = (Inr y, s') \<and> k y s' = (Inr x, s'')"
  by (auto simp: and_then_def split: sum.splits prod.splits)

lemma query_Inr: "query q (g, db, w) = (Inr x, s') \<Longrightarrow> x = q (w (g 0 db)) \<and> s' = (\<lambda>n. g (Suc n), g 0 db, w)"
  by (auto simp: query_def Let_def)

lemma lifted_Inr: "lifted r s = (Inr x, s') \<Longrightarrow> r = Inr x \<and> s' = s"
  by (auto simp: lifted_def)

lemma update_row_Inr:
  "perform (pg_update_row tn i ow live f) (g, db, w) = (Inr b, s') \<Longrightarrow>
    (if b then (\<exists>r. owned_row tn i ow (w (g 0 db)) = Some r \<and> live r \<and>
        s' = (\<lambda>n. g (Suc n), g 0 db, \<lambda>d. put_row tn i (f r) (w d)))
     else s' = (\<lambda>n. g (Suc n), g 0 db, w))"
  by (auto simp: perform_def pg_update_row_def Let_def split: option.splits if_splits)

lemma transaction_Inr:
  "run_program (transaction m) g db = (Inr x, db') \<Longrightarrow>
    \<exists>g' d w. m (g, db, \<lambda>d. d) = (Inr x, (g', d, w)) \<and> db' = w (g' 0 d)"
  by (auto simp: run_program_def transaction_def split: sum.splits prod.splits)

lemma passed_first [simp]: "passed g 1 db = g 0 db" "passed g (Suc 0) db = g 0 db" "passed g 2 db = g 1 (g 0 db)"
  by (simp_all add: eval_nat_numeral)

text \<open>What a committed status update has written, from what it read and what it found.\<close>

lemma status_write_race:
  assumes "pg_status_write C c b now tn i ow manifest (t', evs', json) (g, db, \<lambda>d. d) = (Inr x, (g', d, w))"
  obtains r1 where "owned_row tn i ow (g 0 db) = Some r1" and "\<not> pg_terminal r1" and "\<exists>seqs. x = (t', manifest, seqs)"
    and "\<And>v. \<exists>r. hm_get (sq_tasks (w v)) (tn, i) = Some r \<and> tr_task_json r = json \<and>
      tr_status_state r = status_state_str t' \<and> tr_artifact_manifest r = tr_artifact_manifest r1"
proof -
  let ?f = "\<lambda>r. r\<lparr>tr_task_json := json, tr_status_state := status_state_str t', tr_status_timestamp := task_sort_key c t',
      tr_context_id := tk_context_id t', tr_updated_at := pg_now now\<rparr>"
  let ?tail = "and_then (pg_insert_events C now tn i (pg_write_marker b now tn i ow) evs') (\<lambda>sequences.
      and_then (pg_bump_latest tn i sequences) (\<lambda>_. done_with (t', manifest, sequences)))"
  from then_Inr [OF assms [unfolded pg_status_write_def prod.case pg_same_helpers]] obtain affected s3 where
    u: "perform (pg_update_row tn i ow (\<lambda>r. \<not> pg_terminal r) ?f) (g, db, \<lambda>d. d) = (Inr affected, s3)"
    and m: "(if \<not> affected
       then and_then (query (\<lambda>db. hm_get (sq_tasks db) (tn, i))) (\<lambda>current.
         lifted (Inl (SE_TerminalStateAlreadySet i
           (case current of Some r \<Rightarrow> tr_status_state r | None \<Rightarrow> ''TASK_STATE_UNKNOWN''))))
       else ?tail) s3 = (Inr x, (g', d, w))"
    by blast
  have affected
    using m by (rule_tac ccontr) (auto dest!: then_Inr lifted_Inr)
  with m have tail: "?tail s3 = (Inr x, (g', d, w))" by simp
  from update_row_Inr [OF u] \<open>affected\<close> obtain r1 where r1: "owned_row tn i ow (g 0 db) = Some r1"
      "\<not> pg_terminal r1" "s3 = (\<lambda>n. g (Suc n), g 0 db, \<lambda>d. put_row tn i (?f r1) d)"
    by auto
  let ?P = "\<lambda>r. tr_task_json r = json \<and> tr_status_state r = status_state_str t' \<and>
    tr_artifact_manifest r = tr_artifact_manifest r1"
  have "pins tn i ?P ?tail" by (auto intro!: pins_rules)
  moreover have "pinned tn i ?P (\<lambda>d. put_row tn i (?f r1) d)"
    by (simp add: pinned_def put_row_def hm_simps)
  ultimately have "\<exists>r. hm_get (sq_tasks (w v)) (tn, i) = Some r \<and> ?P r" for v
    using tail [unfolded r1(3)] by (intro pins_run [where m = ?tail]) auto
  moreover have "\<exists>seqs. x = (t', manifest, seqs)"
    using tail by (auto dest!: then_Inr simp: done_with_def)
  ultimately show thesis using that r1(1,2) by blast
qed

theorem status_commit_race:
  assumes "run_program (transaction (pg_status_tx C c b now tn i ow st evs)) g db = (Inr (t', manifest, seqs), db')"
  obtains r0 r1 evs' json r where "owned_row tn i ow (passed g 1 db) = Some r0"
    and "status_blob C now (\<lambda>st. SE_TerminalStateAlreadySet i (wire_name st)) i (tr_task_json r0) st evs = Inr (t', evs', json)"
    and "owned_row tn i ow (passed g 2 db) = Some r1" and "\<not> pg_terminal r1" and "manifest = tr_artifact_manifest r0"
    and "hm_get (sq_tasks db') (tn, i) = Some r" and "tr_task_json r = json"
    and "tr_status_state r = status_state_str t'" and "tr_artifact_manifest r = tr_artifact_manifest r1"
proof -
  obtain g' d w where m: "pg_status_tx C c b now tn i ow st evs (g, db, \<lambda>d. d) = (Inr (t', manifest, seqs), (g', d, w))"
    and db': "db' = w (g' 0 d)"
    using transaction_Inr [OF assms] by blast
  obtain row s1 where q: "query (owned_row tn i ow) (g, db, \<lambda>d. d) = (Inr row, s1)"
    and m1: "(case row of None \<Rightarrow> lifted (Inl (SE_TaskNotFound i))
       | Some r \<Rightarrow> and_then (lifted (status_blob C now (\<lambda>st. SE_TerminalStateAlreadySet i (wire_name st))
             i (tr_task_json r) st evs)) (pg_status_write C c b now tn i ow (tr_artifact_manifest r))) s1 =
         (Inr (t', manifest, seqs), (g', d, w))"
    using then_Inr [OF m [unfolded pg_status_tx_def pg_same_helpers]] by blast
  have row: "row = owned_row tn i ow (g 0 db)" and s1: "s1 = (\<lambda>n. g (Suc n), g 0 db, \<lambda>d. d)"
    using query_Inr [OF q] by simp_all
  obtain r0 where r0: "row = Some r0" using m1 by (cases row) (auto simp: lifted_def)
  from then_Inr [OF m1 [unfolded r0 option.case]] obtain x where
    blob: "status_blob C now (\<lambda>st. SE_TerminalStateAlreadySet i (wire_name st)) i (tr_task_json r0) st evs = Inr x"
    and m2: "pg_status_write C c b now tn i ow (tr_artifact_manifest r0) x s1 = (Inr (t', manifest, seqs), (g', d, w))"
    by (auto dest: lifted_Inr)
  obtain t'' evs' json where x: "x = (t'', evs', json)" by (cases x) auto
  obtain r1 where r1: "owned_row tn i ow (g 1 (g 0 db)) = Some r1" "\<not> pg_terminal r1"
      "t'' = t'" "manifest = tr_artifact_manifest r0"
      "\<And>v. \<exists>r. hm_get (sq_tasks (w v)) (tn, i) = Some r \<and> tr_task_json r = json \<and>
        tr_status_state r = status_state_str t'' \<and> tr_artifact_manifest r = tr_artifact_manifest r1"
    by (rule status_write_race [OF m2 [unfolded x s1]]) auto
  from r1(5) [of "g' 0 d"] show thesis
    using that [of r0 evs' json r1] r0 row r1(1-4) blob x db' by auto
qed

text \<open>
  In short: a commit that succeeds found a live row at its update; one that fails has left what
  the others wrote.
\<close>

lemma inside_status_tx: "inside (pg_status_tx C c b now tn i ow st evs)"
proof -
  have marker: "inside (pg_write_marker b now tn i ow sq ev :: (('a, 'b, 'c, 'd) pg, unit) program)" for sq ev
    by (auto simp: pg_write_marker_def intro!: inside_rules)
  have "inside (pg_insert_events C now tn i (pg_write_marker b now tn i ow) evs)" for evs
    by (induction evs) (auto simp: pg_next_sequence_def pg_insert_event_row_def intro!: inside_rules marker)
  then show ?thesis
    by (auto simp: pg_status_tx_def pg_status_write_def pg_bump_latest_def Let_def split: option.splits prod.splits
        intro!: inside_rules)
qed

theorem status_commit_is_fenced:
  assumes "run_program (transaction (pg_status_tx C c b now tn i ow st evs)) g db = (res, db')"
  shows "(case res of
      Inl e \<Rightarrow> \<exists>n. db' = passed g n db
    | Inr (t', manifest, seqs) \<Rightarrow> (\<exists>r1. owned_row tn i ow (passed g 2 db) = Some r1 \<and> \<not> pg_terminal r1) \<and>
        (\<exists>r. hm_get (sq_tasks db') (tn, i) = Some r \<and> tr_status_state r = status_state_str t'))"
proof (cases res)
  case (Inl e)
  show ?thesis
    by (rule failed_transaction [OF inside_status_tx assms [unfolded Inl]]) (auto simp: Inl)
next
  case (Inr y)
  obtain t' manifest seqs where y: "y = (t', manifest, seqs)" by (cases y) auto
  show ?thesis
    by (rule status_commit_race [OF assms [unfolded Inr y]]) (auto simp: Inr y)
qed

section \<open>Lost updates\<close>

definition stored_history :: "('t, 'e, 'a, 'c) codec \<Rightarrow> string \<Rightarrow> string \<Rightarrow> ('t, 'e, 'a, 'c) pg \<Rightarrow> pb_message list option" where
  "stored_history C tn i db = (case hm_get (sq_tasks db) (tn, i) of
       Some r \<Rightarrow> (case dec_task C (tr_task_json r) of Inr t \<Rightarrow> Some (tk_history t) | Inl _ \<Rightarrow> None)
     | None \<Rightarrow> None)"

lemma status_blob_Inr:
  assumes "sound_status C now blob st evs" and "status_blob C now f i blob st evs = Inr (t', evs', json)"
  obtains t where "dec_task C blob = Inr t" and "dec_task C json = Inr t'" and "tk_history t' = tk_history t"
proof -
  have same: "task_try_from t = Inr t2 \<Longrightarrow> t2 = t" for t t2 by (simp add: task_try_from_iff)
  obtain t where t: "dec_task C blob = Inr t" "task_from_json C blob = Inr t"
    using assms(2) by (auto simp: status_blob_def task_from_json_def typed_def attempt_def serde_def dest: same split: sum.splits)
  from assms(2) t(2) have st: "stamp_status now (t\<lparr>tk_status := Some st\<rparr>) evs = (t', evs')" "enc_task C t' = Inr json"
    by (auto simp: status_blob_def typed_def attempt_def serde_def dest!: same split: sum.splits prod.splits)
  from st(1) have "tk_history t' = tk_history t"
    using stamp_status_frame(5) [of now "t\<lparr>tk_status := Some st\<rparr>" evs] by simp
  moreover have "dec_task C json = Inr t'" using assms(1) t(1) st by (simp add: sound_status_def sound_at_def)
  ultimately show thesis using that t(1) by blast
qed

theorem status_commit_restores_history:
  assumes "codec_sound C"
    and "run_program (transaction (pg_status_tx C c b now tn i ow st evs)) g db = (Inr x, db')"
  shows "stored_history C tn i db' = stored_history C tn i (passed g 1 db)"
proof -
  obtain t' manifest seqs where x: "x = (t', manifest, seqs)" by (cases x) auto
  obtain r0 evs' json r where r0: "owned_row tn i ow (passed g 1 db) = Some r0"
    and blob: "status_blob C now (\<lambda>st. SE_TerminalStateAlreadySet i (wire_name st)) i (tr_task_json r0) st evs = Inr (t', evs', json)"
    and r: "hm_get (sq_tasks db') (tn, i) = Some r" "tr_task_json r = json"
    by (rule status_commit_race [OF assms(2) [unfolded x]])
  have "hm_get (sq_tasks (passed g 1 db)) (tn, i) = Some r0"
    using r0 by (auto simp: owned_row_def split: option.splits if_splits)
  moreover obtain t where "dec_task C (tr_task_json r0) = Inr t" "dec_task C json = Inr t'" "tk_history t' = tk_history t"
    by (rule status_blob_Inr [OF sound_everywhere(3) [OF assms(1)] blob])
  ultimately show ?thesis using r by (simp add: stored_history_def)
qed

section \<open>Claims\<close>

text \<open>Sessions that take turns provide the claim contract: the rows are those of SQLite.\<close>

lemma alone_rows:
  assumes "seen_alone m db = (r, d)"
  shows "fst (alone m db) = r" and "delivery_of (snd (alone m db)) k = delivery_of d k"
  using assms delivery_of_seconds [of "snd (alone m db)" k]
  by (auto simp: seen_alone_def apsnd_def map_prod_def split: prod.splits)

lemma claim_programs_inside:
  "\<exists>m. inside m \<and> pg_claim_delivery now key w ow x = transaction m"
  "\<exists>m. inside m \<and> pg_record_attempt_started now key w g = transaction m"
  "\<exists>m. inside m \<and> pg_record_delivery_outcome now key w g oc = transaction m"
  unfolding pg_claim_delivery_def pg_record_attempt_started_def pg_record_delivery_outcome_def Let_def
  by (rule exI, rule conjI, rule_tac [2] refl, auto split: option.splits intro!: inside_rules)+

lemma passed_nobody [simp]: "passed nobody n d = d"
  by (induction n) (simp_all add: nobody_def)

lemma alone_error:
  assumes "\<exists>m. inside m \<and> p = transaction m" and "alone p db = (Inl e, db')"
  shows "db' = db"
proof -
  from assms(1) obtain m where "inside m" "p = transaction m" by blast
  with assms(2) show ?thesis using failed_transaction [of m nobody db e db'] by (auto simp: alone_def)
qed

text \<open>An answer of a claim program, as the same answer of SQLite.\<close>

lemma as_sqlite:
  assumes "seen_alone m s = d" and "alone m s = (r, s')"
  shows "d = (r, in_seconds s')"
  using assms by (auto simp: seen_alone_def)

lemma attempt_too_many:
  assumes "delivery_of s key = Some r" and "\<not> dr_delivery_attempt_count r + 1 < 2 ^ 31"
  shows "\<exists>e. alone (pg_record_attempt_started now key w g) s = (Inl e, s)"
  using assms
  by (cases "dr_claimant r = w \<and> dr_generation r = g \<and> row_open r")
    (simp_all add: pg_record_attempt_started_def alone_def run_program_def transaction_def and_then_def perform_def
      lifted_def Let_def)

lemma attempt_as_sqlite:
  assumes "alone (pg_record_attempt_started now key w g) s = (Inr n, s')"
  shows "sqlite_record_attempt_started now key w g (in_seconds s) = (Inr n, in_seconds s')"
proof (rule as_sqlite [OF attempt_alone assms])
  fix r
  assume "delivery_of s key = Some r"
  with assms attempt_too_many [of s key r now w g] show "dr_delivery_attempt_count r + 1 < 2 ^ 31" by fastforce
qed

interpretation pgc: claim_store
  "delivery_of :: ('t, 'e, 'a, 'c) pg \<Rightarrow> push_delivery_key \<Rightarrow> delivery_row option" dr_claimant dr_generation
  dr_delivery_attempt_count row_final Suc
  "\<lambda>now k w ow x. alone (pg_claim_delivery now k w ow x)" "\<lambda>now k w g. alone (pg_record_attempt_started now k w g)"
  "\<lambda>now k w g oc. alone (pg_record_delivery_outcome now k w g oc)"
proof
  fix now k w ow x g oc and s s' :: "('t, 'e, 'a, 'c) pg" and c e n u
  note claim = as_sqlite [OF claim_alone] and outcome = as_sqlite [OF outcome_alone]
  show "alone (pg_claim_delivery now k w ow x) s = (Inl e, s') \<Longrightarrow> s' = s"
    by (rule alone_error [OF claim_programs_inside(1)])
  show "alone (pg_record_attempt_started now k w g) s = (Inl e, s') \<Longrightarrow> s' = s"
    by (rule alone_error [OF claim_programs_inside(2)])
  show "alone (pg_record_delivery_outcome now k w g oc) s = (Inl e, s') \<Longrightarrow> s' = s"
    by (rule alone_error [OF claim_programs_inside(3)])
  show "k' \<noteq> k \<Longrightarrow> delivery_of (snd (alone (pg_claim_delivery now k w ow x) s)) k' = delivery_of s k'" for k'
    using sql.claim_other [of k' k now w ow x "in_seconds s"]
      alone_rows(2) [OF claim_alone [THEN trans, OF prod.collapse [symmetric]], of now k w ow x s k']
    by (simp add: delivery_of_seconds)
  show "k' \<noteq> k \<Longrightarrow> delivery_of (snd (alone (pg_record_attempt_started now k w g) s)) k' = delivery_of s k'" for k'
  proof (cases "alone (pg_record_attempt_started now k w g) s")
    case (Pair res s1)
    assume "k' \<noteq> k"
    show ?thesis
    proof (cases res)
      case (Inl e)
      with Pair alone_error [OF claim_programs_inside(2)] show ?thesis by fastforce
    next
      case (Inr n)
      have "sqlite_record_attempt_started now k w g (in_seconds s) = (Inr n, in_seconds s1)"
        by (rule attempt_as_sqlite) (simp add: Pair Inr)
      with sql.attempt_other [OF \<open>k' \<noteq> k\<close>, of now w g "in_seconds s"] Pair show ?thesis
        by (simp add: delivery_of_seconds)
    qed
  qed
  show "k' \<noteq> k \<Longrightarrow> delivery_of (snd (alone (pg_record_delivery_outcome now k w g oc) s)) k' = delivery_of s k'" for k'
    using sql.outcome_other [of k' k now w g oc "in_seconds s"]
      alone_rows(2) [OF outcome_alone [THEN trans, OF prod.collapse [symmetric]], of now k w g oc s k']
    by (simp add: delivery_of_seconds)
  show "alone (pg_claim_delivery now k w ow x) s = (Inr c, s') \<Longrightarrow> delivery_of s k = None \<Longrightarrow>
      dc_generation c = 1 \<and> dc_delivery_attempt_count c = 0"
    using sql.claim_fresh [OF claim] by (simp add: delivery_of_seconds)
  show "alone (pg_claim_delivery now k w ow x) s = (Inr c, s') \<Longrightarrow> delivery_of s k = Some r \<Longrightarrow>
      \<not> row_final r \<and> dc_generation c = dr_generation r + 1 \<and>
      (\<forall>r'. delivery_of s' k = Some r' \<longrightarrow> dr_delivery_attempt_count r' = dr_delivery_attempt_count r)" for r
    using sql.claim_again [OF claim] by (simp add: delivery_of_seconds)
  show "alone (pg_claim_delivery now k w ow x) s = (Inr c, s') \<Longrightarrow> dc_claimant c = w \<and>
      (\<exists>r'. delivery_of s' k = Some r' \<and> dr_claimant r' = w \<and> dr_generation r' = dc_generation c \<and>
        (dr_delivery_attempt_count r' < 2 ^ 32 \<longrightarrow> dc_delivery_attempt_count c = dr_delivery_attempt_count r'))"
    using sql.claim_row [OF claim] by (simp add: delivery_of_seconds)
  show "alone (pg_record_attempt_started now k w g) s = (Inr n, s') \<Longrightarrow>
      \<exists>r r'. delivery_of s k = Some r \<and> dr_claimant r = w \<and> dr_generation r = g \<and> \<not> row_final r \<and>
        delivery_of s' k = Some r' \<and> dr_claimant r' = w \<and> dr_generation r' = g \<and>
        (dr_delivery_attempt_count r' < 2 ^ 32 \<longrightarrow> n = dr_delivery_attempt_count r') \<and>
        dr_delivery_attempt_count r' = Suc (dr_delivery_attempt_count r)"
    using sql.attempt_ok [OF attempt_as_sqlite] by (simp add: delivery_of_seconds)
  show "alone (pg_record_delivery_outcome now k w g oc) s = (Inr u, s') \<Longrightarrow>
      \<exists>r r'. delivery_of s k = Some r \<and> dr_claimant r = w \<and> dr_generation r = g \<and>
        delivery_of s' k = Some r' \<and> dr_claimant r' = w \<and> dr_generation r' = g \<and>
        dr_delivery_attempt_count r' = dr_delivery_attempt_count r \<and> (row_final r \<longrightarrow> s' = s)"
  proof -
    assume run: "alone (pg_record_delivery_outcome now k w g oc) s = (Inr u, s')"
    obtain r r' where r: "delivery_of s k = Some r" "dr_claimant r = w" "dr_generation r = g"
        "delivery_of s' k = Some r'" "dr_claimant r' = w" "dr_generation r' = g"
        "dr_delivery_attempt_count r' = dr_delivery_attempt_count r"
      using sql.outcome_ok [OF outcome [OF run]] by (auto simp: delivery_of_seconds)
    moreover have "s' = s" if "row_final r"
      using run r that
      by (auto simp: pg_record_delivery_outcome_def alone_def run_program_def transaction_def and_then_def query_def
          lifted_def done_with_def Let_def row_final_def pg_same_helpers split: sum.splits)
    ultimately show ?thesis by blast
  qed
qed simp_all

lemmas pg_claim_laws = pgc.final_frozen pgc.fenced_forever

section \<open>Values\<close>

text \<open>
  A working task, another session that cancels it, and one that adds a message, each between the
  read and the update of a status commit.
\<close>

definition example_pg :: "(pb_task, stream_event, pb_artifact, push_config) pg" where
  "example_pg = (postgres_new False (retention_new 60 60))\<lparr>sq_tasks := [((''t'', ''task''), example_sql_row)]\<rparr>"

definition raced_gaps :: "(pb_task, stream_event, pb_artifact, push_config) pg gaps" where
  "raced_gaps n db = (if n = 1 then put_row ''t'' ''task''
     (example_sql_row\<lparr>tr_task_json := example_task Canceled, tr_status_state := wire_name Canceled\<rparr>) db else db)"

lemma raced_row: "owned_row ''t'' ''task'' ''o'' (passed raced_gaps 2 example_pg) = Some r \<Longrightarrow> pg_terminal r"
  by (auto simp: numeral_2_eq_2 raced_gaps_def example_pg_def owned_row_def hm_simps pg_terminal_def
      TERMINAL_STATES_SQL_def TERMINAL_STATES_def split: option.splits if_splits)

lemma raced_commit_fails:
  "\<exists>e. fst (run_program (transaction (pg_status_tx plain_codec unary_chrono False 0 ''t'' ''task'' ''o''
     (example_status Completed) [])) raced_gaps example_pg) = Inl e" (is "\<exists>e. fst ?run = Inl e")
proof (rule ccontr)
  assume "\<nexists>e. fst ?run = Inl e"
  then obtain x where "fst ?run = Inr x" by (cases "fst ?run") auto
  then have "?run = (Inr x, snd ?run)" by (simp add: prod_eq_iff)
  from status_commit_is_fenced [OF this] obtain r where "owned_row ''t'' ''task'' ''o'' (passed raced_gaps 2 example_pg) = Some r"
      "\<not> pg_terminal r"
    by (cases x) (simp only: sum.case prod.case, blast)
  then show False by (blast dest: raced_row)
qed

end
