(* ===== verification/Dynamo_Store.thy ===== *)
theory Dynamo_Store
  imports Postgres_Store
begin

text \<open>
  \<open>DynamoDbA2aStorage\<close> (\<open>storage/dynamodb.rs\<close>): the tables, tasks, events and atomic commits. A
  request of the service is one atomic step of a session (\<open>Pg_Session\<close>), and other sessions, and
  the reaping of expired items, may come between any two. An item is a record of its
  attributes; an \<open>aws\<close> holds what the service decides: what an eventually consistent read sees,
  which attempts meet a conflicting transaction, how many items the first page of a query holds.
\<close>

section \<open>Items and tables\<close>

record dynamo_config =
  cf_task_ttl_seconds :: nat
  cf_event_ttl_seconds :: nat
  cf_push_delivery_ttl_seconds :: nat
  cf_push_dispatch_enabled :: bool

definition dynamo_config_default :: dynamo_config where
  "dynamo_config_default = \<lparr>cf_task_ttl_seconds = 24 * 3600, cf_event_ttl_seconds = 24 * 3600,
     cf_push_delivery_ttl_seconds = 7 * 24 * 3600, cf_push_dispatch_enabled = False\<rparr>"

record 't task_item =
  ti_tenant :: string
  ti_task_id :: string
  ti_owner :: string
  ti_context_id :: string
  ti_status_state :: string
  ti_task_json :: 't
  ti_artifact_manifest :: "manifest_entry list"
  ti_updated_at :: string
  ti_latest_event_sequence :: "nat option"
  ti_cancel_requested :: bool
  ti_ttl :: "nat option"

text \<open>The tasks table also holds executor leases, the events table counters and artifacts.\<close>

datatype 't tasks_entry = TaskItem "'t task_item" | LeaseItem string string int

datatype ('e, 'a) events_entry =
    EventItem nat 'e "nat option"
  | CounterItem nat "nat option"
  | ArtifactItem string 'a string "nat option"

record 'c config_item =
  ci_tenant :: string
  ci_task_id :: string
  ci_config_id :: string
  ci_config_json :: 'c
  ci_registered_after :: nat
  ci_ttl :: "nat option"

record delivery_item =
  di_tenant :: string
  di_task_id :: string
  di_event_sequence :: nat
  di_config_id :: string
  di_row :: delivery_row
  di_ttl :: "nat option"

record marker_item =
  mi_tenant :: string
  mi_task_id :: string
  mi_event_sequence :: nat
  mi_owner :: string
  mi_recorded_at :: int
  mi_ttl :: "nat option"

record ('t, 'e, 'a, 'c) dynamo =
  dy_tasks :: "(string, 't tasks_entry) hashmap"
  dy_events :: "(string \<times> string, ('e, 'a) events_entry) hashmap"
  dy_configs :: "(string, 'c config_item) hashmap"
  dy_deliveries :: "(string \<times> string, delivery_item) hashmap"
  dy_pending :: "(string \<times> string, marker_item) hashmap"

definition dynamo_new :: "('t, 'e, 'a, 'c) dynamo" where
  "dynamo_new = \<lparr>dy_tasks = [], dy_events = [], dy_configs = [], dy_deliveries = [], dy_pending = []\<rparr>"

record 'db aws =
  aws_lag :: "'db \<Rightarrow> 'db"
  aws_conflicts :: "nat \<Rightarrow> nat \<Rightarrow> bool"
  aws_first_page :: nat
  aws_unprocessed :: "string \<Rightarrow> bool"

section \<open>Keys\<close>

definition dynamo_task_key :: "string \<Rightarrow> string \<Rightarrow> string" where
  "dynamo_task_key tenant task_id = tenant @ ''#'' @ task_id"

definition replace_char :: "char \<Rightarrow> string \<Rightarrow> string \<Rightarrow> string" where
  "replace_char c r s = concat (map (\<lambda>x. if x = c then r else [x]) s)"

definition enc_key_component :: "string \<Rightarrow> string" where
  "enc_key_component s = replace_char (CHR ''#'') ''%23''
     (replace_char (CHR ''|'') ''%7C'' (replace_char (CHR ''%'') ''%25'' s))"

definition artifact_pk :: "string \<Rightarrow> string \<Rightarrow> string" where
  "artifact_pk tenant task_id = ''art|'' @ enc_key_component tenant @ ''|'' @ enc_key_component task_id"

definition lease_pk :: "string \<Rightarrow> string \<Rightarrow> string" where
  "lease_pk tenant task_id = ''lease|'' @ enc_key_component tenant @ ''|'' @ enc_key_component task_id"

definition event_sort_key :: "nat \<Rightarrow> string" where
  "event_sort_key sq = pad_zero 20 (show_nat sq)"

definition sequence_counter_sk :: string where "sequence_counter_sk = event_sort_key 0"

definition config_pk :: "string \<Rightarrow> string \<Rightarrow> string \<Rightarrow> string" where
  "config_pk tenant task_id config_id = tenant @ ''#'' @ task_id @ ''#'' @ config_id"

section \<open>Expiry\<close>

definition ttl_epoch :: "nat \<Rightarrow> instant \<Rightarrow> nat option" where
  "ttl_epoch ttl_seconds now = (if ttl_seconds = 0 then None else Some (now div nanos_per_sec + ttl_seconds))"

definition task_ttl :: "dynamo_config \<Rightarrow> instant \<Rightarrow> string \<Rightarrow> nat option" where
  "task_ttl cf now state_str = (if list_ex (\<lambda>s. wire_name s = state_str) TERMINAL_STATES
     then ttl_epoch (cf_task_ttl_seconds cf) now else None)"

definition sequence_counter_ttl_seconds :: "nat \<Rightarrow> nat \<Rightarrow> nat option" where
  "sequence_counter_ttl_seconds event_ttl_seconds task_ttl_seconds =
     (if event_ttl_seconds = 0 \<or> task_ttl_seconds = 0 then None
      else Some (max event_ttl_seconds task_ttl_seconds))"

section \<open>Write requests\<close>

datatype item_key = TasksKey string | EventsKey string string | ConfigsKey string
  | DeliveriesKey string string | PendingKey string string

record ('t, 'e, 'a, 'c) write_item =
  wi_key :: item_key
  wi_condition :: "('t, 'e, 'a, 'c) dynamo \<Rightarrow> bool"
  wi_write :: "('t, 'e, 'a, 'c) dynamo \<Rightarrow> ('t, 'e, 'a, 'c) dynamo"

text \<open>A single conditional write answers whether its condition held.\<close>

definition send_write :: "('t, 'e, 'a, 'c) write_item \<Rightarrow> (('t, 'e, 'a, 'c) dynamo, bool) program" where
  "send_write w = autocommit (\<lambda>db. Inr (if wi_condition w db then (True, wi_write w) else (False, \<lambda>db. db)))"

text \<open>
  \<open>TransactWriteItems\<close>: all items or none. A request that names an item twice, or more than a
  hundred items, is invalid; a failed one gives a cancellation reason per item.
\<close>

datatype transact_result = TxWritten | TxCanceled "string option list" | TxInvalid

definition CONDITION_FAILED :: string where "CONDITION_FAILED = ''ConditionalCheckFailed''"
definition CONFLICT :: string where "CONFLICT = ''TransactionConflict''"

definition transact_reasons ::
  "(nat \<Rightarrow> bool) \<Rightarrow> ('t, 'e, 'a, 'c) write_item list \<Rightarrow> ('t, 'e, 'a, 'c) dynamo \<Rightarrow> string option list" where
  "transact_reasons conflict ws db = map (\<lambda>(i, w). if conflict i then Some CONFLICT
     else if wi_condition w db then None else Some CONDITION_FAILED) (enumerate 0 ws)"

definition send_transaction ::
  "(nat \<Rightarrow> bool) \<Rightarrow> ('t, 'e, 'a, 'c) write_item list \<Rightarrow> (('t, 'e, 'a, 'c) dynamo, transact_result) program" where
  "send_transaction conflict ws = autocommit (\<lambda>db. Inr (
     if \<not> distinct (map wi_key ws) \<or> length ws > 100 then (TxInvalid, \<lambda>db. db)
     else let reasons = transact_reasons conflict ws db
       in if list_all (\<lambda>r. r = None) reasons then (TxWritten, \<lambda>db. fold wi_write ws db)
          else (TxCanceled reasons, \<lambda>db. db)))"

definition TRANSACTION_CANCELED :: storage_error where
  "TRANSACTION_CANCELED = SE_DatabaseError ''TransactionCanceledException''"
definition VALIDATION_ERROR :: storage_error where
  "VALIDATION_ERROR = SE_DatabaseError ''ValidationException''"
definition CONDITIONAL_CHECK_FAILED :: storage_error where
  "CONDITIONAL_CHECK_FAILED = SE_DatabaseError ''ConditionalCheckFailedException''"

text \<open>\<open>if let Ok(..) = ..\<close>: the result of a call as a value.\<close>

definition caught :: "('db, 'a) program \<Rightarrow> ('db, storage_error + 'a) program" where
  "caught m s = (case m s of (r, s') \<Rightarrow> (Inr r, s'))"

section \<open>Items written\<close>

definition no_condition :: "'db \<Rightarrow> bool" where "no_condition db = True"

definition put_task_entry :: "string \<Rightarrow> 't tasks_entry \<Rightarrow> ('t, 'e, 'a, 'c) dynamo \<Rightarrow> ('t, 'e, 'a, 'c) dynamo" where
  "put_task_entry pk x db = db\<lparr>dy_tasks := hm_insert pk x (dy_tasks db)\<rparr>"

definition put_events_entry ::
  "string \<Rightarrow> string \<Rightarrow> ('e, 'a) events_entry \<Rightarrow> ('t, 'e, 'a, 'c) dynamo \<Rightarrow> ('t, 'e, 'a, 'c) dynamo" where
  "put_events_entry pk sk x db = db\<lparr>dy_events := hm_insert (pk, sk) x (dy_events db)\<rparr>"

text \<open>The task item of a key; a lease item has neither an owner nor a status.\<close>

definition task_at :: "('t, 'e, 'a, 'c) dynamo \<Rightarrow> string \<Rightarrow> 't task_item option" where
  "task_at db pk = (case hm_get (dy_tasks db) pk of Some (TaskItem x) \<Rightarrow> Some x | _ \<Rightarrow> None)"

definition build_task_item ::
  "instant \<Rightarrow> string \<Rightarrow> string \<Rightarrow> string \<Rightarrow> string \<Rightarrow> string \<Rightarrow> 't \<Rightarrow> manifest_entry list \<Rightarrow> nat option \<Rightarrow>
   nat option \<Rightarrow> 't task_item" where
  "build_task_item now tenant task_id owner context_id state_str task_json manifest latest_event_sequence ttl =
     \<lparr>ti_tenant = tenant, ti_task_id = task_id, ti_owner = owner, ti_context_id = context_id,
      ti_status_state = state_str, ti_task_json = task_json, ti_artifact_manifest = manifest,
      ti_updated_at = now_iso now, ti_latest_event_sequence = latest_event_sequence,
      ti_cancel_requested = False, ti_ttl = ttl\<rparr>"

definition task_put ::
  "string \<Rightarrow> 't task_item \<Rightarrow> (('t, 'e, 'a, 'c) dynamo \<Rightarrow> bool) \<Rightarrow> ('t, 'e, 'a, 'c) write_item" where
  "task_put pk item cond = \<lparr>wi_key = TasksKey pk, wi_condition = cond, wi_write = put_task_entry pk (TaskItem item)\<rparr>"

definition terminal_item :: "'t task_item \<Rightarrow> bool" where
  "terminal_item x \<longleftrightarrow> list_ex (\<lambda>s. wire_name s = ti_status_state x) TERMINAL_STATES"

text \<open>\<open>attribute_exists(pk) AND owner = :owner\<close>, and the same with \<open>TERMINAL_STATE_CONDITION\<close>.\<close>

definition owner_condition :: "string \<Rightarrow> string \<Rightarrow> ('t, 'e, 'a, 'c) dynamo \<Rightarrow> bool" where
  "owner_condition pk owner db = (case task_at db pk of Some x \<Rightarrow> ti_owner x = owner | None \<Rightarrow> False)"

definition live_condition :: "string \<Rightarrow> string \<Rightarrow> ('t, 'e, 'a, 'c) dynamo \<Rightarrow> bool" where
  "live_condition pk owner db = (case task_at db pk of
     Some x \<Rightarrow> ti_owner x = owner \<and> \<not> terminal_item x | None \<Rightarrow> False)"

text \<open>The artifact puts and deletes of a reconcile plan.\<close>

fun artifact_puts ::
  "('t, 'e, 'a, 'c) codec \<Rightarrow> string \<Rightarrow> nat option \<Rightarrow> (pb_artifact \<times> string) list \<Rightarrow>
   storage_error + ('t, 'e, 'a, 'c) write_item list" where
  "artifact_puts C art_pk ttl [] = Inr []"
| "artifact_puts C art_pk ttl ((a, fingerprint) # ws) =
     attempt (serde (enc_artifact C a)) (\<lambda>body.
     attempt (artifact_puts C art_pk ttl ws) (\<lambda>items.
       Inr (\<lparr>wi_key = EventsKey art_pk (art_artifact_id a), wi_condition = no_condition,
         wi_write = put_events_entry art_pk (art_artifact_id a)
           (ArtifactItem (art_artifact_id a) body fingerprint ttl)\<rparr> # items)))"

definition artifact_delete :: "string \<Rightarrow> string \<Rightarrow> ('t, 'e, 'a, 'c) write_item" where
  "artifact_delete art_pk artifact_id = \<lparr>wi_key = EventsKey art_pk artifact_id, wi_condition = no_condition,
     wi_write = (\<lambda>db. db\<lparr>dy_events := hm_remove (art_pk, artifact_id) (dy_events db)\<rparr>)\<rparr>"

definition artifact_transact_items ::
  "('t, 'e, 'a, 'c) codec \<Rightarrow> string \<Rightarrow> reconcile_plan \<Rightarrow> nat option \<Rightarrow>
   storage_error + ('t, 'e, 'a, 'c) write_item list" where
  "artifact_transact_items C art_pk plan ttl =
     attempt (artifact_puts C art_pk ttl (rp_writes plan)) (\<lambda>puts.
       Inr (puts @ map (artifact_delete art_pk) (rp_deletes plan)))"

definition check_artifact_transaction_cap :: "nat \<Rightarrow> nat \<Rightarrow> storage_error + unit" where
  "check_artifact_transaction_cap artifact_item_count other_items =
     (if artifact_item_count + other_items > 100
      then Inl (SE_DatabaseError (''artifact write exceeds DynamoDB transaction cap: '' @
        show_nat artifact_item_count @ '' artifact items + '' @ show_nat other_items @ '' other items > 100''))
      else Inr ())"

definition or_zero :: "nat option \<Rightarrow> nat" where
  "or_zero n = (case n of Some m \<Rightarrow> m | None \<Rightarrow> 0)"

section \<open>Event sequences\<close>

definition counter_at :: "('t, 'e, 'a, 'c) dynamo \<Rightarrow> string \<Rightarrow> nat" where
  "counter_at db pk = (case hm_get (dy_events db) (pk, sequence_counter_sk) of
     Some (CounterItem n _) \<Rightarrow> n | _ \<Rightarrow> 0)"

definition read_sequence_counter :: "string \<Rightarrow> (('t, 'e, 'a, 'c) dynamo, nat) program" where
  "read_sequence_counter pk = query (\<lambda>db. counter_at db pk)"

text \<open>
  \<open>ADD nextSequence :count\<close>, conditioned on the observed value (absent when it is 0), with the
  item's new \<open>ttl\<close> if there is one.
\<close>

definition build_sequence_counter_update ::
  "string \<Rightarrow> nat \<Rightarrow> nat \<Rightarrow> nat option \<Rightarrow> ('t, 'e, 'a, 'c) write_item" where
  "build_sequence_counter_update pk observed added ttl =
     \<lparr>wi_key = EventsKey pk sequence_counter_sk,
      wi_condition = (\<lambda>db. case hm_get (dy_events db) (pk, sequence_counter_sk) of
        Some (CounterItem n _) \<Rightarrow> observed \<noteq> 0 \<and> n = observed | _ \<Rightarrow> observed = 0),
      wi_write = (\<lambda>db. case hm_get (dy_events db) (pk, sequence_counter_sk) of
        Some (CounterItem n old_ttl) \<Rightarrow> put_events_entry pk sequence_counter_sk
          (CounterItem (n + added) (if ttl = None then old_ttl else ttl)) db
      | _ \<Rightarrow> put_events_entry pk sequence_counter_sk (CounterItem added ttl) db)\<rparr>"

record ('t, 'e, 'a, 'c) allocation =
  al_observed :: nat
  al_sequences :: "nat list"
  al_counter_write :: "('t, 'e, 'a, 'c) write_item option"

definition sequences_after :: "nat \<Rightarrow> nat \<Rightarrow> nat list" where
  "sequences_after observed added = map (\<lambda>i. observed + i) [1..<added + 1]"

definition al_latest :: "('t, 'e, 'a, 'c) allocation \<Rightarrow> nat" where
  "al_latest al = (if al_sequences al = [] then al_observed al else last (al_sequences al))"

definition allocate_event_sequences ::
  "dynamo_config \<Rightarrow> instant \<Rightarrow> string \<Rightarrow> nat \<Rightarrow>
   (('t, 'e, 'a, 'c) dynamo, ('t, 'e, 'a, 'c) allocation) program" where
  "allocate_event_sequences cf now pk added = and_then (read_sequence_counter pk) (\<lambda>observed.
     done_with \<lparr>al_observed = observed, al_sequences = sequences_after observed added,
       al_counter_write = (if added = 0 then None
         else Some (build_sequence_counter_update pk observed added (Option.bind
           (sequence_counter_ttl_seconds (cf_event_ttl_seconds cf) (cf_task_ttl_seconds cf))
           (\<lambda>ttl. ttl_epoch ttl now))))\<rparr>)"

text \<open>An event put is refused when its key is taken.\<close>

definition event_put :: "string \<Rightarrow> nat \<Rightarrow> 'e \<Rightarrow> nat option \<Rightarrow> ('t, 'e, 'a, 'c) write_item" where
  "event_put pk sq data ttl = \<lparr>wi_key = EventsKey pk (event_sort_key sq),
     wi_condition = (\<lambda>db. hm_get (dy_events db) (pk, event_sort_key sq) = None),
     wi_write = put_events_entry pk (event_sort_key sq) (EventItem sq data ttl)\<rparr>"

fun event_puts ::
  "('t, 'e, 'a, 'c) codec \<Rightarrow> string \<Rightarrow> nat option \<Rightarrow> (nat \<times> stream_event) list \<Rightarrow>
   storage_error + ('t, 'e, 'a, 'c) write_item list" where
  "event_puts C pk ttl [] = Inr []"
| "event_puts C pk ttl ((sq, ev) # xs) =
     attempt (serde (enc_event C ev)) (\<lambda>data.
     attempt (event_puts C pk ttl xs) (\<lambda>items. Inr (event_put pk sq data ttl # items)))"

definition event_transact_items ::
  "('t, 'e, 'a, 'c) codec \<Rightarrow> dynamo_config \<Rightarrow> instant \<Rightarrow> string \<Rightarrow> nat list \<Rightarrow> stream_event list \<Rightarrow>
   storage_error + ('t, 'e, 'a, 'c) write_item list" where
  "event_transact_items C cf now pk seqs evs =
     event_puts C pk (ttl_epoch (cf_event_ttl_seconds cf) now) (zip seqs evs)"

text \<open>
  \<open>attach\<close> appends the event puts and the counter write; the positions are the range of the
  events and the counter, \<open>None\<close> when no events commit.
\<close>

definition attach ::
  "('t, 'e, 'a, 'c) allocation \<Rightarrow> ('t, 'e, 'a, 'c) write_item list \<Rightarrow> ('t, 'e, 'a, 'c) write_item list \<Rightarrow>
   ('t, 'e, 'a, 'c) write_item list \<times> (nat \<times> nat \<times> nat) option" where
  "attach al items event_items = (case al_counter_write al of
     None \<Rightarrow> (items @ event_items, None)
   | Some w \<Rightarrow> (items @ event_items @ [w],
       Some (length items, length items + length event_items, length items + length event_items)))"

definition lost_sequence_race :: "string option list \<Rightarrow> (nat \<times> nat \<times> nat) option \<Rightarrow> bool" where
  "lost_sequence_race reasons sequence_items = (case sequence_items of
     None \<Rightarrow> False
   | Some (events_start, events_end, counter) \<Rightarrow>
       (let code = (\<lambda>i. if i < length reasons then reasons ! i else None);
            final_condition_failed = list_ex (\<lambda>i. i \<noteq> counter \<and> \<not> (events_start \<le> i \<and> i < events_end) \<and>
              code i = Some CONDITION_FAILED) [0..<length reasons];
            raced = (code counter = Some CONDITION_FAILED \<or> list_ex (\<lambda>r. r = Some CONFLICT) reasons)
        in raced \<and> \<not> final_condition_failed))"

text \<open>
  The retry of a lost race: \<open>body\<close> answers with what it carries into the next attempt or with its
  result. The 32nd lost attempt ends in an error, so 32 attempts are all there can be.
\<close>

definition SEQUENCE_ATTEMPTS :: nat where "SEQUENCE_ATTEMPTS = 32"

definition race_backoff :: "nat \<Rightarrow> string \<Rightarrow> storage_error + unit" where
  "race_backoff k pk = (if k + 1 \<ge> SEQUENCE_ATTEMPTS
     then Inl (SE_ConcurrentModification (''event sequence allocation for '' @ pk @ '' lost '' @
       show_nat (k + 1) @ '' consecutive races''))
     else Inr ())"

fun race_loop ::
  "nat \<Rightarrow> nat \<Rightarrow> string \<Rightarrow> (nat \<Rightarrow> 'x \<Rightarrow> ('db, 'x + 'a) program) \<Rightarrow> 'x \<Rightarrow> ('db, 'a) program" where
  "race_loop 0 k pk body x = lifted (Inl (SE_ConcurrentModification pk))"
| "race_loop (Suc left) k pk body x = and_then (body k x) (\<lambda>r. case r of
     Inr y \<Rightarrow> done_with y
   | Inl x' \<Rightarrow> and_then (lifted (race_backoff k pk)) (\<lambda>_. race_loop left (k + 1) pk body x'))"

definition with_retry :: "string \<Rightarrow> (nat \<Rightarrow> 'x \<Rightarrow> ('db, 'x + 'a) program) \<Rightarrow> 'x \<Rightarrow> ('db, 'a) program" where
  "with_retry pk body x = race_loop SEQUENCE_ATTEMPTS 0 pk body x"

end
