(* ===== verification/Dynamo_Tasks.thy ===== *)
theory Dynamo_Tasks
  imports Dynamo_Store
begin

text \<open>
  The task, event and commit operations of \<open>DynamoDbA2aStorage\<close> as programs of requests. A scan
  or query that follows its pages is one read; one that takes a single page sees the items the
  page holds.
\<close>

type_synonym ('t, 'e, 'a, 'c) service = "('t, 'e, 'a, 'c) dynamo aws"

section \<open>Artifacts and child items\<close>

definition artifact_items :: "('t, 'e, 'a, 'c) dynamo \<Rightarrow> string \<Rightarrow> (string \<times> 'a) list" where
  "artifact_items db art_pk = List.map_filter (\<lambda>((pk, _), x). case x of
     ArtifactItem i body _ _ \<Rightarrow> if pk = art_pk then Some (i, body) else None | _ \<Rightarrow> None) (dy_events db)"

definition query_artifacts ::
  "('t, 'e, 'a, 'c) codec \<Rightarrow> ('t, 'e, 'a, 'c) service \<Rightarrow> string \<Rightarrow> string \<Rightarrow>
   (('t, 'e, 'a, 'c) dynamo, (string, pb_artifact) hashmap) program" where
  "query_artifacts C E tenant task_id =
     and_then (query (\<lambda>db. artifact_items (aws_lag E db) (artifact_pk tenant task_id))) (\<lambda>rows.
       lifted (decode_bodies C rows []))"

definition dynamo_rehydrate_task ::
  "('t, 'e, 'a, 'c) codec \<Rightarrow> ('t, 'e, 'a, 'c) service \<Rightarrow> string \<Rightarrow> string \<Rightarrow> 't \<Rightarrow> manifest_entry list \<Rightarrow>
   (('t, 'e, 'a, 'c) dynamo, pb_task) program" where
  "dynamo_rehydrate_task C E tenant task_id blob manifest =
     and_then (lifted (serde (dec_task C blob))) (\<lambda>proto.
     and_then (if manifest = [] then done_with proto
        else and_then (query_artifacts C E tenant task_id) (\<lambda>bodies.
          done_with (proto\<lparr>tk_artifacts := rehydrate_in_manifest_order manifest bodies\<rparr>))) (\<lambda>proto.
       lifted (typed (task_try_from proto))))"

text \<open>
  \<open>stamp_child_ttl\<close>: the artifact and config items of a task that became terminal get its
  \<open>ttl\<close>, one conditional update each.
\<close>

definition child_keys ::
  "('t, 'e, 'a, 'c) dynamo \<Rightarrow> string \<Rightarrow> (string \<times> string) list" where
  "child_keys db art_pk = filter (\<lambda>(pk, _). pk = art_pk) (map fst (dy_events db))"

definition matching_configs :: "('t, 'e, 'a, 'c) dynamo \<Rightarrow> string \<Rightarrow> string \<Rightarrow> (string \<times> 'c config_item) list" where
  "matching_configs db tenant task_id =
     filter (\<lambda>(_, x). ci_tenant x = tenant \<and> ci_task_id x = task_id) (dy_configs db)"

fun with_ttl :: "nat \<Rightarrow> ('e, 'a) events_entry \<Rightarrow> ('e, 'a) events_entry" where
  "with_ttl ttl (EventItem sq data old) = EventItem sq data (Some ttl)"
| "with_ttl ttl (CounterItem n old) = CounterItem n (Some ttl)"
| "with_ttl ttl (ArtifactItem i body fingerprint old) = ArtifactItem i body fingerprint (Some ttl)"

definition stamp_events_ttl :: "nat \<Rightarrow> string \<times> string \<Rightarrow> ('t, 'e, 'a, 'c) write_item" where
  "stamp_events_ttl ttl k = (case k of (pk, sk) \<Rightarrow> \<lparr>wi_key = EventsKey pk sk,
     wi_condition = (\<lambda>db. hm_get (dy_events db) (pk, sk) \<noteq> None),
     wi_write = (\<lambda>db. case hm_get (dy_events db) (pk, sk) of
       Some x \<Rightarrow> put_events_entry pk sk (with_ttl ttl x) db | None \<Rightarrow> db)\<rparr>)"

definition stamp_config_ttl :: "nat \<Rightarrow> string \<Rightarrow> ('t, 'e, 'a, 'c) write_item" where
  "stamp_config_ttl ttl pk = \<lparr>wi_key = ConfigsKey pk,
     wi_condition = (\<lambda>db. hm_get (dy_configs db) pk \<noteq> None),
     wi_write = (\<lambda>db. case hm_get (dy_configs db) pk of
       Some x \<Rightarrow> db\<lparr>dy_configs := hm_insert pk (x\<lparr>ci_ttl := Some ttl\<rparr>) (dy_configs db)\<rparr> | None \<Rightarrow> db)\<rparr>"

fun send_all :: "('t, 'e, 'a, 'c) write_item list \<Rightarrow> (('t, 'e, 'a, 'c) dynamo, unit) program" where
  "send_all [] = done_with ()"
| "send_all (w # ws) = and_then (send_write w) (\<lambda>_. send_all ws)"

definition stamp_child_ttl ::
  "('t, 'e, 'a, 'c) service \<Rightarrow> string \<Rightarrow> string \<Rightarrow> nat option \<Rightarrow> (('t, 'e, 'a, 'c) dynamo, unit) program" where
  "stamp_child_ttl E tenant task_id ttl = (case ttl of
     None \<Rightarrow> done_with ()
   | Some ttl \<Rightarrow>
       and_then (query (\<lambda>db. child_keys (aws_lag E db) (artifact_pk tenant task_id))) (\<lambda>artifacts.
       and_then (query (\<lambda>db. map fst (matching_configs (aws_lag E db) tenant task_id))) (\<lambda>configs.
         send_all (map (stamp_events_ttl ttl) artifacts @ map (stamp_config_ttl ttl) configs))))"

section \<open>\<open>A2aTaskStorage\<close>\<close>

definition dynamo_create_task ::
  "('t, 'e, 'a, 'c) codec \<Rightarrow> ('t, 'e, 'a, 'c) service \<Rightarrow> dynamo_config \<Rightarrow> instant \<Rightarrow> string \<Rightarrow> string \<Rightarrow> pb_task \<Rightarrow>
   (('t, 'e, 'a, 'c) dynamo, pb_task) program" where
  "dynamo_create_task C E cf now tenant owner task =
     (let t = fst (stamp_status now task []); pk = dynamo_task_key tenant (tk_id t);
          state_str = status_state_str t; ttl = task_ttl cf now state_str
      in and_then (lifted (split_task C t)) (\<lambda>(blob, artifacts).
         and_then (lifted (reconcile C artifacts [])) (\<lambda>plan.
         (let put = task_put pk (build_task_item now tenant (tk_id t) owner (tk_context_id t) state_str blob
                (rp_manifest plan) None ttl) no_condition
          in if rp_writes plan = [] then and_then (send_write put) (\<lambda>_. done_with t)
             else and_then (lifted (artifact_transact_items C (artifact_pk tenant (tk_id t)) plan ttl)) (\<lambda>items.
               and_then (lifted (check_artifact_transaction_cap (length items) 1)) (\<lambda>_.
               and_then (send_transaction (aws_conflicts E 0) (put # items)) (\<lambda>r. case r of
                   TxWritten \<Rightarrow> done_with t
                 | TxCanceled _ \<Rightarrow> lifted (Inl TRANSACTION_CANCELED)
                 | TxInvalid \<Rightarrow> lifted (Inl VALIDATION_ERROR))))))))"

text \<open>A lease item under the key has no owner, which reads as the empty one, and no task.\<close>

definition dynamo_get_task ::
  "('t, 'e, 'a, 'c) codec \<Rightarrow> ('t, 'e, 'a, 'c) service \<Rightarrow> string \<Rightarrow> string \<Rightarrow> string \<Rightarrow> int option \<Rightarrow>
   (('t, 'e, 'a, 'c) dynamo, pb_task option) program" where
  "dynamo_get_task C E tenant task_id owner history_length =
     and_then (query (\<lambda>db. hm_get (dy_tasks db) (dynamo_task_key tenant task_id))) (\<lambda>item. case item of
         None \<Rightarrow> done_with None
       | Some (LeaseItem _ _ _) \<Rightarrow>
           if owner \<noteq> '''' then done_with None else lifted (Inl (SE_DatabaseError ''Missing task_json''))
       | Some (TaskItem x) \<Rightarrow>
           if ti_owner x \<noteq> owner then done_with None
           else and_then (dynamo_rehydrate_task C E tenant task_id (ti_task_json x) (ti_artifact_manifest x)) (\<lambda>t.
             done_with (Some (trim_history t history_length))))"

definition fetch_stored_manifest ::
  "string \<Rightarrow> string \<Rightarrow> (('t, 'e, 'a, 'c) dynamo, manifest_entry list \<times> bool) program" where
  "fetch_stored_manifest tenant task_id =
     and_then (query (\<lambda>db. hm_get (dy_tasks db) (dynamo_task_key tenant task_id))) (\<lambda>item. lifted (case item of
         Some (TaskItem x) \<Rightarrow> Inr (ti_artifact_manifest x, terminal_item x)
       | Some (LeaseItem _ _ _) \<Rightarrow> Inl (SE_DatabaseError ''Missing artifact_manifest'')
       | None \<Rightarrow> Inr ([], False)))"

definition dynamo_update_task ::
  "('t, 'e, 'a, 'c) codec \<Rightarrow> ('t, 'e, 'a, 'c) service \<Rightarrow> dynamo_config \<Rightarrow> instant \<Rightarrow> string \<Rightarrow> string \<Rightarrow> pb_task \<Rightarrow>
   (('t, 'e, 'a, 'c) dynamo, unit) program" where
  "dynamo_update_task C E cf now tenant owner task =
     (let t = fst (stamp_status now task []); pk = dynamo_task_key tenant (tk_id t);
          state_str = status_state_str t; ttl = task_ttl cf now state_str
      in and_then (lifted (split_task C t)) (\<lambda>(blob, artifacts).
         and_then (fetch_stored_manifest tenant (tk_id t)) (\<lambda>(stored, was_terminal).
         and_then (lifted (reconcile C artifacts stored)) (\<lambda>plan.
         and_then (lifted (artifact_transact_items C (artifact_pk tenant (tk_id t)) plan ttl)) (\<lambda>items.
         (let put = task_put pk (build_task_item now tenant (tk_id t) owner (tk_context_id t) state_str blob
                (rp_manifest plan) None ttl) (owner_condition pk owner)
          in and_then
               (if items = []
                then and_then (send_write put) (\<lambda>ok. done_with (if ok then Inr () else Inl CONDITIONAL_CHECK_FAILED))
                else and_then (lifted (check_artifact_transaction_cap (length items) 1)) (\<lambda>_.
                  and_then (send_transaction (aws_conflicts E 0) (put # items)) (\<lambda>r. done_with (case r of
                      TxWritten \<Rightarrow> Inr ()
                    | TxCanceled reasons \<Rightarrow> Inl (if Some CONDITION_FAILED \<in> set reasons
                        then CONDITIONAL_CHECK_FAILED else TRANSACTION_CANCELED)
                    | TxInvalid \<Rightarrow> Inl VALIDATION_ERROR)))) (\<lambda>result. case result of
             Inr () \<Rightarrow> if was_terminal then done_with () else stamp_child_ttl E tenant (tk_id t) ttl
           | Inl e \<Rightarrow> lifted (Inl (if e = CONDITIONAL_CHECK_FAILED then SE_OwnerMismatch (tk_id t) else e)))))))))"

definition delete_artifact_partition ::
  "('t, 'e, 'a, 'c) service \<Rightarrow> string \<Rightarrow> string \<Rightarrow> (('t, 'e, 'a, 'c) dynamo, unit) program" where
  "delete_artifact_partition E tenant task_id =
     and_then (query (\<lambda>db. child_keys (aws_lag E db) (artifact_pk tenant task_id))) (\<lambda>keys.
       send_all (map (\<lambda>(pk, sk). artifact_delete pk sk) keys))"

definition task_delete :: "string \<Rightarrow> (('t, 'e, 'a, 'c) dynamo \<Rightarrow> bool) \<Rightarrow> ('t, 'e, 'a, 'c) write_item" where
  "task_delete pk cond = \<lparr>wi_key = TasksKey pk, wi_condition = cond,
     wi_write = (\<lambda>db. db\<lparr>dy_tasks := hm_remove pk (dy_tasks db)\<rparr>)\<rparr>"

definition dynamo_delete_task ::
  "('t, 'e, 'a, 'c) codec \<Rightarrow> ('t, 'e, 'a, 'c) service \<Rightarrow> string \<Rightarrow> string \<Rightarrow> string \<Rightarrow>
   (('t, 'e, 'a, 'c) dynamo, bool) program" where
  "dynamo_delete_task C E tenant task_id owner =
     and_then (dynamo_get_task C E tenant task_id owner (Some 0)) (\<lambda>existing.
       if existing = None then done_with False
       else and_then (delete_artifact_partition E tenant task_id) (\<lambda>_.
            and_then (send_write (task_delete (dynamo_task_key tenant task_id) no_condition)) (\<lambda>_.
            and_then (send_write (task_delete (lease_pk tenant task_id) no_condition)) (\<lambda>_.
              done_with True))))"

text \<open>The scan keeps the items of tenant, owner, context and state; the blob gives the rest.\<close>

definition scan_matches :: "task_filter \<Rightarrow> 't task_item \<Rightarrow> bool" where
  "scan_matches f x \<longleftrightarrow>
     ti_tenant x = (case tf_tenant f of Some t \<Rightarrow> t | None \<Rightarrow> '''') \<and>
     ti_owner x = (case tf_owner f of Some ow \<Rightarrow> ow | None \<Rightarrow> '''') \<and>
     (case tf_context_id f of None \<Rightarrow> True | Some ctx \<Rightarrow> ti_context_id x = ctx) \<and>
     (case tf_status f of None \<Rightarrow> True | Some st \<Rightarrow> ti_status_state x = wire_name st)"

definition task_items :: "('t, 'e, 'a, 'c) dynamo \<Rightarrow> 't task_item list" where
  "task_items db = List.map_filter (\<lambda>(_, x). case x of TaskItem y \<Rightarrow> Some y | LeaseItem _ _ _ \<Rightarrow> None) (dy_tasks db)"

definition listed_items ::
  "('t, 'e, 'a, 'c) codec \<Rightarrow> chrono \<Rightarrow> task_filter \<Rightarrow> ('t, 'e, 'a, 'c) dynamo \<Rightarrow> (pb_task \<times> manifest_entry list) list" where
  "listed_items C c f db = sort_desc (\<lambda>(t, _). (task_sort_key c t, tk_id t))
     (List.map_filter (\<lambda>x. case task_from_json C (ti_task_json x) of
        Inl _ \<Rightarrow> None
      | Inr t \<Rightarrow> if admits_status_time c f t then Some (t, ti_artifact_manifest x) else None)
       (filter (scan_matches f) (task_items db)))"

fun list_page_tasks ::
  "('t, 'e, 'a, 'c) codec \<Rightarrow> ('t, 'e, 'a, 'c) service \<Rightarrow> bool \<Rightarrow> string \<Rightarrow> int option \<Rightarrow>
   (pb_task \<times> manifest_entry list) list \<Rightarrow> (('t, 'e, 'a, 'c) dynamo, pb_task list) program" where
  "list_page_tasks C E include_artifacts tenant history_length [] = done_with []"
| "list_page_tasks C E include_artifacts tenant history_length ((t, manifest) # rows) =
     and_then (if include_artifacts
        then and_then (lifted (serde (enc_task C t))) (\<lambda>blob.
          dynamo_rehydrate_task C E tenant (tk_id t) blob manifest)
        else done_with t) (\<lambda>t'.
     and_then (list_page_tasks C E include_artifacts tenant history_length rows) (\<lambda>ts.
       done_with (trim_history t' history_length # ts)))"

definition dynamo_list_tasks ::
  "('t, 'e, 'a, 'c) codec \<Rightarrow> ('t, 'e, 'a, 'c) service \<Rightarrow> chrono \<Rightarrow> task_filter \<Rightarrow>
   (('t, 'e, 'a, 'c) dynamo, task_list_page) program" where
  "dynamo_list_tasks C E c f =
     and_then (lifted (resolved_page_size f)) (\<lambda>page_size.
     and_then (lifted (case tf_page_token f of None \<Rightarrow> Inr None
        | Some token \<Rightarrow> attempt (decode_cursor c token) (\<lambda>k. Inr (Some k)))) (\<lambda>cursor.
     and_then (query (\<lambda>db. listed_items C c f (aws_lag E db))) (\<lambda>found.
       (let key = (\<lambda>(t, _). (task_sort_key c t, tk_id t));
            start_idx = (case cursor of
                Some k \<Rightarrow> (case position (\<lambda>e. key e < k) found of Some i \<Rightarrow> i | None \<Rightarrow> length found)
              | None \<Rightarrow> 0);
            end_idx = min (start_idx + nat page_size) (length found);
            include_artifacts = (case tf_include_artifacts f of Some b \<Rightarrow> b | None \<Rightarrow> False)
        in and_then (list_page_tasks C E include_artifacts
             (case tf_tenant f of Some tenant \<Rightarrow> tenant | None \<Rightarrow> '''') (tf_history_length f)
             (take (end_idx - start_idx) (drop start_idx found))) (\<lambda>ts.
           done_with \<lparr>tlp_tasks = ts,
             tlp_next_page_token = (if end_idx < length found
               then encode_cursor (fst (key (found ! (end_idx - 1)))) (snd (key (found ! (end_idx - 1)))) else ''''),
             tlp_page_size = page_size, tlp_total_size = as_i32 (int (length found))\<rparr>)))))"

text \<open>The condition of the status write is the owner only.\<close>

definition task_status_update ::
  "string \<Rightarrow> string \<Rightarrow> 't \<Rightarrow> string \<Rightarrow> instant \<Rightarrow> nat option \<Rightarrow> ('t, 'e, 'a, 'c) write_item" where
  "task_status_update pk owner blob state_str now ttl = \<lparr>wi_key = TasksKey pk,
     wi_condition = owner_condition pk owner,
     wi_write = (\<lambda>db. case task_at db pk of
       Some x \<Rightarrow> put_task_entry pk (TaskItem (x\<lparr>ti_task_json := blob, ti_status_state := state_str,
         ti_updated_at := now_iso now, ti_ttl := (if ttl = None then ti_ttl x else ttl)\<rparr>)) db
     | None \<Rightarrow> db)\<rparr>"

text \<open>The item of an owner's task, as the status writes read it.\<close>

definition owned_item ::
  "string \<Rightarrow> string \<Rightarrow> string \<Rightarrow> (('t, 'e, 'a, 'c) dynamo, 't task_item) program" where
  "owned_item tenant task_id owner =
     and_then (query (\<lambda>db. hm_get (dy_tasks db) (dynamo_task_key tenant task_id))) (\<lambda>item. lifted (case item of
         None \<Rightarrow> Inl (SE_TaskNotFound task_id)
       | Some (LeaseItem _ _ _) \<Rightarrow> if owner \<noteq> '''' then Inl (SE_TaskNotFound task_id)
           else Inl (SE_DatabaseError ''Missing task_json'')
       | Some (TaskItem x) \<Rightarrow> if ti_owner x \<noteq> owner then Inl (SE_TaskNotFound task_id) else Inr x))"

definition dynamo_update_task_status ::
  "('t, 'e, 'a, 'c) codec \<Rightarrow> ('t, 'e, 'a, 'c) service \<Rightarrow> dynamo_config \<Rightarrow> instant \<Rightarrow> string \<Rightarrow> string \<Rightarrow> string \<Rightarrow>
   pb_task_status \<Rightarrow> (('t, 'e, 'a, 'c) dynamo, pb_task) program" where
  "dynamo_update_task_status C E cf now tenant task_id owner new_status =
     and_then (owned_item tenant task_id owner) (\<lambda>x.
     and_then (lifted (status_blob C now (SE_TerminalState task_id) task_id (ti_task_json x) new_status []))
       (\<lambda>(t', _, new_blob).
     (let state_str = status_state_str t'; ttl = task_ttl cf now state_str
      in and_then (send_write (task_status_update (dynamo_task_key tenant task_id) owner new_blob state_str now ttl)) (\<lambda>ok.
         if \<not> ok then lifted (Inl CONDITIONAL_CHECK_FAILED)
         else and_then (stamp_child_ttl E tenant task_id ttl) (\<lambda>_.
           dynamo_rehydrate_task C E tenant task_id new_blob (ti_artifact_manifest x))))))"

definition dynamo_append_message ::
  "('t, 'e, 'a, 'c) codec \<Rightarrow> ('t, 'e, 'a, 'c) service \<Rightarrow> dynamo_config \<Rightarrow> instant \<Rightarrow> string \<Rightarrow> string \<Rightarrow> string \<Rightarrow>
   pb_message \<Rightarrow> (('t, 'e, 'a, 'c) dynamo, unit) program" where
  "dynamo_append_message C E cf now tenant task_id owner m =
     and_then (dynamo_get_task C E tenant task_id owner None) (\<lambda>found. case found of
         None \<Rightarrow> lifted (Inl (SE_TaskNotFound task_id))
       | Some t \<Rightarrow> and_then (lifted (typed (task_try_from (t\<lparr>tk_history := tk_history t @ [m]\<rparr>)))) (\<lambda>updated.
           dynamo_update_task C E cf now tenant owner updated))"

definition dynamo_append_artifact ::
  "('t, 'e, 'a, 'c) codec \<Rightarrow> ('t, 'e, 'a, 'c) service \<Rightarrow> dynamo_config \<Rightarrow> instant \<Rightarrow> string \<Rightarrow> string \<Rightarrow> string \<Rightarrow>
   pb_artifact \<Rightarrow> bool \<Rightarrow> bool \<Rightarrow> (('t, 'e, 'a, 'c) dynamo, unit) program" where
  "dynamo_append_artifact C E cf now tenant task_id owner a app last_chunk =
     and_then (dynamo_get_task C E tenant task_id owner None) (\<lambda>found. case found of
         None \<Rightarrow> lifted (Inl (SE_TaskNotFound task_id))
       | Some t \<Rightarrow> (let t1 = (case (if app then extend_first_parts (art_artifact_id a) (art_parts a) (tk_artifacts t)
                       else None) of
                 Some as \<Rightarrow> t\<lparr>tk_artifacts := as\<rparr>
               | None \<Rightarrow> t\<lparr>tk_artifacts := tk_artifacts t @ [a]\<rparr>)
           in and_then (lifted (typed (task_try_from t1))) (\<lambda>updated.
             dynamo_update_task C E cf now tenant owner updated)))"

text \<open>One page of a scan.\<close>

definition dynamo_task_count :: "('t, 'e, 'a, 'c) service \<Rightarrow> (('t, 'e, 'a, 'c) dynamo, nat) program" where
  "dynamo_task_count E = query (\<lambda>db. length (filter (\<lambda>(_, x). case x of TaskItem _ \<Rightarrow> True | LeaseItem _ _ _ \<Rightarrow> False)
     (take (aws_first_page E) (dy_tasks (aws_lag E db)))))"

definition cancel_update :: "string \<Rightarrow> string \<Rightarrow> ('t, 'e, 'a, 'c) write_item" where
  "cancel_update pk owner = \<lparr>wi_key = TasksKey pk, wi_condition = live_condition pk owner,
     wi_write = (\<lambda>db. case task_at db pk of
       Some x \<Rightarrow> put_task_entry pk (TaskItem (x\<lparr>ti_cancel_requested := True\<rparr>)) db | None \<Rightarrow> db)\<rparr>"

definition dynamo_set_cancel_requested ::
  "('t, 'e, 'a, 'c) codec \<Rightarrow> ('t, 'e, 'a, 'c) service \<Rightarrow> string \<Rightarrow> string \<Rightarrow> string \<Rightarrow>
   (('t, 'e, 'a, 'c) dynamo, unit) program" where
  "dynamo_set_cancel_requested C E tenant task_id owner =
     and_then (send_write (cancel_update (dynamo_task_key tenant task_id) owner)) (\<lambda>ok.
       if ok then done_with ()
       else and_then (caught (dynamo_get_task C E tenant task_id owner (Some 0))) (\<lambda>probe. lifted (Inl (case probe of
           Inr (Some t) \<Rightarrow> (case task_state_of t of
               Some s \<Rightarrow> if is_terminal s then SE_TerminalState task_id s else SE_TaskNotFound task_id
             | None \<Rightarrow> SE_TaskNotFound task_id)
         | Inr None \<Rightarrow> SE_TaskNotFound task_id
         | Inl _ \<Rightarrow> CONDITIONAL_CHECK_FAILED))))"

section \<open>\<open>A2aEventStore\<close>\<close>

definition append_attempt ::
  "('t, 'e, 'a, 'c) codec \<Rightarrow> ('t, 'e, 'a, 'c) service \<Rightarrow> dynamo_config \<Rightarrow> instant \<Rightarrow> string \<Rightarrow> stream_event \<Rightarrow> nat \<Rightarrow>
   unit \<Rightarrow> (('t, 'e, 'a, 'c) dynamo, unit + nat) program" where
  "append_attempt C E cf now pk ev k x =
     and_then (allocate_event_sequences cf now pk 1) (\<lambda>al.
     and_then (lifted (event_transact_items C cf now pk (al_sequences al) [ev])) (\<lambda>event_items.
     (case attach al [] event_items of (items, sequence_items) \<Rightarrow>
       and_then (send_transaction (aws_conflicts E k) items) (\<lambda>r. case r of
           TxWritten \<Rightarrow> done_with (Inr (al_latest al))
         | TxCanceled reasons \<Rightarrow> if lost_sequence_race reasons sequence_items then done_with (Inl ())
             else lifted (Inl TRANSACTION_CANCELED)
         | TxInvalid \<Rightarrow> lifted (Inl VALIDATION_ERROR)))))"

definition dynamo_append_event ::
  "('t, 'e, 'a, 'c) codec \<Rightarrow> ('t, 'e, 'a, 'c) service \<Rightarrow> dynamo_config \<Rightarrow> instant \<Rightarrow> string \<Rightarrow> string \<Rightarrow> stream_event \<Rightarrow>
   (('t, 'e, 'a, 'c) dynamo, nat) program" where
  "dynamo_append_event C E cf now tenant task_id ev =
     (let pk = dynamo_task_key tenant task_id in with_retry pk (append_attempt C E cf now pk ev) ())"

text \<open>One page of the range query \<open>sk > :after\<close>.\<close>

definition event_rows_above ::
  "('t, 'e, 'a, 'c) dynamo \<Rightarrow> string \<Rightarrow> string \<Rightarrow> ('e, 'a) events_entry list" where
  "event_rows_above db pk after_sk = map snd (sort_key fst (map (\<lambda>((_, sk), x). (sk, x))
     (filter (\<lambda>((p, sk), _). p = pk \<and> after_sk < sk) (dy_events db))))"

fun decode_event_items ::
  "('t, 'e, 'a, 'c) codec \<Rightarrow> ('e, 'a) events_entry list \<Rightarrow> storage_error + (nat \<times> stream_event) list" where
  "decode_event_items C [] = Inr []"
| "decode_event_items C (EventItem sq data ttl # xs) =
     attempt (serde (dec_event C data)) (\<lambda>ev. attempt (decode_event_items C xs) (\<lambda>evs. Inr ((sq, ev) # evs)))"
| "decode_event_items C (other # xs) = Inl (SE_DatabaseError ''Missing eventSequence'')"

definition dynamo_get_events_after ::
  "('t, 'e, 'a, 'c) codec \<Rightarrow> ('t, 'e, 'a, 'c) service \<Rightarrow> string \<Rightarrow> string \<Rightarrow> nat \<Rightarrow>
   (('t, 'e, 'a, 'c) dynamo, (nat \<times> stream_event) list) program" where
  "dynamo_get_events_after C E tenant task_id after_sequence =
     and_then (query (\<lambda>db. take (aws_first_page E)
        (event_rows_above (aws_lag E db) (dynamo_task_key tenant task_id) (event_sort_key after_sequence)))) (\<lambda>rows.
       lifted (decode_event_items C rows))"

definition dynamo_latest_sequence :: "string \<Rightarrow> string \<Rightarrow> (('t, 'e, 'a, 'c) dynamo, nat) program" where
  "dynamo_latest_sequence tenant task_id = read_sequence_counter (dynamo_task_key tenant task_id)"

definition dynamo_cleanup_expired :: "(('t, 'e, 'a, 'c) dynamo, nat) program" where
  "dynamo_cleanup_expired = done_with 0"

section \<open>Atomic commits\<close>

text \<open>
  \<open>A2aAtomicStore\<close> of \<open>DynamoDbA2aStorage\<close>: the task item, its artifacts, the events, the
  counter and the markers of a commit are one transaction, sent again when it lost the counter.
\<close>

definition task_has_push_config ::
  "('t, 'e, 'a, 'c) service \<Rightarrow> string \<Rightarrow> string \<Rightarrow> (('t, 'e, 'a, 'c) dynamo, bool) program" where
  "task_has_push_config E tenant task_id = query (\<lambda>db. matching_configs (aws_lag E db) tenant task_id \<noteq> [])"

text \<open>\<open>query_latest_event_sequence\<close>: 0 for a missing task or attribute.\<close>

definition latest_attribute :: "('t, 'e, 'a, 'c) dynamo \<Rightarrow> string \<Rightarrow> nat" where
  "latest_attribute db pk = (case task_at db pk of
     Some x \<Rightarrow> or_zero (ti_latest_event_sequence x) | None \<Rightarrow> 0)"

definition query_latest_event_sequence :: "string \<Rightarrow> (('t, 'e, 'a, 'c) dynamo, nat) program" where
  "query_latest_event_sequence pk = query (\<lambda>db. latest_attribute db pk)"

section \<open>\<open>create_task_with_events\<close>\<close>

definition create_attempt ::
  "('t, 'e, 'a, 'c) codec \<Rightarrow> ('t, 'e, 'a, 'c) service \<Rightarrow> dynamo_config \<Rightarrow> instant \<Rightarrow> string \<Rightarrow> string \<Rightarrow> pb_task \<Rightarrow>
   stream_event list \<Rightarrow> 't \<Rightarrow> reconcile_plan \<Rightarrow> nat \<Rightarrow> unit \<Rightarrow>
   (('t, 'e, 'a, 'c) dynamo, unit + pb_task \<times> nat list) program" where
  "create_attempt C E cf now tenant owner t evs blob plan k x =
     (let pk = dynamo_task_key tenant (tk_id t); state_str = status_state_str t; ttl = task_ttl cf now state_str
      in and_then (allocate_event_sequences cf now pk (length evs)) (\<lambda>al.
         (let put = task_put pk (build_task_item now tenant (tk_id t) owner (tk_context_id t) state_str blob
                (rp_manifest plan) (Some (al_latest al)) ttl) no_condition
          in and_then (lifted (artifact_transact_items C (artifact_pk tenant (tk_id t)) plan ttl)) (\<lambda>artifacts.
             and_then (lifted (check_artifact_transaction_cap (length artifacts)
               (1 + length evs + (if al_counter_write al = None then 0 else 1)))) (\<lambda>_.
             and_then (lifted (event_transact_items C cf now pk (al_sequences al) evs)) (\<lambda>event_items.
             (case attach al (put # artifacts) event_items of (items, sequence_items) \<Rightarrow>
               and_then (send_transaction (aws_conflicts E k) items) (\<lambda>r. case r of
                   TxWritten \<Rightarrow> done_with (Inr (t, al_sequences al))
                 | TxCanceled reasons \<Rightarrow> if lost_sequence_race reasons sequence_items then done_with (Inl ())
                     else lifted (Inl TRANSACTION_CANCELED)
                 | TxInvalid \<Rightarrow> lifted (Inl VALIDATION_ERROR)))))))))"

definition dynamo_create_task_with_events ::
  "('t, 'e, 'a, 'c) codec \<Rightarrow> ('t, 'e, 'a, 'c) service \<Rightarrow> dynamo_config \<Rightarrow> instant \<Rightarrow> string \<Rightarrow> string \<Rightarrow> pb_task \<Rightarrow>
   stream_event list \<Rightarrow> (('t, 'e, 'a, 'c) dynamo, pb_task \<times> nat list) program" where
  "dynamo_create_task_with_events C E cf now tenant owner task new_events =
     (let (t, evs) = stamp_status now task new_events
      in and_then (lifted (split_task C t)) (\<lambda>(blob, artifacts).
         and_then (lifted (reconcile C artifacts [])) (\<lambda>plan.
           with_retry (dynamo_task_key tenant (tk_id t)) (create_attempt C E cf now tenant owner t evs blob plan) ())))"

section \<open>After a failed commit\<close>

text \<open>The task is read again to tell a lost terminal race from any other failure.\<close>

definition classify_failure ::
  "('t, 'e, 'a, 'c) codec \<Rightarrow> ('t, 'e, 'a, 'c) service \<Rightarrow> string \<Rightarrow> string \<Rightarrow> string \<Rightarrow>
   (('t, 'e, 'a, 'c) dynamo, 'x) program" where
  "classify_failure C E tenant task_id owner =
     and_then (caught (dynamo_get_task C E tenant task_id owner (Some 0))) (\<lambda>probe. lifted (Inl (case probe of
         Inr (Some t) \<Rightarrow> (case task_state_of t of
             Some s \<Rightarrow> if is_terminal s then SE_TerminalStateAlreadySet task_id (wire_name s) else TRANSACTION_CANCELED
           | None \<Rightarrow> TRANSACTION_CANCELED)
       | Inr None \<Rightarrow> SE_TaskNotFound task_id
       | Inl _ \<Rightarrow> TRANSACTION_CANCELED)))"

section \<open>\<open>update_task_status_with_events\<close>\<close>

definition marker_put ::
  "dynamo_config \<Rightarrow> instant \<Rightarrow> string \<Rightarrow> string \<Rightarrow> string \<Rightarrow> nat \<Rightarrow> ('t, 'e, 'a, 'c) write_item" where
  "marker_put cf now tenant task_id owner sq = \<lparr>wi_key = PendingKey (dynamo_task_key tenant task_id) (show_nat sq),
     wi_condition = no_condition,
     wi_write = (\<lambda>db. db\<lparr>dy_pending := hm_insert (dynamo_task_key tenant task_id, show_nat sq)
       \<lparr>mi_tenant = tenant, mi_task_id = task_id, mi_event_sequence = sq, mi_owner = owner,
        mi_recorded_at = systime_to_micros now, mi_ttl = ttl_epoch (cf_push_delivery_ttl_seconds cf) now\<rparr>
       (dy_pending db)\<rparr>)\<rparr>"

definition marker_puts ::
  "dynamo_config \<Rightarrow> bool \<Rightarrow> instant \<Rightarrow> string \<Rightarrow> string \<Rightarrow> string \<Rightarrow> nat list \<Rightarrow> stream_event list \<Rightarrow>
   ('t, 'e, 'a, 'c) write_item list" where
  "marker_puts cf has_push_configs now tenant task_id owner seqs evs = map (\<lambda>(sq, _). marker_put cf now tenant task_id owner sq)
     (filter (\<lambda>(_, ev). cf_push_dispatch_enabled cf \<and> has_push_configs \<and> event_is_terminal ev \<and> is_status_update ev)
       (zip seqs evs))"

text \<open>
  One attempt. It carries the status and the events, stamped by the first attempt, into the next.
\<close>

definition status_attempt ::
  "('t, 'e, 'a, 'c) codec \<Rightarrow> ('t, 'e, 'a, 'c) service \<Rightarrow> dynamo_config \<Rightarrow> instant \<Rightarrow> string \<Rightarrow> string \<Rightarrow> string \<Rightarrow>
   bool \<Rightarrow> nat \<Rightarrow> pb_task_status \<times> stream_event list \<Rightarrow>
   (('t, 'e, 'a, 'c) dynamo, pb_task_status \<times> stream_event list + pb_task \<times> nat list) program" where
  "status_attempt C E cf now tenant task_id owner has_push_configs k x = (case x of (status_proto, evs) \<Rightarrow>
     (let pk = dynamo_task_key tenant task_id
      in and_then (owned_item tenant task_id owner) (\<lambda>item.
         and_then (lifted (status_blob C now (\<lambda>st. SE_TerminalStateAlreadySet task_id (wire_name st)) task_id
           (ti_task_json item) status_proto evs)) (\<lambda>(t', evs', task_json).
         (let status' = (case tk_status t' of Some st \<Rightarrow> st | None \<Rightarrow> status_proto);
              state_str = status_state_str t'; ttl = task_ttl cf now state_str
          in and_then (allocate_event_sequences cf now pk (length evs')) (\<lambda>al.
             (let put = task_put pk (build_task_item now tenant task_id owner (tk_context_id t') state_str task_json
                    (ti_artifact_manifest item)
                    (Some (max (or_zero (ti_latest_event_sequence item)) (al_latest al))) ttl) (live_condition pk owner)
              in and_then (lifted (event_transact_items C cf now pk (al_sequences al) evs')) (\<lambda>event_items.
                 (case attach al [put] event_items of (items, sequence_items) \<Rightarrow>
                   and_then (send_transaction (aws_conflicts E k)
                     (items @ marker_puts cf has_push_configs now tenant task_id owner (al_sequences al) evs')) (\<lambda>r. case r of
                       TxWritten \<Rightarrow> and_then (stamp_child_ttl E tenant task_id ttl) (\<lambda>_.
                         and_then (dynamo_rehydrate_task C E tenant task_id task_json (ti_artifact_manifest item)) (\<lambda>t.
                           done_with (Inr (t, al_sequences al))))
                     | TxCanceled reasons \<Rightarrow> if lost_sequence_race reasons sequence_items
                         then done_with (Inl (status', evs'))
                         else classify_failure C E tenant task_id owner
                     | TxInvalid \<Rightarrow> lifted (Inl VALIDATION_ERROR)))))))))))"

definition dynamo_update_task_status_with_events ::
  "('t, 'e, 'a, 'c) codec \<Rightarrow> ('t, 'e, 'a, 'c) service \<Rightarrow> dynamo_config \<Rightarrow> instant \<Rightarrow> string \<Rightarrow> string \<Rightarrow> string \<Rightarrow>
   pb_task_status \<Rightarrow> stream_event list \<Rightarrow> (('t, 'e, 'a, 'c) dynamo, pb_task \<times> nat list) program" where
  "dynamo_update_task_status_with_events C E cf now tenant task_id owner new_status new_events =
     and_then (lifted (typed (status_state new_status))) (\<lambda>_.
     and_then (if cf_push_dispatch_enabled cf then task_has_push_config E tenant task_id else done_with False)
       (\<lambda>has_push_configs.
     with_retry (dynamo_task_key tenant task_id) (status_attempt C E cf now tenant task_id owner has_push_configs)
       (new_status, new_events)))"

section \<open>\<open>update_task_with_events\<close>\<close>

definition update_attempt ::
  "('t, 'e, 'a, 'c) codec \<Rightarrow> ('t, 'e, 'a, 'c) service \<Rightarrow> dynamo_config \<Rightarrow> instant \<Rightarrow> string \<Rightarrow> string \<Rightarrow> pb_task \<Rightarrow>
   stream_event list \<Rightarrow> 't \<Rightarrow> pb_artifact list \<Rightarrow> nat \<Rightarrow> unit \<Rightarrow>
   (('t, 'e, 'a, 'c) dynamo, unit + nat list) program" where
  "update_attempt C E cf now tenant owner t evs blob artifacts k x =
     (let pk = dynamo_task_key tenant (tk_id t); state_str = status_state_str t; ttl = task_ttl cf now state_str
      in and_then (fetch_stored_manifest tenant (tk_id t)) (\<lambda>(stored, _).
         and_then (lifted (reconcile C artifacts stored)) (\<lambda>plan.
         and_then (query_latest_event_sequence pk) (\<lambda>prior_latest.
         and_then (allocate_event_sequences cf now pk (length evs)) (\<lambda>al.
         (let put = task_put pk (build_task_item now tenant (tk_id t) owner (tk_context_id t) state_str blob
                (rp_manifest plan) (Some (max prior_latest (al_latest al))) ttl) (live_condition pk owner)
          in and_then (lifted (artifact_transact_items C (artifact_pk tenant (tk_id t)) plan ttl)) (\<lambda>artifact_items.
             and_then (lifted (check_artifact_transaction_cap (length artifact_items)
               (1 + length evs + (if al_counter_write al = None then 0 else 1)))) (\<lambda>_.
             and_then (lifted (event_transact_items C cf now pk (al_sequences al) evs)) (\<lambda>event_items.
             (case attach al (put # artifact_items) event_items of (items, sequence_items) \<Rightarrow>
               and_then (send_transaction (aws_conflicts E k) items) (\<lambda>r. case r of
                   TxWritten \<Rightarrow> and_then (stamp_child_ttl E tenant (tk_id t) ttl) (\<lambda>_.
                     done_with (Inr (al_sequences al)))
                 | TxCanceled reasons \<Rightarrow> if lost_sequence_race reasons sequence_items then done_with (Inl ())
                     else classify_failure C E tenant (tk_id t) owner
                 | TxInvalid \<Rightarrow> lifted (Inl VALIDATION_ERROR))))))))))))"

definition dynamo_update_task_with_events ::
  "('t, 'e, 'a, 'c) codec \<Rightarrow> ('t, 'e, 'a, 'c) service \<Rightarrow> dynamo_config \<Rightarrow> instant \<Rightarrow> string \<Rightarrow> string \<Rightarrow> pb_task \<Rightarrow>
   stream_event list \<Rightarrow> (('t, 'e, 'a, 'c) dynamo, nat list) program" where
  "dynamo_update_task_with_events C E cf now tenant owner task new_events =
     (let (t, evs) = stamp_status now task new_events
      in and_then (lifted (split_task C t)) (\<lambda>(blob, artifacts).
           with_retry (dynamo_task_key tenant (tk_id t)) (update_attempt C E cf now tenant owner t evs blob artifacts) ()))"

end
