(* ===== verification/Dynamo_Push.thy ===== *)
theory Dynamo_Push
  imports Dynamo_Tasks Postgres_Push
begin

text \<open>
  The cancellation supervisor, push configs, delivery claims and markers of
  \<open>DynamoDbA2aStorage\<close>. Reads without \<open>consistent_read\<close> go through \<open>aws_lag\<close>.
\<close>

section \<open>\<open>A2aCancellationSupervisor\<close>\<close>

definition cancel_wanted :: "'t tasks_entry \<Rightarrow> bool" where
  "cancel_wanted x = (case x of
     TaskItem y \<Rightarrow> \<not> (case from_wire_name (ti_status_state y) of Some s \<Rightarrow> is_terminal s | None \<Rightarrow> False) \<and>
       ti_cancel_requested y
   | LeaseItem _ _ _ \<Rightarrow> False)"

definition dynamo_get_cancel_requested ::
  "('t, 'e, 'a, 'c) service \<Rightarrow> string \<Rightarrow> string \<Rightarrow> (('t, 'e, 'a, 'c) dynamo, bool) program" where
  "dynamo_get_cancel_requested E tenant task_id = query (\<lambda>db.
     case hm_get (dy_tasks (aws_lag E db)) (dynamo_task_key tenant task_id) of
       None \<Rightarrow> False | Some x \<Rightarrow> cancel_wanted x)"

text \<open>
  \<open>BatchGetItem\<close> per hundred ids; what the service leaves unprocessed is not asked for again, and
  the id is what follows the first \<open>#\<close> of the key.
\<close>

definition cancel_hits :: "('t, 'e, 'a, 'c) service \<Rightarrow> string \<Rightarrow> string list \<Rightarrow> ('t, 'e, 'a, 'c) dynamo \<Rightarrow> string list" where
  "cancel_hits E tenant task_ids db = List.map_filter (\<lambda>tid.
     (let pk = dynamo_task_key tenant tid
      in if aws_unprocessed E pk then None
         else (case hm_get (dy_tasks (aws_lag E db)) pk of
             Some x \<Rightarrow> if cancel_wanted x then map_option snd (split_once (CHR ''#'') pk) else None
           | None \<Rightarrow> None))) task_ids"

fun cancel_chunks ::
  "('t, 'e, 'a, 'c) service \<Rightarrow> string \<Rightarrow> string list list \<Rightarrow> (('t, 'e, 'a, 'c) dynamo, string list) program" where
  "cancel_chunks E tenant [] = done_with []"
| "cancel_chunks E tenant (ids # css) =
     and_then (query (cancel_hits E tenant ids)) (\<lambda>hits.
     and_then (cancel_chunks E tenant css) (\<lambda>more. done_with (hits @ more)))"

definition dynamo_list_cancel_requested ::
  "('t, 'e, 'a, 'c) service \<Rightarrow> string \<Rightarrow> string list \<Rightarrow> (('t, 'e, 'a, 'c) dynamo, string list) program" where
  "dynamo_list_cancel_requested E tenant task_ids = cancel_chunks E tenant (chunks 100 task_ids)"

definition lease_put :: "string \<Rightarrow> string \<Rightarrow> int \<Rightarrow> ('t, 'e, 'a, 'c) write_item" where
  "lease_put tenant task_id expires_at_micros = \<lparr>wi_key = TasksKey (lease_pk tenant task_id),
     wi_condition = no_condition,
     wi_write = put_task_entry (lease_pk tenant task_id) (LeaseItem tenant task_id expires_at_micros)\<rparr>"

definition lease_delete_if_expiry :: "string \<Rightarrow> string \<Rightarrow> int \<Rightarrow> ('t, 'e, 'a, 'c) write_item" where
  "lease_delete_if_expiry tenant task_id seen = task_delete (lease_pk tenant task_id)
     (\<lambda>db. case hm_get (dy_tasks db) (lease_pk tenant task_id) of
        Some (LeaseItem _ _ expires) \<Rightarrow> expires = seen | _ \<Rightarrow> False)"

definition dynamo_renew_executor_leases ::
  "string \<Rightarrow> string list \<Rightarrow> int option \<Rightarrow> (('t, 'e, 'a, 'c) dynamo, unit) program" where
  "dynamo_renew_executor_leases tenant task_ids expires_at_micros = send_all (map (\<lambda>task_id.
     case expires_at_micros of
       Some expiry \<Rightarrow> lease_put tenant task_id expiry
     | None \<Rightarrow> task_delete (lease_pk tenant task_id) no_condition) task_ids)"

definition expired_leases :: "int \<Rightarrow> ('t, 'e, 'a, 'c) dynamo \<Rightarrow> (string \<times> string \<times> int) list" where
  "expired_leases now_micros db = List.map_filter (\<lambda>(_, x). case x of
     LeaseItem tenant task_id expires \<Rightarrow> if expires < now_micros then Some (tenant, task_id, expires) else None
   | TaskItem _ \<Rightarrow> None) (dy_tasks db)"

definition item_supervised :: "'t task_item \<Rightarrow> supervised_task" where
  "item_supervised x = \<lparr>sv_tenant = ti_tenant x, sv_task_id = ti_task_id x, sv_owner = ti_owner x,
     sv_context_id = ti_context_id x\<rparr>"

definition held_items :: "(string \<times> string \<times> int) list \<Rightarrow> ('t, 'e, 'a, 'c) dynamo \<Rightarrow> 't task_item list" where
  "held_items leases db = List.map_filter (\<lambda>(tenant, task_id, _). case task_at db (dynamo_task_key tenant task_id) of
     Some x \<Rightarrow> (case from_wire_name (ti_status_state x) of
         Some s \<Rightarrow> if s \<in> set EXECUTOR_HELD_STATES then Some x else None | None \<Rightarrow> None)
   | None \<Rightarrow> None) leases"

fun lease_chunks ::
  "(string \<times> string \<times> int) list list \<Rightarrow> (('t, 'e, 'a, 'c) dynamo, supervised_task list) program" where
  "lease_chunks [] = done_with []"
| "lease_chunks (leases # css) =
     and_then (query (held_items leases)) (\<lambda>held.
     and_then (send_all (List.map_filter (\<lambda>(tenant, task_id, seen).
        if (tenant, task_id) \<in> set (map (\<lambda>x. (ti_tenant x, ti_task_id x)) held) then None
        else Some (lease_delete_if_expiry tenant task_id seen)) leases)) (\<lambda>_.
     and_then (lease_chunks css) (\<lambda>more. done_with (map item_supervised held @ more))))"

definition dynamo_list_expired_executor_leases ::
  "int \<Rightarrow> (('t, 'e, 'a, 'c) dynamo, supervised_task list) program" where
  "dynamo_list_expired_executor_leases now_micros =
     and_then (query (expired_leases now_micros)) (\<lambda>expired. lease_chunks (chunks 100 expired))"

text \<open>The loop returns as soon as the limit is reached, after the item that reaches it.\<close>

definition dynamo_list_idle_client_held_tasks ::
  "('t, 'e, 'a, 'c) codec \<Rightarrow> ('t, 'e, 'a, 'c) service \<Rightarrow> chrono \<Rightarrow> int \<Rightarrow> nat \<Rightarrow>
   (('t, 'e, 'a, 'c) dynamo, supervised_task list) program" where
  "dynamo_list_idle_client_held_tasks C E c status_before_micros limit = query (\<lambda>db. take (max limit 1)
     (map item_supervised (filter (\<lambda>x. ti_status_state x \<in> wire_name ` set CLIENT_HELD_STATES \<and>
        (case task_from_json C (ti_task_json x) of
           Inr t \<Rightarrow> task_sort_key c t < key_of_micros c status_before_micros | Inl _ \<Rightarrow> False))
      (task_items (aws_lag E db)))))"

section \<open>\<open>A2aPushNotificationStorage\<close>\<close>

definition config_put ::
  "string \<Rightarrow> push_config \<Rightarrow> 'c \<Rightarrow> nat \<Rightarrow> nat option \<Rightarrow> ('t, 'e, 'a, 'c) write_item" where
  "config_put tenant cfg json seq_read ttl =
     (let pk = config_pk tenant (pc_task_id cfg) (pc_id cfg)
      in \<lparr>wi_key = ConfigsKey pk, wi_condition = no_condition,
          wi_write = (\<lambda>db. db\<lparr>dy_configs := hm_insert pk
            \<lparr>ci_tenant = tenant, ci_task_id = pc_task_id cfg, ci_config_id = pc_id cfg, ci_config_json = json,
             ci_registered_after = seq_read, ci_ttl = ttl\<rparr> (dy_configs db)\<rparr>)\<rparr>)"

text \<open>The condition on the task: its floor is the one read, or there is still no task.\<close>

definition floor_check :: "string \<Rightarrow> bool \<Rightarrow> nat \<Rightarrow> ('t, 'e, 'a, 'c) write_item" where
  "floor_check task_pk task_exists seq_read = \<lparr>wi_key = TasksKey task_pk,
     wi_condition = (\<lambda>db. if task_exists
       then (case Option.bind (task_at db task_pk) ti_latest_event_sequence of
           Some n \<Rightarrow> n = seq_read | None \<Rightarrow> seq_read = 0)
       else hm_get (dy_tasks db) task_pk = None),
     wi_write = (\<lambda>db. db)\<rparr>"

fun dynamo_create_config_loop ::
  "nat \<Rightarrow> ('t, 'e, 'a, 'c) service \<Rightarrow> dynamo_config \<Rightarrow> instant \<Rightarrow> 'c \<Rightarrow> string \<Rightarrow> push_config \<Rightarrow> nat \<Rightarrow>
   (('t, 'e, 'a, 'c) dynamo, push_config) program" where
  "dynamo_create_config_loop 0 E cf now json tenant cfg k =
     lifted (Inl (SE_CreateConfigCasTimeout tenant (pc_task_id cfg)))"
| "dynamo_create_config_loop (Suc left) E cf now json tenant cfg k =
     (let task_pk = dynamo_task_key tenant (pc_task_id cfg)
      in and_then (query_latest_event_sequence task_pk) (\<lambda>seq_read.
         and_then (query (\<lambda>db. hm_get (dy_tasks (aws_lag E db)) task_pk)) (\<lambda>task_item.
         (let ttl = (case task_item of Some (TaskItem x) \<Rightarrow> task_ttl cf now (ti_status_state x) | _ \<Rightarrow> None)
          in and_then (send_transaction (aws_conflicts E k)
               [floor_check task_pk (task_item \<noteq> None) seq_read, config_put tenant cfg json seq_read ttl]) (\<lambda>r. case r of
                 TxWritten \<Rightarrow> done_with cfg
               | TxCanceled reasons \<Rightarrow>
                   if Some CONDITION_FAILED \<in> set reasons
                   then if k + 1 < MAX_ATTEMPTS then dynamo_create_config_loop left E cf now json tenant cfg (k + 1)
                     else lifted (Inl (SE_CreateConfigCasTimeout tenant (pc_task_id cfg)))
                   else lifted (Inl TRANSACTION_CANCELED)
               | TxInvalid \<Rightarrow> lifted (Inl VALIDATION_ERROR))))))"

definition dynamo_create_config ::
  "('t, 'e, 'a, 'c) codec \<Rightarrow> ('t, 'e, 'a, 'c) service \<Rightarrow> dynamo_config \<Rightarrow> instant \<Rightarrow> string \<Rightarrow> string \<Rightarrow> push_config \<Rightarrow>
   (('t, 'e, 'a, 'c) dynamo, push_config) program" where
  "dynamo_create_config C E cf now uuid tenant cfg =
     (let cfg' = (if pc_id cfg = [] then cfg\<lparr>pc_id := uuid\<rparr> else cfg)
      in and_then (lifted (serde (enc_config C cfg'))) (\<lambda>json.
           dynamo_create_config_loop MAX_ATTEMPTS E cf now json tenant cfg' 0))"

definition dynamo_get_config ::
  "('t, 'e, 'a, 'c) codec \<Rightarrow> ('t, 'e, 'a, 'c) service \<Rightarrow> string \<Rightarrow> string \<Rightarrow> string \<Rightarrow>
   (('t, 'e, 'a, 'c) dynamo, push_config option) program" where
  "dynamo_get_config C E tenant task_id config_id =
     and_then (query (\<lambda>db. hm_get (dy_configs (aws_lag E db)) (config_pk tenant task_id config_id))) (\<lambda>item. case item of
         Some x \<Rightarrow> lifted (attempt (serde (dec_config C (ci_config_json x))) (\<lambda>c. Inr (Some c)))
       | None \<Rightarrow> done_with None)"

text \<open>The listings scan one page of the table; the cut is the one of the in-memory store.\<close>

definition dynamo_config_page ::
  "('t, 'e, 'a, 'c) codec \<Rightarrow> ('t, 'e, 'a, 'c) service \<Rightarrow> (nat \<Rightarrow> bool) \<Rightarrow> string \<Rightarrow> string \<Rightarrow> string option \<Rightarrow>
   int option \<Rightarrow> (('t, 'e, 'a, 'c) dynamo, push_config_page) program" where
  "dynamo_config_page C E P tenant task_id page_token page_size = query (\<lambda>db. config_page
     (sort_key pc_id (List.map_filter (\<lambda>(_, x). case dec_config C (ci_config_json x) of Inr c \<Rightarrow> Some c | Inl _ \<Rightarrow> None)
       (filter (\<lambda>(_, x). ci_tenant x = tenant \<and> ci_task_id x = task_id \<and> P (ci_registered_after x))
         (take (aws_first_page E) (dy_configs (aws_lag E db)))))) page_token page_size)"

definition dynamo_list_configs ::
  "('t, 'e, 'a, 'c) codec \<Rightarrow> ('t, 'e, 'a, 'c) service \<Rightarrow> string \<Rightarrow> string \<Rightarrow> string option \<Rightarrow> int option \<Rightarrow>
   (('t, 'e, 'a, 'c) dynamo, push_config_page) program" where
  "dynamo_list_configs C E tenant task_id page_token page_size =
     dynamo_config_page C E (\<lambda>_. True) tenant task_id page_token page_size"

definition dynamo_list_configs_eligible_at_event ::
  "('t, 'e, 'a, 'c) codec \<Rightarrow> ('t, 'e, 'a, 'c) service \<Rightarrow> string \<Rightarrow> string \<Rightarrow> nat \<Rightarrow> string option \<Rightarrow> int option \<Rightarrow>
   (('t, 'e, 'a, 'c) dynamo, push_config_page) program" where
  "dynamo_list_configs_eligible_at_event C E tenant task_id event_sequence page_token page_size =
     dynamo_config_page C E (\<lambda>floor. floor < event_sequence) tenant task_id page_token page_size"

definition config_delete :: "string \<Rightarrow> ('t, 'e, 'a, 'c) write_item" where
  "config_delete pk = \<lparr>wi_key = ConfigsKey pk, wi_condition = no_condition,
     wi_write = (\<lambda>db. db\<lparr>dy_configs := hm_remove pk (dy_configs db)\<rparr>)\<rparr>"

definition dynamo_delete_config :: "string \<Rightarrow> string \<Rightarrow> string \<Rightarrow> (('t, 'e, 'a, 'c) dynamo, unit) program" where
  "dynamo_delete_config tenant task_id config_id =
     and_then (send_write (config_delete (config_pk tenant task_id config_id))) (\<lambda>_. done_with ())"

section \<open>\<open>A2aPushDeliveryStore\<close>\<close>

definition push_delivery_pk :: "string \<Rightarrow> string \<Rightarrow> nat \<Rightarrow> string" where
  "push_delivery_pk tenant task_id event_sequence = tenant @ ''#'' @ task_id @ ''#'' @ show_nat event_sequence"

definition item_key_of :: "push_delivery_key \<Rightarrow> string \<times> string" where
  "item_key_of key = (case key of (tenant, task_id, event_sequence, config_id) \<Rightarrow>
     (push_delivery_pk tenant task_id event_sequence, config_id))"

definition delivery_at :: "('t, 'e, 'a, 'c) dynamo \<Rightarrow> push_delivery_key \<Rightarrow> delivery_item option" where
  "delivery_at db key = hm_get (dy_deliveries db) (item_key_of key)"

definition put_delivery_item ::
  "push_delivery_key \<Rightarrow> delivery_item \<Rightarrow> ('t, 'e, 'a, 'c) dynamo \<Rightarrow> ('t, 'e, 'a, 'c) dynamo" where
  "put_delivery_item key x db = db\<lparr>dy_deliveries := hm_insert (item_key_of key) x (dy_deliveries db)\<rparr>"

text \<open>\<open>UpdateItem\<close> on a claim: a condition on the row there, and what becomes of it.\<close>

definition delivery_update ::
  "push_delivery_key \<Rightarrow> (delivery_row \<Rightarrow> bool) \<Rightarrow> (delivery_item \<Rightarrow> delivery_item) \<Rightarrow> ('t, 'e, 'a, 'c) write_item" where
  "delivery_update key cond f = \<lparr>wi_key = (case item_key_of key of (pk, sk) \<Rightarrow> DeliveriesKey pk sk),
     wi_condition = (\<lambda>db. case delivery_at db key of Some x \<Rightarrow> cond (di_row x) | None \<Rightarrow> False),
     wi_write = (\<lambda>db. case delivery_at db key of Some x \<Rightarrow> put_delivery_item key (f x) db | None \<Rightarrow> db)\<rparr>"

definition delivery_insert :: "push_delivery_key \<Rightarrow> delivery_item \<Rightarrow> ('t, 'e, 'a, 'c) write_item" where
  "delivery_insert key x = \<lparr>wi_key = (case item_key_of key of (pk, sk) \<Rightarrow> DeliveriesKey pk sk),
     wi_condition = (\<lambda>db. delivery_at db key = None), wi_write = put_delivery_item key x\<rparr>"

definition dynamo_claim_delivery ::
  "('t, 'e, 'a, 'c) service \<Rightarrow> dynamo_config \<Rightarrow> instant \<Rightarrow> push_delivery_key \<Rightarrow> string \<Rightarrow> string \<Rightarrow> nat \<Rightarrow>
   (('t, 'e, 'a, 'c) dynamo, delivery_claim) program" where
  "dynamo_claim_delivery E cf now key claimant owner claim_expiry =
     (let now_micros = systime_to_micros now; expires_micros = systime_to_micros (now + claim_expiry);
          ttl = ttl_epoch (cf_push_delivery_ttl_seconds cf) now
      in and_then (query (\<lambda>db. delivery_at (aws_lag E db) key)) (\<lambda>existing. case existing of
          Some prev_item \<Rightarrow> (let prev = di_row prev_item in
            and_then (lifted (claim_status_from_str (dr_status prev))) (\<lambda>prev_status.
            if claim_terminal prev_status \<or> dr_expires_at prev > now_micros then lifted (Inl (claim_held key))
            else and_then (send_write (delivery_update key
                (\<lambda>r. dr_generation r = dr_generation prev \<and> row_open r \<and> dr_expires_at r < now_micros)
                (\<lambda>x. x\<lparr>di_row := (di_row x)\<lparr>dr_claimant := claimant, dr_generation := dr_generation prev + 1,
                    dr_claimed_at := now_micros, dr_expires_at := expires_micros, dr_status := ''Pending'',
                    dr_gave_up_at := None, dr_gave_up_reason := None, dr_abandoned_reason := None\<rparr>,
                  di_ttl := (if ttl = None then di_ttl x else ttl)\<rparr>))) (\<lambda>ok.
              if \<not> ok then lifted (Inl (claim_held key))
              else done_with \<lparr>dc_claimant = claimant, dc_owner = dr_owner prev,
                dc_generation = dr_generation prev + 1, dc_claimed_at = now,
                dc_delivery_attempt_count = as_u32 (dr_delivery_attempt_count prev), dc_status = Pending\<rparr>)))
        | None \<Rightarrow>
            and_then (send_write (delivery_insert key (case key of (tenant, task_id, event_sequence, config_id) \<Rightarrow>
                \<lparr>di_tenant = tenant, di_task_id = task_id, di_event_sequence = event_sequence,
                 di_config_id = config_id,
                 di_row = \<lparr>dr_claimant = claimant, dr_owner = owner, dr_generation = 1,
                  dr_claimed_at = now_micros, dr_expires_at = expires_micros, dr_delivery_attempt_count = 0,
                  dr_status = ''Pending'', dr_first_attempted_at = None, dr_last_attempted_at = None,
                  dr_last_http_status = None, dr_last_error_class = None, dr_gave_up_at = None,
                  dr_gave_up_reason = None, dr_abandoned_reason = None\<rparr>, di_ttl = ttl\<rparr>))) (\<lambda>ok.
              if \<not> ok then lifted (Inl (claim_held key))
              else done_with \<lparr>dc_claimant = claimant, dc_owner = owner, dc_generation = 1, dc_claimed_at = now,
                dc_delivery_attempt_count = 0, dc_status = Pending\<rparr>)))"

definition fenced_row :: "string \<Rightarrow> nat \<Rightarrow> delivery_row \<Rightarrow> bool" where
  "fenced_row claimant claim_generation r \<longleftrightarrow>
     dr_claimant r = claimant \<and> dr_generation r = claim_generation \<and> row_open r"

definition attempt_row :: "int \<Rightarrow> delivery_row \<Rightarrow> delivery_row" where
  "attempt_row now_micros r = r\<lparr>dr_delivery_attempt_count := dr_delivery_attempt_count r + 1,
     dr_status := ''Attempting'', dr_first_attempted_at := coalesce (dr_first_attempted_at r) now_micros,
     dr_last_attempted_at := Some now_micros\<rparr>"

text \<open>\<open>ReturnValue::AllNew\<close> answers with the row as written.\<close>

definition dynamo_record_attempt_started ::
  "instant \<Rightarrow> push_delivery_key \<Rightarrow> string \<Rightarrow> nat \<Rightarrow> (('t, 'e, 'a, 'c) dynamo, nat) program" where
  "dynamo_record_attempt_started now key claimant claim_generation =
     and_then (autocommit (\<lambda>db. Inr (case delivery_at db key of
         Some x \<Rightarrow> if fenced_row claimant claim_generation (di_row x)
           then (let x' = x\<lparr>di_row := attempt_row (systime_to_micros now) (di_row x)\<rparr>
             in (Some (dr_delivery_attempt_count (di_row x')), put_delivery_item key x'))
           else (None, \<lambda>db. db)
       | None \<Rightarrow> (None, \<lambda>db. db)))) (\<lambda>n. lifted (case n of
         Some m \<Rightarrow> Inr (as_u32 m) | None \<Rightarrow> Inl (stale_claim key)))"

fun outcome_item :: "int \<Rightarrow> delivery_outcome \<Rightarrow> delivery_item \<Rightarrow> delivery_item" where
  "outcome_item now_micros (OutSucceeded http) x = (let r = di_row x in x\<lparr>di_row := r\<lparr>dr_status := ''Succeeded'',
     dr_last_http_status := Some http, dr_first_attempted_at := coalesce (dr_first_attempted_at r) now_micros,
     dr_last_attempted_at := Some now_micros\<rparr>\<rparr>)"
| "outcome_item now_micros (OutRetry next_attempt_at http error_class) x = (let r = di_row x in x\<lparr>di_row := r\<lparr>
     dr_status := ''Attempting'', dr_last_error_class := Some (error_class_to_json error_class),
     dr_last_attempted_at := Some now_micros,
     dr_last_http_status := (if http = None then dr_last_http_status r else http)\<rparr>\<rparr>)"
| "outcome_item now_micros (OutGaveUp reason error_class http retained_until) x = (let r = di_row x in x\<lparr>di_row := r\<lparr>
     dr_status := ''GaveUp'', dr_gave_up_at := Some now_micros,
     dr_gave_up_reason := Some (gave_up_reason_to_str reason),
     dr_last_error_class := Some (error_class_to_json error_class),
     dr_last_http_status := (if http = None then dr_last_http_status r else http),
     dr_first_attempted_at := coalesce (dr_first_attempted_at r) now_micros,
     dr_last_attempted_at := coalesce (dr_last_attempted_at r) now_micros\<rparr>,
     di_ttl := Some (retained_until div nanos_per_sec)\<rparr>)"
| "outcome_item now_micros (OutAbandoned reason) x = x\<lparr>di_row := (di_row x)\<lparr>dr_status := ''Abandoned'',
     dr_abandoned_reason := Some (abandoned_reason_to_str reason)\<rparr>\<rparr>"

definition dynamo_record_delivery_outcome ::
  "('t, 'e, 'a, 'c) service \<Rightarrow> instant \<Rightarrow> push_delivery_key \<Rightarrow> string \<Rightarrow> nat \<Rightarrow> delivery_outcome \<Rightarrow>
   (('t, 'e, 'a, 'c) dynamo, unit) program" where
  "dynamo_record_delivery_outcome E now key claimant claim_generation outcome =
     and_then (query (\<lambda>db. delivery_at (aws_lag E db) key)) (\<lambda>existing.
       (case Option.bind existing (\<lambda>x. case claim_status_from_str (dr_status (di_row x)) of
               Inr s \<Rightarrow> Some s | Inl _ \<Rightarrow> None) of
          Some s \<Rightarrow> if claim_terminal s then done_with ()
            else and_then (send_write (delivery_update key (fenced_row claimant claim_generation)
              (outcome_item (systime_to_micros now) outcome))) (\<lambda>ok.
                if ok then done_with () else lifted (Inl (stale_claim key)))
        | None \<Rightarrow> and_then (send_write (delivery_update key (fenced_row claimant claim_generation)
              (outcome_item (systime_to_micros now) outcome))) (\<lambda>ok.
                if ok then done_with () else lifted (Inl (stale_claim key)))))"

section \<open>Sweeps, listings, markers\<close>

definition lapsed :: "int \<Rightarrow> delivery_item \<Rightarrow> bool" where
  "lapsed now_micros x \<longleftrightarrow> dr_expires_at (di_row x) < now_micros \<and> row_open (di_row x)"

definition dynamo_sweep_expired_claims ::
  "('t, 'e, 'a, 'c) service \<Rightarrow> instant \<Rightarrow> (('t, 'e, 'a, 'c) dynamo, nat) program" where
  "dynamo_sweep_expired_claims E now = query (\<lambda>db. length (filter
     (\<lambda>(_, x). lapsed (systime_to_micros now) x) (dy_deliveries (aws_lag E db))))"

definition dynamo_list_reclaimable_claims ::
  "('t, 'e, 'a, 'c) service \<Rightarrow> instant \<Rightarrow> nat \<Rightarrow> (('t, 'e, 'a, 'c) dynamo, reclaimable_claim list) program" where
  "dynamo_list_reclaimable_claims E now limit = query (\<lambda>db. take limit (map
     (\<lambda>(_, x). \<lparr>rec_tenant = di_tenant x, rec_owner = dr_owner (di_row x), rec_task_id = di_task_id x,
        rec_event_sequence = di_event_sequence x, rec_config_id = di_config_id x\<rparr>)
     (filter (\<lambda>(_, x). lapsed (systime_to_micros now) x) (dy_deliveries (aws_lag E db)))))"

definition dynamo_record_pending_dispatch ::
  "dynamo_config \<Rightarrow> instant \<Rightarrow> string \<Rightarrow> string \<Rightarrow> string \<Rightarrow> nat \<Rightarrow> (('t, 'e, 'a, 'c) dynamo, unit) program" where
  "dynamo_record_pending_dispatch cf now tenant owner task_id event_sequence =
     and_then (send_write (marker_put cf now tenant task_id owner event_sequence)) (\<lambda>_. done_with ())"

definition marker_delete :: "string \<Rightarrow> string \<Rightarrow> ('t, 'e, 'a, 'c) write_item" where
  "marker_delete pk sk = \<lparr>wi_key = PendingKey pk sk, wi_condition = no_condition,
     wi_write = (\<lambda>db. db\<lparr>dy_pending := hm_remove (pk, sk) (dy_pending db)\<rparr>)\<rparr>"

definition dynamo_delete_pending_dispatch ::
  "string \<Rightarrow> string \<Rightarrow> nat \<Rightarrow> (('t, 'e, 'a, 'c) dynamo, unit) program" where
  "dynamo_delete_pending_dispatch tenant task_id event_sequence =
     and_then (send_write (marker_delete (dynamo_task_key tenant task_id) (show_nat event_sequence))) (\<lambda>_. done_with ())"

definition dynamo_list_stale_pending_dispatches ::
  "('t, 'e, 'a, 'c) service \<Rightarrow> instant \<Rightarrow> nat \<Rightarrow> (('t, 'e, 'a, 'c) dynamo, pending_dispatch list) program" where
  "dynamo_list_stale_pending_dispatches E older_than limit = query (\<lambda>db. take limit (map
     (\<lambda>(_, m). \<lparr>pd_tenant = mi_tenant m, pd_owner = mi_owner m, pd_task_id = mi_task_id m,
        pd_event_sequence = mi_event_sequence m, pd_recorded_at = micros_to_systime (mi_recorded_at m)\<rparr>)
     (filter (\<lambda>(_, m). mi_recorded_at m \<le> systime_to_micros older_than) (dy_pending (aws_lag E db)))))"

definition dynamo_failed_row :: "delivery_item \<Rightarrow> failed_delivery" where
  "dynamo_failed_row x = (let r = di_row x; gave_up = or_default (dr_gave_up_at r) (dr_claimed_at r)
     in \<lparr>fd_task_id = di_task_id x, fd_config_id = di_config_id x, fd_event_sequence = di_event_sequence x,
         fd_first_attempted_at = micros_to_systime (or_default (dr_first_attempted_at r) (dr_claimed_at r)),
         fd_last_attempted_at = micros_to_systime (or_default (dr_last_attempted_at r) gave_up),
         fd_gave_up_at = micros_to_systime gave_up,
         fd_delivery_attempt_count = as_u32 (dr_delivery_attempt_count r),
         fd_last_http_status = dr_last_http_status r,
         fd_last_error_class = or_default (Option.bind (dr_last_error_class r) error_class_from_json) NetworkError\<rparr>)"

definition dynamo_list_failed_deliveries ::
  "('t, 'e, 'a, 'c) service \<Rightarrow> string \<Rightarrow> instant \<Rightarrow> nat \<Rightarrow> (('t, 'e, 'a, 'c) dynamo, failed_delivery list) program" where
  "dynamo_list_failed_deliveries E tenant since limit = query (\<lambda>db. take limit (sort_desc fd_gave_up_at
     (map (\<lambda>(_, x). dynamo_failed_row x) (filter (\<lambda>(_, x). di_tenant x = tenant \<and>
        dr_status (di_row x) = ''GaveUp'' \<and>
        (case dr_gave_up_at (di_row x) of Some g \<Rightarrow> systime_to_micros since \<le> g | None \<Rightarrow> False))
       (dy_deliveries (aws_lag E db))))))"

end
