(* ===== verification/Session_Rely.thy ===== *)
theory Session_Rely
  imports Pg_Session
begin

text \<open>
  Reasoning about a session among others: a relation every session keeps with each of its steps
  (the guarantee of one is what the others rely on), and a triple for programs under it. An
  assertion is about the database as it is between the steps, so it has to survive the others.
\<close>

locale rely =
  fixes R :: "'db \<Rightarrow> 'db \<Rightarrow> bool"
  assumes refl [intro, simp]: "R d d"
    and trans [trans]: "R a b \<Longrightarrow> R b c \<Longrightarrow> R a c"
begin

definition others :: "'db gaps \<Rightarrow> bool" where
  "others g \<longleftrightarrow> (\<forall>n d. R d (g n d))"

definition triple :: "('db \<Rightarrow> bool) \<Rightarrow> ('db, 'a) program \<Rightarrow> ('a \<Rightarrow> 'db \<Rightarrow> bool) \<Rightarrow> bool" where
  "triple P m Q \<longleftrightarrow> (\<forall>g db. others g \<longrightarrow> P db \<longrightarrow>
     (\<exists>r n db'. m (g, db, \<lambda>d. d) = (r, (\<lambda>k. g (n + k), db', \<lambda>d. d)) \<and> R db db' \<and> (\<forall>x. r = Inr x \<longrightarrow> Q x db')))"

text \<open>
  The guarantee of a program: whatever others do between its steps, each step goes along the
  relation, from the database the others left to the one it leaves.
\<close>

definition steps_along :: "'db gaps \<Rightarrow> nat \<Rightarrow> (nat \<Rightarrow> 'db) \<Rightarrow> bool" where
  "steps_along g n s \<longleftrightarrow> (\<forall>k<n. R (g k (s k)) (s (Suc k)))"

definition keeps :: "('db, 'a) program \<Rightarrow> bool" where
  "keeps m \<longleftrightarrow> (\<forall>g db. \<exists>r n s. m (g, db, \<lambda>d. d) = (r, (\<lambda>k. g (n + k), s n, \<lambda>d. d)) \<and> s 0 = db \<and>
     steps_along g n s)"

lemma others_shift: "others g \<Longrightarrow> others (\<lambda>k. g (n + k))"
  by (simp add: others_def)

lemma others_Suc: "others g \<Longrightarrow> others (\<lambda>k. g (Suc k))"
  by (simp add: others_def)

lemma tripleI:
  assumes "\<And>g db. others g \<Longrightarrow> P db \<Longrightarrow>
    \<exists>r n db'. m (g, db, \<lambda>d. d) = (r, (\<lambda>k. g (n + k), db', \<lambda>d. d)) \<and> R db db' \<and> (\<forall>x. r = Inr x \<longrightarrow> Q x db')"
  shows "triple P m Q"
  using assms unfolding triple_def by blast

lemma triple_run:
  assumes "triple P m Q" and "others g" and "P db" and "run_program m g db = (r, db')"
  shows "R db db' \<and> (\<forall>x. r = Inr x \<longrightarrow> Q x db')"
proof -
  obtain r' n d where "m (g, db, \<lambda>d. d) = (r', (\<lambda>k. g (n + k), d, \<lambda>d. d))" "R db d" "\<forall>x. r' = Inr x \<longrightarrow> Q x d"
    using assms(1-3) unfolding triple_def by blast
  with assms(4) show ?thesis by (simp add: run_program_def)
qed

lemma triple_weaken:
  assumes "triple P' m Q'" and "\<And>db. P db \<Longrightarrow> P' db" and "\<And>x db. Q' x db \<Longrightarrow> Q x db"
  shows "triple P m Q"
  using assms unfolding triple_def by metis

lemma triple_fact: "(F \<Longrightarrow> triple P m Q) \<Longrightarrow> triple (\<lambda>d. P d \<and> F) m Q"
  unfolding triple_def by blast

lemma triple_at:
  assumes "\<And>g db. others g \<Longrightarrow> P db \<Longrightarrow> m (g, db, \<lambda>d. d) = (r g db, (\<lambda>k. g (n + k), d g db, \<lambda>d. d))"
    and "\<And>g db. others g \<Longrightarrow> P db \<Longrightarrow> R db (d g db)"
    and "\<And>g db x. others g \<Longrightarrow> P db \<Longrightarrow> r g db = Inr x \<Longrightarrow> Q x (d g db)"
  shows "triple P m Q"
  using assms by (intro tripleI) blast

lemma triple_done: "(\<And>db. P db \<Longrightarrow> Q x db) \<Longrightarrow> triple P (done_with x) Q"
  by (rule triple_at [where n = 0 and r = "\<lambda>_ _. Inr x" and d = "\<lambda>_ db. db"]) (auto simp: done_with_def)

lemma triple_lifted: "(\<And>x db. r = Inr x \<Longrightarrow> P db \<Longrightarrow> Q x db) \<Longrightarrow> triple P (lifted r) Q"
  by (rule triple_at [where n = 0 and r = "\<lambda>_ _. r" and d = "\<lambda>_ db. db"]) (auto simp: lifted_def)

lemma triple_query: "(\<And>db d. P db \<Longrightarrow> R db d \<Longrightarrow> Q (q d) d) \<Longrightarrow> triple P (query q) Q"
  by (rule triple_at [where n = 1 and r = "\<lambda>g db. Inr (q (g 0 db))" and d = "\<lambda>g. g 0"])
    (auto simp: query_def Let_def others_def)

lemma triple_autocommit:
  assumes "\<And>db d x f. P db \<Longrightarrow> R db d \<Longrightarrow> u d = Inr (x, f) \<Longrightarrow> R d (f d) \<and> Q x (f d)"
  shows "triple P (autocommit u) Q"
proof (rule triple_at [where n = 1
      and r = "\<lambda>g db. case u (g 0 db) of Inl e \<Rightarrow> Inl e | Inr (x, f) \<Rightarrow> Inr x"
      and d = "\<lambda>g db. case u (g 0 db) of Inl e \<Rightarrow> g 0 db | Inr (x, f) \<Rightarrow> f (g 0 db)"])
  fix g :: "'db gaps" and db x
  assume g: "others g" and P: "P db"
  then have R: "R db (g 0 db)" by (simp add: others_def)
  show "autocommit u (g, db, \<lambda>d. d) = (case u (g 0 db) of Inl e \<Rightarrow> Inl e | Inr (x, f) \<Rightarrow> Inr x,
      (\<lambda>k. g (1 + k), case u (g 0 db) of Inl e \<Rightarrow> g 0 db | Inr (x, f) \<Rightarrow> f (g 0 db), \<lambda>d. d))"
    by (simp add: autocommit_def Let_def split: sum.splits prod.splits)
  show "R db (case u (g 0 db) of Inl e \<Rightarrow> g 0 db | Inr (x, f) \<Rightarrow> f (g 0 db))"
    using assms [OF P R] R by (auto split: sum.splits intro: trans)
  show "(case u (g 0 db) of Inl e \<Rightarrow> Inl e | Inr (x, f) \<Rightarrow> Inr x) = Inr x \<Longrightarrow>
      Q x (case u (g 0 db) of Inl e \<Rightarrow> g 0 db | Inr (x, f) \<Rightarrow> f (g 0 db))"
    using assms [OF P R] by (auto split: sum.splits)
qed

lemma triple_then:
  assumes m: "triple P m Q" and k: "\<And>x. triple (Q x) (k x) S"
  shows "triple P (and_then m k) S"
proof (rule tripleI)
  fix g :: "'db gaps" and db
  assume g: "others g" and P: "P db"
  obtain r n d where step: "m (g, db, \<lambda>d. d) = (r, (\<lambda>k. g (n + k), d, \<lambda>d. d))" "R db d" "\<forall>x. r = Inr x \<longrightarrow> Q x d"
    using m g P unfolding triple_def by blast
  show "\<exists>r n db'. and_then m k (g, db, \<lambda>d. d) = (r, (\<lambda>k. g (n + k), db', \<lambda>d. d)) \<and> R db db' \<and>
      (\<forall>x. r = Inr x \<longrightarrow> S x db')"
  proof (cases r)
    case (Inl e)
    with step show ?thesis
      by (intro exI [of _ "Inl e"] exI [of _ n] exI [of _ d]) (simp add: and_then_def)
  next
    case (Inr x)
    then have "Q x d" using step by simp
    then obtain r' n' d' where "k x (\<lambda>k. g (n + k), d, \<lambda>d. d) = (r', (\<lambda>k. g (n + (n' + k)), d', \<lambda>d. d))"
        "R d d'" "\<forall>x. r' = Inr x \<longrightarrow> S x d'"
      using k [of x] others_shift [OF g, of n] unfolding triple_def by blast
    with step Inr show ?thesis
      by (intro exI [of _ r'] exI [of _ "n + n'"] exI [of _ d']) (auto simp: and_then_def add.assoc intro: trans)
  qed
qed

lemma triple_if: "(b \<Longrightarrow> triple P m Q) \<Longrightarrow> (\<not> b \<Longrightarrow> triple P m' Q) \<Longrightarrow> triple P (if b then m else m') Q"
  by simp

text \<open>The guarantee alone.\<close>

lemma keepsE:
  assumes "keeps m"
  obtains r n s where "m (g, db, \<lambda>d. d) = (r, (\<lambda>k. g (n + k), s n, \<lambda>d. d))" "s 0 = db" "steps_along g n s"
  using assms unfolding keeps_def by blast

lemma keepsI:
  assumes "\<And>g db. \<exists>r n s. m (g, db, \<lambda>d. d) = (r, (\<lambda>k. g (n + k), s n, \<lambda>d. d)) \<and> s 0 = db \<and> steps_along g n s"
  shows "keeps m"
  using assms unfolding keeps_def by blast

lemma keeps_none: "(\<And>g db. m (g, db, \<lambda>d. d) = (r, (g, db, \<lambda>d. d))) \<Longrightarrow> keeps m"
  by (rule keepsI, intro exI [of _ r] exI [of _ 0] exI [of _ "\<lambda>_. _"]) (simp add: steps_along_def)

lemma keeps_one:
  assumes "\<And>g db. m (g, db, \<lambda>d. d) = (r (g 0 db), (\<lambda>k. g (Suc k), f (g 0 db), \<lambda>d. d))" and "\<And>d. R d (f d)"
  shows "keeps m"
proof (rule keepsI)
  fix g :: "'db gaps" and db
  show "\<exists>r n s. m (g, db, \<lambda>d. d) = (r, (\<lambda>k. g (n + k), s n, \<lambda>d. d)) \<and> s 0 = db \<and> steps_along g n s"
    using assms
    by (intro exI [of _ "r (g 0 db)"] exI [of _ 1] exI [of _ "\<lambda>k. if k = 0 then db else f (g 0 db)"])
      (simp add: steps_along_def)
qed

lemma keeps_done: "keeps (done_with x)"
  by (rule keeps_none) (simp add: done_with_def)

lemma keeps_lifted: "keeps (lifted r)"
  by (rule keeps_none) (simp add: lifted_def)

lemma keeps_query: "keeps (query q)"
  by (rule keeps_one [where f = "\<lambda>d. d"]) (simp_all add: query_def Let_def)

lemma keeps_autocommit:
  assumes "\<And>d x f. u d = Inr (x, f) \<Longrightarrow> R d (f d)"
  shows "keeps (autocommit u)"
proof (rule keeps_one)
  show "autocommit u (g, db, \<lambda>d. d) = ((\<lambda>d. case u d of Inl e \<Rightarrow> Inl e | Inr (x, f) \<Rightarrow> Inr x) (g 0 db),
      (\<lambda>k. g (Suc k), (\<lambda>d. case u d of Inl e \<Rightarrow> d | Inr (x, f) \<Rightarrow> f d) (g 0 db), \<lambda>d. d))" for g :: "'db gaps" and db
    by (simp add: autocommit_def Let_def split: sum.splits prod.splits)
  show "R d ((\<lambda>d. case u d of Inl e \<Rightarrow> d | Inr (x, f) \<Rightarrow> f d) d)" for d
    using assms by (auto split: sum.splits)
qed

text \<open>The steps of a program and of what follows it.\<close>

lemma steps_append:
  assumes "steps_along g n s" and "steps_along (\<lambda>k. g (n + k)) n' s'" and "s' 0 = s n"
  shows "steps_along g (n + n') (\<lambda>k. if k \<le> n then s k else s' (k - n))"
  unfolding steps_along_def
proof (intro allI impI)
  fix k
  assume k: "k < n + n'"
  consider "k < n" | "k = n" | "n < k" by linarith
  then show "R (g k (if k \<le> n then s k else s' (k - n))) (if Suc k \<le> n then s (Suc k) else s' (Suc k - n))"
  proof cases
    case 1
    then show ?thesis using assms(1) by (simp add: steps_along_def)
  next
    case 2
    then have "0 < n'" using k by simp
    with assms(2) have "R (g n (s' 0)) (s' (Suc 0))" unfolding steps_along_def by (metis add_0_right)
    with 2 assms(3) show ?thesis by simp
  next
    case 3
    then have k': "k - n < n'" "n + (k - n) = k" "Suc k - n = Suc (k - n)" using k by auto
    from assms(2) k'(1) have "R (g (n + (k - n)) (s' (k - n))) (s' (Suc (k - n)))"
      unfolding steps_along_def by blast
    with 3 k'(2,3) show ?thesis by simp
  qed
qed

lemma keeps_then_when:
  assumes m: "keeps m" and "\<And>g db x s'. m (g, db, \<lambda>d. d) = (Inr x, s') \<Longrightarrow> keeps (k x)"
  shows "keeps (and_then m k)"
proof (rule keepsI)
  fix g :: "'db gaps" and db
  obtain r n s where step: "m (g, db, \<lambda>d. d) = (r, (\<lambda>k. g (n + k), s n, \<lambda>d. d))" "s 0 = db" "steps_along g n s"
    using m by (rule keepsE)
  show "\<exists>r n s. and_then m k (g, db, \<lambda>d. d) = (r, (\<lambda>k. g (n + k), s n, \<lambda>d. d)) \<and> s 0 = db \<and> steps_along g n s"
  proof (cases r)
    case (Inl e)
    with step show ?thesis by (intro exI [of _ "Inl e"] exI [of _ n] exI [of _ s]) (simp add: and_then_def)
  next
    case (Inr x)
    then have "keeps (k x)" using assms(2) step by blast
    then obtain r' n' s' where "k x (\<lambda>k. g (n + k), s n, \<lambda>d. d) = (r', (\<lambda>k. g (n + (n' + k)), s' n', \<lambda>d. d))"
        "s' 0 = s n" "steps_along (\<lambda>k. g (n + k)) n' s'"
      by (rule keepsE)
    moreover from this step have "steps_along g (n + n') (\<lambda>k. if k \<le> n then s k else s' (k - n))"
      by (intro steps_append)
    ultimately show ?thesis
      using step Inr
      by (intro exI [of _ r'] exI [of _ "n + n'"] exI [of _ "\<lambda>k. if k \<le> n then s k else s' (k - n)"])
        (auto simp: and_then_def add.assoc)
  qed
qed

lemma keeps_then: "keeps m \<Longrightarrow> (\<And>x. keeps (k x)) \<Longrightarrow> keeps (and_then m k)"
  by (rule keeps_then_when)

lemma keeps_then_lifted: "(\<And>x. r = Inr x \<Longrightarrow> keeps (k x)) \<Longrightarrow> keeps (and_then (lifted r) k)"
  by (rule keeps_then_when [OF keeps_lifted]) (simp add: lifted_def)

lemma keeps_then_query: "(\<And>d. keeps (k (q d))) \<Longrightarrow> keeps (and_then (query q) k)"
  by (rule keeps_then_when [OF keeps_query]) (auto simp: query_def Let_def)

text \<open>Among others that keep the relation, a program that keeps it leads along it.\<close>

lemma steps_reach: "steps_along g n s \<Longrightarrow> others g \<Longrightarrow> k \<le> n \<Longrightarrow> R (s 0) (s k)"
proof (induction k)
  case (Suc k)
  then have "R (s 0) (s k)" by simp
  also have "R (s k) (g k (s k))" using Suc.prems by (simp add: others_def)
  also have "R (g k (s k)) (s (Suc k))" using Suc.prems by (simp add: steps_along_def)
  finally show ?case .
qed simp

lemma keeps_triple: "keeps m \<Longrightarrow> triple P m (\<lambda>_ _. True)"
proof (rule tripleI)
  fix g :: "'db gaps" and db
  assume m: "keeps m" and g: "others g"
  obtain r n s where step: "m (g, db, \<lambda>d. d) = (r, (\<lambda>k. g (n + k), s n, \<lambda>d. d))" "s 0 = db" "steps_along g n s"
    using m by (rule keepsE)
  moreover from this(2) steps_reach [OF step(3) g order.refl] have "R db (s n)" by simp
  ultimately show "\<exists>r n db'. m (g, db, \<lambda>d. d) = (r, (\<lambda>k. g (n + k), db', \<lambda>d. d)) \<and> R db db' \<and> (\<forall>x. r = Inr x \<longrightarrow> True)"
    by (intro exI [of _ r] exI [of _ n] exI [of _ "s n"]) simp
qed

lemma keeps_run: "keeps m \<Longrightarrow> others g \<Longrightarrow> run_program m g db = (r, db') \<Longrightarrow> R db db'"
  using triple_run [OF keeps_triple [of m "\<lambda>_. True"]] by simp

lemma keeps_if: "(b \<Longrightarrow> keeps m) \<Longrightarrow> (\<not> b \<Longrightarrow> keeps m') \<Longrightarrow> keeps (if b then m else m')"
  by simp

lemma keeps_prod: "(\<And>a b. x = (a, b) \<Longrightarrow> keeps (k a b)) \<Longrightarrow> keeps (case x of (a, b) \<Rightarrow> k a b)"
  by (cases x) simp

lemma keeps_option: "keeps m \<Longrightarrow> (\<And>y. x = Some y \<Longrightarrow> keeps (k y)) \<Longrightarrow> keeps (case x of None \<Rightarrow> m | Some y \<Rightarrow> k y)"
  by (cases x) simp_all

lemma keeps_sum: "(\<And>y. keeps (l y)) \<Longrightarrow> (\<And>y. keeps (r y)) \<Longrightarrow> keeps (case x of Inl y \<Rightarrow> l y | Inr y \<Rightarrow> r y)"
  by (cases x) simp_all

lemmas keeps_cases = keeps_if keeps_prod keeps_option keeps_sum

end

end
