(* ===== verification/Dynamo_Writes.thy ===== *)
theory Dynamo_Writes
  imports Dynamo_Push Session_Rely
begin

text \<open>
  Keys and writes: escaped components are injective and free of delimiters, so artifact and lease
  keys name one task each and are never a task key; event keys sort as their numbers; a write item
  changes the item of its key only.
\<close>

section \<open>Escaped components\<close>

lemma replace_char_simps [simp]:
  "replace_char c r [] = []"
  "replace_char c r (x # xs) = (if x = c then r else [x]) @ replace_char c r xs"
  by (simp_all add: replace_char_def)

text \<open>The three replacements together escape each character once.\<close>

definition escaped :: "char \<Rightarrow> string" where
  "escaped x = (if x = CHR ''%'' then ''%25'' else if x = CHR ''|'' then ''%7C''
     else if x = CHR ''#'' then ''%23'' else [x])"

lemma enc_key_component_Cons: "enc_key_component (x # xs) = escaped x @ enc_key_component xs"
  by (simp add: enc_key_component_def escaped_def)

lemma enc_key_component_Nil [simp]: "enc_key_component [] = []"
  by (simp add: enc_key_component_def)

lemma enc_no_delimiter: "c \<in> set (enc_key_component s) \<Longrightarrow> c \<noteq> CHR ''|'' \<and> c \<noteq> CHR ''#''"
  by (induction s) (auto simp: enc_key_component_Cons escaped_def split: if_splits)

lemma escaped_neq_Nil [simp]: "escaped x \<noteq> []"
  by (simp add: escaped_def)

lemma escaped_append_inj: "escaped x @ u = escaped y @ v \<Longrightarrow> x = y \<and> u = v"
  by (auto simp: escaped_def split: if_splits)

lemma enc_key_component_inj: "enc_key_component s = enc_key_component t \<Longrightarrow> s = t"
proof (induction s arbitrary: t)
  case Nil
  then show ?case by (cases t) (auto simp: enc_key_component_Cons)
next
  case (Cons x s)
  then show ?case
    by (cases t) (auto simp: enc_key_component_Cons dest!: escaped_append_inj)
qed

lemma bar_split_inj:
  assumes "a @ CHR ''|'' # b = c @ CHR ''|'' # d" and "CHR ''|'' \<notin> set a" and "CHR ''|'' \<notin> set c"
  shows "a = c \<and> b = d"
  using assms
proof (induction a arbitrary: c)
  case Nil
  then show ?case by (cases c) auto
next
  case (Cons x a)
  then show ?case by (cases c) auto
qed

lemma enc_pair_inj:
  assumes "enc_key_component t @ ''|'' @ enc_key_component i = enc_key_component t' @ ''|'' @ enc_key_component i'"
  shows "t = t' \<and> i = i'"
  using bar_split_inj [of "enc_key_component t" _ "enc_key_component t'"] assms enc_no_delimiter
  by (auto dest!: enc_key_component_inj)

section \<open>Keys of tasks, artifacts, leases\<close>

lemma artifact_pk_inj: "artifact_pk t i = artifact_pk t' i' \<Longrightarrow> t = t' \<and> i = i'"
  by (rule enc_pair_inj) (simp add: artifact_pk_def)

lemma lease_pk_inj: "lease_pk t i = lease_pk t' i' \<Longrightarrow> t = t' \<and> i = i'"
  by (rule enc_pair_inj) (simp add: lease_pk_def)

lemma task_key_hash: "CHR ''#'' \<in> set (dynamo_task_key t i)"
  by (simp add: dynamo_task_key_def)

lemma artifact_pk_no_hash: "CHR ''#'' \<notin> set (artifact_pk t i)"
  using enc_no_delimiter by (auto simp: artifact_pk_def)

lemma lease_pk_no_hash: "CHR ''#'' \<notin> set (lease_pk t i)"
  using enc_no_delimiter by (auto simp: lease_pk_def)

lemma keys_apart [simp]:
  "CHR ''#'' \<in> set pk \<Longrightarrow> artifact_pk t i \<noteq> pk" "CHR ''#'' \<in> set pk \<Longrightarrow> pk \<noteq> artifact_pk t i"
  "CHR ''#'' \<in> set pk \<Longrightarrow> lease_pk t i \<noteq> pk" "CHR ''#'' \<in> set pk \<Longrightarrow> pk \<noteq> lease_pk t i"
  using artifact_pk_no_hash lease_pk_no_hash by auto

text \<open>The task key is the plain join: a tenant with a \<open>#\<close> shares keys with another tenant.\<close>

lemma task_keys_collide: "dynamo_task_key ''a#b'' ''c'' = dynamo_task_key ''a'' ''b#c''"
  by (simp add: dynamo_task_key_def)

lemma task_key_inj:
  assumes "dynamo_task_key t i = dynamo_task_key t' i'" and "CHR ''#'' \<notin> set t" and "CHR ''#'' \<notin> set t'"
  shows "t = t' \<and> i = i'"
  using assms
proof (induction t arbitrary: t')
  case Nil
  then show ?case by (cases t') (auto simp: dynamo_task_key_def)
next
  case (Cons x t)
  then show ?case by (cases t') (auto simp: dynamo_task_key_def)
qed

section \<open>Event keys\<close>

lemma event_sort_key_inj: "event_sort_key n = event_sort_key m \<longleftrightarrow> n = m"
  by (metis digits_val_pad event_sort_key_def option.inject)

lemma event_key_counter [simp]: "event_sort_key n = sequence_counter_sk \<longleftrightarrow> n = 0"
    "sequence_counter_sk = event_sort_key n \<longleftrightarrow> n = 0"
  by (auto simp: sequence_counter_sk_def event_sort_key_inj)

text \<open>Texts of one length compare as the numbers they are.\<close>

lemma digit_char_less: "d < 10 \<Longrightarrow> e < 10 \<Longrightarrow> digit_char d < digit_char e \<longleftrightarrow> d < e"
  by (simp add: less_char_def of_char_digit_char)

fun digit_text :: "nat \<Rightarrow> nat \<Rightarrow> string" where
  "digit_text 0 n = []"
| "digit_text (Suc w) n = digit_text w (n div 10) @ [digit_char (n mod 10)]"

lemma length_digit_text [simp]: "length (digit_text w n) = w"
  by (induction w arbitrary: n) simp_all

lemma digit_text_0: "digit_text w 0 = replicate w (CHR ''0'')"
proof (induction w)
  case (Suc w)
  have "digit_char 0 = CHR ''0''" by code_simp
  with Suc show ?case by (simp add: replicate_append_same)
qed simp

lemma show_nat_digit_text:
  assumes "n < 10 ^ w" and "0 < w"
  shows "pad_zero w (show_nat n) = digit_text w n"
  using assms
proof (induction w arbitrary: n)
  case (Suc w)
  show ?case
  proof (cases "n < 10")
    case True
    then have "pad_zero (Suc w) (show_nat n) = replicate w (CHR ''0'') @ [digit_char n]"
      by (simp add: pad_zero_def show_nat.simps)
    with True show ?thesis by (simp add: digit_text_0)
  next
    case False
    have "n div 10 < 10 ^ w" using Suc.prems by (simp add: less_mult_imp_div_less mult.commute)
    moreover have "0 < w" using False Suc.prems by (cases w) auto
    ultimately have "pad_zero w (show_nat (n div 10)) = digit_text w (n div 10)" by (rule Suc.IH)
    moreover have "pad_zero (Suc w) (show_nat n) = pad_zero w (show_nat (n div 10)) @ [digit_char (n mod 10)]"
      using False by (subst show_nat.simps) (simp add: pad_zero_def)
    ultimately show ?thesis by simp
  qed
qed simp

lemma lex_snoc:
  fixes xs ys :: string
  assumes "length xs = length ys"
  shows "xs @ [a] < ys @ [b] \<longleftrightarrow> xs < ys \<or> xs = ys \<and> a < b"
  using assms by (induction xs ys rule: list_induct2) auto

lemma digit_text_less:
  assumes "n < 10 ^ w" and "m < 10 ^ w"
  shows "digit_text w n < digit_text w m \<longleftrightarrow> n < m"
  using assms
proof (induction w arbitrary: n m)
  case (Suc w)
  have "n div 10 < 10 ^ w" "m div 10 < 10 ^ w"
    using Suc.prems by (simp_all add: less_mult_imp_div_less mult.commute)
  note IH = Suc.IH [OF this]
  have "digit_text w (n div 10) = digit_text w (m div 10) \<longleftrightarrow> n div 10 = m div 10"
    using IH Suc.IH [OF \<open>m div 10 < 10 ^ w\<close> \<open>n div 10 < 10 ^ w\<close>] by (metis linorder_neq_iff)
  then have "digit_text (Suc w) n < digit_text (Suc w) m \<longleftrightarrow>
      n div 10 < m div 10 \<or> n div 10 = m div 10 \<and> n mod 10 < m mod 10"
    by (simp add: lex_snoc IH digit_char_less)
  also have "\<dots> \<longleftrightarrow> n < m"
    using div_mult_mod_eq [of n 10] div_mult_mod_eq [of m 10] mod_less_divisor [of 10 n] mod_less_divisor [of 10 m]
    by linarith
  finally show ?case .
qed simp

lemma event_key_less:
  assumes "n < 2 ^ 64" and "m < 2 ^ 64"
  shows "event_sort_key n < event_sort_key m \<longleftrightarrow> n < m"
proof -
  have "k < 10 ^ 20" if "k < 2 ^ 64" for k :: nat using that by simp
  with assms show ?thesis by (simp add: event_sort_key_def show_nat_digit_text digit_text_less)
qed

text \<open>
  Write items one by one and as a transaction: each changes the item of its key only, so a
  transaction, whose keys differ, does to each key what its one item does.
\<close>

section \<open>Locality\<close>

primrec same_at :: "item_key \<Rightarrow> ('t, 'e, 'a, 'c) dynamo \<Rightarrow> ('t, 'e, 'a, 'c) dynamo \<Rightarrow> bool" where
  "same_at (TasksKey pk) d d' \<longleftrightarrow> hm_get (dy_tasks d) pk = hm_get (dy_tasks d') pk"
| "same_at (EventsKey pk sk) d d' \<longleftrightarrow> hm_get (dy_events d) (pk, sk) = hm_get (dy_events d') (pk, sk)"
| "same_at (ConfigsKey pk) d d' \<longleftrightarrow> hm_get (dy_configs d) pk = hm_get (dy_configs d') pk"
| "same_at (DeliveriesKey pk sk) d d' \<longleftrightarrow> hm_get (dy_deliveries d) (pk, sk) = hm_get (dy_deliveries d') (pk, sk)"
| "same_at (PendingKey pk sk) d d' \<longleftrightarrow> hm_get (dy_pending d) (pk, sk) = hm_get (dy_pending d') (pk, sk)"

lemma same_at_refl [simp]: "same_at k d d"
  by (cases k) simp_all

lemma same_at_sym: "same_at k d d' \<Longrightarrow> same_at k d' d"
  by (cases k) simp_all

lemma same_at_trans [trans]: "same_at k a b \<Longrightarrow> same_at k b c \<Longrightarrow> same_at k a c"
  by (cases k) simp_all

definition writes_at :: "('t, 'e, 'a, 'c) write_item \<Rightarrow> bool" where
  "writes_at w \<longleftrightarrow> (\<forall>d k. k \<noteq> wi_key w \<longrightarrow> same_at k d (wi_write w d))"

text \<open>What becomes of the own key depends on that key only.\<close>

definition reads_at :: "('t, 'e, 'a, 'c) write_item \<Rightarrow> bool" where
  "reads_at w \<longleftrightarrow> (\<forall>d d'. same_at (wi_key w) d d' \<longrightarrow> same_at (wi_key w) (wi_write w d) (wi_write w d'))"

definition local_write :: "('t, 'e, 'a, 'c) write_item \<Rightarrow> bool" where
  "local_write w \<longleftrightarrow> writes_at w \<and> reads_at w"

named_theorems local_writes

lemma local_writeI:
  assumes "\<And>d k. k \<noteq> wi_key w \<Longrightarrow> same_at k d (wi_write w d)"
    and "\<And>d d'. same_at (wi_key w) d d' \<Longrightarrow> same_at (wi_key w) (wi_write w d) (wi_write w d')"
  shows "local_write w"
  using assms by (simp add: local_write_def writes_at_def reads_at_def)

lemma same_at_put_task: "k \<noteq> TasksKey pk \<Longrightarrow> same_at k d (put_task_entry pk x d)"
  by (cases k) (auto simp: put_task_entry_def hm_simps)

lemma same_at_put_events: "k \<noteq> EventsKey pk sk \<Longrightarrow> same_at k d (put_events_entry pk sk x d)"
  by (cases k) (auto simp: put_events_entry_def hm_simps)

lemma local_task_put [local_writes]: "local_write (task_put pk item cond)"
  by (rule local_writeI) (simp_all add: task_put_def same_at_put_task, simp add: put_task_entry_def hm_simps)

lemma local_event_put [local_writes]: "local_write (event_put pk sq data ttl)"
  by (rule local_writeI) (simp_all add: event_put_def same_at_put_events, simp add: put_events_entry_def hm_simps)

lemma local_counter [local_writes]: "local_write (build_sequence_counter_update pk observed n ttl)"
proof (rule local_writeI)
  let ?w = "build_sequence_counter_update pk observed n ttl"
  show "k \<noteq> wi_key ?w \<Longrightarrow> same_at k d (wi_write ?w d)" for k d
    by (auto simp: build_sequence_counter_update_def same_at_put_events split: option.splits events_entry.splits)
  show "same_at (wi_key ?w) d d' \<Longrightarrow> same_at (wi_key ?w) (wi_write ?w d) (wi_write ?w d')" for d d'
    by (auto simp: build_sequence_counter_update_def put_events_entry_def hm_simps
      split: option.splits events_entry.splits)
qed

lemma same_at_tasks: "k \<noteq> TasksKey pk \<Longrightarrow> same_at k d (d\<lparr>dy_tasks := hm_remove pk (dy_tasks d)\<rparr>)"
  by (cases k) (auto simp: hm_simps)

lemma same_at_events: "k \<noteq> EventsKey pk sk \<Longrightarrow> same_at k d (d\<lparr>dy_events := hm_remove (pk, sk) (dy_events d)\<rparr>)"
  by (cases k) (auto simp: hm_simps)

lemma local_artifact_delete [local_writes]: "local_write (artifact_delete pk sk)"
  by (rule local_writeI) (simp_all add: artifact_delete_def same_at_events hm_simps)

lemma local_task_delete [local_writes]: "local_write (task_delete pk cond)"
  by (rule local_writeI) (simp_all add: task_delete_def same_at_tasks hm_simps)

lemma same_at_pending: "k \<noteq> PendingKey pk sk \<Longrightarrow> same_at k d (d\<lparr>dy_pending := hm_insert (pk, sk) x (dy_pending d)\<rparr>)"
  by (cases k) (auto simp: hm_simps)

lemma same_at_configs: "k \<noteq> ConfigsKey pk \<Longrightarrow> same_at k d (d\<lparr>dy_configs := hm_insert pk x (dy_configs d)\<rparr>)"
  by (cases k) (auto simp: hm_simps)

lemma local_marker_put [local_writes]: "local_write (marker_put cf now tn i ow sq)"
  by (rule local_writeI) (simp_all add: marker_put_def same_at_pending hm_simps)

lemma local_floor_check [local_writes]: "local_write (floor_check pk b n)"
  by (rule local_writeI) (simp_all add: floor_check_def)

lemma local_config_put [local_writes]: "local_write (config_put tn cfg json n ttl)"
  by (rule local_writeI) (simp_all add: config_put_def Let_def same_at_configs hm_simps)

lemma local_task_update:
  assumes "wi_key w = TasksKey pk"
    and "\<And>d. wi_write w d = (case task_at d pk of Some x \<Rightarrow> put_task_entry pk (TaskItem (f x)) d | None \<Rightarrow> d)"
  shows "local_write w"
proof (rule local_writeI)
  show "k \<noteq> wi_key w \<Longrightarrow> same_at k d (wi_write w d)" for k d
    by (auto simp: assms same_at_put_task split: option.splits)
  show "same_at (wi_key w) d d' \<Longrightarrow> same_at (wi_key w) (wi_write w d) (wi_write w d')" for d d'
    by (auto simp: assms task_at_def put_task_entry_def hm_simps split: option.splits tasks_entry.splits)
qed

lemma local_task_updates [local_writes]:
  "local_write (task_status_update pk ow blob st now ttl)" "local_write (cancel_update pk ow)"
  by (rule local_task_update [where pk = pk], simp_all add: task_status_update_def cancel_update_def)+

lemma local_lease_put [local_writes]: "local_write (lease_put tn i e)"
  by (rule local_writeI) (simp_all add: lease_put_def same_at_put_task, simp add: put_task_entry_def hm_simps)

lemma same_at_remove:
  "k \<noteq> ConfigsKey pk \<Longrightarrow> same_at k d (d\<lparr>dy_configs := hm_remove pk (dy_configs d)\<rparr>)"
  "k \<noteq> PendingKey pk sk \<Longrightarrow> same_at k d (d\<lparr>dy_pending := hm_remove (pk, sk) (dy_pending d)\<rparr>)"
  by (cases k; auto simp: hm_simps)+

lemma local_deletes [local_writes]: "local_write (config_delete k)" "local_write (marker_delete a b)"
  by (rule local_writeI; simp add: config_delete_def marker_delete_def same_at_remove hm_simps)+

lemma local_stamp_config [local_writes]: "local_write (stamp_config_ttl ttl k)"
  by (rule local_writeI) (auto simp: stamp_config_ttl_def same_at_configs hm_simps split: option.splits)

lemma local_stamp_events [local_writes]: "local_write (stamp_events_ttl ttl (pk, sk))"
proof (rule local_writeI)
  let ?w = "stamp_events_ttl ttl (pk, sk)"
  show "k \<noteq> wi_key ?w \<Longrightarrow> same_at k d (wi_write ?w d)" for k d
    by (auto simp: stamp_events_ttl_def same_at_put_events split: option.splits)
  show "same_at (wi_key ?w) d d' \<Longrightarrow> same_at (wi_key ?w) (wi_write ?w d) (wi_write ?w d')" for d d'
    by (auto simp: stamp_events_ttl_def put_events_entry_def hm_simps split: option.splits)
qed

section \<open>Transactions\<close>

lemma fold_same_at:
  assumes "\<And>w. w \<in> set ws \<Longrightarrow> local_write w" and "k \<notin> wi_key ` set ws"
  shows "same_at k d (fold wi_write ws d)"
  using assms
proof (induction ws arbitrary: d)
  case (Cons w ws)
  have "same_at k d (wi_write w d)" using Cons.prems by (auto simp: local_write_def writes_at_def)
  also have "same_at k (wi_write w d) (fold wi_write ws (wi_write w d))" using Cons by simp
  finally show ?case by simp
qed simp

lemma fold_own:
  assumes local: "\<And>w. w \<in> set ws \<Longrightarrow> local_write w" and "distinct (map wi_key ws)" and "w \<in> set ws"
  shows "same_at (wi_key w) (wi_write w d) (fold wi_write ws d)"
proof -
  obtain a b where ws: "ws = a @ w # b" using assms(3) by (auto simp: in_set_conv_decomp)
  let ?k = "wi_key w"
  have other: "?k \<notin> wi_key ` set a" "?k \<notin> wi_key ` set b" using assms(2) by (auto simp: ws)
  have "same_at ?k d (fold wi_write a d)" by (rule fold_same_at) (auto simp: ws local other)
  then have "same_at ?k (wi_write w d) (wi_write w (fold wi_write a d))"
    using local [OF assms(3)] by (simp add: local_write_def reads_at_def)
  also have "same_at ?k (wi_write w (fold wi_write a d)) (fold wi_write b (wi_write w (fold wi_write a d)))"
    by (rule fold_same_at) (auto simp: ws local other)
  finally show ?thesis by (simp add: ws)
qed

lemma reasons_none:
  "list_all (\<lambda>r. r = None) (transact_reasons conflict ws d) \<Longrightarrow> w \<in> set ws \<Longrightarrow> wi_condition w d"
proof -
  assume all: "list_all (\<lambda>r. r = None) (transact_reasons conflict ws d)" and "w \<in> set ws"
  then obtain i where i: "i < length ws" "ws ! i = w" by (auto simp: in_set_conv_nth)
  have "transact_reasons conflict ws d ! i = None"
    using all i(1) by (simp add: list_all_length transact_reasons_def)
  with i show "wi_condition w d"
    by (auto simp: transact_reasons_def nth_enumerate_eq split: if_splits)
qed

text \<open>What a transaction can do: nothing, or all of its items with every condition met.\<close>

lemma transaction_change:
  assumes "(if \<not> distinct (map wi_key ws) \<or> length ws > 100 then (TxInvalid, \<lambda>db. db)
     else let reasons = transact_reasons conflict ws d
       in if list_all (\<lambda>r. r = None) reasons then (TxWritten, \<lambda>db. fold wi_write ws db)
          else (TxCanceled reasons, \<lambda>db. db)) = (res, f)"
  shows "(res \<noteq> TxWritten \<and> f d = d) \<or> (res = TxWritten \<and> distinct (map wi_key ws) \<and> f d = fold wi_write ws d \<and>
    (\<forall>w \<in> set ws. wi_condition w d))"
  using assms by (auto simp: Let_def dest: reasons_none split: if_splits)

context rely
begin

lemma keeps_caught:
  assumes "keeps m"
  shows "keeps (caught m)"
proof (rule keepsI)
  fix g :: "'db gaps" and db
  obtain r n s where "m (g, db, \<lambda>d. d) = (r, (\<lambda>k. g (n + k), s n, \<lambda>d. d))" "s 0 = db" "steps_along g n s"
    using assms by (rule keepsE)
  then show "\<exists>r n s. caught m (g, db, \<lambda>d. d) = (r, (\<lambda>k. g (n + k), s n, \<lambda>d. d)) \<and> s 0 = db \<and> steps_along g n s"
    by (intro exI [of _ "Inr r"] exI [of _ n] exI [of _ s]) (simp add: caught_def)
qed

lemma keeps_race_loop: "(\<And>k x. keeps (body k x)) \<Longrightarrow> keeps (race_loop left k pk body x)"
proof (induction left arbitrary: k x)
  case 0
  then show ?case by (simp add: keeps_lifted)
next
  case (Suc left)
  then show ?case
    by (auto intro!: keeps_then keeps_done keeps_lifted split: sum.splits)
qed

lemma keeps_retry: "(\<And>k x. keeps (body k x)) \<Longrightarrow> keeps (with_retry pk body x)"
  unfolding with_retry_def by (rule keeps_race_loop)

end

locale dynamo_rely = rely R for R :: "('t, 'e, 'a, 'c) dynamo \<Rightarrow> ('t, 'e, 'a, 'c) dynamo \<Rightarrow> bool"
begin

lemma triple_transaction:
  assumes "\<And>db d. P db \<Longrightarrow> R db d \<Longrightarrow> distinct (map wi_key ws) \<Longrightarrow> (\<And>w. w \<in> set ws \<Longrightarrow> wi_condition w d) \<Longrightarrow>
      R d (fold wi_write ws d) \<and> Q TxWritten (fold wi_write ws d)"
    and "\<And>db d res. P db \<Longrightarrow> R db d \<Longrightarrow> res \<noteq> TxWritten \<Longrightarrow> Q res d"
  shows "triple P (send_transaction conflict ws) Q"
  unfolding send_transaction_def
proof (rule triple_autocommit)
  fix db d res f
  assume P: "P db" "R db d"
  assume "Inr (if \<not> distinct (map wi_key ws) \<or> length ws > 100 then (TxInvalid, \<lambda>db. db)
     else let reasons = transact_reasons conflict ws d
       in if list_all (\<lambda>r. r = None) reasons then (TxWritten, \<lambda>db. fold wi_write ws db)
          else (TxCanceled reasons, \<lambda>db. db)) = Inr (res, f)"
  then have "(res \<noteq> TxWritten \<and> f d = d) \<or> (res = TxWritten \<and> distinct (map wi_key ws) \<and> f d = fold wi_write ws d \<and>
      (\<forall>w \<in> set ws. wi_condition w d))"
    by (intro transaction_change) (simp only: sum.inject)
  then consider "res \<noteq> TxWritten" "f d = d"
    | "res = TxWritten" "distinct (map wi_key ws)" "f d = fold wi_write ws d" "\<And>w. w \<in> set ws \<Longrightarrow> wi_condition w d"
    by blast
  then show "R d (f d) \<and> Q res (f d)"
    using assms P by cases auto
qed

lemma keeps_transaction:
  assumes "\<And>d. distinct (map wi_key ws) \<Longrightarrow> (\<And>w. w \<in> set ws \<Longrightarrow> wi_condition w d) \<Longrightarrow> R d (fold wi_write ws d)"
  shows "keeps (send_transaction conflict ws)"
  unfolding send_transaction_def
proof (rule keeps_autocommit)
  fix d res f
  assume "Inr (if \<not> distinct (map wi_key ws) \<or> length ws > 100 then (TxInvalid, \<lambda>db. db)
     else let reasons = transact_reasons conflict ws d
       in if list_all (\<lambda>r. r = None) reasons then (TxWritten, \<lambda>db. fold wi_write ws db)
          else (TxCanceled reasons, \<lambda>db. db)) = Inr (res, f)"
  then have "(res \<noteq> TxWritten \<and> f d = d) \<or> (res = TxWritten \<and> distinct (map wi_key ws) \<and> f d = fold wi_write ws d \<and>
      (\<forall>w \<in> set ws. wi_condition w d))"
    by (intro transaction_change) (simp only: sum.inject)
  then consider "f d = d" | "f d = fold wi_write ws d" "distinct (map wi_key ws)" "\<And>w. w \<in> set ws \<Longrightarrow> wi_condition w d"
    by blast
  then show "R d (f d)" using assms by cases auto
qed

end

end
