(* ===== verification/Dynamo_Log.thy ===== *)
theory Dynamo_Log
  imports Dynamo_Writes
begin

text \<open>
  The event log of one task on DynamoDB, under sessions that interleave and items that expire: a
  number at or below the counter is never given out again and the event under it never changes;
  it can only expire. Every operation of the backend keeps this, so each may rely on it.
\<close>

section \<open>The relation\<close>

definition event_at :: "('t, 'e, 'a, 'c) dynamo \<Rightarrow> string \<Rightarrow> nat \<Rightarrow> ('e, 'a) events_entry option" where
  "event_at db pk sq = hm_get (dy_events db) (pk, event_sort_key sq)"

text \<open>The partition of a task holds its counter and events numbered up to it.\<close>

definition log_inv :: "string \<Rightarrow> ('t, 'e, 'a, 'c) dynamo \<Rightarrow> bool" where
  "log_inv pk db \<longleftrightarrow> (\<forall>sk x. hm_get (dy_events db) (pk, sk) = Some x \<longrightarrow>
     (sk = sequence_counter_sk \<and> (\<exists>n ttl. x = CounterItem n ttl \<and> 0 < n)) \<or>
     (\<exists>sq data ttl. x = EventItem sq data ttl \<and> sk = event_sort_key sq \<and> 1 \<le> sq \<and> sq \<le> counter_at db pk))"

definition log_rel :: "string \<Rightarrow> ('t, 'e, 'a, 'c) dynamo \<Rightarrow> ('t, 'e, 'a, 'c) dynamo \<Rightarrow> bool" where
  "log_rel pk db db' \<longleftrightarrow> (log_inv pk db \<longrightarrow> log_inv pk db' \<and> counter_at db pk \<le> counter_at db' pk \<and>
     (\<forall>sq. 1 \<le> sq \<longrightarrow> sq \<le> counter_at db pk \<longrightarrow>
        event_at db' pk sq = event_at db pk sq \<or> event_at db' pk sq = None))"

lemma log_relD:
  assumes "log_rel pk a b" and "log_inv pk a"
  shows "log_inv pk b" "counter_at a pk \<le> counter_at b pk"
    "1 \<le> sq \<Longrightarrow> sq \<le> counter_at a pk \<Longrightarrow> event_at b pk sq = event_at a pk sq \<or> event_at b pk sq = None"
  using assms by (auto simp: log_rel_def)

interpretation dlog: dynamo_rely "log_rel pk :: ('t, 'e, 'a, 'c) dynamo \<Rightarrow> _" for pk
proof
  show "log_rel pk d d" for d :: "('t, 'e, 'a, 'c) dynamo" by (simp add: log_rel_def)
  show "log_rel pk a c" if r: "log_rel pk a b" "log_rel pk b c" for a b c :: "('t, 'e, 'a, 'c) dynamo"
    unfolding log_rel_def
  proof (intro impI conjI allI)
    assume inv: "log_inv pk a"
    note ab = log_relD [OF r(1) inv] and bc = log_relD [OF r(2) log_relD(1) [OF r(1) inv]]
    show "log_inv pk c" by (rule bc(1))
    show "counter_at a pk \<le> counter_at c pk" using ab(2) bc(2) by simp
    fix sq :: nat
    assume "1 \<le> sq" "sq \<le> counter_at a pk"
    then show "event_at c pk sq = event_at a pk sq \<or> event_at c pk sq = None"
      using ab(2,3) bc(3) by (metis le_trans)
  qed
qed

lemma log_rel_same:
  assumes "\<And>sk. hm_get (dy_events d') (pk, sk) = hm_get (dy_events d) (pk, sk)"
  shows "log_rel pk d d'"
  using assms by (simp add: log_rel_def log_inv_def counter_at_def event_at_def)

section \<open>Writes beside the log\<close>

definition beside :: "string \<Rightarrow> ('t, 'e, 'a, 'c) write_item \<Rightarrow> bool" where
  "beside pk w \<longleftrightarrow> local_write w \<and> (\<forall>sk. wi_key w \<noteq> EventsKey pk sk)"

named_theorems beside_rules

lemma beside_same:
  assumes "beside pk w"
  shows "hm_get (dy_events (wi_write w d)) (pk, sk) = hm_get (dy_events d) (pk, sk)"
proof -
  have "EventsKey pk sk \<noteq> wi_key w" using assms by (metis beside_def)
  moreover have "\<forall>d k. k \<noteq> wi_key w \<longrightarrow> same_at k d (wi_write w d)"
    using assms unfolding beside_def local_write_def writes_at_def by blast
  ultimately have "same_at (EventsKey pk sk) d (wi_write w d)" by blast
  then show ?thesis by simp
qed

lemma beside_fold:
  assumes "\<And>w. w \<in> set ws \<Longrightarrow> beside pk w"
  shows "hm_get (dy_events (fold wi_write ws d)) (pk, sk) = hm_get (dy_events d) (pk, sk)"
  using assms by (induction ws arbitrary: d) (simp_all add: beside_same)

lemma keeps_send_write: "beside pk w \<Longrightarrow> dlog.keeps pk (send_write w)"
  unfolding send_write_def by (rule dlog.keeps_autocommit) (auto intro: log_rel_same beside_same split: if_splits)

lemma keeps_send_all: "(\<And>w. w \<in> set ws \<Longrightarrow> beside pk w) \<Longrightarrow> dlog.keeps pk (send_all ws)"
  by (induction ws) (auto intro!: dlog.keeps_then dlog.keeps_done keeps_send_write)

lemma keeps_beside_transaction:
  "(\<And>w. w \<in> set ws \<Longrightarrow> beside pk w) \<Longrightarrow> dlog.keeps pk (send_transaction conflict ws)"
  by (rule dlog.keeps_transaction) (auto intro: log_rel_same beside_fold)

lemma beside_tasks [beside_rules]:
  "beside pk (task_put k item cond)" "beside pk (task_delete k cond)" "beside pk (floor_check k b n)"
  "beside pk (config_put tn cfg json n ttl)" "beside pk (marker_put cf now tn i ow sq)"
  by (auto simp: beside_def local_writes) (auto simp: task_put_def task_delete_def floor_check_def
    config_put_def marker_put_def Let_def)

lemma beside_updates [beside_rules]:
  "beside pk (task_status_update k ow blob st now ttl)" "beside pk (cancel_update k ow)"
  "beside pk (lease_put tn i e)" "beside pk (lease_delete_if_expiry tn i e)"
  by (simp_all add: beside_def local_writes lease_delete_if_expiry_def)
    (simp_all add: task_status_update_def cancel_update_def lease_put_def task_delete_def)

lemma beside_configs [beside_rules]:
  "beside pk (config_delete k)" "beside pk (stamp_config_ttl ttl k)" "beside pk (marker_delete a b)"
  by (simp_all add: beside_def local_writes) (simp_all add: config_delete_def stamp_config_ttl_def marker_delete_def)

text \<open>An artifact item is in a partition of its own.\<close>

lemma beside_stamp: "fst k \<noteq> pk \<Longrightarrow> beside pk (stamp_events_ttl ttl k)"
  by (cases k) (auto simp: beside_def local_writes, simp add: stamp_events_ttl_def)

lemma beside_artifact_delete: "art_pk \<noteq> pk \<Longrightarrow> beside pk (artifact_delete art_pk i)"
  by (simp add: beside_def local_writes) (simp add: artifact_delete_def)

lemma beside_artifact_puts:
  assumes "artifact_puts C art_pk ttl ws = Inr items" and "art_pk \<noteq> pk" and "w \<in> set items"
  shows "beside pk w"
  using assms
proof (induction C art_pk ttl ws arbitrary: items rule: artifact_puts.induct)
  case (2 C art_pk ttl a f ws)
  have put: "local_write \<lparr>wi_key = EventsKey art_pk i, wi_condition = no_condition, wi_write = put_events_entry art_pk i x\<rparr>"
    for i x
    by (rule local_writeI) (simp_all add: same_at_put_events, simp add: put_events_entry_def hm_simps)
  from 2 show ?case
    by (auto simp: attempt_def beside_def put split: sum.splits)
qed simp

lemma beside_artifacts:
  assumes "artifact_transact_items C art_pk plan ttl = Inr items" and "art_pk \<noteq> pk" and "w \<in> set items"
  shows "beside pk w"
  using assms
  by (auto simp: artifact_transact_items_def attempt_def intro: beside_artifact_delete beside_artifact_puts split: sum.splits)

section \<open>A commit\<close>

lemma event_puts_Cons:
  assumes "event_puts C pk ttl ((sq, ev) # xs) = Inr items"
  obtains data items' where "enc_event C ev = Inr data" "event_puts C pk ttl xs = Inr items'"
    "items = event_put pk sq data ttl # items'"
  using assms by (auto simp: attempt_def serde_def split: sum.splits)

lemma event_puts_items:
  assumes "event_puts C pk ttl xs = Inr items" and "w \<in> set items"
  shows "\<exists>sq data. sq \<in> fst ` set xs \<and> w = event_put pk sq data ttl"
  using assms
proof (induction xs arbitrary: items)
  case (Cons e xs)
  obtain sq ev where e: "e = (sq, ev)" by (cases e)
  from Cons.prems(1) [unfolded e] obtain data items' where
    "event_puts C pk ttl xs = Inr items'" "items = event_put pk sq data ttl # items'"
    by (rule event_puts_Cons)
  with Cons show ?case by (auto simp: e)
qed simp

lemma event_puts_has:
  assumes "event_puts C pk ttl xs = Inr items" and "(sq, ev) \<in> set xs"
  shows "\<exists>data. enc_event C ev = Inr data \<and> event_put pk sq data ttl \<in> set items"
  using assms
proof (induction xs arbitrary: items)
  case (Cons e xs)
  obtain sq' ev' where e: "e = (sq', ev')" by (cases e)
  from Cons.prems(1) [unfolded e] obtain data items' where
    "enc_event C ev' = Inr data" "event_puts C pk ttl xs = Inr items'" "items = event_put pk sq' data ttl # items'"
    by (rule event_puts_Cons)
  with Cons show ?case by (auto simp: e)
qed simp

lemma set_sequences_after: "set (sequences_after observed n) = {observed + 1..observed + n}"
proof -
  have "set (sequences_after observed n) = (\<lambda>i. observed + i) ` {1..n}"
    by (simp add: sequences_after_def atLeastLessThanSuc_atLeastAtMost del: upt_Suc)
  then show ?thesis by (simp add: add.commute)
qed

lemma length_sequences_after [simp]: "length (sequences_after observed n) = n"
  by (simp add: sequences_after_def)

text \<open>
  The transaction of a commit: items beside the log, the event puts, the counter write. Whatever
  value the allocation observed, the counter had it when the transaction went through.
\<close>

definition commit_items ::
  "string \<Rightarrow> nat \<Rightarrow> nat \<Rightarrow> nat option \<Rightarrow> ('t, 'e, 'a, 'c) write_item list \<Rightarrow> ('t, 'e, 'a, 'c) write_item list \<Rightarrow>
   ('t, 'e, 'a, 'c) write_item list \<Rightarrow> ('t, 'e, 'a, 'c) write_item list" where
  "commit_items pk observed n cttl pre event_items post =
     pre @ event_items @ build_sequence_counter_update pk observed n cttl # post"

definition goes_through ::
  "('t, 'e, 'a, 'c) codec \<Rightarrow> string \<Rightarrow> nat \<Rightarrow> nat \<Rightarrow> nat option \<Rightarrow> nat option \<Rightarrow> stream_event list \<Rightarrow>
   ('t, 'e, 'a, 'c) write_item list \<Rightarrow> ('t, 'e, 'a, 'c) write_item list \<Rightarrow> ('t, 'e, 'a, 'c) write_item list \<Rightarrow>
   ('t, 'e, 'a, 'c) dynamo \<Rightarrow> bool" where
  "goes_through C pk observed n ettl cttl evs pre event_items post d \<longleftrightarrow>
     event_puts C pk ettl (zip (sequences_after observed n) evs) = Inr event_items \<and>
     length evs = n \<and> 0 < n \<and> (\<forall>w \<in> set pre \<union> set post. beside pk w) \<and>
     distinct (map wi_key (commit_items pk observed n cttl pre event_items post)) \<and>
     (\<forall>w \<in> set (commit_items pk observed n cttl pre event_items post). wi_condition w d) \<and> log_inv pk d"

lemma sequences_nth: "i < n \<Longrightarrow> sequences_after observed n ! i = observed + i + 1"
  by (simp add: sequences_after_def del: upt_Suc)

lemma log_counter_entry:
  assumes "log_inv pk d" and "hm_get (dy_events d) (pk, sequence_counter_sk) = Some x"
  shows "\<exists>n ttl. x = CounterItem n ttl"
  using assms unfolding log_inv_def by (metis event_key_counter(2) not_one_le_zero)

lemma through_local:
  assumes through: "goes_through C pk observed n ettl cttl evs pre event_items post d"
  shows "w \<in> set (commit_items pk observed n cttl pre event_items post) \<Longrightarrow> local_write w"
proof -
  have puts: "event_puts C pk ettl (zip (sequences_after observed n) evs) = Inr event_items"
    using through by (simp add: goes_through_def)
  have "local_write w" if "w \<in> set event_items" for w
    using event_puts_items [OF puts that] local_event_put by auto
  then show "w \<in> set (commit_items pk observed n cttl pre event_items post) \<Longrightarrow> local_write w"
    using through local_counter by (auto simp: goes_through_def commit_items_def beside_def)
qed

lemma through_own:
  assumes through: "goes_through C pk observed n ettl cttl evs pre event_items post d"
  shows "w \<in> set (commit_items pk observed n cttl pre event_items post) \<Longrightarrow> same_at (wi_key w) (wi_write w d)
    (fold wi_write (commit_items pk observed n cttl pre event_items post) d)"
  by (rule fold_own) (use through through_local [OF through] in \<open>auto simp: goes_through_def\<close>)

lemma through_counter:
  assumes through: "goes_through C pk observed n ettl cttl evs pre event_items post (d :: ('t, 'e, 'a, 'c) dynamo)"
  shows "(observed = 0 \<and> hm_get (dy_events d) (pk, sequence_counter_sk) = None) \<or>
    (observed \<noteq> 0 \<and> (\<exists>ttl. hm_get (dy_events d) (pk, sequence_counter_sk) = Some (CounterItem observed ttl)))"
proof -
  have "wi_condition (build_sequence_counter_update pk observed n cttl :: ('t, 'e, 'a, 'c) write_item) d"
    using through by (simp add: goes_through_def commit_items_def)
  then show ?thesis
    using log_counter_entry [of pk d] through
    by (cases "hm_get (dy_events d) (pk, sequence_counter_sk)")
      (auto simp: goes_through_def build_sequence_counter_update_def)
qed

lemma through_before:
  assumes through: "goes_through C pk observed n ettl cttl evs pre event_items post d"
  shows "counter_at d pk = observed"
  using through_counter [OF through] by (auto simp: counter_at_def)

lemma counter_key: "wi_key (build_sequence_counter_update pk observed n cttl) = EventsKey pk sequence_counter_sk"
  by (simp add: build_sequence_counter_update_def)

lemma through_entry:
  assumes through: "goes_through C pk observed n ettl cttl evs pre event_items post d"
  shows "\<exists>ttl. hm_get (dy_events (fold wi_write (commit_items pk observed n cttl pre event_items post) d))
    (pk, sequence_counter_sk) = Some (CounterItem (observed + n) ttl)"
proof -
  let ?w = "build_sequence_counter_update pk observed n cttl"
  have "?w \<in> set (commit_items pk observed n cttl pre event_items post)" by (simp add: commit_items_def)
  from through_own [OF through this]
  have "hm_get (dy_events (fold wi_write (commit_items pk observed n cttl pre event_items post) d)) (pk, sequence_counter_sk) =
      hm_get (dy_events (wi_write ?w d)) (pk, sequence_counter_sk)"
    by (simp add: counter_key)
  also have "\<exists>ttl. \<dots> = Some (CounterItem (observed + n) ttl)"
    using through_counter [OF through] by (auto simp: build_sequence_counter_update_def put_events_entry_def hm_simps)
  finally show ?thesis .
qed

lemma through_after:
  assumes through: "goes_through C pk observed n ettl cttl evs pre event_items post d"
  shows "counter_at (fold wi_write (commit_items pk observed n cttl pre event_items post) d) pk = observed + n"
  using through_entry [OF through] by (auto simp: counter_at_def)

lemma through_event:
  assumes through: "goes_through C pk observed n ettl cttl evs pre event_items post d"
    and "i < n"
  shows "\<exists>data. enc_event C (evs ! i) = Inr data \<and> event_at (fold wi_write (commit_items pk observed n cttl pre event_items post) d)
    pk (observed + i + 1) = Some (EventItem (observed + i + 1) data ettl)"
proof -
  have puts: "event_puts C pk ettl (zip (sequences_after observed n) evs) = Inr event_items" "length evs = n"
    using through by (simp_all add: goes_through_def)
  have "(observed + i + 1, evs ! i) \<in> set (zip (sequences_after observed n) evs)"
    using assms puts(2) sequences_nth [OF assms(2), of observed] by (auto simp: in_set_zip intro!: exI [of _ i])
  from event_puts_has [OF puts(1) this] obtain data where data: "enc_event C (evs ! i) = Inr data"
      "event_put pk (observed + i + 1) data ettl \<in> set event_items"
    by blast
  then have "event_put pk (observed + i + 1) data ettl \<in> set (commit_items pk observed n cttl pre event_items post)"
    by (simp add: commit_items_def)
  from through_own [OF through this] data(1) show ?thesis
    by (auto simp: event_put_def put_events_entry_def hm_simps event_at_def)
qed

lemma through_other:
  assumes through: "goes_through C pk observed n ettl cttl evs pre event_items post (d :: ('t, 'e, 'a, 'c) dynamo)"
    and "sk \<noteq> sequence_counter_sk"
    and "\<And>sq. sq \<in> {observed + 1..observed + n} \<Longrightarrow> sk \<noteq> event_sort_key sq"
  shows "hm_get (dy_events (fold wi_write (commit_items pk observed n cttl pre event_items post) d)) (pk, sk) =
    hm_get (dy_events d) (pk, sk)"
proof -
  have puts: "event_puts C pk ettl (zip (sequences_after observed n) evs) = Inr event_items"
    using through by (simp add: goes_through_def)
  have "wi_key w \<noteq> EventsKey pk sk" if w: "w \<in> set event_items" for w
  proof -
    obtain sq data where sq: "sq \<in> fst ` set (zip (sequences_after observed n) evs)" "w = event_put pk sq data ettl"
      using event_puts_items [OF puts w] by auto
    then have "sq \<in> {observed + 1..observed + n}"
      using set_sequences_after by (auto dest: set_zip_leftD)
    with sq show ?thesis using assms(3) by (auto simp: event_put_def)
  qed
  moreover have "wi_key (build_sequence_counter_update pk observed n cttl :: ('t, 'e, 'a, 'c) write_item) \<noteq> EventsKey pk sk"
    using assms(2) by (simp add: build_sequence_counter_update_def)
  moreover have "wi_key w \<noteq> EventsKey pk sk" if "w \<in> set pre \<union> set post" for w
    using that through unfolding goes_through_def beside_def by blast
  ultimately have "EventsKey pk sk \<notin> wi_key ` set (commit_items pk observed n cttl pre event_items post)"
    by (auto simp: commit_items_def) metis+
  from fold_same_at [OF through_local [OF through] this, of d] show ?thesis by simp
qed

lemma through_rel:
  assumes through: "goes_through C pk observed n ettl cttl evs pre event_items post d"
  shows "log_rel pk d (fold wi_write (commit_items pk observed n cttl pre event_items post) d)" (is "log_rel pk d ?after")
  unfolding log_rel_def
proof (intro impI conjI allI)
  note before = through_before [OF through] and after = through_after [OF through]
  show "counter_at d pk \<le> counter_at ?after pk" by (simp only: before after le_add1)
  have inv: "log_inv pk d" using through by (simp add: goes_through_def)
  show "log_inv pk ?after"
    unfolding log_inv_def after
  proof (intro allI impI)
    fix sk x
    assume x: "hm_get (dy_events ?after) (pk, sk) = Some x"
    consider "sk = sequence_counter_sk" | sq where "sq \<in> {observed + 1..observed + n}" "sk = event_sort_key sq"
      | "sk \<noteq> sequence_counter_sk" "\<And>sq. sq \<in> {observed + 1..observed + n} \<Longrightarrow> sk \<noteq> event_sort_key sq"
      by blast
    then show "(sk = sequence_counter_sk \<and> (\<exists>n ttl. x = CounterItem n ttl \<and> 0 < n)) \<or>
        (\<exists>sq data ttl. x = EventItem sq data ttl \<and> sk = event_sort_key sq \<and> 1 \<le> sq \<and> sq \<le> observed + n)"
    proof cases
      case 1
      with x through_entry [OF through] through show ?thesis by (auto simp: goes_through_def)
    next
      case 2
      then have "sq - observed - 1 < n" "observed + (sq - observed - 1) + 1 = sq" by auto
      from through_event [OF through this(1), unfolded this(2)] x 2 show ?thesis
        by (auto simp: event_at_def)
    next
      case 3
      then have "hm_get (dy_events d) (pk, sk) = Some x"
        using x through_other [OF through] by metis
      with inv 3(1) show ?thesis
        unfolding log_inv_def before by fastforce
    qed
  qed
  fix sq :: nat
  assume sq: "1 \<le> sq" "sq \<le> counter_at d pk"
  have "hm_get (dy_events ?after) (pk, event_sort_key sq) = hm_get (dy_events d) (pk, event_sort_key sq)"
    by (rule through_other [OF through]) (use sq before in \<open>auto simp: event_sort_key_inj\<close>)
  then show "event_at ?after pk sq = event_at d pk sq \<or> event_at ?after pk sq = None"
    by (simp add: event_at_def)
qed

end
