(* ===== verification/Dynamo_Guarantee.thy ===== *)
theory Dynamo_Guarantee
  imports Dynamo_Log
begin

text \<open>
  Every operation of the DynamoDB backend keeps the log of every task, whatever it is called
  with: the operations one by one, then as one type of calls.
\<close>

section \<open>Commits\<close>

lemma then_done: "and_then (and_then m (\<lambda>x. done_with (f x))) k = and_then m (\<lambda>x. k (f x))"
  by (rule ext) (simp add: and_then_def done_with_def split: prod.splits sum.splits)

definition allocation_of ::
  "dynamo_config \<Rightarrow> instant \<Rightarrow> string \<Rightarrow> nat \<Rightarrow> nat \<Rightarrow> ('t, 'e, 'a, 'c) allocation" where
  "allocation_of cf now pk n observed = \<lparr>al_observed = observed, al_sequences = sequences_after observed n,
     al_counter_write = (if n = 0 then None
       else Some (build_sequence_counter_update pk observed n (Option.bind
         (sequence_counter_ttl_seconds (cf_event_ttl_seconds cf) (cf_task_ttl_seconds cf))
         (\<lambda>ttl. ttl_epoch ttl now))))\<rparr>"

lemma allocate_eq: "allocate_event_sequences cf now pk n =
    and_then (read_sequence_counter pk) (\<lambda>observed. done_with (allocation_of cf now pk n observed))"
  by (simp add: allocate_event_sequences_def allocation_of_def)

lemma keeps_allocate:
  "(\<And>observed. dlog.keeps p (k (allocation_of cf now pk n observed))) \<Longrightarrow>
    dlog.keeps p (and_then (allocate_event_sequences cf now pk n) k)"
  unfolding allocate_eq then_done read_sequence_counter_def by (rule dlog.keeps_then_query)

lemma al_simps [simp]:
  "al_sequences (allocation_of cf now pk n observed) = sequences_after observed n"
  "al_counter_write (allocation_of cf now pk 0 observed) = None"
  by (simp_all add: allocation_of_def)

text \<open>Another task's partition is beside this one.\<close>

lemma beside_event_put: "pk' \<noteq> pk \<Longrightarrow> beside pk (event_put pk' sq data ttl)"
  by (simp add: beside_def local_writes) (simp add: event_put_def)

lemma beside_counter: "pk' \<noteq> pk \<Longrightarrow> beside pk (build_sequence_counter_update pk' observed n ttl)"
  by (simp add: beside_def local_writes) (simp add: counter_key)

lemma event_puts_beside:
  "event_puts C pk' ttl xs = Inr items \<Longrightarrow> pk' \<noteq> pk \<Longrightarrow> w \<in> set items \<Longrightarrow> beside pk w"
  using event_puts_items beside_event_put by metis

lemma keeps_commit:
  assumes "event_transact_items C cf now pk' (sequences_after observed n) evs = Inr event_items" and "length evs = n"
    and "\<And>w. w \<in> set pre \<Longrightarrow> beside pk w" and "\<And>w. w \<in> set post \<Longrightarrow> beside pk w"
    and "attach (allocation_of cf now pk' n observed) pre event_items = (items, si)"
  shows "dlog.keeps pk (send_transaction conflict (items @ post))"
proof (cases "n = 0 \<or> pk' \<noteq> pk")
  case True
  have ev: "event_puts C pk' (ttl_epoch (cf_event_ttl_seconds cf) now) (zip (sequences_after observed n) evs) = Inr event_items"
    using assms(1) by (simp add: event_transact_items_def)
  have "beside pk w" if "w \<in> set event_items" for w
  proof (cases "n = 0")
    case True
    with ev that show ?thesis by (simp add: sequences_after_def)
  next
    case False
    with True have "pk' \<noteq> pk" by simp
    from event_puts_beside [OF ev this that] show ?thesis .
  qed
  moreover have "set items \<subseteq> set pre \<union> set event_items \<union>
      (if n = 0 then {} else {the (al_counter_write (allocation_of cf now pk' n observed))})"
    using assms(5) by (auto simp: attach_def allocation_of_def split: if_splits)
  ultimately show ?thesis
    using assms(3,4) True
    by (intro keeps_beside_transaction) (auto simp: allocation_of_def intro: beside_counter split: if_splits dest!: subsetD)
next
  case False
  then have n: "0 < n" and pk: "pk' = pk" by auto
  obtain cttl where items: "items @ post = commit_items pk observed n cttl pre event_items post"
    using assms(5) n pk by (auto simp: attach_def allocation_of_def commit_items_def)
  have ev: "event_puts C pk (ttl_epoch (cf_event_ttl_seconds cf) now) (zip (sequences_after observed n) evs) = Inr event_items"
    using assms(1) pk by (simp add: event_transact_items_def)
  show ?thesis
    unfolding items
  proof (rule dlog.keeps_transaction)
    fix d
    assume "distinct (map wi_key (commit_items pk observed n cttl pre event_items post))"
      and "\<And>w. w \<in> set (commit_items pk observed n cttl pre event_items post) \<Longrightarrow> wi_condition w d"
    then have "goes_through C pk observed n (ttl_epoch (cf_event_ttl_seconds cf) now) cttl evs pre event_items post d"
      if "log_inv pk d" using ev n assms(2-4) that by (auto simp: goes_through_def)
    then show "log_rel pk d (fold wi_write (commit_items pk observed n cttl pre event_items post) d)"
      using through_rel by (metis log_rel_def)
  qed
qed

section \<open>The operations\<close>

named_theorems keeps_rules

lemmas [keeps_rules] = dlog.keeps_done dlog.keeps_lifted dlog.keeps_query dlog.keeps_caught

lemma keeps_query_artifacts [keeps_rules]: "dlog.keeps pk (query_artifacts C E tn i)"
  unfolding query_artifacts_def by (intro dlog.keeps_then keeps_rules)

lemma keeps_rehydrate [keeps_rules]: "dlog.keeps pk (dynamo_rehydrate_task C E tn i blob manifest)"
  unfolding dynamo_rehydrate_task_def by (auto intro!: dlog.keeps_then keeps_rules)

lemma keeps_get [keeps_rules]: "dlog.keeps pk (dynamo_get_task C E tn i ow h)"
  unfolding dynamo_get_task_def
  by (auto intro!: dlog.keeps_then keeps_rules split: option.splits tasks_entry.splits)

lemma keeps_classify [keeps_rules]: "dlog.keeps pk (classify_failure C E tn i ow)"
  unfolding classify_failure_def by (intro dlog.keeps_then keeps_rules)

lemma beside_child:
  assumes "(a, b) \<in> set (child_keys d (artifact_pk tn i))" and "CHR ''#'' \<in> set pk"
  shows "beside pk (stamp_events_ttl t (a, b))" "beside pk (artifact_delete a b)"
proof -
  have "a \<noteq> pk" using assms by (auto simp: child_keys_def)
  then show "beside pk (stamp_events_ttl t (a, b))" "beside pk (artifact_delete a b)"
    by (simp_all add: beside_stamp beside_artifact_delete)
qed

lemma keeps_result:
  "dlog.keeps pk m \<Longrightarrow> (\<And>rs. dlog.keeps pk (k rs)) \<Longrightarrow> dlog.keeps pk m' \<Longrightarrow>
    dlog.keeps pk (case r of TxWritten \<Rightarrow> m | TxCanceled rs \<Rightarrow> k rs | TxInvalid \<Rightarrow> m')"
  by (cases r) simp_all

lemma keeps_unit: "dlog.keeps pk m \<Longrightarrow> dlog.keeps pk (case u of () \<Rightarrow> m)"
  by (simp split: unit.splits)

lemma keeps_entry:
  "(\<And>x. dlog.keeps pk (k x)) \<Longrightarrow> (\<And>a b c. dlog.keeps pk (l a b c)) \<Longrightarrow>
    dlog.keeps pk (case e of TaskItem x \<Rightarrow> k x | LeaseItem a b c \<Rightarrow> l a b c)"
  by (cases e) simp_all

lemma keeps_stamp:
  assumes "CHR ''#'' \<in> set pk"
  shows "dlog.keeps pk (stamp_child_ttl E tn i ttl)"
proof (cases ttl)
  case None
  then show ?thesis by (simp add: stamp_child_ttl_def keeps_rules)
next
  case (Some t)
  show ?thesis
    unfolding stamp_child_ttl_def Some option.case
    by (intro dlog.keeps_then_query keeps_send_all)
      (use assms in \<open>auto intro: beside_child beside_rules\<close>)
qed

lemma beside_artifact_items:
  "artifact_transact_items C (artifact_pk tn i) plan ttl = Inr items \<Longrightarrow> CHR ''#'' \<in> set pk \<Longrightarrow> w \<in> set items \<Longrightarrow>
    beside pk w"
  by (erule beside_artifacts) simp_all

lemmas keeps_steps = dlog.keeps_done dlog.keeps_lifted dlog.keeps_query dlog.keeps_then_lifted dlog.keeps_then
  dlog.keeps_cases keeps_result keeps_entry keeps_unit

lemma keeps_put_with_artifacts:
  assumes "artifact_transact_items C (artifact_pk tn i) plan ttl = Inr items" and "CHR ''#'' \<in> set pk"
  shows "dlog.keeps pk (send_transaction conflict (task_put k item cond # items))"
  by (rule keeps_beside_transaction) (use assms beside_artifact_items in \<open>auto intro: beside_rules\<close>)

lemma keeps_create:
  assumes "CHR ''#'' \<in> set pk"
  shows "dlog.keeps pk (dynamo_create_task C E cf now tn ow t)"
  unfolding dynamo_create_task_def Let_def
  by (rule keeps_steps keeps_send_write beside_rules keeps_put_with_artifacts assms | assumption)+

lemma keeps_update:
  assumes "CHR ''#'' \<in> set pk"
  shows "dlog.keeps pk (dynamo_update_task C E cf now tn ow t)"
  unfolding dynamo_update_task_def Let_def fetch_stored_manifest_def
  by (rule keeps_steps keeps_send_write beside_rules keeps_put_with_artifacts keeps_stamp assms | assumption)+

lemma keeps_delete:
  assumes "CHR ''#'' \<in> set pk"
  shows "dlog.keeps pk (dynamo_delete_task C E tn i ow)"
proof -
  have "dlog.keeps pk (delete_artifact_partition E tn i)"
    unfolding delete_artifact_partition_def
    by (intro dlog.keeps_then_query keeps_send_all)
      (use assms in \<open>auto intro: beside_child\<close>)
  then show ?thesis
    unfolding dynamo_delete_task_def
    by - (rule keeps_steps keeps_get keeps_send_write beside_rules | assumption)+
qed

lemma keeps_owned [keeps_rules]: "dlog.keeps pk (owned_item tn i ow)"
  unfolding owned_item_def by (rule keeps_steps)+

lemma keeps_status:
  assumes "CHR ''#'' \<in> set pk"
  shows "dlog.keeps pk (dynamo_update_task_status C E cf now tn i ow st)"
  unfolding dynamo_update_task_status_def Let_def
  by (rule keeps_steps keeps_rules keeps_send_write beside_rules keeps_stamp assms)+

lemma keeps_append:
  assumes "CHR ''#'' \<in> set pk"
  shows "dlog.keeps pk (dynamo_append_message C E cf now tn i ow m)"
    "dlog.keeps pk (dynamo_append_artifact C E cf now tn i ow a app lc)"
  unfolding dynamo_append_message_def dynamo_append_artifact_def Let_def
  by (rule keeps_steps keeps_rules keeps_update assms)+

lemma keeps_cancel: "dlog.keeps pk (dynamo_set_cancel_requested C E tn i ow)"
  unfolding dynamo_set_cancel_requested_def
  by (rule keeps_steps keeps_rules keeps_send_write beside_rules)+

section \<open>Commits with events\<close>

text \<open>A commit attempt up to its transaction, and what follows each answer.\<close>

lemma keeps_send_commit:
  assumes "event_transact_items C cf now pk' (sequences_after observed (length evs)) evs = Inr event_items"
    and "attach (allocation_of cf now pk' (length evs) observed) pre event_items = (items, si)"
    and "\<And>w. w \<in> set pre \<Longrightarrow> beside pk w" and "\<And>w. w \<in> set post \<Longrightarrow> beside pk w"
    and "\<And>r. dlog.keeps pk (k r)"
  shows "dlog.keeps pk (and_then (send_transaction conflict (items @ post)) k)"
  by (intro dlog.keeps_then assms keeps_commit [OF assms(1) refl _ _ assms(2)])

lemmas keeps_send_commit' = keeps_send_commit [where post = "[]", unfolded append_Nil2]

lemma keeps_append_event: "dlog.keeps pk (dynamo_append_event C E cf now tn i ev)"
proof -
  have "dlog.keeps pk (append_attempt C E cf now pk' ev k x)" for pk' k x
    unfolding append_attempt_def
    by (rule keeps_allocate dlog.keeps_then_lifted | split prod.split | rule allI impI | simp only: al_simps)+
      (rule keeps_send_commit' [where evs = "[ev]"] keeps_steps | simp)+
  then show ?thesis
    unfolding dynamo_append_event_def Let_def by (intro dlog.keeps_retry)
qed

text \<open>The puts of a task and its artifacts come first, its markers last.\<close>

lemma beside_pre:
  assumes "CHR ''#'' \<in> set pk" and "artifact_transact_items C (artifact_pk tn i) plan ttl = Inr items"
    and "w \<in> set (task_put k item cond # items)"
  shows "beside pk w"
  using assms beside_artifact_items by (auto intro: beside_rules)

lemma beside_markers: "w \<in> set (marker_puts cf b now tn i ow seqs evs) \<Longrightarrow> beside pk w"
  by (auto simp: marker_puts_def intro: beside_rules)

lemma keeps_create_attempt:
  assumes "CHR ''#'' \<in> set pk"
  shows "dlog.keeps pk (create_attempt C E cf now tn ow t evs blob plan k x)"
  unfolding create_attempt_def Let_def
  by (rule keeps_allocate dlog.keeps_then_lifted | split prod.split | rule allI impI | simp only: al_simps)+
    (rule keeps_send_commit' beside_pre keeps_steps assms | assumption | simp)+

section \<open>Every call\<close>

text \<open>
  The commits with events and the push operations keep the log too; every mutating call of the
  backend as one type, and what a session of calls relies on and guarantees.
\<close>

section \<open>Status and update commits\<close>

lemma keeps_create_with_events:
  assumes "CHR ''#'' \<in> set pk"
  shows "dlog.keeps pk (dynamo_create_task_with_events C E cf now tn ow task evs)"
  unfolding dynamo_create_task_with_events_def Let_def
  by (rule keeps_steps dlog.keeps_retry keeps_create_attempt assms)+

lemma beside_put: "w \<in> set [task_put key item cond] \<Longrightarrow> beside pk w"
  by (auto intro: beside_rules)

lemmas keeps_send_marked = keeps_send_commit [OF _ _ beside_put beside_markers]

lemma keeps_status_attempt:
  assumes "CHR ''#'' \<in> set pk"
  shows "dlog.keeps pk (status_attempt C E cf now tn i ow b k x)"
  unfolding status_attempt_def Let_def
  by (rule keeps_allocate dlog.keeps_then_lifted dlog.keeps_prod dlog.keeps_then [OF keeps_owned] | simp only: al_simps)+
    (rule keeps_send_marked keeps_steps keeps_stamp keeps_rehydrate keeps_classify assms | assumption)+

lemma keeps_status_with_events:
  assumes "CHR ''#'' \<in> set pk"
  shows "dlog.keeps pk (dynamo_update_task_status_with_events C E cf now tn i ow st evs)"
  unfolding dynamo_update_task_status_with_events_def task_has_push_config_def
  by (rule keeps_steps dlog.keeps_retry keeps_status_attempt assms)+

lemma keeps_update_attempt:
  assumes "CHR ''#'' \<in> set pk"
  shows "dlog.keeps pk (update_attempt C E cf now tn ow t evs blob arts k x)"
  unfolding update_attempt_def Let_def fetch_stored_manifest_def query_latest_event_sequence_def
  by (rule keeps_allocate dlog.keeps_then_lifted dlog.keeps_prod dlog.keeps_then_query
      dlog.keeps_then [OF dlog.keeps_then [OF dlog.keeps_query dlog.keeps_lifted]] | simp only: al_simps)+
    (rule keeps_send_commit' beside_pre keeps_steps keeps_stamp keeps_classify assms
      | assumption | simp)+

lemma keeps_update_with_events:
  assumes "CHR ''#'' \<in> set pk"
  shows "dlog.keeps pk (dynamo_update_task_with_events C E cf now tn ow task evs)"
  unfolding dynamo_update_task_with_events_def Let_def
  by (rule keeps_steps dlog.keeps_retry keeps_update_attempt assms)+

section \<open>Push operations\<close>

text \<open>The other tables.\<close>

lemma keeps_send_apart: "(\<And>d. dy_events (wi_write w d) = dy_events d) \<Longrightarrow> dlog.keeps pk (send_write w)"
  unfolding send_write_def by (rule dlog.keeps_autocommit) (auto intro: log_rel_same split: if_splits)

lemma delivery_apart [simp]:
  "dy_events (wi_write (delivery_insert key x) d) = dy_events d"
  "dy_events (wi_write (delivery_update key cond f) d) = dy_events d"
  "dy_events (put_delivery_item key x d) = dy_events d"
  by (auto simp: delivery_insert_def delivery_update_def put_delivery_item_def split: option.splits)

lemma keeps_claim: "dlog.keeps pk (dynamo_claim_delivery E cf now key claimant ow expiry)"
  unfolding dynamo_claim_delivery_def Let_def
  by (rule keeps_steps | rule keeps_send_apart, simp)+

lemma keeps_attempt_started: "dlog.keeps pk (dynamo_record_attempt_started now key claimant gen)"
  unfolding dynamo_record_attempt_started_def
  by (rule keeps_steps dlog.keeps_autocommit)+
    (auto simp: Let_def intro!: log_rel_same dlog.keeps_lifted split: option.splits if_splits)

lemma keeps_outcome: "dlog.keeps pk (dynamo_record_delivery_outcome E now key claimant gen out)"
  unfolding dynamo_record_delivery_outcome_def
  by (rule keeps_steps | rule keeps_send_apart, simp)+

lemma keeps_marker_calls:
  "dlog.keeps pk (dynamo_record_pending_dispatch cf now tn ow i sq)"
  "dlog.keeps pk (dynamo_delete_pending_dispatch tn i sq)"
  "dlog.keeps pk (dynamo_delete_config tn i cid)"
  unfolding dynamo_record_pending_dispatch_def dynamo_delete_pending_dispatch_def dynamo_delete_config_def
  by (rule keeps_steps keeps_send_write beside_rules)+

lemma keeps_config_loop: "dlog.keeps pk (dynamo_create_config_loop left E cf now json tn cfg k)"
proof (induction left arbitrary: k)
  case 0
  then show ?case by (simp add: dlog.keeps_lifted)
next
  case (Suc left)
  have "dlog.keeps pk (send_transaction conflict [floor_check a b n, config_put tn cfg json n ttl])" for conflict a b n ttl
    by (rule keeps_beside_transaction) (auto intro: beside_rules)
  then show ?case
    unfolding dynamo_create_config_loop.simps Let_def query_latest_event_sequence_def
    by - (rule keeps_steps Suc.IH | assumption)+
qed

lemma keeps_create_config: "dlog.keeps pk (dynamo_create_config C E cf now uuid tn cfg)"
  unfolding dynamo_create_config_def Let_def
  by (rule keeps_steps keeps_config_loop)+

lemma keeps_leases: "dlog.keeps pk (dynamo_renew_executor_leases tn ids expires)"
  unfolding dynamo_renew_executor_leases_def
  by (rule keeps_send_all) (auto intro: beside_rules split: option.splits)

lemma keeps_lease_chunks: "dlog.keeps pk (lease_chunks css)"
proof (induction css)
  case (Cons ls css)
  then show ?case
    unfolding lease_chunks.simps
    by (intro dlog.keeps_then_query dlog.keeps_then keeps_send_all dlog.keeps_done)
      (auto simp: map_filter_def intro: beside_rules split: if_splits)
qed (simp add: dlog.keeps_done)

lemma keeps_expired_leases: "dlog.keeps pk (dynamo_list_expired_executor_leases now_micros)"
  unfolding dynamo_list_expired_executor_leases_def by (rule keeps_steps keeps_lease_chunks)+

section \<open>Calls\<close>

datatype dynamo_call =
    CallCreateTask string string pb_task
  | CallUpdateTask string string pb_task
  | CallDeleteTask string string string
  | CallUpdateTaskStatus string string string pb_task_status
  | CallAppendMessage string string string pb_message
  | CallAppendArtifact string string string pb_artifact bool bool
  | CallSetCancelRequested string string string
  | CallAppendEvent string string stream_event
  | CallCreateTaskWithEvents string string pb_task "stream_event list"
  | CallUpdateTaskStatusWithEvents string string string pb_task_status "stream_event list"
  | CallUpdateTaskWithEvents string string pb_task "stream_event list"
  | CallRenewLeases string "string list" "int option"
  | CallExpiredLeases int
  | CallCreateConfig string string push_config
  | CallDeleteConfig string string string
  | CallClaimDelivery push_delivery_key string string nat
  | CallAttemptStarted push_delivery_key string nat
  | CallDeliveryOutcome push_delivery_key string nat delivery_outcome
  | CallRecordPending string string string nat
  | CallDeletePending string string nat

definition quietly :: "('db, 'a) program \<Rightarrow> ('db, unit) program" where
  "quietly m = and_then m (\<lambda>_. done_with ())"

primrec dynamo_call_program ::
  "('t, 'e, 'a, 'c) codec \<Rightarrow> ('t, 'e, 'a, 'c) service \<Rightarrow> dynamo_config \<Rightarrow> instant \<Rightarrow> dynamo_call \<Rightarrow>
   (('t, 'e, 'a, 'c) dynamo, unit) program" where
  "dynamo_call_program C E cf now (CallCreateTask tn ow t) = quietly (dynamo_create_task C E cf now tn ow t)"
| "dynamo_call_program C E cf now (CallUpdateTask tn ow t) = dynamo_update_task C E cf now tn ow t"
| "dynamo_call_program C E cf now (CallDeleteTask tn i ow) = quietly (dynamo_delete_task C E tn i ow)"
| "dynamo_call_program C E cf now (CallUpdateTaskStatus tn i ow st) =
     quietly (dynamo_update_task_status C E cf now tn i ow st)"
| "dynamo_call_program C E cf now (CallAppendMessage tn i ow m) = dynamo_append_message C E cf now tn i ow m"
| "dynamo_call_program C E cf now (CallAppendArtifact tn i ow a app lc) =
     dynamo_append_artifact C E cf now tn i ow a app lc"
| "dynamo_call_program C E cf now (CallSetCancelRequested tn i ow) = dynamo_set_cancel_requested C E tn i ow"
| "dynamo_call_program C E cf now (CallAppendEvent tn i ev) = quietly (dynamo_append_event C E cf now tn i ev)"
| "dynamo_call_program C E cf now (CallCreateTaskWithEvents tn ow t evs) =
     quietly (dynamo_create_task_with_events C E cf now tn ow t evs)"
| "dynamo_call_program C E cf now (CallUpdateTaskStatusWithEvents tn i ow st evs) =
     quietly (dynamo_update_task_status_with_events C E cf now tn i ow st evs)"
| "dynamo_call_program C E cf now (CallUpdateTaskWithEvents tn ow t evs) =
     quietly (dynamo_update_task_with_events C E cf now tn ow t evs)"
| "dynamo_call_program C E cf now (CallRenewLeases tn ids expires) = dynamo_renew_executor_leases tn ids expires"
| "dynamo_call_program C E cf now (CallExpiredLeases n) = quietly (dynamo_list_expired_executor_leases n)"
| "dynamo_call_program C E cf now (CallCreateConfig uuid tn cfg) =
     quietly (dynamo_create_config C E cf now uuid tn cfg)"
| "dynamo_call_program C E cf now (CallDeleteConfig tn i cid) = dynamo_delete_config tn i cid"
| "dynamo_call_program C E cf now (CallClaimDelivery key claimant ow expiry) =
     quietly (dynamo_claim_delivery E cf now key claimant ow expiry)"
| "dynamo_call_program C E cf now (CallAttemptStarted key claimant gen) =
     quietly (dynamo_record_attempt_started now key claimant gen)"
| "dynamo_call_program C E cf now (CallDeliveryOutcome key claimant gen out) =
     dynamo_record_delivery_outcome E now key claimant gen out"
| "dynamo_call_program C E cf now (CallRecordPending tn ow i sq) = dynamo_record_pending_dispatch cf now tn ow i sq"
| "dynamo_call_program C E cf now (CallDeletePending tn i sq) = dynamo_delete_pending_dispatch tn i sq"

lemma keeps_quietly: "dlog.keeps pk m \<Longrightarrow> dlog.keeps pk (quietly m)"
  unfolding quietly_def by (intro dlog.keeps_then dlog.keeps_done)

lemmas keeps_calls = keeps_create keeps_update keeps_delete keeps_status keeps_append keeps_cancel keeps_append_event
  keeps_create_with_events keeps_status_with_events keeps_update_with_events keeps_leases keeps_expired_leases
  keeps_create_config keeps_marker_calls keeps_claim keeps_attempt_started keeps_outcome

lemma keeps_call: "CHR ''#'' \<in> set pk \<Longrightarrow> dlog.keeps pk (dynamo_call_program C E cf now call)"
  by (cases call) (auto intro: keeps_quietly keeps_calls)

text \<open>Reaping expired items of the events table keeps the log as long as its counter stays.\<close>

definition reap_items :: "(string \<times> string \<Rightarrow> bool) \<Rightarrow> ('t, 'e, 'a, 'c) dynamo \<Rightarrow> ('t, 'e, 'a, 'c) dynamo" where
  "reap_items gone db = db\<lparr>dy_events := filter (\<lambda>(k, _). \<not> gone k) (dy_events db)\<rparr>"

lemma hm_get_keep: "hm_get (filter (\<lambda>(k, _). P k) m) k = (if P k then hm_get m k else None)"
  by (induction m) (auto simp: hm_get_def)

lemma reap_keeps_log:
  assumes "\<not> gone (pk, sequence_counter_sk)"
  shows "log_rel pk d (reap_items gone d)"
  using assms
  by (auto simp: log_rel_def log_inv_def counter_at_def event_at_def reap_items_def hm_get_keep)

end
