(* ===== verification/Dynamo_Append.thy ===== *)
theory Dynamo_Append
  imports Dynamo_Guarantee Sqlite_Example
begin

text \<open>
  Appending an event on DynamoDB: what a successful append answers and leaves, and when it
  succeeds.
\<close>

section \<open>The next number\<close>

definition numbered_from :: "string \<Rightarrow> nat \<Rightarrow> ('t, 'e, 'a, 'c) dynamo \<Rightarrow> bool" where
  "numbered_from pk n db \<longleftrightarrow> log_inv pk db \<and> n \<le> counter_at db pk"

lemma numbered_stable: "numbered_from pk n d \<Longrightarrow> log_rel pk d d' \<Longrightarrow> numbered_from pk n d'"
  using log_relD [of pk d d'] by (fastforce simp: numbered_from_def)

text \<open>The event stands under its number, which is the last one.\<close>

definition appended ::
  "('t, 'e, 'a, 'c) codec \<Rightarrow> string \<Rightarrow> nat \<Rightarrow> stream_event \<Rightarrow> nat \<Rightarrow> ('t, 'e, 'a, 'c) dynamo \<Rightarrow> bool" where
  "appended C pk n ev sq db \<longleftrightarrow> n < sq \<and> log_inv pk db \<and> counter_at db pk = sq \<and>
     (\<exists>data ttl. enc_event C ev = Inr data \<and> event_at db pk sq = Some (EventItem sq data ttl))"

lemma attach_append: "attach (allocation_of cf now pk 1 observed) [] items =
    (items @ [build_sequence_counter_update pk observed 1 (Option.bind
       (sequence_counter_ttl_seconds (cf_event_ttl_seconds cf) (cf_task_ttl_seconds cf)) (\<lambda>ttl. ttl_epoch ttl now))],
     Some (0, length items, length items))"
  by (simp add: attach_def allocation_of_def)

lemma latest_append: "al_latest (allocation_of cf now pk 1 observed) = observed + 1"
  by (simp add: al_latest_def sequences_after_def)

lemma append_transaction:
  assumes "event_transact_items C cf now pk (sequences_after observed 1) [ev] = Inr items"
  shows "dlog.triple pk (numbered_from pk n)
    (send_transaction conflict (items @ [build_sequence_counter_update pk observed 1 cttl]))
    (\<lambda>r d. if r = TxWritten then appended C pk n ev (observed + 1) d else numbered_from pk n d)"
proof (rule dlog.triple_transaction)
  fix db d
  let ?ws = "items @ [build_sequence_counter_update pk observed 1 cttl]"
  assume "numbered_from pk n db" and "log_rel pk db d" and "distinct (map wi_key ?ws)"
    and conditions: "\<And>w. w \<in> set ?ws \<Longrightarrow> wi_condition w d"
  then have d: "numbered_from pk n d" by (blast intro: numbered_stable)
  have through: "goes_through C pk observed 1 (ttl_epoch (cf_event_ttl_seconds cf) now) cttl [ev] [] items [] d"
    using assms d \<open>distinct _\<close> conditions
    by (simp add: goes_through_def commit_items_def event_transact_items_def numbered_from_def)
  have ws: "commit_items pk observed 1 cttl [] items [] = ?ws" by (simp add: commit_items_def)
  note rel = through_rel [OF through, unfolded ws]
  have "appended C pk n ev (observed + 1) (fold wi_write ?ws d)"
    using through_after [OF through, unfolded ws] through_before [OF through] d
      through_event [OF through zero_less_one, unfolded ws] log_relD(1) [OF rel]
    by (auto simp: appended_def numbered_from_def)
  with rel show "log_rel pk d (fold wi_write ?ws d) \<and>
      (if TxWritten = TxWritten then appended C pk n ev (observed + 1) (fold wi_write ?ws d)
       else numbered_from pk n (fold wi_write ?ws d))"
    by simp
qed (auto intro: numbered_stable)

lemma append_attempt_triple:
  "dlog.triple pk (numbered_from pk n) (append_attempt C E cf now pk ev k x)
    (\<lambda>r d. case r of Inl _ \<Rightarrow> numbered_from pk n d | Inr sq \<Rightarrow> appended C pk n ev sq d)"
  unfolding append_attempt_def allocate_eq then_done
proof (rule dlog.triple_then)
  show "dlog.triple pk (numbered_from pk n) (read_sequence_counter pk) (\<lambda>_. numbered_from pk n)"
    unfolding read_sequence_counter_def by (rule dlog.triple_query) (rule numbered_stable)
  fix observed
  show "dlog.triple pk (numbered_from pk n)
    (and_then (lifted (event_transact_items C cf now pk (al_sequences (allocation_of cf now pk 1 observed)) [ev])) (\<lambda>event_items.
     (case attach (allocation_of cf now pk 1 observed) [] event_items of (items, sequence_items) \<Rightarrow>
       and_then (send_transaction (aws_conflicts E k) items) (\<lambda>r. case r of
           TxWritten \<Rightarrow> done_with (Inr (al_latest (allocation_of cf now pk 1 observed)))
         | TxCanceled reasons \<Rightarrow> if lost_sequence_race reasons sequence_items then done_with (Inl ())
             else lifted (Inl TRANSACTION_CANCELED)
         | TxInvalid \<Rightarrow> lifted (Inl VALIDATION_ERROR)))))
    (\<lambda>r d. case r of Inl _ \<Rightarrow> numbered_from pk n d | Inr sq \<Rightarrow> appended C pk n ev sq d)"
    (is "dlog.triple pk _ (and_then (lifted ?items) _) ?Q")
  proof (rule dlog.triple_then)
    show "dlog.triple pk (numbered_from pk n) (lifted ?items) (\<lambda>items d. numbered_from pk n d \<and> ?items = Inr items)"
      by (rule dlog.triple_lifted) simp
    show "dlog.triple pk (\<lambda>d. numbered_from pk n d \<and> ?items = Inr items)
      (case attach (allocation_of cf now pk 1 observed) [] items of (items, sequence_items) \<Rightarrow>
       and_then (send_transaction (aws_conflicts E k) items) (\<lambda>r. case r of
           TxWritten \<Rightarrow> done_with (Inr (al_latest (allocation_of cf now pk 1 observed)))
         | TxCanceled reasons \<Rightarrow> if lost_sequence_race reasons sequence_items then done_with (Inl ())
             else lifted (Inl TRANSACTION_CANCELED)
         | TxInvalid \<Rightarrow> lifted (Inl VALIDATION_ERROR))) ?Q" for items
      unfolding attach_append prod.case
    proof (rule dlog.triple_fact, rule dlog.triple_then, rule append_transaction)
      assume "?items = Inr items"
      then show "event_transact_items C cf now pk (sequences_after observed 1) [ev] = Inr items" by simp
      show "dlog.triple pk (\<lambda>d. if r = TxWritten then appended C pk n ev (observed + 1) d else numbered_from pk n d)
        (case r of
           TxWritten \<Rightarrow> done_with (Inr (al_latest (allocation_of cf now pk 1 observed)))
         | TxCanceled reasons \<Rightarrow> if lost_sequence_race reasons (Some (0, length items, length items)) then done_with (Inl ())
             else lifted (Inl TRANSACTION_CANCELED)
         | TxInvalid \<Rightarrow> lifted (Inl VALIDATION_ERROR)) ?Q" for r
        by (cases r) (auto simp: latest_append latest_append [unfolded One_nat_def] intro!: dlog.triple_done dlog.triple_lifted)
    qed
  qed
qed

lemma race_loop_triple:
  assumes "\<And>k x. dlog.triple pk P (body k x) (\<lambda>r d. case r of Inl _ \<Rightarrow> P d | Inr y \<Rightarrow> Q y d)"
  shows "dlog.triple pk P (race_loop left k key body x) Q"
proof (induction left arbitrary: k x)
  case 0
  then show ?case by (auto intro: dlog.triple_lifted)
next
  case (Suc left)
  have "dlog.triple pk (\<lambda>d. P d) (and_then (lifted (race_backoff k key)) (\<lambda>_. race_loop left (k + 1) key body x')) Q" for x'
    by (rule dlog.triple_then [OF dlog.triple_lifted Suc.IH])
  then show ?case
    unfolding race_loop.simps
    by (intro dlog.triple_then [OF assms]) (auto intro: dlog.triple_done split: sum.splits)
qed

lemma append_event_triple:
  "dlog.triple (dynamo_task_key tn i) (numbered_from (dynamo_task_key tn i) n)
    (dynamo_append_event C E cf now tn i ev) (appended C (dynamo_task_key tn i) n ev)"
  unfolding dynamo_append_event_def Let_def with_retry_def
  by (rule race_loop_triple) (rule append_attempt_triple)

lemma append_event_run:
  assumes "dlog.others (dynamo_task_key tn i) g" and "log_inv (dynamo_task_key tn i) db"
    and "run_program (dynamo_append_event C E cf now tn i ev) g db = (Inr sq, db')"
  shows "appended C (dynamo_task_key tn i) (counter_at db (dynamo_task_key tn i)) ev sq db'"
  using dlog.triple_run [OF append_event_triple assms(1) _ assms(3)] assms(2) by (simp add: numbered_from_def)

section \<open>Success\<close>

definition append_items ::
  "dynamo_config \<Rightarrow> instant \<Rightarrow> string \<Rightarrow> nat \<Rightarrow> 'e \<Rightarrow> ('t, 'e, 'a, 'c) write_item list" where
  "append_items cf now pk observed data =
     [event_put pk (observed + 1) data (ttl_epoch (cf_event_ttl_seconds cf) now),
      build_sequence_counter_update pk observed 1 (Option.bind
       (sequence_counter_ttl_seconds (cf_event_ttl_seconds cf) (cf_task_ttl_seconds cf)) (\<lambda>ttl. ttl_epoch ttl now))]"

lemma sequences_one: "sequences_after observed (Suc 0) = [Suc observed]"
  by (simp add: sequences_after_def)

lemma append_transact_items:
  assumes "enc_event C ev = Inr data"
  shows "event_transact_items C cf now pk (sequences_after observed 1) [ev] =
    Inr [event_put pk (observed + 1) data (ttl_epoch (cf_event_ttl_seconds cf) now)]"
  using assms by (simp add: event_transact_items_def sequences_one attempt_def serde_def)

lemma append_keys:
  "wi_key (build_sequence_counter_update pk observed m cttl) \<noteq> wi_key (event_put pk (Suc n) data ttl)"
  by (simp add: event_put_def counter_key)

lemma append_attempt_eq:
  assumes enc: "enc_event C ev = Inr data"
  shows "append_attempt C E cf now pk ev k x (g, db, \<lambda>d. d) =
    (let observed = counter_at (g 0 db) pk; d = g 1 (g 0 db); items = append_items cf now pk observed data;
         reasons = transact_reasons (aws_conflicts E k) items d
     in if list_all (\<lambda>r. r = None) reasons
        then (Inr (Inr (observed + 1)), (\<lambda>k. g (2 + k), fold wi_write items d, \<lambda>d. d))
        else (if lost_sequence_race reasons (Some (0, 1, 1)) then Inr (Inl ()) else Inl TRANSACTION_CANCELED,
          (\<lambda>k. g (2 + k), d, \<lambda>d. d)))"
proof -
  have len: "length (append_items cf now pk observed data) = 2" for observed by (simp add: append_items_def)
  have items: "[event_put pk (observed + 1) data (ttl_epoch (cf_event_ttl_seconds cf) now)] @
      [build_sequence_counter_update pk observed 1 (Option.bind
       (sequence_counter_ttl_seconds (cf_event_ttl_seconds cf) (cf_task_ttl_seconds cf)) (\<lambda>ttl. ttl_epoch ttl now))] =
      append_items cf now pk observed data" for observed
    by (simp add: append_items_def)
  show ?thesis
    unfolding append_attempt_def allocate_eq then_done
    by (simp add: append_transact_items [OF enc, unfolded One_nat_def] attach_append [unfolded One_nat_def]
        items [unfolded One_nat_def Suc_eq_plus1 [symmetric], simplified]
        and_then_def read_sequence_counter_def query_def lifted_def done_with_def send_transaction_def autocommit_def
        append_keys append_keys [symmetric] len Let_def latest_append [unfolded One_nat_def] split: sum.splits prod.splits)
qed

text \<open>A lost attempt is a lost race, nothing else.\<close>

lemma append_reasons: "transact_reasons conflict (append_items cf now pk observed data) d =
    [if conflict 0 then Some CONFLICT
       else if hm_get (dy_events d) (pk, event_sort_key (observed + 1)) = None then None else Some CONDITION_FAILED,
     if conflict 1 then Some CONFLICT
       else if (case hm_get (dy_events d) (pk, sequence_counter_sk) of
           Some (CounterItem n _) \<Rightarrow> observed \<noteq> 0 \<and> n = observed | _ \<Rightarrow> observed = 0) then None
         else Some CONDITION_FAILED]"
  by (simp add: transact_reasons_def append_items_def event_put_def build_sequence_counter_update_def)

lemma log_counter_cases:
  assumes "log_inv pk d"
  shows "(case hm_get (dy_events d) (pk, sequence_counter_sk) of
      Some (CounterItem n _) \<Rightarrow> observed \<noteq> 0 \<and> n = observed | _ \<Rightarrow> observed = 0) \<longleftrightarrow> counter_at d pk = observed"
proof (cases "hm_get (dy_events d) (pk, sequence_counter_sk)")
  case (Some x)
  with assms obtain n ttl where "x = CounterItem n ttl" "0 < n"
    unfolding log_inv_def by (metis event_key_counter(2) not_one_le_zero)
  with Some show ?thesis by (auto simp: counter_at_def)
qed (auto simp: counter_at_def)

lemma log_next_free:
  assumes "log_inv pk d"
  shows "hm_get (dy_events d) (pk, event_sort_key (counter_at d pk + 1)) = None"
proof (rule ccontr)
  assume "hm_get (dy_events d) (pk, event_sort_key (counter_at d pk + 1)) \<noteq> None"
  then obtain x where "hm_get (dy_events d) (pk, event_sort_key (counter_at d pk + 1)) = Some x" by blast
  with assms show False
    unfolding log_inv_def by (fastforce simp: event_sort_key_inj)
qed

lemma append_lost_race:
  assumes "log_inv pk d" and "\<not> list_all (\<lambda>r. r = None) (transact_reasons conflict (append_items cf now pk observed data) d)"
  shows "lost_sequence_race (transact_reasons conflict (append_items cf now pk observed data) d) (Some (0, 1, 1))"
  using assms(2) log_next_free [OF assms(1)]
  by (auto simp: append_reasons log_counter_cases [OF assms(1)] lost_sequence_race_def CONFLICT_def CONDITION_FAILED_def
      numeral_2_eq_2 less_Suc_eq split: if_splits)

definition calm :: "('t, 'e, 'a, 'c) service \<Rightarrow> string \<Rightarrow> nat \<Rightarrow> ('t, 'e, 'a, 'c) dynamo gaps \<Rightarrow> bool" where
  "calm E pk k g \<longleftrightarrow> \<not> aws_conflicts E k 0 \<and> \<not> aws_conflicts E k 1 \<and>
     (\<forall>d. counter_at (g 1 d) pk = counter_at d pk)"

lemma append_attempt_among:
  assumes "enc_event C ev = Inr data" and "dlog.others pk g" and "log_inv pk db"
  shows "\<exists>r d. append_attempt C E cf now pk ev k x (g, db, \<lambda>d. d) = (Inr r, (\<lambda>k. g (2 + k), d, \<lambda>d. d)) \<and>
    (\<exists>sq. r = Inr sq) \<or> append_attempt C E cf now pk ev k x (g, db, \<lambda>d. d) = (Inr (Inl ()), (\<lambda>k. g (2 + k), d, \<lambda>d. d)) \<and>
      log_inv pk d \<and> \<not> calm E pk k g"
proof -
  let ?d = "g 1 (g 0 db)"
  let ?reasons = "transact_reasons (aws_conflicts E k) (append_items cf now pk (counter_at (g 0 db) pk) data) ?d"
  have "log_rel pk db (g 0 db)" "log_rel pk (g 0 db) ?d" using assms(2) by (auto simp: dlog.others_def)
  with assms(3) have inv: "log_inv pk ?d" by (blast dest: log_relD(1))
  show ?thesis
  proof (cases "list_all (\<lambda>r. r = None) ?reasons")
    case True
    then show ?thesis using append_attempt_eq [OF assms(1), of E cf now pk k x g db] by (auto simp: Let_def)
  next
    case False
    have "\<not> calm E pk k g"
    proof
      assume calm: "calm E pk k g"
      then have "counter_at ?d pk = counter_at (g 0 db) pk" by (simp add: calm_def)
      then have "list_all (\<lambda>r. r = None) ?reasons"
        using calm log_next_free [OF inv] log_counter_cases [OF inv, of "counter_at (g 0 db) pk"]
        by (simp add: append_reasons calm_def)
      with False show False by simp
    qed
    with False inv append_lost_race [OF inv False] show ?thesis
      using append_attempt_eq [OF assms(1), of E cf now pk k x g db] by (auto simp: Let_def)
  qed
qed

lemma calm_shift: "calm E pk k (\<lambda>j. g (n + j)) \<longleftrightarrow> \<not> aws_conflicts E k 0 \<and> \<not> aws_conflicts E k 1 \<and>
    (\<forall>d. counter_at (g (n + 1) d) pk = counter_at d pk)"
  by (simp add: calm_def)

lemma append_loop_wins:
  assumes "enc_event C ev = Inr data" and "dlog.others pk g" and "log_inv pk db"
    and "j < left" and "left + k = SEQUENCE_ATTEMPTS" and "calm E pk (k + j) (\<lambda>i. g (2 * j + i))"
  shows "\<exists>sq s. race_loop left k key (append_attempt C E cf now pk ev) x (g, db, \<lambda>d. d) = (Inr sq, s)"
  using assms(2-)
proof (induction left arbitrary: k g db j x)
  case (Suc left)
  let ?attempt = "append_attempt C E cf now pk ev k x (g, db, \<lambda>d. d)"
  from append_attempt_among [OF assms(1) Suc.prems(1,2), of E cf now k x]
  consider sq d where "?attempt = (Inr (Inr sq), (\<lambda>k. g (2 + k), d, \<lambda>d. d))"
    | d where "?attempt = (Inr (Inl ()), (\<lambda>k. g (2 + k), d, \<lambda>d. d))" "log_inv pk d" "\<not> calm E pk k g"
    by blast
  then show ?case
  proof cases
    case 1
    then show ?thesis by (simp add: and_then_def done_with_def)
  next
    case 2
    then have "j \<noteq> 0" using Suc.prems(5) by (intro notI) simp
    then obtain j' where j: "j = Suc j'" by (cases j) auto
    let ?g = "\<lambda>i. g (2 + i)"
    have "\<exists>sq s. race_loop left (k + 1) key (append_attempt C E cf now pk ev) () (?g, d, \<lambda>d. d) = (Inr sq, s)"
    proof (rule Suc.IH)
      show "dlog.others pk ?g" using Suc.prems(1) by (rule dlog.others_shift)
      show "log_inv pk d" by (rule 2)
      show "j' < left" "left + (k + 1) = SEQUENCE_ATTEMPTS" using Suc.prems j by simp_all
      show "calm E pk (k + 1 + j') (\<lambda>i. ?g (2 * j' + i))" using Suc.prems(5) by (simp add: j add.assoc)
    qed
    moreover have "race_backoff k key = Inr ()"
      using Suc.prems(3,4) j by (simp add: race_backoff_def)
    ultimately show ?thesis using 2 by (simp add: and_then_def lifted_def)
  qed
qed simp

lemma append_event_wins:
  assumes "enc_event C ev = Inr data" and "dlog.others (dynamo_task_key tn i) g" and "log_inv (dynamo_task_key tn i) db"
    and "j < 32" and "calm E (dynamo_task_key tn i) j (\<lambda>n. g (2 * j + n))"
  shows "\<exists>sq db'. run_program (dynamo_append_event C E cf now tn i ev) g db = (Inr sq, db')"
proof -
  obtain sq s where "race_loop SEQUENCE_ATTEMPTS 0 (dynamo_task_key tn i)
      (append_attempt C E cf now (dynamo_task_key tn i) ev) () (g, db, \<lambda>d. d) = (Inr sq, s)"
    using append_loop_wins [OF assms(1-3), where k = 0 and E = E and key = "dynamo_task_key tn i" and cf = cf
      and now = now and x = "()" and j = j and left = SEQUENCE_ATTEMPTS] assms(4,5)
    by (auto simp: SEQUENCE_ATTEMPTS_def)
  then have "dynamo_append_event C E cf now tn i ev (g, db, \<lambda>d. d) = (Inr sq, s)"
    by (simp add: dynamo_append_event_def Let_def with_retry_def)
  then show ?thesis by (cases s) (simp add: run_program_def)
qed

section \<open>An example\<close>

definition example_aws :: "(pb_task, stream_event, pb_artifact, push_config) service" where
  "example_aws = \<lparr>aws_lag = (\<lambda>db. db), aws_conflicts = (\<lambda>_ _. False), aws_first_page = 100,
     aws_unprocessed = (\<lambda>_. False)\<rparr>"

lemma log_inv_new: "log_inv pk dynamo_new"
  by (simp add: log_inv_def dynamo_new_def hm_get_def)

lemma others_nobody: "dlog.others pk (\<lambda>_ d. d)"
  by (simp add: dlog.others_def)

definition example_item :: "task_state \<Rightarrow> pb_task task_item" where
  "example_item st = build_task_item 0 ''t'' ''task'' ''o'' '''' (wire_name st) (example_task st) [] (Some 0) None"

definition example_dynamo :: "task_state \<Rightarrow> (pb_task, stream_event, pb_artifact, push_config) dynamo" where
  "example_dynamo st = dynamo_new\<lparr>dy_tasks := [(dynamo_task_key ''t'' ''task'', TaskItem (example_item st))]\<rparr>"

text \<open>A session that finishes the task between the read and the write of another.\<close>

definition finishing_gaps :: "(pb_task, stream_event, pb_artifact, push_config) dynamo gaps" where
  "finishing_gaps n db = (if n = 2 then put_task_entry (dynamo_task_key ''t'' ''task'') (TaskItem (example_item Completed)) db
     else db)"

lemma finishing_gaps_log: "log_rel pk d (finishing_gaps k d)"
  by (rule log_rel_same) (simp add: finishing_gaps_def put_task_entry_def)

lemma log_inv_example: "log_inv pk (example_dynamo st)"
  by (simp add: log_inv_def example_dynamo_def dynamo_new_def hm_get_def)

section \<open>What an update overwrites\<close>

text \<open>
  The write of \<open>update_task\<close>, and so of \<open>append_message\<close> and \<open>append_artifact\<close>, is conditioned on
  the owner only: it replaces the item whatever its state has become since the read, with no
  cancel marker and no latest number.
\<close>

lemma update_overwrites:
  assumes t': "fst (stamp_status now t []) = t'" and "split_task C t' = Inr (blob, [])"
    and "hm_get (dy_tasks (g 0 db)) (dynamo_task_key tn (tk_id t')) = Some (TaskItem x)" and "ti_artifact_manifest x = []"
    and "task_at (g 1 (g 0 db)) (dynamo_task_key tn (tk_id t')) = Some y" and "ti_owner y = ow"
    and "task_ttl cf now (status_state_str t') = None"
  shows "run_program (dynamo_update_task C E cf now tn ow t) g db = (Inr (),
    put_task_entry (dynamo_task_key tn (tk_id t')) (TaskItem (build_task_item now tn (tk_id t') ow
      (tk_context_id t') (status_state_str t') blob [] None None)) (g 1 (g 0 db)))"
proof -
  have rec: "reconcile C [] [] = Inr \<lparr>rp_writes = [], rp_deletes = [], rp_manifest = []\<rparr>"
    by (simp add: reconcile_def attempt_def)
  have "dynamo_update_task C E cf now tn ow t (g, db, \<lambda>d. d) =
    (Inr (), (\<lambda>k. g (Suc (Suc k))), put_task_entry (dynamo_task_key tn (tk_id t')) (TaskItem (build_task_item now tn
      (tk_id t') ow (tk_context_id t') (status_state_str t') blob [] None None)) (g 1 (g 0 db)), \<lambda>d. d)"
    unfolding dynamo_update_task_def t' Let_def assms(7)
    by (simp add: and_then_def lifted_def query_def done_with_def assms(2-4)
        fetch_stored_manifest_def rec artifact_transact_items_def attempt_def)
      (simp add: send_write_def autocommit_def task_put_def owner_condition_def stamp_child_ttl_def
        assms(5) [unfolded One_nat_def] assms(6) done_with_def Let_def split: unit.splits)
  then show ?thesis by (simp add: run_program_def)
qed

end
