(* ===== verification/Spec2Isabelle.thy ===== *)
theory Spec2Isabelle
  imports Delivery_Memory Store_Example Lock_Order Server_Example Dispatcher_Laws Sqlite_Example Sqlite_Listing Idle_Sweep
  Front_Example Client Postgres_Race Dynamo_Append
begin

text \<open>
  A model of turul-a2a, a Rust server framework for the A2A protocol: agents run tasks for
  clients over HTTP+JSON, JSON-RPC and gRPC, tasks and their event logs live in a store shared
  by several server instances, clients follow a task by polling, by an event stream or by push
  notifications to a webhook. Paths below are relative to \<open>crates/turul-a2a/src\<close> unless they
  name another crate.

  THE PARTS AND WHERE THEY ARE

  Values. \<open>Task_State\<close> is the task state machine (\<open>turul-a2a-types/src/task.rs\<close>,
  \<open>state_machine.rs\<close>); \<open>Task_Model\<close> tasks, messages, artifacts and chunk merging (\<open>task.rs\<close>,
  \<open>message.rs\<close>, \<open>artifact.rs\<close>); \<open>Stream_Event\<close> the events and the wake-up broker
  (\<open>streaming/mod.rs\<close>); \<open>Storage_Types\<close> errors, filters, page sizes, cursors and status times
  (\<open>storage/error.rs\<close>, \<open>filter.rs\<close>, \<open>retention.rs\<close>, \<open>status_time.rs\<close>); \<open>Server_Error\<close> the error
  tables of the three bindings and the JSON bodies of errors (\<open>error.rs\<close>,
  \<open>turul-a2a-types/src/wire.rs\<close>, \<open>error_info.rs\<close>, \<open>grpc/error.rs\<close>).

  The in-memory store (\<open>storage/in_memory.rs\<close>). \<open>Store_State\<close> is its state, one map per lock;
  \<open>Store_Tasks\<close>, \<open>Store_Atomic\<close>, \<open>Store_List\<close>, \<open>Push_Configs\<close>, \<open>Push_Claims\<close> and \<open>Cleanup\<close> its
  operations; \<open>Lock_Order\<close> which locks each takes in which order, on locks that queue fairly as
  tokio's do; \<open>Store_Ops\<close> the store as one
  system of operations with the reachable states and their invariant; \<open>Task_Lifecycle\<close> the
  history of one task under the server's writes and retention. An operation holds its locks throughout, so it
  is one function on the state; \<open>create_config\<close> releases them between a read and its write, and
  there an arbitrary function stands for what others did.

  The SQLite backend (\<open>storage/sqlite.rs\<close>, \<open>artifacts.rs\<close>, \<open>terminal_cas.rs\<close>). \<open>Artifact_Store\<close> is
  the separation of artifact bodies from task rows; \<open>Sqlite_Store\<close> the tables, the task, event and
  commit statements and retention; \<open>Sqlite_Push\<close> push configs and delivery claims; \<open>Sqlite_List\<close>
  the listings and leases. A table is a map from primary keys, a transaction a function that
  leaves the tables alone when it fails. \<open>Sqlite_Refine\<close>, \<open>Sqlite_Artifacts\<close>, \<open>Sqlite_Events\<close>,
  \<open>Sqlite_Commits\<close>, \<open>Sqlite_Reads\<close> and \<open>Sqlite_Listing\<close> relate it to the in-memory store, operation
  by operation; \<open>Sqlite_System\<close> runs both side by side; \<open>Sqlite_Typed\<close> is the invariant of rows
  and what expiry deletes.

  The PostgreSQL backend (\<open>storage/postgres.rs\<close>). \<open>Pg_Session\<close> is a database session: a program of
  statements, with whatever other sessions commit between two of them; \<open>Postgres_Store\<close> and
  \<open>Postgres_Push\<close> are the operations as such programs, \<open>Postgres_Alone\<close>, \<open>Postgres_Commits\<close> and
  \<open>Postgres_System\<close> show that sessions which take turns do what SQLite does, \<open>Postgres_Race\<close> what
  holds, and what does not, when they interleave.

  The DynamoDB backend (\<open>storage/dynamodb.rs\<close>). \<open>Dynamo_Store\<close> holds the items, keys, conditional
  writes, transactions and the allocation of event numbers, \<open>Dynamo_Tasks\<close> and \<open>Dynamo_Push\<close> the
  operations as programs of requests, between which other sessions write and items expire. An
  \<open>aws\<close> value is what the service decides: what an eventually consistent read sees, which attempts
  conflict, how much the first page of a scan holds. \<open>Session_Rely\<close> is rely-guarantee reasoning
  about sessions; \<open>Dynamo_Writes\<close> shows that keys are apart and a transaction does to each key what
  its one item does; \<open>Dynamo_Log\<close> is the relation every session keeps on a task's log,
  \<open>Dynamo_Guarantee\<close> that each call keeps it, \<open>Dynamo_Append\<close> what an append reaches.

  Push delivery (\<open>push/\<close>). \<open>Ssrf\<close> is the address guard (\<open>ssrf.rs\<close>), \<open>Config_Cache\<close> the existence
  check before an attempt, \<open>Delivery\<close> the worker (\<open>delivery.rs\<close>), \<open>Dispatcher\<close> the fan-out of a commit
  to the webhooks and its recovery (\<open>dispatcher.rs\<close>, the reclaim tick of \<open>server/mod.rs\<close>).
  \<open>Claim_Fencing\<close> is the contract of a claim store, interpreted by both backends;
  \<open>Delivery_Trace\<close> traces the worker against any store, \<open>Delivery_Memory\<close> bounds it and
  runs it on the in-memory one, \<open>Dispatcher_Laws\<close> the fan-out.

  The server. \<open>Server_State\<close> holds the in-flight handles and their registry
  (\<open>server/in_flight.rs\<close>) and the configuration; \<open>Event_Sink\<close> the executor's write boundary
  (\<open>event_sink.rs\<close>); \<open>Spawn\<close> the life of one executor (\<open>server/spawn.rs\<close>); \<open>Task_Stream\<close> the event
  stream (\<open>streaming/task_stream.rs\<close>); \<open>Handlers\<close>, \<open>Send_Message\<close> and \<open>Send_Turn\<close> the operations of
  \<open>router.rs\<close> every binding calls; \<open>Liveness\<close> the loops that renew leases, reap tasks of lost
  executors, end stalled ones and cancel idle tasks (\<open>server/liveness.rs\<close>) and the poller that
  trips cancelled executors (\<open>server/in_flight.rs\<close>); \<open>Liveness_Laws\<close> and \<open>Idle_Sweep\<close>
  prove what they reach. \<open>Sink_Laws\<close>, \<open>Turn_Laws\<close> and \<open>Handler_Laws\<close> prove what they do to
  a task while the rest of the deployment writes to it.

  The front end. \<open>Transport\<close> is what is checked before authentication and the negotiation of
  extensions (\<open>middleware/transport.rs\<close>, \<open>profile_dispatch.rs\<close>); \<open>Auth\<close> the middlewares, their
  composition and their errors (\<open>middleware/\<close>, crate \<open>turul-a2a-auth\<close>); \<open>Compat_V03\<close> the 0.3 wire
  format (\<open>compat_v03.rs\<close>); \<open>Json_Rpc\<close> the JSON-RPC binding (\<open>jsonrpc.rs\<close>); \<open>Http_Router\<close> the routes
  and layers of the HTTP service (\<open>router.rs\<close>); \<open>Grpc_Service\<close> the gRPC layer, handlers and streams
  (\<open>grpc/\<close>) and that they agree with the JSON bindings. \<open>Front_Laws\<close> and \<open>Rpc_Laws\<close> prove what
  those promise.

  The HTTP client (crate \<open>turul-a2a-client\<close>). \<open>Client\<close> is the request each method sends and what it
  makes of the answer and its errors (\<open>lib.rs\<close>, \<open>response.rs\<close>, \<open>error.rs\<close>), with the paths the
  server's routes recognise; \<open>Sse_Client\<close> the decoder of event streams (\<open>sse.rs\<close>), whose result does
  not depend on how the body is cut into chunks.

  \<open>Prelude\<close> holds maps, stable sorts, decimal text and clocks; \<open>Paging\<close> the contract of a cursor
  paging, interpreted by the task listing and the config listings. The theories named
  \<open>..._Example\<close> hold the values of the witnesses.

  HOW CONCURRENCY AND FAILURE ARE MODELLED

  A \<open>server\<close> value carries the environment of a run: before every store call \<open>sv_others\<close> may change
  the store (the laws assume of it only that it consists of the server's own operations, and
  never that it is idle), \<open>sv_fault\<close> may make the call fail, \<open>sv_clock\<close> gives the time. An
  executor is an argument: the sink calls it makes, seeing everything, and how it ends (return,
  error, panic). The delivery worker runs on a \<open>world\<close> of answers (store, DNS, HTTP, clock), all
  arbitrary; \<open>memory_world\<close> instantiates it with the in-memory store and other workers' claim
  calls. Wake-ups only decide when a loop reads the store again, so a stream is given the
  successive answers of the store.

  FUEL AND BOUNDS

  Loops that end by a count are structural on that count. The delivery loop takes fuel and is
  proved to return when the fuel exceeds \<open>max_attempts\<close> (C2); paging walks and the fan-out take
  the number of pages and are proved to end within the number of items plus one; the retry of a
  lost DynamoDB race is given the 32 attempts after which the code gives up. Integers that
  can wrap are written with the wrap (\<open>as_i32\<close>, \<open>as_u32\<close>, \<open>as_signed\<close>, the generations of the config
  cache, saturating products and sums); counters of attempts are bounded by \<open>2 ^ 32\<close> where the
  code's \<open>u32\<close> matters.

  PARAMETERS

  Third-party code is an argument with its documented behaviour as a hypothesis: the codec of
  the generated types, \<open>serde_json\<close> and SHA-256 (\<open>codec\<close>, \<open>front\<close>, \<open>grpc_codec\<close>, \<open>request_codec\<close>),
  \<open>turul-rpc\<close> (\<open>rpc_ok\<close>), the JWT validator and the key lookup, RFC 3339 text (\<open>chrono\<close>, \<open>chrono_ok\<close>:
  lexical order is that of time for the years 0 to 9999 only), URL parsing, DNS, HTTP, UUIDs, the
  clock, the durable queue. Every such hypothesis is met by a concrete function in a witness. A
  serialiser may refuse a value: what is shown of the SQL backends is about values that are
  codable, artifacts that round-trip with fingerprints that differ (\<open>codec_ok\<close>) and, on
  PostgreSQL, texts without a NUL byte (\<open>sendable\<close>; a statement with one fails).

  WHAT THE PROPERTIES SHOW

  C1-C7 the delivery worker: which addresses it posts to, that it returns, that what it reports
  is what the store recorded, that a worker whose claim was taken over changes nothing. C8-C15
  the in-memory store: terminal tasks, the order of the logs, atomic commits, exact replays and
  listings, retention, locks. C16-C23 one task under the server: its log is a lifecycle, sink
  calls stay in their task, every started turn ends, streams are exact, owners are separated,
  cancellation ends, blocking sends rest, an error has one row of codes on the bindings and reaches
  the client. C24-C28 the front end: no request is served unauthenticated, required extensions are
  enforced, replies are well formed and say what the method answered, the three bindings answer
  alike, the 0.3 names translate to 1.0's and back. C29-C30 stalled and idle executors end. C31-C33 the fan-out of a terminal
  commit to the webhooks and its recovery. C34-C36 the SQLite backend refines the in-memory
  store, with a place where it does not; C37-C38 the PostgreSQL backend does so too, and its
  status commits are fenced against every interleaving; C39-C40 the event logs of the DynamoDB
  backend survive every interleaving, and its appends are exact and get through.

  NOT MODELLED

  JSON (de)serialisation of the generated protocol types and the HTTP, gRPC and SSE framing that
  axum and tonic do; the contents of the agent card; the HTTP request a delivery posts.
  Connection pools, the creation of schemas and tables and I/O failures of the SQL and DynamoDB
  backends. The gRPC client, the client's request builders, the Lambda adapters and the pattern
  helpers. Tracing output.
\<close>

section \<open>Push delivery\<close>

text \<open>
  C1. Whatever the store, the DNS and the receivers answer, every POST a delivery makes directly
  follows a recorded attempt start, the DNS answer its destination was picked from and, when
  target lookup is installed, a check that found the config and the task present; and it goes
  to an address outside the SSRF blocklist unless insecure URLs are allowed.
\<close>

theorem delivery_posts_are_guarded:
  assumes "deliver fuel (traced W) cfg validator target len (w, []) = Some (rep, w', tr)"
  shows "posts_guarded cfg (w_lookup W \<noteq> None) tr \<and>
    (\<forall>ip r. ActPost ip r \<in> set tr \<longrightarrow> allow_insecure_urls cfg \<or> \<not> is_blocked_ip ip)"
  using deliver_traced [OF assms] guarded_destination by blast

lemma delivery_posts_are_guarded_witness:
  "posts_guarded push_delivery_config_default False
     [ActResolve (Inr [private_ip, public_ip]), ActStart (Inr 1), ActPost public_ip (Inr 200),
      ActOutcome (OutSucceeded 200) (Inr ())]"
  using delivery_posts_are_guarded [OF example_ok] by (simp add: example_world_def)

text \<open>
  C2. On the in-memory store, with any number of other workers calling the store while this one
  sleeps, a delivery returns within \<open>max_attempts + 1\<close> turns of its loop and makes at most
  \<open>max_attempts\<close> POSTs, counted from the attempts already recorded for the claim.
\<close>

theorem delivery_returns_within_budget:
  assumes "max_attempts cfg < 2 ^ 32" and "max_attempts cfg < fuel"
  shows "\<exists>rep e' tr. deliver fuel (traced (memory_world cfg instance_id with_lookup target)) cfg
      validator target len (e, []) = Some (rep, e', tr) \<and> posts tr \<le> max_attempts cfg"
proof -
  let ?W = "memory_world cfg instance_id with_lookup target"
  obtain rep w' where r: "deliver fuel (traced ?W) cfg validator target len (e, []) = Some (rep, w')"
    using counting_world.deliver_returns [OF memory.traced_counting assms] by blast
  obtain e' tr where "w' = (e', tr)" by (cases w')
  with r memory.deliver_posts [OF _ assms(1)] show ?thesis by blast
qed

lemma delivery_returns_within_budget_witness:
  "\<exists>rep e' tr. deliver 9 (traced (memory_world push_delivery_config_default ''w'' True example_target))
     push_delivery_config_default None example_target 10
     (\<lparr>de_store = store_new, de_cache = config_cache_default, de_clock = 0, de_tick = 0,
        de_dns = (\<lambda>_. Inr [public_ip]), de_http = (\<lambda>_ _. Inr 503), de_random = (\<lambda>_. 0),
        de_others = (\<lambda>_. [])\<rparr>, []) = Some (rep, e', tr) \<and>
     posts tr \<le> max_attempts push_delivery_config_default"
  by (rule delivery_returns_within_budget) (simp_all add: push_delivery_config_default_def)

text \<open>
  C3. A delivery reports Succeeded, GaveUp or Abandoned only after the store accepted that
  outcome for the claim, as its last call; and Succeeded only after a POST that was answered
  with that status, in the range 200 to 399.
\<close>

theorem delivery_reports_are_committed:
  assumes "deliver fuel (traced W) cfg validator target len (w, []) = Some (rep, w', tr)"
    and "rep \<notin> {ClaimLostOrFinal, UnclaimedSkip, TransientStoreError}"
  shows "(\<exists>oc. success_report oc = Some rep \<and> tr \<noteq> [] \<and> last tr = ActOutcome oc (Inr ())) \<and>
    (\<forall>s. rep = RepSucceeded s \<longrightarrow> 200 \<le> s \<and> s < 400 \<and> (\<exists>ip. ActPost ip (Inr s) \<in> set tr))"
  using deliver_traced [OF assms(1)] assms(2) by (auto simp: truthful_def definite_def)

lemma delivery_reports_are_committed_witness:
  "\<exists>oc. success_report oc = Some (RepSucceeded 200) \<and> oc = OutSucceeded 200"
  using delivery_reports_are_committed [OF example_ok] by auto

text \<open>
  C4. Once a claim has been taken with generation \<open>g\<close>, then after any operations of the store, by
  anyone, an attempt start or an outcome with an earlier generation is refused and changes
  nothing; and a claim row that reached Succeeded, GaveUp or Abandoned stays exactly as it is under
  any operations, and no attempt starts on it. Both hold until retention (\<open>cleanup_expired\<close>) removes
  the row, which it does only to a row that gave up and is past its expiry.
\<close>

theorem claims_are_fenced:
  assumes "claim_delivery now key worker owner expiry s = (Inr c, s')" and "g < dc_generation c"
  shows "(\<not> reaped key s' ops \<longrightarrow>
      (\<exists>e e'. record_attempt_started now' key worker' g (run_ops s' ops) = (Inl e, run_ops s' ops) \<and>
        record_delivery_outcome now' key worker' g outcome (run_ops s' ops) = (Inl e', run_ops s' ops))) \<and>
    (\<forall>s r. claim_of s key = Some r \<and> claim_terminal (cl_status r) \<and> \<not> reaped key s ops \<longrightarrow>
      claim_of (run_ops s ops) key = Some r \<and> op_attempts key s ops = 0)"
  using fenced_among_ops [OF assms] run_ops_frozen by blast

lemma claims_are_fenced_witness:
  "\<exists>e s'. record_attempt_started 5 (''t'', ''i'', 1, ''c'') ''w'' 0 s' = (Inl e, s')"
  using claims_are_fenced [of 0 "(''t'', ''i'', 1, ''c'')" "''w''" "''o''" 10 store_new _ _ 0 "[OpCleanup 7]" 5 "''w''"]
  by (fastforce simp: claim_delivery_def claim_of_def put_claim_def hm_simps store_new_def as_claim_def fresh_claim_row_def claim_expired_def)

text \<open>
  C5. The config cache never hides a finished deletion: in every interleaving of checks,
  deletions, invalidations and deliveries of other configs, while no deletion still has to
  invalidate, a cached config exists. This rests on the generation of the cache, a 64-bit counter
  that wraps, not coming round again: the run has fewer than \<open>2 ^ 64\<close> invalidations.
\<close>

theorem cache_never_hides_a_deletion:
  assumes "(cache_step t ttl)\<^sup>*\<^sup>* (cache_system_init b) s" and "sy_deleting s = 0"
    and "is_fresh now t ttl (sy_cache s)" and "sy_invalidations s < 2 ^ 64"
  shows "sy_exists s"
  using cache_sound_reachable [OF assms(1)] assms(2-4)
  by (auto simp: cache_sound_def is_fresh_def split: option.splits)

lemma cache_never_hides_a_deletion_witness:
  "sy_exists (cache_system_init True\<lparr>sy_cache := record_present 5 example_target 10 0 config_cache_default\<rparr>)"
proof -
  let ?s0 = "cache_system_init True"
  let ?s1 = "?s0\<lparr>sy_readers := [(0, None)]\<rparr>" and ?s2 = "?s0\<lparr>sy_readers := [(0, Some True)]\<rparr>"
  let ?c = "record_present 5 example_target 10 0 config_cache_default"
  let ?s3 = "?s0\<lparr>sy_readers := [], sy_cache := ?c\<rparr>"
  have "cache_step example_target 10 ?s0 ?s1"
    using cache_step.start [of example_target 10 ?s0] by (simp add: cache_system_init_def config_cache_default_def)
  moreover have "cache_step example_target 10 ?s1 ?s2"
    using cache_step.read [of ?s1 "[]" 0 "[]" example_target 10] by (simp add: cache_system_init_def)
  moreover have "cache_step example_target 10 ?s2 ?s3"
    using cache_step.confirm [of ?s2 "[]" 0 "[]" example_target 10 5] by (simp add: cache_system_init_def)
  ultimately have r: "(cache_step example_target 10)\<^sup>*\<^sup>* ?s0 ?s3"
    by (meson converse_rtranclp_into_rtranclp rtranclp.rtrancl_refl)
  have "is_fresh 6 example_target 10 (sy_cache ?s3)"
    by (simp add: is_fresh_def cached_def record_present_def config_cache_default_def Let_def
        drop_expired_def hm_simps)
  from cache_never_hides_a_deletion [OF r _ this] show ?thesis by (simp add: cache_system_init_def)
qed

text \<open>
  C6. The octet tests of the IPv4 blocklist refuse exactly the addresses of the listed CIDR
  ranges, and an IPv4-mapped IPv6 address is refused whenever its IPv4 address is.
\<close>

theorem blocklist_is_the_cidr_list:
  "(is_blocked_ip (V4 ip) = (\<exists>r \<in> set blocked_ranges4. in_cidr 32 (ipv4_num ip) r)) \<and>
   (is_blocked_ip (V4 (Ipv4 a b c d)) \<longrightarrow>
      is_blocked_ip (V6 (Ipv6 0 0 0 0 0 0xffff (word_cat a b) (word_cat c d))))"
  using is_blocked_ipv4_ranges mapped_v6_blocked by (metis is_blocked_ip.simps)

lemma blocklist_is_the_cidr_list_witness:
  "is_blocked_ip (V6 (Ipv6 0 0 0 0 0 0xffff (word_cat (127 :: 8 word) (0 :: 8 word)) (word_cat (0 :: 8 word) (1 :: 8 word))))"
  using blocklist_is_the_cidr_list [of "Ipv4 127 0 0 1" 127 0 0 1]
  by (simp add: Let_def del: is_blocked_ipv6.simps)

text \<open>
  C7. The wait after attempt \<open>n\<close> is the capped exponential plus the jitter drawn: the target is the
  base doubled with each attempt up to the cap, the jitter is drawn from \<open>- d .. d\<close> where \<open>d\<close> is the
  configured share of the target (exact here, rounded by the code's \<open>f64\<close>), and the wait is their
  sum, so within \<open>d\<close> of the target; with no share to draw from the wait is the target. Assumed: the
  generator draws in the range it is given, base and cap fit their integers, the share is at most 1.
\<close>

theorem backoff_is_bounded:
  assumes "\<And>d w. 0 < d \<Longrightarrow> - d \<le> fst (w_random W d w) \<and> fst (w_random W d w) \<le> d"
    and "millis (backoff_base cfg) < 2 ^ 64" and "millis (backoff_cap cfg) < 2 ^ 62" and "backoff_jitter cfg \<le> 1"
    and "t = min (millis (backoff_base cfg) * 2 ^ (min n 31 - 1)) (millis (backoff_cap cfg))"
    and "d = \<lfloor>of_nat t * max (backoff_jitter cfg) 0\<rfloor>" and "backoff_for W cfg n w = (wait, w')"
  shows "(wait, w') = (if d = 0 then (from_millis t, w)
      else (from_millis (nat (int t + fst (w_random W d w))), snd (w_random W d w))) \<and>
    0 \<le> d \<and> d \<le> int t \<and> int t - d \<le> int (millis wait) \<and> int (millis wait) \<le> int t + d"
proof -
  note wait = backoff_for_eq [OF assms(1-6)]
  have near: "\<bar>int (millis wait) - int t\<bar> \<le> d"
    using wait assms(1) [of d w] assms(7) by (auto simp: millis_def from_millis_def split: if_splits)
  show ?thesis
  proof (intro conjI)
    show "(wait, w') = (if d = 0 then (from_millis t, w)
      else (from_millis (nat (int t + fst (w_random W d w))), snd (w_random W d w)))"
      using wait(1) [of w] assms(7) by simp
  qed (use near wait(2,3) in linarith)+
qed

lemma backoff_is_bounded_witness:
  "\<forall>e. 6000 \<le> millis (fst (backoff_for (memory_world push_delivery_config_default ''i'' False example_target)
      push_delivery_config_default 3 e)) \<and>
   millis (fst (backoff_for (memory_world push_delivery_config_default ''i'' False example_target)
      push_delivery_config_default 3 e)) \<le> 10000"
proof
  fix e
  let ?W = "memory_world push_delivery_config_default ''i'' False example_target"
  have range: "0 < d \<Longrightarrow> - d \<le> fst (w_random ?W d w) \<and> fst (w_random ?W d w) \<le> d" for d w
    by (simp add: memory_world_def)
  note defaults = push_delivery_config_default_def millis_def secs_def nanos_per_sec_def
  have cfg: "millis (backoff_base push_delivery_config_default) < 2 ^ 64"
      "millis (backoff_cap push_delivery_config_default) < 2 ^ 62" "backoff_jitter push_delivery_config_default \<le> 1"
      "8000 = min (millis (backoff_base push_delivery_config_default) * 2 ^ (min 3 31 - 1))
        (millis (backoff_cap push_delivery_config_default))"
      "2000 = \<lfloor>of_nat 8000 * max (backoff_jitter push_delivery_config_default) 0\<rfloor>"
    by (simp_all add: defaults)
  from backoff_is_bounded [OF range cfg surjective_pairing [of "backoff_for ?W push_delivery_config_default 3 e"], THEN conjunct2]
  show "6000 \<le> millis (fst (backoff_for ?W push_delivery_config_default 3 e)) \<and>
      millis (fst (backoff_for ?W push_delivery_config_default 3 e)) \<le> 10000"
    by auto
qed

section \<open>The store\<close>

text \<open>
  C8. Once a task is terminal, no sequence of the checked writes (status updates, atomic
  commits, cancel requests) and of the operations on configs, claims and markers changes its
  row or its event log.
\<close>

theorem terminal_tasks_are_immutable:
  assumes "get_stored s tn i = Some r" and "row_terminal r" and "\<forall>op \<in> set ops. respects_terminal op"
  shows "get_stored (fold exec ops s) tn i = Some r \<and> log_of (fold exec ops s) tn i = log_of s tn i"
  by (rule terminal_run [OF assms])

lemma terminal_tasks_are_immutable_witness:
  "get_stored (fold exec [OpStatusAtomic 9 ''t'' ''task'' ''o'' (example_status Working) [example_event Working],
     OpSetCancel ''t'' ''task'' ''o''] (example_store Completed)) ''t'' ''task'' = Some (example_row Completed)"
  using terminal_tasks_are_immutable [OF example_store_row [of Completed], of
      "[OpStatusAtomic 9 ''t'' ''task'' ''o'' (example_status Working) [example_event Working],
     OpSetCancel ''t'' ''task'' ''o'']"]
  by (simp add: example_row_terminal is_terminal_def TERMINAL_STATES_def)

text \<open>
  C9. In every state the operations reach, each event log is strictly increasing in its
  sequence numbers, all of which are at least 1 and at most the counter, and no causal floor is
  ahead of the counter.
\<close>

theorem reachable_logs_are_ordered:
  assumes "reachable s"
  shows "sorted_wrt (<) (map fst (log_of s tn i)) \<and>
    (\<forall>e \<in> set (log_of s tn i). 1 \<le> fst e \<and> fst e \<le> counter_of s tn i) \<and>
    (\<forall>r. get_stored s tn i = Some r \<longrightarrow> s_latest_event_sequence r \<le> counter_of s tn i)"
  using reachable_inv [OF assms] by (auto simp: store_inv_def log_ok_def floors_ok_def)

lemma reachable_logs_are_ordered_witness:
  "s_latest_event_sequence (example_row Submitted) \<le> counter_of (example_store Submitted) ''t'' ''task''"
  using reachable_logs_are_ordered [OF example_store_reachable [of Submitted], of "''t''" "''task''"]
  by (simp add: example_store_row)

text \<open>
  C10. An atomic status commit fails and changes nothing, or commits all of it: the row it read
  was owned and not terminal, the new row, the counter and the replay of exactly the stamped
  events under consecutive new numbers are there, and a dispatch marker is written for exactly
  the terminal status events of a task that has configs, when push dispatch is enabled.
\<close>

theorem status_commit_is_atomic:
  assumes "reachable s"
  shows "case update_task_status_with_events now tn i ow st evs s of
      (Inl e, s') \<Rightarrow> s' = s
    | (Inr (t, seqs), s') \<Rightarrow> status_committed now tn i ow st evs s t seqs s'"
proof -
  obtain res s' where u: "update_task_status_with_events now tn i ow st evs s = (res, s')" by fastforce
  have "log_ok s tn i" using reachable_inv [OF assms] by (simp add: store_inv_def)
  from status_commit_spec [OF this, of now ow st evs] u show ?thesis
    by (cases rule: update_status_with_events_cases [OF u]) auto
qed

lemma status_commit_is_atomic_witness:
  "case update_task_status_with_events 5 ''t'' ''task'' ''o'' (example_status Working) [example_event Working]
      (example_store Submitted) of
     (Inl e, s') \<Rightarrow> s' = example_store Submitted
   | (Inr (t, seqs), s') \<Rightarrow> status_committed 5 ''t'' ''task'' ''o'' (example_status Working) [example_event Working]
      (example_store Submitted) t seqs s'"
  by (rule status_commit_is_atomic) (rule example_store_reachable)

text \<open>
  C11. Replay is exact: for every reachable state and every resume point, the log splits into
  what the client has seen and what the replay returns, in order.
\<close>

theorem replay_is_exact:
  assumes "reachable s"
  shows "\<exists>seen new. log_of s tn i = seen @ new \<and> (\<forall>e \<in> set seen. fst e \<le> k) \<and> (\<forall>e \<in> set new. k < fst e) \<and>
    get_events_after tn i k s = Inr (map (\<lambda>(q, e, _). (q, e)) new)"
proof (intro exI conjI)
  have fst_gt: "(\<lambda>(q :: nat, _ :: stream_event, _ :: instant). q > k) = (\<lambda>e. fst e > k)" by auto
  have "sorted_wrt (<) (map fst (log_of s tn i))"
    using reachable_inv [OF assms] by (simp add: store_inv_def log_ok_def)
  then show "log_of s tn i = filter (\<lambda>e. fst e \<le> k) (log_of s tn i) @ filter (\<lambda>e. fst e > k) (log_of s tn i)"
    by (rule sorted_replay_split)
  show "get_events_after tn i k s =
      Inr (map (\<lambda>(q, e, _). (q, e)) (filter (\<lambda>e. fst e > k) (log_of s tn i)))"
    unfolding get_events_after_log fst_gt ..
qed auto

lemma replay_is_exact_witness:
  "\<exists>seen new. log_of (example_store Submitted) ''t'' ''task'' = seen @ new \<and> (\<forall>e \<in> set new. 0 < fst e)"
  using replay_is_exact [OF example_store_reachable [of Submitted], of "''t''" "''task''" 0] by blast

text \<open>
  C12. Following the page tokens of \<open>list_tasks\<close> from the first page reads every matching task
  once, in the descending order of the sort key, and ends, for every page size and filter of one
  tenant. Among status times of the years 0 to 9999, for which the key has a fixed width, this is
  newest first, and no task is listed from before the bound of the filter.
\<close>

theorem list_tasks_pages_are_complete:
  assumes "chrono_ok c" and "reachable s" and "tf_tenant f = Some tn" and "resolved_page_size f = Inr n"
    and "\<forall>tn i r. get_stored s tn i = Some r \<longrightarrow> i \<noteq> []"
    and "length (task_listing c f s) < fuel"
  shows "walk_pages fuel (list_fetch c f s) None = Some (task_listing c f s) \<and>
    sorted_wrt (\<lambda>a b. row_key c b < row_key c a) (filtered_rows c f s) \<and>
    set (filtered_rows c f s) = {r. (\<exists>i. get_stored s tn i = Some r) \<and> task_matches c f r} \<and>
    sorted_wrt (\<lambda>a b. \<forall>x y. status_micros c (s_task a) = Some x \<longrightarrow> status_micros c (s_task b) = Some y \<longrightarrow>
      four_digit_year x \<longrightarrow> four_digit_year y \<longrightarrow> y \<le> x) (filtered_rows c f s) \<and>
    (\<forall>r \<in> set (filtered_rows c f s). \<forall>after x. tf_status_timestamp_after f = Some after \<longrightarrow> chr_in_range c after \<longrightarrow>
      four_digit_year after \<longrightarrow> status_micros c (s_task r) = Some x \<longrightarrow> four_digit_year x \<longrightarrow> after \<le> x)"
proof -
  have inv: "tasks_keyed s" using reachable_inv [OF assms(2)] by (simp add: store_inv_def)
  then have wf: "hm_wf (tasks s)" by (simp add: tasks_keyed_def)
  have mem: "((t, i), r) \<in> set (tasks s) \<longleftrightarrow> get_stored s t i = Some r" for t i r
    using hm.entries_get [OF wf, of "(t, i)" r] by (simp add: get_stored_def hm_entries_def)
  have "tk_id (s_task r) \<noteq> []" if "((t, i), r) \<in> set (tasks s)" for t i r
    using that assms(5) inv unfolding mem by (auto simp: tasks_keyed_get)
  then have l: "listable c f s"
    using assms(1,3,4) inv by (fastforce simp: listable_def)
  have "r \<in> snd ` set (tasks s) \<longleftrightarrow> (\<exists>t i. get_stored s t i = Some r)" for r
    using mem by (force simp: image_iff)
  moreover have "t = tn" if "get_stored s t i = Some r" "task_matches c f r" for t i r
    using that assms(3) inv by (auto simp: task_matches_def tasks_keyed_get)
  ultimately have "set (filtered_rows c f s) = {r. (\<exists>i. get_stored s tn i = Some r) \<and> task_matches c f r}"
    unfolding filtered_rows_set by blast
  then show ?thesis
    using task_paging.walk_complete [OF l assms(6)] filtered_rows_desc [OF inv assms(3), of c]
      filtered_rows_newest_first [OF assms(1) inv assms(3)] matched_after_bound [OF assms(1)] by blast
qed

lemma list_tasks_pages_are_complete_witness:
  "walk_pages (Suc (length (task_listing unary_chrono example_filter (example_store Submitted))))
     (list_fetch unary_chrono example_filter (example_store Submitted)) None =
   Some (task_listing unary_chrono example_filter (example_store Submitted))"
proof -
  have "\<forall>tn i r. get_stored (example_store Submitted) tn i = Some r \<longrightarrow> i \<noteq> []"
    by (simp add: example_store_def create_task_with_events_eq Let_def get_put_stored empty_store_def
        with_push_dispatch_enabled_def with_retention_def store_new_def)
      (simp add: get_stored_def)
  then show ?thesis
    by (intro conjunct1 [OF list_tasks_pages_are_complete
          [OF unary_chrono_ok example_store_reachable, where tn = "''t''" and n = 1]])
      (simp_all add: example_filter_def resolved_page_size_def MAX_PAGE_SIZE_def)
qed

text \<open>
  C13. A cleanup terminates and is exact whatever the batch size: it removes the tasks that are
  terminal and past the task TTL and no other (a live task is never removed), the events past
  the event TTL and no other, and the failed deliveries past their retention.
\<close>

theorem cleanup_is_exact:
  assumes "reachable s" and "cleanup_expired now s = (res, s')"
  shows "(get_stored s' tn i = (case get_stored s tn i of
      Some r \<Rightarrow> if rc_task_ttl_seconds (retention s) > 0 \<and> row_terminal r \<and>
          task_expired now (rc_task_ttl_seconds (retention s)) r then None else Some r
    | None \<Rightarrow> None)) \<and>
    log_of s' tn i = (if rc_event_ttl_seconds (retention s) > 0
      then filter (\<lambda>e. \<not> event_expired now (rc_event_ttl_seconds (retention s)) e) (log_of s tn i)
      else log_of s tn i) \<and>
    counter_of s' tn i = counter_of s tn i \<and>
    push_delivery_claims s' = hm_retain (\<lambda>_ r. \<not> claim_expired now r) (push_delivery_claims s)"
proof -
  have wf: "hm_wf (tasks s)" "hm_wf (events s)"
    using reachable_inv [OF assms(1)] by (auto simp: store_inv_def tasks_keyed_def)
  have "counter_of s' = counter_of s"
    using cleanup_frame(1) [OF assms(2)] by (rule counter_of_frame)
  moreover have "0 < ttl \<and> row_terminal r \<and> task_expired now ttl r \<longleftrightarrow> 0 < ttl \<and> task_expired now ttl r" for ttl r
    using task_expired_terminal by blast
  ultimately show ?thesis
    using cleanup_tasks [OF wf(1) assms(2), of tn i] cleanup_logs [OF wf(2) assms(2), of tn i]
      cleanup_frame(6) [OF assms(2)]
    by (simp only:)
qed

lemma cleanup_is_exact_witness:
  "get_stored (snd (cleanup_expired (10 ^ 20) (example_store Working))) ''t'' ''task'' = Some (example_row Working)"
  using cleanup_is_exact [OF example_store_reachable [of Working], of "10 ^ 20" _ _ "''t''" "''task''"]
  by (cases "cleanup_expired (10 ^ 20) (example_store Working)")
    (simp add: example_store_row example_row_terminal is_terminal_def TERMINAL_STATES_def)

text \<open>
  C14. Without push dispatch, no set of concurrent store operations deadlocks on the locks of
  the in-memory store. The locks are fair: an operation waits behind all who came before it, a
  reader behind a waiting writer.
\<close>

theorem store_never_deadlocks_without_push:
  assumes "lock_run\<^sup>*\<^sup>* (launch (lock_plan False) calls) st"
  shows "\<not> deadlocked st"
  by (rule store_locks.no_deadlock [OF assms])

lemma store_never_deadlocks_without_push_witness:
  "\<not> deadlocked (launch (lock_plan False) [PlanCreateConfig 1, PlanAtomicStatus])"
  by (rule store_never_deadlocks_without_push) (rule rtranclp.rtrancl_refl)

text \<open>
  C15. With push dispatch enabled, a config creation and a status commit running together reach
  a state in which each waits for a lock the other holds.
\<close>

theorem push_dispatch_can_deadlock:
  "\<exists>st. lock_run\<^sup>*\<^sup>* (launch (lock_plan True) [PlanCreateConfig 0, PlanAtomicStatus]) st \<and> deadlocked st"
  using stuck_reachable stuck_deadlocked by blast

section \<open>Tasks, executors and handlers\<close>



text \<open>
  C17. Whatever an executor calls on its sink, in any order and against any framework writes of
  others: the task moves only along its lifecycle; a sink that closed finds its task terminal and
  changes nothing more; and the oneshot carries a task only once it is terminal or interrupted.
\<close>

theorem sink_calls_are_contained:
  assumes "sink_run calls (Some k, sv) = (sk', sv')" and "sink_inv k sv"
  shows "\<exists>k'. sk' = Some k' \<and> life_logged (view_of (sv_store sv') (es_tenant k) (es_task_id k)) \<and>
    (es_is_closed k' \<longrightarrow> ended (state_of (sv_store sv') (es_tenant k) (es_task_id k))) \<and>
    (es_is_closed k \<longrightarrow> es_is_closed k' \<and> sv_store sv' = sv_store sv) \<and>
    (\<forall>t. ih_yielded (sv_handles sv' (es_handle k)) = Some t \<longrightarrow> at_rest (task_state_of t))"
proof -
  obtain k' where k': "sk' = Some k'" "sink_inv k' sv'" "sink_kept k sv k' sv'"
    using sink_run_ok [OF assms] by blast
  then have same: "es_tenant k' = es_tenant k" "es_task_id k' = es_task_id k" "es_handle k' = es_handle k"
    by (simp_all add: sink_kept_def)
  have "at_rest (task_state_of t)" if "ih_yielded (sv_handles sv' (es_handle k)) = Some t" for t
  proof -
    have "handle_ok k' (sv_handles sv' (es_handle k))" using k'(2) same by (simp add: sink_inv_def handle_of_def)
    with that show ?thesis by (auto simp: handle_ok_def at_rest_def)
  qed
  with k' same show ?thesis by (intro exI [of _ k']) (simp add: sink_inv_def sink_kept_def sink_state_def)
qed

lemma sink_calls_are_contained_witness:
  "\<exists>k sv. sink_inv k sv \<and> \<not> es_is_closed k \<and>
     (\<exists>k'. fst (sink_run [CallComplete None, CallSetStatus Working None] (Some k, sv)) = Some k' \<and>
       life_logged (view_of (sv_store (snd (sink_run [CallComplete None, CallSetStatus Working None] (Some k, sv))))
         (es_tenant k) (es_task_id k)))"
proof -
  obtain res sv1 where sp: "spawn_tracked_executor (target_scope ''t'' ''o'' example_send_target example_message example_inputs)
      started_server = (res, sv1)" by fastforce
  have ready: "turn_ready (target_scope ''t'' ''o'' example_send_target example_message example_inputs) started_server \<and> no_faults started_server"
    by (rule start_turn_ready [OF _ _ _ _ example_turn_starts]) (simp_all add: example_send_target_ready)
  obtain k where k: "sink_inv k sv1" "\<not> es_is_closed k"
    by (rule spawn_ready [OF conjunct1 [OF ready] conjunct2 [OF ready] sp])
  obtain sk' sv' where r: "sink_run [CallComplete None, CallSetStatus Working None] (Some k, sv1) = (sk', sv')" by fastforce
  show ?thesis
    by (rule exI [of _ k], rule exI [of _ sv1]) (use sink_calls_are_contained [OF r k(1)] k r in auto)
qed

text \<open>
  C18. A turn that \<open>SendMessage\<close> starts, for a new task or a follow-up, ends: when the executor
  returns or panics, whatever it did with its sink and whatever it left in the task it returns,
  the task is terminal or waits on its client, and the registry slot is free again. It holds while
  no storage call fails (\<open>no_faults\<close>: the framework discards the error of its own terminal commit,
  so a failing store can leave the task in WORKING) and while everybody else makes framework
  writes only (\<open>framework_others\<close>: forced terminals, markers, leases, claims, configs, other
  tasks, sweeps that take nothing of this task).
\<close>

theorem started_turns_end:
  assumes "framework_others tn (tg_task_id tg) sv" and "no_faults sv" and "target_ready tn ow tg (sv_store sv)"
    and "registry_get (tn, tg_task_id tg) sv = None" and "start_task_turn tn ow tg m sv = (Inr (), sv1)"
    and "returns execute" and "executor_turn execute uuid (target_scope tn ow tg m xi) sv1 = (res, sk, sv2)"
  shows "(\<exists>h. res = Inr h) \<and> at_rest (state_of (sv_store sv2) tn (tg_task_id tg)) \<and>
    registry_get (tn, tg_task_id tg) sv2 = None"
  using started_turn_ends [OF assms] .

lemma started_turns_end_witness:
  "at_rest (state_of (sv_store (snd (snd (executor_turn example_executor ''u''
     (target_scope ''t'' ''o'' example_send_target example_message example_inputs) started_server)))) ''t'' ''task'')"
proof -
  obtain res sk sv2 where t: "executor_turn example_executor ''u''
      (target_scope ''t'' ''o'' example_send_target example_message example_inputs) started_server = (res, sk, sv2)"
    by (metis prod_cases3)
  have "(\<exists>h. res = Inr h) \<and> at_rest (state_of (sv_store sv2) ''t'' (tg_task_id example_send_target)) \<and>
      registry_get (''t'', tg_task_id example_send_target) sv2 = None"
    by (rule started_turns_end [OF _ _ _ _ example_turn_starts example_executor_returns t])
      (simp_all add: example_send_target_ready)
  then show ?thesis using t by (simp add: example_send_target_def)
qed

text \<open>
  C19. A task stream nobody disturbs delivers, after its snapshot, exactly the events of the log
  above its starting sequence, in order, each once, as they are committed, up to and with the
  first that closes the stream; and it has ended exactly when one has been read.
\<close>

theorem streams_are_exact:
  assumes "undisturbed w" and "watched tn i (sw_store w)" and "task_state_of snapshot = Some st"
  shows "task_event_stream (Suc n) w tn i snapshot q =
    (let evs = (if closes_stream st then [] else events_above q (log_of (sw_store w n) tn i))
     in (closes_stream st \<or> (\<exists>e \<in> set evs. event_closes e),
         Inr (ItemTask snapshot) # map (Inr \<circ> ItemEvent) (up_to_closing evs)))"
  by (rule stream_exact [OF assms])

lemma streams_are_exact_witness:
  "fst (task_event_stream 3 \<lparr>sw_store = (\<lambda>_. example_store Submitted), sw_fault = (\<lambda>_. None),
     sw_wake_closed = (\<lambda>_. False), sw_takes = None\<rparr> ''t'' ''task'' (example_task Completed) 0)"
proof -
  let ?w = "\<lparr>sw_store = (\<lambda>_. example_store Submitted), sw_fault = (\<lambda>_. None),
     sw_wake_closed = (\<lambda>_. False), sw_takes = None\<rparr>"
  have "watched ''t'' ''task'' (sw_store ?w)"
    using example_here reachable_inv [OF example_store_reachable [of Submitted]]
    by (auto simp: watched_def task_here_def store_inv_def server_run.done_run)
  from streams_are_exact [OF _ this example_task_state [of Completed], of 2 0] show ?thesis
    by (simp add: undisturbed_def closes_stream_def is_terminal_def TERMINAL_STATES_def numeral_3_eq_3)
qed

text \<open>
  C20. A task of another owner is answered like one that does not exist, by every operation
  addressed to a task, \<open>SendMessage\<close> and \<open>SendStreamingMessage\<close> with its id included:
  \<open>TaskNotFound\<close>, and nothing is written. It is about requests that pass the checks made before the
  task is looked up (\<open>request_admitted\<close>: the capabilities, the message, its media types, the
  history length, the inline config), a store that does not fail, and a task nobody hands to the
  caller meanwhile (\<open>stays_hidden\<close>).
\<close>

theorem foreign_tasks_look_missing:
  assumes "stays_hidden tn i ow sv" and "no_faults sv" and "request_admitted w sv i req"
  shows "\<exists>sv'. handle_request w fuel tn ow i req sv = Some (Inl (TaskNotFound i), sv') \<and> only_others sv sv'"
  by (rule hidden_task_not_found [OF assms])

lemma foreign_tasks_look_missing_witness:
  "\<forall>w fuel. \<exists>sv'. handle_request w fuel ''t'' ''p'' ''task'' ReqCancel (example_server (example_store Submitted)) =
     Some (Inl (TaskNotFound ''task''), sv') \<and> only_others (example_server (example_store Submitted)) sv'"
  by (intro allI, rule foreign_tasks_look_missing)
    (simp_all add: stays_hidden_def hidden_def example_store_row, simp add: example_server_def)

text \<open>
  C21. Without storage faults, \<open>CancelTask\<close> returns, and when it does the task is terminal: it
  answers with a terminal task whose state is the stored one, or, when somebody else ended the
  task before the cancel marker was written, with \<open>TaskNotCancelable\<close>.
\<close>

theorem cancellation_ends_the_task:
  assumes "task_here tn i ow (sv_store sv)" and "server_others tn i sv" and "no_faults sv"
    and "0 < cancel_handler_poll_interval (sv_config sv)" and "clock_monotone sv"
    and "cancel_handler_grace (sv_config sv) < fuel"
  shows "\<exists>r sv'. core_cancel_task fuel tn ow i sv = Some (r, sv') \<and>
    ((\<exists>t c. r = Inr t \<and> task_state_of t = Some c \<and> is_terminal c \<and> state_of (sv_store sv') tn i = Some c) \<or>
     r = Inl (TaskNotCancelable i) \<and> ended (state_of (sv_store sv') tn i))"
  by (rule cancel_ends_task [OF assms])

lemma cancellation_ends_the_task_witness:
  "\<exists>r sv'. core_cancel_task 6000000000 ''t'' ''o'' ''task'' (example_server (example_store Submitted)) = Some (r, sv')"
  using cancellation_ends_the_task [of "''t''" "''task''" "''o''" "example_server (example_store Submitted)" 6000000000]
    example_here by (auto simp: runtime_config_default_def secs_def nanos_per_sec_def Let_def)

text \<open>
  C22. Without storage faults, the wait of a blocking send returns a task that is terminal or waits
  on its client, by the oneshot, by a poll, or by the hard deadline's own terminal; or it reports
  that the executor went away without a word. The oneshot may carry whatever a status commit of
  the executor's sink put there, in any state of that sink (\<open>oneshot_fired\<close>); that such a task is at
  rest is part of what is shown. The other writers are writers of the server (\<open>server_others\<close>).
\<close>

theorem blocking_sends_rest:
  assumes "task_here tn i ow (sv_store sv)" and "server_others tn i sv" and "no_faults sv"
    and "oneshot_fired w h tn i" and "await_yielded w uuid h tn ow i ctx sv = (r, sv')"
  shows "(\<exists>t. r = Inr t \<and> rests t) \<or> r = Inl not_emitted"
  by (rule blocking_wait_rests [OF assms])

lemma blocking_sends_rest_witness:
  "\<exists>t r. await_yielded (example_wait t) ''u'' 0 ''t'' ''o'' ''task'' ''ctx'' (example_server (example_store Submitted)) = r \<and>
     fst r = Inr t \<and> rests t"
proof -
  obtain t where t: "oneshot_fired (example_wait t) 0 ''t'' ''task''" using example_fired by blast
  obtain r sv' where aw: "await_yielded (example_wait t) ''u'' 0 ''t'' ''o'' ''task'' ''ctx''
      (example_server (example_store Submitted)) = (r, sv')" by fastforce
  then have "r = Inr t" by (simp add: await_yielded_def example_wait_def oneshot_result_def)
  moreover have "(\<exists>t. r = Inr t \<and> rests t) \<or> r = Inl not_emitted"
    by (rule blocking_sends_rest [OF _ _ _ t aw]) (simp_all add: example_here)
  ultimately show ?thesis using aw by (intro exI [of _ t] exI [of _ "(r, sv')"]) simp
qed

text \<open>
  C23. The error table of the bindings: each of the server's errors has the JSON-RPC code, the
  HTTP status, the gRPC status and the reason written out below, a row of its own. The JSON-RPC
  error holds that code, the message and, where there is a reason, an ErrorInfo with it; the gRPC
  status has that code, the same message and reason. And the error survives the way to the
  repository's clients: when the body the HTTP client receives parses to the JSON the server
  wrote, a refused request comes back with the status, the message and the reason of the server's
  error (so the body's \<open>error\<close>, \<open>message\<close>, \<open>details\<close> and \<open>reason\<close> are where the client looks for
  them), and the gRPC client reads the same message and reason from the status.
\<close>

theorem errors_agree_across_bindings:
  assumes "carries C (into_response e) r" and "x q = Inr r"
  shows "(jsonrpc_code e, http_status e, grpc_status e, error_reason e) = (case e of
      TaskNotFound _ \<Rightarrow> (-32001, 404, ''NOT_FOUND'', Some ''TASK_NOT_FOUND'')
    | TaskNotCancelable _ \<Rightarrow> (-32002, 400, ''FAILED_PRECONDITION'', Some ''TASK_NOT_CANCELABLE'')
    | PushNotificationNotSupported \<Rightarrow> (-32003, 400, ''FAILED_PRECONDITION'', Some ''PUSH_NOTIFICATION_NOT_SUPPORTED'')
    | UnsupportedOperation _ \<Rightarrow> (-32004, 400, ''FAILED_PRECONDITION'', Some ''UNSUPPORTED_OPERATION'')
    | ContentTypeNotSupported _ \<Rightarrow> (-32005, 400, ''INVALID_ARGUMENT'', Some ''CONTENT_TYPE_NOT_SUPPORTED'')
    | InvalidAgentResponse _ \<Rightarrow> (-32006, 500, ''INTERNAL'', Some ''INVALID_AGENT_RESPONSE'')
    | ExtendedAgentCardNotConfigured \<Rightarrow>
        (-32007, 400, ''FAILED_PRECONDITION'', Some ''EXTENDED_AGENT_CARD_NOT_CONFIGURED'')
    | ExtensionSupportRequired _ \<Rightarrow> (-32008, 400, ''FAILED_PRECONDITION'', Some ''EXTENSION_SUPPORT_REQUIRED'')
    | VersionNotSupported _ \<Rightarrow> (-32009, 400, ''FAILED_PRECONDITION'', Some ''VERSION_NOT_SUPPORTED'')
    | InvalidRequest _ \<Rightarrow> (-32602, 400, ''INVALID_ARGUMENT'', None)
    | Internal _ \<Rightarrow> (-32603, 500, ''INTERNAL'', None)) \<and>
    json_get ''error'' (to_jsonrpc_error e i) = Some (JObject
      ([(''code'', JInt (jsonrpc_code e)), (''message'', JString (a2a_error_text e))] @
       (case error_reason e of None \<Rightarrow> [] | Some reason \<Rightarrow>
          [(''data'', JArray [json_of_error_info (error_info_new reason ''a2a-protocol.org'')])]))) \<and>
    a2a_status e = \<lparr>rs_code = grpc_status e, rs_message = a2a_error_text e,
      rs_info = map_option (\<lambda>reason. error_info_new reason ''a2a-protocol.org'') (error_reason e)\<rparr> \<and>
    client_send C x k q = Inl (ClientA2a (http_status e) (a2a_error_text e) (error_reason e)) \<and>
    client_of_status (a2a_status e) = ClientGrpc (grpc_status e) (a2a_error_text e) (error_reason e)"
  using client_reads_error [of C e r x q k, OF assms]
  by (cases e) (simp_all add: error_renderings client_of_status_def error_info_new_def)

lemma errors_agree_across_bindings_witness:
  "\<exists>C r. client_send C (\<lambda>q. Inr r) (\<lambda>r. Inr ()) (client_request (client_new ''http://h'') ''GET'' ''http://h/tasks/a'') =
     Inl (ClientA2a 404 ''Task not found: a'' (Some ''TASK_NOT_FOUND''))"
proof -
  let ?C = "\<lparr>cc_from_str = \<lambda>s. Inr (to_http_error_body (TaskNotFound ''a'')), cc_to_string = \<lambda>j. [], cc_task = \<lambda>j. Inl [],
    cc_message = \<lambda>j. Inl [], cc_type_error = \<lambda>e. [], cc_segment = \<lambda>s. s, cc_send_text = \<lambda>q. [], cc_config_text = \<lambda>c. [],
    cc_send_reply = \<lambda>j. Inl [], cc_task_page = \<lambda>j. Inl [], cc_config = \<lambda>j. Inl [], cc_config_page = \<lambda>j. Inl []\<rparr>"
  let ?r = "\<lparr>cr_status = 404, cr_text = Inr ''body'', cr_chunks = []\<rparr>"
  have "carries ?C (into_response (TaskNotFound ''a'')) ?r"
    by (simp add: carries_def into_response_def json_response_def)
  from errors_agree_across_bindings [where x = "\<lambda>q. Inr ?r" and k = "\<lambda>r. Inr ()"
      and q = "client_request (client_new ''http://h'') ''GET'' ''http://h/tasks/a''", OF this refl] show ?thesis
    by (intro exI [of _ ?C] exI [of _ ?r]) simp
qed

section \<open>The front end\<close>

text \<open>
  C24. With bearer authentication, a request (other than for the public card) is either refused,
  with an error body and without touching the server, or its \<open>Authorization\<close> header holds a token
  the validator accepts with a principal and every required scope, and the routes run as that
  principal, with that token's claims. A gRPC call is refused with a status, without touching the
  server, or runs as the principal of such a token.
\<close>

theorem requests_are_authenticated:
  assumes "serve f ex req sv = Some (r, sv')" and "\<not> is_bypass_path (rq_path req)"
    and "fr_stack f = [bearer_before_request validate to_value principal_claim required_scopes]"
  shows "(refused_reply f req r \<and> sv' = sv \<or>
    (\<exists>claims ctx r0. bearer_credential validate principal_claim required_scopes (rq_headers req) claims \<and>
       rx_identity ctx = Authenticated (principal_of principal_claim claims) (to_value claims) \<and>
       router_call f ex ctx req sv = Some (r0, sv') \<and> rp_status r = rp_status r0 \<and> rp_body r = rp_body r0)) \<and>
   ((\<exists>s. grpc_serve f C hs call sv = Some (Inl s, sv)) \<or>
    (\<exists>claims ctx. bearer_credential validate principal_claim required_scopes hs claims \<and>
       rx_identity ctx = Authenticated (principal_of principal_claim claims) (to_value claims) \<and>
       grpc_serve f C hs call sv = grpc_dispatch f C \<lparr>gq_metadata = hs, gq_context = Some ctx\<rparr> call sv))"
  by (rule conjI [OF bearer_served [OF assms] grpc_bearer [OF assms(3)]])

lemma requests_are_authenticated_witness:
  "map_option snd (serve example_front example_extractors (example_get\<lparr>rq_headers := [(''a2a-version'', ''1.0'')]\<rparr>)
     (example_server (empty_store True))) \<in> {None, Some (example_server (empty_store True))}"
proof (cases "serve example_front example_extractors (example_get\<lparr>rq_headers := [(''a2a-version'', ''1.0'')]\<rparr>)
    (example_server (empty_store True))")
  case (Some x)
  then obtain r sv' where x: "x = (r, sv')" by (cases x)
  from requests_are_authenticated [OF Some [unfolded x], of example_validate "\<lambda>_. None" "''sub''" "[''read'']"]
  have "sv' = example_server (empty_store True)"
    by (auto simp: example_get_def is_bypass_path_def example_bearer_def bearer_credential_def header_get_def
        ascii_lower_def)
  with Some x show ?thesis by simp
qed simp

text \<open>
  When one of several middlewares suffices, they are tried in order: the first that accepts
  decides the identity, provided all before it failed softly; an internal failure stops the
  search; and when all fail, the first of the strongest failures is reported. A failed attempt
  leaves no trace in the context.
\<close>

theorem any_of_is_exact:
  assumes "any_of children = Some mw"
  shows "(children = pre @ c # post \<and> (\<forall>c\<in>set pre. soft_failure (fst (c ctx))) \<longrightarrow>
      (fst (c ctx) = Inr () \<longrightarrow> mw ctx = (Inr (), ctx\<lparr>rx_identity := rx_identity (snd (c ctx)),
         rx_extensions := rx_extensions (snd (c ctx))\<rparr>)) \<and>
      (fst (c ctx) = Inl (MiddlewareInternal m) \<longrightarrow> mw ctx = (Inl (MiddlewareInternal m), ctx))) \<and>
    ((\<forall>c\<in>set children. soft_failure (fst (c ctx))) \<longrightarrow>
      (\<exists>e. mw ctx = (Inl e, ctx) \<and> first_strongest e (map (\<lambda>c. projl (fst (c ctx))) children)))"
  using any_of_success [OF assms, of pre c post ctx "snd (c ctx)"] any_of_internal [OF assms, of pre c post ctx m]
    any_of_failure [OF assms, of ctx]
  by (auto simp: prod_eq_iff)

lemma any_of_is_exact_witness:
  "\<exists>mw. any_of [\<lambda>c. (Inl (Unauthenticated InvalidApiKey), c), \<lambda>c. (Inl (Forbidden InsufficientScope), c)] = Some mw \<and>
     fst (mw (context_from_headers [])) = Inl (Forbidden InsufficientScope)"
proof -
  let ?cs = "[\<lambda>c. (Inl (Unauthenticated InvalidApiKey), c), \<lambda>c. (Inl (Forbidden InsufficientScope), c)]
    :: middleware list"
  have some: "any_of ?cs = Some (any_of_from [] ?cs)" by (simp add: any_of_def)
  obtain e where "any_of_from [] ?cs (context_from_headers []) = (Inl e, context_from_headers [])"
      "first_strongest e [Unauthenticated InvalidApiKey, Forbidden InsufficientScope]"
    using any_of_is_exact [OF some, where ctx = "context_from_headers []"] by (auto simp: soft_failure_def)
  moreover from this(2) have "e = Forbidden InsufficientScope"
    by (auto simp: first_strongest_def Cons_eq_append_conv)
  ultimately show ?thesis using some by auto
qed

text \<open>
  A version is served exactly when it names 1.0, with any patch numbers and surrounding white
  space, or, with the 0.3 wire compiled in, names 0.3 or is absent or blank. Every other request
  except for the public card is refused before authentication and dispatch, in the error format
  of its binding, and changes nothing.
\<close>

theorem unsupported_versions_are_refused:
  "(check_version requested v03 = Inr () \<longleftrightarrow> version_admitted v03 requested) \<and>
   (\<not> version_admitted (fr_v03 f) (requested_version req) \<and> \<not> is_bypass_path (rq_path req) \<longrightarrow>
     (\<exists>v r. serve f ex req sv = Some (r, sv) \<and> rp_body r = JsonBody
       (if is_jsonrpc_path (fr_v03 f) (rq_path req) then to_jsonrpc_error (VersionNotSupported v) None
        else to_http_error_body (VersionNotSupported v))))"
  using check_version_iff by (blast elim: version_refused dest: serve_transport_refused)

lemma unsupported_versions_are_refused_witness:
  "\<exists>v r. serve example_front example_extractors (example_get\<lparr>rq_headers := []\<rparr>) (example_server (empty_store True)) =
     Some (r, example_server (empty_store True)) \<and> rp_body r = JsonBody (to_http_error_body (VersionNotSupported v))"
  using unsupported_versions_are_refused [of None False example_front "example_get\<lparr>rq_headers := []\<rparr>" example_extractors
      "example_server (empty_store True)"]
  by (simp add: example_get_def requested_version_def header_get_def version_admitted_def is_bypass_path_def
      is_jsonrpc_path_def JSONRPC_PATH_def)

text \<open>
  C25. A required extension the client did not activate stops every operation on either binding
  before it does anything; otherwise the negotiated extensions are exactly those both activated
  and advertised, and the echo header, read back by the parser, is that set.
\<close>

theorem required_extensions_are_enforced:
  assumes "card_capabilities (se_card (fr_send f)) = Some c"
  shows "(ext \<in> set (cap_extensions c) \<and> ext_required ext \<and>
       ext_uri ext \<notin> set (activated_from_headers (rq_headers req)) \<and> route_call f ex rt ctx req = Some k \<and>
       rt \<noteq> AgentCardRoute \<longrightarrow>
       (\<exists>uri rep. k sv = Some (rep, sv) \<and> rp_body rep = JsonBody
          (if rt = JsonRpcRoute then to_jsonrpc_error (ExtensionSupportRequired uri) None
           else to_http_error_body (ExtensionSupportRequired uri)))) \<and>
    (negotiate_profile_extensions (se_card (fr_send f)) hs = Inr echoed \<longrightarrow>
       set echoed = set (activated_from_headers hs) \<inter> ext_uri ` set (cap_extensions c) \<and>
       (\<forall>x\<in>set (cap_extensions c). ext_required x \<longrightarrow> ext_uri x \<in> set echoed)) \<and>
    (distinct uris \<and> (\<forall>u\<in>set uris. CHR '','' \<notin> set u \<and> trim u = u \<and> u \<noteq> []) \<longrightarrow>
       set (parse_a2a_extensions (response_header_value uris)) = set uris)"
  using required_extension_refused [OF assms] negotiated(1,2) [OF _ assms] echo_round_trip [of uris]
  by (intro conjI) (blast, metis, simp)

lemma required_extensions_are_enforced_witness:
  "set [''urn:x''] = set (activated_from_headers example_headers) \<inter> {''urn:x''}"
  using required_extensions_are_enforced [of example_front "the (card_capabilities example_card)",
      where hs = example_headers and echoed = "[''urn:x'']"] example_negotiated
  by (simp add: example_card_def)

text \<open>
  C26. Given that \<open>turul-rpc\<close> builds a response from a result or an error as it documents
  (\<open>rpc_ok\<close>), every JSON-RPC body is answered. A text that is not JSON and a malformed envelope (no
  version 2.0, no method, an explicit null id, or a batch, which the handler does not support) get
  the error that says so, without effect. A notification gets no body. Any other request gets one
  response under the id it came with, whatever JSON that is, holding either a result or an error,
  or a stream under that id. And when the method ran (\<open>rpc_outcome\<close>), the server is left as it left
  it and the response holds just its result, renamed for a 0.3 client, or just its error.
\<close>

theorem rpc_replies_are_well_formed:
  assumes "jsonrpc_dispatch_inner f ctx hs text negotiated sv = Some (r, sv')" and "rpc_ok (fr_rpc f)"
  shows "case fr_from_str f text of
      None \<Rightarrow> r = ok_json (jsonrpc_error JNull (-32700) ''Parse error'' None) \<and> sv' = sv
    | Some v \<Rightarrow> if envelope_ok v
        then (case json_get ''id'' v of None \<Rightarrow> r = no_content | Some i \<Rightarrow> answered_with i r) \<and>
          (\<forall>meth mode out sv1. rpc_outcome f ctx hs negotiated v sv meth mode out sv1 \<longrightarrow> sv' = sv1 \<and>
            (case json_get ''id'' v of None \<Rightarrow> r = no_content
             | Some i \<Rightarrow> \<exists>j. r = ok_json j \<and> outcome_reply i meth mode out j))
        else sv' = sv \<and> (\<exists>message. r = ok_json (jsonrpc_error (unwrap_or JNull (json_get ''id'' v)) (-32600) message None))"
  using dispatch_inner_replies [OF assms] dispatch_inner_outcome [OF assms]
  by (auto split: option.splits)

lemma rpc_replies_are_well_formed_witness:
  "\<exists>r sv'. jsonrpc_dispatch_inner example_front (context_from_headers []) [] ''body'' []
     (example_server (example_store Working)) = Some (r, sv') \<and> answered_with (JInt 7) r"
proof -
  obtain r sv' where r: "jsonrpc_dispatch_inner example_front (context_from_headers []) [] ''body'' []
      (example_server (example_store Working)) = Some (r, sv')"
    using example_rpc_call by (metis surj_pair)
  moreover have "answered_with (JInt 7) r"
    using rpc_replies_are_well_formed [OF r] example_rpc_ok example_envelope_ok by simp
  ultimately show ?thesis by blast
qed

text \<open>
  C27. The three bindings are one service: a request addressed to one task, in the form each
  binding gives it, runs the same operation for the same principal and leaves the same server
  behind; HTTP answers with the operation's result or error, JSON-RPC with a response that wraps
  the same one, gRPC with that result as a message or that error as a status, given that the
  message comes back from its JSON.
\<close>

theorem bindings_agree:
  assumes "plain_id i" and "req \<noteq> ReqSubscribe"
    and "http_form f ex i req rq rest" and "route_tenant ex tno = Some tn" and "ex_decode ex p = Some rest"
    and "negotiate_profile_extensions (se_card (fr_send f)) (rq_headers rq) = Inr echoed"
    and "rpc_form f i req meth params" and "rpc_request f hs text rid meth params tn"
    and "grpc_form f C gtn i req call" and "tenant_from g gtn = tn" and "gq_context g = Some ctx"
    and "negotiate_profile_extensions (se_card (fr_send f)) (gq_metadata g) = Inr echoed'"
    and "res = handle_request (fr_send f) (fr_fuel f) tn (identity_owner (rx_identity ctx)) i req sv"
    and "replies_decode f C res"
  shows "(\<exists>k. route_call f ex (TaskRoute tno p) ctx rq = Some k \<and>
      k sv = Option.bind res (\<lambda>r. handler_reply r (\<lambda>x. ok_json (response_json f x)))) \<and>
    jsonrpc_dispatch_inner f ctx hs text negotiated sv =
      map_option (\<lambda>(r, sv'). (ok_json (rpc_response f meth rid V10 (map_sum id (response_json f) r)), sv')) res \<and>
    grpc_dispatch f C g call sv = map_option grpc_reply res"
proof (intro conjI)
  have unary: "\<nexists>claims activated r. req = ReqSendStream claims activated r" using assms(3) by (cases req) auto
  show "\<exists>k. route_call f ex (TaskRoute tno p) ctx rq = Some k \<and>
      k sv = Option.bind res (\<lambda>r. handler_reply r (\<lambda>x. ok_json (response_json f x)))"
    using task_route_request [OF assms(3,1) refl assms(6,4,5), where sv = sv and ctx = ctx] unary_replies [OF assms(2) unary]
    unfolding assms(13) by (metis (no_types, lifting))
  show "jsonrpc_dispatch_inner f ctx hs text negotiated sv =
      map_option (\<lambda>(r, sv'). (ok_json (rpc_response f meth rid V10 (map_sum id (response_json f) r)), sv')) res"
    unfolding assms(13) by (rule rpc_request_dispatched [OF assms(8,7,2)])
  have "owner_from g = identity_owner (rx_identity ctx)" by (simp add: owner_from_def assms(11))
  then show "grpc_dispatch f C g call sv = map_option grpc_reply res"
    using assms(10,13,14) by (intro grpc_task_request [OF assms(9,12)]) simp_all
qed

lemma bindings_agree_witness:
  "\<exists>k sv'. route_call example_front example_extractors (TaskRoute None ''task'') (context_from_headers []) example_get = Some k \<and>
     k (example_server example_public_store) = Some (ok_json (fr_task_json example_front example_stamped), sv') \<and>
     grpc_dispatch example_front example_codec example_grpc example_grpc_get (example_server example_public_store) =
       Some (Inr (TaskReply example_stamped, []), sv')"
proof -
  have forms: "plain_id ''task''" "http_form example_front example_extractors ''task'' (ReqGet None) example_get ''task''"
      "route_tenant example_extractors None = Some []" "ex_decode example_extractors ''task'' = Some ''task''"
      "rpc_form example_front ''task'' (ReqGet None) GET_TASK example_params"
      "rpc_request example_front [] ''body'' (JInt 7) GET_TASK example_params []"
      "negotiate_profile_extensions (se_card (fr_send example_front)) (rq_headers example_get) = Inr [''urn:x'']"
    using example_negotiated
    by (simp_all add: plain_id_def strip_suffix_def strip_prefix_def example_get_def example_extractors_def route_tenant_def
        DEFAULT_TENANT_def rpc_request_def example_envelope_def rpc_mode_def example_params_def unwrap_or_def
        example_front_def)
  have anonymous: "identity_owner (rx_identity (context_from_headers [])) = ''anonymous''"
    by (simp add: context_from_headers_def)
  obtain sv' where "core_get_task [] ''anonymous'' ''task'' None (example_server example_public_store) =
      (Inr example_stamped, sv')"
    using example_public_get by (metis prod.collapse)
  moreover note bindings_agree [OF forms(1) _ forms(2,3,4,7,5,6) example_grpc_form(1,2) _ example_grpc_form(3) refl,
      of "context_from_headers []" "example_server example_public_store"]
  ultimately show ?thesis
    using example_replies_decode
    by (auto simp: anonymous example_grpc_def handler_reply_def map_reply_def grpc_reply_def response_json_def)
qed

text \<open>
  C28. The 0.3 wire format is a renaming of 1.0's: without a version header each of its ten methods
  is called by the 1.0 name listed here, and a name without a slash is never touched; a task state
  is written under the 0.3 name listed here. A request whose roles are those of 0.3 is restored by the
  translation back, and a task reply, unwrapped and renamed for a 0.3 client, by reading the names
  back, in both cases if no string under the keys rewritten already is a name of the other format
  (the rewriting reaches a client's own data under such keys too). With a 1.0 version header nothing
  is rewritten.
\<close>

theorem v03_translation_round_trips:
  "list_all (\<lambda>(old, new). (header_get VERSION_PARAM hs = None \<longrightarrow>
       maybe_normalize_method old (detect_compat_mode old hs) = new) \<and> maybe_normalize_method new mode = new)
     [(''message/send'', ''SendMessage''), (''message/stream'', ''SendStreamingMessage''), (''tasks/get'', ''GetTask''),
      (''tasks/list'', ''ListTasks''), (''tasks/cancel'', ''CancelTask''), (''tasks/subscribe'', ''SubscribeToTask''),
      (''tasks/pushNotificationConfig/set'', ''CreateTaskPushNotificationConfig''),
      (''tasks/pushNotificationConfig/get'', ''GetTaskPushNotificationConfig''),
      (''tasks/pushNotificationConfig/list'', ''ListTaskPushNotificationConfigs''),
      (''tasks/pushNotificationConfig/delete'', ''DeleteTaskPushNotificationConfig'')] \<and>
   (CHR ''/'' \<notin> set meth \<longrightarrow> maybe_normalize_method meth mode = meth) \<and>
   map (\<lambda>st. v03_state (wire_name st)) [Submitted, Working, InputRequired, Completed, Canceled, Failed, Rejected,
     AuthRequired] = [''submitted'', ''working'', ''input-required'', ''completed'', ''canceled'', ''failed'', ''rejected'',
     ''auth-required''] \<and>
   ({''ROLE_USER'', ''ROLE_AGENT''} \<inter> set (strings_under ''role'' j) = {} \<longrightarrow>
      denormalize_roles (maybe_normalize_params j V03) = j) \<and>
   (let T = fr_task_json f t; reply = maybe_normalize_response (jsonrpc_success i (task_reply_json f t)) V03
    in \<exists>T'. reply = jsonrpc_success i T' \<and>
      ({''user'', ''agent''} \<inter> set (strings_under ''role'' T) = {} \<and>
       fst ` set state_names \<inter> set (strings_under ''state'' T) = {} \<longrightarrow>
       rewrite_field ''state'' v10_state (normalize_roles T') = T)) \<and>
   (header_get VERSION_PARAM hs = Some v \<and> to_str v = Some v \<and> names_version v ''1'' ''0'' \<longrightarrow>
      detect_compat_mode meth hs = V10) \<and>
   maybe_normalize_method meth V10 = meth \<and> maybe_normalize_params j V10 = j \<and> maybe_normalize_response j V10 = j"
  apply (intro conjI)
  subgoal by (simp add: v03_method_named modern_method_kept normalize_jsonrpc_method_def v03_methods_def method_names unwrap_or_def)
  subgoal by (simp add: modern_method_kept)
  subgoal by code_simp
  subgoal using roles_round_trip(1) [of j] by (simp add: maybe_normalize_params_def)
  subgoal using v03_task_reply [of i f t] response_round_trip [of "fr_task_json f t"] by (auto simp: Let_def)
  subgoal by (auto simp: detect_compat_mode_def version_supported_iff)
  by (simp_all add: maybe_normalize_method_def maybe_normalize_params_def maybe_normalize_response_def)

lemma v03_translation_round_trips_witness:
  "denormalize_roles (maybe_normalize_params (JObject [(''role'', JString ''user'')]) V03) = JObject [(''role'', JString ''user'')]"
  using v03_translation_round_trips [of _ _ _ "JObject [(''role'', JString ''user'')]"] by simp

section \<open>Lost, stalled and idle executors\<close>

text \<open>
  C29. A task whose executor made no progress for the stall timeout, and is neither ended nor
  waiting on its client, is over after one watchdog pass, and its executor is cancelled with its
  abort armed, however the other writers of the server (\<open>server_others\<close>) write meanwhile and provided
  no storage call of the pass fails (\<open>no_faults\<close>: after a failure the pass moves on and the next tick
  tries again).
\<close>

theorem stalled_executors_end:
  assumes "task_here tn i ow (sv_store sv)" and "server_others tn i sv" and "no_faults sv"
    and "((tn, i), h) \<in> set (snapshot_handles sv)" and "distinct (map snd (snapshot_handles sv))"
    and "stalled timeout sv h" and "ih_identity (sv_handles sv h) = Some (ow, ctx)" and "clock_monotone sv"
    and "stall_tick dur uuid timeout grace sv = sv'"
  shows "ended (state_of (sv_store sv') tn i) \<and> ih_cancelled (sv_handles sv' h) \<and> ih_abort_armed (sv_handles sv' h)"
  by (rule stalled_executor_ends [OF assms])

lemma stalled_executors_end_witness:
  "let sv = (example_server (example_store Submitted))\<lparr>sv_registry := [((''t'', ''task''), 1)], sv_now := (\<lambda>_. 10),
     sv_handles := (\<lambda>_. set_identity ''o'' ''ctx'' (in_flight_handle_new 0 0))\<rparr>
   in ih_cancelled (sv_handles (stall_tick (\<lambda>_. ''5ns'') ''u'' 5 3 sv) 1)"
proof -
  let ?sv = "(example_server (example_store Submitted))\<lparr>sv_registry := [((''t'', ''task''), 1)], sv_now := (\<lambda>_. 10),
     sv_handles := (\<lambda>_. set_identity ''o'' ''ctx'' (in_flight_handle_new 0 0))\<rparr>"
  have a: "task_here ''t'' ''task'' ''o'' (sv_store ?sv)" "server_others ''t'' ''task'' ?sv" "no_faults ?sv"
    using example_here by (simp_all add: example_server_def server_others_def no_faults_def server_run.done_run)
  have b: "((''t'', ''task''), 1) \<in> set (snapshot_handles ?sv)" "distinct (map snd (snapshot_handles ?sv))"
    by (simp_all add: snapshot_handles_def hm_entries_def)
  have c: "stalled 5 ?sv 1" "ih_identity (sv_handles ?sv 1) = Some (''o'', ''ctx'')" "clock_monotone ?sv"
    by (simp_all add: stalled_def set_identity_def in_flight_handle_new_def since_progress_def now_of_def
        clock_monotone_def mono_def)
  from stalled_executors_end [OF a b c refl] show ?thesis unfolding Let_def by blast
qed

text \<open>
  C30. When nobody else writes, the idle sweep returns and reports what it did: it canceled only
  tasks that had waited on their client past the timeout, with any executor still registered for
  them, it left every other task alone, and no task is left that was idle when it began.
\<close>

theorem idle_tasks_are_canceled:
  assumes "quiet sv" and "tasks_keyed (sv_store sv)" and "named (sv_store sv)" and "clock_monotone sv"
    and "card (waiting (sv_store sv)) < fuel"
  shows "\<exists>ks sv'. cancel_idle_tasks fuel c dur uuid True idle_for sv = Some (Inr \<lparr>is_canceled = card ks, is_errors = 0\<rparr>, sv') \<and>
    (\<forall>k \<in> ks. was_idle c idle_for sv k \<and> row_canceled (sv_store sv') k \<and>
       (\<forall>h. registry_get k sv = Some h \<longrightarrow> ih_cancelled (sv_handles sv' h))) \<and>
    (\<forall>tn i. (tn, i) \<notin> ks \<longrightarrow> get_stored (sv_store sv') tn i = get_stored (sv_store sv) tn i) \<and>
    (\<exists>now' \<ge> now_of sv. \<forall>tn i r. get_stored (sv_store sv') tn i = Some r \<longrightarrow>
       \<not> idle_client_held c (idle_before now' idle_for) r)"
proof -
  obtain ks sv' where "cancel_idle_tasks fuel c dur uuid True idle_for sv = Some (Inr \<lparr>is_canceled = card ks, is_errors = 0\<rparr>, sv')"
    and sw: "swept True ks sv sv'" and "\<forall>k \<in> ks. was_idle c idle_for sv k"
    and "\<exists>now' \<ge> now_of sv. \<forall>tn i r. get_stored (sv_store sv') tn i = Some r \<longrightarrow>
       \<not> idle_client_held c (idle_before now' idle_for) r"
    using sweep_loop [OF assms, of c uuid True "idle_reason dur idle_for" idle_for "\<lparr>is_canceled = 0, is_errors = 0\<rparr>"]
    unfolding cancel_idle_tasks_def by auto
  with sw [unfolded swept_def] show ?thesis by (intro exI [of _ ks] exI [of _ sv']) blast
qed

lemma idle_tasks_are_canceled_witness:
  "\<exists>n sv'. cancel_idle_tasks 2 unary_chrono (\<lambda>_. ''1s'') ''u'' True 1 (example_server (example_store InputRequired)) =
     Some (Inr \<lparr>is_canceled = n, is_errors = 0\<rparr>, sv')"
proof -
  let ?sv = "example_server (example_store InputRequired)"
  have inv: "tasks_keyed (sv_store ?sv)"
    using reachable_inv [OF example_store_reachable] by (simp add: store_inv_def)
  have rows: "tasks (example_store InputRequired) = [((''t'', ''task''), example_row InputRequired)]"
    by (simp add: example_store_def create_task_with_events_eq Let_def put_stored_def empty_store_def
        with_push_dispatch_enabled_def with_retention_def store_new_def hm_insert_def example_row_def counter_of_def)
  then have "named (sv_store ?sv)" by (auto simp: named_def get_stored_def hm_get_def split: if_splits)
  moreover have "waiting (sv_store ?sv) \<subseteq> {(''t'', ''task'')}"
    using rows by (auto simp: waiting_def get_stored_def hm_get_def split: if_splits)
  then have "card (waiting (sv_store ?sv)) < 2"
    using card_mono [of "{(''t'', ''task'')}" "waiting (sv_store ?sv)"] by simp
  moreover have "quiet ?sv" by (simp add: quiet_def) (simp add: example_server_def)
  ultimately show ?thesis
    using idle_tasks_are_canceled [of ?sv 2 unary_chrono "\<lambda>_. ''1s''" "''u''" 1] inv by force
qed

section \<open>Push dispatch\<close>

text \<open>
  C31. On the in-memory store, whenever the config listing fails, dispatching the events of a
  commit returns, and each terminal status event is then in one of two states: its marker is
  gone and every config registered before it (with a URL that parses) has a claim row, or its
  marker is as it was. No other marker changes; with a working config store all are handled.
  Claims stay writable throughout (C33 is the other case), and deleting a marker of the in-memory
  store cannot fail.
\<close>

theorem terminal_events_fan_out:
  assumes "reachable (de_store e)" and "max_attempts cfg < 2 ^ 32" and "max_attempts cfg < fuel"
    and "length (push_configs (de_store e)) < pages" and "tk_id t \<noteq> []"
  shows "\<exists>e'. dispatch pages (memory_dispatch fuel cfg iid v (\<lambda>_. True) cup parse (\<lambda>t. Inr (pay t))) tn ow t evs e =
      Some e' \<and>
    (\<forall>sq ev. (sq, ev) \<in> set evs \<longrightarrow> dispatch_eligible ev \<longrightarrow>
       handled_event parse tn (tk_id t) sq e e' \<or>
       cup \<noteq> (\<lambda>_. True) \<and> marker e' (tn, tk_id t, sq) = marker e (tn, tk_id t, sq)) \<and>
    (\<forall>k. (\<forall>sq ev. (sq, ev) \<in> set evs \<longrightarrow> dispatch_eligible ev \<longrightarrow> k \<noteq> (tn, tk_id t, sq)) \<longrightarrow>
       marker e' k = marker e k)"
proof -
  let ?D = "memory_dispatch fuel cfg iid v (\<lambda>_. True) cup parse (\<lambda>t. Inr (pay t))"
  let ?seqs = "map fst (filter (\<lambda>(_, e). dispatch_eligible e) evs)"
  have k: "configs_keyed (de_store e)" using reachable_inv [OF assms(1)] by (simp add: store_inv_def)
  have "length (eligible tn (tk_id t) sq e) < pages" for sq
    using assms(4) length_task_configs [of _ tn "tk_id t" "de_store e"] unfolding eligible_def
    by (rule le_less_trans [rotated])
  with fanout_loop_memory [OF assms(2,3) refl k, of ?seqs tn "tk_id t" pages iid v cup parse
      "\<lambda>t. Inr (pay t)" ow "pay t" None]
  obtain r e' where f: "fanout_loop pages ?D tn ow (tk_id t) (pay t) ?seqs None e = Some (r, e')"
    "\<forall>k. k \<notin> (\<lambda>sq. (tn, tk_id t, sq)) ` set ?seqs \<longrightarrow> marker e' k = marker e k"
    "\<forall>sq \<in> set ?seqs. handled_event parse tn (tk_id t) sq e e' \<or>
       isl r \<and> marker e' (tn, tk_id t, sq) = marker e (tn, tk_id t, sq)"
    "cup = (\<lambda>_. True) \<longrightarrow> r = Inr ()" by blast
  have "d_payload ?D t = Inr (pay t)" by (simp add: memory_dispatch_def)
  then have run: "dispatch pages ?D tn ow t evs e = (if ?seqs = [] then Some e else Some e')"
    using f(1) assms(5) by (simp add: dispatch_def run_fanout_def Let_def)
  have e': "?seqs = [] \<Longrightarrow> e' = e" using f(1) by auto
  have ev: "(sq, ev) \<in> set evs \<Longrightarrow> dispatch_eligible ev \<Longrightarrow> sq \<in> set ?seqs" for sq ev by force
  show ?thesis
  proof (intro exI conjI allI impI)
    show "dispatch pages ?D tn ow t evs e = Some e'" using run e' by simp
    show "handled_event parse tn (tk_id t) sq e e' \<or>
        cup \<noteq> (\<lambda>_. True) \<and> marker e' (tn, tk_id t, sq) = marker e (tn, tk_id t, sq)"
      if "(sq, ev) \<in> set evs" "dispatch_eligible ev" for sq ev
      using f(3,4) ev [OF that] by auto
    show "marker e' k = marker e k"
      if "\<forall>sq ev. (sq, ev) \<in> set evs \<longrightarrow> dispatch_eligible ev \<longrightarrow> k \<noteq> (tn, tk_id t, sq)" for k
    proof -
      have "k \<notin> (\<lambda>sq. (tn, tk_id t, sq)) ` set ?seqs" using that by (auto, blast)
      with f(2) show ?thesis by blast
    qed
  qed
qed

lemma terminal_events_fan_out_witness:
  "\<exists>e'. dispatch 2 (memory_dispatch 9 push_delivery_config_default ''w'' None (\<lambda>_. True) (\<lambda>_. True)
      hook_url (\<lambda>t. Inr ''{}'')) ''t'' ''o'' (example_task Completed) [(1, example_event Completed)] hooked_env =
      Some e' \<and> marker e' (''t'', ''task'', 1) = None \<and>
     claim_of (de_store e') (''t'', ''task'', 1, ''cfg'') \<noteq> None"
proof -
  have "dispatch_eligible (example_event Completed)"
    by (simp add: dispatch_eligible_def is_status_update_def event_is_terminal_def example_event_def
        example_status_def)
  with terminal_events_fan_out [of hooked_env push_delivery_config_default 9 2 "example_task Completed"
      "''w''" None "\<lambda>_. True" hook_url "\<lambda>_. ''{}''" "''t''" "''o''" "[(1, example_event Completed)]"]
  show ?thesis
    by (auto simp: hooked_store_reachable push_delivery_config_default_def handled_event_def hook_url_def
        hook_config_def)
qed

text \<open>
  C32. A marker a fan-out left behind in the in-memory store is recovered while claims stay
  writable (C33 shows what happens when they are not) and, as in that store, deleting a marker
  cannot fail. \<open>try_redispatch_pending\<close> returns, whenever the config listing fails. When it returns
  Ok the marker is gone and either the event was fanned out to every eligible config, or the task
  is no longer visible to its owner and there was no fan-out. When it returns an error the marker
  is still there. With a working config listing it returns Ok.
\<close>

theorem markers_are_recovered:
  assumes "reachable (de_store e)" and "max_attempts cfg < 2 ^ 32" and "max_attempts cfg < fuel"
    and "length (push_configs (de_store e)) < pages"
  shows "\<exists>r e'. try_redispatch_pending pages
      (memory_dispatch fuel cfg iid v (\<lambda>_. True) cup parse (\<lambda>t. Inr (pay t))) q e = Some (r, e') \<and>
    (r = Inr () \<longrightarrow> marker e' (pd_tenant q, pd_task_id q, pd_event_sequence q) = None \<and>
      (get_task (pd_tenant q) (pd_task_id q) (pd_owner q) None (de_store e) \<noteq> Inr None \<longrightarrow>
        handled_event parse (pd_tenant q) (pd_task_id q) (pd_event_sequence q) e e')) \<and>
    (isl r \<longrightarrow> marker e' (pd_tenant q, pd_task_id q, pd_event_sequence q) \<noteq> None) \<and>
    (cup = (\<lambda>_. True) \<longrightarrow> r = Inr ())"
  using recover_marker [OF assms(2,3) refl _ assms(4) refl] reachable_inv [OF assms(1)]
  unfolding store_inv_def by blast

lemma markers_are_recovered_witness:
  "\<exists>r e'. try_redispatch_pending 2 (memory_dispatch 9 push_delivery_config_default ''w'' None (\<lambda>_. True)
      (\<lambda>_. True) hook_url (\<lambda>t. Inr ''{}'')) \<lparr>pd_tenant = ''t'', pd_owner = ''o'', pd_task_id = ''task'',
      pd_event_sequence = 1, pd_recorded_at = 0\<rparr> hooked_env = Some (r, e') \<and>
     r = Inr () \<and> marker e' (''t'', ''task'', 1) = None"
  using markers_are_recovered [of hooked_env push_delivery_config_default 9 2 "''w''" None "\<lambda>_. True" hook_url
      "\<lambda>_. ''{}''" "\<lparr>pd_tenant = ''t'', pd_owner = ''o'', pd_task_id = ''task'', pd_event_sequence = 1,
        pd_recorded_at = 0\<rparr>"]
  by (auto simp: hooked_store_reachable push_delivery_config_default_def)

text \<open>
  C33. A fan-out that runs while claims cannot be written reports success and drops the event's
  marker although no delivery was claimed: neither sweep lists the event again, whatever their
  thresholds, and no config of the task is ever notified of it.
\<close>

theorem unclaimed_events_are_lost:
  assumes "reachable (de_store e)" and "length (push_configs (de_store e)) < pages"
    and "\<And>c. claim_of (de_store e) (tn, tk_id t, sq, c) = None"
  shows "\<exists>e'. run_fanout pages (memory_dispatch fuel cfg iid v (\<lambda>_. False) (\<lambda>_. True) parse (\<lambda>t. Inr (pay t)))
      tn ow (tk_id t) t [sq] e = Some (Inr (), e') \<and>
    (\<forall>older n rows r. list_stale_pending_dispatches older n (de_store e') = Inr rows \<longrightarrow> r \<in> set rows \<longrightarrow>
       (pd_tenant r, pd_task_id r, pd_event_sequence r) \<noteq> (tn, tk_id t, sq)) \<and>
    (\<forall>now n rows r. list_reclaimable_claims now n (de_store e') = Inr rows \<longrightarrow> r \<in> set rows \<longrightarrow>
       (rec_tenant r, rec_task_id r, rec_event_sequence r) \<noteq> (tn, tk_id t, sq))"
proof -
  let ?D = "memory_dispatch fuel cfg iid v (\<lambda>_. False) (\<lambda>_. True) parse (\<lambda>t. Inr (pay t))"
  have k: "configs_keyed (de_store e)" using reachable_inv [OF assms(1)] by (simp add: store_inv_def)
  have "length (eligible tn (tk_id t) sq e) < pages"
    using assms(2) length_task_configs [of _ tn "tk_id t" "de_store e"] unfolding eligible_def
    by (rule le_less_trans [rotated])
  from fanout_unclaimed [OF refl k this, of fuel cfg iid v parse "\<lambda>t. Inr (pay t)" ow "pay t"]
  obtain e' where f: "fanout_loop pages ?D tn ow (tk_id t) (pay t) [sq] None e = Some (Inr (), e')"
    "de_store e' = de_store e\<lparr>pending_dispatches := hm_remove (tn, tk_id t, sq) (pending_dispatches (de_store e))\<rparr>"
    by blast
  have "run_fanout pages ?D tn ow (tk_id t) t [sq] e = Some (Inr (), e')"
    using f(1) by (simp add: run_fanout_def memory_dispatch_def)
  moreover have "hm_get (pending_dispatches (de_store e')) (tn, tk_id t, sq) = None"
    by (simp add: f(2) hm_simps)
  moreover have "claim_of (de_store e') (tn, tk_id t, sq, c) = None" for c
    using assms(3) by (simp add: f(2) claim_of_def)
  ultimately show ?thesis
    by (intro exI [of _ e'] conjI allI impI) (use stale_rows reclaimable_rows in fastforce)+
qed

lemma unclaimed_events_are_lost_witness:
  "\<exists>e'. run_fanout 2 (memory_dispatch 9 push_delivery_config_default ''w'' None (\<lambda>_. False) (\<lambda>_. True)
      hook_url (\<lambda>t. Inr ''{}'')) ''t'' ''o'' ''task'' (example_task Completed) [1] hooked_env = Some (Inr (), e') \<and>
     (\<nexists>rows r. list_stale_pending_dispatches 9 9 (de_store e') = Inr rows \<and> r \<in> set rows \<and>
       (pd_tenant r, pd_task_id r, pd_event_sequence r) = (''t'', ''task'', 1)) \<and>
     eligible ''t'' ''task'' 1 hooked_env = [hook_config] \<and> marker hooked_env (''t'', ''task'', 1) \<noteq> None"
proof -
  have m: "marker hooked_env (''t'', ''task'', 1) \<noteq> None"
    by (simp add: marker_def) (simp add: hooked_store_eq hm_get_def store_new_def)
  from unclaimed_events_are_lost [of hooked_env 2 "''t''" "example_task Completed" 1 9
      push_delivery_config_default "''w''" None hook_url "\<lambda>_. ''{}''" "''o''"] m
  show ?thesis by (auto simp: hooked_store_reachable)
qed

section \<open>The SQLite backend\<close>

text \<open>
  C34. A sequence of admissible commits (task writes, push configs, markers, leases) from an empty
  database gives the same answers on the SQLite backend as on the in-memory store, a row of
  another owner counted as not found, and leaves them indistinguishable to the reads: the same
  tasks, the same pages of the task listing under every filter, the same pages of push configs,
  eligible ones included, the same replay from any sequence number and the same latest number.
  Admissible means: a created id is new, a written task is well typed, its artifacts have
  distinct ids (C35 is what happens otherwise), and what the commit stores is codable: it encodes
  and decodes to itself. (The in-memory store takes any value; a SQL backend refuses one that does
  not serialise, a timestamp out of range or an unknown enum value, say.) Of the codec only this
  is assumed, and for the artifacts of the run that they round-trip and their fingerprints do not
  collide. Commits run one after another here: nothing is said about writers that get between the
  read and the write of an \<open>append_message\<close> or of a status write without events (not among the
  commits), which have no transaction around them. Artifacts in rows of their own behind a
  manifest, numbering by \<open>MAX + 1\<close>, paging in SQL and guarding terminal states by a column
  implement the in-memory store.
\<close>

theorem sqlite_refines_memory:
  assumes "codec_ok C A" and "all_admissible C A (with_push_dispatch_enabled b store_new) xs"
    and "run_sql C c xs (sqlite_new b rc) = (answers, db)"
    and "run_mem xs (with_push_dispatch_enabled b store_new) = (answers', s)"
  shows "answers = answers' \<and>
    (\<forall>tn i ow n. sqlite_get_task C tn i ow n db = get_task tn i ow n s) \<and>
    (\<forall>f. tf_tenant f \<noteq> None \<longrightarrow> tf_owner f \<noteq> None \<longrightarrow> sqlite_list_tasks C c f db = list_tasks c f s) \<and>
    (\<forall>tn i tok n. sqlite_list_configs C tn i tok n db = list_configs tn i tok n s) \<and>
    (\<forall>tn i q tok n. q < 2 ^ 63 \<longrightarrow> sqlite_list_configs_eligible_at_event C tn i q tok n db =
       list_configs_eligible_at_event tn i q tok n s) \<and>
    (\<forall>tn i after. after < 2 ^ 63 \<longrightarrow>
       sqlite_get_events_after C tn i after db = get_events_after tn i after s) \<and>
    (\<forall>tn i. sqlite_latest_sequence tn i db = latest_sequence tn i s)"
  using sqlite_run_agrees [OF assms] .

lemma sqlite_refines_memory_witness:
  "let xs = [CCreate 0 ''t'' ''o'' (example_task Submitted) [example_event Submitted],
       CStatus 1 ''t'' ''task'' ''o'' (example_status Working) [example_event Working]];
     f = \<lparr>tf_tenant = Some ''t'', tf_owner = Some ''o'', tf_context_id = None, tf_status = None, tf_page_size = None,
       tf_page_token = None, tf_history_length = None, tf_status_timestamp_after = None, tf_include_artifacts = None\<rparr>
   in sqlite_list_tasks plain_codec unary_chrono f (snd (run_sql plain_codec unary_chrono xs (sqlite_new True (retention_new 60 60)))) =
     list_tasks unary_chrono f (snd (run_mem xs (with_push_dispatch_enabled True store_new)))"
proof -
  have C: "codec_ok plain_codec {}" by (rule plain_codec_ok) simp
  have "all_admissible plain_codec {} (with_push_dispatch_enabled True store_new)
      [CCreate 0 ''t'' ''o'' (example_task Submitted) [example_event Submitted],
       CStatus 1 ''t'' ''task'' ''o'' (example_status Working) [example_event Working]]"
    by (simp add: writable_def well_typed_def get_stored_def with_push_dispatch_enabled_def store_new_def)
      (simp add: example_task_def task_new_def)
  note hyps = C this
  from sqlite_refines_memory [OF hyps prod.collapse [symmetric] prod.collapse [symmetric], of unary_chrono "retention_new 60 60"] show ?thesis
    unfolding Let_def by (simp del: run_sql.simps run_mem.simps)
qed

text \<open>
  C35. When a full-task write carries two artifacts with one id (which an artifact emitted again
  without \<open>append\<close> produces), the SQLite backend accepts it and loses the first: the next read
  returns the second alone, while the in-memory store returns the task as written. (The commits
  before are admissible as in C34, and what this write stores is codable, both artifacts with
  their different fingerprints included.)
\<close>

theorem duplicate_artifact_ids_lose_data:
  assumes "codec_ok C A" and "all_admissible C A (with_push_dispatch_enabled B store_new) xs"
    and "db = snd (run_sql C c xs (sqlite_new B rc))" and "s = snd (run_mem xs (with_push_dispatch_enabled B store_new))"
    and "get_stored s tn (tk_id t) = Some x" and "s_owner x = ow" and "\<not> row_terminal x"
    and "tk_artifacts (s_task x) = [a]" and "well_typed t" and "tk_artifacts t = [a, b]"
    and "art_artifact_id b = art_artifact_id a" and "a \<noteq> b" and "b \<in> A" and "storable_write C now t []"
  shows "fst (sqlite_update_task_with_events C c now tn ow t [] db) = Inr [] \<and>
    sqlite_get_task C tn (tk_id t) ow None (snd (sqlite_update_task_with_events C c now tn ow t [] db)) =
      Inr (Some ((fst (stamp_status now t []))\<lparr>tk_artifacts := [b]\<rparr>)) \<and>
    get_task tn (tk_id t) ow None (snd (update_task_with_events now tn ow t [] s)) =
      Inr (Some (fst (stamp_status now t [])))"
proof -
  have R: "refines C A db s" using run_refines [OF assms(1) refines_new assms(2)] assms(3,4) by simp
  have "get_task tn (tk_id t) ow None (snd (update_task_with_events now tn ow t [] s)) =
      Inr (Some (fst (stamp_status now t [])))"
  proof (cases "update_task_with_events now tn ow t [] s" rule: prod.exhaust)
    case (Pair res s')
    then show ?thesis
    proof (cases rule: update_task_with_events_cases)
      case (committed r)
      with Pair assms(5,6) show ?thesis by (simp add: get_task_def get_put_stored replace_row_def trim_history_def)
    qed (use assms(5-7) in \<open>auto simp: row_terminal_def\<close>)
  qed
  with duplicate_write [OF assms(1,14) R assms(5-13)] show ?thesis by simp
qed

lemma duplicate_artifact_ids_lose_data_witness:
  "let a = artifact_new ''k'' [] in
   let b = a\<lparr>art_name := ''second''\<rparr> in
   let db = snd (run_sql plain_codec unary_chrono [CCreate 0 ''t'' ''o'' ((example_task Working)\<lparr>tk_artifacts := [a]\<rparr>) []]
     (sqlite_new False (retention_new 60 60))) in
   let t = (example_task Working)\<lparr>tk_artifacts := [a, b]\<rparr> in
   \<exists>t'. sqlite_get_task plain_codec ''t'' ''task'' ''o'' None
     (snd (sqlite_update_task_with_events plain_codec unary_chrono 1 ''t'' ''o'' t [] db)) = Inr (Some t') \<and> tk_artifacts t' = [b]"
proof -
  let ?a = "artifact_new ''k'' []"
  let ?b = "?a\<lparr>art_name := ''second''\<rparr>"
  let ?t = "(example_task Working)\<lparr>tk_artifacts := [?a, ?b]\<rparr>"
  have ab: "art_name ?a \<noteq> art_name ?b" by (simp add: artifact_new_def)
  then have C: "codec_ok plain_codec {?a, ?b}" by (intro plain_codec_ok) auto
  let ?xs = "[CCreate 0 ''t'' ''o'' ((example_task Working)\<lparr>tk_artifacts := [?a]\<rparr>) []]"
  let ?s0 = "with_push_dispatch_enabled False store_new"
  have adm: "all_admissible plain_codec {?a, ?b} ?s0 ?xs"
    by (simp add: writable_def get_stored_def with_push_dispatch_enabled_def store_new_def)
      (simp add: well_typed_def)
  obtain x where "get_stored (snd (run_mem ?xs ?s0)) ''t'' (tk_id ?t) = Some x" "s_owner x = ''o''"
      "\<not> row_terminal x" "tk_artifacts (s_task x) = [?a]"
    by (simp add: create_task_with_events_eq Let_def get_put_stored fresh_row_def row_terminal_def)
  note row = this
  have w: "well_typed ?t" by (simp only: strip_well_typed) (simp add: well_typed_def)
  have "tk_artifacts ?t = [?a, ?b]" "art_artifact_id ?b = art_artifact_id ?a" "?a \<noteq> ?b" "?b \<in> {?a, ?b}"
      "storable_write plain_codec 1 ?t []"
    by (simp_all add: artifact_new_def)
  from duplicate_artifact_ids_lose_data [OF C adm refl refl row w this, where c = unary_chrono and rc = "retention_new 60 60"] show ?thesis
    by (auto simp: Let_def)
qed

text \<open>
  C36. Whatever commits, replays and retention did to the tables, the row of every task holds a
  blob that decodes to a task of that id with a known state and no artifacts, and its state,
  context and timestamp columns, which the terminal guard, the listing and retention read
  instead of the blob, are those of that task. (Assumed: a task that encodes at all decodes to
  itself, and operations run one after another.)
\<close>

theorem stored_rows_are_typed:
  assumes "codec_sound C" and "sql_reachable C c db" and "hm_get (sq_tasks db) (tn, i) = Some r"
  shows "\<exists>t st. dec_task C (tr_task_json r) = Inr t \<and> tk_id t = i \<and> i \<noteq> [] \<and> task_state_of t = Some st \<and>
    tk_artifacts t = [] \<and> tr_status_state r = wire_name st \<and> tr_context_id r = tk_context_id t \<and>
    tr_status_timestamp r = task_sort_key c t"
  using rows_typed_row [OF reachable_typed [OF assms(1,2)] assms(3)]
  by (auto simp: row_typed_def well_typed_def status_state_str_def)

lemma stored_rows_are_typed_witness:
  "\<exists>r. hm_get (sq_tasks (snd (sql_commit plain_codec unary_chrono (CCreate 0 ''t'' ''o'' (example_task Submitted) [])
      (sqlite_new False (retention_new 60 60))))) (''t'', ''task'') = Some r \<and>
    (\<exists>t. dec_task plain_codec (tr_task_json r) = Inr t \<and> tk_id t = ''task'')"
proof -
  let ?new = "sqlite_new False (retention_new 60 60) :: (pb_task, stream_event, pb_artifact, push_config) sqlite"
  let ?xs = "[CCreate 0 ''t'' ''o'' (example_task Submitted) []]"
  have C: "codec_ok plain_codec {}" by (rule plain_codec_ok) simp
  have "all_admissible plain_codec {} (with_push_dispatch_enabled False store_new) ?xs"
    by (simp add: writable_def well_typed_def get_stored_def with_push_dispatch_enabled_def store_new_def)
      (simp add: example_task_def task_new_def)
  from run_refines [OF C refines_new this, of unary_chrono "retention_new 60 60"]
  have "refines plain_codec {} (snd (sql_commit plain_codec unary_chrono (hd ?xs) ?new))
      (snd (mem_commit (hd ?xs) (with_push_dispatch_enabled False store_new)))"
    by (simp add: case_prod_unfold)
  then have "task_refines plain_codec {} ''t'' ''task'' (snd (sql_commit plain_codec unary_chrono (hd ?xs) ?new))
      (snd (mem_commit (hd ?xs) (with_push_dispatch_enabled False store_new)))" by (simp add: refines_def)
  then obtain r where r: "hm_get (sq_tasks (snd (sql_commit plain_codec unary_chrono (hd ?xs) ?new))) (''t'', ''task'') = Some r"
    by (auto simp: task_refines_def create_task_with_events_eq Let_def get_put_stored)
  have "sql_reachable plain_codec unary_chrono (snd (sql_commit plain_codec unary_chrono (hd ?xs) ?new))"
    by (intro sql_reachable.intros)
  from stored_rows_are_typed [OF _ this r] r show ?thesis by (auto simp: codec_sound_def)
qed

section \<open>The PostgreSQL backend\<close>

text \<open>
  C37. PostgreSQL sessions that take turns implement the in-memory store, as far as PostgreSQL can
  hold the values: a sequence of commits from an empty database that are admissible (as in C34,
  where codable now means that the value serialises, that its JSONB column holds it, and that it
  comes back as it was) and whose ids, owners, contexts and other texts hold no NUL, which a TEXT
  column refuses and the in-memory store takes, is answered alike; and afterwards the reads whose
  parameters hold no NUL answer alike too (tasks, listings and config pages under the byte
  collation, replays, latest numbers). That no stored text holds one is shown, not assumed.
\<close>

theorem postgres_refines_memory:
  assumes "codec_ok C A" and "all_admissible C A (with_push_dispatch_enabled b store_new) xs"
    and "list_all (\<lambda>x. sendable (commit_texts x)) xs"
    and "run_pg C c xs (postgres_new b rc) = (answers, db)"
    and "run_mem xs (with_push_dispatch_enabled b store_new) = (answers', s)"
  shows "answers = answers' \<and>
    (\<forall>tn i ow n. sendable [tn, i, ow] \<longrightarrow> fst (alone (pg_get_task C tn i ow n) db) = get_task tn i ow n s) \<and>
    (\<forall>f. listing_sendable c f \<longrightarrow> tf_tenant f \<noteq> None \<longrightarrow> tf_owner f \<noteq> None \<longrightarrow>
       fst (alone (pg_list_tasks C (\<lambda>s. s) c f) db) = list_tasks c f s) \<and>
    (\<forall>tn i tok n. sendable ([tn, i] @ (case tok of Some token \<Rightarrow> [token] | None \<Rightarrow> [])) \<longrightarrow>
       fst (alone (pg_list_configs C (\<lambda>s. s) tn i tok n) db) = list_configs tn i tok n s) \<and>
    (\<forall>tn i after. sendable [tn, i] \<longrightarrow> after < 2 ^ 63 \<longrightarrow>
       fst (alone (pg_get_events_after C tn i after) db) = get_events_after tn i after s) \<and>
    (\<forall>tn i. sendable [tn, i] \<longrightarrow> fst (alone (pg_latest_sequence tn i) db) = latest_sequence tn i s)"
proof -
  have "refines C A (in_seconds (postgres_new b rc)) (with_push_dispatch_enabled b store_new)"
    using refines_new [of C A b rc] by (simp add: postgres_new_seconds)
  from postgres_runs [OF assms(1) this assms(2) texts_ok_new assms(3), of c]
  have run: "run_sql C c xs (sqlite_new b rc) = (answers, in_seconds db)"
    by (simp add: assms(4) postgres_new_seconds)
  note agree = sqlite_run_agrees [OF assms(1,2) run assms(5)]
  have read: "fst (alone m db) = r" if "seen_alone m db = (r, d)" for m r d
    using that by (rule alone_rows(1))
  show ?thesis
    using agree read [OF get_alone] read [OF replay_alone] read [OF latest_alone] list_alone [of c _ C db]
      configs_alone(1) [of _ _ _ C _ db]
    by (intro conjI allI impI) simp_all
qed

lemma postgres_refines_memory_witness:
  "let xs = [CCreate 0 ''t'' ''o'' (example_task Submitted) [example_event Submitted],
       CStatus 1 ''t'' ''task'' ''o'' (example_status Working) [example_event Working]]
   in fst (alone (pg_get_events_after plain_codec ''t'' ''task'' 0)
       (snd (run_pg plain_codec unary_chrono xs (postgres_new True (retention_new 60 60))))) =
     get_events_after ''t'' ''task'' 0 (snd (run_mem xs (with_push_dispatch_enabled True store_new)))"
proof -
  have C: "codec_ok plain_codec {}" by (rule plain_codec_ok) simp
  have "all_admissible plain_codec {} (with_push_dispatch_enabled True store_new)
      [CCreate 0 ''t'' ''o'' (example_task Submitted) [example_event Submitted],
       CStatus 1 ''t'' ''task'' ''o'' (example_status Working) [example_event Working]]"
    by (simp add: writable_def well_typed_def get_stored_def with_push_dispatch_enabled_def store_new_def)
      (simp add: example_task_def task_new_def)
  note hyps = C this
  have texts: "list_all (\<lambda>x. sendable (commit_texts x))
      [CCreate 0 ''t'' ''o'' (example_task Submitted) [example_event Submitted],
       CStatus 1 ''t'' ''task'' ''o'' (example_status Working) [example_event Working]]"
    by (simp add: sendable_simps no_nul_def task_texts_def example_task_def task_new_def)
  have "sendable [''t'', ''task'']" by (simp add: sendable_simps no_nul_def)
  with postgres_refines_memory [OF hyps texts prod.collapse [symmetric] prod.collapse [symmetric], of unary_chrono "retention_new 60 60"]
  show ?thesis
    unfolding Let_def by (simp del: run_pg.simps run_mem.simps)
qed

text \<open>
  C38. A status commit on PostgreSQL is fenced whatever other sessions commit between its
  statements: if it succeeds, the row was the owner's and not terminal at the update, and the
  committed row has the new state; if it fails, the database is what the others made of it.
\<close>

theorem postgres_commits_are_fenced:
  assumes "run_program (transaction (pg_status_tx C c b now tn i ow st evs)) g db = (res, db')"
  shows "(case res of
      Inl e \<Rightarrow> \<exists>n. db' = passed g n db
    | Inr (t', manifest, seqs) \<Rightarrow> (\<exists>r. owned_row tn i ow (passed g 2 db) = Some r \<and> \<not> pg_terminal r) \<and>
        (\<exists>r. hm_get (sq_tasks db') (tn, i) = Some r \<and> tr_status_state r = status_state_str t'))"
  by (rule status_commit_is_fenced [OF assms])

lemma postgres_commits_are_fenced_witness:
  "\<exists>n. snd (run_program (transaction (pg_status_tx plain_codec unary_chrono False 0 ''t'' ''task'' ''o''
      (example_status Completed) [])) raced_gaps example_pg) = passed raced_gaps n example_pg"
proof -
  obtain e where "run_program (transaction (pg_status_tx plain_codec unary_chrono False 0 ''t'' ''task'' ''o''
      (example_status Completed) [])) raced_gaps example_pg = (Inl e, snd (run_program (transaction
      (pg_status_tx plain_codec unary_chrono False 0 ''t'' ''task'' ''o'' (example_status Completed) [])) raced_gaps example_pg))"
    using raced_commit_fails by (metis prod.collapse)
  from postgres_commits_are_fenced [OF this] show ?thesis by simp
qed

section \<open>The DynamoDB backend\<close>

text \<open>
  C39. The event log of a task on DynamoDB survives every interleaving. Each request of any
  mutating call goes along the log's relation whatever others did before it; so, among sessions
  and reapings that go along it too, a whole call leaves the counter no lower, and every number up
  to the counter keeps the event that stood under it, or loses it to expiry, but never gets another.
\<close>

theorem dynamo_logs_survive_races:
  fixes db :: "('t, 'e, 'a, 'c) dynamo"
  shows "(\<exists>r n s. dynamo_call_program C E cf now c (g, db, \<lambda>d. d) = (r, (\<lambda>k. g (n + k), s n, \<lambda>d. d)) \<and> s 0 = db \<and>
      (\<forall>k<n. log_rel (dynamo_task_key tn i) (g k (s k)) (s (Suc k)))) \<and>
    ((\<forall>k d. log_rel (dynamo_task_key tn i) d (g k d)) \<and> log_inv (dynamo_task_key tn i) db \<and>
       run_program (dynamo_call_program C E cf now c) g db = (res, db') \<longrightarrow>
       log_inv (dynamo_task_key tn i) db' \<and>
       counter_at db (dynamo_task_key tn i) \<le> counter_at db' (dynamo_task_key tn i) \<and>
       (\<forall>sq. 1 \<le> sq \<and> sq \<le> counter_at db (dynamo_task_key tn i) \<longrightarrow>
          event_at db' (dynamo_task_key tn i) sq = event_at db (dynamo_task_key tn i) sq \<or>
          event_at db' (dynamo_task_key tn i) sq = None))"
proof -
  have keeps: "dlog.keeps (dynamo_task_key tn i) (dynamo_call_program C E cf now c)"
    by (rule keeps_call) (rule task_key_hash)
  have rel: "log_rel (dynamo_task_key tn i) db db'"
    if "\<forall>k d. log_rel (dynamo_task_key tn i) d (g k d)" "run_program (dynamo_call_program C E cf now c) g db = (res, db')"
    using dlog.keeps_run [OF keeps _ that(2)] that(1) by (simp add: dlog.others_def)
  show ?thesis
  proof (rule conjI, rule keeps [unfolded dlog.keeps_def dlog.steps_along_def, rule_format], intro impI, elim conjE)
    assume "\<forall>k d. log_rel (dynamo_task_key tn i) d (g k d)" "log_inv (dynamo_task_key tn i) db"
      "run_program (dynamo_call_program C E cf now c) g db = (res, db')"
    note along = log_relD [OF rel [OF this(1,3)] this(2)]
    then show "log_inv (dynamo_task_key tn i) db' \<and>
       counter_at db (dynamo_task_key tn i) \<le> counter_at db' (dynamo_task_key tn i) \<and>
       (\<forall>sq. 1 \<le> sq \<and> sq \<le> counter_at db (dynamo_task_key tn i) \<longrightarrow>
          event_at db' (dynamo_task_key tn i) sq = event_at db (dynamo_task_key tn i) sq \<or>
          event_at db' (dynamo_task_key tn i) sq = None)"
      by simp
  qed
qed

lemma dynamo_logs_survive_races_witness:
  "log_inv (dynamo_task_key ''t'' ''task'') (snd (run_program (dynamo_call_program plain_codec example_aws
     dynamo_config_default 0 (CallAppendEvent ''t'' ''task'' (example_event Working))) finishing_gaps (example_dynamo Working)))"
proof -
  let ?p = "dynamo_call_program plain_codec example_aws dynamo_config_default 0
    (CallAppendEvent ''t'' ''task'' (example_event Working))"
  have "run_program ?p finishing_gaps (example_dynamo Working) = (fst (run_program ?p finishing_gaps (example_dynamo Working)),
      snd (run_program ?p finishing_gaps (example_dynamo Working)))" by simp
  with dynamo_logs_survive_races [of plain_codec example_aws dynamo_config_default 0
      "CallAppendEvent ''t'' ''task'' (example_event Working)" finishing_gaps "example_dynamo Working" "''t''" "''task''"]
  show ?thesis using finishing_gaps_log log_inv_example by blast
qed

text \<open>
  C40. As long as the counter item of the task stands: let the log be well formed before
  (\<open>log_inv\<close>: the partition holds the counter and events numbered up to it) and let what others do
  between the requests go along the log's relation (\<open>log_rel\<close>), as every call of this library does
  (C39). Then an append that succeeds on DynamoDB has stored its event under the number it
  answers, which is new and the last one; and it succeeds as soon as one of its 32 attempts meets
  neither a conflicting transaction nor a commit to the same log between its read and its write.
  The relation lets DynamoDB reap events but not the counter: the code gives the counter a time to
  live by default, the longer of the events' and the task's since the last append, and if it is
  reaped while events remain, the conclusion fails (numbers restart below them and an append may
  meet an old event). With either lifetime 0 the counter has none, and what is reaped is events.
\<close>

theorem dynamo_appends_are_exact:
  fixes db :: "('t, 'e, 'a, 'c) dynamo"
  assumes "\<And>k d. log_rel (dynamo_task_key tn i) d (g k d)" and "log_inv (dynamo_task_key tn i) db"
  shows "(run_program (dynamo_append_event C E cf now tn i ev) g db = (Inr sq, db') \<longrightarrow>
      counter_at db (dynamo_task_key tn i) < sq \<and> counter_at db' (dynamo_task_key tn i) = sq \<and>
      (\<exists>data ttl. enc_event C ev = Inr data \<and> event_at db' (dynamo_task_key tn i) sq = Some (EventItem sq data ttl))) \<and>
    (enc_event C ev = Inr data \<and> j < 32 \<and> calm E (dynamo_task_key tn i) j (\<lambda>n. g (2 * j + n)) \<longrightarrow>
      (\<exists>sq db'. run_program (dynamo_append_event C E cf now tn i ev) g db = (Inr sq, db')))"
proof -
  have others: "dlog.others (dynamo_task_key tn i) g" using assms(1) by (simp add: dlog.others_def)
  show ?thesis
    using append_event_run [OF others assms(2), of C E cf now ev sq db'] append_event_wins [OF _ others assms(2), of C ev]
    by (auto simp: appended_def)
qed

lemma dynamo_appends_are_exact_witness:
  "\<exists>sq db'. run_program (dynamo_append_event plain_codec example_aws dynamo_config_default 0 ''t'' ''task''
     (example_event Working)) finishing_gaps (example_dynamo Working) = (Inr sq, db') \<and> 0 < sq"
proof -
  have calm: "calm example_aws (dynamo_task_key ''t'' ''task'') 0 (\<lambda>n. finishing_gaps (2 * 0 + n))"
    by (simp add: calm_def example_aws_def finishing_gaps_def)
  have enc: "enc_event plain_codec (example_event Working) = Inr (example_event Working)" by (simp add: plain_codec_def)
  note exact = dynamo_appends_are_exact [OF finishing_gaps_log log_inv_example [where st = Working], where E = example_aws and C = plain_codec
      and cf = dynamo_config_default and now = 0 and ev = "example_event Working"]
  obtain sq db' where run: "run_program (dynamo_append_event plain_codec example_aws dynamo_config_default
      0 ''t'' ''task'' (example_event Working)) finishing_gaps (example_dynamo Working) = (Inr sq, db')"
    using exact [THEN conjunct2, THEN mp, OF conjI [OF enc conjI [OF _ calm]]] by auto
  from exact [THEN conjunct1, THEN mp, OF run, THEN conjunct1] have "0 < sq" by (rule le_less_trans [OF le0])
  with run show ?thesis by blast
qed

end
